(* ===== verification/Prelude.thy ===== *)
theory Prelude
  imports Main "HOL-Library.Word" "HOL-Library.Monad_Syntax"
begin

text \<open>
  Shared vocabulary of the development: the C integer types of GLib as machine words, the
  little-endian conversion between words and byte buffers that the x86 targets use, the
  view of a target's address space as a function from addresses to bytes with bulk loads
  and stores, and the conventions of the model.

  Functions of the server that may fail to return (an abort through \<open>g_error\<close> or
  \<open>g_assert\<close>, a memory access outside an object, a loop that does not end) have an
  \<open>option\<close> result; \<open>None\<close> is "this call does not return normally".
\<close>

unbundle bit_operations_syntax

type_synonym guint8 = "8 word"
type_synonym guint32 = "32 word"
type_synonym guint64 = "64 word"
type_synonym gint = int \<comment> \<open>C \<open>int\<close> where overflow would be undefined behaviour\<close>
type_synonym pid = guint32
type_synonym errno = int

text \<open>An address space of word width \<open>'w\<close>.\<close>

type_synonym 'w mem = "'w word \<Rightarrow> guint8"

named_theorems bpm_defs \<open>definitions of the breakpoint manager\<close>
named_theorems os_defs \<open>definitions of the operating system layer\<close>
named_theorems lock_simps \<open>effect of an operation on the breakpoint manager's mutex\<close>
named_theorems frame_simps \<open>fields of the server that an operation leaves alone\<close>

section \<open>Bytes and words\<close>

text \<open>\<open>sizeof (long)\<close> (also of \<open>gsize\<close> and of a pointer) on a target of word width \<open>'w\<close>.\<close>

definition sizeof_long :: "'w::len itself \<Rightarrow> nat" where
  "sizeof_long _ = LENGTH('w) div 8"

lemma sizeof_long_32 [simp]: "sizeof_long TYPE(32) = 4"
  by (simp add: sizeof_long_def)

lemma sizeof_long_64 [simp]: "sizeof_long TYPE(64) = 8"
  by (simp add: sizeof_long_def)

text \<open>Reading an integer out of a byte buffer and writing it into one, least byte first.\<close>

fun le_word :: "guint8 list \<Rightarrow> 'w::len word" where
  "le_word [] = 0"
| "le_word (b # bs) = ucast b OR push_bit 8 (le_word bs)"

fun le_bytes :: "nat \<Rightarrow> 'w::len word \<Rightarrow> guint8 list" where
  "le_bytes 0 w = []"
| "le_bytes (Suc n) w = ucast w # le_bytes n (drop_bit 8 w)"

lemma length_le_bytes [simp]: "length (le_bytes n w) = n"
  by (induction n w rule: le_bytes.induct) auto

lemma nth_le_bytes:
  "i < n \<Longrightarrow> le_bytes n w ! i = ucast (drop_bit (8 * i) w)"
proof (induction n w arbitrary: i rule: le_bytes.induct)
  case (2 n w)
  then show ?case by (cases i) (auto simp: drop_bit_drop_bit ac_simps)
qed simp

lemma bit_le_word:
  "bit (le_word bs :: 'w::len word) k \<longleftrightarrow>
     k < LENGTH('w) \<and> k div 8 < length bs \<and> bit (bs ! (k div 8)) (k mod 8)"
proof (induction bs arbitrary: k)
  case (Cons b bs)
  show ?case
  proof (cases "k < 8")
    case True
    then show ?thesis by (auto simp: bit_simps)
  next
    case False
    then obtain j where j: "k = 8 + j" using le_Suc_ex by (metis not_less)
    have "\<not> bit b k" using False by (auto dest: bit_imp_le_length)
    then show ?thesis
      using Cons.IH [of j] False by (auto simp: bit_simps j div_add_self1)
  qed
qed simp

lemma le_bytes_le_word:
  assumes "length bs = n" and "8 * n \<le> LENGTH('w)"
  shows "le_bytes n (le_word bs :: 'w::len word) = bs"
proof (rule nth_equalityI)
  show "length (le_bytes n (le_word bs :: 'w word)) = length bs" using assms by simp
next
  fix i assume "i < length (le_bytes n (le_word bs :: 'w word))"
  then have i: "i < n" by simp
  show "le_bytes n (le_word bs :: 'w word) ! i = bs ! i"
  proof (rule bit_word_eqI)
    fix k assume k: "k < LENGTH(8)"
    then have "(8 * i + k) div 8 = i" "(8 * i + k) mod 8 = k" by simp_all
    moreover have "8 * i + k < LENGTH('w)" using i k assms by simp
    ultimately show "bit (le_bytes n (le_word bs :: 'w word) ! i) k = bit (bs ! i) k"
      using i k assms by (auto simp: nth_le_bytes bit_simps bit_le_word)
  qed
qed

lemma le_word_le_bytes:
  assumes "LENGTH('w) \<le> 8 * n"
  shows "le_word (le_bytes n (w :: 'w::len word)) = w"
proof (rule bit_word_eqI)
  fix k assume k: "k < LENGTH('w)"
  then have d: "k div 8 < n" using assms by linarith
  show "bit (le_word (le_bytes n w) :: 'w word) k = bit w k"
    using k d by (auto simp: bit_le_word nth_le_bytes bit_simps)
qed

lemma le_word_append_zero:
  "le_word (bs @ replicate n 0) = (le_word bs :: 'w::len word)"
proof (rule bit_word_eqI)
  fix k assume k: "k < LENGTH('w)"
  show "bit (le_word (bs @ replicate n 0) :: 'w word) k = bit (le_word bs :: 'w word) k"
    using k by (auto simp: bit_le_word nth_append)
qed

section \<open>Address spaces\<close>

definition load :: "'w::len mem \<Rightarrow> 'w word \<Rightarrow> nat \<Rightarrow> guint8 list" where
  "load m a n = map (\<lambda>i. m (a + of_nat i)) [0..<n]"

definition store :: "'w::len mem \<Rightarrow> 'w word \<Rightarrow> guint8 list \<Rightarrow> 'w mem" where
  "store m a bs = (\<lambda>x. if unat (x - a) < length bs then bs ! unat (x - a) else m x)"

text \<open>The addresses of the \<open>n\<close> bytes from \<open>a\<close> on.\<close>

definition span :: "'w::len word \<Rightarrow> nat \<Rightarrow> 'w word set" where
  "span a n = {x. unat (x - a) < n}"

lemma length_load [simp]: "length (load m a n) = n"
  by (simp add: load_def)

lemma nth_load [simp]: "i < n \<Longrightarrow> load m a n ! i = m (a + of_nat i)"
  by (simp add: load_def)

lemma load_Suc: "load m a (Suc n) = m a # load m (a + 1) n"
  by (rule nth_equalityI) (auto simp: nth_Cons' of_nat_diff ac_simps split: nat.splits)

lemma load_0 [simp]: "load m a 0 = []"
  by (simp add: load_def)

lemma load_1 [simp]: "load m a (Suc 0) = [m a]"
  by (simp add: load_def)

lemma store_Nil [simp]: "store m a [] = m"
  by (simp add: store_def)

lemma store_single: "store m a [b] = m(a := b)"
  by (auto simp: store_def fun_eq_iff unat_eq_zero)

lemma span_0 [simp]: "span a 0 = {}"
  by (simp add: span_def)

lemma span_1 [simp]: "span a (Suc 0) = {a}"
  by (auto simp: span_def unat_eq_zero)

lemma span_mono: "m \<le> n \<Longrightarrow> span a m \<subseteq> span a n"
  by (auto simp: span_def)

lemma unat_of_nat_small:
  "i < 2 ^ LENGTH('w) \<Longrightarrow> unat (of_nat i :: 'w::len word) = i"
  by (simp add: unat_of_nat take_bit_eq_mod)

lemma span_shift:
  assumes "i + n \<le> m" and "m \<le> 2 ^ LENGTH('w)"
  shows "span (a + of_nat i) n \<subseteq> span (a :: 'w::len word) m"
proof
  fix x assume "x \<in> span (a + of_nat i) n"
  then have lt: "unat (x - a - of_nat i) < n" by (simp add: span_def algebra_simps)
  then have i: "unat (of_nat i :: 'w word) = i" using assms by (intro unat_of_nat_small) simp
  have "x - a = (x - a - of_nat i) + of_nat i" by simp
  then have "unat (x - a) \<le> unat (x - a - of_nat i) + i"
    using i by (metis unat_plus_if' diff_le_self le_refl)
  then show "x \<in> span a m" using lt assms by (simp add: span_def)
qed

lemma store_outside: "x \<notin> span a (length bs) \<Longrightarrow> store m a bs x = m x"
  by (simp add: store_def span_def)

lemma store_inside:
  assumes "i < length bs" and "length bs \<le> 2 ^ LENGTH('w)"
  shows "store m (a :: 'w::len word) bs (a + of_nat i) = bs ! i"
proof -
  have "unat (of_nat i :: 'w word) = i" using assms by (intro unat_of_nat_small) simp
  then show ?thesis using assms by (simp add: store_def)
qed

lemma load_store_same:
  "length bs \<le> 2 ^ LENGTH('w) \<Longrightarrow> load (store m (a :: 'w::len word) bs) a (length bs) = bs"
  by (rule nth_equalityI) (simp_all add: store_inside)

lemma load_cong_span:
  assumes "\<And>x. x \<in> span a n \<Longrightarrow> m x = m' x" and "n \<le> 2 ^ LENGTH('w)"
  shows "load m (a :: 'w::len word) n = load m' a n"
proof (rule nth_equalityI)
  fix i assume "i < length (load m a n)"
  then have i: "i < n" by simp
  then have "unat (of_nat i :: 'w word) = i" using assms by (intro unat_of_nat_small) simp
  then have "a + of_nat i \<in> span a n" using i by (simp add: span_def)
  then show "load m a n ! i = load m' a n ! i" using i assms by simp
qed simp

lemma load_store_disjoint:
  assumes "span a n \<inter> span b (length bs) = {}" and "n \<le> 2 ^ LENGTH('w)"
  shows "load (store m b bs) (a :: 'w::len word) n = load m a n"
  using assms by (intro load_cong_span store_outside) auto

lemma store_load_id:
  assumes "n \<le> 2 ^ LENGTH('w)"
  shows "store m (a :: 'w::len word) (load m a n) = m"
proof
  fix x
  show "store m a (load m a n) x = m x"
    by (simp add: store_def)
qed

lemma store_append:
  assumes "length bs + length cs \<le> 2 ^ LENGTH('w)"
  shows "store (store m (a :: 'w::len word) bs) (a + of_nat (length bs)) cs = store m a (bs @ cs)"
proof
  fix x
  have eq: "x - (a + of_nat (length bs)) = (x - a) - of_nat (length bs)" by (simp add: algebra_simps)
  show "store (store m a bs) (a + of_nat (length bs)) cs x = store m a (bs @ cs) x"
  proof (cases "cs = []")
    case False
    then have n: "unat (of_nat (length bs) :: 'w word) = length bs"
      using assms by (intro unat_of_nat_small) (cases cs; simp)
    have u: "unat (x - (a + of_nat (length bs))) =
        (if length bs \<le> unat (x - a) then unat (x - a) - length bs
         else unat (x - a) + 2 ^ LENGTH('w) - length bs)"
      unfolding eq using n unat_sub_if' [of "x - a" "of_nat (length bs)"] by simp
    have "unat (x - a) < 2 ^ LENGTH('w)" by (rule unsigned_less)
    then show ?thesis
      using assms u by (auto simp: store_def nth_append)
  qed simp
qed

lemma store_tail:
  assumes "length bs \<le> n" and "n \<le> 2 ^ LENGTH('w)"
  shows "store m (a :: 'w::len word) (bs @ drop (length bs) (load m a n)) = store m a bs"
proof
  fix x
  show "store m a (bs @ drop (length bs) (load m a n)) x = store m a bs x"
    using assms by (auto simp: store_def nth_append)
qed

section \<open>Narrowing casts\<close>

lemma ucast_add_down:
  assumes "LENGTH('w) \<le> LENGTH('v)"
  shows "(ucast (a + b :: 'v::len word) :: 'w::len word) = ucast a + ucast b"
proof (rule word_uint_eqI)
  show "uint (ucast (a + b) :: 'w word) = uint (ucast a + ucast b :: 'w word)"
    using assms
    by (simp add: unsigned_ucast_eq uint_word_ariths take_bit_eq_mod mod_mod_cancel
        le_imp_power_dvd mod_add_eq)
qed

lemma ucast_of_nat_down:
  assumes "LENGTH('w) \<le> LENGTH('v)"
  shows "(ucast (of_nat n :: 'v::len word) :: 'w::len word) = of_nat n"
proof (rule word_uint_eqI)
  show "uint (ucast (of_nat n :: 'v word) :: 'w word) = uint (of_nat n :: 'w word)"
    using assms by (simp add: unsigned_ucast_eq unsigned_of_nat min_absorb1)
qed

section \<open>Option results\<close>

lemma bind_eq_Some [simp]:
  "Option.bind x f = Some y \<longleftrightarrow> (\<exists>z. x = Some z \<and> f z = Some y)"
  by (cases x) auto

lemma case_prod_eq_Some:
  "(case p of (a, b) \<Rightarrow> f a b) = Some y \<longleftrightarrow> f (fst p) (snd p) = Some y"
  by (cases p) simp

text \<open>The elements of a list after \<open>g_ptr_array_remove_fast\<close>: the first occurrence is
  overwritten by the last element and the array is shortened by one.\<close>

fun index_of :: "'a \<Rightarrow> 'a list \<Rightarrow> nat" where
  "index_of x [] = 0"
| "index_of x (y # ys) = (if x = y then 0 else Suc (index_of x ys))"

definition remove_fast :: "'a \<Rightarrow> 'a list \<Rightarrow> 'a list" where
  "remove_fast x xs =
     (if x \<in> set xs then butlast (xs[index_of x xs := last xs]) else xs)"

lemma index_of_less: "x \<in> set xs \<Longrightarrow> index_of x xs < length xs \<and> xs ! index_of x xs = x"
  by (induction xs) auto

lemma set_butlast_update:
  "i < length xs \<Longrightarrow> distinct xs \<Longrightarrow> set (butlast (xs[i := last xs])) = set xs - {xs ! i} \<and>
     distinct (butlast (xs[i := last xs]))"
proof (induction xs rule: rev_induct)
  case (snoc y ys)
  show ?case
  proof (cases "i = length ys")
    case True
    with snoc.prems show ?thesis by (auto simp: list_update_append butlast_append)
  next
    case False
    with snoc.prems have i: "i < length ys" by simp
    then have upd: "butlast ((ys @ [y])[i := last (ys @ [y])]) = ys[i := y]"
      by (simp add: list_update_append)
    have y: "y \<notin> set ys" and d: "distinct ys" using snoc.prems by auto
    have "set (ys[i := y]) = insert y (set ys - {ys ! i})"
      using i d by (simp add: set_update_distinct)
    moreover have "distinct (ys[i := y])"
      using i d y by (intro distinct_list_update) auto
    ultimately show ?thesis using i y upd by (auto simp: nth_append)
  qed
qed simp

lemma set_remove_fast [simp]: "distinct xs \<Longrightarrow> set (remove_fast x xs) = set xs - {x}"
  using set_butlast_update [of "index_of x xs" xs] index_of_less [of x xs]
  by (auto simp: remove_fast_def)

lemma distinct_remove_fast [simp]: "distinct xs \<Longrightarrow> distinct (remove_fast x xs)"
  using set_butlast_update [of "index_of x xs" xs] index_of_less [of x xs]
  by (auto simp: remove_fast_def)

section \<open>Byte buffers\<close>

text \<open>A store through a pointer into a local buffer, at an offset, of bytes that fit in; and the
  little-endian bytes of a \<open>guint32\<close> and of a \<open>guint64\<close>.\<close>

definition put_bytes :: "nat \<Rightarrow> guint8 list \<Rightarrow> guint8 list \<Rightarrow> guint8 list" where
  "put_bytes off bs buf = take off buf @ bs @ drop (off + length bs) buf"

abbreviation le32 :: "guint32 \<Rightarrow> guint8 list" where "le32 w \<equiv> le_bytes 4 w"
abbreviation le64 :: "guint64 \<Rightarrow> guint8 list" where "le64 w \<equiv> le_bytes 8 w"

definition get_bytes :: "nat \<Rightarrow> nat \<Rightarrow> guint8 list \<Rightarrow> guint8 list" where
  "get_bytes off n buf = take n (drop off buf)"

lemma length_put_bytes [simp]:
  "off + length bs \<le> length buf \<Longrightarrow> length (put_bytes off bs buf) = length buf"
  by (simp add: put_bytes_def)

lemma get_put_bytes_same:
  "off + length bs \<le> length buf \<Longrightarrow> n = length bs \<Longrightarrow> get_bytes off n (put_bytes off bs buf) = bs"
  by (simp add: get_bytes_def put_bytes_def)

lemma get_put_bytes_other:
  assumes "off + length bs \<le> length buf" and "i + n \<le> off \<or> off + length bs \<le> i"
  shows "get_bytes i n (put_bytes off bs buf) = get_bytes i n buf"
proof (rule nth_equalityI)
  show "length (get_bytes i n (put_bytes off bs buf)) = length (get_bytes i n buf)"
    using assms by (simp add: get_bytes_def)
next
  fix j assume "j < length (get_bytes i n (put_bytes off bs buf))"
  then have "j < n" and "i + j < length buf" using assms(1) by (auto simp: get_bytes_def)
  then show "get_bytes i n (put_bytes off bs buf) ! j = get_bytes i n buf ! j"
    using assms by (auto simp: get_bytes_def put_bytes_def nth_append nth_Cons')
qed

lemma length_get_bytes [simp]: "off + n \<le> length buf \<Longrightarrow> length (get_bytes off n buf) = n"
  by (simp add: get_bytes_def)

lemma get_bytes_get_bytes [simp]:
  "i + j \<le> n \<Longrightarrow> get_bytes i j (get_bytes off n buf) = get_bytes (off + i) j buf"
  by (simp add: get_bytes_def drop_take add.commute min_def)

text \<open>Loading a part of a block that was stored.\<close>

lemma load_store_part:
  fixes a :: "'w::len word"
  assumes "off + n \<le> length bs" and "length bs \<le> 2 ^ LENGTH('w)"
  shows "load (store m a bs) (a + of_nat off) n = get_bytes off n bs"
proof (rule nth_equalityI)
  fix i assume "i < length (load (store m a bs) (a + of_nat off) n)"
  then have i: "i < n" by simp
  have "store m a bs (a + of_nat (off + i)) = bs ! (off + i)" using i assms by (intro store_inside) simp_all
  then show "load (store m a bs) (a + of_nat off) n ! i = get_bytes off n bs ! i"
    using i assms by (simp add: get_bytes_def add.assoc)
qed (use assms in simp)

text \<open>A block of zero bytes as large as an \<open>int\<close> can say; a larger request makes \<open>g_malloc0\<close> abort.\<close>

definition g_malloc0 :: "nat \<Rightarrow> guint8 list option" where
  "g_malloc0 n = (if n < 2 ^ 31 then Some (replicate n 0) else None)"

lemma g_malloc0_Some [simp]: "g_malloc0 n = Some buf \<longleftrightarrow> n < 2 ^ 31 \<and> buf = replicate n 0"
  by (auto simp: g_malloc0_def)

lemma ucast_word_of_int_32: "(ucast (word_of_int i :: guint64) :: guint32) = word_of_int i"
  by transfer simp

end
