(* ===== verification/Jay_Defs.thy ===== *)
theory Jay_Defs
  imports Prelude
begin

text \<open>
  The parser generator \<open>jay\<close> (\<open>src/frontend/jay/\<close>), which makes the parser of the debugger's expressions: the macros and
  structs of \<open>defs.h\<close>, rows of bits, and the grammar as the tables that \<open>reader.c\<close> leaves for the later phases.

  An array of C \<open>short\<close>s is a list of numbers; sizes are those of a well-formed grammar, which fit a \<open>short\<close>. A list that the
  source ends with \<open>-1\<close>, and a chain of structs, is a list. A result \<open>None\<close> is, as in the server, a call that
  does not return normally: here mostly an exit through \<open>fatal\<close> or an access outside an array.
\<close>

section \<open>Constants and macros\<close>

definition MAXSHORT :: nat where "MAXSHORT = 32767"
definition MAXTABLE :: nat where "MAXTABLE = 32500"
text \<open>Storing an \<open>int\<close> in a \<open>short\<close>.\<close>

definition to_short :: "int \<Rightarrow> int" where
  "to_short x = (x + 2 ^ 15) mod 2 ^ 16 - 2 ^ 15"

lemma to_short_id [simp]: "- (2 ^ 15) \<le> x \<Longrightarrow> x < 2 ^ 15 \<Longrightarrow> to_short x = x"
  by (simp add: to_short_def)

definition BITS_PER_WORD :: nat where "BITS_PER_WORD = 32"

definition WORDSIZE :: "nat \<Rightarrow> nat" where
  "WORDSIZE n = (n + (BITS_PER_WORD - 1)) div BITS_PER_WORD"

type_synonym bits = "guint32 list" \<comment> \<open>an array of \<open>unsigned\<close>, read bit by bit\<close>

definition BIT :: "bits \<Rightarrow> nat \<Rightarrow> guint32" where
  "BIT r n = drop_bit (n mod 32) (r ! (n div 32)) AND 1"

definition SETBIT :: "bits \<Rightarrow> nat \<Rightarrow> bits" where
  "SETBIT r n = r[n div 32 := r ! (n div 32) OR push_bit (n mod 32) 1]"

section \<open>Rows of bits as sets\<close>

definition members :: "bits \<Rightarrow> nat set" where
  "members r = {n. n < 32 * length r \<and> bit (r ! (n div 32)) (n mod 32)}"

text \<open>The loop \<open>*p++ |= *q++\<close> over two rows.\<close>

definition or_row :: "bits \<Rightarrow> bits \<Rightarrow> bits" where
  "or_row p q = map2 (OR) p q"

lemma WORDSIZE_enough: "n \<le> 32 * WORDSIZE n"
  by (simp add: WORDSIZE_def BITS_PER_WORD_def)

lemma mem_members_lt: "n \<in> members r \<Longrightarrow> n < 32 * length r"
  by (simp add: members_def)

lemma finite_members [simp]: "finite (members r)"
  by (rule finite_subset [of _ "{..<32 * length r}"]) (auto simp: members_def)

lemma length_SETBIT [simp]: "length (SETBIT r n) = length r"
  by (simp add: SETBIT_def)

lemma length_or_row [simp]: "length (or_row p q) = min (length p) (length q)"
  by (simp add: or_row_def)

lemma div_32_less: "n < 32 * m \<Longrightarrow> n div 32 < m" for n m :: nat
  by (simp add: less_mult_imp_div_less mult.commute)

lemma members_SETBIT [simp]:
  assumes "n < 32 * length r"
  shows "members (SETBIT r n) = insert n (members r)"
proof -
  have "bit (SETBIT r n ! (k div 32)) (k mod 32) \<longleftrightarrow> k = n \<or> bit (r ! (k div 32)) (k mod 32)" if "k < 32 * length r" for k
  proof (cases "k div 32 = n div 32")
    case True
    then have "k = n \<longleftrightarrow> k mod 32 = n mod 32" by (metis div_mod_decomp)
    then show ?thesis using True div_32_less [OF assms] by (auto simp: SETBIT_def bit_simps)
  next
    case False
    then show ?thesis by (auto simp: SETBIT_def)
  qed
  then show ?thesis using assms by (auto simp: members_def)
qed

lemma members_or_row [simp]:
  "length p = length q \<Longrightarrow> members (or_row p q) = members p \<union> members q"
  by (auto simp: members_def or_row_def bit_or_iff div_32_less)

lemma members_zero [simp]: "members (replicate n 0) = {}"
  by (auto simp: members_def div_32_less)

lemma bit_1_and: "(drop_bit k w AND 1 \<noteq> 0) = bit w k" for w :: "'a::len word"
  by (simp add: and_one_eq bit_iff_odd_drop_bit odd_iff_mod_2_eq_one mod2_eq_if)

lemma BIT_iff: "n < 32 * length r \<Longrightarrow> (BIT r n \<noteq> 0) = (n \<in> members r)"
  by (simp add: BIT_def members_def bit_1_and)

lemma and_exp_iff: "(w AND 2 ^ k \<noteq> 0) = bit w k" for w :: "'a::len word"
  by (simp add: bit_iff_and_push_bit_not_eq_0)

text \<open>Loops that set bits and loops that join rows.\<close>

lemma fold_SETBIT:
  assumes "\<And>x. x \<in> set xs \<Longrightarrow> P x \<Longrightarrow> f x < 32 * length row"
  shows "length (fold (\<lambda>x row. if P x then SETBIT row (f x) else row) xs row) = length row"
    "members (fold (\<lambda>x row. if P x then SETBIT row (f x) else row) xs row) = members row \<union> f ` {x \<in> set xs. P x}"
proof -
  have "length (fold (\<lambda>x row. if P x then SETBIT row (f x) else row) xs row) = length row \<and>
      members (fold (\<lambda>x row. if P x then SETBIT row (f x) else row) xs row) = members row \<union> f ` {x \<in> set xs. P x}"
    using assms
  proof (induction xs arbitrary: row)
    case (Cons x xs)
    show ?case
    proof (cases "P x")
      case True
      then have "f x < 32 * length row" "\<And>y. y \<in> set xs \<Longrightarrow> P y \<Longrightarrow> f y < 32 * length (SETBIT row (f x))" using Cons.prems by auto
      then show ?thesis using True Cons.IH [of "SETBIT row (f x)"] by auto
    next
      case False
      then show ?thesis using Cons.IH [of row] Cons.prems by auto
    qed
  qed simp
  then show "length (fold (\<lambda>x row. if P x then SETBIT row (f x) else row) xs row) = length row"
    "members (fold (\<lambda>x row. if P x then SETBIT row (f x) else row) xs row) = members row \<union> f ` {x \<in> set xs. P x}" by simp_all
qed

lemma fold_or_row:
  assumes "\<And>x. x \<in> set xs \<Longrightarrow> P x \<Longrightarrow> length (q x) = length row"
  shows "length (fold (\<lambda>x row. if P x then or_row row (q x) else row) xs row) = length row"
    "members (fold (\<lambda>x row. if P x then or_row row (q x) else row) xs row) = members row \<union> (\<Union>x \<in> {x \<in> set xs. P x}. members (q x))"
proof -
  have "length (fold (\<lambda>x row. if P x then or_row row (q x) else row) xs row) = length row \<and>
      members (fold (\<lambda>x row. if P x then or_row row (q x) else row) xs row) = members row \<union> (\<Union>x \<in> {x \<in> set xs. P x}. members (q x))"
    using assms
  proof (induction xs arbitrary: row)
    case (Cons x xs)
    show ?case
    proof (cases "P x")
      case True
      then have "length (q x) = length row" "\<And>y. y \<in> set xs \<Longrightarrow> P y \<Longrightarrow> length (q y) = length (or_row row (q x))"
        using Cons.prems by auto
      then show ?thesis using True Cons.IH [of "or_row row (q x)"] by auto
    next
      case False
      then show ?thesis using Cons.IH [of row] Cons.prems by auto
    qed
  qed simp
  then show "length (fold (\<lambda>x row. if P x then or_row row (q x) else row) xs row) = length row"
    "members (fold (\<lambda>x row. if P x then or_row row (q x) else row) xs row) = members row \<union> (\<Union>x \<in> {x \<in> set xs. P x}. members (q x))"
    by simp_all
qed

section \<open>The grammar\<close>

datatype assoc_code = TOKEN | LEFT | RIGHT | NONASSOC

record grammar =
  nitems :: nat
  nrules :: nat
  nsyms :: nat
  ntokens :: nat
  nvars :: nat
  start_symbol :: nat
  symbol_value :: "int list"
  symbol_prec :: "int list"
  symbol_assoc :: "assoc_code list"
  ritem :: "int list"
  rlhs :: "nat list"
  rrhs :: "nat list"
  rprec :: "int list"
  rassoc :: "assoc_code list"

definition ISTOKEN :: "grammar \<Rightarrow> int \<Rightarrow> bool" where "ISTOKEN g s \<longleftrightarrow> s < int (start_symbol g)"
definition ISVAR :: "grammar \<Rightarrow> int \<Rightarrow> bool" where "ISVAR g s \<longleftrightarrow> int (start_symbol g) \<le> s"

text \<open>
  What \<open>pack_symbols\<close> and \<open>pack_grammar\<close> guarantee. Rule 2 is \<open>$accept : goal $end\<close>; the right-hand side of a rule is a part of
  \<open>ritem\<close> that ends with the negated number of the rule.
\<close>

definition grammar_ok :: "grammar \<Rightarrow> bool" where
  "grammar_ok g \<longleftrightarrow>
     start_symbol g = ntokens g \<and> nsyms g = ntokens g + nvars g \<and> 0 < ntokens g \<and> 1 < nvars g \<and>
     nsyms g \<le> MAXSHORT \<and> nitems g \<le> MAXSHORT \<and>
     length (ritem g) = nitems g \<and> length (rlhs g) = nrules g \<and> length (rrhs g) = Suc (nrules g) \<and> 3 \<le> nrules g \<and>
     length (symbol_prec g) = nsyms g \<and> length (symbol_assoc g) = nsyms g \<and> length (symbol_value g) = nsyms g \<and>
     length (rprec g) = nrules g \<and> length (rassoc g) = nrules g \<and>
     take 4 (ritem g) = [-1, int (start_symbol g) + 1, 0, -2] \<and>
     take 3 (rlhs g) = [0, 0, start_symbol g] \<and> take 4 (rrhs g) = [0, 0, 1, 4] \<and> rrhs g ! nrules g = nitems g \<and>
     (\<forall>r. 3 \<le> r \<and> r < nrules g \<longrightarrow> start_symbol g < rlhs g ! r \<and> rlhs g ! r < nsyms g) \<and>
     (\<forall>r. 2 \<le> r \<and> r < nrules g \<longrightarrow> rrhs g ! r < rrhs g ! Suc r \<and> ritem g ! (rrhs g ! Suc r - 1) = - int r \<and>
        (\<forall>k. rrhs g ! r \<le> k \<and> k < rrhs g ! Suc r - 1 \<longrightarrow> 0 \<le> ritem g ! k \<and> ritem g ! k < int (nsyms g) \<and>
           (r \<noteq> 2 \<longrightarrow> ritem g ! k \<noteq> 0) \<and> ritem g ! k \<noteq> int (start_symbol g)))"

text \<open>The right-hand side of a rule.\<close>

definition rhs :: "grammar \<Rightarrow> nat \<Rightarrow> nat list" where
  "rhs g r = map (\<lambda>k. nat (ritem g ! k)) [rrhs g ! r ..< rrhs g ! Suc r - 1]"

section \<open>Facts about well-formed grammars\<close>

lemma grammar_okD:
  assumes "grammar_ok g"
  shows "start_symbol g = ntokens g" "nsyms g = ntokens g + nvars g" "0 < ntokens g" "1 < nvars g" "nsyms g \<le> MAXSHORT"
    "nitems g \<le> MAXSHORT" "length (ritem g) = nitems g" "length (rlhs g) = nrules g" "length (rrhs g) = Suc (nrules g)"
    "3 \<le> nrules g" "rrhs g ! nrules g = nitems g"
  using assms by (simp_all add: grammar_ok_def)

lemma take_nth_eq: "take n xs = ys \<Longrightarrow> i < length ys \<Longrightarrow> xs ! i = ys ! i"
  by (metis length_take min_less_iff_conj nth_take)

lemma grammar_first_rules:
  assumes "grammar_ok g"
  shows "ritem g ! 0 = -1" "ritem g ! 1 = int (start_symbol g) + 1" "ritem g ! 2 = 0" "ritem g ! 3 = -2"
    "rlhs g ! 0 = 0" "rlhs g ! 1 = 0" "rlhs g ! 2 = start_symbol g" "rrhs g ! 2 = 1" "rrhs g ! 3 = 4"
  using assms take_nth_eq [of 4 "ritem g" "[-1, int (start_symbol g) + 1, 0, -2]"] take_nth_eq [of 3 "rlhs g" "[0, 0, start_symbol g]"]
    take_nth_eq [of 4 "rrhs g" "[0, 0, 1, 4]"]
  by (auto simp: grammar_ok_def numeral_2_eq_2 numeral_3_eq_3)

lemma rlhs_var:
  assumes g: "grammar_ok g" and r: "r < nrules g"
  shows "start_symbol g \<le> rlhs g ! r \<longleftrightarrow> 2 \<le> r" "rlhs g ! r < nsyms g" "rlhs g ! r = start_symbol g \<longleftrightarrow> r = 2"
proof -
  note d = grammar_okD [OF g] and f = grammar_first_rules [OF g]
  have big: "start_symbol g < rlhs g ! r \<and> rlhs g ! r < nsyms g" if "3 \<le> r" using g r that unfolding grammar_ok_def by blast
  consider "r = 0" | "r = 1" | "r = 2" | "3 \<le> r" by linarith
  then show "start_symbol g \<le> rlhs g ! r \<longleftrightarrow> 2 \<le> r" "rlhs g ! r < nsyms g" "rlhs g ! r = start_symbol g \<longleftrightarrow> r = 2"
    by (cases; use d f big in fastforce)+
qed

lemma rrhs_step:
  assumes g: "grammar_ok g" and r: "2 \<le> r" "r < nrules g"
  shows "rrhs g ! r < rrhs g ! Suc r" "ritem g ! (rrhs g ! Suc r - 1) = - int r"
    "\<And>k. rrhs g ! r \<le> k \<Longrightarrow> k < rrhs g ! Suc r - 1 \<Longrightarrow>
      0 \<le> ritem g ! k \<and> ritem g ! k < int (nsyms g) \<and> (r \<noteq> 2 \<longrightarrow> ritem g ! k \<noteq> 0) \<and> ritem g ! k \<noteq> int (start_symbol g)"
proof -
  have *: "rrhs g ! r < rrhs g ! Suc r \<and> ritem g ! (rrhs g ! Suc r - 1) = - int r \<and>
        (\<forall>k. rrhs g ! r \<le> k \<and> k < rrhs g ! Suc r - 1 \<longrightarrow> 0 \<le> ritem g ! k \<and> ritem g ! k < int (nsyms g) \<and>
           (r \<noteq> 2 \<longrightarrow> ritem g ! k \<noteq> 0) \<and> ritem g ! k \<noteq> int (start_symbol g))"
    using g r unfolding grammar_ok_def by blast
  show "rrhs g ! r < rrhs g ! Suc r" "ritem g ! (rrhs g ! Suc r - 1) = - int r" using * by blast+
  show "0 \<le> ritem g ! k \<and> ritem g ! k < int (nsyms g) \<and> (r \<noteq> 2 \<longrightarrow> ritem g ! k \<noteq> 0) \<and> ritem g ! k \<noteq> int (start_symbol g)"
    if "rrhs g ! r \<le> k" "k < rrhs g ! Suc r - 1" for k using * that by blast
qed

lemma rrhs_less:
  assumes g: "grammar_ok g" and r: "2 \<le> r" "r < r'" "r' \<le> nrules g"
  shows "rrhs g ! r < rrhs g ! r'"
  using r(2,3)
proof (induction r' rule: less_induct)
  case (less q)
  then obtain q' where q: "q = Suc q'" by (cases q) auto
  then have "rrhs g ! q' < rrhs g ! q" using rrhs_step(1) [OF g, of q'] less.prems r(1) by simp
  then show ?case
  proof (cases "r = q'")
    case False
    then have "rrhs g ! r < rrhs g ! q'" using less q by simp
    then show ?thesis using \<open>rrhs g ! q' < rrhs g ! q\<close> by simp
  qed simp
qed

lemma rrhs_bounds:
  assumes g: "grammar_ok g" and r: "2 \<le> r" "r < nrules g"
  shows "rrhs g ! r < nitems g" "0 < rrhs g ! r"
proof -
  show "rrhs g ! r < nitems g" using rrhs_less [OF g r(1), of "nrules g"] r(2) grammar_okD(11) [OF g] by simp
  show "0 < rrhs g ! r" using rrhs_less [OF g, of 2 r] r grammar_first_rules(8) [OF g] by (cases "r = 2") auto
qed

text \<open>Every item but the first is in exactly one rule.\<close>

lemma item_rule:
  assumes g: "grammar_ok g" and k: "0 < k" "k < nitems g"
  obtains r where "2 \<le> r" "r < nrules g" "rrhs g ! r \<le> k" "k < rrhs g ! Suc r"
proof -
  have "\<exists>r. 2 \<le> r \<and> r < q \<and> rrhs g ! r \<le> k \<and> k < rrhs g ! Suc r" if "2 \<le> q" "q \<le> nrules g" "k < rrhs g ! q" for q
    using that
  proof (induction q)
    case (Suc q)
    show ?case
    proof (cases "2 \<le> q \<and> k < rrhs g ! q")
      case True
      then have "\<exists>r. 2 \<le> r \<and> r < q \<and> rrhs g ! r \<le> k \<and> k < rrhs g ! Suc r" using Suc by simp
      then show ?thesis by (meson less_SucI)
    next
      case False
      then have "2 \<le> q" using Suc.prems k grammar_first_rules(8) [OF g] by (cases "q = 1") (auto simp: numeral_2_eq_2)
      then show ?thesis using False Suc.prems by (intro exI [of _ q]) simp
    qed
  qed simp
  from this [of "nrules g"] k grammar_okD(10,11) [OF g] show thesis using that by auto
qed

text \<open>What follows the dot of an item.\<close>

lemma item_next:
  assumes g: "grammar_ok g" and k: "0 < k" "k < nitems g"
  shows "ritem g ! k < int (nsyms g)" "0 \<le> ritem g ! k \<Longrightarrow> Suc k < nitems g"
    "ritem g ! k < 0 \<Longrightarrow> 2 \<le> nat (- ritem g ! k) \<and> nat (- ritem g ! k) < nrules g \<and> Suc k = rrhs g ! Suc (nat (- ritem g ! k))"
    "ritem g ! k \<noteq> int (start_symbol g)"
proof -
  obtain r where r: "2 \<le> r" "r < nrules g" "rrhs g ! r \<le> k" "k < rrhs g ! Suc r" by (rule item_rule [OF g k])
  note st = rrhs_step [OF g r(1,2)]
  have last: "rrhs g ! Suc r \<le> nitems g"
    using rrhs_less [OF g, of "Suc r" "nrules g"] r grammar_okD(11) [OF g] by (cases "Suc r = nrules g") auto
  have "k = rrhs g ! Suc r - 1 \<or> k < rrhs g ! Suc r - 1" using r(4) by linarith
  then show "ritem g ! k < int (nsyms g)" "0 \<le> ritem g ! k \<Longrightarrow> Suc k < nitems g"
    "ritem g ! k < 0 \<Longrightarrow> 2 \<le> nat (- ritem g ! k) \<and> nat (- ritem g ! k) < nrules g \<and> Suc k = rrhs g ! Suc (nat (- ritem g ! k))"
    "ritem g ! k \<noteq> int (start_symbol g)"
    using st(2) st(3) [of k] r last by auto
qed

end
