(* ===== verification/Jay_Warshall.thy ===== *)
theory Jay_Warshall
  imports Jay_Defs
begin

text \<open>\<open>warshall.c\<close>: the transitive closure of a relation that is given as a matrix of bits, one row per element.\<close>

definition transitive_closure_row :: "nat \<Rightarrow> nat \<Rightarrow> bits list \<Rightarrow> bits list" where
  "transitive_closure_row i j R =
     (if (R ! j ! (i div BITS_PER_WORD)) AND push_bit (i mod BITS_PER_WORD) 1 \<noteq> 0 then R[j := or_row (R ! j) (R ! i)] else R)"

definition transitive_closure_column :: "nat \<Rightarrow> nat \<Rightarrow> bits list \<Rightarrow> bits list" where
  "transitive_closure_column n i R = fold (transitive_closure_row i) [0..<n] R"

definition transitive_closure :: "bits list \<Rightarrow> nat \<Rightarrow> bits list" where
  "transitive_closure R n = fold (transitive_closure_column n) [0..<n] R"

definition reflexive_closure_row :: "nat \<Rightarrow> bits list \<Rightarrow> bits list" where
  "reflexive_closure_row i R =
     R[i := (R ! i)[i div BITS_PER_WORD := (R ! i ! (i div BITS_PER_WORD)) OR push_bit (i mod BITS_PER_WORD) 1]]"

definition reflexive_transitive_closure :: "bits list \<Rightarrow> nat \<Rightarrow> bits list" where
  "reflexive_transitive_closure R n = (let R = transitive_closure R n in fold reflexive_closure_row [0..<n] R)"

section \<open>Matrices of bits as relations\<close>

definition matrix_ok :: "nat \<Rightarrow> nat \<Rightarrow> bits list \<Rightarrow> bool" where
  "matrix_ok n w R \<longleftrightarrow> length R = n \<and> (\<forall>row \<in> set R. length row = w)"

definition relation :: "bits list \<Rightarrow> nat rel" where
  "relation R = {(a, b). a < length R \<and> b \<in> members (R ! a)}"

lemma matrix_ok_nth: "matrix_ok n w R \<Longrightarrow> j < n \<Longrightarrow> length (R ! j) = w"
  by (simp add: matrix_ok_def)

lemma matrix_ok_length: "matrix_ok n w R \<Longrightarrow> length R = n"
  by (simp add: matrix_ok_def)

lemma matrix_ok_update:
  assumes "matrix_ok n w R" and "length row = w"
  shows "matrix_ok n w (R[j := row])"
  using assms set_update_subset_insert [of R j row] unfolding matrix_ok_def by fastforce

lemma relation_update:
  assumes "j < length R"
  shows "relation (R[j := row]) = {(a, b) \<in> relation R. a \<noteq> j} \<union> {j} \<times> members row"
proof -
  have "(a, b) \<in> relation (R[j := row]) \<longleftrightarrow> (a, b) \<in> relation R \<and> a \<noteq> j \<or> a = j \<and> b \<in> members row" for a b
    using assms by (cases "a = j") (simp_all add: relation_def)
  then show ?thesis by auto
qed

lemma transitive_closure_row_relation:
  assumes M: "matrix_ok n w R" and i: "i < n" "i < 32 * w" and j: "j < n"
  shows "matrix_ok n w (transitive_closure_row i j R)"
    "relation (transitive_closure_row i j R) = relation R \<union> {(j, b) | b. (j, i) \<in> relation R \<and> (i, b) \<in> relation R}"
proof -
  note R = M matrix_ok_length [OF M] matrix_ok_nth [OF M i(1)] matrix_ok_nth [OF M j]
  have "((R ! j ! (i div BITS_PER_WORD)) AND push_bit (i mod BITS_PER_WORD) 1 \<noteq> 0) = ((j, i) \<in> relation R)"
    using R i j by (simp add: relation_def members_def BITS_PER_WORD_def and_exp_iff)
  then show "matrix_ok n w (transitive_closure_row i j R)"
    "relation (transitive_closure_row i j R) = relation R \<union> {(j, b) | b. (j, i) \<in> relation R \<and> (i, b) \<in> relation R}"
    using R i j unfolding transitive_closure_row_def
    by (auto simp: matrix_ok_update relation_update) (auto simp: relation_def)
qed

lemma transitive_closure_column_relation:
  assumes R: "matrix_ok n w R" and i: "i < n" "i < 32 * w"
  shows "matrix_ok n w (transitive_closure_column n i R)"
    "relation (transitive_closure_column n i R) = relation R \<union> {(j, b). (j, i) \<in> relation R \<and> (i, b) \<in> relation R}"
proof -
  have step: "matrix_ok n w (fold (transitive_closure_row i) [0..<m] R) \<and>
    relation (fold (transitive_closure_row i) [0..<m] R) =
      relation R \<union> {(j, b). j < m \<and> (j, i) \<in> relation R \<and> (i, b) \<in> relation R}" if "m \<le> n" for m
    using that
  proof (induction m)
    case (Suc m)
    define S where "S = fold (transitive_closure_row i) [0..<m] R"
    have S: "matrix_ok n w S" and rel: "relation S = relation R \<union> {(j, b). j < m \<and> (j, i) \<in> relation R \<and> (i, b) \<in> relation R}"
      using Suc by (simp_all add: S_def)
    have eq: "fold (transitive_closure_row i) [0..<Suc m] R = transitive_closure_row i m S" by (simp add: S_def)
    show ?case
      unfolding eq using transitive_closure_row_relation [OF S i, of m] Suc.prems by (auto simp: rel less_Suc_eq)
  qed (use R in simp)
  have dom: "j < n" if "(j, i) \<in> relation R" for j using that matrix_ok_length [OF R] by (simp add: relation_def)
  show "matrix_ok n w (transitive_closure_column n i R)"
    "relation (transitive_closure_column n i R) = relation R \<union> {(j, b). (j, i) \<in> relation R \<and> (i, b) \<in> relation R}"
    using step [of n] dom by (auto simp: transitive_closure_column_def)
qed

text \<open>A relation that is closed under paths through the elements below \<open>m\<close>.\<close>

definition closed_below :: "nat \<Rightarrow> nat rel \<Rightarrow> bool" where
  "closed_below m S \<longleftrightarrow> (\<forall>k < m. \<forall>a b. (a, k) \<in> S \<and> (k, b) \<in> S \<longrightarrow> (a, b) \<in> S)"

lemma closed_belowD: "closed_below m S \<Longrightarrow> k < m \<Longrightarrow> (a, k) \<in> S \<Longrightarrow> (k, b) \<in> S \<Longrightarrow> (a, b) \<in> S"
  unfolding closed_below_def by blast

lemma closed_below_step:
  assumes S: "closed_below m S"
  shows "closed_below (Suc m) (S \<union> {(a, b). (a, m) \<in> S \<and> (m, b) \<in> S})"
proof -
  have "(a, b) \<in> S \<or> (a, m) \<in> S \<and> (m, b) \<in> S"
    if "k < Suc m" "(a, k) \<in> S \<or> (a, m) \<in> S \<and> (m, k) \<in> S" "(k, b) \<in> S \<or> (k, m) \<in> S \<and> (m, b) \<in> S" for k a b
  proof (cases "k = m")
    case False
    then have "k < m" using that by simp
    note c = closed_belowD [OF S this]
    show ?thesis using that(2,3) c [of a b] c [of a m] c [of m b] by blast
  qed (use that in blast)
  then show ?thesis unfolding closed_below_def by simp
qed

lemma transitive_closure_trancl:
  assumes R: "matrix_ok n w R" and w: "n \<le> 32 * w"
  shows "matrix_ok n w (transitive_closure R n)" "relation (transitive_closure R n) = (relation R)\<^sup>+"
proof -
  have step: "matrix_ok n w (fold (transitive_closure_column n) [0..<m] R) \<and>
     relation R \<subseteq> relation (fold (transitive_closure_column n) [0..<m] R) \<and>
     relation (fold (transitive_closure_column n) [0..<m] R) \<subseteq> (relation R)\<^sup>+ \<and>
     closed_below m (relation (fold (transitive_closure_column n) [0..<m] R))" if "m \<le> n" for m
    using that
  proof (induction m)
    case (Suc m)
    define S where "S = fold (transitive_closure_column n) [0..<m] R"
    have S: "matrix_ok n w S" "relation R \<subseteq> relation S" "relation S \<subseteq> (relation R)\<^sup>+" "closed_below m (relation S)"
      using Suc by (simp_all add: S_def)
    have m: "m < n" "m < 32 * w" using Suc.prems w by simp_all
    have eq: "fold (transitive_closure_column n) [0..<Suc m] R = transitive_closure_column n m S" by (simp add: S_def)
    have "{(j, b). (j, m) \<in> relation S \<and> (m, b) \<in> relation S} \<subseteq> (relation R)\<^sup>+"
      using S(3) by (auto intro: trancl_trans)
    then show ?case
      unfolding eq transitive_closure_column_relation(2) [OF S(1) m]
      using transitive_closure_column_relation(1) [OF S(1) m] S closed_below_step [OF S(4)] by blast
  qed (use R in \<open>auto simp: closed_below_def\<close>)
  let ?S = "transitive_closure R n"
  have S: "matrix_ok n w ?S" "relation R \<subseteq> relation ?S" "relation ?S \<subseteq> (relation R)\<^sup>+" "closed_below n (relation ?S)"
    using step [OF order_refl] by (simp_all add: transitive_closure_def)
  show "matrix_ok n w ?S" by (rule S(1))
  have "trans (relation ?S)"
  proof (rule transI)
    fix a k b assume p: "(a, k) \<in> relation ?S" "(k, b) \<in> relation ?S"
    then have "k < n" using matrix_ok_length [OF S(1)] by (simp add: relation_def)
    then show "(a, b) \<in> relation ?S" using S(4) p unfolding closed_below_def by blast
  qed
  then have "(relation R)\<^sup>+ \<subseteq> relation ?S" by (metis S(2) trancl_id trancl_mono_subset)
  then show "relation ?S = (relation R)\<^sup>+" using S(3) by blast
qed

lemma reflexive_closure_row_relation:
  assumes M: "matrix_ok n w R" and i: "i < n" "i < 32 * w"
  shows "matrix_ok n w (reflexive_closure_row i R)" "relation (reflexive_closure_row i R) = insert (i, i) (relation R)"
proof -
  note R = M matrix_ok_length [OF M] matrix_ok_nth [OF M i(1)]
  have eq: "reflexive_closure_row i R = R[i := SETBIT (R ! i) i]"
    by (simp add: reflexive_closure_row_def SETBIT_def BITS_PER_WORD_def)
  show "matrix_ok n w (reflexive_closure_row i R)" unfolding eq using R i by (simp add: matrix_ok_update)
  have mem: "members (SETBIT (R ! i) i) = insert i (members (R ! i))" using R i by (intro members_SETBIT) simp
  have "{(a, b) \<in> relation R. a \<noteq> i} \<union> {i} \<times> insert i (members (R ! i)) = insert (i, i) (relation R)"
    using R i by (auto simp: relation_def)
  then show "relation (reflexive_closure_row i R) = insert (i, i) (relation R)"
    unfolding eq using R i by (simp add: relation_update mem)
qed

text \<open>
  \<open>reflexive_transitive_closure\<close> computes the reflexive transitive closure, whatever the number of elements and of words in a row.
\<close>

lemma reflexive_transitive_closure_rtrancl:
  assumes R: "matrix_ok n w R" and w: "n \<le> 32 * w"
  shows "matrix_ok n w (reflexive_transitive_closure R n)"
    "relation (reflexive_transitive_closure R n) = (relation R)\<^sup>+ \<union> {(a, a) | a. a < n}"
proof -
  note T = transitive_closure_trancl [OF R w]
  have step: "matrix_ok n w (fold reflexive_closure_row [0..<m] (transitive_closure R n)) \<and>
    relation (fold reflexive_closure_row [0..<m] (transitive_closure R n)) = (relation R)\<^sup>+ \<union> {(a, a) | a. a < m}" if "m \<le> n" for m
    using that
  proof (induction m)
    case (Suc m)
    then have S: "matrix_ok n w (fold reflexive_closure_row [0..<m] (transitive_closure R n))"
      "relation (fold reflexive_closure_row [0..<m] (transitive_closure R n)) = (relation R)\<^sup>+ \<union> {(a, a) | a. a < m}" by simp_all
    have m: "m < n" "m < 32 * w" using Suc.prems w by simp_all
    show ?case using reflexive_closure_row_relation [OF S(1) m] S(2) by (auto simp: less_Suc_eq)
  qed (use T in simp)
  then show "matrix_ok n w (reflexive_transitive_closure R n)"
    "relation (reflexive_transitive_closure R n) = (relation R)\<^sup>+ \<union> {(a, a) | a. a < n}"
    by (simp_all add: reflexive_transitive_closure_def Let_def)
qed

end
