(* ===== verification/Jay_Closure.thy ===== *)
theory Jay_Closure
  imports Jay_Warshall
begin

text \<open>
  \<open>closure.c\<close>, with \<open>set_derives\<close> of \<open>lr0.c\<close>: the rules that derive a nonterminal, the nonterminals at the left end of what a
  nonterminal derives (a closure of a relation), and the closure of a set of items.
\<close>

definition set_derives :: "grammar \<Rightarrow> nat list list" where
  "set_derives g = map (\<lambda>lhs. if start_symbol g \<le> lhs then filter (\<lambda>i. rlhs g ! i = lhs) [0..<nrules g] else []) [0..<nsyms g]"

definition set_EFF_row :: "grammar \<Rightarrow> nat list list \<Rightarrow> nat \<Rightarrow> bits" where
  "set_EFF_row g derives i =
     fold (\<lambda>rule row. let symbol = ritem g ! (rrhs g ! rule) in
             if ISVAR g symbol then SETBIT row (nat symbol - start_symbol g) else row)
       (takeWhile (\<lambda>rule. 0 < rule) (derives ! i)) (replicate (WORDSIZE (nvars g)) 0)"

definition set_EFF :: "grammar \<Rightarrow> nat list list \<Rightarrow> bits list" where
  "set_EFF g derives = reflexive_transitive_closure (map (set_EFF_row g derives) [start_symbol g..<nsyms g]) (nvars g)"

definition first_derives_row :: "grammar \<Rightarrow> nat list list \<Rightarrow> bits list \<Rightarrow> nat \<Rightarrow> bits" where
  "first_derives_row g derives EFF i =
     fold (\<lambda>j rrow. let k = j - start_symbol g in
             if (EFF ! (i - ntokens g) ! (k div BITS_PER_WORD)) AND push_bit (k mod BITS_PER_WORD) 1 \<noteq> 0
             then fold (\<lambda>rule rrow. SETBIT rrow rule) (derives ! j) rrow else rrow)
       [start_symbol g..<nsyms g] (replicate (WORDSIZE (nrules g)) 0)"

definition set_first_derives :: "grammar \<Rightarrow> nat list list \<Rightarrow> bits list" where
  "set_first_derives g derives =
     (let EFF = set_EFF g derives in map (first_derives_row g derives EFF) [start_symbol g..<nsyms g])"

definition closure_ruleset :: "grammar \<Rightarrow> bits list \<Rightarrow> nat list \<Rightarrow> bits" where
  "closure_ruleset g first_derives nucleus =
     fold (\<lambda>csp ruleset. let symbol = ritem g ! csp in
             if ISVAR g symbol then or_row ruleset (first_derives ! (nat symbol - ntokens g)) else ruleset)
       nucleus (replicate (WORDSIZE (nrules g)) 0)"

text \<open>Merging the first items of the rules into the nucleus, in the order of the items.\<close>

fun closure_merge :: "nat list \<Rightarrow> nat list \<Rightarrow> nat list" where
  "closure_merge csp [] = csp"
| "closure_merge csp (itemno # items) =
     takeWhile (\<lambda>i. i < itemno) csp @ itemno #
     closure_merge (dropWhile (\<lambda>i. i = itemno) (dropWhile (\<lambda>i. i < itemno) csp)) items"

definition closure :: "grammar \<Rightarrow> bits list \<Rightarrow> nat list \<Rightarrow> nat list" where
  "closure g first_derives nucleus =
     (let ruleset = closure_ruleset g first_derives nucleus in
      closure_merge nucleus
        (map (\<lambda>rule. rrhs g ! rule)
          (filter (\<lambda>rule. (ruleset ! (rule div BITS_PER_WORD)) AND push_bit (rule mod BITS_PER_WORD) 1 \<noteq> 0)
            [0..<BITS_PER_WORD * WORDSIZE (nrules g)])))"

section \<open>The closure of a set of items\<close>

inductive_set lr0_closure :: "grammar \<Rightarrow> nat set \<Rightarrow> nat set" for g :: grammar and I :: "nat set" where
  nucleus: "i \<in> I \<Longrightarrow> i \<in> lr0_closure g I"
| derive: "i \<in> lr0_closure g I \<Longrightarrow> ritem g ! i = int A \<Longrightarrow> start_symbol g \<le> A \<Longrightarrow> r < nrules g \<Longrightarrow> rlhs g ! r = A \<Longrightarrow>
    rrhs g ! r \<in> lr0_closure g I"

text \<open>The nonterminals with which the right-hand sides of a nonterminal begin.\<close>

definition left_end :: "grammar \<Rightarrow> nat rel" where
  "left_end g = {(A, B). start_symbol g \<le> A \<and> start_symbol g \<le> B \<and> (\<exists>r < nrules g. rlhs g ! r = A \<and> ritem g ! (rrhs g ! r) = int B)}"

lemma lr0_closure_alt:
  "lr0_closure g I = I \<union> {rrhs g ! r | r A. r < nrules g \<and> start_symbol g \<le> rlhs g ! r \<and>
      (\<exists>i \<in> I. ritem g ! i = int A \<and> start_symbol g \<le> A \<and> (A, rlhs g ! r) \<in> (left_end g)\<^sup>*)}" (is "_ = ?R")
proof
  show "lr0_closure g I \<subseteq> ?R"
  proof
    fix i assume "i \<in> lr0_closure g I"
    then show "i \<in> ?R"
    proof induction
      case (derive i A r)
      show ?case
      proof (cases "i \<in> I")
        case True
        then show ?thesis using derive by blast
      next
        case False
        then obtain q B j where q: "q < nrules g" "i = rrhs g ! q" "start_symbol g \<le> rlhs g ! q"
          "j \<in> I" "ritem g ! j = int B" "start_symbol g \<le> B" "(B, rlhs g ! q) \<in> (left_end g)\<^sup>*" using derive.IH by blast
        then have "(rlhs g ! q, A) \<in> left_end g" using derive by (auto simp: left_end_def)
        then have "(B, rlhs g ! r) \<in> (left_end g)\<^sup>*" using q(7) derive by auto
        then show ?thesis using q derive by blast
      qed
    qed blast
  qed
next
  have "rrhs g ! r \<in> lr0_closure g I"
    if "r < nrules g" "i \<in> I" "ritem g ! i = int A" "start_symbol g \<le> A" "(A, rlhs g ! r) \<in> (left_end g)\<^sup>*" for i A r
  proof -
    have "\<exists>j \<in> lr0_closure g I. ritem g ! j = int B \<and> start_symbol g \<le> B" if "(A, B) \<in> (left_end g)\<^sup>*" for B
      using that
    proof induction
      case base
      show ?case using \<open>i \<in> I\<close> \<open>ritem g ! i = int A\<close> \<open>start_symbol g \<le> A\<close> by (blast intro: lr0_closure.nucleus)
    next
      case (step B C)
      then obtain j q where "j \<in> lr0_closure g I" "ritem g ! j = int B" "start_symbol g \<le> B"
        "q < nrules g" "rlhs g ! q = B" "ritem g ! (rrhs g ! q) = int C" "start_symbol g \<le> C"
        by (auto simp: left_end_def)
      then show ?case using lr0_closure.derive by blast
    qed
    then show ?thesis using that by (metis lr0_closure.derive)
  qed
  then show "?R \<subseteq> lr0_closure g I" by (auto intro: lr0_closure.nucleus)
qed

lemma set_derives_nth:
  "A < nsyms g \<Longrightarrow> start_symbol g \<le> A \<Longrightarrow> set_derives g ! A = filter (\<lambda>i. rlhs g ! i = A) [0..<nrules g]"
  by (simp add: set_derives_def)

text \<open>The rules of a nonterminal.\<close>

lemma derives_rule:
  assumes g: "grammar_ok g" and A: "start_symbol g \<le> A" "A < nsyms g"
  shows "r \<in> set (set_derives g ! A) \<longleftrightarrow> 2 \<le> r \<and> r < nrules g \<and> rlhs g ! r = A"
  using rlhs_var(1) [OF g, of r] A by (auto simp: set_derives_nth)

text \<open>The symbol at the left end of a rule.\<close>

lemma first_symbol_bounds:
  assumes g: "grammar_ok g" and r: "2 \<le> r" "r < nrules g" and v: "ISVAR g (ritem g ! (rrhs g ! r))"
  shows "nat (ritem g ! (rrhs g ! r)) - start_symbol g < nvars g" "ritem g ! (rrhs g ! r) = int (nat (ritem g ! (rrhs g ! r)))"
    "start_symbol g \<le> nat (ritem g ! (rrhs g ! r))"
  using item_next(1) [OF g rrhs_bounds(2,1) [OF g r]] grammar_okD(1,2,4) [OF g] v by (simp_all add: ISVAR_def)

lemma left_end_bounds:
  assumes g: "grammar_ok g" and e: "(A, B) \<in> left_end g"
  shows "start_symbol g \<le> A" "A < nsyms g" "start_symbol g \<le> B" "B < nsyms g"
proof -
  obtain r where r: "start_symbol g \<le> A" "start_symbol g \<le> B" "r < nrules g" "rlhs g ! r = A" "ritem g ! (rrhs g ! r) = int B"
    using e by (auto simp: left_end_def)
  then have "2 \<le> r" using rlhs_var(1) [OF g r(3)] by simp
  then have "nat (ritem g ! (rrhs g ! r)) - start_symbol g < nvars g" using r by (intro first_symbol_bounds [OF g]) (auto simp: ISVAR_def)
  then show "start_symbol g \<le> A" "A < nsyms g" "start_symbol g \<le> B" "B < nsyms g"
    using r rlhs_var(2) [OF g r(3)] grammar_okD(1,2) [OF g] by auto
qed

lemma set_EFF_row_members:
  assumes g: "grammar_ok g" and A: "start_symbol g \<le> A" "A < nsyms g"
  shows "length (set_EFF_row g (set_derives g) A) = WORDSIZE (nvars g)"
    "members (set_EFF_row g (set_derives g) A) = {B - start_symbol g | B. (A, B) \<in> left_end g}"
proof -
  note d = grammar_okD [OF g] and rule = derives_rule [OF g A]
  let ?P = "\<lambda>r. ISVAR g (ritem g ! (rrhs g ! r))" and ?f = "\<lambda>r. nat (ritem g ! (rrhs g ! r)) - start_symbol g"
  have all: "takeWhile (\<lambda>rule. 0 < rule) (set_derives g ! A) = set_derives g ! A"
    by (rule takeWhile_eq_all_conv [THEN iffD2]) (use rule in auto)
  have eq: "set_EFF_row g (set_derives g) A =
      fold (\<lambda>r row. if ?P r then SETBIT row (?f r) else row) (set_derives g ! A) (replicate (WORDSIZE (nvars g)) 0)"
    by (simp add: set_EFF_row_def all Let_def)
  have small: "?f r < 32 * length (replicate (WORDSIZE (nvars g)) (0 :: guint32))" if "r \<in> set (set_derives g ! A)" "?P r" for r
    using first_symbol_bounds(1) [OF g _ _ that(2)] that(1) rule [of r] WORDSIZE_enough [of "nvars g"] by simp
  have "?f ` {r \<in> set (set_derives g ! A). ?P r} = {B - start_symbol g | B. (A, B) \<in> left_end g}"
  proof (intro equalityI subsetI)
    fix x assume "x \<in> ?f ` {r \<in> set (set_derives g ! A). ?P r}"
    then obtain r where r: "x = ?f r" "2 \<le> r" "r < nrules g" "rlhs g ! r = A" "?P r" using rule by auto
    then have "(A, nat (ritem g ! (rrhs g ! r))) \<in> left_end g"
      using first_symbol_bounds(2,3) [OF g r(2,3,5)] A by (auto simp: left_end_def)
    then show "x \<in> {B - start_symbol g | B. (A, B) \<in> left_end g}" using r(1) by blast
  next
    fix x assume "x \<in> {B - start_symbol g | B. (A, B) \<in> left_end g}"
    then obtain B r where r: "x = B - start_symbol g" "start_symbol g \<le> B" "r < nrules g" "rlhs g ! r = A" "ritem g ! (rrhs g ! r) = int B"
      by (auto simp: left_end_def)
    then have "r \<in> set (set_derives g ! A)" "?P r" "x = ?f r" using rlhs_var(1) [OF g r(3)] A by (auto simp: rule ISVAR_def)
    then show "x \<in> ?f ` {r \<in> set (set_derives g ! A). ?P r}" by blast
  qed
  then show "length (set_EFF_row g (set_derives g) A) = WORDSIZE (nvars g)"
    "members (set_EFF_row g (set_derives g) A) = {B - start_symbol g | B. (A, B) \<in> left_end g}"
    using fold_SETBIT [where P = ?P and f = ?f, OF small] unfolding eq by simp_all
qed

text \<open>The relation that \<open>set_EFF\<close> computes: nonterminals are numbered from 0 in the matrix.\<close>

lemma rtrancl_shift:
  fixes R S :: "nat rel"
  assumes R: "\<And>a b. (a, b) \<in> R \<longleftrightarrow> (a + k, b + k) \<in> S" and S: "\<And>a b. (a, b) \<in> S \<Longrightarrow> k \<le> a \<and> k \<le> b"
  shows "(a, b) \<in> R\<^sup>* \<longleftrightarrow> (a + k, b + k) \<in> S\<^sup>*"
proof
  show "(a + k, b + k) \<in> S\<^sup>*" if "(a, b) \<in> R\<^sup>*" using that by induction (auto simp: R intro: rtrancl_into_rtrancl)
  have "\<exists>c. b' = c + k \<and> (a, c) \<in> R\<^sup>*" if "(a + k, b') \<in> S\<^sup>*" for b' using that
  proof induction
    case (step x y)
    then obtain c where c: "x = c + k" "(a, c) \<in> R\<^sup>*" by blast
    have "y = (y - k) + k" using S [OF step.hyps(2)] by simp
    then show ?case using c step.hyps(2) R by (metis rtrancl.rtrancl_into_rtrancl)
  qed blast
  then show "(a, b) \<in> R\<^sup>*" if "(a + k, b + k) \<in> S\<^sup>*" using that by force
qed

lemma set_EFF_relation:
  assumes g: "grammar_ok g"
  shows "matrix_ok (nvars g) (WORDSIZE (nvars g)) (set_EFF g (set_derives g))"
    "\<And>A B. start_symbol g \<le> A \<Longrightarrow> A < nsyms g \<Longrightarrow> start_symbol g \<le> B \<Longrightarrow>
      B - start_symbol g \<in> members (set_EFF g (set_derives g) ! (A - start_symbol g)) \<longleftrightarrow> (A, B) \<in> (left_end g)\<^sup>*"
proof -
  note d = grammar_okD [OF g]
  let ?R = "map (set_EFF_row g (set_derives g)) [start_symbol g..<nsyms g]"
  have M: "matrix_ok (nvars g) (WORDSIZE (nvars g)) ?R" using d set_EFF_row_members(1) [OF g] by (auto simp: matrix_ok_def)
  have w: "nvars g \<le> 32 * WORDSIZE (nvars g)" by (rule WORDSIZE_enough)
  have row: "?R ! a = set_EFF_row g (set_derives g) (a + start_symbol g)" if "a < nvars g" for a
    using that d by (simp add: add.commute)
  have rel: "(a, b) \<in> relation ?R \<longleftrightarrow> (a + start_symbol g, b + start_symbol g) \<in> left_end g" for a b
  proof (cases "a < nvars g")
    case True
    have "(a, b) \<in> relation ?R \<longleftrightarrow> b \<in> members (?R ! a)" using True d(1,2) by (simp add: relation_def)
    also have "\<dots> \<longleftrightarrow> b \<in> {B - start_symbol g | B. (a + start_symbol g, B) \<in> left_end g}"
      unfolding row [OF True] using set_EFF_row_members(2) [OF g, of "a + start_symbol g"] d(1,2) True by simp
    also have "\<dots> \<longleftrightarrow> (a + start_symbol g, b + start_symbol g) \<in> left_end g"
      using left_end_bounds(3) [OF g] by (force simp: le_add_diff_inverse2)
    finally show ?thesis .
  next
    case False
    then show ?thesis using left_end_bounds(2) [OF g, of "a + start_symbol g"] d(1,2) by (auto simp: relation_def)
  qed
  note C = reflexive_transitive_closure_rtrancl [OF M w]
  show "matrix_ok (nvars g) (WORDSIZE (nvars g)) (set_EFF g (set_derives g))" unfolding set_EFF_def by (rule C(1))
  fix A B assume A: "start_symbol g \<le> A" "A < nsyms g" and B: "start_symbol g \<le> B"
  have small: "A - start_symbol g < nvars g" using A d(1,2) by simp
  have "(A - start_symbol g, B - start_symbol g) \<in> relation (set_EFF g (set_derives g)) \<longleftrightarrow>
      (A - start_symbol g, B - start_symbol g) \<in> (relation ?R)\<^sup>*"
    unfolding set_EFF_def C(2) using small by (auto simp: rtrancl_eq_or_trancl)
  also have "\<dots> \<longleftrightarrow> (A, B) \<in> (left_end g)\<^sup>*"
    using rtrancl_shift [OF rel, of "A - start_symbol g" "B - start_symbol g"] left_end_bounds(1,3) [OF g] A B by simp
  finally show "B - start_symbol g \<in> members (set_EFF g (set_derives g) ! (A - start_symbol g)) \<longleftrightarrow> (A, B) \<in> (left_end g)\<^sup>*"
    using small matrix_ok_length [OF C(1)] by (simp add: relation_def set_EFF_def)
qed

section \<open>First items\<close>

text \<open>Setting the bits of the rules of one nonterminal.\<close>

lemma fold_set_rules:
  assumes "\<And>r. r \<in> set rs \<Longrightarrow> r < 32 * length row"
  shows "length (fold (\<lambda>rule rrow. SETBIT rrow rule) rs row) = length row"
    "members (fold (\<lambda>rule rrow. SETBIT rrow rule) rs row) = members row \<union> set rs"
  using fold_SETBIT [of rs "\<lambda>_. True" "\<lambda>r. r" row] assms by simp_all

lemma fold_rule_sets:
  assumes "\<And>j r. j \<in> set js \<Longrightarrow> r \<in> set (rules j) \<Longrightarrow> r < 32 * length row"
  shows "length (fold (\<lambda>j row. if P j then fold (\<lambda>rule rrow. SETBIT rrow rule) (rules j) row else row) js row) = length row \<and>
    members (fold (\<lambda>j row. if P j then fold (\<lambda>rule rrow. SETBIT rrow rule) (rules j) row else row) js row) =
      members row \<union> (\<Union>j \<in> {j \<in> set js. P j}. set (rules j))"
  using assms
proof (induction js arbitrary: row)
  case (Cons j js)
  show ?case
  proof (cases "P j")
    case True
    let ?row = "fold (\<lambda>rule rrow. SETBIT rrow rule) (rules j) row"
    have row: "length ?row = length row" "members ?row = members row \<union> set (rules j)"
      using fold_set_rules [of "rules j" row] Cons.prems by auto
    have "\<And>i r. i \<in> set js \<Longrightarrow> r \<in> set (rules i) \<Longrightarrow> r < 32 * length ?row" using Cons.prems row(1) by auto
    from Cons.IH [OF this] show ?thesis using True row by auto
  next
    case False
    then show ?thesis using Cons.IH [of row] Cons.prems by auto
  qed
qed simp

lemma first_derives_row_members:
  assumes g: "grammar_ok g" and A: "start_symbol g \<le> A" "A < nsyms g"
  shows "length (first_derives_row g (set_derives g) (set_EFF g (set_derives g)) A) = WORDSIZE (nrules g)"
    "members (first_derives_row g (set_derives g) (set_EFF g (set_derives g)) A) =
      {r. r < nrules g \<and> start_symbol g \<le> rlhs g ! r \<and> (A, rlhs g ! r) \<in> (left_end g)\<^sup>*}"
proof -
  note d = grammar_okD [OF g]
  let ?EFF = "set_EFF g (set_derives g)"
  let ?P = "\<lambda>j. (?EFF ! (A - ntokens g) ! ((j - start_symbol g) div BITS_PER_WORD)) AND push_bit ((j - start_symbol g) mod BITS_PER_WORD) 1 \<noteq> 0"
  let ?js = "[start_symbol g..<nsyms g]"
  have P: "?P j \<longleftrightarrow> (A, j) \<in> (left_end g)\<^sup>*" if j: "j \<in> set ?js" for j
  proof -
    have a: "A - start_symbol g < nvars g" using A d(1,2) by simp
    have "length (?EFF ! (A - start_symbol g)) = WORDSIZE (nvars g)" by (rule matrix_ok_nth [OF set_EFF_relation(1) [OF g] a])
    then have small: "j - start_symbol g < 32 * length (?EFF ! (A - start_symbol g))"
      using j d(1,2) WORDSIZE_enough [of "nvars g"] by simp linarith
    have "?P j \<longleftrightarrow> j - start_symbol g \<in> members (?EFF ! (A - start_symbol g))"
      using small by (simp add: members_def BITS_PER_WORD_def and_exp_iff d(1) [symmetric])
    then show ?thesis using set_EFF_relation(2) [OF g A] j by simp
  qed
  have small: "r < 32 * length (replicate (WORDSIZE (nrules g)) (0 :: guint32))" if "j \<in> set ?js" "r \<in> set (set_derives g ! j)" for j r
    using derives_rule [OF g, of j r] that WORDSIZE_enough [of "nrules g"] by simp
  have eq: "first_derives_row g (set_derives g) ?EFF A =
      fold (\<lambda>j row. if ?P j then fold (\<lambda>rule rrow. SETBIT rrow rule) (set_derives g ! j) row else row) ?js (replicate (WORDSIZE (nrules g)) 0)"
    by (simp add: first_derives_row_def Let_def)
  have "(\<Union>j \<in> {j \<in> set ?js. ?P j}. set (set_derives g ! j)) =
      {r. r < nrules g \<and> start_symbol g \<le> rlhs g ! r \<and> (A, rlhs g ! r) \<in> (left_end g)\<^sup>*}" (is "?L = ?R")
  proof (intro equalityI subsetI)
    fix r assume "r \<in> ?L"
    then obtain j where j: "j \<in> set ?js" "?P j" "r \<in> set (set_derives g ! j)" by blast
    then have "r < nrules g" "rlhs g ! r = j" "start_symbol g \<le> j" using derives_rule [OF g, of j r] by simp_all
    then show "r \<in> ?R" using P [OF j(1)] j(2) by blast
  next
    fix r assume r: "r \<in> ?R"
    then have j: "rlhs g ! r \<in> set ?js" "r \<in> set (set_derives g ! (rlhs g ! r))"
      using rlhs_var(1,2) [OF g, of r] derives_rule [OF g, of "rlhs g ! r" r] by auto
    then show "r \<in> ?L" using P [OF j(1)] r by blast
  qed
  then show "length (first_derives_row g (set_derives g) ?EFF A) = WORDSIZE (nrules g)"
    "members (first_derives_row g (set_derives g) ?EFF A) =
      {r. r < nrules g \<and> start_symbol g \<le> rlhs g ! r \<and> (A, rlhs g ! r) \<in> (left_end g)\<^sup>*}"
    using fold_rule_sets [where P = ?P and js = ?js and rules = "\<lambda>j. set_derives g ! j", OF small] unfolding eq by simp_all
qed

section \<open>The closure that the loop computes\<close>

lemma closure_ruleset_members:
  assumes g: "grammar_ok g" and I: "set nucleus \<subseteq> {0<..<nitems g}"
  shows "length (closure_ruleset g (set_first_derives g (set_derives g)) nucleus) = WORDSIZE (nrules g)"
    "members (closure_ruleset g (set_first_derives g (set_derives g)) nucleus) =
      {r. r < nrules g \<and> start_symbol g \<le> rlhs g ! r \<and>
        (\<exists>i \<in> set nucleus. \<exists>A. ritem g ! i = int A \<and> start_symbol g \<le> A \<and> (A, rlhs g ! r) \<in> (left_end g)\<^sup>*)}"
proof -
  note d = grammar_okD [OF g]
  let ?fd = "set_first_derives g (set_derives g)"
  let ?P = "\<lambda>i. ISVAR g (ritem g ! i)" and ?q = "\<lambda>i. ?fd ! (nat (ritem g ! i) - ntokens g)"
  have q: "?q i = first_derives_row g (set_derives g) (set_EFF g (set_derives g)) (nat (ritem g ! i))"
    "start_symbol g \<le> nat (ritem g ! i)" "nat (ritem g ! i) < nsyms g" "ritem g ! i = int (nat (ritem g ! i))"
    if "i \<in> set nucleus" "?P i" for i
  proof -
    show v: "start_symbol g \<le> nat (ritem g ! i)" "nat (ritem g ! i) < nsyms g" "ritem g ! i = int (nat (ritem g ! i))"
      using that I item_next(1) [OF g, of i] by (auto simp: ISVAR_def)
    show "?q i = first_derives_row g (set_derives g) (set_EFF g (set_derives g)) (nat (ritem g ! i))"
      using v(1,2) d(1,2) by (simp add: set_first_derives_def Let_def)
  qed
  have eq: "closure_ruleset g ?fd nucleus = fold (\<lambda>i row. if ?P i then or_row row (?q i) else row) nucleus (replicate (WORDSIZE (nrules g)) 0)"
    by (simp add: closure_ruleset_def Let_def)
  have len: "length (?q i) = length (replicate (WORDSIZE (nrules g)) (0 :: guint32))" if "i \<in> set nucleus" "?P i" for i
    using q [OF that] first_derives_row_members(1) [OF g q(2,3) [OF that]] by simp
  note loop = fold_or_row [where P = ?P and q = ?q, OF len]
  show "length (closure_ruleset g ?fd nucleus) = WORDSIZE (nrules g)" using loop(1) unfolding eq by simp
  have "members (?q i) = {r. r < nrules g \<and> start_symbol g \<le> rlhs g ! r \<and> (nat (ritem g ! i), rlhs g ! r) \<in> (left_end g)\<^sup>*}"
    if "i \<in> set nucleus" "?P i" for i
    using q(1) [OF that] first_derives_row_members(2) [OF g q(2,3) [OF that]] by simp
  then have "members (closure_ruleset g ?fd nucleus) = {r. r < nrules g \<and> start_symbol g \<le> rlhs g ! r \<and>
        (\<exists>i \<in> set nucleus. ?P i \<and> (nat (ritem g ! i), rlhs g ! r) \<in> (left_end g)\<^sup>*)}"
    using loop(2) unfolding eq by auto
  also have "\<dots> = {r. r < nrules g \<and> start_symbol g \<le> rlhs g ! r \<and>
        (\<exists>i \<in> set nucleus. \<exists>A. ritem g ! i = int A \<and> start_symbol g \<le> A \<and> (A, rlhs g ! r) \<in> (left_end g)\<^sup>*)}"
    using q(4) by (intro Collect_cong conj_cong refl bex_cong) (metis ISVAR_def nat_int of_nat_le_iff)
  finally show "members (closure_ruleset g ?fd nucleus) = \<dots>" .
qed

lemma set_closure_merge:
  assumes "sorted csp" and "sorted items"
  shows "set (closure_merge csp items) = set csp \<union> set items"
proof -
  have drop: "set csp = set (takeWhile (\<lambda>i. i < x) csp) \<union> set (dropWhile (\<lambda>i. i < x) csp)"
    "insert x (set (dropWhile (\<lambda>i. i < x) csp)) = insert x (set (dropWhile (\<lambda>i. i = x) (dropWhile (\<lambda>i. i < x) csp)))" for x and csp :: "nat list"
  proof -
    show "set csp = set (takeWhile (\<lambda>i. i < x) csp) \<union> set (dropWhile (\<lambda>i. i < x) csp)" by (metis set_append takeWhile_dropWhile_id)
    have "set ys \<subseteq> insert x (set (dropWhile (\<lambda>i. i = x) ys))" "set (dropWhile (\<lambda>i. i = x) ys) \<subseteq> set ys" for ys :: "nat list"
      by (induction ys) auto
    then show "insert x (set (dropWhile (\<lambda>i. i < x) csp)) = insert x (set (dropWhile (\<lambda>i. i = x) (dropWhile (\<lambda>i. i < x) csp)))" by blast
  qed
  show ?thesis
  proof (induction csp items rule: closure_merge.induct)
    case (2 csp x items)
    then show ?case using drop(1) [of csp x] drop(2) [of x csp] by auto
  qed simp
qed

lemma strictly_sorted_closure_merge:
  assumes "sorted_wrt (<) csp" and "sorted_wrt (<) items"
  shows "sorted_wrt (<) (closure_merge csp items)"
  using assms
proof (induction csp items rule: closure_merge.induct)
  case (2 csp x items)
  let ?rest = "dropWhile (\<lambda>i. i = x) (dropWhile (\<lambda>i. i < x) csp)"
  have s: "sorted_wrt (<) (dropWhile (\<lambda>i. i < x) csp)" using "2.prems"(1) by (metis sorted_wrt_append takeWhile_dropWhile_id)
  then have rest: "sorted_wrt (<) ?rest" by (metis sorted_wrt_append takeWhile_dropWhile_id)
  have big: "x < y" if "y \<in> set ?rest" for y
  proof (cases "dropWhile (\<lambda>i. i < x) csp")
    case (Cons z zs)
    then have "\<not> z < x" by (metis dropWhile_eq_Cons_conv)
    then have "x < y \<or> y = x" if "y \<in> set (z # zs)" for y using s that unfolding Cons by auto
    then show ?thesis using that s \<open>\<not> z < x\<close> unfolding Cons by (cases "z = x") (auto dest: set_dropWhileD)
  next
    case Nil
    show ?thesis using that unfolding Nil by simp
  qed
  have set: "set (closure_merge ?rest items) = set ?rest \<union> set items"
    using rest "2.prems"(2) by (intro set_closure_merge) (auto simp: strict_sorted_iff)
  have "\<forall>y \<in> set (takeWhile (\<lambda>i. i < x) csp). y < x" by (auto dest: set_takeWhileD)
  moreover have "sorted_wrt (<) (takeWhile (\<lambda>i. i < x) csp)" using "2.prems"(1) by (metis sorted_wrt_append takeWhile_dropWhile_id)
  moreover have "\<forall>y \<in> set (closure_merge ?rest items). x < y" using big "2.prems"(2) set by auto
  moreover have "sorted_wrt (<) (closure_merge ?rest items)" using "2.IH" rest "2.prems"(2) by simp
  ultimately show ?case by (fastforce simp: sorted_wrt_append)
qed simp

lemma closure_items:
  assumes g: "grammar_ok g" and I: "set nucleus \<subseteq> {0<..<nitems g}" and s: "sorted_wrt (<) nucleus"
  shows "set (closure g (set_first_derives g (set_derives g)) nucleus) = lr0_closure g (set nucleus)"
    "sorted_wrt (<) (closure g (set_first_derives g (set_derives g)) nucleus)"
proof -
  let ?rs = "closure_ruleset g (set_first_derives g (set_derives g)) nucleus"
  let ?rules = "filter (\<lambda>rule. (?rs ! (rule div BITS_PER_WORD)) AND push_bit (rule mod BITS_PER_WORD) 1 \<noteq> 0) [0..<BITS_PER_WORD * WORDSIZE (nrules g)]"
  note m = closure_ruleset_members [OF g I]
  have rules: "set ?rules = members ?rs" using m(1) by (auto simp: members_def BITS_PER_WORD_def and_exp_iff)
  have two: "2 \<le> r \<and> r < nrules g" if "r \<in> set ?rules" for r using that rlhs_var(1) [OF g, of r] unfolding rules m(2) by auto
  have "sorted_wrt (<) ?rules" by (rule sorted_wrt_filter) simp
  then have items: "sorted_wrt (<) (map (\<lambda>rule. rrhs g ! rule) ?rules)"
    unfolding sorted_wrt_map
  proof (rule sorted_wrt_mono_rel [rotated])
    fix x y assume "x \<in> set ?rules" "y \<in> set ?rules" and less: "x < y"
    then have "2 \<le> x" "y \<le> nrules g" using two by fastforce+
    then show "rrhs g ! x < rrhs g ! y" using rrhs_less [OF g _ less] by simp
  qed
  have sm: "sorted nucleus" "sorted (map (\<lambda>rule. rrhs g ! rule) ?rules)" using s items by (simp_all add: strict_sorted_iff)
  show "set (closure g (set_first_derives g (set_derives g)) nucleus) = lr0_closure g (set nucleus)"
    unfolding closure_def Let_def set_closure_merge [OF sm] set_map rules m(2) lr0_closure_alt by blast
  show "sorted_wrt (<) (closure g (set_first_derives g (set_derives g)) nucleus)"
    unfolding closure_def Let_def by (rule strictly_sorted_closure_merge [OF s items])
qed

end
