(* ===== verification/Jay_Lr0.thy ===== *)
theory Jay_Lr0
  imports Jay_Closure "HOL-Library.Multiset"
begin

text \<open>
  \<open>lr0.c\<close>: the LR(0) machine. A chain of structs is a list in the order of the links, a pointer into it an index. The storage
  for the kernels (\<open>kernel_base\<close>, \<open>kernel_end\<close>) is one list per symbol; that each fits the part that \<open>allocate_itemsets\<close> reserves
  is proved in \<open>Jay_Lr0_Properties\<close>. \<open>set_nullable\<close> is in \<open>Jay_Nullable\<close>.
\<close>

section \<open>State\<close>

record core =
  core_number :: nat
  core_symbol :: nat \<comment> \<open>\<open>accessing_symbol\<close>\<close>
  core_items :: "nat list"

record shifts =
  shifts_number :: nat
  shift :: "nat list"

record reductions =
  reductions_number :: nat
  reduction_rules :: "nat list"

record lr0_machine =
  cores :: "core list" \<comment> \<open>\<open>first_state\<close>, linked by \<open>next\<close>; \<open>nstates\<close> is its length\<close>
  state_set :: "nat list list" \<comment> \<open>for each first item the states, linked by \<open>link\<close>\<close>
  this_state :: nat
  shift_list :: "shifts list"
  reduction_list :: "reductions list"

section \<open>Operations\<close>

text \<open>\<open>symbol_count\<close>: the room that the kernels of a symbol have.\<close>

definition allocate_itemsets :: "grammar \<Rightarrow> nat list" where
  "allocate_itemsets g =
     fold (\<lambda>symbol count. if 0 \<le> symbol then count[nat symbol := count ! nat symbol + 1] else count)
       (ritem g) (replicate (nsyms g) 0)"

definition initialize_states :: "grammar \<Rightarrow> nat list list \<Rightarrow> lr0_machine" where
  "initialize_states g derives =
     (let start_derives = derives ! start_symbol g in
      \<lparr> cores = [\<lparr> core_number = 0, core_symbol = 0, core_items = map (\<lambda>r. rrhs g ! r) start_derives \<rparr>],
        state_set = replicate (nitems g) [], this_state = 0, shift_list = [], reduction_list = [] \<rparr>)"

definition save_reductions :: "grammar \<Rightarrow> nat list \<Rightarrow> lr0_machine \<Rightarrow> lr0_machine" where
  "save_reductions g itemset st =
     (let redset = map (\<lambda>isp. nat (- (ritem g ! isp))) (filter (\<lambda>isp. ritem g ! isp < 0) itemset) in
      if redset \<noteq> []
      then st\<lparr> reduction_list := reduction_list st @
             [\<lparr> reductions_number = core_number (cores st ! this_state st), reduction_rules = redset \<rparr>] \<rparr>
      else st)"

definition new_itemsets_step :: "grammar \<Rightarrow> nat \<Rightarrow> nat list \<times> nat list list \<Rightarrow> nat list \<times> nat list list" where
  "new_itemsets_step g isp sk =
     (let (shift_symbol, kernels) = sk; symbol = ritem g ! isp in
      if 0 < symbol
      then ((if kernels ! nat symbol = [] then shift_symbol @ [nat symbol] else shift_symbol),
            kernels[nat symbol := kernels ! nat symbol @ [isp + 1]])
      else sk)"

definition new_itemsets :: "grammar \<Rightarrow> nat list \<Rightarrow> nat list \<times> nat list list" where
  "new_itemsets g itemset = fold (new_itemsets_step g) itemset ([], replicate (nsyms g) [])"

definition new_state :: "nat \<Rightarrow> nat list \<Rightarrow> lr0_machine \<Rightarrow> lr0_machine option" where
  "new_state symbol isp st =
     (if MAXSHORT \<le> length (cores st) then None
      else Some (st\<lparr> cores := cores st @ [\<lparr> core_number = length (cores st), core_symbol = symbol, core_items = isp \<rparr>] \<rparr>))"

definition get_state :: "grammar \<Rightarrow> nat list list \<Rightarrow> nat \<Rightarrow> lr0_machine \<Rightarrow> (nat \<times> lr0_machine) option" where
  "get_state g kernels symbol st =
     (let isp = kernels ! symbol; key = hd isp in
      if nitems g \<le> key then None
      else case find (\<lambda>sp. core_items (cores st ! sp) = isp) (state_set st ! key) of
        Some sp \<Rightarrow> Some (core_number (cores st ! sp), st)
      | None \<Rightarrow> do {
          st' \<leftarrow> new_state symbol isp st;
          Some (length (cores st), st'\<lparr> state_set := (state_set st')[key := state_set st' ! key @ [length (cores st)]] \<rparr>)
        })"

text \<open>\<open>append_states\<close>: the insertion sort of the symbols, then a state for each.\<close>

fun insert_symbol :: "nat list \<Rightarrow> nat \<Rightarrow> nat \<Rightarrow> nat list" where
  "insert_symbol shift_symbol symbol 0 = shift_symbol[0 := symbol]"
| "insert_symbol shift_symbol symbol (Suc j) =
     (if symbol < shift_symbol ! j then insert_symbol (shift_symbol[Suc j := shift_symbol ! j]) symbol j
      else shift_symbol[Suc j := symbol])"

definition sort_symbols :: "nat list \<Rightarrow> nat list" where
  "sort_symbols shift_symbol = fold (\<lambda>i ss. insert_symbol ss (ss ! i) i) [1..<length shift_symbol] shift_symbol"

fun append_states_loop :: "grammar \<Rightarrow> nat list list \<Rightarrow> nat list \<Rightarrow> lr0_machine \<Rightarrow> (nat list \<times> lr0_machine) option" where
  "append_states_loop g kernels [] st = Some ([], st)"
| "append_states_loop g kernels (symbol # symbols) st = do {
     (n, st) \<leftarrow> get_state g kernels symbol st;
     (ns, st) \<leftarrow> append_states_loop g kernels symbols st;
     Some (n # ns, st)
   }"

definition append_states :: "grammar \<Rightarrow> nat list \<times> nat list list \<Rightarrow> lr0_machine \<Rightarrow> (nat list \<times> lr0_machine) option" where
  "append_states g sk st = append_states_loop g (snd sk) (sort_symbols (fst sk)) st"

definition save_shifts :: "nat list \<Rightarrow> lr0_machine \<Rightarrow> lr0_machine" where
  "save_shifts shiftset st =
     st\<lparr> shift_list := shift_list st @ [\<lparr> shifts_number = core_number (cores st ! this_state st), shift = shiftset \<rparr>] \<rparr>"

text \<open>The body of the loop of \<open>generate_states\<close>.\<close>

definition generate_state :: "grammar \<Rightarrow> bits list \<Rightarrow> lr0_machine \<Rightarrow> lr0_machine option" where
  "generate_state g first_derives st =
     (let itemset = closure g first_derives (core_items (cores st ! this_state st));
          st = save_reductions g itemset st in
      do {
        (shiftset, st) \<leftarrow> append_states g (new_itemsets g itemset) st;
        let st = (if shiftset \<noteq> [] then save_shifts shiftset st else st);
        Some (st\<lparr> this_state := this_state st + 1 \<rparr>)
      })"

lemma new_state_bound:
  "new_state symbol isp st = Some st' \<Longrightarrow> max MAXSHORT (length (cores st')) = max MAXSHORT (length (cores st)) \<and> this_state st' = this_state st"
  by (auto simp: new_state_def split: if_splits)

lemma get_state_bound:
  "get_state g kernels symbol st = Some (n, st') \<Longrightarrow>
     max MAXSHORT (length (cores st')) = max MAXSHORT (length (cores st)) \<and> this_state st' = this_state st"
  by (auto simp: get_state_def Let_def bind_eq_Some_conv dest!: new_state_bound split: if_splits option.splits)

lemma append_states_loop_bound:
  "append_states_loop g kernels symbols st = Some (ns, st') \<Longrightarrow>
     max MAXSHORT (length (cores st')) = max MAXSHORT (length (cores st)) \<and> this_state st' = this_state st"
proof (induction symbols arbitrary: ns st)
  case (Cons symbol symbols)
  then obtain n st1 ns' where s: "get_state g kernels symbol st = Some (n, st1)" "append_states_loop g kernels symbols st1 = Some (ns', st')"
    by (auto simp: bind_eq_Some_conv)
  show ?case using get_state_bound [OF s(1)] Cons.IH [OF s(2)] by simp
qed simp

lemma generate_state_bound:
  assumes "generate_state g fd st = Some st'"
  shows "max MAXSHORT (length (cores st')) = max MAXSHORT (length (cores st))" "this_state st' = Suc (this_state st)"
  using assms
  by (auto simp: generate_state_def append_states_def save_shifts_def save_reductions_def Let_def bind_eq_Some_conv
      dest!: append_states_loop_bound split: if_splits)

text \<open>The loop ends since there are never more than \<open>MAXSHORT\<close> states.\<close>

function generate_loop :: "grammar \<Rightarrow> bits list \<Rightarrow> lr0_machine \<Rightarrow> lr0_machine option" where
  "generate_loop g first_derives st =
     (if this_state st < length (cores st)
      then case generate_state g first_derives st of None \<Rightarrow> None | Some st \<Rightarrow> generate_loop g first_derives st
      else Some st)"
  by pat_completeness auto
termination
proof (relation "measure (\<lambda>(g, fd, st). max MAXSHORT (length (cores st)) - this_state st)")
  fix g fd st st'
  assume "this_state st < length (cores st)" and "generate_state g fd st = Some st'"
  then show "((g, fd, st'), (g, fd, st)) \<in> measure (\<lambda>(g, fd, st). max MAXSHORT (length (cores st)) - this_state st)"
    using generate_state_bound [of g fd st st'] by simp
qed simp

declare generate_loop.simps [simp del]

definition generate_states :: "grammar \<Rightarrow> nat list list \<Rightarrow> lr0_machine option" where
  "generate_states g derives = generate_loop g (set_first_derives g derives) (initialize_states g derives)"

end
