(* ===== verification/Jay_Lr0_Properties.thy ===== *)
theory Jay_Lr0_Properties
  imports Jay_Lr0
begin

text \<open>
  That \<open>lr0.c\<close> builds the canonical LR(0) machine: a state for each reachable kernel, the transitions and the reductions.
\<close>

section \<open>The insertion sort of the symbols\<close>

lemma insort_snoc: "x \<le> z \<Longrightarrow> insort x (ys @ [z]) = insort x ys @ [z]" for x z :: "'a::linorder"
  by (induction ys) auto

lemma insort_last:
  assumes "sorted ys" and "\<forall>y \<in> set ys. y \<le> x"
  shows "insort x ys = ys @ [x]"
proof -
  have "sort (ys @ [x]) = insort x ys" using assms(1) by (intro properties_for_sort) (simp_all add: sorted_insort)
  moreover have "sort (ys @ [x]) = ys @ [x]" using assms by (intro properties_for_sort) (simp_all add: sorted_append)
  ultimately show ?thesis by simp
qed

lemma insert_symbol_insort:
  assumes "j < length ss" and "sorted (take j ss)"
  shows "insert_symbol ss x j = insort x (take j ss) @ drop (Suc j) ss"
  using assms
proof (induction j arbitrary: ss)
  case 0
  then show ?case by (cases ss) simp_all
next
  case (Suc j)
  have t: "take (Suc j) ss = take j ss @ [ss ! j]" using Suc.prems by (simp add: take_Suc_conv_app_nth)
  have le: "\<forall>y \<in> set (take j ss). y \<le> ss ! j" using Suc.prems(2) unfolding t by (simp add: sorted_append)
  have s: "sorted (take j ss)" using Suc.prems(2) unfolding t by (simp add: sorted_append)
  show ?case
  proof (cases "x < ss ! j")
    case True
    let ?ss = "ss[Suc j := ss ! j]"
    have "insert_symbol ?ss x j = insort x (take j ?ss) @ drop (Suc j) ?ss" by (rule Suc.IH) (use Suc.prems s in simp_all)
    moreover have "drop (Suc j) ?ss = ss ! j # drop (Suc (Suc j)) ss"
      using Suc.prems(1) by (simp add: Cons_nth_drop_Suc [symmetric] drop_update_swap)
    ultimately show ?thesis using True by (simp add: t insort_snoc)
  next
    case False
    then have "insort x (take (Suc j) ss) = take (Suc j) ss @ [x]" using le s Suc.prems(2) False
      by (intro insort_last) (auto simp: t)
    moreover have "ss[Suc j := x] = take (Suc j) ss @ x # drop (Suc (Suc j)) ss" using Suc.prems(1) by (simp add: upd_conv_take_nth_drop)
    ultimately show ?thesis using False by simp
  qed
qed

lemma sort_symbols_sort: "sort_symbols ss = sort ss"
proof -
  have "fold (\<lambda>i ss. insert_symbol ss (ss ! i) i) [1..<Suc i] ss = sort (take (Suc i) ss) @ drop (Suc i) ss" if "i < length ss" for i
    using that
  proof (induction i)
    case 0
    then show ?case by (cases ss) simp_all
  next
    case (Suc i)
    let ?ss = "sort (take (Suc i) ss) @ drop (Suc i) ss"
    have f: "fold (\<lambda>i ss. insert_symbol ss (ss ! i) i) [1..<Suc (Suc i)] ss = insert_symbol ?ss (?ss ! Suc i) (Suc i)"
      using Suc by simp
    have n: "?ss ! Suc i = ss ! Suc i" using Suc.prems by (simp add: nth_append)
    have "insert_symbol ?ss (ss ! Suc i) (Suc i) = insort (ss ! Suc i) (sort (take (Suc i) ss)) @ drop (Suc (Suc i)) ss"
      using insert_symbol_insort [of "Suc i" ?ss] Suc.prems by simp
    moreover have "insort (ss ! Suc i) (sort (take (Suc i) ss)) = sort (take (Suc (Suc i)) ss)"
      using Suc.prems by (intro properties_for_sort [symmetric]) (simp_all add: take_Suc_conv_app_nth [of "Suc i"] sorted_insort)
    ultimately show ?case unfolding f n by simp
  qed
  from this [of "length ss - 1"] show ?thesis by (cases ss) (simp_all add: sort_symbols_def)
qed

section \<open>Kernels by symbol\<close>

lemma new_itemsets_result:
  assumes "\<And>i. i \<in> set itemset \<Longrightarrow> ritem g ! i < int (nsyms g)"
  obtains ss ks where "new_itemsets g itemset = (ss, ks)" "distinct ss" "length ks = nsyms g"
    "set ss = {X. 0 < X \<and> (\<exists>i \<in> set itemset. ritem g ! i = int X)}"
    "\<And>X. 0 < X \<Longrightarrow> X < nsyms g \<Longrightarrow> ks ! X = map Suc (filter (\<lambda>i. ritem g ! i = int X) itemset)"
proof -
  have "\<exists>ss ks. new_itemsets g itemset = (ss, ks) \<and> distinct ss \<and> length ks = nsyms g \<and>
      set ss = {X. 0 < X \<and> (\<exists>i \<in> set itemset. ritem g ! i = int X)} \<and>
      (\<forall>X. 0 < X \<and> X < nsyms g \<longrightarrow> ks ! X = map Suc (filter (\<lambda>i. ritem g ! i = int X) itemset))"
    using assms
  proof (induction itemset rule: rev_induct)
    case Nil
    then show ?case by (simp add: new_itemsets_def)
  next
    case (snoc i itemset)
    then obtain ss ks where IH: "new_itemsets g itemset = (ss, ks)" "distinct ss" "length ks = nsyms g"
      "set ss = {X. 0 < X \<and> (\<exists>i \<in> set itemset. ritem g ! i = int X)}"
      "\<And>X. 0 < X \<Longrightarrow> X < nsyms g \<Longrightarrow> ks ! X = map Suc (filter (\<lambda>i. ritem g ! i = int X) itemset)" by fastforce
    have eq: "new_itemsets g (itemset @ [i]) = new_itemsets_step g i (ss, ks)" using IH(1) by (simp add: new_itemsets_def)
    show ?case
    proof (cases "0 < ritem g ! i")
      case False
      then have "new_itemsets g (itemset @ [i]) = (ss, ks)" unfolding eq by (simp add: new_itemsets_step_def)
      then show ?thesis using IH False by (intro exI [of _ ss] exI [of _ ks]) auto
    next
      case True
      then obtain Y where Y: "ritem g ! i = int Y" "0 < Y" by (metis of_nat_0_less_iff zero_less_imp_eq_int)
      then have small: "Y < nsyms g" using snoc.prems [of i] by simp
      let ?ss = "if ks ! Y = [] then ss @ [Y] else ss" and ?ks = "ks[Y := ks ! Y @ [i + 1]]"
      have res: "new_itemsets g (itemset @ [i]) = (?ss, ?ks)" unfolding eq using Y by (simp add: new_itemsets_step_def)
      have new: "ks ! Y = [] \<longleftrightarrow> Y \<notin> set ss" using IH(4,5) Y small by (auto simp: filter_empty_conv)
      have ks: "?ks ! X = map Suc (filter (\<lambda>i. ritem g ! i = int X) (itemset @ [i]))" if "0 < X" "X < nsyms g" for X
        using IH(3,5) that Y small by (cases "X = Y") simp_all
      have ss: "set ?ss = {X. 0 < X \<and> (\<exists>i \<in> set (itemset @ [i]). ritem g ! i = int X)}"
      proof -
        have "{X. 0 < X \<and> (\<exists>i \<in> set (itemset @ [i]). ritem g ! i = int X)} = insert Y {X. 0 < X \<and> (\<exists>i \<in> set itemset. ritem g ! i = int X)}"
          using Y by auto
        then show ?thesis using IH(4) new by auto
      qed
      have d: "distinct ?ss" "length ?ks = nsyms g" using IH(2,3) new by simp_all
      show ?thesis
        by (rule exI [of _ ?ss], rule exI [of _ ?ks], intro conjI allI impI)
          (rule res, rule d(1), rule d(2), rule ss, (rule ks; simp only:))
    qed
  qed
  then obtain ss ks where r: "new_itemsets g itemset = (ss, ks)" "distinct ss" "length ks = nsyms g"
    "set ss = {X. 0 < X \<and> (\<exists>i \<in> set itemset. ritem g ! i = int X)}"
    "\<forall>X. 0 < X \<and> X < nsyms g \<longrightarrow> ks ! X = map Suc (filter (\<lambda>i. ritem g ! i = int X) itemset)"
    by (elim exE conjE)
  show thesis by (rule that [OF r(1-4)]) (use r(5) in simp)
qed

text \<open>The kernels of a symbol fit the room that \<open>allocate_itemsets\<close> reserves for it.\<close>

lemma allocate_itemsets_nth:
  assumes "\<And>s. s \<in> set (ritem g) \<Longrightarrow> s < int (nsyms g)" and "X < nsyms g"
  shows "allocate_itemsets g ! X = length (filter (\<lambda>s. s = int X) (ritem g))"
proof -
  have "length (fold (\<lambda>symbol count. if 0 \<le> symbol then count[nat symbol := count ! nat symbol + 1] else count) ss count) = length count \<and>
    fold (\<lambda>symbol count. if 0 \<le> symbol then count[nat symbol := count ! nat symbol + 1] else count) ss count ! X =
      count ! X + length (filter (\<lambda>s. s = int X) ss)"
    if "\<forall>s \<in> set ss. s < int (length count)" "X < length count" for ss and count :: "nat list"
    using that
  proof (induction ss arbitrary: count)
    case (Cons s ss)
    then show ?case by (cases "0 \<le> s"; cases "s = int X") (auto simp: nth_list_update)
  qed simp
  from this [of "ritem g" "replicate (nsyms g) 0"] show ?thesis using assms by (simp add: allocate_itemsets_def)
qed

section \<open>The canonical machine\<close>

definition goto_symbols :: "grammar \<Rightarrow> nat set \<Rightarrow> nat set" where
  "goto_symbols g I = {X. 0 < X \<and> (\<exists>i \<in> lr0_closure g I. ritem g ! i = int X)}"

definition goto_items :: "grammar \<Rightarrow> nat set \<Rightarrow> nat \<Rightarrow> nat set" where
  "goto_items g I X = Suc ` {i \<in> lr0_closure g I. ritem g ! i = int X}"

inductive_set lr0_kernels :: "grammar \<Rightarrow> nat set set" for g :: grammar where
  start: "{rrhs g ! 2} \<in> lr0_kernels g"
| shift: "I \<in> lr0_kernels g \<Longrightarrow> X \<in> goto_symbols g I \<Longrightarrow> goto_items g I X \<in> lr0_kernels g"

text \<open>The rules that a state with kernel \<open>I\<close> can reduce, in the order of the items.\<close>

definition kernel_reductions :: "grammar \<Rightarrow> nat set \<Rightarrow> nat list" where
  "kernel_reductions g I =
     map (\<lambda>i. nat (- (ritem g ! i))) (filter (\<lambda>i. ritem g ! i < 0) (sorted_list_of_set (lr0_closure g I)))"

lemma lr0_closure_items:
  assumes g: "grammar_ok g" and I: "I \<subseteq> {0<..<nitems g}"
  shows "lr0_closure g I \<subseteq> {0<..<nitems g}"
proof
  fix i assume "i \<in> lr0_closure g I"
  then show "i \<in> {0<..<nitems g}"
  proof induction
    case (derive i A r)
    then have "2 \<le> r" using rlhs_var(1) [OF g, of r] by simp
    then show ?case using rrhs_bounds [OF g] derive by simp
  qed (use I in blast)
qed

lemma goto_symbols_bounds:
  assumes g: "grammar_ok g" and I: "I \<subseteq> {0<..<nitems g}" and X: "X \<in> goto_symbols g I"
  shows "0 < X" "X < nsyms g" "X \<noteq> start_symbol g"
proof -
  obtain i where i: "i \<in> lr0_closure g I" "ritem g ! i = int X" and pos: "0 < X" using X by (auto simp: goto_symbols_def)
  then have "0 < i" "i < nitems g" using lr0_closure_items [OF g I] by auto
  then show "0 < X" "X < nsyms g" "X \<noteq> start_symbol g" using item_next(1,4) [OF g, of i] i(2) pos by auto
qed

lemma goto_items_bounds:
  assumes g: "grammar_ok g" and I: "I \<subseteq> {0<..<nitems g}"
  shows "goto_items g I X \<subseteq> {1<..<nitems g}"
proof
  fix j assume "j \<in> goto_items g I X"
  then obtain i where i: "j = Suc i" "i \<in> lr0_closure g I" "ritem g ! i = int X" by (auto simp: goto_items_def)
  then have "0 < i" "i < nitems g" using lr0_closure_items [OF g I] by auto
  then show "j \<in> {1<..<nitems g}" using item_next(2) [OF g, of i] i by simp
qed

lemma lr0_kernels_items:
  assumes g: "grammar_ok g" and I: "I \<in> lr0_kernels g"
  shows "I \<subseteq> {0<..<nitems g}" "I \<noteq> {}"
proof -
  have "I \<subseteq> {0<..<nitems g} \<and> I \<noteq> {}"
    using I
  proof induction
    case start
    then show ?case using rrhs_bounds [OF g, of 2] grammar_okD(10) [OF g] by simp
  next
    case (shift I X)
    then have "goto_items g I X \<subseteq> {0<..<nitems g}" using goto_items_bounds [OF g, of I X] by force
    moreover have "goto_items g I X \<noteq> {}" using shift by (auto simp: goto_symbols_def goto_items_def)
    ultimately show ?case by blast
  qed
  then show "I \<subseteq> {0<..<nitems g}" "I \<noteq> {}" by simp_all
qed

lemma finite_lr0_kernels: "grammar_ok g \<Longrightarrow> finite (lr0_kernels g)"
  using lr0_kernels_items(1) by (intro finite_subset [of "lr0_kernels g" "Pow {0<..<nitems g}"]) auto

lemma finite_goto_symbols: "grammar_ok g \<Longrightarrow> I \<subseteq> {0<..<nitems g} \<Longrightarrow> finite (goto_symbols g I)"
  using goto_symbols_bounds(2) by (intro finite_subset [of "goto_symbols g I" "{..<nsyms g}"]) auto

text \<open>The items of a kernel follow the symbol that leads to it.\<close>

lemma goto_items_symbol:
  assumes "i \<in> goto_items g I X"
  shows "ritem g ! (i - 1) = int X"
  using assms by (auto simp: goto_items_def)

lemma goto_items_same_symbol:
  assumes "goto_items g I X = goto_items g J Y" and "X \<in> goto_symbols g I"
  shows "X = Y"
proof -
  obtain i where "i \<in> goto_items g I X" using assms(2) by (auto simp: goto_symbols_def goto_items_def)
  then show ?thesis using goto_items_symbol [of i g] assms(1) by (metis of_nat_eq_iff)
qed

section \<open>The invariant of the machine\<close>

abbreviation items_of :: "core list \<Rightarrow> nat \<Rightarrow> nat set" where
  "items_of cs c \<equiv> set (core_items (cs ! c))"

text \<open>State \<open>d\<close> is where state \<open>c\<close> goes with symbol \<open>X\<close>.\<close>

definition goes_to :: "grammar \<Rightarrow> core list \<Rightarrow> nat \<Rightarrow> nat \<Rightarrow> nat \<Rightarrow> bool" where
  "goes_to g cs c X d \<longleftrightarrow> 0 < d \<and> d < length cs \<and> core_symbol (cs ! d) = X \<and> items_of cs d = goto_items g (items_of cs c) X"

definition cores_ok :: "grammar \<Rightarrow> core list \<Rightarrow> bool" where
  "cores_ok g cs \<longleftrightarrow> cs \<noteq> [] \<and> cs ! 0 = \<lparr> core_number = 0, core_symbol = 0, core_items = [rrhs g ! 2] \<rparr> \<and>
     distinct (map core_items cs) \<and>
     (\<forall>c < length cs. core_number (cs ! c) = c \<and> sorted_wrt (<) (core_items (cs ! c)) \<and> items_of cs c \<in> lr0_kernels g) \<and>
     (\<forall>d. 0 < d \<and> d < length cs \<longrightarrow> (\<exists>c < length cs. core_symbol (cs ! d) \<in> goto_symbols g (items_of cs c) \<and>
        goes_to g cs c (core_symbol (cs ! d)) d))"

definition state_set_ok :: "grammar \<Rightarrow> core list \<Rightarrow> nat list list \<Rightarrow> bool" where
  "state_set_ok g cs ss \<longleftrightarrow> length ss = nitems g \<and>
     (\<forall>key < nitems g. set (ss ! key) = {c. 0 < c \<and> c < length cs \<and> hd (core_items (cs ! c)) = key})"

definition shifts_ok :: "grammar \<Rightarrow> core list \<Rightarrow> nat \<Rightarrow> shifts list \<Rightarrow> bool" where
  "shifts_ok g cs k sl \<longleftrightarrow> map shifts_number sl = filter (\<lambda>c. goto_symbols g (items_of cs c) \<noteq> {}) [0..<k] \<and>
     (\<forall>s \<in> set sl. list_all2 (goes_to g cs (shifts_number s)) (sorted_list_of_set (goto_symbols g (items_of cs (shifts_number s)))) (shift s))"

definition reductions_ok :: "grammar \<Rightarrow> core list \<Rightarrow> nat \<Rightarrow> reductions list \<Rightarrow> bool" where
  "reductions_ok g cs k rl \<longleftrightarrow>
     rl = map (\<lambda>c. \<lparr> reductions_number = c, reduction_rules = kernel_reductions g (items_of cs c) \<rparr>)
       (filter (\<lambda>c. kernel_reductions g (items_of cs c) \<noteq> []) [0..<k])"

definition machine_ok :: "grammar \<Rightarrow> lr0_machine \<Rightarrow> bool" where
  "machine_ok g st \<longleftrightarrow> cores_ok g (cores st) \<and> state_set_ok g (cores st) (state_set st) \<and>
     shifts_ok g (cores st) (this_state st) (shift_list st) \<and> reductions_ok g (cores st) (this_state st) (reduction_list st) \<and>
     length (cores st) \<le> MAXSHORT"

lemma cores_okD:
  assumes "cores_ok g cs"
  shows "cs \<noteq> []" "cs ! 0 = \<lparr> core_number = 0, core_symbol = 0, core_items = [rrhs g ! 2] \<rparr>" "distinct (map core_items cs)"
    "\<And>c. c < length cs \<Longrightarrow> core_number (cs ! c) = c" "\<And>c. c < length cs \<Longrightarrow> sorted_wrt (<) (core_items (cs ! c))"
    "\<And>c. c < length cs \<Longrightarrow> items_of cs c \<in> lr0_kernels g"
    "\<And>d. 0 < d \<Longrightarrow> d < length cs \<Longrightarrow> \<exists>c < length cs. core_symbol (cs ! d) \<in> goto_symbols g (items_of cs c) \<and> goes_to g cs c (core_symbol (cs ! d)) d"
  using assms unfolding cores_ok_def by blast+

lemma strictly_sorted_eq: "sorted_wrt (<) xs \<Longrightarrow> sorted_wrt (<) ys \<Longrightarrow> set xs = set ys \<Longrightarrow> xs = ys" for xs ys :: "nat list"
  by (simp add: strict_sorted_iff sorted_distinct_set_unique)

lemma goes_to_append: "goes_to g cs c X d \<Longrightarrow> c < length cs \<Longrightarrow> goes_to g (cs @ new) c X d"
  by (simp add: goes_to_def nth_append)

lemma goes_to_unique:
  assumes cs: "cores_ok g cs" and d: "goes_to g cs c X d" "goes_to g cs c X e"
  shows "d = e"
proof -
  have "core_items (cs ! d) = core_items (cs ! e)"
    using d cores_okD(5) [OF cs] by (intro strictly_sorted_eq) (auto simp: goes_to_def)
  then show ?thesis using cores_okD(3) [OF cs] d unfolding distinct_conv_nth goes_to_def by fastforce
qed

text \<open>All kernels of the machine are different sets.\<close>

lemma card_cores:
  assumes "cores_ok g cs"
  shows "card ((\<lambda>c. set (core_items c)) ` set cs) = length cs"
proof -
  have "inj_on (\<lambda>c. set (core_items c)) (set cs)"
  proof (rule inj_onI)
    fix x y assume "x \<in> set cs" "y \<in> set cs" and eq: "set (core_items x) = set (core_items y)"
    then obtain i j where ij: "x = cs ! i" "i < length cs" "y = cs ! j" "j < length cs" by (auto simp: in_set_conv_nth)
    then have "core_items x = core_items y" using cores_okD(5) [OF assms] eq by (intro strictly_sorted_eq) auto
    then have "i = j" using cores_okD(3) [OF assms] ij unfolding distinct_conv_nth by fastforce
    then show "x = y" using ij by simp
  qed
  moreover have "distinct cs" using cores_okD(3) [OF assms] by (rule distinct_map [THEN iffD1, THEN conjunct1])
  ultimately show ?thesis by (simp add: card_image distinct_card)
qed

lemma cores_subset_kernels:
  assumes "cores_ok g cs"
  shows "(\<lambda>c. set (core_items c)) ` set cs \<subseteq> lr0_kernels g"
  using cores_okD(6) [OF assms] by (auto simp: in_set_conv_nth)

text \<open>A state for a new kernel.\<close>

lemma cores_ok_snoc:
  assumes cs: "cores_ok g cs" and b: "b < length cs" and X: "X \<in> goto_symbols g (items_of cs b)"
    and isp: "sorted_wrt (<) isp" "set isp = goto_items g (items_of cs b) X" and new: "isp \<notin> set (map core_items cs)"
  defines "cs' \<equiv> cs @ [\<lparr> core_number = length cs, core_symbol = X, core_items = isp \<rparr>]"
  shows "cores_ok g cs'" "goes_to g cs' b X (length cs)"
proof -
  note d = cores_okD [OF cs]
  have old: "cs' ! c = cs ! c" if "c < length cs" for c using that by (simp add: cs'_def nth_append)
  have last: "cs' ! length cs = \<lparr> core_number = length cs, core_symbol = X, core_items = isp \<rparr>" by (simp add: cs'_def)
  have len: "length cs' = Suc (length cs)" by (simp add: cs'_def)
  have pos: "0 < length cs" using d(1) by simp
  show g: "goes_to g cs' b X (length cs)" using pos b isp by (simp add: goes_to_def last len old)
  have k: "set isp \<in> lr0_kernels g" using lr0_kernels.shift [OF d(6) [OF b] X] isp(2) by simp
  have "core_number (cs' ! c) = c \<and> sorted_wrt (<) (core_items (cs' ! c)) \<and> items_of cs' c \<in> lr0_kernels g" if "c < length cs'" for c
    using that d(4-6) isp(1) k last old len by (cases "c = length cs") auto
  moreover have "\<exists>c < length cs'. core_symbol (cs' ! e) \<in> goto_symbols g (items_of cs' c) \<and> goes_to g cs' c (core_symbol (cs' ! e)) e"
    if e: "0 < e" "e < length cs'" for e
  proof (cases "e = length cs")
    case True
    then show ?thesis using g b X last old len by (intro exI [of _ b]) simp
  next
    case False
    then have e': "e < length cs" using e len by simp
    obtain c where "c < length cs" "core_symbol (cs ! e) \<in> goto_symbols g (items_of cs c)" "goes_to g cs c (core_symbol (cs ! e)) e"
      using d(7) [OF e(1) e'] by blast
    then show ?thesis using goes_to_append len old e' by (intro exI [of _ c]) (simp add: cs'_def)
  qed
  moreover have "distinct (map core_items cs')" using d(3) new by (simp add: cs'_def)
  ultimately show "cores_ok g cs'" using d(1,2) pos old unfolding cores_ok_def by (auto simp: cs'_def)
qed

lemma state_set_ok_snoc:
  assumes ss: "state_set_ok g cs ss" and key: "hd isp < nitems g" and pos: "cs \<noteq> []"
  shows "state_set_ok g (cs @ [\<lparr> core_number = length cs, core_symbol = X, core_items = isp \<rparr>]) (ss[hd isp := ss ! hd isp @ [length cs]])"
proof -
  have "set (ss[hd isp := ss ! hd isp @ [length cs]] ! k) =
      {c. 0 < c \<and> c < Suc (length cs) \<and> hd (core_items ((cs @ [\<lparr> core_number = length cs, core_symbol = X, core_items = isp \<rparr>]) ! c)) = k}"
    if "k < nitems g" for k
  proof -
    have "{c. 0 < c \<and> c < Suc (length cs) \<and> hd (core_items ((cs @ [\<lparr> core_number = length cs, core_symbol = X, core_items = isp \<rparr>]) ! c)) = k} =
        {c. 0 < c \<and> c < length cs \<and> hd (core_items (cs ! c)) = k} \<union> (if hd isp = k then {length cs} else {})"
      using pos by (auto simp: nth_append less_Suc_eq)
    then show ?thesis using ss that key by (auto simp: state_set_ok_def nth_list_update)
  qed
  then show ?thesis using ss by (simp add: state_set_ok_def)
qed

text \<open>\<open>get_state\<close> finds the state with the kernel, or makes it, or there are too many kernels.\<close>

definition lr0_extends :: "lr0_machine \<Rightarrow> lr0_machine \<Rightarrow> bool" where
  "lr0_extends st st' \<longleftrightarrow> (\<exists>new. cores st' = cores st @ new) \<and> this_state st' = this_state st \<and>
     shift_list st' = shift_list st \<and> reduction_list st' = reduction_list st"

definition lr0_store_ok :: "grammar \<Rightarrow> lr0_machine \<Rightarrow> bool" where
  "lr0_store_ok g st \<longleftrightarrow> cores_ok g (cores st) \<and> state_set_ok g (cores st) (state_set st) \<and> length (cores st) \<le> MAXSHORT"

lemma find_SomeD: "find P xs = Some x \<Longrightarrow> x \<in> set xs \<and> P x"
  by (auto simp: find_Some_iff)

lemma get_state_result:
  assumes g: "grammar_ok g" and st: "lr0_store_ok g st" and b: "b < length (cores st)" and X: "X \<in> goto_symbols g (items_of (cores st) b)"
    and isp: "sorted_wrt (<) (kernels ! X)" "set (kernels ! X) = goto_items g (items_of (cores st) b) X"
  shows "case get_state g kernels X st of None \<Rightarrow> MAXSHORT < card (lr0_kernels g)
    | Some (n, st') \<Rightarrow> lr0_store_ok g st' \<and> lr0_extends st st' \<and> goes_to g (cores st') b X n"
proof -
  let ?isp = "kernels ! X" and ?cs = "cores st"
  have cs: "cores_ok g ?cs" and ss: "state_set_ok g ?cs (state_set st)" and max: "length ?cs \<le> MAXSHORT" using st by (simp_all add: lr0_store_ok_def)
  note d = cores_okD [OF cs]
  have kb: "items_of ?cs b \<in> lr0_kernels g" by (rule d(6) [OF b])
  have ne: "?isp \<noteq> []" using isp(2) X by (force simp: goto_symbols_def goto_items_def)
  have mem: "set ?isp \<subseteq> {1<..<nitems g}" using goto_items_bounds [OF g lr0_kernels_items(1) [OF g kb]] isp(2) by simp
  then have key: "hd ?isp < nitems g" "1 < hd ?isp" using subsetD [OF mem hd_in_set [OF ne]] by simp_all
  show ?thesis
  proof (cases "find (\<lambda>sp. core_items (?cs ! sp) = ?isp) (state_set st ! hd ?isp)")
    case (Some sp)
    then have sp: "0 < sp" "sp < length ?cs" "core_items (?cs ! sp) = ?isp"
      using find_SomeD [OF Some] ss key(1) by (auto simp: state_set_ok_def)
    obtain c where c: "core_symbol (?cs ! sp) \<in> goto_symbols g (items_of ?cs c)" "goes_to g ?cs c (core_symbol (?cs ! sp)) sp"
      using d(7) [OF sp(1,2)] by blast
    then have "goto_items g (items_of ?cs b) X = goto_items g (items_of ?cs c) (core_symbol (?cs ! sp))"
      using isp(2) sp(3) by (simp add: goes_to_def)
    then have "X = core_symbol (?cs ! sp)" using goto_items_same_symbol X by blast
    then have "goes_to g ?cs b X sp" using sp isp(2) by (simp add: goes_to_def)
    moreover have "get_state g kernels X st = Some (sp, st)"
      using Some key(1) d(4) [OF sp(2)] by (simp add: get_state_def Let_def)
    ultimately show ?thesis using st by (simp add: lr0_extends_def)
  next
    case None
    have new: "?isp \<notin> set (map core_items ?cs)"
    proof
      assume "?isp \<in> set (map core_items ?cs)"
      then obtain c where c: "c < length ?cs" "core_items (?cs ! c) = ?isp" by (auto simp: in_set_conv_nth)
      have "hd (core_items (?cs ! 0)) = 1" using d(2) grammar_first_rules(8) [OF g] by simp
      then have "0 < c" using c(2) key(2) by (cases c) auto
      then have "c \<in> set (state_set st ! hd ?isp)" using c ss key(1) by (simp add: state_set_ok_def)
      then show False using None c(2) by (simp add: find_None_iff)
    qed
    show ?thesis
    proof (cases "MAXSHORT \<le> length ?cs")
      case True
      have "set ?isp \<notin> (\<lambda>c. set (core_items c)) ` set ?cs"
      proof
        assume "set ?isp \<in> (\<lambda>c. set (core_items c)) ` set ?cs"
        then obtain c where "c < length ?cs" "set ?isp = items_of ?cs c" by (auto simp: in_set_conv_nth)
        then have "?isp = core_items (?cs ! c)" using d(5) isp(1) by (intro strictly_sorted_eq) auto
        then show False using new \<open>c < length ?cs\<close> by auto
      qed
      moreover have "set ?isp \<in> lr0_kernels g" using lr0_kernels.shift [OF kb X] isp(2) by simp
      ultimately have "(\<lambda>c. set (core_items c)) ` set ?cs \<subset> lr0_kernels g" using cores_subset_kernels [OF cs] by blast
      then have "length ?cs < card (lr0_kernels g)"
        using psubset_card_mono [OF finite_lr0_kernels [OF g]] card_cores [OF cs] by metis
      then show ?thesis using True None key(1) by (simp add: get_state_def Let_def new_state_def)
    next
      case False
      let ?new = "\<lparr> core_number = length ?cs, core_symbol = X, core_items = ?isp \<rparr>"
      let ?st = "st\<lparr> cores := ?cs @ [?new], state_set := (state_set st)[hd ?isp := state_set st ! hd ?isp @ [length ?cs]] \<rparr>"
      have "get_state g kernels X st = Some (length ?cs, ?st)" using False None key(1) by (simp add: get_state_def Let_def new_state_def)
      moreover have "lr0_store_ok g ?st"
        using cores_ok_snoc(1) [OF cs b X isp new] state_set_ok_snoc [OF ss key(1) d(1)] False by (simp add: lr0_store_ok_def)
      ultimately show ?thesis using cores_ok_snoc(2) [OF cs b X isp new] by (simp add: lr0_extends_def)
    qed
  qed
qed

lemma append_states_loop_result:
  assumes g: "grammar_ok g" and st: "lr0_store_ok g st" and b: "b < length (cores st)"
    and k: "\<And>X. X \<in> set symbols \<Longrightarrow> X \<in> goto_symbols g (items_of (cores st) b) \<and> sorted_wrt (<) (kernels ! X) \<and>
      set (kernels ! X) = goto_items g (items_of (cores st) b) X"
  shows "case append_states_loop g kernels symbols st of None \<Rightarrow> MAXSHORT < card (lr0_kernels g)
    | Some (ns, st') \<Rightarrow> lr0_store_ok g st' \<and> lr0_extends st st' \<and> list_all2 (goes_to g (cores st') b) symbols ns"
  using st b k
proof (induction symbols arbitrary: st)
  case (Cons X symbols)
  have X: "X \<in> goto_symbols g (items_of (cores st) b)" "sorted_wrt (<) (kernels ! X)" "set (kernels ! X) = goto_items g (items_of (cores st) b) X"
    using Cons.prems(3) [of X] by simp_all
  note r = get_state_result [OF g Cons.prems(1,2) X]
  show ?case
  proof (cases "get_state g kernels X st")
    case (Some nst)
    obtain n st1 where nst: "nst = (n, st1)" by force
    then have 1: "lr0_store_ok g st1" "lr0_extends st st1" "goes_to g (cores st1) b X n" using r Some by simp_all
    obtain new where c1: "cores st1 = cores st @ new" using 1(2) by (auto simp: lr0_extends_def)
    have b1: "b < length (cores st1)" "cores st1 ! b = cores st ! b" using Cons.prems(2) by (simp_all add: c1 nth_append)
    have "case append_states_loop g kernels symbols st1 of None \<Rightarrow> MAXSHORT < card (lr0_kernels g)
      | Some (ns, st') \<Rightarrow> lr0_store_ok g st' \<and> lr0_extends st1 st' \<and> list_all2 (goes_to g (cores st') b) symbols ns"
      by (rule Cons.IH [OF 1(1) b1(1)]) (use Cons.prems(3) b1(2) in simp)
    then show ?thesis
    proof (cases "append_states_loop g kernels symbols st1")
      case (Some nsst)
      obtain ns st2 where nsst: "nsst = (ns, st2)" by force
      then have 2: "lr0_store_ok g st2" "lr0_extends st1 st2" "list_all2 (goes_to g (cores st2) b) symbols ns"
        using Some \<open>case append_states_loop g kernels symbols st1 of None \<Rightarrow> _ | Some (ns, st') \<Rightarrow> _\<close> by simp_all
      obtain new' where "cores st2 = cores st1 @ new'" using 2(2) by (auto simp: lr0_extends_def)
      then have "goes_to g (cores st2) b X n" using goes_to_append [OF 1(3) b1(1)] by simp
      moreover have "lr0_extends st st2" using 1(2) 2(2) by (auto simp: lr0_extends_def)
      ultimately show ?thesis using \<open>get_state g kernels X st = Some nst\<close> nst Some nsst 2 by simp
    qed (use Some nst in simp)
  qed (use r in simp)
qed (simp add: lr0_extends_def)

section \<open>One state\<close>

lemma items_of_append: "c < length cs \<Longrightarrow> items_of (cs @ new) c = items_of cs c"
  by (simp add: nth_append)

lemma shifts_ok_append:
  assumes "shifts_ok g cs k sl" and k: "k \<le> length cs"
  shows "shifts_ok g (cs @ new) k sl"
proof -
  have lt: "c < length cs" if "c \<in> set [0..<k]" for c using that k by simp
  have f: "filter (\<lambda>c. goto_symbols g (items_of (cs @ new) c) \<noteq> {}) [0..<k] = filter (\<lambda>c. goto_symbols g (items_of cs c) \<noteq> {}) [0..<k]"
    using lt by (intro filter_cong refl) (simp add: items_of_append)
  have num: "shifts_number s < length cs" if "s \<in> set sl" for s
  proof -
    have "shifts_number s \<in> set (map shifts_number sl)" using that by simp
    then show ?thesis using assms(1) k unfolding shifts_ok_def by auto
  qed
  show ?thesis
    using assms(1) num unfolding shifts_ok_def f
    by (auto simp: items_of_append intro: list_all2_mono goes_to_append)
qed

lemma reductions_ok_append:
  assumes "reductions_ok g cs k rl" and k: "k \<le> length cs"
  shows "reductions_ok g (cs @ new) k rl"
proof -
  have lt: "c < length cs" if "c \<in> set [0..<k]" for c using that k by simp
  have f: "filter (\<lambda>c. kernel_reductions g (items_of (cs @ new) c) \<noteq> []) [0..<k] = filter (\<lambda>c. kernel_reductions g (items_of cs c) \<noteq> []) [0..<k]"
    using lt by (intro filter_cong refl) (simp add: items_of_append)
  show ?thesis using assms(1) k unfolding reductions_ok_def f by (auto simp: items_of_append)
qed

lemma shifts_ok_Suc:
  assumes "shifts_ok g cs k sl"
  shows "goto_symbols g (items_of cs k) = {} \<Longrightarrow> shifts_ok g cs (Suc k) sl"
    "goto_symbols g (items_of cs k) \<noteq> {} \<Longrightarrow> list_all2 (goes_to g cs k) (sorted_list_of_set (goto_symbols g (items_of cs k))) ns \<Longrightarrow>
      shifts_ok g cs (Suc k) (sl @ [\<lparr> shifts_number = k, shift = ns \<rparr>])"
  using assms by (auto simp: shifts_ok_def)

lemma save_reductions_ok:
  assumes "reductions_ok g (cores st) (this_state st) (reduction_list st)" and "core_number (cores st ! this_state st) = this_state st"
    and "set itemset = lr0_closure g (items_of (cores st) (this_state st))" "sorted_wrt (<) itemset"
  shows "reductions_ok g (cores st) (Suc (this_state st)) (reduction_list (save_reductions g itemset st))"
proof -
  have "sorted_list_of_set (lr0_closure g (items_of (cores st) (this_state st))) = itemset"
    using assms(3,4) by (metis sorted_list_of_set.idem_if_sorted_distinct strict_sorted_iff)
  then have "map (\<lambda>isp. nat (- (ritem g ! isp))) (filter (\<lambda>isp. ritem g ! isp < 0) itemset) =
      kernel_reductions g (items_of (cores st) (this_state st))" by (simp add: kernel_reductions_def)
  then show ?thesis using assms(1,2) by (auto simp: reductions_ok_def save_reductions_def Let_def)
qed

lemma save_reductions_same [simp]:
  "cores (save_reductions g itemset st) = cores st" "state_set (save_reductions g itemset st) = state_set st"
  "this_state (save_reductions g itemset st) = this_state st" "shift_list (save_reductions g itemset st) = shift_list st"
  by (simp_all add: save_reductions_def Let_def)

lemma save_shifts_same [simp]:
  "cores (save_shifts ns st) = cores st" "state_set (save_shifts ns st) = state_set st"
  "this_state (save_shifts ns st) = this_state st" "reduction_list (save_shifts ns st) = reduction_list st"
  "shift_list (save_shifts ns st) = shift_list st @ [\<lparr> shifts_number = core_number (cores st ! this_state st), shift = ns \<rparr>]"
  by (simp_all add: save_shifts_def)

lemma strictly_sorted_map_Suc: "sorted_wrt (<) xs \<Longrightarrow> sorted_wrt (<) (map Suc xs)"
  by (simp add: sorted_wrt_map)

lemma kernels_of_state:
  assumes g: "grammar_ok g" and I: "I \<subseteq> {0<..<nitems g}" and c: "set itemset = lr0_closure g I" "sorted_wrt (<) itemset"
  obtains ss ks where "new_itemsets g itemset = (ss, ks)" "sort_symbols ss = sorted_list_of_set (goto_symbols g I)"
    "\<And>X. X \<in> goto_symbols g I \<Longrightarrow> sorted_wrt (<) (ks ! X) \<and> set (ks ! X) = goto_items g I X"
proof -
  have items: "set itemset \<subseteq> {0<..<nitems g}" using lr0_closure_items [OF g I] c(1) by simp
  have small: "ritem g ! i < int (nsyms g)" if "i \<in> set itemset" for i using item_next(1) [OF g, of i] items that by auto
  obtain ss ks where r: "new_itemsets g itemset = (ss, ks)" "distinct ss" "length ks = nsyms g"
    "set ss = {X. 0 < X \<and> (\<exists>i \<in> set itemset. ritem g ! i = int X)}"
    and k: "\<And>X. 0 < X \<Longrightarrow> X < nsyms g \<Longrightarrow> ks ! X = map Suc (filter (\<lambda>i. ritem g ! i = int X) itemset)"
    by (rule new_itemsets_result [of itemset g]) (rule small, assumption, rule that)
  have ss: "set ss = goto_symbols g I" unfolding r(4) goto_symbols_def c(1) ..
  have "sort_symbols ss = sorted_list_of_set (goto_symbols g I)"
    unfolding sort_symbols_sort ss [symmetric] using r(2) by (simp add: sorted_list_of_set_sort_remdups distinct_remdups_id)
  moreover have "sorted_wrt (<) (ks ! X) \<and> set (ks ! X) = goto_items g I X" if "X \<in> goto_symbols g I" for X
  proof -
    have x: "ks ! X = map Suc (filter (\<lambda>i. ritem g ! i = int X) itemset)" using goto_symbols_bounds(1,2) [OF g I that] by (rule k)
    show ?thesis unfolding x using c by (simp add: strictly_sorted_map_Suc sorted_wrt_filter goto_items_def)
  qed
  ultimately show thesis using r(1) that by blast
qed

lemma generate_state_result:
  assumes g: "grammar_ok g" and st: "machine_ok g st" and k: "this_state st < length (cores st)"
  shows "case generate_state g (set_first_derives g (set_derives g)) st of None \<Rightarrow> MAXSHORT < card (lr0_kernels g)
    | Some st' \<Rightarrow> machine_ok g st' \<and> this_state st' = Suc (this_state st)"
proof -
  let ?k = "this_state st" and ?cs = "cores st"
  let ?itemset = "closure g (set_first_derives g (set_derives g)) (core_items (?cs ! ?k))"
  have cs: "cores_ok g ?cs" using st by (simp add: machine_ok_def)
  note d = cores_okD [OF cs]
  have I: "items_of ?cs ?k \<subseteq> {0<..<nitems g}" by (rule lr0_kernels_items(1) [OF g d(6) [OF k]])
  note cl = closure_items [OF g I d(5) [OF k]]
  obtain ss ks where new: "new_itemsets g ?itemset = (ss, ks)" "sort_symbols ss = sorted_list_of_set (goto_symbols g (items_of ?cs ?k))"
    and kern: "\<And>X. X \<in> goto_symbols g (items_of ?cs ?k) \<Longrightarrow> sorted_wrt (<) (ks ! X) \<and> set (ks ! X) = goto_items g (items_of ?cs ?k) X"
    by (rule kernels_of_state [OF g I cl]) (rule that)
  let ?st = "save_reductions g ?itemset st" and ?syms = "sorted_list_of_set (goto_symbols g (items_of ?cs ?k))"
  have syms: "set ?syms = goto_symbols g (items_of ?cs ?k)" using finite_goto_symbols [OF g I] by simp
  have gen: "generate_state g (set_first_derives g (set_derives g)) st =
      (case append_states_loop g ks ?syms ?st of None \<Rightarrow> None | Some (ns, st') \<Rightarrow>
        (let st' = (if ns \<noteq> [] then save_shifts ns st' else st') in Some (st'\<lparr> this_state := this_state st' + 1 \<rparr>)))"
    by (simp add: generate_state_def append_states_def new Let_def split: option.split)
  have "case append_states_loop g ks ?syms ?st of None \<Rightarrow> MAXSHORT < card (lr0_kernels g)
    | Some (ns, st') \<Rightarrow> lr0_store_ok g st' \<and> lr0_extends ?st st' \<and> list_all2 (goes_to g (cores st') ?k) ?syms ns"
    by (rule append_states_loop_result [OF g]) (use st k kern in \<open>simp_all add: lr0_store_ok_def machine_ok_def syms\<close>)
  then show ?thesis
  proof (cases "append_states_loop g ks ?syms ?st")
    case (Some nsst)
    obtain ns st1 where nsst: "nsst = (ns, st1)" by force
    have 1: "lr0_store_ok g st1" "lr0_extends ?st st1" "list_all2 (goes_to g (cores st1) ?k) ?syms ns"
      using Some nsst \<open>case append_states_loop g ks ?syms ?st of None \<Rightarrow> _ | Some (ns, st') \<Rightarrow> _\<close> by simp_all
    obtain more where c1: "cores st1 = ?cs @ more" using 1(2) by (auto simp: lr0_extends_def)
    have e: "this_state st1 = ?k" "shift_list st1 = shift_list st" "reduction_list st1 = reduction_list ?st"
      using 1(2) by (simp_all add: lr0_extends_def)
    have red: "reductions_ok g (cores st1) (Suc ?k) (reduction_list st1)"
      unfolding c1 e(3) by (rule reductions_ok_append [OF save_reductions_ok]) (use st cl d(4) k in \<open>simp_all add: machine_ok_def\<close>)
    have sh: "shifts_ok g (cores st1) ?k (shift_list st1)"
      unfolding c1 e(2) by (rule shifts_ok_append) (use st k in \<open>simp_all add: machine_ok_def\<close>)
    have same: "items_of (cores st1) ?k = items_of ?cs ?k" "core_number (cores st1 ! ?k) = ?k" using k d(4) by (simp_all add: c1 nth_append)
    have "ns = [] \<longleftrightarrow> ?syms = []" using 1(3) by (metis list_all2_Nil list_all2_Nil2)
    then have empty: "ns = [] \<longleftrightarrow> goto_symbols g (items_of ?cs ?k) = {}" using syms by (metis set_empty)
    have sh': "shifts_ok g (cores st1) (Suc ?k) (shift_list (if ns \<noteq> [] then save_shifts ns st1 else st1))"
      using shifts_ok_Suc(1) [OF sh] shifts_ok_Suc(2) [OF sh, of ns] 1(3) empty e(1) same by simp
    have "machine_ok g ((if ns \<noteq> [] then save_shifts ns st1 else st1)\<lparr> this_state := Suc ?k \<rparr>)"
      using 1(1) red sh' by (cases "ns = []") (simp_all add: machine_ok_def lr0_store_ok_def)
    then show ?thesis unfolding gen using Some nsst e(1) by (cases "ns = []") (simp_all add: Let_def)
  qed (simp add: gen)
qed

lemma append_states_loop_grows:
  "append_states_loop g ks symbols st = Some (ns, st') \<Longrightarrow> length (cores st) \<le> length (cores st')"
proof (induction symbols arbitrary: ns st)
  case (Cons symbol symbols)
  then obtain n st1 ns' where s: "get_state g ks symbol st = Some (n, st1)" "append_states_loop g ks symbols st1 = Some (ns', st')"
    by (auto simp: bind_eq_Some_conv)
  have "length (cores st) \<le> length (cores st1)"
    using s(1) by (auto simp: get_state_def new_state_def Let_def bind_eq_Some_conv split: if_splits option.splits)
  then show ?case using Cons.IH [OF s(2)] by simp
qed simp

lemma generate_state_grows:
  "generate_state g fd st = Some st' \<Longrightarrow> length (cores st) \<le> length (cores st')"
  by (auto simp: generate_state_def append_states_def Let_def bind_eq_Some_conv dest!: append_states_loop_grows split: if_splits)

section \<open>The whole machine\<close>

lemma initialize_states_ok:
  assumes g: "grammar_ok g"
  shows "machine_ok g (initialize_states g (set_derives g))"
proof -
  note d = grammar_okD [OF g]
  have "filter (\<lambda>i. rlhs g ! i = start_symbol g) [0..<nrules g] = [2]"
  proof -
    have "filter (\<lambda>i. rlhs g ! i = start_symbol g) [0..<nrules g] = filter (\<lambda>i. i = 2) [0..<nrules g]"
      using rlhs_var(3) [OF g] by (intro filter_cong refl) simp
    also have "\<dots> = [2]"
    proof -
      have up: "[0..<nrules g] = [0..<3] @ [3..<nrules g]" using d(10) upt_add_eq_append [of 0 3 "nrules g - 3"] by simp
      have none: "filter (\<lambda>i. i = 2) [3..<nrules g] = []" by (simp add: filter_empty_conv)
      show ?thesis unfolding up filter_append none by (simp add: upt_rec)
    qed
    finally show ?thesis .
  qed
  then have rules: "set_derives g ! start_symbol g = [2]" using d(1,2,4) by (simp add: set_derives_nth)
  show ?thesis
    using lr0_kernels.start [of g]
    by (auto simp: machine_ok_def initialize_states_def Let_def rules cores_ok_def state_set_ok_def shifts_ok_def reductions_ok_def MAXSHORT_def)
qed

lemma generate_loop_result:
  assumes g: "grammar_ok g" and st: "machine_ok g st" "this_state st \<le> length (cores st)"
  shows "case generate_loop g (set_first_derives g (set_derives g)) st of None \<Rightarrow> MAXSHORT < card (lr0_kernels g)
    | Some st' \<Rightarrow> machine_ok g st' \<and> this_state st' = length (cores st')"
  using st
proof (induction "max MAXSHORT (length (cores st)) - this_state st" arbitrary: st rule: less_induct)
  case less
  let ?gen = "generate_state g (set_first_derives g (set_derives g)) st"
  show ?case
  proof (cases "this_state st < length (cores st)")
    case True
    note r = generate_state_result [OF g less.prems(1) True]
    show ?thesis
    proof (cases ?gen)
      case None
      then show ?thesis using r True by (subst generate_loop.simps) simp
    next
      case (Some st1)
      then have 1: "machine_ok g st1" "this_state st1 = Suc (this_state st)" using r by simp_all
      have b: "max MAXSHORT (length (cores st1)) = max MAXSHORT (length (cores st))" by (rule generate_state_bound(1) [OF Some])
      have le: "this_state st1 \<le> length (cores st1)" using True 1 generate_state_grows [OF Some] by simp
      have "generate_loop g (set_first_derives g (set_derives g)) st = generate_loop g (set_first_derives g (set_derives g)) st1"
        using True Some by (subst generate_loop.simps) simp
      then show ?thesis using less.hyps [OF _ 1(1) le] b 1(2) True by simp
    qed
  next
    case False
    then show ?thesis using less.prems by (subst generate_loop.simps) simp
  qed
qed

text \<open>
  A machine is the LR(0) automaton: its states are the reachable kernels, each once, numbered in the order of the list; the shifts of a state
  go, for its symbols in ascending order, where the canonical construction goes; the reductions are those of its closure.
\<close>

definition lr0_automaton :: "grammar \<Rightarrow> lr0_machine \<Rightarrow> bool" where
  "lr0_automaton g st \<longleftrightarrow> cores_ok g (cores st) \<and> (\<lambda>c. set (core_items c)) ` set (cores st) = lr0_kernels g \<and>
     length (cores st) = card (lr0_kernels g) \<and>
     shifts_ok g (cores st) (length (cores st)) (shift_list st) \<and> reductions_ok g (cores st) (length (cores st)) (reduction_list st)"

lemma all_kernels:
  assumes g: "grammar_ok g" and st: "machine_ok g st" "this_state st = length (cores st)"
  shows "lr0_kernels g \<subseteq> (\<lambda>c. set (core_items c)) ` set (cores st)"
proof
  have cs: "cores_ok g (cores st)" and sh: "shifts_ok g (cores st) (length (cores st)) (shift_list st)" using st by (simp_all add: machine_ok_def)
  note d = cores_okD [OF cs]
  fix I assume "I \<in> lr0_kernels g"
  then show "I \<in> (\<lambda>c. set (core_items c)) ` set (cores st)"
  proof induction
    case start
    have "cores st ! 0 \<in> set (cores st)" using d(1) by (intro nth_mem) simp
    then show ?case using d(2) by (intro image_eqI [of _ _ "cores st ! 0"]) auto
  next
    case (shift I X)
    then obtain c where c: "c < length (cores st)" "I = items_of (cores st) c" by (auto simp: in_set_conv_nth)
    have "c \<in> set (map shifts_number (shift_list st))" using sh c shift unfolding shifts_ok_def by auto
    then obtain s where s: "s \<in> set (shift_list st)" "shifts_number s = c" by auto
    have "list_all2 (goes_to g (cores st) c) (sorted_list_of_set (goto_symbols g I)) (shift s)" using sh s c(2) unfolding shifts_ok_def by auto
    moreover have "X \<in> set (sorted_list_of_set (goto_symbols g I))"
      using shift finite_goto_symbols [OF g lr0_kernels_items(1) [OF g shift(1)]] by simp
    ultimately obtain e where "goes_to g (cores st) c X e" by (auto simp: list_all2_conv_all_nth in_set_conv_nth)
    then show ?case using c(2) by (intro image_eqI [of _ _ "cores st ! e"]) (auto simp: goes_to_def)
  qed
qed

theorem generate_states_lr0:
  assumes g: "grammar_ok g"
  shows "case generate_states g (set_derives g) of None \<Rightarrow> MAXSHORT < card (lr0_kernels g)
    | Some st \<Rightarrow> lr0_automaton g st \<and> card (lr0_kernels g) \<le> MAXSHORT"
proof -
  have "case generate_states g (set_derives g) of None \<Rightarrow> MAXSHORT < card (lr0_kernels g)
    | Some st \<Rightarrow> machine_ok g st \<and> this_state st = length (cores st)"
    unfolding generate_states_def by (rule generate_loop_result [OF g initialize_states_ok [OF g]]) (simp add: initialize_states_def Let_def)
  then show ?thesis
  proof (cases "generate_states g (set_derives g)")
    case (Some st)
    then have st: "machine_ok g st" "this_state st = length (cores st)"
      using \<open>case generate_states g (set_derives g) of None \<Rightarrow> _ | Some st \<Rightarrow> _\<close> by simp_all
    have cs: "cores_ok g (cores st)" using st(1) by (simp add: machine_ok_def)
    have all: "(\<lambda>c. set (core_items c)) ` set (cores st) = lr0_kernels g"
      using all_kernels [OF g st] cores_subset_kernels [OF cs] by blast
    then show ?thesis using Some st card_cores [OF cs] by (simp add: lr0_automaton_def machine_ok_def)
  qed simp
qed

end
