(* ===== verification/Jay_Nullable.thy ===== *)
theory Jay_Nullable
  imports Jay_Defs
begin

text \<open>
  \<open>set_nullable\<close> of \<open>lr0.c\<close>: which nonterminals derive the empty string. It passes over all rules until a pass finds nothing new.
\<close>

text \<open>
  One pass over the items: \<open>all_empty\<close> says whether all symbols since the last rule are nullable, \<open>done\<close> whether the pass found nothing. An
  access outside \<open>nullable\<close> is \<open>None\<close>.
\<close>

fun nullable_pass :: "grammar \<Rightarrow> int list \<Rightarrow> bool \<Rightarrow> bool list \<Rightarrow> bool \<Rightarrow> (bool list \<times> bool) option" where
  "nullable_pass g [] all_empty nullable is_done = Some (nullable, is_done)"
| "nullable_pass g (j # items) all_empty nullable is_done =
     (if 0 \<le> j
      then if length nullable \<le> nat j then None
           else nullable_pass g items (if nullable ! nat j then all_empty else False) nullable is_done
      else if all_empty
      then let j = rlhs g ! nat (- j) in
           if length nullable \<le> j then None
           else if \<not> nullable ! j then nullable_pass g items True (nullable[j := True]) False
           else nullable_pass g items True nullable is_done
      else nullable_pass g items True nullable is_done)"

text \<open>How many symbols are not nullable yet.\<close>

abbreviation not_nullable :: "bool list \<Rightarrow> nat" where
  "not_nullable nullable \<equiv> length (filter Not nullable)"

lemma not_nullable_update: "j < length nullable \<Longrightarrow> \<not> nullable ! j \<Longrightarrow> not_nullable (nullable[j := True]) < not_nullable nullable"
proof (induction nullable arbitrary: j)
  case (Cons x xs)
  then show ?case by (cases j) auto
qed simp

lemma nullable_pass_progress:
  "nullable_pass g items all_empty nullable is_done = Some (nullable', is_done') \<Longrightarrow>
     not_nullable nullable' \<le> not_nullable nullable \<and> (is_done \<and> \<not> is_done' \<longrightarrow> not_nullable nullable' < not_nullable nullable)"
proof (induction items arbitrary: all_empty nullable is_done)
  case (Cons j items)
  let ?A = "rlhs g ! nat (- j)"
  show ?case
  proof (cases "\<not> 0 \<le> j \<and> all_empty \<and> \<not> nullable ! ?A")
    case True
    then have l: "?A < length nullable" and p: "nullable_pass g items True (nullable[?A := True]) False = Some (nullable', is_done')"
      using Cons.prems by (auto simp: Let_def split: if_splits)
    show ?thesis using Cons.IH [OF p] not_nullable_update [OF l] True by auto
  next
    case False
    then obtain e where "nullable_pass g items e nullable is_done = Some (nullable', is_done')"
      using Cons.prems by (auto simp: Let_def split: if_splits)
    then show ?thesis by (rule Cons.IH)
  qed
qed simp

function set_nullable_loop :: "grammar \<Rightarrow> bool list \<Rightarrow> bool list option" where
  "set_nullable_loop g nullable =
     (case nullable_pass g (drop 1 (ritem g)) True nullable True of
        None \<Rightarrow> None
      | Some (nullable, is_done) \<Rightarrow> if is_done then Some nullable else set_nullable_loop g nullable)"
  by pat_completeness auto
termination
  by (relation "measure (\<lambda>(g, nullable). not_nullable nullable)") (auto dest!: nullable_pass_progress)

declare set_nullable_loop.simps [simp del]

definition set_nullable :: "grammar \<Rightarrow> bool list option" where
  "set_nullable g = set_nullable_loop g (replicate (nsyms g) False)"

section \<open>The symbols that derive the empty string\<close>

inductive derives_empty :: "grammar \<Rightarrow> nat \<Rightarrow> bool" for g :: grammar where
  "2 \<le> r \<Longrightarrow> r < nrules g \<Longrightarrow> (\<forall>X \<in> set (rhs g r). derives_empty g X) \<Longrightarrow> derives_empty g (rlhs g ! r)"

lemma drop_split:
  assumes "a \<le> b" and "b \<le> length xs"
  shows "drop a xs = map ((!) xs) [a..<b] @ drop b xs"
proof -
  have "drop a xs = take (b - a) (drop a xs) @ drop (b - a) (drop a xs)" by (rule append_take_drop_id [symmetric])
  moreover have "take (b - a) (drop a xs) = map ((!) xs) [a..<b]" using assms by (intro nth_equalityI) auto
  ultimately show ?thesis using assms by simp
qed

lemma items_by_rule:
  assumes g: "grammar_ok g" and r: "2 \<le> r" "r \<le> nrules g"
  shows "drop (rrhs g ! r) (ritem g) = concat (map (\<lambda>r. map int (rhs g r) @ [- int r]) [r..<nrules g])"
  using r(2,1)
proof (induction r rule: inc_induct)
  case base
  show ?case using grammar_okD(7,11) [OF g] by simp
next
  case (step r)
  note st = rrhs_step [OF g step.prems step.hyps(2)]
  have last: "rrhs g ! Suc r \<le> nitems g"
    using rrhs_less [OF g, of "Suc r" "nrules g"] step grammar_okD(11) [OF g] by (cases "Suc r = nrules g") auto
  let ?a = "rrhs g ! r" and ?b = "rrhs g ! Suc r - 1"
  have b: "?a \<le> ?b" "?b < length (ritem g)" "Suc ?b = rrhs g ! Suc r" using st(1) last grammar_okD(7) [OF g] by simp_all
  have "drop ?a (ritem g) = map ((!) (ritem g)) [?a..<?b] @ drop ?b (ritem g)" using b by (intro drop_split) simp_all
  moreover have "drop ?b (ritem g) = - int r # drop (rrhs g ! Suc r) (ritem g)"
    using Cons_nth_drop_Suc [OF b(2)] st(2) b(3) by simp
  moreover have "map ((!) (ritem g)) [?a..<?b] = map int (rhs g r)"
    using st(3) by (simp add: rhs_def comp_def)
  ultimately show ?case using step by (simp add: upt_conv_Cons)
qed

lemma all_items:
  assumes "grammar_ok g"
  shows "drop 1 (ritem g) = concat (map (\<lambda>r. map int (rhs g r) @ [- int r]) [2..<nrules g])"
  using items_by_rule [OF assms, of 2] grammar_first_rules(8) [OF assms] grammar_okD(10) [OF assms] by simp

lemma rhs_symbols:
  assumes g: "grammar_ok g" and r: "2 \<le> r" "r < nrules g" and X: "X \<in> set (rhs g r)"
  shows "X < nsyms g"
proof -
  obtain k where "X = nat (ritem g ! k)" "rrhs g ! r \<le> k" "k < rrhs g ! Suc r - 1" using X by (auto simp: rhs_def)
  then show ?thesis using rrhs_step(3) [OF g r, of k] by (simp add: nat_less_iff)
qed

section \<open>Correctness\<close>

text \<open>The right-hand side of a rule.\<close>

lemma nullable_pass_rhs:
  assumes "\<forall>X \<in> set Xs. X < length nul"
  shows "nullable_pass g (map int Xs @ items) e nul d = nullable_pass g items (e \<and> (\<forall>X \<in> set Xs. nul ! X)) nul d"
  using assms
proof (induction Xs arbitrary: e)
  case (Cons X Xs)
  then show ?case by (cases "nul ! X") simp_all
qed simp

lemma nullable_pass_rule:
  assumes g: "grammar_ok g" and r: "2 \<le> r" "r < nrules g" and len: "length nul = nsyms g"
  shows "nullable_pass g ((map int (rhs g r) @ [- int r]) @ items) True nul d =
    (if (\<forall>X \<in> set (rhs g r). nul ! X) \<and> \<not> nul ! (rlhs g ! r) then nullable_pass g items True (nul[rlhs g ! r := True]) False
     else nullable_pass g items True nul d)"
  using rhs_symbols [OF g r] rlhs_var(2) [OF g r(2)] r len by (simp add: nullable_pass_rhs Let_def)

text \<open>A pass keeps what is known, adds only what is true, and at its end either something is new or all rules are satisfied.\<close>

lemma nullable_pass_rules:
  assumes g: "grammar_ok g" and rs: "\<forall>r \<in> set rs. 2 \<le> r \<and> r < nrules g"
    and len: "length nul = nsyms g" and sound: "\<forall>X < nsyms g. nul ! X \<longrightarrow> derives_empty g X"
  shows "\<exists>nul' d'. nullable_pass g (concat (map (\<lambda>r. map int (rhs g r) @ [- int r]) rs)) True nul d = Some (nul', d') \<and>
    length nul' = nsyms g \<and> (\<forall>X < nsyms g. nul' ! X \<longrightarrow> derives_empty g X) \<and>
    (d' \<longrightarrow> d \<and> nul' = nul \<and> (\<forall>r \<in> set rs. (\<forall>X \<in> set (rhs g r). nul ! X) \<longrightarrow> nul ! (rlhs g ! r)))"
  using rs len sound
proof (induction rs arbitrary: nul d)
  case (Cons r rs)
  let ?items = "concat (map (\<lambda>r. map int (rhs g r) @ [- int r]) rs)"
  have r: "2 \<le> r" "r < nrules g" and A: "rlhs g ! r < nsyms g" using Cons.prems rlhs_var(2) [OF g] by simp_all
  note step = nullable_pass_rule [OF g r Cons.prems(2), of ?items d]
  show ?case
  proof (cases "(\<forall>X \<in> set (rhs g r). nul ! X) \<and> \<not> nul ! (rlhs g ! r)")
    case True
    let ?nul = "nul[rlhs g ! r := True]"
    have "derives_empty g (rlhs g ! r)" using True Cons.prems(3) rhs_symbols [OF g r] r by (intro derives_empty.intros) auto
    then have "\<forall>X < nsyms g. ?nul ! X \<longrightarrow> derives_empty g X"
      using Cons.prems(2,3) A by (metis nth_list_update_neq)
    then show ?thesis using Cons.IH [of ?nul False] Cons.prems(1,2) True step by simp
  next
    case False
    then have "nullable_pass g (concat (map (\<lambda>r. map int (rhs g r) @ [- int r]) (r # rs))) True nul d = nullable_pass g ?items True nul d"
      using step by (simp only: list.map concat.simps if_False)
    moreover obtain nul' d' where "nullable_pass g ?items True nul d = Some (nul', d')" "length nul' = nsyms g"
      "\<forall>X < nsyms g. nul' ! X \<longrightarrow> derives_empty g X"
      "d' \<longrightarrow> d \<and> nul' = nul \<and> (\<forall>r \<in> set rs. (\<forall>X \<in> set (rhs g r). nul ! X) \<longrightarrow> nul ! (rlhs g ! r))"
      using Cons.IH [of nul d] Cons.prems by auto
    ultimately show ?thesis using False by (intro exI [of _ nul'] exI [of _ d']) auto
  qed
qed simp

lemma set_nullable_loop_result:
  assumes g: "grammar_ok g" and len: "length nul = nsyms g" and sound: "\<forall>X < nsyms g. nul ! X \<longrightarrow> derives_empty g X"
  shows "\<exists>nul'. set_nullable_loop g nul = Some nul' \<and> length nul' = nsyms g \<and> (\<forall>X < nsyms g. nul' ! X \<longrightarrow> derives_empty g X) \<and>
    (\<forall>r. 2 \<le> r \<and> r < nrules g \<longrightarrow> (\<forall>X \<in> set (rhs g r). nul' ! X) \<longrightarrow> nul' ! (rlhs g ! r))"
  using len sound
proof (induction "not_nullable nul" arbitrary: nul rule: less_induct)
  case less
  obtain nul' d' where p: "nullable_pass g (drop 1 (ritem g)) True nul True = Some (nul', d')" "length nul' = nsyms g"
    "\<forall>X < nsyms g. nul' ! X \<longrightarrow> derives_empty g X"
    "d' \<longrightarrow> nul' = nul \<and> (\<forall>r \<in> set [2..<nrules g]. (\<forall>X \<in> set (rhs g r). nul ! X) \<longrightarrow> nul ! (rlhs g ! r))"
    using nullable_pass_rules [OF g _ less.prems, of "[2..<nrules g]" True] unfolding all_items [OF g] by auto
  show ?case
  proof (cases d')
    case True
    then show ?thesis using p by (subst set_nullable_loop.simps) simp
  next
    case False
    then have "not_nullable nul' < not_nullable nul" using nullable_pass_progress [OF p(1)] by simp
    then show ?thesis using less.hyps [of nul'] p False by (subst set_nullable_loop.simps) simp
  qed
qed

theorem set_nullable_correct:
  assumes g: "grammar_ok g"
  shows "\<exists>nul. set_nullable g = Some nul \<and> length nul = nsyms g \<and> (\<forall>X < nsyms g. nul ! X \<longleftrightarrow> derives_empty g X)"
proof -
  obtain nul where n: "set_nullable g = Some nul" "length nul = nsyms g" "\<forall>X < nsyms g. nul ! X \<longrightarrow> derives_empty g X"
    "\<forall>r. 2 \<le> r \<and> r < nrules g \<longrightarrow> (\<forall>X \<in> set (rhs g r). nul ! X) \<longrightarrow> nul ! (rlhs g ! r)"
    using set_nullable_loop_result [OF g, of "replicate (nsyms g) False"] by (auto simp: set_nullable_def)
  have "nul ! X" if "derives_empty g X" for X using that by induction (use n(4) in auto)
  then show ?thesis using n by auto
qed

end
