(* ===== verification/Jay_Digraph.thy ===== *)
theory Jay_Digraph
  imports Jay_Defs
begin

text \<open>
  \<open>digraph\<close> and \<open>traverse\<close> of \<open>lalr.c\<close>: joining to each row of bits the rows of all nodes that can be reached, in one depth-first search
  that finds the strongly connected components on the way. The stack \<open>VERTICES\<close> is a list with its top first, \<open>top\<close> its length.
  The search is a \<open>partial_function\<close>; that it ends is part of the theorem.
\<close>

record digraph_state =
  INDEX :: "int list"
  VERTICES :: "nat list"
  F_rows :: "bits list"

definition traverse_enter :: "nat \<Rightarrow> digraph_state \<Rightarrow> digraph_state" where
  "traverse_enter i st =
     (let vertices = i # VERTICES st in
      st\<lparr> VERTICES := vertices, INDEX := (INDEX st)[i := to_short (int (length vertices))] \<rparr>)"

text \<open>The part of the loop over the successors that follows the recursive call.\<close>

definition traverse_join :: "nat \<Rightarrow> nat \<Rightarrow> digraph_state \<Rightarrow> digraph_state" where
  "traverse_join i j st =
     (let st = (if INDEX st ! j < INDEX st ! i then st\<lparr> INDEX := (INDEX st)[i := INDEX st ! j] \<rparr> else st) in
      st\<lparr> F_rows := (F_rows st)[i := or_row (F_rows st ! i) (F_rows st ! j)] \<rparr>)"

fun traverse_pop :: "int \<Rightarrow> nat \<Rightarrow> nat list \<Rightarrow> digraph_state \<Rightarrow> digraph_state option" where
  "traverse_pop infinity_index i [] st = None"
| "traverse_pop infinity_index i (j # vertices) st =
     (let st = st\<lparr> VERTICES := vertices, INDEX := (INDEX st)[j := to_short infinity_index] \<rparr> in
      if i = j then Some st
      else traverse_pop infinity_index i vertices (st\<lparr> F_rows := (F_rows st)[j := F_rows st ! i] \<rparr>))"

definition traverse_exit :: "int \<Rightarrow> nat \<Rightarrow> int \<Rightarrow> digraph_state \<Rightarrow> digraph_state option" where
  "traverse_exit infinity_index i height st =
     (if INDEX st ! i = height then traverse_pop infinity_index i (VERTICES st) st else Some st)"

text \<open>The loop over the successors \<open>rp\<close> of \<open>i\<close>, with the body of \<open>traverse\<close> in the place of its call.\<close>

partial_function (option) traverse_edges ::
  "nat list list \<Rightarrow> int \<Rightarrow> nat \<Rightarrow> nat list \<Rightarrow> digraph_state \<Rightarrow> digraph_state option" where
  "traverse_edges R infinity_index i rp st =
     (case rp of [] \<Rightarrow> Some st
      | j # rp \<Rightarrow>
          if length (INDEX st) \<le> j then None
          else do {
            st \<leftarrow> (if INDEX st ! j = 0
                  then do {
                    st' \<leftarrow> traverse_edges R infinity_index j (R ! j) (traverse_enter j st);
                    traverse_exit infinity_index j (int (length (VERTICES (traverse_enter j st)))) st'
                  }
                  else Some st);
            traverse_edges R infinity_index i rp (traverse_join i j st)
          })"

declare traverse_edges.simps [code]

definition traverse :: "nat list list \<Rightarrow> int \<Rightarrow> nat \<Rightarrow> digraph_state \<Rightarrow> digraph_state option" where
  "traverse R infinity_index i st = do {
     st' \<leftarrow> traverse_edges R infinity_index i (R ! i) (traverse_enter i st);
     traverse_exit infinity_index i (int (length (VERTICES (traverse_enter i st)))) st'
   }"

lemma traverse_edges_Nil [simp]: "traverse_edges R infin i [] st = Some st"
  by (simp add: traverse_edges.simps)

lemma traverse_edges_Cons [simp]:
  "traverse_edges R infin i (j # rp) st =
     (if length (INDEX st) \<le> j then None
      else do {
        st \<leftarrow> (if INDEX st ! j = 0 then traverse R infin j st else Some st);
        traverse_edges R infin i rp (traverse_join i j st)
      })"
  by (simp add: traverse_edges.simps [of R infin i "j # rp"] traverse_def)

fun digraph_loop :: "nat list list \<Rightarrow> int \<Rightarrow> nat list \<Rightarrow> digraph_state \<Rightarrow> digraph_state option" where
  "digraph_loop R infinity_index [] st = Some st"
| "digraph_loop R infinity_index (i # is) st = do {
     st \<leftarrow> (if INDEX st ! i = 0 \<and> R ! i \<noteq> [] then traverse R infinity_index i st else Some st);
     digraph_loop R infinity_index is st
   }"

text \<open>A relation gives each of the \<open>ngotos\<close> nodes the list of its successors, the empty list for a null pointer.\<close>

definition digraph :: "nat \<Rightarrow> nat list list \<Rightarrow> bits list \<Rightarrow> bits list option" where
  "digraph ngotos relation F =
     map_option F_rows (digraph_loop relation (int ngotos + 2) [0..<ngotos]
       \<lparr> INDEX = replicate ngotos 0, VERTICES = [], F_rows = F \<rparr>)"

section \<open>What the search computes\<close>

definition edges :: "nat list list \<Rightarrow> nat rel" where
  "edges R = {(i, j). i < length R \<and> j \<in> set (R ! i)}"

definition reach_union :: "nat list list \<Rightarrow> bits list \<Rightarrow> nat \<Rightarrow> nat set" where
  "reach_union R F v = (\<Union>u \<in> {u. (v, u) \<in> (edges R)\<^sup>*}. members (F ! u))"

lemma reach_union_mono: "(v, u) \<in> (edges R)\<^sup>* \<Longrightarrow> reach_union R F u \<subseteq> reach_union R F v"
  by (auto simp: reach_union_def intro: rtrancl_trans)

lemma reach_union_self: "members (F ! v) \<subseteq> reach_union R F v"
  by (auto simp: reach_union_def)

text \<open>The place of a node on the stack, counted from the bottom.\<close>

definition stack_pos :: "nat list \<Rightarrow> nat \<Rightarrow> nat" where
  "stack_pos vs v = length (dropWhile (\<lambda>x. x \<noteq> v) vs)"

lemma stack_pos_le: "stack_pos vs v \<le> length vs"
  by (simp add: stack_pos_def length_dropWhile_le)

lemma stack_pos_Cons [simp]: "stack_pos (u # vs) v = (if u = v then Suc (length vs) else stack_pos vs v)"
  by (simp add: stack_pos_def)

lemma stack_pos_append: "v \<notin> set ts \<Longrightarrow> stack_pos (ts @ vs) v = stack_pos vs v"
  by (induction ts) auto

lemma stack_pos_prefix: "v \<in> set ts \<Longrightarrow> length vs < stack_pos (ts @ vs) v"
  by (induction ts) auto

lemma stack_pos_positive: "v \<in> set vs \<Longrightarrow> 0 < stack_pos vs v"
  by (induction vs) auto

lemma stack_pos_inj: "u \<in> set vs \<Longrightarrow> v \<in> set vs \<Longrightarrow> stack_pos vs u = stack_pos vs v \<Longrightarrow> u = v"
proof (induction vs)
  case (Cons x vs)
  have "stack_pos vs w \<noteq> Suc (length vs)" for w using stack_pos_le [of vs w] by simp
  then show ?case using Cons by (auto split: if_splits)
qed simp

section \<open>The invariant of the search\<close>

abbreviation node_index :: "digraph_state \<Rightarrow> nat \<Rightarrow> int" where "node_index st v \<equiv> INDEX st ! v"
abbreviation node_row :: "digraph_state \<Rightarrow> nat \<Rightarrow> nat set" where "node_row st v \<equiv> members (F_rows st ! v)"
abbreviation node_pos :: "digraph_state \<Rightarrow> nat \<Rightarrow> int" where "node_pos st v \<equiv> int (stack_pos (VERTICES st) v)"

text \<open>The edge from \<open>v\<close> to \<open>u\<close> has been followed.\<close>

definition edge_done :: "int \<Rightarrow> digraph_state \<Rightarrow> nat \<Rightarrow> nat \<Rightarrow> bool" where
  "edge_done infin st v u \<longleftrightarrow> node_index st u = infin \<and> node_row st u \<subseteq> node_row st v \<or> u \<in> set (VERTICES st) \<and> node_index st v \<le> node_pos st u"

text \<open>\<open>A\<close> are the nodes whose calls of \<open>traverse\<close> have not returned.\<close>

definition digraph_ok :: "nat list list \<Rightarrow> bits list \<Rightarrow> int \<Rightarrow> nat set \<Rightarrow> digraph_state \<Rightarrow> bool" where
  "digraph_ok R F infin A st \<longleftrightarrow>
     length (INDEX st) = length R \<and> length (F_rows st) = length R \<and> (\<forall>v < length R. length (F_rows st ! v) = length (F ! v)) \<and>
     A \<subseteq> set (VERTICES st) \<and> distinct (VERTICES st) \<and> set (VERTICES st) = {v. v < length R \<and> node_index st v \<noteq> 0 \<and> node_index st v \<noteq> infin} \<and>
     (\<forall>v < length R. node_index st v = 0 \<longrightarrow> F_rows st ! v = F ! v) \<and>
     (\<forall>v \<in> set (VERTICES st). 1 \<le> node_index st v \<and> node_index st v \<le> node_pos st v \<and>
        (\<exists>u \<in> set (VERTICES st). node_pos st u = node_index st v \<and> (v, u) \<in> (edges R)\<^sup>*) \<and>
        members (F ! v) \<subseteq> node_row st v \<and> node_row st v \<subseteq> reach_union R F v) \<and>
     (\<forall>v \<in> set (VERTICES st) - A. node_index st v < node_pos st v \<and> (\<forall>u. (v, u) \<in> edges R \<longrightarrow> edge_done infin st v u)) \<and>
     (\<forall>v < length R. node_index st v = infin \<longrightarrow> node_row st v = reach_union R F v \<and> (\<forall>u. (v, u) \<in> edges R \<longrightarrow> node_index st u = infin))"

text \<open>What is above the node \<open>a\<close> on the stack was found from \<open>a\<close>.\<close>

definition top_ok :: "nat list list \<Rightarrow> nat set \<Rightarrow> nat \<Rightarrow> digraph_state \<Rightarrow> bool" where
  "top_ok R A a st \<longleftrightarrow> (\<forall>w \<in> set (VERTICES st). node_pos st a < node_pos st w \<longrightarrow>
     node_index st a \<le> node_index st w \<and> node_row st w \<subseteq> node_row st a \<and> (a, w) \<in> (edges R)\<^sup>* \<and> w \<notin> A)"

text \<open>A step that only visits nodes that were not visited before, \<open>except\<close> for those given.\<close>

definition keeps :: "nat set \<Rightarrow> digraph_state \<Rightarrow> digraph_state \<Rightarrow> bool" where
  "keeps except st st' \<longleftrightarrow> (\<exists>new. VERTICES st' = new @ VERTICES st) \<and>
     (\<forall>v < length (INDEX st). v \<notin> except \<longrightarrow> node_index st v \<noteq> 0 \<longrightarrow> node_index st' v = node_index st v \<and> F_rows st' ! v = F_rows st ! v) \<and>
     (\<forall>v \<in> except. node_index st v \<noteq> 0 \<longrightarrow> node_index st' v \<noteq> 0)"

abbreviation unvisited :: "nat list list \<Rightarrow> digraph_state \<Rightarrow> nat set" where
  "unvisited R st \<equiv> {v. v < length R \<and> node_index st v = 0}"

lemma digraph_okD:
  assumes "digraph_ok R F infin A st"
  shows "length (INDEX st) = length R" "length (F_rows st) = length R" "\<And>v. v < length R \<Longrightarrow> length (F_rows st ! v) = length (F ! v)"
    "distinct (VERTICES st)" "\<And>v. v \<in> set (VERTICES st) \<longleftrightarrow> v < length R \<and> node_index st v \<noteq> 0 \<and> node_index st v \<noteq> infin"
    "\<And>v. v < length R \<Longrightarrow> node_index st v = 0 \<Longrightarrow> F_rows st ! v = F ! v"
    "\<And>v. v \<in> set (VERTICES st) \<Longrightarrow> 1 \<le> node_index st v" "\<And>v. v \<in> set (VERTICES st) \<Longrightarrow> node_index st v \<le> node_pos st v"
    "\<And>v. v \<in> set (VERTICES st) \<Longrightarrow> \<exists>u \<in> set (VERTICES st). node_pos st u = node_index st v \<and> (v, u) \<in> (edges R)\<^sup>*"
    "\<And>v. v \<in> set (VERTICES st) \<Longrightarrow> members (F ! v) \<subseteq> node_row st v" "\<And>v. v \<in> set (VERTICES st) \<Longrightarrow> node_row st v \<subseteq> reach_union R F v"
    "\<And>v. v \<in> set (VERTICES st) \<Longrightarrow> v \<notin> A \<Longrightarrow> node_index st v < node_pos st v"
    "\<And>v u. v \<in> set (VERTICES st) \<Longrightarrow> v \<notin> A \<Longrightarrow> (v, u) \<in> edges R \<Longrightarrow> edge_done infin st v u"
    "\<And>v. v < length R \<Longrightarrow> node_index st v = infin \<Longrightarrow> node_row st v = reach_union R F v"
    "\<And>v u. v < length R \<Longrightarrow> node_index st v = infin \<Longrightarrow> (v, u) \<in> edges R \<Longrightarrow> node_index st u = infin" "A \<subseteq> set (VERTICES st)"
proof -
  note * = assms [unfolded digraph_ok_def]
  show "length (INDEX st) = length R" "length (F_rows st) = length R" "distinct (VERTICES st)" "A \<subseteq> set (VERTICES st)" using * by iprover+
  show "v \<in> set (VERTICES st) \<longleftrightarrow> v < length R \<and> node_index st v \<noteq> 0 \<and> node_index st v \<noteq> infin" for v
    using *[THEN conjunct2, THEN conjunct2, THEN conjunct2, THEN conjunct2, THEN conjunct2, THEN conjunct1] by simp
  show "\<And>v. v < length R \<Longrightarrow> length (F_rows st ! v) = length (F ! v)"
    "\<And>v. v < length R \<Longrightarrow> node_index st v = 0 \<Longrightarrow> F_rows st ! v = F ! v"
    "\<And>v. v < length R \<Longrightarrow> node_index st v = infin \<Longrightarrow> node_row st v = reach_union R F v"
    "\<And>v u. v < length R \<Longrightarrow> node_index st v = infin \<Longrightarrow> (v, u) \<in> edges R \<Longrightarrow> node_index st u = infin" using * by iprover+
  have **: "\<forall>v \<in> set (VERTICES st). 1 \<le> node_index st v \<and> node_index st v \<le> node_pos st v \<and>
        (\<exists>u \<in> set (VERTICES st). node_pos st u = node_index st v \<and> (v, u) \<in> (edges R)\<^sup>*) \<and>
        members (F ! v) \<subseteq> node_row st v \<and> node_row st v \<subseteq> reach_union R F v"
    and ***: "\<forall>v \<in> set (VERTICES st) - A. node_index st v < node_pos st v \<and> (\<forall>u. (v, u) \<in> edges R \<longrightarrow> edge_done infin st v u)" using * by iprover+
  show "\<And>v. v \<in> set (VERTICES st) \<Longrightarrow> 1 \<le> node_index st v" "\<And>v. v \<in> set (VERTICES st) \<Longrightarrow> node_index st v \<le> node_pos st v"
    "\<And>v. v \<in> set (VERTICES st) \<Longrightarrow> \<exists>u \<in> set (VERTICES st). node_pos st u = node_index st v \<and> (v, u) \<in> (edges R)\<^sup>*"
    "\<And>v. v \<in> set (VERTICES st) \<Longrightarrow> members (F ! v) \<subseteq> node_row st v" "\<And>v. v \<in> set (VERTICES st) \<Longrightarrow> node_row st v \<subseteq> reach_union R F v"
    using ** by simp_all
  show "\<And>v. v \<in> set (VERTICES st) \<Longrightarrow> v \<notin> A \<Longrightarrow> node_index st v < node_pos st v"
    "\<And>v u. v \<in> set (VERTICES st) \<Longrightarrow> v \<notin> A \<Longrightarrow> (v, u) \<in> edges R \<Longrightarrow> edge_done infin st v u" using *** by simp_all
qed

text \<open>What the search expects of the relation and of the rows.\<close>

definition relation_ok :: "nat list list \<Rightarrow> bits list \<Rightarrow> int \<Rightarrow> bool" where
  "relation_ok R F infin \<longleftrightarrow> length F = length R \<and> (\<forall>v < length R. \<forall>u \<in> set (R ! v). u < length R) \<and>
     (\<forall>v < length R. \<forall>u < length R. length (F ! u) = length (F ! v)) \<and> infin = int (length R) + 2 \<and> length R + 2 \<le> MAXSHORT"

lemma relation_okD:
  assumes "relation_ok R F infin"
  shows "length F = length R" "\<And>v u. (v, u) \<in> edges R \<Longrightarrow> v < length R \<and> u < length R"
    "\<And>v u. v < length R \<Longrightarrow> u < length R \<Longrightarrow> length (F ! u) = length (F ! v)" "infin = int (length R) + 2" "length R + 2 \<le> MAXSHORT"
    "to_short infin = infin"
proof -
  show "length F = length R" "\<And>v u. (v, u) \<in> edges R \<Longrightarrow> v < length R \<and> u < length R"
    "\<And>v u. v < length R \<Longrightarrow> u < length R \<Longrightarrow> length (F ! u) = length (F ! v)"
    and i: "infin = int (length R) + 2" and l: "length R + 2 \<le> MAXSHORT"
    using assms unfolding relation_ok_def edges_def by blast+
  show "to_short infin = infin" using i l by (simp add: MAXSHORT_def)
qed

lemma distinct_length_less:
  assumes "distinct vs" "set vs \<subseteq> {..<n} - {j}" "j < n"
  shows "length vs < n"
proof -
  have "length vs = card (set vs)" using assms(1) by (simp add: distinct_card)
  also have "\<dots> \<le> card ({..<n} - {j})" using assms(2) by (intro card_mono) auto
  also have "\<dots> < n" using assms(3) by simp
  finally show ?thesis .
qed

lemma enter_ok:
  assumes ok: "digraph_ok R F infin A st" and rel: "relation_ok R F infin" and j: "j < length R" "node_index st j = 0"
  shows "digraph_ok R F infin (insert j A) (traverse_enter j st)" "top_ok R (insert j A) j (traverse_enter j st)"
    "VERTICES (traverse_enter j st) = j # VERTICES st" "F_rows (traverse_enter j st) = F_rows st"
    "INDEX (traverse_enter j st) = (INDEX st)[j := int (Suc (length (VERTICES st)))]"
    "keeps {} st (traverse_enter j st)"
proof -
  note d = digraph_okD [OF ok] and r = relation_okD [OF rel]
  have jn: "j \<notin> set (VERTICES st)" using d(5) [of j] j(2) by simp
  have len: "length (VERTICES st) < length R"
    using distinct_length_less [OF d(4) _ j(1)] d(5) j(2) by auto
  have sh: "to_short (int (Suc (length (VERTICES st)))) = int (Suc (length (VERTICES st)))"
    using len r(5) by (simp add: MAXSHORT_def)
  show V: "VERTICES (traverse_enter j st) = j # VERTICES st" and F: "F_rows (traverse_enter j st) = F_rows st"
    and I: "INDEX (traverse_enter j st) = (INDEX st)[j := int (Suc (length (VERTICES st)))]"
    using sh by (simp_all add: traverse_enter_def Let_def)
  show "keeps {} st (traverse_enter j st)"
    using j by (auto simp: keeps_def V F I) (metis nth_list_update_neq)
  have ix: "node_index (traverse_enter j st) v = (if v = j then int (Suc (length (VERTICES st))) else node_index st v)" for v
    using I j(1) d(1) by (simp add: nth_list_update)
  show "top_ok R (insert j A) j (traverse_enter j st)"
    unfolding top_ok_def
  proof (intro ballI impI)
    fix w assume w: "w \<in> set (VERTICES (traverse_enter j st))" "node_pos (traverse_enter j st) j < node_pos (traverse_enter j st) w"
    have "\<not> Suc (length (VERTICES st)) < stack_pos (j # VERTICES st) w" using stack_pos_le [of "j # VERTICES st" w] by simp
    then show "node_index (traverse_enter j st) j \<le> node_index (traverse_enter j st) w \<and> node_row (traverse_enter j st) w \<subseteq> node_row (traverse_enter j st) j \<and>
      (j, w) \<in> (edges R)\<^sup>* \<and> w \<notin> insert j A" using w(2) by (simp add: V)
  qed
  have ps: "node_pos (traverse_enter j st) v = (if v = j then int (Suc (length (VERTICES st))) else node_pos st v)" for v
    by (simp add: V)
  show "digraph_ok R F infin (insert j A) (traverse_enter j st)"
    unfolding digraph_ok_def
  proof (intro conjI)
    show "set (VERTICES (traverse_enter j st)) =
        {v. v < length R \<and> node_index (traverse_enter j st) v \<noteq> 0 \<and> node_index (traverse_enter j st) v \<noteq> infin}"
      using d(5) j(1) len r(4) by (auto simp: V ix)
    show "\<forall>v \<in> set (VERTICES (traverse_enter j st)).
      1 \<le> node_index (traverse_enter j st) v \<and> node_index (traverse_enter j st) v \<le> node_pos (traverse_enter j st) v \<and>
        (\<exists>u \<in> set (VERTICES (traverse_enter j st)). node_pos (traverse_enter j st) u = node_index (traverse_enter j st) v \<and> (v, u) \<in> (edges R)\<^sup>*) \<and>
        members (F ! v) \<subseteq> node_row (traverse_enter j st) v \<and> node_row (traverse_enter j st) v \<subseteq> reach_union R F v"
    proof
      fix v assume v: "v \<in> set (VERTICES (traverse_enter j st))"
      show "1 \<le> node_index (traverse_enter j st) v \<and> node_index (traverse_enter j st) v \<le> node_pos (traverse_enter j st) v \<and>
        (\<exists>u \<in> set (VERTICES (traverse_enter j st)). node_pos (traverse_enter j st) u = node_index (traverse_enter j st) v \<and> (v, u) \<in> (edges R)\<^sup>*) \<and>
        members (F ! v) \<subseteq> node_row (traverse_enter j st) v \<and> node_row (traverse_enter j st) v \<subseteq> reach_union R F v"
      proof (cases "v = j")
        case True
        then show ?thesis using d(6) [OF j] reach_union_self [of F j R] by (auto simp: ix ps V F)
      next
        case False
        then have v': "v \<in> set (VERTICES st)" using v V by simp
        obtain u where u: "u \<in> set (VERTICES st)" "node_pos st u = node_index st v" "(v, u) \<in> (edges R)\<^sup>*" using d(9) [OF v'] by blast
        have "u \<noteq> j" using u(1) jn by blast
        then show ?thesis using False d(7,8,10,11) [OF v'] u by (auto simp: ix ps V F)
      qed
    qed
    show "\<forall>v \<in> set (VERTICES (traverse_enter j st)) - insert j A. node_index (traverse_enter j st) v < node_pos (traverse_enter j st) v \<and>
        (\<forall>u. (v, u) \<in> edges R \<longrightarrow> edge_done infin (traverse_enter j st) v u)"
    proof
      fix v assume v: "v \<in> set (VERTICES (traverse_enter j st)) - insert j A"
      then have v': "v \<in> set (VERTICES st)" "v \<notin> A" "v \<noteq> j" using V by auto
      have "edge_done infin (traverse_enter j st) v u" if "(v, u) \<in> edges R" for u
      proof -
        have e: "edge_done infin st v u" using d(13) v' that by blast
        then have "u \<noteq> j" using jn j(2) r(4) by (auto simp: edge_done_def)
        then show ?thesis using e v'(3) unfolding edge_done_def by (auto simp: V F ix)
      qed
      then show "node_index (traverse_enter j st) v < node_pos (traverse_enter j st) v \<and>
        (\<forall>u. (v, u) \<in> edges R \<longrightarrow> edge_done infin (traverse_enter j st) v u)" using d(12) [OF v'(1,2)] v'(3) by (auto simp: ix ps)
    qed
    show "\<forall>v < length R. node_index (traverse_enter j st) v = infin \<longrightarrow> node_row (traverse_enter j st) v = reach_union R F v \<and>
        (\<forall>u. (v, u) \<in> edges R \<longrightarrow> node_index (traverse_enter j st) u = infin)"
    proof (intro allI impI)
      fix v assume v: "v < length R" "node_index (traverse_enter j st) v = infin"
      then have v': "node_index st v = infin" "v \<noteq> j" using len r(4) by (auto simp: ix split: if_splits)
      have "u \<noteq> j" if "(v, u) \<in> edges R" for u using d(15) [OF v(1) v'(1) that] j(2) r(4) by auto
      then show "node_row (traverse_enter j st) v = reach_union R F v \<and>
        (\<forall>u. (v, u) \<in> edges R \<longrightarrow> node_index (traverse_enter j st) u = infin)" using d(14,15) [OF v(1) v'(1)] by (auto simp: ix F)
    qed
    show "\<forall>v < length R. node_index (traverse_enter j st) v = 0 \<longrightarrow> F_rows (traverse_enter j st) ! v = F ! v"
      using d(6) by (auto simp: ix F)
  qed (use d(1-4,16) jn in \<open>auto simp: V F I\<close>)
qed

lemma join_ok:
  assumes ok: "digraph_ok R F infin A st" and rel: "relation_ok R F infin" and a: "a \<in> A"
      "\<And>w. w \<in> set (VERTICES st) \<Longrightarrow> node_pos st a < node_pos st w \<Longrightarrow>
         (node_index st a \<le> node_index st w \<and> node_row st w \<subseteq> node_row st a \<or> node_index st j \<le> node_index st w \<and> node_row st w \<subseteq> node_row st j) \<and> (a, w) \<in> (edges R)\<^sup>* \<and> w \<notin> A"
    and e: "(a, j) \<in> edges R" and j: "node_index st j \<noteq> 0"
  shows "digraph_ok R F infin A (traverse_join a j st)" "top_ok R A a (traverse_join a j st)"
    "edge_done infin (traverse_join a j st) a j" "keeps {a} st (traverse_join a j st)"
    "VERTICES (traverse_join a j st) = VERTICES st"
    "\<And>v. node_index (traverse_join a j st) v = 0 \<longleftrightarrow> node_index st v = 0"
    "\<And>u. edge_done infin st a u \<Longrightarrow> edge_done infin (traverse_join a j st) a u"
proof -
  note d = digraph_okD [OF ok] and r = relation_okD [OF rel]
  have aV: "a \<in> set (VERTICES st)" using a(1) d(16) by blast
  then have al: "a < length R" and ai: "node_index st a \<noteq> infin" using d(5) by auto
  have jl: "j < length R" using r(2) e by blast
  show V: "VERTICES (traverse_join a j st) = VERTICES st" by (simp add: traverse_join_def Let_def)
  have ix: "node_index (traverse_join a j st) v = (if v = a then min (node_index st a) (node_index st j) else node_index st v)" for v
    using al d(1) by (auto simp: traverse_join_def Let_def)
  have fr: "F_rows (traverse_join a j st) ! v = (if v = a then or_row (F_rows st ! a) (F_rows st ! j) else F_rows st ! v)" for v
    using al d(2) by (auto simp: traverse_join_def Let_def)
  have rw: "node_row (traverse_join a j st) v = (if v = a then node_row st a \<union> node_row st j else node_row st v)" for v
    using d(3) [OF al] d(3) [OF jl] r(3) [OF al jl] by (simp add: fr)
  have ps: "node_pos (traverse_join a j st) v = node_pos st v" for v by (simp add: V)
  have ji: "j \<in> set (VERTICES st) \<or> node_index st j = infin" using d(5) j jl by blast
  have small: "node_index st a < infin" using d(8) [OF aV] stack_pos_le [of "VERTICES st" a] distinct_card [OF d(4)] card_mono [of "{..<length R}" "set (VERTICES st)"] d(5) r(4)
    by (fastforce simp: subset_eq)
  have pos_j: "1 \<le> node_index st j" using ji d(7) r(4) by auto
  have row_j: "node_row st j \<subseteq> reach_union R F j" using ji d(11,14) jl by blast
  show zero: "node_index (traverse_join a j st) v = 0 \<longleftrightarrow> node_index st v = 0" for v
    using d(7) [OF aV] pos_j by (simp add: ix min_def)
  have inf_iff: "node_index (traverse_join a j st) v = infin \<longleftrightarrow> node_index st v = infin" for v
    using small ai by (auto simp: ix min_def)
  have done_mono: "edge_done infin (traverse_join a j st) v u" if "edge_done infin st v u" for v u
  proof (cases "node_index st u = infin \<and> node_row st u \<subseteq> node_row st v")
    case True
    then have "u \<noteq> a" using ai by blast
    then show ?thesis using True inf_iff by (auto simp: edge_done_def rw)
  next
    case False
    then have "u \<in> set (VERTICES st)" "node_index st v \<le> node_pos st u" using that by (auto simp: edge_done_def)
    then show ?thesis by (auto simp: edge_done_def V ix)
  qed
  then show "edge_done infin (traverse_join a j st) a u" if "edge_done infin st a u" for u using that .
  show "edge_done infin (traverse_join a j st) a j"
  proof (cases "j \<in> set (VERTICES st)")
    case True
    then show ?thesis using d(8) [OF True] by (auto simp: edge_done_def V ix)
  next
    case False
    then have "node_index st j = infin" "j \<noteq> a" using ji ai by auto
    then show ?thesis by (auto simp: edge_done_def ix rw)
  qed
  show "keeps {a} st (traverse_join a j st)"
    unfolding keeps_def zero by (auto simp: V ix fr)
  show "top_ok R A a (traverse_join a j st)"
    unfolding top_ok_def ps V
  proof (intro ballI impI)
    fix w assume w: "w \<in> set (VERTICES st)" "node_pos st a < node_pos st w"
    then have "(node_index st a \<le> node_index st w \<and> node_row st w \<subseteq> node_row st a \<or> node_index st j \<le> node_index st w \<and> node_row st w \<subseteq> node_row st j) \<and> (a, w) \<in> (edges R)\<^sup>* \<and> w \<notin> A"
      using a(2) by blast
    then show "node_index (traverse_join a j st) a \<le> node_index (traverse_join a j st) w \<and> node_row (traverse_join a j st) w \<subseteq> node_row (traverse_join a j st) a \<and>
      (a, w) \<in> (edges R)\<^sup>* \<and> w \<notin> A" by (auto simp: ix rw)
  qed
  show "digraph_ok R F infin A (traverse_join a j st)"
    unfolding digraph_ok_def V ps zero inf_iff
  proof (intro conjI)
    show "set (VERTICES st) = {v. v < length R \<and> node_index st v \<noteq> 0 \<and> node_index st v \<noteq> infin}" using d(5) by blast
    show "\<forall>v < length R. node_index st v = 0 \<longrightarrow> F_rows (traverse_join a j st) ! v = F ! v"
      using d(6) d(7) [OF aV] by (auto simp: fr)
    show "length (INDEX (traverse_join a j st)) = length R" "length (F_rows (traverse_join a j st)) = length R"
      using d(1,2) by (simp_all add: traverse_join_def Let_def)
    show "\<forall>v < length R. length (F_rows (traverse_join a j st) ! v) = length (F ! v)"
      using d(3) r(3) [OF al jl] jl by (auto simp: fr)
    show "\<forall>v \<in> set (VERTICES st). 1 \<le> node_index (traverse_join a j st) v \<and> node_index (traverse_join a j st) v \<le> node_pos st v \<and>
        (\<exists>u \<in> set (VERTICES st). node_pos st u = node_index (traverse_join a j st) v \<and> (v, u) \<in> (edges R)\<^sup>*) \<and>
        members (F ! v) \<subseteq> node_row (traverse_join a j st) v \<and> node_row (traverse_join a j st) v \<subseteq> reach_union R F v"
    proof
      fix v assume v: "v \<in> set (VERTICES st)"
      obtain u where u: "u \<in> set (VERTICES st)" "node_pos st u = node_index st v" "(v, u) \<in> (edges R)\<^sup>*" using d(9) [OF v] by blast
      have "\<exists>u \<in> set (VERTICES st). node_pos st u = node_index (traverse_join a j st) v \<and> (v, u) \<in> (edges R)\<^sup>*"
      proof (cases "v = a \<and> node_index st j < node_index st a")
        case True
        then have "j \<in> set (VERTICES st)" using ji small by auto
        then obtain u where "u \<in> set (VERTICES st)" "node_pos st u = node_index st j" "(j, u) \<in> (edges R)\<^sup>*" using d(9) by blast
        moreover have "(v, u) \<in> (edges R)\<^sup>*" using True e calculation(3) converse_rtrancl_into_rtrancl by metis
        moreover have "node_index (traverse_join a j st) v = node_index st j" using True by (simp add: ix)
        ultimately show ?thesis by metis
      next
        case False
        then have "node_index (traverse_join a j st) v = node_index st v" by (auto simp: ix)
        then show ?thesis using u by auto
      qed
      moreover have "reach_union R F j \<subseteq> reach_union R F a" using e by (intro reach_union_mono) auto
      moreover have "1 \<le> node_index (traverse_join a j st) v" "node_index (traverse_join a j st) v \<le> node_pos st v"
        using d(7,8) [OF v] pos_j by (auto simp: ix)
      moreover have "members (F ! v) \<subseteq> node_row (traverse_join a j st) v" using d(10) [OF v] by (auto simp: rw)
      moreover have "node_row (traverse_join a j st) v \<subseteq> reach_union R F v"
        using d(11) [OF v] row_j calculation(2) unfolding rw by (cases "v = a") auto
      ultimately show "1 \<le> node_index (traverse_join a j st) v \<and> node_index (traverse_join a j st) v \<le> node_pos st v \<and>
        (\<exists>u \<in> set (VERTICES st). node_pos st u = node_index (traverse_join a j st) v \<and> (v, u) \<in> (edges R)\<^sup>*) \<and>
        members (F ! v) \<subseteq> node_row (traverse_join a j st) v \<and> node_row (traverse_join a j st) v \<subseteq> reach_union R F v" by blast
    qed
    show "\<forall>v \<in> set (VERTICES st) - A. node_index (traverse_join a j st) v < node_pos st v \<and>
        (\<forall>u. (v, u) \<in> edges R \<longrightarrow> edge_done infin (traverse_join a j st) v u)"
      using d(12,13) done_mono a(1) by (auto simp: ix)
    show "\<forall>v < length R. node_index st v = infin \<longrightarrow> node_row (traverse_join a j st) v = reach_union R F v \<and>
        (\<forall>u. (v, u) \<in> edges R \<longrightarrow> node_index st u = infin)"
      using d(14,15) ai by (auto simp: rw)
  qed (use d(4,16) in auto)
qed

lemma traverse_pop_result:
  assumes "distinct (ts @ i # vs)" "VERTICES st = ts @ i # vs" "set (ts @ [i]) \<subseteq> {..<length (INDEX st)}"
    "length (F_rows st) = length (INDEX st)"
  obtains st' where "traverse_pop infin i (ts @ i # vs) st = Some st'" "VERTICES st' = vs"
    "\<And>v. node_index st' v = (if v \<in> set (ts @ [i]) then to_short infin else node_index st v)"
    "\<And>v. F_rows st' ! v = (if v \<in> set ts then F_rows st ! i else F_rows st ! v)"
    "length (INDEX st') = length (INDEX st)" "length (F_rows st') = length (F_rows st)"
proof -
  have "\<exists>st'. traverse_pop infin i (ts @ i # vs) st = Some st' \<and> VERTICES st' = vs \<and>
    (\<forall>v. node_index st' v = (if v \<in> set (ts @ [i]) then to_short infin else node_index st v)) \<and>
    (\<forall>v. F_rows st' ! v = (if v \<in> set ts then F_rows st ! i else F_rows st ! v)) \<and>
    length (INDEX st') = length (INDEX st) \<and> length (F_rows st') = length (F_rows st)"
    using assms
  proof (induction ts arbitrary: st)
    case Nil
    then show ?case by (simp add: Let_def nth_list_update)
  next
    case (Cons j ts)
    define st1 where "st1 = st\<lparr> VERTICES := ts @ i # vs, INDEX := (INDEX st)[j := to_short infin], F_rows := (F_rows st)[j := F_rows st ! i] \<rparr>"
    have ji: "i \<noteq> j" "j \<notin> set ts" using Cons.prems(1) by auto
    have "distinct (ts @ i # vs)" "VERTICES st1 = ts @ i # vs" "set (ts @ [i]) \<subseteq> {..<length (INDEX st1)}"
      "length (F_rows st1) = length (INDEX st1)" using Cons.prems by (auto simp: st1_def)
    from Cons.IH [OF this] obtain st' where st': "traverse_pop infin i (ts @ i # vs) st1 = Some st'" "VERTICES st' = vs"
      "\<forall>v. node_index st' v = (if v \<in> set (ts @ [i]) then to_short infin else node_index st1 v)"
      "\<forall>v. F_rows st' ! v = (if v \<in> set ts then F_rows st1 ! i else F_rows st1 ! v)"
      "length (INDEX st') = length (INDEX st1)" "length (F_rows st') = length (F_rows st1)" by blast
    have "traverse_pop infin i ((j # ts) @ i # vs) st = Some st'" using st'(1) ji(1) by (simp add: st1_def Let_def)
    moreover have "\<forall>v. node_index st' v = (if v \<in> set ((j # ts) @ [i]) then to_short infin else node_index st v)"
      using st'(3) Cons.prems(3) by (auto simp: st1_def nth_list_update)
    moreover have "\<forall>v. F_rows st' ! v = (if v \<in> set (j # ts) then F_rows st ! i else F_rows st ! v)"
      using st'(4) ji Cons.prems(3,4) by (auto simp: st1_def nth_list_update)
    ultimately show ?case using st'(2,5,6) by (auto simp: st1_def)
  qed
  then show thesis using that by blast
qed

text \<open>The nodes above a root on the stack are its strongly connected component.\<close>

lemma root_row:
  assumes ok: "digraph_ok R F infin (insert i A) st" and rel: "relation_ok R F infin" and V: "VERTICES st = ts @ i # vs"
    and A: "A \<subseteq> set vs" and top: "top_ok R (insert i A) i st" and e: "\<forall>u. (i, u) \<in> edges R \<longrightarrow> edge_done infin st i u"
    and root: "node_index st i = node_pos st i"
  shows "node_row st i = reach_union R F i" "\<And>w. w \<in> set ts \<Longrightarrow> reach_union R F w = reach_union R F i"
    "\<And>v u. v \<in> set (ts @ [i]) \<Longrightarrow> (v, u) \<in> edges R \<Longrightarrow> u \<in> set (ts @ [i]) \<or> node_index st u = infin"
proof -
  note d = digraph_okD [OF ok] and r = relation_okD [OF rel]
  have dis: "distinct (ts @ i # vs)" using d(4) V by simp
  have pos_i: "node_pos st i = int (Suc (length vs))" using dis V by (simp add: stack_pos_append)
  have above: "node_pos st i < node_pos st w \<longleftrightarrow> w \<in> set ts" if "w \<in> set (VERTICES st)" for w
  proof (cases "w \<in> set ts")
    case True
    then show ?thesis using stack_pos_prefix [of w ts "i # vs"] pos_i V by simp
  next
    case False
    then show ?thesis using stack_pos_append [of w ts "i # vs"] stack_pos_le [of "i # vs" w] pos_i V by simp
  qed
  have T: "node_index st i \<le> node_index st w \<and> node_row st w \<subseteq> node_row st i \<and> (i, w) \<in> (edges R)\<^sup>* \<and> w \<notin> A" if "w \<in> set (ts @ [i])" for w
  proof (cases "w = i")
    case True
    then show ?thesis using A dis by auto
  next
    case False
    then have "w \<in> set (VERTICES st)" "w \<in> set ts" using that V by auto
    then show ?thesis using above top unfolding top_ok_def by blast
  qed
  have edge: "edge_done infin st v u" if "v \<in> set (ts @ [i])" "(v, u) \<in> edges R" for v u
  proof (cases "v = i")
    case False
    then have "v \<in> set (VERTICES st)" "v \<notin> insert i A" using that(1) V T [OF that(1)] by auto
    then show ?thesis using d(13) that(2) by blast
  qed (use e that in blast)
  have closed: "u \<in> set (ts @ [i]) \<or> node_index st u = infin \<and> node_row st u \<subseteq> node_row st v" if v: "v \<in> set (ts @ [i])" "(v, u) \<in> edges R" for v u
  proof -
    consider "node_index st u = infin \<and> node_row st u \<subseteq> node_row st v" | "u \<in> set (VERTICES st)" "node_index st v \<le> node_pos st u"
      using edge [OF v] by (auto simp: edge_done_def)
    then show ?thesis
    proof cases
      case 2
      then have "node_pos st i \<le> node_pos st u" using T [OF v(1)] root by linarith
      then have "u = i \<or> u \<in> set ts" using above [OF 2(1)] stack_pos_inj [OF 2(1), of i] V by fastforce
      then show ?thesis by auto
    qed blast
  qed
  then show "u \<in> set (ts @ [i]) \<or> node_index st u = infin" if "v \<in> set (ts @ [i])" "(v, u) \<in> edges R" for v u using that by blast
  have reach: "u \<in> set (ts @ [i]) \<or> members (F ! u) \<subseteq> node_row st i" if "(i, u) \<in> (edges R)\<^sup>*" for u
  proof -
    have "u \<in> set (ts @ [i]) \<or> node_index st u = infin \<and> reach_union R F u \<subseteq> node_row st i" using that
    proof induction
      case (step v u)
      have ul: "u < length R" "v < length R" using r(2) step.hyps(2) by blast+
      show ?case
      proof (cases "v \<in> set (ts @ [i])")
        case True
        then show ?thesis using closed [OF True step.hyps(2)] T [OF True] d(14) [OF ul(1)] by blast
      next
        case False
        then have v: "node_index st v = infin" "reach_union R F v \<subseteq> node_row st i" using step.IH by blast+
        have "reach_union R F u \<subseteq> reach_union R F v" using step.hyps(2) by (intro reach_union_mono) auto
        then show ?thesis using d(15) [OF ul(2) v(1) step.hyps(2)] v(2) by blast
      qed
    qed simp
    then show ?thesis using reach_union_self by blast
  qed
  have iV: "i \<in> set (VERTICES st)" using V by simp
  have "members (F ! u) \<subseteq> node_row st i" if "(i, u) \<in> (edges R)\<^sup>*" for u
  proof (cases "u \<in> set (ts @ [i])")
    case True
    then have "u \<in> set (VERTICES st)" using V by auto
    then show ?thesis using d(10) T [OF True] by blast
  qed (use reach [OF that] in blast)
  then have "reach_union R F i \<subseteq> node_row st i" by (auto simp: reach_union_def)
  then show "node_row st i = reach_union R F i" using d(11) [OF iV] by blast
  have back_to: "(w, i) \<in> (edges R)\<^sup>*" if "w \<in> set (ts @ [i])" for w
    using that
  proof (induction "stack_pos (VERTICES st) w" arbitrary: w rule: less_induct)
    case less
    show ?case
    proof (cases "w = i")
      case False
      have wV: "w \<in> set (VERTICES st)" "w \<notin> insert i A" using less.prems False V T [OF less.prems] by auto
      obtain u where u: "u \<in> set (VERTICES st)" "node_pos st u = node_index st w" "(w, u) \<in> (edges R)\<^sup>*" using d(9) [OF wV(1)] by blast
      have "node_pos st i \<le> node_pos st u" using T [OF less.prems] root u(2) by simp
      then have "u \<in> set (ts @ [i])" using above [OF u(1)] stack_pos_inj [OF u(1) iV] by fastforce
      moreover have "stack_pos (VERTICES st) u < stack_pos (VERTICES st) w" using d(12) [OF wV] u(2) by simp
      ultimately show ?thesis using less.hyps u(3) rtrancl_trans by metis
    qed simp
  qed
  show "reach_union R F w = reach_union R F i" if "w \<in> set ts" for w
    using back_to [of w] T [of w] that reach_union_mono [of w i R F] reach_union_mono [of i w R F] by auto
qed

text \<open>What a call of \<open>traverse\<close> for \<open>j\<close> does, and what the loop over the successors of \<open>a\<close> does.\<close>

definition traverse_post :: "nat list list \<Rightarrow> bits list \<Rightarrow> int \<Rightarrow> nat set \<Rightarrow> nat \<Rightarrow> digraph_state \<Rightarrow> digraph_state \<Rightarrow> bool" where
  "traverse_post R F infin A j st st' \<longleftrightarrow> digraph_ok R F infin A st' \<and> keeps {} st st' \<and> node_index st' j \<noteq> 0 \<and>
     (\<forall>w \<in> set (VERTICES st'). w \<notin> set (VERTICES st) \<longrightarrow> node_index st' j \<le> node_index st' w \<and> node_row st' w \<subseteq> node_row st' j \<and> (j, w) \<in> (edges R)\<^sup>*)"

definition edges_post :: "nat list list \<Rightarrow> bits list \<Rightarrow> int \<Rightarrow> nat set \<Rightarrow> nat \<Rightarrow> nat list \<Rightarrow> digraph_state \<Rightarrow> digraph_state \<Rightarrow> bool" where
  "edges_post R F infin A a rp st st' \<longleftrightarrow> digraph_ok R F infin A st' \<and> top_ok R A a st' \<and> keeps {a} st st' \<and>
     (\<forall>u < length R. u \<in> set rp \<or> edge_done infin st a u \<longrightarrow> edge_done infin st' a u)"

lemma exit_ok:
  assumes ok: "digraph_ok R F infin A st" and rel: "relation_ok R F infin" and i: "i < length R" "node_index st i = 0"
    and post: "edges_post R F infin (insert i A) i (R ! i) (traverse_enter i st) st1"
  obtains st' where "traverse_exit infin i (int (length (VERTICES (traverse_enter i st)))) st1 = Some st'" "traverse_post R F infin A i st st'"
proof -
  note en = enter_ok [OF ok rel i]
  have ok1: "digraph_ok R F infin (insert i A) st1" and top: "top_ok R (insert i A) i st1"
    and k1: "keeps {i} (traverse_enter i st) st1"
    and e': "\<And>u. u < length R \<Longrightarrow> u \<in> set (R ! i) \<Longrightarrow> edge_done infin st1 i u"
    using post by (simp_all add: edges_post_def)
  have e: "edge_done infin st1 i u" if "(i, u) \<in> edges R" for u
    using e' [of u] relation_okD(2) [OF rel that] that by (simp add: edges_def)
  note d = digraph_okD [OF ok] and d1 = digraph_okD [OF ok1] and r = relation_okD [OF rel]
  obtain ts where V: "VERTICES st1 = ts @ i # VERTICES st" using k1 en(3) by (auto simp: keeps_def)
  have dis: "distinct (ts @ i # VERTICES st)" using d1(4) V by simp
  have pos_i: "node_pos st1 i = int (Suc (length (VERTICES st)))" using dis V by (simp add: stack_pos_append)
  have same: "node_index st1 v = node_index st v \<and> F_rows st1 ! v = F_rows st ! v" if "v < length R" "node_index st v \<noteq> 0" for v
  proof -
    have "v \<noteq> i" using that i by blast
    then have "node_index (traverse_enter i st) v = node_index st v" using en(5) by simp
    then show ?thesis using k1 that \<open>v \<noteq> i\<close> en(4,5) d(1) by (auto simp: keeps_def)
  qed
  have ps: "node_pos st1 v = node_pos st v" if "v \<in> set (VERTICES st)" for v
  proof -
    have "v \<notin> set ts" "v \<noteq> i" using dis that by auto
    then show ?thesis by (simp add: V stack_pos_append)
  qed
  have above: "v \<in> set ts \<Longrightarrow> node_pos st1 i < node_pos st1 v" for v using stack_pos_prefix [of v ts "i # VERTICES st"] pos_i V by simp
  show thesis
  proof (cases "node_index st1 i = int (length (VERTICES (traverse_enter i st)))")
    case False
    then have less: "node_index st1 i < node_pos st1 i" using d1(8) [of i] V pos_i en(3) by fastforce
    have "digraph_ok R F infin A st1"
    proof -
      have "\<forall>v \<in> set (VERTICES st1) - A. node_index st1 v < node_pos st1 v \<and> (\<forall>u. (v, u) \<in> edges R \<longrightarrow> edge_done infin st1 v u)"
        using d1(12,13) less e by blast
      moreover have "A \<subseteq> set (VERTICES st1)" using d1(16) by blast
      ultimately show ?thesis using ok1 unfolding digraph_ok_def by iprover
    qed
    moreover have "keeps {} st st1" using same V d(1) by (auto simp: keeps_def)
    moreover have "node_index st1 i \<noteq> 0" using d1(7) [of i] V by simp
    moreover have "node_index st1 i \<le> node_index st1 w \<and> node_row st1 w \<subseteq> node_row st1 i \<and> (i, w) \<in> (edges R)\<^sup>*"
      if "w \<in> set (VERTICES st1)" "w \<notin> set (VERTICES st)" for w
      using top that V above unfolding top_ok_def by (cases "w = i") auto
    ultimately show thesis using that [of st1] False by (simp add: traverse_exit_def traverse_post_def)
  next
    case True
    then have root: "node_index st1 i = node_pos st1 i" using pos_i en(3) by simp
    have e_all: "\<forall>u. (i, u) \<in> edges R \<longrightarrow> edge_done infin st1 i u" using e by simp
    note rr = root_row [OF ok1 rel V d(16) top e_all root]
    have ts: "set (ts @ [i]) \<subseteq> {..<length (INDEX st1)}" using d1(1,5) V by auto
    have "length (F_rows st1) = length (INDEX st1)" using d1(1,2) by simp
    then obtain st' where st': "traverse_pop infin i (ts @ i # VERTICES st) st1 = Some st'" "VERTICES st' = VERTICES st"
      "\<And>v. node_index st' v = (if v \<in> set (ts @ [i]) then infin else node_index st1 v)"
      "\<And>v. F_rows st' ! v = (if v \<in> set ts then F_rows st1 ! i else F_rows st1 ! v)"
      "length (INDEX st') = length (INDEX st1)" "length (F_rows st') = length (F_rows st1)"
      using traverse_pop_result [OF dis V ts, of infin] r(6) by metis
    have old: "node_index st' v = node_index st v \<and> F_rows st' ! v = F_rows st ! v" if "v < length R" "node_index st v \<noteq> 0" for v
    proof -
      have "v \<notin> set (ts @ [i])"
      proof
        assume v: "v \<in> set (ts @ [i])"
        then have "node_index st1 v \<noteq> infin" "v \<notin> set (VERTICES st)" using d1(5) [of v] V dis by auto
        then show False using same [OF that] d(5) [of v] that by simp
      qed
      then show ?thesis using st'(3,4) same [OF that] by simp
    qed
    have "digraph_ok R F infin A st'"
      unfolding digraph_ok_def
    proof (intro conjI)
      show "length (INDEX st') = length R" "length (F_rows st') = length R" using st'(5,6) d1(1,2) by simp_all
      show "\<forall>v < length R. length (F_rows st' ! v) = length (F ! v)"
        using d1(3) r(3) st'(4) i(1) by (metis (full_types))
      show "A \<subseteq> set (VERTICES st')" "distinct (VERTICES st')" using d(4,16) st'(2) by simp_all
      show "set (VERTICES st') = {v. v < length R \<and> node_index st' v \<noteq> 0 \<and> node_index st' v \<noteq> infin}"
      proof -
        have *: "v \<in> set (VERTICES st) \<longleftrightarrow> v < length R \<and> node_index st' v \<noteq> 0 \<and> node_index st' v \<noteq> infin" for v
        proof -
          have "v \<in> set (ts @ i # VERTICES st) \<longleftrightarrow> v < length R \<and> node_index st1 v \<noteq> 0 \<and> node_index st1 v \<noteq> infin" using d1(5) [of v] V by simp
          then show ?thesis using dis st'(3) [of v] by (cases "v \<in> set (ts @ [i])") auto
        qed
        show ?thesis unfolding st'(2) by (rule set_eqI, unfold mem_Collect_eq, rule *)
      qed
      show "\<forall>v < length R. node_index st' v = 0 \<longrightarrow> F_rows st' ! v = F ! v"
        using st'(3,4) d1(6) r(4) by auto
      show "\<forall>v \<in> set (VERTICES st'). 1 \<le> node_index st' v \<and> node_index st' v \<le> node_pos st' v \<and>
        (\<exists>u \<in> set (VERTICES st'). node_pos st' u = node_index st' v \<and> (v, u) \<in> (edges R)\<^sup>*) \<and>
        members (F ! v) \<subseteq> node_row st' v \<and> node_row st' v \<subseteq> reach_union R F v"
      proof
        fix v assume "v \<in> set (VERTICES st')"
        then have v: "v \<in> set (VERTICES st)" "v < length R" "node_index st v \<noteq> 0" using st'(2) d(5) by auto
        then show "1 \<le> node_index st' v \<and> node_index st' v \<le> node_pos st' v \<and>
        (\<exists>u \<in> set (VERTICES st'). node_pos st' u = node_index st' v \<and> (v, u) \<in> (edges R)\<^sup>*) \<and>
        members (F ! v) \<subseteq> node_row st' v \<and> node_row st' v \<subseteq> reach_union R F v"
          unfolding st'(2) using old [OF v(2,3)] d(7-11) [OF v(1)] by presburger
      qed
      show "\<forall>v \<in> set (VERTICES st') - A. node_index st' v < node_pos st' v \<and> (\<forall>u. (v, u) \<in> edges R \<longrightarrow> edge_done infin st' v u)"
      proof
        fix v assume "v \<in> set (VERTICES st') - A"
        then have v: "v \<in> set (VERTICES st)" "v \<notin> A" "v < length R" "node_index st v \<noteq> 0" using st'(2) d(5) by auto
        have "edge_done infin st' v u" if u: "(v, u) \<in> edges R" for u
        proof -
          have ul: "u < length R" and e: "edge_done infin st v u" using r(2) u d(13) [OF v(1,2) u] by blast+
          then have "node_index st u \<noteq> 0" using d(5) [of u] r(4) by (auto simp: edge_done_def)
          then show ?thesis using e old [OF ul] old [OF v(3,4)] by (simp add: edge_done_def st'(2))
        qed
        then show "node_index st' v < node_pos st' v \<and> (\<forall>u. (v, u) \<in> edges R \<longrightarrow> edge_done infin st' v u)"
          using d(12) [OF v(1,2)] old [OF v(3,4)] by (simp add: st'(2))
      qed
      show "\<forall>v < length R. node_index st' v = infin \<longrightarrow> node_row st' v = reach_union R F v \<and> (\<forall>u. (v, u) \<in> edges R \<longrightarrow> node_index st' u = infin)"
      proof (intro allI impI)
        fix v assume v: "v < length R" "node_index st' v = infin"
        show "node_row st' v = reach_union R F v \<and> (\<forall>u. (v, u) \<in> edges R \<longrightarrow> node_index st' u = infin)"
        proof (cases "v \<in> set (ts @ [i])")
          case True
          then have "node_row st' v = reach_union R F v" using rr(1,2) st'(4) by auto
          moreover have "node_index st' u = infin" if "(v, u) \<in> edges R" for u using rr(3) [OF True that] st'(3) by metis
          ultimately show ?thesis by blast
        next
          case False
          then have "node_index st1 v = infin" "F_rows st' ! v = F_rows st1 ! v" using v(2) st'(3,4) by auto
          then show ?thesis using d1(14,15) [OF v(1)] st'(3) by metis
        qed
      qed
    qed
    moreover have "keeps {} st st'" using old d(1) st'(2) by (auto simp: keeps_def)
    moreover have "node_index st' i \<noteq> 0" using st'(3) [of i] r(4) by simp
    ultimately show thesis using that [of st'] True st'(1,2) V by (simp add: traverse_exit_def traverse_post_def)
  qed
qed

lemma keeps_trans:
  assumes "keeps {} st st1 \<or> keeps E st st1" "keeps E st1 st2" "length (INDEX st1) = length (INDEX st)" "E \<subseteq> {..<length (INDEX st)}"
  shows "keeps E st st2"
proof -
  have st1: "keeps E st st1" using assms(1,4) unfolding keeps_def by auto
  obtain n1 n2 where "VERTICES st1 = n1 @ VERTICES st" "VERTICES st2 = n2 @ VERTICES st1" using st1 assms(2) unfolding keeps_def by blast
  then have "\<exists>new. VERTICES st2 = new @ VERTICES st" by simp
  moreover have "node_index st2 v = node_index st v \<and> F_rows st2 ! v = F_rows st ! v" if "v < length (INDEX st)" "v \<notin> E" "node_index st v \<noteq> 0" for v
  proof -
    have "node_index st1 v = node_index st v \<and> F_rows st1 ! v = F_rows st ! v" using st1 that unfolding keeps_def by blast
    moreover have "node_index st2 v = node_index st1 v \<and> F_rows st2 ! v = F_rows st1 ! v" if "node_index st1 v \<noteq> 0"
      using assms(2,3) that \<open>v \<notin> E\<close> \<open>v < length (INDEX st)\<close> unfolding keeps_def by presburger
    ultimately show ?thesis using that(3) by simp
  qed
  moreover have "\<forall>v \<in> E. node_index st v \<noteq> 0 \<longrightarrow> node_index st2 v \<noteq> 0" using st1 assms(2) unfolding keeps_def by blast
  ultimately show ?thesis unfolding keeps_def by blast
qed

lemma unvisited_keeps: "keeps E st st' \<Longrightarrow> length (INDEX st) = length R \<Longrightarrow> unvisited R st' \<subseteq> unvisited R st"
  unfolding keeps_def by (metis (mono_tags, lifting) Collect_mono)

lemma traverse_edges_ok:
  assumes "digraph_ok R F infin A st" "relation_ok R F infin" "a \<in> A" "top_ok R A a st" "\<And>j. j \<in> set rp \<Longrightarrow> (a, j) \<in> edges R"
  shows "\<exists>st'. traverse_edges R infin a rp st = Some st' \<and> edges_post R F infin A a rp st st'"
  using assms
proof (induction "card (unvisited R st)" arbitrary: a A rp st rule: less_induct)
  case (less st0)
  note rel = less.prems(2)
  have "\<exists>st'. traverse_edges R infin a rp st = Some st' \<and> edges_post R F infin A a rp st st'"
    if "digraph_ok R F infin A st" "a \<in> A" "top_ok R A a st" "\<And>j. j \<in> set rp \<Longrightarrow> (a, j) \<in> edges R" "unvisited R st \<subseteq> unvisited R st0" for rp st
    using that
  proof (induction rp arbitrary: st)
    case Nil
    then show ?case by (auto simp: edges_post_def keeps_def)
  next
    case (Cons j rp)
    note d = digraph_okD [OF Cons.prems(1)]
    have e: "(a, j) \<in> edges R" and j: "j < length R" using Cons.prems(4) relation_okD(2) [OF rel] by auto
    have aV: "a \<in> set (VERTICES st)" using Cons.prems(2) d(16) by blast
    have "\<exists>st1. (if node_index st j = 0 then traverse R infin j st else Some st) = Some st1 \<and> digraph_ok R F infin A st1 \<and> keeps {} st st1 \<and>
       node_index st1 j \<noteq> 0 \<and> (\<forall>w \<in> set (VERTICES st1). w \<notin> set (VERTICES st) \<longrightarrow> node_index st1 j \<le> node_index st1 w \<and> node_row st1 w \<subseteq> node_row st1 j \<and> (j, w) \<in> (edges R)\<^sup>*)"
    proof (cases "node_index st j = 0")
      case True
      note en = enter_ok [OF Cons.prems(1) rel j True]
      have "unvisited R (traverse_enter j st) \<subseteq> unvisited R st - {j}"
        using unvisited_keeps [OF en(6) d(1)] en(5) j d(1) by auto
      then have "unvisited R (traverse_enter j st) \<subset> unvisited R st0" using Cons.prems(5) j True by auto
      then have "card (unvisited R (traverse_enter j st)) < card (unvisited R st0)" by (intro psubset_card_mono) auto
      moreover have "\<And>u. u \<in> set (R ! j) \<Longrightarrow> (j, u) \<in> edges R" using j by (auto simp: edges_def)
      ultimately obtain st2 where "traverse_edges R infin j (R ! j) (traverse_enter j st) = Some st2"
        "edges_post R F infin (insert j A) j (R ! j) (traverse_enter j st) st2"
        using less.hyps [OF _ en(1) rel _ en(2)] by blast
      moreover obtain st' where "traverse_exit infin j (int (length (VERTICES (traverse_enter j st)))) st2 = Some st'"
        "traverse_post R F infin A j st st'" by (rule exit_ok [OF Cons.prems(1) rel j True calculation(2)])
      ultimately show ?thesis using True by (simp add: traverse_def traverse_post_def)
    next
      case False
      then show ?thesis using Cons.prems(1) by (auto simp: keeps_def)
    qed
    then obtain st1 where st1: "(if node_index st j = 0 then traverse R infin j st else Some st) = Some st1" "digraph_ok R F infin A st1"
      "keeps {} st st1" "node_index st1 j \<noteq> 0"
      and new: "\<And>w. w \<in> set (VERTICES st1) \<Longrightarrow> w \<notin> set (VERTICES st) \<Longrightarrow> node_index st1 j \<le> node_index st1 w \<and> node_row st1 w \<subseteq> node_row st1 j \<and> (j, w) \<in> (edges R)\<^sup>*"
      by blast
    note d1 = digraph_okD [OF st1(2)]
    obtain ts where V: "VERTICES st1 = ts @ VERTICES st" using st1(3) by (auto simp: keeps_def)
    have old: "node_index st1 v = node_index st v \<and> F_rows st1 ! v = F_rows st ! v \<and> node_pos st1 v = node_pos st v" if "v \<in> set (VERTICES st)" for v
    proof -
      have "v \<notin> set ts" using d1(4) V that by auto
      then show ?thesis using st1(3) that d(1,5) V by (auto simp: keeps_def stack_pos_append)
    qed
    have above: "(node_index st1 a \<le> node_index st1 w \<and> node_row st1 w \<subseteq> node_row st1 a \<or> node_index st1 j \<le> node_index st1 w \<and> node_row st1 w \<subseteq> node_row st1 j) \<and> (a, w) \<in> (edges R)\<^sup>* \<and> w \<notin> A"
      if "w \<in> set (VERTICES st1)" "node_pos st1 a < node_pos st1 w" for w
    proof (cases "w \<in> set (VERTICES st)")
      case True
      then show ?thesis using Cons.prems(3) old [OF True] old [OF aV] that(2) by (simp add: top_ok_def)
    next
      case False
      then have n: "node_index st1 j \<le> node_index st1 w" "node_row st1 w \<subseteq> node_row st1 j" "(j, w) \<in> (edges R)\<^sup>*" using new [OF that(1)] by simp_all
      have "(a, w) \<in> (edges R)\<^sup>*" by (rule converse_rtrancl_into_rtrancl [OF e n(3)])
      moreover have "w \<notin> A" using False d(16) by (rule contra_subsetD [rotated])
      ultimately show ?thesis using n(1,2) by simp
    qed
    note jn = join_ok [OF st1(2) rel Cons.prems(2) above e st1(4)]
    have al: "{a} \<subseteq> {..<length (INDEX st)}" using aV d(1,5) by simp
    have k: "keeps {a} st (traverse_join a j st1)" by (rule keeps_trans [OF _ jn(4) _ al]) (use st1(3) d(1) d1(1) in simp_all)
    have "unvisited R (traverse_join a j st1) \<subseteq> unvisited R st0" using unvisited_keeps [OF k d(1)] Cons.prems(5) by blast
    then obtain st' where st': "traverse_edges R infin a rp (traverse_join a j st1) = Some st'"
      "edges_post R F infin A a rp (traverse_join a j st1) st'"
      using Cons.IH [OF jn(1) Cons.prems(2) jn(2)] Cons.prems(4) by auto
    have dn: "edge_done infin st1 a u" if u: "u < length R" "edge_done infin st a u" for u
    proof (cases "u \<in> set (VERTICES st)")
      case False
      then have i: "node_index st u = infin" "node_row st u \<subseteq> node_row st a" using u(2) by (auto simp: edge_done_def)
      then have "node_index st u \<noteq> 0" using relation_okD(4) [OF rel] by simp
      then have "node_index st1 u = node_index st u" "F_rows st1 ! u = F_rows st ! u" using st1(3) u(1) d(1) by (auto simp: keeps_def)
      then show ?thesis using i old [OF aV] by (simp add: edge_done_def)
    next
      case True
      then show ?thesis using u(2) old [OF aV] old [OF True] V d(5) by (auto simp: edge_done_def)
    qed
    have "edges_post R F infin A a (j # rp) st st'"
      unfolding edges_post_def
    proof (intro conjI allI impI)
      show "digraph_ok R F infin A st'" "top_ok R A a st'" using st'(2) by (simp_all add: edges_post_def)
      show "keeps {a} st st'"
        by (rule keeps_trans [OF disjI2 [OF k] _ _ al]) (use st'(2) d(1) digraph_okD(1) [OF jn(1)] in \<open>simp_all add: edges_post_def\<close>)
      fix u assume u: "u < length R" "u \<in> set (j # rp) \<or> edge_done infin st a u"
      have "u \<in> set rp \<or> edge_done infin (traverse_join a j st1) a u" using u jn(3,7) dn by auto
      then show "edge_done infin st' a u" using st'(2) u(1) unfolding edges_post_def by blast
    qed
    then show ?case using st1(1) st'(1) d(1) j by auto
  qed
  from this [OF less.prems(1,3,4,5)] show ?case by blast
qed

lemma traverse_ok:
  assumes "digraph_ok R F infin {} st" "relation_ok R F infin" "i < length R" "node_index st i = 0"
  obtains st' where "traverse R infin i st = Some st'" "traverse_post R F infin {} i st st'"
proof -
  note en = enter_ok [OF assms]
  have "\<And>u. u \<in> set (R ! i) \<Longrightarrow> (i, u) \<in> edges R" using assms(3) by (auto simp: edges_def)
  then obtain st1 where st1: "traverse_edges R infin i (R ! i) (traverse_enter i st) = Some st1"
    "edges_post R F infin {i} i (R ! i) (traverse_enter i st) st1"
    using traverse_edges_ok [OF en(1) assms(2) _ en(2)] by auto
  obtain st' where st': "traverse_exit infin i (int (length (VERTICES (traverse_enter i st)))) st1 = Some st'" "traverse_post R F infin {} i st st'"
    by (rule exit_ok [OF assms st1(2)])
  show thesis by (rule that [OF _ st'(2)]) (simp add: traverse_def st1(1) st'(1))
qed

text \<open>Between the calls from \<open>digraph\<close> the stack is empty, so what was visited is complete.\<close>

lemma traverse_root_empty:
  assumes ok: "digraph_ok R F infin {} st" and V: "VERTICES st = []" and post: "traverse_post R F infin {} i st st'"
  shows "VERTICES st' = []"
proof (rule ccontr)
  assume ne: "VERTICES st' \<noteq> []"
  have ok': "digraph_ok R F infin {} st'" using post by (simp add: traverse_post_def)
  note d = digraph_okD [OF ok']
  define v where "v = last (VERTICES st')"
  have v: "v \<in> set (VERTICES st')" using ne v_def by simp
  obtain ts where ts: "VERTICES st' = ts @ [v]" using ne v_def append_butlast_last_id by metis
  then have "node_pos st' v = 1" using d(4) by (simp add: stack_pos_append)
  then show False using d(7,12) [OF v] by simp
qed

lemma digraph_loop_ok:
  assumes "digraph_ok R F infin {} st" "relation_ok R F infin" "VERTICES st = []" "set is \<subseteq> {..<length R}"
  shows "\<exists>st'. digraph_loop R infin is st = Some st' \<and> digraph_ok R F infin {} st' \<and> VERTICES st' = [] \<and> keeps {} st st' \<and>
    (\<forall>i \<in> set is. node_index st' i \<noteq> 0 \<or> R ! i = [])"
  using assms
proof (induction "is" arbitrary: st)
  case (Cons i "is")
  have len: "length (INDEX st'') = length R" if "digraph_ok R F infin {} st''" for st'' by (rule digraph_okD(1) [OF that])
  obtain st1 where st1: "(if node_index st i = 0 \<and> R ! i \<noteq> [] then traverse R infin i st else Some st) = Some st1"
    "digraph_ok R F infin {} st1" "VERTICES st1 = []" "keeps {} st st1" "node_index st1 i \<noteq> 0 \<or> R ! i = []"
  proof (cases "node_index st i = 0 \<and> R ! i \<noteq> []")
    case True
    have i: "i < length R" using Cons.prems(4) by simp
    obtain st' where st': "traverse R infin i st = Some st'" "traverse_post R F infin {} i st st'"
      by (rule traverse_ok [OF Cons.prems(1,2) i conjunct1 [OF True]])
    then show thesis using that [of st'] True traverse_root_empty [OF Cons.prems(1,3) st'(2)] by (simp add: traverse_post_def)
  next
    case False
    then show thesis using that [of st] Cons.prems(1,3) by (auto simp: keeps_def)
  qed
  obtain st' where st': "digraph_loop R infin is st1 = Some st'" "digraph_ok R F infin {} st'" "VERTICES st' = []" "keeps {} st1 st'"
    "\<forall>i \<in> set is. node_index st' i \<noteq> 0 \<or> R ! i = []"
    using Cons.IH [OF st1(2) Cons.prems(2) st1(3)] Cons.prems(4) by auto
  have "keeps {} st st'" using keeps_trans [OF _ st'(4)] st1(4) len st1(2) Cons.prems(1) by simp
  moreover have "node_index st' i \<noteq> 0 \<or> R ! i = []"
  proof (cases "R ! i = []")
    case False
    then have "node_index st1 i \<noteq> 0" "i < length (INDEX st1)" using st1(5) Cons.prems(4) len [OF st1(2)] by auto
    then show ?thesis using st'(4) by (auto simp: keeps_def)
  qed simp
  ultimately show ?case using st1(1) st' by (cases "node_index st i = 0 \<and> R ! i \<noteq> []") auto
qed (auto simp: keeps_def)

text \<open>\<open>digraph\<close> returns, and every node_row has become the join of the rows that can be reached.\<close>

lemma digraph_reach_union:
  assumes "length R = n" "length F = n" "\<And>v u. v < n \<Longrightarrow> u \<in> set (R ! v) \<Longrightarrow> u < n"
    "\<And>v. v < n \<Longrightarrow> length (F ! v) = m" "n + 2 \<le> MAXSHORT"
  obtains F' where "digraph n R F = Some F'" "length F' = n"
    "\<And>v. v < n \<Longrightarrow> length (F' ! v) = m" "\<And>v. v < n \<Longrightarrow> members (F' ! v) = reach_union R F v"
proof -
  define st where "st = \<lparr> INDEX = replicate n 0, VERTICES = [], F_rows = F \<rparr>"
  have rel: "relation_ok R F (int n + 2)" using assms by (simp add: relation_ok_def)
  have ok: "digraph_ok R F (int n + 2) {} st" using assms by (simp add: digraph_ok_def st_def)
  obtain st' where st': "digraph_loop R (int n + 2) [0..<n] st = Some st'" "digraph_ok R F (int n + 2) {} st'" "VERTICES st' = []"
    "\<forall>i \<in> set [0..<n]. node_index st' i \<noteq> 0 \<or> R ! i = []"
  proof -
    have "VERTICES st = []" "set [0..<n] \<subseteq> {..<length R}" using assms(1) by (auto simp: st_def)
    from digraph_loop_ok [OF ok rel this] show thesis using that by blast
  qed
  note d = digraph_okD [OF st'(2)]
  show thesis
  proof (rule that [of "F_rows st'"])
    show "digraph n R F = Some (F_rows st')" using st'(1) by (simp add: digraph_def st_def)
    show "length (F_rows st') = n" using d(2) assms(1) by simp
    show "length (F_rows st' ! v) = m" if "v < n" for v using d(3) assms(1,4) that by simp
    show "members (F_rows st' ! v) = reach_union R F v" if v: "v < n" for v
    proof (cases "node_index st' v = 0")
      case True
      then have "R ! v = []" "F_rows st' ! v = F ! v" using st'(4) d(6) v assms(1) by auto
      moreover have "u = v" if "(v, u) \<in> (edges R)\<^sup>*" for u
        using that \<open>R ! v = []\<close> by (cases rule: converse_rtranclE) (auto simp: edges_def)
      ultimately show ?thesis by (auto simp: reach_union_def)
    next
      case False
      then have "node_index st' v = int n + 2" using d(5) [of v] v assms(1) st'(3) by simp
      then show ?thesis using d(14) v assms(1) by simp
    qed
  qed
qed

end
