(* ===== verification/Jay_Lalr.thy ===== *)
theory Jay_Lalr
  imports Jay_Lr0_Properties Jay_Nullable Jay_Digraph
begin

text \<open>
  \<open>lalr.c\<close>: the LALR(1) lookaheads by the relations of DeRemer and Pennello. The tables that are global variables of the file
  are arguments and results; a row of \<open>F\<close> or \<open>LA\<close> is a list of words. \<open>None\<close> is a call that does not return normally: \<open>too many gotos\<close>, a failed \<open>assert\<close>, or an
  access outside one of the arrays.
\<close>

section \<open>Tables by state\<close>

definition set_state_table :: "core list \<Rightarrow> core option list" where
  "set_state_table cs = fold (\<lambda>sp table. table[core_number sp := Some sp]) cs (replicate (length cs) None)"

definition set_accessing_symbol :: "core list \<Rightarrow> nat list" where
  "set_accessing_symbol cs = fold (\<lambda>sp table. table[core_number sp := core_symbol sp]) cs (replicate (length cs) 0)"

definition set_shift_table :: "nat \<Rightarrow> shifts list \<Rightarrow> shifts option list" where
  "set_shift_table nstates sl = fold (\<lambda>sp table. table[shifts_number sp := Some sp]) sl (replicate nstates None)"

definition set_reduction_table :: "nat \<Rightarrow> reductions list \<Rightarrow> reductions option list" where
  "set_reduction_table nstates rl = fold (\<lambda>rp table. table[reductions_number rp := Some rp]) rl (replicate nstates None)"

definition set_maxrhs :: "grammar \<Rightarrow> nat" where
  "set_maxrhs g =
     snd (fold (\<lambda>item (length, max). if 0 \<le> item then (length + 1, max) else (0, if max < length then length else max)) (ritem g) (0, 0))"

section \<open>Places of the lookaheads\<close>

fun lookaheads_loop :: "nat \<Rightarrow> reductions option list \<Rightarrow> int list" where
  "lookaheads_loop k [] = [to_short (int k)]"
| "lookaheads_loop k (rp # rps) =
     to_short (int k) # lookaheads_loop (case rp of None \<Rightarrow> k | Some rp \<Rightarrow> k + length (reduction_rules rp)) rps"

text \<open>\<open>lookaheads\<close> and \<open>LAruleno\<close>.\<close>

definition initialize_LA :: "reductions option list \<Rightarrow> int list \<times> nat list" where
  "initialize_LA reduction_table =
     (lookaheads_loop 0 reduction_table,
      concat (map (\<lambda>rp. case rp of None \<Rightarrow> [] | Some rp \<Rightarrow> reduction_rules rp) reduction_table))"

section \<open>Gotos\<close>

record goto_tables =
  goto_map :: "nat list" \<comment> \<open>from \<open>ntokens\<close> on\<close>
  from_state :: "nat list"
  to_state :: "nat list"

text \<open>The loops over the shifts of all states run from the last symbol of a state down to its first variable: symbol, \<open>state1\<close> and \<open>state2\<close> of
  each round.\<close>

definition goto_pairs :: "grammar \<Rightarrow> nat list \<Rightarrow> shifts list \<Rightarrow> (nat \<times> nat \<times> nat) list" where
  "goto_pairs g accessing_symbol sl =
     concat (map (\<lambda>sp. map (\<lambda>state2. (accessing_symbol ! state2, shifts_number sp, state2))
       (takeWhile (\<lambda>state2. \<not> ISTOKEN g (int (accessing_symbol ! state2))) (rev (shift sp)))) sl)"

fun count_gotos :: "grammar \<Rightarrow> (nat \<times> nat \<times> nat) list \<Rightarrow> nat \<times> nat list \<Rightarrow> (nat \<times> nat list) option" where
  "count_gotos g [] st = Some st"
| "count_gotos g ((symbol, _, _) # pairs) (ngotos, counts) =
     (if ngotos = MAXSHORT then None
      else let i = symbol - ntokens g in count_gotos g pairs (ngotos + 1, counts[i := counts ! i + 1]))"

definition goto_starts :: "grammar \<Rightarrow> nat list \<Rightarrow> nat list" where
  "goto_starts g counts = snd (fold (\<lambda>i (k, temp_map). (k + counts ! i, temp_map[i := k])) [0..<nvars g] (0, replicate (nvars g + 1) 0))"

fun fill_gotos :: "grammar \<Rightarrow> (nat \<times> nat \<times> nat) list \<Rightarrow> nat list \<times> nat list \<times> nat list \<Rightarrow> nat list \<times> nat list \<times> nat list" where
  "fill_gotos g [] st = st"
| "fill_gotos g ((symbol, state1, state2) # pairs) (temp_map, from, to) =
     (let i = symbol - ntokens g; k = temp_map ! i in
      fill_gotos g pairs (temp_map[i := k + 1], from[k := state1], to[k := state2]))"

definition set_goto_map :: "grammar \<Rightarrow> nat list \<Rightarrow> shifts list \<Rightarrow> goto_tables option" where
  "set_goto_map g accessing_symbol sl = do {
     let pairs = goto_pairs g accessing_symbol sl;
     (ngotos, counts) \<leftarrow> count_gotos g pairs (0, replicate (nvars g + 1) 0);
     let temp_map = goto_starts g counts;
     let temp_map = temp_map[nvars g := ngotos];
     let (_, from, to) = fill_gotos g pairs (temp_map, replicate ngotos 0, replicate ngotos 0);
     Some \<lparr> goto_map = temp_map, from_state = from, to_state = to \<rparr>
   }"

function map_goto_loop :: "nat list \<Rightarrow> nat \<Rightarrow> int \<Rightarrow> int \<Rightarrow> nat option" where
  "map_goto_loop from state low high =
     (if high < low then None
      else let middle = (low + high) div 2 in
           if middle < 0 \<or> int (length from) \<le> middle then None
           else let s = from ! nat middle in
                if s = state then Some (nat middle)
                else if s < state then map_goto_loop from state (middle + 1) high
                else map_goto_loop from state low (middle - 1))"
  by pat_completeness auto
termination by (relation "measure (\<lambda>(from, state, low, high). nat (high - low + 1))") auto

declare map_goto_loop.simps [simp del]

definition map_goto :: "grammar \<Rightarrow> goto_tables \<Rightarrow> nat \<Rightarrow> nat \<Rightarrow> nat option" where
  "map_goto g gt state symbol =
     map_goto_loop (from_state gt) state (int (goto_map gt ! (symbol - ntokens g))) (int (goto_map gt ! (symbol + 1 - ntokens g)))"

section \<open>Reads\<close>

text \<open>The array \<open>edge\<close> has \<open>ngotos + 1\<close> entries.\<close>

definition store_edge :: "nat \<Rightarrow> nat list \<Rightarrow> nat \<Rightarrow> nat list option" where
  "store_edge ngotos edge e = (if ngotos + 1 \<le> length edge then None else Some (edge @ [e]))"

fun reads_edges :: "grammar \<Rightarrow> bool list \<Rightarrow> nat list \<Rightarrow> goto_tables \<Rightarrow> nat \<Rightarrow> nat list \<Rightarrow> nat list \<Rightarrow> nat list option" where
  "reads_edges g nullable accessing_symbol gt stateno [] edge = Some edge"
| "reads_edges g nullable accessing_symbol gt stateno (s # ss) edge =
     (let symbol = accessing_symbol ! s in
      if nullable ! symbol
      then do {
        e \<leftarrow> map_goto g gt stateno symbol;
        edge \<leftarrow> store_edge (length (from_state gt)) edge e;
        reads_edges g nullable accessing_symbol gt stateno ss edge
      }
      else reads_edges g nullable accessing_symbol gt stateno ss edge)"

text \<open>The row of \<open>F\<close> and the list in \<open>reads\<close> for one goto.\<close>

definition initialize_F_goto ::
  "grammar \<Rightarrow> bool list \<Rightarrow> nat list \<Rightarrow> shifts option list \<Rightarrow> goto_tables \<Rightarrow> nat \<Rightarrow> (bits \<times> nat list) option" where
  "initialize_F_goto g nullable accessing_symbol shift_table gt i =
     (let rowp = replicate (WORDSIZE (ntokens g)) 0; stateno = to_state gt ! i in
      case shift_table ! stateno of
        None \<Rightarrow> Some (rowp, [])
      | Some sp \<Rightarrow>
          let terminal = (\<lambda>s. \<not> ISVAR g (int (accessing_symbol ! s)));
              rowp = fold (\<lambda>s rowp. SETBIT rowp (accessing_symbol ! s)) (takeWhile terminal (shift sp)) rowp
          in do {
            edge \<leftarrow> reads_edges g nullable accessing_symbol gt stateno (dropWhile terminal (shift sp)) [];
            Some (rowp, edge)
          })"

fun all_options :: "'a option list \<Rightarrow> 'a list option" where
  "all_options [] = Some []"
| "all_options (x # xs) = do { y \<leftarrow> x; ys \<leftarrow> all_options xs; Some (y # ys) }"

definition initialize_F :: "grammar \<Rightarrow> bool list \<Rightarrow> nat list \<Rightarrow> shifts option list \<Rightarrow> goto_tables \<Rightarrow> bits list option" where
  "initialize_F g nullable accessing_symbol shift_table gt = do {
     let ngotos = length (from_state gt);
     rows \<leftarrow> all_options (map (initialize_F_goto g nullable accessing_symbol shift_table gt) [0..<ngotos]);
     let F = map fst rows;
     let reads = map snd rows;
     F \<leftarrow> (if ngotos = 0 then None else Some (F[0 := SETBIT (F ! 0) 0]));
     digraph ngotos reads F
   }"

section \<open>Includes and lookback\<close>

text \<open>The loop that looks for the shift with \<open>symbol2\<close>, and the walk along a right-hand side with the states it passes.\<close>

fun find_shift :: "nat list \<Rightarrow> int \<Rightarrow> nat list \<Rightarrow> nat \<Rightarrow> nat" where
  "find_shift accessing_symbol symbol2 [] stateno = stateno"
| "find_shift accessing_symbol symbol2 (s # ss) stateno =
     (if int (accessing_symbol ! s) = symbol2 then s else find_shift accessing_symbol symbol2 ss s)"

fun walk_rhs :: "nat list \<Rightarrow> shifts option list \<Rightarrow> nat \<Rightarrow> int list \<Rightarrow> nat \<Rightarrow> nat list \<Rightarrow> (nat \<times> nat list) option" where
  "walk_rhs accessing_symbol shift_table maxrhs [] stateno states = Some (stateno, states)"
| "walk_rhs accessing_symbol shift_table maxrhs (symbol2 # rp) stateno states =
     (case shift_table ! stateno of
        None \<Rightarrow> None
      | Some sp \<Rightarrow>
          let stateno = find_shift accessing_symbol symbol2 (shift sp) stateno in
          if maxrhs + 1 \<le> length states then None
          else walk_rhs accessing_symbol shift_table maxrhs rp stateno (states @ [stateno]))"

definition add_lookback_edge :: "int list \<Rightarrow> nat list \<Rightarrow> nat \<Rightarrow> nat \<Rightarrow> nat \<Rightarrow> nat list list \<Rightarrow> nat list list option" where
  "add_lookback_edge lookaheads LAruleno stateno ruleno gotono lookback =
     (let i = lookaheads ! stateno; k = lookaheads ! (stateno + 1) in
      if i < 0 \<or> int (length LAruleno) < k then None
      else case find (\<lambda>i. LAruleno ! i = ruleno) [nat i..<nat k] of
          None \<Rightarrow> None
        | Some i \<Rightarrow> Some (lookback[i := gotono # lookback ! i]))"

text \<open>The loop back over the right-hand side. \<open>rp\<close> is an index into \<open>ritem\<close>.\<close>

fun includes_edges ::
  "grammar \<Rightarrow> bool list \<Rightarrow> goto_tables \<Rightarrow> nat list \<Rightarrow> nat \<Rightarrow> nat \<Rightarrow> nat list \<Rightarrow> nat list option" where
  "includes_edges g nullable gt states 0 len edge = None"
| "includes_edges g nullable gt states (Suc rp) len edge =
     (if ISVAR g (ritem g ! rp)
      then case len of
          0 \<Rightarrow> None
        | Suc len \<Rightarrow> do {
            e \<leftarrow> map_goto g gt (states ! len) (nat (ritem g ! rp));
            edge \<leftarrow> store_edge (length (from_state gt)) edge e;
            if nullable ! nat (ritem g ! rp) \<and> 0 < len then includes_edges g nullable gt states rp len edge else Some edge
          }
      else Some edge)"

fun build_relations_rules ::
  "grammar \<Rightarrow> bool list \<Rightarrow> nat list \<Rightarrow> shifts option list \<Rightarrow> goto_tables \<Rightarrow> int list \<Rightarrow> nat list \<Rightarrow> nat \<Rightarrow>
   nat list \<Rightarrow> nat list \<Rightarrow> nat list list \<Rightarrow> (nat list \<times> nat list list) option" where
  "build_relations_rules g nullable accessing_symbol shift_table gt lookaheads LAruleno i [] edge lookback = Some (edge, lookback)"
| "build_relations_rules g nullable accessing_symbol shift_table gt lookaheads LAruleno i (rule # rules) edge lookback = do {
     let state1 = from_state gt ! i;
     let rhs_items = takeWhile (\<lambda>item. 0 \<le> item) (drop (rrhs g ! rule) (ritem g));
     (stateno, states) \<leftarrow> walk_rhs accessing_symbol shift_table (set_maxrhs g) rhs_items state1 [state1];
     lookback \<leftarrow> add_lookback_edge lookaheads LAruleno stateno rule i lookback;
     edge \<leftarrow> includes_edges g nullable gt states (rrhs g ! rule + length rhs_items) (length states - 1) edge;
     build_relations_rules g nullable accessing_symbol shift_table gt lookaheads LAruleno i rules edge lookback
   }"

fun build_relations_gotos ::
  "grammar \<Rightarrow> bool list \<Rightarrow> nat list list \<Rightarrow> nat list \<Rightarrow> shifts option list \<Rightarrow> goto_tables \<Rightarrow> int list \<Rightarrow> nat list \<Rightarrow>
   nat list \<Rightarrow> nat list list \<Rightarrow> (nat list list \<times> nat list list) option" where
  "build_relations_gotos g nullable derives accessing_symbol shift_table gt lookaheads LAruleno [] lookback = Some ([], lookback)"
| "build_relations_gotos g nullable derives accessing_symbol shift_table gt lookaheads LAruleno (i # is) lookback = do {
     let symbol1 = accessing_symbol ! (to_state gt ! i);
     (edge, lookback) \<leftarrow>
       build_relations_rules g nullable accessing_symbol shift_table gt lookaheads LAruleno i (derives ! symbol1) [] lookback;
     (includes, lookback) \<leftarrow>
       build_relations_gotos g nullable derives accessing_symbol shift_table gt lookaheads LAruleno is lookback;
     Some (edge # includes, lookback)
   }"

text \<open>\<open>transpose\<close>. The number of edges into a node is counted in a \<open>short\<close>.\<close>

definition transpose_relation :: "nat list list \<Rightarrow> nat \<Rightarrow> nat list list option" where
  "transpose_relation R n =
     (let nedges = fold (\<lambda>i nedges. fold (\<lambda>j nedges. nedges[j := nedges ! j + 1]) (R ! i) nedges) [0..<n] (replicate n 0) in
      if list_ex (\<lambda>k. MAXSHORT < k) nedges then None
      else Some (fold (\<lambda>i new_R. fold (\<lambda>j new_R. new_R[j := new_R ! j @ [i]]) (R ! i) new_R) [0..<n] (replicate n [])))"

text \<open>\<open>includes\<close>, already transposed, and \<open>lookback\<close>.\<close>

definition build_relations ::
  "grammar \<Rightarrow> bool list \<Rightarrow> nat list list \<Rightarrow> nat list \<Rightarrow> shifts option list \<Rightarrow> goto_tables \<Rightarrow> int list \<Rightarrow> nat list \<Rightarrow>
   (nat list list \<times> nat list list) option" where
  "build_relations g nullable derives accessing_symbol shift_table gt lookaheads LAruleno = do {
     let ngotos = length (from_state gt);
     (includes, lookback) \<leftarrow>
       build_relations_gotos g nullable derives accessing_symbol shift_table gt lookaheads LAruleno [0..<ngotos]
         (replicate (length LAruleno) []);
     new_includes \<leftarrow> transpose_relation includes ngotos;
     Some (new_includes, lookback)
   }"

definition compute_FOLLOWS :: "nat \<Rightarrow> nat list list \<Rightarrow> bits list \<Rightarrow> bits list option" where
  "compute_FOLLOWS ngotos includes F = digraph ngotos includes F"

definition compute_lookaheads :: "grammar \<Rightarrow> nat list list \<Rightarrow> bits list \<Rightarrow> bits list" where
  "compute_lookaheads g lookback F =
     map (\<lambda>sp. fold (\<lambda>value rowp. or_row rowp (F ! value)) sp (replicate (WORDSIZE (ntokens g)) 0)) lookback"

section \<open>The whole phase\<close>

record lalr_tables =
  accessing_symbol :: "nat list"
  shift_table :: "shifts option list"
  reduction_table :: "reductions option list"
  lookaheads :: "int list"
  LAruleno :: "nat list"
  LA :: "bits list"
  gotos :: goto_tables

definition lalr :: "grammar \<Rightarrow> bool list \<Rightarrow> nat list list \<Rightarrow> lr0_machine \<Rightarrow> lalr_tables option" where
  "lalr g nullable derives st = do {
     let nstates = length (cores st);
     let accessing = set_accessing_symbol (cores st);
     let shift_t = set_shift_table nstates (shift_list st);
     let reduction_t = set_reduction_table nstates (reduction_list st);
     let (las, rulenos) = initialize_LA reduction_t;
     gt \<leftarrow> set_goto_map g accessing (shift_list st);
     F \<leftarrow> initialize_F g nullable accessing shift_t gt;
     (includes, lookback) \<leftarrow> build_relations g nullable derives accessing shift_t gt las rulenos;
     F \<leftarrow> compute_FOLLOWS (length (from_state gt)) includes F;
     Some \<lparr> accessing_symbol = accessing, shift_table = shift_t, reduction_table = reduction_t, lookaheads = las, LAruleno = rulenos,
       LA = compute_lookaheads g lookback F, gotos = gt \<rparr>
   }"

end
