(* ===== verification/Jay_Gotos.thy ===== *)
theory Jay_Gotos
  imports Jay_Lalr
begin

text \<open>
  The tables of \<open>lalr.c\<close> that are indexed by state or by goto, over an LR(0) automaton: \<open>set_goto_map\<close> numbers the moves on variables, and
  \<open>map_goto\<close> finds the number of each.
\<close>

section \<open>Moves of the automaton\<close>

definition moves :: "grammar \<Rightarrow> core list \<Rightarrow> nat \<Rightarrow> nat \<Rightarrow> nat \<Rightarrow> bool" where
  "moves g cs p X q \<longleftrightarrow> p < length cs \<and> X \<in> goto_symbols g (items_of cs p) \<and> goes_to g cs p X q"

lemma length_fold_table [simp]: "length (fold (\<lambda>x table. table[key x := val x]) xs table) = length table"
  by (induction xs arbitrary: table) auto

lemma fold_table_other: "k \<notin> key ` set xs \<Longrightarrow> fold (\<lambda>x table. table[key x := val x]) xs table ! k = table ! k"
  by (induction xs arbitrary: table) auto

lemma fold_table_nth:
  assumes "distinct (map key xs)" and "\<And>x. x \<in> set xs \<Longrightarrow> key x < length table" and "x \<in> set xs"
  shows "fold (\<lambda>x table. table[key x := val x]) xs table ! key x = val x"
  using assms
proof (induction xs arbitrary: table)
  case (Cons y xs)
  show ?case
  proof (cases "x = y")
    case True
    then show ?thesis using Cons.prems(1,2) fold_table_other [of "key x" key xs val "table[key x := val x]"] by simp
  next
    case False
    then show ?thesis using Cons.prems Cons.IH [of "table[key y := val y]"] by simp
  qed
qed simp

lemma moves_unique: "cores_ok g cs \<Longrightarrow> moves g cs p X q \<Longrightarrow> moves g cs p X q' \<Longrightarrow> q = q'"
  unfolding moves_def using goes_to_unique by blast

lemma moves_symbol: "moves g cs p X q \<Longrightarrow> core_symbol (cs ! q) = X \<and> q < length cs \<and> p < length cs"
  by (simp add: moves_def goes_to_def)

lemma moves_bounds:
  assumes g: "grammar_ok g" and cs: "cores_ok g cs" and m: "moves g cs p X q"
  shows "0 < X" "X < nsyms g" "X \<noteq> start_symbol g"
proof -
  have "items_of cs p \<subseteq> {0<..<nitems g}" using lr0_kernels_items(1) [OF g] cores_okD(6) [OF cs] m by (simp add: moves_def)
  then show "0 < X" "X < nsyms g" "X \<noteq> start_symbol g" using goto_symbols_bounds [OF g] m by (auto simp: moves_def)
qed

text \<open>The shifts of a state, by the table.\<close>

definition shifts_of :: "shifts option list \<Rightarrow> nat \<Rightarrow> nat list" where
  "shifts_of table p = (case table ! p of None \<Rightarrow> [] | Some sp \<Rightarrow> shift sp)"

lemma accessing_symbol_core:
  assumes "cores_ok g cs"
  shows "length (set_accessing_symbol cs) = length cs" "\<And>c. c < length cs \<Longrightarrow> set_accessing_symbol cs ! c = core_symbol (cs ! c)"
proof -
  note d = cores_okD [OF assms]
  have "map core_number cs = [0..<length cs]" using d(4) by (intro nth_equalityI) simp_all
  then have dis: "distinct (map core_number cs)" by simp
  have lt: "core_number sp < length (replicate (length cs) (0 :: nat))" if "sp \<in> set cs" for sp
  proof -
    obtain c where "c < length cs" "sp = cs ! c" using \<open>sp \<in> set cs\<close> by (auto simp: in_set_conv_nth)
    then show ?thesis using d(4) by simp
  qed
  show "length (set_accessing_symbol cs) = length cs"
    by (simp add: set_accessing_symbol_def)
  show "set_accessing_symbol cs ! c = core_symbol (cs ! c)" if c: "c < length cs" for c
    using fold_table_nth [OF dis lt nth_mem [OF c], of core_symbol] d(4) [OF c] unfolding set_accessing_symbol_def by metis
qed

text \<open>The reduction table has the complete items of every state.\<close>

lemma reduction_table_rules:
  assumes rl: "reductions_ok g cs (length cs) rl" and p: "p < length cs"
  shows "(case set_reduction_table (length cs) rl ! p of None \<Rightarrow> [] | Some rp \<Rightarrow> reduction_rules rp) = kernel_reductions g (items_of cs p)"
    "length (set_reduction_table (length cs) rl) = length cs"
proof -
  let ?P = "\<lambda>c. kernel_reductions g (items_of cs c) \<noteq> []"
  have rl: "rl = map (\<lambda>c. \<lparr> reductions_number = c, reduction_rules = kernel_reductions g (items_of cs c) \<rparr>) (filter ?P [0..<length cs])"
    using rl by (simp add: reductions_ok_def)
  then have nums: "map reductions_number rl = filter ?P [0..<length cs]" by (simp add: comp_def)
  have dis: "distinct (map reductions_number rl)" using nums by simp
  have lt: "reductions_number rp < length (replicate (length cs) (None :: reductions option))" if "rp \<in> set rl" for rp
    using that rl by auto
  show "length (set_reduction_table (length cs) rl) = length cs"
    by (simp add: set_reduction_table_def)
  show "(case set_reduction_table (length cs) rl ! p of None \<Rightarrow> [] | Some rp \<Rightarrow> reduction_rules rp) = kernel_reductions g (items_of cs p)"
  proof (cases "?P p")
    case True
    then have "\<lparr> reductions_number = p, reduction_rules = kernel_reductions g (items_of cs p) \<rparr> \<in> set rl" using rl p by auto
    from fold_table_nth [OF dis lt this, of Some] show ?thesis by (simp add: set_reduction_table_def)
  next
    case False
    then have "p \<notin> reductions_number ` set rl" using rl by auto
    from fold_table_other [OF this, of Some] show ?thesis using False p by (simp add: set_reduction_table_def)
  qed
qed

lemma shift_table_moves:
  assumes g: "grammar_ok g" and cs: "cores_ok g cs" and sl: "shifts_ok g cs (length cs) sl" and p: "p < length cs"
  defines "table \<equiv> set_shift_table (length cs) sl"
  shows "moves g cs p X q \<longleftrightarrow> q \<in> set (shifts_of table p) \<and> core_symbol (cs ! q) = X"
    "map (\<lambda>q. core_symbol (cs ! q)) (shifts_of table p) = sorted_list_of_set (goto_symbols g (items_of cs p))"
    "table ! p = None \<longleftrightarrow> goto_symbols g (items_of cs p) = {}"
    "\<And>sp. table ! p = Some sp \<Longrightarrow> sp \<in> set sl \<and> shifts_number sp = p"
proof -
  let ?P = "\<lambda>c. goto_symbols g (items_of cs c) \<noteq> {}"
  have nums: "map shifts_number sl = filter ?P [0..<length cs]" and
    all: "\<And>s. s \<in> set sl \<Longrightarrow> list_all2 (goes_to g cs (shifts_number s)) (sorted_list_of_set (goto_symbols g (items_of cs (shifts_number s)))) (shift s)"
    using sl unfolding shifts_ok_def by blast+
  have dis: "distinct (map shifts_number sl)" using nums by simp
  have lt: "shifts_number sp < length (replicate (length cs) (None :: shifts option))" if "sp \<in> set sl" for sp
    using that nums by (metis (no_types, lifting) atLeastLessThan_iff filter_is_subset in_mono length_replicate list.set_map image_eqI set_upt)
  have items: "items_of cs p \<subseteq> {0<..<nitems g}" using lr0_kernels_items(1) [OF g] cores_okD(6) [OF cs p] by blast
  then have fin: "finite (goto_symbols g (items_of cs p))" by (rule finite_goto_symbols [OF g])
  have cases: "(?P p \<and> (\<exists>sp \<in> set sl. shifts_number sp = p \<and> table ! p = Some sp)) \<or> (\<not> ?P p \<and> table ! p = None)"
  proof (cases "?P p")
    case True
    then have "p \<in> set (map shifts_number sl)" using nums p by auto
    then obtain sp where sp: "sp \<in> set sl" "shifts_number sp = p" by auto
    then show ?thesis using True fold_table_nth [OF dis lt sp(1), of Some] by (auto simp: table_def set_shift_table_def)
  next
    case False
    then have "p \<notin> set (map shifts_number sl)" using nums by auto
    then have "p \<notin> shifts_number ` set sl" by simp
    from fold_table_other [OF this, of Some] show ?thesis using False p by (simp add: table_def set_shift_table_def)
  qed
  then show "table ! p = None \<longleftrightarrow> goto_symbols g (items_of cs p) = {}" by auto
  show "sp \<in> set sl \<and> shifts_number sp = p" if "table ! p = Some sp" for sp using cases that by auto
  have l2: "list_all2 (goes_to g cs p) (sorted_list_of_set (goto_symbols g (items_of cs p))) (shifts_of table p)"
    using cases all by (auto simp: shifts_of_def)
  then show syms: "map (\<lambda>q. core_symbol (cs ! q)) (shifts_of table p) = sorted_list_of_set (goto_symbols g (items_of cs p))"
    by (auto simp: list_all2_conv_all_nth goes_to_def intro!: nth_equalityI)
  show "moves g cs p X q \<longleftrightarrow> q \<in> set (shifts_of table p) \<and> core_symbol (cs ! q) = X"
  proof
    assume m: "moves g cs p X q"
    then have "X \<in> set (sorted_list_of_set (goto_symbols g (items_of cs p)))" using fin by (simp add: moves_def)
    then obtain j where j: "j < length (shifts_of table p)" "sorted_list_of_set (goto_symbols g (items_of cs p)) ! j = X"
      using list_all2_lengthD [OF l2] by (auto simp: in_set_conv_nth)
    then have "goes_to g cs p X (shifts_of table p ! j)" using l2 by (auto simp: list_all2_conv_all_nth)
    then have "shifts_of table p ! j = q" using goes_to_unique [OF cs] m by (auto simp: moves_def)
    then show "q \<in> set (shifts_of table p) \<and> core_symbol (cs ! q) = X" using j moves_symbol [OF m] by auto
  next
    assume q: "q \<in> set (shifts_of table p) \<and> core_symbol (cs ! q) = X"
    then obtain j where j: "j < length (shifts_of table p)" "shifts_of table p ! j = q" by (auto simp: in_set_conv_nth)
    let ?Y = "sorted_list_of_set (goto_symbols g (items_of cs p)) ! j"
    have "goes_to g cs p ?Y q" using l2 j by (auto simp: list_all2_conv_all_nth)
    moreover have "?Y \<in> set (sorted_list_of_set (goto_symbols g (items_of cs p)))"
      using j(1) list_all2_lengthD [OF l2] by (intro nth_mem) simp
    ultimately show "moves g cs p X q" using q p fin by (auto simp: moves_def goes_to_def)
  qed
qed

section \<open>The counting sort\<close>

text \<open>How many pairs have a variable with an index below \<open>i\<close>.\<close>

abbreviation with_index :: "grammar \<Rightarrow> nat \<Rightarrow> (nat \<times> nat \<times> nat) list \<Rightarrow> (nat \<times> nat) list" where
  "with_index g i pairs \<equiv> map snd (filter (\<lambda>p. fst p - ntokens g = i) pairs)"

definition start_of :: "grammar \<Rightarrow> (nat \<times> nat \<times> nat) list \<Rightarrow> nat \<Rightarrow> nat" where
  "start_of g pairs i = (\<Sum>k<i. length (with_index g k pairs))"

lemma start_of_Suc: "start_of g pairs (Suc i) = start_of g pairs i + length (with_index g i pairs)"
  by (simp add: start_of_def)

lemma start_of_mono: "i \<le> j \<Longrightarrow> start_of g pairs i \<le> start_of g pairs j"
  by (rule lift_Suc_mono_le [of "start_of g pairs"]) (simp_all add: start_of_Suc)

lemma count_gotos_result:
  assumes "\<forall>p \<in> set pairs. fst p - ntokens g < length counts" "n \<le> MAXSHORT"
  shows "count_gotos g pairs (n, counts) =
    (if n + length pairs \<le> MAXSHORT
     then Some (n + length pairs, map (\<lambda>i. counts ! i + length (with_index g i pairs)) [0..<length counts]) else None)"
  using assms
proof (induction pairs arbitrary: n counts)
  case Nil
  then show ?case by (auto intro: nth_equalityI)
next
  case (Cons p pairs)
  obtain symbol s1 s2 where p: "p = (symbol, s1, s2)" by (cases p) auto
  show ?case
  proof (cases "n = MAXSHORT")
    case False
    let ?i = "symbol - ntokens g"
    have "map (\<lambda>i. counts[?i := counts ! ?i + 1] ! i + length (with_index g i pairs)) [0..<length counts] =
      map (\<lambda>i. counts ! i + length (with_index g i (p # pairs))) [0..<length counts]"
      using p by (auto simp: nth_list_update)
    moreover have "\<forall>p \<in> set pairs. fst p - ntokens g < length (counts[?i := counts ! ?i + 1])" "n + 1 \<le> MAXSHORT"
      using Cons.prems False by auto
    ultimately show ?thesis using Cons.IH [of "counts[?i := counts ! ?i + 1]" "n + 1"] p False by (simp add: Let_def)
  qed (simp add: p)
qed

lemma goto_starts_result:
  assumes "\<And>i. i < nvars g \<Longrightarrow> counts ! i = length (with_index g i pairs)" and "i < nvars g"
  shows "goto_starts g counts ! i = start_of g pairs i" "length (goto_starts g counts) = nvars g + 1"
proof -
  have "fold (\<lambda>i (k, temp_map). (k + counts ! i, temp_map[i := k])) [0..<m] (0, replicate (nvars g + 1) 0) =
    (start_of g pairs m, map (\<lambda>i. if i < m then start_of g pairs i else 0) [0..<nvars g + 1])" if "m \<le> nvars g" for m
    using that
  proof (induction m)
    case 0
    have "replicate (nvars g + 1) 0 = map (\<lambda>i. if i < 0 then start_of g pairs i else 0) [0..<nvars g + 1]"
      by (simp add: map_replicate_const)
    then show ?case by (simp add: start_of_def del: upt_Suc)
  next
    case (Suc m)
    have "(map (\<lambda>i. if i < m then start_of g pairs i else 0) [0..<nvars g + 1])[m := start_of g pairs m] =
      map (\<lambda>i. if i < Suc m then start_of g pairs i else 0) [0..<nvars g + 1]"
      by (rule nth_equalityI) (auto simp: nth_list_update less_Suc_eq simp del: upt_Suc)
    moreover have "[0..<Suc m] = [0..<m] @ [m]" by simp
    ultimately show ?case using Suc assms(1) [of m] by (simp add: start_of_Suc del: upt_Suc)
  qed
  from this [of "nvars g"] show "goto_starts g counts ! i = start_of g pairs i" "length (goto_starts g counts) = nvars g + 1"
    using assms(2) by (simp_all add: goto_starts_def del: upt_Suc)
qed

text \<open>Each pair goes to the next free place of its variable.\<close>

lemma fill_gotos_result:
  assumes "\<And>i j. i < m \<Longrightarrow> j < length (with_index g i pairs) \<Longrightarrow> temp ! i + j < length from"
    and "length to = length from" "length temp \<ge> m" "\<forall>p \<in> set pairs. fst p - ntokens g < m"
    and "\<And>i i' j j'. i < m \<Longrightarrow> i' < m \<Longrightarrow> i \<noteq> i' \<Longrightarrow> j < length (with_index g i pairs) \<Longrightarrow> j' < length (with_index g i' pairs) \<Longrightarrow>
      temp ! i + j \<noteq> temp ! i' + j'"
  shows "\<exists>temp' from' to'. fill_gotos g pairs (temp, from, to) = (temp', from', to') \<and> length from' = length from \<and> length to' = length from \<and>
    (\<forall>i < m. \<forall>j < length (with_index g i pairs). (from' ! (temp ! i + j), to' ! (temp ! i + j)) = with_index g i pairs ! j) \<and>
    (\<forall>k < length from. (\<forall>i < m. \<forall>j < length (with_index g i pairs). k \<noteq> temp ! i + j) \<longrightarrow> from' ! k = from ! k \<and> to' ! k = to ! k)"
  using assms
proof (induction pairs arbitrary: temp "from" to)
  case Nil
  then show ?case by simp
next
  case (Cons p pairs)
  obtain symbol s1 s2 where p: "p = (symbol, s1, s2)" by (cases p) auto
  let ?i = "symbol - ntokens g"
  define k where "k = temp ! ?i"
  let ?temp = "temp[?i := k + 1]" and ?from = "from[k := s1]" and ?to = "to[k := s2]"
  have im: "?i < m" using Cons.prems(4) p by simp
  then have it: "?i < length temp" using Cons.prems(3) by simp
  have wi: "with_index g i (p # pairs) = (if i = ?i then (s1, s2) # with_index g i pairs else with_index g i pairs)" for i using p by simp
  have shift: "?temp ! i + j = temp ! i + (if i = ?i then Suc j else j)" for i j using it by (simp add: k_def nth_list_update)
  have idx: "(if i = ?i then Suc j else j) < length (with_index g i (p # pairs))" if "j < length (with_index g i pairs)" for i j
    using that unfolding wi by auto
  have kl: "k < length from" using Cons.prems(1) [OF im, of 0] p k_def by simp
  have "\<exists>temp' from' to'. fill_gotos g pairs (?temp, ?from, ?to) = (temp', from', to') \<and> length from' = length ?from \<and> length to' = length ?from \<and>
    (\<forall>i < m. \<forall>j < length (with_index g i pairs). (from' ! (?temp ! i + j), to' ! (?temp ! i + j)) = with_index g i pairs ! j) \<and>
    (\<forall>k < length ?from. (\<forall>i < m. \<forall>j < length (with_index g i pairs). k \<noteq> ?temp ! i + j) \<longrightarrow> from' ! k = ?from ! k \<and> to' ! k = ?to ! k)"
  proof (rule Cons.IH)
    show "?temp ! i + j < length ?from" if "i < m" "j < length (with_index g i pairs)" for i j
      using Cons.prems(1) [OF that(1) idx [OF that(2)]] shift by simp
    show "?temp ! i + j \<noteq> ?temp ! i' + j'" if "i < m" "i' < m" "i \<noteq> i'" "j < length (with_index g i pairs)" "j' < length (with_index g i' pairs)" for i i' j j'
      using Cons.prems(5) [OF that(1-3) idx [OF that(4)] idx [OF that(5)]] shift by simp
  qed (use Cons.prems in auto)
  then obtain temp' from' to' where IH: "fill_gotos g pairs (?temp, ?from, ?to) = (temp', from', to')" "length from' = length from" "length to' = length from"
    and here: "\<And>i j. i < m \<Longrightarrow> j < length (with_index g i pairs) \<Longrightarrow> (from' ! (?temp ! i + j), to' ! (?temp ! i + j)) = with_index g i pairs ! j"
    and other: "\<And>k. k < length from \<Longrightarrow> \<forall>i < m. \<forall>j < length (with_index g i pairs). k \<noteq> ?temp ! i + j \<Longrightarrow> from' ! k = ?from ! k \<and> to' ! k = ?to ! k"
    by auto
  have k_other: "\<forall>i < m. \<forall>j < length (with_index g i pairs). k \<noteq> ?temp ! i + j"
  proof (intro allI impI)
    fix i j assume i: "i < m" "j < length (with_index g i pairs)"
    show "k \<noteq> ?temp ! i + j"
    proof (cases "i = ?i")
      case False
      have "0 < length (with_index g ?i (p # pairs))" using p by simp
      from Cons.prems(5) [OF im i(1) _ this idx [OF i(2)]] False show ?thesis by (simp add: k_def)
    qed (use it in \<open>simp add: k_def\<close>)
  qed
  have "fill_gotos g (p # pairs) (temp, from, to) = (temp', from', to')" using IH(1) p by (simp add: Let_def k_def)
  moreover have "(from' ! (temp ! i + j), to' ! (temp ! i + j)) = with_index g i (p # pairs) ! j"
    if i: "i < m" "j < length (with_index g i (p # pairs))" for i j
  proof (cases "i = ?i \<and> j = 0")
    case True
    then show ?thesis using other [OF kl k_other] kl Cons.prems(2) p by (simp add: k_def)
  next
    case False
    define j' where "j' = (if i = ?i then j - 1 else j)"
    have j': "j = (if i = ?i then Suc j' else j')" "j' < length (with_index g i pairs)" using False i(2) unfolding wi by (auto simp: j'_def split: if_splits)
    have "temp ! i + j = ?temp ! i + j'" "with_index g i (p # pairs) ! j = with_index g i pairs ! j'" using j'(1) shift unfolding wi by auto
    then show ?thesis using here [OF i(1) j'(2)] by simp
  qed
  moreover have "from' ! l = from ! l \<and> to' ! l = to ! l"
    if l: "l < length from" "\<forall>i < m. \<forall>j < length (with_index g i (p # pairs)). l \<noteq> temp ! i + j" for l
  proof -
    have "\<forall>i < m. \<forall>j < length (with_index g i pairs). l \<noteq> ?temp ! i + j"
      using l(2) idx unfolding shift by blast
    moreover have "l \<noteq> k" using l(2) [rule_format, OF im, of 0] p by (simp add: k_def)
    ultimately show ?thesis using other [OF l(1)] by simp
  qed
  ultimately show ?case using IH(2,3) by blast
qed

section \<open>The pairs of a state and a variable\<close>

lemma takeWhile_decreasing:
  "sorted_wrt (\<lambda>x y. f y < f x) xs \<Longrightarrow> takeWhile (\<lambda>x. \<not> f x < n) xs = filter (\<lambda>x. \<not> f x < n) xs" for f :: "'a \<Rightarrow> nat"
proof (induction xs)
  case (Cons x xs)
  have "filter (\<lambda>x. \<not> f x < n) xs = []" if "f x < n" using Cons.prems that by (auto simp: filter_empty_conv)
  then show ?case using Cons by auto
qed simp

lemma goto_pairs_filter:
  assumes g: "grammar_ok g" and cs: "cores_ok g cs" and sl: "shifts_ok g cs (length cs) sl"
  shows "goto_pairs g (set_accessing_symbol cs) sl =
    concat (map (\<lambda>sp. map (\<lambda>q. (core_symbol (cs ! q), shifts_number sp, q))
      (filter (\<lambda>q. \<not> core_symbol (cs ! q) < start_symbol g) (rev (shift sp)))) sl)" (is "_ = concat (map ?f sl)")
    "\<And>sp. sp \<in> set sl \<Longrightarrow> shifts_number sp < length cs \<and> shifts_of (set_shift_table (length cs) sl) (shifts_number sp) = shift sp"
    "\<And>sp. sp \<in> set sl \<Longrightarrow> sorted_wrt (\<lambda>x y. core_symbol (cs ! x) < core_symbol (cs ! y)) (shift sp)"
    "sorted_wrt (<) (map shifts_number sl)"
    "\<And>sp q. sp \<in> set sl \<Longrightarrow> q \<in> set (shift sp) \<Longrightarrow> q < length cs"
proof -
  have nums: "map shifts_number sl = filter (\<lambda>c. goto_symbols g (items_of cs c) \<noteq> {}) [0..<length cs]"
    using sl unfolding shifts_ok_def by blast
  show "sorted_wrt (<) (map shifts_number sl)" unfolding nums by (simp add: sorted_wrt_filter)
  have dis: "distinct (map shifts_number sl)" using nums by simp
  have lt: "shifts_number sp < length cs" if "sp \<in> set sl" for sp
  proof -
    have "shifts_number sp \<in> set (map shifts_number sl)" using that by simp
    then show ?thesis unfolding nums by simp
  qed
  have "set_shift_table (length cs) sl ! shifts_number sp = Some sp" if "sp \<in> set sl" for sp
    using fold_table_nth [OF dis _ that, of "replicate (length cs) None" Some] lt by (simp add: set_shift_table_def)
  then show so: "shifts_number sp < length cs \<and> shifts_of (set_shift_table (length cs) sl) (shifts_number sp) = shift sp" if "sp \<in> set sl" for sp
    using lt that by (simp add: shifts_of_def)
  show inc: "sorted_wrt (\<lambda>x y. core_symbol (cs ! x) < core_symbol (cs ! y)) (shift sp)" if "sp \<in> set sl" for sp
  proof -
    have "map (\<lambda>q. core_symbol (cs ! q)) (shift sp) = sorted_list_of_set (goto_symbols g (items_of cs (shifts_number sp)))"
      using shift_table_moves(2) [OF g cs sl, of "shifts_number sp"] so [OF that] by simp
    then have "sorted_wrt (<) (map (\<lambda>q. core_symbol (cs ! q)) (shift sp))" by simp
    then show ?thesis by (simp add: sorted_wrt_map)
  qed
  show ql: "q < length cs" if "sp \<in> set sl" "q \<in> set (shift sp)" for sp q
    using shift_table_moves(1) [OF g cs sl, of "shifts_number sp" "core_symbol (cs ! q)" q] so [OF that(1)] that(2) moves_symbol by auto
  have "takeWhile (\<lambda>q. \<not> ISTOKEN g (int (set_accessing_symbol cs ! q))) (rev (shift sp)) =
      filter (\<lambda>q. \<not> core_symbol (cs ! q) < start_symbol g) (rev (shift sp))" if "sp \<in> set sl" for sp
  proof -
    have "takeWhile (\<lambda>q. \<not> ISTOKEN g (int (set_accessing_symbol cs ! q))) (rev (shift sp)) =
        takeWhile (\<lambda>q. \<not> core_symbol (cs ! q) < start_symbol g) (rev (shift sp))"
      by (rule takeWhile_cong) (use ql [OF that] accessing_symbol_core(2) [OF cs] in \<open>auto simp: ISTOKEN_def\<close>)
    also have "\<dots> = filter (\<lambda>q. \<not> core_symbol (cs ! q) < start_symbol g) (rev (shift sp))"
      using inc [OF that] by (intro takeWhile_decreasing) (simp add: sorted_wrt_rev)
    finally show ?thesis .
  qed
  then have "map (\<lambda>q. (set_accessing_symbol cs ! q, shifts_number sp, q)) (takeWhile (\<lambda>q. \<not> ISTOKEN g (int (set_accessing_symbol cs ! q))) (rev (shift sp))) = ?f sp"
    if "sp \<in> set sl" for sp using that ql accessing_symbol_core(2) [OF cs] by auto
  then show "goto_pairs g (set_accessing_symbol cs) sl = concat (map ?f sl)"
    unfolding goto_pairs_def by (metis (no_types, lifting) map_cong)
qed

lemma goto_pairs_moves:
  assumes g: "grammar_ok g" and cs: "cores_ok g cs" and sl: "shifts_ok g cs (length cs) sl"
  shows "(X, p, q) \<in> set (goto_pairs g (set_accessing_symbol cs) sl) \<longleftrightarrow> start_symbol g \<le> X \<and> moves g cs p X q"
proof
  note gp = goto_pairs_filter [OF g cs sl]
  let ?t = "set_shift_table (length cs) sl"
  {
    assume "(X, p, q) \<in> set (goto_pairs g (set_accessing_symbol cs) sl)"
    then obtain sp where sp: "sp \<in> set sl" "q \<in> set (shift sp)" "X = core_symbol (cs ! q)" "p = shifts_number sp" "start_symbol g \<le> X"
      unfolding gp(1) by auto
    then show "start_symbol g \<le> X \<and> moves g cs p X q"
      using shift_table_moves(1) [OF g cs sl, of p X q] gp(2) [OF sp(1)] by simp
  }
  assume m: "start_symbol g \<le> X \<and> moves g cs p X q"
  then have p: "p < length cs" and q: "q \<in> set (shifts_of ?t p)" "core_symbol (cs ! q) = X"
    using moves_symbol shift_table_moves(1) [OF g cs sl, of p X q] by auto
  then obtain sp where sp: "?t ! p = Some sp" by (cases "?t ! p") (simp_all add: shifts_of_def)
  then have "sp \<in> set sl" "shifts_number sp = p" using shift_table_moves(4) [OF g cs sl p] by auto
  then show "(X, p, q) \<in> set (goto_pairs g (set_accessing_symbol cs) sl)"
    unfolding gp(1) using q m sp by (force simp: shifts_of_def)
qed

lemma sorted_concat:
  assumes "sorted_wrt (<) (map num xs)" and "\<And>x. x \<in> set xs \<Longrightarrow> length (block x) \<le> 1" and "\<And>x y. x \<in> set xs \<Longrightarrow> y \<in> set (block x) \<Longrightarrow> fst y = num x"
  shows "sorted_wrt (<) (map fst (concat (map block xs)))"
  using assms
proof (induction xs)
  case (Cons x xs)
  have "sorted_wrt (<) (map fst (block x))" using Cons.prems(2) [of x] by (cases "block x") auto
  moreover have "a < b" if ab: "a \<in> set (map fst (block x))" "b \<in> set (map fst (concat (map block xs)))" for a b
  proof -
    obtain y where "y \<in> set xs" "b = num y" using ab(2) Cons.prems(3) by fastforce
    moreover have "a = num x" using ab(1) Cons.prems(3) [of x] by auto
    ultimately show ?thesis using Cons.prems(1) by auto
  qed
  ultimately show ?case using Cons by (auto simp: sorted_wrt_append)
qed simp

lemma filter_one:
  assumes "sorted_wrt (\<lambda>x y. f x \<noteq> f y) xs"
  shows "length (filter (\<lambda>x. f x = a) xs) \<le> 1"
  using assms
proof (induction xs)
  case (Cons x xs)
  have "filter (\<lambda>y. f y = a) xs = []" if "f x = a" using Cons.prems that by (auto simp: filter_empty_conv)
  then show ?case using Cons by auto
qed simp

text \<open>For each variable the states come in order, each once.\<close>

lemma goto_pairs_sorted:
  assumes g: "grammar_ok g" and cs: "cores_ok g cs" and sl: "shifts_ok g cs (length cs) sl"
  shows "sorted_wrt (<) (map fst (with_index g i (goto_pairs g (set_accessing_symbol cs) sl)))"
proof -
  note gp = goto_pairs_filter [OF g cs sl] and d = grammar_okD [OF g]
  define block where "block = (\<lambda>sp :: shifts. with_index g i (map (\<lambda>q. (core_symbol (cs ! q), shifts_number sp, q))
      (filter (\<lambda>q. \<not> core_symbol (cs ! q) < start_symbol g) (rev (shift sp)))))"
  have "with_index g i (goto_pairs g (set_accessing_symbol cs) sl) = concat (map block sl)"
    unfolding gp(1) block_def by (simp add: filter_concat map_concat comp_def)
  moreover have "length (block sp) \<le> 1" if "sp \<in> set sl" for sp
  proof -
    have "sorted_wrt (\<lambda>x y. core_symbol (cs ! x) - ntokens g \<noteq> core_symbol (cs ! y) - ntokens g)
        (filter (\<lambda>q. \<not> core_symbol (cs ! q) < start_symbol g) (rev (shift sp)))"
    proof -
      have "sorted_wrt (\<lambda>x y. core_symbol (cs ! y) < core_symbol (cs ! x)) (filter (\<lambda>q. \<not> core_symbol (cs ! q) < start_symbol g) (rev (shift sp)))"
        using gp(3) [OF that] by (intro sorted_wrt_filter) (simp add: sorted_wrt_rev)
      then show ?thesis by (rule sorted_wrt_mono_rel [rotated]) (use d(1) in auto)
    qed
    from filter_one [OF this, of i] show ?thesis by (simp add: block_def filter_map comp_def)
  qed
  moreover have "fst y = shifts_number sp" if "y \<in> set (block sp)" for y sp using that by (auto simp: block_def)
  ultimately show ?thesis using sorted_concat [OF gp(4), of block] by simp
qed

lemma distinct_goto_pairs:
  assumes g: "grammar_ok g" and cs: "cores_ok g cs" and sl: "shifts_ok g cs (length cs) sl"
  shows "distinct (goto_pairs g (set_accessing_symbol cs) sl)"
proof -
  note gp = goto_pairs_filter [OF g cs sl]
  have dis: "distinct (shift sp)" if "sp \<in> set sl" for sp
    using gp(3) [OF that] unfolding distinct_conv_nth sorted_wrt_iff_nth_less by (metis nat_neq_iff)
  have nums: "distinct (map shifts_number sl)" using gp(4) strict_sorted_iff by blast
  show ?thesis unfolding gp(1) using dis nums
  proof (induction sl)
    case (Cons sp sl)
    then show ?case by (auto simp: distinct_map inj_on_def)
  qed simp
qed

section \<open>The binary search\<close>

lemma map_goto_loop_finds:
  assumes inc: "\<And>a b. lo \<le> a \<Longrightarrow> a < b \<Longrightarrow> b < hi \<Longrightarrow> from ! a < from ! b" and hi: "hi \<le> length from"
    and i: "lo \<le> i" "i < hi" "from ! i = state"
    and range: "int lo \<le> low" "low \<le> int i" "int i \<le> high" "high \<le> int hi"
  shows "map_goto_loop from state low high = Some i"
  using range
proof (induction "nat (high - low)" arbitrary: low high rule: less_induct)
  case less
  define middle where "middle = (low + high) div 2"
  define m where "m = nat middle"
  have mid: "low \<le> middle" "middle \<le> high" "middle < int hi" using less.prems i(2) by (auto simp: middle_def)
  have m: "middle = int m" "lo \<le> m" "m < hi" "m < length from" using mid less.prems(1) hi by (auto simp: m_def)
  have step: "map_goto_loop from state low high =
    (if from ! m = state then Some m else if from ! m < state then map_goto_loop from state (middle + 1) high
     else map_goto_loop from state low (middle - 1))"
  proof -
    have "\<not> high < low" "\<not> (middle < 0 \<or> int (length from) \<le> middle)" using mid m by linarith+
    then show ?thesis
      unfolding map_goto_loop.simps [of "from" state low high] Let_def middle_def [symmetric] m_def [symmetric] by (simp only: if_False)
  qed
  consider "m = i" | "m < i" | "i < m" by linarith
  then show ?case
  proof cases
    case 1
    then show ?thesis using step i(3) by simp
  next
    case 2
    then have lt: "from ! m < state" using inc [of m i] m(2) i by simp
    have "map_goto_loop from state (middle + 1) high = Some i"
      by (rule less.hyps) (use less.prems mid m 2 in linarith)+
    then show ?thesis using step lt by simp
  next
    case 3
    then have lt: "state < from ! m" using inc [of i m] m(3) i by simp
    have "map_goto_loop from state low (middle - 1) = Some i"
      by (rule less.hyps) (use less.prems mid m 3 in linarith)+
    then show ?thesis using step lt by simp
  qed
qed

section \<open>The numbers of the gotos\<close>

definition goto_tables_ok :: "grammar \<Rightarrow> core list \<Rightarrow> goto_tables \<Rightarrow> bool" where
  "goto_tables_ok g cs gt \<longleftrightarrow> length (to_state gt) = length (from_state gt) \<and> length (from_state gt) \<le> MAXSHORT \<and>
     (\<forall>i < length (from_state gt). start_symbol g \<le> core_symbol (cs ! (to_state gt ! i)) \<and>
        moves g cs (from_state gt ! i) (core_symbol (cs ! (to_state gt ! i))) (to_state gt ! i) \<and>
        map_goto g gt (from_state gt ! i) (core_symbol (cs ! (to_state gt ! i))) = Some i) \<and>
     (\<forall>p X q. start_symbol g \<le> X \<longrightarrow> moves g cs p X q \<longrightarrow> (\<exists>i < length (from_state gt). from_state gt ! i = p \<and> to_state gt ! i = q)) \<and>
     (\<forall>q. moves g cs 0 (start_symbol g + 1) q \<longrightarrow> from_state gt ! 0 = 0 \<and> to_state gt ! 0 = q) \<and>
     (\<forall>X k. start_symbol g \<le> X \<longrightarrow> X < nsyms g \<longrightarrow>
        (goto_map gt ! (X - ntokens g) \<le> k \<and> k < goto_map gt ! (X + 1 - ntokens g) \<longleftrightarrow>
         k < length (from_state gt) \<and> core_symbol (cs ! (to_state gt ! k)) = X))"

text \<open>The moves on variables.\<close>

definition goto_set :: "grammar \<Rightarrow> core list \<Rightarrow> (nat \<times> nat \<times> nat) set" where
  "goto_set g cs = {(X, p, q). start_symbol g \<le> X \<and> moves g cs p X q}"

lemma place_exists:
  assumes "k < start_of g pairs m"
  obtains i j where "i < m" "j < length (with_index g i pairs)" "k = start_of g pairs i + j"
  using assms
proof (induction m arbitrary: thesis)
  case 0
  then show ?case by (simp add: start_of_def)
next
  case (Suc m)
  show ?case
  proof (cases "k < start_of g pairs m")
    case True
    show ?thesis by (rule Suc.IH [OF _ True]) (use Suc.prems(1) in \<open>metis less_Suc_eq\<close>)
  next
    case False
    then show ?thesis using Suc.prems(1) [of m "k - start_of g pairs m"] Suc.prems(2) by (simp add: start_of_Suc)
  qed
qed

lemma start_of_all:
  assumes "\<forall>p \<in> set pairs. fst p - ntokens g < m"
  shows "start_of g pairs m = length pairs"
  using assms
proof (induction pairs)
  case Nil
  then show ?case by (simp add: start_of_def)
next
  case (Cons p pairs)
  have "start_of g (p # pairs) m = (\<Sum>k<m. length (with_index g k pairs) + (if k = fst p - ntokens g then 1 else 0))"
    unfolding start_of_def by (intro sum.cong) auto
  also have "\<dots> = start_of g pairs m + 1" using Cons.prems by (simp add: sum.distrib start_of_def)
  finally show ?case using Cons by simp
qed

lemma set_goto_map_result:
  assumes g: "grammar_ok g" and cs: "cores_ok g cs" and sl: "shifts_ok g cs (length cs) sl"
  shows "case set_goto_map g (set_accessing_symbol cs) sl of None \<Rightarrow> MAXSHORT < card (goto_set g cs)
    | Some gt \<Rightarrow> goto_tables_ok g cs gt \<and> length (from_state gt) = card (goto_set g cs)"
proof -
  note d = grammar_okD [OF g]
  define pairs where "pairs = goto_pairs g (set_accessing_symbol cs) sl"
  define n where "n = length pairs"
  have mem: "(X, p, q) \<in> set pairs \<longleftrightarrow> start_symbol g \<le> X \<and> moves g cs p X q" for X p q
    unfolding pairs_def by (rule goto_pairs_moves [OF g cs sl])
  have dis: "distinct pairs" unfolding pairs_def by (rule distinct_goto_pairs [OF g cs sl])
  have "set pairs = goto_set g cs" using mem by (auto simp: goto_set_def)
  then have card: "card (goto_set g cs) = n" using distinct_card [OF dis] by (simp add: n_def)
  have small: "\<forall>p \<in> set pairs. fst p - ntokens g < nvars g"
    using mem moves_bounds [OF g cs] d(1,2,3,4) by fastforce
  define cnt where "cnt = map (\<lambda>i. length (with_index g i pairs)) [0..<nvars g + 1]"
  have cg: "count_gotos g pairs (0, replicate (nvars g + 1) 0) = (if n \<le> MAXSHORT then Some (n, cnt) else None)"
  proof -
    have "map (\<lambda>i. replicate (nvars g + 1) 0 ! i + length (with_index g i pairs)) [0..<nvars g + 1] = cnt"
      unfolding cnt_def by (rule map_cong) (simp_all del: upt_Suc add: nth_Cons')
    moreover have "\<forall>p \<in> set pairs. fst p - ntokens g < length (replicate (nvars g + 1) (0::nat))" using small by auto
    ultimately show ?thesis using count_gotos_result [of pairs g "replicate (nvars g + 1) 0" 0] by (simp add: n_def del: upt_Suc replicate_Suc)
  qed
  show ?thesis
  proof (cases "n \<le> MAXSHORT")
    case False
    then have "set_goto_map g (set_accessing_symbol cs) sl = None" using cg by (simp add: set_goto_map_def pairs_def Let_def)
    then show ?thesis using False card by simp
  next
    case True
    define starts where "starts = (goto_starts g cnt)[nvars g := n]"
    have cnt: "cnt ! i = length (with_index g i pairs)" if "i < nvars g" for i using that by (simp add: cnt_def del: upt_Suc)
    have starts: "starts ! i = start_of g pairs i" if "i \<le> nvars g" for i
    proof (cases "i = nvars g")
      case True
      then show ?thesis using start_of_all [OF small] goto_starts_result(2) [OF cnt, of 0] d(4) by (simp add: starts_def n_def)
    next
      case False
      then show ?thesis using goto_starts_result(1) [OF cnt, of i] that by (simp add: starts_def)
    qed
    have lstarts: "length starts = nvars g + 1" using goto_starts_result(2) [OF cnt, of 0] d(4) by (simp add: starts_def)
    have within: "start_of g pairs i + j < n" if "i < nvars g" "j < length (with_index g i pairs)" for i j
      using start_of_Suc [of g pairs i] start_of_mono [of "Suc i" "nvars g" g pairs] start_of_all [OF small] that by (simp add: n_def)
    have apart: "start_of g pairs i + j \<noteq> start_of g pairs i' + j'"
      if "i \<noteq> i'" "j < length (with_index g i pairs)" "j' < length (with_index g i' pairs)" for i i' j j'
    proof (cases "i < i'")
      case True
      then show ?thesis using start_of_Suc [of g pairs i] start_of_mono [of "Suc i" i' g pairs] that(2) by simp
    next
      case False
      then show ?thesis using start_of_Suc [of g pairs i'] start_of_mono [of "Suc i'" i g pairs] that by simp
    qed
    have "\<exists>temp' from' to'. fill_gotos g pairs (starts, replicate n 0, replicate n 0) = (temp', from', to') \<and>
      length from' = length (replicate n (0::nat)) \<and> length to' = length (replicate n (0::nat)) \<and>
      (\<forall>i < nvars g. \<forall>j < length (with_index g i pairs). (from' ! (starts ! i + j), to' ! (starts ! i + j)) = with_index g i pairs ! j) \<and>
      (\<forall>k < length (replicate n (0::nat)). (\<forall>i < nvars g. \<forall>j < length (with_index g i pairs). k \<noteq> starts ! i + j) \<longrightarrow>
         from' ! k = replicate n 0 ! k \<and> to' ! k = replicate n 0 ! k)"
      by (rule fill_gotos_result) (use within apart starts lstarts small in auto)
    then obtain temp' from' to' where fill: "fill_gotos g pairs (starts, replicate n 0, replicate n 0) = (temp', from', to')"
      "length from' = n" "length to' = n"
      and at: "\<And>i j. i < nvars g \<Longrightarrow> j < length (with_index g i pairs) \<Longrightarrow> (from' ! (start_of g pairs i + j), to' ! (start_of g pairs i + j)) = with_index g i pairs ! j"
      using starts by auto
    define gt where "gt = \<lparr> goto_map = starts, from_state = from', to_state = to' \<rparr>"
    have result: "set_goto_map g (set_accessing_symbol cs) sl = Some gt"
      using cg True fill(1) by (simp add: set_goto_map_def pairs_def Let_def gt_def starts_def)
    have entry: "from' ! (start_of g pairs i + j) = fst (with_index g i pairs ! j)" "to' ! (start_of g pairs i + j) = snd (with_index g i pairs ! j)"
      if "i < nvars g" "j < length (with_index g i pairs)" for i j
      using at [OF that] by (metis fst_conv, metis snd_conv)
    have entry_mem: "(ntokens g + i, from' ! (start_of g pairs i + j), to' ! (start_of g pairs i + j)) \<in> set pairs"
      if ij: "i < nvars g" "j < length (with_index g i pairs)" for i j
    proof -
      have "with_index g i pairs ! j \<in> set (with_index g i pairs)" using ij(2) by (rule nth_mem)
      then obtain X where "(X, with_index g i pairs ! j) \<in> set pairs" "X - ntokens g = i" by force
      moreover from this have "start_symbol g \<le> X" using mem [of X "fst (with_index g i pairs ! j)" "snd (with_index g i pairs ! j)"] by simp
      ultimately show ?thesis using entry [OF ij] d(1) by auto
    qed
    have finds: "map_goto g gt (from' ! (start_of g pairs i + j)) (ntokens g + i) = Some (start_of g pairs i + j)"
      if ij: "i < nvars g" "j < length (with_index g i pairs)" for i j
    proof -
      have inc: "from' ! a < from' ! b" if ab: "start_of g pairs i \<le> a" "a < b" "b < start_of g pairs (Suc i)" for a b
      proof -
        define a' where "a' = a - start_of g pairs i"
        define b' where "b' = b - start_of g pairs i"
        have "a = start_of g pairs i + a'" "b = start_of g pairs i + b'" "a' < b'" "b' < length (with_index g i pairs)"
          using ab start_of_Suc [of g pairs i] by (auto simp: a'_def b'_def)
        then show ?thesis using entry(1) [OF ij(1)] goto_pairs_sorted [OF g cs sl, of i, folded pairs_def]
          unfolding sorted_wrt_map sorted_wrt_iff_nth_less by simp
      qed
      have hi: "start_of g pairs (Suc i) \<le> length from'"
        using start_of_mono [of "Suc i" "nvars g" g pairs] start_of_all [OF small] ij(1) fill(2) by (simp add: n_def)
      have "map_goto_loop from' (from' ! (start_of g pairs i + j)) (int (start_of g pairs i)) (int (start_of g pairs (Suc i))) =
          Some (start_of g pairs i + j)"
        by (rule map_goto_loop_finds [OF inc hi]) (use ij start_of_Suc [of g pairs i] in auto)
      then show ?thesis using starts [of i] starts [of "Suc i"] ij(1) by (simp add: map_goto_def gt_def)
    qed
    have pair_place: "\<exists>i < nvars g. \<exists>j < length (with_index g i pairs). X = ntokens g + i \<and> from' ! (start_of g pairs i + j) = p \<and> to' ! (start_of g pairs i + j) = q"
      if "(X, p, q) \<in> set pairs" for X p q
    proof -
      define i where "i = X - ntokens g"
      have i: "i < nvars g" "X = ntokens g + i" using small that mem [of X p q] d(1) by (auto simp: i_def)
      have "(p, q) \<in> set (with_index g i pairs)" using that by (force simp: i_def)
      then obtain j where "j < length (with_index g i pairs)" "with_index g i pairs ! j = (p, q)" by (metis in_set_conv_nth)
      then show ?thesis using i entry [OF i(1)] by (metis fst_conv snd_conv)
    qed
    have in_range: "start_of g pairs i \<le> k \<and> k < start_of g pairs (Suc i) \<longleftrightarrow> k < n \<and> core_symbol (cs ! (to' ! k)) = ntokens g + i"
      if i: "i < nvars g" for i k
    proof
      assume k: "start_of g pairs i \<le> k \<and> k < start_of g pairs (Suc i)"
      define j where "j = k - start_of g pairs i"
      have j: "k = start_of g pairs i + j" "j < length (with_index g i pairs)" using k start_of_Suc [of g pairs i] by (auto simp: j_def)
      have "moves g cs (from' ! k) (ntokens g + i) (to' ! k)" using entry_mem [OF i j(2)] mem unfolding j(1) by blast
      then show "k < n \<and> core_symbol (cs ! (to' ! k)) = ntokens g + i" using within [OF i j(2)] moves_symbol unfolding j(1) by blast
    next
      assume k: "k < n \<and> core_symbol (cs ! (to' ! k)) = ntokens g + i"
      then have "k < start_of g pairs (nvars g)" using start_of_all [OF small] by (simp add: n_def)
      then obtain i' j where ij: "i' < nvars g" "j < length (with_index g i' pairs)" "k = start_of g pairs i' + j" by (rule place_exists)
      have "moves g cs (from' ! k) (ntokens g + i') (to' ! k)" using entry_mem [OF ij(1,2)] mem unfolding ij(3) by blast
      then have "core_symbol (cs ! (to' ! k)) = ntokens g + i'" using moves_symbol by blast
      then have "i' = i" using k by simp
      then show "start_of g pairs i \<le> k \<and> k < start_of g pairs (Suc i)" using ij(2,3) start_of_Suc [of g pairs i] by simp
    qed
    have "goto_tables_ok g cs gt"
      unfolding goto_tables_ok_def
    proof (intro conjI allI impI)
      show "length (to_state gt) = length (from_state gt)" "length (from_state gt) \<le> MAXSHORT" using fill True by (simp_all add: gt_def)
      fix k assume "k < length (from_state gt)"
      then have "k < start_of g pairs (nvars g)" using start_of_all [OF small] fill(2) by (simp add: gt_def n_def)
      then obtain i j where ij: "i < nvars g" "j < length (with_index g i pairs)" "k = start_of g pairs i + j" by (rule place_exists)
      have k: "start_symbol g \<le> ntokens g + i" "moves g cs (from' ! k) (ntokens g + i) (to' ! k)"
        using entry_mem [OF ij(1,2)] mem ij(3) by auto
      then have sym: "core_symbol (cs ! (to' ! k)) = ntokens g + i" using moves_symbol by blast
      show "start_symbol g \<le> core_symbol (cs ! (to_state gt ! k))"
        "moves g cs (from_state gt ! k) (core_symbol (cs ! (to_state gt ! k))) (to_state gt ! k)"
        "map_goto g gt (from_state gt ! k) (core_symbol (cs ! (to_state gt ! k))) = Some k"
        using k sym finds [OF ij(1,2)] ij(3) by (simp_all add: gt_def)
    next
      fix p X q assume X: "start_symbol g \<le> X" "moves g cs p X q"
      then obtain i j where ij: "i < nvars g" "j < length (with_index g i pairs)" "from' ! (start_of g pairs i + j) = p" "to' ! (start_of g pairs i + j) = q"
        using pair_place mem by blast
      then show "\<exists>i < length (from_state gt). from_state gt ! i = p \<and> to_state gt ! i = q"
        using within [OF ij(1,2)] fill(2) by (auto simp: gt_def)
    next
      fix q assume m: "moves g cs 0 (start_symbol g + 1) q"
      then have "(start_symbol g + 1, 0, q) \<in> set pairs" using mem by simp
      then obtain i j where ij: "i < nvars g" "j < length (with_index g i pairs)" "start_symbol g + 1 = ntokens g + i"
        "from' ! (start_of g pairs i + j) = 0" "to' ! (start_of g pairs i + j) = q" using pair_place by blast
      have i: "i = 1" using ij(3) d(1) by simp
      have "with_index g 0 pairs = []"
      proof (rule ccontr)
        assume "with_index g 0 pairs \<noteq> []"
        then obtain X p' q' where "(X, p', q') \<in> set pairs" "X - ntokens g = 0" by (auto simp: filter_empty_conv)
        then show False using mem [of X p' q'] moves_bounds(3) [OF g cs] d(1) by fastforce
      qed
      then have s0: "start_of g pairs i = 0" using i by (simp add: start_of_def)
      have "j = 0"
      proof (rule ccontr)
        assume "j \<noteq> 0"
        then have "map fst (with_index g i pairs) ! 0 < map fst (with_index g i pairs) ! j"
          by (intro sorted_wrt_nth_less [OF goto_pairs_sorted [OF g cs sl, of i, folded pairs_def]]) (use ij(2) in simp_all)
        then have "fst (with_index g i pairs ! 0) < fst (with_index g i pairs ! j)" by (simp only: nth_map ij(2) order.strict_trans1 [OF zero_le ij(2)])
        then show False using entry(1) [OF ij(1,2)] ij(4) by simp
      qed
      then show "from_state gt ! 0 = 0" "to_state gt ! 0 = q" using s0 ij(4,5) by (simp_all add: gt_def)
    next
      fix X k assume X: "start_symbol g \<le> X" "X < nsyms g"
      define i where "i = X - ntokens g"
      have i: "i < nvars g" "X = ntokens g + i" "X - ntokens g = i" "X + 1 - ntokens g = Suc i" using X d(1,2) by (auto simp: i_def)
      show "goto_map gt ! (X - ntokens g) \<le> k \<and> k < goto_map gt ! (X + 1 - ntokens g) \<longleftrightarrow>
         k < length (from_state gt) \<and> core_symbol (cs ! (to_state gt ! k)) = X"
        using in_range [OF i(1), of k] starts [of i] starts [of "Suc i"] i(1) fill(2) unfolding i(2-4) gt_def by simp
    qed
    then show ?thesis using result card fill(2) by (simp add: gt_def)
  qed
qed

end
