(* ===== verification/Jay_Lalr_Properties.thy ===== *)
theory Jay_Lalr_Properties
  imports Jay_Gotos
begin

text \<open>
  What \<open>lalr.c\<close> computes: the tokens that can be read after a goto, those that can follow it, and the lookaheads of each
  reduction, as inductive predicates on the LR(0) automaton, and that the tables hold exactly them.
\<close>

section \<open>Specification\<close>

text \<open>A goto is a state with a variable. The tokens that can be read after it: those shifted in the state it leads to, those
  read after a variable there that derives the empty string, and the end of the input after the goal.\<close>

inductive can_read :: "grammar \<Rightarrow> core list \<Rightarrow> nat \<Rightarrow> nat \<Rightarrow> nat \<Rightarrow> bool" for g :: grammar and cs :: "core list" where
  input_end: "moves g cs 0 (start_symbol g + 1) q \<Longrightarrow> can_read g cs 0 (start_symbol g + 1) 0"
| direct: "moves g cs p A q \<Longrightarrow> moves g cs q t s \<Longrightarrow> t < start_symbol g \<Longrightarrow> can_read g cs p A t"
| through: "moves g cs p A q \<Longrightarrow> moves g cs q C s \<Longrightarrow> start_symbol g \<le> C \<Longrightarrow> derives_empty g C \<Longrightarrow> can_read g cs q C t \<Longrightarrow> can_read g cs p A t"

fun walks :: "grammar \<Rightarrow> core list \<Rightarrow> nat \<Rightarrow> nat list \<Rightarrow> nat \<Rightarrow> bool" where
  "walks g cs p [] q \<longleftrightarrow> p = q"
| "walks g cs p (X # Xs) q \<longleftrightarrow> (\<exists>r. moves g cs p X r \<and> walks g cs r Xs q)"

text \<open>What follows a variable at the end of a rule, up to symbols that derive the empty string, is what follows the rule's left-hand side.\<close>

inductive can_follow :: "grammar \<Rightarrow> core list \<Rightarrow> nat \<Rightarrow> nat \<Rightarrow> nat \<Rightarrow> bool" for g :: grammar and cs :: "core list" where
  read: "can_read g cs p A t \<Longrightarrow> can_follow g cs p A t"
| rule_end: "moves g cs p' B q' \<Longrightarrow> can_follow g cs p' B t \<Longrightarrow> 2 \<le> r \<Longrightarrow> r < nrules g \<Longrightarrow> rlhs g ! r = B \<Longrightarrow> rhs g r = Xs @ A # Ys \<Longrightarrow>
    start_symbol g \<le> A \<Longrightarrow> \<forall>Y \<in> set Ys. derives_empty g Y \<Longrightarrow> walks g cs p' Xs p \<Longrightarrow> moves g cs p A q \<Longrightarrow> can_follow g cs p A t"

text \<open>The lookaheads of rule \<open>r\<close> in state \<open>q\<close>.\<close>

definition lalr_lookaheads :: "grammar \<Rightarrow> core list \<Rightarrow> nat \<Rightarrow> nat \<Rightarrow> nat set" where
  "lalr_lookaheads g cs q r = {t. \<exists>p. walks g cs p (rhs g r) q \<and> can_follow g cs p (rlhs g ! r) t}"

section \<open>Facts about the numbers of the gotos\<close>

abbreviation goto_symbol :: "core list \<Rightarrow> goto_tables \<Rightarrow> nat \<Rightarrow> nat" where
  "goto_symbol cs gt i \<equiv> core_symbol (cs ! (to_state gt ! i))"

lemma goto_tables_okD:
  assumes "goto_tables_ok g cs gt"
  shows "length (to_state gt) = length (from_state gt)" "length (from_state gt) \<le> MAXSHORT"
    "\<And>i. i < length (from_state gt) \<Longrightarrow> start_symbol g \<le> goto_symbol cs gt i"
    "\<And>i. i < length (from_state gt) \<Longrightarrow> moves g cs (from_state gt ! i) (goto_symbol cs gt i) (to_state gt ! i)"
    "\<And>i. i < length (from_state gt) \<Longrightarrow> map_goto g gt (from_state gt ! i) (goto_symbol cs gt i) = Some i"
    "\<And>q. moves g cs 0 (start_symbol g + 1) q \<Longrightarrow> from_state gt ! 0 = 0 \<and> to_state gt ! 0 = q"
proof -
  note * = assms [unfolded goto_tables_ok_def]
  show "length (to_state gt) = length (from_state gt)" "length (from_state gt) \<le> MAXSHORT" using * by iprover+
  show "\<And>i. i < length (from_state gt) \<Longrightarrow> start_symbol g \<le> goto_symbol cs gt i"
    "\<And>i. i < length (from_state gt) \<Longrightarrow> moves g cs (from_state gt ! i) (goto_symbol cs gt i) (to_state gt ! i)"
    "\<And>i. i < length (from_state gt) \<Longrightarrow> map_goto g gt (from_state gt ! i) (goto_symbol cs gt i) = Some i" using * by iprover+
  show "\<And>q. moves g cs 0 (start_symbol g + 1) q \<Longrightarrow> from_state gt ! 0 = 0 \<and> to_state gt ! 0 = q" using * by iprover
qed

lemma goto_range:
  assumes "goto_tables_ok g cs gt" "start_symbol g \<le> X" "X < nsyms g"
  shows "set [goto_map gt ! (X - ntokens g)..<goto_map gt ! (X + 1 - ntokens g)] = {k. k < length (from_state gt) \<and> goto_symbol cs gt k = X}"
proof -
  have "\<forall>X k. start_symbol g \<le> X \<longrightarrow> X < nsyms g \<longrightarrow>
        (goto_map gt ! (X - ntokens g) \<le> k \<and> k < goto_map gt ! (X + 1 - ntokens g) \<longleftrightarrow>
         k < length (from_state gt) \<and> goto_symbol cs gt k = X)"
    using assms(1) unfolding goto_tables_ok_def by - (elim conjE, assumption)
  then show ?thesis using assms(2,3) unfolding set_upt by (intro set_eqI) (simp only: atLeastLessThan_iff mem_Collect_eq)
qed

lemma goto_number:
  assumes gt: "goto_tables_ok g cs gt" and X: "start_symbol g \<le> X" "moves g cs p X q"
  obtains i where "i < length (from_state gt)" "from_state gt ! i = p" "to_state gt ! i = q" "goto_symbol cs gt i = X" "map_goto g gt p X = Some i"
proof -
  obtain i where i: "i < length (from_state gt)" "from_state gt ! i = p" "to_state gt ! i = q"
    using gt X unfolding goto_tables_ok_def by blast
  moreover have "goto_symbol cs gt i = X" using i(3) moves_symbol [OF X(2)] by simp
  moreover have "map_goto g gt p X = Some i" using goto_tables_okD(5) [OF gt i(1)] i(2) calculation(4) by simp
  ultimately show thesis by (rule that)
qed

lemma goto_number_unique:
  assumes gt: "goto_tables_ok g cs gt" and "i < length (from_state gt)" "j < length (from_state gt)"
    and "from_state gt ! i = from_state gt ! j" "goto_symbol cs gt i = goto_symbol cs gt j"
  shows "i = j"
  using goto_tables_okD(5) [OF gt] assms(2-) by (metis option.inject)

section \<open>Reads\<close>

text \<open>The shifts on variables are fewer than the gotos, so \<open>edge\<close> has room for the reads.\<close>

lemma variables_bounded:
  assumes gt: "goto_tables_ok g cs gt" and ss: "distinct ss" "\<And>s. s \<in> set ss \<Longrightarrow> start_symbol g \<le> core_symbol (cs ! s) \<and> moves g cs r (core_symbol (cs ! s)) s"
  shows "length ss \<le> length (from_state gt)"
proof -
  have "set ss \<subseteq> (\<lambda>i. to_state gt ! i) ` {..<length (from_state gt)}"
  proof
    fix s assume "s \<in> set ss"
    then obtain i where "i < length (from_state gt)" "to_state gt ! i = s" using goto_number [OF gt] ss(2) by metis
    then show "s \<in> (\<lambda>i. to_state gt ! i) ` {..<length (from_state gt)}" by auto
  qed
  then have "card (set ss) \<le> card {..<length (from_state gt)}" by (rule surj_card_le [rotated]) simp
  then show ?thesis using distinct_card [OF ss(1)] by simp
qed

lemma reads_edges_result:
  assumes gt: "goto_tables_ok g cs gt" and acc: "\<And>s. s \<in> set ss \<Longrightarrow> acc ! s = core_symbol (cs ! s)"
    and ss: "\<And>s. s \<in> set ss \<Longrightarrow> start_symbol g \<le> core_symbol (cs ! s) \<and> moves g cs r (core_symbol (cs ! s)) s"
    and room: "length edge + length ss \<le> length (from_state gt)"
  shows "\<exists>edge'. reads_edges g nul acc gt r ss edge = Some edge' \<and>
    set edge' = set edge \<union> {j. j < length (from_state gt) \<and> from_state gt ! j = r \<and> to_state gt ! j \<in> set ss \<and> nul ! goto_symbol cs gt j}"
  using acc ss room
proof (induction ss arbitrary: edge)
  case (Cons s ss)
  have s: "start_symbol g \<le> core_symbol (cs ! s)" "moves g cs r (core_symbol (cs ! s)) s" using Cons.prems(2) by auto
  obtain e where e: "e < length (from_state gt)" "from_state gt ! e = r" "to_state gt ! e = s" "goto_symbol cs gt e = core_symbol (cs ! s)"
    "map_goto g gt r (core_symbol (cs ! s)) = Some e" by (rule goto_number [OF gt s])
  have only: "j = e" if "j < length (from_state gt)" "from_state gt ! j = r" "to_state gt ! j = s" for j
    using goto_number_unique [OF gt that(1) e(1)] that e by simp
  show ?case
  proof (cases "nul ! core_symbol (cs ! s)")
    case True
    have "store_edge (length (from_state gt)) edge e = Some (edge @ [e])" using Cons.prems(3) by (simp add: store_edge_def)
    then have step: "reads_edges g nul acc gt r (s # ss) edge = reads_edges g nul acc gt r ss (edge @ [e])"
      using True e(5) Cons.prems(1) [of s] by simp
    have "\<exists>edge'. reads_edges g nul acc gt r ss (edge @ [e]) = Some edge' \<and>
      set edge' = set (edge @ [e]) \<union> {j. j < length (from_state gt) \<and> from_state gt ! j = r \<and> to_state gt ! j \<in> set ss \<and> nul ! goto_symbol cs gt j}"
      by (rule Cons.IH) (use Cons.prems in auto)
    moreover have "set (edge @ [e]) \<union> {j. j < length (from_state gt) \<and> from_state gt ! j = r \<and> to_state gt ! j \<in> set ss \<and> nul ! goto_symbol cs gt j} =
      set edge \<union> {j. j < length (from_state gt) \<and> from_state gt ! j = r \<and> to_state gt ! j \<in> set (s # ss) \<and> nul ! goto_symbol cs gt j}"
    proof -
      have "j < length (from_state gt) \<and> from_state gt ! j = r \<and> to_state gt ! j \<in> set (s # ss) \<and> nul ! goto_symbol cs gt j \<longleftrightarrow>
        j = e \<or> j < length (from_state gt) \<and> from_state gt ! j = r \<and> to_state gt ! j \<in> set ss \<and> nul ! goto_symbol cs gt j" for j
        using only [of j] e(1-4) True by (cases "j = e") auto
      then show ?thesis by auto
    qed
    ultimately show ?thesis using step by simp
  next
    case False
    then have step: "reads_edges g nul acc gt r (s # ss) edge = reads_edges g nul acc gt r ss edge" using Cons.prems(1) [of s] by simp
    have "\<exists>edge'. reads_edges g nul acc gt r ss edge = Some edge' \<and>
      set edge' = set edge \<union> {j. j < length (from_state gt) \<and> from_state gt ! j = r \<and> to_state gt ! j \<in> set ss \<and> nul ! goto_symbol cs gt j}"
      by (rule Cons.IH) (use Cons.prems in auto)
    moreover have "{j. j < length (from_state gt) \<and> from_state gt ! j = r \<and> to_state gt ! j \<in> set ss \<and> nul ! goto_symbol cs gt j} =
      {j. j < length (from_state gt) \<and> from_state gt ! j = r \<and> to_state gt ! j \<in> set (s # ss) \<and> nul ! goto_symbol cs gt j}"
    proof -
      have "nul ! goto_symbol cs gt j = nul ! core_symbol (cs ! s)" if "to_state gt ! j = s" for j using that by simp
      then show ?thesis using False by auto
    qed
    ultimately show ?thesis using step by simp
  qed
qed simp

lemma takeWhile_increasing:
  "sorted_wrt (\<lambda>x y. f x < f y) xs \<Longrightarrow>
     takeWhile (\<lambda>x. f x < n) xs = filter (\<lambda>x. f x < n) xs \<and> dropWhile (\<lambda>x. f x < n) xs = filter (\<lambda>x. \<not> f x < n) xs" for f :: "'a \<Rightarrow> nat"
proof (induction xs)
  case (Cons x xs)
  have "filter (\<lambda>x. f x < n) xs = []" "filter (\<lambda>x. \<not> f x < n) xs = xs" if "\<not> f x < n" using Cons.prems that by (auto simp: filter_empty_conv intro!: filter_True)
  then show ?case using Cons by auto
qed simp

text \<open>The row and the reads of one goto.\<close>

lemma initialize_F_goto_result:
  assumes g: "grammar_ok g" and cs: "cores_ok g cs" and sl: "shifts_ok g cs (length cs) sl" and gt: "goto_tables_ok g cs gt"
    and i: "i < length (from_state gt)"
  shows "\<exists>row edge. initialize_F_goto g nul (set_accessing_symbol cs) (set_shift_table (length cs) sl) gt i = Some (row, edge) \<and>
    length row = WORDSIZE (ntokens g) \<and>
    members row = {t. t < start_symbol g \<and> (\<exists>s. moves g cs (to_state gt ! i) t s)} \<and>
    set edge = {j. j < length (from_state gt) \<and> from_state gt ! j = to_state gt ! i \<and> nul ! goto_symbol cs gt j}"
proof -
  note d = grammar_okD [OF g] and acc = accessing_symbol_core [OF cs]
  let ?t = "set_shift_table (length cs) sl" and ?q = "to_state gt ! i" and ?acc = "set_accessing_symbol cs"
  have q: "?q < length cs" using moves_symbol [OF goto_tables_okD(4) [OF gt i]] by simp
  note tm = shift_table_moves [OF g cs sl q]
  show ?thesis
  proof (cases "?t ! ?q")
    case None
    then have "\<not> moves g cs ?q X s" for X s using tm(1) by (simp add: shifts_of_def)
    then have "{j. j < length (from_state gt) \<and> from_state gt ! j = ?q \<and> nul ! goto_symbol cs gt j} = {}"
      using goto_tables_okD(4) [OF gt] by force
    then show ?thesis using None \<open>\<And>X s. \<not> moves g cs ?q X s\<close> by (simp add: initialize_F_goto_def Let_def)
  next
    case (Some sp)
    then have so: "shifts_of ?t ?q = shift sp" by (simp add: shifts_of_def)
    have mv: "moves g cs ?q (core_symbol (cs ! s)) s" if "s \<in> set (shift sp)" for s using tm(1) so that by simp
    have lt: "s < length cs" if "s \<in> set (shift sp)" for s using moves_symbol [OF mv [OF that]] by simp
    have "map (\<lambda>q. core_symbol (cs ! q)) (shift sp) = sorted_list_of_set (goto_symbols g (items_of cs ?q))" using tm(2) so by simp
    then have inc: "sorted_wrt (\<lambda>x y. core_symbol (cs ! x) < core_symbol (cs ! y)) (shift sp)"
      by (metis sorted_wrt_map strict_sorted_list_of_set)
    then have dist: "distinct (shift sp)" unfolding distinct_conv_nth sorted_wrt_iff_nth_less by (metis nat_neq_iff)
    let ?P = "\<lambda>s. \<not> ISVAR g (int (?acc ! s))"
    have P: "?P s \<longleftrightarrow> core_symbol (cs ! s) < start_symbol g" if "s \<in> set (shift sp)" for s using acc(2) [OF lt [OF that]] by (auto simp: ISVAR_def)
    have tw: "takeWhile ?P (shift sp) = filter (\<lambda>s. core_symbol (cs ! s) < start_symbol g) (shift sp)"
      "dropWhile ?P (shift sp) = filter (\<lambda>s. \<not> core_symbol (cs ! s) < start_symbol g) (shift sp)"
      using takeWhile_increasing [OF inc, of "start_symbol g"] P by (metis (no_types, lifting) takeWhile_cong, metis (no_types, lifting) dropWhile_cong)
    define rest where "rest = filter (\<lambda>s. \<not> core_symbol (cs ! s) < start_symbol g) (shift sp)"
    have rest: "start_symbol g \<le> core_symbol (cs ! s) \<and> moves g cs ?q (core_symbol (cs ! s)) s" if "s \<in> set rest" for s
      using that mv by (auto simp: rest_def)
    have "length rest \<le> length (from_state gt)" by (rule variables_bounded [OF gt _ rest]) (simp_all add: rest_def dist)
    then obtain edge where edge: "reads_edges g nul ?acc gt ?q rest [] = Some edge"
      "set edge = {j. j < length (from_state gt) \<and> from_state gt ! j = ?q \<and> to_state gt ! j \<in> set rest \<and> nul ! goto_symbol cs gt j}"
      using reads_edges_result [OF gt _ rest, of rest ?acc "[]" nul] acc(2) lt by (auto simp: rest_def)
    have "to_state gt ! j \<in> set rest" if "j < length (from_state gt)" "from_state gt ! j = ?q" for j
      using goto_tables_okD(3,4) [OF gt that(1)] that(2) tm(1) so by (auto simp: rest_def)
    then have edge_set: "set edge = {j. j < length (from_state gt) \<and> from_state gt ! j = ?q \<and> nul ! goto_symbol cs gt j}" using edge(2) by auto
    define row where "row = fold (\<lambda>s rowp. SETBIT rowp (?acc ! s)) (takeWhile ?P (shift sp)) (replicate (WORDSIZE (ntokens g)) 0)"
    have small: "?acc ! s < 32 * length (replicate (WORDSIZE (ntokens g)) (0::guint32))" if "s \<in> set (takeWhile ?P (shift sp))" for s
      using that WORDSIZE_enough [of "ntokens g"] acc(2) lt d(1) unfolding tw by auto
    have row: "length row = WORDSIZE (ntokens g)" "members row = (\<lambda>s. ?acc ! s) ` set (takeWhile ?P (shift sp))"
      using fold_SETBIT [of "takeWhile ?P (shift sp)" "\<lambda>_. True" "\<lambda>s. ?acc ! s" "replicate (WORDSIZE (ntokens g)) 0"] small
      by (simp_all add: row_def)
    have "members row = {t. t < start_symbol g \<and> (\<exists>s. moves g cs ?q t s)}"
      unfolding row(2) tw using acc(2) lt tm(1) so by force
    then show ?thesis using Some edge(1) edge_set row(1) tw(2) by (simp add: initialize_F_goto_def Let_def row_def rest_def)
  qed
qed

lemma moves_exists:
  assumes g: "grammar_ok g" and cs: "cores_ok g cs" and sl: "shifts_ok g cs (length cs) sl" and p: "p < length cs"
    and X: "X \<in> goto_symbols g (items_of cs p)"
  obtains q where "moves g cs p X q"
proof -
  have "finite (goto_symbols g (items_of cs p))"
    using finite_goto_symbols [OF g] lr0_kernels_items(1) [OF g cores_okD(6) [OF cs p]] by blast
  then have "X \<in> set (map (\<lambda>q. core_symbol (cs ! q)) (shifts_of (set_shift_table (length cs) sl) p))"
    unfolding shift_table_moves(2) [OF g cs sl p] using X by simp
  then show thesis using that shift_table_moves(1) [OF g cs sl p] by auto
qed

lemma goal_goto:
  assumes g: "grammar_ok g" and cs: "cores_ok g cs" and sl: "shifts_ok g cs (length cs) sl"
  obtains q where "moves g cs 0 (start_symbol g + 1) q"
proof (rule moves_exists [OF g cs sl, of 0 "start_symbol g + 1"])
  show "0 < length cs" using cores_okD(1) [OF cs] by simp
  have "rrhs g ! 2 \<in> lr0_closure g (items_of cs 0)" using cores_okD(2) [OF cs] by (auto intro: lr0_closure.nucleus)
  then show "start_symbol g + 1 \<in> goto_symbols g (items_of cs 0)"
    using grammar_first_rules(2,8) [OF g] by (auto simp: goto_symbols_def intro!: bexI [of _ "rrhs g ! 2"])
qed

lemma all_options_map:
  assumes "\<And>x. x \<in> set xs \<Longrightarrow> \<exists>y. f x = Some y \<and> P x y"
  shows "\<exists>ys. all_options (map f xs) = Some ys \<and> list_all2 P xs ys"
  using assms
proof (induction xs)
  case (Cons x xs)
  obtain y where y: "f x = Some y" "P x y" using Cons.prems [of x] by auto
  moreover obtain ys where "all_options (map f xs) = Some ys" "list_all2 P xs ys" using Cons by auto
  ultimately show ?case by auto
qed simp

text \<open>The first \<open>digraph\<close> gives the tokens that can be read after each goto.\<close>

lemma reads_reach:
  assumes gt: "goto_tables_ok g cs gt" and goal: "moves g cs 0 (start_symbol g + 1) q0"
    and R: "length R = length (from_state gt)"
      "\<And>i. i < length R \<Longrightarrow> set (R ! i) = {j. j < length R \<and> from_state gt ! j = to_state gt ! i \<and> derives_empty g (goto_symbol cs gt j)}"
    and F: "\<And>i. i < length R \<Longrightarrow> members (F ! i) = {t. t < start_symbol g \<and> (\<exists>s. moves g cs (to_state gt ! i) t s)} \<union> (if i = 0 then {0} else {})"
    and i: "i < length R"
  shows "reach_union R F i = {t. can_read g cs (from_state gt ! i) (goto_symbol cs gt i) t}"
proof (intro equalityI subsetI)
  note d = goto_tables_okD [OF gt]
  have zero: "from_state gt ! 0 = 0" "to_state gt ! 0 = q0" "goto_symbol cs gt 0 = start_symbol g + 1"
    using d(6) [OF goal] moves_symbol [OF goal] by auto
  have mv: "moves g cs (from_state gt ! j) (goto_symbol cs gt j) (to_state gt ! j)" if "j < length R" for j using d(4) that R(1) by simp
  {
    fix t assume "t \<in> reach_union R F i"
    then obtain u where u: "(i, u) \<in> (edges R)\<^sup>*" "t \<in> members (F ! u)" by (auto simp: reach_union_def)
    from u(1) i have "u < length R \<and> can_read g cs (from_state gt ! i) (goto_symbol cs gt i) t"
    proof (induction rule: converse_rtrancl_induct)
      case base
      consider "t < start_symbol g" "\<exists>s. moves g cs (to_state gt ! u) t s" | "u = 0" "t = 0"
        using u(2) F [OF base] by (auto split: if_splits)
      then have "can_read g cs (from_state gt ! u) (goto_symbol cs gt u) t"
      proof cases
        case 1
        then show ?thesis using can_read.direct [OF mv [OF base]] by blast
      next
        case 2
        then show ?thesis using can_read.input_end [OF goal] zero by simp
      qed
      then show ?case using base by simp
    next
      case (step i j)
      then have j: "j \<in> set (R ! i)" "i < length R" by (auto simp: edges_def)
      then have jl: "j < length R" "from_state gt ! j = to_state gt ! i" "derives_empty g (goto_symbol cs gt j)" using R(2) by auto
      moreover have "start_symbol g \<le> goto_symbol cs gt j" using d(3) jl(1) R(1) by simp
      ultimately show ?case using can_read.through [OF mv [OF j(2)]] mv [OF jl(1)] step.IH [OF jl(1)] by metis
    qed
    then show "t \<in> {t. can_read g cs (from_state gt ! i) (goto_symbol cs gt i) t}" by simp
  }
  fix t assume "t \<in> {t. can_read g cs (from_state gt ! i) (goto_symbol cs gt i) t}"
  then have "can_read g cs (from_state gt ! i) (goto_symbol cs gt i) t" by simp
  moreover have "t \<in> reach_union R F i" if "can_read g cs p A t" "i < length R" "from_state gt ! i = p" "goto_symbol cs gt i = A" for p A i
    using that
  proof (induction arbitrary: i)
    case (input_end q)
    have "0 < length (from_state gt)" "i < length (from_state gt)" using input_end(2) R(1) by linarith+
    then have "i = 0" using goto_number_unique [OF gt, of i 0] input_end zero by simp
    then show ?case using reach_union_self [of F i R] F [OF input_end(2)] by auto
  next
    case (direct p A q t s)
    have "to_state gt ! i = q" using mv [OF direct(4)] direct(1,5,6) goto_number [OF gt _ direct(1)] d(3) [of i] goto_number_unique [OF gt] R(1) direct(4)
      by metis
    then have "t \<in> members (F ! i)" using F [OF direct(4)] direct(2,3) by auto
    then show ?case using reach_union_self by blast
  next
    case (through p A q C s t)
    have i: "i < length R" using through.prems(1) .
    have "to_state gt ! i = q" using mv [OF i] through goto_number [OF gt _ through.hyps(1)] d(3) [of i] goto_number_unique [OF gt] R(1) i by metis
    moreover obtain j where j: "j < length (from_state gt)" "from_state gt ! j = q" "to_state gt ! j = s" "goto_symbol cs gt j = C"
      by (rule goto_number [OF gt through.hyps(3,2)])
    ultimately have "j \<in> set (R ! i)" using R i through.hyps(4) by auto
    then have "(i, j) \<in> (edges R)\<^sup>*" using i by (auto simp: edges_def)
    moreover have "t \<in> reach_union R F j" using through.IH [of j] j R(1) by simp
    ultimately show ?case using reach_union_mono by blast
  qed
  ultimately show "t \<in> reach_union R F i" using i by blast
qed

lemma initialize_F_result:
  assumes g: "grammar_ok g" and cs: "cores_ok g cs" and sl: "shifts_ok g cs (length cs) sl" and gt: "goto_tables_ok g cs gt"
    and nul: "\<And>X. X < nsyms g \<Longrightarrow> nul ! X \<longleftrightarrow> derives_empty g X" and fits: "length (from_state gt) + 2 \<le> MAXSHORT"
  shows "\<exists>F. initialize_F g nul (set_accessing_symbol cs) (set_shift_table (length cs) sl) gt = Some F \<and> length F = length (from_state gt) \<and>
    (\<forall>i < length F. length (F ! i) = WORDSIZE (ntokens g) \<and> members (F ! i) = {t. can_read g cs (from_state gt ! i) (goto_symbol cs gt i) t})"
proof -
  note d = goto_tables_okD [OF gt]
  let ?n = "length (from_state gt)"
  let ?P = "\<lambda>i rp. length (fst rp) = WORDSIZE (ntokens g) \<and> members (fst rp) = {t. t < start_symbol g \<and> (\<exists>s. moves g cs (to_state gt ! i) t s)} \<and>
    set (snd rp) = {j. j < ?n \<and> from_state gt ! j = to_state gt ! i \<and> nul ! goto_symbol cs gt j}"
  have "\<exists>rp. initialize_F_goto g nul (set_accessing_symbol cs) (set_shift_table (length cs) sl) gt i = Some rp \<and> ?P i rp"
    if "i \<in> set [0..<?n]" for i using initialize_F_goto_result [OF g cs sl gt, of i nul] that by auto
  from all_options_map [of "[0..<?n]" _ ?P, OF this] obtain rows where rows:
    "all_options (map (initialize_F_goto g nul (set_accessing_symbol cs) (set_shift_table (length cs) sl) gt) [0..<?n]) = Some rows"
    "list_all2 ?P [0..<?n] rows" by blast
  then have len: "length rows = ?n" and P: "?P i (rows ! i)" if "i < ?n" for i using that by (auto simp: list_all2_conv_all_nth)
  have len: "length rows = ?n" using list_all2_lengthD [OF rows(2)] by simp
  obtain q0 where q0: "moves g cs 0 (start_symbol g + 1) q0" by (rule goal_goto [OF g cs sl])
  obtain i0 where "i0 < ?n" by (rule goto_number [OF gt _ q0]) simp
  then have pos: "0 < ?n" by linarith
  define F where "F = (map fst rows)[0 := SETBIT (map fst rows ! 0) 0]"
  have lenF: "length F = ?n" "length (map snd rows) = ?n" using len by (simp_all add: F_def)
  have rowF: "length (F ! i) = WORDSIZE (ntokens g)" if "i < ?n" for i
    using P [OF that] P [OF pos] len that pos by (cases "i = 0") (simp_all add: F_def)
  have tok: "0 < 32 * length (map fst rows ! 0)" using P [OF pos] len pos WORDSIZE_enough [of "ntokens g"] grammar_okD(3) [OF g] by simp
  have memF: "members (F ! i) = {t. t < start_symbol g \<and> (\<exists>s. moves g cs (to_state gt ! i) t s)} \<union> (if i = 0 then {0} else {})"
    if "i < ?n" for i
    using P [OF that] members_SETBIT [OF tok] len that by (cases "i = 0") (auto simp: F_def)
  have sym: "goto_symbol cs gt j < nsyms g" if "j < ?n" for j using moves_bounds(2) [OF g cs d(4) [OF that]] .
  have R: "set (map snd rows ! i) = {j. j < ?n \<and> from_state gt ! j = to_state gt ! i \<and> derives_empty g (goto_symbol cs gt j)}" if "i < ?n" for i
    using P [OF that] len that nul sym by auto
  obtain F' where F': "digraph ?n (map snd rows) F = Some F'" "length F' = ?n" "\<And>v. v < ?n \<Longrightarrow> length (F' ! v) = WORDSIZE (ntokens g)"
    "\<And>v. v < ?n \<Longrightarrow> members (F' ! v) = reach_union (map snd rows) F v"
  proof (rule digraph_reach_union [of "map snd rows" ?n F "WORDSIZE (ntokens g)"])
    show "length (map snd rows) = ?n" "length F = ?n" using lenF by simp_all
    show "u < ?n" if "v < ?n" "u \<in> set (map snd rows ! v)" for v u using R [OF that(1)] that(2) by simp
    show "length (F ! v) = WORDSIZE (ntokens g)" if "v < ?n" for v by (rule rowF [OF that])
    show "?n + 2 \<le> MAXSHORT" by (rule fits)
  qed (rule that)
  have "reach_union (map snd rows) F i = {t. can_read g cs (from_state gt ! i) (goto_symbol cs gt i) t}" if "i < ?n" for i
    by (rule reads_reach [OF gt q0 lenF(2)]) (use lenF R memF that in simp_all)
  moreover have "initialize_F g nul (set_accessing_symbol cs) (set_shift_table (length cs) sl) gt = Some F'"
    using rows(1) F'(1) pos by (simp add: initialize_F_def Let_def F_def)
  ultimately show ?thesis using F' by auto
qed

section \<open>Walks along a right-hand side\<close>

lemma rhs_items_of_rule:
  assumes g: "grammar_ok g" and r: "2 \<le> r" "r < nrules g"
  shows "takeWhile (\<lambda>item. 0 \<le> item) (drop (rrhs g ! r) (ritem g)) = map int (rhs g r)"
    "length (rhs g r) = rrhs g ! Suc r - 1 - rrhs g ! r" "\<And>k. k < length (rhs g r) \<Longrightarrow> ritem g ! (rrhs g ! r + k) = int (rhs g r ! k)"
    "ritem g ! (rrhs g ! r + length (rhs g r)) = - int r" "rrhs g ! r + length (rhs g r) < nitems g"
proof -
  note st = rrhs_step [OF g r] and d = grammar_okD [OF g]
  have last: "rrhs g ! Suc r \<le> nitems g"
    using rrhs_less [OF g, of "Suc r" "nrules g"] r d(11) by (cases "Suc r = nrules g") auto
  show len: "length (rhs g r) = rrhs g ! Suc r - 1 - rrhs g ! r" by (simp add: rhs_def)
  show nth: "ritem g ! (rrhs g ! r + k) = int (rhs g r ! k)" if "k < length (rhs g r)" for k
    using st(3) [of "rrhs g ! r + k"] that by (simp add: rhs_def)
  show fin: "ritem g ! (rrhs g ! r + length (rhs g r)) = - int r" using st(1,2) by (simp add: len)
  show lt: "rrhs g ! r + length (rhs g r) < nitems g" using st(1) last by (simp add: len)
  have "drop (rrhs g ! r) (ritem g) = map ((!) (ritem g)) [rrhs g ! r..<rrhs g ! r + length (rhs g r)] @ drop (rrhs g ! r + length (rhs g r)) (ritem g)"
    using lt d(7) by (intro drop_split) simp_all
  moreover have "map ((!) (ritem g)) [rrhs g ! r..<rrhs g ! r + length (rhs g r)] = map int (rhs g r)"
    using nth by (intro nth_equalityI) simp_all
  moreover have "drop (rrhs g ! r + length (rhs g r)) (ritem g) = - int r # drop (Suc (rrhs g ! r + length (rhs g r))) (ritem g)"
    using lt d(7) fin by (simp add: Cons_nth_drop_Suc [symmetric])
  moreover have "takeWhile (\<lambda>item. 0 \<le> item) (map int Xs @ - int r # items) = map int Xs" for Xs :: "nat list" and items
    using r(1) by (induction Xs) simp_all
  ultimately show "takeWhile (\<lambda>item. 0 \<le> item) (drop (rrhs g ! r) (ritem g)) = map int (rhs g r)" by simp
qed

lemma maxrhs_bound:
  assumes g: "grammar_ok g" and r: "2 \<le> r" "r < nrules g"
  shows "length (rhs g r) \<le> set_maxrhs g"
proof -
  let ?f = "\<lambda>item (len :: nat, mx :: nat). if 0 \<le> item then (len + 1, mx) else (0, if mx < len then len else mx)"
  let ?seg = "\<lambda>r. map int (rhs g r) @ [- int r]"
  have syms: "fold ?f (map int Xs) (len, mx) = (len + length Xs, mx)" for Xs :: "nat list" and len mx :: nat
    by (induction Xs arbitrary: len) simp_all
  have seg: "fold ?f (?seg q) (0, mx) = (0, max mx (length (rhs g q)))" if "2 \<le> q" for q and mx :: nat
    using that syms [of "rhs g q" 0 mx] by simp
  have folds: "\<exists>m. fold ?f (concat (map ?seg rs)) (0, mx) = (0, m) \<and> mx \<le> m \<and> (\<forall>r \<in> set rs. length (rhs g r) \<le> m)" if "\<forall>r \<in> set rs. 2 \<le> r" for rs and mx :: nat
    using that
  proof (induction rs arbitrary: mx)
    case (Cons q rs)
    have "\<forall>r \<in> set rs. 2 \<le> r" "2 \<le> q" using Cons.prems by simp_all
    from Cons.IH [OF this(1), of "max mx (length (rhs g q))"] obtain m
      where m: "fold ?f (concat (map ?seg rs)) (0, max mx (length (rhs g q))) = (0, m)" "max mx (length (rhs g q)) \<le> m"
      "\<forall>r \<in> set rs. length (rhs g r) \<le> m" by blast
    have "fold ?f (concat (map ?seg (q # rs))) (0, mx) = fold ?f (concat (map ?seg rs)) (fold ?f (?seg q) (0, mx))"
      by (simp only: list.map concat.simps fold_append comp_apply)
    then show ?case using seg [OF \<open>2 \<le> q\<close>, of mx] m by (intro exI [of _ m]) simp
  qed simp
  have "\<forall>r \<in> set [2..<nrules g]. 2 \<le> r" by simp
  from folds [OF this, of 0] obtain m
    where m: "fold ?f (concat (map ?seg [2..<nrules g])) (0, 0) = (0, m)" "\<forall>r \<in> set [2..<nrules g]. length (rhs g r) \<le> m" by blast
  have "0 < length (ritem g)" using grammar_okD(7) [OF g] rrhs_bounds(1) [OF g, of 2] grammar_okD(10) [OF g] by simp
  then have eq: "ritem g = -1 # drop 1 (ritem g)" using Cons_nth_drop_Suc [of 0 "ritem g"] grammar_first_rules(1) [OF g] by simp
  have "fold ?f (ritem g) (0, 0) = fold ?f (drop 1 (ritem g)) (0, 0)" by (subst eq) simp
  then have "set_maxrhs g = m" using m(1) all_items [OF g] by (simp add: set_maxrhs_def)
  then show ?thesis using m(2) r by simp
qed

lemma closure_step:
  assumes g: "grammar_ok g" and cs: "cores_ok g cs" and sl: "shifts_ok g cs (length cs) sl" and p: "p < length cs"
    and k: "k \<in> lr0_closure g (items_of cs p)" "ritem g ! k = int X" "0 < X"
  obtains q where "moves g cs p X q" "Suc k \<in> lr0_closure g (items_of cs q)"
proof -
  have "X \<in> goto_symbols g (items_of cs p)" using k by (auto simp: goto_symbols_def)
  then obtain q where q: "moves g cs p X q" by (rule moves_exists [OF g cs sl p])
  then have "Suc k \<in> items_of cs q" using k by (auto simp: moves_def goes_to_def goto_items_def)
  then show thesis using that [OF q] by (simp add: lr0_closure.nucleus)
qed

lemma walks_unique: "cores_ok g cs \<Longrightarrow> walks g cs p Xs q \<Longrightarrow> walks g cs p Xs q' \<Longrightarrow> q = q'"
  by (induction Xs arbitrary: p) (auto dest: moves_unique)

lemma find_shift_found:
  assumes "q \<in> set ss" "acc ! q = X" "\<And>s. s \<in> set ss \<Longrightarrow> acc ! s = X \<Longrightarrow> s = q"
  shows "find_shift acc (int X) ss z = q"
  using assms
proof (induction ss arbitrary: z)
  case (Cons s ss)
  show ?case
  proof (cases "acc ! s = X")
    case True
    then show ?thesis using Cons.prems(3) [of s] by simp
  next
    case False
    then have "q \<in> set ss" using Cons.prems(1,2) by auto
    moreover have "s' = q" if "s' \<in> set ss" "acc ! s' = X" for s' using Cons.prems(3) [of s'] that by simp
    ultimately have "find_shift acc (int X) ss s = q" using Cons.IH [of s] Cons.prems(2) by blast
    then show ?thesis using False by simp
  qed
qed simp

text \<open>From a state with the goto of its left-hand side a rule can be walked to its end, and the states passed are stored.\<close>

lemma walk_rhs_result:
  assumes g: "grammar_ok g" and cs: "cores_ok g cs" and sl: "shifts_ok g cs (length cs) sl" and r: "3 \<le> r" "r < nrules g"
    and p: "p < length cs" "rrhs g ! r + m \<in> lr0_closure g (items_of cs p)" and Xs: "drop m (rhs g r) = Xs" "m \<le> length (rhs g r)"
    and room: "length states + length Xs \<le> maxrhs + 1"
  shows "\<exists>q new. walk_rhs (set_accessing_symbol cs) (set_shift_table (length cs) sl) maxrhs (map int Xs) p states = Some (q, states @ new) \<and>
    length new = length Xs \<and> q < length cs \<and> walks g cs p Xs q \<and> rrhs g ! r + length (rhs g r) \<in> lr0_closure g (items_of cs q) \<and>
    (\<forall>k \<le> length Xs. walks g cs p (take k Xs) ((p # new) ! k)) \<and> (\<forall>k < length Xs. moves g cs ((p # new) ! k) (Xs ! k) ((p # new) ! Suc k))"
  using p Xs room
proof (induction Xs arbitrary: m p states)
  case Nil
  then show ?case by (intro exI [of _ p] exI [of _ "[]"]) auto
next
  case (Cons X Xs)
  let ?acc = "set_accessing_symbol cs" and ?t = "set_shift_table (length cs) sl"
  have r2: "2 \<le> r" using r(1) by simp
  have m: "m < length (rhs g r)" using Cons.prems(3,4) by (cases "m = length (rhs g r)") auto
  then have X: "rhs g r ! m = X" "drop (Suc m) (rhs g r) = Xs" using Cons.prems(3) by (auto simp: Cons_nth_drop_Suc [symmetric])
  have item: "ritem g ! (rrhs g ! r + m) = int X" using rhs_items_of_rule(3) [OF g r2 r(2) m] X(1) by simp
  have "0 < X"
    using rrhs_step(3) [OF g r2 r(2), of "rrhs g ! r + m"] m rhs_items_of_rule(2) [OF g r2 r(2)] item r(1) by simp
  then obtain q where q: "moves g cs p X q" "Suc (rrhs g ! r + m) \<in> lr0_closure g (items_of cs q)"
    using closure_step [OF g cs sl Cons.prems(1,2) item] by blast
  note tm = shift_table_moves [OF g cs sl Cons.prems(1)]
  have qs: "q \<in> set (shifts_of ?t p)" "core_symbol (cs ! q) = X" using tm(1) q(1) by auto
  then obtain sp where sp: "?t ! p = Some sp" "shifts_of ?t p = shift sp" by (cases "?t ! p") (simp_all add: shifts_of_def)
  have lt: "s < length cs" if "s \<in> set (shift sp)" for s using tm(1) [of "core_symbol (cs ! s)" s] that sp(2) moves_symbol by auto
  have "find_shift ?acc (int X) (shift sp) p = q"
  proof (rule find_shift_found)
    show "q \<in> set (shift sp)" "?acc ! q = X" using qs sp(2) lt accessing_symbol_core(2) [OF cs] by auto
    show "s = q" if "s \<in> set (shift sp)" "?acc ! s = X" for s
    proof -
      have "moves g cs p X s" using tm(1) that sp(2) accessing_symbol_core(2) [OF cs lt [OF that(1)]] by simp
      then show ?thesis using moves_unique [OF cs] q(1) by blast
    qed
  qed
  then have step: "walk_rhs ?acc ?t maxrhs (map int (X # Xs)) p states = walk_rhs ?acc ?t maxrhs (map int Xs) q (states @ [q])"
    using sp(1) Cons.prems(5) by (simp add: Let_def)
  obtain q' new where IH: "walk_rhs ?acc ?t maxrhs (map int Xs) q (states @ [q]) = Some (q', (states @ [q]) @ new)"
    "length new = length Xs" "q' < length cs" "walks g cs q Xs q'" "rrhs g ! r + length (rhs g r) \<in> lr0_closure g (items_of cs q')"
    "\<forall>k \<le> length Xs. walks g cs q (take k Xs) ((q # new) ! k)" "\<forall>k < length Xs. moves g cs ((q # new) ! k) (Xs ! k) ((q # new) ! Suc k)"
    using Cons.IH [of q "Suc m" "states @ [q]"] moves_symbol [OF q(1)] q(2) X(2) m Cons.prems(5) by auto
  have "walks g cs p (take k (X # Xs)) ((p # q # new) ! k)" if "k \<le> length (X # Xs)" for k
    using that IH(6) q(1) by (cases k) auto
  moreover have "moves g cs ((p # q # new) ! k) ((X # Xs) ! k) ((p # q # new) ! Suc k)" if "k < length (X # Xs)" for k
    using that IH(7) q(1) by (cases k) auto
  ultimately show ?case using step IH(1-5) q(1)
    by (intro exI [of _ q'] exI [of _ "q # new"]) auto
qed

section \<open>Places of the reductions\<close>

lemma concat_nth:
  assumes "i < length xss" "j < length (xss ! i)"
  shows "concat xss ! ((\<Sum>k<i. length (xss ! k)) + j) = xss ! i ! j"
  using assms
proof (induction xss arbitrary: i)
  case (Cons xs xss)
  show ?case
  proof (cases i)
    case (Suc i')
    have "(\<Sum>k<i. length ((xs # xss) ! k)) = length xs + (\<Sum>k<i'. length (xss ! k))"
      unfolding Suc by (subst sum.lessThan_Suc_shift) simp
    then show ?thesis using Cons Suc by (simp add: nth_append)
  qed (use Cons in \<open>simp add: nth_append\<close>)
qed simp

definition la_start :: "grammar \<Rightarrow> core list \<Rightarrow> nat \<Rightarrow> nat" where
  "la_start g cs q = (\<Sum>c<q. length (kernel_reductions g (items_of cs c)))"

lemma la_start_Suc: "la_start g cs (Suc q) = la_start g cs q + length (kernel_reductions g (items_of cs q))"
  by (simp add: la_start_def)

lemma la_start_mono: "p \<le> q \<Longrightarrow> la_start g cs p \<le> la_start g cs q"
  by (rule lift_Suc_mono_le [of "la_start g cs"]) (simp_all add: la_start_Suc)

lemma la_place_unique:
  assumes "la_start g cs q + j = la_start g cs q' + j'" "j < length (kernel_reductions g (items_of cs q))" "j' < length (kernel_reductions g (items_of cs q'))"
  shows "q = q'" "j = j'"
proof -
  show "q = q'"
  proof (rule ccontr)
    assume "q \<noteq> q'"
    then consider "Suc q \<le> q'" | "Suc q' \<le> q" by linarith
    then show False
    proof cases
      case 1
      then show False using la_start_mono [OF 1, of g cs] la_start_Suc [of g cs q] assms by simp
    next
      case 2
      then show False using la_start_mono [OF 2, of g cs] la_start_Suc [of g cs q'] assms by simp
    qed
  qed
  then show "j = j'" using assms(1) by simp
qed

lemma lookaheads_loop_nth:
  assumes "i \<le> length rps"
  shows "lookaheads_loop k rps ! i = to_short (int (k + (\<Sum>c<i. length (case rps ! c of None \<Rightarrow> [] | Some rp \<Rightarrow> reduction_rules rp))))"
  using assms
proof (induction rps arbitrary: i k)
  case (Cons rp rps)
  show ?case
  proof (cases i)
    case (Suc i')
    have "(\<Sum>c<i. length (case (rp # rps) ! c of None \<Rightarrow> [] | Some rp \<Rightarrow> reduction_rules rp)) =
      length (case rp of None \<Rightarrow> [] | Some rp \<Rightarrow> reduction_rules rp) + (\<Sum>c<i'. length (case rps ! c of None \<Rightarrow> [] | Some rp \<Rightarrow> reduction_rules rp))"
      unfolding Suc by (subst sum.lessThan_Suc_shift) simp
    then show ?thesis using Cons Suc by (cases rp) (simp_all add: add.assoc)
  qed simp
qed simp

lemma LAruleno_concat:
  assumes rl: "reductions_ok g cs (length cs) rl"
  shows "snd (initialize_LA (set_reduction_table (length cs) rl)) = concat (map (\<lambda>q. kernel_reductions g (items_of cs q)) [0..<length cs])"
proof -
  let ?rt = "set_reduction_table (length cs) rl"
  note rt = reduction_table_rules [OF rl]
  have "map (\<lambda>rp. case rp of None \<Rightarrow> [] | Some rp \<Rightarrow> reduction_rules rp) ?rt = map (\<lambda>q. kernel_reductions g (items_of cs q)) [0..<length cs]" (is "?xss = _")
  proof (rule nth_equalityI)
    show "length ?xss = length (map (\<lambda>q. kernel_reductions g (items_of cs q)) [0..<length cs])"
      by (simp add: set_reduction_table_def)
    fix q assume "q < length ?xss"
    then have q: "q < length cs" by (simp add: set_reduction_table_def)
    then have "length ?rt = length cs" by (simp add: set_reduction_table_def)
    then show "?xss ! q = map (\<lambda>q. kernel_reductions g (items_of cs q)) [0..<length cs] ! q" using q rt(1) [OF q] by simp
  qed
  then show ?thesis by (simp add: initialize_LA_def)
qed

lemma length_LAruleno:
  "reductions_ok g cs (length cs) rl \<Longrightarrow> length (snd (initialize_LA (set_reduction_table (length cs) rl))) = la_start g cs (length cs)"
  by (simp add: LAruleno_concat length_concat comp_def la_start_def interv_sum_list_conv_sum_set_nat atLeast0LessThan)

lemma initialize_LA_result:
  assumes rl: "reductions_ok g cs (length cs) rl" and small: "la_start g cs (length cs) \<le> MAXSHORT"
    and "initialize_LA (set_reduction_table (length cs) rl) = (las, rulenos)"
  shows "length rulenos = la_start g cs (length cs)" "\<And>q. q \<le> length cs \<Longrightarrow> las ! q = int (la_start g cs q)"
    "\<And>q j. q < length cs \<Longrightarrow> j < length (kernel_reductions g (items_of cs q)) \<Longrightarrow> rulenos ! (la_start g cs q + j) = kernel_reductions g (items_of cs q) ! j"
proof -
  let ?rt = "set_reduction_table (length cs) rl"
  note rt = reduction_table_rules [OF rl]
  define xss where "xss = map (\<lambda>q. kernel_reductions g (items_of cs q)) [0..<length cs]"
  have las: "las = lookaheads_loop 0 ?rt" and ru: "rulenos = concat xss"
    using assms(3) LAruleno_concat [OF rl] by (auto simp: initialize_LA_def xss_def)
  have xss: "xss = map (\<lambda>q. kernel_reductions g (items_of cs q)) [0..<length cs]" by (rule xss_def)
  show "length rulenos = la_start g cs (length cs)" using length_LAruleno [OF rl] assms(3) by simp
  show "las ! q = int (la_start g cs q)" if q: "q \<le> length cs" for q
  proof -
    have "las ! q = to_short (int (\<Sum>c<q. length (case ?rt ! c of None \<Rightarrow> [] | Some rp \<Rightarrow> reduction_rules rp)))"
      using lookaheads_loop_nth [of q ?rt 0] q by (simp add: las set_reduction_table_def)
    also have "(\<Sum>c<q. length (case ?rt ! c of None \<Rightarrow> [] | Some rp \<Rightarrow> reduction_rules rp)) = la_start g cs q"
      unfolding la_start_def by (rule sum.cong) (use rt(1) q in auto)
    finally show ?thesis using small la_start_mono [OF q, of g cs] by (simp add: MAXSHORT_def)
  qed
  show "rulenos ! (la_start g cs q + j) = kernel_reductions g (items_of cs q) ! j"
    if q: "q < length cs" and j: "j < length (kernel_reductions g (items_of cs q))" for q j
  proof -
    have "(\<Sum>k<q. length (xss ! k)) = la_start g cs q" unfolding la_start_def by (rule sum.cong) (use q in \<open>auto simp: xss\<close>)
    then show ?thesis using concat_nth [of q xss j] q j by (simp add: ru xss)
  qed
qed

end
