(* ===== verification/Jay_Lookaheads.thy ===== *)
theory Jay_Lookaheads
  imports Jay_Lalr_Properties
begin

text \<open>
  \<open>build_relations\<close>, the second \<open>digraph\<close> and \<open>compute_lookaheads\<close>: the table \<open>LA\<close> holds exactly the lookaheads of every
  reduction, and how much room the arrays of the code leave for that.
\<close>

section \<open>Reductions of a state\<close>

lemma kernel_reductions_facts:
  assumes g: "grammar_ok g" and cs: "cores_ok g cs" and q: "q < length cs"
  shows "distinct (kernel_reductions g (items_of cs q))"
    "r \<in> set (kernel_reductions g (items_of cs q)) \<Longrightarrow> 2 \<le> r \<and> r < nrules g \<and> rrhs g ! r + length (rhs g r) \<in> lr0_closure g (items_of cs q)"
    "2 \<le> r \<Longrightarrow> r < nrules g \<Longrightarrow> rrhs g ! r + length (rhs g r) \<in> lr0_closure g (items_of cs q) \<Longrightarrow> r \<in> set (kernel_reductions g (items_of cs q))"
proof -
  have I: "items_of cs q \<subseteq> {0<..<nitems g}" using lr0_kernels_items(1) [OF g cores_okD(6) [OF cs q]] .
  note cl = lr0_closure_items [OF g I]
  have fin: "finite (lr0_closure g (items_of cs q))" using cl finite_subset by blast
  have item: "2 \<le> nat (- ritem g ! k) \<and> nat (- ritem g ! k) < nrules g \<and> k = rrhs g ! nat (- ritem g ! k) + length (rhs g (nat (- ritem g ! k)))"
    if "k \<in> lr0_closure g (items_of cs q)" "ritem g ! k < 0" for k
  proof -
    have k: "0 < k" "k < nitems g" using cl that(1) by auto
    let ?r = "nat (- ritem g ! k)"
    have r: "2 \<le> ?r" "?r < nrules g" "Suc k = rrhs g ! Suc ?r" using item_next(3) [OF g k that(2)] by auto
    then have "k = rrhs g ! ?r + length (rhs g ?r)"
      using rhs_items_of_rule(2) [OF g r(1,2)] rrhs_step(1) [OF g r(1,2)] by linarith
    then show ?thesis using r(1,2) by blast
  qed
  show "distinct (kernel_reductions g (items_of cs q))"
    unfolding kernel_reductions_def distinct_map
  proof
    show "distinct (filter (\<lambda>i. ritem g ! i < 0) (sorted_list_of_set (lr0_closure g (items_of cs q))))" by simp
    show "inj_on (\<lambda>i. nat (- ritem g ! i)) (set (filter (\<lambda>i. ritem g ! i < 0) (sorted_list_of_set (lr0_closure g (items_of cs q)))))"
    proof (rule inj_onI)
      fix k l assume "k \<in> set (filter (\<lambda>i. ritem g ! i < 0) (sorted_list_of_set (lr0_closure g (items_of cs q))))"
        and "l \<in> set (filter (\<lambda>i. ritem g ! i < 0) (sorted_list_of_set (lr0_closure g (items_of cs q))))"
        and eq: "nat (- ritem g ! k) = nat (- ritem g ! l)"
      then have "k \<in> lr0_closure g (items_of cs q) \<and> ritem g ! k < 0" "l \<in> lr0_closure g (items_of cs q) \<and> ritem g ! l < 0" using fin by auto
      then show "k = l" using item [of k] item [of l] eq by metis
    qed
  qed
  show "2 \<le> r \<and> r < nrules g \<and> rrhs g ! r + length (rhs g r) \<in> lr0_closure g (items_of cs q)" if "r \<in> set (kernel_reductions g (items_of cs q))"
  proof -
    have "r \<in> (\<lambda>i. nat (- ritem g ! i)) ` {i \<in> lr0_closure g (items_of cs q). ritem g ! i < 0}"
      using that fin by (simp add: kernel_reductions_def)
    then obtain k where "k \<in> lr0_closure g (items_of cs q)" "ritem g ! k < 0" "r = nat (- ritem g ! k)" by blast
    then show ?thesis using item by metis
  qed
  show "r \<in> set (kernel_reductions g (items_of cs q))"
    if "2 \<le> r" "r < nrules g" "rrhs g ! r + length (rhs g r) \<in> lr0_closure g (items_of cs q)"
    using rhs_items_of_rule(4) [OF g that(1,2)] that(1,3) fin by (force simp: kernel_reductions_def image_iff)
qed

section \<open>Lookback\<close>

text \<open>What the lists hold when the gotos and rules in \<open>D\<close> have been entered.\<close>

definition lookback_ok :: "grammar \<Rightarrow> core list \<Rightarrow> goto_tables \<Rightarrow> (nat \<times> nat) set \<Rightarrow> nat list list \<Rightarrow> bool" where
  "lookback_ok g cs gt D lookback \<longleftrightarrow> length lookback = la_start g cs (length cs) \<and>
     (\<forall>q < length cs. \<forall>j < length (kernel_reductions g (items_of cs q)).
        set (lookback ! (la_start g cs q + j)) =
          {i. (i, kernel_reductions g (items_of cs q) ! j) \<in> D \<and> walks g cs (from_state gt ! i) (rhs g (kernel_reductions g (items_of cs q) ! j)) q})"

lemma find_unique: "distinct (map f xs) \<Longrightarrow> x \<in> set xs \<Longrightarrow> find (\<lambda>y. f y = f x) xs = Some x"
  by (induction xs) (auto simp: image_iff)

lemma add_lookback_edge_result:
  assumes g: "grammar_ok g" and cs: "cores_ok g cs" and rl: "reductions_ok g cs (length cs) rl"
    and small: "la_start g cs (length cs) \<le> MAXSHORT" and LA: "initialize_LA (set_reduction_table (length cs) rl) = (las, rulenos)"
    and lb: "lookback_ok g cs gt D lookback" and q: "q < length cs" and w: "walks g cs (from_state gt ! i) (rhs g r) q"
    and r: "r \<in> set (kernel_reductions g (items_of cs q))"
  shows "\<exists>lookback'. add_lookback_edge las rulenos q r i lookback = Some lookback' \<and> lookback_ok g cs gt (insert (i, r) D) lookback'"
proof -
  let ?kr = "\<lambda>q. kernel_reductions g (items_of cs q)"
  note la = initialize_LA_result [OF rl small LA]
  obtain j where j: "j < length (?kr q)" "?kr q ! j = r" using r by (auto simp: in_set_conv_nth)
  define k where "k = la_start g cs q + j"
  have rng: "[nat (las ! q)..<nat (las ! (q + 1))] = [la_start g cs q..<la_start g cs q + length (?kr q)]"
  proof -
    have "nat (las ! q) = la_start g cs q" "nat (las ! (q + 1)) = la_start g cs (Suc q)"
      using la(2) [of q] la(2) [of "q + 1"] q by simp_all
    then show ?thesis by (simp only: la_start_Suc)
  qed
  have "map (\<lambda>i. rulenos ! i) [la_start g cs q..<la_start g cs q + length (?kr q)] = ?kr q"
    by (rule nth_equalityI) (use la(3) [OF q] in simp_all)
  then have "distinct (map (\<lambda>i. rulenos ! i) [la_start g cs q..<la_start g cs q + length (?kr q)])"
    using kernel_reductions_facts(1) [OF g cs q] by simp
  from find_unique [OF this, of k] have f: "find (\<lambda>i. rulenos ! i = r) [la_start g cs q..<la_start g cs q + length (?kr q)] = Some k"
    using la(3) [OF q j(1)] j by (simp add: k_def)
  have guard: "\<not> (las ! q < 0 \<or> int (length rulenos) < las ! (q + 1))"
    using la(1) la(2) [of q] la(2) [of "q + 1"] q la_start_mono [of "q + 1" "length cs" g cs] by simp
  have add: "add_lookback_edge las rulenos q r i lookback = Some (lookback[k := i # lookback ! k])"
    unfolding add_lookback_edge_def Let_def rng f using guard by simp
  have kl: "k < length lookback"
    using lb la_start_mono [of "Suc q" "length cs" g cs] la_start_Suc [of g cs q] q j(1) by (simp add: lookback_ok_def k_def)
  have "lookback_ok g cs gt (insert (i, r) D) (lookback[k := i # lookback ! k])"
    unfolding lookback_ok_def
  proof (intro conjI allI impI)
    show "length (lookback[k := i # lookback ! k]) = la_start g cs (length cs)" using lb by (simp add: lookback_ok_def)
    fix q' j' assume q': "q' < length cs" "j' < length (?kr q')"
    have old: "set (lookback ! (la_start g cs q' + j')) = {i. (i, ?kr q' ! j') \<in> D \<and> walks g cs (from_state gt ! i) (rhs g (?kr q' ! j')) q'}"
      using lb q' unfolding lookback_ok_def by blast
    show "set (lookback[k := i # lookback ! k] ! (la_start g cs q' + j')) =
      {i'. (i', ?kr q' ! j') \<in> insert (i, r) D \<and> walks g cs (from_state gt ! i') (rhs g (?kr q' ! j')) q'}"
    proof (cases "q' = q \<and> j' = j")
      case True
      have "set (lookback[k := i # lookback ! k] ! (la_start g cs q' + j')) = insert i (set (lookback ! (la_start g cs q' + j')))"
        using True kl by (simp add: k_def)
      then show ?thesis unfolding old using True w j(2) by auto
    next
      case False
      then have "la_start g cs q' + j' \<noteq> k" using la_place_unique [of g cs q' j' q j] q'(2) j(1) by (auto simp: k_def)
      moreover have "\<not> (?kr q' ! j' = r \<and> walks g cs (from_state gt ! i) (rhs g r) q')"
      proof
        assume *: "?kr q' ! j' = r \<and> walks g cs (from_state gt ! i) (rhs g r) q'"
        then have "q' = q" using walks_unique [OF cs] w by blast
        moreover from this have "j' = j" using * j q'(2) kernel_reductions_facts(1) [OF g cs q] nth_eq_iff_index_eq by metis
        ultimately show False using False by blast
      qed
      ultimately show ?thesis using old by auto
    qed
  qed
  then show ?thesis using add by blast
qed

section \<open>Includes\<close>

text \<open>How many edges the loop back over a right-hand side, given reversed, makes.\<close>

fun trailing_variables :: "grammar \<Rightarrow> bool list \<Rightarrow> nat list \<Rightarrow> nat" where
  "trailing_variables g nul [] = 0"
| "trailing_variables g nul (X # Xs) = (if start_symbol g \<le> X then Suc (if nul ! X then trailing_variables g nul Xs else 0) else 0)"

lemma derives_empty_variable: "grammar_ok g \<Longrightarrow> derives_empty g X \<Longrightarrow> start_symbol g \<le> X"
  by (erule derives_empty.cases) (use rlhs_var(1) in blast)

text \<open>The gotos that the goto of \<open>p\<close> with the left-hand side of a rule is included in.\<close>

definition rule_includes :: "grammar \<Rightarrow> core list \<Rightarrow> goto_tables \<Rightarrow> nat \<Rightarrow> nat list \<Rightarrow> nat set" where
  "rule_includes g cs gt p Zs = {j. j < length (from_state gt) \<and> (\<exists>Xs A Ys. Zs = Xs @ A # Ys \<and> start_symbol g \<le> A \<and>
     (\<forall>Y \<in> set Ys. derives_empty g Y) \<and> walks g cs p Xs (from_state gt ! j) \<and> goto_symbol cs gt j = A)}"

lemma rule_includes_Nil [simp]: "rule_includes g cs gt p [] = {}"
  by (simp add: rule_includes_def)

lemma snoc_split: "Zs @ [A] = Xs @ B # Ys \<longleftrightarrow> Ys = [] \<and> Xs = Zs \<and> A = B \<or> (\<exists>Ys'. Ys = Ys' @ [A] \<and> Zs = Xs @ B # Ys')"
  by (cases Ys rule: rev_cases) auto

lemma rule_includes_snoc:
  "rule_includes g cs gt p (Zs @ [A]) = (if start_symbol g \<le> A then {j. j < length (from_state gt) \<and> walks g cs p Zs (from_state gt ! j) \<and> goto_symbol cs gt j = A} else {}) \<union>
    (if derives_empty g A then rule_includes g cs gt p Zs else {})"
proof (intro set_eqI iffI)
  fix j assume "j \<in> rule_includes g cs gt p (Zs @ [A])"
  then obtain Xs B Ys where j: "j < length (from_state gt)" "Zs @ [A] = Xs @ B # Ys" "start_symbol g \<le> B" "\<forall>Y \<in> set Ys. derives_empty g Y"
    "walks g cs p Xs (from_state gt ! j)" "goto_symbol cs gt j = B" unfolding rule_includes_def by blast
  from j(2) consider "Ys = []" "Xs = Zs" "A = B" | Ys' where "Ys = Ys' @ [A]" "Zs = Xs @ B # Ys'" unfolding snoc_split by blast
  then show "j \<in> (if start_symbol g \<le> A then {j. j < length (from_state gt) \<and> walks g cs p Zs (from_state gt ! j) \<and> goto_symbol cs gt j = A} else {}) \<union>
    (if derives_empty g A then rule_includes g cs gt p Zs else {})"
  proof cases
    case 1
    then show ?thesis using j by simp
  next
    case 2
    then have "derives_empty g A" "j \<in> rule_includes g cs gt p Zs" using j unfolding rule_includes_def by auto
    then show ?thesis by simp
  qed
next
  fix j assume "j \<in> (if start_symbol g \<le> A then {j. j < length (from_state gt) \<and> walks g cs p Zs (from_state gt ! j) \<and> goto_symbol cs gt j = A} else {}) \<union>
    (if derives_empty g A then rule_includes g cs gt p Zs else {})"
  then consider "start_symbol g \<le> A" "j < length (from_state gt)" "walks g cs p Zs (from_state gt ! j)" "goto_symbol cs gt j = A"
    | "derives_empty g A" "j \<in> rule_includes g cs gt p Zs" by (auto split: if_splits)
  then show "j \<in> rule_includes g cs gt p (Zs @ [A])"
  proof cases
    case 1
    have "Zs @ [A] = Zs @ A # []" "\<forall>Y \<in> set ([] :: nat list). derives_empty g Y" by simp_all
    then show ?thesis using 1 unfolding rule_includes_def by blast
  next
    case 2
    then obtain Xs B Ys where "j < length (from_state gt)" "Zs = Xs @ B # Ys" "start_symbol g \<le> B" "\<forall>Y \<in> set Ys. derives_empty g Y"
      "walks g cs p Xs (from_state gt ! j)" "goto_symbol cs gt j = B" unfolding rule_includes_def by blast
    moreover from this have "Zs @ [A] = Xs @ B # (Ys @ [A])" "\<forall>Y \<in> set (Ys @ [A]). derives_empty g Y" using 2(1) by auto
    ultimately show ?thesis unfolding rule_includes_def by blast
  qed
qed

lemma includes_edges_result:
  assumes g: "grammar_ok g" and cs: "cores_ok g cs" and gt: "goto_tables_ok g cs gt"
    and nul: "\<And>X. X < nsyms g \<Longrightarrow> nul ! X \<longleftrightarrow> derives_empty g X" and r: "3 \<le> r" "r < nrules g"
    and states: "\<And>k. k \<le> length (rhs g r) \<Longrightarrow> walks g cs p (take k (rhs g r)) (states ! k)"
      "\<And>k. k < length (rhs g r) \<Longrightarrow> moves g cs (states ! k) (rhs g r ! k) (states ! Suc k)"
    and m: "m \<le> length (rhs g r)"
    and room: "length edge + trailing_variables g nul (rev (take m (rhs g r))) \<le> length (from_state gt) + 1"
  shows "\<exists>edge'. includes_edges g nul gt states (rrhs g ! r + m) m edge = Some edge' \<and>
    length edge' = length edge + trailing_variables g nul (rev (take m (rhs g r))) \<and>
    set edge' = set edge \<union> rule_includes g cs gt p (take m (rhs g r))"
  using m room
proof (induction m arbitrary: edge)
  case 0
  have r2: "2 \<le> r - 1" "r - 1 < nrules g" "Suc (r - 1) = r" using r by simp_all
  have "ritem g ! (rrhs g ! r - 1) = - int (r - 1)" using rrhs_step(2) [OF g r2(1,2)] r2(3) by simp
  then have "\<not> ISVAR g (ritem g ! (rrhs g ! r - 1))" using r by (simp add: ISVAR_def)
  moreover have "rrhs g ! r + 0 = Suc (rrhs g ! r - 1)" using rrhs_bounds(2) [OF g, of r] r by simp
  ultimately show ?case by (simp only: includes_edges.simps if_False) simp
next
  case (Suc m)
  have m: "m < length (rhs g r)" using Suc.prems(1) by simp
  define A where "A = rhs g r ! m"
  have tk: "take (Suc m) (rhs g r) = take m (rhs g r) @ [A]" using m by (simp add: A_def take_Suc_conv_app_nth)
  have r2: "2 \<le> r" using r(1) by simp
  have item: "ritem g ! (rrhs g ! r + m) = int A" using rhs_items_of_rule(3) [OF g r2 r(2) m] by (simp add: A_def)
  have A: "A < nsyms g" using rhs_symbols [OF g r2 r(2)] m by (simp add: A_def)
  show ?case
  proof (cases "start_symbol g \<le> A")
    case False
    then have "\<not> ISVAR g (ritem g ! (rrhs g ! r + m))" "\<not> derives_empty g A" using item derives_empty_variable [OF g] by (auto simp: ISVAR_def)
    then show ?thesis using False tk by (simp add: rule_includes_snoc)
  next
    case True
    have mv: "moves g cs (states ! m) A (states ! Suc m)" using states(2) [OF m] by (simp add: A_def)
    obtain e where e: "e < length (from_state gt)" "from_state gt ! e = states ! m" "goto_symbol cs gt e = A" "map_goto g gt (states ! m) A = Some e"
      by (rule goto_number [OF gt True mv]) (rule that)
    have here: "{j. j < length (from_state gt) \<and> walks g cs p (take m (rhs g r)) (from_state gt ! j) \<and> goto_symbol cs gt j = A} = {e}"
    proof -
      have w: "walks g cs p (take m (rhs g r)) (states ! m)" using states(1) m by simp
      have "j = e" if "j < length (from_state gt)" "walks g cs p (take m (rhs g r)) (from_state gt ! j)" "goto_symbol cs gt j = A" for j
        using goto_number_unique [OF gt that(1) e(1)] walks_unique [OF cs w that(2)] e that(3) by simp
      moreover have "e < length (from_state gt) \<and> walks g cs p (take m (rhs g r)) (from_state gt ! e) \<and> goto_symbol cs gt e = A"
        using e(1-3) w by simp
      ultimately show ?thesis by blast
    qed
    have tv: "trailing_variables g nul (rev (take (Suc m) (rhs g r))) = Suc (if nul ! A then trailing_variables g nul (rev (take m (rhs g r))) else 0)"
      using True tk by simp
    have st: "store_edge (length (from_state gt)) edge e = Some (edge @ [e])" using Suc.prems(2) tv by (simp add: store_edge_def)
    have step: "includes_edges g nul gt states (rrhs g ! r + Suc m) (Suc m) edge =
      (if nul ! A \<and> 0 < m then includes_edges g nul gt states (rrhs g ! r + m) m (edge @ [e]) else Some (edge @ [e]))"
      using item True e(4) st by (simp add: ISVAR_def)
    show ?thesis
    proof (cases "nul ! A")
      case nulA: True
      have "\<exists>edge'. includes_edges g nul gt states (rrhs g ! r + m) m (edge @ [e]) = Some edge' \<and>
        length edge' = length (edge @ [e]) + trailing_variables g nul (rev (take m (rhs g r))) \<and>
        set edge' = set (edge @ [e]) \<union> rule_includes g cs gt p (take m (rhs g r))"
        by (rule Suc.IH) (use m Suc.prems(2) tv nulA in simp_all)
      then obtain edge' where IH: "includes_edges g nul gt states (rrhs g ! r + m) m (edge @ [e]) = Some edge'"
        "length edge' = length (edge @ [e]) + trailing_variables g nul (rev (take m (rhs g r)))"
        "set edge' = set (edge @ [e]) \<union> rule_includes g cs gt p (take m (rhs g r))" by blast
      have "includes_edges g nul gt states (rrhs g ! r + Suc m) (Suc m) edge = Some (if 0 < m then edge' else edge @ [e])"
        using step IH(1) nulA by simp
      moreover have "(if 0 < m then edge' else edge @ [e]) = edge' \<or> m = 0" by simp
      moreover have "set (edge @ [e]) \<union> rule_includes g cs gt p (take m (rhs g r)) = set edge \<union> rule_includes g cs gt p (take (Suc m) (rhs g r))"
        unfolding tk rule_includes_snoc here using True nulA nul [OF A] by auto
      ultimately show ?thesis using IH(2,3) tv nulA by (cases "m = 0") auto
    next
      case False
      then show ?thesis using step tv unfolding tk rule_includes_snoc here using True nul [OF A] by auto
    qed
  qed
qed

definition include_count :: "grammar \<Rightarrow> bool list \<Rightarrow> nat list \<Rightarrow> nat" where
  "include_count g nul rules = sum_list (map (\<lambda>r. trailing_variables g nul (rev (rhs g r))) rules)"

lemma include_count_Cons [simp]: "include_count g nul (r # rules) = trailing_variables g nul (rev (rhs g r)) + include_count g nul rules"
  and include_count_Nil [simp]: "include_count g nul [] = 0"
  by (simp_all add: include_count_def)

lemma rule_start_in_closure:
  assumes g: "grammar_ok g" and m: "moves g cs p B q" and B: "start_symbol g \<le> B" and r: "r < nrules g" "rlhs g ! r = B"
  shows "rrhs g ! r \<in> lr0_closure g (items_of cs p)"
proof -
  obtain k where "k \<in> lr0_closure g (items_of cs p)" "ritem g ! k = int B" using m by (auto simp: moves_def goto_symbols_def)
  then show ?thesis using lr0_closure.derive B r by blast
qed

lemma build_relations_rules_result:
  assumes g: "grammar_ok g" and cs: "cores_ok g cs" and sl: "shifts_ok g cs (length cs) sl" and rl: "reductions_ok g cs (length cs) rl"
    and gt: "goto_tables_ok g cs gt" and nul: "\<And>X. X < nsyms g \<Longrightarrow> nul ! X \<longleftrightarrow> derives_empty g X"
    and small: "la_start g cs (length cs) \<le> MAXSHORT" and LA: "initialize_LA (set_reduction_table (length cs) rl) = (las, rulenos)"
    and i: "i < length (from_state gt)" and lb: "lookback_ok g cs gt D lookback"
    and rules: "\<And>r. r \<in> set rules \<Longrightarrow> 3 \<le> r \<and> r < nrules g \<and> rlhs g ! r = goto_symbol cs gt i"
    and room: "length edge + include_count g nul rules \<le> length (from_state gt) + 1"
  shows "\<exists>edge' lookback'. build_relations_rules g nul (set_accessing_symbol cs) (set_shift_table (length cs) sl) gt las rulenos i rules edge lookback =
      Some (edge', lookback') \<and> length edge' = length edge + include_count g nul rules \<and>
    set edge' = set edge \<union> (\<Union>r \<in> set rules. rule_includes g cs gt (from_state gt ! i) (rhs g r)) \<and>
    lookback_ok g cs gt (D \<union> {i} \<times> set rules) lookback'"
  using lb rules room
proof (induction rules arbitrary: edge lookback D)
  case (Cons r rules)
  let ?p = "from_state gt ! i" and ?acc = "set_accessing_symbol cs" and ?t = "set_shift_table (length cs) sl"
  have r: "3 \<le> r" "r < nrules g" "rlhs g ! r = goto_symbol cs gt i" using Cons.prems(2) by auto
  then have r2: "2 \<le> r" by simp
  note mv = goto_tables_okD(4) [OF gt i]
  have p: "?p < length cs" using moves_symbol [OF mv] by simp
  have start: "rrhs g ! r + 0 \<in> lr0_closure g (items_of cs ?p)"
    using rule_start_in_closure [OF g mv goto_tables_okD(3) [OF gt i] r(2,3)] by simp
  have "length [?p] + length (rhs g r) \<le> set_maxrhs g + 1" using maxrhs_bound [OF g r2 r(2)] by simp
  from walk_rhs_result [OF g cs sl r(1,2) p start _ _ this] obtain q new where
    w: "walk_rhs ?acc ?t (set_maxrhs g) (map int (rhs g r)) ?p [?p] = Some (q, [?p] @ new)" "length new = length (rhs g r)" "q < length cs"
      "walks g cs ?p (rhs g r) q" "rrhs g ! r + length (rhs g r) \<in> lr0_closure g (items_of cs q)"
    and along: "\<forall>k \<le> length (rhs g r). walks g cs ?p (take k (rhs g r)) ((?p # new) ! k)"
      "\<forall>k < length (rhs g r). moves g cs ((?p # new) ! k) (rhs g r ! k) ((?p # new) ! Suc k)" by auto
  have "r \<in> set (kernel_reductions g (items_of cs q))" by (rule kernel_reductions_facts(3) [OF g cs w(3) r2 r(2) w(5)])
  then obtain lb1 where lb1: "add_lookback_edge las rulenos q r i lookback = Some lb1" "lookback_ok g cs gt (insert (i, r) D) lb1"
    using add_lookback_edge_result [OF g cs rl small LA Cons.prems(1) w(3,4)] by blast
  have "length edge + trailing_variables g nul (rev (take (length (rhs g r)) (rhs g r))) \<le> length (from_state gt) + 1" using Cons.prems(3) by simp
  from includes_edges_result [OF g cs gt nul r(1,2) _ _ le_refl this, of ?p "?p # new"] along obtain edge1 where
    e1: "includes_edges g nul gt (?p # new) (rrhs g ! r + length (rhs g r)) (length (rhs g r)) edge = Some edge1"
      "length edge1 = length edge + trailing_variables g nul (rev (rhs g r))" "set edge1 = set edge \<union> rule_includes g cs gt ?p (rhs g r)" by auto
  have step: "build_relations_rules g nul ?acc ?t gt las rulenos i (r # rules) edge lookback =
      build_relations_rules g nul ?acc ?t gt las rulenos i rules edge1 lb1"
    using w(1,2) lb1(1) e1(1) by (simp add: rhs_items_of_rule(1) [OF g r2 r(2)] Let_def)
  have "\<exists>edge' lookback'. build_relations_rules g nul ?acc ?t gt las rulenos i rules edge1 lb1 = Some (edge', lookback') \<and>
    length edge' = length edge1 + include_count g nul rules \<and>
    set edge' = set edge1 \<union> (\<Union>r \<in> set rules. rule_includes g cs gt ?p (rhs g r)) \<and>
    lookback_ok g cs gt (insert (i, r) D \<union> {i} \<times> set rules) lookback'"
    by (rule Cons.IH [OF lb1(2)]) (use Cons.prems(2,3) e1(2) in auto)
  moreover have "insert (i, r) D \<union> {i} \<times> set rules = D \<union> {i} \<times> set (r # rules)" by auto
  ultimately obtain edge' lookback' where IH: "build_relations_rules g nul ?acc ?t gt las rulenos i rules edge1 lb1 = Some (edge', lookback')"
    "length edge' = length edge1 + include_count g nul rules" "set edge' = set edge1 \<union> (\<Union>r \<in> set rules. rule_includes g cs gt ?p (rhs g r))"
    "lookback_ok g cs gt (D \<union> {i} \<times> set (r # rules)) lookback'" by metis
  have "set edge' = set edge \<union> (\<Union>r \<in> set (r # rules). rule_includes g cs gt ?p (rhs g r))" using IH(3) e1(3) by auto
  moreover have "length edge' = length edge + include_count g nul (r # rules)" using IH(2) e1(2) by simp
  ultimately show ?case using step IH(1,4) by metis
qed simp

definition goto_includes :: "grammar \<Rightarrow> core list \<Rightarrow> goto_tables \<Rightarrow> nat \<Rightarrow> nat set" where
  "goto_includes g cs gt i = (\<Union>r \<in> set (set_derives g ! goto_symbol cs gt i). rule_includes g cs gt (from_state gt ! i) (rhs g r))"

lemma derives_of_goto:
  assumes g: "grammar_ok g" and cs: "cores_ok g cs" and gt: "goto_tables_ok g cs gt" and i: "i < length (from_state gt)"
  shows "r \<in> set (set_derives g ! goto_symbol cs gt i) \<longleftrightarrow> 3 \<le> r \<and> r < nrules g \<and> rlhs g ! r = goto_symbol cs gt i"
proof -
  note B = moves_bounds [OF g cs goto_tables_okD(4) [OF gt i]]
  have "r \<noteq> 2" if "r < nrules g" "rlhs g ! r = goto_symbol cs gt i" using rlhs_var(3) [OF g that(1)] that(2) B(3) by metis
  moreover have "3 \<le> r \<longleftrightarrow> 2 \<le> r \<and> r \<noteq> 2" by linarith
  ultimately show ?thesis unfolding derives_rule [OF g goto_tables_okD(3) [OF gt i] B(2)] by blast
qed

lemma build_relations_gotos_result:
  assumes g: "grammar_ok g" and cs: "cores_ok g cs" and sl: "shifts_ok g cs (length cs) sl" and rl: "reductions_ok g cs (length cs) rl"
    and gt: "goto_tables_ok g cs gt" and nul: "\<And>X. X < nsyms g \<Longrightarrow> nul ! X \<longleftrightarrow> derives_empty g X"
    and small: "la_start g cs (length cs) \<le> MAXSHORT" and LA: "initialize_LA (set_reduction_table (length cs) rl) = (las, rulenos)"
    and lb: "lookback_ok g cs gt D lookback"
    and "is": "\<And>i. i \<in> set is \<Longrightarrow> i < length (from_state gt) \<and> include_count g nul (set_derives g ! goto_symbol cs gt i) \<le> length (from_state gt) + 1"
  shows "\<exists>incs lookback'. build_relations_gotos g nul (set_derives g) (set_accessing_symbol cs) (set_shift_table (length cs) sl) gt las rulenos is lookback =
      Some (incs, lookback') \<and>
    list_all2 (\<lambda>i edge. set edge = goto_includes g cs gt i \<and> length edge = include_count g nul (set_derives g ! goto_symbol cs gt i)) is incs \<and>
    lookback_ok g cs gt (D \<union> {(i, r). i \<in> set is \<and> r \<in> set (set_derives g ! goto_symbol cs gt i)}) lookback'"
  using lb "is"
proof (induction "is" arbitrary: lookback D)
  case (Cons i "is")
  let ?acc = "set_accessing_symbol cs" and ?t = "set_shift_table (length cs) sl" and ?rules = "set_derives g ! goto_symbol cs gt i"
  have i: "i < length (from_state gt)" using Cons.prems(2) [of i] by simp
  have q: "to_state gt ! i < length cs" using moves_symbol [OF goto_tables_okD(4) [OF gt i]] by simp
  have "\<exists>edge' lookback'. build_relations_rules g nul ?acc ?t gt las rulenos i ?rules [] lookback = Some (edge', lookback') \<and>
    length edge' = length ([] :: nat list) + include_count g nul ?rules \<and>
    set edge' = set [] \<union> (\<Union>r \<in> set ?rules. rule_includes g cs gt (from_state gt ! i) (rhs g r)) \<and>
    lookback_ok g cs gt (D \<union> {i} \<times> set ?rules) lookback'"
    by (rule build_relations_rules_result [OF g cs sl rl gt nul small LA i Cons.prems(1)])
      (use derives_of_goto [OF g cs gt i] Cons.prems(2) [of i] in auto)
  then obtain edge lb1 where e: "build_relations_rules g nul ?acc ?t gt las rulenos i ?rules [] lookback = Some (edge, lb1)"
    "length edge = include_count g nul ?rules" "set edge = goto_includes g cs gt i" "lookback_ok g cs gt (D \<union> {i} \<times> set ?rules) lb1"
    by (auto simp: goto_includes_def)
  have "\<exists>incs lookback'. build_relations_gotos g nul (set_derives g) ?acc ?t gt las rulenos is lb1 = Some (incs, lookback') \<and>
    list_all2 (\<lambda>i edge. set edge = goto_includes g cs gt i \<and> length edge = include_count g nul (set_derives g ! goto_symbol cs gt i)) is incs \<and>
    lookback_ok g cs gt ((D \<union> {i} \<times> set ?rules) \<union> {(i, r). i \<in> set is \<and> r \<in> set (set_derives g ! goto_symbol cs gt i)}) lookback'"
    by (rule Cons.IH [OF e(4)]) (use Cons.prems(2) in auto)
  then obtain incs lookback' where IH: "build_relations_gotos g nul (set_derives g) ?acc ?t gt las rulenos is lb1 = Some (incs, lookback')"
    "list_all2 (\<lambda>i edge. set edge = goto_includes g cs gt i \<and> length edge = include_count g nul (set_derives g ! goto_symbol cs gt i)) is incs"
    "lookback_ok g cs gt ((D \<union> {i} \<times> set ?rules) \<union> {(i, r). i \<in> set is \<and> r \<in> set (set_derives g ! goto_symbol cs gt i)}) lookback'" by blast
  moreover have "(D \<union> {i} \<times> set ?rules) \<union> {(i, r). i \<in> set is \<and> r \<in> set (set_derives g ! goto_symbol cs gt i)} =
    D \<union> {(i', r). i' \<in> set (i # is) \<and> r \<in> set (set_derives g ! goto_symbol cs gt i')}" by auto
  ultimately show ?case using e accessing_symbol_core(2) [OF cs q] by (auto simp: Let_def)
qed simp

section \<open>Transposing\<close>

lemma count_edges:
  fixes counts :: "nat list"
  assumes "\<forall>j \<in> set js. j < length counts"
  shows "length (fold (\<lambda>j nedges. nedges[j := nedges ! j + 1]) js counts) = length counts"
    "sum_list (fold (\<lambda>j nedges. nedges[j := nedges ! j + 1]) js counts) = sum_list counts + length js"
proof -
  have inc: "sum_list (xs[j := xs ! j + 1]) = sum_list xs + 1" if "j < length xs" for xs :: "nat list" and j
    using that by (simp add: sum_list_update)
  have "length (fold (\<lambda>j nedges. nedges[j := nedges ! j + 1]) js counts) = length counts \<and>
    sum_list (fold (\<lambda>j nedges. nedges[j := nedges ! j + 1]) js counts) = sum_list counts + length js"
    using assms
  proof (induction js arbitrary: counts)
    case (Cons j js)
    then show ?case using inc [of j counts] by simp
  qed simp
  then show "length (fold (\<lambda>j nedges. nedges[j := nedges ! j + 1]) js counts) = length counts"
    "sum_list (fold (\<lambda>j nedges. nedges[j := nedges ! j + 1]) js counts) = sum_list counts + length js" by simp_all
qed

lemma append_edges:
  assumes "\<forall>j \<in> set js. j < length new_R"
  shows "length (fold (\<lambda>j new_R. new_R[j := new_R ! j @ [i]]) js new_R) = length new_R \<and>
    (\<forall>k < length new_R. set (fold (\<lambda>j new_R. new_R[j := new_R ! j @ [i]]) js new_R ! k) = set (new_R ! k) \<union> (if k \<in> set js then {i} else {}))"
  using assms
proof (induction js arbitrary: new_R)
  case (Cons j js)
  from Cons.IH [of "new_R[j := new_R ! j @ [i]]"] Cons.prems show ?case by (auto simp: nth_list_update)
qed simp

lemma transpose_relation_result:
  assumes R: "length R = n" "\<forall>i < n. \<forall>j \<in> set (R ! i). j < n" and small: "(\<Sum>i<n. length (R ! i)) \<le> MAXSHORT"
  shows "\<exists>R'. transpose_relation R n = Some R' \<and> length R' = n \<and> (\<forall>j < n. set (R' ! j) = {i. i < n \<and> j \<in> set (R ! i)})"
proof -
  have cnt: "length (fold (\<lambda>i nedges. fold (\<lambda>j nedges. nedges[j := nedges ! j + 1]) (R ! i) nedges) [0..<m] (replicate n (0::nat))) = n \<and>
    sum_list (fold (\<lambda>i nedges. fold (\<lambda>j nedges. nedges[j := nedges ! j + 1]) (R ! i) nedges) [0..<m] (replicate n 0)) = (\<Sum>i<m. length (R ! i))"
    if "m \<le> n" for m
    using that
  proof (induction m)
    case (Suc m)
    have "\<forall>j \<in> set (R ! m). j < length (fold (\<lambda>i nedges. fold (\<lambda>j nedges. nedges[j := nedges ! j + 1]) (R ! i) nedges) [0..<m] (replicate n (0::nat)))"
      using Suc R(2) [rule_format, of m] by simp
    from count_edges [OF this] show ?case using Suc by simp
  qed simp
  let ?n = "fold (\<lambda>i nedges. fold (\<lambda>j nedges. nedges[j := nedges ! j + 1]) (R ! i) nedges) [0..<n] (replicate n (0::nat))"
  have "k \<le> MAXSHORT" if "k \<in> set ?n" for k using member_le_sum_list [OF that] cnt [of n] small by simp
  then have no: "\<not> list_ex (\<lambda>k. MAXSHORT < k) ?n" by (fastforce simp: list_ex_iff)
  have "length (fold (\<lambda>i new_R. fold (\<lambda>j new_R. new_R[j := new_R ! j @ [i]]) (R ! i) new_R) [0..<m] (replicate n [])) = n \<and>
    (\<forall>j < n. set (fold (\<lambda>i new_R. fold (\<lambda>j new_R. new_R[j := new_R ! j @ [i]]) (R ! i) new_R) [0..<m] (replicate n []) ! j) = {i. i < m \<and> j \<in> set (R ! i)})"
    if "m \<le> n" for m
    using that
  proof (induction m)
    case (Suc m)
    let ?r = "fold (\<lambda>i new_R. fold (\<lambda>j new_R. new_R[j := new_R ! j @ [i]]) (R ! i) new_R) [0..<m] (replicate n [])"
    have "\<forall>j \<in> set (R ! m). j < length ?r" using Suc R(2) [rule_format, of m] by simp
    from append_edges [OF this, of m] show ?case using Suc by (auto simp: less_Suc_eq)
  qed simp
  then show ?thesis using no by (simp add: transpose_relation_def Let_def)
qed

section \<open>What follows a goto\<close>

lemma can_read_moves: "can_read g cs p A t \<Longrightarrow> \<exists>q. moves g cs p A q"
  by (induction rule: can_read.induct) blast+

lemma can_follow_moves: "can_follow g cs p A t \<Longrightarrow> \<exists>q. moves g cs p A q"
  by (induction rule: can_follow.induct) (use can_read_moves in blast)+

lemma follows_reach:
  assumes g: "grammar_ok g" and cs: "cores_ok g cs" and gt: "goto_tables_ok g cs gt" and R: "length R = length (from_state gt)"
      "\<And>j. j < length R \<Longrightarrow> set (R ! j) = {i. i < length R \<and> j \<in> goto_includes g cs gt i}"
    and F: "\<And>i. i < length R \<Longrightarrow> members (F ! i) = {t. can_read g cs (from_state gt ! i) (goto_symbol cs gt i) t}" and i: "i < length R"
  shows "reach_union R F i = {t. can_follow g cs (from_state gt ! i) (goto_symbol cs gt i) t}"
proof (intro equalityI subsetI)
  note d = goto_tables_okD [OF gt]
  {
    fix t assume "t \<in> reach_union R F i"
    then obtain u where u: "(i, u) \<in> (edges R)\<^sup>*" "t \<in> members (F ! u)" by (auto simp: reach_union_def)
    from u(1) i have "u < length R \<and> can_follow g cs (from_state gt ! i) (goto_symbol cs gt i) t"
    proof (induction rule: converse_rtrancl_induct)
      case base
      then show ?case using u(2) F [OF base] can_follow.read by auto
    next
      case (step j k)
      then have j: "j < length R" "k \<in> set (R ! j)" by (auto simp: edges_def)
      then have k: "k < length R" "j \<in> goto_includes g cs gt k" using R(2) by auto
      obtain r where r: "r \<in> set (set_derives g ! goto_symbol cs gt k)" "j \<in> rule_includes g cs gt (from_state gt ! k) (rhs g r)"
        using k(2) by (auto simp: goto_includes_def)
      have rr: "2 \<le> r" "r < nrules g" "rlhs g ! r = goto_symbol cs gt k"
        using derives_of_goto [OF g cs gt, of k r] r(1) k(1) R(1) by auto
      obtain Xs A Ys where e: "rhs g r = Xs @ A # Ys" "start_symbol g \<le> A" "\<forall>Y \<in> set Ys. derives_empty g Y"
        "walks g cs (from_state gt ! k) Xs (from_state gt ! j)" "goto_symbol cs gt j = A" using r(2) unfolding rule_includes_def by blast
      have mj: "moves g cs (from_state gt ! j) A (to_state gt ! j)" using d(4) [of j] j(1) R(1) e(5) by simp
      have mk: "moves g cs (from_state gt ! k) (goto_symbol cs gt k) (to_state gt ! k)" using d(4) [of k] k(1) R(1) by simp
      have IH: "u < length R" "can_follow g cs (from_state gt ! k) (goto_symbol cs gt k) t" using step.IH [OF k(1)] by auto
      have "can_follow g cs (from_state gt ! j) A t" by (rule can_follow.rule_end [OF mk IH(2) rr e(1-4) mj])
      then show ?case using IH(1) e(5) by simp
    qed
    then show "t \<in> {t. can_follow g cs (from_state gt ! i) (goto_symbol cs gt i) t}" by simp
  }
  fix t assume "t \<in> {t. can_follow g cs (from_state gt ! i) (goto_symbol cs gt i) t}"
  then have "can_follow g cs (from_state gt ! i) (goto_symbol cs gt i) t" by simp
  moreover have "t \<in> reach_union R F i" if "can_follow g cs p A t" "i < length R" "from_state gt ! i = p" "goto_symbol cs gt i = A" for p A i
    using that
  proof (induction arbitrary: i)
    case (read p A t)
    then have "t \<in> members (F ! i)" using F [OF read(2)] by simp
    then show ?case using reach_union_self by blast
  next
    case (rule_end p' B q' t r Xs A Ys p q)
    have B: "start_symbol g \<le> B" using rlhs_var(1) [OF g rule_end.hyps(4)] rule_end.hyps(3,5) by simp
    obtain k where k: "k < length (from_state gt)" "from_state gt ! k = p'" "to_state gt ! k = q'" "goto_symbol cs gt k = B"
      by (rule goto_number [OF gt B rule_end.hyps(1)])
    have r: "r \<in> set (set_derives g ! goto_symbol cs gt k)"
    proof -
      have "goto_symbol cs gt k < nsyms g" using moves_bounds(2) [OF g cs d(4) [OF k(1)]] .
      then show ?thesis using derives_rule [OF g, of "goto_symbol cs gt k" r] B k(4) rule_end.hyps(3-5) by simp
    qed
    have "i \<in> rule_includes g cs gt (from_state gt ! k) (rhs g r)"
    proof -
      have "i < length (from_state gt)" "walks g cs (from_state gt ! k) Xs (from_state gt ! i)"
        using rule_end.hyps(9) rule_end.prems(1,2) k(2) R(1) by simp_all
      then show ?thesis using rule_end.hyps(6-8) rule_end.prems(3) unfolding rule_includes_def by blast
    qed
    then have "i \<in> goto_includes g cs gt k" using r by (auto simp: goto_includes_def)
    then have "k \<in> set (R ! i)" using R rule_end.prems(1) k(1) by simp
    then have "(i, k) \<in> (edges R)\<^sup>*" using rule_end.prems(1) by (auto simp: edges_def)
    moreover have "t \<in> reach_union R F k" using rule_end.IH [of k] k R(1) by simp
    ultimately show ?case using reach_union_mono by blast
  qed
  ultimately show "t \<in> reach_union R F i" using i by blast
qed

section \<open>The whole phase\<close>

text \<open>What the widths of the code's tables and the array \<open>edge\<close> allow.\<close>

definition lalr_fits :: "grammar \<Rightarrow> bool list \<Rightarrow> lr0_machine \<Rightarrow> bool" where
  "lalr_fits g nul st \<longleftrightarrow>
     (let variables = map fst (goto_pairs g (set_accessing_symbol (cores st)) (shift_list st)); n = length variables in
      n + 2 \<le> MAXSHORT \<and> length (snd (initialize_LA (set_reduction_table (length (cores st)) (reduction_list st)))) \<le> MAXSHORT \<and>
      list_all (\<lambda>X. include_count g nul (set_derives g ! X) \<le> n + 1) variables \<and>
      sum_list (map (\<lambda>X. include_count g nul (set_derives g ! X)) variables) \<le> MAXSHORT)"

lemma lalr_fitsD:
  assumes g: "grammar_ok g" and st: "lr0_automaton g st" and fits: "lalr_fits g nul st"
  shows "card (goto_set g (cores st)) + 2 \<le> MAXSHORT" "la_start g (cores st) (length (cores st)) \<le> MAXSHORT"
    "\<And>X p q. (X, p, q) \<in> goto_set g (cores st) \<Longrightarrow> include_count g nul (set_derives g ! X) \<le> card (goto_set g (cores st)) + 1"
    "(\<Sum>(X, p, q) \<in> goto_set g (cores st). include_count g nul (set_derives g ! X)) \<le> MAXSHORT"
proof -
  let ?cs = "cores st"
  have cs: "cores_ok g ?cs" and sl: "shifts_ok g ?cs (length ?cs) (shift_list st)" and rl: "reductions_ok g ?cs (length ?cs) (reduction_list st)"
    using st unfolding lr0_automaton_def by iprover+
  let ?pairs = "goto_pairs g (set_accessing_symbol ?cs) (shift_list st)"
  have set: "set ?pairs = goto_set g ?cs" using goto_pairs_moves [OF g cs sl] by (auto simp: goto_set_def)
  have dis: "distinct ?pairs" by (rule distinct_goto_pairs [OF g cs sl])
  have card: "card (goto_set g ?cs) = length ?pairs" unfolding set [symmetric] by (rule distinct_card [OF dis])
  note f = fits [unfolded lalr_fits_def Let_def]
  show "card (goto_set g ?cs) + 2 \<le> MAXSHORT" using f card by simp
  show "include_count g nul (set_derives g ! X) \<le> card (goto_set g ?cs) + 1" if "(X, p, q) \<in> goto_set g ?cs" for X p q
  proof -
    have "X \<in> set (map fst ?pairs)" using that unfolding set [symmetric] by force
    then show ?thesis using f card by (auto simp: list_all_iff)
  qed
  have "(\<Sum>(X, p, q) \<in> goto_set g ?cs. include_count g nul (set_derives g ! X)) =
      sum_list (map (\<lambda>X. include_count g nul (set_derives g ! X)) (map fst ?pairs))"
    unfolding set [symmetric] by (simp add: sum_list_distinct_conv_sum_set [OF dis, symmetric] comp_def case_prod_beta)
  then show "(\<Sum>(X, p, q) \<in> goto_set g ?cs. include_count g nul (set_derives g ! X)) \<le> MAXSHORT" using f by simp
  have "length (snd (initialize_LA (set_reduction_table (length ?cs) (reduction_list st)))) = la_start g ?cs (length ?cs)"
    by (rule length_LAruleno [OF rl])
  then show "la_start g ?cs (length ?cs) \<le> MAXSHORT" using f by simp
qed

definition lalr_ok :: "grammar \<Rightarrow> lr0_machine \<Rightarrow> lalr_tables \<Rightarrow> bool" where
  "lalr_ok g st t \<longleftrightarrow> accessing_symbol t = set_accessing_symbol (cores st) \<and>
     shift_table t = set_shift_table (length (cores st)) (shift_list st) \<and>
     reduction_table t = set_reduction_table (length (cores st)) (reduction_list st) \<and>
     goto_tables_ok g (cores st) (gotos t) \<and>
     (\<forall>q \<le> length (cores st). lookaheads t ! q = int (la_start g (cores st) q)) \<and>
     length (LA t) = la_start g (cores st) (length (cores st)) \<and> (\<forall>row \<in> set (LA t). length row = WORDSIZE (ntokens g)) \<and>
     (\<forall>q < length (cores st). \<forall>j < length (kernel_reductions g (items_of (cores st) q)).
        LAruleno t ! (la_start g (cores st) q + j) = kernel_reductions g (items_of (cores st) q) ! j \<and>
        members (LA t ! (la_start g (cores st) q + j)) = lalr_lookaheads g (cores st) q (kernel_reductions g (items_of (cores st) q) ! j))"

lemma fold_rows:
  assumes "\<And>v. v \<in> set vs \<Longrightarrow> length (F ! v) = length row"
  shows "length (fold (\<lambda>value rowp. or_row rowp (F ! value)) vs row) = length row"
    "members (fold (\<lambda>value rowp. or_row rowp (F ! value)) vs row) = members row \<union> (\<Union>v \<in> set vs. members (F ! v))"
  using fold_or_row [of vs "\<lambda>_. True" "\<lambda>v. F ! v" row] assms by simp_all

lemma goto_numbers_bij:
  assumes gt: "goto_tables_ok g cs gt"
  shows "bij_betw (\<lambda>i. (goto_symbol cs gt i, from_state gt ! i, to_state gt ! i)) {..<length (from_state gt)} (goto_set g cs)"
  unfolding bij_betw_def
proof
  show "inj_on (\<lambda>i. (goto_symbol cs gt i, from_state gt ! i, to_state gt ! i)) {..<length (from_state gt)}"
    using goto_number_unique [OF gt] by (intro inj_onI) simp
  show "(\<lambda>i. (goto_symbol cs gt i, from_state gt ! i, to_state gt ! i)) ` {..<length (from_state gt)} = goto_set g cs"
  proof (intro equalityI subsetI)
    fix x assume "x \<in> (\<lambda>i. (goto_symbol cs gt i, from_state gt ! i, to_state gt ! i)) ` {..<length (from_state gt)}"
    then show "x \<in> goto_set g cs" using goto_tables_okD(3,4) [OF gt] by (auto simp: goto_set_def)
  next
    fix x assume "x \<in> goto_set g cs"
    then obtain X p q where x: "x = (X, p, q)" "start_symbol g \<le> X" "moves g cs p X q" by (auto simp: goto_set_def)
    obtain i where "i < length (from_state gt)" "from_state gt ! i = p" "to_state gt ! i = q" "goto_symbol cs gt i = X"
      by (rule goto_number [OF gt x(2,3)])
    then show "x \<in> (\<lambda>i. (goto_symbol cs gt i, from_state gt ! i, to_state gt ! i)) ` {..<length (from_state gt)}" using x(1) by force
  qed
qed

lemma lalr_result:
  assumes g: "grammar_ok g" and st: "lr0_automaton g st" and nul: "\<And>X. X < nsyms g \<Longrightarrow> nul ! X \<longleftrightarrow> derives_empty g X"
    and fits: "lalr_fits g nul st"
  obtains t where "lalr g nul (set_derives g) st = Some t" "lalr_ok g st t"
proof -
  let ?cs = "cores st"
  have cs: "cores_ok g ?cs" and sl: "shifts_ok g ?cs (length ?cs) (shift_list st)" and rl: "reductions_ok g ?cs (length ?cs) (reduction_list st)"
    using st unfolding lr0_automaton_def by iprover+
  let ?acc = "set_accessing_symbol ?cs" and ?st = "set_shift_table (length ?cs) (shift_list st)" and ?rt = "set_reduction_table (length ?cs) (reduction_list st)"
  obtain las rulenos where LA: "initialize_LA ?rt = (las, rulenos)" by (cases "initialize_LA ?rt")
  have small: "la_start g ?cs (length ?cs) \<le> MAXSHORT" and few: "card (goto_set g ?cs) + 2 \<le> MAXSHORT" by (rule lalr_fitsD(2,1) [OF g st fits])+
  note la = initialize_LA_result [OF rl small LA]
  have "set_goto_map g ?acc (shift_list st) \<noteq> None" using set_goto_map_result [OF g cs sl] few by (auto split: option.splits)
  then obtain gt where gtm: "set_goto_map g ?acc (shift_list st) = Some gt" by blast
  then have gt: "goto_tables_ok g ?cs gt" and n: "length (from_state gt) = card (goto_set g ?cs)" using set_goto_map_result [OF g cs sl] by simp_all
  let ?n = "length (from_state gt)"
  have "?n + 2 \<le> MAXSHORT" using few n by simp
  from initialize_F_result [OF g cs sl gt nul this] obtain F where F: "initialize_F g nul ?acc ?st gt = Some F" "length F = ?n"
    "\<And>i. i < ?n \<Longrightarrow> length (F ! i) = WORDSIZE (ntokens g)" "\<And>i. i < ?n \<Longrightarrow> members (F ! i) = {t. can_read g ?cs (from_state gt ! i) (goto_symbol ?cs gt i) t}"
    by auto
  have each: "include_count g nul (set_derives g ! goto_symbol ?cs gt i) \<le> ?n + 1" if "i < ?n" for i
  proof -
    have "(goto_symbol ?cs gt i, from_state gt ! i, to_state gt ! i) \<in> goto_set g ?cs"
      using goto_tables_okD(3,4) [OF gt that] by (simp add: goto_set_def)
    from lalr_fitsD(3) [OF g st fits this] show ?thesis using n by simp
  qed
  have lb0: "lookback_ok g ?cs gt {} (replicate (length rulenos) [])"
    unfolding lookback_ok_def
  proof (intro conjI allI impI)
    show "length (replicate (length rulenos) ([] :: nat list)) = la_start g ?cs (length ?cs)" using la(1) by simp
    fix q j assume "q < length ?cs" "j < length (kernel_reductions g (items_of ?cs q))"
    then have "la_start g ?cs q + j < length rulenos"
      using la(1) la_start_mono [of "Suc q" "length ?cs" g ?cs] la_start_Suc [of g ?cs q] by simp
    then show "set (replicate (length rulenos) ([] :: nat list) ! (la_start g ?cs q + j)) =
      {i. (i, kernel_reductions g (items_of ?cs q) ! j) \<in> {} \<and> walks g ?cs (from_state gt ! i) (rhs g (kernel_reductions g (items_of ?cs q) ! j)) q}" by simp
  qed
  have "\<exists>incs lookback'. build_relations_gotos g nul (set_derives g) ?acc ?st gt las rulenos [0..<?n] (replicate (length rulenos) []) =
      Some (incs, lookback') \<and>
    list_all2 (\<lambda>i edge. set edge = goto_includes g ?cs gt i \<and> length edge = include_count g nul (set_derives g ! goto_symbol ?cs gt i)) [0..<?n] incs \<and>
    lookback_ok g ?cs gt ({} \<union> {(i, r). i \<in> set [0..<?n] \<and> r \<in> set (set_derives g ! goto_symbol ?cs gt i)}) lookback'"
    by (rule build_relations_gotos_result [OF g cs sl rl gt nul small LA lb0]) (use each in auto)
  then obtain incs lookback where inc: "build_relations_gotos g nul (set_derives g) ?acc ?st gt las rulenos [0..<?n] (replicate (length rulenos) []) = Some (incs, lookback)"
    "list_all2 (\<lambda>i edge. set edge = goto_includes g ?cs gt i \<and> length edge = include_count g nul (set_derives g ! goto_symbol ?cs gt i)) [0..<?n] incs"
    and lb: "lookback_ok g ?cs gt {(i, r). i \<in> set [0..<?n] \<and> r \<in> set (set_derives g ! goto_symbol ?cs gt i)} lookback" by auto
  have incs: "length incs = ?n" using list_all2_lengthD [OF inc(2)] by simp
  have inc_i: "set (incs ! i) = goto_includes g ?cs gt i" "length (incs ! i) = include_count g nul (set_derives g ! goto_symbol ?cs gt i)" if "i < ?n" for i
    using list_all2_nthD [OF inc(2), of i] that by simp_all
  have bound: "\<forall>i < ?n. \<forall>j \<in> set (incs ! i). j < ?n" using inc_i(1) by (auto simp: goto_includes_def rule_includes_def)
  have "(\<Sum>i<?n. length (incs ! i)) = (\<Sum>i<?n. include_count g nul (set_derives g ! goto_symbol ?cs gt i))" using inc_i(2) by simp
  also have "\<dots> = (\<Sum>(X, p, q) \<in> goto_set g ?cs. include_count g nul (set_derives g ! X))"
    using sum.reindex_bij_betw [OF goto_numbers_bij [OF gt], of "\<lambda>(X, p, q). include_count g nul (set_derives g ! X)"] by simp
  finally have "(\<Sum>i<?n. length (incs ! i)) \<le> MAXSHORT" using lalr_fitsD(4) [OF g st fits] by simp
  from transpose_relation_result [OF incs bound this] obtain R where R: "transpose_relation incs ?n = Some R" "length R = ?n"
    "\<And>j. j < ?n \<Longrightarrow> set (R ! j) = {i. i < ?n \<and> j \<in> set (incs ! i)}" by blast
  have Rset: "set (R ! j) = {i. i < ?n \<and> j \<in> goto_includes g ?cs gt i}" if "j < ?n" for j using R(3) [OF that] inc_i(1) by auto
  obtain F' where F': "digraph ?n R F = Some F'" "length F' = ?n" "\<And>v. v < ?n \<Longrightarrow> length (F' ! v) = WORDSIZE (ntokens g)"
    "\<And>v. v < ?n \<Longrightarrow> members (F' ! v) = reach_union R F v"
  proof (rule digraph_reach_union [of R ?n F "WORDSIZE (ntokens g)"])
    show "length R = ?n" "length F = ?n" "?n + 2 \<le> MAXSHORT" using R(2) F(2) few n by simp_all
    show "u < ?n" if "v < ?n" "u \<in> set (R ! v)" for v u using Rset [OF that(1)] that(2) by simp
    show "length (F ! v) = WORDSIZE (ntokens g)" if "v < ?n" for v by (rule F(3) [OF that])
  qed (rule that)
  have follow: "members (F' ! i) = {t. can_follow g ?cs (from_state gt ! i) (goto_symbol ?cs gt i) t}" if "i < ?n" for i
    unfolding F'(4) [OF that] by (rule follows_reach [OF g cs gt R(2)]) (use Rset F(4) R(2) that in simp_all)
  define t where "t = \<lparr> accessing_symbol = ?acc, shift_table = ?st, reduction_table = ?rt, lookaheads = las, LAruleno = rulenos,
       LA = compute_lookaheads g lookback F', gotos = gt \<rparr>"
  have "build_relations g nul (set_derives g) ?acc ?st gt las rulenos = Some (R, lookback)"
    using inc(1) R(1) by (simp add: build_relations_def Let_def)
  then have result: "lalr g nul (set_derives g) st = Some t"
    using LA gtm F(1) F'(1) by (simp add: lalr_def Let_def compute_FOLLOWS_def t_def)
  have llen: "length lookback = la_start g ?cs (length ?cs)" using lb by (simp add: lookback_ok_def)
  let ?P = "\<lambda>k. length (LA t ! k) = WORDSIZE (ntokens g) \<and> members (LA t ! k) = (\<Union>v \<in> set (lookback ! k). members (F' ! v))"
  have slot: "?P k" if "k < length lookback" "\<forall>v \<in> set (lookback ! k). v < ?n" for k
    using fold_rows [of "lookback ! k" F' "replicate (WORDSIZE (ntokens g)) 0"] F'(3) that by (simp add: t_def compute_lookaheads_def)
  have place: "\<exists>q j. q < length ?cs \<and> j < length (kernel_reductions g (items_of ?cs q)) \<and> k = la_start g ?cs q + j" if "k < la_start g ?cs m" "m \<le> length ?cs" for k m
    using that
  proof (induction m)
    case 0
    then show ?case by (simp add: la_start_def)
  next
    case (Suc m)
    show ?case
    proof (cases "k < la_start g ?cs m")
      case False
      then show ?thesis using Suc.prems by (intro exI [of _ m] exI [of _ "k - la_start g ?cs m"]) (simp add: la_start_Suc)
    qed (use Suc in simp)
  qed
  have entry: "set (lookback ! (la_start g ?cs q + j)) = {i. (i < ?n \<and> kernel_reductions g (items_of ?cs q) ! j \<in> set (set_derives g ! goto_symbol ?cs gt i)) \<and>
      walks g ?cs (from_state gt ! i) (rhs g (kernel_reductions g (items_of ?cs q) ! j)) q}"
    if "q < length ?cs" "j < length (kernel_reductions g (items_of ?cs q))" for q j
    using lb that by (simp add: lookback_ok_def)
  have slots: "?P k" if kl: "k < length lookback" for k
  proof -
    obtain q j where "q < length ?cs" "j < length (kernel_reductions g (items_of ?cs q))" "k = la_start g ?cs q + j"
      using place [OF kl [unfolded llen] order_refl] by blast
    then have "\<forall>v \<in> set (lookback ! k). v < ?n" using entry by auto
    then show ?thesis by (rule slot [OF kl])
  qed
  have "members (LA t ! (la_start g ?cs q + j)) = lalr_lookaheads g ?cs q (kernel_reductions g (items_of ?cs q) ! j)"
    if q: "q < length ?cs" and j: "j < length (kernel_reductions g (items_of ?cs q))" for q j
  proof -
    let ?r = "kernel_reductions g (items_of ?cs q) ! j"
    have "la_start g ?cs q + j < length lookback"
      using llen la_start_mono [of "Suc q" "length ?cs" g ?cs] la_start_Suc [of g ?cs q] q j by simp
    from slots [OF this] have m: "members (LA t ! (la_start g ?cs q + j)) = (\<Union>v \<in> set (lookback ! (la_start g ?cs q + j)). members (F' ! v))" by blast
    have rk: "2 \<le> ?r" "?r < nrules g" using kernel_reductions_facts(2) [OF g cs q] j by (meson nth_mem)+
    then have rv: "start_symbol g \<le> rlhs g ! ?r" using rlhs_var(1) [OF g] by blast
    show ?thesis
    proof (intro equalityI subsetI)
      fix x assume "x \<in> members (LA t ! (la_start g ?cs q + j))"
      then obtain i where i: "i < ?n" "?r \<in> set (set_derives g ! goto_symbol ?cs gt i)" "walks g ?cs (from_state gt ! i) (rhs g ?r) q" "x \<in> members (F' ! i)"
        unfolding m entry [OF q j] by blast
      then have "rlhs g ! ?r = goto_symbol ?cs gt i" using derives_of_goto [OF g cs gt i(1)] by blast
      then show "x \<in> lalr_lookaheads g ?cs q ?r" using i(3,4) follow [OF i(1)] by (auto simp: lalr_lookaheads_def)
    next
      fix x assume "x \<in> lalr_lookaheads g ?cs q ?r"
      then obtain p where p: "walks g ?cs p (rhs g ?r) q" "can_follow g ?cs p (rlhs g ! ?r) x" by (auto simp: lalr_lookaheads_def)
      then obtain p' where "moves g ?cs p (rlhs g ! ?r) p'" using can_follow_moves by blast
      then obtain i where i: "i < ?n" "from_state gt ! i = p" "goto_symbol ?cs gt i = rlhs g ! ?r" by (rule goto_number [OF gt rv])
      have "?r \<noteq> 2" using rlhs_var(3) [OF g rk(2)] moves_bounds(3) [OF g cs goto_tables_okD(4) [OF gt i(1)]] i(3) by metis
      then have "?r \<in> set (set_derives g ! goto_symbol ?cs gt i)" using derives_of_goto [OF g cs gt i(1)] rk i(3) by auto
      then have "i \<in> set (lookback ! (la_start g ?cs q + j))" unfolding entry [OF q j] using i(1,2) p(1) by simp
      moreover have "x \<in> members (F' ! i)" using follow [OF i(1)] p(2) i(2,3) by simp
      ultimately show "x \<in> members (LA t ! (la_start g ?cs q + j))" unfolding m by blast
    qed
  qed
  moreover have "\<forall>row \<in> set (LA t). length row = WORDSIZE (ntokens g)"
  proof -
    have "length (LA t) = length lookback" by (simp add: t_def compute_lookaheads_def)
    then show ?thesis using slots by (auto simp: in_set_conv_nth)
  qed
  moreover have "length (LA t) = la_start g ?cs (length ?cs)" using llen by (simp add: t_def compute_lookaheads_def)
  ultimately have "lalr_ok g st t" using gt la(2,3) by (simp add: lalr_ok_def t_def)
  then show thesis by (rule that [OF result])
qed

end
