(* ===== verification/Jay_Mkpar.thy ===== *)
theory Jay_Mkpar
  imports Jay_Lookaheads
begin

text \<open>
  \<open>mkpar.c\<close>: the actions of the parser for every state, without conflicts. A chain of actions is a list; the pointer \<open>pref\<close> into it
  an index. \<open>total_conflicts\<close> and the messages of \<open>unused_rules\<close> only print.
\<close>

section \<open>Actions\<close>

datatype action_code = SHIFT | REDUCE

record action =
  symbol :: nat
  number :: nat
  prec :: int
  action_code :: action_code
  assoc :: assoc_code
  suppressed :: nat

definition get_shifts :: "grammar \<Rightarrow> lalr_tables \<Rightarrow> nat \<Rightarrow> action list" where
  "get_shifts g t stateno =
     (case shift_table t ! stateno of
        None \<Rightarrow> []
      | Some sp \<Rightarrow> fold (\<lambda>k actions. let symbol = accessing_symbol t ! k in
            if ISTOKEN g (int symbol)
            then \<lparr> symbol = symbol, number = k, prec = symbol_prec g ! symbol, action_code = SHIFT, assoc = symbol_assoc g ! symbol,
                   suppressed = 0 \<rparr> # actions
            else actions) (rev (shift sp)) [])"

fun add_reduce :: "grammar \<Rightarrow> action list \<Rightarrow> nat \<Rightarrow> nat \<Rightarrow> action list" where
  "add_reduce g actions ruleno symb =
     (let before = takeWhile (\<lambda>p. symbol p < symb) actions;
          next1 = dropWhile (\<lambda>p. symbol p < symb) actions;
          shifts = takeWhile (\<lambda>p. symbol p = symb \<and> action_code p = SHIFT) next1;
          next2 = dropWhile (\<lambda>p. symbol p = symb \<and> action_code p = SHIFT) next1;
          smaller = takeWhile (\<lambda>p. symbol p = symb \<and> action_code p = REDUCE \<and> number p < ruleno) next2;
          next3 = dropWhile (\<lambda>p. symbol p = symb \<and> action_code p = REDUCE \<and> number p < ruleno) next2
      in before @ shifts @ smaller @
         \<lparr> symbol = symb, number = ruleno, prec = rprec g ! ruleno, action_code = REDUCE, assoc = rassoc g ! ruleno, suppressed = 0 \<rparr> # next3)"

definition add_reductions :: "grammar \<Rightarrow> lalr_tables \<Rightarrow> nat \<Rightarrow> action list \<Rightarrow> action list" where
  "add_reductions g t stateno actions =
     fold (\<lambda>i actions. let ruleno = LAruleno t ! i; rowp = LA t ! i in
         fold (\<lambda>j actions. if BIT rowp j \<noteq> 0 then add_reduce g actions ruleno j else actions) (rev [0..<ntokens g]) actions)
       [nat (lookaheads t ! stateno)..<nat (lookaheads t ! (stateno + 1))] actions"

definition parse_actions :: "grammar \<Rightarrow> lalr_tables \<Rightarrow> nat \<Rightarrow> action list" where
  "parse_actions g t stateno = add_reductions g t stateno (get_shifts g t stateno)"

section \<open>The final state\<close>

text \<open>The loop runs down from the last shift and leaves the first one when it does not find the goal.\<close>

fun final_state_loop :: "lalr_tables \<Rightarrow> int \<Rightarrow> nat list \<Rightarrow> nat \<Rightarrow> nat" where
  "final_state_loop t goal [] final_state = final_state"
| "final_state_loop t goal (s # ss) final_state =
     (if int (accessing_symbol t ! s) = goal then s else final_state_loop t goal ss s)"

definition find_final_state :: "grammar \<Rightarrow> lalr_tables \<Rightarrow> nat option" where
  "find_final_state g t = do {
     p \<leftarrow> shift_table t ! 0;
     let goal = ritem g ! 1;
     Some (final_state_loop t goal (rev (shift p)) 0)
   }"

section \<open>Conflicts\<close>

text \<open>The loop over the actions of one state: the actions, \<open>symbol\<close>, the index \<open>pref\<close>, \<open>SRcount\<close> and \<open>RRcount\<close>.\<close>

definition suppress :: "nat \<Rightarrow> nat \<Rightarrow> action list \<Rightarrow> action list" where
  "suppress k how actions = actions[k := (actions ! k)\<lparr> suppressed := how \<rparr>]"

definition remove_conflicts_step ::
  "bool \<Rightarrow> nat \<Rightarrow> action list \<times> int \<times> nat \<times> nat \<times> nat \<Rightarrow> action list \<times> int \<times> nat \<times> nat \<times> nat" where
  "remove_conflicts_step is_final p st =
     (let (actions, symb, pref, SRcount, RRcount) = st; act = actions ! p; prefact = actions ! pref in
      if int (symbol act) \<noteq> symb then (actions, int (symbol act), p, SRcount, RRcount)
      else if is_final \<and> symb = 0 then (suppress p 1 actions, symb, pref, SRcount + 1, RRcount)
      else if action_code prefact = SHIFT
      then
        if 0 < prec prefact \<and> 0 < prec act
        then
          if prec prefact < prec act then (suppress pref 2 actions, symb, p, SRcount, RRcount)
          else if prec act < prec prefact then (suppress p 2 actions, symb, pref, SRcount, RRcount)
          else if assoc prefact = LEFT then (suppress pref 2 actions, symb, p, SRcount, RRcount)
          else if assoc prefact = RIGHT then (suppress p 2 actions, symb, pref, SRcount, RRcount)
          else (suppress p 2 (suppress pref 2 actions), symb, pref, SRcount, RRcount)
        else (suppress p 1 actions, symb, pref, SRcount + 1, RRcount)
      else (suppress p 1 actions, symb, pref, SRcount, RRcount + 1))"

definition remove_conflicts_state :: "bool \<Rightarrow> action list \<Rightarrow> action list \<times> nat \<times> nat" where
  "remove_conflicts_state is_final actions =
     (let (actions, _, _, SRcount, RRcount) = fold (remove_conflicts_step is_final) [0..<length actions] (actions, -1, 0, 0, 0) in
      (actions, SRcount, RRcount))"

record conflict_counts =
  SRconflicts :: "int list"
  RRconflicts :: "int list"
  SRtotal :: nat
  RRtotal :: nat

definition remove_conflicts :: "nat \<Rightarrow> action list list \<Rightarrow> action list list \<times> conflict_counts" where
  "remove_conflicts final_state parser =
     (let results = map (\<lambda>i. remove_conflicts_state (i = final_state) (parser ! i)) [0..<length parser] in
      (map fst results,
       \<lparr> SRconflicts = map (\<lambda>r. to_short (int (fst (snd r)))) results, RRconflicts = map (\<lambda>r. to_short (int (snd (snd r)))) results,
         SRtotal = sum_list (map (\<lambda>r. fst (snd r)) results), RRtotal = sum_list (map (\<lambda>r. snd (snd r)) results) \<rparr>))"

section \<open>Unused rules and default reductions\<close>

definition unused_rules :: "grammar \<Rightarrow> action list list \<Rightarrow> bool list \<times> nat" where
  "unused_rules g parser =
     (let rules_used = fold (\<lambda>actions used. fold (\<lambda>p used. if action_code p = REDUCE \<and> suppressed p = 0 then used[number p := True] else used) actions used)
            parser (replicate (nrules g) False) in
      (rules_used, length (filter (\<lambda>i. \<not> rules_used ! i) [3..<nrules g])))"

fun sole_reduction_loop :: "action list \<Rightarrow> nat \<Rightarrow> nat \<Rightarrow> nat" where
  "sole_reduction_loop [] counts ruleno = (if counts = 0 then 0 else ruleno)"
| "sole_reduction_loop (p # ps) counts ruleno =
     (if action_code p = SHIFT \<and> suppressed p = 0 then 0
      else if action_code p = REDUCE \<and> suppressed p = 0
      then if 0 < ruleno \<and> number p \<noteq> ruleno then 0
           else sole_reduction_loop ps (if symbol p \<noteq> 1 then counts + 1 else counts) (number p)
      else sole_reduction_loop ps counts ruleno)"

definition sole_reduction :: "action list list \<Rightarrow> nat \<Rightarrow> nat" where
  "sole_reduction parser stateno = sole_reduction_loop (parser ! stateno) 0 0"

definition defreds :: "action list list \<Rightarrow> nat list" where
  "defreds parser = map (sole_reduction parser) [0..<length parser]"

record parser_tables =
  parser :: "action list list"
  conflicts :: conflict_counts
  rules_used :: "bool list"
  nunused :: nat
  defred :: "nat list"
  final_state :: nat

definition make_parser :: "grammar \<Rightarrow> lalr_tables \<Rightarrow> nat \<Rightarrow> parser_tables option" where
  "make_parser g t nstates = do {
     let parser = map (parse_actions g t) [0..<nstates];
     final_state \<leftarrow> find_final_state g t;
     let (parser, conflicts) = remove_conflicts final_state parser;
     let (rules_used, nunused) = unused_rules g parser;
     Some \<lparr> parser = parser, conflicts = conflicts, rules_used = rules_used, nunused = nunused, defred = defreds parser,
       final_state = final_state \<rparr>
   }"

section \<open>The actions of a state\<close>

text \<open>What an action is, without its precedence and whether it is suppressed.\<close>

abbreviation action_key :: "action \<Rightarrow> action_code \<times> nat \<times> nat" where
  "action_key p \<equiv> (action_code p, symbol p, number p)"

definition symbols_sorted :: "action list \<Rightarrow> bool" where
  "symbols_sorted actions \<longleftrightarrow> sorted (map symbol actions)"

text \<open>The order of a chain: by symbol, and for one symbol the shift before the reductions and these by the number of their rule.\<close>

definition action_before :: "action \<Rightarrow> action \<Rightarrow> bool" where
  "action_before p p' \<longleftrightarrow> symbol p < symbol p' \<or>
     symbol p = symbol p' \<and> action_code p' = REDUCE \<and> (action_code p = SHIFT \<or> number p < number p')"

lemma chain_sorted_distinct:
  assumes "sorted_wrt action_before actions"
  shows "symbols_sorted actions" "distinct (map action_key actions)"
proof -
  have "sorted_wrt (\<lambda>p p'. symbol p \<le> symbol p') actions"
    by (rule sorted_wrt_mono_rel [OF _ assms]) (auto simp: action_before_def)
  then show "symbols_sorted actions" by (simp add: symbols_sorted_def sorted_wrt_map)
  have "sorted_wrt (\<lambda>p p'. action_key p \<noteq> action_key p') actions"
    by (rule sorted_wrt_mono_rel [OF _ assms]) (auto simp: action_before_def)
  then show "distinct (map action_key actions)"
    by (simp add: distinct_conv_nth sorted_wrt_iff_nth_less) (metis nat_neq_iff)
qed

text \<open>A shift has the precedence of its token, a reduction that of its rule.\<close>

definition action_level :: "grammar \<Rightarrow> action \<Rightarrow> bool" where
  "action_level g p \<longleftrightarrow> (prec p, assoc p) =
     (case action_code p of SHIFT \<Rightarrow> (symbol_prec g ! symbol p, symbol_assoc g ! symbol p)
      | REDUCE \<Rightarrow> (rprec g ! number p, rassoc g ! number p))"

lemma add_reduce_split:
  assumes "sorted_wrt action_before actions" and new_key: "(REDUCE, X, r) \<notin> set (map action_key actions)"
  obtains before after new where "actions = before @ after" "add_reduce g actions r X = before @ new # after"
    "action_key new = (REDUCE, X, r)" "suppressed new = 0" "action_level g new"
    "\<forall>p \<in> set before. action_before p new" "\<forall>p \<in> set after. action_before new p"
proof -
  define A where "A = takeWhile (\<lambda>p. symbol p < X) actions"
  define n1 where "n1 = dropWhile (\<lambda>p. symbol p < X) actions"
  define S where "S = takeWhile (\<lambda>p. symbol p = X \<and> action_code p = SHIFT) n1"
  define n2 where "n2 = dropWhile (\<lambda>p. symbol p = X \<and> action_code p = SHIFT) n1"
  define M where "M = takeWhile (\<lambda>p. symbol p = X \<and> action_code p = REDUCE \<and> number p < r) n2"
  define n3 where "n3 = dropWhile (\<lambda>p. symbol p = X \<and> action_code p = REDUCE \<and> number p < r) n2"
  define new where "new = \<lparr> symbol = X, number = r, prec = rprec g ! r, action_code = REDUCE, assoc = rassoc g ! r, suppressed = 0 \<rparr>"
  have eq: "actions = A @ n1" "n1 = S @ n2" "n2 = M @ n3" by (simp_all add: A_def n1_def S_def n2_def M_def n3_def)
  have s: "sorted_wrt action_before n1" "sorted_wrt action_before n2" "sorted_wrt action_before n3"
    using assms(1) unfolding eq by (auto simp: sorted_wrt_append)
  have n1: "X \<le> symbol p" if "p \<in> set n1" for p
  proof -
    have "\<not> symbol (hd n1) < X" using that hd_dropWhile [of "\<lambda>p. symbol p < X" actions] unfolding n1_def [symmetric] by fastforce
    moreover have "symbol (hd n1) \<le> symbol p" using s(1) that by (cases n1) (auto simp: action_before_def)
    ultimately show ?thesis by simp
  qed
  have n2: "action_code p = REDUCE" if p: "p \<in> set n2" "symbol p = X" for p
  proof -
    obtain h t where h: "n2 = h # t" using p(1) by (cases n2) auto
    have "\<not> (symbol h = X \<and> action_code h = SHIFT)"
      using hd_dropWhile [of "\<lambda>p. symbol p = X \<and> action_code p = SHIFT" n1] h unfolding n2_def [symmetric] by simp
    moreover have "X \<le> symbol h" using n1 eq(2) h by simp
    ultimately show ?thesis using p h s(2) by (cases "action_code h") (auto simp: action_before_def)
  qed
  have n3: "r < number p" if p: "p \<in> set n3" "symbol p = X" for p
  proof -
    obtain h t where h: "n3 = h # t" using p(1) by (cases n3) auto
    have nh: "\<not> (symbol h = X \<and> action_code h = REDUCE \<and> number h < r)"
      using hd_dropWhile [of "\<lambda>p. symbol p = X \<and> action_code p = REDUCE \<and> number p < r" n2] h unfolding n3_def [symmetric] by simp
    have "X \<le> symbol h" using n1 eq(2,3) h by simp
    then have sh: "symbol h = X" using p h s(3) by (auto simp: action_before_def)
    then have rh: "action_code h = REDUCE" using n2 [of h] eq(3) h by simp
    have "(REDUCE, X, number h) \<in> set (map action_key actions)" using sh rh h eq by force
    then have "number h \<noteq> r" using new_key by metis
    with nh sh rh have "r < number h" by simp
    then show ?thesis using p h s(3) sh rh by (auto simp: action_before_def)
  qed
  show thesis
  proof (rule that [of "A @ S @ M" n3 new])
    show "actions = (A @ S @ M) @ n3" using eq by simp
    show "add_reduce g actions r X = (A @ S @ M) @ new # n3"
      by (simp add: add_reduce.simps A_def n1_def S_def n2_def M_def n3_def new_def Let_def)
    show "action_key new = (REDUCE, X, r)" "suppressed new = 0" "action_level g new" by (simp_all add: new_def action_level_def)
    show "\<forall>p \<in> set (A @ S @ M). action_before p new" by (auto simp: A_def S_def M_def new_def action_before_def dest!: set_takeWhileD)
    show "\<forall>p \<in> set n3. action_before new p"
    proof
      fix p assume p: "p \<in> set n3"
      then have "X \<le> symbol p" using n1 eq by simp
      then show "action_before new p" using n3 [OF p] n2 [of p] p eq(3) by (cases "symbol p = X") (auto simp: new_def action_before_def)
    qed
  qed
qed

declare add_reduce.simps [simp del]

text \<open>Adding the reductions of all lookaheads.\<close>

definition actions_ok :: "grammar \<Rightarrow> (action_code \<times> nat \<times> nat) set \<Rightarrow> action list \<Rightarrow> bool" where
  "actions_ok g K actions \<longleftrightarrow> sorted_wrt action_before actions \<and> set (map action_key actions) = K \<and>
     (\<forall>p \<in> set actions. suppressed p = 0 \<and> action_level g p)"

lemma add_reduce_ok:
  assumes "actions_ok g K actions" "(REDUCE, X, r) \<notin> K"
  shows "actions_ok g (insert (REDUCE, X, r) K) (add_reduce g actions r X)"
proof -
  have s: "sorted_wrt action_before actions" and k: "set (map action_key actions) = K" using assms(1) unfolding actions_ok_def by iprover+
  obtain before after new where a: "actions = before @ after" "add_reduce g actions r X = before @ new # after"
    "action_key new = (REDUCE, X, r)" "suppressed new = 0" "action_level g new"
    "\<forall>p \<in> set before. action_before p new" "\<forall>p \<in> set after. action_before new p"
    by (rule add_reduce_split [OF s, of X r g]) (use assms(2) k in blast)
  have "set (map action_key (add_reduce g actions r X)) = insert (action_key new) (set (map action_key actions))"
    unfolding a(2) unfolding a(1) by auto
  moreover have "sorted_wrt action_before (add_reduce g actions r X)"
    using s a(6,7) unfolding a(2) unfolding a(1) by (auto simp: sorted_wrt_append)
  moreover have "\<forall>p \<in> set (add_reduce g actions r X). suppressed p = 0 \<and> action_level g p"
    using assms(1) a(4,5) unfolding a(2) actions_ok_def unfolding a(1) by auto
  ultimately show ?thesis unfolding actions_ok_def a(3) k by blast
qed

lemma fold_add_reduce:
  assumes "actions_ok g K actions" "distinct js" "\<And>j. j \<in> set js \<Longrightarrow> (REDUCE, j, r) \<notin> K"
  shows "actions_ok g (K \<union> {(REDUCE, j, r) | j. j \<in> set js \<and> P j}) (fold (\<lambda>j actions. if P j then add_reduce g actions r j else actions) js actions)"
  using assms
proof (induction js arbitrary: K actions)
  case (Cons j js)
  show ?case
  proof (cases "P j")
    case True
    have "actions_ok g (insert (REDUCE, j, r) K) (add_reduce g actions r j)" using Cons.prems by (intro add_reduce_ok) auto
    from Cons.IH [OF this] Cons.prems have
      "actions_ok g (insert (REDUCE, j, r) K \<union> {(REDUCE, j, r) | j. j \<in> set js \<and> P j})
        (fold (\<lambda>j actions. if P j then add_reduce g actions r j else actions) js (add_reduce g actions r j))" by auto
    moreover have "insert (REDUCE, j, r) K \<union> {(REDUCE, j, r) | j. j \<in> set js \<and> P j} = K \<union> {(REDUCE, j', r) | j'. j' \<in> set (j # js) \<and> P j'}"
      using True by auto
    ultimately show ?thesis using True by simp
  next
    case False
    have "K \<union> {(REDUCE, j, r) | j. j \<in> set js \<and> P j} = K \<union> {(REDUCE, j', r) | j'. j' \<in> set (j # js) \<and> P j'}" using False by auto
    then show ?thesis using False Cons.IH [OF Cons.prems(1)] Cons.prems(2,3) by simp
  qed
qed simp

text \<open>The actions of a state, as a set: shifts of tokens, and reductions with their lookaheads.\<close>

definition state_actions :: "grammar \<Rightarrow> core list \<Rightarrow> nat \<Rightarrow> (action_code \<times> nat \<times> nat) set" where
  "state_actions g cs q = {(SHIFT, X, s) | X s. X < start_symbol g \<and> moves g cs q X s} \<union>
     {(REDUCE, X, r) | X r. r \<in> set (kernel_reductions g (items_of cs q)) \<and> X < ntokens g \<and> X \<in> lalr_lookaheads g cs q r}"

lemma get_shifts_ok:
  assumes g: "grammar_ok g" and st: "lr0_automaton g st" and t: "lalr_ok g st t" and q: "q < length (cores st)"
  shows "actions_ok g {(SHIFT, X, s) | X s. X < start_symbol g \<and> moves g (cores st) q X s} (get_shifts g t q)"
proof -
  let ?cs = "cores st" and ?acc = "set_accessing_symbol (cores st)"
  have cs: "cores_ok g ?cs" and sl: "shifts_ok g ?cs (length ?cs) (shift_list st)" using st unfolding lr0_automaton_def by iprover+
  have tt: "accessing_symbol t = ?acc" "shift_table t = set_shift_table (length ?cs) (shift_list st)" using t unfolding lalr_ok_def by iprover+
  note tm = shift_table_moves [OF g cs sl q]
  let ?ss = "shifts_of (shift_table t) q"
  have lt: "s < length ?cs" if "s \<in> set ?ss" for s using tm(1) [of "core_symbol (?cs ! s)" s] that moves_symbol by (auto simp: tt)
  let ?mk = "\<lambda>k. \<lparr> symbol = ?acc ! k, number = k, prec = symbol_prec g ! (?acc ! k), action_code = SHIFT, assoc = symbol_assoc g ! (?acc ! k), suppressed = 0 \<rparr>"
  let ?step = "\<lambda>k actions. let symbol = accessing_symbol t ! k in
            if ISTOKEN g (int symbol)
            then \<lparr> symbol = symbol, number = k, prec = symbol_prec g ! symbol, action_code = SHIFT, assoc = symbol_assoc g ! symbol, suppressed = 0 \<rparr> # actions
            else actions"
  have run: "fold ?step (rev ss) acts = map ?mk (filter (\<lambda>k. ?acc ! k < start_symbol g) ss) @ acts" for ss acts
    by (induction ss arbitrary: acts rule: rev_induct) (simp_all add: Let_def ISTOKEN_def tt)
  have gs: "get_shifts g t q = map ?mk (filter (\<lambda>k. ?acc ! k < start_symbol g) ?ss)"
    using run [of ?ss "[]"] by (cases "shift_table t ! q") (simp_all add: get_shifts_def shifts_of_def)
  have syms: "map (\<lambda>k. ?acc ! k) ?ss = sorted_list_of_set (goto_symbols g (items_of ?cs q))"
    using tm(2) accessing_symbol_core(2) [OF cs] lt by (metis (no_types, lifting) map_cong tt(2))
  have inc: "sorted_wrt (\<lambda>x y. ?acc ! x < ?acc ! y) ?ss" using syms by (metis sorted_wrt_map strict_sorted_list_of_set)
  then have inc': "sorted_wrt (\<lambda>x y. ?acc ! x < ?acc ! y) (filter (\<lambda>k. ?acc ! k < start_symbol g) ?ss)" by (rule sorted_wrt_filter)
  have "sorted_wrt action_before (get_shifts g t q)"
    unfolding gs sorted_wrt_map by (rule sorted_wrt_mono_rel [OF _ inc']) (simp add: action_before_def)
  moreover have "set (map action_key (get_shifts g t q)) = {(SHIFT, X, s) | X s. X < start_symbol g \<and> moves g ?cs q X s}"
    unfolding gs using tm(1) accessing_symbol_core(2) [OF cs] lt by (fastforce simp: tt)
  moreover have "\<forall>p \<in> set (get_shifts g t q). suppressed p = 0 \<and> action_level g p" unfolding gs by (auto simp: action_level_def)
  ultimately show ?thesis by (simp add: actions_ok_def)
qed

lemma parse_actions_ok:
  assumes g: "grammar_ok g" and st: "lr0_automaton g st" and t: "lalr_ok g st t" and q: "q < length (cores st)"
  shows "actions_ok g (state_actions g (cores st) q) (parse_actions g t q)"
proof -
  let ?cs = "cores st" and ?kr = "kernel_reductions g (items_of (cores st) q)"
  have cs: "cores_ok g ?cs" using st unfolding lr0_automaton_def by iprover
  let ?b = "la_start g ?cs q"
  have la: "lookaheads t ! q = int ?b" "lookaheads t ! (q + 1) = int (?b + length ?kr)"
  proof -
    have all: "\<forall>q \<le> length ?cs. lookaheads t ! q = int (la_start g ?cs q)" using t unfolding lalr_ok_def by iprover
    show "lookaheads t ! q = int ?b" "lookaheads t ! (q + 1) = int (?b + length ?kr)"
      using all [rule_format, of q] all [rule_format, of "q + 1"] q by (simp_all add: la_start_Suc)
  qed
  have slot: "LAruleno t ! (?b + j) = ?kr ! j \<and> members (LA t ! (?b + j)) = lalr_lookaheads g ?cs q (?kr ! j)" if "j < length ?kr" for j
    using t q that unfolding lalr_ok_def by blast
  have row: "length (LA t ! (?b + j)) = WORDSIZE (ntokens g)" if "j < length ?kr" for j
  proof -
    have len: "length (LA t) = la_start g ?cs (length ?cs)" "\<forall>row \<in> set (LA t). length row = WORDSIZE (ntokens g)"
      using t unfolding lalr_ok_def by iprover+
    have "?b + j < length (LA t)" using len(1) la_start_mono [of "Suc q" "length ?cs" g ?cs] la_start_Suc [of g ?cs q] q that by simp
    then show ?thesis using len(2) nth_mem by blast
  qed
  define step where "step = (\<lambda>i actions. let ruleno = LAruleno t ! i; rowp = LA t ! i in
         fold (\<lambda>j actions. if BIT rowp j \<noteq> 0 then add_reduce g actions ruleno j else actions) (rev [0..<ntokens g]) actions)"
  have "actions_ok g ({(SHIFT, X, s) | X s. X < start_symbol g \<and> moves g ?cs q X s} \<union>
      {(REDUCE, X, r) | X r. r \<in> set (take m ?kr) \<and> X < ntokens g \<and> X \<in> lalr_lookaheads g ?cs q r})
      (fold step [?b..<?b + m] (get_shifts g t q))" if "m \<le> length ?kr" for m
    using that
  proof (induction m)
    case 0
    then show ?case using get_shifts_ok [OF g st t q] by simp
  next
    case (Suc m)
    let ?K = "{(SHIFT, X, s) | X s. X < start_symbol g \<and> moves g ?cs q X s} \<union>
      {(REDUCE, X, r) | X r. r \<in> set (take m ?kr) \<and> X < ntokens g \<and> X \<in> lalr_lookaheads g ?cs q r}"
    let ?r = "?kr ! m"
    have m: "m < length ?kr" using Suc.prems by simp
    have new: "?r \<notin> set (take m ?kr)"
    proof -
      have "distinct (take (Suc m) ?kr)" using kernel_reductions_facts(1) [OF g cs q] by simp
      then show ?thesis using m by (simp add: take_Suc_conv_app_nth)
    qed
    have bit: "BIT (LA t ! (?b + m)) j \<noteq> 0 \<longleftrightarrow> j \<in> lalr_lookaheads g ?cs q ?r" if "j < ntokens g" for j
      using BIT_iff [of j "LA t ! (?b + m)"] row [OF m] slot [OF m] that WORDSIZE_enough [of "ntokens g"] by simp
    have "actions_ok g (?K \<union> {(REDUCE, j, ?r) | j. j \<in> set (rev [0..<ntokens g]) \<and> BIT (LA t ! (?b + m)) j \<noteq> 0})
      (fold (\<lambda>j actions. if BIT (LA t ! (?b + m)) j \<noteq> 0 then add_reduce g actions ?r j else actions) (rev [0..<ntokens g])
        (fold step [?b..<?b + m] (get_shifts g t q)))"
      by (rule fold_add_reduce) (use Suc new in auto)
    moreover have "?K \<union> {(REDUCE, j, ?r) | j. j \<in> set (rev [0..<ntokens g]) \<and> BIT (LA t ! (?b + m)) j \<noteq> 0} =
      {(SHIFT, X, s) | X s. X < start_symbol g \<and> moves g ?cs q X s} \<union>
      {(REDUCE, X, r) | X r. r \<in> set (take (Suc m) ?kr) \<and> X < ntokens g \<and> X \<in> lalr_lookaheads g ?cs q r}"
    proof -
      have "set (take (Suc m) ?kr) = insert ?r (set (take m ?kr))" using m by (simp add: take_Suc_conv_app_nth)
      then show ?thesis using bit by auto
    qed
    moreover have "fold step [?b..<?b + Suc m] (get_shifts g t q) =
      fold (\<lambda>j actions. if BIT (LA t ! (?b + m)) j \<noteq> 0 then add_reduce g actions ?r j else actions) (rev [0..<ntokens g])
        (fold step [?b..<?b + m] (get_shifts g t q))"
    proof -
      have "LAruleno t ! (?b + m) = ?r" using slot [OF m] by simp
      moreover have "[?b..<?b + Suc m] = [?b..<?b + m] @ [?b + m]" by simp
      ultimately show ?thesis by (simp only: fold_append fold.simps comp_apply id_apply step_def Let_def)
    qed
    ultimately show ?case by (simp only:)
  qed
  from this [of "length ?kr"] show ?thesis
    unfolding parse_actions_def add_reductions_def state_actions_def la nat_int step_def by simp
qed

end
