(* ===== verification/Jay_Conflicts.thy ===== *)
theory Jay_Conflicts
  imports Jay_Mkpar
begin

text \<open>
  \<open>remove_conflicts\<close> of \<open>mkpar.c\<close>, which changes the chain of actions while it runs over it: at most one action is left for each
  state and token, and which one it is.
\<close>

section \<open>Which action is left\<close>

text \<open>
  Between a shift and a reduction that both have a precedence: the reduction wins if its precedence is the higher one, or if they are equal
  and the token is left associative; neither wins if they are equal and the token is neither left nor right associative.
\<close>

definition reduce_wins :: "int \<Rightarrow> assoc_code \<Rightarrow> int \<Rightarrow> bool" where
  "reduce_wins sp sa rp \<longleftrightarrow> 0 < sp \<and> 0 < rp \<and> (sp < rp \<or> sp = rp \<and> sa = LEFT)"

definition none_wins :: "int \<Rightarrow> assoc_code \<Rightarrow> int \<Rightarrow> bool" where
  "none_wins sp sa rp \<longleftrightarrow> 0 < sp \<and> 0 < rp \<and> sp = rp \<and> sa \<noteq> LEFT \<and> sa \<noteq> RIGHT"

text \<open>
  What is to be left of a set \<open>A\<close> of actions for the token \<open>X\<close>. Without a shift it is the reduction by the first rule. With a shift, and not
  at the end of the input in the final state, it is the reduction by the first rule that wins over the shift; if none does, nothing
  if there is one with which neither wins, and the shift otherwise.
\<close>

definition settled :: "grammar \<Rightarrow> bool \<Rightarrow> (action_code \<times> nat \<times> nat) set \<Rightarrow> nat \<Rightarrow> (action_code \<times> nat \<times> nat) set" where
  "settled g is_final A X =
     (let shifts = {(SHIFT, X, s) | s. (SHIFT, X, s) \<in> A};
          rules = {r. (REDUCE, X, r) \<in> A};
          winning = {r \<in> rules. reduce_wins (symbol_prec g ! X) (symbol_assoc g ! X) (rprec g ! r)} in
      if shifts = {} then (\<lambda>r. (REDUCE, X, r)) ` {r \<in> rules. \<forall>r' \<in> rules. r \<le> r'}
      else if is_final \<and> X = 0 then shifts
      else if winning \<noteq> {} then (\<lambda>r. (REDUCE, X, r)) ` {r \<in> winning. \<forall>r' \<in> winning. r \<le> r'}
      else if \<exists>r \<in> rules. none_wins (symbol_prec g ! X) (symbol_assoc g ! X) (rprec g ! r) then {}
      else shifts)"

section \<open>Removing conflicts\<close>

lemma length_suppress [simp]: "length (suppress k how actions) = length actions"
  by (simp add: suppress_def)

lemma suppress_nth: "k < length actions \<Longrightarrow> suppress k how actions ! i = (if i = k then (actions ! k)\<lparr> suppressed := how \<rparr> else actions ! i)"
  by (simp add: suppress_def nth_list_update)

text \<open>After the first \<open>k\<close> actions of a chain sorted by symbol: one suppressed of any two with the same symbol, and only \<open>pref\<close> perhaps not
  of those with the current symbol.\<close>

definition conflicts_inv :: "action list \<Rightarrow> nat \<Rightarrow> action list \<times> int \<times> nat \<times> nat \<times> nat \<Rightarrow> bool" where
  "conflicts_inv actions0 k st \<longleftrightarrow> (case st of (actions, s, pref, SRcount, RRcount) \<Rightarrow>
     length actions = length actions0 \<and> (\<forall>i < length actions0. actions ! i = (actions0 ! i)\<lparr> suppressed := suppressed (actions ! i) \<rparr>) \<and>
     (if k = 0 then s = -1 else pref < k \<and> s = int (symbol (actions0 ! (k - 1))) \<and> s = int (symbol (actions0 ! pref)) \<and> suppressed (actions ! pref) \<noteq> 1) \<and>
     (\<forall>i < k. i \<noteq> pref \<longrightarrow> int (symbol (actions0 ! i)) = s \<longrightarrow> suppressed (actions ! i) \<noteq> 0) \<and>
     (\<forall>i < length actions0. k \<le> i \<longrightarrow> suppressed (actions ! i) = 0) \<and>
     (\<forall>i < k. \<forall>j < k. i \<noteq> j \<longrightarrow> symbol (actions0 ! i) = symbol (actions0 ! j) \<longrightarrow> suppressed (actions ! i) \<noteq> 0 \<or> suppressed (actions ! j) \<noteq> 0) \<and>
     (\<forall>i < k. suppressed (actions ! i) \<noteq> 0 \<longrightarrow> (\<exists>j < k. j \<noteq> i \<and> symbol (actions0 ! j) = symbol (actions0 ! i))) \<and>
     SRcount + RRcount = card {i. i < k \<and> suppressed (actions ! i) = 1})"

lemma card_suppressed_Suc:
  assumes "\<And>i. i < k \<Longrightarrow> P i \<longleftrightarrow> Q i"
  shows "card {i. i < Suc k \<and> P i} = card {i. i < k \<and> Q i} + (if P k then 1 else 0)"
proof -
  have "{i. i < Suc k \<and> P i} = {i. i < k \<and> Q i} \<union> (if P k then {k} else {})" using assms by (auto simp: less_Suc_eq)
  then show ?thesis by (simp add: card_insert_if)
qed

text \<open>The three ways in which a step can change the chain.\<close>

lemma conflicts_inv_new:
  assumes inv: "conflicts_inv actions0 k (actions, s, pref, SRcount, RRcount)" and k: "k < length actions0" and s: "symbols_sorted actions0"
    and new: "int (symbol (actions0 ! k)) \<noteq> s"
  shows "conflicts_inv actions0 (Suc k) (actions, int (symbol (actions0 ! k)), k, SRcount, RRcount)"
proof -
  have le: "symbol (actions0 ! i) \<le> symbol (actions0 ! j)" if "i \<le> j" "j < length actions0" for i j
    using sorted_nth_mono [OF s [unfolded symbols_sorted_def], of i j] that by simp
  note v = inv [unfolded conflicts_inv_def prod.case]
  have less: "symbol (actions0 ! i) < symbol (actions0 ! k)" if "i < k" for i
  proof -
    have "s = int (symbol (actions0 ! (k - 1)))" using v that by (auto split: if_splits)
    moreover have "symbol (actions0 ! i) \<le> symbol (actions0 ! (k - 1))" "symbol (actions0 ! (k - 1)) \<le> symbol (actions0 ! k)"
      using le [of i "k - 1"] le [of "k - 1" k] that k by simp_all
    ultimately show ?thesis using new by simp
  qed
  have z: "suppressed (actions ! k) = 0" using v k by blast
  have c: "card {i. i < Suc k \<and> suppressed (actions ! i) = 1} = card {i. i < k \<and> suppressed (actions ! i) = 1}"
    using card_suppressed_Suc [of k "\<lambda>i. suppressed (actions ! i) = 1" "\<lambda>i. suppressed (actions ! i) = 1"] z by simp
  show ?thesis
    unfolding conflicts_inv_def prod.case c
  proof (intro conjI)
    show "length actions = length actions0" "\<forall>i < length actions0. actions ! i = (actions0 ! i)\<lparr> suppressed := suppressed (actions ! i) \<rparr>"
      "SRcount + RRcount = card {i. i < k \<and> suppressed (actions ! i) = 1}" using v by iprover+
    show "\<forall>i < length actions0. Suc k \<le> i \<longrightarrow> suppressed (actions ! i) = 0" using v by simp
    show "\<forall>i < Suc k. i \<noteq> k \<longrightarrow> int (symbol (actions0 ! i)) = int (symbol (actions0 ! k)) \<longrightarrow> suppressed (actions ! i) \<noteq> 0"
      using less by (fastforce simp: less_Suc_eq)
    show "\<forall>i < Suc k. \<forall>j < Suc k. i \<noteq> j \<longrightarrow> symbol (actions0 ! i) = symbol (actions0 ! j) \<longrightarrow> suppressed (actions ! i) \<noteq> 0 \<or> suppressed (actions ! j) \<noteq> 0"
    proof (intro allI impI)
      fix i j assume ij: "i < Suc k" "j < Suc k" "i \<noteq> j" "symbol (actions0 ! i) = symbol (actions0 ! j)"
      then have "i < k" "j < k" using less [of i] less [of j] by (auto simp: less_Suc_eq)
      then show "suppressed (actions ! i) \<noteq> 0 \<or> suppressed (actions ! j) \<noteq> 0" using v ij by blast
    qed
    show "\<forall>i < Suc k. suppressed (actions ! i) \<noteq> 0 \<longrightarrow> (\<exists>j < Suc k. j \<noteq> i \<and> symbol (actions0 ! j) = symbol (actions0 ! i))"
      using v z by (metis less_Suc_eq)
  qed (use z in simp)
qed

text \<open>Of the new action and \<open>pref\<close> one is suppressed, and the other is the new \<open>pref\<close>.\<close>

lemma conflicts_inv_same:
  assumes inv: "conflicts_inv actions0 k (actions, s, pref, SRcount, RRcount)" and k: "k < length actions0"
    and same: "int (symbol (actions0 ! k)) = s"
    and len: "length actions' = length actions"
    and only: "\<And>i. i < length actions0 \<Longrightarrow> actions' ! i = (actions0 ! i)\<lparr> suppressed := suppressed (actions' ! i) \<rparr>"
    and others: "\<And>i. i < length actions0 \<Longrightarrow> i \<noteq> k \<Longrightarrow> i \<noteq> pref \<Longrightarrow> suppressed (actions' ! i) = suppressed (actions ! i)"
    and choice: "pref' = pref \<and> suppressed (actions' ! k) \<noteq> 0 \<or> pref' = k \<and> suppressed (actions' ! pref) \<noteq> 0 \<and> suppressed (actions' ! k) \<noteq> 1"
    and pref: "suppressed (actions' ! pref) = suppressed (actions ! pref) \<or> suppressed (actions' ! pref) = 2"
    and counts: "SRcount' + RRcount' = SRcount + RRcount + (if suppressed (actions' ! k) = 1 then 1 else 0)"
  shows "conflicts_inv actions0 (Suc k) (actions', s, pref', SRcount', RRcount')"
proof -
  note v = inv [unfolded conflicts_inv_def prod.case]
  have "k \<noteq> 0" using v same by (auto split: if_splits)
  then have p: "pref < k" "s = int (symbol (actions0 ! pref))" "suppressed (actions ! pref) \<noteq> 1" using v by auto
  have old3: "suppressed (actions ! i) \<noteq> 0" if "i < k" "i \<noteq> pref" "int (symbol (actions0 ! i)) = s" for i using v that by blast
  have old4: "suppressed (actions ! i) = 0" if "i < length actions0" "k \<le> i" for i using v that by blast
  have old5: "suppressed (actions ! i) \<noteq> 0 \<or> suppressed (actions ! j) \<noteq> 0"
    if "i < k" "j < k" "i \<noteq> j" "symbol (actions0 ! i) = symbol (actions0 ! j)" for i j using v that by blast
  have old6: "\<exists>j < k. j \<noteq> i \<and> symbol (actions0 ! j) = symbol (actions0 ! i)" if "i < k" "suppressed (actions ! i) \<noteq> 0" for i using v that by blast
  have new3: "suppressed (actions' ! i) \<noteq> 0" if "i < Suc k" "i \<noteq> pref'" "int (symbol (actions0 ! i)) = s" for i
  proof (cases "i = k \<or> i = pref")
    case True
    then show ?thesis using choice that(2) by blast
  next
    case False
    then show ?thesis using old3 [of i] others [of i] that k by auto
  qed
  show ?thesis
    unfolding conflicts_inv_def prod.case
  proof (intro conjI)
    show "length actions' = length actions0" using len v by simp
    show "\<forall>i < length actions0. actions' ! i = (actions0 ! i)\<lparr> suppressed := suppressed (actions' ! i) \<rparr>" using only by blast
    have "suppressed (actions' ! pref') \<noteq> 1" using choice pref p(3) by auto
    then show "if Suc k = 0 then s = -1 else pref' < Suc k \<and> s = int (symbol (actions0 ! (Suc k - 1))) \<and> s = int (symbol (actions0 ! pref')) \<and>
        suppressed (actions' ! pref') \<noteq> 1" using choice p(1,2) same by auto
    show "\<forall>i < Suc k. i \<noteq> pref' \<longrightarrow> int (symbol (actions0 ! i)) = s \<longrightarrow> suppressed (actions' ! i) \<noteq> 0" using new3 by blast
    show "\<forall>i < length actions0. Suc k \<le> i \<longrightarrow> suppressed (actions' ! i) = 0" using old4 others p(1) by (metis Suc_leD Suc_n_not_le_n not_less_eq_eq less_imp_le)
    show "\<forall>i < Suc k. \<forall>j < Suc k. i \<noteq> j \<longrightarrow> symbol (actions0 ! i) = symbol (actions0 ! j) \<longrightarrow> suppressed (actions' ! i) \<noteq> 0 \<or> suppressed (actions' ! j) \<noteq> 0"
    proof (intro allI impI)
      fix i j assume ij: "i < Suc k" "j < Suc k" "i \<noteq> j" "symbol (actions0 ! i) = symbol (actions0 ! j)"
      show "suppressed (actions' ! i) \<noteq> 0 \<or> suppressed (actions' ! j) \<noteq> 0"
      proof (cases "int (symbol (actions0 ! i)) = s")
        case True
        then show ?thesis using new3 [of i] new3 [of j] ij by (cases "i = pref'") auto
      next
        case False
        then have "i \<noteq> k" "j \<noteq> k" "i \<noteq> pref" "j \<noteq> pref" using same p(2) ij(4) by auto
        then show ?thesis using old5 [of i j] others [of i] others [of j] ij k by auto
      qed
    qed
    show "\<forall>i < Suc k. suppressed (actions' ! i) \<noteq> 0 \<longrightarrow> (\<exists>j < Suc k. j \<noteq> i \<and> symbol (actions0 ! j) = symbol (actions0 ! i))"
    proof (intro allI impI)
      fix i assume i: "i < Suc k" "suppressed (actions' ! i) \<noteq> 0"
      have eq: "symbol (actions0 ! k) = symbol (actions0 ! pref)" using same p(2) by simp
      consider "i = k" | "i = pref" | "i \<noteq> k" "i \<noteq> pref" by blast
      then show "\<exists>j < Suc k. j \<noteq> i \<and> symbol (actions0 ! j) = symbol (actions0 ! i)"
      proof cases
        case 1
        then show ?thesis using p(1) eq by (intro exI [of _ pref]) simp
      next
        case 2
        then show ?thesis using p(1) eq by (intro exI [of _ k]) simp
      next
        case 3
        then have "i < k" "suppressed (actions ! i) \<noteq> 0" using i others [of i] k by auto
        then show ?thesis using old6 less_Suc_eq by metis
      qed
    qed
    have "suppressed (actions' ! i) = 1 \<longleftrightarrow> suppressed (actions ! i) = 1" if "i < k" for i
      using others [of i] pref p(3) that k by (cases "i = pref") auto
    from card_suppressed_Suc [of k "\<lambda>i. suppressed (actions' ! i) = 1" "\<lambda>i. suppressed (actions ! i) = 1", OF this]
    show "SRcount' + RRcount' = card {i. i < Suc k \<and> suppressed (actions' ! i) = 1}" using counts v by simp
  qed
qed

lemma remove_conflicts_step_inv:
  assumes inv: "conflicts_inv actions0 k st" and k: "k < length actions0" and s: "symbols_sorted actions0"
  shows "conflicts_inv actions0 (Suc k) (remove_conflicts_step is_final k st)"
proof -
  obtain actions s' pref SRcount RRcount where st: "st = (actions, s', pref, SRcount, RRcount)" by (cases st)
  note inv' = inv [unfolded st] and v = inv [unfolded st conflicts_inv_def prod.case]
  have len: "length actions = length actions0" using v by blast
  have only: "actions ! i = (actions0 ! i)\<lparr> suppressed := suppressed (actions ! i) \<rparr>" if "i < length actions0" for i using v that by blast
  have sk: "symbol (actions ! k) = symbol (actions0 ! k)" using arg_cong [OF only [OF k], of symbol] by simp
  show ?thesis
  proof (cases "int (symbol (actions0 ! k)) = s'")
    case False
    then have "remove_conflicts_step is_final k st = (actions, int (symbol (actions0 ! k)), k, SRcount, RRcount)"
      by (simp add: remove_conflicts_step_def st Let_def sk)
    then show ?thesis using conflicts_inv_new [OF inv' k s False] by simp
  next
    case True
    have "k \<noteq> 0" using v True by (auto split: if_splits)
    then have p: "pref < k" "pref < length actions" using v k len by auto
    have kl: "k < length actions" using k len by simp
    have ka: "suppressed (actions ! k) = 0" using v k by blast
    note same = conflicts_inv_same [OF inv' k True]
    have upd: "suppress j how acts ! i = (actions0 ! i)\<lparr> suppressed := suppressed (suppress j how acts ! i) \<rparr>"
      if "i < length actions0" "length acts = length actions0" "acts ! i = (actions0 ! i)\<lparr> suppressed := suppressed (acts ! i) \<rparr>" "j < length actions0" for i j how acts
      using that by (cases "i = j") (simp_all add: suppress_nth, metis action.surjective action.update_convs(6))
    have one: "conflicts_inv actions0 (Suc k) (suppress k how actions, s', pref, SR', RR')"
      if "how \<noteq> 0" "SR' + RR' = SRcount + RRcount + (if how = 1 then 1 else 0)" for how SR' RR'
      by (rule same) (use that upd len only kl p in \<open>auto simp: suppress_nth\<close>)
    have swap: "conflicts_inv actions0 (Suc k) (suppress pref 2 actions, s', k, SRcount, RRcount)"
      by (rule same) (use upd len only kl p ka in \<open>auto simp: suppress_nth\<close>)
    have both: "conflicts_inv actions0 (Suc k) (suppress k 2 (suppress pref 2 actions), s', pref, SRcount, RRcount)"
    proof (rule same)
      show "suppress k 2 (suppress pref 2 actions) ! i =
          (actions0 ! i)\<lparr> suppressed := suppressed (suppress k 2 (suppress pref 2 actions) ! i) \<rparr>" if "i < length actions0" for i
        by (rule upd) (use that upd [OF that len only [OF that]] p kl len in simp_all)
    qed (use len kl p in \<open>auto simp: suppress_nth\<close>)
    have "remove_conflicts_step is_final k st \<in>
      {(suppress k 1 actions, s', pref, SRcount + 1, RRcount), (suppress k 1 actions, s', pref, SRcount, RRcount + 1),
       (suppress k 2 actions, s', pref, SRcount, RRcount), (suppress pref 2 actions, s', k, SRcount, RRcount),
       (suppress k 2 (suppress pref 2 actions), s', pref, SRcount, RRcount)}"
      using True unfolding remove_conflicts_step_def st Let_def prod.case sk by (simp split: if_split)
    moreover have "conflicts_inv actions0 (Suc k) (suppress k 1 actions, s', pref, SRcount + 1, RRcount)"
      "conflicts_inv actions0 (Suc k) (suppress k 1 actions, s', pref, SRcount, RRcount + 1)"
      "conflicts_inv actions0 (Suc k) (suppress k 2 actions, s', pref, SRcount, RRcount)"
      by (rule one; simp)+
    ultimately show ?thesis using swap both by (elim insertE emptyE) simp_all
  qed
qed

lemma remove_conflicts_state_result:
  assumes "symbols_sorted actions0" "\<forall>p \<in> set actions0. suppressed p = 0" "remove_conflicts_state is_final actions0 = (actions, SRcount, RRcount)"
  shows "length actions = length actions0" "\<And>i. i < length actions0 \<Longrightarrow> actions ! i = (actions0 ! i)\<lparr> suppressed := suppressed (actions ! i) \<rparr>"
    "\<And>i j. i < length actions \<Longrightarrow> j < length actions \<Longrightarrow> i \<noteq> j \<Longrightarrow> symbol (actions ! i) = symbol (actions ! j) \<Longrightarrow>
      suppressed (actions ! i) \<noteq> 0 \<or> suppressed (actions ! j) \<noteq> 0"
    "\<And>i. i < length actions \<Longrightarrow> suppressed (actions ! i) \<noteq> 0 \<Longrightarrow> \<exists>j < length actions. j \<noteq> i \<and> symbol (actions ! j) = symbol (actions ! i)"
    "SRcount + RRcount = length (filter (\<lambda>p. suppressed p = 1) actions)"
proof -
  have "conflicts_inv actions0 k (fold (remove_conflicts_step is_final) [0..<k] (actions0, -1, 0, 0, 0))" if "k \<le> length actions0" for k
    using that
  proof (induction k)
    case 0
    then show ?case using assms(2) by (simp add: conflicts_inv_def)
  next
    case (Suc k)
    then show ?case using remove_conflicts_step_inv [OF _ _ assms(1), of k] by simp
  qed
  from this [of "length actions0"] obtain s pref where
    "conflicts_inv actions0 (length actions0) (actions, s, pref, SRcount, RRcount)"
    using assms(3) by (auto simp: remove_conflicts_state_def Let_def split: prod.splits)
  note v = this [unfolded conflicts_inv_def prod.case]
  show len: "length actions = length actions0" using v by blast
  show only: "\<And>i. i < length actions0 \<Longrightarrow> actions ! i = (actions0 ! i)\<lparr> suppressed := suppressed (actions ! i) \<rparr>" using v by blast
  have sy: "symbol (actions ! i) = symbol (actions0 ! i)" if "i < length actions0" for i using arg_cong [OF only [OF that], of symbol] by simp
  show "suppressed (actions ! i) \<noteq> 0 \<or> suppressed (actions ! j) \<noteq> 0"
    if "i < length actions" "j < length actions" "i \<noteq> j" "symbol (actions ! i) = symbol (actions ! j)" for i j
    using v that sy unfolding len by metis
  show "\<exists>j < length actions. j \<noteq> i \<and> symbol (actions ! j) = symbol (actions ! i)" if "i < length actions" "suppressed (actions ! i) \<noteq> 0" for i
    using v that sy unfolding len by metis
  show "SRcount + RRcount = length (filter (\<lambda>p. suppressed p = 1) actions)"
    using v unfolding length_filter_conv_card len by simp
qed

section \<open>The winner\<close>

text \<open>
  In a chain, with \<open>f\<close> the first place of a symbol: the other places of this symbol before \<open>k\<close>, the places of the actions that are left of these after
  \<open>k\<close> steps, and the place of \<open>pref\<close>.
\<close>

definition same_symbol :: "action list \<Rightarrow> nat \<Rightarrow> nat \<Rightarrow> nat set" where
  "same_symbol as f k = {i. f < i \<and> i < k \<and> symbol (as ! i) = symbol (as ! f)}"

abbreviation beats :: "action \<Rightarrow> action \<Rightarrow> bool" where
  "beats sh red \<equiv> reduce_wins (prec sh) (assoc sh) (prec red)"

definition decided :: "bool \<Rightarrow> action list \<Rightarrow> nat \<Rightarrow> bool" where
  "decided is_final as f \<longleftrightarrow> action_code (as ! f) = REDUCE \<or> is_final \<and> symbol (as ! f) = 0"

definition beating :: "action list \<Rightarrow> nat \<Rightarrow> nat \<Rightarrow> nat set" where
  "beating as f k = {i \<in> same_symbol as f k. beats (as ! f) (as ! i)}"

definition chosen :: "bool \<Rightarrow> action list \<Rightarrow> nat \<Rightarrow> nat \<Rightarrow> nat" where
  "chosen is_final as f k = (if decided is_final as f \<or> beating as f k = {} then f else Min (beating as f k))"

definition winners :: "bool \<Rightarrow> action list \<Rightarrow> nat \<Rightarrow> nat \<Rightarrow> nat set" where
  "winners is_final as f k =
     (if decided is_final as f then {f}
      else if beating as f k \<noteq> {} then {Min (beating as f k)}
      else if \<exists>i \<in> same_symbol as f k. none_wins (prec (as ! f)) (assoc (as ! f)) (prec (as ! i)) then {}
      else {f})"

definition first_place :: "action list \<Rightarrow> nat \<Rightarrow> bool" where
  "first_place as f \<longleftrightarrow> (\<forall>j < f. symbol (as ! j) \<noteq> symbol (as ! f))"

definition winners_inv :: "bool \<Rightarrow> action list \<Rightarrow> nat \<Rightarrow> action list \<times> int \<times> nat \<times> nat \<times> nat \<Rightarrow> bool" where
  "winners_inv is_final as k st \<longleftrightarrow> (case st of (actions, s, pref, SRcount, RRcount) \<Rightarrow>
     (\<forall>f < k. first_place as f \<longrightarrow> (\<forall>i < k. symbol (as ! i) = symbol (as ! f) \<longrightarrow>
        (suppressed (actions ! i) = 0 \<longleftrightarrow> i \<in> winners is_final as f k))) \<and>
     (0 < k \<longrightarrow> (\<exists>f < k. first_place as f \<and> symbol (as ! f) = symbol (as ! (k - 1)) \<and> pref = chosen is_final as f k)))"

lemma same_symbol_Suc:
  "same_symbol as f (Suc k) = (if f < k \<and> symbol (as ! k) = symbol (as ! f) then insert k (same_symbol as f k) else same_symbol as f k)"
  by (auto simp: same_symbol_def less_Suc_eq)

lemma same_symbol_facts: "finite (same_symbol as f k)" "i \<in> same_symbol as f k \<Longrightarrow> f < i \<and> i < k \<and> symbol (as ! i) = symbol (as ! f)"
  by (auto simp: same_symbol_def)

lemma beating_facts: "finite (beating as f k)" "i \<in> beating as f k \<Longrightarrow> i \<in> same_symbol as f k"
  using same_symbol_facts(1) by (auto simp: beating_def)

lemma beating_Suc:
  "beating as f (Suc k) = (if f < k \<and> symbol (as ! k) = symbol (as ! f) \<and> beats (as ! f) (as ! k) then insert k (beating as f k) else beating as f k)"
  by (auto simp: beating_def same_symbol_Suc)

lemma other_symbol_Suc:
  assumes "symbol (as ! k) \<noteq> symbol (as ! f)"
  shows "winners is_final as f (Suc k) = winners is_final as f k" "chosen is_final as f (Suc k) = chosen is_final as f k"
  using assms by (simp_all add: winners_def chosen_def beating_Suc same_symbol_Suc)

lemma first_place_unique:
  assumes "first_place as f" "first_place as f'" "symbol (as ! f) = symbol (as ! f')"
  shows "f = f'"
  using assms unfolding first_place_def by (metis nat_neq_iff)

text \<open>A step at a new symbol.\<close>

lemma winners_inv_new:
  assumes inv: "winners_inv is_final as k (actions, s, pref, SRcount, RRcount)" and k: "k < length as"
    and new: "\<forall>j < k. symbol (as ! j) \<noteq> symbol (as ! k)" and z: "suppressed (actions ! k) = 0"
  shows "winners_inv is_final as (Suc k) (actions, int (symbol (as ! k)), k, SRcount, RRcount)"
proof -
  have "same_symbol as k (Suc k) = {}" by (auto simp: same_symbol_def)
  then have k1: "winners is_final as k (Suc k) = {k}" "chosen is_final as k (Suc k) = k"
    by (simp_all add: winners_def chosen_def beating_def)
  have fp: "first_place as k" using new by (simp add: first_place_def)
  have "suppressed (actions ! i) = 0 \<longleftrightarrow> i \<in> winners is_final as f (Suc k)"
    if f: "f < Suc k" "first_place as f" and i: "i < Suc k" "symbol (as ! i) = symbol (as ! f)" for f i
  proof (cases "f = k")
    case True
    then have "i = k" using i new less_SucE by metis
    then show ?thesis using True k1 z by simp
  next
    case False
    then have fk: "f < k" using f by simp
    then have "symbol (as ! k) \<noteq> symbol (as ! f)" using new by metis
    moreover from this have "i < k" using i less_SucE by metis
    ultimately show ?thesis using inv fk f i other_symbol_Suc(1) unfolding winners_inv_def prod.case by metis
  qed
  then show ?thesis using fp k1(2) unfolding winners_inv_def prod.case by (metis diff_Suc_1 lessI)
qed

text \<open>A step at the symbol of the action before.\<close>

lemma winners_inv_same:
  assumes inv: "winners_inv is_final as k (actions, s, pref, SRcount, RRcount)" and k: "k < length as"
    and f: "f < k" "first_place as f" "symbol (as ! k) = symbol (as ! f)"
    and others: "\<And>i. i < k \<Longrightarrow> symbol (as ! i) \<noteq> symbol (as ! f) \<Longrightarrow> suppressed (actions' ! i) = suppressed (actions ! i)"
    and mine: "\<And>i. i < Suc k \<Longrightarrow> symbol (as ! i) = symbol (as ! f) \<Longrightarrow>
      suppressed (actions' ! i) = 0 \<longleftrightarrow> i \<in> winners is_final as f (Suc k)"
    and pref: "pref' = chosen is_final as f (Suc k)"
  shows "winners_inv is_final as (Suc k) (actions', s', pref', SRcount', RRcount')"
proof -
  have "suppressed (actions' ! i) = 0 \<longleftrightarrow> i \<in> winners is_final as f' (Suc k)"
    if f': "f' < Suc k" "first_place as f'" and i: "i < Suc k" "symbol (as ! i) = symbol (as ! f')" for f' i
  proof (cases "symbol (as ! f') = symbol (as ! f)")
    case True
    then have "f' = f" using first_place_unique f(2) f'(2) by blast
    then show ?thesis using mine i by blast
  next
    case False
    then have ne: "f' \<noteq> k" "i \<noteq> k" using f(3) i by auto
    then have "f' < k" "i < k" using f' i by simp_all
    moreover have "symbol (as ! k) \<noteq> symbol (as ! f')" using False f(3) by simp
    moreover have "suppressed (actions' ! i) = suppressed (actions ! i)" using others \<open>i < k\<close> False i by simp
    ultimately show ?thesis using inv f'(2) i(2) other_symbol_Suc(1) unfolding winners_inv_def prod.case by metis
  qed
  then show ?thesis using f pref unfolding winners_inv_def prod.case by (metis diff_Suc_1 less_SucI)
qed

text \<open>The step of \<open>remove_conflicts\<close> at the symbol of the action before, by what it does to the chain and to \<open>pref\<close>.\<close>

lemma winners_step_same:
  assumes inv: "conflicts_inv as k (actions, s, pref, SRcount, RRcount)"
    and win: "winners_inv is_final as k (actions, s, pref, SRcount, RRcount)" and k: "k < length as"
    and sorted: "sorted_wrt action_before as" and same: "int (symbol (as ! k)) = s"
  shows "winners_inv is_final as (Suc k) (remove_conflicts_step is_final k (actions, s, pref, SRcount, RRcount))"
proof -
  note v = inv [unfolded conflicts_inv_def prod.case]
  have k0: "0 < k" using v same by (auto split: if_splits)
  then have pk: "pref < k" and s: "s = int (symbol (as ! (k - 1)))" using v by auto
  have len: "length actions = length as" using v by blast
  have upd: "actions ! i = (as ! i)\<lparr> suppressed := suppressed (actions ! i) \<rparr>" if "i < length as" for i using v that by blast
  have at_k: "symbol (actions ! k) = symbol (as ! k)" "prec (actions ! k) = prec (as ! k)"
    using arg_cong [OF upd [OF k], of symbol] arg_cong [OF upd [OF k], of prec] by simp_all
  have at_pref: "action_code (actions ! pref) = action_code (as ! pref)" "prec (actions ! pref) = prec (as ! pref)"
    "assoc (actions ! pref) = assoc (as ! pref)"
    using arg_cong [OF upd [of pref], of action_code] arg_cong [OF upd [of pref], of prec] arg_cong [OF upd [of pref], of assoc] pk k by simp_all
  have zk: "suppressed (actions ! k) = 0" using v k by blast
  obtain f where f: "f < k" "first_place as f" "symbol (as ! k) = symbol (as ! f)" "pref = chosen is_final as f k"
    using win k0 same s unfolding winners_inv_def prod.case by auto
  have old: "suppressed (actions ! i) = 0 \<longleftrightarrow> i \<in> winners is_final as f k" if "i < k" "symbol (as ! i) = symbol (as ! f)" for i
    using win f(1,2) that unfolding winners_inv_def prod.case by blast
  have before: "action_before (as ! i) (as ! j)" if "i < j" "j < length as" for i j
    using sorted that by (simp add: sorted_wrt_iff_nth_less)
  have red: "action_code (as ! i) = REDUCE" if "i \<in> insert k (same_symbol as f k)" for i
    using before [of f i] that f same_symbol_facts(2) [of i as f k] k unfolding action_before_def by auto
  have ks: "k \<notin> same_symbol as f k" using same_symbol_facts(2) by blast
  have pref_sym: "symbol (as ! pref) = symbol (as ! f)"
  proof (cases "pref = f")
    case False
    then have "beating as f k \<noteq> {}" "pref = Min (beating as f k)" using f(4) by (auto simp: chosen_def split: if_splits)
    then have "pref \<in> beating as f k" using Min_in beating_facts(1) by metis
    then show ?thesis using beating_facts(2) same_symbol_facts(2) by blast
  qed simp
  let ?sh = "as ! f" and ?new = "as ! k"
  note intro = winners_inv_same [OF win k f(1-3)]
  have kept: "winners_inv is_final as (Suc k) (suppress k how actions, s', pref', SR', RR')"
    if "how \<noteq> 0" "pref' = pref" "winners is_final as f (Suc k) = winners is_final as f k" "chosen is_final as f (Suc k) = chosen is_final as f k"
    for how s' pref' SR' RR'
  proof (rule intro)
    have "k \<notin> winners is_final as f k"
    proof
      assume "k \<in> winners is_final as f k"
      then have "k = f \<or> k = Min (beating as f k) \<and> beating as f k \<noteq> {}" by (auto simp: winners_def split: if_splits)
      then show False using f(1) Min_in [OF beating_facts(1), of as f k] beating_facts(2) ks by auto
    qed
    then show "suppressed (suppress k how actions ! i) = 0 \<longleftrightarrow> i \<in> winners is_final as f (Suc k)"
      if "i < Suc k" "symbol (as ! i) = symbol (as ! f)" for i
      using that old [of i] k len \<open>how \<noteq> 0\<close> \<open>winners is_final as f (Suc k) = winners is_final as f k\<close>
      by (auto simp: suppress_nth less_Suc_eq)
  qed (use that k len f in \<open>auto simp: suppress_nth\<close>)
  show ?thesis
  proof (cases "decided is_final as f \<or> beating as f k \<noteq> {}")
    case True
    have "winners is_final as f (Suc k) = winners is_final as f k \<and> chosen is_final as f (Suc k) = chosen is_final as f k"
    proof (cases "decided is_final as f")
      case False
      then have b: "beating as f k \<noteq> {}" using True by blast
      have "Min (insert k (beating as f k)) = Min (beating as f k)"
      proof -
        have "Min (beating as f k) < k" using Min_in [OF beating_facts(1) b] beating_facts(2) same_symbol_facts(2) by blast
        then show ?thesis using Min_insert [OF beating_facts(1) b, of k] by simp
      qed
      then show ?thesis using False b by (simp add: winners_def chosen_def beating_Suc)
    qed (simp add: winners_def chosen_def)
    moreover have "is_final \<and> s = 0 \<or> action_code (actions ! pref) = REDUCE"
    proof (cases "decided is_final as f")
      case True
      then show ?thesis using f same at_pref(1) by (auto simp: decided_def chosen_def)
    next
      case False
      then have "pref \<in> beating as f k" using True f(4) Min_in [OF beating_facts(1), of as f k] by (simp add: chosen_def)
      then show ?thesis using red beating_facts(2) at_pref(1) by auto
    qed
    moreover have "int (symbol (actions ! k)) = s" using at_k same by simp
    moreover note kept [of 1 pref]
    ultimately show ?thesis
      by (cases "is_final \<and> s = 0") (auto simp: remove_conflicts_step_def Let_def)
  next
    case False
    then have nd: "\<not> decided is_final as f" and nb: "beating as f k = {}" by blast+
    then have pf: "pref = f" using f(4) by (simp add: chosen_def)
    have sh: "action_code (actions ! pref) = SHIFT" using nd at_pref(1) pf by (cases "action_code (as ! f)") (auto simp: decided_def)
    have nf: "\<not> (is_final \<and> s = 0)" using nd f(3) same by (auto simp: decided_def)
    have wf: "winners is_final as f k \<subseteq> {f}" using nd nb by (simp add: winners_def)
    have sup: "suppressed (actions ! i) \<noteq> 0" if "i < k" "symbol (as ! i) = symbol (as ! f)" "i \<noteq> f" for i
      using old [OF that(1,2)] wf that(3) by blast
    have step: "remove_conflicts_step is_final k (actions, s, pref, SRcount, RRcount) =
       (if 0 < prec ?sh \<and> 0 < prec ?new
        then
          if prec ?sh < prec ?new then (suppress f 2 actions, s, k, SRcount, RRcount)
          else if prec ?new < prec ?sh then (suppress k 2 actions, s, f, SRcount, RRcount)
          else if assoc ?sh = LEFT then (suppress f 2 actions, s, k, SRcount, RRcount)
          else if assoc ?sh = RIGHT then (suppress k 2 actions, s, f, SRcount, RRcount)
          else (suppress k 2 (suppress f 2 actions), s, f, SRcount, RRcount)
        else (suppress k 1 actions, s, f, SRcount + 1, RRcount))"
      using nf sh at_k at_pref pf same by (simp add: remove_conflicts_step_def Let_def)
    consider (beat) "beats ?sh ?new" | (none) "none_wins (prec ?sh) (assoc ?sh) (prec ?new)"
      | (keep) "\<not> beats ?sh ?new" "\<not> none_wins (prec ?sh) (assoc ?sh) (prec ?new)" by blast
    then show ?thesis
    proof cases
      case beat
      then have e: "remove_conflicts_step is_final k (actions, s, pref, SRcount, RRcount) = (suppress f 2 actions, s, k, SRcount, RRcount)"
        unfolding step reduce_wins_def by (elim conjE disjE) simp_all
      have "beating as f (Suc k) = {k}" using beat nb f(1,3) by (simp add: beating_Suc)
      then have w: "winners is_final as f (Suc k) = {k}" "chosen is_final as f (Suc k) = k" using nd by (simp_all add: winners_def chosen_def)
      show ?thesis unfolding e
      proof (rule intro)
        show "suppressed (suppress f 2 actions ! i) = 0 \<longleftrightarrow> i \<in> winners is_final as f (Suc k)"
          if "i < Suc k" "symbol (as ! i) = symbol (as ! f)" for i
        proof (cases "i = k")
          case True
          then show ?thesis unfolding w(1) using zk f(1) k len by (simp add: suppress_nth)
        next
          case False
          then have "i < k" using that(1) by simp
          then have "suppressed (suppress f 2 actions ! i) \<noteq> 0"
            using sup [OF _ that(2)] f(1) k len by (cases "i = f") (simp_all add: suppress_nth)
          then show ?thesis unfolding w(1) using False by simp
        qed
      qed (use w f k len in \<open>auto simp: suppress_nth\<close>)
    next
      case none
      then have e: "remove_conflicts_step is_final k (actions, s, pref, SRcount, RRcount) =
          (suppress k 2 (suppress f 2 actions), s, f, SRcount, RRcount)"
        unfolding step none_wins_def by simp
      have "\<not> beats ?sh ?new" using none by (auto simp: none_wins_def reduce_wins_def)
      then have "beating as f (Suc k) = {}" using nb by (simp add: beating_Suc)
      moreover have "k \<in> same_symbol as f (Suc k)" using f(1,3) by (simp add: same_symbol_Suc)
      ultimately have w: "winners is_final as f (Suc k) = {}" "chosen is_final as f (Suc k) = f"
        using nd none by (auto simp: winners_def chosen_def)
      show ?thesis unfolding e
      proof (rule intro)
        show "suppressed (suppress k 2 (suppress f 2 actions) ! i) = 0 \<longleftrightarrow> i \<in> winners is_final as f (Suc k)"
          if "i < Suc k" "symbol (as ! i) = symbol (as ! f)" for i
        proof -
          have "suppressed (suppress f 2 actions ! i) \<noteq> 0" if "i < k"
            using sup [OF that \<open>symbol (as ! i) = symbol (as ! f)\<close>] f(1) k len by (cases "i = f") (simp_all add: suppress_nth)
          then show ?thesis unfolding w(1) using that(1) k len by (cases "i = k") (simp_all add: suppress_nth)
        qed
      qed (use w f k len in \<open>auto simp: suppress_nth\<close>)
    next
      case keep
      then have "winners is_final as f (Suc k) = winners is_final as f k" "chosen is_final as f (Suc k) = chosen is_final as f k"
        by (auto simp: winners_def chosen_def beating_Suc same_symbol_Suc)
      then show ?thesis unfolding step using keep pf
        by (auto simp: reduce_wins_def none_wins_def intro!: kept)
    qed
  qed
qed

lemma winners_inv_step:
  assumes inv: "conflicts_inv as k st" and win: "winners_inv is_final as k st" and k: "k < length as"
    and sorted: "sorted_wrt action_before as"
  shows "winners_inv is_final as (Suc k) (remove_conflicts_step is_final k st)"
proof -
  obtain actions s pref SRcount RRcount where st: "st = (actions, s, pref, SRcount, RRcount)" by (cases st)
  note inv' = inv [unfolded st] and v = inv [unfolded st conflicts_inv_def prod.case] and win' = win [unfolded st]
  have upd: "actions ! k = (as ! k)\<lparr> suppressed := suppressed (actions ! k) \<rparr>" using v k by blast
  have sk: "symbol (actions ! k) = symbol (as ! k)" using arg_cong [OF upd, of symbol] by simp
  show ?thesis
  proof (cases "int (symbol (as ! k)) = s")
    case True
    then show ?thesis using winners_step_same [OF inv' win' k sorted] unfolding st by blast
  next
    case False
    have "symbol (as ! j) \<noteq> symbol (as ! k)" if "j < k" for j
    proof -
      have le: "symbol (as ! a) \<le> symbol (as ! b)" if "a \<le> b" "b < length as" for a b
        using sorted_nth_mono [of "map symbol as" a b] chain_sorted_distinct(1) [OF sorted] that by (simp add: symbols_sorted_def)
      have "s = int (symbol (as ! (k - 1)))" using v that by (auto split: if_splits)
      then have "symbol (as ! (k - 1)) \<noteq> symbol (as ! k)" using False by simp
      moreover have "symbol (as ! j) \<le> symbol (as ! (k - 1))" using le [of j "k - 1"] that k by simp
      moreover have "symbol (as ! (k - 1)) \<le> symbol (as ! k)" using le [of "k - 1" k] k by simp
      ultimately show ?thesis by simp
    qed
    moreover have "suppressed (actions ! k) = 0" using v k by blast
    ultimately have "winners_inv is_final as (Suc k) (actions, int (symbol (as ! k)), k, SRcount, RRcount)"
      using winners_inv_new [OF win' k] by blast
    then show ?thesis using False by (simp add: st remove_conflicts_step_def Let_def sk)
  qed
qed

lemma remove_conflicts_state_winners:
  assumes "sorted_wrt action_before as" "\<forall>p \<in> set as. suppressed p = 0" "remove_conflicts_state is_final as = (actions, SRcount, RRcount)"
    and "f < length as" "first_place as f" "i < length as" "symbol (as ! i) = symbol (as ! f)"
  shows "suppressed (actions ! i) = 0 \<longleftrightarrow> i \<in> winners is_final as f (length as)"
proof -
  have "conflicts_inv as k (fold (remove_conflicts_step is_final) [0..<k] (as, -1, 0, 0, 0)) \<and>
    winners_inv is_final as k (fold (remove_conflicts_step is_final) [0..<k] (as, -1, 0, 0, 0))" if "k \<le> length as" for k
    using that
  proof (induction k)
    case 0
    then show ?case using assms(2) by (simp add: conflicts_inv_def winners_inv_def)
  next
    case (Suc k)
    then show ?case
      using remove_conflicts_step_inv [OF _ _ chain_sorted_distinct(1) [OF assms(1)], of k] winners_inv_step [OF _ _ _ assms(1), of k] by simp
  qed
  from this [of "length as"] obtain s pref where "winners_inv is_final as (length as) (actions, s, pref, SRcount, RRcount)"
    using assms(3) by (auto simp: remove_conflicts_state_def Let_def split: prod.splits)
  then show ?thesis using assms(4-7) unfolding winners_inv_def prod.case by blast
qed

text \<open>The winners of a chain, as actions.\<close>

lemma least_image:
  fixes N :: "nat \<Rightarrow> nat"
  assumes "m \<in> M" "\<And>i. i \<in> M \<Longrightarrow> N m \<le> N i"
  shows "{r \<in> N ` M. \<forall>r' \<in> N ` M. r \<le> r'} = {N m}"
  using assms by (auto intro: le_antisym)

lemma settled_winners:
  assumes sorted: "sorted_wrt action_before as" and level: "\<forall>p \<in> set as. action_level g p" and K: "set (map action_key as) = K"
    and f: "f < length as" "first_place as f"
  shows "(\<lambda>i. action_key (as ! i)) ` winners is_final as f (length as) = settled g is_final K (symbol (as ! f))"
proof -
  let ?n = "length as" and ?X = "symbol (as ! f)" and ?sh = "as ! f"
  let ?S = "same_symbol as f ?n"
  have before: "action_before (as ! i) (as ! j)" if "i < j" "j < ?n" for i j using sorted that by (simp add: sorted_wrt_iff_nth_less)
  have S: "f < i \<and> i < ?n \<and> symbol (as ! i) = ?X" if "i \<in> ?S" for i using same_symbol_facts(2) [OF that] .
  have red: "action_code (as ! i) = REDUCE" if "i \<in> ?S" for i using before [of f i] S [OF that] by (auto simp: action_before_def)
  have less: "number (as ! i) < number (as ! j)" if "i < j" "j \<in> ?S" "symbol (as ! i) = ?X" "action_code (as ! i) = REDUCE" for i j
    using before [of i j] S [OF that(2)] that by (auto simp: action_before_def)
  have places: "i = f \<or> i \<in> ?S" if "i < ?n" "symbol (as ! i) = ?X" for i
    using that f(2) by (auto simp: same_symbol_def first_place_def) (metis nat_neq_iff)
  have in_K: "(c, ?X, x) \<in> K \<longleftrightarrow> (\<exists>i \<in> insert f ?S. action_code (as ! i) = c \<and> number (as ! i) = x)" for c x
  proof
    assume "(c, ?X, x) \<in> K"
    then have "(c, ?X, x) \<in> action_key ` set as" using K by (simp only: set_map)
    then obtain p where p: "(c, ?X, x) = action_key p" "p \<in> set as" by (rule imageE)
    then obtain i where i: "i < ?n" "as ! i = p" by (meson in_set_conv_nth)
    have "symbol (as ! i) = ?X" "action_code (as ! i) = c" "number (as ! i) = x" using p(1) i(2) by simp_all
    with places [OF i(1)] show "\<exists>i \<in> insert f ?S. action_code (as ! i) = c \<and> number (as ! i) = x" by blast
  next
    assume "\<exists>i \<in> insert f ?S. action_code (as ! i) = c \<and> number (as ! i) = x"
    then obtain i where i: "i \<in> insert f ?S" "action_code (as ! i) = c" "number (as ! i) = x" by blast
    then have "i < ?n" "symbol (as ! i) = ?X" using S f(1) by auto
    moreover from this have "action_key (as ! i) \<in> set (map action_key as)" unfolding set_map by (intro imageI nth_mem)
    ultimately show "(c, ?X, x) \<in> K" using K i(2,3) by (simp only:)
  qed
  show ?thesis
  proof (cases "action_code ?sh")
    case REDUCE
    have no: "(SHIFT, ?X, x) \<notin> K" for x using in_K REDUCE red by (metis action_code.distinct(1) insertE)
    have "action_code (as ! i) = REDUCE" if "i \<in> insert f ?S" for i using that REDUCE red by blast
    then have rules: "{r. (REDUCE, ?X, r) \<in> K} = (\<lambda>i. number (as ! i)) ` insert f ?S" unfolding in_K by blast
    have "number ?sh \<le> number (as ! i)" if i: "i \<in> insert f ?S" for i
    proof (cases "i = f")
      case False
      then have "i \<in> ?S" using i by blast
      then show ?thesis using less [OF _ _ refl REDUCE] S less_imp_le by blast
    qed simp
    then have "{r \<in> (\<lambda>i. number (as ! i)) ` insert f ?S. \<forall>r' \<in> (\<lambda>i. number (as ! i)) ` insert f ?S. r \<le> r'} = {number ?sh}"
      by (intro least_image) auto
    moreover have "winners is_final as f ?n = {f}" using REDUCE by (simp add: winners_def decided_def)
    moreover have "{(SHIFT, ?X, s) | s. (SHIFT, ?X, s) \<in> K} = {}" using no by blast
    ultimately show ?thesis unfolding settled_def rules Let_def by (simp only: if_True refl image_insert image_empty REDUCE)
  next
    case SHIFT
    have nsh: "action_code ?sh \<noteq> REDUCE" using SHIFT by simp
    have nred: "action_code (as ! i) \<noteq> SHIFT" if "i \<in> ?S" for i using red [OF that] by simp
    have shifts: "{(SHIFT, ?X, s) | s. (SHIFT, ?X, s) \<in> K} = {action_key ?sh}"
    proof -
      have "(SHIFT, ?X, s) \<in> K \<longleftrightarrow> s = number ?sh" for s
        unfolding in_K using SHIFT nred by blast
      then show ?thesis using SHIFT by auto
    qed
    have rules: "{r. (REDUCE, ?X, r) \<in> K} = (\<lambda>i. number (as ! i)) ` ?S"
    proof -
      have "(REDUCE, ?X, r) \<in> K \<longleftrightarrow> (\<exists>i \<in> ?S. number (as ! i) = r)" for r
        unfolding in_K by (simp add: nsh red cong: bex_cong)
      then have "(REDUCE, ?X, r) \<in> K \<longleftrightarrow> r \<in> (\<lambda>i. number (as ! i)) ` ?S" for r by (simp only: image_iff eq_commute)
      then show ?thesis by (simp only: Collect_mem_eq)
    qed
    have lsh: "prec ?sh = symbol_prec g ! ?X" "assoc ?sh = symbol_assoc g ! ?X"
      using bspec [OF level nth_mem [OF f(1)]] SHIFT by (simp_all add: action_level_def)
    have lred: "prec (as ! i) = rprec g ! number (as ! i)" if "i \<in> ?S" for i
    proof -
      have "as ! i \<in> set as" using S [OF that] by simp
      then have "action_level g (as ! i)" using level by blast
      then show ?thesis using red [OF that] by (simp add: action_level_def)
    qed
    have winning: "{r \<in> (\<lambda>i. number (as ! i)) ` ?S. reduce_wins (symbol_prec g ! ?X) (symbol_assoc g ! ?X) (rprec g ! r)} =
        (\<lambda>i. number (as ! i)) ` beating as f ?n"
      using lred unfolding beating_def lsh by auto
    have none: "(\<exists>r \<in> (\<lambda>i. number (as ! i)) ` ?S. none_wins (symbol_prec g ! ?X) (symbol_assoc g ! ?X) (rprec g ! r)) \<longleftrightarrow>
        (\<exists>i \<in> ?S. none_wins (prec ?sh) (assoc ?sh) (prec (as ! i)))"
      using lred unfolding lsh by auto
    have least: "(\<lambda>r. (REDUCE, ?X, r)) ` {r \<in> (\<lambda>i. number (as ! i)) ` beating as f ?n.
        \<forall>r' \<in> (\<lambda>i. number (as ! i)) ` beating as f ?n. r \<le> r'} = {action_key (as ! Min (beating as f ?n))}" if b: "beating as f ?n \<noteq> {}"
    proof -
      let ?m = "Min (beating as f ?n)"
      have m: "?m \<in> beating as f ?n" by (rule Min_in [OF beating_facts(1) b])
      have ms: "?m \<in> ?S" using beating_facts(2) m by blast
      have "number (as ! ?m) \<le> number (as ! i)" if i: "i \<in> beating as f ?n" for i
        using Min_le [OF beating_facts(1) i] less [of ?m i] beating_facts(2) [OF i] S [OF ms] red [OF ms]
        by (cases "?m = i") (simp_all add: less_imp_le)
      then have "{r \<in> (\<lambda>i. number (as ! i)) ` beating as f ?n. \<forall>r' \<in> (\<lambda>i. number (as ! i)) ` beating as f ?n. r \<le> r'} = {number (as ! ?m)}"
        using m by (intro least_image) auto
      then show ?thesis using red [OF ms] S [OF ms] by simp
    qed
    have dec: "decided is_final as f \<longleftrightarrow> is_final \<and> ?X = 0" using SHIFT by (simp add: decided_def)
    show ?thesis unfolding settled_def Let_def shifts rules winning none winners_def dec using least by simp
  qed
qed

text \<open>What \<open>remove_conflicts\<close> leaves for a token is what is settled.\<close>

lemma remove_conflicts_settled:
  assumes ok: "actions_ok g K as" and run: "remove_conflicts_state is_final as = (actions, SRcount, RRcount)"
  shows "{action_key a | a. a \<in> set actions \<and> symbol a = X \<and> suppressed a = 0} = settled g is_final K X"
proof -
  have sorted: "sorted_wrt action_before as" and K: "set (map action_key as) = K" and z: "\<forall>p \<in> set as. suppressed p = 0"
    and level: "\<forall>p \<in> set as. action_level g p" using ok unfolding actions_ok_def by blast+
  note r = remove_conflicts_state_result [OF chain_sorted_distinct(1) [OF sorted] z run]
  have key: "action_key (actions ! i) = action_key (as ! i)" if "i < length as" for i
    using arg_cong [OF r(2) [OF that], of action_key] by simp
  show ?thesis
  proof (cases "\<exists>i < length as. symbol (as ! i) = X")
    case True
    define f where "f = (LEAST i. i < length as \<and> symbol (as ! i) = X)"
    have f: "f < length as" "symbol (as ! f) = X" unfolding f_def using LeastI_ex [OF True] by blast+
    have fp: "first_place as f" unfolding first_place_def
    proof (intro allI impI)
      fix j assume "j < f"
      then have "\<not> (j < length as \<and> symbol (as ! j) = X)" unfolding f_def by (rule not_less_Least)
      then show "symbol (as ! j) \<noteq> symbol (as ! f)" using f \<open>j < f\<close> by simp
    qed
    have w: "i \<in> winners is_final as f (length as) \<Longrightarrow> i < length as \<and> symbol (as ! i) = X" for i
    proof -
      assume "i \<in> winners is_final as f (length as)"
      then have "i = f \<or> i \<in> beating as f (length as)"
        using Min_in [OF beating_facts(1), of as f "length as"] by (auto simp: winners_def split: if_splits)
      then show "i < length as \<and> symbol (as ! i) = X" using f beating_facts(2) same_symbol_facts(2) by metis
    qed
    have left: "a \<in> set actions \<and> symbol a = X \<and> suppressed a = 0 \<longleftrightarrow> (\<exists>i \<in> winners is_final as f (length as). a = actions ! i)" for a
    proof
      assume a: "a \<in> set actions \<and> symbol a = X \<and> suppressed a = 0"
      then obtain i where i: "i < length as" "a = actions ! i" using r(1) by (metis in_set_conv_nth)
      then have "symbol (as ! i) = X" using key [OF i(1)] a by simp
      then show "\<exists>i \<in> winners is_final as f (length as). a = actions ! i"
        using remove_conflicts_state_winners [OF sorted z run f(1) fp i(1)] f(2) a i(2) by auto
    next
      assume "\<exists>i \<in> winners is_final as f (length as). a = actions ! i"
      then obtain i where i: "i \<in> winners is_final as f (length as)" "a = actions ! i" by blast
      then show "a \<in> set actions \<and> symbol a = X \<and> suppressed a = 0"
        using w [OF i(1)] remove_conflicts_state_winners [OF sorted z run f(1) fp, of i] f(2) key [of i] r(1) by auto
    qed
    have "{action_key a | a. a \<in> set actions \<and> symbol a = X \<and> suppressed a = 0} =
        (\<lambda>i. action_key (actions ! i)) ` winners is_final as f (length as)"
      unfolding left by blast
    also have "\<dots> = (\<lambda>i. action_key (as ! i)) ` winners is_final as f (length as)" using key w by (metis (no_types, lifting) image_cong)
    also have "\<dots> = settled g is_final K X" using settled_winners [OF sorted level K f(1) fp] f(2) by simp
    finally show ?thesis .
  next
    case False
    then have "(c, X, x) \<notin> K" for c x using K by (auto simp: in_set_conv_nth)
    then have "settled g is_final K X = {}" by (simp add: settled_def)
    moreover have "\<not> (a \<in> set actions \<and> symbol a = X)" for a
      using False key r(1) by (metis in_set_conv_nth prod.inject)
    ultimately show ?thesis by blast
  qed
qed

end
