(* ===== verification/Jay_Parser.thy ===== *)
theory Jay_Parser
  imports Jay_Conflicts
begin

text \<open>
  What \<open>mkpar.c\<close> guarantees of the parser: the actions are those of the automaton with its lookaheads, what is left of them for each state and token
  is what \<open>settled\<close> says, and the default reductions are the rules that are the only thing left in a state.
\<close>

section \<open>Default reductions\<close>

lemma sole_reduction_loop_result:
  assumes "sole_reduction_loop ps counts r0 = r" "0 < r" "\<And>p. p \<in> set ps \<Longrightarrow> action_code p = REDUCE \<Longrightarrow> 0 < number p"
  shows "\<And>p. p \<in> set ps \<Longrightarrow> suppressed p = 0 \<Longrightarrow> action_code p = REDUCE \<and> number p = r" "0 < r0 \<Longrightarrow> r0 = r"
    "0 < counts \<or> (\<exists>p \<in> set ps. suppressed p = 0 \<and> symbol p \<noteq> 1)"
proof -
  have "(\<forall>p \<in> set ps. suppressed p = 0 \<longrightarrow> action_code p = REDUCE \<and> number p = r) \<and> (0 < r0 \<longrightarrow> r0 = r) \<and>
    (0 < counts \<or> (\<exists>p \<in> set ps. suppressed p = 0 \<and> symbol p \<noteq> 1))"
    using assms
  proof (induction ps arbitrary: counts r0)
    case Nil
    then show ?case by (auto split: if_splits)
  next
    case (Cons p ps)
    show ?case
    proof (cases "suppressed p = 0")
      case False
      then show ?thesis using Cons.IH [of counts r0] Cons.prems by auto
    next
      case True
      then have red: "action_code p = REDUCE" using Cons.prems(1,2) by (cases "action_code p") auto
      then have np: "0 < number p" using Cons.prems(3) by simp
      have nr: "\<not> (0 < r0 \<and> number p \<noteq> r0)"
      proof
        assume "0 < r0 \<and> number p \<noteq> r0"
        then have "sole_reduction_loop (p # ps) counts r0 = 0" using True red by simp
        then show False using Cons.prems(1,2) by simp
      qed
      then have "sole_reduction_loop ps (if symbol p \<noteq> 1 then counts + 1 else counts) (number p) = r" using Cons.prems(1) True red by auto
      from Cons.IH [OF this Cons.prems(2)] Cons.prems(3) np nr True red show ?thesis by (auto split: if_splits)
    qed
  qed
  then show "\<And>p. p \<in> set ps \<Longrightarrow> suppressed p = 0 \<Longrightarrow> action_code p = REDUCE \<and> number p = r" "0 < r0 \<Longrightarrow> r0 = r"
    "0 < counts \<or> (\<exists>p \<in> set ps. suppressed p = 0 \<and> symbol p \<noteq> 1)" by blast+
qed

lemma sole_reduction_loop_sole:
  assumes "\<forall>p \<in> set ps. suppressed p = 0 \<longrightarrow> action_code p = REDUCE \<and> number p = r" "r0 = 0 \<or> r0 = r"
    "0 < counts \<and> r0 = r \<or> (\<exists>p \<in> set ps. suppressed p = 0 \<and> symbol p \<noteq> 1)"
  shows "sole_reduction_loop ps counts r0 = r"
  using assms
proof (induction ps arbitrary: counts r0)
  case (Cons p ps)
  show ?case
  proof (cases "suppressed p = 0")
    case True
    then have p: "action_code p = REDUCE" "number p = r" using Cons.prems(1) by simp_all
    have "sole_reduction_loop ps (if symbol p \<noteq> 1 then counts + 1 else counts) r = r"
      by (rule Cons.IH) (use Cons.prems p True in auto)
    then show ?thesis using True p Cons.prems(2) by auto
  next
    case False
    then have "sole_reduction_loop ps counts r0 = r" using Cons.prems by (intro Cons.IH) auto
    then show ?thesis using False by simp
  qed
qed auto

section \<open>The parser\<close>

text \<open>What holds of the actions of state \<open>q\<close>: they are the shifts and the reductions of the automaton, each once; of two for one token at least
  one is suppressed, and an action is suppressed only if there is another for its token; what is left for a token is what is settled; and a
  rule is the default reduction just if all that is left are reductions by it, for other tokens than \<open>error\<close> too.\<close>

definition parser_state_ok :: "grammar \<Rightarrow> core list \<Rightarrow> parser_tables \<Rightarrow> nat \<Rightarrow> bool" where
  "parser_state_ok g cs P q \<longleftrightarrow> (let actions = parser P ! q in
     set (map action_key actions) = state_actions g cs q \<and> distinct (map action_key actions) \<and> symbols_sorted actions \<and>
     (\<forall>a \<in> set actions. \<forall>b \<in> set actions. a \<noteq> b \<longrightarrow> symbol a = symbol b \<longrightarrow> suppressed a \<noteq> 0 \<or> suppressed b \<noteq> 0) \<and>
     (\<forall>a \<in> set actions. suppressed a \<noteq> 0 \<longrightarrow> (\<exists>b \<in> set actions. b \<noteq> a \<and> symbol b = symbol a)) \<and>
     (\<forall>X. {action_key a | a. a \<in> set actions \<and> symbol a = X \<and> suppressed a = 0} =
        settled g (q = final_state P) (state_actions g cs q) X) \<and>
     (defred P ! q \<noteq> 0 \<longrightarrow> (\<forall>a \<in> set actions. suppressed a = 0 \<longrightarrow> action_code a = REDUCE \<and> number a = defred P ! q)) \<and>
     (\<forall>r > 0. defred P ! q = r \<longleftrightarrow> (\<forall>a \<in> set actions. suppressed a = 0 \<longrightarrow> action_code a = REDUCE \<and> number a = r) \<and>
        (\<exists>a \<in> set actions. suppressed a = 0 \<and> symbol a \<noteq> 1)))"

lemma state_actions_reduce:
  assumes "grammar_ok g" "cores_ok g cs" "q < length cs" "(REDUCE, X, r) \<in> state_actions g cs q"
  shows "0 < r"
  using assms kernel_reductions_facts(2) [of g cs q r] by (auto simp: state_actions_def)

lemma find_final_state_result:
  assumes g: "grammar_ok g" and st: "lr0_automaton g st" and t: "lalr_ok g st t"
  obtains q where "find_final_state g t = Some q" "moves g (cores st) 0 (start_symbol g + 1) q"
proof -
  let ?cs = "cores st"
  have cs: "cores_ok g ?cs" and sl: "shifts_ok g ?cs (length ?cs) (shift_list st)" using st unfolding lr0_automaton_def by iprover+
  have tt: "accessing_symbol t = set_accessing_symbol ?cs" "shift_table t = set_shift_table (length ?cs) (shift_list st)" using t unfolding lalr_ok_def by iprover+
  have z: "0 < length ?cs" using cores_okD(1) [OF cs] by simp
  note tm = shift_table_moves [OF g cs sl z, folded tt]
  obtain q where q: "moves g ?cs 0 (start_symbol g + 1) q" by (rule goal_goto [OF g cs sl])
  then have qs: "q \<in> set (shifts_of (shift_table t) 0)" "core_symbol (?cs ! q) = start_symbol g + 1" using tm(1) by blast+
  have "shift_table t ! 0 \<noteq> None"
  proof
    assume "shift_table t ! 0 = None"
    then have "shifts_of (shift_table t) 0 = []" unfolding shifts_of_def by simp
    then show False using qs(1) by simp
  qed
  then obtain sp where sp: "shift_table t ! 0 = Some sp" by blast
  then have sp2: "shifts_of (shift_table t) 0 = shift sp" unfolding shifts_of_def by simp
  have acc: "accessing_symbol t ! s = core_symbol (?cs ! s)" if "s \<in> set (shift sp)" for s
  proof -
    have "moves g ?cs 0 (core_symbol (?cs ! s)) s" using tm(1) that unfolding sp2 by blast
    then have "s < length ?cs" using moves_symbol by blast
    then show ?thesis unfolding tt(1) by (rule accessing_symbol_core(2) [OF cs])
  qed
  have only: "s = q" if "s \<in> set (shift sp)" "accessing_symbol t ! s = start_symbol g + 1" for s
  proof -
    have "core_symbol (?cs ! s) = start_symbol g + 1" using acc [OF that(1)] that(2) by simp
    then have "moves g ?cs 0 (start_symbol g + 1) s" using tm(1) that(1) unfolding sp2 by blast
    then show ?thesis using q by (rule moves_unique [OF cs])
  qed
  have loop: "final_state_loop t (int (start_symbol g + 1)) ss z = q"
    if "q \<in> set ss" "set ss \<subseteq> set (shift sp)" for ss z
    using that
  proof (induction ss arbitrary: z)
    case (Cons s ss)
    show ?case
    proof (cases "accessing_symbol t ! s = start_symbol g + 1")
      case True
      then show ?thesis using only [of s] Cons.prems(2) by simp
    next
      case False
      then have "s \<noteq> q" using acc [of q] qs unfolding sp2 by metis
      then have "q \<in> set ss" "set ss \<subseteq> set (shift sp)" using Cons.prems by auto
      then have "final_state_loop t (int (start_symbol g + 1)) ss s = q" by (rule Cons.IH)
      moreover have "int (accessing_symbol t ! s) \<noteq> int (start_symbol g + 1)" using False by linarith
      ultimately show ?thesis by (simp only: final_state_loop.simps if_False)
    qed
  qed simp
  have "ritem g ! 1 = int (start_symbol g + 1)" using grammar_first_rules(2) [OF g] by simp
  then have "find_final_state g t = Some q"
    using loop [of "rev (shift sp)" 0] qs(1) unfolding find_final_state_def Let_def sp sp2 by simp
  then show thesis using q by (rule that)
qed

lemma make_parser_result:
  assumes g: "grammar_ok g" and st: "lr0_automaton g st" and t: "lalr_ok g st t"
  obtains P where "make_parser g t (length (cores st)) = Some P" "length (parser P) = length (cores st)"
    "moves g (cores st) 0 (start_symbol g + 1) (final_state P)" "\<And>q. q < length (cores st) \<Longrightarrow> parser_state_ok g (cores st) P q"
proof -
  let ?cs = "cores st" and ?n = "length (cores st)"
  have cs: "cores_ok g ?cs" using st unfolding lr0_automaton_def by iprover
  obtain f where f: "find_final_state g t = Some f" "moves g ?cs 0 (start_symbol g + 1) f" by (rule find_final_state_result [OF g st t])
  define ps where "ps = map (parse_actions g t) [0..<?n]"
  obtain parser' counts where rc: "remove_conflicts f ps = (parser', counts)" by (cases "remove_conflicts f ps")
  obtain used un where un: "unused_rules g parser' = (used, un)" by (cases "unused_rules g parser'")
  define P where "P = \<lparr> parser = parser', conflicts = counts, rules_used = used, nunused = un, defred = defreds parser', final_state = f \<rparr>"
  have result: "make_parser g t ?n = Some P"
    using f(1) rc un by (simp add: make_parser_def Let_def P_def ps_def)
  have par: "parser' = map (\<lambda>i. fst (remove_conflicts_state (i = f) (ps ! i))) [0..<?n]"
    using rc by (auto simp: remove_conflicts_def Let_def ps_def comp_def)
  show thesis
  proof (rule that [OF result])
    show "length (parser P) = ?n" by (simp add: P_def par)
    show "moves g ?cs 0 (start_symbol g + 1) (final_state P)" using f(2) by (simp add: P_def)
    fix q assume q: "q < ?n"
    let ?a0 = "parse_actions g t q"
    have ok: "actions_ok g (state_actions g ?cs q) ?a0" by (rule parse_actions_ok [OF g st t q])
    then have c0: "sorted_wrt action_before ?a0" and k0: "set (map action_key ?a0) = state_actions g ?cs q"
      and z0: "\<forall>p \<in> set ?a0. suppressed p = 0" unfolding actions_ok_def by blast+
    note s0 = chain_sorted_distinct(1) [OF c0] and d0 = chain_sorted_distinct(2) [OF c0]
    obtain actions SR RR where rs: "remove_conflicts_state (q = f) ?a0 = (actions, SR, RR)" by (cases "remove_conflicts_state (q = f) ?a0")
    note r = remove_conflicts_state_result [OF s0 z0 rs]
    have pq: "parser P ! q = actions" using q rs by (simp add: P_def par ps_def)
    have keys: "map action_key actions = map action_key ?a0"
    proof (rule nth_equalityI)
      show "length (map action_key actions) = length (map action_key ?a0)" using r(1) by simp
      fix i assume "i < length (map action_key actions)"
      then have i: "i < length ?a0" "i < length actions" using r(1) by simp_all
      have "action_key (actions ! i) = action_key (?a0 ! i)" using arg_cong [OF r(2) [OF i(1)], of action_key] by simp
      then show "map action_key actions ! i = map action_key ?a0 ! i" using i by simp
    qed
    have syms: "map symbol actions = map symbol ?a0"
      using arg_cong [OF keys, of "map (\<lambda>k. fst (snd k))"] by (simp add: comp_def)
    have dred: "defred P ! q = sole_reduction_loop actions 0 0"
      using q pq by (simp add: P_def defreds_def par sole_reduction_def)
    have pos: "0 < number p" if "p \<in> set actions" "action_code p = REDUCE" for p
    proof -
      have "action_key p \<in> set (map action_key actions)" using that(1) by simp
      then have "(REDUCE, symbol p, number p) \<in> state_actions g ?cs q" unfolding keys k0 that(2) .
      then show ?thesis by (rule state_actions_reduce [OF g cs q])
    qed
    have inj: "i = j" if "i < length actions" "j < length actions" "actions ! i = actions ! j" for i j
      using distinct_map [of action_key actions] d0 keys that nth_eq_iff_index_eq by metis
    show "parser_state_ok g ?cs P q"
      unfolding parser_state_ok_def Let_def pq
    proof (intro conjI ballI impI)
      show "set (map action_key actions) = state_actions g ?cs q" "distinct (map action_key actions)" unfolding keys by (rule k0, rule d0)
      show "symbols_sorted actions" using s0 syms by (simp add: symbols_sorted_def)
      show "\<forall>X. {action_key a | a. a \<in> set actions \<and> symbol a = X \<and> suppressed a = 0} =
          settled g (q = final_state P) (state_actions g ?cs q) X"
        using remove_conflicts_settled [OF ok rs] by (simp add: P_def)
      show "\<forall>r > 0. defred P ! q = r \<longleftrightarrow> (\<forall>a \<in> set actions. suppressed a = 0 \<longrightarrow> action_code a = REDUCE \<and> number a = r) \<and>
          (\<exists>a \<in> set actions. suppressed a = 0 \<and> symbol a \<noteq> 1)"
      proof (intro allI impI)
        fix r :: nat assume r0: "0 < r"
        show "defred P ! q = r \<longleftrightarrow> (\<forall>a \<in> set actions. suppressed a = 0 \<longrightarrow> action_code a = REDUCE \<and> number a = r) \<and>
          (\<exists>a \<in> set actions. suppressed a = 0 \<and> symbol a \<noteq> 1)" (is "_ \<longleftrightarrow> ?sole")
        proof
          assume "defred P ! q = r"
          then have run: "sole_reduction_loop actions 0 0 = r" using dred by simp
          show ?sole using sole_reduction_loop_result(1,3) [OF run r0 pos] by blast
        next
          assume ?sole
          then show "defred P ! q = r" unfolding dred by (intro sole_reduction_loop_sole) auto
        qed
      qed
    next
      fix a b assume ab: "a \<in> set actions" "b \<in> set actions" "a \<noteq> b" "symbol a = symbol b"
      then obtain i j where "i < length actions" "a = actions ! i" "j < length actions" "b = actions ! j" by (metis in_set_conv_nth)
      moreover from calculation have "i \<noteq> j" using ab(3) by metis
      ultimately show "suppressed a \<noteq> 0 \<or> suppressed b \<noteq> 0" using r(3) [of i j] ab(4) by blast
    next
      fix a assume a: "a \<in> set actions" "suppressed a \<noteq> 0"
      then obtain i where i: "i < length actions" "a = actions ! i" by (metis in_set_conv_nth)
      then obtain j where j: "j < length actions" "j \<noteq> i" "symbol (actions ! j) = symbol (actions ! i)" using r(4) [of i] a(2) by blast
      have "actions ! j \<noteq> a" using inj [OF j(1) i(1)] j(2) i(2) by metis
      then show "\<exists>b \<in> set actions. b \<noteq> a \<and> symbol b = symbol a" using nth_mem [OF j(1)] j(3) i(2) by metis
    next
      fix a assume a: "defred P ! q \<noteq> 0" "a \<in> set actions" "suppressed a = 0"
      have "0 < defred P ! q" using a(1) by simp
      then have sole: "action_code a = REDUCE \<and> number a = defred P ! q"
        by (rule sole_reduction_loop_result(1) [OF dred [symmetric] _ pos a(2,3)])
      show "action_code a = REDUCE" "number a = defred P ! q"
        by (rule conjunct1 [OF sole], rule conjunct2 [OF sole])
    qed
  qed
qed

end
