(* ===== verification/Jay_Output.thy ===== *)
theory Jay_Output
  imports Jay_Parser
begin

text \<open>
  The tables of \<open>output.c\<close>: the rows of actions and the columns of gotos as vectors of \<open>from\<close> and \<open>to\<close>, their order, and the packing
  of all vectors into the two arrays \<open>table\<close> and \<open>check\<close>. What only prints (the texts of the skeleton, ten numbers in a line) is not modelled.
\<close>

section \<open>Vectors\<close>

text \<open>The vectors of a state are its shifts, at the number of the state, and its reductions, \<open>nstates\<close> after it; those of the variables come behind.
  A null pointer is the empty list; \<open>allocate\<close> clears what it returns.\<close>

record vectors =
  froms :: "int list list"
  tos :: "int list list"
  tally :: "nat list"
  width :: "int list"

definition no_vectors :: "nat \<Rightarrow> vectors" where
  "no_vectors nvectors = \<lparr> froms = replicate nvectors [], tos = replicate nvectors [], tally = replicate nvectors 0, width = replicate nvectors 0 \<rparr>"

text \<open>The first loop of \<open>token_actions\<close>: \<open>actionrow\<close>, \<open>shiftcount\<close> and \<open>reducecount\<close> for the actions of a state with default \<open>default_rule\<close>.\<close>

definition action_row :: "grammar \<Rightarrow> nat \<Rightarrow> action list \<Rightarrow> nat list \<times> nat \<times> nat" where
  "action_row g default_rule actions =
     fold (\<lambda>p (actionrow, shiftcount, reducecount).
         if suppressed p = 0
         then
           if action_code p = SHIFT then (actionrow[symbol p := number p], shiftcount + 1, reducecount)
           else if action_code p = REDUCE \<and> number p \<noteq> default_rule
           then (actionrow[symbol p + ntokens g := number p], shiftcount, reducecount + 1)
           else (actionrow, shiftcount, reducecount)
         else (actionrow, shiftcount, reducecount))
       actions (replicate (2 * ntokens g) 0, 0, 0)"

text \<open>The loop over the tokens that makes a vector of one half of the row: \<open>min\<close>, \<open>max\<close> and the entries written through \<open>r\<close> and \<open>s\<close>.\<close>

definition row_entries :: "grammar \<Rightarrow> nat list \<Rightarrow> nat \<Rightarrow> int \<Rightarrow> int \<times> int \<times> int list \<times> int list" where
  "row_entries g actionrow offset subtracted =
     fold (\<lambda>j (mn, mx, r, s). if actionrow ! (offset + j) \<noteq> 0
         then let v = symbol_value g ! j in
           (if v < mn then v else mn, if mx < v then v else mx, r @ [v], s @ [int (actionrow ! (offset + j)) - subtracted])
         else (mn, mx, r, s))
       [0..<ntokens g] (int MAXSHORT, 0, [], [])"

definition store_row :: "grammar \<Rightarrow> nat list \<Rightarrow> nat \<Rightarrow> int \<Rightarrow> nat \<Rightarrow> nat \<Rightarrow> vectors \<Rightarrow> vectors" where
  "store_row g actionrow offset subtracted i entries vs =
     (let vs = vs\<lparr> tally := (tally vs)[i := entries], width := (width vs)[i := 0] \<rparr> in
      if 0 < entries
      then let (mn, mx, r, s) = row_entries g actionrow offset subtracted in
        vs\<lparr> froms := (froms vs)[i := r], tos := (tos vs)[i := s], width := (width vs)[i := to_short (mx - mn + 1)] \<rparr>
      else vs)"

definition token_actions :: "grammar \<Rightarrow> parser_tables \<Rightarrow> nat \<Rightarrow> vectors \<Rightarrow> vectors" where
  "token_actions g P nstates vs =
     fold (\<lambda>i vs. if parser P ! i \<noteq> []
         then let (actionrow, shiftcount, reducecount) = action_row g (defred P ! i) (parser P ! i) in
           store_row g actionrow (ntokens g) 2 (nstates + i) reducecount (store_row g actionrow 0 0 i shiftcount vs)
         else vs)
       [0..<nstates] vs"

definition default_goto :: "grammar \<Rightarrow> goto_tables \<Rightarrow> nat \<Rightarrow> nat \<Rightarrow> nat" where
  "default_goto g gt nstates X =
     (let m = goto_map gt ! (X - ntokens g); n = goto_map gt ! (X + 1 - ntokens g) in
      if m = n then 0
      else let state_count = fold (\<lambda>i state_count. state_count[to_state gt ! i := state_count ! (to_state gt ! i) + 1]) [m..<n] (replicate nstates (0 :: nat))
        in snd (fold (\<lambda>i (mx, default_state). if mx < state_count ! i then (state_count ! i, i) else (mx, default_state)) [0..<nstates] (0, 0)))"

definition save_column :: "grammar \<Rightarrow> goto_tables \<Rightarrow> nat \<Rightarrow> nat \<Rightarrow> nat \<Rightarrow> vectors \<Rightarrow> vectors" where
  "save_column g gt nstates X default_state vs =
     (let m = goto_map gt ! (X - ntokens g); n = goto_map gt ! (X + 1 - ntokens g);
          numbers = filter (\<lambda>i. to_state gt ! i \<noteq> default_state) [m..<n] in
      if numbers = [] then vs
      else let symno = nat (symbol_value g ! X + 2 * int nstates);
             sp1 = map (\<lambda>i. int (from_state gt ! i)) numbers;
             sp2 = map (\<lambda>i. int (to_state gt ! i)) numbers
        in \<lparr> froms = (froms vs)[symno := sp1], tos = (tos vs)[symno := sp2], tally = (tally vs)[symno := length numbers],
             width = (width vs)[symno := to_short (last sp1 - hd sp1 + 1)] \<rparr>)"

text \<open>With the numbers printed as \<open>yyDgoto\<close>.\<close>

definition goto_actions :: "grammar \<Rightarrow> goto_tables \<Rightarrow> nat \<Rightarrow> vectors \<Rightarrow> nat list \<times> vectors" where
  "goto_actions g gt nstates vs =
     fold (\<lambda>i (yyDgoto, vs). let k = default_goto g gt nstates i in (yyDgoto @ [k], save_column g gt nstates i k vs))
       [start_symbol g + 1..<nsyms g] ([], vs)"

section \<open>Order\<close>

text \<open>The two loops that run down from the last entry.\<close>

definition insert_vector :: "vectors \<Rightarrow> nat \<Rightarrow> nat list \<Rightarrow> nat list" where
  "insert_vector vs i order =
     (let t = tally vs ! i; w = width vs ! i;
          kept = rev (dropWhile (\<lambda>o'. width vs ! o' = w \<and> tally vs ! o' < t) (dropWhile (\<lambda>o'. width vs ! o' < w) (rev order)))
      in kept @ i # drop (length kept) order)"

definition sort_actions :: "vectors \<Rightarrow> nat \<Rightarrow> nat list" where
  "sort_actions vs nvectors = fold (\<lambda>i order. if 0 < tally vs ! i then insert_vector vs i order else order) [0..<nvectors] []"

section \<open>Packing\<close>

text \<open>\<open>maxtable\<close> is the length of both arrays; \<open>places\<close>, the part of \<open>pos\<close> that is set, grows with every vector.\<close>

record packed =
  base :: "int list"
  places :: "int list" \<comment> \<open>\<open>pos\<close>\<close>
  table :: "int list"
  check :: "int list"
  lowzero :: nat
  high :: nat

definition vectors_match :: "vectors \<Rightarrow> nat \<Rightarrow> nat \<Rightarrow> nat \<Rightarrow> bool" where
  "vectors_match vs t j i \<longleftrightarrow> list_all (\<lambda>k. tos vs ! j ! k = tos vs ! i ! k \<and> froms vs ! j ! k = froms vs ! i ! k) [0..<t]"

text \<open>The loop over the vectors before, from the last one down.\<close>

fun matching_loop :: "vectors \<Rightarrow> nat \<Rightarrow> nat list \<Rightarrow> nat option" where
  "matching_loop vs i [] = None"
| "matching_loop vs i (j # js) =
     (if width vs ! j \<noteq> width vs ! i \<or> tally vs ! j \<noteq> tally vs ! i then None
      else if vectors_match vs (tally vs ! i) j i then Some j
      else matching_loop vs i js)"

definition matching_vector :: "vectors \<Rightarrow> nat list \<Rightarrow> nat \<Rightarrow> nat \<Rightarrow> nat option" where
  "matching_vector vs order nstates vector =
     (let i = order ! vector in if 2 * nstates \<le> i then None else matching_loop vs i (rev (take vector order)))"

function grow :: "nat \<Rightarrow> int \<Rightarrow> nat" where
  "grow newmax loc = (let newmax = newmax + 200 in if int newmax \<le> loc then grow newmax loc else newmax)"
  by pat_completeness auto
termination by (relation "measure (\<lambda>(newmax, loc). nat (loc - int newmax))") auto

text \<open>Trying one place: whether all entries are free, and the arrays, which grow on the way.\<close>

fun try_place :: "int \<Rightarrow> int list \<Rightarrow> int list \<times> int list \<Rightarrow> (bool \<times> int list \<times> int list) option" where
  "try_place j [] arrays = Some (True, arrays)"
| "try_place j (f # fs) (tab, chk) =
     (let loc = j + f in
      if int (length chk) \<le> loc \<and> int MAXTABLE \<le> loc then None
      else let more = (if int (length chk) \<le> loc then grow (length chk) loc - length chk else 0);
             tab = tab @ replicate more 0; chk = chk @ replicate more (-1)
        in if loc < 0 then None
           else if chk ! nat loc \<noteq> -1 then Some (False, tab, chk)
           else try_place j fs (tab, chk))"


declare grow.simps [simp del]

lemma grow_bounds: "int newmax \<le> loc \<Longrightarrow> loc < int (grow newmax loc) \<and> int (grow newmax loc) \<le> loc + 200 \<and> newmax \<le> grow newmax loc"
proof (induction newmax loc rule: grow.induct)
  case (1 newmax loc)
  show ?case
  proof (cases "int (newmax + 200) \<le> loc")
    case True
    then have "grow newmax loc = grow (newmax + 200) loc" by (simp add: grow.simps [of newmax loc])
    then show ?thesis using 1 True by simp
  next
    case False
    then have "grow newmax loc = newmax + 200" by (simp add: grow.simps [of newmax loc])
    then show ?thesis using 1 False by simp
  qed
qed

text \<open>The arrays never grow beyond this size.\<close>

definition array_bound :: "int list \<Rightarrow> int" where
  "array_bound chk = max (int MAXTABLE + 200) (int (length chk))"

lemma try_place_bound:
  "try_place j fs (tab, chk) = Some (found, tab', chk') \<Longrightarrow>
     array_bound chk' \<le> array_bound chk \<and> (fs \<noteq> [] \<longrightarrow> j + hd fs < array_bound chk)"
proof (induction fs arbitrary: tab chk)
  case (Cons f fs)
  define more where "more = (if int (length chk) \<le> j + f then grow (length chk) (j + f) - length chk else 0)"
  have run: "\<not> (int (length chk) \<le> j + f \<and> int MAXTABLE \<le> j + f)" using Cons.prems by (auto simp: Let_def)
  have len: "array_bound (chk @ replicate more (-1)) \<le> array_bound chk"
    using run grow_bounds [of "length chk" "j + f"] by (auto simp: more_def array_bound_def)
  have lt: "j + f < array_bound chk" using run by (auto simp: array_bound_def)
  show ?case
  proof (cases "try_place j fs (tab @ replicate more 0, chk @ replicate more (-1)) = Some (found, tab', chk')")
    case True
    then show ?thesis using Cons.IH len lt by fastforce
  next
    case False
    then have "chk' = chk @ replicate more (-1)" using Cons.prems by (auto simp: Let_def more_def split: if_splits)
    then show ?thesis using len lt by simp
  qed
qed simp

text \<open>The loop over the places \<open>j\<close>. It passes over 0, the mark of a missing vector, and the places of the vectors before.\<close>

function find_place :: "int list \<Rightarrow> int list \<Rightarrow> int \<Rightarrow> int list \<times> int list \<Rightarrow> (int \<times> int list \<times> int list) option" where
  "find_place used fs j (tab, chk) =
     (if fs = [] then None
      else if j = 0 then find_place used fs (j + 1) (tab, chk)
      else case try_place j fs (tab, chk) of
          None \<Rightarrow> None
        | Some (found, tab', chk') \<Rightarrow>
            if found \<and> j \<notin> set used then Some (j, tab', chk')
            else find_place used fs (j + 1) (tab', chk'))"
  by pat_completeness auto
termination
proof (relation "measure (\<lambda>(used, fs, j, tab, chk). nat (array_bound chk - (j + hd fs)) + nat (1 - j))", goal_cases)
  case (3 used fs j tab chk a found b tab' chk')
  then have "array_bound chk' \<le> array_bound chk \<and> j + hd fs < array_bound chk" using try_place_bound by blast
  then show ?case by auto
qed auto

text \<open>The loop \<open>while (check[lowzero] != -1)\<close>.\<close>

function next_zero :: "int list \<Rightarrow> nat \<Rightarrow> nat option" where
  "next_zero chk lz =
     (if length chk \<le> lz then None
      else if chk ! lz \<noteq> -1 then next_zero chk (lz + 1)
      else Some lz)"
  by pat_completeness auto
termination by (relation "measure (\<lambda>(chk, lz). length chk - lz)") auto

declare next_zero.simps [simp del] find_place.simps [simp del]

definition pack_vector :: "vectors \<Rightarrow> nat list \<Rightarrow> nat \<Rightarrow> packed \<Rightarrow> (int \<times> packed) option" where
  "pack_vector vs order vector ps =
     (let i = order ! vector; t = tally vs ! i; from = take t (froms vs ! i); to = take t (tos vs ! i) in
      if t = 0 then None
      else let first_place = fold (\<lambda>f j. if j < int (lowzero ps) - f then int (lowzero ps) - f else j) (tl from) (int (lowzero ps) - hd from)
        in do {
          (j, tab, chk) \<leftarrow> find_place (places ps) from first_place (table ps, check ps);
          let (tab, chk, hi) = fold (\<lambda>(f, v) (tab, chk, hi). let loc = nat (j + f) in (tab[loc := v], chk[loc := f], if hi < loc then loc else hi))
                (zip from to) (tab, chk, high ps);
          low \<leftarrow> next_zero chk (lowzero ps);
          Some (j, ps\<lparr> table := tab, check := chk, high := hi, lowzero := low \<rparr>)
        })"

definition pack_step :: "vectors \<Rightarrow> nat list \<Rightarrow> nat \<Rightarrow> nat \<Rightarrow> packed \<Rightarrow> packed option" where
  "pack_step vs order nstates i ps = do {
     (place, ps) \<leftarrow> (case matching_vector vs order nstates i of None \<Rightarrow> pack_vector vs order i ps | Some state \<Rightarrow> Some (base ps ! state, ps));
     Some (ps\<lparr> places := places ps @ [place], base := (base ps)[order ! i := place] \<rparr>)
   }"

definition empty_packed :: "nat \<Rightarrow> packed" where
  "empty_packed nvectors = \<lparr> base = replicate nvectors 0, places = [], table = replicate 1000 0, check = replicate 1000 (-1), lowzero = 0, high = 0 \<rparr>"

fun pack_loop :: "vectors \<Rightarrow> nat list \<Rightarrow> nat \<Rightarrow> nat list \<Rightarrow> packed \<Rightarrow> packed option" where
  "pack_loop vs order nstates [] ps = Some ps"
| "pack_loop vs order nstates (i # is) ps = do { ps \<leftarrow> pack_step vs order nstates i ps; pack_loop vs order nstates is ps }"

definition pack_table :: "vectors \<Rightarrow> nat list \<Rightarrow> nat \<Rightarrow> nat \<Rightarrow> packed option" where
  "pack_table vs order nstates nvectors = pack_loop vs order nstates [0..<length order] (empty_packed nvectors)"

section \<open>What is printed\<close>

text \<open>\<open>yyLhs\<close> and \<open>yyLen\<close>, from rule 2 on, and \<open>yyDefRed\<close>.\<close>

definition output_rule_data :: "grammar \<Rightarrow> int list \<times> int list" where
  "output_rule_data g =
     (symbol_value g ! start_symbol g # map (\<lambda>i. symbol_value g ! (rlhs g ! i)) [3..<nrules g],
      2 # map (\<lambda>i. int (rrhs g ! (i + 1)) - int (rrhs g ! i) - 1) [3..<nrules g])"

definition output_yydefred :: "parser_tables \<Rightarrow> nat \<Rightarrow> int list" where
  "output_yydefred P nstates = map (\<lambda>i. if defred P ! i \<noteq> 0 then int (defred P ! i) - 2 else 0) (0 # [1..<nstates])"

text \<open>The arrays that are printed, up to \<open>high\<close>: \<open>yySindex\<close>, \<open>yyRindex\<close>, \<open>yyGindex\<close>, \<open>yyTable\<close> and \<open>yyCheck\<close>.\<close>

record output_tables =
  yyDgoto :: "nat list"
  yySindex :: "int list"
  yyRindex :: "int list"
  yyGindex :: "int list"
  yyTable :: "int list"
  yyCheck :: "int list"

definition output_base :: "grammar \<Rightarrow> nat \<Rightarrow> packed \<Rightarrow> int list \<times> int list \<times> int list" where
  "output_base g nstates ps =
     (map ((!) (base ps)) [0..<nstates], map ((!) (base ps)) [nstates..<2 * nstates],
      map ((!) (base ps)) (2 * nstates # [2 * nstates + 1..<2 * nstates + nvars g - 1]))"

definition output_table :: "packed \<Rightarrow> int list" where
  "output_table ps = table ps ! 0 # map ((!) (table ps)) [1..<high ps + 1]"

definition output_check :: "packed \<Rightarrow> int list" where
  "output_check ps = check ps ! 0 # map ((!) (check ps)) [1..<high ps + 1]"

definition output_actions :: "grammar \<Rightarrow> lalr_tables \<Rightarrow> parser_tables \<Rightarrow> nat \<Rightarrow> output_tables option" where
  "output_actions g t P nstates = do {
     let nvectors = 2 * nstates + nvars g;
     let vs = token_actions g P nstates (no_vectors nvectors);
     let (dgoto, vs) = goto_actions g (gotos t) nstates vs;
     let order = sort_actions vs nvectors;
     ps \<leftarrow> pack_table vs order nstates nvectors;
     let (sindex, rindex, gindex) = output_base g nstates ps;
     Some \<lparr> yyDgoto = dgoto, yySindex = sindex, yyRindex = rindex, yyGindex = gindex, yyTable = output_table ps, yyCheck = output_check ps \<rparr>
   }"

end
