(* ===== verification/Jay_Pack.thy ===== *)
theory Jay_Pack
  imports Jay_Output
begin

text \<open>
  The packing of \<open>output.c\<close> is right: every vector is found in \<open>table\<close> and \<open>check\<close> at its base, and nothing else is; and it returns when the
  entries are few enough for the arrays.
\<close>

section \<open>Order\<close>

lemma insert_vector_set: "\<exists>xs ys. order = xs @ ys \<and> insert_vector vs i order = xs @ i # ys"
proof -
  define kept where "kept = rev (dropWhile (\<lambda>o'. width vs ! o' = width vs ! i \<and> tally vs ! o' < tally vs ! i)
    (dropWhile (\<lambda>o'. width vs ! o' < width vs ! i) (rev order)))"
  let ?P = "\<lambda>o'. width vs ! o' < width vs ! i" and ?Q = "\<lambda>o'. width vs ! o' = width vs ! i \<and> tally vs ! o' < tally vs ! i"
  have "rev order = takeWhile ?P (rev order) @ takeWhile ?Q (dropWhile ?P (rev order)) @ rev kept"
    unfolding kept_def rev_rev_ident by (simp only: takeWhile_dropWhile_id)
  then have "rev order = (takeWhile ?P (rev order) @ takeWhile ?Q (dropWhile ?P (rev order))) @ rev kept"
    by (simp only: append.assoc)
  then obtain ys where "rev order = ys @ rev kept" ..
  then have "order = kept @ rev ys" by (metis rev_append rev_rev_ident)
  moreover have "insert_vector vs i order = kept @ i # drop (length kept) order"
    unfolding insert_vector_def Let_def kept_def by (rule refl)
  ultimately have "insert_vector vs i order = kept @ i # rev ys" by (metis append_eq_conv_conj)
  then show ?thesis using \<open>order = kept @ rev ys\<close> by blast
qed

lemma sort_actions_result:
  shows "set (sort_actions vs n) = {i. i < n \<and> 0 < tally vs ! i}" "distinct (sort_actions vs n)"
proof -
  have "set (sort_actions vs n) = {i. i < n \<and> 0 < tally vs ! i} \<and> distinct (sort_actions vs n)"
  proof (induction n)
    case 0
    then show ?case by (simp add: sort_actions_def)
  next
    case (Suc n)
    obtain xs ys where xy: "sort_actions vs n = xs @ ys" "insert_vector vs n (sort_actions vs n) = xs @ n # ys"
      using insert_vector_set by blast
    have step: "sort_actions vs (Suc n) = (if 0 < tally vs ! n then xs @ n # ys else xs @ ys)"
      using xy by (simp add: sort_actions_def)
    have "set (xs @ ys) = {i. i < n \<and> 0 < tally vs ! i}" "distinct (xs @ ys)" using Suc xy by simp_all
    then show ?case unfolding step by (auto simp: less_Suc_eq)
  qed
  then show "set (sort_actions vs n) = {i. i < n \<and> 0 < tally vs ! i}" "distinct (sort_actions vs n)" by blast+
qed

section \<open>Places\<close>

definition free :: "int list \<Rightarrow> nat \<Rightarrow> bool" where
  "free chk l \<longleftrightarrow> length chk \<le> l \<or> chk ! l = -1"

lemma free_append [simp]: "free (chk @ replicate m (-1)) l \<longleftrightarrow> free chk l"
  by (cases "l < length chk + m") (auto simp: free_def nth_append)

lemma try_place_result:
  assumes "\<And>f. f \<in> set fs \<Longrightarrow> 0 \<le> j + f \<and> j + f < int MAXTABLE" "length tab = length chk"
  shows "\<exists>m. try_place j fs (tab, chk) =
      Some (\<forall>f \<in> set fs. free chk (nat (j + f)), tab @ replicate m 0, chk @ replicate m (-1)) \<and>
    ((\<forall>f \<in> set fs. free chk (nat (j + f))) \<longrightarrow> (\<forall>f \<in> set fs. nat (j + f) < length chk + m))"
  using assms
proof (induction fs arbitrary: tab chk)
  case Nil
  show ?case by (intro exI [of _ 0]) simp
next
  case (Cons f fs)
  define more where "more = (if int (length chk) \<le> j + f then grow (length chk) (j + f) - length chk else 0)"
  let ?chk = "chk @ replicate more (-1)" and ?tab = "tab @ replicate more 0"
  have jf: "0 \<le> j + f" "j + f < int MAXTABLE" using Cons.prems(1) [of f] by simp_all
  have room: "nat (j + f) < length chk + more"
    using grow_bounds [of "length chk" "j + f"] jf by (auto simp: more_def)
  have step: "try_place j (f # fs) (tab, chk) =
    (if ?chk ! nat (j + f) \<noteq> -1 then Some (False, ?tab, ?chk) else try_place j fs (?tab, ?chk))"
    using jf by (simp add: Let_def more_def)
  have fr: "?chk ! nat (j + f) = -1 \<longleftrightarrow> free chk (nat (j + f))" using room by (auto simp: free_def nth_append)
  show ?case
  proof (cases "free chk (nat (j + f))")
    case False
    then have no: "(\<forall>f \<in> set (f # fs). free chk (nat (j + f))) = False" by simp
    have "try_place j (f # fs) (tab, chk) = Some (False, ?tab, ?chk)" unfolding step using fr False by (simp only: if_True not_False_eq_True)
    then show ?thesis unfolding no by blast
  next
    case True
    have len: "length ?tab = length ?chk" using Cons.prems(2) by simp
    obtain m where m: "try_place j fs (?tab, ?chk) = Some (\<forall>f \<in> set fs. free ?chk (nat (j + f)), ?tab @ replicate m 0, ?chk @ replicate m (-1))"
      "(\<forall>f \<in> set fs. free ?chk (nat (j + f))) \<longrightarrow> (\<forall>f \<in> set fs. nat (j + f) < length ?chk + m)"
      using Cons.IH [of ?tab ?chk] Cons.prems(1) len by fastforce
    have "try_place j (f # fs) (tab, chk) = try_place j fs (?tab, ?chk)" using step fr True by simp
    then have "try_place j (f # fs) (tab, chk) =
      Some (\<forall>f \<in> set (f # fs). free chk (nat (j + f)), tab @ replicate (more + m) 0, chk @ replicate (more + m) (-1))"
      using m(1) True by (simp add: replicate_add)
    moreover have "(\<forall>f \<in> set (f # fs). free chk (nat (j + f))) \<longrightarrow> (\<forall>f \<in> set (f # fs). nat (j + f) < length chk + (more + m))"
      using m(2) room by auto
    ultimately show ?thesis by blast
  qed
qed

text \<open>A place for all entries of a vector.\<close>

definition good_place :: "int list \<Rightarrow> int list \<Rightarrow> int list \<Rightarrow> int \<Rightarrow> bool" where
  "good_place used fs chk p \<longleftrightarrow> p \<noteq> 0 \<and> p \<notin> set used \<and> (\<forall>f \<in> set fs. free chk (nat (p + f)))"

lemma find_place_result:
  assumes "good_place used fs chk p" "j \<le> p" "fs \<noteq> []" "length tab = length chk"
    "\<And>f. f \<in> set fs \<Longrightarrow> 0 \<le> j + f \<and> p + f < int MAXTABLE"
  shows "\<exists>j' m. find_place used fs j (tab, chk) = Some (j', tab @ replicate m 0, chk @ replicate m (-1)) \<and> j \<le> j' \<and> j' \<le> p \<and>
    good_place used fs chk j' \<and> (\<forall>f \<in> set fs. nat (j' + f) < length chk + m)"
  using assms
proof (induction "nat (p - j)" arbitrary: j tab chk)
  case 0
  then have jp: "j = p" by simp
  obtain m where m: "try_place j fs (tab, chk) = Some (\<forall>f \<in> set fs. free chk (nat (j + f)), tab @ replicate m 0, chk @ replicate m (-1))"
    "(\<forall>f \<in> set fs. free chk (nat (j + f))) \<longrightarrow> (\<forall>f \<in> set fs. nat (j + f) < length chk + m)"
    using try_place_result [of fs j tab chk, OF _ 0(5)] 0(6) unfolding jp by blast
  have g: "(\<forall>f \<in> set fs. free chk (nat (j + f))) = True" "j \<noteq> 0" "j \<notin> set used" using 0(2) jp by (simp_all add: good_place_def)
  have "find_place used fs j (tab, chk) = Some (j, tab @ replicate m 0, chk @ replicate m (-1))"
    using m(1) g 0(4) by (subst find_place.simps) (simp only: if_False option.case prod.case simp_thms if_True)
  then show ?case using m(2) g jp 0(2) by blast
next
  case (Suc x)
  show ?case
  proof (cases "j = 0")
    case True
    have "\<exists>j' m. find_place used fs (j + 1) (tab, chk) = Some (j', tab @ replicate m 0, chk @ replicate m (-1)) \<and> j + 1 \<le> j' \<and> j' \<le> p \<and>
      good_place used fs chk j' \<and> (\<forall>f \<in> set fs. nat (j' + f) < length chk + m)"
      using Suc by (intro Suc.hyps(1)) fastforce+
    moreover have "find_place used fs j (tab, chk) = find_place used fs (j + 1) (tab, chk)"
      using True Suc.prems(3) by (subst find_place.simps) simp
    ultimately show ?thesis by fastforce
  next
    case False
    have b: "\<And>f. f \<in> set fs \<Longrightarrow> 0 \<le> j + f \<and> j + f < int MAXTABLE"
      subgoal for f using Suc.prems(5) [of f] Suc.prems(2) by linarith done
    obtain m where m: "try_place j fs (tab, chk) = Some (\<forall>f \<in> set fs. free chk (nat (j + f)), tab @ replicate m 0, chk @ replicate m (-1))"
      "(\<forall>f \<in> set fs. free chk (nat (j + f))) \<longrightarrow> (\<forall>f \<in> set fs. nat (j + f) < length chk + m)"
      using try_place_result [of fs j tab chk, OF b Suc.prems(4)] by blast
    show ?thesis
    proof (cases "(\<forall>f \<in> set fs. free chk (nat (j + f))) \<and> j \<notin> set used")
      case True
      then have "find_place used fs j (tab, chk) = Some (j, tab @ replicate m 0, chk @ replicate m (-1))"
        using m(1) False Suc.prems(3) by (subst find_place.simps) simp
      moreover have "good_place used fs chk j" using True False by (simp add: good_place_def)
      ultimately show ?thesis using m(2) True Suc.prems(2) by blast
    next
      case no: False
      let ?tab = "tab @ replicate m 0" and ?chk = "chk @ replicate m (-1)"
      have step: "find_place used fs j (tab, chk) = find_place used fs (j + 1) (?tab, ?chk)"
        using m(1) False Suc.prems(3) no by (subst find_place.simps) auto
      have jp: "j + 1 \<le> p"
      proof -
        have "j \<noteq> p" using no Suc.prems(1) by (auto simp: good_place_def)
        then show ?thesis using Suc.prems(2) by simp
      qed
      have "\<exists>j' k. find_place used fs (j + 1) (?tab, ?chk) = Some (j', ?tab @ replicate k 0, ?chk @ replicate k (-1)) \<and> j + 1 \<le> j' \<and> j' \<le> p \<and>
        good_place used fs ?chk j' \<and> (\<forall>f \<in> set fs. nat (j' + f) < length ?chk + k)"
      proof (rule Suc.hyps(1))
        show "x = nat (p - (j + 1))" using Suc.hyps(2) by simp
        show "good_place used fs ?chk p" using Suc.prems(1) by (simp add: good_place_def)
        show "0 \<le> j + 1 + f \<and> p + f < int MAXTABLE" if "f \<in> set fs" for f using Suc.prems(5) [OF that] by linarith
      qed (use jp Suc.prems in simp_all)
      then obtain j' k where k: "find_place used fs (j + 1) (?tab, ?chk) = Some (j', ?tab @ replicate k 0, ?chk @ replicate k (-1))"
        "j + 1 \<le> j'" "j' \<le> p" "good_place used fs ?chk j'" "\<forall>f \<in> set fs. nat (j' + f) < length ?chk + k" by blast
      have "find_place used fs j (tab, chk) = Some (j', tab @ replicate (m + k) 0, chk @ replicate (m + k) (-1))"
        using step k(1) by (simp add: replicate_add)
      moreover have "good_place used fs chk j'" using k(4) by (simp add: good_place_def)
      moreover have "\<forall>f \<in> set fs. nat (j' + f) < length chk + (m + k)" using k(5) by (simp add: add.assoc)
      moreover have "j \<le> j'" using k(2) by simp
      ultimately show ?thesis using k(3) by blast
    qed
  qed
qed

text \<open>There is one, not far from any point, when few entries are taken.\<close>

lemma good_place_exists:
  assumes "card {l. \<not> free chk l} \<le> s" and nonneg: "\<And>f p. f \<in> set fs \<Longrightarrow> j \<le> p \<Longrightarrow> 0 \<le> p + f"
  obtains p where "good_place used fs chk p" "j \<le> p" "p \<le> j + int (s * length fs + length used + 1)"
proof -
  let ?occ = "{l. \<not> free chk l}"
  have fin: "finite ?occ" by (rule finite_subset [of _ "{..<length chk}"]) (auto simp: free_def)
  let ?bad = "(\<lambda>(l, f). int l - f) ` (?occ \<times> set fs) \<union> set used \<union> {0}"
  have "card ((\<lambda>(l, f). int l - f) ` (?occ \<times> set fs)) \<le> s * length fs"
  proof -
    have "card ((\<lambda>(l, f). int l - f) ` (?occ \<times> set fs)) \<le> card (?occ \<times> set fs)" using fin by (intro card_image_le) simp
    also have "\<dots> \<le> s * length fs" using assms(1) card_length [of fs] by (simp add: card_cartesian_product mult_le_mono)
    finally show ?thesis .
  qed
  then have "card ?bad \<le> s * length fs + length used + 1"
    using card_Un_le [of "(\<lambda>(l, f). int l - f) ` (?occ \<times> set fs)" "set used"] card_length [of used]
      card_Un_le [of "(\<lambda>(l, f). int l - f) ` (?occ \<times> set fs) \<union> set used" "{0}"] by simp
  moreover have "card {j..j + int (s * length fs + length used + 1)} = s * length fs + length used + 2"
    by (simp only: card_atLeastAtMost_int)
  ultimately have "card ?bad < card {j..j + int (s * length fs + length used + 1)}" by linarith
  moreover have "finite ?bad" using fin by simp
  ultimately obtain p where p: "p \<in> {j..j + int (s * length fs + length used + 1)}" "p \<notin> ?bad"
    by (meson card_mono not_le subsetI)
  have "good_place used fs chk p"
    unfolding good_place_def
  proof (intro conjI ballI)
    show "p \<noteq> 0" "p \<notin> set used" using p(2) by simp_all
    fix f assume f: "f \<in> set fs"
    then have "0 \<le> p + f" using nonneg p(1) by simp
    then have "p = int (nat (p + f)) - f" by simp
    then show "free chk (nat (p + f))" using p(2) f by (fastforce simp: image_iff)
  qed
  then show thesis using that p(1) by auto
qed


text \<open>The first place tried is the smallest at which no entry lies below \<open>lowzero\<close>.\<close>

lemma first_place_bounds:
  fixes lz :: int
  assumes "fs \<noteq> []" "\<And>f. f \<in> set fs \<Longrightarrow> 0 \<le> f" "j = fold (\<lambda>f j. if j < lz - f then lz - f else j) (tl fs) (lz - hd fs)"
  shows "\<And>f. f \<in> set fs \<Longrightarrow> lz \<le> j + f" "j \<le> lz"
proof -
  have run: "i \<le> fold (\<lambda>f j. if j < lz - f then lz - f else j) gs i \<and>
      (\<forall>f \<in> set gs. lz \<le> fold (\<lambda>f j. if j < lz - f then lz - f else j) gs i + f) \<and>
      ((\<forall>f \<in> set gs. 0 \<le> f) \<longrightarrow> i \<le> lz \<longrightarrow> fold (\<lambda>f j. if j < lz - f then lz - f else j) gs i \<le> lz)" for gs i
  proof (induction gs arbitrary: i)
    case (Cons g gs)
    show ?case using Cons.IH [of "if i < lz - g then lz - g else i"] by (auto split: if_splits)
  qed simp
  obtain f fs' where fs: "fs = f # fs'" using assms(1) by (cases fs) auto
  show "lz \<le> j + x" if "x \<in> set fs" for x using run [where gs = fs' and i = "lz - f"] assms(3) that by (auto simp: fs)
  show "j \<le> lz" using run [where gs = fs' and i = "lz - f"] assms(2,3) by (simp add: fs)
qed

text \<open>The loop that stores the entries of a vector.\<close>

lemma store_entries:
  assumes "length fs = length ts" "distinct fs" "\<And>f. f \<in> set fs \<Longrightarrow> 0 \<le> j + f \<and> nat (j + f) < length chk" "length tab = length chk"
  shows "\<exists>tab' chk' hi'. fold (\<lambda>(f, v) (tab, chk, hi). let loc = nat (j + f) in (tab[loc := v], chk[loc := f], if hi < loc then loc else hi))
      (zip fs ts) (tab, chk, hi) = (tab', chk', hi') \<and> length tab' = length chk \<and> length chk' = length chk \<and> hi \<le> hi' \<and>
    (\<forall>m < length fs. tab' ! nat (j + fs ! m) = ts ! m \<and> chk' ! nat (j + fs ! m) = fs ! m \<and> nat (j + fs ! m) \<le> hi') \<and>
    (\<forall>l. (\<forall>f \<in> set fs. l \<noteq> nat (j + f)) \<longrightarrow> tab' ! l = tab ! l \<and> chk' ! l = chk ! l) \<and>
    (hi < length chk \<longrightarrow> hi' < length chk)"
  using assms
proof (induction fs ts arbitrary: tab chk hi rule: list_induct2)
  case Nil
  then show ?case by simp
next
  case (Cons f fs t ts)
  let ?l = "nat (j + f)"
  let ?tab = "tab[?l := t]" and ?chk = "chk[?l := f]" and ?hi = "if hi < ?l then ?l else hi"
  let ?run = "fold (\<lambda>(f, v) (tab, chk, hi). let loc = nat (j + f) in (tab[loc := v], chk[loc := f], if hi < loc then loc else hi))"
  have l: "?l < length chk" "0 \<le> j + f" using Cons.prems(2) [of f] by simp_all
  have IH: "\<exists>tab' chk' hi'. ?run (zip fs ts) (?tab, ?chk, ?hi) = (tab', chk', hi') \<and> length tab' = length ?chk \<and> length chk' = length ?chk \<and> ?hi \<le> hi' \<and>
    (\<forall>m < length fs. tab' ! nat (j + fs ! m) = ts ! m \<and> chk' ! nat (j + fs ! m) = fs ! m \<and> nat (j + fs ! m) \<le> hi') \<and>
    (\<forall>l. (\<forall>f \<in> set fs. l \<noteq> nat (j + f)) \<longrightarrow> tab' ! l = ?tab ! l \<and> chk' ! l = ?chk ! l) \<and>
    (?hi < length ?chk \<longrightarrow> hi' < length ?chk)"
    using Cons.prems by (intro Cons.IH) simp_all
  obtain tab' chk' hi' where r: "?run (zip fs ts) (?tab, ?chk, ?hi) = (tab', chk', hi')" "length tab' = length chk" "length chk' = length chk"
    "?hi \<le> hi'" "\<forall>m < length fs. tab' ! nat (j + fs ! m) = ts ! m \<and> chk' ! nat (j + fs ! m) = fs ! m \<and> nat (j + fs ! m) \<le> hi'"
    "\<forall>l. (\<forall>f \<in> set fs. l \<noteq> nat (j + f)) \<longrightarrow> tab' ! l = ?tab ! l \<and> chk' ! l = ?chk ! l" "?hi < length chk \<longrightarrow> hi' < length chk"
    using IH unfolding length_list_update by blast
  have fresh: "?l \<noteq> nat (j + x)" if "x \<in> set fs" for x
  proof
    assume "?l = nat (j + x)"
    then have "f = x" using Cons.prems(2) [of x] that l(2) by (simp add: eq_nat_nat_iff)
    then show False using Cons.prems(1) that by simp
  qed
  then have here: "tab' ! ?l = t" "chk' ! ?l = f" using r(6) l(1) Cons.prems(3) by auto
  have run: "?run (zip (f # fs) (t # ts)) (tab, chk, hi) = (tab', chk', hi')" using r(1) by (simp add: Let_def)
  have all: "tab' ! nat (j + (f # fs) ! m) = (t # ts) ! m \<and> chk' ! nat (j + (f # fs) ! m) = (f # fs) ! m \<and> nat (j + (f # fs) ! m) \<le> hi'"
    if "m < length (f # fs)" for m
    using r(4,5) here that by (cases m) (auto split: if_splits)
  have rest: "tab' ! l = tab ! l \<and> chk' ! l = chk ! l" if "\<forall>x \<in> set (f # fs). l \<noteq> nat (j + x)" for l
    using r(6) that by simp
  have "hi \<le> hi'" "hi < length chk \<longrightarrow> hi' < length chk" using r(4,7) l(1) by (auto split: if_splits)
  then show ?case using run all rest r(2,3) by blast
qed

lemma next_zero_result:
  assumes "lz \<le> l" "l < length chk" "chk ! l = -1"
  shows "\<exists>l'. next_zero chk lz = Some l' \<and> lz \<le> l' \<and> l' < length chk \<and> (\<forall>x. lz \<le> x \<and> x < l' \<longrightarrow> chk ! x \<noteq> -1)"
  using assms
proof (induction chk lz rule: next_zero.induct)
  case (1 chk lz)
  show ?case
  proof (cases "chk ! lz = -1")
    case True
    then have "next_zero chk lz = Some lz" using 1 by (subst next_zero.simps) simp
    then show ?thesis using 1 by auto
  next
    case False
    then have lt: "lz + 1 \<le> l" using 1 by (cases "lz = l") auto
    have "next_zero chk lz = next_zero chk (lz + 1)" using False 1 by (subst next_zero.simps) simp
    moreover obtain l' where "next_zero chk (lz + 1) = Some l'" "lz + 1 \<le> l'" "l' < length chk" "\<forall>x. lz + 1 \<le> x \<and> x < l' \<longrightarrow> chk ! x \<noteq> -1"
      using 1 False lt by force
    moreover have "\<forall>x. lz \<le> x \<and> x < l' \<longrightarrow> chk ! x \<noteq> -1" using calculation(5) False by (metis Suc_eq_plus1 Suc_leI le_neq_implies_less)
    ultimately show ?thesis by (metis add_leD1)
  qed
qed

section \<open>The arrays after some vectors\<close>

text \<open>What the vectors have to be, and when their entries are few enough.\<close>

definition vectors_ok :: "nat \<Rightarrow> vectors \<Rightarrow> bool" where
  "vectors_ok nvectors vs \<longleftrightarrow> (\<forall>i < nvectors. length (froms vs ! i) = tally vs ! i \<and> length (tos vs ! i) = tally vs ! i \<and>
     distinct (froms vs ! i) \<and> list_all (\<lambda>f. 0 \<le> f) (froms vs ! i))"

definition vectors_fit :: "nat \<Rightarrow> vectors \<Rightarrow> bool" where
  "vectors_fit nvectors vs \<longleftrightarrow>
     (let total = sum_list (map ((!) (tally vs)) [0..<nvectors]) in
      total < 1000 \<and>
      (\<forall>i < nvectors. list_all (\<lambda>f. int (total + total * tally vs ! i + nvectors + 1) + f < int MAXTABLE) (froms vs ! i)))"

definition entry_stored :: "packed \<Rightarrow> int \<Rightarrow> int \<Rightarrow> int \<Rightarrow> bool" where
  "entry_stored ps place f v \<longleftrightarrow> 0 \<le> place + f \<and> nat (place + f) \<le> high ps \<and> check ps ! nat (place + f) = f \<and> table ps ! nat (place + f) = v"

definition pack_inv :: "nat \<Rightarrow> vectors \<Rightarrow> nat list \<Rightarrow> nat \<Rightarrow> packed \<Rightarrow> bool" where
  "pack_inv nvectors vs order n ps \<longleftrightarrow>
     length (base ps) = nvectors \<and> length (places ps) = n \<and> length (table ps) = length (check ps) \<and> 1000 \<le> length (check ps) \<and>
     high ps < length (check ps) \<and>
     (\<forall>i < nvectors. i \<notin> set (take n order) \<longrightarrow> base ps ! i = 0) \<and>
     (\<forall>k < n. places ps ! k \<noteq> 0 \<and> base ps ! (order ! k) = places ps ! k) \<and>
     (\<forall>k < n. \<forall>m < tally vs ! (order ! k). entry_stored ps (places ps ! k) (froms vs ! (order ! k) ! m) (tos vs ! (order ! k) ! m)) \<and>
     (\<forall>k < n. \<forall>k' < n. places ps ! k = places ps ! k' \<longrightarrow>
        froms vs ! (order ! k) = froms vs ! (order ! k') \<and> tos vs ! (order ! k) = tos vs ! (order ! k')) \<and>
     (\<forall>l < length (check ps). check ps ! l \<noteq> -1 \<longrightarrow> (\<exists>k < n. \<exists>f \<in> set (froms vs ! (order ! k)). int l = places ps ! k + f \<and> check ps ! l = f)) \<and>
     (\<forall>l < lowzero ps. check ps ! l \<noteq> -1) \<and> lowzero ps \<le> length (check ps) \<and>
     card {l. \<not> free (check ps) l} \<le> sum_list (map ((!) (tally vs)) (take n order))"

lemma pack_invD:
  assumes "pack_inv nvectors vs order n ps"
  shows "length (base ps) = nvectors" "length (places ps) = n" "length (table ps) = length (check ps)" "1000 \<le> length (check ps)"
    "high ps < length (check ps)" "\<forall>i < nvectors. i \<notin> set (take n order) \<longrightarrow> base ps ! i = 0"
    "\<forall>k < n. places ps ! k \<noteq> 0 \<and> base ps ! (order ! k) = places ps ! k"
    "\<forall>k < n. \<forall>m < tally vs ! (order ! k). entry_stored ps (places ps ! k) (froms vs ! (order ! k) ! m) (tos vs ! (order ! k) ! m)"
    "\<forall>k < n. \<forall>k' < n. places ps ! k = places ps ! k' \<longrightarrow>
        froms vs ! (order ! k) = froms vs ! (order ! k') \<and> tos vs ! (order ! k) = tos vs ! (order ! k')"
    "\<forall>l < length (check ps). check ps ! l \<noteq> -1 \<longrightarrow> (\<exists>k < n. \<exists>f \<in> set (froms vs ! (order ! k)). int l = places ps ! k + f \<and> check ps ! l = f)"
    "\<forall>l < lowzero ps. check ps ! l \<noteq> -1" "lowzero ps \<le> length (check ps)"
    "card {l. \<not> free (check ps) l} \<le> sum_list (map ((!) (tally vs)) (take n order))"
  using assms unfolding pack_inv_def by - (elim conjE, assumption)+

lemma vectors_match_eq:
  assumes "vectors_ok nv vs" "i < nv" "j < nv" "tally vs ! j = tally vs ! i"
  shows "vectors_match vs (tally vs ! i) j i \<longleftrightarrow> froms vs ! j = froms vs ! i \<and> tos vs ! j = tos vs ! i"
proof -
  have "length (froms vs ! i) = tally vs ! i" "length (tos vs ! i) = tally vs ! i" "length (froms vs ! j) = tally vs ! i" "length (tos vs ! j) = tally vs ! i"
    using assms by (simp_all add: vectors_ok_def)
  then show ?thesis by (auto simp: vectors_match_def list_all_iff list_eq_iff_nth_eq)
qed

lemma matching_vector_result:
  assumes ok: "vectors_ok nv vs" and order: "set order \<subseteq> {..<nv}" and n: "n < length order"
    and m: "matching_vector vs order nstates n = Some j"
  obtains k where "k < n" "order ! k = j" "froms vs ! j = froms vs ! (order ! n)" "tos vs ! j = tos vs ! (order ! n)" "tally vs ! j = tally vs ! (order ! n)"
proof -
  have i: "order ! n < nv" using order n nth_mem by blast
  have loop: "j \<in> set js \<and> froms vs ! j = froms vs ! (order ! n) \<and> tos vs ! j = tos vs ! (order ! n) \<and> tally vs ! j = tally vs ! (order ! n)"
    if "matching_loop vs (order ! n) js = Some j" "set js \<subseteq> {..<nv}" for js
    using that
  proof (induction js)
    case (Cons x xs)
    show ?case
    proof (cases "width vs ! x \<noteq> width vs ! (order ! n) \<or> tally vs ! x \<noteq> tally vs ! (order ! n)")
      case True
      then show ?thesis using Cons.prems(1) by simp
    next
      case False
      then have t: "tally vs ! x = tally vs ! (order ! n)" by simp
      show ?thesis
      proof (cases "vectors_match vs (tally vs ! (order ! n)) x (order ! n)")
        case True
        then have "x = j" using Cons.prems(1) False by simp
        then show ?thesis using vectors_match_eq [OF ok i _ t] True t Cons.prems(2) by simp
      next
        case no: False
        then have "matching_loop vs (order ! n) xs = Some j" using Cons.prems(1) False by simp
        then show ?thesis using Cons.IH Cons.prems(2) by simp
      qed
    qed
  qed simp
  have "matching_loop vs (order ! n) (rev (take n order)) = Some j"
    using m by (simp add: matching_vector_def Let_def split: if_splits)
  moreover have "set (rev (take n order)) \<subseteq> {..<nv}" using order set_take_subset by fastforce
  ultimately have r: "j \<in> set (take n order)" "froms vs ! j = froms vs ! (order ! n)" "tos vs ! j = tos vs ! (order ! n)" "tally vs ! j = tally vs ! (order ! n)"
    using loop [of "rev (take n order)"] by simp_all
  then obtain k where "k < n" "order ! k = j" using n by (auto simp: in_set_conv_nth)
  then show thesis using r(2-4) by (rule that)
qed

lemma sum_list_part:
  fixes h :: "nat \<Rightarrow> nat"
  assumes "distinct xs" "set xs \<subseteq> {..<n}"
  shows "sum_list (map h xs) \<le> sum_list (map h [0..<n])"
proof -
  have "sum_list (map h xs) = sum h (set xs)" using assms(1) by (rule sum_list_distinct_conv_sum_set)
  also have "\<dots> \<le> sum h {..<n}" using assms(2) by (intro sum_mono2) auto
  also have "\<dots> = sum_list (map h [0..<n])" by (simp add: interv_sum_list_conv_sum_set_nat lessThan_atLeast0)
  finally show ?thesis .
qed

lemma pack_vector_result:
  assumes ok: "vectors_ok nv vs" and fit: "vectors_fit nv vs" and order: "set order \<subseteq> {..<nv}" "distinct order" and n: "n < length order"
    and t: "0 < tally vs ! (order ! n)" and inv: "pack_inv nv vs order n ps"
  obtains j ps' where "pack_vector vs order n ps = Some (j, ps')" "base ps' = base ps" "places ps' = places ps"
    "length (table ps') = length (check ps')" "1000 \<le> length (check ps')" "high ps' < length (check ps')"
    "j \<noteq> 0" "j \<notin> set (places ps)"
    "\<forall>m < tally vs ! (order ! n). entry_stored ps' j (froms vs ! (order ! n) ! m) (tos vs ! (order ! n) ! m)"
    "\<forall>p f v. f \<noteq> -1 \<longrightarrow> entry_stored ps p f v \<longrightarrow> entry_stored ps' p f v"
    "\<forall>l < length (check ps'). check ps' ! l \<noteq> -1 \<longrightarrow>
       (l < length (check ps) \<and> check ps ! l \<noteq> -1 \<and> check ps' ! l = check ps ! l) \<or> (\<exists>f \<in> set (froms vs ! (order ! n)). int l = j + f \<and> check ps' ! l = f)"
    "\<forall>l < lowzero ps'. check ps' ! l \<noteq> -1" "lowzero ps' \<le> length (check ps')"
    "card {l. \<not> free (check ps') l} \<le> card {l. \<not> free (check ps) l} + tally vs ! (order ! n)"
proof -
  let ?i = "order ! n" and ?chk = "check ps" and ?tab = "table ps" and ?lz = "lowzero ps"
  let ?fs = "froms vs ! ?i" and ?ts = "tos vs ! ?i" and ?t = "tally vs ! ?i"
  let ?total = "sum_list (map ((!) (tally vs)) [0..<nv])"
  have i: "?i < nv" using order(1) n nth_mem by blast
  have v: "length ?fs = ?t" "length ?ts = ?t" "distinct ?fs" "\<And>f. f \<in> set ?fs \<Longrightarrow> 0 \<le> f"
    using ok i by (simp_all add: vectors_ok_def list_all_iff)
  have fsn: "?fs \<noteq> []" using v(1) t by auto
  note d = pack_invD [OF inv]
  note len = d(3-5,2,12)
  note low = d(11) and card = d(13)
  have sums: "sum_list (map ((!) (tally vs)) (take n order)) + ?t \<le> ?total"
  proof -
    have "sum_list (map ((!) (tally vs)) (take (Suc n) order)) \<le> ?total"
      by (rule sum_list_part) (use order set_take_subset [of "Suc n" order] in auto)
    then show ?thesis using n by (simp add: take_Suc_conv_app_nth)
  qed
  have fits: "?total < 1000" "\<And>f. f \<in> set ?fs \<Longrightarrow> int (?total + ?total * ?t + nv + 1) + f < int MAXTABLE"
    using fit i by (simp_all add: vectors_fit_def Let_def list_all_iff)
  have occ_fin: "finite {l. \<not> free c l}" for c by (rule finite_subset [of _ "{..<length c}"]) (auto simp: free_def)
  have lz: "?lz \<le> card {l. \<not> free ?chk l}"
  proof -
    have "{..<?lz} \<subseteq> {l. \<not> free ?chk l}" using low len(5) by (auto simp: free_def)
    then have "card {..<?lz} \<le> card {l. \<not> free ?chk l}" using occ_fin by (intro card_mono)
    then show ?thesis by simp
  qed
  have occ: "card {l. \<not> free ?chk l} + ?t \<le> ?total" using card sums by simp
  define j0 where "j0 = fold (\<lambda>f j. if j < int ?lz - f then int ?lz - f else j) (tl ?fs) (int ?lz - hd ?fs)"
  have j0: "\<And>f. f \<in> set ?fs \<Longrightarrow> int ?lz \<le> j0 + f" "j0 \<le> int ?lz"
    by (rule first_place_bounds [OF fsn _ j0_def], erule v(4), assumption) (rule first_place_bounds(2) [OF fsn _ j0_def], erule v(4))
  obtain p where p: "good_place (places ps) ?fs ?chk p" "j0 \<le> p" "p \<le> j0 + int (?total * ?t + nv + 1)"
  proof -
    have "n \<le> nv" using n order card_mono [OF finite_lessThan order(1)] distinct_card [OF order(2)] by simp
    obtain p where "good_place (places ps) ?fs ?chk p" "j0 \<le> p" "p \<le> j0 + int (card {l. \<not> free ?chk l} * length ?fs + length (places ps) + 1)"
      by (rule good_place_exists [OF order_refl, where fs = ?fs and j = j0 and used = "places ps" and chk = ?chk]) (use j0(1) in fastforce)+
    moreover have "card {l. \<not> free ?chk l} * length ?fs + length (places ps) + 1 \<le> ?total * ?t + nv + 1"
      using occ v(1) len(4) \<open>n \<le> nv\<close> by (intro add_le_mono mult_le_mono) auto
    ultimately show thesis using that by (smt (verit) of_nat_mono)
  qed
  have range: "0 \<le> j0 + f \<and> p + f < int MAXTABLE" if "f \<in> set ?fs" for f
    using j0 p(3) fits(2) [OF that] j0(1) [OF that] lz occ by simp
  obtain j m where find: "find_place (places ps) ?fs j0 (?tab, ?chk) = Some (j, ?tab @ replicate m 0, ?chk @ replicate m (-1))"
    "j0 \<le> j" "good_place (places ps) ?fs ?chk j" "\<forall>f \<in> set ?fs. nat (j + f) < length ?chk + m"
    using find_place_result [OF p(1,2) fsn len(1) range] by blast
  let ?tab1 = "?tab @ replicate m 0" and ?chk1 = "?chk @ replicate m (-1)"
  have pos: "0 \<le> j + f" if "f \<in> set ?fs" for f using j0(1) [OF that] find(2) by simp
  obtain tab' chk' hi' where st: "fold (\<lambda>(f, v) (tab, chk, hi). let loc = nat (j + f) in (tab[loc := v], chk[loc := f], if hi < loc then loc else hi))
      (zip ?fs ?ts) (?tab1, ?chk1, high ps) = (tab', chk', hi')" "length tab' = length ?chk1" "length chk' = length ?chk1" "high ps \<le> hi'"
    "\<forall>m < length ?fs. tab' ! nat (j + ?fs ! m) = ?ts ! m \<and> chk' ! nat (j + ?fs ! m) = ?fs ! m \<and> nat (j + ?fs ! m) \<le> hi'"
    "\<forall>l. (\<forall>f \<in> set ?fs. l \<noteq> nat (j + f)) \<longrightarrow> tab' ! l = ?tab1 ! l \<and> chk' ! l = ?chk1 ! l"
    "high ps < length ?chk1 \<longrightarrow> hi' < length ?chk1"
  proof -
    have a: "length ?fs = length ?ts" "length ?tab1 = length ?chk1" using v(1,2) len(1) by simp_all
    have b: "0 \<le> j + f \<and> nat (j + f) < length ?chk1" if "f \<in> set ?fs" for f using pos [OF that] find(4) that by simp
    show thesis using store_entries [OF a(1) v(3) b a(2), of "high ps"] that by blast
  qed
  have old: "tab' ! l = ?tab ! l \<and> chk' ! l = ?chk ! l" if "l < length ?chk" "?chk ! l \<noteq> -1" for l
  proof -
    have "l \<noteq> nat (j + f)" if "f \<in> set ?fs" for f
      using find(3) that \<open>l < length ?chk\<close> \<open>?chk ! l \<noteq> -1\<close> by (auto simp: good_place_def free_def)
    then show ?thesis using st(6) that(1) len(1) by (simp add: nth_append)
  qed
  have new: "\<exists>f \<in> set ?fs. int l = j + f \<and> chk' ! l = f" if "l < length chk'" "chk' ! l \<noteq> -1" "\<not> (l < length ?chk \<and> ?chk ! l \<noteq> -1)" for l
  proof -
    have "?chk1 ! l = -1" using that(1,3) st(3) by (auto simp: nth_append)
    then have "\<exists>f \<in> set ?fs. l = nat (j + f)" using st(6) that(2) by metis
    then obtain f where f: "f \<in> set ?fs" "l = nat (j + f)" by blast
    then obtain k where "k < length ?fs" "f = ?fs ! k" by (metis in_set_conv_nth)
    then show ?thesis using f pos [OF f(1)] st(5) by auto
  qed
  have occ': "card {l. \<not> free chk' l} \<le> card {l. \<not> free ?chk l} + ?t"
  proof -
    have "{l. \<not> free chk' l} \<subseteq> {l. \<not> free ?chk l} \<union> (\<lambda>f. nat (j + f)) ` set ?fs"
    proof
      fix l assume "l \<in> {l. \<not> free chk' l}"
      then have "l < length chk'" "chk' ! l \<noteq> -1" by (auto simp: free_def)
      then have new': "\<not> (l < length ?chk \<and> ?chk ! l \<noteq> -1) \<Longrightarrow> \<exists>f \<in> set ?fs. int l = j + f" using new [of l] by blast
      show "l \<in> {l. \<not> free ?chk l} \<union> (\<lambda>f. nat (j + f)) ` set ?fs"
      proof (cases "l < length ?chk \<and> ?chk ! l \<noteq> -1")
        case True
        then show ?thesis by (simp add: free_def)
      next
        case False
        then obtain f where "f \<in> set ?fs" "int l = j + f" using new' by blast
        moreover from this have "l = nat (j + f)" by simp
        ultimately show ?thesis by blast
      qed
    qed
    then have "card {l. \<not> free chk' l} \<le> card ({l. \<not> free ?chk l} \<union> (\<lambda>f. nat (j + f)) ` set ?fs)" by (rule card_mono [rotated]) (simp add: occ_fin)
    also have "\<dots> \<le> card {l. \<not> free ?chk l} + card ((\<lambda>f. nat (j + f)) ` set ?fs)" by (rule card_Un_le)
    also have "card ((\<lambda>f. nat (j + f)) ` set ?fs) \<le> ?t"
      using card_image_le [of "set ?fs" "\<lambda>f. nat (j + f)"] card_length [of ?fs] v(1) by simp
    finally show ?thesis by simp
  qed
  have low': "chk' ! l \<noteq> -1" if "l < ?lz" for l using old [of l] low len(5) that by simp
  obtain z where z: "?lz \<le> z" "z < length chk'" "chk' ! z = -1"
  proof -
    have "card {l. \<not> free chk' l} < card {..<1000 :: nat}" using occ' occ fits(1) by simp
    then have "\<not> {..<1000} \<subseteq> {l. \<not> free chk' l}" using card_mono [OF occ_fin, of "{..<1000}" chk'] by linarith
    then obtain z where z: "z < 1000" "free chk' z" by auto
    then have "z < length chk'" using len(2) st(3) by simp
    moreover from this have "chk' ! z = -1" using z by (simp add: free_def)
    ultimately show thesis using that low' [of z] by (metis not_le)
  qed
  obtain l' where l': "next_zero chk' ?lz = Some l'" "?lz \<le> l'" "l' < length chk'" "\<forall>x. ?lz \<le> x \<and> x < l' \<longrightarrow> chk' ! x \<noteq> -1"
    using next_zero_result [OF z] by blast
  let ?ps' = "ps\<lparr> table := tab', check := chk', high := hi', lowzero := l' \<rparr>"
  have run: "pack_vector vs order n ps = Some (j, ?ps')"
  proof -
    have tk: "take ?t ?fs = ?fs" "take ?t ?ts = ?ts" using v(1,2) by simp_all
    show ?thesis
      unfolding pack_vector_def Let_def tk j0_def [symmetric] find(1) using t st(1) [unfolded Let_def] l'(1) by simp
  qed
  show thesis
  proof (rule that [OF run])
    show "1000 \<le> length (check ?ps')" "high ?ps' < length (check ?ps')" "length (table ?ps') = length (check ?ps')"
      using len(2,3) st(2,3,7) by simp_all
    show "j \<noteq> 0" "j \<notin> set (places ps)" using find(3) by (simp_all add: good_place_def)
    show "\<forall>m < ?t. entry_stored ?ps' j (?fs ! m) (?ts ! m)"
      using st(5) v(1) pos by (simp add: entry_stored_def)
    show "\<forall>p f v. f \<noteq> -1 \<longrightarrow> entry_stored ps p f v \<longrightarrow> entry_stored ?ps' p f v"
    proof (intro allI impI)
      fix p f v assume "f \<noteq> -1" "entry_stored ps p f v"
      then show "entry_stored ?ps' p f v"
      using old [of "nat (p + f)"] len(3) st(4) by (auto simp: entry_stored_def)
    qed
    show "\<forall>l < length (check ?ps'). check ?ps' ! l \<noteq> -1 \<longrightarrow> l < length ?chk \<and> ?chk ! l \<noteq> -1 \<and> check ?ps' ! l = ?chk ! l \<or>
        (\<exists>f \<in> set ?fs. int l = j + f \<and> check ?ps' ! l = f)"
    proof (intro allI impI)
      fix l assume "l < length (check ?ps')" "check ?ps' ! l \<noteq> -1"
      then show "l < length ?chk \<and> ?chk ! l \<noteq> -1 \<and> check ?ps' ! l = ?chk ! l \<or> (\<exists>f \<in> set ?fs. int l = j + f \<and> check ?ps' ! l = f)"
        using new [of l] old [of l] by auto
    qed
    show "\<forall>l < lowzero ?ps'. check ?ps' ! l \<noteq> -1"
    proof (intro allI impI)
      fix l assume "l < lowzero ?ps'"
      then show "check ?ps' ! l \<noteq> -1" using low' l'(4) by (cases "l < ?lz") auto
    qed
    show "lowzero ?ps' \<le> length (check ?ps')" using l'(3) by simp
    show "card {l. \<not> free (check ?ps') l} \<le> card {l. \<not> free ?chk l} + ?t" using occ' by simp
  qed simp_all
qed

lemma pack_inv_extend:
  assumes inv: "pack_inv nv vs order n ps" and n: "n < length order" and order: "set order \<subseteq> {..<nv}" "distinct order"
    and froms: "\<And>k m. k \<le> n \<Longrightarrow> m < tally vs ! (order ! k) \<Longrightarrow> froms vs ! (order ! k) ! m \<noteq> -1"
    and keep: "base ps1 = base ps" "places ps1 = places ps" "length (table ps1) = length (check ps1)" "1000 \<le> length (check ps1)"
      "high ps1 < length (check ps1)"
    and j: "j \<noteq> 0" "\<And>k. k < n \<Longrightarrow> places ps ! k = j \<Longrightarrow> froms vs ! (order ! k) = froms vs ! (order ! n) \<and> tos vs ! (order ! k) = tos vs ! (order ! n)"
    and stored: "\<And>m. m < tally vs ! (order ! n) \<Longrightarrow> entry_stored ps1 j (froms vs ! (order ! n) ! m) (tos vs ! (order ! n) ! m)"
      "\<And>p f v. f \<noteq> -1 \<Longrightarrow> entry_stored ps p f v \<Longrightarrow> entry_stored ps1 p f v"
    and only: "\<And>l. l < length (check ps1) \<Longrightarrow> check ps1 ! l \<noteq> -1 \<Longrightarrow>
       (l < length (check ps) \<and> check ps ! l \<noteq> -1 \<and> check ps1 ! l = check ps ! l) \<or> (\<exists>f \<in> set (froms vs ! (order ! n)). int l = j + f \<and> check ps1 ! l = f)"
    and low: "\<And>l. l < lowzero ps1 \<Longrightarrow> check ps1 ! l \<noteq> -1" "lowzero ps1 \<le> length (check ps1)"
    and card: "card {l. \<not> free (check ps1) l} \<le> card {l. \<not> free (check ps) l} + tally vs ! (order ! n)"
  shows "pack_inv nv vs order (Suc n) (ps1\<lparr> places := places ps1 @ [j], base := (base ps1)[order ! n := j] \<rparr>)"
proof -
  let ?ps = "ps1\<lparr> places := places ps1 @ [j], base := (base ps1)[order ! n := j] \<rparr>"
  have i: "order ! n < nv" using order(1) n nth_mem by blast
  note d = pack_invD(1,2,6-10,13) [OF inv]
  have tk: "take (Suc n) order = take n order @ [order ! n]" using n by (rule take_Suc_conv_app_nth)
  have pl: "places ?ps ! k = (if k = n then j else places ps ! k)" if "k < Suc n" for k using that d(2) keep(2) by (simp add: nth_append)
  have es: "entry_stored ?ps p f v \<longleftrightarrow> entry_stored ps1 p f v" for p f v by (simp add: entry_stored_def)
  have ne: "order ! k \<noteq> order ! n" if "k < n" for k using that n order(2) by (simp add: nth_eq_iff_index_eq)
  show ?thesis
    unfolding pack_inv_def
  proof (intro conjI allI impI)
    show "length (base ?ps) = nv" "length (places ?ps) = Suc n" "length (table ?ps) = length (check ?ps)" "1000 \<le> length (check ?ps)"
      "high ?ps < length (check ?ps)" "lowzero ?ps \<le> length (check ?ps)"
      using d(1,2) keep low(2) by simp_all
    show "base ?ps ! i' = 0" if "i' < nv" "i' \<notin> set (take (Suc n) order)" for i'
      using that d(3) keep(1) unfolding tk by simp
    fix k assume k: "k < Suc n"
    show "places ?ps ! k \<noteq> 0" using pl [OF k] j(1) d(4) k by (cases "k = n") simp_all
    show "base ?ps ! (order ! k) = places ?ps ! k"
      using pl [OF k] d(1,4) keep(1) i ne [of k] k by (cases "k = n") (simp_all add: less_Suc_eq)
    show "entry_stored ?ps (places ?ps ! k) (froms vs ! (order ! k) ! m) (tos vs ! (order ! k) ! m)" if "m < tally vs ! (order ! k)" for m
    proof (cases "k = n")
      case True
      then show ?thesis unfolding es pl [OF k] using stored(1) that by simp
    next
      case False
      then have "k < n" using k by simp
      then show ?thesis unfolding es pl [OF k] using stored(2) froms [of k m] d(5) that False by simp
    qed
    fix k' assume k': "k' < Suc n" and eq: "places ?ps ! k = places ?ps ! k'"
    have "froms vs ! (order ! k) = froms vs ! (order ! k') \<and> tos vs ! (order ! k) = tos vs ! (order ! k')"
    proof (cases "k = n")
      case True
      then have "places ps ! k' = j" if "k' \<noteq> n" using eq pl [OF k] pl [OF k'] that by simp
      then show ?thesis using j(2) [of k'] k' True by (cases "k' = n") simp_all
    next
      case False
      then have kn: "k < n" using k by simp
      show ?thesis
      proof (cases "k' = n")
        case True
        then have "places ps ! k = j" using eq pl [OF k] pl [OF k'] False by simp
        then show ?thesis using j(2) [OF kn] True by simp
      next
        case no: False
        then have "k' < n" "places ps ! k = places ps ! k'" using eq pl [OF k] pl [OF k'] False k' by simp_all
        then show ?thesis using d(6) kn by blast
      qed
    qed
    then show "froms vs ! (order ! k) = froms vs ! (order ! k')" "tos vs ! (order ! k) = tos vs ! (order ! k')" by blast+
  next
    fix l assume l: "l < length (check ?ps)" "check ?ps ! l \<noteq> -1"
    then consider "l < length (check ps)" "check ps ! l \<noteq> -1" "check ps1 ! l = check ps ! l"
      | "\<exists>f \<in> set (froms vs ! (order ! n)). int l = j + f \<and> check ps1 ! l = f" using only [of l] by auto
    then show "\<exists>k < Suc n. \<exists>f \<in> set (froms vs ! (order ! k)). int l = places ?ps ! k + f \<and> check ?ps ! l = f"
    proof cases
      case 1
      then obtain k f where "k < n" "f \<in> set (froms vs ! (order ! k))" "int l = places ps ! k + f" "check ps1 ! l = f" using d(7) by metis
      then show ?thesis using pl [of k] by (intro exI [of _ k]) auto
    next
      case 2
      then show ?thesis using pl [of n] by (intro exI [of _ n]) simp
    qed
  next
    show "check ?ps ! l \<noteq> -1" if "l < lowzero ?ps" for l using low(1) that by simp
    show "card {l. \<not> free (check ?ps) l} \<le> sum_list (map ((!) (tally vs)) (take (Suc n) order))" using card d(8) unfolding tk by simp
  qed
qed

lemma pack_step_inv:
  assumes ok: "vectors_ok nv vs" and fit: "vectors_fit nv vs" and order: "set order \<subseteq> {..<nv}" "distinct order" and n: "n < length order"
    and t: "0 < tally vs ! (order ! n)" and inv: "pack_inv nv vs order n ps"
  obtains ps' where "pack_step vs order nstates n ps = Some ps'" "pack_inv nv vs order (Suc n) ps'"
proof -
  have froms: "froms vs ! (order ! k) ! m \<noteq> -1" if "k \<le> n" "m < tally vs ! (order ! k)" for k m
  proof -
    have "order ! k \<in> set order" using that(1) n by simp
    then have "order ! k < nv" using order(1) by blast
    then have "length (froms vs ! (order ! k)) = tally vs ! (order ! k)" "list_all (\<lambda>f. 0 \<le> f) (froms vs ! (order ! k))"
      using ok unfolding vectors_ok_def by blast+
    then have "0 \<le> froms vs ! (order ! k) ! m" using that(2) by (simp add: list_all_length)
    then show ?thesis by simp
  qed
  show thesis
  proof (cases "matching_vector vs order nstates n")
    case None
    obtain j ps1 where r: "pack_vector vs order n ps = Some (j, ps1)" "base ps1 = base ps" "places ps1 = places ps"
      "length (table ps1) = length (check ps1)" "1000 \<le> length (check ps1)" "high ps1 < length (check ps1)"
      "j \<noteq> 0" "j \<notin> set (places ps)"
      "\<forall>m < tally vs ! (order ! n). entry_stored ps1 j (froms vs ! (order ! n) ! m) (tos vs ! (order ! n) ! m)"
      "\<forall>p f v. f \<noteq> -1 \<longrightarrow> entry_stored ps p f v \<longrightarrow> entry_stored ps1 p f v"
      "\<forall>l < length (check ps1). check ps1 ! l \<noteq> -1 \<longrightarrow>
         (l < length (check ps) \<and> check ps ! l \<noteq> -1 \<and> check ps1 ! l = check ps ! l) \<or> (\<exists>f \<in> set (froms vs ! (order ! n)). int l = j + f \<and> check ps1 ! l = f)"
      "\<forall>l < lowzero ps1. check ps1 ! l \<noteq> -1" "lowzero ps1 \<le> length (check ps1)"
      "card {l. \<not> free (check ps1) l} \<le> card {l. \<not> free (check ps) l} + tally vs ! (order ! n)"
      by (rule pack_vector_result [OF ok fit order n t inv])
    note lp = pack_invD(2) [OF inv]
    have other: "froms vs ! (order ! k) = froms vs ! (order ! n) \<and> tos vs ! (order ! k) = tos vs ! (order ! n)" if "k < n" "places ps ! k = j" for k
      using r(8) that lp nth_mem [of k "places ps"] by simp
    have "pack_step vs order nstates n ps = Some (ps1\<lparr> places := places ps1 @ [j], base := (base ps1)[order ! n := j] \<rparr>)"
      by (simp add: pack_step_def None r(1))
    moreover have "pack_inv nv vs order (Suc n) (ps1\<lparr> places := places ps1 @ [j], base := (base ps1)[order ! n := j] \<rparr>)"
      by (rule pack_inv_extend [OF inv n order froms r(2-7) other r(9,10,11,12) [rule_format] r(13,14)])
    ultimately show thesis by (rule that)
  next
    case (Some s)
    obtain k where k: "k < n" "order ! k = s" "froms vs ! s = froms vs ! (order ! n)" "tos vs ! s = tos vs ! (order ! n)" "tally vs ! s = tally vs ! (order ! n)"
      by (rule matching_vector_result [OF ok order(1) n Some])
    note d = pack_invD(3-5,7-9,11,12) [OF inv]
    have place: "base ps ! s = places ps ! k" "places ps ! k \<noteq> 0" using d(4) k(1,2) by auto
    have "pack_step vs order nstates n ps = Some (ps\<lparr> places := places ps @ [places ps ! k], base := (base ps)[order ! n := places ps ! k] \<rparr>)"
      by (simp add: pack_step_def Some place(1))
    moreover have "pack_inv nv vs order (Suc n) (ps\<lparr> places := places ps @ [places ps ! k], base := (base ps)[order ! n := places ps ! k] \<rparr>)"
    proof (rule pack_inv_extend [OF inv n order froms])
      show "froms vs ! (order ! k') = froms vs ! (order ! n) \<and> tos vs ! (order ! k') = tos vs ! (order ! n)"
        if "k' < n" "places ps ! k' = places ps ! k" for k' using d(6) that k by metis
      show "entry_stored ps (places ps ! k) (froms vs ! (order ! n) ! m) (tos vs ! (order ! n) ! m)" if "m < tally vs ! (order ! n)" for m
        using d(5) that k by metis
      show "check ps ! l \<noteq> -1" if "l < lowzero ps" for l using d(7) that by blast
    qed ((rule refl d(1-3,8) place(2) disjI1 conjI le_add1 | assumption)+)
    ultimately show thesis by (rule that)
  qed
qed

lemma pack_inv_empty: "pack_inv nv vs order 0 (empty_packed nv)"
  by (simp add: pack_inv_def empty_packed_def free_def not_le)

lemma pack_loop_inv:
  assumes ok: "vectors_ok nv vs" and fit: "vectors_fit nv vs" and order: "set order \<subseteq> {i. i < nv \<and> 0 < tally vs ! i}" "distinct order"
    and n: "n \<le> length order" and inv: "pack_inv nv vs order n ps"
  shows "\<exists>ps'. pack_loop vs order nstates [n..<length order] ps = Some ps' \<and> pack_inv nv vs order (length order) ps'"
  using n inv
proof (induction "length order - n" arbitrary: n ps)
  case 0
  then show ?case by simp
next
  case (Suc x)
  then have n: "n < length order" by simp
  then have "order ! n \<in> set order" by simp
  then have t: "0 < tally vs ! (order ! n)" and sub: "set order \<subseteq> {..<nv}" using order(1) by auto
  obtain ps' where ps': "pack_step vs order nstates n ps = Some ps'" "pack_inv nv vs order (Suc n) ps'"
    by (rule pack_step_inv [OF ok fit sub order(2) n t Suc.prems(2)])
  have "\<exists>ps''. pack_loop vs order nstates [Suc n..<length order] ps' = Some ps'' \<and> pack_inv nv vs order (length order) ps''"
    using Suc.hyps ps'(2) n by (intro Suc.hyps(1)) simp_all
  moreover have "[n..<length order] = n # [Suc n..<length order]" using n by (rule upt_conv_Cons)
  ultimately show ?case using ps'(1) by simp
qed

section \<open>Lookup\<close>

text \<open>How the parser of the skeleton reads the tables: with \<open>yyN\<close> from one of the index tables and a token or state \<open>v\<close>.\<close>

definition table_lookup :: "int list \<Rightarrow> int list \<Rightarrow> int \<Rightarrow> int \<Rightarrow> int option" where
  "table_lookup tab chk yyN v =
     (if yyN \<noteq> 0 \<and> 0 \<le> yyN + v \<and> yyN + v < int (length tab) \<and> chk ! nat (yyN + v) = v then Some (tab ! nat (yyN + v)) else None)"

lemma output_arrays:
  shows "length (output_table ps) = high ps + 1" "l \<le> high ps \<Longrightarrow> output_table ps ! l = table ps ! l"
    "l \<le> high ps \<Longrightarrow> output_check ps ! l = check ps ! l"
proof -
  have all: "x ! 0 # map ((!) x) [1..<n + 1] = map ((!) x) [0..<n + 1]" for x :: "int list" and n
    using upt_conv_Cons [of 0 "n + 1"] by simp
  show "length (output_table ps) = high ps + 1" "l \<le> high ps \<Longrightarrow> output_table ps ! l = table ps ! l"
    "l \<le> high ps \<Longrightarrow> output_check ps ! l = check ps ! l"
    unfolding output_table_def output_check_def all by (simp_all del: upt_Suc)
qed

theorem pack_table_result:
  assumes ok: "vectors_ok nv vs" and fit: "vectors_fit nv vs"
  shows "\<exists>ps. pack_table vs (sort_actions vs nv) nstates nv = Some ps \<and> length (base ps) = nv \<and>
    (\<forall>i < nv. \<forall>v \<ge> 0. table_lookup (output_table ps) (output_check ps) (base ps ! i) v = map_of (zip (froms vs ! i) (tos vs ! i)) v)"
proof -
  let ?order = "sort_actions vs nv"
  note order = sort_actions_result [of vs nv]
  obtain ps where run: "pack_table vs ?order nstates nv = Some ps" and inv: "pack_inv nv vs ?order (length ?order) ps"
    using pack_loop_inv [OF ok fit _ order(2) _ pack_inv_empty, of nstates] order(1) unfolding pack_table_def by auto
  note d = pack_invD [OF inv]
  have "table_lookup (output_table ps) (output_check ps) (base ps ! i) v = map_of (zip (froms vs ! i) (tos vs ! i)) v" if i: "i < nv" "0 \<le> v" for i v
  proof (cases "i \<in> set ?order")
    case False
    then have "base ps ! i = 0" "tally vs ! i = 0" using d(6) i order(1) by auto
    moreover from this have "froms vs ! i = []" using ok i unfolding vectors_ok_def by (metis length_0_conv)
    ultimately show ?thesis by (simp add: table_lookup_def)
  next
    case True
    then obtain k where k: "k < length ?order" "?order ! k = i" by (metis in_set_conv_nth)
    let ?b = "base ps ! i"
    have b: "?b \<noteq> 0" "?b = places ps ! k" using d(7) k by auto
    have v: "length (froms vs ! i) = tally vs ! i" "length (tos vs ! i) = tally vs ! i" "distinct (froms vs ! i)"
      using ok i(1) by (simp_all add: vectors_ok_def)
    have st: "entry_stored ps ?b (froms vs ! i ! m) (tos vs ! i ! m)" if "m < tally vs ! i" for m using d(8) k b(2) that by auto
    show ?thesis
    proof (cases "v \<in> set (froms vs ! i)")
      case True
      then obtain m where m: "m < tally vs ! i" "froms vs ! i ! m = v" by (metis in_set_conv_nth v(1))
      have "map_of (zip (froms vs ! i) (tos vs ! i)) v = Some (tos vs ! i ! m)"
        using map_of_zip_nth [of "froms vs ! i" "tos vs ! i" m] v m by simp
      moreover have "table_lookup (output_table ps) (output_check ps) ?b v = Some (tos vs ! i ! m)"
        using st [OF m(1)] b(1) m(2) output_arrays [where ps = ps] by (auto simp: table_lookup_def entry_stored_def nat_le_iff)
      ultimately show ?thesis by simp
    next
      case False
      then have none: "map_of (zip (froms vs ! i) (tos vs ! i)) v = None" using v by simp
      have "False" if l: "0 \<le> ?b + v" "nat (?b + v) \<le> high ps" "check ps ! nat (?b + v) = v"
      proof -
        have "nat (?b + v) < length (check ps)" "check ps ! nat (?b + v) \<noteq> -1" using l d(5) i(2) by simp_all
        then obtain k' f where k': "k' < length ?order" "f \<in> set (froms vs ! (?order ! k'))" "int (nat (?b + v)) = places ps ! k' + f" "check ps ! nat (?b + v) = f"
          using d(10) by blast
        then have "places ps ! k' = places ps ! k" using l b(2) by simp
        then have "froms vs ! (?order ! k') = froms vs ! i" using d(9) k k'(1) by metis
        then show False using k'(2,4) l(3) \<open>v \<notin> set (froms vs ! i)\<close> by simp
      qed
      then have "table_lookup (output_table ps) (output_check ps) ?b v = None"
        using output_arrays [where ps = ps] by (auto simp: table_lookup_def nat_le_iff)
      then show ?thesis using none by simp
    qed
  qed
  then show ?thesis using run d(1) by blast
qed

end
