(* ===== verification/Jay_Tables.thy ===== *)
theory Jay_Tables
  imports Jay_Pack
begin

text \<open>
  The vectors that \<open>token_actions\<close> and \<open>goto_actions\<close> make, and the whole way from the actions of the parser to the printed tables: reading
  the tables as the skeleton does gives back the actions and the gotos.
\<close>

section \<open>Rows\<close>

definition is_shift :: "action \<Rightarrow> bool" where
  "is_shift p \<longleftrightarrow> suppressed p = 0 \<and> action_code p = SHIFT"

definition is_reduce :: "nat \<Rightarrow> action \<Rightarrow> bool" where
  "is_reduce default_rule p \<longleftrightarrow> suppressed p = 0 \<and> action_code p = REDUCE \<and> number p \<noteq> default_rule"

text \<open>The number that an action gives for a token.\<close>

definition number_for :: "(action \<Rightarrow> bool) \<Rightarrow> action list \<Rightarrow> nat \<Rightarrow> nat option" where
  "number_for Q actions = map_of (map (\<lambda>p. (symbol p, number p)) (filter Q actions))"

lemma number_for_snoc:
  assumes "distinct (map symbol (filter Q (actions @ [p])))"
  shows "number_for Q (actions @ [p]) = (if Q p then (number_for Q actions)(symbol p \<mapsto> number p) else number_for Q actions)"
proof (cases "Q p")
  case True
  then have "number_for Q actions (symbol p) = None" using assms by (auto simp: number_for_def map_of_eq_None_iff)
  then show ?thesis using True by (auto simp: number_for_def fun_eq_iff map_add_def split: option.splits)
qed (simp add: number_for_def)

lemma action_row_result:
  assumes "\<forall>p \<in> set actions. symbol p < ntokens g"
    and "distinct (map symbol (filter is_shift actions))" "distinct (map symbol (filter (is_reduce d) actions))"
  shows "\<exists>actionrow. action_row g d actions = (actionrow, length (filter is_shift actions), length (filter (is_reduce d) actions)) \<and>
    length actionrow = 2 * ntokens g \<and>
    (\<forall>X < ntokens g. actionrow ! X = (case number_for is_shift actions X of None \<Rightarrow> 0 | Some n \<Rightarrow> n) \<and>
       actionrow ! (X + ntokens g) = (case number_for (is_reduce d) actions X of None \<Rightarrow> 0 | Some n \<Rightarrow> n))"
  using assms
proof (induction actions rule: rev_induct)
  case Nil
  show ?case by (simp add: action_row_def number_for_def)
next
  case (snoc p actions)
  obtain actionrow where r: "action_row g d actions = (actionrow, length (filter is_shift actions), length (filter (is_reduce d) actions))"
    "length actionrow = 2 * ntokens g"
    "\<forall>X < ntokens g. actionrow ! X = (case number_for is_shift actions X of None \<Rightarrow> 0 | Some n \<Rightarrow> n) \<and>
       actionrow ! (X + ntokens g) = (case number_for (is_reduce d) actions X of None \<Rightarrow> 0 | Some n \<Rightarrow> n)"
    using snoc by auto
  have p: "symbol p < ntokens g" using snoc.prems(1) by simp
  note nf = number_for_snoc [OF snoc.prems(2)] number_for_snoc [OF snoc.prems(3)]
  have run: "action_row g d (actions @ [p]) =
    (if is_shift p then (actionrow[symbol p := number p], length (filter is_shift actions) + 1, length (filter (is_reduce d) actions))
     else if is_reduce d p then (actionrow[symbol p + ntokens g := number p], length (filter is_shift actions), length (filter (is_reduce d) actions) + 1)
     else (actionrow, length (filter is_shift actions), length (filter (is_reduce d) actions)))"
    using r(1) by (simp add: action_row_def is_shift_def is_reduce_def)
  have excl: "\<not> (is_shift p \<and> is_reduce d p)" by (simp add: is_shift_def is_reduce_def)
  consider "is_shift p" "\<not> is_reduce d p" | "\<not> is_shift p" "is_reduce d p" | "\<not> is_shift p" "\<not> is_reduce d p"
    using excl by blast
  then show ?case
  proof cases
    case 1
    then show ?thesis unfolding run nf using r(2,3) p by (simp add: nth_list_update)
  next
    case 2
    then show ?thesis unfolding run nf using r(2,3) p by (simp add: nth_list_update)
  next
    case 3
    then show ?thesis unfolding run nf using r(2,3) by simp
  qed
qed

text \<open>The tokens of a row, and the entries made from them.\<close>

definition row_tokens :: "grammar \<Rightarrow> (action \<Rightarrow> bool) \<Rightarrow> action list \<Rightarrow> nat list" where
  "row_tokens g Q actions = filter (\<lambda>X. number_for Q actions X \<noteq> None) [0..<ntokens g]"

lemma length_row_tokens:
  assumes "\<forall>p \<in> set actions. symbol p < ntokens g" "distinct (map symbol (filter Q actions))"
  shows "length (row_tokens g Q actions) = length (filter Q actions)"
proof -
  have "set (row_tokens g Q actions) = set (map symbol (filter Q actions))"
    using assms(1) by (auto simp: row_tokens_def number_for_def map_of_eq_None_iff image_image)
  moreover have "distinct (row_tokens g Q actions)" by (simp add: row_tokens_def)
  ultimately show ?thesis using assms(2) by (metis distinct_card length_map)
qed

lemma row_entries_result:
  "\<exists>mn mx. row_entries g actionrow off subtracted = (mn, mx, map (\<lambda>X. symbol_value g ! X) (filter (\<lambda>X. actionrow ! (off + X) \<noteq> 0) [0..<ntokens g]),
     map (\<lambda>X. int (actionrow ! (off + X)) - subtracted) (filter (\<lambda>X. actionrow ! (off + X) \<noteq> 0) [0..<ntokens g]))"
proof -
  have "\<exists>mn mx. fold (\<lambda>j (mn, mx, r, s). if actionrow ! (off + j) \<noteq> 0
         then let v = symbol_value g ! j in
           (if v < mn then v else mn, if mx < v then v else mx, r @ [v], s @ [int (actionrow ! (off + j)) - subtracted])
         else (mn, mx, r, s)) [0..<n] (int MAXSHORT, 0, [], []) =
    (mn, mx, map (\<lambda>X. symbol_value g ! X) (filter (\<lambda>X. actionrow ! (off + X) \<noteq> 0) [0..<n]),
     map (\<lambda>X. int (actionrow ! (off + X)) - subtracted) (filter (\<lambda>X. actionrow ! (off + X) \<noteq> 0) [0..<n]))" for n
  proof (induction n)
    case (Suc n)
    then show ?case by (auto simp: Let_def)
  qed simp
  then show ?thesis unfolding row_entries_def .
qed

text \<open>A vector with the entries for the tokens or gotos \<open>js\<close>.\<close>

definition vector_is :: "vectors \<Rightarrow> nat \<Rightarrow> nat list \<Rightarrow> (nat \<Rightarrow> int) \<Rightarrow> (nat \<Rightarrow> int) \<Rightarrow> bool" where
  "vector_is vs i js from to \<longleftrightarrow> froms vs ! i = map from js \<and> tos vs ! i = map to js \<and> tally vs ! i = length js"

definition vectors_length :: "vectors \<Rightarrow> nat \<Rightarrow> bool" where
  "vectors_length vs nv \<longleftrightarrow> length (froms vs) = nv \<and> length (tos vs) = nv \<and> length (tally vs) = nv \<and> length (width vs) = nv"

text \<open>Two collections agree on a vector.\<close>

definition same_vector :: "vectors \<Rightarrow> vectors \<Rightarrow> nat \<Rightarrow> bool" where
  "same_vector vs vs' k \<longleftrightarrow> froms vs ! k = froms vs' ! k \<and> tos vs ! k = tos vs' ! k \<and> tally vs ! k = tally vs' ! k"

lemma vector_is_same: "same_vector vs vs' k \<Longrightarrow> vector_is vs k js from to \<longleftrightarrow> vector_is vs' k js from to"
  by (simp add: same_vector_def vector_is_def)

lemma store_row_result:
  fixes subtracted :: int
  assumes len: "vectors_length vs nv" and i: "i < nv" and empty: "vector_is vs i [] from to"
    and row: "\<forall>X < ntokens g. actionrow ! (off + X) = (case number_for Q actions X of None \<Rightarrow> 0 | Some n \<Rightarrow> n)"
    and pos: "\<forall>p \<in> set actions. Q p \<longrightarrow> 0 < number p"
    and entries: "entries = length (row_tokens g Q actions)"
  defines "vs' \<equiv> store_row g actionrow off subtracted i entries vs"
  shows "vectors_length vs' nv" "\<And>k. k \<noteq> i \<Longrightarrow> same_vector vs' vs k"
    "vector_is vs' i (row_tokens g Q actions) (\<lambda>X. symbol_value g ! X) (\<lambda>X. int (the (number_for Q actions X)) - subtracted)"
proof -
  have "0 < n" if "number_for Q actions X = Some n" for X n
    using map_of_SomeD [OF that [unfolded number_for_def]] pos by auto
  then have tokens: "filter (\<lambda>X. actionrow ! (off + X) \<noteq> 0) [0..<ntokens g] = row_tokens g Q actions"
    unfolding row_tokens_def by (intro filter_cong refl) (auto simp: row split: option.splits)
  have numbers: "map (\<lambda>X. int (actionrow ! (off + X)) - subtracted) (row_tokens g Q actions) =
      map (\<lambda>X. int (the (number_for Q actions X)) - subtracted) (row_tokens g Q actions)"
    unfolding row_tokens_def by (intro map_cong refl) (auto simp: row split: option.splits)
  obtain mn mx where re: "row_entries g actionrow off subtracted = (mn, mx, map (\<lambda>X. symbol_value g ! X) (row_tokens g Q actions),
      map (\<lambda>X. int (the (number_for Q actions X)) - subtracted) (row_tokens g Q actions))"
    using row_entries_result [of g actionrow off subtracted] unfolding tokens numbers by blast
  have l: "length (froms vs) = nv" "length (tos vs) = nv" "length (tally vs) = nv" "length (width vs) = nv" using len by (simp_all add: vectors_length_def)
  have vs': "vs' = (if 0 < entries then vs\<lparr> froms := (froms vs)[i := map (\<lambda>X. symbol_value g ! X) (row_tokens g Q actions)],
      tos := (tos vs)[i := map (\<lambda>X. int (the (number_for Q actions X)) - subtracted) (row_tokens g Q actions)],
      tally := (tally vs)[i := entries], width := (width vs)[i := to_short (mx - mn + 1)] \<rparr>
    else vs\<lparr> tally := (tally vs)[i := entries], width := (width vs)[i := 0] \<rparr>)"
    unfolding vs'_def store_row_def re by (simp add: Let_def)
  show "vectors_length vs' nv" using l unfolding vs' by (simp add: vectors_length_def)
  show "same_vector vs' vs k" if "k \<noteq> i" for k using that unfolding vs' by (simp add: same_vector_def)
  show "vector_is vs' i (row_tokens g Q actions) (\<lambda>X. symbol_value g ! X) (\<lambda>X. int (the (number_for Q actions X)) - subtracted)"
  proof (cases "0 < entries")
    case True
    then show ?thesis using l i entries unfolding vs' by (simp add: vector_is_def)
  next
    case False
    then show ?thesis using l i entries empty unfolding vs' by (simp add: vector_is_def)
  qed
qed

section \<open>Token actions\<close>

text \<open>The actions of a state that the tables can hold.\<close>

definition actions_fit :: "grammar \<Rightarrow> nat \<Rightarrow> action list \<Rightarrow> bool" where
  "actions_fit g default_rule actions \<longleftrightarrow> (\<forall>p \<in> set actions. symbol p < ntokens g \<and> (suppressed p = 0 \<longrightarrow> 0 < number p)) \<and>
     distinct (map symbol (filter is_shift actions)) \<and> distinct (map symbol (filter (is_reduce default_rule) actions))"

definition token_vectors :: "grammar \<Rightarrow> parser_tables \<Rightarrow> nat \<Rightarrow> vectors \<Rightarrow> nat \<Rightarrow> bool" where
  "token_vectors g P n vs q \<longleftrightarrow>
     vector_is vs q (row_tokens g is_shift (parser P ! q)) (\<lambda>X. symbol_value g ! X) (\<lambda>X. int (the (number_for is_shift (parser P ! q) X))) \<and>
     vector_is vs (n + q) (row_tokens g (is_reduce (defred P ! q)) (parser P ! q)) (\<lambda>X. symbol_value g ! X)
       (\<lambda>X. int (the (number_for (is_reduce (defred P ! q)) (parser P ! q) X)) - 2)"

lemma token_vectors_same:
  "same_vector vs vs' q \<Longrightarrow> same_vector vs vs' (n + q) \<Longrightarrow> token_vectors g P n vs q \<longleftrightarrow> token_vectors g P n vs' q"
  unfolding token_vectors_def using vector_is_same [of vs vs' q] vector_is_same [of vs vs' "n + q"] by simp

lemma token_step:
  assumes fit: "actions_fit g d actions" and ne: "actions \<noteq> []"
    and len: "vectors_length vs nv" and q: "q < n" "2 * n \<le> nv" and empty: "\<And>from to. vector_is vs q [] from to" "\<And>from to. vector_is vs (n + q) [] from to"
    and vs': "vs' = (let (actionrow, shiftcount, reducecount) = action_row g d actions in
           store_row g actionrow (ntokens g) 2 (n + q) reducecount (store_row g actionrow 0 0 q shiftcount vs))"
  shows "vectors_length vs' nv" "\<And>k. k \<noteq> q \<Longrightarrow> k \<noteq> n + q \<Longrightarrow> same_vector vs' vs k"
    "vector_is vs' q (row_tokens g is_shift actions) (\<lambda>X. symbol_value g ! X) (\<lambda>X. int (the (number_for is_shift actions X)))"
    "vector_is vs' (n + q) (row_tokens g (is_reduce d) actions) (\<lambda>X. symbol_value g ! X) (\<lambda>X. int (the (number_for (is_reduce d) actions X)) - 2)"
proof -
  have sym: "\<forall>p \<in> set actions. symbol p < ntokens g" and dis: "distinct (map symbol (filter is_shift actions))"
      "distinct (map symbol (filter (is_reduce d) actions))"
    and num: "\<forall>p \<in> set actions. is_shift p \<longrightarrow> 0 < number p" "\<forall>p \<in> set actions. is_reduce d p \<longrightarrow> 0 < number p"
    using fit by (auto simp: actions_fit_def is_shift_def is_reduce_def)
  obtain actionrow where r: "action_row g d actions = (actionrow, length (filter is_shift actions), length (filter (is_reduce d) actions))"
    and row: "\<forall>X < ntokens g. actionrow ! X = (case number_for is_shift actions X of None \<Rightarrow> 0 | Some n \<Rightarrow> n) \<and>
       actionrow ! (X + ntokens g) = (case number_for (is_reduce d) actions X of None \<Rightarrow> 0 | Some n \<Rightarrow> n)"
    using action_row_result [OF sym dis] by blast
  define vs1 where "vs1 = store_row g actionrow 0 0 q (length (row_tokens g is_shift actions)) vs"
  have eq: "vs' = store_row g actionrow (ntokens g) 2 (n + q) (length (row_tokens g (is_reduce d) actions)) vs1"
    unfolding vs' r vs1_def length_row_tokens [OF sym dis(1)] length_row_tokens [OF sym dis(2)] by simp
  have row1: "\<forall>X < ntokens g. actionrow ! (0 + X) = (case number_for is_shift actions X of None \<Rightarrow> 0 | Some n \<Rightarrow> n)"
    and row2: "\<forall>X < ntokens g. actionrow ! (ntokens g + X) = (case number_for (is_reduce d) actions X of None \<Rightarrow> 0 | Some n \<Rightarrow> n)"
    using row by (simp_all add: add.commute)
  have nv: "q < nv" "n + q < nv" using q by simp_all
  note one = store_row_result [OF len nv(1) empty(1) row1 num(1) refl, where subtracted = 0, folded vs1_def, simplified]
  have e2: "vector_is vs1 (n + q) [] from to" for "from" to
    using one(2) [where k = "n + q"] q vector_is_same [of vs1 vs "n + q"] empty(2) by simp
  note two = store_row_result [OF one(1) nv(2) e2 row2 num(2) refl, where subtracted = 2, folded eq]
  show "vectors_length vs' nv" by (rule two(1))
  show "same_vector vs' vs k" if "k \<noteq> q" "k \<noteq> n + q" for k
    using one(2) [OF that(1)] two(2) [OF that(2)] by (simp add: same_vector_def)
  show "vector_is vs' q (row_tokens g is_shift actions) (\<lambda>X. symbol_value g ! X) (\<lambda>X. int (the (number_for is_shift actions X)))"
    using one(3) two(2) [where k = q] vector_is_same [of vs' vs1 q] q by simp
  show "vector_is vs' (n + q) (row_tokens g (is_reduce d) actions) (\<lambda>X. symbol_value g ! X) (\<lambda>X. int (the (number_for (is_reduce d) actions X)) - 2)"
    by (rule two(3))
qed

lemma token_actions_result:
  assumes fit: "\<And>q. q < n \<Longrightarrow> actions_fit g (defred P ! q) (parser P ! q)" and nv: "2 * n \<le> nv"
  defines "vs' \<equiv> token_actions g P n (no_vectors nv)"
  shows "vectors_length vs' nv" "\<And>q. q < n \<Longrightarrow> token_vectors g P n vs' q" "\<And>k from to. 2 * n \<le> k \<Longrightarrow> k < nv \<Longrightarrow> vector_is vs' k [] from to"
proof -
  let ?step = "\<lambda>i vs. if parser P ! i \<noteq> []
         then let (actionrow, shiftcount, reducecount) = action_row g (defred P ! i) (parser P ! i) in
           store_row g actionrow (ntokens g) 2 (n + i) reducecount (store_row g actionrow 0 0 i shiftcount vs)
         else vs"
  have "vectors_length (fold ?step [0..<m] (no_vectors nv)) nv \<and> (\<forall>q < m. token_vectors g P n (fold ?step [0..<m] (no_vectors nv)) q) \<and>
    (\<forall>k < nv. (m \<le> k \<and> k < n \<or> n + m \<le> k) \<longrightarrow> (\<forall>from to. vector_is (fold ?step [0..<m] (no_vectors nv)) k [] from to))" if "m \<le> n" for m
    using that
  proof (induction m)
    case 0
    show ?case by (simp add: no_vectors_def vectors_length_def vector_is_def)
  next
    case (Suc m)
    define vs where "vs = fold ?step [0..<m] (no_vectors nv)"
    define vs1 where "vs1 = ?step m vs"
    have vs1: "fold ?step [0..<Suc m] (no_vectors nv) = vs1" by (simp add: vs_def vs1_def)
    have "m \<le> n" using Suc.prems by simp
    note all = Suc.IH [OF this, folded vs_def]
    note IH = conjunct1 [OF all] conjunct1 [OF conjunct2 [OF all]] conjunct2 [OF conjunct2 [OF all]]
    have m: "m < n" "m < nv" "n + m < nv" using Suc.prems nv by simp_all
    have empty: "vector_is vs m [] from to" "vector_is vs (n + m) [] from to" for "from" to using IH(3) m by simp_all
    have step: "vectors_length vs1 nv \<and> (\<forall>k. k \<noteq> m \<longrightarrow> k \<noteq> n + m \<longrightarrow> same_vector vs1 vs k) \<and> token_vectors g P n vs1 m"
    proof (cases "parser P ! m = []")
      case True
      then show ?thesis using IH(1) empty
        by (simp add: vs1_def same_vector_def token_vectors_def row_tokens_def number_for_def vector_is_def)
    next
      case False
      then have eq: "vs1 = (let (actionrow, shiftcount, reducecount) = action_row g (defred P ! m) (parser P ! m) in
           store_row g actionrow (ntokens g) 2 (n + m) reducecount (store_row g actionrow 0 0 m shiftcount vs))"
        unfolding vs1_def by (simp only: if_True not_False_eq_True)
      note r = token_step [OF fit [OF m(1)] False IH(1) m(1) nv empty eq]
      show ?thesis unfolding token_vectors_def using r by blast
    qed
    have other: "token_vectors g P n vs1 q" if "q < m" for q
      using IH(2) step token_vectors_same [of vs1 vs q n g P] m that by simp
    have rest: "vector_is vs1 k [] from to" if "k < nv" "Suc m \<le> k \<and> k < n \<or> n + Suc m \<le> k" for k "from" to
    proof -
      have "same_vector vs1 vs k" using step m that by auto
      moreover have "vector_is vs k [] from to" using IH(3) that by auto
      ultimately show ?thesis using vector_is_same by blast
    qed
    show ?case unfolding vs1 using step other rest by (auto simp: less_Suc_eq)
  qed
  from this [of n] show "vectors_length vs' nv" "\<And>q. q < n \<Longrightarrow> token_vectors g P n vs' q"
    "\<And>k from to. 2 * n \<le> k \<Longrightarrow> k < nv \<Longrightarrow> vector_is vs' k [] from to"
    unfolding vs'_def token_actions_def by simp_all
qed

section \<open>Gotos\<close>

text \<open>The values that \<open>pack_symbols\<close> gives: the tokens have different ones, those of the variables after \<open>$accept\<close> count from 0.\<close>

definition values_ok :: "grammar \<Rightarrow> bool" where
  "values_ok g \<longleftrightarrow> distinct (map ((!) (symbol_value g)) [0..<ntokens g]) \<and> list_all (\<lambda>X. 0 \<le> symbol_value g ! X) [0..<ntokens g] \<and>
     list_all (\<lambda>X. symbol_value g ! X = int (X - Suc (start_symbol g))) [Suc (start_symbol g)..<nsyms g]"

text \<open>The gotos on a variable that do not lead to the default.\<close>

definition column_gotos :: "grammar \<Rightarrow> goto_tables \<Rightarrow> nat \<Rightarrow> nat \<Rightarrow> nat list" where
  "column_gotos g gt X default_state =
     filter (\<lambda>i. to_state gt ! i \<noteq> default_state) [goto_map gt ! (X - ntokens g)..<goto_map gt ! (X + 1 - ntokens g)]"

lemma save_column_result:
  fixes d :: nat and gt :: goto_tables
  assumes len: "vectors_length vs nv" and symno: "symno = nat (symbol_value g ! X + 2 * int n)" "symno < nv"
    and empty: "vector_is vs symno [] from to"
  defines "vs' \<equiv> save_column g gt n X d vs"
  shows "vectors_length vs' nv" "\<And>k. k \<noteq> symno \<Longrightarrow> same_vector vs' vs k"
    "vector_is vs' symno (column_gotos g gt X d) (\<lambda>i. int (from_state gt ! i)) (\<lambda>i. int (to_state gt ! i))"
proof -
  have l: "length (froms vs) = nv" "length (tos vs) = nv" "length (tally vs) = nv" "length (width vs) = nv" using len by (simp_all add: vectors_length_def)
  define w where "w = to_short (last (map (\<lambda>i. int (from_state gt ! i)) (column_gotos g gt X d)) - hd (map (\<lambda>i. int (from_state gt ! i)) (column_gotos g gt X d)) + 1)"
  have vs': "vs' = (if column_gotos g gt X d = [] then vs
    else \<lparr> froms = (froms vs)[symno := map (\<lambda>i. int (from_state gt ! i)) (column_gotos g gt X d)],
           tos = (tos vs)[symno := map (\<lambda>i. int (to_state gt ! i)) (column_gotos g gt X d)],
           tally = (tally vs)[symno := length (column_gotos g gt X d)], width = (width vs)[symno := w] \<rparr>)"
    unfolding vs'_def save_column_def Let_def column_gotos_def [symmetric] symno(1) w_def by (rule refl)
  show "vectors_length vs' nv" using l len unfolding vs' by (simp add: vectors_length_def)
  show "same_vector vs' vs k" if "k \<noteq> symno" for k using that unfolding vs' by (simp add: same_vector_def)
  show "vector_is vs' symno (column_gotos g gt X d) (\<lambda>i. int (from_state gt ! i)) (\<lambda>i. int (to_state gt ! i))"
    using l symno(2) empty unfolding vs' by (simp add: vector_is_def)
qed

abbreviation column :: "grammar \<Rightarrow> goto_tables \<Rightarrow> nat \<Rightarrow> nat \<Rightarrow> nat list" where
  "column g gt n X \<equiv> column_gotos g gt X (default_goto g gt n X)"

lemma goto_actions_result:
  assumes val: "values_ok g" and len: "vectors_length vs (2 * n + nvars g)" and g: "nsyms g = ntokens g + nvars g" "start_symbol g = ntokens g" "1 < nvars g"
    and empty: "\<And>k from to. 2 * n \<le> k \<Longrightarrow> k < 2 * n + nvars g \<Longrightarrow> vector_is vs k [] from to"
    and run: "goto_actions g gt n vs = (dgoto, vs')"
  shows "vectors_length vs' (2 * n + nvars g)" "\<And>k. k < 2 * n \<Longrightarrow> same_vector vs' vs k"
    "\<And>i. Suc (start_symbol g) + i < nsyms g \<Longrightarrow> dgoto ! i = default_goto g gt n (Suc (start_symbol g) + i)"
    "\<And>i. Suc (start_symbol g) + i < nsyms g \<Longrightarrow>
       vector_is vs' (2 * n + i) (column g gt n (Suc (start_symbol g) + i)) (\<lambda>i. int (from_state gt ! i)) (\<lambda>i. int (to_state gt ! i))"
    "\<And>from to. vector_is vs' (2 * n + nvars g - 1) [] from to"
proof -
  let ?s = "Suc (start_symbol g)" and ?nv = "2 * n + nvars g"
  let ?step = "\<lambda>i (yyDgoto, vs). let k = default_goto g gt n i in (yyDgoto @ [k], save_column g gt n i k vs)"
  have loop: "\<exists>dgoto vs'. fold ?step [?s..<?s + m] ([], vs) = (dgoto, vs') \<and> vectors_length vs' ?nv \<and> length dgoto = m \<and>
      (\<forall>k < 2 * n. same_vector vs' vs k) \<and>
      (\<forall>i < m. dgoto ! i = default_goto g gt n (?s + i) \<and>
         vector_is vs' (2 * n + i) (column g gt n (?s + i)) (\<lambda>i. int (from_state gt ! i)) (\<lambda>i. int (to_state gt ! i))) \<and>
      (\<forall>k. 2 * n + m \<le> k \<longrightarrow> k < ?nv \<longrightarrow> (\<forall>from to. vector_is vs' k [] from to))" if "?s + m \<le> nsyms g" for m
    using that
  proof (induction m)
    case 0
    have "\<forall>k. 2 * n + 0 \<le> k \<longrightarrow> k < ?nv \<longrightarrow> (\<forall>from to. vector_is vs k [] from to)" using empty by simp
    then show ?case using len by (simp add: same_vector_def)
  next
    case (Suc m)
    then obtain dg v where IH: "fold ?step [?s..<?s + m] ([], vs) = (dg, v)" "vectors_length v ?nv" "length dg = m"
      "\<forall>k < 2 * n. same_vector v vs k"
      "\<forall>i < m. dg ! i = default_goto g gt n (?s + i) \<and>
         vector_is v (2 * n + i) (column g gt n (?s + i)) (\<lambda>i. int (from_state gt ! i)) (\<lambda>i. int (to_state gt ! i))"
      "\<forall>k. 2 * n + m \<le> k \<longrightarrow> k < ?nv \<longrightarrow> (\<forall>from to. vector_is v k [] from to)" by auto
    let ?X = "?s + m"
    have X: "?X < nsyms g" using Suc.prems by simp
    then have "symbol_value g ! ?X = int m" using val by (simp add: values_ok_def list_all_iff)
    then have symno: "2 * n + m = nat (symbol_value g ! ?X + 2 * int n)" by simp
    have nv: "2 * n + m < ?nv" using X g by simp
    have e: "vector_is v (2 * n + m) [] from to" for "from" to using IH(6) nv by simp
    define v' where "v' = save_column g gt n ?X (default_goto g gt n ?X) v"
    note r = save_column_result [OF IH(2) symno nv e, where gt = gt and d = "default_goto g gt n ?X", folded v'_def]
    have "[?s..<?s + Suc m] = [?s..<?s + m] @ [?X]" by simp
    then have run: "fold ?step [?s..<?s + Suc m] ([], vs) = (dg @ [default_goto g gt n ?X], v')"
      using IH(1) by (simp add: Let_def v'_def del: upt_Suc)
    have same: "same_vector v' vs k" if "k < 2 * n" for k
      using IH(4) r(2) [of k] that by (simp add: same_vector_def)
    have cols: "(dg @ [default_goto g gt n ?X]) ! i = default_goto g gt n (?s + i) \<and>
         vector_is v' (2 * n + i) (column g gt n (?s + i)) (\<lambda>i. int (from_state gt ! i)) (\<lambda>i. int (to_state gt ! i))" if "i < Suc m" for i
    proof (cases "i = m")
      case True
      then show ?thesis using r(3) IH(3) by (simp add: nth_append)
    next
      case False
      then have "i < m" using that by simp
      then show ?thesis using IH(3,5) vector_is_same [OF r(2), of "2 * n + i"] by (simp add: nth_append)
    qed
    have rest: "vector_is v' k [] from to" if "2 * n + Suc m \<le> k" "k < ?nv" for k "from" to
      using IH(6) vector_is_same [OF r(2), of k] that by simp
    show ?case using run r(1) same cols rest IH(3) by (intro exI [of _ "dg @ [default_goto g gt n ?X]"] exI [of _ v']) simp
  qed
  have m: "?s + (nvars g - 1) = nsyms g" "2 * n + (nvars g - 1) = 2 * n + nvars g - 1" using g by simp_all
  have r: "vectors_length vs' ?nv" "\<forall>k < 2 * n. same_vector vs' vs k"
      "\<forall>i < nvars g - 1. dgoto ! i = default_goto g gt n (?s + i) \<and>
         vector_is vs' (2 * n + i) (column g gt n (?s + i)) (\<lambda>i. int (from_state gt ! i)) (\<lambda>i. int (to_state gt ! i))"
      "\<forall>k. 2 * n + (nvars g - 1) \<le> k \<longrightarrow> k < ?nv \<longrightarrow> (\<forall>from to. vector_is vs' k [] from to)"
    using loop [of "nvars g - 1"] run unfolding m(1) goto_actions_def by auto
  show "vectors_length vs' (2 * n + nvars g)" by (rule r(1))
  show "same_vector vs' vs k" if "k < 2 * n" for k using r(2) that by blast
  show "dgoto ! i = default_goto g gt n (?s + i)"
    "vector_is vs' (2 * n + i) (column g gt n (?s + i)) (\<lambda>i. int (from_state gt ! i)) (\<lambda>i. int (to_state gt ! i))"
    if "?s + i < nsyms g" for i using r(3) that m(1) by simp_all
  show "vector_is vs' (2 * n + nvars g - 1) [] from to" for "from" to using r(4) m(2) g(3) by simp
qed

section \<open>Reading the tables\<close>

definition output_vectors :: "grammar \<Rightarrow> lalr_tables \<Rightarrow> parser_tables \<Rightarrow> nat \<Rightarrow> vectors" where
  "output_vectors g t P nstates = snd (goto_actions g (gotos t) nstates (token_actions g P nstates (no_vectors (2 * nstates + nvars g))))"

text \<open>The condition under which the packing returns.\<close>

definition output_fits :: "grammar \<Rightarrow> lalr_tables \<Rightarrow> parser_tables \<Rightarrow> nat \<Rightarrow> bool" where
  "output_fits g t P nstates \<longleftrightarrow> vectors_fit (2 * nstates + nvars g) (output_vectors g t P nstates)"

text \<open>The skeleton: a shift, a reduction and a goto.\<close>

definition shift_lookup :: "output_tables \<Rightarrow> nat \<Rightarrow> int \<Rightarrow> int option" where
  "shift_lookup T q v = table_lookup (yyTable T) (yyCheck T) (yySindex T ! q) v"

definition reduce_lookup :: "output_tables \<Rightarrow> nat \<Rightarrow> int \<Rightarrow> int option" where
  "reduce_lookup T q v = table_lookup (yyTable T) (yyCheck T) (yyRindex T ! q) v"

definition goto_lookup :: "output_tables \<Rightarrow> nat \<Rightarrow> nat \<Rightarrow> int" where
  "goto_lookup T A q = (case table_lookup (yyTable T) (yyCheck T) (yyGindex T ! A) (int q) of None \<Rightarrow> int (yyDgoto T ! A) | Some s \<Rightarrow> s)"

definition tables_ok :: "grammar \<Rightarrow> core list \<Rightarrow> parser_tables \<Rightarrow> output_tables \<Rightarrow> bool" where
  "tables_ok g cs P T \<longleftrightarrow>
     (\<forall>q < length cs. \<forall>X < ntokens g. \<forall>v.
        (shift_lookup T q (symbol_value g ! X) = Some v \<longleftrightarrow> (\<exists>a \<in> set (parser P ! q). is_shift a \<and> symbol a = X \<and> v = int (number a))) \<and>
        (reduce_lookup T q (symbol_value g ! X) = Some v \<longleftrightarrow>
          (\<exists>a \<in> set (parser P ! q). is_reduce (defred P ! q) a \<and> symbol a = X \<and> v = int (number a) - 2))) \<and>
     (\<forall>A q s. start_symbol g < A \<longrightarrow> moves g cs q A s \<longrightarrow> goto_lookup T (A - Suc (start_symbol g)) q = int s)"

lemma number_for_iff:
  assumes "distinct (map symbol (filter Q actions))"
  shows "number_for Q actions X = Some n \<longleftrightarrow> (\<exists>a \<in> set actions. Q a \<and> symbol a = X \<and> number a = n)"
proof -
  have "distinct (map fst (map (\<lambda>p. (symbol p, number p)) (filter Q actions)))" using assms by (simp add: comp_def)
  from map_of_eq_Some_iff [OF this, of X n] show ?thesis by (auto simp: number_for_def)
qed

lemma map_of_zip_maps:
  assumes "inj_on f (insert x (set js))"
  shows "map_of (zip (map f js) (map h js)) (f x) = (if x \<in> set js then Some (h x) else None)"
  using assms
proof (induction js)
  case (Cons j js)
  have "inj_on f (insert x (set js))" using Cons.prems by (rule inj_on_subset) auto
  moreover have "f x = f j \<longleftrightarrow> x = j" using Cons.prems by (auto dest: inj_onD)
  ultimately show ?case using Cons.IH by auto
qed simp

lemma vector_is_ok:
  assumes "vector_is vs i js from to" "distinct js" "inj_on from (set js)" "\<forall>x \<in> set js. 0 \<le> from x"
  shows "length (froms vs ! i) = tally vs ! i \<and> length (tos vs ! i) = tally vs ! i \<and>
     distinct (froms vs ! i) \<and> list_all (\<lambda>f. 0 \<le> f) (froms vs ! i)"
  using assms by (simp add: vector_is_def distinct_map list_all_iff)

lemma actions_fit_state:
  assumes g: "grammar_ok g" and cs: "cores_ok g cs" and q: "q < length cs" and ok: "parser_state_ok g cs P q"
  shows "actions_fit g (defred P ! q) (parser P ! q)"
proof -
  let ?as = "parser P ! q"
  have k: "set (map action_key ?as) = state_actions g cs q" and d: "distinct (map action_key ?as)"
    and c: "\<forall>a \<in> set ?as. \<forall>b \<in> set ?as. a \<noteq> b \<longrightarrow> symbol a = symbol b \<longrightarrow> suppressed a \<noteq> 0 \<or> suppressed b \<noteq> 0"
    using ok unfolding parser_state_ok_def Let_def by - (elim conjE, assumption)+
  have "symbol p < ntokens g \<and> 0 < number p" if "p \<in> set ?as" for p
  proof -
    have key: "action_key p \<in> state_actions g cs q" using that unfolding k [symmetric] by simp
    show ?thesis
    proof (cases "action_code p")
      case SHIFT
      then have m: "symbol p < start_symbol g" "moves g cs q (symbol p) (number p)" using key by (simp_all add: state_actions_def)
      have "number p \<noteq> 0"
      proof
        assume "number p = 0"
        then have "symbol p = 0" using moves_symbol [OF m(2)] cores_okD(2) [OF cs] by simp
        then show False using moves_bounds(1) [OF g cs m(2)] by simp
      qed
      then show ?thesis using m(1) grammar_okD(1) [OF g] by simp
    next
      case REDUCE
      then have "(REDUCE, symbol p, number p) \<in> state_actions g cs q" using key by simp
      then show ?thesis using state_actions_reduce [OF g cs q] by (auto simp: state_actions_def)
    qed
  qed
  moreover have dist: "distinct (map symbol (filter Q ?as))" if Q: "\<And>a. Q a \<Longrightarrow> suppressed a = 0" for Q
  proof -
    have "inj_on symbol (set (filter Q ?as))"
    proof (rule inj_onI)
      fix a b assume ab: "a \<in> set (filter Q ?as)" "b \<in> set (filter Q ?as)" "symbol a = symbol b"
      then have "suppressed a = 0" "suppressed b = 0" using Q by simp_all
      then show "a = b" using c ab by fastforce
    qed
    moreover have "distinct ?as" using d by (simp only: distinct_map)
    ultimately show ?thesis by (simp add: distinct_map)
  qed
  moreover have "distinct (map symbol (filter is_shift ?as))" by (rule dist) (simp add: is_shift_def)
  moreover have "distinct (map symbol (filter (is_reduce (defred P ! q)) ?as))" by (rule dist) (simp add: is_reduce_def)
  ultimately show ?thesis unfolding actions_fit_def by blast
qed

lemma column_facts:
  assumes gt: "goto_tables_ok g cs gt" and X: "start_symbol g \<le> X" "X < nsyms g"
  shows "distinct (column_gotos g gt X d)" "inj_on (\<lambda>i. int (from_state gt ! i)) (set (column_gotos g gt X d))"
    "set (column_gotos g gt X d) = {i. i < length (from_state gt) \<and> goto_symbol cs gt i = X \<and> to_state gt ! i \<noteq> d}"
proof -
  show set: "set (column_gotos g gt X d) = {i. i < length (from_state gt) \<and> goto_symbol cs gt i = X \<and> to_state gt ! i \<noteq> d}"
    unfolding column_gotos_def set_filter goto_range [OF gt X] by blast
  show "distinct (column_gotos g gt X d)" by (simp add: column_gotos_def)
  show "inj_on (\<lambda>i. int (from_state gt ! i)) (set (column_gotos g gt X d))"
    unfolding set by (rule inj_onI) (use goto_number_unique [OF gt] in auto)
qed

lemma output_vectors_result:
  assumes g: "grammar_ok g" and val: "values_ok g" and cs: "cores_ok g cs" and gt: "goto_tables_ok g cs (gotos t)"
    and ok: "\<And>q. q < length cs \<Longrightarrow> parser_state_ok g cs P q"
    and run: "goto_actions g (gotos t) (length cs) (token_actions g P (length cs) (no_vectors (2 * length cs + nvars g))) = (dgoto, vs)"
  shows "\<And>q. q < length cs \<Longrightarrow> token_vectors g P (length cs) vs q"
    "\<And>i. Suc (start_symbol g) + i < nsyms g \<Longrightarrow> dgoto ! i = default_goto g (gotos t) (length cs) (Suc (start_symbol g) + i)"
    "\<And>i. Suc (start_symbol g) + i < nsyms g \<Longrightarrow> vector_is vs (2 * length cs + i) (column g (gotos t) (length cs) (Suc (start_symbol g) + i))
       (\<lambda>i. int (from_state (gotos t) ! i)) (\<lambda>i. int (to_state (gotos t) ! i))"
    "vectors_ok (2 * length cs + nvars g) vs"
proof -
  let ?n = "length cs" and ?nv = "2 * length cs + nvars g" and ?s = "Suc (start_symbol g)"
  note d = grammar_okD(1-4) [OF g]
  have fit: "actions_fit g (defred P ! q) (parser P ! q)" if "q < ?n" for q by (rule actions_fit_state [OF g cs that ok [OF that]])
  define vs0 where "vs0 = token_actions g P ?n (no_vectors ?nv)"
  have tok: "vectors_length vs0 ?nv" "\<And>q. q < ?n \<Longrightarrow> token_vectors g P ?n vs0 q" "\<And>k from to. 2 * ?n \<le> k \<Longrightarrow> k < ?nv \<Longrightarrow> vector_is vs0 k [] from to"
    unfolding vs0_def using token_actions_result [of ?n g P ?nv] fit by simp_all
  have gts: "\<And>k. k < 2 * ?n \<Longrightarrow> same_vector vs vs0 k"
    "\<And>i. ?s + i < nsyms g \<Longrightarrow> dgoto ! i = default_goto g (gotos t) ?n (?s + i)"
    "\<And>i. ?s + i < nsyms g \<Longrightarrow> vector_is vs (2 * ?n + i) (column g (gotos t) ?n (?s + i)) (\<lambda>i. int (from_state (gotos t) ! i)) (\<lambda>i. int (to_state (gotos t) ! i))"
    "\<And>from to. vector_is vs (2 * ?n + nvars g - 1) [] from to"
    by (rule goto_actions_result [OF val tok(1) d(2,1,4) tok(3) run [folded vs0_def]]; assumption)+
  have tv: "token_vectors g P ?n vs q" if "q < ?n" for q
    using tok(2) [OF that] token_vectors_same [of vs vs0 q ?n g P] gts(1) that by simp
  then show "\<And>q. q < ?n \<Longrightarrow> token_vectors g P ?n vs q" .
  show "\<And>i. ?s + i < nsyms g \<Longrightarrow> dgoto ! i = default_goto g (gotos t) ?n (?s + i)" by (rule gts(2))
  show "\<And>i. ?s + i < nsyms g \<Longrightarrow> vector_is vs (2 * ?n + i) (column g (gotos t) ?n (?s + i)) (\<lambda>i. int (from_state (gotos t) ! i)) (\<lambda>i. int (to_state (gotos t) ! i))"
    by (rule gts(3))
  have inj: "inj_on (\<lambda>X. symbol_value g ! X) (set (row_tokens g Q actions))" and nn: "\<forall>X \<in> set (row_tokens g Q actions). 0 \<le> symbol_value g ! X"
    and dis: "distinct (row_tokens g Q actions)" for Q actions
  proof -
    have "inj_on (\<lambda>X. symbol_value g ! X) {0..<ntokens g}" using val by (simp add: values_ok_def distinct_map)
    then show "inj_on (\<lambda>X. symbol_value g ! X) (set (row_tokens g Q actions))" by (rule inj_on_subset) (auto simp: row_tokens_def)
    show "\<forall>X \<in> set (row_tokens g Q actions). 0 \<le> symbol_value g ! X" using val by (simp add: values_ok_def row_tokens_def list_all_iff)
    show "distinct (row_tokens g Q actions)" by (simp add: row_tokens_def)
  qed
  show "vectors_ok ?nv vs"
    unfolding vectors_ok_def
  proof (intro allI impI)
    fix i assume i: "i < ?nv"
    consider "i < ?n" | q where "q < ?n" "i = ?n + q" | j where "?s + j < nsyms g" "i = 2 * ?n + j" | "i = 2 * ?n + nvars g - 1"
    proof -
      have "i < ?n \<or> i - ?n < ?n \<and> i = ?n + (i - ?n) \<or> ?s + (i - 2 * ?n) < nsyms g \<and> i = 2 * ?n + (i - 2 * ?n) \<or> i = 2 * ?n + nvars g - 1"
        using i d(1,2) by linarith
      then show thesis using that by blast
    qed
    then show "length (froms vs ! i) = tally vs ! i \<and> length (tos vs ! i) = tally vs ! i \<and>
     distinct (froms vs ! i) \<and> list_all (\<lambda>f. 0 \<le> f) (froms vs ! i)"
    proof cases
      case 1
      then show ?thesis using vector_is_ok [OF _ dis inj nn] tv [OF 1] unfolding token_vectors_def by blast
    next
      case 2
      then show ?thesis using vector_is_ok [OF _ dis inj nn] tv [OF 2(1)] unfolding token_vectors_def by blast
    next
      case (3 j)
      have X: "start_symbol g \<le> ?s + j" by simp
      show ?thesis unfolding 3(2) using vector_is_ok [OF gts(3) [OF 3(1)] column_facts(1,2) [OF gt X 3(1)]] by simp
    next
      case 4
      show ?thesis unfolding 4 using vector_is_ok [OF gts(4) [of "\<lambda>_. 0" "\<lambda>_. 0"]] by simp
    qed
  qed
qed

theorem output_actions_result:
  assumes g: "grammar_ok g" and val: "values_ok g" and cs: "cores_ok g cs" and gt: "goto_tables_ok g cs (gotos t)"
    and ok: "\<And>q. q < length cs \<Longrightarrow> parser_state_ok g cs P q" and fits: "output_fits g t P (length cs)"
  obtains T where "output_actions g t P (length cs) = Some T" "tables_ok g cs P T"
proof -
  let ?n = "length cs" and ?nv = "2 * length cs + nvars g" and ?s = "Suc (start_symbol g)"
  note d = grammar_okD(1-4) [OF g]
  have n: "0 < ?n" using cores_okD(1) [OF cs] by simp
  obtain dgoto vs where run: "goto_actions g (gotos t) ?n (token_actions g P ?n (no_vectors ?nv)) = (dgoto, vs)" by (rule prod.exhaust)
  have vr: "\<And>q. q < ?n \<Longrightarrow> token_vectors g P ?n vs q"
    "\<And>i. ?s + i < nsyms g \<Longrightarrow> dgoto ! i = default_goto g (gotos t) ?n (?s + i)"
    "\<And>i. ?s + i < nsyms g \<Longrightarrow> vector_is vs (2 * ?n + i) (column g (gotos t) ?n (?s + i)) (\<lambda>i. int (from_state (gotos t) ! i)) (\<lambda>i. int (to_state (gotos t) ! i))"
    "vectors_ok ?nv vs"
    by (rule output_vectors_result [OF g val cs gt _ run]; (rule ok)?; assumption)+
  have fit: "vectors_fit ?nv vs" using fits by (simp add: output_fits_def output_vectors_def run)
  obtain ps where ps: "pack_table vs (sort_actions vs ?nv) ?n ?nv = Some ps" "length (base ps) = ?nv"
    "\<forall>i < ?nv. \<forall>v \<ge> 0. table_lookup (output_table ps) (output_check ps) (base ps ! i) v = map_of (zip (froms vs ! i) (tos vs ! i)) v"
    using pack_table_result [OF vr(4) fit] by blast
  define T where "T = \<lparr> yyDgoto = dgoto, yySindex = map ((!) (base ps)) [0..<?n], yyRindex = map ((!) (base ps)) [?n..<2 * ?n],
      yyGindex = map ((!) (base ps)) (2 * ?n # [2 * ?n + 1..<2 * ?n + nvars g - 1]), yyTable = output_table ps, yyCheck = output_check ps \<rparr>"
  have result: "output_actions g t P ?n = Some T"
    unfolding output_actions_def Let_def run T_def output_base_def using ps(1) by simp
  have tokens: "inj_on (\<lambda>X. symbol_value g ! X) {0..<ntokens g}" "\<forall>X < ntokens g. 0 \<le> symbol_value g ! X"
    using val by (simp_all add: values_ok_def distinct_map list_all_iff)
  have row: "table_lookup (yyTable T) (yyCheck T) (base ps ! i) (symbol_value g ! X) = map_option h' (number_for Q actions X)"
    if v: "vector_is vs i (row_tokens g Q actions) (\<lambda>X. symbol_value g ! X) h" and i: "i < ?nv" and X: "X < ntokens g"
      and h: "\<And>X n. number_for Q actions X = Some n \<Longrightarrow> h X = h' n" for i Q actions h h' X
  proof -
    have "inj_on (\<lambda>X. symbol_value g ! X) (insert X (set (row_tokens g Q actions)))"
      by (rule inj_on_subset [OF tokens(1)]) (use X in \<open>auto simp: row_tokens_def\<close>)
    then have "map_of (zip (froms vs ! i) (tos vs ! i)) (symbol_value g ! X) = (if X \<in> set (row_tokens g Q actions) then Some (h X) else None)"
      using v map_of_zip_maps [of "\<lambda>X. symbol_value g ! X" X "row_tokens g Q actions" h] by (simp add: vector_is_def)
    also have "\<dots> = map_option h' (number_for Q actions X)" using X h by (cases "number_for Q actions X") (simp_all add: row_tokens_def)
    finally show ?thesis using ps(3) i tokens(2) X by (simp add: T_def)
  qed
  have iff: "map_option h (number_for Q (parser P ! q) X) = Some v \<longleftrightarrow> (\<exists>a \<in> set (parser P ! q). Q a \<and> symbol a = X \<and> v = h (number a))"
    if "distinct (map symbol (filter Q (parser P ! q)))" for Q q X v and h :: "nat \<Rightarrow> int"
  proof -
    have "map_option h (number_for Q (parser P ! q) X) = Some v \<longleftrightarrow> (\<exists>n. number_for Q (parser P ! q) X = Some n \<and> v = h n)" by auto
    then show ?thesis unfolding number_for_iff [OF that] by blast
  qed
  have "tables_ok g cs P T"
    unfolding tables_ok_def
  proof (intro conjI allI impI)
    fix q X v assume q: "q < ?n" and X: "X < ntokens g"
    note af = actions_fit_state [OF g cs q ok [OF q], unfolded actions_fit_def]
    have ix: "yySindex T ! q = base ps ! q" "yyRindex T ! q = base ps ! (?n + q)" using q by (simp_all add: T_def)
    have "shift_lookup T q (symbol_value g ! X) = map_option int (number_for is_shift (parser P ! q) X)"
      unfolding shift_lookup_def ix by (rule row [OF conjunct1 [OF vr(1) [OF q, unfolded token_vectors_def]] _ X]) (use q in simp_all)
    then show "shift_lookup T q (symbol_value g ! X) = Some v \<longleftrightarrow> (\<exists>a \<in> set (parser P ! q). is_shift a \<and> symbol a = X \<and> v = int (number a))"
      using iff [of is_shift q int X v] af by simp
    have "reduce_lookup T q (symbol_value g ! X) = map_option (\<lambda>n. int n - 2) (number_for (is_reduce (defred P ! q)) (parser P ! q) X)"
      unfolding reduce_lookup_def ix by (rule row [OF conjunct2 [OF vr(1) [OF q, unfolded token_vectors_def]] _ X]) (use q in simp_all)
    then show "reduce_lookup T q (symbol_value g ! X) = Some v \<longleftrightarrow>
        (\<exists>a \<in> set (parser P ! q). is_reduce (defred P ! q) a \<and> symbol a = X \<and> v = int (number a) - 2)"
      using iff [of "is_reduce (defred P ! q)" q "\<lambda>n. int n - 2" X v] af by simp
  next
    fix A q s assume A: "start_symbol g < A" "moves g cs q A s"
    define i where "i = A - ?s"
    have As: "start_symbol g \<le> A" "A < nsyms g" using A moves_bounds(2) [OF g cs A(2)] by simp_all
    have i: "A = ?s + i" "?s + i < nsyms g" "i < nvars g - 1" using A(1) As(2) d(1,2) by (simp_all add: i_def)
    let ?d = "default_goto g (gotos t) ?n A" and ?js = "column g (gotos t) ?n A"
    have ix: "yyGindex T ! i = base ps ! (2 * ?n + i)" using i(3) by (cases i) (simp_all add: T_def)
    have dg: "yyDgoto T ! i = ?d" using vr(2) [OF i(2)] i(1) by (simp add: T_def)
    have col: "froms vs ! (2 * ?n + i) = map (\<lambda>i. int (from_state (gotos t) ! i)) ?js" "tos vs ! (2 * ?n + i) = map (\<lambda>i. int (to_state (gotos t) ! i)) ?js"
      using vr(3) [OF i(2)] unfolding i(1) [symmetric] by (simp_all add: vector_is_def)
    note cf = column_facts [OF gt As, of ?d]
    obtain k where k: "k < length (from_state (gotos t))" "from_state (gotos t) ! k = q" "to_state (gotos t) ! k = s" "goto_symbol cs (gotos t) k = A"
      by (rule goto_number [OF gt As(1) A(2)])
    have inj: "inj_on (\<lambda>i. int (from_state (gotos t) ! i)) (insert k (set ?js))"
      by (rule inj_onI) (use goto_number_unique [OF gt] k cf(3) in auto)
    have "table_lookup (yyTable T) (yyCheck T) (yyGindex T ! i) (int q) = (if k \<in> set ?js then Some (int s) else None)"
      using ps(3) i(3) map_of_zip_maps [OF inj, of "\<lambda>i. int (to_state (gotos t) ! i)"] k(2,3) unfolding ix by (simp add: T_def col)
    moreover have "k \<in> set ?js \<longleftrightarrow> s \<noteq> ?d" using cf(3) k by simp
    ultimately show "goto_lookup T (A - ?s) q = int s" unfolding goto_lookup_def i_def [symmetric] dg by simp
  qed
  with result show thesis by (rule that)
qed

text \<open>A reduction by the number that is found: the left-hand side of its rule, and the length of the right-hand side.\<close>

lemma output_rule_data_result:
  assumes g: "grammar_ok g" and r: "3 \<le> r" "r < nrules g"
  shows "fst (output_rule_data g) ! (r - 2) = symbol_value g ! (rlhs g ! r)" "snd (output_rule_data g) ! (r - 2) = int (length (rhs g r))"
proof -
  obtain k where k: "r = k + 3" using r(1) by (metis add.commute le_Suc_ex)
  have "rrhs g ! r < rrhs g ! Suc r" using g r by (simp add: grammar_ok_def)
  moreover have "[3..<nrules g] ! k = r" "k < length [3..<nrules g]" using r(2) k by simp_all
  moreover have "r - 2 = Suc k" using k by simp
  ultimately show "fst (output_rule_data g) ! (r - 2) = symbol_value g ! (rlhs g ! r)" "snd (output_rule_data g) ! (r - 2) = int (length (rhs g r))"
    by (simp_all add: output_rule_data_def rhs_def)
qed

end
