(* ===== verification/Jay_Properties.thy ===== *)
theory Jay_Properties
  imports Jay_Tables
begin

text \<open>
  The properties of the parser generator, each applied to the grammar \<open>E : E '+' 'n' | ;\<close>.
\<close>

definition sample_grammar :: grammar where
  "sample_grammar =
     \<lparr> nitems = 9, nrules = 5, nsyms = 6, ntokens = 4, nvars = 2, start_symbol = 4,
       symbol_value = [0, 256, 43, 110, -1, 0], symbol_prec = [0, 0, 0, 0, 0, 0], symbol_assoc = replicate 6 TOKEN,
       ritem = [-1, 5, 0, -2, 5, 2, 3, -3, -4], rlhs = [0, 0, 4, 5, 5], rrhs = [0, 0, 1, 4, 8, 9],
       rprec = [0, 0, 0, 0, 0], rassoc = replicate 5 TOKEN \<rparr>"

lemma grammar_ok_code [code]:
  "grammar_ok g \<longleftrightarrow>
     start_symbol g = ntokens g \<and> nsyms g = ntokens g + nvars g \<and> 0 < ntokens g \<and> 1 < nvars g \<and>
     int (nsyms g) \<le> 32767 \<and> int (nitems g) \<le> 32767 \<and>
     length (ritem g) = nitems g \<and> length (rlhs g) = nrules g \<and> length (rrhs g) = Suc (nrules g) \<and> 3 \<le> nrules g \<and>
     length (symbol_prec g) = nsyms g \<and> length (symbol_assoc g) = nsyms g \<and> length (symbol_value g) = nsyms g \<and>
     length (rprec g) = nrules g \<and> length (rassoc g) = nrules g \<and>
     take 4 (ritem g) = [-1, int (start_symbol g) + 1, 0, -2] \<and>
     take 3 (rlhs g) = [0, 0, start_symbol g] \<and> take 4 (rrhs g) = [0, 0, 1, 4] \<and> rrhs g ! nrules g = nitems g \<and>
     list_all (\<lambda>r. start_symbol g < rlhs g ! r \<and> rlhs g ! r < nsyms g) [3..<nrules g] \<and>
     list_all (\<lambda>r. rrhs g ! r < rrhs g ! Suc r \<and> ritem g ! (rrhs g ! Suc r - 1) = - int r \<and>
        list_all (\<lambda>k. 0 \<le> ritem g ! k \<and> ritem g ! k < int (nsyms g) \<and> (r \<noteq> 2 \<longrightarrow> ritem g ! k \<noteq> 0) \<and>
          ritem g ! k \<noteq> int (start_symbol g)) [rrhs g ! r..<rrhs g ! Suc r - 1]) [2..<nrules g]"
proof -
  have a: "(\<forall>r. m \<le> r \<and> r < n \<longrightarrow> P r) \<longleftrightarrow> list_all P [m..<n]" for m n P by (auto simp: list_all_iff)
  have b: "n \<le> MAXSHORT \<longleftrightarrow> int n \<le> 32767" for n by (simp add: MAXSHORT_def)
  show ?thesis unfolding grammar_ok_def a b by (rule refl)
qed

lemma sample_grammar_ok: "grammar_ok sample_grammar"
  by code_simp

text \<open>For evaluation: comparisons with \<open>MAXSHORT\<close> on integers.\<close>

lemma new_state_code [code]:
  "new_state X isp st =
     (if 32767 \<le> int (length (cores st)) then None
      else Some (st\<lparr> cores := cores st @ [\<lparr> core_number = length (cores st), core_symbol = X, core_items = isp \<rparr>] \<rparr>))"
  by (simp add: new_state_def MAXSHORT_def)

lemma count_gotos_code [code]:
  "count_gotos g [] st = Some st"
  "count_gotos g ((X, x) # pairs) (ngotos, counts) =
     (if int ngotos = 32767 then None
      else let i = X - ntokens g in count_gotos g pairs (ngotos + 1, counts[i := counts ! i + 1]))"
  by (cases x; simp add: MAXSHORT_def)+

definition sample_machine :: lr0_machine where
  "sample_machine =
     \<lparr> cores = [\<lparr> core_number = 0, core_symbol = 0, core_items = [1] \<rparr>, \<lparr> core_number = 1, core_symbol = 5, core_items = [2, 5] \<rparr>,
         \<lparr> core_number = 2, core_symbol = 2, core_items = [6] \<rparr>, \<lparr> core_number = 3, core_symbol = 3, core_items = [7] \<rparr>],
       state_set = [[], [], [1], [], [], [], [2], [3], []], this_state = 4,
       shift_list = [\<lparr> shifts_number = 0, shift = [1] \<rparr>, \<lparr> shifts_number = 1, shift = [2] \<rparr>, \<lparr> shifts_number = 2, shift = [3] \<rparr>],
       reduction_list = [\<lparr> reductions_number = 0, reduction_rules = [4] \<rparr>, \<lparr> reductions_number = 3, reduction_rules = [3] \<rparr>] \<rparr>"

lemma sample_machine: "generate_states sample_grammar (set_derives sample_grammar) = Some sample_machine"
  by code_simp

lemma sample_nullable: "set_nullable sample_grammar = Some [False, False, False, False, False, True]"
  by code_simp

section \<open>Reachability and closures\<close>

text \<open>\<open>reflexive_transitive_closure\<close> turns any square matrix of bits, in place and row by row, into the matrix of the reflexive and
  transitive closure of its relation; the order in which Warshall's loops change the rows that they still read does not matter.\<close>

theorem jay_transitive_closure:
  assumes "matrix_ok n w R" and "n \<le> 32 * w"
  shows "matrix_ok n w (reflexive_transitive_closure R n) \<and>
    relation (reflexive_transitive_closure R n) = (relation R)\<^sup>+ \<union> {(a, a) | a. a < n}"
  using reflexive_transitive_closure_rtrancl [OF assms] by blast

theorem jay_transitive_closure_witness:
  "relation (reflexive_transitive_closure [[2], [4], [0]] 3) = (relation [[2], [4], [0]])\<^sup>+ \<union> {(a, a) | a. a < 3} \<and>
   reflexive_transitive_closure [[2], [4], [0]] 3 = [[7], [6], [4]]"
proof -
  have "matrix_ok 3 1 [[2], [4], [0]]" "(3 :: nat) \<le> 32 * 1" by (simp_all add: matrix_ok_def)
  moreover have "reflexive_transitive_closure [[2], [4], [0]] 3 = [[7], [6], [4]]" by code_simp
  ultimately show ?thesis using jay_transitive_closure [of 3 1 "[[2], [4], [0]]"] by blast
qed

text \<open>C40. The item sets of \<open>closure\<close>: for the sorted items of a kernel the result is sorted, has no item twice, and holds exactly the LR(0)
  closure, that is the kernel and the starts of the rules of every variable that follows a dot.\<close>

theorem jay_closure_items:
  assumes "grammar_ok g" and "set nucleus \<subseteq> {0<..<nitems g}" and "sorted_wrt (<) nucleus"
  shows "set (closure g (set_first_derives g (set_derives g)) nucleus) = lr0_closure g (set nucleus) \<and>
    sorted_wrt (<) (closure g (set_first_derives g (set_derives g)) nucleus)"
  using closure_items [OF assms] by blast

theorem jay_closure_items_witness:
  "lr0_closure sample_grammar {1} = {1, 4, 8} \<and>
   closure sample_grammar (set_first_derives sample_grammar (set_derives sample_grammar)) [1] = [1, 4, 8]"
proof -
  have "closure sample_grammar (set_first_derives sample_grammar (set_derives sample_grammar)) [1] = [1, 4, 8]" by code_simp
  moreover have "set [1] \<subseteq> {0<..<nitems sample_grammar}" "sorted_wrt (<) [1 :: nat]" by (simp_all add: sample_grammar_def)
  ultimately show ?thesis using jay_closure_items [OF sample_grammar_ok, of "[1]"] by simp
qed

text \<open>The repeated passes of \<open>set_nullable\<close> over the items end, without an access outside the arrays, and mark exactly the symbols that
  derive the empty string.\<close>

theorem jay_nullable:
  assumes "grammar_ok g"
  shows "\<exists>nullable. set_nullable g = Some nullable \<and> length nullable = nsyms g \<and> (\<forall>X < nsyms g. nullable ! X \<longleftrightarrow> derives_empty g X)"
  using set_nullable_correct [OF assms] .

theorem jay_nullable_witness:
  "derives_empty sample_grammar 5 \<and> \<not> derives_empty sample_grammar 4 \<and> set_nullable sample_grammar = Some [False, False, False, False, False, True]"
proof -
  have *: "set_nullable sample_grammar = Some [False, False, False, False, False, True]" by code_simp
  then have "[False, False, False, False, False, True] ! X \<longleftrightarrow> derives_empty sample_grammar X" if "X < 6" for X
    using jay_nullable [OF sample_grammar_ok] that by (auto simp: sample_grammar_def)
  from this [of 5] this [of 4] have "derives_empty sample_grammar 5" "\<not> derives_empty sample_grammar 4" by simp_all
  then show ?thesis using * by blast
qed

section \<open>The LR(0) machine\<close>

text \<open>C33. \<open>generate_states\<close> builds the LR(0) automaton: the kernels of its states are exactly those reachable by the goto function, each once, the
  shifts of each state are sorted by symbol and lead to the right states, and its reductions are the complete items. It gives up (\<open>too many
  states\<close>) only for a grammar with more than \<open>MAXSHORT\<close> kernels.\<close>

theorem jay_lr0_machine:
  assumes "grammar_ok g"
  shows "case generate_states g (set_derives g) of None \<Rightarrow> MAXSHORT < card (lr0_kernels g)
    | Some st \<Rightarrow> lr0_automaton g st \<and> card (lr0_kernels g) \<le> MAXSHORT"
  using generate_states_lr0 [OF assms] .

theorem jay_lr0_machine_witness:
  "generate_states sample_grammar (set_derives sample_grammar) = Some sample_machine \<and> lr0_automaton sample_grammar sample_machine"
  using jay_lr0_machine [OF sample_grammar_ok] by (simp add: sample_machine)

section \<open>Strongly connected components\<close>

text \<open>C39. \<open>digraph\<close> returns for any relation whose nodes fit the \<open>short\<close>s of its index, cyclic ones included, and leaves in the row of
  every node the join of the rows of all nodes that can be reached from it.\<close>

theorem jay_digraph:
  assumes "length R = n" and "length F = n" and "\<And>v u. v < n \<Longrightarrow> u \<in> set (R ! v) \<Longrightarrow> u < n"
    and "\<And>v. v < n \<Longrightarrow> length (F ! v) = m" and "n + 2 \<le> MAXSHORT"
  shows "\<exists>F'. digraph n R F = Some F' \<and> length F' = n \<and> (\<forall>v < n. length (F' ! v) = m \<and> members (F' ! v) = reach_union R F v)"
proof -
  obtain F' where "digraph n R F = Some F'" "length F' = n"
    "\<And>v. v < n \<Longrightarrow> length (F' ! v) = m" "\<And>v. v < n \<Longrightarrow> members (F' ! v) = reach_union R F v"
    by (rule digraph_reach_union [where n = n and R = R and F = F and m = m]) (use assms in blast)+
  then show ?thesis by blast
qed

theorem jay_digraph_witness:
  "\<exists>F'. digraph 4 [[1], [2, 3], [0], []] [[1], [2], [4], [8]] = Some F' \<and>
     members (F' ! 0) = reach_union [[1], [2, 3], [0], []] [[1], [2], [4], [8]] 0 \<and> F' = [[15], [15], [15], [8]]"
proof -
  have "digraph 4 [[1], [2, 3], [0], []] [[1], [2], [4], [8]] = Some [[15], [15], [15], [8]]" by code_simp
  moreover have "\<exists>F'. digraph 4 [[1], [2, 3], [0], []] [[1], [2], [4], [8]] = Some F' \<and> length F' = 4 \<and>
      (\<forall>v < 4. length (F' ! v) = 1 \<and> members (F' ! v) = reach_union [[1], [2, 3], [0], []] [[1], [2], [4], [8]] v)"
  proof (rule jay_digraph)
    have v: "v = 0 \<or> v = 1 \<or> v = 2 \<or> v = 3" if "v < 4" for v :: nat using that by auto
    show "u < 4" if "v < 4" "u \<in> set ([[1], [2, 3], [0], []] ! v)" for v u :: nat using v [OF that(1)] that(2) by auto
    show "length ([[1], [2], [4], [8]] ! v) = 1" if "v < 4" for v using v [OF that] by auto
  qed (simp_all add: MAXSHORT_def)
  ultimately show ?thesis by (metis option.inject zero_less_numeral)
qed

section \<open>Lookaheads\<close>

text \<open>C34. For a grammar whose LR(0) automaton fits the tables of \<open>lalr.c\<close> the whole phase returns: every reduction of every state has a row in \<open>LA\<close> that
  holds exactly its lookaheads, those that can follow the left-hand side in some state from which the rule leads here. The lookaheads are given by
  the rules of \<open>can_read\<close> and \<open>can_follow\<close> on the automaton, the code computes them through numbers of gotos, two relations, a transposition and two
  searches for strongly connected components.\<close>

theorem jay_lookaheads:
  assumes "grammar_ok g" and "generate_states g (set_derives g) = Some st" and "set_nullable g = Some nullable" and "lalr_fits g nullable st"
  shows "\<exists>t. lalr g nullable (set_derives g) st = Some t \<and> lalr_ok g st t"
proof -
  have "lr0_automaton g st" using generate_states_lr0 [OF assms(1)] assms(2) by simp
  moreover have "\<And>X. X < nsyms g \<Longrightarrow> nullable ! X \<longleftrightarrow> derives_empty g X" using set_nullable_correct [OF assms(1)] assms(3) by simp
  ultimately show ?thesis using lalr_result [OF assms(1) _ _ assms(4)] by metis
qed

lemma sample_fits: "lalr_fits sample_grammar [False, False, False, False, False, True] sample_machine"
proof -
  have "map fst (goto_pairs sample_grammar (set_accessing_symbol (cores sample_machine)) (shift_list sample_machine)) = [5]"
    "initialize_LA (set_reduction_table (length (cores sample_machine)) (reduction_list sample_machine)) = ([0, 1, 1, 1, 2], [4, 3])"
    "include_count sample_grammar [False, False, False, False, False, True] (set_derives sample_grammar ! 5) = 0" by code_simp+
  then show ?thesis by (simp add: lalr_fits_def MAXSHORT_def)
qed

theorem jay_lookaheads_witness:
  "\<exists>t. lalr sample_grammar [False, False, False, False, False, True] (set_derives sample_grammar) sample_machine = Some t \<and>
     lalr_ok sample_grammar sample_machine t \<and> LAruleno t = [4, 3] \<and> LA t = [[5], [5]]"
proof -
  have "map_option (\<lambda>t. (LAruleno t, LA t)) (lalr sample_grammar [False, False, False, False, False, True] (set_derives sample_grammar) sample_machine) =
    Some ([4, 3], [[5], [5]])" by code_simp
  then show ?thesis using jay_lookaheads [OF sample_grammar_ok sample_machine sample_nullable sample_fits] by auto
qed

definition overflow_grammar :: grammar where
  "overflow_grammar =
     \<lparr> nitems = 22, nrules = 12, nsyms = 10, ntokens = 3, nvars = 7, start_symbol = 3,
       symbol_value = [0, 256, 98, -1, 0, 1, 2, 3, 4, 5], symbol_prec = replicate 10 0, symbol_assoc = replicate 10 TOKEN,
       ritem = [-1, 4, 0, -2, 5, 6, -3, 5, 7, -4, 5, 8, -5, 5, 9, -6, 2, -7, -8, -9, -10, -11],
       rlhs = [0, 0, 3, 4, 4, 4, 4, 5, 6, 7, 8, 9], rrhs = [0, 0, 1, 4, 7, 10, 13, 16, 18, 19, 20, 21, 22],
       rprec = replicate 12 0, rassoc = replicate 12 TOKEN \<rparr>"

text \<open>C38. The array \<open>edge\<close> of \<open>build_relations\<close> has one entry more than there are gotos, but a goto can have more edges: for the grammar
  \<open>A : B C1 | B C2 | B C3 | B C4; B : 'b'; Ci : ;\<close> there are six gotos and that of \<open>A\<close> in the first state has eight edges, so the code writes outside
  the array.\<close>

theorem jay_includes_overflow:
  "grammar_ok overflow_grammar \<and>
   (\<exists>st nullable gt. generate_states overflow_grammar (set_derives overflow_grammar) = Some st \<and> set_nullable overflow_grammar = Some nullable \<and>
      set_goto_map overflow_grammar (set_accessing_symbol (cores st)) (shift_list st) = Some gt \<and> length (from_state gt) = 6 \<and>
      include_count overflow_grammar nullable (set_derives overflow_grammar ! 4) = 8 \<and>
      lalr overflow_grammar nullable (set_derives overflow_grammar) st = None)"
proof
  show "grammar_ok overflow_grammar" by code_simp
  have "(case generate_states overflow_grammar (set_derives overflow_grammar) of None \<Rightarrow> False | Some st \<Rightarrow>
      case set_nullable overflow_grammar of None \<Rightarrow> False | Some nullable \<Rightarrow>
      case set_goto_map overflow_grammar (set_accessing_symbol (cores st)) (shift_list st) of None \<Rightarrow> False | Some gt \<Rightarrow>
      length (from_state gt) = 6 \<and> include_count overflow_grammar nullable (set_derives overflow_grammar ! 4) = 8 \<and>
      map_option LA (lalr overflow_grammar nullable (set_derives overflow_grammar) st) = None)" by code_simp
  then show "\<exists>st nullable gt. generate_states overflow_grammar (set_derives overflow_grammar) = Some st \<and> set_nullable overflow_grammar = Some nullable \<and>
      set_goto_map overflow_grammar (set_accessing_symbol (cores st)) (shift_list st) = Some gt \<and> length (from_state gt) = 6 \<and>
      include_count overflow_grammar nullable (set_derives overflow_grammar ! 4) = 8 \<and>
      lalr overflow_grammar nullable (set_derives overflow_grammar) st = None" by (auto split: option.splits)
qed

section \<open>The actions of the parser\<close>

text \<open>The automaton and the lookaheads as the later phases find them.\<close>

lemma lalr_phases:
  assumes "grammar_ok g" and "generate_states g (set_derives g) = Some st" and "set_nullable g = Some nullable" and "lalr_fits g nullable st"
    and "lalr g nullable (set_derives g) st = Some t"
  shows "lr0_automaton g st" "lalr_ok g st t"
proof -
  show st: "lr0_automaton g st" using generate_states_lr0 [OF assms(1)] assms(2) by simp
  have "\<And>X. X < nsyms g \<Longrightarrow> nullable ! X \<longleftrightarrow> derives_empty g X" using set_nullable_correct [OF assms(1)] assms(3) by simp
  then obtain t' where "lalr g nullable (set_derives g) st = Some t'" "lalr_ok g st t'" using lalr_result [OF assms(1) st _ assms(4)] by metis
  then show "lalr_ok g st t" using assms(5) by simp
qed

definition sample_tables :: lalr_tables where
  "sample_tables =
     \<lparr> accessing_symbol = [0, 5, 2, 3],
       shift_table = [Some \<lparr> shifts_number = 0, shift = [1] \<rparr>, Some \<lparr> shifts_number = 1, shift = [2] \<rparr>, Some \<lparr> shifts_number = 2, shift = [3] \<rparr>, None],
       reduction_table = [Some \<lparr> reductions_number = 0, reduction_rules = [4] \<rparr>, None, None, Some \<lparr> reductions_number = 3, reduction_rules = [3] \<rparr>],
       lookaheads = [0, 1, 1, 1, 2], LAruleno = [4, 3], LA = [[5], [5]],
       gotos = \<lparr> goto_map = [0, 0, 1], from_state = [0], to_state = [1] \<rparr> \<rparr>"

lemma sample_tables:
  "lalr sample_grammar [False, False, False, False, False, True] (set_derives sample_grammar) sample_machine = Some sample_tables"
  by code_simp

definition sample_parser :: parser_tables where
  "sample_parser =
     \<lparr> parser =
         [[\<lparr> symbol = 0, number = 4, prec = 0, action_code = REDUCE, assoc = TOKEN, suppressed = 0 \<rparr>,
           \<lparr> symbol = 2, number = 4, prec = 0, action_code = REDUCE, assoc = TOKEN, suppressed = 0 \<rparr>],
          [\<lparr> symbol = 2, number = 2, prec = 0, action_code = SHIFT, assoc = TOKEN, suppressed = 0 \<rparr>],
          [\<lparr> symbol = 3, number = 3, prec = 0, action_code = SHIFT, assoc = TOKEN, suppressed = 0 \<rparr>],
          [\<lparr> symbol = 0, number = 3, prec = 0, action_code = REDUCE, assoc = TOKEN, suppressed = 0 \<rparr>,
           \<lparr> symbol = 2, number = 3, prec = 0, action_code = REDUCE, assoc = TOKEN, suppressed = 0 \<rparr>]],
       conflicts = \<lparr> SRconflicts = [0, 0, 0, 0], RRconflicts = [0, 0, 0, 0], SRtotal = 0, RRtotal = 0 \<rparr>,
       rules_used = [False, False, False, True, True], nunused = 0, defred = [4, 0, 0, 3], final_state = 1 \<rparr>"

lemma sample_parser: "make_parser sample_grammar sample_tables (length (cores sample_machine)) = Some sample_parser"
  by code_simp

lemma vectors_fit_code [code]:
  "vectors_fit nvectors vs \<longleftrightarrow>
     (let total = sum_list (map ((!) (tally vs)) [0..<nvectors]) in
      int total < 1000 \<and>
      list_all (\<lambda>i. list_all (\<lambda>f. int (total + total * tally vs ! i + nvectors + 1) + f < 32500) (froms vs ! i)) [0..<nvectors])"
  by (auto simp: vectors_fit_def Let_def MAXTABLE_def list_all_iff)

lemma row_entries_code [code]:
  "row_entries g actionrow offset subtracted =
     fold (\<lambda>j (mn, mx, r, s). if actionrow ! (offset + j) \<noteq> 0
         then let v = symbol_value g ! j in
           (if v < mn then v else mn, if mx < v then v else mx, r @ [v], s @ [int (actionrow ! (offset + j)) - subtracted])
         else (mn, mx, r, s))
       [0..<ntokens g] (32767, 0, [], [])"
  by (simp add: row_entries_def MAXSHORT_def)

text \<open>C35. \<open>make_parser\<close> returns, with the final state behind the goal, and has in every state exactly the shifts and reductions of the automaton
  with its lookaheads, each once. What is left of them for a token is what \<open>settled\<close> says: without a shift the reduction by the first rule;
  with one, by the precedences and the associativity of the token, the reduction by the first rule that wins over the shift, or nothing if there is
  none but one with which neither wins, or the shift; at the end of the input in the final state the shift. A rule is the default reduction of a
  state just if all that is left there are reductions by it.\<close>

theorem jay_parser_actions:
  assumes "grammar_ok g" and "generate_states g (set_derives g) = Some st" and "set_nullable g = Some nullable" and "lalr_fits g nullable st"
    and "lalr g nullable (set_derives g) st = Some t"
  shows "\<exists>P. make_parser g t (length (cores st)) = Some P \<and> length (parser P) = length (cores st) \<and>
    moves g (cores st) 0 (start_symbol g + 1) (final_state P) \<and> (\<forall>q < length (cores st). parser_state_ok g (cores st) P q)"
proof -
  have st: "lr0_automaton g st" "lalr_ok g st t" by (rule lalr_phases [OF assms])+
  show ?thesis by (rule make_parser_result [OF assms(1) st]) blast
qed

text \<open>Sums, with a left associative sign: after a sum and before a sign the reduction wins over the shift.\<close>

definition sum_grammar :: grammar where
  "sum_grammar =
     \<lparr> nitems = 10, nrules = 5, nsyms = 6, ntokens = 4, nvars = 2, start_symbol = 4,
       symbol_value = [0, 256, 43, 110, -1, 0], symbol_prec = [0, 0, 1, 0, 0, 0], symbol_assoc = [TOKEN, TOKEN, LEFT, TOKEN, TOKEN, TOKEN],
       ritem = [-1, 5, 0, -2, 5, 2, 5, -3, 3, -4], rlhs = [0, 0, 4, 5, 5], rrhs = [0, 0, 1, 4, 8, 10],
       rprec = [0, 0, 0, 1, 0], rassoc = [TOKEN, TOKEN, TOKEN, LEFT, TOKEN] \<rparr>"

definition sum_machine :: lr0_machine where
  "sum_machine =
     \<lparr> cores = [\<lparr> core_number = 0, core_symbol = 0, core_items = [1] \<rparr>, \<lparr> core_number = 1, core_symbol = 3, core_items = [9] \<rparr>,
         \<lparr> core_number = 2, core_symbol = 5, core_items = [2, 5] \<rparr>, \<lparr> core_number = 3, core_symbol = 2, core_items = [6] \<rparr>,
         \<lparr> core_number = 4, core_symbol = 5, core_items = [5, 7] \<rparr>],
       state_set = [[], [], [2], [], [], [4], [3], [], [], [1]], this_state = 5,
       shift_list = [\<lparr> shifts_number = 0, shift = [1, 2] \<rparr>, \<lparr> shifts_number = 2, shift = [3] \<rparr>, \<lparr> shifts_number = 3, shift = [1, 4] \<rparr>,
         \<lparr> shifts_number = 4, shift = [3] \<rparr>],
       reduction_list = [\<lparr> reductions_number = 1, reduction_rules = [4] \<rparr>, \<lparr> reductions_number = 4, reduction_rules = [3] \<rparr>] \<rparr>"

definition sum_tables :: lalr_tables where
  "sum_tables =
     \<lparr> accessing_symbol = [0, 3, 5, 2, 5],
       shift_table = [Some \<lparr> shifts_number = 0, shift = [1, 2] \<rparr>, None, Some \<lparr> shifts_number = 2, shift = [3] \<rparr>,
         Some \<lparr> shifts_number = 3, shift = [1, 4] \<rparr>, Some \<lparr> shifts_number = 4, shift = [3] \<rparr>],
       reduction_table = [None, Some \<lparr> reductions_number = 1, reduction_rules = [4] \<rparr>, None, None,
         Some \<lparr> reductions_number = 4, reduction_rules = [3] \<rparr>],
       lookaheads = [0, 0, 1, 1, 1, 2], LAruleno = [4, 3], LA = [[5], [5]],
       gotos = \<lparr> goto_map = [0, 0, 2], from_state = [0, 3], to_state = [2, 4] \<rparr> \<rparr>"

lemma sum_grammar_ok: "grammar_ok sum_grammar"
  by code_simp

lemma sum_machine: "generate_states sum_grammar (set_derives sum_grammar) = Some sum_machine"
  by code_simp

lemma sum_nullable: "set_nullable sum_grammar = Some (replicate 6 False)"
  by code_simp

lemma sum_fits: "lalr_fits sum_grammar (replicate 6 False) sum_machine"
proof -
  have "map fst (goto_pairs sum_grammar (set_accessing_symbol (cores sum_machine)) (shift_list sum_machine)) = [5, 5]"
    "initialize_LA (set_reduction_table (length (cores sum_machine)) (reduction_list sum_machine)) = ([0, 0, 1, 1, 1, 2], [4, 3])"
    "include_count sum_grammar (replicate 6 False) (set_derives sum_grammar ! 5) = 1" by code_simp+
  then show ?thesis by (simp add: lalr_fits_def MAXSHORT_def)
qed

lemma sum_tables: "lalr sum_grammar (replicate 6 False) (set_derives sum_grammar) sum_machine = Some sum_tables"
  by code_simp

theorem jay_parser_actions_witness:
  "\<exists>P. make_parser sum_grammar sum_tables 5 = Some P \<and> parser_state_ok sum_grammar (cores sum_machine) P 4 \<and>
     {(SHIFT, 2, 3), (REDUCE, 2, 3)} \<subseteq> state_actions sum_grammar (cores sum_machine) 4 \<and>
     {action_key a | a. a \<in> set (parser P ! 4) \<and> symbol a = 2 \<and> suppressed a = 0} = {(REDUCE, 2, 3)} \<and> defred P ! 4 = 3"
proof -
  have n: "length (cores sum_machine) = 5" by (simp add: sum_machine_def)
  then obtain P where P: "make_parser sum_grammar sum_tables 5 = Some P" "parser_state_ok sum_grammar (cores sum_machine) P 4"
    using jay_parser_actions [OF sum_grammar_ok sum_machine sum_nullable sum_fits sum_tables] by auto
  have "map_option (\<lambda>P. (map action_key (parser P ! 4), final_state P, defred P ! 4)) (make_parser sum_grammar sum_tables 5) =
      Some ([(REDUCE, 0, 3), (SHIFT, 2, 3), (REDUCE, 2, 3)], 2, 3)" by code_simp
  then have run: "map action_key (parser P ! 4) = [(REDUCE, 0, 3), (SHIFT, 2, 3), (REDUCE, 2, 3)]" "final_state P = 2" "defred P ! 4 = 3"
    using P(1) by simp_all
  from P(2) have ok: "set (map action_key (parser P ! 4)) = state_actions sum_grammar (cores sum_machine) 4"
    "\<forall>X. {action_key a | a. a \<in> set (parser P ! 4) \<and> symbol a = X \<and> suppressed a = 0} =
      settled sum_grammar (4 = final_state P) (state_actions sum_grammar (cores sum_machine) 4) X"
    unfolding parser_state_ok_def Let_def by - (elim conjE, assumption)+
  have actions: "state_actions sum_grammar (cores sum_machine) 4 = {(REDUCE, 0, 3), (SHIFT, 2, 3), (REDUCE, 2, 3)}"
    using ok(1) unfolding run(1) by simp
  have "settled sum_grammar False {(REDUCE, 0, 3), (SHIFT, 2, 3), (REDUCE, 2, 3)} 2 = {(REDUCE, 2, 3)}"
    by (simp add: settled_def sum_grammar_def reduce_wins_def cong: conj_cong)
  moreover have "{action_key a | a. a \<in> set (parser P ! 4) \<and> symbol a = 2 \<and> suppressed a = 0} =
      settled sum_grammar False {(REDUCE, 0, 3), (SHIFT, 2, 3), (REDUCE, 2, 3)} 2"
    using spec [OF ok(2), of 2] unfolding run(2) actions by simp
  ultimately show ?thesis using P run(3) unfolding actions by (intro exI [of _ P]) simp
qed

section \<open>The printed tables\<close>

text \<open>C37. Packing returns for every collection of vectors with few enough entries, and all of them share the two arrays without harm: a lookup with
  the base of a vector, as the skeleton does it, finds for each value the entry of that vector, and nothing for a value that the vector does not
  have, however the entries of the others lie between.\<close>

theorem jay_pack_table:
  assumes "vectors_ok nvectors vs" and "vectors_fit nvectors vs"
  shows "\<exists>ps. pack_table vs (sort_actions vs nvectors) nstates nvectors = Some ps \<and>
    (\<forall>i < nvectors. \<forall>v \<ge> 0. table_lookup (output_table ps) (output_check ps) (base ps ! i) v = map_of (zip (froms vs ! i) (tos vs ! i)) v)"
  using pack_table_result [OF assms, of nstates] by blast

definition sample_vectors :: vectors where
  "sample_vectors = \<lparr> froms = [[40, 41], [41], [40, 41], []], tos = [[1, 2], [5], [1, 2], []], tally = [2, 1, 2, 0], width = [2, 1, 2, 0] \<rparr>"

theorem jay_pack_table_witness:
  "\<exists>ps. pack_table sample_vectors (sort_actions sample_vectors 4) 2 4 = Some ps \<and>
     table_lookup (output_table ps) (output_check ps) (base ps ! 0) 41 = Some 2 \<and>
     table_lookup (output_table ps) (output_check ps) (base ps ! 1) 41 = Some 5 \<and>
     table_lookup (output_table ps) (output_check ps) (base ps ! 1) 40 = None"
proof -
  have "vectors_ok 4 sample_vectors" "vectors_fit 4 sample_vectors" by code_simp+
  then obtain ps where ps: "pack_table sample_vectors (sort_actions sample_vectors 4) 2 4 = Some ps"
    "\<forall>i < 4. \<forall>v \<ge> 0. table_lookup (output_table ps) (output_check ps) (base ps ! i) v =
       map_of (zip (froms sample_vectors ! i) (tos sample_vectors ! i)) v"
    using jay_pack_table [of 4 sample_vectors 2] by blast
  then show ?thesis by (intro exI [of _ ps]) (simp add: sample_vectors_def)
qed

text \<open>C36. The tables that \<open>output_actions\<close> prints are the parser: in every state the skeleton finds for each token the shift that is left, or the
  reduction that is left and is not the default one, and for each variable the state to go to, be it in \<open>yyTable\<close> or the default in \<open>yyDgoto\<close>; for the number of a reduction it finds
  the left-hand side and the length of its rule, and for a state in \<open>yyDefRed\<close> the number of its default reduction, or zero.\<close>

theorem jay_output_tables:
  assumes "grammar_ok g" and "generate_states g (set_derives g) = Some st" and "set_nullable g = Some nullable" and "lalr_fits g nullable st"
    and "lalr g nullable (set_derives g) st = Some t" and "make_parser g t (length (cores st)) = Some P"
    and "values_ok g" and "output_fits g t P (length (cores st))"
  shows "\<exists>T. output_actions g t P (length (cores st)) = Some T \<and> tables_ok g (cores st) P T \<and>
    (\<forall>r. 3 \<le> r \<and> r < nrules g \<longrightarrow>
       fst (output_rule_data g) ! (r - 2) = symbol_value g ! (rlhs g ! r) \<and> snd (output_rule_data g) ! (r - 2) = int (length (rhs g r))) \<and>
    (\<forall>q < length (cores st). output_yydefred P (length (cores st)) ! q = (if defred P ! q = 0 then 0 else int (defred P ! q) - 2))"
proof -
  have st: "lr0_automaton g st" "lalr_ok g st t" by (rule lalr_phases [OF assms(1-5)])+
  have "cores_ok g (cores st)" "goto_tables_ok g (cores st) (gotos t)" using st unfolding lr0_automaton_def lalr_ok_def by iprover+
  moreover have "\<And>q. q < length (cores st) \<Longrightarrow> parser_state_ok g (cores st) P q"
    by (rule make_parser_result [OF assms(1) st]) (use assms(6) in auto)
  ultimately obtain T where "output_actions g t P (length (cores st)) = Some T" "tables_ok g (cores st) P T"
    by (rule output_actions_result [OF assms(1,7) _ _ _ assms(8)])
  moreover have "output_yydefred P n ! q = (if defred P ! q = 0 then 0 else int (defred P ! q) - 2)" if "q < n" for n q
    using that by (cases q) (simp_all add: output_yydefred_def)
  ultimately show ?thesis using output_rule_data_result [OF assms(1)] by blast
qed

theorem jay_output_tables_witness:
  "\<exists>T. output_actions sample_grammar sample_tables sample_parser 4 = Some T \<and>
     shift_lookup T 1 43 = Some 2 \<and> shift_lookup T 1 110 = None \<and> reduce_lookup T 3 43 = None"
proof -
  have "output_fits sample_grammar sample_tables sample_parser (length (cores sample_machine))" "values_ok sample_grammar" by code_simp+
  moreover have n: "length (cores sample_machine) = 4" by (simp add: sample_machine_def)
  ultimately obtain T where T: "output_actions sample_grammar sample_tables sample_parser 4 = Some T"
      "tables_ok sample_grammar (cores sample_machine) sample_parser T"
    using jay_output_tables [OF sample_grammar_ok sample_machine sample_nullable sample_fits sample_tables sample_parser] by metis
  have look: "shift_lookup T q (symbol_value sample_grammar ! X) = Some v \<longleftrightarrow>
        (\<exists>a \<in> set (parser sample_parser ! q). is_shift a \<and> symbol a = X \<and> v = int (number a))"
      "reduce_lookup T q (symbol_value sample_grammar ! X) = Some v \<longleftrightarrow>
        (\<exists>a \<in> set (parser sample_parser ! q). is_reduce (defred sample_parser ! q) a \<and> symbol a = X \<and> v = int (number a) - 2)"
    if "q < 4" "X < 4" for q X v
    using T(2) that n by (simp_all add: tables_ok_def sample_grammar_def)
  have "shift_lookup T 1 43 = Some 2" using look(1) [of 1 2 2] by (simp add: sample_grammar_def sample_parser_def is_shift_def)
  moreover have "shift_lookup T 1 110 \<noteq> Some v" for v using look(1) [of 1 3 v] by (simp add: sample_grammar_def sample_parser_def is_shift_def)
  moreover have "reduce_lookup T 3 43 \<noteq> Some v" for v using look(2) [of 3 2 v] by (simp add: sample_grammar_def sample_parser_def is_reduce_def)
  ultimately show ?thesis using T(1) by (metis not_Some_eq)
qed

end
