(* ===== verification/Server_Types.thy ===== *)
theory Server_Types
  imports Prelude
begin

text \<open>
  The data types of \<open>server.h\<close>, \<open>breakpoints.h\<close> and \<open>x86-arch.h\<close> that the server's
  components exchange: command results, status messages, stop actions, the register
  numbering of the debugger's register array and the description of the Mono runtime in
  the target.
\<close>

section \<open>Results and messages\<close>

datatype ServerCommandError =
    COMMAND_ERROR_NONE
  | COMMAND_ERROR_UNKNOWN_ERROR
  | COMMAND_ERROR_INTERNAL_ERROR
  | COMMAND_ERROR_NO_TARGET
  | COMMAND_ERROR_ALREADY_HAVE_TARGET
  | COMMAND_ERROR_CANNOT_START_TARGET
  | COMMAND_ERROR_NOT_STOPPED
  | COMMAND_ERROR_ALREADY_STOPPED
  | COMMAND_ERROR_RECURSIVE_CALL
  | COMMAND_ERROR_NO_SUCH_BREAKPOINT
  | COMMAND_ERROR_NO_SUCH_REGISTER
  | COMMAND_ERROR_DR_OCCUPIED
  | COMMAND_ERROR_MEMORY_ACCESS
  | COMMAND_ERROR_NOT_IMPLEMENTED
  | COMMAND_ERROR_IO_ERROR
  | COMMAND_ERROR_NO_CALLBACK_FRAME
  | COMMAND_ERROR_PERMISSION_DENIED

datatype ServerStatusMessageType =
    MESSAGE_NONE
  | MESSAGE_UNKNOWN_ERROR
  | MESSAGE_CHILD_EXITED
  | MESSAGE_CHILD_STOPPED
  | MESSAGE_CHILD_SIGNALED
  | MESSAGE_CHILD_CALLBACK
  | MESSAGE_CHILD_CALLBACK_COMPLETED
  | MESSAGE_CHILD_HIT_BREAKPOINT
  | MESSAGE_CHILD_MEMORY_CHANGED
  | MESSAGE_CHILD_CREATED_THREAD
  | MESSAGE_CHILD_FORKED
  | MESSAGE_CHILD_EXECD
  | MESSAGE_CHILD_CALLED_EXIT
  | MESSAGE_CHILD_NOTIFICATION
  | MESSAGE_CHILD_INTERRUPTED
  | MESSAGE_RUNTIME_INVOKE_DONE
  | MESSAGE_INTERNAL_ERROR

datatype ChildStoppedAction =
    STOP_ACTION_STOPPED
  | STOP_ACTION_INTERRUPTED
  | STOP_ACTION_BREAKPOINT_HIT
  | STOP_ACTION_CALLBACK
  | STOP_ACTION_CALLBACK_COMPLETED
  | STOP_ACTION_NOTIFICATION
  | STOP_ACTION_RTI_DONE
  | STOP_ACTION_INTERNAL_ERROR

datatype ServerType =
    SERVER_TYPE_UNKNOWN
  | SERVER_TYPE_LINUX_PTRACE
  | SERVER_TYPE_DARWIN
  | SERVER_TYPE_WIN32

text \<open>\<open>ServerCapabilities\<close> is a set of flags, kept as the C integer it is.\<close>

abbreviation SERVER_CAPABILITIES_THREAD_EVENTS :: guint32 where
  "SERVER_CAPABILITIES_THREAD_EVENTS \<equiv> 1"

abbreviation SERVER_CAPABILITIES_CAN_DETACH_ANY :: guint32 where
  "SERVER_CAPABILITIES_CAN_DETACH_ANY \<equiv> 2"

section \<open>Breakpoints\<close>

datatype HardwareBreakpointType =
    HARDWARE_BREAKPOINT_NONE
  | HARDWARE_BREAKPOINT_EXECUTE
  | HARDWARE_BREAKPOINT_READ
  | HARDWARE_BREAKPOINT_WRITE

record BreakpointInfo =
  bp_type :: HardwareBreakpointType
  bp_id :: gint
  refcount :: gint
  enabled :: bool
  is_hardware_bpt :: bool
  dr_index :: gint
  saved_insn :: guint8
  runtime_table_slot :: gint
  bp_address :: guint64

text \<open>What \<open>g_new0 (BreakpointInfo, 1)\<close> returns: every byte of the struct is zero.\<close>

definition BreakpointInfo_zero :: BreakpointInfo where
  "BreakpointInfo_zero =
     \<lparr> bp_type = HARDWARE_BREAKPOINT_NONE, bp_id = 0, refcount = 0, enabled = False,
       is_hardware_bpt = False, dr_index = 0, saved_insn = 0, runtime_table_slot = 0,
       bp_address = 0 \<rparr>"

section \<open>Registers as the debugger numbers them\<close>

datatype DebuggerX86Registers =
    DEBUGGER_REG_RAX | DEBUGGER_REG_RCX | DEBUGGER_REG_RDX | DEBUGGER_REG_RBX
  | DEBUGGER_REG_RSP | DEBUGGER_REG_RBP | DEBUGGER_REG_RSI | DEBUGGER_REG_RDI
  | DEBUGGER_REG_R8 | DEBUGGER_REG_R9 | DEBUGGER_REG_R10 | DEBUGGER_REG_R11
  | DEBUGGER_REG_R12 | DEBUGGER_REG_R13 | DEBUGGER_REG_R14 | DEBUGGER_REG_R15
  | DEBUGGER_REG_RIP | DEBUGGER_REG_EFLAGS
  | DEBUGGER_REG_ORIG_RAX | DEBUGGER_REG_CS | DEBUGGER_REG_SS | DEBUGGER_REG_DS
  | DEBUGGER_REG_ES | DEBUGGER_REG_FS | DEBUGGER_REG_GS
  | DEBUGGER_REG_FS_BASE | DEBUGGER_REG_GS_BASE

text \<open>The array \<open>guint64 *values\<close> that the register calls fill, indexed by that enum.\<close>

type_synonym register_values = "DebuggerX86Registers \<Rightarrow> guint64"

section \<open>The Mono runtime in the target\<close>

definition EXECUTABLE_CODE_CHUNK_SIZE :: guint32 where
  "EXECUTABLE_CODE_CHUNK_SIZE = 16"

record MonoRuntimeInfo =
  address_size :: guint32
  notification_address :: guint64
  executable_code_buffer :: guint64
  executable_code_buffer_size :: guint32
  executable_code_chunk_size :: guint32
  executable_code_total_chunks :: guint32
  breakpoint_info_area :: guint64
  breakpoint_table :: guint64
  breakpoint_table_size :: guint32
  breakpoint_table_bitfield :: "guint8 list"
  executable_code_bitfield :: "guint8 list"
  executable_code_last_slot :: guint32

section \<open>Stack frames, callback frames, signals\<close>

record StackFrame =
  frame_pc :: guint64 \<comment> \<open>the field \<open>address\<close>\<close>
  frame_stack_pointer :: guint64
  frame_address :: guint64

record CallbackInfo =
  ci_callback_argument :: guint64
  ci_call_address :: guint64
  ci_stack_pointer :: guint64
  ci_is_rti_frame :: bool
  ci_is_exact_match :: bool
  ci_saved_registers :: register_values

record SignalInfo =
  sigkill :: gint
  sigstop :: gint
  sigint :: gint
  sigchld :: gint
  sigfpe :: gint
  sigquit :: gint
  sigabrt :: gint
  sigsegv :: gint
  sigill :: gint
  sigbus :: gint
  sigwinch :: gint
  kernel_sigrtmin :: gint
  mono_thread_abort :: gint

end
