(* ===== verification/Breakpoints.thy ===== *)
theory Breakpoints
  imports Server_Types
begin

text \<open>
  The breakpoint manager, \<open>breakpoints.c\<close>. A manager holds pointers to
  \<open>BreakpointInfo\<close> structs in three containers: the array \<open>breakpoints\<close>, a hash table by
  id and a hash table by address. The same struct is shared by the three and is changed
  in place by the manager's clients, so the structs live in an explicit store,
  \<open>bp_heap\<close>, and the containers hold pointers (natural numbers). A GLib hash table
  created with \<open>g_hash_table_new (NULL, NULL)\<close> compares its keys as pointers, that is, as
  words of the target's width \<open>'w\<close>: \<open>GSIZE_TO_POINTER\<close> of an \<open>int\<close> sign-extends, of a
  \<open>guint32\<close> zero-extends and of a \<open>guint64\<close> truncates.

  The manager's state is the first part of the server's state, so every operation is
  written for any extension of the record \<open>bp_store\<close>.
\<close>

section \<open>State\<close>

type_synonym bp_ptr = nat

record bp_store =
  bp_heap :: "bp_ptr \<rightharpoonup> BreakpointInfo"
  bp_next :: bp_ptr \<comment> \<open>the next address the allocator hands out\<close>
  last_breakpoint_id :: gint
  bpm_mutex :: nat \<comment> \<open>depth of the recursive mutex\<close>

record (overloaded) 'w BreakpointManager =
  breakpoints :: "bp_ptr list"
  breakpoint_hash :: "'w word \<rightharpoonup> bp_ptr"
  breakpoint_by_addr :: "'w word \<rightharpoonup> bp_ptr"

text \<open>\<open>g_new0\<close> and \<open>g_memdup\<close> of a \<open>BreakpointInfo\<close>, \<open>g_free\<close>, and a store through a pointer.\<close>

definition bp_alloc :: "BreakpointInfo \<Rightarrow> 'z bp_store_scheme \<Rightarrow> bp_ptr \<times> 'z bp_store_scheme" where
  "bp_alloc b s =
     (bp_next s, s\<lparr> bp_heap := (bp_heap s)(bp_next s \<mapsto> b), bp_next := Suc (bp_next s) \<rparr>)"

definition bp_free :: "bp_ptr \<Rightarrow> 'z bp_store_scheme \<Rightarrow> 'z bp_store_scheme" where
  "bp_free p s = s\<lparr> bp_heap := (bp_heap s)(p := None) \<rparr>"

definition bp_set :: "bp_ptr \<Rightarrow> BreakpointInfo \<Rightarrow> 'z bp_store_scheme \<Rightarrow> 'z bp_store_scheme" where
  "bp_set p b s = s\<lparr> bp_heap := (bp_heap s)(p \<mapsto> b) \<rparr>"

section \<open>Operations\<close>

definition mono_debugger_breakpoint_manager_new :: "'w::len BreakpointManager" where
  "mono_debugger_breakpoint_manager_new =
     \<lparr> breakpoints = [], breakpoint_hash = Map.empty, breakpoint_by_addr = Map.empty \<rparr>"

definition mono_debugger_breakpoint_manager_lock :: "'z bp_store_scheme \<Rightarrow> 'z bp_store_scheme" where
  "mono_debugger_breakpoint_manager_lock s = s\<lparr> bpm_mutex := Suc (bpm_mutex s) \<rparr>"

definition mono_debugger_breakpoint_manager_unlock :: "'z bp_store_scheme \<Rightarrow> 'z bp_store_scheme" where
  "mono_debugger_breakpoint_manager_unlock s = s\<lparr> bpm_mutex := bpm_mutex s - 1 \<rparr>"

definition mono_debugger_breakpoint_manager_insert ::
  "'w::len BreakpointManager \<Rightarrow> bp_ptr \<Rightarrow> 'z bp_store_scheme \<Rightarrow> 'w BreakpointManager option" where
  "mono_debugger_breakpoint_manager_insert bpm p s = do {
     breakpoint \<leftarrow> bp_heap s p;
     Some (bpm\<lparr>
       breakpoints := breakpoints bpm @ [p],
       breakpoint_hash := (breakpoint_hash bpm)(word_of_int (bp_id breakpoint) \<mapsto> p),
       breakpoint_by_addr := (breakpoint_by_addr bpm)(ucast (bp_address breakpoint) \<mapsto> p) \<rparr>)
   }"

definition mono_debugger_breakpoint_manager_lookup ::
  "'w::len BreakpointManager \<Rightarrow> guint64 \<Rightarrow> bp_ptr option" where
  "mono_debugger_breakpoint_manager_lookup bpm addr = breakpoint_by_addr bpm (ucast addr)"

definition mono_debugger_breakpoint_manager_lookup_by_id ::
  "'w::len BreakpointManager \<Rightarrow> guint32 \<Rightarrow> bp_ptr option" where
  "mono_debugger_breakpoint_manager_lookup_by_id bpm idx = breakpoint_hash bpm (ucast idx)"

definition mono_debugger_breakpoint_manager_get_breakpoints ::
  "'w::len BreakpointManager \<Rightarrow> bp_ptr list" where
  "mono_debugger_breakpoint_manager_get_breakpoints bpm = breakpoints bpm"

definition mono_debugger_breakpoint_manager_remove ::
  "'w::len BreakpointManager \<Rightarrow> bp_ptr \<Rightarrow> 'z bp_store_scheme \<Rightarrow>
     ('w BreakpointManager \<times> 'z bp_store_scheme) option" where
  "mono_debugger_breakpoint_manager_remove bpm p s = do {
     breakpoint \<leftarrow> bp_heap s p;
     if mono_debugger_breakpoint_manager_lookup_by_id bpm (word_of_int (bp_id breakpoint)) = None
     then Some (bpm, s)
     else let breakpoint' = breakpoint\<lparr> refcount := refcount breakpoint - 1 \<rparr>; s = bp_set p breakpoint' s in
       if refcount breakpoint' > 0 then Some (bpm, s)
       else Some
         (bpm\<lparr>
            breakpoint_hash := (breakpoint_hash bpm)(word_of_int (bp_id breakpoint') := None),
            breakpoint_by_addr := (breakpoint_by_addr bpm)(ucast (bp_address breakpoint') := None),
            breakpoints := remove_fast p (breakpoints bpm) \<rparr>,
          bp_free p s)
   }"

definition mono_debugger_breakpoint_manager_get_next_id ::
  "'z bp_store_scheme \<Rightarrow> gint \<times> 'z bp_store_scheme" where
  "mono_debugger_breakpoint_manager_get_next_id s =
     (let n = last_breakpoint_id s + 1 in (n, s\<lparr> last_breakpoint_id := n \<rparr>))"

definition mono_debugger_breakpoint_info_get_id :: "BreakpointInfo \<Rightarrow> gint" where
  "mono_debugger_breakpoint_info_get_id info = bp_id info"

definition mono_debugger_breakpoint_info_get_is_enabled :: "BreakpointInfo \<Rightarrow> bool" where
  "mono_debugger_breakpoint_info_get_is_enabled info = enabled info"

text \<open>The loop of \<open>mono_debugger_breakpoint_manager_clone\<close> over the old manager's array.\<close>

fun breakpoint_manager_clone_loop ::
  "bp_ptr list \<Rightarrow> 'w::len BreakpointManager \<Rightarrow> 'z bp_store_scheme \<Rightarrow>
     ('w BreakpointManager \<times> 'z bp_store_scheme) option" where
  "breakpoint_manager_clone_loop [] bpm s = Some (bpm, s)"
| "breakpoint_manager_clone_loop (p # ps) bpm s =
     (case bp_heap s p of
        None \<Rightarrow> None
      | Some old_info \<Rightarrow>
          (case bp_alloc old_info s of (info, s1) \<Rightarrow>
             (case mono_debugger_breakpoint_manager_insert bpm info s1 of
                None \<Rightarrow> None
              | Some bpm1 \<Rightarrow> breakpoint_manager_clone_loop ps bpm1 s1)))"

definition mono_debugger_breakpoint_manager_clone ::
  "'w::len BreakpointManager \<Rightarrow> 'z bp_store_scheme \<Rightarrow>
     ('w BreakpointManager \<times> 'z bp_store_scheme) option" where
  "mono_debugger_breakpoint_manager_clone old s =
     breakpoint_manager_clone_loop (breakpoints old) mono_debugger_breakpoint_manager_new s"

lemmas bpm_op_defs [bpm_defs] =
  mono_debugger_breakpoint_manager_new_def
  mono_debugger_breakpoint_manager_insert_def
  mono_debugger_breakpoint_manager_lookup_def
  mono_debugger_breakpoint_manager_lookup_by_id_def
  mono_debugger_breakpoint_manager_get_breakpoints_def
  mono_debugger_breakpoint_manager_remove_def
  mono_debugger_breakpoint_manager_get_next_id_def

section \<open>Well-formed managers\<close>

text \<open>
  The keys under which a breakpoint is filed. An id is in range when it was handed out by
  \<open>get_next_id\<close> before the \<open>int\<close> counter could overflow; only then do the sign-extending
  insertion and the zero-extending lookup use the same key.
\<close>

definition id_ok :: "gint \<Rightarrow> bool" where
  "id_ok i \<longleftrightarrow> 0 < i \<and> i < 2 ^ 31"

abbreviation id_key :: "BreakpointInfo \<Rightarrow> 'w::len word" where
  "id_key b \<equiv> word_of_int (bp_id b)"

abbreviation addr_key :: "BreakpointInfo \<Rightarrow> 'w::len word" where
  "addr_key b \<equiv> ucast (bp_address b)"

text \<open>
  The hash table by id files exactly the members under their ids; the array has no
  duplicates; every member is a live struct with an id in range.
\<close>

definition bpm_ids_ok :: "'w::len BreakpointManager \<Rightarrow> (bp_ptr \<rightharpoonup> BreakpointInfo) \<Rightarrow> bool" where
  "bpm_ids_ok bpm h \<longleftrightarrow>
     distinct (breakpoints bpm) \<and>
     (\<forall>p \<in> set (breakpoints bpm). \<exists>b. h p = Some b \<and> id_ok (bp_id b)) \<and>
     (\<forall>k p. breakpoint_hash bpm k = Some p \<longleftrightarrow>
        p \<in> set (breakpoints bpm) \<and> (\<exists>b. h p = Some b \<and> id_key b = k))"

text \<open>
  The table by address files only members, each under its own address. In the software
  manager it files all of them (\<open>bpm_addrs_ok\<close>); the manager of the hardware breakpoints
  only keeps the weaker half, since two debug registers may watch one address.
\<close>

definition bpm_addrs_sound :: "'w::len BreakpointManager \<Rightarrow> (bp_ptr \<rightharpoonup> BreakpointInfo) \<Rightarrow> bool" where
  "bpm_addrs_sound bpm h \<longleftrightarrow>
     (\<forall>k p. breakpoint_by_addr bpm k = Some p \<longrightarrow>
        p \<in> set (breakpoints bpm) \<and> (\<exists>b. h p = Some b \<and> addr_key b = k))"

definition bpm_addrs_ok :: "'w::len BreakpointManager \<Rightarrow> (bp_ptr \<rightharpoonup> BreakpointInfo) \<Rightarrow> bool" where
  "bpm_addrs_ok bpm h \<longleftrightarrow>
     bpm_addrs_sound bpm h \<and>
     (\<forall>p \<in> set (breakpoints bpm). \<forall>b. h p = Some b \<longrightarrow> breakpoint_by_addr bpm (addr_key b) = Some p)"

definition bpm_ok :: "'w::len BreakpointManager \<Rightarrow> (bp_ptr \<rightharpoonup> BreakpointInfo) \<Rightarrow> bool" where
  "bpm_ok bpm h \<longleftrightarrow> bpm_ids_ok bpm h \<and> bpm_addrs_ok bpm h"

text \<open>The allocator never hands out a live pointer, and no id is above the counter.\<close>

definition store_ok :: "'z bp_store_scheme \<Rightarrow> bool" where
  "store_ok s \<longleftrightarrow>
     (\<forall>p b. bp_heap s p = Some b \<longrightarrow> p < bp_next s \<and> bp_id b \<le> last_breakpoint_id s) \<and>
     0 \<le> last_breakpoint_id s"

section \<open>Basic facts\<close>

lemma lock_unlock [simp]:
  "mono_debugger_breakpoint_manager_unlock (mono_debugger_breakpoint_manager_lock s) = s"
  by (simp add: mono_debugger_breakpoint_manager_lock_def mono_debugger_breakpoint_manager_unlock_def)

lemma lock_fields [simp, frame_simps]:
  "bp_heap (mono_debugger_breakpoint_manager_lock s) = bp_heap s"
  "bp_next (mono_debugger_breakpoint_manager_lock s) = bp_next s"
  "last_breakpoint_id (mono_debugger_breakpoint_manager_lock s) = last_breakpoint_id s"
  "bp_store.more (mono_debugger_breakpoint_manager_lock s) = bp_store.more s"
  "bpm_mutex (mono_debugger_breakpoint_manager_lock s) = Suc (bpm_mutex s)"
  by (simp_all add: mono_debugger_breakpoint_manager_lock_def)

lemma unlock_fields [simp, frame_simps]:
  "bp_heap (mono_debugger_breakpoint_manager_unlock s) = bp_heap s"
  "bp_next (mono_debugger_breakpoint_manager_unlock s) = bp_next s"
  "last_breakpoint_id (mono_debugger_breakpoint_manager_unlock s) = last_breakpoint_id s"
  "bp_store.more (mono_debugger_breakpoint_manager_unlock s) = bp_store.more s"
  "bpm_mutex (mono_debugger_breakpoint_manager_unlock s) = bpm_mutex s - 1"
  by (simp_all add: mono_debugger_breakpoint_manager_unlock_def)

lemma bp_set_fields [simp, frame_simps]:
  "bp_heap (bp_set p b s) = (bp_heap s)(p \<mapsto> b)"
  "bp_next (bp_set p b s) = bp_next s"
  "last_breakpoint_id (bp_set p b s) = last_breakpoint_id s"
  "bp_store.more (bp_set p b s) = bp_store.more s"
  "bpm_mutex (bp_set p b s) = bpm_mutex s"
  by (simp_all add: bp_set_def)

lemma bp_free_fields [simp, frame_simps]:
  "bp_heap (bp_free p s) = (bp_heap s)(p := None)"
  "bp_next (bp_free p s) = bp_next s"
  "last_breakpoint_id (bp_free p s) = last_breakpoint_id s"
  "bp_store.more (bp_free p s) = bp_store.more s"
  "bpm_mutex (bp_free p s) = bpm_mutex s"
  by (simp_all add: bp_free_def)

text \<open>For an id in range, the key used by \<open>lookup_by_id\<close> is the key used by \<open>insert\<close>.\<close>

lemma id_key_ucast [simp]:
  assumes "id_ok i"
  shows "ucast (word_of_int i :: guint32) = (word_of_int i :: 'w::len word)"
proof -
  have "uint (word_of_int i :: guint32) = i"
    using assms by (simp add: id_ok_def uint_word_of_int take_bit_int_eq_self)
  then show ?thesis by (simp add: ucast_eq)
qed

lemma bpm_ok_imps: "bpm_ok bpm h \<Longrightarrow> bpm_ids_ok bpm h \<and> bpm_addrs_ok bpm h \<and> bpm_addrs_sound bpm h"
  by (simp add: bpm_ok_def bpm_addrs_ok_def)

lemma bpm_ids_ok_new [simp]: "bpm_ids_ok mono_debugger_breakpoint_manager_new h"
  by (simp add: bpm_ids_ok_def bpm_defs)

lemma bpm_addrs_ok_new [simp]: "bpm_addrs_ok mono_debugger_breakpoint_manager_new h"
  by (simp add: bpm_addrs_ok_def bpm_addrs_sound_def bpm_defs)

lemma bpm_ok_new [simp]: "bpm_ok mono_debugger_breakpoint_manager_new h"
  by (simp add: bpm_ok_def)

section \<open>What the operations keep\<close>

text \<open>
  A change of the store that leaves the id and the address of every member alone keeps
  every part of the invariant: allocation of another struct, a free of a struct that is
  no member, an update of the other fields.
\<close>

definition same_keys :: "bp_ptr set \<Rightarrow> (bp_ptr \<rightharpoonup> BreakpointInfo) \<Rightarrow> (bp_ptr \<rightharpoonup> BreakpointInfo) \<Rightarrow> bool" where
  "same_keys A h h' \<longleftrightarrow>
     (\<forall>p \<in> A. map_option (\<lambda>b. (bp_id b, bp_address b)) (h' p) =
              map_option (\<lambda>b. (bp_id b, bp_address b)) (h p))"

lemma same_keys_refl [simp]: "same_keys A h h"
  by (simp add: same_keys_def)

lemma same_keys_upd_other [simp]: "p \<notin> A \<Longrightarrow> same_keys A h (h(p := v))"
  by (auto simp: same_keys_def)

lemma same_keys_upd [simp]:
  "h p = Some b \<Longrightarrow> bp_id b' = bp_id b \<Longrightarrow> bp_address b' = bp_address b \<Longrightarrow>
     same_keys A h (h(p \<mapsto> b'))"
  by (auto simp: same_keys_def)

lemma same_keys_trans: "same_keys A h h' \<Longrightarrow> same_keys A h' h'' \<Longrightarrow> same_keys A h h''"
  by (auto simp: same_keys_def)

lemma same_keysD:
  "same_keys A h h' \<Longrightarrow> p \<in> A \<Longrightarrow> h' p = Some b' \<Longrightarrow>
     \<exists>b. h p = Some b \<and> bp_id b = bp_id b' \<and> bp_address b = bp_address b'"
  unfolding same_keys_def by (cases "h p") force+

lemma same_keysD':
  "same_keys A h h' \<Longrightarrow> p \<in> A \<Longrightarrow> h p = Some b \<Longrightarrow>
     \<exists>b'. h' p = Some b' \<and> bp_id b' = bp_id b \<and> bp_address b' = bp_address b"
  unfolding same_keys_def by (cases "h' p") force+

lemma same_keys_key_iff:
  assumes "same_keys A h h'" and "p \<in> A"
  shows "(\<exists>b. h' p = Some b \<and> P (bp_id b) (bp_address b)) \<longleftrightarrow>
         (\<exists>b. h p = Some b \<and> P (bp_id b) (bp_address b))"
  using same_keysD [OF assms] same_keysD' [OF assms] by metis

lemma bpm_ids_ok_same_keys:
  assumes inv: "bpm_ids_ok bpm h" and same: "same_keys (set (breakpoints bpm)) h h'"
  shows "bpm_ids_ok bpm h'"
proof -
  have "p \<in> set (breakpoints bpm) \<Longrightarrow> \<exists>b. h' p = Some b \<and> id_ok (bp_id b)" for p
    using inv same_keys_key_iff [OF same, of p "\<lambda>i a. id_ok i"] by (simp add: bpm_ids_ok_def)
  moreover have "breakpoint_hash bpm k = Some p \<longleftrightarrow>
      p \<in> set (breakpoints bpm) \<and> (\<exists>b. h' p = Some b \<and> id_key b = k)" for k p
    using inv same_keys_key_iff [OF same, of p "\<lambda>i a. word_of_int i = k"]
    by (auto simp: bpm_ids_ok_def)
  ultimately show ?thesis using inv by (simp add: bpm_ids_ok_def)
qed

lemma bpm_addrs_sound_same_keys:
  assumes inv: "bpm_addrs_sound bpm h" and same: "same_keys (set (breakpoints bpm)) h h'"
  shows "bpm_addrs_sound bpm h'"
  using inv same_keysD' [OF same] unfolding bpm_addrs_sound_def by metis

lemma bpm_addrs_ok_same_keys:
  assumes inv: "bpm_addrs_ok bpm h" and same: "same_keys (set (breakpoints bpm)) h h'"
  shows "bpm_addrs_ok bpm h'"
  using inv same_keysD [OF same] bpm_addrs_sound_same_keys [OF _ same]
  unfolding bpm_addrs_ok_def by metis

lemma bpm_ok_same_keys:
  "bpm_ok bpm h \<Longrightarrow> same_keys (set (breakpoints bpm)) h h' \<Longrightarrow> bpm_ok bpm h'"
  unfolding bpm_ok_def using bpm_ids_ok_same_keys bpm_addrs_ok_same_keys by blast

lemma insert_members:
  "mono_debugger_breakpoint_manager_insert bpm p s = Some bpm' \<Longrightarrow>
     breakpoints bpm' = breakpoints bpm @ [p]"
  by (auto simp: bpm_defs)

lemma insert_ids_ok:
  assumes inv: "bpm_ids_ok bpm (bp_heap s)" and p: "bp_heap s p = Some b" "p \<notin> set (breakpoints bpm)"
    and i: "id_ok (bp_id b)" and fresh: "breakpoint_hash bpm (id_key b) = None"
    and ins: "mono_debugger_breakpoint_manager_insert bpm p s = Some bpm'"
  shows "bpm_ids_ok bpm' (bp_heap s)"
proof -
  have bpm': "breakpoints bpm' = breakpoints bpm @ [p]"
    "breakpoint_hash bpm' = (breakpoint_hash bpm)(id_key b \<mapsto> p)"
    using ins p by (auto simp: bpm_defs)
  have old: "breakpoint_hash bpm k = Some q \<longleftrightarrow>
      q \<in> set (breakpoints bpm) \<and> (\<exists>c. bp_heap s q = Some c \<and> id_key c = k)" for k q
    using inv by (simp add: bpm_ids_ok_def)
  have "breakpoint_hash bpm' k = Some q \<longleftrightarrow>
      q \<in> set (breakpoints bpm') \<and> (\<exists>c. bp_heap s q = Some c \<and> id_key c = k)" for k q
    using old [of k q] p fresh bpm' by auto
  then show ?thesis using inv p i bpm' by (auto simp: bpm_ids_ok_def)
qed

lemma insert_addrs_sound:
  assumes inv: "bpm_addrs_sound bpm (bp_heap s)" and p: "bp_heap s p = Some b"
    and ins: "mono_debugger_breakpoint_manager_insert bpm p s = Some bpm'"
  shows "bpm_addrs_sound bpm' (bp_heap s)"
  using assms by (auto simp: bpm_addrs_sound_def bpm_defs split: if_splits)

lemma insert_addrs_ok:
  assumes inv: "bpm_addrs_ok bpm (bp_heap s)" and p: "bp_heap s p = Some b"
    and fresh: "breakpoint_by_addr bpm (addr_key b) = None"
    and ins: "mono_debugger_breakpoint_manager_insert bpm p s = Some bpm'"
  shows "bpm_addrs_ok bpm' (bp_heap s)"
proof -
  have "bpm_addrs_sound bpm' (bp_heap s)"
    using inv insert_addrs_sound [OF _ p ins] by (simp add: bpm_addrs_ok_def)
  moreover have "breakpoint_by_addr bpm' (addr_key c) = Some q"
    if "q \<in> set (breakpoints bpm')" "bp_heap s q = Some c" for q c
  proof (cases "q = p")
    case False
    then have "breakpoint_by_addr bpm (addr_key c) = Some q"
      using inv ins that p by (auto simp: bpm_addrs_ok_def bpm_defs)
    then show ?thesis using fresh ins p by (auto simp: bpm_defs)
  qed (use ins p that in \<open>auto simp: bpm_defs\<close>)
  ultimately show ?thesis by (simp add: bpm_addrs_ok_def)
qed

text \<open>
  \<open>remove\<close> on a member: one reference less, or, with the last reference, the struct leaves
  the three containers and is freed.
\<close>

lemma remove_last:
  assumes inv: "bpm_ids_ok bpm (bp_heap s)" and p: "p \<in> set (breakpoints bpm)" "bp_heap s p = Some b"
    and ref: "refcount b \<le> 1"
  shows "mono_debugger_breakpoint_manager_remove bpm p s =
    Some (bpm\<lparr> breakpoint_hash := (breakpoint_hash bpm)(id_key b := None),
               breakpoint_by_addr := (breakpoint_by_addr bpm)(addr_key b := None),
               breakpoints := remove_fast p (breakpoints bpm) \<rparr>,
          bp_free p s)"
proof -
  have "id_ok (bp_id b)" and "breakpoint_hash bpm (id_key b) = Some p"
    using inv p by (auto simp: bpm_ids_ok_def)
  moreover have "bp_free p (bp_set p b' s) = bp_free p s" for b'
    by (simp add: bp_free_def bp_set_def)
  ultimately show ?thesis using p ref by (simp add: bpm_defs Let_def)
qed

lemma remove_shared:
  assumes inv: "bpm_ids_ok bpm (bp_heap s)" and p: "p \<in> set (breakpoints bpm)" "bp_heap s p = Some b"
    and ref: "1 < refcount b"
  shows "mono_debugger_breakpoint_manager_remove bpm p s =
    Some (bpm, bp_set p (b\<lparr> refcount := refcount b - 1 \<rparr>) s)"
proof -
  have "id_ok (bp_id b)" and "breakpoint_hash bpm (id_key b) = Some p"
    using inv p by (auto simp: bpm_ids_ok_def)
  then show ?thesis using p ref by (simp add: bpm_defs Let_def)
qed

lemma remove_unknown:
  "bp_heap s p = Some b \<Longrightarrow> breakpoint_hash bpm (ucast (word_of_int (bp_id b) :: guint32)) = None \<Longrightarrow>
     mono_debugger_breakpoint_manager_remove bpm p s = Some (bpm, s)"
  by (simp add: bpm_defs)

text \<open>The manager without the member \<open>p\<close>, over a store without it.\<close>

lemma delete_ids_ok:
  assumes inv: "bpm_ids_ok bpm h" and p: "p \<in> set (breakpoints bpm)" "h p = Some b"
  shows "bpm_ids_ok (bpm\<lparr> breakpoint_hash := (breakpoint_hash bpm)(id_key b := None),
               breakpoint_by_addr := t, breakpoints := remove_fast p (breakpoints bpm) \<rparr>) (h(p := None))"
proof -
  have old: "breakpoint_hash bpm k = Some q \<longleftrightarrow>
      q \<in> set (breakpoints bpm) \<and> (\<exists>c. h q = Some c \<and> id_key c = k)" for k q
    using inv by (simp add: bpm_ids_ok_def)
  have "((breakpoint_hash bpm)(id_key b := None)) k = Some q \<longleftrightarrow>
      q \<in> set (breakpoints bpm) - {p} \<and> (\<exists>c. (h(p := None)) q = Some c \<and> id_key c = k)" for k q
    using old [of k q] old [of k p] p by (auto split: if_splits)
  then show ?thesis using inv by (auto simp: bpm_ids_ok_def)
qed

lemma delete_addrs_sound:
  assumes ids: "bpm_ids_ok bpm h" and inv: "bpm_addrs_sound bpm h"
    and p: "p \<in> set (breakpoints bpm)" "h p = Some b"
  shows "bpm_addrs_sound (bpm\<lparr> breakpoint_hash := t,
               breakpoint_by_addr := (breakpoint_by_addr bpm)(addr_key b := None),
               breakpoints := remove_fast p (breakpoints bpm) \<rparr>) (h(p := None))"
  unfolding bpm_addrs_sound_def
proof (intro allI impI)
  fix k q
  assume "breakpoint_by_addr (bpm\<lparr> breakpoint_hash := t,
               breakpoint_by_addr := (breakpoint_by_addr bpm)(addr_key b := None),
               breakpoints := remove_fast p (breakpoints bpm) \<rparr>) k = Some q"
  then have k: "k \<noteq> addr_key b" and q: "breakpoint_by_addr bpm k = Some q"
    by (auto split: if_splits)
  from q obtain c where c: "q \<in> set (breakpoints bpm)" "h q = Some c" "addr_key c = k"
    using inv by (auto simp: bpm_addrs_sound_def)
  moreover have "q \<noteq> p" using c k p by auto
  moreover have "distinct (breakpoints bpm)" using ids by (simp add: bpm_ids_ok_def)
  ultimately show "q \<in> set (breakpoints (bpm\<lparr> breakpoint_hash := t,
               breakpoint_by_addr := (breakpoint_by_addr bpm)(addr_key b := None),
               breakpoints := remove_fast p (breakpoints bpm) \<rparr>)) \<and>
      (\<exists>b. (h(p := None)) q = Some b \<and> addr_key b = k)"
    by simp
qed

lemma delete_addrs_ok:
  assumes ids: "bpm_ids_ok bpm h" and inv: "bpm_addrs_ok bpm h"
    and p: "p \<in> set (breakpoints bpm)" "h p = Some b"
  shows "bpm_addrs_ok (bpm\<lparr> breakpoint_hash := t,
               breakpoint_by_addr := (breakpoint_by_addr bpm)(addr_key b := None),
               breakpoints := remove_fast p (breakpoints bpm) \<rparr>) (h(p := None))"
proof -
  have sound: "bpm_addrs_sound bpm h" using inv by (simp add: bpm_addrs_ok_def)
  have "((breakpoint_by_addr bpm)(addr_key b := None)) (addr_key c) = Some q"
    if "q \<in> set (breakpoints bpm) - {p}" "(h(p := None)) q = Some c" for q c
  proof -
    have "q \<noteq> p" and "h q = Some c" using that by auto
    then have "breakpoint_by_addr bpm (addr_key c) = Some q"
      and "breakpoint_by_addr bpm (addr_key b) = Some p"
      using that p inv by (auto simp: bpm_addrs_ok_def)
    then have "addr_key c \<noteq> (addr_key b :: 'a word)" using \<open>q \<noteq> p\<close> by auto
    then show ?thesis using \<open>breakpoint_by_addr bpm (addr_key c) = Some q\<close> by simp
  qed
  moreover have "distinct (breakpoints bpm)" using ids by (simp add: bpm_ids_ok_def)
  ultimately show ?thesis
    using delete_addrs_sound [OF ids sound p] by (simp add: bpm_addrs_ok_def)
qed

lemma delete_ok:
  assumes "bpm_ok bpm h" and "p \<in> set (breakpoints bpm)" and "h p = Some b"
  shows "bpm_ok (bpm\<lparr> breakpoint_hash := (breakpoint_hash bpm)(id_key b := None),
               breakpoint_by_addr := (breakpoint_by_addr bpm)(addr_key b := None),
               breakpoints := remove_fast p (breakpoints bpm) \<rparr>) (h(p := None))"
  using assms delete_ids_ok delete_addrs_ok unfolding bpm_ok_def by blast

section \<open>The contract of a breakpoint index\<close>

text \<open>
  What the architecture layer relies on when it looks a breakpoint up: under the
  invariant, a lookup by a key finds exactly the member with that key. The same contract
  holds of the lookup by id and of the lookup by address.
\<close>

locale breakpoint_index =
  fixes key :: "BreakpointInfo \<Rightarrow> 'key"
    and inv :: "'m \<Rightarrow> (bp_ptr \<rightharpoonup> BreakpointInfo) \<Rightarrow> bool"
    and members :: "'m \<Rightarrow> bp_ptr set"
    and lookup :: "'m \<Rightarrow> 'key \<Rightarrow> bp_ptr option"
    and heap_of :: "'s \<Rightarrow> (bp_ptr \<rightharpoonup> BreakpointInfo)"
    and insert_op :: "'m \<Rightarrow> bp_ptr \<Rightarrow> 's \<Rightarrow> 'm option"
    and remove_op :: "'m \<Rightarrow> bp_ptr \<Rightarrow> 's \<Rightarrow> ('m \<times> 's) option"
  assumes lookup_iff:
      "inv m h \<Longrightarrow> lookup m k = Some p \<longleftrightarrow> p \<in> members m \<and> (\<exists>b. h p = Some b \<and> key b = k)"
    and insert_law:
      "inv m (heap_of s) \<Longrightarrow> p \<notin> members m \<Longrightarrow> insert_op m p s = Some m' \<Longrightarrow>
       inv m' (heap_of s) \<Longrightarrow> members m' = insert p (members m)"
    and remove_law:
      "inv m (heap_of s) \<Longrightarrow> p \<in> members m \<Longrightarrow> heap_of s p = Some b \<Longrightarrow>
       \<exists>m' s'. remove_op m p s = Some (m', s') \<and> inv m' (heap_of s') \<and>
         (if 1 < refcount b
          then m' = m \<and> heap_of s' = (heap_of s)(p \<mapsto> b\<lparr> refcount := refcount b - 1 \<rparr>)
          else members m' = members m - {p} \<and> heap_of s' = (heap_of s)(p := None))"
begin

lemma lookup_member:
  assumes "inv m h" and "lookup m k = Some p"
  obtains b where "p \<in> members m" "h p = Some b" "key b = k"
  using assms lookup_iff by blast

lemma key_unique:
  assumes inv: "inv m h" and "p \<in> members m" "q \<in> members m"
    and "h p = Some b" "h q = Some c" "key b = key c"
  shows "p = q"
proof -
  have "lookup m (key b) = Some p" and "lookup m (key b) = Some q"
    using assms lookup_iff [OF inv] by auto
  then show ?thesis by simp
qed

lemma lookup_after_insert:
  assumes inv: "inv m (heap_of s)" "inv m' (heap_of s)" and p: "p \<notin> members m" "heap_of s p = Some b"
    and ins: "insert_op m p s = Some m'"
  shows "lookup m' k = (if k = key b then Some p else lookup m k)"
proof -
  have mem: "members m' = insert p (members m)" using insert_law [OF inv(1) p(1) ins inv(2)] .
  have "lookup m' k = Some q \<longleftrightarrow> (if k = key b then Some p else lookup m k) = Some q" for q
  proof (cases "k = key b")
    case True
    have "lookup m' k = Some p" using True p mem lookup_iff [OF inv(2)] by auto
    then show ?thesis using True by auto
  next
    case False
    then show ?thesis using lookup_iff [OF inv(2)] lookup_iff [OF inv(1)] mem p by auto
  qed
  then show ?thesis by (metis not_Some_eq)
qed

text \<open>With the last reference gone, the key is free again and no other key is touched.\<close>

lemma lookup_after_last_remove:
  assumes inv: "inv m (heap_of s)" and p: "p \<in> members m" "heap_of s p = Some b" and "refcount b \<le> 1"
  obtains m' s' where "remove_op m p s = Some (m', s')" "inv m' (heap_of s')"
    "\<And>k. lookup m' k = (if k = key b then None else lookup m k)"
proof -
  from remove_law [OF inv p] assms(4) obtain m' s'
    where r: "remove_op m p s = Some (m', s')" "inv m' (heap_of s')"
      "members m' = members m - {p}" "heap_of s' = (heap_of s)(p := None)" by auto
  have "lookup m' k = Some q \<longleftrightarrow> (if k = key b then None else lookup m k) = Some q" for k q
  proof (cases "k = key b")
    case True
    have "lookup m k = Some p" using True p lookup_iff [OF inv] by simp
    then have "\<not> (q \<in> members m' \<and> (\<exists>c. heap_of s' q = Some c \<and> key c = k))"
      using lookup_iff [OF inv, of k q] r(3,4) by auto
    then show ?thesis using True lookup_iff [OF r(2), of k q] by simp
  next
    case False
    then show ?thesis
      using lookup_iff [OF r(2), of k q] lookup_iff [OF inv, of k q] r(3,4) p by auto
  qed
  then have "lookup m' k = (if k = key b then None else lookup m k)" for k
    by (metis not_Some_eq)
  then show thesis using that r(1,2) by blast
qed

end

lemma remove_op_law:
  fixes bpm :: "'w::len BreakpointManager"
  assumes inv: "bpm_ok bpm (bp_heap s)" and p: "p \<in> set (breakpoints bpm)" "bp_heap s p = Some b"
  shows "\<exists>m' s'. mono_debugger_breakpoint_manager_remove bpm p s = Some (m', s') \<and> bpm_ok m' (bp_heap s') \<and>
         (if 1 < refcount b
          then m' = bpm \<and> bp_heap s' = (bp_heap s)(p \<mapsto> b\<lparr> refcount := refcount b - 1 \<rparr>)
          else set (breakpoints m') = set (breakpoints bpm) - {p} \<and> bp_heap s' = (bp_heap s)(p := None))"
proof (cases "1 < refcount b")
  case True
  have "bpm_ok bpm ((bp_heap s)(p \<mapsto> b\<lparr> refcount := refcount b - 1 \<rparr>))"
    by (rule bpm_ok_same_keys [OF inv]) (simp add: p)
  then show ?thesis using True remove_shared [of bpm s p b] inv p by (simp add: bpm_ok_def)
next
  case False
  have "distinct (breakpoints bpm)" using inv by (simp add: bpm_ok_def bpm_ids_ok_def)
  then show ?thesis
    using False remove_last [of bpm s p b] delete_ok [OF inv p] inv p by (simp add: bpm_ok_def)
qed

interpretation by_id: breakpoint_index
  "id_key :: BreakpointInfo \<Rightarrow> 'w::len word" bpm_ok "\<lambda>bpm. set (breakpoints bpm)" breakpoint_hash
  "bp_heap :: 'z bp_store_scheme \<Rightarrow> _"
  mono_debugger_breakpoint_manager_insert mono_debugger_breakpoint_manager_remove
proof (standard, goal_cases)
  case 1 then show ?case by (simp add: bpm_ok_def bpm_ids_ok_def)
next
  case 2 then show ?case by (simp add: insert_members)
next
  case 3 then show ?case by (rule remove_op_law)
qed

interpretation by_addr: breakpoint_index
  "addr_key :: BreakpointInfo \<Rightarrow> 'w::len word" bpm_ok "\<lambda>bpm. set (breakpoints bpm)" breakpoint_by_addr
  "bp_heap :: 'z bp_store_scheme \<Rightarrow> _"
  mono_debugger_breakpoint_manager_insert mono_debugger_breakpoint_manager_remove
proof (standard, goal_cases)
  case (1 m h k p)
  then show ?case unfolding bpm_ok_def bpm_addrs_ok_def bpm_addrs_sound_def by blast
next
  case 2 then show ?case by (simp add: insert_members)
next
  case 3 then show ?case by (rule remove_op_law)
qed

section \<open>Cloning a manager\<close>

text \<open>The structs behind a list of pointers.\<close>

definition contents :: "(bp_ptr \<rightharpoonup> BreakpointInfo) \<Rightarrow> bp_ptr list \<Rightarrow> BreakpointInfo list" where
  "contents h ps = map (\<lambda>p. the (h p)) ps"

lemma contents_simps [simp]:
  "contents h [] = []" "contents h (p # ps) = the (h p) # contents h ps"
  "contents h (ps @ qs) = contents h ps @ contents h qs"
  by (simp_all add: contents_def)

lemma contents_cong: "(\<And>p. p \<in> set ps \<Longrightarrow> h p = h' p) \<Longrightarrow> contents h ps = contents h' ps"
  by (simp add: contents_def)

lemma contents_memI: "q \<in> set ps \<Longrightarrow> h q = Some c \<Longrightarrow> c \<in> set (contents h ps)"
  by (force simp: contents_def)

lemma set_contents_keys:
  assumes "bpm_ok bpm h"
  shows "distinct (map (id_key :: _ \<Rightarrow> 'w::len word) (contents h (breakpoints (bpm :: 'w BreakpointManager))))"
    and "distinct (map (addr_key :: _ \<Rightarrow> 'w word) (contents h (breakpoints bpm)))"
proof -
  have live: "h p = Some (the (h p))" if "p \<in> set (breakpoints bpm)" for p
    using assms that by (auto simp: bpm_ok_def bpm_ids_ok_def)
  have d: "distinct (breakpoints bpm)" using assms by (simp add: bpm_ok_def bpm_ids_ok_def)
  show "distinct (map (id_key :: _ \<Rightarrow> 'w word) (contents h (breakpoints bpm)))"
    unfolding contents_def map_map distinct_map comp_def
    by (intro conjI d inj_onI) (metis by_id.key_unique [OF assms] live)
  show "distinct (map (addr_key :: _ \<Rightarrow> 'w word) (contents h (breakpoints bpm)))"
    unfolding contents_def map_map distinct_map comp_def
    by (intro conjI d inj_onI) (metis by_addr.key_unique [OF assms] live)
qed

lemma clone_step:
  fixes bpm :: "'w::len BreakpointManager"
  assumes ok: "bpm_ok bpm (bp_heap s)" and fresh: "\<forall>q b. bp_heap s q = Some b \<longrightarrow> q < bp_next s"
    and b: "bp_heap s p = Some b" "id_ok (bp_id b)"
    and keys: "(id_key b :: 'w word) \<notin> id_key ` set (contents (bp_heap s) (breakpoints bpm))"
      "(addr_key b :: 'w word) \<notin> addr_key ` set (contents (bp_heap s) (breakpoints bpm))"
  defines "s1 \<equiv> s\<lparr> bp_heap := (bp_heap s)(bp_next s \<mapsto> b), bp_next := Suc (bp_next s) \<rparr>"
  shows "\<exists>bpm1. mono_debugger_breakpoint_manager_insert bpm (bp_next s) s1 = Some bpm1 \<and> bpm_ok bpm1 (bp_heap s1) \<and>
    breakpoints bpm1 = breakpoints bpm @ [bp_next s]"
proof -
  let ?n = "bp_next s"
  have dead: "bp_heap s ?n = None" using fresh by (cases "bp_heap s ?n") auto
  then have n: "?n \<notin> set (breakpoints bpm)" using ok by (auto simp: bpm_ok_def bpm_ids_ok_def)
  have ok1: "bpm_ok bpm (bp_heap s1)"
    using n by (intro bpm_ok_same_keys [OF ok]) (simp add: s1_def)
  obtain bpm1 where ins: "mono_debugger_breakpoint_manager_insert bpm ?n s1 = Some bpm1"
    by (auto simp: bpm_defs s1_def)
  have free: "breakpoint_hash bpm (id_key b) = None" "breakpoint_by_addr bpm (addr_key b) = None"
  proof -
    have "breakpoint_hash bpm (id_key b) \<noteq> Some q" for q
      using by_id.lookup_iff [OF ok, of "id_key b" q] keys(1) contents_memI by (metis image_eqI)
    then show "breakpoint_hash bpm (id_key b) = None" by (meson not_Some_eq)
    have "breakpoint_by_addr bpm (addr_key b) \<noteq> Some q" for q
      using by_addr.lookup_iff [OF ok, of "addr_key b" q] keys(2) contents_memI by (metis image_eqI)
    then show "breakpoint_by_addr bpm (addr_key b) = None" by (meson not_Some_eq)
  qed
  have s1n: "bp_heap s1 ?n = Some b" by (simp add: s1_def)
  have "bpm_ids_ok bpm1 (bp_heap s1)"
    using insert_ids_ok [OF _ s1n n b(2) free(1) ins] ok1 by (simp add: bpm_ok_def)
  moreover have "bpm_addrs_ok bpm1 (bp_heap s1)"
    using insert_addrs_ok [OF _ s1n free(2) ins] ok1 by (simp add: bpm_ok_def)
  ultimately show ?thesis using ins insert_members [OF ins] by (simp add: bpm_ok_def)
qed

lemma clone_loop:
  fixes bpm :: "'w::len BreakpointManager"
  assumes "bpm_ok bpm (bp_heap s)" and "\<forall>q b. bp_heap s q = Some b \<longrightarrow> q < bp_next s"
    and "\<forall>p \<in> set ps. \<exists>b. bp_heap s p = Some b \<and> id_ok (bp_id b)"
    and "distinct (map (id_key :: _ \<Rightarrow> 'w word) (contents (bp_heap s) (breakpoints bpm @ ps)))"
    and "distinct (map (addr_key :: _ \<Rightarrow> 'w word) (contents (bp_heap s) (breakpoints bpm @ ps)))"
  shows "\<exists>bpm' s'. breakpoint_manager_clone_loop ps bpm s = Some (bpm', s') \<and>
    bpm_ok bpm' (bp_heap s') \<and> (\<forall>q < bp_next s. bp_heap s' q = bp_heap s q) \<and>
    contents (bp_heap s') (breakpoints bpm') =
      contents (bp_heap s) (breakpoints bpm) @ contents (bp_heap s) ps \<and>
    set (breakpoints bpm') \<subseteq> set (breakpoints bpm) \<union> {bp_next s..}"
  using assms
proof (induction ps arbitrary: bpm s)
  case (Cons p ps)
  from Cons.prems(3) obtain b where b: "bp_heap s p = Some b" "id_ok (bp_id b)" by auto
  define n where "n = bp_next s"
  define s1 where "s1 = s\<lparr> bp_heap := (bp_heap s)(n \<mapsto> b), bp_next := Suc n \<rparr>"
  have dead: "bp_heap s n = None"
    using Cons.prems(2) by (cases "bp_heap s n") (auto simp: n_def)
  have "n \<notin> set (breakpoints bpm)"
    using Cons.prems(1) dead by (auto simp: bpm_ok_def bpm_ids_ok_def)
  moreover have "n \<notin> set ps" using Cons.prems(3) dead by auto
  ultimately have n: "n \<notin> set (breakpoints bpm)" "n \<noteq> p" "n \<notin> set ps"
    using b dead by auto
  have "(id_key b :: 'w word) \<notin> id_key ` set (contents (bp_heap s) (breakpoints bpm))"
    "(addr_key b :: 'w word) \<notin> addr_key ` set (contents (bp_heap s) (breakpoints bpm))"
    using Cons.prems(4,5) b by (auto simp: contents_def)
  from clone_step [OF Cons.prems(1,2) b this]
  obtain bpm1 where ins: "mono_debugger_breakpoint_manager_insert bpm n s1 = Some bpm1" and ok: "bpm_ok bpm1 (bp_heap s1)"
    and mem: "breakpoints bpm1 = breakpoints bpm @ [n]"
    unfolding s1_def n_def by blast
  have s1n: "bp_heap s1 n = Some b" by (simp add: s1_def)
  have old: "contents (bp_heap s1) (breakpoints bpm) = contents (bp_heap s) (breakpoints bpm)"
    "contents (bp_heap s1) ps = contents (bp_heap s) ps"
    using n by (auto simp: s1_def intro!: contents_cong)
  have live: "\<forall>q \<in> set ps. \<exists>b. bp_heap s1 q = Some b \<and> id_ok (bp_id b)"
    using Cons.prems(3) n(3) by (auto simp: s1_def)
  have fresh: "\<forall>q c. bp_heap s1 q = Some c \<longrightarrow> q < bp_next s1"
    using Cons.prems(2) by (auto simp: s1_def n_def less_Suc_eq)
  have di: "distinct (map (id_key :: _ \<Rightarrow> 'w word) (contents (bp_heap s1) (breakpoints bpm1 @ ps)))"
    and da: "distinct (map (addr_key :: _ \<Rightarrow> 'w word) (contents (bp_heap s1) (breakpoints bpm1 @ ps)))"
    using Cons.prems(4,5) b s1n by (simp_all add: mem old)
  from Cons.IH [OF ok fresh live di da]
  obtain bpm' s' where r: "breakpoint_manager_clone_loop ps bpm1 s1 = Some (bpm', s')"
    "bpm_ok bpm' (bp_heap s')" "\<forall>q < bp_next s1. bp_heap s' q = bp_heap s1 q"
    "contents (bp_heap s') (breakpoints bpm') =
       contents (bp_heap s1) (breakpoints bpm1) @ contents (bp_heap s1) ps"
    "set (breakpoints bpm') \<subseteq> set (breakpoints bpm1) \<union> {bp_next s1..}" by blast
  have "breakpoint_manager_clone_loop (p # ps) bpm s = Some (bpm', s')"
    using b r(1) ins by (simp add: bp_alloc_def s1_def n_def)
  moreover have "\<forall>q < bp_next s. bp_heap s' q = bp_heap s q"
    using r(3) by (simp add: s1_def n_def)
  ultimately show ?case
    using r(2,4,5) b s1n old mem by (auto simp: n_def s1_def)
qed simp

end
