(* ===== verification/Windows.thy ===== *)
theory Windows
  imports Breakpoints
begin

text \<open>
  The Windows layer, \<open>x86-windows.c\<close>: a debugging thread owns the target and serves the commands of the other threads through an array of
  events and a buffer for memory. The Win32 calls are the parameter \<open>win32\<close>, a record of functions over a state \<open>'k\<close>; a result
  \<open>None\<close> is a call that does not return normally (a failed assertion, an access outside an array, a wait that never ends). The events
  are explicit state, since the protocol between the threads depends on them.

  The file does not fit the headers beside it: \<open>on_breakpoint_exception\<close> reads members that \<open>BreakpointInfo\<close> does not have. That
  function is an argument of the definitions that call it.
\<close>

section \<open>State\<close>

type_synonym win_handle = nat
type_synonym gunichar2 = "16 word"

record CONTEXT =
  ContextFlags :: guint32
  Eip :: guint32
  Esp :: guint32
  Ebp :: guint32
  EFlags :: guint32
  other_registers :: "guint8 list"

definition zero_CONTEXT :: CONTEXT where
  "zero_CONTEXT = \<lparr> ContextFlags = 0, Eip = 0, Esp = 0, Ebp = 0, EFlags = 0, other_registers = replicate 696 0 \<rparr>"

datatype debug_event_info =
    Exception guint32 guint32 bool \<comment> \<open>code, address, first chance\<close>
  | CreateThreadInfo
  | CreateProcessInfo guint32 guint32 \<comment> \<open>start address, image base\<close>
  | ExitThreadInfo
  | ExitProcessInfo
  | LoadDllInfo guint32 bool guint32 win_handle guint32 \<comment> \<open>pointer to the name, unicode, base, file, offset of debug information\<close>
  | OtherInfo

record DEBUG_EVENT =
  dwProcessId :: guint32
  dwThreadId :: guint32
  dwInfo :: debug_event_info

record PROCESS_INFORMATION =
  hProcess :: win_handle
  hThread :: win_handle
  pi_dwProcessId :: guint32
  pi_dwThreadId :: guint32

record 'k win32 =
  GetThreadContext :: "'k \<Rightarrow> win_handle \<Rightarrow> CONTEXT option \<times> 'k"
  SetThreadContext :: "'k \<Rightarrow> win_handle \<Rightarrow> CONTEXT \<Rightarrow> bool \<times> 'k"
  ReadProcessMemory :: "'k \<Rightarrow> win_handle \<Rightarrow> guint32 \<Rightarrow> guint32 \<Rightarrow> bool \<times> guint8 list \<times> 'k"
  WriteProcessMemory :: "'k \<Rightarrow> win_handle \<Rightarrow> guint32 \<Rightarrow> guint8 list \<Rightarrow> bool \<times> guint32 \<times> 'k"
  VirtualQueryEx :: "'k \<Rightarrow> win_handle \<Rightarrow> guint32 \<Rightarrow> (guint32 \<times> guint32) option \<times> 'k"
  VirtualProtectEx :: "'k \<Rightarrow> win_handle \<Rightarrow> guint32 \<Rightarrow> guint32 \<Rightarrow> guint32 \<Rightarrow> guint32 option \<times> 'k"
  WaitForDebugEvent :: "'k \<Rightarrow> DEBUG_EVENT option \<times> 'k"
  ContinueDebugEvent :: "'k \<Rightarrow> guint32 \<Rightarrow> guint32 \<Rightarrow> guint32 \<Rightarrow> 'k"
  CreateProcess :: "'k \<Rightarrow> gunichar2 list option \<Rightarrow> gunichar2 list option \<Rightarrow> gunichar2 list \<Rightarrow> PROCESS_INFORMATION option \<times> 'k"
  CreateEvent :: "'k \<Rightarrow> bool \<times> 'k"
  CreateThread :: "'k \<Rightarrow> (win_handle \<times> guint32) \<times> 'k"
  CloseHandle :: "'k \<Rightarrow> win_handle \<Rightarrow> 'k"
  ResumeThread :: "'k \<Rightarrow> win_handle \<Rightarrow> 'k"
  TerminateProcess :: "'k \<Rightarrow> win_handle \<Rightarrow> 'k"
  wcstombs :: "guint8 list \<Rightarrow> guint8 list"
  g_utf8_to_utf16 :: "string \<Rightarrow> gunichar2 list"
  GetCurrentProcessId :: "'k \<Rightarrow> guint32"
  GetCurrentThreadId :: "'k \<Rightarrow> guint32"

text \<open>The structs of the file, with the members that some function uses.\<close>

record thread_rec =
  tr_thread_handle :: win_handle
  tr_thread_id :: guint32
  intial_sp :: guint32

record info_buf_rec =
  ib_start :: guint64
  ib_size :: guint32
  ib_buffer :: "guint8 list"
  read_or_written_bytes :: guint32

record function_decriptor_rec =
  fd_address :: guint32
  first_line_number :: "guint32 list"
  first_line_offset :: "guint32 list"
  last_valid_line :: guint32

record current_function_rec =
  function_descriptor :: "function_decriptor_rec option"
  cf_start_address :: guint32
  cf_end_address :: guint32
  in_single_step :: bool

record debuggee_info_rec =
  process_handle :: win_handle
  process_id :: guint32
  thread_handle :: win_handle
  thread_id :: guint32
  win_context :: CONTEXT
  start_address :: guint32
  dll_load_address :: guint32
  image_base :: guint32
  last_eip :: guint32
  win_eip :: guint32
  current_function :: current_function_rec
  inaccessible_flag :: bool
  one_shot_step :: bool
  breakpoint_hit :: nat
  created_new_process :: bool
  start_of_code :: guint32
  last_valid_source_line :: guint32

record loaded_dll_info_rec =
  dll_name :: "guint8 list option" \<comment> \<open>\<open>None\<close>: the name was never read\<close>
  dll_base :: guint32
  dll_file_handle :: win_handle

record win_inferior =
  wi_pid :: guint32
  wi_process_handle :: win_handle
  wi_thread_handle :: win_handle
  wi_argv :: "string list option"

text \<open>A server handle with its manager, inferior and \<open>ArchInfo\<close>, of which only \<open>current_regs\<close> is used.\<close>

record win_server =
  win_bpm :: "32 BreakpointManager"
  win_inf :: win_inferior
  win_current_regs :: CONTEXT

datatype wait_result = WAIT_OBJECT_0 | WAIT_TIMEOUT | WAIT_FAILED

text \<open>
  The globals. An entry of \<open>m_command_events\<close> is \<open>None\<close> for a null handle and otherwise says whether the event is signalled.
\<close>

record 'k windows = bp_store +
  wk :: 'k
  m_command_events :: "bool option list"
  g_attached :: bool
  g_paused :: bool
  m_info_buf :: info_buf_rec
  debugger_handle :: win_handle
  debugger_id :: guint32
  debuggee :: debuggee_info_rec
  thread_list :: "thread_rec list"
  w_argv_flattened :: "gunichar2 list option"
  w_envp_flattened :: "gunichar2 list option"
  w_working_directory :: "gunichar2 list option"
  m_loaded_dlls :: "loaded_dll_info_rec list"
  bridge :: "guint32 list"
  win_servers :: "nat \<rightharpoonup> win_server"
  m_server_handle :: "nat option"
  dw_original_flags :: guint32

definition upd_debuggee :: "(debuggee_info_rec \<Rightarrow> debuggee_info_rec) \<Rightarrow> ('k, 'z) windows_scheme \<Rightarrow> ('k, 'z) windows_scheme" where
  "upd_debuggee f s = s\<lparr> debuggee := f (debuggee s) \<rparr>"

section \<open>Events\<close>

definition G_COMMAND_EVENTS_MAX :: nat where "G_COMMAND_EVENTS_MAX = 6"

abbreviation EVENT_RUNNING :: nat where "EVENT_RUNNING \<equiv> 0"
abbreviation EVENT_RESUME :: nat where "EVENT_RESUME \<equiv> 1"
abbreviation EVENT_RESULT :: nat where "EVENT_RESULT \<equiv> 2"
abbreviation EVENT_MEMORY_READ :: nat where "EVENT_MEMORY_READ \<equiv> 3"
abbreviation EVENT_MEMORY_WRITE :: nat where "EVENT_MEMORY_WRITE \<equiv> 4"
abbreviation EVENT_QUEUE :: nat where "EVENT_QUEUE \<equiv> 5"
abbreviation EVENT_KILL :: nat where "EVENT_KILL \<equiv> 6"

text \<open>\<open>SetEvent\<close> and \<open>ResetEvent\<close> fail for a null handle; an index outside the array is no event at all.\<close>

definition signal_event :: "bool \<Rightarrow> nat \<Rightarrow> ('k, 'z) windows_scheme \<Rightarrow> (bool \<times> ('k, 'z) windows_scheme) option" where
  "signal_event b i s =
     (if length (m_command_events s) \<le> i then None
      else case m_command_events s ! i of
        None \<Rightarrow> Some (False, s)
      | Some _ \<Rightarrow> Some (True, s\<lparr> m_command_events := (m_command_events s)[i := Some b] \<rparr>))"

abbreviation SetEvent :: "nat \<Rightarrow> ('k, 'z) windows_scheme \<Rightarrow> (bool \<times> ('k, 'z) windows_scheme) option" where
  "SetEvent \<equiv> signal_event True"
abbreviation ResetEvent :: "nat \<Rightarrow> ('k, 'z) windows_scheme \<Rightarrow> (bool \<times> ('k, 'z) windows_scheme) option" where
  "ResetEvent \<equiv> signal_event False"

fun create_events :: "'k win32 \<Rightarrow> nat list \<Rightarrow> ('k, 'z) windows_scheme \<Rightarrow> ('k, 'z) windows_scheme option" where
  "create_events K [] s = Some s"
| "create_events K (i # is) s =
     (case CreateEvent K (wk s) of (ok, k) \<Rightarrow>
        if length (m_command_events s) \<le> i then None
        else create_events K is (s\<lparr> wk := k, m_command_events := (m_command_events s)[i := (if ok then Some False else None)] \<rparr>))"

text \<open>When an event is missing the others are closed; the array keeps its entries.\<close>

definition initialize_events :: "'k win32 \<Rightarrow> ('k, 'z) windows_scheme \<Rightarrow> (bool \<times> ('k, 'z) windows_scheme) option" where
  "initialize_events K s = do {
     s \<leftarrow> create_events K
       [EVENT_RUNNING, EVENT_RESUME, EVENT_RESULT, EVENT_MEMORY_READ, EVENT_MEMORY_WRITE, EVENT_KILL, EVENT_QUEUE] s;
     if list_all (\<lambda>e. e \<noteq> None) (take G_COMMAND_EVENTS_MAX (m_command_events s)) then Some (True, s)
     else Some (False, s)
   }"

text \<open>
  \<open>WaitForMultipleObjects\<close> over the array: the first signalled event, which is reset unless it is \<open>EVENT_RUNNING\<close>, the only one created
  with a manual reset. When none is signalled the thread waits for another thread.
\<close>

fun first_signalled :: "bool option list \<Rightarrow> nat option" where
  "first_signalled [] = None"
| "first_signalled (e # es) = (if e = Some True then Some 0 else map_option Suc (first_signalled es))"

definition wait_for_command :: "('k, 'z) windows_scheme \<Rightarrow> (nat \<times> ('k, 'z) windows_scheme) option" where
  "wait_for_command s = do {
     i \<leftarrow> first_signalled (take G_COMMAND_EVENTS_MAX (m_command_events s));
     Some (i, if i = EVENT_RUNNING then s else s\<lparr> m_command_events := (m_command_events s)[i := Some False] \<rparr>)
   }"

section \<open>Registers and stepping\<close>

abbreviation TF_BIT :: guint32 where "TF_BIT \<equiv> 0x100"

definition set_step_flag :: "'k win32 \<Rightarrow> bool \<Rightarrow> ('k, 'z) windows_scheme \<Rightarrow> bool \<times> ('k, 'z) windows_scheme" where
  "set_step_flag K on s =
     (case GetThreadContext K (wk s) (thread_handle (debuggee s)) of
        (None, k) \<Rightarrow> (False, s\<lparr> wk := k \<rparr>)
      | (Some c, k) \<Rightarrow>
          let c = c\<lparr> EFlags := (if on then EFlags c OR TF_BIT else EFlags c AND NOT TF_BIT) \<rparr>;
              (ok, k) = SetThreadContext K k (thread_handle (debuggee s)) c; s = s\<lparr> wk := k \<rparr> in
          if ok then (True, upd_debuggee (\<lambda>d. d\<lparr> win_context := c \<rparr>) s) else (False, s))"

abbreviation PAGE_NOACCESS :: guint32 where "PAGE_NOACCESS \<equiv> 1"
abbreviation PAGE_READWRITE :: guint32 where "PAGE_READWRITE \<equiv> 4"

definition set_all_code_pages_access :: "'k win32 \<Rightarrow> bool \<Rightarrow> ('k, 'z) windows_scheme \<Rightarrow> bool \<times> ('k, 'z) windows_scheme" where
  "set_all_code_pages_access K flag s =
     (case VirtualQueryEx K (wk s) (process_handle (debuggee s)) (start_of_code (debuggee s)) of
        (None, k) \<Rightarrow> (False, s\<lparr> wk := k \<rparr>)
      | (Some (base, region_size), k) \<Rightarrow>
          (case VirtualProtectEx K k (process_handle (debuggee s)) base region_size
              (if flag then PAGE_NOACCESS else dw_original_flags s) of
             (None, k) \<Rightarrow> (False, s\<lparr> wk := k \<rparr>)
           | (Some old, k) \<Rightarrow>
               (True, upd_debuggee (\<lambda>d. d\<lparr> inaccessible_flag := flag \<rparr>)
                  (s\<lparr> wk := k, dw_original_flags := (if dw_original_flags s = 0 then old else dw_original_flags s) \<rparr>))))"

definition set_stepping :: "bool \<Rightarrow> ('k, 'z) windows_scheme \<Rightarrow> ('k, 'z) windows_scheme" where
  "set_stepping stepping = upd_debuggee (\<lambda>d. d\<lparr> current_function := (current_function d)\<lparr> in_single_step := stepping \<rparr> \<rparr>)"

definition get_stepping :: "('k, 'z) windows_scheme \<Rightarrow> bool" where
  "get_stepping s = in_single_step (current_function (debuggee s))"

definition activate_thread :: "guint32 \<Rightarrow> ('k, 'z) windows_scheme \<Rightarrow> guint32 \<times> ('k, 'z) windows_scheme" where
  "activate_thread tid s =
     (case find (\<lambda>t. tr_thread_id t = tid) (thread_list s) of
        None \<Rightarrow> (0, s)
      | Some t \<Rightarrow> (intial_sp t, upd_debuggee (\<lambda>d. d\<lparr> thread_handle := tr_thread_handle t, thread_id := tr_thread_id t \<rparr>) s))"

datatype RW_FLAG = READ | WRITE

text \<open>\<open>CONTEXT_CONTROL|CONTEXT_INTEGER|CONTEXT_SEGMENTS|CONTEXT_FLOATING_POINT|CONTEXT_EXTENDED_REGISTERS\<close>\<close>

abbreviation ALL_CONTEXT_FLAGS :: guint32 where "ALL_CONTEXT_FLAGS \<equiv> 0x1002f"

text \<open>The local context \<open>tc\<close> is neither copied from nor to the argument \<open>context\<close>, which is not used.\<close>

definition get_set_registers :: "'k win32 \<Rightarrow> RW_FLAG \<Rightarrow> ('k, 'z) windows_scheme \<Rightarrow> bool \<times> ('k, 'z) windows_scheme" where
  "get_set_registers K flag s =
     (case flag of
        READ \<Rightarrow> (case GetThreadContext K (wk s) (thread_handle (debuggee s)) of (c, k) \<Rightarrow> (c \<noteq> None, s\<lparr> wk := k \<rparr>))
      | WRITE \<Rightarrow>
          (case SetThreadContext K (wk s) (thread_handle (debuggee s)) (zero_CONTEXT\<lparr> ContextFlags := ALL_CONTEXT_FLAGS \<rparr>) of
             (ok, k) \<Rightarrow> (ok, s\<lparr> wk := k \<rparr>)))"

definition decrement_ip :: "'k win32 \<Rightarrow> win_handle \<Rightarrow> ('k, 'z) windows_scheme \<Rightarrow> bool \<times> ('k, 'z) windows_scheme" where
  "decrement_ip K h s =
     (let c = win_context (debuggee s); tc = c\<lparr> Eip := Eip c - 1, ContextFlags := 0x10001 \<rparr>;
          (ok, k) = SetThreadContext K (wk s) h tc in (ok, s\<lparr> wk := k \<rparr>))"

definition server_win32_get_registers :: ServerCommandError where
  "server_win32_get_registers = COMMAND_ERROR_NONE"

text \<open>The -1 that the source returns is no member of \<open>ServerCommandError\<close>: \<open>Inl\<close>.\<close>

definition server_win32_set_registers :: "'k win32 \<Rightarrow> nat \<Rightarrow> ('k, 'z) windows_scheme \<Rightarrow> (int + ServerCommandError) \<times> ('k, 'z) windows_scheme" where
  "server_win32_set_registers K h s =
     (case get_set_registers K READ (s\<lparr> m_server_handle := Some h \<rparr>) of
        (ok, s) \<Rightarrow> (if ok then Inr COMMAND_ERROR_NONE else Inl (-1), s))"

definition server_win32_get_frame ::
  "'k win32 \<Rightarrow> nat \<Rightarrow> ('k, 'z) windows_scheme \<Rightarrow> (ServerCommandError \<times> StackFrame option \<times> ('k, 'z) windows_scheme) option" where
  "server_win32_get_frame K h s = do {
     srv \<leftarrow> win_servers s h;
     Some (case get_set_registers K READ (s\<lparr> m_server_handle := Some h \<rparr>) of
       (False, s) \<Rightarrow> (COMMAND_ERROR_INTERNAL_ERROR, None, s)
     | (True, s) \<Rightarrow>
         let r = win_current_regs srv in
         (COMMAND_ERROR_NONE, Some \<lparr> frame_pc = ucast (Eip r), frame_stack_pointer = ucast (Esp r), frame_address = ucast (Ebp r) \<rparr>, s))
   }"

section \<open>Source lines\<close>

text \<open>The lines are scanned from \<open>i\<close> on; of several lines at one address the last one counts.\<close>

fun breakline_at :: "guint32 list \<Rightarrow> guint32 list \<Rightarrow> guint32 \<Rightarrow> guint32" where
  "breakline_at (o1 # o2 # os) (n1 # ns) eip =
     (if o1 = eip then (if o2 = eip then breakline_at (o2 # os) ns eip else n1) else breakline_at (o2 # os) ns eip)"
| "breakline_at [o1] (n1 # ns) eip = (if o1 = eip then n1 else 0)"
| "breakline_at _ _ eip = 0"

definition is_breakline_in_current_function :: "guint32 \<Rightarrow> ('k, 'z) windows_scheme \<Rightarrow> guint32" where
  "is_breakline_in_current_function eip s =
     (case function_descriptor (current_function (debuggee s)) of
        None \<Rightarrow> 0
      | Some fn \<Rightarrow> breakline_at (first_line_offset fn) (first_line_number fn) eip)"

definition current_function_valid :: "guint32 \<Rightarrow> ('k, 'z) windows_scheme \<Rightarrow> bool" where
  "current_function_valid eip s =
     (let cf = current_function (debuggee s) in
      if cf_start_address cf \<le> eip \<and> eip < cf_end_address cf then True
      else case function_descriptor cf of
        None \<Rightarrow> False
      | Some fd \<Rightarrow> fd_address fd \<le> eip \<and> eip < cf_start_address cf)"

definition find_current_function_by_address :: "guint32 \<Rightarrow> bool" where
  "find_current_function_by_address eip = True"

definition find_line_in_function :: "function_decriptor_rec option \<Rightarrow> guint32 \<Rightarrow> guint32" where
  "find_line_in_function fd eip = 0"

text \<open>\<open>current_function\<close> is a copy of the struct, so its flags are lost; the function descriptor behind its pointer is not.\<close>

definition single_step_checks :: "'k win32 \<Rightarrow> guint32 \<Rightarrow> ('k, 'z) windows_scheme \<Rightarrow> (nat \<times> ('k, 'z) windows_scheme) option" where
  "single_step_checks K eip s =
     (let line = is_breakline_in_current_function eip s; cf = current_function (debuggee s) in
      if line \<noteq> 0 then
        let s = set_stepping False (snd (set_step_flag K False s)) in
        case function_descriptor cf of
          None \<Rightarrow> None
        | Some fd \<Rightarrow>
            Some (0, upd_debuggee (\<lambda>d. d\<lparr> last_valid_source_line := line,
               current_function := (current_function d)\<lparr> function_descriptor := Some (fd\<lparr> last_valid_line := line AND 0xffff \<rparr>) \<rparr> \<rparr>) s)
      else if \<not> current_function_valid eip s then
        (if find_current_function_by_address eip then
           let s = set_stepping False (snd (set_step_flag K False s)) in
           Some (0, upd_debuggee (\<lambda>d. d\<lparr> last_valid_source_line := find_line_in_function (function_descriptor cf) eip \<rparr>) s)
         else Some (2, set_stepping False (snd (set_step_flag K False (snd (set_all_code_pages_access K True s))))))
      else Some (1, s))"

section \<open>The target's memory in the debugging thread\<close>

definition read_from_debuggee :: "'k win32 \<Rightarrow> guint32 \<Rightarrow> guint32 \<Rightarrow> ('k, 'z) windows_scheme \<Rightarrow> bool \<times> guint8 list \<times> ('k, 'z) windows_scheme" where
  "read_from_debuggee K start n s =
     (case ReadProcessMemory K (wk s) (process_handle (debuggee s)) start n of (ok, bytes, k) \<Rightarrow> (ok, bytes, s\<lparr> wk := k \<rparr>))"

text \<open>The protection is changed for the write and put back; the result is that of putting it back.\<close>

definition write_opcode :: "'k win32 \<Rightarrow> win_handle \<Rightarrow> guint32 \<Rightarrow> guint8 \<Rightarrow> ('k, 'z) windows_scheme \<Rightarrow> bool \<times> ('k, 'z) windows_scheme" where
  "write_opcode K h addr opcode s =
     (case VirtualProtectEx K (wk s) h addr 1 PAGE_READWRITE of
        (None, k) \<Rightarrow> (False, s\<lparr> wk := k \<rparr>)
      | (Some old, k) \<Rightarrow>
          (case WriteProcessMemory K k h addr [opcode] of (_, _, k) \<Rightarrow>
             (case VirtualProtectEx K k h addr 1 old of (r, k) \<Rightarrow> (r \<noteq> None, s\<lparr> wk := k \<rparr>))))"

definition win_remove_breakpoint :: "'k win32 \<Rightarrow> BreakpointInfo \<Rightarrow> ('k, 'z) windows_scheme \<Rightarrow> (bool \<times> ('k, 'z) windows_scheme) option" where
  "win_remove_breakpoint K b s =
     (if \<not> bp_address b < 0xffffffff then None
      else Some (write_opcode K (process_handle (debuggee s)) (ucast (bp_address b)) (saved_insn b) s))"

text \<open>
  \<open>debuggee\<close> is a copy, so \<open>eip\<close> is not moved and the address read from the import table does not reach the registers.
\<close>

definition resume_from_imports_table :: "'k win32 \<Rightarrow> bool \<Rightarrow> ('k, 'z) windows_scheme \<Rightarrow> bool \<times> ('k, 'z) windows_scheme" where
  "resume_from_imports_table K flag s =
     (case read_from_debuggee K (Eip (win_context (debuggee s))) 4 s of
        (False, _, s) \<Rightarrow> (False, s)
      | (True, pdata, s) \<Rightarrow>
          (case read_from_debuggee K (le_word pdata) 4 s of
             (False, _, s) \<Rightarrow> (False, s)
           | (True, data, s) \<Rightarrow> get_set_registers K WRITE s))"

section \<open>Debug events\<close>

abbreviation EXCEPTION_BREAKPOINT :: guint32 where "EXCEPTION_BREAKPOINT \<equiv> 0x80000003"
abbreviation EXCEPTION_SINGLE_STEP :: guint32 where "EXCEPTION_SINGLE_STEP \<equiv> 0x80000004"
abbreviation EXCEPTION_ACCESS_VIOLATION :: guint32 where "EXCEPTION_ACCESS_VIOLATION \<equiv> 0xc0000005"
abbreviation DBG_CONTINUE :: guint32 where "DBG_CONTINUE \<equiv> 0x00010002"
abbreviation DBG_EXCEPTION_NOT_HANDLED :: guint32 where "DBG_EXCEPTION_NOT_HANDLED \<equiv> 0x80010001"
abbreviation CREATE_THREAD_DEBUG_EVENT :: guint32 where "CREATE_THREAD_DEBUG_EVENT \<equiv> 2"
abbreviation CREATE_PROCESS_DEBUG_EVENT :: guint32 where "CREATE_PROCESS_DEBUG_EVENT \<equiv> 3"
abbreviation EXIT_PROCESS_DEBUG_EVENT :: guint32 where "EXIT_PROCESS_DEBUG_EVENT \<equiv> 5"
abbreviation BREAKPOINT_HIT_DEBUG_EVENT :: guint32 where "BREAKPOINT_HIT_DEBUG_EVENT \<equiv> 0x10000"

text \<open>
  The first exception case falls through to the end of single-step mode when the import table could be resumed from. The results are
  \<open>b_continue\<close>, \<open>*unknown_exception\<close> and the state; on the early return for a first chance the thread is not put back.
\<close>

definition single_step_exception :: "'k win32 \<Rightarrow> ('k, 'z) windows_scheme \<Rightarrow> ('k, 'z) windows_scheme" where
  "single_step_exception K s =
     (let finish = (\<lambda>s. if get_stepping s then s else snd (set_step_flag K False s)) in
      if one_shot_step (debuggee s) then
        let s = set_stepping False (upd_debuggee (\<lambda>d. d\<lparr> one_shot_step := False \<rparr>) s) in
        (case resume_from_imports_table K False s of
           (True, s) \<Rightarrow> finish (snd (set_step_flag K False (snd (set_all_code_pages_access K True s))))
         | (False, s) \<Rightarrow> s)
      else finish s)"

definition do_debug_exception_event ::
  "(guint32 \<Rightarrow> ('k, 'z) windows_scheme \<Rightarrow> bool \<times> ('k, 'z) windows_scheme) \<Rightarrow> 'k win32 \<Rightarrow> guint32 \<Rightarrow> guint32 \<Rightarrow> guint32 \<Rightarrow> guint32 \<Rightarrow> bool \<Rightarrow>
     ('k, 'z) windows_scheme \<Rightarrow> bool \<times> bool \<times> ('k, 'z) windows_scheme" where
  "do_debug_exception_event on_breakpoint_exception K pid tid code addr first_chance s =
     (if process_id (debuggee s) \<noteq> 0 \<and> pid \<noteq> process_id (debuggee s) then (True, False, s)
      else
        let s = upd_debuggee (\<lambda>d. d\<lparr> last_eip := win_eip d, win_eip := addr \<rparr>) s;
            save_handle = thread_handle (debuggee s); save_id = thread_id (debuggee s);
            put_back = upd_debuggee (\<lambda>d. d\<lparr> thread_handle := save_handle, thread_id := save_id \<rparr>);
            s = (if thread_id (debuggee s) \<noteq> tid then snd (activate_thread tid s) else s) in
        if code = EXCEPTION_BREAKPOINT then
          (case on_breakpoint_exception addr s of (b_continue, s) \<Rightarrow> (b_continue, False, put_back s))
        else if code = EXCEPTION_SINGLE_STEP then (True, False, put_back (single_step_exception K s))
        else if code = EXCEPTION_ACCESS_VIOLATION \<and> inaccessible_flag (debuggee s) then
          (True, False, put_back (snd (set_step_flag K True (snd (set_all_code_pages_access K False (set_stepping True s))))))
        else if first_chance then (True, True, s)
        else (False, True, put_back (s\<lparr> g_paused := True \<rparr>)))"

definition add_dll_to_dll_list :: "'k win32 \<Rightarrow> guint8 list option \<Rightarrow> guint32 \<Rightarrow> win_handle \<Rightarrow> guint32 \<Rightarrow> ('k, 'z) windows_scheme \<Rightarrow> ('k, 'z) windows_scheme" where
  "add_dll_to_dll_list K name base file debug_offset s =
     (if debug_offset = 0 then s\<lparr> wk := CloseHandle K (wk s) file \<rparr>
      else (upd_debuggee (\<lambda>d. d\<lparr> dll_load_address := base \<rparr>) s)
        \<lparr> m_loaded_dlls := \<lparr> dll_name = name, dll_base = base, dll_file_handle = file \<rparr> # m_loaded_dlls s \<rparr>)"

definition add_to_bridge :: "guint32 \<Rightarrow> ('k, 'z) windows_scheme \<Rightarrow> ('k, 'z) windows_scheme" where
  "add_to_bridge status s = s\<lparr> bridge := bridge s @ [status] \<rparr>"

text \<open>The name of a library: the pointer to it is read from the target, then 300 bytes.\<close>

definition read_dll_name :: "'k win32 \<Rightarrow> guint32 \<Rightarrow> bool \<Rightarrow> ('k, 'z) windows_scheme \<Rightarrow> guint8 list option \<times> ('k, 'z) windows_scheme" where
  "read_dll_name K image_name unicode s =
     (if image_name = 0 then (None, s)
      else case read_from_debuggee K image_name 4 s of (_, p, s) \<Rightarrow>
        if le_word p = (0 :: guint32) then (None, s)
        else case read_from_debuggee K (le_word p) 300 s of (ok, buf, s) \<Rightarrow>
          (case read_from_debuggee K (le_word p) 300 s of (_, _, s) \<Rightarrow>
             (if \<not> ok then None else Some (takeWhile (\<lambda>b. b \<noteq> 0) (if unicode then wcstombs K buf else buf)), s)))"

definition check_for_debug_event ::
  "(guint32 \<Rightarrow> ('k, 'z) windows_scheme \<Rightarrow> bool \<times> ('k, 'z) windows_scheme) \<Rightarrow> 'k win32 \<Rightarrow> ('k, 'z) windows_scheme \<Rightarrow> ('k, 'z) windows_scheme option" where
  "check_for_debug_event on_breakpoint_exception K s =
     (case WaitForDebugEvent K (wk s) of
        (None, k) \<Rightarrow> Some (s\<lparr> wk := k \<rparr>)
      | (Some e, k) \<Rightarrow>
          let s = s\<lparr> wk := k \<rparr>;
              continue_as = (\<lambda>status s. s\<lparr> wk := ContinueDebugEvent K (wk s) (dwProcessId e) (dwThreadId e) status \<rparr>);
              finish = (\<lambda>b_continue s. if b_continue then Some (continue_as DBG_CONTINUE s)
                          else map_option snd (ResetEvent EVENT_RUNNING (s\<lparr> g_paused := True \<rparr>))) in
          case dwInfo e of
            Exception code addr first_chance \<Rightarrow>
              if code = EXCEPTION_ACCESS_VIOLATION then
                Some (continue_as DBG_EXCEPTION_NOT_HANDLED (snd (set_step_flag K False s)))
              else
                (case do_debug_exception_event on_breakpoint_exception K (dwProcessId e) (dwThreadId e) code addr first_chance s of
                   (b_continue, unknown, s) \<Rightarrow>
                     if unknown \<and> first_chance then Some (continue_as DBG_EXCEPTION_NOT_HANDLED s) else finish b_continue s)
          | CreateProcessInfo start base \<Rightarrow>
              if 0 < breakpoint_hit (debuggee s) then finish True (upd_debuggee (\<lambda>d. d\<lparr> created_new_process := True \<rparr>) s)
              else
                finish True (add_to_bridge CREATE_PROCESS_DEBUG_EVENT
                  ((upd_debuggee (\<lambda>d. d\<lparr> start_address := start, image_base := base \<rparr>) s)
                   \<lparr> g_attached := True, g_paused := True,
                     thread_list := thread_list s @ [\<lparr> tr_thread_handle = thread_handle (debuggee s),
                       tr_thread_id = thread_id (debuggee s), intial_sp = 0 \<rparr>] \<rparr>))
          | LoadDllInfo image_name unicode base file debug_offset \<Rightarrow>
              (case read_dll_name K image_name unicode s of
                 (name, s) \<Rightarrow> finish True (add_dll_to_dll_list K name base file debug_offset s))
          | ExitProcessInfo \<Rightarrow>
              if dwProcessId e \<noteq> process_id (debuggee s) then finish True s
              else Some (s\<lparr> g_attached := False, g_paused := True \<rparr>)
          | _ \<Rightarrow> finish True s)"

definition do_terminate_process :: "'k win32 \<Rightarrow> win_handle \<Rightarrow> ('k, 'z) windows_scheme \<Rightarrow> ('k, 'z) windows_scheme option" where
  "do_terminate_process K h s =
     (let s = snd (set_step_flag K False (s\<lparr> wk := TerminateProcess K (wk s) h \<rparr>));
          s = (if g_paused s then s else s\<lparr> wk := ResumeThread K (wk s) (thread_handle (debuggee s)) \<rparr>) in
      map_option snd (SetEvent EVENT_RESUME (s\<lparr> g_paused := False \<rparr>)))"

section \<open>The debugging thread\<close>

definition set_debuggee_process_information :: "PROCESS_INFORMATION \<Rightarrow> ('k, 'z) windows_scheme \<Rightarrow> ('k, 'z) windows_scheme" where
  "set_debuggee_process_information info = upd_debuggee (\<lambda>d. d\<lparr> process_handle := hProcess info, thread_handle := hThread info,
     process_id := pi_dwProcessId info, thread_id := pi_dwThreadId info \<rparr>)"

definition set_debugger_handle_and_thread_id :: "win_handle \<Rightarrow> guint32 \<Rightarrow> ('k, 'z) windows_scheme \<Rightarrow> ('k, 'z) windows_scheme" where
  "set_debugger_handle_and_thread_id h tid s = s\<lparr> debugger_handle := h, debugger_id := tid \<rparr>"

definition launch_debuggee :: "'k win32 \<Rightarrow> ('k, 'z) windows_scheme \<Rightarrow> (bool \<times> ('k, 'z) windows_scheme) option" where
  "launch_debuggee K s = do {
     h \<leftarrow> m_server_handle s;
     srv \<leftarrow> win_servers s h;
     dir \<leftarrow> w_working_directory s;
     (case CreateProcess K (wk s) (w_argv_flattened s) (w_envp_flattened s) dir of
        (None, k) \<Rightarrow> Some (False, s\<lparr> wk := k \<rparr>)
      | (Some info, k) \<Rightarrow> do {
          let s = set_debuggee_process_information info (s\<lparr> wk := k \<rparr>);
          let inf = (win_inf srv)\<lparr> wi_pid := process_id (debuggee s), wi_process_handle := process_handle (debuggee s),
                       wi_thread_handle := thread_handle (debuggee s) \<rparr>;
          (_, s) \<leftarrow> SetEvent EVENT_RESULT (s\<lparr> win_servers := (win_servers s)(h \<mapsto> srv\<lparr> win_inf := inf \<rparr>) \<rparr>);
          Some (True, s)
        })
   }"

text \<open>Storing the bytes that were read in the caller's buffer.\<close>

definition fill_buffer :: "guint8 list \<Rightarrow> info_buf_rec \<Rightarrow> info_buf_rec" where
  "fill_buffer bytes ib = ib\<lparr> ib_buffer := bytes @ drop (length bytes) (ib_buffer ib), read_or_written_bytes := of_nat (length bytes) \<rparr>"

text \<open>What the thread does for the command event \<open>i\<close>.\<close>

definition debugging_thread_command ::
  "(guint32 \<Rightarrow> ('k, 'z) windows_scheme \<Rightarrow> bool \<times> ('k, 'z) windows_scheme) \<Rightarrow> 'k win32 \<Rightarrow> nat \<Rightarrow> ('k, 'z) windows_scheme \<Rightarrow>
     ('k, 'z) windows_scheme option" where
  "debugging_thread_command on_breakpoint_exception K i s =
     (if i = EVENT_RUNNING then check_for_debug_event on_breakpoint_exception K s
      else if i = EVENT_RESUME then do {
        (_, s) \<leftarrow> SetEvent EVENT_RUNNING s;
        Some (s\<lparr> g_paused := False,
          wk := ContinueDebugEvent K (wk s) (process_id (debuggee s)) (thread_id (debuggee s)) DBG_CONTINUE \<rparr>)
      }
      else if i = EVENT_MEMORY_READ then do {
        (ok, s) \<leftarrow> ResetEvent EVENT_MEMORY_READ s;
        let s = (if \<not> ok then s\<lparr> m_info_buf := (m_info_buf s)\<lparr> read_or_written_bytes := 0 \<rparr> \<rparr>
                 else case ReadProcessMemory K (wk s) (process_handle (debuggee s)) (ucast (ib_start (m_info_buf s))) (ib_size (m_info_buf s)) of
                   (_, bytes, k) \<Rightarrow> s\<lparr> wk := k, m_info_buf := fill_buffer bytes (m_info_buf s) \<rparr>);
        (_, s) \<leftarrow> SetEvent EVENT_RESULT s;
        Some s
      }
      else if i = EVENT_MEMORY_WRITE then do {
        (ok, s) \<leftarrow> ResetEvent EVENT_MEMORY_WRITE s;
        let s = (if \<not> ok then s\<lparr> m_info_buf := (m_info_buf s)\<lparr> read_or_written_bytes := 0 \<rparr> \<rparr>
                 else case WriteProcessMemory K (wk s) (process_handle (debuggee s)) (ucast (ib_start (m_info_buf s)))
                     (take (unat (ib_size (m_info_buf s))) (ib_buffer (m_info_buf s))) of
                   (_, n, k) \<Rightarrow> s\<lparr> wk := k, m_info_buf := (m_info_buf s)\<lparr> read_or_written_bytes := n \<rparr> \<rparr>);
        (_, s) \<leftarrow> SetEvent EVENT_RESULT s;
        Some s
      }
      else if i = EVENT_KILL then Some (s\<lparr> g_attached := False \<rparr>)
      else Some s)"

partial_function (option) debugging_thread_loop ::
  "(guint32 \<Rightarrow> ('k, 'z) windows_scheme \<Rightarrow> bool \<times> ('k, 'z) windows_scheme) \<Rightarrow> 'k win32 \<Rightarrow> ('k, 'z) windows_scheme \<Rightarrow> ('k, 'z) windows_scheme option" where
  "debugging_thread_loop on_breakpoint_exception K s =
     (if \<not> g_attached s then Some s
      else do {
        (i, s) \<leftarrow> wait_for_command s;
        s \<leftarrow> debugging_thread_command on_breakpoint_exception K i s;
        debugging_thread_loop on_breakpoint_exception K s
      })"

definition debugging_thread ::
  "(guint32 \<Rightarrow> ('k, 'z) windows_scheme \<Rightarrow> bool \<times> ('k, 'z) windows_scheme) \<Rightarrow> 'k win32 \<Rightarrow> ('k, 'z) windows_scheme \<Rightarrow> ('k, 'z) windows_scheme option" where
  "debugging_thread on_breakpoint_exception K s = do {
     (ok, s) \<leftarrow> launch_debuggee K (s\<lparr> g_attached := False \<rparr>);
     s \<leftarrow> (if ok then map_option snd (SetEvent EVENT_RUNNING (s\<lparr> g_attached := True \<rparr>)) else Some s);
     s \<leftarrow> debugging_thread_loop on_breakpoint_exception K s;
     (_, s) \<leftarrow> ResetEvent EVENT_RUNNING s;
     Some (s\<lparr> g_attached := False \<rparr>)
   }"

definition start_debugging :: "'k win32 \<Rightarrow> ('k, 'z) windows_scheme \<Rightarrow> (bool \<times> ('k, 'z) windows_scheme) option" where
  "start_debugging K s = do {
     h \<leftarrow> m_server_handle s;
     _ \<leftarrow> win_servers s h;
     if debugger_handle s \<noteq> 0 then Some (True, s)
     else do {
       (ok, s) \<leftarrow> (if m_command_events s ! EVENT_RUNNING = None then initialize_events K s else Some (True, s));
       if \<not> ok then Some (False, s)
       else case CreateThread K (wk s) of ((dbg, tid), k) \<Rightarrow>
         if dbg = 0 then Some (False, s\<lparr> wk := k, debugger_handle := 0 \<rparr>)
         else Some (True, set_debugger_handle_and_thread_id dbg tid (s\<lparr> wk := k \<rparr>))
     }
   }"

section \<open>Starting a target\<close>

text \<open>
  \<open>swprintf\<close> into the \<open>n\<close> characters from \<open>off\<close> on: when the text and its zero do not fit in \<open>n\<close>, the contents of the array are not
  specified.
\<close>

definition swprintf_at :: "gunichar2 list \<Rightarrow> nat \<Rightarrow> nat \<Rightarrow> gunichar2 list \<Rightarrow> gunichar2 list option" where
  "swprintf_at arr off n text =
     (if n \<le> length text \<or> length arr < off + length text + 1 then None
      else Some (take off arr @ text @ [0] @ drop (off + length text + 1) arr))"

fun flatten_envp_loop :: "'k win32 \<Rightarrow> string list \<Rightarrow> gunichar2 list \<Rightarrow> nat \<Rightarrow> nat \<Rightarrow> gunichar2 list option" where
  "flatten_envp_loop K [] arr off n = swprintf_at arr off n []"
| "flatten_envp_loop K (e # es) arr off n = do {
     let text = g_utf8_to_utf16 K e;
     arr \<leftarrow> swprintf_at arr off n text;
     flatten_envp_loop K es arr (off + length text + 1) (n - length text)
   }"

text \<open>The memory that \<open>g_malloc\<close> returns is \<open>fresh\<close>, of the length that is asked for.\<close>

definition envp_length :: "string list \<Rightarrow> nat" where
  "envp_length envp = sum_list (map (\<lambda>e. length e + 1) envp) + 1"

definition flatten_envp :: "'k win32 \<Rightarrow> (nat \<Rightarrow> gunichar2 list) \<Rightarrow> string list \<Rightarrow> gunichar2 list option" where
  "flatten_envp K fresh envp = flatten_envp_loop K envp (fresh (envp_length envp)) 0 (envp_length envp)"

fun flatten_argv_loop :: "'k win32 \<Rightarrow> string list \<Rightarrow> gunichar2 list \<Rightarrow> nat \<Rightarrow> nat \<Rightarrow> gunichar2 list option" where
  "flatten_argv_loop K [] arr off n = Some arr"
| "flatten_argv_loop K (a # as) arr off n = do {
     let text = g_utf8_to_utf16 K a @ [0x20];
     arr \<leftarrow> swprintf_at arr off n text;
     flatten_argv_loop K as arr (off + length text) (n - length text)
   }"

definition argv_length :: "string list \<Rightarrow> nat" where
  "argv_length argv = sum_list (map (\<lambda>a. length a + 1) argv)"

definition flatten_argv :: "'k win32 \<Rightarrow> (nat \<Rightarrow> gunichar2 list) \<Rightarrow> string list \<Rightarrow> gunichar2 list option" where
  "flatten_argv K fresh argv = flatten_argv_loop K argv (fresh (argv_length argv)) 0 (argv_length argv)"

text \<open>
  \<open>server_win32_spawn\<close>. \<open>wait_result_event\<close> is what happens until \<open>EVENT_RESULT\<close> is signalled: the other threads run.
\<close>

definition server_win32_spawn ::
  "(('k, 'z) windows_scheme \<Rightarrow> ('k, 'z) windows_scheme option) \<Rightarrow> 'k win32 \<Rightarrow> (nat \<Rightarrow> gunichar2 list) \<Rightarrow> nat \<Rightarrow> string option \<Rightarrow>
     string list option \<Rightarrow> string list option \<Rightarrow> ('k, 'z) windows_scheme \<Rightarrow>
     (ServerCommandError \<times> guint32 option \<times> ('k, 'z) windows_scheme) option" where
  "server_win32_spawn wait_result_event K fresh h working_directory argv envp s = do {
     srv \<leftarrow> win_servers s h;
     env \<leftarrow> (case envp of None \<Rightarrow> Some None | Some es \<Rightarrow> map_option Some (flatten_envp K fresh es));
     cmd \<leftarrow> (case argv of None \<Rightarrow> Some None | Some as \<Rightarrow> map_option Some (flatten_argv K fresh as));
     let srv = (case argv of None \<Rightarrow> srv | Some as \<Rightarrow> srv\<lparr> win_inf := (win_inf srv)\<lparr> wi_argv := Some as \<rparr> \<rparr>);
     let s = s\<lparr> win_servers := (win_servers s)(h \<mapsto> srv), m_server_handle := Some h,
                w_working_directory := map_option (g_utf8_to_utf16 K) working_directory,
                w_argv_flattened := cmd, w_envp_flattened := env \<rparr>;
     (_, s) \<leftarrow> ResetEvent EVENT_RESULT s;
     (ok, s) \<leftarrow> start_debugging K s;
     if \<not> ok then Some (COMMAND_ERROR_NO_TARGET, None, s)
     else do {
       s \<leftarrow> wait_result_event s;
       Some (COMMAND_ERROR_NONE, Some (process_id (debuggee s)), s)
     }
   }"

section \<open>Memory\<close>

text \<open>
  \<open>read_write_memory\<close>. \<open>wait_result\<close> is the wait for \<open>EVENT_RESULT\<close> with its timeout, in which the debugging thread runs. The last
  results are the caller's buffer, which the debugging thread may have changed, and the state. A critical section on the stack of the
  caller protects nothing.
\<close>

definition read_write_memory ::
  "(('k, 'z) windows_scheme \<Rightarrow> wait_result \<times> ('k, 'z) windows_scheme) \<Rightarrow> nat \<Rightarrow> guint64 \<Rightarrow> guint32 \<Rightarrow> guint8 list \<Rightarrow>
     ('k, 'z) windows_scheme \<Rightarrow> (ServerCommandError \<times> guint8 list \<times> ('k, 'z) windows_scheme) option" where
  "read_write_memory wait_result h start n buffer s = do {
     let s = s\<lparr> m_server_handle := Some h, m_info_buf := (m_info_buf s)\<lparr> ib_start := start, ib_size := n, ib_buffer := buffer \<rparr> \<rparr>;
     (ok, s) \<leftarrow> ResetEvent EVENT_RESULT s;
     if \<not> ok then Some (COMMAND_ERROR_MEMORY_ACCESS, buffer, s)
     else do {
       (ok, s) \<leftarrow> SetEvent EVENT_MEMORY_READ s;
       if \<not> ok then Some (COMMAND_ERROR_MEMORY_ACCESS, buffer, s)
       else
         let (r, s) = wait_result s; buffer = ib_buffer (m_info_buf s) in
         if r = WAIT_FAILED \<or> read_or_written_bytes (m_info_buf s) = 0 then Some (COMMAND_ERROR_MEMORY_ACCESS, buffer, s)
         else Some (COMMAND_ERROR_NONE, buffer, s)
     }
   }"

definition server_win32_read_memory ::
  "(('k, 'z) windows_scheme \<Rightarrow> wait_result \<times> ('k, 'z) windows_scheme) \<Rightarrow> nat \<Rightarrow> guint64 \<Rightarrow> guint32 \<Rightarrow> guint8 list \<Rightarrow>
     ('k, 'z) windows_scheme \<Rightarrow> (ServerCommandError \<times> guint8 list \<times> ('k, 'z) windows_scheme) option" where
  "server_win32_read_memory = read_write_memory"

definition server_win32_write_memory ::
  "(('k, 'z) windows_scheme \<Rightarrow> wait_result \<times> ('k, 'z) windows_scheme) \<Rightarrow> nat \<Rightarrow> guint64 \<Rightarrow> guint32 \<Rightarrow> guint8 list \<Rightarrow>
     ('k, 'z) windows_scheme \<Rightarrow> (ServerCommandError \<times> guint8 list \<times> ('k, 'z) windows_scheme) option" where
  "server_win32_write_memory = read_write_memory"

section \<open>Breakpoints\<close>

abbreviation BP_OPCODE :: guint8 where "BP_OPCODE \<equiv> 0xcc"

text \<open>The buffers that are handed over are the member \<open>saved_insn\<close> and the local variable \<open>bopcode\<close>.\<close>

definition win_enable_breakpoint ::
  "(('k, 'z) windows_scheme \<Rightarrow> wait_result \<times> ('k, 'z) windows_scheme) \<Rightarrow> nat \<Rightarrow> bp_ptr \<Rightarrow> ('k, 'z) windows_scheme \<Rightarrow>
     (ServerCommandError \<times> ('k, 'z) windows_scheme) option" where
  "win_enable_breakpoint wait_result h p s = do {
     b \<leftarrow> bp_heap s p;
     if enabled b then Some (COMMAND_ERROR_NONE, s)
     else do {
       let addr = ucast (ucast (bp_address b) :: guint32);
       (r, buf, s) \<leftarrow> server_win32_read_memory wait_result h addr 1 [saved_insn b] s;
       b \<leftarrow> bp_heap s p;
       let s = bp_set p (b\<lparr> saved_insn := hd buf \<rparr>) s;
       if r \<noteq> COMMAND_ERROR_NONE then Some (r, s)
       else do {
         (r, _, s) \<leftarrow> server_win32_write_memory wait_result h addr 1 [BP_OPCODE] s;
         Some (r, s)
       }
     }
   }"

definition win_disable_breakpoint ::
  "(('k, 'z) windows_scheme \<Rightarrow> wait_result \<times> ('k, 'z) windows_scheme) \<Rightarrow> nat \<Rightarrow> bp_ptr \<Rightarrow> ('k, 'z) windows_scheme \<Rightarrow>
     (ServerCommandError \<times> ('k, 'z) windows_scheme) option" where
  "win_disable_breakpoint wait_result h p s = do {
     b \<leftarrow> bp_heap s p;
     if \<not> enabled b then Some (COMMAND_ERROR_NONE, s)
     else do {
       (r, buf, s) \<leftarrow> server_win32_write_memory wait_result h (ucast (ucast (bp_address b) :: guint32)) 1 [saved_insn b] s;
       b \<leftarrow> bp_heap s p;
       Some (r, bp_set p (b\<lparr> saved_insn := hd buf \<rparr>) s)
     }
   }"

definition set_win_bpm :: "nat \<Rightarrow> 32 BreakpointManager \<Rightarrow> ('k, 'z) windows_scheme \<Rightarrow> ('k, 'z) windows_scheme" where
  "set_win_bpm h m s = s\<lparr> win_servers := (win_servers s)(h := map_option (\<lambda>srv. srv\<lparr> win_bpm := m \<rparr>) (win_servers s h)) \<rparr>"

definition server_win32_insert_breakpoint ::
  "(('k, 'z) windows_scheme \<Rightarrow> wait_result \<times> ('k, 'z) windows_scheme) \<Rightarrow> nat \<Rightarrow> guint64 \<Rightarrow> ('k, 'z) windows_scheme \<Rightarrow>
     (ServerCommandError \<times> guint32 option \<times> ('k, 'z) windows_scheme) option" where
  "server_win32_insert_breakpoint wait_result h addr s = do {
     let s = mono_debugger_breakpoint_manager_lock s;
     srv \<leftarrow> win_servers s h;
     case mono_debugger_breakpoint_manager_lookup (win_bpm srv) addr of
       Some p \<Rightarrow> do {
         b \<leftarrow> bp_heap s p;
         if is_hardware_bpt b then Some (COMMAND_ERROR_DR_OCCUPIED, None, mono_debugger_breakpoint_manager_unlock s)
         else Some (COMMAND_ERROR_NONE, Some (word_of_int (bp_id b)),
           mono_debugger_breakpoint_manager_unlock (bp_set p (b\<lparr> refcount := refcount b + 1 \<rparr>) s))
       }
     | None \<Rightarrow> do {
         let (new_id, s) = mono_debugger_breakpoint_manager_get_next_id s;
         let (p, s) = bp_alloc (BreakpointInfo_zero\<lparr> refcount := 1, bp_address := addr, is_hardware_bpt := False,
                        bp_id := new_id, dr_index := -1 \<rparr>) s;
         (r, s) \<leftarrow> win_enable_breakpoint wait_result h p s;
         if r \<noteq> COMMAND_ERROR_NONE then Some (r, None, bp_free p (mono_debugger_breakpoint_manager_unlock s))
         else do {
           b \<leftarrow> bp_heap s p;
           let s = bp_set p (b\<lparr> enabled := True \<rparr>) s;
           srv \<leftarrow> win_servers s h;
           m \<leftarrow> mono_debugger_breakpoint_manager_insert (win_bpm srv) p s;
           Some (COMMAND_ERROR_NONE, Some (word_of_int (bp_id b)), mono_debugger_breakpoint_manager_unlock (set_win_bpm h m s))
         }
       }
   }"

definition server_win32_remove_breakpoint ::
  "(('k, 'z) windows_scheme \<Rightarrow> wait_result \<times> ('k, 'z) windows_scheme) \<Rightarrow> nat \<Rightarrow> guint32 \<Rightarrow> ('k, 'z) windows_scheme \<Rightarrow>
     (ServerCommandError \<times> ('k, 'z) windows_scheme) option" where
  "server_win32_remove_breakpoint wait_result h bhandle s = do {
     let s = mono_debugger_breakpoint_manager_lock s;
     srv \<leftarrow> win_servers s h;
     case mono_debugger_breakpoint_manager_lookup_by_id (win_bpm srv) bhandle of
       None \<Rightarrow> Some (COMMAND_ERROR_NO_SUCH_BREAKPOINT, mono_debugger_breakpoint_manager_unlock s)
     | Some p \<Rightarrow> do {
         b \<leftarrow> bp_heap s p;
         let s = bp_set p (b\<lparr> refcount := refcount b - 1 \<rparr>) s;
         if 0 < refcount b - 1 then Some (COMMAND_ERROR_NONE, mono_debugger_breakpoint_manager_unlock s)
         else do {
           (r, s) \<leftarrow> win_disable_breakpoint wait_result h p s;
           if r \<noteq> COMMAND_ERROR_NONE then Some (r, mono_debugger_breakpoint_manager_unlock s)
           else do {
             b \<leftarrow> bp_heap s p;
             let s = bp_set p (b\<lparr> enabled := False \<rparr>) s;
             srv \<leftarrow> win_servers s h;
             (m, s) \<leftarrow> mono_debugger_breakpoint_manager_remove (win_bpm srv) p s;
             Some (COMMAND_ERROR_NONE, mono_debugger_breakpoint_manager_unlock (set_win_bpm h m s))
           }
         }
       }
   }"

definition server_win32_get_breakpoints :: "nat \<Rightarrow> ('k, 'z) windows_scheme \<Rightarrow> (ServerCommandError \<times> guint32 list \<times> ('k, 'z) windows_scheme) option" where
  "server_win32_get_breakpoints h s = do {
     srv \<leftarrow> win_servers s h;
     bs \<leftarrow> those (map (bp_heap s) (mono_debugger_breakpoint_manager_get_breakpoints (win_bpm srv)));
     Some (COMMAND_ERROR_NONE, map (\<lambda>b. word_of_int (bp_id b)) bs, s)
   }"

definition find_breakpoint_by_address :: "guint32 \<Rightarrow> ('k, 'z) windows_scheme \<Rightarrow> bp_ptr option option" where
  "find_breakpoint_by_address addr s = do {
     h \<leftarrow> m_server_handle s;
     srv \<leftarrow> win_servers s h;
     Some (mono_debugger_breakpoint_manager_lookup (win_bpm srv) (ucast addr))
   }"

section \<open>The remaining commands\<close>

definition server_win32_get_server_type :: ServerType where "server_win32_get_server_type = SERVER_TYPE_WIN32"

definition server_win32_get_capabilities :: guint32 where
  "server_win32_get_capabilities = SERVER_CAPABILITIES_THREAD_EVENTS OR SERVER_CAPABILITIES_CAN_DETACH_ANY"

definition server_win32_initialize_process :: ServerCommandError where "server_win32_initialize_process = COMMAND_ERROR_NONE"

definition server_win32_get_signal_info :: "ServerCommandError \<times> SignalInfo" where
  "server_win32_get_signal_info = (COMMAND_ERROR_NONE,
     \<lparr> sigkill = 0, sigstop = 0, sigint = 0, sigchld = 0, sigfpe = 0, sigquit = 0, sigabrt = 0, sigsegv = 0,
       sigill = 0, sigbus = 0, sigwinch = 0, kernel_sigrtmin = 0, mono_thread_abort = 0 \<rparr>)"

text \<open>A new handle is a new entry of \<open>win_servers\<close> at an unused address \<open>h\<close>.\<close>

definition server_win32_create_inferior :: "32 BreakpointManager \<Rightarrow> nat \<Rightarrow> ('k, 'z) windows_scheme \<Rightarrow> ('k, 'z) windows_scheme" where
  "server_win32_create_inferior m h s = s\<lparr> win_servers := (win_servers s)(h \<mapsto> \<lparr> win_bpm = m,
     win_inf = \<lparr> wi_pid = 0, wi_process_handle = 0, wi_thread_handle = 0, wi_argv = None \<rparr>, win_current_regs = zero_CONTEXT \<rparr>) \<rparr>"

definition server_win32_get_target_info :: "ServerCommandError \<times> guint32 \<times> guint32 \<times> guint32 \<times> guint32" where
  "server_win32_get_target_info = (COMMAND_ERROR_NONE, 4, 4, 4, 0)"

text \<open>The queue blocks while it is empty: no result.\<close>

definition server_win32_global_wait :: "('k, 'z) windows_scheme \<Rightarrow> (guint32 \<times> guint32 \<times> ('k, 'z) windows_scheme) option" where
  "server_win32_global_wait s =
     (case bridge s of
        [] \<Rightarrow> None
      | status # rest \<Rightarrow> Some (process_id (debuggee s), status, s\<lparr> bridge := rest \<rparr>))"

definition server_win32_dispatch_simple :: "guint32 \<Rightarrow> ServerStatusMessageType" where
  "server_win32_dispatch_simple status = MESSAGE_UNKNOWN_ERROR"

definition server_win32_dispatch_event :: "guint32 \<Rightarrow> ServerStatusMessageType" where
  "server_win32_dispatch_event status =
     (if status = CREATE_PROCESS_DEBUG_EVENT then MESSAGE_CHILD_EXECD
      else if status = CREATE_THREAD_DEBUG_EVENT then MESSAGE_CHILD_CREATED_THREAD
      else if status = EXIT_PROCESS_DEBUG_EVENT then MESSAGE_CHILD_CALLED_EXIT
      else MESSAGE_UNKNOWN_ERROR)"

text \<open>The executable is the first argument, a null pointer when there is none; the working directory is not set.\<close>

definition server_win32_get_application :: "nat \<Rightarrow> ('k, 'z) windows_scheme \<Rightarrow> (ServerCommandError \<times> string option \<times> string list) option" where
  "server_win32_get_application h s = do {
     srv \<leftarrow> win_servers s h;
     argv \<leftarrow> wi_argv (win_inf srv);
     Some (COMMAND_ERROR_NONE, case argv of [] \<Rightarrow> None | exe # _ \<Rightarrow> Some exe, argv)
   }"

definition server_win32_get_current_pid :: "'k win32 \<Rightarrow> ('k, 'z) windows_scheme \<Rightarrow> guint32" where
  "server_win32_get_current_pid K s = GetCurrentProcessId K (wk s)"

definition server_win32_get_current_thread :: "'k win32 \<Rightarrow> ('k, 'z) windows_scheme \<Rightarrow> guint64" where
  "server_win32_get_current_thread K s = ucast (GetCurrentThreadId K (wk s))"

end
