(* ===== verification/Windows_Properties.thy ===== *)
theory Windows_Properties
  imports Windows
begin

text \<open>
  What the Windows layer does: the protocol of the memory commands between a command and the debugging thread, the blocks of strings that
  start a target, and how far a target can be started at all.
\<close>

section \<open>The command events\<close>

lemma initialize_events_outside:
  assumes "length (m_command_events s) = G_COMMAND_EVENTS_MAX"
  shows "initialize_events K s = None"
  using assms by (simp add: initialize_events_def G_COMMAND_EVENTS_MAX_def split: prod.split)

lemma create_events_ok:
  assumes "\<forall>k. fst (CreateEvent K k)" and "\<forall>i \<in> set is. i < length (m_command_events s)"
  shows "\<exists>s'. create_events K is s = Some s' \<and> length (m_command_events s') = length (m_command_events s) \<and>
    debugger_handle s' = debugger_handle s \<and>
    (\<forall>i < length (m_command_events s). m_command_events s' ! i = (if i \<in> set is then Some False else m_command_events s ! i))"
  using assms(2)
proof (induction "is" arbitrary: s)
  case (Cons i "is")
  obtain k where k: "CreateEvent K (wk s) = (True, k)" using assms(1) by (metis prod.collapse)
  show ?case using Cons.IH [of "s\<lparr> wk := k, m_command_events := (m_command_events s)[i := Some False] \<rparr>"] Cons.prems k
    by (auto simp: nth_list_update)
qed simp

lemma initialize_events_inside:
  assumes "\<forall>k. fst (CreateEvent K k)" and "length (m_command_events s) = Suc G_COMMAND_EVENTS_MAX"
  shows "\<exists>s'. initialize_events K s = Some (True, s') \<and> debugger_handle s' = debugger_handle s"
proof -
  let ?is = "[EVENT_RUNNING, EVENT_RESUME, EVENT_RESULT, EVENT_MEMORY_READ, EVENT_MEMORY_WRITE, EVENT_KILL, EVENT_QUEUE]"
  have n: "length (m_command_events s) = 7" using assms(2) by (simp add: G_COMMAND_EVENTS_MAX_def)
  have "\<forall>i \<in> set ?is. i < length (m_command_events s)" using n by simp
  from create_events_ok [OF assms(1) this] obtain s' where s': "create_events K ?is s = Some s'"
    "length (m_command_events s') = 7" "debugger_handle s' = debugger_handle s"
    "\<forall>i < 7. m_command_events s' ! i = (if i \<in> set ?is then Some False else m_command_events s ! i)"
    unfolding n by blast
  have "m_command_events s' ! i \<noteq> None" if "i < 6" for i
  proof -
    have "i \<in> set ?is" using that by (auto simp: less_Suc_eq numeral_eq_Suc)
    then show ?thesis using s'(4) that by simp
  qed
  then have "list_all (\<lambda>e. e \<noteq> None) (take G_COMMAND_EVENTS_MAX (m_command_events s'))"
    using s'(2) by (simp add: list_all_length G_COMMAND_EVENTS_MAX_def)
  then show ?thesis using s'(1,3) by (simp add: initialize_events_def)
qed

text \<open>
  C29. The array of command events on Windows has six entries, and \<open>initialize_events\<close> stores a seventh at \<open>EVENT_KILL\<close>. So no target
  can be started: the first \<open>server_win32_spawn\<close> writes outside the array, for any arguments and any environment. Nothing else is in its way: if the
  strings fit, the system creates events and threads and the target reports, the same call with an array one entry longer returns
  \<open>COMMAND_ERROR_NONE\<close>.
\<close>

theorem windows_spawn_undefined:
  fixes s :: "('k, 'z) windows_scheme"
  assumes "debugger_handle s = 0" and "win_servers s h \<noteq> None"
    and "\<forall>es. envp = Some es \<longrightarrow> flatten_envp K fresh es \<noteq> None" and "\<forall>as. argv = Some as \<longrightarrow> flatten_argv K fresh as \<noteq> None"
    and "\<forall>k. fst (CreateEvent K k)" and "\<forall>k. fst (fst (CreateThread K k)) \<noteq> 0" and "\<forall>s'. wait_result_event s' \<noteq> None"
  shows "server_win32_spawn wait_result_event K fresh h dir argv envp
      (s\<lparr> m_command_events := replicate G_COMMAND_EVENTS_MAX None \<rparr>) = None \<and>
    (\<exists>pid s'. server_win32_spawn wait_result_event K fresh h dir argv envp
      (s\<lparr> m_command_events := replicate (Suc G_COMMAND_EVENTS_MAX) None \<rparr>) = Some (COMMAND_ERROR_NONE, pid, s'))"
proof -
  obtain srv where srv: "win_servers s h = Some srv" using assms(2) by blast
  obtain env where env: "(case envp of None \<Rightarrow> Some None | Some es \<Rightarrow> map_option Some (flatten_envp K fresh es)) = Some env"
    using assms(3) by (cases envp) auto
  obtain cmd where cmd: "(case argv of None \<Rightarrow> Some None | Some as \<Rightarrow> map_option Some (flatten_argv K fresh as)) = Some cmd"
    using assms(4) by (cases argv) auto
  define ready where "ready events = (s\<lparr> m_command_events := events, win_servers := (win_servers s)(h \<mapsto>
      (case argv of None \<Rightarrow> srv | Some as \<Rightarrow> srv\<lparr> win_inf := (win_inf srv)\<lparr> wi_argv := Some as \<rparr> \<rparr>)), m_server_handle := Some h,
    w_working_directory := map_option (g_utf8_to_utf16 K) dir, w_argv_flattened := cmd, w_envp_flattened := env \<rparr>)" for events
  have run: "server_win32_spawn wait_result_event K fresh h dir argv envp (s\<lparr> m_command_events := replicate n None \<rparr>) =
      Option.bind (start_debugging K (ready (replicate n None))) (\<lambda>(ok, s).
        if \<not> ok then Some (COMMAND_ERROR_NO_TARGET, None, s)
        else Option.bind (wait_result_event s) (\<lambda>s. Some (COMMAND_ERROR_NONE, Some (process_id (debuggee s)), s)))"
    if "EVENT_RESULT < n" for n
    using that srv env cmd by (simp add: server_win32_spawn_def Let_def signal_event_def ready_def)
  have start: "start_debugging K (ready (replicate n None)) = Option.bind (initialize_events K (ready (replicate n None))) (\<lambda>(ok, s).
      if \<not> ok then Some (False, s)
      else case CreateThread K (wk s) of ((dbg, tid), k) \<Rightarrow>
        if dbg = 0 then Some (False, s\<lparr> wk := k, debugger_handle := 0 \<rparr>)
        else Some (True, set_debugger_handle_and_thread_id dbg tid (s\<lparr> wk := k \<rparr>)))" if "0 < n" for n
    using that assms(1) by (simp add: start_debugging_def ready_def)
  have "initialize_events K (ready (replicate G_COMMAND_EVENTS_MAX None)) = None"
    by (rule initialize_events_outside) (simp add: ready_def)
  then have 1: "server_win32_spawn wait_result_event K fresh h dir argv envp
      (s\<lparr> m_command_events := replicate G_COMMAND_EVENTS_MAX None \<rparr>) = None"
    using run [of G_COMMAND_EVENTS_MAX] start [of G_COMMAND_EVENTS_MAX] by (simp add: G_COMMAND_EVENTS_MAX_def)
  obtain s1 where s1: "initialize_events K (ready (replicate (Suc G_COMMAND_EVENTS_MAX) None)) = Some (True, s1)"
    using initialize_events_inside [OF assms(5), of "ready (replicate (Suc G_COMMAND_EVENTS_MAX) None)"] by (auto simp: ready_def)
  obtain dbg tid k where thread: "CreateThread K (wk s1) = ((dbg, tid), k)" "dbg \<noteq> 0"
    using assms(6) by (metis prod.collapse)
  then have "start_debugging K (ready (replicate (Suc G_COMMAND_EVENTS_MAX) None)) =
      Some (True, set_debugger_handle_and_thread_id dbg tid (s1\<lparr> wk := k \<rparr>))"
    using start [of "Suc G_COMMAND_EVENTS_MAX"] s1 by (simp add: G_COMMAND_EVENTS_MAX_def)
  moreover obtain s2 where "wait_result_event (set_debugger_handle_and_thread_id dbg tid (s1\<lparr> wk := k \<rparr>)) = Some s2"
    using assms(7) by blast
  ultimately show ?thesis using 1 run [of "Suc G_COMMAND_EVENTS_MAX"] by (simp add: G_COMMAND_EVENTS_MAX_def)
qed

text \<open>A concrete system: memory that is mapped everywhere, strings of ASCII characters.\<close>

definition flat_win32 :: "(32 mem) win32" where
  "flat_win32 = \<lparr>
     GetThreadContext = (\<lambda>k h. (Some zero_CONTEXT, k)), SetThreadContext = (\<lambda>k h c. (True, k)),
     ReadProcessMemory = (\<lambda>k h a n. (True, load k a (unat n), k)),
     WriteProcessMemory = (\<lambda>k h a bs. (True, of_nat (length bs), store k a bs)),
     VirtualQueryEx = (\<lambda>k h a. (Some (a, 4096), k)), VirtualProtectEx = (\<lambda>k h a n p. (Some 4, k)),
     WaitForDebugEvent = (\<lambda>k. (None, k)), ContinueDebugEvent = (\<lambda>k p t s. k),
     CreateProcess = (\<lambda>k a e d. (None, k)), CreateEvent = (\<lambda>k. (True, k)), CreateThread = (\<lambda>k. ((8, 9), k)),
     CloseHandle = (\<lambda>k h. k), ResumeThread = (\<lambda>k h. k), TerminateProcess = (\<lambda>k h. k), wcstombs = (\<lambda>bs. bs),
     g_utf8_to_utf16 = map (\<lambda>c. of_nat (of_char c)), GetCurrentProcessId = (\<lambda>k. 1), GetCurrentThreadId = (\<lambda>k. 1) \<rparr>"

definition zero_debuggee :: debuggee_info_rec where
  "zero_debuggee = \<lparr> process_handle = 0, process_id = 0, thread_handle = 0, thread_id = 0, win_context = zero_CONTEXT, start_address = 0,
     dll_load_address = 0, image_base = 0, last_eip = 0, win_eip = 0,
     current_function = \<lparr> function_descriptor = None, cf_start_address = 0, cf_end_address = 0, in_single_step = False \<rparr>,
     inaccessible_flag = False, one_shot_step = False, breakpoint_hit = 0, created_new_process = False, start_of_code = 0,
     last_valid_source_line = 0 \<rparr>"

definition first_windows :: "bool option list \<Rightarrow> (32 mem) windows" where
  "first_windows events = server_win32_create_inferior mono_debugger_breakpoint_manager_new 1
     \<lparr> bp_heap = Map.empty, bp_next = 1, last_breakpoint_id = 0, bpm_mutex = 0, wk = (\<lambda>_. 0x90), m_command_events = events,
       g_attached = False, g_paused = False, m_info_buf = \<lparr> ib_start = 0, ib_size = 0, ib_buffer = [], read_or_written_bytes = 0 \<rparr>,
       debugger_handle = 0, debugger_id = 0, debuggee = zero_debuggee, thread_list = [], w_argv_flattened = None, w_envp_flattened = None,
       w_working_directory = None, m_loaded_dlls = [], bridge = [], win_servers = Map.empty, m_server_handle = None, dw_original_flags = 0 \<rparr>"

text \<open>
  The witness starts a program with a name of one letter that UTF-8 writes with two bytes and UTF-16 with one unit: its command line
  fits in its memory.
\<close>

fun utf16_of_utf8 :: "string \<Rightarrow> gunichar2 list" where
  "utf16_of_utf8 [] = []"
| "utf16_of_utf8 [c] = [of_nat (of_char c)]"
| "utf16_of_utf8 (c # c' # cs) =
     (if of_char c < (128 :: nat) then of_nat (of_char c) # utf16_of_utf8 (c' # cs)
      else of_nat (64 * (of_char c mod 32) + of_char c' mod 64) # utf16_of_utf8 cs)"

theorem windows_spawn_undefined_witness:
  "server_win32_spawn Some (flat_win32\<lparr> g_utf8_to_utf16 := utf16_of_utf8 \<rparr>) (\<lambda>n. replicate n 0) 1 (Some ''/'')
      (Some [[CHR 0xc3, CHR 0xa9]]) (Some [''HOME=/'']) (first_windows (replicate G_COMMAND_EVENTS_MAX None)) = None \<and>
   (\<exists>pid s'. server_win32_spawn Some (flat_win32\<lparr> g_utf8_to_utf16 := utf16_of_utf8 \<rparr>) (\<lambda>n. replicate n 0) 1 (Some ''/'')
      (Some [[CHR 0xc3, CHR 0xa9]]) (Some [''HOME=/'']) (first_windows (replicate (Suc G_COMMAND_EVENTS_MAX) None)) =
        Some (COMMAND_ERROR_NONE, pid, s'))"
proof -
  have "(first_windows [])\<lparr> m_command_events := events \<rparr> = first_windows events" for events
    by (simp add: first_windows_def server_win32_create_inferior_def)
  then show ?thesis
    using windows_spawn_undefined [of "first_windows []" 1 "Some [''HOME=/'']" "flat_win32\<lparr> g_utf8_to_utf16 := utf16_of_utf8 \<rparr>"
        "\<lambda>n. replicate n 0" "Some [[CHR 0xc3, CHR 0xa9]]" Some "Some ''/''"]
    by (simp add: first_windows_def server_win32_create_inferior_def flatten_envp_def flatten_argv_def envp_length_def argv_length_def
        swprintf_at_def flat_win32_def)
qed

section \<open>Memory\<close>

text \<open>
  The events all exist and none is signalled: the target is paused and the debugging thread waits for a command. What happens while
  the command waits for \<open>EVENT_RESULT\<close> is one round of the debugging thread; the end of the wait resets the event.
\<close>

definition paused :: "('k, 'z) windows_scheme \<Rightarrow> bool" where
  "paused s \<longleftrightarrow> m_command_events s = replicate G_COMMAND_EVENTS_MAX (Some False)"

definition served ::
  "(guint32 \<Rightarrow> ('k, 'z) windows_scheme \<Rightarrow> bool \<times> ('k, 'z) windows_scheme) \<Rightarrow> 'k win32 \<Rightarrow> ('k, 'z) windows_scheme \<Rightarrow>
     wait_result \<times> ('k, 'z) windows_scheme" where
  "served obe K s = (case Option.bind (wait_for_command s) (\<lambda>(i, s). debugging_thread_command obe K i s) of
     None \<Rightarrow> (WAIT_TIMEOUT, s)
   | Some s' \<Rightarrow> if m_command_events s' ! EVENT_RESULT = Some True
       then (WAIT_OBJECT_0, s'\<lparr> m_command_events := (m_command_events s')[EVENT_RESULT := Some False] \<rparr>) else (WAIT_TIMEOUT, s'))"

text \<open>The documented behaviour of \<open>ReadProcessMemory\<close> on mapped memory.\<close>

definition win_memory :: "'k win32 \<Rightarrow> win_handle \<Rightarrow> guint32 set \<Rightarrow> ('k \<Rightarrow> 32 mem) \<Rightarrow> bool" where
  "win_memory K h A M \<longleftrightarrow> (\<forall>k a n. span a (unat n) \<subseteq> A \<longrightarrow>
     (\<exists>k'. ReadProcessMemory K k h a n = (True, load (M k) a (unat n), k') \<and> M k' = M k))"

text \<open>
  Each memory command, whether it reads or writes, makes the debugging thread read the target's memory into the caller's buffer.
\<close>

lemma read_write_memory_served:
  assumes mem: "win_memory K (process_handle (debuggee s)) A M" and p: "paused s" and n: "n \<noteq> 0" "length buffer = unat n"
    and mapped: "span (ucast start) (unat n) \<subseteq> A"
  shows "\<exists>k' ib. read_write_memory (served obe K) h start n buffer s = Some (COMMAND_ERROR_NONE, load (M (wk s)) (ucast start) (unat n),
      s\<lparr> wk := k', m_server_handle := Some h, m_info_buf := ib \<rparr>) \<and> M k' = M (wk s)"
proof -
  obtain k' where k': "ReadProcessMemory K (wk s) (process_handle (debuggee s)) (ucast start) n = (True, load (M (wk s)) (ucast start) (unat n), k')"
    "M k' = M (wk s)"
    using mem mapped unfolding win_memory_def by blast
  let ?ib = "(m_info_buf s)\<lparr> ib_start := start, ib_size := n, ib_buffer := load (M (wk s)) (ucast start) (unat n), read_or_written_bytes := n \<rparr>"
  show ?thesis
    using k' p n
    by (intro exI [of _ k'] exI [of _ ?ib])
       (simp add: read_write_memory_def signal_event_def served_def wait_for_command_def debugging_thread_command_def fill_buffer_def
          paused_def G_COMMAND_EVENTS_MAX_def eval_nat_numeral)
qed

text \<open>
  C28. A breakpoint on Windows: with the target paused and the debugging thread serving the requests, \<open>server_win32_insert_breakpoint\<close>
  at a mapped address that has none succeeds, files a new enabled breakpoint with the byte at the address saved, and
  releases the mutex; but the target's memory is what it was, since the request to write the \<open>int 3\<close> reads instead.
\<close>

theorem windows_breakpoint_not_written:
  assumes mem: "win_memory K (process_handle (debuggee s)) A M" and p: "paused s" and srv: "win_servers s h = Some srv"
    and new: "mono_debugger_breakpoint_manager_lookup (win_bpm srv) address = None"
    and mapped: "span (ucast address) 1 \<subseteq> A"
  shows "\<exists>s'. server_win32_insert_breakpoint (served obe K) h address s =
      Some (COMMAND_ERROR_NONE, Some (word_of_int (last_breakpoint_id s + 1)), s') \<and> M (wk s') = M (wk s) \<and> bpm_mutex s' = bpm_mutex s \<and>
    (\<exists>srv' b. win_servers s' h = Some srv' \<and> mono_debugger_breakpoint_manager_lookup (win_bpm srv') address = Some (bp_next s) \<and>
      bp_heap s' (bp_next s) = Some b \<and> enabled b \<and> saved_insn b = M (wk s) (ucast address))"
proof -
  let ?b = "BreakpointInfo_zero\<lparr> refcount := 1, bp_address := address, is_hardware_bpt := False,
    bp_id := last_breakpoint_id s + 1, dr_index := -1 \<rparr>"
  let ?s1 = "s\<lparr> bpm_mutex := Suc (bpm_mutex s), last_breakpoint_id := last_breakpoint_id s + 1, bp_heap := (bp_heap s)(bp_next s \<mapsto> ?b),
    bp_next := Suc (bp_next s) \<rparr>"
  have addr: "(ucast (ucast (ucast address :: guint32) :: guint64) :: guint32) = ucast address" by (rule bit_word_eqI) (simp add: bit_simps)
  obtain k1 ib1 where r1: "read_write_memory (served obe K) h (ucast (ucast address :: guint32)) 1 [0] ?s1 =
      Some (COMMAND_ERROR_NONE, [M (wk s) (ucast address)], ?s1\<lparr> wk := k1, m_server_handle := Some h, m_info_buf := ib1 \<rparr>)" "M k1 = M (wk s)"
    using read_write_memory_served [of K ?s1 A M 1 "[0]" "ucast (ucast address :: guint32)" obe h] mem p mapped addr
    by (auto simp: paused_def)
  let ?s2 = "?s1\<lparr> wk := k1, m_server_handle := Some h, m_info_buf := ib1, bp_heap := (bp_heap s)(bp_next s \<mapsto> ?b\<lparr> saved_insn := M (wk s) (ucast address) \<rparr>) \<rparr>"
  obtain k2 ib2 buf2 where r2: "read_write_memory (served obe K) h (ucast (ucast address :: guint32)) 1 [0xcc] ?s2 =
      Some (COMMAND_ERROR_NONE, buf2, ?s2\<lparr> wk := k2, m_server_handle := Some h, m_info_buf := ib2 \<rparr>)" "M k2 = M (wk s)"
    using read_write_memory_served [of K ?s2 A M 1 "[0xcc]" "ucast (ucast address :: guint32)" obe h] mem p mapped addr r1(2)
    by (auto simp: paused_def)
  have en: "win_enable_breakpoint (served obe K) h (bp_next s) ?s1 = Some (COMMAND_ERROR_NONE, ?s2\<lparr> wk := k2, m_server_handle := Some h, m_info_buf := ib2 \<rparr>)"
    using r1(1) r2(1) by (simp add: win_enable_breakpoint_def server_win32_read_memory_def server_win32_write_memory_def
        BreakpointInfo_zero_def bp_set_def)
  show ?thesis
    using en srv new r2(2)
    by (simp add: server_win32_insert_breakpoint_def mono_debugger_breakpoint_manager_lock_def mono_debugger_breakpoint_manager_unlock_def
        mono_debugger_breakpoint_manager_get_next_id_def mono_debugger_breakpoint_manager_insert_def mono_debugger_breakpoint_manager_lookup_def
        bp_alloc_def bp_set_def set_win_bpm_def Let_def)
qed

theorem windows_breakpoint_not_written_witness:
  "\<exists>s'. server_win32_insert_breakpoint (served (\<lambda>a s. (True, s)) flat_win32) 1 0x1000 (first_windows (replicate G_COMMAND_EVENTS_MAX (Some False))) =
      Some (COMMAND_ERROR_NONE, Some 1, s') \<and> wk s' 0x1000 = 0x90"
proof -
  have "win_memory flat_win32 h UNIV (\<lambda>k. k)" for h by (simp add: win_memory_def flat_win32_def)
  moreover have "paused (first_windows (replicate G_COMMAND_EVENTS_MAX (Some False)))"
    "win_servers (first_windows (replicate G_COMMAND_EVENTS_MAX (Some False))) 1 = Some \<lparr> win_bpm = mono_debugger_breakpoint_manager_new,
      win_inf = \<lparr> wi_pid = 0, wi_process_handle = 0, wi_thread_handle = 0, wi_argv = None \<rparr>, win_current_regs = zero_CONTEXT \<rparr>"
    "wk (first_windows (replicate G_COMMAND_EVENTS_MAX (Some False))) = (\<lambda>_. 0x90)"
    "last_breakpoint_id (first_windows (replicate G_COMMAND_EVENTS_MAX (Some False))) = 0"
    by (simp_all add: first_windows_def server_win32_create_inferior_def paused_def)
  ultimately show ?thesis
    using windows_breakpoint_not_written [where K = flat_win32 and A = UNIV and M = "\<lambda>k. k" and h = 1 and address = "0x1000"
        and s = "first_windows (replicate G_COMMAND_EVENTS_MAX (Some False))" and obe = "\<lambda>a s. (True, s)"]
    by (auto simp: mono_debugger_breakpoint_manager_lookup_def mono_debugger_breakpoint_manager_new_def)
qed

section \<open>Starting a target\<close>

text \<open>How \<open>CreateProcess\<close> reads a block of strings: up to an empty one.\<close>

function read_block :: "gunichar2 list \<Rightarrow> gunichar2 list list" where
  "read_block xs = (let t = takeWhile (\<lambda>c. c \<noteq> 0) xs in if t = [] then [] else t # read_block (drop (length t + 1) xs))"
  by pat_completeness auto
termination
proof (relation "measure length", goal_cases)
  case (2 xs t)
  then show ?case by (cases xs) (auto simp: Let_def)
qed simp

declare read_block.simps [simp del]

abbreviation block_of :: "gunichar2 list list \<Rightarrow> gunichar2 list" where
  "block_of ts \<equiv> concat (map (\<lambda>t. t @ [0]) ts) @ [0]"

lemma read_block_of:
  assumes "\<forall>t \<in> set ts. t \<noteq> [] \<and> 0 \<notin> set t"
  shows "read_block (block_of ts @ rest) = ts"
  using assms
proof (induction ts)
  case (Cons t ts)
  have "takeWhile (\<lambda>c. c \<noteq> 0) (block_of (t # ts) @ rest) = t" using Cons.prems by (simp add: takeWhile_tail) (metis takeWhile_eq_all_conv)
  then show ?case using Cons by (subst read_block.simps) (simp add: Let_def)
qed (simp add: read_block.simps)

lemma swprintf_at_ok:
  assumes "length text < n" and "off + length text + 1 \<le> length arr"
  shows "\<exists>arr'. swprintf_at arr off n text = Some arr' \<and> length arr' = length arr \<and>
    take (off + length text + 1) arr' = take off arr @ text @ [0]"
  using assms by (auto simp: swprintf_at_def)

lemma flatten_envp_loop_ok:
  assumes u: "\<And>e. length (g_utf8_to_utf16 K e) \<le> length e"
    and "off + envp_length envp \<le> length arr" and "length arr - off \<le> n"
  shows "\<exists>rest block. flatten_envp_loop K envp arr off n = Some block \<and> length block = length arr \<and>
    block = take off arr @ block_of (map (g_utf8_to_utf16 K) envp) @ rest"
  using assms(2,3)
proof (induction envp arbitrary: arr off n)
  case Nil
  then show ?case by (auto simp: swprintf_at_def envp_length_def)
next
  case (Cons e es)
  let ?t = "g_utf8_to_utf16 K e"
  have l: "length ?t \<le> length e" by (rule u)
  have room: "off + (length e + 1 + envp_length es) \<le> length arr" using Cons.prems(1) by (simp add: envp_length_def)
  then have "length ?t < n" "off + length ?t + 1 \<le> length arr" using Cons.prems(2) l by (auto simp: envp_length_def)
  then obtain arr' where a: "swprintf_at arr off n ?t = Some arr'" "length arr' = length arr"
    "take (off + length ?t + 1) arr' = take off arr @ ?t @ [0]"
    using swprintf_at_ok [of ?t n off arr] by blast
  have "off + length ?t + 1 + envp_length es \<le> length arr'" "length arr' - (off + length ?t + 1) \<le> n - length ?t"
    using room l a(2) Cons.prems(2) by auto
  then show ?case using Cons.IH [of "off + length ?t + 1" arr' "n - length ?t"] a room by auto
qed

text \<open>
  C27. The environment that \<open>server_win32_spawn\<close> hands to \<open>CreateProcess\<close> is the one it was given: the block is built inside the
  memory allocated for it, and reading it gives the strings back, each in UTF-16 and in order.
\<close>

theorem windows_envp_block:
  assumes "\<And>e. length (g_utf8_to_utf16 K e) \<le> length e" and "\<And>n. length (fresh n) = n"
    and "\<forall>e \<in> set envp. g_utf8_to_utf16 K e \<noteq> [] \<and> 0 \<notin> set (g_utf8_to_utf16 K e)"
  shows "\<exists>block. flatten_envp K fresh envp = Some block \<and> length block = envp_length envp \<and>
    read_block block = map (g_utf8_to_utf16 K) envp"
proof -
  obtain rest block where "flatten_envp K fresh envp = Some block" "length block = envp_length envp"
    "block = block_of (map (g_utf8_to_utf16 K) envp) @ rest"
    using flatten_envp_loop_ok [OF assms(1), of 0 envp "fresh (envp_length envp)" "envp_length envp"] assms(2)
    by (auto simp: flatten_envp_def)
  then show ?thesis using read_block_of [of "map (g_utf8_to_utf16 K) envp" rest] assms(3) by auto
qed

theorem windows_envp_block_witness:
  "\<exists>block. flatten_envp flat_win32 (\<lambda>n. replicate n 0) [''A=1'', ''B=2''] = Some block \<and> length block = 9 \<and>
    read_block block = [[65, 61, 49], [66, 61, 50]]"
proof -
  have u: "g_utf8_to_utf16 flat_win32 = map (\<lambda>c. of_nat (of_char c))" by (simp add: flat_win32_def)
  have n: "envp_length [''A=1'', ''B=2''] = 9" by (simp add: envp_length_def)
  have "map (g_utf8_to_utf16 flat_win32) [''A=1'', ''B=2''] = [[65, 61, 49], [66, 61, 50]]" by (simp add: u)
  moreover have "\<forall>e \<in> set [''A=1'', ''B=2'']. g_utf8_to_utf16 flat_win32 e \<noteq> [] \<and> 0 \<notin> set (g_utf8_to_utf16 flat_win32 e)" by (simp add: u)
  ultimately show ?thesis
    using windows_envp_block [where K = flat_win32 and fresh = "\<lambda>n. replicate n 0" and envp = "[''A=1'', ''B=2'']"] n by (simp add: u)
qed

text \<open>
  A command line of plain ASCII never fits: the memory is one character short of the last terminating zero.
\<close>

lemma flatten_argv_short:
  assumes "\<And>a. a \<in> set argv \<Longrightarrow> length (g_utf8_to_utf16 K a) = length a" and "argv \<noteq> []"
  shows "flatten_argv_loop K argv arr off (argv_length argv) = None"
  using assms
proof (induction argv arbitrary: arr off)
  case (Cons a as)
  have a: "length (g_utf8_to_utf16 K a) = length a" using Cons.prems(1) by simp
  show ?case
  proof (cases "as = []")
    case True
    then show ?thesis using a by (simp add: argv_length_def swprintf_at_def)
  next
    case False
    have "argv_length (a # as) - length (g_utf8_to_utf16 K a @ [0x20]) = argv_length as" using a by (simp add: argv_length_def)
    then show ?thesis using Cons.IH [OF Cons.prems(1) False] by (simp add: Let_def)
  qed
qed simp

end
