(* ===== verification/Server.thy ===== *)
theory Server
  imports Breakpoints
begin

text \<open>
  The state one server call works on, and the interface to the operating system.

  \<open>server\<close> is what a \<open>ServerHandle\<close> points to (\<open>inferior\<close>, \<open>arch\<close>, \<open>mono_runtime\<close>, \<open>bpm\<close>)
  together with the process-wide state of the breakpoint manager and the state \<open>kern\<close> of
  the operating system and the target. The architecture's \<open>ArchInfo\<close> is a type parameter,
  as it is an opaque struct to everything outside the architecture files.

  The kernel is not part of the repository. It is the parameter \<open>kernel\<close> of every
  definition that makes a system call: a record with one function per call, over an
  abstract state \<open>'k\<close>; a call returns an error number or a result and a new state.
  Nothing is assumed about it here: the documented behaviour a property needs is a
  hypothesis of the property.
\<close>

section \<open>The platform's numbers\<close>

abbreviation EINTR :: errno where "EINTR \<equiv> 4"
abbreviation ESRCH :: errno where "ESRCH \<equiv> 3"
abbreviation EIO :: errno where "EIO \<equiv> 5"
abbreviation ECHILD :: errno where "ECHILD \<equiv> 10"
abbreviation EACCES :: errno where "EACCES \<equiv> 13"

abbreviation SIGINT :: gint where "SIGINT \<equiv> 2"
abbreviation SIGQUIT :: gint where "SIGQUIT \<equiv> 3"
abbreviation SIGILL :: gint where "SIGILL \<equiv> 4"
abbreviation SIGTRAP :: gint where "SIGTRAP \<equiv> 5"
abbreviation SIGABRT :: gint where "SIGABRT \<equiv> 6"
abbreviation SIGBUS :: gint where "SIGBUS \<equiv> 7"
abbreviation SIGFPE :: gint where "SIGFPE \<equiv> 8"
abbreviation SIGKILL :: gint where "SIGKILL \<equiv> 9"
abbreviation SIGSEGV :: gint where "SIGSEGV \<equiv> 11"
abbreviation SIGCHLD :: gint where "SIGCHLD \<equiv> 17"
abbreviation SIGCONT :: gint where "SIGCONT \<equiv> 18"
abbreviation SIGSTOP :: gint where "SIGSTOP \<equiv> 19"
abbreviation SIGWINCH :: gint where "SIGWINCH \<equiv> 28"
abbreviation SIGRTMIN_kernel :: gint where "SIGRTMIN_kernel \<equiv> 32"

text \<open>The macros of \<open>sys/wait.h\<close> on a wait status.\<close>

definition WTERMSIG :: "guint32 \<Rightarrow> gint" where
  "WTERMSIG status = uint (status AND 0x7f)"

definition WSTOPSIG :: "guint32 \<Rightarrow> gint" where
  "WSTOPSIG status = uint (drop_bit 8 status AND 0xff)"

definition WEXITSTATUS :: "guint32 \<Rightarrow> gint" where
  "WEXITSTATUS status = uint (drop_bit 8 status AND 0xff)"

definition WIFSTOPPED :: "guint32 \<Rightarrow> bool" where
  "WIFSTOPPED status \<longleftrightarrow> status AND 0xff = 0x7f"

definition WIFEXITED :: "guint32 \<Rightarrow> bool" where
  "WIFEXITED status \<longleftrightarrow> status AND 0x7f = 0"

definition WIFSIGNALED :: "guint32 \<Rightarrow> bool" where
  "WIFSIGNALED status \<longleftrightarrow> status AND 0x7f \<noteq> 0 \<and> status AND 0x7f \<noteq> 0x7f"

text \<open>The wait event numbers and options of \<open>x86-ptrace.h\<close>.\<close>

abbreviation PTRACE_EVENT_FORK :: guint32 where "PTRACE_EVENT_FORK \<equiv> 1"
abbreviation PTRACE_EVENT_VFORK :: guint32 where "PTRACE_EVENT_VFORK \<equiv> 2"
abbreviation PTRACE_EVENT_CLONE :: guint32 where "PTRACE_EVENT_CLONE \<equiv> 3"
abbreviation PTRACE_EVENT_EXEC :: guint32 where "PTRACE_EVENT_EXEC \<equiv> 4"
abbreviation PTRACE_EVENT_EXIT :: guint32 where "PTRACE_EVENT_EXIT \<equiv> 6"

abbreviation PTRACE_O_TRACEFORK :: guint32 where "PTRACE_O_TRACEFORK \<equiv> 0x02"
abbreviation PTRACE_O_TRACEVFORK :: guint32 where "PTRACE_O_TRACEVFORK \<equiv> 0x04"
abbreviation PTRACE_O_TRACECLONE :: guint32 where "PTRACE_O_TRACECLONE \<equiv> 0x08"
abbreviation PTRACE_O_TRACEEXEC :: guint32 where "PTRACE_O_TRACEEXEC \<equiv> 0x10"

section \<open>State\<close>

record InferiorHandle =
  mem_fd :: gint \<comment> \<open>\<open>os.mem_fd\<close> of \<open>struct OSData\<close>\<close>
  inf_pid :: pid
  stepping :: bool
  last_signal :: gint
  redirect_fds :: bool
  output_fd :: "gint \<times> gint"
  error_fd :: "gint \<times> gint"
  is_thread :: bool

definition InferiorHandle_zero :: InferiorHandle where
  "InferiorHandle_zero = \<lparr> mem_fd = 0, inf_pid = 0, stepping = False, last_signal = 0,
     redirect_fds = False, output_fd = (0, 0), error_fd = (0, 0), is_thread = False \<rparr>"

record (overloaded) ('k, 'w, 'a) server = bp_store +
  kern :: 'k
  inferior :: InferiorHandle
  arch :: 'a
  mono_runtime :: "MonoRuntimeInfo option"
  bpm :: "'w BreakpointManager"

section \<open>The system calls the server makes\<close>

record (overloaded) ('k, 'w, 'r, 'f) kernel =
  ptrace_getregs :: "'k \<Rightarrow> pid \<Rightarrow> (errno + 'r) \<times> 'k"
  ptrace_setregs :: "'k \<Rightarrow> pid \<Rightarrow> 'r \<Rightarrow> (errno + unit) \<times> 'k"
  ptrace_getfpregs :: "'k \<Rightarrow> pid \<Rightarrow> (errno + 'f) \<times> 'k"
  ptrace_setfpregs :: "'k \<Rightarrow> pid \<Rightarrow> 'f \<Rightarrow> (errno + unit) \<times> 'k"
  ptrace_write_d :: "'k \<Rightarrow> pid \<Rightarrow> 'w word \<Rightarrow> 'w word \<Rightarrow> (errno + unit) \<times> 'k"
  ptrace_peek_debugreg :: "'k \<Rightarrow> pid \<Rightarrow> gint \<Rightarrow> (errno + 'w word) \<times> 'k"
  ptrace_poke_debugreg :: "'k \<Rightarrow> pid \<Rightarrow> gint \<Rightarrow> 'w word \<Rightarrow> (errno + unit) \<times> 'k"
  ptrace_continue :: "'k \<Rightarrow> pid \<Rightarrow> gint \<Rightarrow> (errno + unit) \<times> 'k"
  ptrace_step :: "'k \<Rightarrow> pid \<Rightarrow> gint \<Rightarrow> (errno + unit) \<times> 'k"
  ptrace_kill :: "'k \<Rightarrow> pid \<Rightarrow> (errno + unit) \<times> 'k"
  ptrace_attach :: "'k \<Rightarrow> pid \<Rightarrow> (errno + unit) \<times> 'k"
  ptrace_detach :: "'k \<Rightarrow> pid \<Rightarrow> (errno + unit) \<times> 'k"
  ptrace_setoptions :: "'k \<Rightarrow> pid \<Rightarrow> guint32 \<Rightarrow> (errno + unit) \<times> 'k"
  ptrace_geteventmsg :: "'k \<Rightarrow> pid \<Rightarrow> (errno + gint) \<times> 'k"
  pread64 :: "'k \<Rightarrow> gint \<Rightarrow> guint32 \<Rightarrow> guint64 \<Rightarrow> (errno + guint8 list) \<times> 'k"
  open_proc_mem :: "'k \<Rightarrow> pid \<Rightarrow> (errno + gint) \<times> 'k"
  close_fd :: "'k \<Rightarrow> gint \<Rightarrow> 'k"
  proc_stat_exists :: "'k \<Rightarrow> pid \<Rightarrow> bool"
  sys_tkill :: "'k \<Rightarrow> pid \<Rightarrow> gint \<Rightarrow> (errno + unit) \<times> 'k"
  sys_kill :: "'k \<Rightarrow> pid \<Rightarrow> gint \<Rightarrow> (errno + unit) \<times> 'k"
  waitpid :: "'k \<Rightarrow> gint \<Rightarrow> bool \<Rightarrow> (errno + gint \<times> guint32) \<times> 'k"
  read_task_dir :: "'k \<Rightarrow> pid \<Rightarrow> string list option"
  readlink_exe :: "'k \<Rightarrow> pid \<Rightarrow> errno + string"
  readlink_cwd :: "'k \<Rightarrow> pid \<Rightarrow> errno + string"
  read_cmdline :: "'k \<Rightarrow> pid \<Rightarrow> string option"
  sys_pipe :: "'k \<Rightarrow> (gint \<times> gint) \<times> 'k"
  sys_fork :: "'k \<Rightarrow> (errno + pid) \<times> 'k"
  sys_read :: "'k \<Rightarrow> gint \<Rightarrow> nat \<Rightarrow> (errno + guint8 list) \<times> 'k"
  sys_poll :: "'k \<Rightarrow> gint \<Rightarrow> gint \<Rightarrow> (errno + guint32 \<times> guint32) \<times> 'k"

lemma set_mutex_id [simp]: "s\<lparr> bpm_mutex := bpm_mutex s \<rparr> = s"
  by simp

lemma lock_server_fields [simp, frame_simps]:
  "kern (mono_debugger_breakpoint_manager_lock s) = kern s"
  "inferior (mono_debugger_breakpoint_manager_lock s) = inferior s"
  "arch (mono_debugger_breakpoint_manager_lock s) = arch s"
  "mono_runtime (mono_debugger_breakpoint_manager_lock s) = mono_runtime s"
  "bpm (mono_debugger_breakpoint_manager_lock s) = bpm s"
  by (simp_all add: mono_debugger_breakpoint_manager_lock_def)

lemma unlock_server_fields [simp, frame_simps]:
  "kern (mono_debugger_breakpoint_manager_unlock s) = kern s"
  "inferior (mono_debugger_breakpoint_manager_unlock s) = inferior s"
  "arch (mono_debugger_breakpoint_manager_unlock s) = arch s"
  "mono_runtime (mono_debugger_breakpoint_manager_unlock s) = mono_runtime s"
  "bpm (mono_debugger_breakpoint_manager_unlock s) = bpm s"
  by (simp_all add: mono_debugger_breakpoint_manager_unlock_def)

lemma bp_set_server_fields [simp, frame_simps]:
  "kern (bp_set p b s) = kern s" "inferior (bp_set p b s) = inferior s"
  "arch (bp_set p b s) = arch s" "mono_runtime (bp_set p b s) = mono_runtime s"
  "bpm (bp_set p b s) = bpm s"
  by (simp_all add: bp_set_def)

lemma bp_free_server_fields [simp, frame_simps]:
  "kern (bp_free p s) = kern s" "inferior (bp_free p s) = inferior s"
  "arch (bp_free p s) = arch s" "mono_runtime (bp_free p s) = mono_runtime s"
  "bpm (bp_free p s) = bpm s"
  by (simp_all add: bp_free_def)

end
