(* ===== verification/Linux_Ptrace.thy ===== *)
theory Linux_Ptrace
  imports Server
begin

text \<open>
  The Linux layer, \<open>x86-linux-ptrace.c\<close>: the \<open>ptrace\<close> requests the server makes on the
  target, reading the target's memory through \<open>/proc/<pid>/mem\<close> and writing it word by
  word, debug registers, continuing, stepping, stopping and setting up an inferior. The
  file is compiled for both word widths, so the definitions are polymorphic in \<open>'w\<close>. Where
  it calls a function that the architecture file implements (the prototypes of
  \<open>x86-arch.h\<close>), that function is an argument, named as in the source; the architecture
  theories apply the definitions to their own.

  A function of the source whose name starts with an underscore has the prefix \<open>priv\<close> here.
\<close>

section \<open>Error numbers\<close>

definition priv_server_ptrace_check_errno ::
  "('k, 'w::len, 'r, 'f) kernel \<Rightarrow> ('k, 'w, 'a) server \<Rightarrow> errno \<Rightarrow> ServerCommandError" where
  "priv_server_ptrace_check_errno K s e =
     (if e = 0 then COMMAND_ERROR_NONE
      else if e \<noteq> ESRCH then COMMAND_ERROR_UNKNOWN_ERROR
      else if proc_stat_exists K (kern s) (inf_pid (inferior s)) then COMMAND_ERROR_NOT_STOPPED
      else COMMAND_ERROR_NO_TARGET)"

text \<open>The recurring \<open>if (ptrace (...) != 0) return _server_ptrace_check_errno (inferior);\<close>\<close>

definition checked ::
  "('k, 'w::len, 'r, 'f) kernel \<Rightarrow> ('k, 'w, 'a) server \<Rightarrow> (errno + unit) \<times> 'k \<Rightarrow>
     ServerCommandError \<times> ('k, 'w, 'a) server" where
  "checked K s r =
     (let s = s\<lparr> kern := snd r \<rparr> in
      case fst r of Inl e \<Rightarrow> (priv_server_ptrace_check_errno K s e, s)
                  | Inr _ \<Rightarrow> (COMMAND_ERROR_NONE, s))"

section \<open>Registers\<close>

definition priv_server_ptrace_get_registers ::
  "('k, 'w::len, 'r, 'f) kernel \<Rightarrow> ('k, 'w, 'a) server \<Rightarrow> 'r \<Rightarrow>
     ServerCommandError \<times> 'r \<times> ('k, 'w, 'a) server" where
  "priv_server_ptrace_get_registers K s regs =
     (case ptrace_getregs K (kern s) (inf_pid (inferior s)) of
        (Inl e, k) \<Rightarrow> (priv_server_ptrace_check_errno K (s\<lparr> kern := k \<rparr>) e, regs, s\<lparr> kern := k \<rparr>)
      | (Inr r, k) \<Rightarrow> (COMMAND_ERROR_NONE, r, s\<lparr> kern := k \<rparr>))"

definition priv_server_ptrace_set_registers ::
  "('k, 'w::len, 'r, 'f) kernel \<Rightarrow> ('k, 'w, 'a) server \<Rightarrow> 'r \<Rightarrow>
     ServerCommandError \<times> ('k, 'w, 'a) server" where
  "priv_server_ptrace_set_registers K s regs =
     checked K s (ptrace_setregs K (kern s) (inf_pid (inferior s)) regs)"

definition priv_server_ptrace_get_fp_registers ::
  "('k, 'w::len, 'r, 'f) kernel \<Rightarrow> ('k, 'w, 'a) server \<Rightarrow> 'f \<Rightarrow>
     ServerCommandError \<times> 'f \<times> ('k, 'w, 'a) server" where
  "priv_server_ptrace_get_fp_registers K s regs =
     (case ptrace_getfpregs K (kern s) (inf_pid (inferior s)) of
        (Inl e, k) \<Rightarrow> (priv_server_ptrace_check_errno K (s\<lparr> kern := k \<rparr>) e, regs, s\<lparr> kern := k \<rparr>)
      | (Inr r, k) \<Rightarrow> (COMMAND_ERROR_NONE, r, s\<lparr> kern := k \<rparr>))"

definition priv_server_ptrace_set_fp_registers ::
  "('k, 'w::len, 'r, 'f) kernel \<Rightarrow> ('k, 'w, 'a) server \<Rightarrow> 'f \<Rightarrow>
     ServerCommandError \<times> ('k, 'w, 'a) server" where
  "priv_server_ptrace_set_fp_registers K s regs =
     checked K s (ptrace_setfpregs K (kern s) (inf_pid (inferior s)) regs)"

definition priv_server_ptrace_make_memory_executable ::
  "('k, 'w::len, 'a) server \<Rightarrow> guint64 \<Rightarrow> guint32 \<Rightarrow> ServerCommandError" where
  "priv_server_ptrace_make_memory_executable s start sz = COMMAND_ERROR_NONE"

section \<open>Memory\<close>

text \<open>
  The loop of \<open>_server_ptrace_read_memory\<close>. The source advances the buffer pointer and the
  size by what \<open>pread64\<close> returned, but reads every chunk at the same offset \<open>start\<close>; the
  loop does not end while \<open>pread64\<close> is interrupted or returns no byte.
\<close>

partial_function (option) read_memory_loop ::
  "('k, 'w::len, 'r, 'f) kernel \<Rightarrow> ('k, 'w, 'a) server \<Rightarrow> guint64 \<Rightarrow> guint32 \<Rightarrow> guint8 list \<Rightarrow>
     (ServerCommandError \<times> ('k, 'w, 'a) server \<times> guint8 list) option" where
  "read_memory_loop K s start sz buf =
     (if sz = 0 then Some (COMMAND_ERROR_NONE, s, buf)
      else case pread64 K (kern s) (mem_fd (inferior s)) sz start of
        (Inl e, k) \<Rightarrow>
          (if e = EINTR then read_memory_loop K (s\<lparr> kern := k \<rparr>) start sz buf
           else if e = ESRCH then Some (COMMAND_ERROR_NOT_STOPPED, s\<lparr> kern := k \<rparr>, buf)
           else Some (COMMAND_ERROR_MEMORY_ACCESS, s\<lparr> kern := k \<rparr>, buf))
      | (Inr bytes, k) \<Rightarrow>
          read_memory_loop K (s\<lparr> kern := k \<rparr>) start (sz - of_nat (length bytes)) (buf @ bytes))"

definition priv_server_ptrace_read_memory ::
  "('k, 'w::len, 'r, 'f) kernel \<Rightarrow> ('k, 'w, 'a) server \<Rightarrow> guint64 \<Rightarrow> guint32 \<Rightarrow>
     (ServerCommandError \<times> ('k, 'w, 'a) server \<times> guint8 list) option" where
  "priv_server_ptrace_read_memory K s start sz = read_memory_loop K s start sz []"

text \<open>\<open>x86_arch_remove_breakpoints_from_target_memory\<close>, as the Linux layer sees it: it may change
  the buffer it is given.\<close>

type_synonym ('k, 'w, 'a) remove_breakpoints_fn =
  "('k, 'w, 'a) server \<Rightarrow> guint64 \<Rightarrow> guint32 \<Rightarrow> guint8 list \<Rightarrow>
     (('k, 'w, 'a) server \<times> guint8 list) option"

definition server_ptrace_read_memory ::
  "('k, 'w::len, 'a) remove_breakpoints_fn \<Rightarrow> ('k, 'w, 'r, 'f) kernel \<Rightarrow> ('k, 'w, 'a) server \<Rightarrow>
     guint64 \<Rightarrow> guint32 \<Rightarrow> (ServerCommandError \<times> ('k, 'w, 'a) server \<times> guint8 list) option" where
  "server_ptrace_read_memory x86_arch_remove_breakpoints_from_target_memory K s start sz = do {
     (result, s, buffer) \<leftarrow> priv_server_ptrace_read_memory K s start sz;
     if result \<noteq> COMMAND_ERROR_NONE then Some (result, s, buffer)
     else do {
       (s, buffer) \<leftarrow> x86_arch_remove_breakpoints_from_target_memory s start sz buffer;
       Some (COMMAND_ERROR_NONE, s, buffer)
     }
   }"

text \<open>
  \<open>server_ptrace_write_memory\<close>: whole words are poked one after the other; a rest shorter
  than a word is merged into the word read back at that address, which the function's call
  of itself then pokes. The loop and that call are the same step, from the address reached
  with what is left of the buffer.
\<close>

partial_function (option) server_ptrace_write_memory ::
  "('k, 'w::len, 'r, 'f) kernel \<Rightarrow> ('k, 'w, 'a) server \<Rightarrow> guint64 \<Rightarrow> guint8 list \<Rightarrow>
     (ServerCommandError \<times> ('k, 'w, 'a) server) option" where
  "server_ptrace_write_memory K s addr buffer =
     (if sizeof_long TYPE('w) \<le> length buffer then
        (case ptrace_write_d K (kern s) (inf_pid (inferior s)) (ucast addr)
                (le_word (take (sizeof_long TYPE('w)) buffer)) of
           (Inl e, k) \<Rightarrow> Some (priv_server_ptrace_check_errno K (s\<lparr> kern := k \<rparr>) e, s\<lparr> kern := k \<rparr>)
         | (Inr _, k) \<Rightarrow>
             server_ptrace_write_memory K (s\<lparr> kern := k \<rparr>) (addr + of_nat (sizeof_long TYPE('w)))
               (drop (sizeof_long TYPE('w)) buffer))
      else if buffer = [] then Some (COMMAND_ERROR_NONE, s)
      else do {
        (result, s, temp) \<leftarrow> priv_server_ptrace_read_memory K s addr (of_nat (sizeof_long TYPE('w)));
        if result \<noteq> COMMAND_ERROR_NONE then Some (result, s)
        else server_ptrace_write_memory K s addr (buffer @ drop (length buffer) temp)
      })"

definition server_ptrace_poke_word ::
  "('k, 'w::len, 'r, 'f) kernel \<Rightarrow> ('k, 'w, 'a) server \<Rightarrow> guint64 \<Rightarrow> 'w word \<Rightarrow>
     ServerCommandError \<times> ('k, 'w, 'a) server" where
  "server_ptrace_poke_word K s addr val =
     checked K s (ptrace_write_d K (kern s) (inf_pid (inferior s)) (ucast addr) val)"

section \<open>Debug registers\<close>

definition priv_server_ptrace_set_dr ::
  "('k, 'w::len, 'r, 'f) kernel \<Rightarrow> ('k, 'w, 'a) server \<Rightarrow> gint \<Rightarrow> guint64 \<Rightarrow>
     ServerCommandError \<times> ('k, 'w, 'a) server" where
  "priv_server_ptrace_set_dr K s regnum val =
     (case ptrace_poke_debugreg K (kern s) (inf_pid (inferior s)) regnum (ucast val) of
        (Inl e, k) \<Rightarrow> (COMMAND_ERROR_UNKNOWN_ERROR, s\<lparr> kern := k \<rparr>)
      | (Inr _, k) \<Rightarrow> (COMMAND_ERROR_NONE, s\<lparr> kern := k \<rparr>))"

text \<open>The value read passes through the variable \<open>int ret\<close> on its way into the \<open>guint64\<close>.\<close>

definition priv_server_ptrace_get_dr ::
  "('k, 'w::len, 'r, 'f) kernel \<Rightarrow> ('k, 'w, 'a) server \<Rightarrow> gint \<Rightarrow> guint64 \<Rightarrow>
     ServerCommandError \<times> guint64 \<times> ('k, 'w, 'a) server" where
  "priv_server_ptrace_get_dr K s regnum val =
     (case ptrace_peek_debugreg K (kern s) (inf_pid (inferior s)) regnum of
        (Inl e, k) \<Rightarrow> (COMMAND_ERROR_UNKNOWN_ERROR, val, s\<lparr> kern := k \<rparr>)
      | (Inr v, k) \<Rightarrow> (COMMAND_ERROR_NONE, scast (ucast v :: guint32), s\<lparr> kern := k \<rparr>))"

section \<open>Running the target\<close>

definition server_ptrace_continue ::
  "('k, 'w::len, 'r, 'f) kernel \<Rightarrow> ('k, 'w, 'a) server \<Rightarrow> ServerCommandError \<times> ('k, 'w, 'a) server" where
  "server_ptrace_continue K s =
     (let s = s\<lparr> inferior := (inferior s)\<lparr> stepping := False \<rparr> \<rparr> in
      checked K s (ptrace_continue K (kern s) (inf_pid (inferior s)) (last_signal (inferior s))))"

definition server_ptrace_step ::
  "('k, 'w::len, 'r, 'f) kernel \<Rightarrow> ('k, 'w, 'a) server \<Rightarrow> ServerCommandError \<times> ('k, 'w, 'a) server" where
  "server_ptrace_step K s =
     (let s = s\<lparr> inferior := (inferior s)\<lparr> stepping := True \<rparr> \<rparr> in
      checked K s (ptrace_step K (kern s) (inf_pid (inferior s)) (last_signal (inferior s))))"

definition server_ptrace_kill ::
  "('k, 'w::len, 'r, 'f) kernel \<Rightarrow> ('k, 'w, 'a) server \<Rightarrow> ServerCommandError \<times> ('k, 'w, 'a) server" where
  "server_ptrace_kill K s =
     (case ptrace_kill K (kern s) (inf_pid (inferior s)) of
        (Inl e, k) \<Rightarrow> (COMMAND_ERROR_UNKNOWN_ERROR, s\<lparr> kern := k \<rparr>)
      | (Inr _, k) \<Rightarrow> (COMMAND_ERROR_NONE, s\<lparr> kern := k \<rparr>))"

text \<open>\<open>do_wait\<close>: 0 asks the caller to try again, a negative result is an error. The status is
  written only when a child was reported.\<close>

definition do_wait ::
  "('k, 'w::len, 'r, 'f) kernel \<Rightarrow> 'k \<Rightarrow> gint \<Rightarrow> guint32 \<Rightarrow> bool \<Rightarrow> gint \<times> guint32 \<times> 'k" where
  "do_wait K k pid status nohang =
     (case waitpid K k pid nohang of
        (Inl e, k) \<Rightarrow> (if e = EINTR then 0 else -1, status, k)
      | (Inr (ret, st), k) \<Rightarrow> (ret, if 0 < ret then st else status, k))"

text \<open>\<open>x86_arch_get_registers\<close> as the Linux layer sees it.\<close>

type_synonym ('k, 'w, 'a) server_fn =
  "('k, 'w, 'a) server \<Rightarrow> ServerCommandError \<times> ('k, 'w, 'a) server"

text \<open>
  \<open>_server_ptrace_wait_for_new_thread\<close>. The argument \<open>wait_mutex\<close> says whether another thread
  holds the mutex; the result's second part is its state afterwards.
\<close>

definition priv_server_ptrace_wait_for_new_thread ::
  "('k, 'w::len, 'a) server_fn \<Rightarrow> ('k, 'w, 'r, 'f) kernel \<Rightarrow> bool \<Rightarrow> ('k, 'w, 'a) server \<Rightarrow>
     bool \<times> bool \<times> ('k, 'w, 'a) server" where
  "priv_server_ptrace_wait_for_new_thread x86_arch_get_registers K wait_mutex s =
     (if wait_mutex then (False, wait_mutex, s)
      else case waitpid K (kern s) (sint (inf_pid (inferior s))) False of
        (Inl e, k) \<Rightarrow> (False, False, s\<lparr> kern := k \<rparr>)
      | (Inr (ret, status), k) \<Rightarrow>
          if word_of_int ret \<noteq> inf_pid (inferior s) \<or> \<not> WIFSTOPPED status \<or>
             (WSTOPSIG status \<noteq> SIGSTOP \<and> WSTOPSIG status \<noteq> SIGTRAP)
          then (False, False, s\<lparr> kern := k \<rparr>)
          else case x86_arch_get_registers (s\<lparr> kern := k \<rparr>) of
            (result, s) \<Rightarrow> (result = COMMAND_ERROR_NONE, False, s))"

definition server_ptrace_stop ::
  "('k, 'w::len, 'a) server_fn \<Rightarrow> ('k, 'w, 'r, 'f) kernel \<Rightarrow> ('k, 'w, 'a) server \<Rightarrow>
     ServerCommandError \<times> ('k, 'w, 'a) server" where
  "server_ptrace_stop x86_arch_get_registers K s =
     (case x86_arch_get_registers s of (result, s) \<Rightarrow>
        if result = COMMAND_ERROR_NONE then (COMMAND_ERROR_ALREADY_STOPPED, s)
        else case sys_tkill K (kern s) (inf_pid (inferior s)) SIGSTOP of
          (Inl e, k) \<Rightarrow>
            (if e = ESRCH then COMMAND_ERROR_NO_TARGET else COMMAND_ERROR_UNKNOWN_ERROR, s\<lparr> kern := k \<rparr>)
        | (Inr _, k) \<Rightarrow> (COMMAND_ERROR_NONE, s\<lparr> kern := k \<rparr>))"

section \<open>Setting up and leaving a target\<close>

definition priv_server_ptrace_setup_inferior ::
  "(('k, 'w, 'a) server \<Rightarrow> ('k, 'w, 'a) server) \<Rightarrow> ('k, 'w::len, 'r, 'f) kernel \<Rightarrow>
     ('k, 'w, 'a) server \<Rightarrow> ServerCommandError \<times> ('k, 'w, 'a) server" where
  "priv_server_ptrace_setup_inferior x86_arch_remove_hardware_breakpoints K s =
     (let s = x86_arch_remove_hardware_breakpoints s in
      case open_proc_mem K (kern s) (inf_pid (inferior s)) of
        (Inl e, k) \<Rightarrow>
          (if e = EACCES then COMMAND_ERROR_PERMISSION_DENIED else COMMAND_ERROR_UNKNOWN_ERROR,
           s\<lparr> kern := k, inferior := (inferior s)\<lparr> mem_fd := -1 \<rparr> \<rparr>)
      | (Inr fd, k) \<Rightarrow>
          (COMMAND_ERROR_NONE, s\<lparr> kern := k, inferior := (inferior s)\<lparr> mem_fd := fd \<rparr> \<rparr>))"

definition priv_server_ptrace_finalize_inferior ::
  "('k, 'w::len, 'r, 'f) kernel \<Rightarrow> ('k, 'w, 'a) server \<Rightarrow> ('k, 'w, 'a) server" where
  "priv_server_ptrace_finalize_inferior K s =
     s\<lparr> kern := close_fd K (kern s) (mem_fd (inferior s)), inferior := (inferior s)\<lparr> mem_fd := -1 \<rparr> \<rparr>"

definition server_ptrace_initialize_process ::
  "('k, 'w::len, 'r, 'f) kernel \<Rightarrow> ('k, 'w, 'a) server \<Rightarrow> ServerCommandError \<times> ('k, 'w, 'a) server" where
  "server_ptrace_initialize_process K s =
     (case ptrace_setoptions K (kern s) (inf_pid (inferior s))
             (PTRACE_O_TRACECLONE OR PTRACE_O_TRACEFORK OR PTRACE_O_TRACEVFORK OR PTRACE_O_TRACEEXEC) of
        (Inl e, k) \<Rightarrow> (COMMAND_ERROR_UNKNOWN_ERROR, s\<lparr> kern := k \<rparr>)
      | (Inr _, k) \<Rightarrow> (COMMAND_ERROR_NONE, s\<lparr> kern := k \<rparr>))"

definition server_ptrace_get_server_type :: ServerType where
  "server_ptrace_get_server_type = SERVER_TYPE_LINUX_PTRACE"

definition server_ptrace_get_capabilities :: guint32 where
  "server_ptrace_get_capabilities =
     SERVER_CAPABILITIES_THREAD_EVENTS OR SERVER_CAPABILITIES_CAN_DETACH_ANY"

text \<open>\<open>mono_thread_get_abort_signal ()\<close> belongs to the Mono runtime and is an argument.\<close>

definition server_ptrace_get_signal_info :: "gint \<Rightarrow> ServerCommandError \<times> SignalInfo" where
  "server_ptrace_get_signal_info mono_thread_get_abort_signal =
     (COMMAND_ERROR_NONE,
      \<lparr> sigkill = SIGKILL, sigstop = SIGSTOP, sigint = SIGINT, sigchld = SIGCHLD,
        sigfpe = SIGFPE, sigquit = SIGQUIT, sigabrt = SIGABRT, sigsegv = SIGSEGV,
        sigill = SIGILL, sigbus = SIGBUS, sigwinch = SIGWINCH,
        kernel_sigrtmin = SIGRTMIN_kernel, mono_thread_abort = mono_thread_get_abort_signal \<rparr>)"

section \<open>Process information from \<open>/proc\<close>\<close>

text \<open>\<open>strtol (filename, &endptr, 10)\<close>: the value, clamped to the range of a \<open>long\<close>, and the
  rest of the string from \<open>endptr\<close> on.\<close>

definition is_digit :: "char \<Rightarrow> bool" where
  "is_digit c \<longleftrightarrow> 48 \<le> (of_char c :: nat) \<and> (of_char c :: nat) \<le> 57"

definition is_space :: "char \<Rightarrow> bool" where
  "is_space c \<longleftrightarrow> (of_char c :: nat) = 32 \<or> (9 \<le> (of_char c :: nat) \<and> (of_char c :: nat) \<le> 13)"

definition digits_value :: "string \<Rightarrow> int" where
  "digits_value = foldl (\<lambda>n c. 10 * n + (of_char c - 48)) 0"

definition strtol :: "'w::len itself \<Rightarrow> string \<Rightarrow> int \<times> string" where
  "strtol w str =
     (let t = dropWhile is_space str;
          neg = (t \<noteq> [] \<and> hd t = CHR ''-'');
          u = (if t \<noteq> [] \<and> (hd t = CHR ''-'' \<or> hd t = CHR ''+'') then tl t else t);
          ds = takeWhile is_digit u;
          n = (if neg then - digits_value ds else digits_value ds) in
      if ds = [] then (0, str)
      else (max (- (2 ^ (LENGTH('w) - 1))) (min (2 ^ (LENGTH('w) - 1) - 1) n), dropWhile is_digit u))"

fun get_threads_loop :: "'w::len itself \<Rightarrow> string list \<Rightarrow> guint32 list \<Rightarrow> guint32 list option" where
  "get_threads_loop w [] array = Some array"
| "get_threads_loop w (filename # rest) array =
     (case strtol w filename of (pid, endptr) \<Rightarrow>
        if endptr \<noteq> [] then None else get_threads_loop w rest (array @ [word_of_int pid]))"

definition server_ptrace_get_threads ::
  "('k, 'w::len, 'r, 'f) kernel \<Rightarrow> ('k, 'w, 'a) server \<Rightarrow> ServerCommandError \<times> guint32 list" where
  "server_ptrace_get_threads K s =
     (case read_task_dir K (kern s) (inf_pid (inferior s)) of
        None \<Rightarrow> (COMMAND_ERROR_UNKNOWN_ERROR, [])
      | Some names \<Rightarrow>
          (case get_threads_loop TYPE('w) names [] of
             None \<Rightarrow> (COMMAND_ERROR_UNKNOWN_ERROR, [])
           | Some threads \<Rightarrow> (COMMAND_ERROR_NONE, threads)))"

text \<open>A C string ends at its first zero byte.\<close>

definition c_string :: "string \<Rightarrow> string" where
  "c_string = takeWhile (\<lambda>c. c \<noteq> CHR 0x00)"

text \<open>The loop of \<open>server_ptrace_get_application\<close> over the contents of \<open>/proc/<pid>/cmdline\<close>, from
  the position reached: one argument per zero-terminated piece.\<close>

function cmdline_args_loop :: "string \<Rightarrow> string list" where
  "cmdline_args_loop cmdline =
     (if cmdline = [] then []
      else c_string cmdline # cmdline_args_loop (drop (length (c_string cmdline) + 1) cmdline))"
  by pat_completeness auto
termination
  by (relation "measure length") auto

declare cmdline_args_loop.simps [simp del]

definition server_ptrace_get_application ::
  "('k, 'w::len, 'r, 'f) kernel \<Rightarrow> ('k, 'w, 'a) server \<Rightarrow>
     ServerCommandError + string \<times> string \<times> string list" where
  "server_ptrace_get_application K s =
     (case readlink_exe K (kern s) (inf_pid (inferior s)) of
        Inl e \<Rightarrow> Inl (if e = EACCES then COMMAND_ERROR_PERMISSION_DENIED else COMMAND_ERROR_UNKNOWN_ERROR)
      | Inr exe_file \<Rightarrow>
          (case readlink_cwd K (kern s) (inf_pid (inferior s)) of
             Inl e \<Rightarrow> Inl COMMAND_ERROR_UNKNOWN_ERROR
           | Inr cwd \<Rightarrow>
               (case read_cmdline K (kern s) (inf_pid (inferior s)) of
                  None \<Rightarrow> Inl COMMAND_ERROR_UNKNOWN_ERROR
                | Some cmdline \<Rightarrow> Inr (c_string exe_file, c_string cwd, cmdline_args_loop cmdline))))"

section \<open>Detaching from a forked child\<close>

type_synonym ('k, 'w, 'a) breakpoint_fn =
  "('k, 'w, 'a) server \<Rightarrow> bp_ptr \<Rightarrow> (ServerCommandError \<times> ('k, 'w, 'a) server) option"

fun detach_after_fork_loop ::
  "('k, 'w::len, 'a) breakpoint_fn \<Rightarrow> ('k, 'w, 'a) server \<Rightarrow> bp_ptr list \<Rightarrow> ('k, 'w, 'a) server option" where
  "detach_after_fork_loop x86_arch_disable_breakpoint s [] = Some s"
| "detach_after_fork_loop x86_arch_disable_breakpoint s (info # rest) =
     (case x86_arch_disable_breakpoint s info of
        None \<Rightarrow> None
      | Some (_, s) \<Rightarrow> detach_after_fork_loop x86_arch_disable_breakpoint s rest)"

definition server_ptrace_detach_after_fork ::
  "('k, 'w::len, 'a) server_fn \<Rightarrow> ('k, 'w, 'a) breakpoint_fn \<Rightarrow> ('k, 'w, 'r, 'f) kernel \<Rightarrow>
     ('k, 'w, 'a) server \<Rightarrow> (ServerCommandError \<times> ('k, 'w, 'a) server) option" where
  "server_ptrace_detach_after_fork x86_arch_get_registers x86_arch_disable_breakpoint K s =
     (let s = s\<lparr> kern := snd (waitpid K (kern s) (sint (inf_pid (inferior s))) True) \<rparr>;
          (result, s) = x86_arch_get_registers s;
          s = (if result \<noteq> COMMAND_ERROR_NONE
               then s\<lparr> kern := snd (snd (do_wait K (kern s) (sint (inf_pid (inferior s))) 0 False)) \<rparr>
               else s);
          (result, s) = x86_arch_get_registers s in
      if result \<noteq> COMMAND_ERROR_NONE then Some (result, s)
      else do {
        s \<leftarrow> detach_after_fork_loop x86_arch_disable_breakpoint
              (mono_debugger_breakpoint_manager_lock s) (breakpoints (bpm s));
        let s = mono_debugger_breakpoint_manager_unlock s;
        Some (checked K s (ptrace_detach K (kern s) (inf_pid (inferior s))))
      })"

section \<open>Calls that change nothing but the kernel's state\<close>

definition kern_only :: "('k, 'w::len, 'a) server \<Rightarrow> ('k, 'w, 'a) server \<Rightarrow> bool" where
  "kern_only s s' \<longleftrightarrow> s' = s\<lparr> kern := kern s' \<rparr>"

lemma kern_only_refl [simp]: "kern_only s s"
  by (simp add: kern_only_def)

lemma kern_only_upd [simp]: "kern_only s (s\<lparr> kern := k \<rparr>)"
  by (simp add: kern_only_def)

lemma kern_only_upd_left [simp]: "kern_only (s\<lparr> kern := k \<rparr>) s' \<longleftrightarrow> kern_only s s'"
  by (simp add: kern_only_def)

lemma kern_onlyE:
  assumes "kern_only s s'"
  obtains k where "s' = s\<lparr> kern := k \<rparr>"
  using assms by (metis kern_only_def)

lemma kern_only_trans: "kern_only s s' \<Longrightarrow> kern_only s' s'' \<Longrightarrow> kern_only s s''"
  by (erule kern_onlyE)+ (simp add: kern_only_def)

lemma kern_only_fields:
  assumes "kern_only s s'"
  shows "bp_heap s' = bp_heap s" "bp_next s' = bp_next s"
    "last_breakpoint_id s' = last_breakpoint_id s" "bpm_mutex s' = bpm_mutex s"
    "inferior s' = inferior s" "arch s' = arch s" "mono_runtime s' = mono_runtime s" "bpm s' = bpm s"
  using assms by (auto elim!: kern_onlyE)

lemma kern_only_checked: "kern_only s (snd (checked K s r))"
  by (simp add: checked_def Let_def split: sum.splits)

lemma checked_NoneD:
  "checked K s r = (COMMAND_ERROR_NONE, s') \<Longrightarrow> s' = s\<lparr> kern := snd r \<rparr>"
  by (auto simp: checked_def Let_def split: sum.splits)

lemma checked_Inr [simp]: "checked K s (Inr u, k) = (COMMAND_ERROR_NONE, s\<lparr> kern := k \<rparr>)"
  by (simp add: checked_def)

lemma kern_only_ops:
  "kern_only s (snd (priv_server_ptrace_set_registers K s r))"
  "kern_only s (snd (priv_server_ptrace_set_fp_registers K s f))"
  "kern_only s (snd (server_ptrace_poke_word K s a w))"
  "kern_only s (snd (priv_server_ptrace_set_dr K s n v))"
  "kern_only s (snd (snd (priv_server_ptrace_get_dr K s n v)))"
  "kern_only s (snd (snd (priv_server_ptrace_get_registers K s r)))"
  "kern_only s (snd (snd (priv_server_ptrace_get_fp_registers K s f)))"
  "kern_only s (snd (server_ptrace_kill K s))"
  "kern_only s (snd (server_ptrace_initialize_process K s))"
  by (simp_all add: kern_only_checked priv_server_ptrace_set_registers_def
      priv_server_ptrace_set_fp_registers_def server_ptrace_poke_word_def priv_server_ptrace_set_dr_def
      priv_server_ptrace_get_dr_def priv_server_ptrace_get_registers_def
      priv_server_ptrace_get_fp_registers_def server_ptrace_kill_def
      server_ptrace_initialize_process_def split: sum.splits prod.splits)

lemma kern_only_op_eqs:
  "priv_server_ptrace_set_registers K s r = (e, s') \<Longrightarrow> kern_only s s'"
  "priv_server_ptrace_set_fp_registers K s f = (e, s') \<Longrightarrow> kern_only s s'"
  "server_ptrace_poke_word K s a w = (e, s') \<Longrightarrow> kern_only s s'"
  "priv_server_ptrace_set_dr K s n v = (e, s') \<Longrightarrow> kern_only s s'"
  "priv_server_ptrace_get_dr K s n v = (e, v', s') \<Longrightarrow> kern_only s s'"
  "priv_server_ptrace_get_registers K s r = (e, r', s') \<Longrightarrow> kern_only s s'"
  "priv_server_ptrace_get_fp_registers K s f = (e, f', s') \<Longrightarrow> kern_only s s'"
  by (metis kern_only_ops(1) snd_conv, metis kern_only_ops(2) snd_conv, metis kern_only_ops(3) snd_conv,
      metis kern_only_ops(4) snd_conv, metis kern_only_ops(5) snd_conv, metis kern_only_ops(6) snd_conv,
      metis kern_only_ops(7) snd_conv)

lemma kern_only_read_loop:
  assumes ret: "read_memory_loop K s start sz buf = Some (r, s', buf')"
  shows "kern_only s s'"
proof -
  have "\<forall>r s' buf'. y = (r, s', buf') \<longrightarrow> kern_only s s'"
    if "read_memory_loop K s start sz buf = Some y" for y
    by (rule read_memory_loop.raw_induct [where P =
          "\<lambda>K s start sz buf y. \<forall>r s' buf'. y = (r, s', buf') \<longrightarrow> kern_only s s'", OF _ that])
      (fastforce split: if_splits prod.splits sum.splits)
  then show ?thesis using ret by blast
qed

lemma kern_only_read:
  "priv_server_ptrace_read_memory K s start sz = Some (r, s', buf) \<Longrightarrow> kern_only s s'"
  by (simp add: priv_server_ptrace_read_memory_def kern_only_read_loop)

lemma kern_only_write:
  assumes ret: "server_ptrace_write_memory K s addr buffer = Some (r, s')"
  shows "kern_only s s'"
proof -
  have "\<forall>r s'. y = (r, s') \<longrightarrow> kern_only s s'"
    if "server_ptrace_write_memory K s addr buffer = Some y" for y
    by (rule server_ptrace_write_memory.raw_induct [where P =
          "\<lambda>K s addr buffer y. \<forall>r s'. y = (r, s') \<longrightarrow> kern_only s s'", OF _ that])
      (fastforce split: if_splits prod.splits sum.splits
         dest: kern_only_read intro: kern_only_trans)
  then show ?thesis using ret by blast
qed

section \<open>Reading and writing a stopped target\<close>

text \<open>
  The documented behaviour of \<open>/proc/<pid>/mem\<close> and of \<open>PTRACE_POKEDATA\<close> on a target that
  stays stopped: in a kernel state that satisfies \<open>ok\<close>, with \<open>M\<close> the target's memory and \<open>A\<close>
  the addresses it has mapped, a read of mapped bytes returns all of them and a write of
  a mapped word stores it, and neither does anything else to memory.
\<close>

definition target_memory ::
  "('k, 'w::len, 'r, 'f) kernel \<Rightarrow> pid \<Rightarrow> gint \<Rightarrow> 'w word set \<Rightarrow> ('k \<Rightarrow> bool) \<Rightarrow> ('k \<Rightarrow> 'w mem) \<Rightarrow> bool" where
  "target_memory K pid fd A ok M \<longleftrightarrow>
     (\<forall>k a w. ok k \<and> span a (sizeof_long TYPE('w)) \<subseteq> A \<longrightarrow>
        (\<exists>k'. ptrace_write_d K k pid a w = (Inr (), k') \<and> ok k' \<and>
              M k' = store (M k) a (le_bytes (sizeof_long TYPE('w)) w))) \<and>
     (\<forall>k sz off. ok k \<and> sz \<noteq> 0 \<and> span (ucast off) (unat sz) \<subseteq> A \<longrightarrow>
        (\<exists>k'. pread64 K k fd sz off = (Inr (load (M k) (ucast off) (unat sz)), k') \<and> ok k' \<and>
              M k' = M k))"

lemma target_memory_write:
  assumes "target_memory K pid fd A ok M" and "ok k" and "span a (sizeof_long TYPE('w)) \<subseteq> A"
  obtains k' where "ptrace_write_d K k pid a (w :: 'w::len word) = (Inr (), k')" "ok k'"
    "M k' = store (M k) a (le_bytes (sizeof_long TYPE('w)) w)"
  using assms unfolding target_memory_def by blast

lemma target_memory_read:
  assumes "target_memory K pid fd A ok M" and "ok k" and "sz \<noteq> 0"
    and "span (ucast off :: 'w::len word) (unat sz) \<subseteq> A"
  obtains k' where "pread64 K k fd sz off = (Inr (load (M k) (ucast off) (unat sz)), k')" "ok k'"
    "M k' = M k"
  using assms unfolding target_memory_def by blast

lemma raw_read:
  fixes s :: "('k, 'w::len, 'a) server"
  assumes tm: "target_memory K (inf_pid (inferior s)) (mem_fd (inferior s)) A ok M"
    and ok: "ok (kern s)" and map: "span (ucast start) (unat sz) \<subseteq> A"
  shows "\<exists>k. priv_server_ptrace_read_memory K s start sz =
      Some (COMMAND_ERROR_NONE, s\<lparr> kern := k \<rparr>, load (M (kern s)) (ucast start) (unat sz)) \<and>
    ok k \<and> M k = M (kern s)"
proof (cases "sz = 0")
  case True
  then show ?thesis using ok
    unfolding priv_server_ptrace_read_memory_def
    by (intro exI [of _ "kern s"], subst read_memory_loop.simps) simp
next
  case False
  obtain k where k: "pread64 K (kern s) (mem_fd (inferior s)) sz start =
      (Inr (load (M (kern s)) (ucast start) (unat sz)), k)" "ok k" "M k = M (kern s)"
    using target_memory_read [OF tm ok False map] by blast
  have "sz - of_nat (unat sz) = 0" by simp
  then have "priv_server_ptrace_read_memory K s start sz =
      Some (COMMAND_ERROR_NONE, s\<lparr> kern := k \<rparr>, load (M (kern s)) (ucast start) (unat sz))"
    unfolding priv_server_ptrace_read_memory_def using False k(1)
    by (subst read_memory_loop.simps, subst read_memory_loop.simps) simp
  then show ?thesis using k by blast
qed

text \<open>The bytes \<open>server_ptrace_write_memory\<close> touches: the buffer, rounded up to whole words.\<close>

definition written_span :: "'w::len word \<Rightarrow> nat \<Rightarrow> 'w word set" where
  "written_span a n = span a ((n + sizeof_long TYPE('w) - 1) div sizeof_long TYPE('w) * sizeof_long TYPE('w))"

definition byte_words :: "'w::len itself \<Rightarrow> bool" where
  "byte_words _ \<longleftrightarrow> LENGTH('w) = 8 * sizeof_long TYPE('w) \<and> LENGTH('w) \<le> 64"

lemma byte_words_32_64 [simp]: "byte_words TYPE(32)" "byte_words TYPE(64)"
  by (simp_all add: byte_words_def)

lemma byte_words_pos: "byte_words TYPE('w::len) \<Longrightarrow> 0 < sizeof_long TYPE('w)"
  using len_gt_0 [where 'a = 'w] by (auto simp: byte_words_def intro: gr0I)

lemma span_written_span:
  assumes "byte_words TYPE('w::len)"
  shows "span (a :: 'w word) n \<subseteq> written_span a n"
proof -
  let ?W = "sizeof_long TYPE('w)"
  have "0 < ?W" by (rule byte_words_pos [OF assms])
  then have "n + ?W - 1 < (n + ?W - 1) div ?W * ?W + ?W" by (metis dividend_less_div_times add.commute)
  then show ?thesis unfolding written_span_def by (intro span_mono) linarith
qed

lemma sizeof_long_le: "sizeof_long TYPE('w::len) \<le> 2 ^ LENGTH('w)"
proof -
  have "sizeof_long TYPE('w) \<le> LENGTH('w)" by (simp add: sizeof_long_def)
  also have "\<dots> \<le> 2 ^ LENGTH('w)" by (simp add: less_imp_le)
  finally show ?thesis .
qed

lemma write_word:
  fixes s :: "('k, 'w::len, 'a) server"
  assumes bw: "byte_words TYPE('w)"
    and tm: "target_memory K (inf_pid (inferior s)) (mem_fd (inferior s)) A ok M"
    and ok: "ok (kern s)" and len: "sizeof_long TYPE('w) \<le> length buffer"
    and map: "span (ucast addr) (sizeof_long TYPE('w)) \<subseteq> A"
  shows "\<exists>k. server_ptrace_write_memory K s addr buffer =
      server_ptrace_write_memory K (s\<lparr> kern := k \<rparr>) (addr + of_nat (sizeof_long TYPE('w)))
        (drop (sizeof_long TYPE('w)) buffer) \<and>
    ok k \<and> M k = store (M (kern s)) (ucast addr) (take (sizeof_long TYPE('w)) buffer)"
proof -
  let ?W = "sizeof_long TYPE('w)" and ?w = "le_word (take (sizeof_long TYPE('w)) buffer) :: 'w word"
  obtain k where k: "ptrace_write_d K (kern s) (inf_pid (inferior s)) (ucast addr) ?w = (Inr (), k)" "ok k"
    "M k = store (M (kern s)) (ucast addr) (le_bytes ?W ?w)"
    using target_memory_write [OF tm ok map] by blast
  have "le_bytes ?W ?w = take ?W buffer"
    using bw len by (intro le_bytes_le_word) (simp_all add: byte_words_def)
  then show ?thesis using k len by (subst server_ptrace_write_memory.simps) auto
qed

lemma written_span_tail:
  fixes a :: "'w::len word"
  assumes "0 < n" and "n \<le> sizeof_long TYPE('w)"
  shows "written_span a n = span a (sizeof_long TYPE('w))"
proof -
  let ?W = "sizeof_long TYPE('w)"
  have "(n + ?W - 1) div ?W = 1"
    using assms by (intro div_nat_eqI) auto
  then show ?thesis by (simp add: written_span_def)
qed

lemma written_span_step:
  fixes a :: "'w::len word"
  assumes "0 < sizeof_long TYPE('w)" and "sizeof_long TYPE('w) \<le> n" and "n + sizeof_long TYPE('w) \<le> 2 ^ LENGTH('w)"
  shows "span a (sizeof_long TYPE('w)) \<subseteq> written_span a n"
    and "written_span (a + of_nat (sizeof_long TYPE('w))) (n - sizeof_long TYPE('w)) \<subseteq> written_span a n"
proof -
  let ?W = "sizeof_long TYPE('w)"
  define q where "q = (n - ?W + ?W - 1) div ?W"
  have q: "(n + ?W - 1) div ?W = Suc q"
  proof -
    have "n + ?W - 1 = (n - ?W + ?W - 1) + ?W" using assms by simp
    then show ?thesis using assms unfolding q_def by (metis div_add_self2 neq0_conv Suc_eq_plus1)
  qed
  have "Suc q * ?W \<le> n + ?W - 1" by (metis q div_times_less_eq_dividend)
  then have le: "Suc q * ?W \<le> 2 ^ LENGTH('w)" using assms by simp
  show "span a ?W \<subseteq> written_span a n"
    unfolding written_span_def q by (rule span_mono) simp
  have "span (a + of_nat ?W) (q * ?W) \<subseteq> span a (Suc q * ?W)"
    using le by (intro span_shift) simp_all
  then show "written_span (a + of_nat ?W) (n - ?W) \<subseteq> written_span a n"
    unfolding written_span_def q q_def .
qed

text \<open>Writing a rest shorter than a word puts back the bytes behind it.\<close>

lemma write_rest:
  fixes s :: "('k, 'w::len, 'a) server"
  assumes bw: "byte_words TYPE('w)"
    and tm: "target_memory K (inf_pid (inferior s)) (mem_fd (inferior s)) A ok M"
    and ok: "ok (kern s)" and len: "length buffer < sizeof_long TYPE('w)" "buffer \<noteq> []"
    and map: "span (ucast addr) (sizeof_long TYPE('w)) \<subseteq> A"
  shows "\<exists>k. server_ptrace_write_memory K s addr buffer = Some (COMMAND_ERROR_NONE, s\<lparr> kern := k \<rparr>) \<and>
    ok k \<and> M k = store (M (kern s)) (ucast addr) buffer"
proof -
  let ?W = "sizeof_long TYPE('w)"
  have W: "unat (of_nat ?W :: guint32) = ?W"
  proof -
    have "?W \<le> 8" using bw by (simp add: byte_words_def)
    then show ?thesis by (simp add: unat_of_nat take_bit_eq_mod)
  qed
  have map': "span (ucast addr) (unat (of_nat ?W :: guint32)) \<subseteq> A" using map W by simp
  obtain k where r: "priv_server_ptrace_read_memory K s addr (of_nat ?W) =
      Some (COMMAND_ERROR_NONE, s\<lparr> kern := k \<rparr>, load (M (kern s)) (ucast addr) ?W)"
    "ok k" "M k = M (kern s)"
    using raw_read [OF tm ok map'] W by metis
  let ?word = "buffer @ drop (length buffer) (load (M (kern s)) (ucast addr) ?W)"
  have l: "length ?word = ?W" using len by simp
  have tm': "target_memory K (inf_pid (inferior (s\<lparr> kern := k \<rparr>))) (mem_fd (inferior (s\<lparr> kern := k \<rparr>))) A ok M"
    using tm by simp
  have "?W \<le> length ?word" using l by simp
  from write_word [OF bw tm' _ this map] r(2)
  obtain k' where w: "server_ptrace_write_memory K (s\<lparr> kern := k \<rparr>) addr ?word =
      server_ptrace_write_memory K (s\<lparr> kern := k' \<rparr>) (addr + of_nat ?W) (drop ?W ?word)"
    "ok k'" "M k' = store (M k) (ucast addr) (take ?W ?word)" by auto
  have "drop ?W ?word = []" and "take ?W ?word = ?word" using l by auto
  moreover have "server_ptrace_write_memory K s' a [] = Some (COMMAND_ERROR_NONE, s')"
    for s' :: "('k, 'w, 'a) server" and a
    using byte_words_pos [OF bw] by (subst server_ptrace_write_memory.simps) simp
  moreover have "server_ptrace_write_memory K s addr buffer =
      server_ptrace_write_memory K (s\<lparr> kern := k \<rparr>) addr ?word"
    using len r(1) by (subst server_ptrace_write_memory.simps) simp
  moreover have "store (M k) (ucast addr) ?word = store (M (kern s)) (ucast addr) buffer"
    using len r(3) store_tail [of buffer ?W "M (kern s)" "ucast addr"] sizeof_long_le [where 'w = 'w] by simp
  ultimately show ?thesis using w by (intro exI [of _ k']) (simp del: drop_append take_append)
qed

lemma write_memory:
  fixes s :: "('k, 'w::len, 'a) server"
  assumes bw: "byte_words TYPE('w)"
    and "target_memory K (inf_pid (inferior s)) (mem_fd (inferior s)) A ok M"
    and "ok (kern s)" and "length buffer + sizeof_long TYPE('w) \<le> 2 ^ LENGTH('w)"
    and "written_span (ucast addr) (length buffer) \<subseteq> A"
  shows "\<exists>k. server_ptrace_write_memory K s addr buffer = Some (COMMAND_ERROR_NONE, s\<lparr> kern := k \<rparr>) \<and>
    ok k \<and> M k = store (M (kern s)) (ucast addr) buffer"
  using assms(2-)
proof (induction "length buffer" arbitrary: s addr buffer rule: less_induct)
  case less
  let ?W = "sizeof_long TYPE('w)"
  have W: "0 < ?W" by (rule byte_words_pos [OF bw])
  consider "buffer = []" | "buffer \<noteq> []" "length buffer < ?W" | "?W \<le> length buffer" by linarith
  then show ?case
  proof cases
    case 1
    then show ?thesis using W less.prems(2)
      by (intro exI [of _ "kern s"], subst server_ptrace_write_memory.simps) simp
  next
    case 2
    then show ?thesis
      using less.prems written_span_tail [of "length buffer" "ucast addr :: 'w word"]
      by (intro write_rest [OF bw]) auto
  next
    case 3
    have spans: "span (ucast addr) ?W \<subseteq> A"
      "written_span (ucast addr + of_nat ?W) (length buffer - ?W) \<subseteq> A"
      using written_span_step [OF W 3 less.prems(3), of "ucast addr"] less.prems(4) by blast+
    from write_word [OF bw less.prems(1,2) 3 spans(1)]
    obtain k where k: "server_ptrace_write_memory K s addr buffer =
        server_ptrace_write_memory K (s\<lparr> kern := k \<rparr>) (addr + of_nat ?W) (drop ?W buffer)"
      "ok k" "M k = store (M (kern s)) (ucast addr) (take ?W buffer)" by blast
    have cast: "(ucast (addr + of_nat ?W) :: 'w word) = ucast addr + of_nat ?W"
      using bw by (simp add: byte_words_def ucast_add_down ucast_of_nat_down)
    have "\<exists>k'. server_ptrace_write_memory K (s\<lparr> kern := k \<rparr>) (addr + of_nat ?W) (drop ?W buffer) =
        Some (COMMAND_ERROR_NONE, s\<lparr> kern := k \<rparr>\<lparr> kern := k' \<rparr>) \<and> ok k' \<and>
        M k' = store (M (kern (s\<lparr> kern := k \<rparr>))) (ucast (addr + of_nat ?W)) (drop ?W buffer)"
      using less.prems k(2) W 3 spans(2) by (intro less.hyps) (auto simp: cast)
    then obtain k' where k': "server_ptrace_write_memory K s addr buffer =
        Some (COMMAND_ERROR_NONE, s\<lparr> kern := k' \<rparr>)" "ok k'"
      "M k' = store (store (M (kern s)) (ucast addr) (take ?W buffer)) (ucast addr + of_nat ?W) (drop ?W buffer)"
      using k cast by auto
    have "M k' = store (M (kern s)) (ucast addr) (take ?W buffer @ drop ?W buffer)"
      using k'(3) store_append [where 'w = 'w, of "take ?W buffer" "drop ?W buffer"] less.prems(3) 3 by simp
    then show ?thesis using k' by auto
  qed
qed

end
