(* ===== verification/X86_Debug_Registers.thy ===== *)
theory X86_Debug_Registers
  imports Prelude
begin

text \<open>
  The debug control register DR7 as \<open>x86-arch.h\<close> programs it: two enable bits and a four-bit
  read/write and length field for each of the four debug address registers. The macros
  shift \<open>int\<close> constants, so each mask is a 32-bit value that is sign-extended when it meets
  the \<open>guint64 dr_control\<close>; shifting a one into the sign bit wraps, as gcc defines it.
\<close>

section \<open>The macros\<close>

definition DR_NADDR :: nat where "DR_NADDR = 4"
definition DR_STATUS :: gint where "DR_STATUS = 6"
definition DR_CONTROL :: gint where "DR_CONTROL = 7"
definition DR_CONTROL_SHIFT :: nat where "DR_CONTROL_SHIFT = 16"
definition DR_CONTROL_SIZE :: nat where "DR_CONTROL_SIZE = 4"
definition DR_ENABLE_SIZE :: nat where "DR_ENABLE_SIZE = 2"
definition DR_LOCAL_ENABLE_SHIFT :: nat where "DR_LOCAL_ENABLE_SHIFT = 0"
definition DR_GLOBAL_ENABLE_SHIFT :: nat where "DR_GLOBAL_ENABLE_SHIFT = 1"

definition DR_RW_EXECUTE :: guint32 where "DR_RW_EXECUTE = 0"
definition DR_RW_WRITE :: guint32 where "DR_RW_WRITE = 1"
definition DR_RW_READ :: guint32 where "DR_RW_READ = 3"
definition DR_LEN_1 :: guint32 where "DR_LEN_1 = push_bit 2 0"
definition DR_LEN_2 :: guint32 where "DR_LEN_2 = push_bit 2 1"
definition DR_LEN_4 :: guint32 where "DR_LEN_4 = push_bit 2 3"
definition DR_LEN_8 :: guint32 where "DR_LEN_8 = push_bit 2 2"

text \<open>An \<open>int\<close> constant shifted left, as an operand of a \<open>guint64\<close> operator.\<close>

definition int_mask :: "guint32 \<Rightarrow> nat \<Rightarrow> guint64" where
  "int_mask c n = scast (push_bit n c)"

definition int_mask_not :: "guint32 \<Rightarrow> nat \<Rightarrow> guint64" where
  "int_mask_not c n = scast (NOT (push_bit n c))"

definition X86_DR_VACANT :: "guint64 \<Rightarrow> nat \<Rightarrow> bool" where
  "X86_DR_VACANT dr_control i \<longleftrightarrow> dr_control AND int_mask 3 (DR_ENABLE_SIZE * i) = 0"

definition X86_DR_LOCAL_ENABLE :: "guint64 \<Rightarrow> nat \<Rightarrow> guint64" where
  "X86_DR_LOCAL_ENABLE dr_control i =
     dr_control OR int_mask 1 (DR_LOCAL_ENABLE_SHIFT + DR_ENABLE_SIZE * i)"

definition X86_DR_GLOBAL_ENABLE :: "guint64 \<Rightarrow> nat \<Rightarrow> guint64" where
  "X86_DR_GLOBAL_ENABLE dr_control i =
     dr_control OR int_mask 1 (DR_GLOBAL_ENABLE_SHIFT + DR_ENABLE_SIZE * i)"

definition X86_DR_DISABLE :: "guint64 \<Rightarrow> nat \<Rightarrow> guint64" where
  "X86_DR_DISABLE dr_control i = dr_control AND int_mask_not 3 (DR_ENABLE_SIZE * i)"

definition X86_DR_SET_RW_LEN :: "guint64 \<Rightarrow> nat \<Rightarrow> guint32 \<Rightarrow> guint64" where
  "X86_DR_SET_RW_LEN dr_control i rwlen =
     (dr_control AND int_mask_not 0x0f (DR_CONTROL_SHIFT + DR_CONTROL_SIZE * i))
       OR int_mask rwlen (DR_CONTROL_SHIFT + DR_CONTROL_SIZE * i)"

definition X86_DR_GET_RW_LEN :: "guint64 \<Rightarrow> nat \<Rightarrow> guint64" where
  "X86_DR_GET_RW_LEN dr_control i =
     drop_bit (DR_CONTROL_SHIFT + DR_CONTROL_SIZE * i) dr_control AND 0x0f"

definition X86_DR_WATCH_HIT :: "guint64 \<Rightarrow> nat \<Rightarrow> bool" where
  "X86_DR_WATCH_HIT dr_status i \<longleftrightarrow> dr_status AND int_mask 1 i \<noteq> 0"

lemmas dr_consts = DR_NADDR_def DR_CONTROL_SHIFT_def DR_CONTROL_SIZE_def DR_ENABLE_SIZE_def
  DR_LOCAL_ENABLE_SHIFT_def DR_GLOBAL_ENABLE_SHIFT_def

lemmas dr_rw_len_consts = DR_RW_EXECUTE_def DR_RW_WRITE_def DR_RW_READ_def
  DR_LEN_1_def DR_LEN_2_def DR_LEN_4_def DR_LEN_8_def

section \<open>Bits\<close>

declare bit_numeral_word_iff [simp del]

lemma bit_int_mask:
  "bit (int_mask c n) k \<longleftrightarrow> k < 64 \<and> n \<le> min 31 k \<and> bit c (min 31 k - n)"
  by (auto simp: int_mask_def bit_simps min_def dest: bit_imp_le_length)

lemma bit_int_mask_not:
  "bit (int_mask_not c n) k \<longleftrightarrow> k < 64 \<and> \<not> (n \<le> min 31 k \<and> bit c (min 31 k - n))"
  by (auto simp: int_mask_not_def bit_simps min_def dest: bit_imp_le_length)

lemma bit_nibble: "bit (15 :: guint32) k \<longleftrightarrow> k < 4"
proof -
  have m: "(15 :: guint32) = mask 4" by (simp add: mask_eq_exp_minus_1)
  show ?thesis unfolding m bit_mask_iff by auto
qed

lemma bit_nibble64: "bit (15 :: guint64) k \<longleftrightarrow> k < 4"
proof -
  have m: "(15 :: guint64) = mask 4" by (simp add: mask_eq_exp_minus_1)
  show ?thesis unfolding m bit_mask_iff by auto
qed

lemma bit_two_bits: "bit (3 :: guint32) k \<longleftrightarrow> k < 2"
proof -
  have m: "(3 :: guint32) = mask 2" by (simp add: mask_eq_exp_minus_1)
  show ?thesis unfolding m bit_mask_iff by auto
qed

lemma bit_small: "v < 16 \<Longrightarrow> bit (v :: guint32) k \<Longrightarrow> k < 4"
proof (rule ccontr)
  assume v: "v < 16" and k: "bit v k" and "\<not> k < 4"
  have "uint v < 16" using v by (simp add: word_less_def)
  then have "uint (take_bit 4 v) = uint v"
    by (simp add: unsigned_take_bit_eq take_bit_int_eq_self)
  then have "take_bit 4 v = v" by (rule word_uint_eqI)
  then show False using k \<open>\<not> k < 4\<close> by (metis bit_take_bit_iff)
qed

lemmas dr_bits = bit_int_mask bit_int_mask_not bit_nibble bit_nibble64 bit_two_bits bit_1_iff
  bit_and_iff bit_or_iff bit_drop_bit_eq

lemma and_eq_0_iff: "(a :: guint64) AND b = 0 \<longleftrightarrow> (\<forall>k. \<not> (bit a k \<and> bit b k))"
proof
  assume "a AND b = 0"
  then show "\<forall>k. \<not> (bit a k \<and> bit b k)" by (metis bit_and_iff bit_0_eq bot_apply bot_bool_def)
qed (simp add: bit_word_eqI bit_and_iff)

lemma bit_SET_RW_LEN:
  assumes "i < 4" and "v < 16"
  shows "bit (X86_DR_SET_RW_LEN dr i v) k \<longleftrightarrow> k < 64 \<and>
    (if 16 + 4 * i \<le> min 31 k \<and> min 31 k < 20 + 4 * i then bit v (min 31 k - (16 + 4 * i)) else bit dr k)"
  using assms bit_small [OF assms(2), of "min 31 k - (16 + 4 * i)"]
  by (auto simp: X86_DR_SET_RW_LEN_def dr_consts dr_bits dest: bit_imp_le_length)

lemma bit_LOCAL_ENABLE:
  "i < 4 \<Longrightarrow> bit (X86_DR_LOCAL_ENABLE dr i) k \<longleftrightarrow> k = 2 * i \<or> bit dr k"
  by (auto simp: X86_DR_LOCAL_ENABLE_def dr_consts dr_bits min_def)

lemma bit_DISABLE:
  "i < 4 \<Longrightarrow> bit (X86_DR_DISABLE dr i) k \<longleftrightarrow> bit dr k \<and> k \<noteq> 2 * i \<and> k \<noteq> 2 * i + 1"
  by (auto simp: X86_DR_DISABLE_def dr_consts dr_bits min_def dest: bit_imp_le_length)

lemma VACANT_iff:
  assumes "i < 4"
  shows "X86_DR_VACANT dr i \<longleftrightarrow> \<not> bit dr (2 * i) \<and> \<not> bit dr (2 * i + 1)"
proof -
  have "bit (int_mask 3 (2 * i)) k \<longleftrightarrow> k = 2 * i \<or> k = 2 * i + 1" for k
    using assms by (auto simp: dr_bits min_def)
  then show ?thesis by (auto simp: X86_DR_VACANT_def dr_consts and_eq_0_iff)
qed

lemma bit_GET_RW_LEN:
  "bit (X86_DR_GET_RW_LEN dr i) k \<longleftrightarrow> k < 4 \<and> bit dr (16 + 4 * i + k)"
  by (auto simp: X86_DR_GET_RW_LEN_def dr_consts dr_bits ac_simps)

lemma WATCH_HIT_iff:
  assumes "i < 4"
  shows "X86_DR_WATCH_HIT st i \<longleftrightarrow> bit st i"
proof -
  have "bit (int_mask 1 i) k \<longleftrightarrow> k = i" for k
    using assms by (auto simp: dr_bits min_def)
  then show ?thesis by (auto simp: X86_DR_WATCH_HIT_def and_eq_0_iff)
qed

section \<open>Fields of the control register\<close>

text \<open>
  A register of four independent fields: writing one field gives it the value written
  and leaves the others. Both the enable bits and the read/write-length fields of DR7
  are such a register, as the code's macros treat them.
\<close>

locale field_register =
  fixes get :: "guint64 \<Rightarrow> nat \<Rightarrow> 'v"
    and put :: "guint64 \<Rightarrow> nat \<Rightarrow> 'v \<Rightarrow> guint64"
    and valid :: "'v \<Rightarrow> bool"
  assumes get_put_same: "i < 4 \<Longrightarrow> valid v \<Longrightarrow> get (put r i v) i = v"
    and get_put_other: "i < 4 \<Longrightarrow> j < 4 \<Longrightarrow> i \<noteq> j \<Longrightarrow> valid v \<Longrightarrow> get (put r i v) j = get r j"
begin

lemma get_put: "i < 4 \<Longrightarrow> j < 4 \<Longrightarrow> valid v \<Longrightarrow> get (put r i v) j = (if j = i then v else get r j)"
  by (simp add: get_put_same get_put_other)

text \<open>Programming several fields, one after the other: the last write to a field counts.\<close>

lemma get_fold:
  assumes "\<forall>(i, v) \<in> set ps. i < 4 \<and> valid v" and "j < 4"
  shows "get (fold (\<lambda>(i, v) r. put r i v) ps r) j =
    (case map_of (rev ps) j of Some v \<Rightarrow> v | None \<Rightarrow> get r j)"
  using assms
proof (induction ps rule: rev_induct)
  case (snoc p ps)
  then show ?case by (cases p) (auto simp: get_put)
qed simp

end

definition dr_enabled :: "guint64 \<Rightarrow> nat \<Rightarrow> bool" where
  "dr_enabled dr i \<longleftrightarrow> \<not> X86_DR_VACANT dr i"

definition dr_enable :: "guint64 \<Rightarrow> nat \<Rightarrow> bool \<Rightarrow> guint64" where
  "dr_enable dr i on = (if on then X86_DR_LOCAL_ENABLE dr i else X86_DR_DISABLE dr i)"

definition dr_rw_len :: "guint64 \<Rightarrow> nat \<Rightarrow> guint32" where
  "dr_rw_len dr i = ucast (X86_DR_GET_RW_LEN dr i)"

interpretation dr7_enable: field_register dr_enabled dr_enable "\<lambda>_. True"
proof (standard, goal_cases)
  case (1 i v r)
  then show ?case by (auto simp: dr_enabled_def dr_enable_def VACANT_iff bit_LOCAL_ENABLE bit_DISABLE)
next
  case (2 i j v r)
  then have "2 * j \<noteq> 2 * i" "2 * j \<noteq> 2 * i + 1" "2 * j + 1 \<noteq> 2 * i" "2 * j + 1 \<noteq> 2 * i + 1"
    by presburger+
  with 2 show ?case
    by (simp add: dr_enabled_def dr_enable_def VACANT_iff bit_LOCAL_ENABLE bit_DISABLE)
qed

lemma GET_SET_RW_LEN:
  assumes "i < 4" and "j < 4" and "v < 16"
  shows "dr_rw_len (X86_DR_SET_RW_LEN dr i v) j = (if j = i then v else dr_rw_len dr j)"
proof (rule bit_word_eqI)
  fix k :: nat assume "k < LENGTH(32)"
  show "bit (dr_rw_len (X86_DR_SET_RW_LEN dr i v) j) k = bit (if j = i then v else dr_rw_len dr j) k"
  proof (cases "k < 4")
    case True
    show ?thesis
    proof (cases "j = i")
      case True
      with \<open>k < 4\<close> assms show ?thesis
        by (simp add: dr_rw_len_def bit_simps bit_GET_RW_LEN bit_SET_RW_LEN)
    next
      case False
      then have "16 + 4 * j + k < 16 + 4 * i \<or> 20 + 4 * i \<le> 16 + 4 * j + k"
        using \<open>k < 4\<close> by presburger
      with False \<open>k < 4\<close> assms show ?thesis
        by (auto simp: dr_rw_len_def bit_simps bit_GET_RW_LEN bit_SET_RW_LEN)
    qed
  next
    case False
    with assms bit_small [of v k] show ?thesis
      by (auto simp: dr_rw_len_def bit_simps bit_GET_RW_LEN)
  qed
qed

interpretation dr7_rw_len: field_register dr_rw_len X86_DR_SET_RW_LEN "\<lambda>v. v < 16"
  by standard (simp_all add: GET_SET_RW_LEN)

text \<open>The two kinds of field do not touch each other.\<close>

lemma dr_enabled_SET_RW_LEN:
  "i < 4 \<Longrightarrow> j < 4 \<Longrightarrow> v < 16 \<Longrightarrow> dr_enabled (X86_DR_SET_RW_LEN dr i v) j = dr_enabled dr j"
  by (simp add: dr_enabled_def VACANT_iff bit_SET_RW_LEN)

lemma dr_rw_len_enable:
  assumes "i < 4" and "j < 4"
  shows "dr_rw_len (dr_enable dr i on) j = dr_rw_len dr j"
proof (rule bit_word_eqI)
  fix k :: nat assume "k < LENGTH(32)"
  show "bit (dr_rw_len (dr_enable dr i on) j) k = bit (dr_rw_len dr j) k"
    using assms
    by (auto simp: dr_rw_len_def dr_enable_def bit_simps bit_GET_RW_LEN bit_LOCAL_ENABLE bit_DISABLE)
qed

end
