(* ===== verification/X86_Arch.thy ===== *)
theory X86_Arch
  imports Linux_Ptrace X86_Debug_Registers
begin

text \<open>
  What the two architecture files, \<open>i386-arch.c\<close> and \<open>x86_64-arch.c\<close>, have in common: the
  per-thread \<open>ArchInfo\<close>, and the functions whose text is the same in both up to the width of
  an address. Exactly one of the files is compiled into a server, so these definitions are
  polymorphic in the word width \<open>'w\<close>, in the register struct \<open>'r\<close>, in the floating point
  struct \<open>'f\<close> and in the fields \<open>'z\<close> that an architecture adds; the theories \<open>I386_Arch\<close> and
  \<open>X86_64_Arch\<close> apply them at their width.

  An operation returns \<open>None\<close> when it does not return normally: a failed \<open>g_assert\<close>, a
  \<open>g_error\<close>, an access through a dangling pointer or outside an array, an endless loop.
\<close>

section \<open>State\<close>

record (overloaded) ('w, 'r, 'f) CallbackData =
  saved_regs :: 'r
  saved_fpregs :: 'f
  callback_argument :: guint64
  call_address :: "'w word"
  stack_pointer :: "'w word"
  rti_frame :: "'w word"
  exc_address :: "'w word"
  pushed_registers :: "'w word"
  data_pointer :: "'w word"
  data_size :: guint32
  saved_signal :: gint
  debug :: bool
  is_rti :: bool

record (overloaded) 'w CodeBufferData =
  slot :: gint
  insn_size :: gint
  update_ip :: bool
  code_address :: "'w word"
  original_ip :: "'w word"

record (overloaded) ('w, 'r, 'f) ArchInfo =
  current_regs :: 'r
  current_fpregs :: 'f
  callback_stack :: "('w, 'r, 'f) CallbackData list"
  code_buffer :: "'w CodeBufferData option"
  dr_control :: guint64
  dr_status :: guint64
  hw_bpm :: "'w BreakpointManager"
  dr_regs :: "gint list"

type_synonym ('k, 'w, 'r, 'f, 'z) x86_server = "('k, 'w, ('w, 'r, 'f, 'z) ArchInfo_scheme) server"

text \<open>What \<open>g_new0 (CallbackData, 1)\<close> gives once both register structs are copied into it.\<close>

definition CallbackData_new :: "'r \<Rightarrow> 'f \<Rightarrow> ('w::len, 'r, 'f) CallbackData" where
  "CallbackData_new regs fpregs =
     \<lparr> saved_regs = regs, saved_fpregs = fpregs, callback_argument = 0, call_address = 0,
       stack_pointer = 0, rti_frame = 0, exc_address = 0, pushed_registers = 0,
       data_pointer = 0, data_size = 0, saved_signal = 0, debug = False, is_rti = False \<rparr>"

text \<open>Assignments through \<open>handle->arch\<close> and \<open>handle->inferior\<close>.\<close>

definition set_current_regs :: "'r \<Rightarrow> ('k, 'w::len, 'r, 'f, 'z) x86_server \<Rightarrow> ('k, 'w, 'r, 'f, 'z) x86_server" where
  "set_current_regs r s = s\<lparr> arch := (arch s)\<lparr> current_regs := r \<rparr> \<rparr>"

definition set_dr_control :: "guint64 \<Rightarrow> ('k, 'w::len, 'r, 'f, 'z) x86_server \<Rightarrow> ('k, 'w, 'r, 'f, 'z) x86_server" where
  "set_dr_control c s = s\<lparr> arch := (arch s)\<lparr> dr_control := c \<rparr> \<rparr>"

definition set_dr_reg :: "nat \<Rightarrow> gint \<Rightarrow> ('k, 'w::len, 'r, 'f, 'z) x86_server \<Rightarrow> ('k, 'w, 'r, 'f, 'z) x86_server" where
  "set_dr_reg i v s = s\<lparr> arch := (arch s)\<lparr> dr_regs := (dr_regs (arch s))[i := v] \<rparr> \<rparr>"

definition set_last_signal :: "gint \<Rightarrow> ('k, 'w, 'a) server \<Rightarrow> ('k, 'w::len, 'a) server" where
  "set_last_signal sig s = s\<lparr> inferior := (inferior s)\<lparr> last_signal := sig \<rparr> \<rparr>"

text \<open>The two managers a server works with: \<open>handle->bpm\<close> and \<open>handle->arch->hw_bpm\<close>.\<close>

datatype manager = SW_BPM | HW_BPM

fun get_manager :: "manager \<Rightarrow> ('k, 'w::len, 'r, 'f, 'z) x86_server \<Rightarrow> 'w BreakpointManager" where
  "get_manager SW_BPM s = bpm s"
| "get_manager HW_BPM s = hw_bpm (arch s)"

fun set_manager :: "manager \<Rightarrow> 'w BreakpointManager \<Rightarrow> ('k, 'w::len, 'r, 'f, 'z) x86_server \<Rightarrow>
    ('k, 'w, 'r, 'f, 'z) x86_server" where
  "set_manager SW_BPM m s = s\<lparr> bpm := m \<rparr>"
| "set_manager HW_BPM m s = s\<lparr> arch := (arch s)\<lparr> hw_bpm := m \<rparr> \<rparr>"

section \<open>Reading memory without breakpoints\<close>

text \<open>The loop of \<open>x86_arch_remove_breakpoints_from_target_memory\<close>.\<close>

fun remove_breakpoints_loop ::
  "('k, 'w::len, 'a) server \<Rightarrow> guint64 \<Rightarrow> guint32 \<Rightarrow> bp_ptr list \<Rightarrow> guint8 list \<Rightarrow> guint8 list option" where
  "remove_breakpoints_loop s start sz [] buffer = Some buffer"
| "remove_breakpoints_loop s start sz (p # ps) buffer =
     (case bp_heap s p of
        None \<Rightarrow> None
      | Some info \<Rightarrow>
          if is_hardware_bpt info \<or> \<not> enabled info then remove_breakpoints_loop s start sz ps buffer
          else if bp_address info < start \<or> start + ucast sz \<le> bp_address info
          then remove_breakpoints_loop s start sz ps buffer
          else let offset = unat (ucast (bp_address info) - ucast start :: 'w word) in
            if offset < length buffer
            then remove_breakpoints_loop s start sz ps (buffer[offset := saved_insn info])
            else None)"

definition x86_arch_remove_breakpoints_from_target_memory ::
  "('k, 'w::len, 'a) remove_breakpoints_fn" where
  "x86_arch_remove_breakpoints_from_target_memory s start sz buffer = do {
     let s = mono_debugger_breakpoint_manager_lock s;
     buffer \<leftarrow> remove_breakpoints_loop s start sz
                 (mono_debugger_breakpoint_manager_get_breakpoints (bpm s)) buffer;
     Some (mono_debugger_breakpoint_manager_unlock s, buffer)
   }"

text \<open>\<open>server_ptrace_read_memory\<close> as it is linked, and \<open>server_ptrace_peek_word\<close>: it writes the
  first \<open>sizeof (gsize)\<close> bytes of the \<open>guint64\<close> it is given, and the result is those bytes.\<close>

definition read_memory ::
  "('k, 'w::len, 'r, 'f) kernel \<Rightarrow> ('k, 'w, 'a) server \<Rightarrow> guint64 \<Rightarrow> guint32 \<Rightarrow>
     (ServerCommandError \<times> ('k, 'w, 'a) server \<times> guint8 list) option" where
  "read_memory = server_ptrace_read_memory x86_arch_remove_breakpoints_from_target_memory"

definition server_ptrace_peek_word ::
  "('k, 'w::len, 'r, 'f) kernel \<Rightarrow> ('k, 'w, 'a) server \<Rightarrow> guint64 \<Rightarrow>
     (ServerCommandError \<times> ('k, 'w, 'a) server \<times> guint8 list) option" where
  "server_ptrace_peek_word K s start = read_memory K s start (of_nat (sizeof_long TYPE('w)))"

section \<open>Registers and lookups\<close>

definition x86_arch_get_registers ::
  "('k, 'w::len, 'r, 'f) kernel \<Rightarrow> ('k, 'w, 'r, 'f, 'z) x86_server \<Rightarrow>
     ServerCommandError \<times> ('k, 'w, 'r, 'f, 'z) x86_server" where
  "x86_arch_get_registers K s =
     (let (result, regs, s) = priv_server_ptrace_get_registers K s (current_regs (arch s));
          s = s\<lparr> arch := (arch s)\<lparr> current_regs := regs \<rparr> \<rparr> in
      if result \<noteq> COMMAND_ERROR_NONE then (result, s)
      else let (result, fpregs, s) = priv_server_ptrace_get_fp_registers K s (current_fpregs (arch s));
               s = s\<lparr> arch := (arch s)\<lparr> current_fpregs := fpregs \<rparr> \<rparr> in
        if result \<noteq> COMMAND_ERROR_NONE then (result, s)
        else let (result, dr, s) = priv_server_ptrace_get_dr K s DR_STATUS (dr_status (arch s));
                 s = s\<lparr> arch := (arch s)\<lparr> dr_status := dr \<rparr> \<rparr> in
          if result \<noteq> COMMAND_ERROR_NONE then (result, s) else (COMMAND_ERROR_NONE, s))"

text \<open>\<open>check_breakpoint\<close> returns the id it writes to \<open>*retval\<close>, or \<open>None\<close> for \<open>FALSE\<close>.\<close>

definition check_breakpoint ::
  "('k, 'w::len, 'a) server \<Rightarrow> guint64 \<Rightarrow> (guint64 option \<times> ('k, 'w, 'a) server) option" where
  "check_breakpoint s address =
     (let s = mono_debugger_breakpoint_manager_lock s in
      case mono_debugger_breakpoint_manager_lookup (bpm s) address of
        None \<Rightarrow> Some (None, mono_debugger_breakpoint_manager_unlock s)
      | Some p \<Rightarrow> do {
          info \<leftarrow> bp_heap s p;
          if \<not> enabled info then Some (None, mono_debugger_breakpoint_manager_unlock s)
          else Some (Some (word_of_int (bp_id info)), mono_debugger_breakpoint_manager_unlock s)
        })"

definition lookup_breakpoint ::
  "('k, 'w::len, 'r, 'f, 'z) x86_server \<Rightarrow> guint32 \<Rightarrow>
     (bp_ptr \<times> manager) option \<times> ('k, 'w, 'r, 'f, 'z) x86_server" where
  "lookup_breakpoint s idx =
     (let s = mono_debugger_breakpoint_manager_lock s in
      case mono_debugger_breakpoint_manager_lookup_by_id (hw_bpm (arch s)) idx of
        Some info \<Rightarrow> (Some (info, HW_BPM), mono_debugger_breakpoint_manager_unlock s)
      | None \<Rightarrow>
          (case mono_debugger_breakpoint_manager_lookup_by_id (bpm s) idx of
             Some info \<Rightarrow> (Some (info, SW_BPM), mono_debugger_breakpoint_manager_unlock s)
           | None \<Rightarrow> (None, mono_debugger_breakpoint_manager_unlock s)))"

definition get_callback_data ::
  "('w::len, 'r, 'f, 'z) ArchInfo_scheme \<Rightarrow> ('w, 'r, 'f) CallbackData option" where
  "get_callback_data ai =
     (if callback_stack ai = [] then None else Some (last (callback_stack ai)))"

section \<open>The runtime's breakpoint table\<close>

text \<open>The scan of a bitfield for a free entry, \<open>for (; i < n; i++) if (bitfield [i]) continue; else ...\<close>:
  the entry found, or \<open>None\<close> when there is none; no result when it leaves the array.\<close>

function scan_bitfield :: "guint8 list \<Rightarrow> nat \<Rightarrow> nat \<Rightarrow> nat option option" where
  "scan_bitfield bitfield i n =
     (if i < n then
        (if length bitfield \<le> i then None
         else if bitfield ! i \<noteq> 0 then scan_bitfield bitfield (Suc i) n
         else Some (Some i))
      else Some None)"
  by pat_completeness auto
termination
  by (relation "measure (\<lambda>(_, i, n). n - i)") auto

declare scan_bitfield.simps [simp del]

definition find_breakpoint_table_slot :: "MonoRuntimeInfo \<Rightarrow> (gint \<times> MonoRuntimeInfo) option" where
  "find_breakpoint_table_slot runtime = do {
     r \<leftarrow> scan_bitfield (breakpoint_table_bitfield runtime) 1 (unat (breakpoint_table_size runtime));
     case r of
       None \<Rightarrow> Some (-1, runtime)
     | Some i \<Rightarrow> Some (int i, runtime\<lparr> breakpoint_table_bitfield := (breakpoint_table_bitfield runtime)[i := 1] \<rparr>)
   }"

text \<open>\<open>runtime_info_enable_breakpoint\<close>: a table entry is \<open>2 * sizeof (gsize)\<close> bytes, an index entry
  \<open>sizeof (gsize)\<close> (8 and 4 in one file, 16 and 8 in the other). \<open>saved_insn\<close> is a \<open>char\<close>, so
  its conversion to \<open>gsize\<close> sign-extends.\<close>

definition runtime_info_enable_breakpoint ::
  "('k, 'w::len, 'r, 'f) kernel \<Rightarrow> ('k, 'w, 'a) breakpoint_fn" where
  "runtime_info_enable_breakpoint K s p = do {
     runtime \<leftarrow> mono_runtime s;
     (slot, runtime) \<leftarrow> find_breakpoint_table_slot runtime;
     let s = s\<lparr> mono_runtime := Some runtime \<rparr>;
     if slot < 0 then Some (COMMAND_ERROR_INTERNAL_ERROR, s)
     else do {
       breakpoint \<leftarrow> bp_heap s p;
       let s = bp_set p (breakpoint\<lparr> runtime_table_slot := slot \<rparr>) s;
       let table_address = breakpoint_info_area runtime + word_of_int (2 * int (sizeof_long TYPE('w)) * slot);
       let index_address = breakpoint_table runtime + word_of_int (int (sizeof_long TYPE('w)) * slot);
       let (result, s) = server_ptrace_poke_word K s table_address (ucast (bp_address breakpoint));
       if result \<noteq> COMMAND_ERROR_NONE then Some (result, s)
       else do {
         let (result, s) = server_ptrace_poke_word K s
               (table_address + of_nat (sizeof_long TYPE('w))) (scast (saved_insn breakpoint));
         if result \<noteq> COMMAND_ERROR_NONE then Some (result, s)
         else do {
           let (result, s) = server_ptrace_poke_word K s index_address (word_of_int slot);
           if result \<noteq> COMMAND_ERROR_NONE then Some (result, s)
           else Some (COMMAND_ERROR_NONE, s)
         }
       }
     }
   }"

section \<open>Enabling and disabling a breakpoint\<close>

text \<open>
  \<open>x86_arch_enable_breakpoint\<close> and \<open>x86_arch_disable_breakpoint\<close>. The architectures differ in
  the R/W and LEN bits of a debug register (\<open>rw_len\<close>) and in how an entry of the
  runtime's table is released (\<open>runtime_info_disable_breakpoint\<close>).
\<close>

definition x86_arch_enable_breakpoint ::
  "(HardwareBreakpointType \<Rightarrow> guint32) \<Rightarrow> ('k, 'w::len, 'r, 'f) kernel \<Rightarrow>
     ('k, 'w, ('w, 'r, 'f, 'z) ArchInfo_scheme) breakpoint_fn" where
  "x86_arch_enable_breakpoint rw_len K s p = do {
     breakpoint \<leftarrow> bp_heap s p;
     if enabled breakpoint then Some (COMMAND_ERROR_NONE, s)
     else do {
       let address = (ucast (ucast (bp_address breakpoint) :: 'w word) :: guint64);
       if 0 \<le> dr_index breakpoint then
         let i = nat (dr_index breakpoint) in
         if DR_NADDR \<le> i then None
         else
           let s = set_dr_control (X86_DR_SET_RW_LEN (dr_control (arch s)) i (rw_len (bp_type breakpoint))) s;
               s = set_dr_control (X86_DR_LOCAL_ENABLE (dr_control (arch s)) i) s;
               (result, s) = priv_server_ptrace_set_dr K s (dr_index breakpoint) address in
           if result \<noteq> COMMAND_ERROR_NONE then Some (result, s)
           else let (result, s) = priv_server_ptrace_set_dr K s DR_CONTROL (dr_control (arch s)) in
             if result \<noteq> COMMAND_ERROR_NONE then Some (result, s)
             else Some (COMMAND_ERROR_NONE, set_dr_reg i (bp_id breakpoint) s)
       else do {
         (result, s, buf) \<leftarrow> read_memory K s address 1;
         let s = (if buf = [] then s else bp_set p (breakpoint\<lparr> saved_insn := hd buf \<rparr>) s);
         if result \<noteq> COMMAND_ERROR_NONE then Some (result, s)
         else do {
           (result, s) \<leftarrow> (if mono_runtime s \<noteq> None then runtime_info_enable_breakpoint K s p
                           else Some (COMMAND_ERROR_NONE, s));
           if result \<noteq> COMMAND_ERROR_NONE then Some (result, s)
           else do {
             (result, s) \<leftarrow> server_ptrace_write_memory K s address [0xcc];
             if result \<noteq> COMMAND_ERROR_NONE then Some (result, s)
             else Some (COMMAND_ERROR_NONE, s)
           }
         }
       }
     }
   }"

definition x86_arch_disable_breakpoint ::
  "('k, 'w, ('w, 'r, 'f, 'z) ArchInfo_scheme) breakpoint_fn \<Rightarrow> ('k, 'w::len, 'r, 'f) kernel \<Rightarrow>
     ('k, 'w, ('w, 'r, 'f, 'z) ArchInfo_scheme) breakpoint_fn" where
  "x86_arch_disable_breakpoint runtime_info_disable_breakpoint K s p = do {
     breakpoint \<leftarrow> bp_heap s p;
     if \<not> enabled breakpoint then Some (COMMAND_ERROR_NONE, s)
     else do {
       let address = (ucast (ucast (bp_address breakpoint) :: 'w word) :: guint64);
       if 0 \<le> dr_index breakpoint then
         let i = nat (dr_index breakpoint) in
         if DR_NADDR \<le> i then None
         else
           let s = set_dr_control (X86_DR_DISABLE (dr_control (arch s)) i) s;
               (result, s) = priv_server_ptrace_set_dr K s (dr_index breakpoint) 0 in
           if result \<noteq> COMMAND_ERROR_NONE then Some (result, s)
           else let (result, s) = priv_server_ptrace_set_dr K s DR_CONTROL (dr_control (arch s)) in
             if result \<noteq> COMMAND_ERROR_NONE then Some (result, s)
             else Some (COMMAND_ERROR_NONE, set_dr_reg i 0 s)
       else do {
         (result, s) \<leftarrow> server_ptrace_write_memory K s address [saved_insn breakpoint];
         if result \<noteq> COMMAND_ERROR_NONE then Some (result, s)
         else do {
           (result, s) \<leftarrow> (if mono_runtime s \<noteq> None then runtime_info_disable_breakpoint s p
                           else Some (COMMAND_ERROR_NONE, s));
           if result \<noteq> COMMAND_ERROR_NONE then Some (result, s)
           else Some (COMMAND_ERROR_NONE, s)
         }
       }
     }
   }"

section \<open>The breakpoint commands\<close>

definition server_ptrace_insert_breakpoint ::
  "('k, 'w::len, 'a) breakpoint_fn \<Rightarrow> ('k, 'w, 'a) server \<Rightarrow> guint64 \<Rightarrow>
     (ServerCommandError \<times> guint32 option \<times> ('k, 'w, 'a) server) option" where
  "server_ptrace_insert_breakpoint arch_enable s address =
     (let s = mono_debugger_breakpoint_manager_lock s in
      case mono_debugger_breakpoint_manager_lookup (bpm s) address of
        Some p \<Rightarrow> do {
          breakpoint \<leftarrow> bp_heap s p;
          let s = bp_set p (breakpoint\<lparr> refcount := refcount breakpoint + 1 \<rparr>) s;
          Some (COMMAND_ERROR_NONE, Some (word_of_int (bp_id breakpoint)),
                mono_debugger_breakpoint_manager_unlock s)
        }
      | None \<Rightarrow> do {
          let (new_id, s) = mono_debugger_breakpoint_manager_get_next_id s;
          let (p, s) = bp_alloc (BreakpointInfo_zero\<lparr> refcount := 1, bp_address := address,
                          is_hardware_bpt := False, bp_id := new_id, dr_index := -1 \<rparr>) s;
          (result, s) \<leftarrow> arch_enable s p;
          if result \<noteq> COMMAND_ERROR_NONE
          then Some (result, None, bp_free p (mono_debugger_breakpoint_manager_unlock s))
          else do {
            breakpoint \<leftarrow> bp_heap s p;
            let s = bp_set p (breakpoint\<lparr> enabled := True \<rparr>) s;
            m \<leftarrow> mono_debugger_breakpoint_manager_insert (bpm s) p s;
            let s = s\<lparr> bpm := m \<rparr>;
            Some (COMMAND_ERROR_NONE, Some (word_of_int (bp_id breakpoint)),
                  mono_debugger_breakpoint_manager_unlock s)
          }
        })"

definition server_ptrace_remove_breakpoint ::
  "('k, 'w::len, ('w, 'r, 'f, 'z) ArchInfo_scheme) breakpoint_fn \<Rightarrow> ('k, 'w, 'r, 'f, 'z) x86_server \<Rightarrow>
     guint32 \<Rightarrow> (ServerCommandError \<times> ('k, 'w, 'r, 'f, 'z) x86_server) option" where
  "server_ptrace_remove_breakpoint arch_disable s idx =
     (let s = mono_debugger_breakpoint_manager_lock s;
          (found, s) = lookup_breakpoint s idx in
      case found of
        None \<Rightarrow> Some (COMMAND_ERROR_NO_SUCH_BREAKPOINT, mono_debugger_breakpoint_manager_unlock s)
      | Some (p, which) \<Rightarrow> do {
          breakpoint \<leftarrow> bp_heap s p;
          let s = bp_set p (breakpoint\<lparr> refcount := refcount breakpoint - 1 \<rparr>) s;
          if 0 < refcount breakpoint - 1
          then Some (COMMAND_ERROR_NONE, mono_debugger_breakpoint_manager_unlock s)
          else do {
            (result, s) \<leftarrow> arch_disable s p;
            if result \<noteq> COMMAND_ERROR_NONE
            then Some (result, mono_debugger_breakpoint_manager_unlock s)
            else do {
              breakpoint \<leftarrow> bp_heap s p;
              let s = bp_set p (breakpoint\<lparr> enabled := False \<rparr>) s;
              (m, s) \<leftarrow> mono_debugger_breakpoint_manager_remove (get_manager which s) p s;
              Some (COMMAND_ERROR_NONE, mono_debugger_breakpoint_manager_unlock (set_manager which m s))
            }
          }
        })"

definition server_ptrace_enable_breakpoint ::
  "('k, 'w::len, ('w, 'r, 'f, 'z) ArchInfo_scheme) breakpoint_fn \<Rightarrow> ('k, 'w, 'r, 'f, 'z) x86_server \<Rightarrow>
     guint32 \<Rightarrow> (ServerCommandError \<times> ('k, 'w, 'r, 'f, 'z) x86_server) option" where
  "server_ptrace_enable_breakpoint arch_enable s idx =
     (let s = mono_debugger_breakpoint_manager_lock s;
          (found, s) = lookup_breakpoint s idx in
      case found of
        None \<Rightarrow> Some (COMMAND_ERROR_NO_SUCH_BREAKPOINT, mono_debugger_breakpoint_manager_unlock s)
      | Some (p, _) \<Rightarrow> do {
          (result, s) \<leftarrow> arch_enable s p;
          breakpoint \<leftarrow> bp_heap s p;
          let s = bp_set p (breakpoint\<lparr> enabled := True \<rparr>) s;
          Some (result, mono_debugger_breakpoint_manager_unlock s)
        })"

definition server_ptrace_disable_breakpoint ::
  "('k, 'w::len, ('w, 'r, 'f, 'z) ArchInfo_scheme) breakpoint_fn \<Rightarrow> ('k, 'w, 'r, 'f, 'z) x86_server \<Rightarrow>
     guint32 \<Rightarrow> (ServerCommandError \<times> ('k, 'w, 'r, 'f, 'z) x86_server) option" where
  "server_ptrace_disable_breakpoint arch_disable s idx =
     (let s = mono_debugger_breakpoint_manager_lock s;
          (found, s) = lookup_breakpoint s idx in
      case found of
        None \<Rightarrow> Some (COMMAND_ERROR_NO_SUCH_BREAKPOINT, mono_debugger_breakpoint_manager_unlock s)
      | Some (p, _) \<Rightarrow> do {
          (result, s) \<leftarrow> arch_disable s p;
          breakpoint \<leftarrow> bp_heap s p;
          let s = bp_set p (breakpoint\<lparr> enabled := False \<rparr>) s;
          Some (result, mono_debugger_breakpoint_manager_unlock s)
        })"

text \<open>The loop of \<open>server_ptrace_get_breakpoints\<close>.\<close>

fun get_breakpoints_loop :: "(bp_ptr \<rightharpoonup> BreakpointInfo) \<Rightarrow> bp_ptr list \<Rightarrow> guint32 list option" where
  "get_breakpoints_loop h [] = Some []"
| "get_breakpoints_loop h (p # ps) =
     (case h p of
        None \<Rightarrow> None
      | Some info \<Rightarrow>
          (case get_breakpoints_loop h ps of None \<Rightarrow> None | Some ids \<Rightarrow> Some (word_of_int (bp_id info) # ids)))"

definition server_ptrace_get_breakpoints ::
  "('k, 'w::len, 'a) server \<Rightarrow> (ServerCommandError \<times> guint32 list \<times> ('k, 'w, 'a) server) option" where
  "server_ptrace_get_breakpoints s = do {
     let s = mono_debugger_breakpoint_manager_lock s;
     ids \<leftarrow> get_breakpoints_loop (bp_heap s) (mono_debugger_breakpoint_manager_get_breakpoints (bpm s));
     Some (COMMAND_ERROR_NONE, ids, mono_debugger_breakpoint_manager_unlock s)
   }"

section \<open>Hardware breakpoints\<close>

fun remove_hardware_breakpoints_loop ::
  "('k, 'w::len, 'r, 'f) kernel \<Rightarrow> ('k, 'w, 'r, 'f, 'z) x86_server \<Rightarrow> nat list \<Rightarrow> ('k, 'w, 'r, 'f, 'z) x86_server" where
  "remove_hardware_breakpoints_loop K s [] = s"
| "remove_hardware_breakpoints_loop K s (i # is) =
     (let s = set_dr_control (X86_DR_DISABLE (dr_control (arch s)) i) s;
          (_, s) = priv_server_ptrace_set_dr K s (int i) 0;
          (_, s) = priv_server_ptrace_set_dr K s DR_CONTROL (dr_control (arch s));
          s = set_dr_reg i 0 s in
      remove_hardware_breakpoints_loop K s is)"

definition x86_arch_remove_hardware_breakpoints ::
  "('k, 'w::len, 'r, 'f) kernel \<Rightarrow> ('k, 'w, 'r, 'f, 'z) x86_server \<Rightarrow> ('k, 'w, 'r, 'f, 'z) x86_server" where
  "x86_arch_remove_hardware_breakpoints K s = remove_hardware_breakpoints_loop K s [0..<DR_NADDR]"

fun find_free_hw_register_loop :: "gint list \<Rightarrow> nat list \<Rightarrow> nat option" where
  "find_free_hw_register_loop regs [] = None"
| "find_free_hw_register_loop regs (i # is) =
     (if regs ! i = 0 then Some i else find_free_hw_register_loop regs is)"

definition find_free_hw_register ::
  "('k, 'w::len, 'r, 'f, 'z) x86_server \<Rightarrow> ServerCommandError \<times> guint32 option" where
  "find_free_hw_register s =
     (case find_free_hw_register_loop (dr_regs (arch s)) [0..<DR_NADDR] of
        Some i \<Rightarrow> (COMMAND_ERROR_NONE, Some (of_nat i))
      | None \<Rightarrow> (COMMAND_ERROR_DR_OCCUPIED, None))"

definition server_ptrace_insert_hw_breakpoint ::
  "('k, 'w::len, ('w, 'r, 'f, 'z) ArchInfo_scheme) breakpoint_fn \<Rightarrow> ('k, 'w, 'r, 'f, 'z) x86_server \<Rightarrow>
     HardwareBreakpointType \<Rightarrow> guint64 \<Rightarrow>
     (ServerCommandError \<times> (guint32 \<times> guint32) option \<times> ('k, 'w, 'r, 'f, 'z) x86_server) option" where
  "server_ptrace_insert_hw_breakpoint arch_enable s type address =
     (let s = mono_debugger_breakpoint_manager_lock s in
      case find_free_hw_register s of
        (result, None) \<Rightarrow> Some (result, None, mono_debugger_breakpoint_manager_unlock s)
      | (result, Some idx) \<Rightarrow> do {
          let (new_id, s) = mono_debugger_breakpoint_manager_get_next_id s;
          let (p, s) = bp_alloc (BreakpointInfo_zero\<lparr> bp_type := type, bp_address := address,
                          refcount := 1, bp_id := new_id, is_hardware_bpt := True, dr_index := sint idx \<rparr>) s;
          (result, s) \<leftarrow> arch_enable s p;
          if result \<noteq> COMMAND_ERROR_NONE
          then Some (result, None, bp_free p (mono_debugger_breakpoint_manager_unlock s))
          else do {
            breakpoint \<leftarrow> bp_heap s p;
            let s = bp_set p (breakpoint\<lparr> enabled := True \<rparr>) s;
            m \<leftarrow> mono_debugger_breakpoint_manager_insert (hw_bpm (arch s)) p s;
            let s = set_manager HW_BPM m s;
            Some (COMMAND_ERROR_NONE, Some (idx, word_of_int (bp_id breakpoint)),
                  mono_debugger_breakpoint_manager_unlock s)
          }
        })"

section \<open>Executing one instruction out of line\<close>

definition find_code_buffer_slot :: "MonoRuntimeInfo \<Rightarrow> (gint \<times> MonoRuntimeInfo) option" where
  "find_code_buffer_slot runtime = do {
     let n = unat (executable_code_total_chunks runtime);
     let take_slot = (\<lambda>i runtime. (int i, runtime\<lparr>
           executable_code_bitfield := (executable_code_bitfield runtime)[i := 1],
           executable_code_last_slot := of_nat i \<rparr>));
     r \<leftarrow> scan_bitfield (executable_code_bitfield runtime)
           (unat (executable_code_last_slot runtime + 1)) n;
     case r of
       Some i \<Rightarrow> Some (take_slot i runtime)
     | None \<Rightarrow> do {
         let runtime = runtime\<lparr> executable_code_last_slot := 0 \<rparr>;
         r \<leftarrow> scan_bitfield (executable_code_bitfield runtime) 0 n;
         case r of
           Some i \<Rightarrow> Some (take_slot i runtime)
         | None \<Rightarrow> Some (-1, runtime)
       }
   }"

section \<open>Aborting a runtime invocation\<close>

definition server_ptrace_abort_invoke ::
  "('k, 'w::len, 'r, 'f) kernel \<Rightarrow> ('k, 'w, 'r, 'f, 'z) x86_server \<Rightarrow> guint64 \<Rightarrow>
     (ServerCommandError \<times> ('k, 'w, 'r, 'f, 'z) x86_server) option" where
  "server_ptrace_abort_invoke K s rti_id =
     (case get_callback_data (arch s) of
        None \<Rightarrow> Some (COMMAND_ERROR_NO_CALLBACK_FRAME, s)
      | Some cdata \<Rightarrow>
          if \<not> is_rti cdata \<or> callback_argument cdata \<noteq> rti_id
          then Some (COMMAND_ERROR_NO_CALLBACK_FRAME, s)
          else
            let (result, s) = priv_server_ptrace_set_registers K s (saved_regs cdata) in
            if result \<noteq> COMMAND_ERROR_NONE then None
            else let (result, s) = priv_server_ptrace_set_fp_registers K s (saved_fpregs cdata) in
              if result \<noteq> COMMAND_ERROR_NONE then None
              else
                let s = set_last_signal (saved_signal cdata) s;
                    s = s\<lparr> arch := (arch s)\<lparr> callback_stack := butlast (callback_stack (arch s)) \<rparr> \<rparr>;
                    (_, s) = x86_arch_get_registers K s in
                Some (COMMAND_ERROR_NONE, s))"

section \<open>Stopping in a callback or a notification\<close>

text \<open>
  What \<open>x86_arch_child_stopped\<close> writes through its output pointers. \<open>None\<close> in the first three
  fields is a variable that was not written and keeps whatever value it had; \<open>opt_data\<close> is the
  buffer (with its size), \<open>None\<close> if neither it nor its size was written.
\<close>

record stop_data =
  callback_arg :: "guint64 option"
  retval :: "guint64 option"
  retval2 :: "guint64 option"
  opt_data :: "guint8 list option"

definition no_stop_data :: stop_data where
  "no_stop_data = \<lparr> callback_arg = None, retval = None, retval2 = None, opt_data = None \<rparr>"

type_synonym ('k, 'w, 'a) child_stopped_fn =
  "('k, 'w, 'a) server \<Rightarrow> gint \<Rightarrow> (ChildStoppedAction \<times> stop_data \<times> ('k, 'w, 'a) server) option"

text \<open>The loop over the debug registers: the first one whose hit bit is set in DR6.\<close>

fun watch_hit_loop :: "guint64 \<Rightarrow> nat list \<Rightarrow> nat option" where
  "watch_hit_loop dr [] = None"
| "watch_hit_loop dr (i # is) = (if X86_DR_WATCH_HIT dr i then Some i else watch_hit_loop dr is)"

text \<open>The end of a callback, from \<open>inferior->last_signal = cdata->saved_signal\<close> on.\<close>

definition callback_done ::
  "('k, 'w::len, 'r, 'f) kernel \<Rightarrow> ('k, 'w, 'r, 'f, 'z) x86_server \<Rightarrow> ('w, 'r, 'f) CallbackData \<Rightarrow> stop_data \<Rightarrow>
     ChildStoppedAction \<times> stop_data \<times> ('k, 'w, 'r, 'f, 'z) x86_server" where
  "callback_done K s cdata d =
     (let s = set_last_signal (saved_signal cdata) s;
          s = s\<lparr> arch := (arch s)\<lparr> callback_stack := butlast (callback_stack (arch s)) \<rparr> \<rparr>;
          (_, s) = x86_arch_get_registers K s in
      if is_rti cdata then (STOP_ACTION_RTI_DONE, d, s)
      else if debug cdata then (STOP_ACTION_CALLBACK_COMPLETED, d\<lparr> retval := Some 0 \<rparr>, s)
      else (STOP_ACTION_CALLBACK, d, s))"

text \<open>Reading the data buffer of \<open>call_method_2\<close> back, and the exception object.\<close>

definition callback_data_buffer ::
  "('k, 'w::len, 'r, 'f) kernel \<Rightarrow> ('k, 'w, 'a) server \<Rightarrow> ('w, 'r, 'f) CallbackData \<Rightarrow>
     (guint8 list \<times> ('k, 'w, 'a) server) option" where
  "callback_data_buffer K s cdata =
     (if data_pointer cdata \<noteq> 0 then do {
        (result, s, buf) \<leftarrow> priv_server_ptrace_read_memory K s (ucast (data_pointer cdata)) (data_size cdata);
        if result \<noteq> COMMAND_ERROR_NONE then None else Some (buf, s)
      } else Some ([], s))"

definition callback_exc_object ::
  "('k, 'w::len, 'r, 'f) kernel \<Rightarrow> ('k, 'w, 'a) server \<Rightarrow> ('w, 'r, 'f) CallbackData \<Rightarrow>
     (guint8 list option \<times> ('k, 'w, 'a) server) option" where
  "callback_exc_object K s cdata =
     (if exc_address cdata \<noteq> 0 then do {
        (result, s, buf) \<leftarrow> server_ptrace_peek_word K s (ucast (exc_address cdata));
        if result \<noteq> COMMAND_ERROR_NONE then None else Some (Some buf, s)
      } else Some (None, s))"

text \<open>The last test of \<open>x86_arch_child_stopped\<close>: did we run into an \<open>int 3\<close> of the program's own?\<close>

definition stopped_at_int3 ::
  "('k, 'w::len, 'r, 'f) kernel \<Rightarrow> ('k, 'w, 'a) server \<Rightarrow> 'w word \<Rightarrow>
     (ChildStoppedAction \<times> stop_data \<times> ('k, 'w, 'a) server) option" where
  "stopped_at_int3 K s ip = do {
     (result, s, code) \<leftarrow> server_ptrace_peek_word K s (ucast (ip - 1));
     if result \<noteq> COMMAND_ERROR_NONE then Some (STOP_ACTION_STOPPED, no_stop_data, s)
     else if (le_word code :: guint64) AND 0xff = 0xcc
     then Some (STOP_ACTION_BREAKPOINT_HIT, no_stop_data\<lparr> retval := Some 0 \<rparr>, s)
     else Some (STOP_ACTION_STOPPED, no_stop_data, s)
   }"

section \<open>Small helpers\<close>

text \<open>The bytes of a C string before its terminating zero.\<close>

definition c_bytes :: "guint8 list \<Rightarrow> guint8 list" where
  "c_bytes = takeWhile (\<lambda>b. b \<noteq> 0)"

text \<open>The frame a stack pointer is compared with: \<open>rti_frame\<close> if it was set, else \<open>stack_pointer\<close>.\<close>

definition callback_frame_address :: "('w::len, 'r, 'f) CallbackData \<Rightarrow> 'w word" where
  "callback_frame_address cdata = (if rti_frame cdata \<noteq> 0 then rti_frame cdata else stack_pointer cdata)"

end
