(* ===== verification/Breakpoint_Commands.thy ===== *)
theory Breakpoint_Commands
  imports X86_Arch
begin

text \<open>
  The breakpoint commands of the architecture layer keep the server's data well formed. What
  they need of \<open>x86_arch_enable_breakpoint\<close> and \<open>x86_arch_disable_breakpoint\<close> is stated as
  the locale \<open>breakpoint_backend\<close>: such a function touches only the breakpoint it is given,
  and of that only the saved instruction and the table slot.
\<close>

section \<open>What enabling and disabling may touch\<close>

definition touches_only :: "bp_ptr \<Rightarrow> ('k, 'w::len, 'r, 'f, 'z) x86_server \<Rightarrow> ('k, 'w, 'r, 'f, 'z) x86_server \<Rightarrow> bool" where
  "touches_only p s s' \<longleftrightarrow>
     bpm s' = bpm s \<and> hw_bpm (arch s') = hw_bpm (arch s) \<and> bp_next s' = bp_next s \<and>
     last_breakpoint_id s' = last_breakpoint_id s \<and> bpm_mutex s' = bpm_mutex s \<and>
     inferior s' = inferior s \<and> length (dr_regs (arch s')) = length (dr_regs (arch s)) \<and>
     current_regs (arch s') = current_regs (arch s) \<and> current_fpregs (arch s') = current_fpregs (arch s) \<and>
     callback_stack (arch s') = callback_stack (arch s) \<and> code_buffer (arch s') = code_buffer (arch s) \<and>
     (\<exists>b x y. bp_heap s p = Some b \<and>
        bp_heap s' = (bp_heap s)(p \<mapsto> b\<lparr> saved_insn := x, runtime_table_slot := y \<rparr>))"

lemma touches_only_refl: "bp_heap s p = Some b \<Longrightarrow> touches_only p s s"
  unfolding touches_only_def
  by (intro conjI refl exI [of _ b] exI [of _ "saved_insn b"] exI [of _ "runtime_table_slot b"])
    (auto simp: fun_upd_idem)

lemma touches_only_trans:
  assumes "touches_only p s s'" and "touches_only p s' s''"
  shows "touches_only p s s''"
proof -
  obtain b x y where b: "bp_heap s p = Some b" "bp_heap s' = (bp_heap s)(p \<mapsto> b\<lparr> saved_insn := x, runtime_table_slot := y \<rparr>)"
    using assms(1) unfolding touches_only_def by blast
  obtain x' y' where "bp_heap s'' = (bp_heap s')(p \<mapsto> b\<lparr> saved_insn := x', runtime_table_slot := y' \<rparr>)"
    using assms(2) b unfolding touches_only_def by auto
  then have "bp_heap s'' = (bp_heap s)(p \<mapsto> b\<lparr> saved_insn := x', runtime_table_slot := y' \<rparr>)"
    using b by simp
  then show ?thesis using assms b unfolding touches_only_def by auto
qed

lemma kern_only_touches: "kern_only s s' \<Longrightarrow> bp_heap s p = Some b \<Longrightarrow> touches_only p s s'"
  using touches_only_refl [of s p b] by (elim kern_onlyE) (simp add: touches_only_def)

lemma touches_dr:
  "bp_heap s p = Some b \<Longrightarrow> touches_only p s (set_dr_control c s)"
  "bp_heap s p = Some b \<Longrightarrow> touches_only p s (set_dr_reg i v s)"
  using touches_only_refl [of s p b] by (simp_all add: touches_only_def set_dr_control_def set_dr_reg_def)

lemma touches_set:
  assumes "bp_heap s p = Some b"
  shows "touches_only p s (bp_set p (b\<lparr> saved_insn := x \<rparr>) s)"
    "touches_only p s (bp_set p (b\<lparr> runtime_table_slot := y \<rparr>) s)"
proof -
  have "b\<lparr> saved_insn := x \<rparr> = b\<lparr> saved_insn := x, runtime_table_slot := runtime_table_slot b \<rparr>"
    and "b\<lparr> runtime_table_slot := y \<rparr> = b\<lparr> saved_insn := saved_insn b, runtime_table_slot := y \<rparr>" by simp_all
  then show "touches_only p s (bp_set p (b\<lparr> saved_insn := x \<rparr>) s)"
    "touches_only p s (bp_set p (b\<lparr> runtime_table_slot := y \<rparr>) s)"
    using assms unfolding touches_only_def by (simp_all; metis)+
qed

lemma touches_runtime: "bp_heap s p = Some b \<Longrightarrow> touches_only p s (s\<lparr> mono_runtime := r \<rparr>)"
  using touches_only_refl [of s p b] by (simp add: touches_only_def)

lemma touches_dom: "touches_only p s s' \<Longrightarrow> \<exists>b. bp_heap s' p = Some b"
  unfolding touches_only_def by auto

lemma kern_only_read_memory:
  "read_memory K s start n = Some (r, s', buf) \<Longrightarrow> kern_only s s'"
  unfolding read_memory_def server_ptrace_read_memory_def x86_arch_remove_breakpoints_from_target_memory_def
  by (auto simp: Let_def split: if_splits dest: kern_only_read)

lemma kern_only_peek_word:
  "server_ptrace_peek_word K s start = Some (r, s', buf) \<Longrightarrow> kern_only s s'"
  unfolding server_ptrace_peek_word_def by (rule kern_only_read_memory)

lemma touches_runtime_enable:
  assumes "runtime_info_enable_breakpoint K s p = Some (r, s')" and "bp_heap s p = Some b"
  shows "touches_only p s s'"
proof -
  obtain runtime sl runtime' where f: "mono_runtime s = Some runtime"
    "find_breakpoint_table_slot runtime = Some (sl, runtime')"
    using assms(1) by (auto simp: runtime_info_enable_breakpoint_def)
  define s1 where "s1 = s\<lparr> mono_runtime := Some runtime' \<rparr>"
  have t1: "touches_only p s s1" unfolding s1_def by (rule touches_runtime [OF assms(2)])
  have b1: "bp_heap s1 p = Some b" using assms(2) by (simp add: s1_def)
  define s2 where "s2 = bp_set p (b\<lparr> runtime_table_slot := sl \<rparr>) s1"
  have t2: "touches_only p s s2"
    unfolding s2_def by (rule touches_only_trans [OF t1 touches_set(2) [OF b1]])
  have b2: "\<exists>b. bp_heap s2 p = Some b" by (rule touches_dom [OF t2])
  have "s' = s1 \<or> kern_only s2 s'"
    using assms(1) f b1
    by (auto simp: runtime_info_enable_breakpoint_def Let_def s1_def [symmetric] s2_def [symmetric]
        split: if_splits prod.splits dest!: kern_only_op_eqs(3) intro: kern_only_trans)
  then show ?thesis
    using t1 t2 b2 kern_only_touches touches_only_trans by blast
qed

lemma touches_enable_dr:
  assumes "bp_heap s p = Some b" and "0 \<le> dr_index b" and "\<not> enabled b"
    and "x86_arch_enable_breakpoint rw K s p = Some (r, s')"
  shows "touches_only p s s'"
proof -
  let ?c = "X86_DR_LOCAL_ENABLE (X86_DR_SET_RW_LEN (dr_control (arch s)) (nat (dr_index b)) (rw (bp_type b))) (nat (dr_index b))"
  define s1 where "s1 = set_dr_control ?c s"
  have t1: "touches_only p s s1" unfolding s1_def by (rule touches_dr(1) [OF assms(1)])
  obtain b1 where b1: "bp_heap s1 p = Some b1" using touches_dom [OF t1] by blast
  have eq: "set_dr_control ?c (set_dr_control c s) = s1" for c by (simp add: s1_def set_dr_control_def)
  obtain r2 s2 where s2: "priv_server_ptrace_set_dr K s1 (dr_index b)
      (ucast (ucast (bp_address b) :: 'b word)) = (r2, s2)" by force
  obtain r3 s3 where s3: "priv_server_ptrace_set_dr K s2 DR_CONTROL (dr_control (arch s2)) = (r3, s3)" by force
  have k2: "kern_only s1 s2" by (rule kern_only_op_eqs(4) [OF s2])
  have k3: "kern_only s1 s3" by (rule kern_only_trans [OF k2 kern_only_op_eqs(4) [OF s3]])
  have t2: "touches_only p s s2" by (rule touches_only_trans [OF t1 kern_only_touches [OF k2 b1]])
  have t3: "touches_only p s s3" by (rule touches_only_trans [OF t1 kern_only_touches [OF k3 b1]])
  have t4: "touches_only p s (set_dr_reg i v s3)" for i v
    using touches_only_trans [OF t3] touches_dr(2) touches_dom [OF t3] by blast
  have "s' = s2 \<or> s' = s3 \<or> s' = set_dr_reg (nat (dr_index b)) (bp_id b) s3"
    using assms eq s2 s3
    by (simp add: x86_arch_enable_breakpoint_def Let_def set_dr_control_def s1_def split: if_splits)
  then show ?thesis using t2 t3 t4 by blast
qed

lemma touches_disable_dr:
  assumes "bp_heap s p = Some b" and "0 \<le> dr_index b" and "enabled b"
    and "x86_arch_disable_breakpoint rt K s p = Some (r, s')"
  shows "touches_only p s s'"
proof -
  let ?c = "X86_DR_DISABLE (dr_control (arch s)) (nat (dr_index b))"
  define s1 where "s1 = set_dr_control ?c s"
  have t1: "touches_only p s s1" unfolding s1_def by (rule touches_dr(1) [OF assms(1)])
  obtain b1 where b1: "bp_heap s1 p = Some b1" using touches_dom [OF t1] by blast
  obtain r2 s2 where s2: "priv_server_ptrace_set_dr K s1 (dr_index b) 0 = (r2, s2)" by force
  obtain r3 s3 where s3: "priv_server_ptrace_set_dr K s2 DR_CONTROL (dr_control (arch s2)) = (r3, s3)" by force
  have k2: "kern_only s1 s2" by (rule kern_only_op_eqs(4) [OF s2])
  have k3: "kern_only s1 s3" by (rule kern_only_trans [OF k2 kern_only_op_eqs(4) [OF s3]])
  have t2: "touches_only p s s2" by (rule touches_only_trans [OF t1 kern_only_touches [OF k2 b1]])
  have t3: "touches_only p s s3" by (rule touches_only_trans [OF t1 kern_only_touches [OF k3 b1]])
  have t4: "touches_only p s (set_dr_reg i v s3)" for i v
    using touches_only_trans [OF t3] touches_dr(2) touches_dom [OF t3] by blast
  have "s' = s2 \<or> s' = s3 \<or> s' = set_dr_reg (nat (dr_index b)) 0 s3"
    using assms s2 s3
    by (simp add: x86_arch_disable_breakpoint_def Let_def s1_def split: if_splits)
  then show ?thesis using t2 t3 t4 by blast
qed

lemma touches_enable_sw:
  assumes b: "bp_heap s p = Some b" "dr_index b < 0" "\<not> enabled b"
    and "x86_arch_enable_breakpoint rw K s p = Some (r, s')"
  shows "touches_only p s s'"
proof -
  obtain r1 s1 buf where rd: "read_memory K s (ucast (ucast (bp_address b) :: 'b word)) 1 = Some (r1, s1, buf)"
    using assms by (auto simp: x86_arch_enable_breakpoint_def Let_def)
  have k1: "kern_only s s1" by (rule kern_only_read_memory [OF rd])
  define s2 where "s2 = (if buf = [] then s1 else bp_set p (b\<lparr> saved_insn := hd buf \<rparr>) s1)"
  have b1: "bp_heap s1 p = Some b" using b(1) kern_only_fields(1) [OF k1] by simp
  have t2: "touches_only p s s2"
    unfolding s2_def using touches_only_trans [OF kern_only_touches [OF k1 b(1)] touches_set(1) [OF b1]]
      kern_only_touches [OF k1 b(1)] by simp
  obtain b2 where b2: "bp_heap s2 p = Some b2" using touches_dom [OF t2] by blast
  show ?thesis
  proof (cases "r1 = COMMAND_ERROR_NONE")
    case False
    then have "s' = s2" using assms rd by (simp add: x86_arch_enable_breakpoint_def Let_def s2_def)
    then show ?thesis using t2 by simp
  next
    case True
    obtain r3 s3 where s3: "(if mono_runtime s2 \<noteq> None then runtime_info_enable_breakpoint K s2 p
        else Some (COMMAND_ERROR_NONE, s2)) = Some (r3, s3)"
      using assms rd True by (auto simp: x86_arch_enable_breakpoint_def Let_def s2_def [symmetric] cong: if_cong)
    have "touches_only p s2 s3"
      using s3 touches_runtime_enable b2 touches_only_refl by (fastforce split: if_splits)
    then have t3: "touches_only p s s3" by (rule touches_only_trans [OF t2])
    obtain b3 where b3: "bp_heap s3 p = Some b3" using touches_dom [OF t3] by blast
    have "s' = s3 \<or> kern_only s3 s'"
      using assms rd True s3
      by (auto simp: x86_arch_enable_breakpoint_def Let_def s2_def [symmetric] cong: if_cong split: if_splits
          dest!: kern_only_write)
    then show ?thesis using t3 touches_only_trans [OF t3 kern_only_touches [OF _ b3]] by blast
  qed
qed

lemma touches_disable_sw:
  assumes b: "bp_heap s p = Some b" "dr_index b < 0" "enabled b"
    and rt: "\<And>s r s' b. rt s p = Some (r, s') \<Longrightarrow> bp_heap s p = Some b \<Longrightarrow> touches_only p s s'"
    and ret: "x86_arch_disable_breakpoint rt K s p = Some (r, s')"
  shows "touches_only p s s'"
proof -
  obtain r1 s1 where wr: "server_ptrace_write_memory K s (ucast (ucast (bp_address b) :: 'b word)) [saved_insn b]
      = Some (r1, s1)"
    using b ret by (auto simp: x86_arch_disable_breakpoint_def Let_def)
  have k1: "kern_only s s1" by (rule kern_only_write [OF wr])
  have t1: "touches_only p s s1" by (rule kern_only_touches [OF k1 b(1)])
  have b1: "bp_heap s1 p = Some b" using b(1) kern_only_fields(1) [OF k1] by simp
  have "s' = s1 \<or> (\<exists>r2. rt s1 p = Some (r2, s'))"
    using b ret wr by (auto simp: x86_arch_disable_breakpoint_def Let_def split: if_splits)
  then show ?thesis using t1 touches_only_trans [OF t1 rt [OF _ b1]] by blast
qed

lemma touches_enable:
  assumes "x86_arch_enable_breakpoint rw K s p = Some (r, s')"
  shows "touches_only p s s'"
proof -
  obtain b where b: "bp_heap s p = Some b" using assms by (auto simp: x86_arch_enable_breakpoint_def)
  show ?thesis
  proof (cases "enabled b")
    case True
    then have "s' = s" using assms b by (simp add: x86_arch_enable_breakpoint_def)
    then show ?thesis using touches_only_refl [OF b] by simp
  next
    case False
    then show ?thesis
      using touches_enable_dr [OF b _ False assms] touches_enable_sw [OF b _ False assms] by linarith
  qed
qed

lemma touches_disable:
  assumes rt: "\<And>s r s' b. rt s p = Some (r, s') \<Longrightarrow> bp_heap s p = Some b \<Longrightarrow> touches_only p s s'"
    and ret: "x86_arch_disable_breakpoint rt K s p = Some (r, s')"
  shows "touches_only p s s'"
proof -
  obtain b where b: "bp_heap s p = Some b" using ret by (auto simp: x86_arch_disable_breakpoint_def)
  show ?thesis
  proof (cases "enabled b")
    case False
    then have "s' = s" using ret b by (simp add: x86_arch_disable_breakpoint_def)
    then show ?thesis using touches_only_refl [OF b] by simp
  next
    case True
    have "dr_index b < 0 \<Longrightarrow> ?thesis"
      by (rule touches_disable_sw [OF b _ True _ ret]) (simp_all add: rt)
    then show ?thesis using touches_disable_dr [OF b _ True ret] by linarith
  qed
qed

section \<open>A well-formed server\<close>

text \<open>
  The invariant of a server's breakpoint data: the store and both managers are well formed,
  no struct is in both, no id is used twice, a struct of the software manager stands for an
  \<open>int 3\<close> in memory and one of the hardware manager for one of the four debug registers.
\<close>

definition bp_kind_ok :: "manager \<Rightarrow> BreakpointInfo \<Rightarrow> bool" where
  "bp_kind_ok which b \<longleftrightarrow>
     (case which of SW_BPM \<Rightarrow> \<not> is_hardware_bpt b \<and> dr_index b < 0
      | HW_BPM \<Rightarrow> is_hardware_bpt b \<and> 0 \<le> dr_index b \<and> dr_index b < 4)"

definition managers_ok :: "'w::len BreakpointManager \<Rightarrow> 'w BreakpointManager \<Rightarrow> (bp_ptr \<rightharpoonup> BreakpointInfo) \<Rightarrow> bool" where
  "managers_ok sw hw h \<longleftrightarrow>
     bpm_ok sw h \<and> bpm_ids_ok hw h \<and> bpm_addrs_sound hw h \<and>
     set (breakpoints sw) \<inter> set (breakpoints hw) = {} \<and>
     (\<forall>p \<in> set (breakpoints sw). \<forall>b. h p = Some b \<longrightarrow> bp_kind_ok SW_BPM b) \<and>
     (\<forall>p \<in> set (breakpoints hw). \<forall>b. h p = Some b \<longrightarrow> bp_kind_ok HW_BPM b) \<and>
     (\<forall>p \<in> set (breakpoints sw). \<forall>q \<in> set (breakpoints hw). \<forall>b c. h p = Some b \<longrightarrow> h q = Some c \<longrightarrow> bp_id b \<noteq> bp_id c)"

definition server_ok :: "('k, 'w::len, 'r, 'f, 'z) x86_server \<Rightarrow> bool" where
  "server_ok s \<longleftrightarrow> store_ok s \<and> length (dr_regs (arch s)) = DR_NADDR \<and>
     managers_ok (bpm s) (hw_bpm (arch s)) (bp_heap s)"

text \<open>Two structs that are the same breakpoint: the fields the invariant speaks of agree.\<close>

definition same_bp :: "BreakpointInfo \<Rightarrow> BreakpointInfo \<Rightarrow> bool" where
  "same_bp b b' \<longleftrightarrow> bp_id b' = bp_id b \<and> bp_address b' = bp_address b \<and>
     is_hardware_bpt b' = is_hardware_bpt b \<and> dr_index b' = dr_index b"

lemma same_bp_upds [simp]:
  "same_bp b b" "same_bp b (b\<lparr> refcount := n \<rparr>)" "same_bp b (b\<lparr> enabled := e \<rparr>)"
  "same_bp b (b\<lparr> saved_insn := x, runtime_table_slot := y \<rparr>)"
  by (simp_all add: same_bp_def)

lemma same_bp_trans: "same_bp a b \<Longrightarrow> same_bp b c \<Longrightarrow> same_bp a c"
  by (simp add: same_bp_def)

lemma bp_kind_ok_same: "same_bp b b' \<Longrightarrow> bp_kind_ok w b' = bp_kind_ok w b"
  by (simp add: same_bp_def bp_kind_ok_def split: manager.splits)

lemma managers_ok_upd:
  assumes ok: "managers_ok sw hw h" and p: "h p = Some b" and b': "same_bp b b'"
  shows "managers_ok sw hw (h(p \<mapsto> b'))"
proof -
  have keys: "same_keys A h (h(p \<mapsto> b'))" for A using p b' by (simp add: same_bp_def)
  have "bpm_ok sw (h(p \<mapsto> b'))" "bpm_ids_ok hw (h(p \<mapsto> b'))" "bpm_addrs_sound hw (h(p \<mapsto> b'))"
    using ok keys bpm_ok_same_keys bpm_ids_ok_same_keys bpm_addrs_sound_same_keys
    unfolding managers_ok_def by blast+
  moreover have "bp_kind_ok w b' = bp_kind_ok w b" for w by (rule bp_kind_ok_same [OF b'])
  moreover have "bp_id b' = bp_id b" using b' by (simp add: same_bp_def)
  ultimately show ?thesis using ok p unfolding managers_ok_def by (auto split: if_splits)
qed

lemma managers_ok_alloc:
  assumes "managers_ok sw hw h" and "p \<notin> set (breakpoints sw)" "p \<notin> set (breakpoints hw)"
  shows "managers_ok sw hw (h(p := v))"
proof -
  have "bpm_ok sw (h(p := v))" "bpm_ids_ok hw (h(p := v))" "bpm_addrs_sound hw (h(p := v))"
    using assms bpm_ok_same_keys [of sw h "h(p := v)"] bpm_ids_ok_same_keys [of hw h "h(p := v)"]
      bpm_addrs_sound_same_keys [of hw h "h(p := v)"]
    unfolding managers_ok_def by (auto simp: same_keys_def)
  then show ?thesis using assms unfolding managers_ok_def by (auto split: if_splits)
qed

lemma managers_okD:
  assumes "managers_ok sw hw h"
  shows "bpm_ok sw h" "bpm_ids_ok sw h" "bpm_ids_ok hw h" "bpm_addrs_sound hw h"
    "set (breakpoints sw) \<inter> set (breakpoints hw) = {}"
  using assms by (auto simp: managers_ok_def bpm_ok_def)

lemma member_live:
  assumes "bpm_ids_ok m h" and "p \<in> set (breakpoints m)"
  obtains b where "h p = Some b" "id_ok (bp_id b)"
  using assms by (auto simp: bpm_ids_ok_def)

lemma ids_fresh:
  fixes m :: "'w::len BreakpointManager"
  assumes wide: "32 \<le> LENGTH('w)" and ok: "bpm_ids_ok m h" and b: "id_ok (bp_id b)"
    and new: "\<And>q c. q \<in> set (breakpoints m) \<Longrightarrow> h q = Some c \<Longrightarrow> bp_id c \<noteq> bp_id b"
  shows "breakpoint_hash m (id_key b) = None"
proof (rule ccontr)
  assume "breakpoint_hash m (id_key b) \<noteq> None"
  then obtain q where "breakpoint_hash m (id_key b) = Some q" by blast
  then obtain c where c: "q \<in> set (breakpoints m)" "h q = Some c" "(id_key c :: 'w word) = id_key b"
    using ok by (auto simp: bpm_ids_ok_def)
  then have "id_ok (bp_id c)" using ok by (auto simp: bpm_ids_ok_def)
  moreover have small: "uint (word_of_int i :: 'w word) = i" if "id_ok i" for i
  proof -
    have "(2 :: int) ^ 31 \<le> 2 ^ LENGTH('w)" using wide by (intro power_increasing) auto
    then show ?thesis using that by (simp add: id_ok_def uint_word_of_int take_bit_int_eq_self)
  qed
  ultimately have "bp_id c = bp_id b" using c(3) b by (metis small)
  then show False using new c by blast
qed

lemma sw_insert_ok:
  fixes sw :: "'w::len BreakpointManager"
  assumes wide: "32 \<le> LENGTH('w)" and ok: "managers_ok sw hw (bp_heap s)" and p: "bp_heap s p = Some b"
    and notin: "p \<notin> set (breakpoints sw)" "p \<notin> set (breakpoints hw)"
    and b: "bp_kind_ok SW_BPM b" "id_ok (bp_id b)"
    and new: "\<And>q c. bp_heap s q = Some c \<Longrightarrow> q \<noteq> p \<Longrightarrow> bp_id c \<noteq> bp_id b"
    and addr: "breakpoint_by_addr sw (addr_key b) = None"
    and ins: "mono_debugger_breakpoint_manager_insert sw p s = Some sw'"
  shows "managers_ok sw' hw (bp_heap s)"
proof -
  note d = managers_okD [OF ok]
  have fresh: "breakpoint_hash sw (id_key b) = None"
    using ids_fresh [OF wide d(2) b(2)] new notin by blast
  have "bpm_ids_ok sw' (bp_heap s)" by (rule insert_ids_ok [OF d(2) p notin(1) b(2) fresh ins])
  moreover have "bpm_addrs_ok sw' (bp_heap s)"
    using insert_addrs_ok [OF _ p addr ins] d(1) by (simp add: bpm_ok_def)
  moreover have "set (breakpoints sw') = insert p (set (breakpoints sw))"
    using insert_members [OF ins] by auto
  ultimately show ?thesis
    using ok p notin b new unfolding managers_ok_def bpm_ok_def by (auto; metis)
qed

lemma hw_insert_ok:
  fixes hw :: "'w::len BreakpointManager"
  assumes wide: "32 \<le> LENGTH('w)" and ok: "managers_ok sw hw (bp_heap s)" and p: "bp_heap s p = Some b"
    and notin: "p \<notin> set (breakpoints sw)" "p \<notin> set (breakpoints hw)"
    and b: "bp_kind_ok HW_BPM b" "id_ok (bp_id b)"
    and new: "\<And>q c. bp_heap s q = Some c \<Longrightarrow> q \<noteq> p \<Longrightarrow> bp_id c \<noteq> bp_id b"
    and ins: "mono_debugger_breakpoint_manager_insert hw p s = Some hw'"
  shows "managers_ok sw hw' (bp_heap s)"
proof -
  note d = managers_okD [OF ok]
  have fresh: "breakpoint_hash hw (id_key b) = None"
    using ids_fresh [OF wide d(3) b(2)] new notin by blast
  have "bpm_ids_ok hw' (bp_heap s)" by (rule insert_ids_ok [OF d(3) p notin(2) b(2) fresh ins])
  moreover have "bpm_addrs_sound hw' (bp_heap s)" by (rule insert_addrs_sound [OF d(4) p ins])
  moreover have "set (breakpoints hw') = insert p (set (breakpoints hw))"
    using insert_members [OF ins] by auto
  ultimately show ?thesis
    using ok p notin b new unfolding managers_ok_def by (auto; metis)
qed

text \<open>The last reference to a member goes: the struct leaves its manager and the store.\<close>

abbreviation removed :: "bp_ptr \<Rightarrow> BreakpointInfo \<Rightarrow> 'w::len BreakpointManager \<Rightarrow> 'w BreakpointManager" where
  "removed p b m \<equiv> m\<lparr> breakpoint_hash := (breakpoint_hash m)(id_key b := None),
     breakpoint_by_addr := (breakpoint_by_addr m)(addr_key b := None),
     breakpoints := remove_fast p (breakpoints m) \<rparr>"

lemma sw_remove_ok:
  assumes ok: "managers_ok sw hw h" and p: "p \<in> set (breakpoints sw)" "h p = Some b"
  shows "managers_ok (removed p b sw) hw (h(p := None))"
proof -
  note d = managers_okD [OF ok]
  have "p \<notin> set (breakpoints hw)" using d(5) p by blast
  then have hw: "bpm_ids_ok hw (h(p := None))" "bpm_addrs_sound hw (h(p := None))"
    using bpm_ids_ok_same_keys [OF d(3)] bpm_addrs_sound_same_keys [OF d(4)] by auto
  have "bpm_ok (removed p b sw) (h(p := None))" by (rule delete_ok [OF d(1) p])
  moreover have "distinct (breakpoints sw)" using d(2) by (simp add: bpm_ids_ok_def)
  ultimately show ?thesis using ok hw unfolding managers_ok_def by (auto split: if_splits)
qed

lemma hw_remove_ok:
  assumes ok: "managers_ok sw hw h" and p: "p \<in> set (breakpoints hw)" "h p = Some b"
  shows "managers_ok sw (removed p b hw) (h(p := None))"
proof -
  note d = managers_okD [OF ok]
  have "p \<notin> set (breakpoints sw)" using d(5) p by blast
  then have sw: "bpm_ok sw (h(p := None))" using bpm_ok_same_keys [OF d(1)] by auto
  have hw: "bpm_ids_ok (removed p b hw) (h(p := None))" by (rule delete_ids_ok [OF d(3) p])
  have "bpm_addrs_sound (removed p b hw) (h(p := None))" by (rule delete_addrs_sound [OF d(3,4) p])
  moreover have "distinct (breakpoints hw)" using d(3) by (simp add: bpm_ids_ok_def)
  ultimately show ?thesis using ok hw sw unfolding managers_ok_def by (auto split: if_splits)
qed

section \<open>The invariant on the server's state\<close>

lemma server_ok_lock [simp]:
  "server_ok (mono_debugger_breakpoint_manager_lock s) = server_ok s"
  "server_ok (mono_debugger_breakpoint_manager_unlock s) = server_ok s"
  by (simp_all add: server_ok_def store_ok_def)

lemma server_ok_kern_only: "kern_only s s' \<Longrightarrow> server_ok s' = server_ok s"
  by (elim kern_onlyE) (simp add: server_ok_def store_ok_def)

lemma server_ok_set:
  assumes "server_ok s" and "bp_heap s p = Some b" and "same_bp b b'"
  shows "server_ok (bp_set p b' s)"
  using assms managers_ok_upd [of "bpm s" "hw_bpm (arch s)" "bp_heap s" p b b']
  by (auto simp: server_ok_def store_ok_def same_bp_def split: if_splits)

lemma server_ok_touches:
  assumes "server_ok s" and "touches_only p s s'"
  shows "server_ok s'"
proof -
  obtain b x y where b: "bp_heap s p = Some b"
    "bp_heap s' = (bp_heap s)(p \<mapsto> b\<lparr> saved_insn := x, runtime_table_slot := y \<rparr>)"
    using assms(2) by (auto simp: touches_only_def)
  let ?b = "b\<lparr> saved_insn := x, runtime_table_slot := y \<rparr>"
  have "server_ok (bp_set p ?b s)" by (rule server_ok_set [OF assms(1) b(1)]) simp
  then show ?thesis using assms(2) b(2) by (simp add: server_ok_def store_ok_def touches_only_def)
qed

lemma server_ok_free:
  assumes "server_ok s" and "p \<notin> set (breakpoints (bpm s))" "p \<notin> set (breakpoints (hw_bpm (arch s)))"
  shows "server_ok (bp_free p s)"
  using assms managers_ok_alloc [of "bpm s" "hw_bpm (arch s)" "bp_heap s" p None]
  by (auto simp: server_ok_def store_ok_def split: if_splits)

section \<open>The commands\<close>

lemma lookup_breakpoint_ok:
  fixes s :: "('k, 'w::len, 'r, 'f, 'z) x86_server"
  assumes ok: "server_ok s" and l: "lookup_breakpoint s idx = (found, s')"
  shows "s' = s"
    and "found = Some (p, which) \<Longrightarrow>
      \<exists>b. bp_heap s p = Some b \<and> id_ok (bp_id b) \<and> p \<in> set (breakpoints (get_manager which s)) \<and>
        (ucast idx :: 'w word) = id_key b"
proof -
  show "s' = s" using l by (auto simp: lookup_breakpoint_def Let_def split: option.splits)
  assume f: "found = Some (p, which)"
  have m: "managers_ok (bpm s) (hw_bpm (arch s)) (bp_heap s)" using ok by (simp add: server_ok_def)
  have ids: "bpm_ids_ok (get_manager which s) (bp_heap s)"
    using managers_okD(2,3) [OF m] by (cases which) auto
  have "breakpoint_hash (get_manager which s) (ucast idx) = Some p"
    using l f by (auto simp: lookup_breakpoint_def Let_def bpm_defs split: option.splits)
  then obtain b where "p \<in> set (breakpoints (get_manager which s))" "bp_heap s p = Some b" "id_key b = (ucast idx :: 'w word)"
    using ids unfolding bpm_ids_ok_def by blast
  then show "\<exists>b. bp_heap s p = Some b \<and> id_ok (bp_id b) \<and> p \<in> set (breakpoints (get_manager which s)) \<and>
        (ucast idx :: 'w word) = id_key b"
    using member_live [OF ids] by (metis option.inject)
qed

text \<open>The state in which \<open>insert_breakpoint\<close> calls the architecture: locked, with a new struct.\<close>

definition sw_bp :: "gint \<Rightarrow> guint64 \<Rightarrow> BreakpointInfo" where
  "sw_bp i address = BreakpointInfo_zero\<lparr> refcount := 1, bp_address := address, is_hardware_bpt := False,
     bp_id := i, dr_index := -1 \<rparr>"

definition with_new_bp :: "BreakpointInfo \<Rightarrow> ('k, 'w::len, 'a) server \<Rightarrow> ('k, 'w, 'a) server" where
  "with_new_bp b s = (mono_debugger_breakpoint_manager_lock s)\<lparr>
     last_breakpoint_id := last_breakpoint_id s + 1,
     bp_heap := (bp_heap s)(bp_next s \<mapsto> b), bp_next := Suc (bp_next s) \<rparr>"

lemma with_new_bp_fields [simp]:
  "bp_heap (with_new_bp b s) = (bp_heap s)(bp_next s \<mapsto> b)" "bp_next (with_new_bp b s) = Suc (bp_next s)"
  "last_breakpoint_id (with_new_bp b s) = last_breakpoint_id s + 1"
  "bpm_mutex (with_new_bp b s) = Suc (bpm_mutex s)" "kern (with_new_bp b s) = kern s"
  "inferior (with_new_bp b s) = inferior s" "arch (with_new_bp b s) = arch s"
  "mono_runtime (with_new_bp b s) = mono_runtime s" "bpm (with_new_bp b s) = bpm s"
  by (simp_all add: with_new_bp_def)

text \<open>The rest of \<open>insert_breakpoint\<close> and of \<open>insert_hw_breakpoint\<close> once the target is patched.\<close>

definition file_new_bp ::
  "manager \<Rightarrow> bp_ptr \<Rightarrow> ServerCommandError \<times> ('k, 'w::len, 'r, 'f, 'z) x86_server \<Rightarrow>
     (ServerCommandError \<times> guint32 option \<times> ('k, 'w, 'r, 'f, 'z) x86_server) option" where
  "file_new_bp which p rs =
     (if fst rs \<noteq> COMMAND_ERROR_NONE
      then Some (fst rs, None, bp_free p (mono_debugger_breakpoint_manager_unlock (snd rs)))
      else do {
        b \<leftarrow> bp_heap (snd rs) p;
        let s = bp_set p (b\<lparr> enabled := True \<rparr>) (snd rs);
        m \<leftarrow> mono_debugger_breakpoint_manager_insert (get_manager which s) p s;
        Some (COMMAND_ERROR_NONE, Some (word_of_int (bp_id b)),
              mono_debugger_breakpoint_manager_unlock (set_manager which m s))
      })"

lemma insert_known:
  assumes "mono_debugger_breakpoint_manager_lookup (bpm s) address = Some p" and "bp_heap s p = Some b"
  shows "server_ptrace_insert_breakpoint en s address =
    Some (COMMAND_ERROR_NONE, Some (word_of_int (bp_id b)), bp_set p (b\<lparr> refcount := refcount b + 1 \<rparr>) s)"
  using assms
  by (simp add: server_ptrace_insert_breakpoint_def Let_def mono_debugger_breakpoint_manager_lock_def
      mono_debugger_breakpoint_manager_unlock_def bp_set_def)

lemma insert_new:
  assumes "mono_debugger_breakpoint_manager_lookup (bpm s) address = None"
  shows "server_ptrace_insert_breakpoint en s address =
    Option.bind (en (with_new_bp (sw_bp (last_breakpoint_id s + 1) address) s) (bp_next s))
      (file_new_bp SW_BPM (bp_next s))"
  using assms
  by (simp add: server_ptrace_insert_breakpoint_def Let_def bp_alloc_def sw_bp_def [symmetric]
      mono_debugger_breakpoint_manager_get_next_id_def file_new_bp_def [abs_def] case_prod_unfold
      with_new_bp_def cong: if_cong)

lemma server_ok_new_bp:
  assumes ok: "server_ok s" and i: "bp_id b = last_breakpoint_id s + 1"
  shows "server_ok (with_new_bp b s)" "bp_next s \<notin> set (breakpoints (bpm s))"
    "bp_next s \<notin> set (breakpoints (hw_bpm (arch s)))"
    "\<And>q c. bp_heap s q = Some c \<Longrightarrow> q \<noteq> bp_next s \<and> bp_id c < bp_id b"
proof -
  let ?p = "bp_next s"
  have dead: "bp_heap s ?p = None"
    using ok by (cases "bp_heap s ?p") (auto simp: server_ok_def store_ok_def)
  have m: "managers_ok (bpm s) (hw_bpm (arch s)) (bp_heap s)" using ok by (simp add: server_ok_def)
  show nsw: "?p \<notin> set (breakpoints (bpm s))" and nhw: "?p \<notin> set (breakpoints (hw_bpm (arch s)))"
    using dead member_live [OF managers_okD(2) [OF m]] member_live [OF managers_okD(3) [OF m]] by force+
  show "q \<noteq> ?p \<and> bp_id c < bp_id b" if "bp_heap s q = Some c" for q c
    using that ok dead i by (auto simp: server_ok_def store_ok_def)
  show "server_ok (with_new_bp b s)"
    using managers_ok_alloc [OF m nsw nhw] ok i
    by (force simp: server_ok_def store_ok_def split: if_splits)
qed

lemma set_manager_insert_ok:
  fixes s :: "('k, 'w::len, 'r, 'f, 'z) x86_server"
  assumes wide: "32 \<le> LENGTH('w)" and ok: "server_ok s" and p: "bp_heap s p = Some b"
    and new: "p \<notin> set (breakpoints (bpm s))" "p \<notin> set (breakpoints (hw_bpm (arch s)))"
    and b: "bp_kind_ok which b" "id_ok (bp_id b)" and ids: "\<And>q c. bp_heap s q = Some c \<Longrightarrow> q \<noteq> p \<Longrightarrow> bp_id c \<noteq> bp_id b"
    and addr: "which = SW_BPM \<Longrightarrow> breakpoint_by_addr (bpm s) (addr_key b) = None"
    and ins: "mono_debugger_breakpoint_manager_insert (get_manager which s) p s = Some m"
  shows "server_ok (set_manager which m s)" "bpm_mutex (set_manager which m s) = bpm_mutex s"
proof -
  have mo: "managers_ok (bpm s) (hw_bpm (arch s)) (bp_heap s)" using ok by (simp add: server_ok_def)
  show "server_ok (set_manager which m s)"
  proof (cases which)
    case SW_BPM
    have "managers_ok m (hw_bpm (arch s)) (bp_heap s)"
      using sw_insert_ok [OF wide mo p new _ b(2) ids addr [OF SW_BPM]] b(1) ins SW_BPM by simp
    then show ?thesis using ok SW_BPM by (simp add: server_ok_def store_ok_def)
  next
    case HW_BPM
    have "managers_ok (bpm s) m (bp_heap s)"
      using hw_insert_ok [OF wide mo p new _ b(2) ids] b(1) ins HW_BPM by simp
    then show ?thesis using ok HW_BPM by (simp add: server_ok_def store_ok_def)
  qed
  show "bpm_mutex (set_manager which m s) = bpm_mutex s" by (cases which) simp_all
qed

lemma file_new_bp_ok:
  fixes s :: "('k, 'w::len, 'r, 'f, 'z) x86_server"
  assumes wide: "32 \<le> LENGTH('w)" and ok: "server_ok s" and room: "last_breakpoint_id s + 1 < 2 ^ 31"
    and b: "bp_id b = last_breakpoint_id s + 1" "bp_kind_ok which b"
    and addr: "which = SW_BPM \<Longrightarrow> breakpoint_by_addr (bpm s) (addr_key b) = None"
    and t: "touches_only (bp_next s) (with_new_bp b s) s2"
    and ret: "file_new_bp which (bp_next s) (r, s2) = Some (r', h, s')"
  shows "server_ok s' \<and> bpm_mutex s' = bpm_mutex s"
proof -
  let ?p = "bp_next s"
  note new = server_ok_new_bp [OF ok b(1)]
  have ok2: "server_ok s2" by (rule server_ok_touches [OF new(1) t])
  have f2: "bpm_mutex s2 = Suc (bpm_mutex s)" "bpm s2 = bpm s" "hw_bpm (arch s2) = hw_bpm (arch s)"
    using t by (simp_all add: touches_only_def)
  obtain x y where h2: "bp_heap s2 = (bp_heap s)(?p \<mapsto> b\<lparr> saved_insn := x, runtime_table_slot := y \<rparr>)"
    using t by (auto simp: touches_only_def)
  show ?thesis
  proof (cases "r = COMMAND_ERROR_NONE")
    case False
    then show ?thesis
      using ret server_ok_free [of "mono_debugger_breakpoint_manager_unlock s2" ?p] ok2 f2 new
      by (auto simp: file_new_bp_def)
  next
    case True
    define b2 where "b2 = b\<lparr> saved_insn := x, runtime_table_slot := y, enabled := True \<rparr>"
    define s3 where "s3 = bp_set ?p b2 s2"
    obtain m where m: "mono_debugger_breakpoint_manager_insert (get_manager which s3) ?p s3 = Some m"
      "s' = mono_debugger_breakpoint_manager_unlock (set_manager which m s3)"
      using ret True h2 by (auto simp: file_new_bp_def Let_def b2_def s3_def)
    have p2: "bp_heap s2 ?p = Some (b\<lparr> saved_insn := x, runtime_table_slot := y \<rparr>)" using h2 by simp
    have ok3: "server_ok s3"
      unfolding s3_def by (rule server_ok_set [OF ok2 p2]) (simp add: b2_def same_bp_def)
    have f3: "bpm s3 = bpm s" "arch s3 = arch s2" "bpm_mutex s3 = Suc (bpm_mutex s)" by (simp_all add: s3_def f2)
    have p3: "bp_heap s3 ?p = Some b2" by (simp add: s3_def)
    have b2: "bp_kind_ok which b2" "id_ok (bp_id b2)" "which = SW_BPM \<Longrightarrow> breakpoint_by_addr (bpm s3) (addr_key b2) = None"
      using b addr room ok f3 by (simp_all add: b2_def bp_kind_ok_def id_ok_def server_ok_def store_ok_def split: manager.splits)
    have ids: "bp_id c \<noteq> bp_id b2" if "bp_heap s3 q = Some c" "q \<noteq> ?p" for q c
      using new(4) [of q c] that h2 by (simp add: s3_def b2_def)
    have "?p \<notin> set (breakpoints (bpm s3))" "?p \<notin> set (breakpoints (hw_bpm (arch s3)))" using new(2,3) f3 f2 by simp_all
    from set_manager_insert_ok [OF wide ok3 p3 this b2(1,2) ids b2(3) m(1)] show ?thesis using m(2) f3 by simp
  qed
qed

definition hw_bp :: "gint \<Rightarrow> HardwareBreakpointType \<Rightarrow> guint64 \<Rightarrow> gint \<Rightarrow> BreakpointInfo" where
  "hw_bp i type address idx = BreakpointInfo_zero\<lparr> bp_type := type, bp_address := address, refcount := 1,
     bp_id := i, is_hardware_bpt := True, dr_index := idx \<rparr>"

lemma insert_hw_new:
  assumes "find_free_hw_register s = (COMMAND_ERROR_NONE, Some idx)"
  shows "server_ptrace_insert_hw_breakpoint en s type address =
    Option.bind (en (with_new_bp (hw_bp (last_breakpoint_id s + 1) type address (sint idx)) s) (bp_next s))
      (\<lambda>rs. map_option (\<lambda>(r, h, s). (r, map_option (Pair idx) h, s)) (file_new_bp HW_BPM (bp_next s) rs))"
proof -
  have "find_free_hw_register (mono_debugger_breakpoint_manager_lock s) = (COMMAND_ERROR_NONE, Some idx)"
    using assms by (simp add: find_free_hw_register_def)
  then show ?thesis
    by (simp add: server_ptrace_insert_hw_breakpoint_def Let_def bp_alloc_def hw_bp_def [symmetric]
        mono_debugger_breakpoint_manager_get_next_id_def file_new_bp_def [abs_def] case_prod_unfold
        with_new_bp_def map_option_bind comp_def if_distrib [where f = "map_option _"] cong: if_cong)
qed

lemma find_free_hw_register_cases:
  obtains (free) idx where "find_free_hw_register s = (COMMAND_ERROR_NONE, Some idx)" "unat idx < 4"
      "dr_regs (arch s) ! unat idx = 0"
  | (occupied) "find_free_hw_register s = (COMMAND_ERROR_DR_OCCUPIED, None)"
      "\<forall>i < 4. dr_regs (arch s) ! i \<noteq> 0"
proof -
  have loop: "(case find_free_hw_register_loop regs ks of
      Some i \<Rightarrow> i \<in> set ks \<and> regs ! i = 0 | None \<Rightarrow> \<forall>i \<in> set ks. regs ! i \<noteq> 0)" for regs ks
    by (induction ks) (auto split: option.splits)
  show thesis
  proof (cases "find_free_hw_register_loop (dr_regs (arch s)) [0..<DR_NADDR]")
    case None
    then show thesis using that(2) loop [where regs = "dr_regs (arch s)" and ks = "[0..<DR_NADDR]"]
      by (simp add: find_free_hw_register_def DR_NADDR_def)
  next
    case (Some i)
    have "i < 4" "dr_regs (arch s) ! i = 0"
      using loop [where regs = "dr_regs (arch s)" and ks = "[0..<DR_NADDR]"] Some by (auto simp: DR_NADDR_def)
    moreover have "unat (of_nat i :: guint32) = i" using \<open>i < 4\<close> by (simp add: unat_of_nat_small)
    ultimately show thesis using that(1) [of "of_nat i"] Some by (simp add: find_free_hw_register_def)
  qed
qed

lemma sint_small:
  assumes "unat (w :: guint32) < 4"
  shows "0 \<le> sint w" "sint w < 4" "nat (sint w) = unat w"
proof -
  have "int (unat w) < 4" using assms by linarith
  then have u: "uint w < 4" by simp
  have "signed_take_bit 31 (uint w) = uint w"
  proof (rule signed_take_bit_int_eq_self)
    show "- (2 ^ 31) \<le> uint w" using uint_ge_0 [of w] by (rule order_trans [rotated]) simp
    show "uint w < 2 ^ 31" using u by (rule less_le_trans) simp
  qed
  then have "sint w = uint w" by (simp add: sint_uint)
  then show "0 \<le> sint w" "sint w < 4" "nat (sint w) = unat w" using u by simp_all
qed

lemma unlock_set_lock [simp]:
  "mono_debugger_breakpoint_manager_unlock (bp_set p b (mono_debugger_breakpoint_manager_lock s)) = bp_set p b s"
  by (simp add: mono_debugger_breakpoint_manager_lock_def mono_debugger_breakpoint_manager_unlock_def bp_set_def)

lemma lookup_lock:
  "lookup_breakpoint (mono_debugger_breakpoint_manager_lock s) idx =
     (fst (lookup_breakpoint s idx), mono_debugger_breakpoint_manager_lock s)"
  by (auto simp: lookup_breakpoint_def Let_def mono_debugger_breakpoint_manager_lock_def
      mono_debugger_breakpoint_manager_unlock_def split: option.splits)

text \<open>Taking a breakpoint whose last reference is gone out of its manager.\<close>

lemma unfile_bp_ok:
  fixes s :: "('k, 'w::len, 'r, 'f, 'z) x86_server"
  assumes ok: "server_ok s" and p: "bp_heap s p = Some b" "p \<in> set (breakpoints (get_manager w s))"
  defines "b' \<equiv> b\<lparr> enabled := False \<rparr>"
  defines "s' \<equiv> bp_set p b' s"
  shows "bpm_ids_ok (get_manager w s') (bp_heap s')" "p \<in> set (breakpoints (get_manager w s'))" "bp_heap s' p = Some b'"
    "server_ok (set_manager w (removed p b' (get_manager w s')) (bp_free p s'))"
    "bpm_mutex (set_manager w m (bp_free p s')) = bpm_mutex s"
proof -
  have ok': "server_ok s'" unfolding s'_def by (rule server_ok_set [OF ok p(1)]) (simp add: b'_def same_bp_def)
  have mo: "managers_ok (bpm s') (hw_bpm (arch s')) (bp_heap s')" using ok' by (simp add: server_ok_def)
  show p': "p \<in> set (breakpoints (get_manager w s'))" "bp_heap s' p = Some b'"
    using p(2) by (cases w; simp add: s'_def)+
  show "bpm_ids_ok (get_manager w s') (bp_heap s')" using managers_okD [OF mo] by (cases w) simp_all
  show "server_ok (set_manager w (removed p b' (get_manager w s')) (bp_free p s'))"
    using ok' sw_remove_ok [OF mo] hw_remove_ok [OF mo] p'
    by (cases w) (auto simp: server_ok_def store_ok_def split: if_splits)
  show "bpm_mutex (set_manager w m (bp_free p s')) = bpm_mutex s" by (cases w) (simp_all add: s'_def)
qed

text \<open>What the breakpoint commands need of the functions that patch the target.\<close>

locale breakpoint_backend =
  fixes enable disable :: "('k, 'w::len, ('w, 'r, 'f, 'z) ArchInfo_scheme) breakpoint_fn"
  assumes wide: "32 \<le> LENGTH('w)"
    and enable_touches: "enable s p = Some (r, s') \<Longrightarrow> touches_only p s s'"
    and disable_touches: "disable s p = Some (r, s') \<Longrightarrow> touches_only p s s'"
begin

lemma insert_ok:
  assumes ok: "server_ok s" and room: "last_breakpoint_id s + 1 < 2 ^ 31"
    and ret: "server_ptrace_insert_breakpoint enable s address = Some (r, h, s')"
  shows "server_ok s' \<and> bpm_mutex s' = bpm_mutex s"
proof (cases "mono_debugger_breakpoint_manager_lookup (bpm s) address")
  case (Some p)
  then obtain b where b: "bp_heap s p = Some b"
    using ret by (auto simp: server_ptrace_insert_breakpoint_def Let_def)
  have "s' = bp_set p (b\<lparr> refcount := refcount b + 1 \<rparr>) s"
    using insert_known [OF Some b] ret by (metis Pair_inject option.inject)
  then show ?thesis using server_ok_set [OF ok b] by simp
next
  case None
  let ?b = "sw_bp (last_breakpoint_id s + 1) address"
  obtain r2 s2 where e: "enable (with_new_bp ?b s) (bp_next s) = Some (r2, s2)"
    "file_new_bp SW_BPM (bp_next s) (r2, s2) = Some (r, h, s')"
    using ret insert_new [OF None, of enable] by auto
  show ?thesis
  proof (rule file_new_bp_ok [OF wide ok room _ _ _ enable_touches [OF e(1)] e(2)])
    show "breakpoint_by_addr (bpm s) (addr_key ?b) = None" using None by (simp add: bpm_defs sw_bp_def)
  qed (simp_all add: sw_bp_def bp_kind_ok_def)
qed

lemma insert_hw_ok:
  assumes ok: "server_ok s" and room: "last_breakpoint_id s + 1 < 2 ^ 31"
    and ret: "server_ptrace_insert_hw_breakpoint enable s type address = Some (r, h, s')"
  shows "server_ok s' \<and> bpm_mutex s' = bpm_mutex s"
proof (cases rule: find_free_hw_register_cases [of s])
  case (free idx)
  let ?b = "hw_bp (last_breakpoint_id s + 1) type address (sint idx)"
  obtain r2 s2 h2 where e: "enable (with_new_bp ?b s) (bp_next s) = Some (r2, s2)"
    "file_new_bp HW_BPM (bp_next s) (r2, s2) = Some (r, h2, s')"
    using ret insert_hw_new [OF free(1), of enable] by auto
  show ?thesis
    by (rule file_new_bp_ok [OF wide ok room _ _ _ enable_touches [OF e(1)] e(2)])
      (use free in \<open>simp_all add: hw_bp_def bp_kind_ok_def sint_small\<close>)
next
  case occupied
  have "find_free_hw_register (mono_debugger_breakpoint_manager_lock s) = (COMMAND_ERROR_DR_OCCUPIED, None)"
    using occupied by (simp add: find_free_hw_register_def)
  then show ?thesis using ret ok by (auto simp: server_ptrace_insert_hw_breakpoint_def Let_def)
qed

lemma enable_ok:
  assumes ok: "server_ok s" and ret: "server_ptrace_enable_breakpoint enable s idx = Some (r, s')"
  shows "server_ok s' \<and> bpm_mutex s' = bpm_mutex s"
proof (cases "fst (lookup_breakpoint s idx)")
  case None
  then show ?thesis using ret ok by (auto simp: server_ptrace_enable_breakpoint_def Let_def lookup_lock)
next
  case (Some pw)
  obtain p w where pw: "pw = (p, w)" by force
  obtain s2 b2 where e: "enable (mono_debugger_breakpoint_manager_lock s) p = Some (r, s2)"
    "bp_heap s2 p = Some b2"
    "s' = mono_debugger_breakpoint_manager_unlock (bp_set p (b2\<lparr> enabled := True \<rparr>) s2)"
    using ret Some pw by (auto simp: server_ptrace_enable_breakpoint_def Let_def lookup_lock)
  have t: "touches_only p (mono_debugger_breakpoint_manager_lock s) s2" by (rule enable_touches [OF e(1)])
  then have "server_ok s2" using server_ok_touches ok by (metis server_ok_lock(1))
  then show ?thesis using server_ok_set [OF _ e(2)] e(3) t by (simp add: touches_only_def)
qed

lemma disable_ok:
  assumes ok: "server_ok s" and ret: "server_ptrace_disable_breakpoint disable s idx = Some (r, s')"
  shows "server_ok s' \<and> bpm_mutex s' = bpm_mutex s"
proof (cases "fst (lookup_breakpoint s idx)")
  case None
  then show ?thesis using ret ok by (auto simp: server_ptrace_disable_breakpoint_def Let_def lookup_lock)
next
  case (Some pw)
  obtain p w where pw: "pw = (p, w)" by force
  obtain s2 b2 where e: "disable (mono_debugger_breakpoint_manager_lock s) p = Some (r, s2)"
    "bp_heap s2 p = Some b2"
    "s' = mono_debugger_breakpoint_manager_unlock (bp_set p (b2\<lparr> enabled := False \<rparr>) s2)"
    using ret Some pw by (auto simp: server_ptrace_disable_breakpoint_def Let_def lookup_lock)
  have t: "touches_only p (mono_debugger_breakpoint_manager_lock s) s2" by (rule disable_touches [OF e(1)])
  then have "server_ok s2" using server_ok_touches ok by (metis server_ok_lock(1))
  then show ?thesis using server_ok_set [OF _ e(2)] e(3) t by (simp add: touches_only_def)
qed

lemma disable_last_ok:
  fixes s :: "('k, 'w::len, 'r, 'f, 'z) x86_server"
  assumes ok: "server_ok s" and b: "bp_heap s p = Some b" "p \<in> set (breakpoints (get_manager w s))"
    and d: "disable s p = Some (r2, s2)"
  obtains c where "server_ok s2" "bpm_mutex s2 = bpm_mutex s" "bp_heap s2 p = Some c" "refcount c = refcount b"
    "p \<in> set (breakpoints (get_manager w s2))"
proof -
  have t: "touches_only p s s2" by (rule disable_touches [OF d])
  have ok2: "server_ok s2" by (rule server_ok_touches [OF ok t])
  obtain x y where h2: "bp_heap s2 p = Some (b\<lparr> saved_insn := x, runtime_table_slot := y \<rparr>)"
    using t b(1) by (auto simp: touches_only_def)
  have "p \<in> set (breakpoints (get_manager w s2))" using b(2) t by (cases w) (simp_all add: touches_only_def)
  then show thesis using that [OF ok2 _ h2] t by (simp add: touches_only_def)
qed

lemma remove_ok:
  fixes s :: "('k, 'w::len, 'r, 'f, 'z) x86_server"
  assumes ok: "server_ok s" and ret: "server_ptrace_remove_breakpoint disable s idx = Some (r, s')"
  shows "server_ok s' \<and> bpm_mutex s' = bpm_mutex s"
proof (cases "fst (lookup_breakpoint s idx)")
  case None
  then show ?thesis using ret ok by (auto simp: server_ptrace_remove_breakpoint_def Let_def lookup_lock)
next
  case (Some pw)
  obtain p w where pw: "pw = (p, w)" by force
  have "lookup_breakpoint s idx = (Some (p, w), snd (lookup_breakpoint s idx))"
    using Some pw by (metis prod.collapse)
  then obtain b where b: "bp_heap s p = Some b" "id_ok (bp_id b)" "p \<in> set (breakpoints (get_manager w s))"
    using lookup_breakpoint_ok(2) [OF ok] by blast
  define s1 where "s1 = bp_set p (b\<lparr> refcount := refcount b - 1 \<rparr>) (mono_debugger_breakpoint_manager_lock s)"
  have ok1: "server_ok s1" unfolding s1_def by (rule server_ok_set) (use ok b in \<open>simp_all add: same_bp_def\<close>)
  have f1: "bp_heap s1 p = Some (b\<lparr> refcount := refcount b - 1 \<rparr>)" "bpm_mutex s1 = Suc (bpm_mutex s)"
    "bpm s1 = bpm s" "arch s1 = arch s" by (simp_all add: s1_def)
  show ?thesis
  proof (cases "0 < refcount b - 1")
    case True
    then have "s' = mono_debugger_breakpoint_manager_unlock s1"
      using ret Some pw b by (auto simp: server_ptrace_remove_breakpoint_def Let_def lookup_lock s1_def)
    then show ?thesis using ok1 f1 by simp
  next
    case False
    obtain r2 s2 where d: "disable s1 p = Some (r2, s2)"
      using ret Some pw b False
      by (auto simp: server_ptrace_remove_breakpoint_def Let_def lookup_lock s1_def)
    have "p \<in> set (breakpoints (get_manager w s1))" using b(3) f1 by (cases w) simp_all
    then obtain c where c: "server_ok s2" "bpm_mutex s2 = bpm_mutex s1" "bp_heap s2 p = Some c" "refcount c = refcount b - 1"
      "p \<in> set (breakpoints (get_manager w s2))"
      using disable_last_ok [OF ok1 f1(1) _ d, of w] by auto
    show ?thesis
    proof (cases "r2 = COMMAND_ERROR_NONE")
      case err: False
      then have "s' = mono_debugger_breakpoint_manager_unlock s2"
        using ret Some pw b False d
        by (simp add: server_ptrace_remove_breakpoint_def Let_def lookup_lock s1_def)
      then show ?thesis using c f1(2) by simp
    next
      case True
      note u = unfile_bp_ok [OF c(1,3,5)]
      have "refcount (c\<lparr> enabled := False \<rparr>) \<le> 1" using False c(4) by simp
      then show ?thesis
        using ret Some pw b False d True c(2,3) remove_last [OF u(1-3)] u(4,5) f1(2)
        by (auto simp: server_ptrace_remove_breakpoint_def Let_def lookup_lock s1_def [symmetric])
    qed
  qed
qed

end

section \<open>Sequences of commands\<close>

text \<open>Everything that happens to a server between two breakpoint commands: the target runs, registers are
  read and written, methods are called. None of it touches the breakpoint data.\<close>

definition bp_unchanged :: "('k, 'w::len, 'r, 'f, 'z) x86_server \<Rightarrow> ('k, 'w, 'r, 'f, 'z) x86_server \<Rightarrow> bool" where
  "bp_unchanged s s' \<longleftrightarrow> bp_heap s' = bp_heap s \<and> bp_next s' = bp_next s \<and>
     last_breakpoint_id s' = last_breakpoint_id s \<and> bpm_mutex s' = bpm_mutex s \<and> bpm s' = bpm s \<and>
     hw_bpm (arch s') = hw_bpm (arch s) \<and> length (dr_regs (arch s')) = length (dr_regs (arch s))"

lemma bp_unchanged_refl [simp]: "bp_unchanged s s"
  by (simp add: bp_unchanged_def)

lemma bp_unchanged_trans: "bp_unchanged s s' \<Longrightarrow> bp_unchanged s' s'' \<Longrightarrow> bp_unchanged s s''"
  by (simp add: bp_unchanged_def)

lemma bp_unchanged_kern: "kern_only s s' \<Longrightarrow> bp_unchanged s s'"
  by (elim kern_onlyE) (simp add: bp_unchanged_def)

lemma server_ok_unchanged: "bp_unchanged s s' \<Longrightarrow> server_ok s' = server_ok s"
  by (simp add: bp_unchanged_def server_ok_def store_ok_def)

text \<open>One command of the debugger, or anything in between. The commands hand out ids as long as the
  \<open>int\<close> counter does not overflow.\<close>

inductive bp_step ::
  "('k, 'w::len, ('w, 'r, 'f, 'z) ArchInfo_scheme) breakpoint_fn \<Rightarrow>
   ('k, 'w, ('w, 'r, 'f, 'z) ArchInfo_scheme) breakpoint_fn \<Rightarrow>
   ('k, 'w, 'r, 'f, 'z) x86_server \<Rightarrow> ('k, 'w, 'r, 'f, 'z) x86_server \<Rightarrow> bool" for en dis where
  insert_step: "server_ptrace_insert_breakpoint en s a = Some (r, h, s') \<Longrightarrow>
     last_breakpoint_id s + 1 < 2 ^ 31 \<Longrightarrow> bp_step en dis s s'"
| insert_hw_step: "server_ptrace_insert_hw_breakpoint en s ty a = Some (r, hh, s') \<Longrightarrow>
     last_breakpoint_id s + 1 < 2 ^ 31 \<Longrightarrow> bp_step en dis s s'"
| remove_step: "server_ptrace_remove_breakpoint dis s idx = Some (r, s') \<Longrightarrow> bp_step en dis s s'"
| enable_step: "server_ptrace_enable_breakpoint en s idx = Some (r, s') \<Longrightarrow> bp_step en dis s s'"
| disable_step: "server_ptrace_disable_breakpoint dis s idx = Some (r, s') \<Longrightarrow> bp_step en dis s s'"
| other_step: "bp_unchanged s s' \<Longrightarrow> bp_step en dis s s'"

inductive_cases bp_stepE: "bp_step en dis s s'"

context breakpoint_backend
begin

lemma step_ok:
  assumes "bp_step enable disable s s'" and "server_ok s"
  shows "server_ok s' \<and> bpm_mutex s' = bpm_mutex s"
  using assms(1)
proof (cases rule: bp_step.cases)
  case insert_step
  then show ?thesis using insert_ok [OF assms(2)] by metis
next
  case insert_hw_step
  then show ?thesis using insert_hw_ok [OF assms(2)] by metis
next
  case remove_step
  then show ?thesis using remove_ok [OF assms(2)] by metis
next
  case enable_step
  then show ?thesis using enable_ok [OF assms(2)] by metis
next
  case disable_step
  then show ?thesis using disable_ok [OF assms(2)] by metis
next
  case other_step
  then show ?thesis using assms(2) server_ok_unchanged [OF other_step] by (simp add: bp_unchanged_def)
qed

lemma steps_ok:
  assumes "(bp_step enable disable)\<^sup>*\<^sup>* s s'" and "server_ok s"
  shows "server_ok s' \<and> bpm_mutex s' = bpm_mutex s"
  using assms by (induction rule: rtranclp_induct) (auto dest: step_ok)

end

end
