(* ===== verification/Breakpoint_Memory.thy ===== *)
theory Breakpoint_Memory
  imports Breakpoint_Commands
begin

text \<open>
  Breakpoints are invisible to the debugger. A software breakpoint replaces a byte of the
  target's memory by \<open>int 3\<close>; \<open>view\<close> is the memory as it would be without any of them, and the
  theorems say that \<open>server_ptrace_read_memory\<close> returns exactly the view, that setting and
  removing breakpoints leaves the view alone, and that a breakpoint set and removed
  again leaves the target's memory as it was. All this is under the hypothesis
  \<open>target_memory\<close> on the kernel and outside the table that the Mono runtime keeps of
  breakpoints, which the server writes on purpose.
\<close>

section \<open>Memory without breakpoints\<close>

text \<open>The byte that an enabled software breakpoint at an address has replaced.\<close>

definition patched :: "(bp_ptr \<rightharpoonup> BreakpointInfo) \<Rightarrow> 'w::len BreakpointManager \<Rightarrow> 'w word \<Rightarrow> guint8 option" where
  "patched h m a =
     (case breakpoint_by_addr m a of
        None \<Rightarrow> None
      | Some p \<Rightarrow> (case h p of None \<Rightarrow> None | Some b \<Rightarrow> if enabled b then Some (saved_insn b) else None))"

definition view :: "('k, 'w::len, 'a) server \<Rightarrow> 'w mem \<Rightarrow> 'w mem" where
  "view s m = (\<lambda>a. case patched (bp_heap s) (bpm s) a of Some x \<Rightarrow> x | None \<Rightarrow> m a)"

text \<open>An address of the target, held in a \<open>guint64\<close>.\<close>

definition canonical :: "'w::len itself \<Rightarrow> guint64 \<Rightarrow> bool" where
  "canonical _ a \<longleftrightarrow> unat a < 2 ^ LENGTH('w)"

definition addrs_canonical :: "('k, 'w::len, 'a) server \<Rightarrow> bool" where
  "addrs_canonical s \<longleftrightarrow>
     (\<forall>p \<in> set (breakpoints (bpm s)). \<forall>b. bp_heap s p = Some b \<longrightarrow> canonical TYPE('w) (bp_address b))"

lemma unat_ucast_canonical:
  "canonical TYPE('w::len) a \<Longrightarrow> unat (ucast a :: 'w word) = unat a"
  by (simp add: canonical_def unsigned_ucast_eq take_bit_nat_eq_self)

lemma ucast_ucast_canonical:
  assumes "canonical TYPE('w::len) a" and "LENGTH('w) \<le> 64"
  shows "ucast (ucast a :: 'w word) = a"
proof -
  have "unat (ucast (ucast a :: 'w word) :: guint64) = unat a"
    unfolding unsigned_ucast_eq [where w = "ucast a :: 'w word"]
    using unat_ucast_canonical [OF assms(1)] unsigned_less [of a, where 'a = nat]
    by (simp add: take_bit_nat_eq_self)
  then show ?thesis by (rule unsigned_word_eqI)
qed

text \<open>Where the loop over the breakpoints writes: for a block that does not reach the end of the
  address space, exactly at the breakpoints in it.\<close>

lemma patch_offset:
  fixes a start :: guint64
  assumes w: "LENGTH('w::len) \<le> 64" and a: "canonical TYPE('w) a" and n: "unat start + unat (sz :: guint32) < 2 ^ LENGTH('w)"
  shows "\<not> (a < start \<or> start + ucast sz \<le> a) \<longleftrightarrow> unat (ucast a - ucast start :: 'w word) < unat sz"
    and "i < unat sz \<Longrightarrow> unat (ucast a - ucast start :: 'w word) = i \<longleftrightarrow> (ucast a :: 'w word) = ucast start + of_nat i"
proof -
  have W: "(2 :: nat) ^ LENGTH('w) \<le> 2 ^ 64" using w by (intro power_increasing) auto
  have u: "unat (ucast a :: 'w word) = unat a" "unat (ucast start :: 'w word) = unat start"
    using a n by (auto simp: unat_ucast_canonical canonical_def)
  have sz: "unat (ucast sz :: guint64) = unat sz"
    using unsigned_less [of sz, where 'a = nat] by (simp add: unsigned_ucast_eq take_bit_nat_eq_self)
  have sum: "unat (start + ucast sz) = unat start + unat sz"
    using n W sz by (subst unat_add_lem [THEN iffD1]) auto
  have lt: "unat a < 2 ^ LENGTH('w)" "unat start < 2 ^ LENGTH('w)" using a n by (auto simp: canonical_def)
  show "\<not> (a < start \<or> start + ucast sz \<le> a) \<longleftrightarrow> unat (ucast a - ucast start :: 'w word) < unat sz"
  proof (cases "start \<le> a")
    case True
    then have "unat (ucast a - ucast start :: 'w word) = unat a - unat start"
      using u by (subst unat_sub) (auto simp: word_le_nat_alt)
    then show ?thesis using True sum by (auto simp: word_le_nat_alt word_less_nat_alt)
  next
    case False
    then have "unat (ucast a - ucast start :: 'w word) = 2 ^ LENGTH('w) + unat a - unat start"
      using u lt by (subst unat_sub_if') (auto simp: word_le_nat_alt)
    then show ?thesis using False n lt by (auto simp: word_le_nat_alt word_less_nat_alt)
  qed
  assume "i < unat sz"
  then have "i < 2 ^ LENGTH('w)" using n by simp
  then show "unat (ucast a - ucast start :: 'w word) = i \<longleftrightarrow> (ucast a :: 'w word) = ucast start + of_nat i"
    using unat_of_nat_small [of i, where 'w = 'w]
    by (metis add.commute diff_add_cancel add_diff_cancel_left' unsigned_word_eqI)
qed

text \<open>One pass over the breakpoints puts every replaced byte back.\<close>

definition patches :: "(bp_ptr \<rightharpoonup> BreakpointInfo) \<Rightarrow> bp_ptr \<Rightarrow> 'w::len word \<Rightarrow> guint8 option" where
  "patches h p a = (case h p of None \<Rightarrow> None
     | Some b \<Rightarrow> if enabled b \<and> addr_key b = a then Some (saved_insn b) else None)"

lemma patches_unique:
  assumes "heap p = Some b" and "\<And>c. heap q = Some c \<Longrightarrow> (addr_key b :: 'w::len word) \<noteq> addr_key c"
    and "patches heap p (a :: 'w word) \<noteq> None"
  shows "patches heap q a = None"
  using assms by (auto simp: patches_def split: option.splits if_splits)

lemma remove_breakpoints_step:
  fixes s :: "('k, 'w::len, 'a) server" and start :: guint64 and sz :: guint32
  assumes w: "LENGTH('w) \<le> 64" and n: "unat start + unat sz < 2 ^ LENGTH('w)"
    and b: "bp_heap s p = Some b" "\<not> is_hardware_bpt b" "canonical TYPE('w) (bp_address b)" and len: "length buf = unat sz"
  obtains buf1 where "\<And>ps. remove_breakpoints_loop s start sz (p # ps) buf = remove_breakpoints_loop s start sz ps buf1"
    "length buf1 = unat sz"
    "\<And>i. i < unat sz \<Longrightarrow> buf1 ! i = (case patches (bp_heap s) p (ucast start + of_nat i :: 'w word) of None \<Rightarrow> buf ! i | Some x \<Rightarrow> x)"
proof -
  let ?off = "unat (ucast (bp_address b) - ucast start :: 'w word)"
  note po = patch_offset [OF w b(3) n]
  define buf1 where "buf1 = (if enabled b \<and> ?off < unat sz then buf[?off := saved_insn b] else buf)"
  have "remove_breakpoints_loop s start sz (p # ps) buf = remove_breakpoints_loop s start sz ps buf1" for ps
    using b po(1) len by (auto simp: buf1_def Let_def)
  moreover have "buf1 ! i = (case patches (bp_heap s) p (ucast start + of_nat i :: 'w word) of None \<Rightarrow> buf ! i | Some x \<Rightarrow> x)"
    if "i < unat sz" for i
    using po(2) [OF that] b(1) len that by (auto simp: patches_def buf1_def)
  moreover have "length buf1 = unat sz" using len by (simp add: buf1_def)
  ultimately show thesis using that by blast
qed

lemma remove_breakpoints_loop:
  fixes s :: "('k, 'w::len, 'a) server" and start :: guint64 and sz :: guint32
  assumes w: "LENGTH('w) \<le> 64" and n: "unat start + unat sz < 2 ^ LENGTH('w)"
    and live: "\<And>p. p \<in> set ps \<Longrightarrow> \<exists>b. bp_heap s p = Some b \<and> \<not> is_hardware_bpt b \<and> canonical TYPE('w) (bp_address b)"
    and uniq: "\<And>p q b c. p \<in> set ps \<Longrightarrow> q \<in> set ps \<Longrightarrow> bp_heap s p = Some b \<Longrightarrow> bp_heap s q = Some c \<Longrightarrow>
        (addr_key b :: 'w word) = addr_key c \<Longrightarrow> p = q"
    and len: "length buf = unat sz"
  shows "\<exists>buf'. remove_breakpoints_loop s start sz ps buf = Some buf' \<and> length buf' = unat sz \<and>
    (\<forall>i < unat sz. (\<forall>p \<in> set ps. \<forall>x. patches (bp_heap s) p (ucast start + of_nat i :: 'w word) = Some x \<longrightarrow> buf' ! i = x) \<and>
       ((\<forall>p \<in> set ps. patches (bp_heap s) p (ucast start + of_nat i :: 'w word) = None) \<longrightarrow> buf' ! i = buf ! i))"
  using live uniq len
proof (induction ps arbitrary: buf)
  case (Cons p ps)
  obtain b where b: "bp_heap s p = Some b" "\<not> is_hardware_bpt b" "canonical TYPE('w) (bp_address b)"
    using Cons.prems(1) by auto
  obtain buf1 where step: "\<And>ps. remove_breakpoints_loop s start sz (p # ps) buf = remove_breakpoints_loop s start sz ps buf1"
    and len1: "length buf1 = unat sz" and buf1: "\<And>i. i < unat sz \<Longrightarrow>
      buf1 ! i = (case patches (bp_heap s) p (ucast start + of_nat i :: 'w word) of None \<Rightarrow> buf ! i | Some x \<Rightarrow> x)"
    by (rule remove_breakpoints_step [OF w n b Cons.prems(3)]) (rule that)
  have "\<exists>buf'. remove_breakpoints_loop s start sz ps buf1 = Some buf' \<and> length buf' = unat sz \<and>
    (\<forall>i < unat sz. (\<forall>q \<in> set ps. \<forall>x. patches (bp_heap s) q (ucast start + of_nat i :: 'w word) = Some x \<longrightarrow> buf' ! i = x) \<and>
       ((\<forall>q \<in> set ps. patches (bp_heap s) q (ucast start + of_nat i :: 'w word) = None) \<longrightarrow> buf' ! i = buf1 ! i))"
  proof (rule Cons.IH)
    show "\<exists>b. bp_heap s q = Some b \<and> \<not> is_hardware_bpt b \<and> canonical TYPE('w) (bp_address b)" if "q \<in> set ps" for q
      using Cons.prems(1) [of q] that by simp
    show "q = r" if "q \<in> set ps" "r \<in> set ps" "bp_heap s q = Some b" "bp_heap s r = Some c"
      "(addr_key b :: 'w word) = addr_key c" for q r b c
      using Cons.prems(2) [of q r b c] that by simp
  qed (rule len1)
  then obtain buf' where r: "remove_breakpoints_loop s start sz ps buf1 = Some buf'" "length buf' = unat sz"
    "\<And>i q x. i < unat sz \<Longrightarrow> q \<in> set ps \<Longrightarrow> patches (bp_heap s) q (ucast start + of_nat i :: 'w word) = Some x \<Longrightarrow> buf' ! i = x"
    "\<And>i. i < unat sz \<Longrightarrow> \<forall>q \<in> set ps. patches (bp_heap s) q (ucast start + of_nat i :: 'w word) = None \<Longrightarrow> buf' ! i = buf1 ! i"
    by blast
  have other: "patches (bp_heap s) q (ucast start + of_nat i :: 'w word) = None"
    if "q \<in> set ps" "q \<noteq> p" "patches (bp_heap s) p (ucast start + of_nat i :: 'w word) \<noteq> None" for i q
    by (rule patches_unique [OF b(1) _ that(3)]) (use Cons.prems(2) [of p q b] that b(1) in auto)
  have here: "buf' ! i = x" if "i < unat sz" "patches (bp_heap s) p (ucast start + of_nat i :: 'w word) = Some x" for i x
  proof (cases "p \<in> set ps")
    case True
    then show ?thesis using r(3) that by blast
  next
    case False
    then have "buf' ! i = buf1 ! i" using r(4) that other by (metis option.distinct(1))
    then show ?thesis using that buf1 by simp
  qed
  have "buf1 ! i = buf ! i" if "i < unat sz" "patches (bp_heap s) p (ucast start + of_nat i :: 'w word) = None" for i
    using that buf1 by simp
  then show ?case
    unfolding step using r here by (intro exI [of _ buf']) (auto simp del: remove_breakpoints_loop.simps)
qed simp

lemma view_patches:
  fixes s :: "('k, 'w::len, 'a) server"
  assumes ok: "bpm_ok (bpm s) (bp_heap s)"
  shows "p \<in> set (breakpoints (bpm s)) \<Longrightarrow> patches (bp_heap s) p a = Some x \<Longrightarrow> view s m a = x"
    and "\<forall>p \<in> set (breakpoints (bpm s)). patches (bp_heap s) p a = None \<Longrightarrow> view s m a = m a"
proof -
  assume "p \<in> set (breakpoints (bpm s))" and "patches (bp_heap s) p a = Some x"
  then show "view s m a = x"
    using by_addr.lookup_iff [OF ok, of a p]
    by (auto simp: view_def patches_def patched_def split: option.splits if_splits)
next
  assume n: "\<forall>p \<in> set (breakpoints (bpm s)). patches (bp_heap s) p a = None"
  have "patched (bp_heap s) (bpm s) a = None"
  proof (cases "breakpoint_by_addr (bpm s) a")
    case (Some p)
    then obtain b where "p \<in> set (breakpoints (bpm s))" "bp_heap s p = Some b" "addr_key b = a"
      using by_addr.lookup_member [OF ok Some] by blast
    then show ?thesis using n Some by (auto simp: patched_def patches_def)
  qed (simp add: patched_def)
  then show "view s m a = m a" by (simp add: view_def)
qed

lemma server_ok_bpm: "server_ok s \<Longrightarrow> bpm_ok (bpm s) (bp_heap s)"
  by (simp add: server_ok_def managers_ok_def)

text \<open>\<open>server_ptrace_read_memory\<close> returns the view.\<close>

text \<open>Seen through the breakpoints of the manager, a block of memory is the block of the view.\<close>

lemma remove_breakpoints_view:
  fixes s :: "('k, 'w::len, 'r, 'f, 'z) x86_server" and t :: "('k, 'w, 'r, 'f, 'z) x86_server"
  assumes w: "LENGTH('w) \<le> 64" and ok: "server_ok s" and can: "addrs_canonical s" and t: "bp_heap t = bp_heap s"
    and n: "unat start + unat sz < 2 ^ LENGTH('w)"
  shows "remove_breakpoints_loop t start sz (breakpoints (bpm s)) (load m (ucast start) (unat sz)) =
    Some (load (view s m) (ucast start) (unat sz))"
proof -
  let ?P = "\<lambda>p i. patches (bp_heap t) p (ucast start + of_nat i :: 'w word)"
  have bpm: "bpm_ok (bpm s) (bp_heap s)" by (rule server_ok_bpm [OF ok])
  have "\<exists>buf'. remove_breakpoints_loop t start sz (breakpoints (bpm s)) (load m (ucast start) (unat sz)) = Some buf' \<and>
    length buf' = unat sz \<and> (\<forall>i < unat sz. (\<forall>p \<in> set (breakpoints (bpm s)). \<forall>x. ?P p i = Some x \<longrightarrow> buf' ! i = x) \<and>
       ((\<forall>p \<in> set (breakpoints (bpm s)). ?P p i = None) \<longrightarrow> buf' ! i = load m (ucast start) (unat sz) ! i))"
  proof (rule remove_breakpoints_loop [OF w n])
    show "\<exists>b. bp_heap t p = Some b \<and> \<not> is_hardware_bpt b \<and> canonical TYPE('w) (bp_address b)"
      if "p \<in> set (breakpoints (bpm s))" for p
      using ok can that t
      by (fastforce simp: server_ok_def managers_ok_def bpm_ok_def bpm_ids_ok_def addrs_canonical_def bp_kind_ok_def)
    show "p = q" if "p \<in> set (breakpoints (bpm s))" "q \<in> set (breakpoints (bpm s))"
      "bp_heap t p = Some b" "bp_heap t q = Some c" "(addr_key b :: 'w word) = addr_key c" for p q b c
      using by_addr.key_unique [OF bpm that(1,2)] that(3-5) t by simp
  qed simp
  then obtain buf' where r: "remove_breakpoints_loop t start sz (breakpoints (bpm s)) (load m (ucast start) (unat sz)) = Some buf'"
    "length buf' = unat sz" "\<And>i p x. i < unat sz \<Longrightarrow> p \<in> set (breakpoints (bpm s)) \<Longrightarrow> ?P p i = Some x \<Longrightarrow> buf' ! i = x"
    "\<And>i. i < unat sz \<Longrightarrow> \<forall>p \<in> set (breakpoints (bpm s)). ?P p i = None \<Longrightarrow> buf' ! i = m (ucast start + of_nat i)" by auto
  have "buf' ! i = load (view s m) (ucast start) (unat sz) ! i" if i: "i < unat sz" for i
  proof (cases "\<forall>p \<in> set (breakpoints (bpm s)). ?P p i = None")
    case True
    then show ?thesis using r(4) i view_patches(2) [OF bpm] t by simp
  next
    case False
    then obtain p x where p: "p \<in> set (breakpoints (bpm s))" "?P p i = Some x" by auto
    then show ?thesis using r(3) [OF i p] view_patches(1) [OF bpm p(1)] i t by simp
  qed
  then have "buf' = load (view s m) (ucast start) (unat sz)" using r(2) by (intro nth_equalityI) simp_all
  then show ?thesis using r(1) by simp
qed

lemma read_memory_view:
  fixes s :: "('k, 'w::len, 'r, 'f, 'z) x86_server"
  assumes bw: "byte_words TYPE('w)" and ok: "server_ok s" and can: "addrs_canonical s"
    and tm: "target_memory K (inf_pid (inferior s)) (mem_fd (inferior s)) A good M" and k: "good (kern s)"
    and n: "unat start + unat sz < 2 ^ LENGTH('w)" and map: "span (ucast start) (unat sz) \<subseteq> A"
  shows "\<exists>k'. read_memory K s start sz = Some (COMMAND_ERROR_NONE, s\<lparr> kern := k' \<rparr>,
      load (view s (M (kern s))) (ucast start) (unat sz)) \<and> good k' \<and> M k' = M (kern s)"
proof -
  have w: "LENGTH('w) \<le> 64" using bw by (simp add: byte_words_def)
  obtain k' where rd: "priv_server_ptrace_read_memory K s start sz =
      Some (COMMAND_ERROR_NONE, s\<lparr> kern := k' \<rparr>, load (M (kern s)) (ucast start) (unat sz))"
    "good k'" "M k' = M (kern s)"
    using raw_read [OF tm k map] by blast
  let ?s = "mono_debugger_breakpoint_manager_lock (s\<lparr> kern := k' \<rparr>)"
  have "remove_breakpoints_loop ?s start sz (breakpoints (bpm s)) (load (M (kern s)) (ucast start) (unat sz)) =
      Some (load (view s (M (kern s))) (ucast start) (unat sz))"
    by (rule remove_breakpoints_view [OF w ok can _ n]) simp
  then have "read_memory K s start sz = Some (COMMAND_ERROR_NONE, s\<lparr> kern := k' \<rparr>,
      load (view s (M (kern s))) (ucast start) (unat sz))"
    using rd(1)
    by (simp add: read_memory_def server_ptrace_read_memory_def Let_def
        x86_arch_remove_breakpoints_from_target_memory_def mono_debugger_breakpoint_manager_get_breakpoints_def)
  then show ?thesis using rd by blast
qed

section \<open>The runtime's breakpoint table\<close>

lemma scan_bitfield_cases:
  assumes "n \<le> length bf"
  obtains (found) j where "scan_bitfield bf i n = Some (Some j)" "i \<le> j" "j < n" "bf ! j = 0"
      "\<And>l. i \<le> l \<Longrightarrow> l < j \<Longrightarrow> bf ! l \<noteq> 0"
  | (full) "scan_bitfield bf i n = Some None" "\<And>l. i \<le> l \<Longrightarrow> l < n \<Longrightarrow> bf ! l \<noteq> 0"
proof -
  have "(\<exists>j. scan_bitfield bf i n = Some (Some j) \<and> i \<le> j \<and> j < n \<and> bf ! j = 0 \<and> (\<forall>l. i \<le> l \<and> l < j \<longrightarrow> bf ! l \<noteq> 0)) \<or>
      scan_bitfield bf i n = Some None \<and> (\<forall>l. i \<le> l \<and> l < n \<longrightarrow> bf ! l \<noteq> 0)"
    using assms
  proof (induction bf i n rule: scan_bitfield.induct)
    case (1 bf i n)
    show ?case
    proof (cases "i < n \<and> bf ! i \<noteq> 0")
      case True
      have eq: "scan_bitfield bf i n = scan_bitfield bf (Suc i) n"
        using True 1(2) by (subst scan_bitfield.simps) simp
      have "(\<exists>j. scan_bitfield bf (Suc i) n = Some (Some j) \<and> Suc i \<le> j \<and> j < n \<and> bf ! j = 0 \<and>
            (\<forall>l. Suc i \<le> l \<and> l < j \<longrightarrow> bf ! l \<noteq> 0)) \<or>
          scan_bitfield bf (Suc i) n = Some None \<and> (\<forall>l. Suc i \<le> l \<and> l < n \<longrightarrow> bf ! l \<noteq> 0)"
        using True 1(2) by (intro "1.IH") auto
      moreover have "(\<forall>l. i \<le> l \<and> l < m \<longrightarrow> bf ! l \<noteq> 0)" if "\<forall>l. Suc i \<le> l \<and> l < m \<longrightarrow> bf ! l \<noteq> 0" for m
        using True that by (metis Suc_leI le_neq_implies_less)
      ultimately show ?thesis unfolding eq by (elim disjE exE conjE) (auto dest: Suc_leD)
    next
      case False
      then show ?thesis using 1(2) by (subst (1 2) scan_bitfield.simps) auto
    qed
  qed
  then show thesis using that by blast
qed

text \<open>The runtime's description is consistent: the bitfield has an entry per slot, and slots are as
  large as a word.\<close>

definition table_ok :: "('k, 'w::len, 'a) server \<Rightarrow> bool" where
  "table_ok s \<longleftrightarrow> (\<forall>rt. mono_runtime s = Some rt \<longrightarrow>
     length (breakpoint_table_bitfield rt) = unat (breakpoint_table_size rt) \<and> breakpoint_table_size rt \<noteq> 0 \<and>
     address_size rt = of_nat (sizeof_long TYPE('w)) \<and>
     sizeof_long TYPE('w) * unat (breakpoint_table_size rt) < 2 ^ 32)"

definition slot_area :: "MonoRuntimeInfo \<Rightarrow> nat \<Rightarrow> 'w::len word set" where
  "slot_area rt i =
     span (ucast (breakpoint_info_area rt + of_nat (2 * sizeof_long TYPE('w) * i))) (sizeof_long TYPE('w)) \<union>
     span (ucast (breakpoint_info_area rt + of_nat (2 * sizeof_long TYPE('w) * i) + of_nat (sizeof_long TYPE('w))))
       (sizeof_long TYPE('w)) \<union>
     span (ucast (breakpoint_table rt + of_nat (sizeof_long TYPE('w) * i))) (sizeof_long TYPE('w))"

definition runtime_area :: "('k, 'w::len, 'a) server \<Rightarrow> 'w word set" where
  "runtime_area s = (case mono_runtime s of None \<Rightarrow> {}
     | Some rt \<Rightarrow> \<Union>i \<in> {..<unat (breakpoint_table_size rt)}. slot_area rt i)"

text \<open>The runtime's description up to the bits that say which slots are taken.\<close>

definition same_table :: "('k, 'w::len, 'a) server \<Rightarrow> ('k, 'w, 'a) server \<Rightarrow> bool" where
  "same_table s s' \<longleftrightarrow> table_ok s' = table_ok s \<and> runtime_area s' = (runtime_area s :: 'w word set) \<and>
     map_option breakpoint_table_size (mono_runtime s') = map_option breakpoint_table_size (mono_runtime s)"

lemma same_table_eq: "mono_runtime s' = mono_runtime s \<Longrightarrow> same_table s s'"
  by (simp add: same_table_def table_ok_def runtime_area_def)

lemma same_table_trans: "same_table s s' \<Longrightarrow> same_table s' s'' \<Longrightarrow> same_table s s''"
  by (simp add: same_table_def)

lemma same_table_bitfield:
  assumes "mono_runtime s = Some rt"
    and "mono_runtime s' = Some (rt\<lparr> breakpoint_table_bitfield := (breakpoint_table_bitfield rt)[i := v] \<rparr>)"
  shows "same_table s s'"
  using assms by (auto simp: same_table_def table_ok_def runtime_area_def slot_area_def)

text \<open>\<open>PTRACE_POKEDATA\<close> of a mapped word.\<close>

lemma poke_word_ok:
  fixes s :: "('k, 'w::len, 'a) server"
  assumes tm: "target_memory K (inf_pid (inferior s)) (mem_fd (inferior s)) A good M" and k: "good (kern s)"
    and map: "span (ucast addr) (sizeof_long TYPE('w)) \<subseteq> A"
  obtains k' where "server_ptrace_poke_word K s addr v = (COMMAND_ERROR_NONE, s\<lparr> kern := k' \<rparr>)" "good k'"
    "\<And>x. x \<notin> span (ucast addr) (sizeof_long TYPE('w)) \<Longrightarrow> M k' x = M (kern s) x"
proof -
  obtain k' where "ptrace_write_d K (kern s) (inf_pid (inferior s)) (ucast addr) v = (Inr (), k')" "good k'"
    "M k' = store (M (kern s)) (ucast addr) (le_bytes (sizeof_long TYPE('w)) v)"
    using target_memory_write [OF tm k map] by blast
  then show thesis using that [of k'] by (simp add: server_ptrace_poke_word_def store_outside)
qed

lemma slot_area_sub: "i < unat (breakpoint_table_size rt) \<Longrightarrow> mono_runtime s = Some rt \<Longrightarrow> slot_area rt i \<subseteq> runtime_area s"
  by (auto simp: runtime_area_def)

lemma find_slot_cases:
  assumes "table_ok s" and "mono_runtime s = Some rt"
  obtains (found) i where "find_breakpoint_table_slot rt =
        Some (int i, rt\<lparr> breakpoint_table_bitfield := (breakpoint_table_bitfield rt)[i := 1] \<rparr>)"
      "0 < i" "i < unat (breakpoint_table_size rt)" "breakpoint_table_bitfield rt ! i = 0"
  | (full) "find_breakpoint_table_slot rt = Some (-1, rt)"
      "\<And>i. 0 < i \<Longrightarrow> i < unat (breakpoint_table_size rt) \<Longrightarrow> breakpoint_table_bitfield rt ! i \<noteq> 0"
proof -
  have len: "unat (breakpoint_table_size rt) \<le> length (breakpoint_table_bitfield rt)"
    using assms by (simp add: table_ok_def)
  show thesis
  proof (cases rule: scan_bitfield_cases [OF len, of 1, case_names found full])
    case (found j)
    then show ?thesis using that(1) [of j] by (simp add: find_breakpoint_table_slot_def)
  next
    case full
    then show ?thesis using that(2) by (simp add: find_breakpoint_table_slot_def)
  qed
qed

text \<open>Registering a breakpoint with the runtime writes only to its table; or the table is full.\<close>

lemma runtime_enable_mem:
  fixes s :: "('k, 'w::len, 'r, 'f, 'z) x86_server"
  assumes tm: "target_memory K (inf_pid (inferior s)) (mem_fd (inferior s)) A good M" and k: "good (kern s)"
    and t: "table_ok s" "mono_runtime s = Some rt" and map: "runtime_area s \<subseteq> A" and b: "bp_heap s p = Some b"
  shows "\<exists>r s'. runtime_info_enable_breakpoint K s p = Some (r, s') \<and> good (kern s') \<and> same_table s s' \<and>
    (\<forall>x. x \<notin> runtime_area s \<longrightarrow> M (kern s') x = M (kern s) x) \<and>
    (r = COMMAND_ERROR_NONE \<and> (\<exists>y. y < unat (breakpoint_table_size rt) \<and>
         bp_heap s' = (bp_heap s)(p \<mapsto> b\<lparr> runtime_table_slot := int y \<rparr>)) \<or>
     r = COMMAND_ERROR_INTERNAL_ERROR \<and> s' = s)"
proof (cases rule: find_slot_cases [OF t, case_names found full])
  case full
  then show ?thesis using t k same_table_eq [of s s]
    by (intro exI [of _ COMMAND_ERROR_INTERNAL_ERROR] exI [of _ s]) (simp add: runtime_info_enable_breakpoint_def)
next
  case (found i)
  let ?W = "sizeof_long TYPE('w)"
  let ?rt = "rt\<lparr> breakpoint_table_bitfield := (breakpoint_table_bitfield rt)[i := 1] \<rparr>"
  let ?t = "breakpoint_info_area rt + of_nat (2 * ?W * i)" and ?x = "breakpoint_table rt + of_nat (?W * i)"
  define s1 where "s1 = bp_set p (b\<lparr> runtime_table_slot := int i \<rparr>) (s\<lparr> mono_runtime := Some ?rt \<rparr>)"
  have f1: "kern s1 = kern s" "inferior s1 = inferior s" by (simp_all add: s1_def)
  have area: "slot_area rt i \<subseteq> runtime_area s" by (rule slot_area_sub [OF found(3) t(2)])
  then have maps: "span (ucast ?t) ?W \<subseteq> A" "span (ucast (?t + of_nat ?W)) ?W \<subseteq> A" "span (ucast ?x) ?W \<subseteq> A"
    using map by (auto simp: slot_area_def)
  have tm': "target_memory K (inf_pid (inferior (s1\<lparr> kern := k' \<rparr>))) (mem_fd (inferior (s1\<lparr> kern := k' \<rparr>))) A good M" for k'
    using tm f1 by simp
  obtain k1 where k1: "server_ptrace_poke_word K s1 ?t (ucast (bp_address b)) = (COMMAND_ERROR_NONE, s1\<lparr> kern := k1 \<rparr>)" "good k1"
    "\<And>x. x \<notin> span (ucast ?t) ?W \<Longrightarrow> M k1 x = M (kern s) x"
    using poke_word_ok [of K s1 A good M ?t "ucast (bp_address b)"] tm k maps f1 by metis
  obtain k2 where k2: "server_ptrace_poke_word K (s1\<lparr> kern := k1 \<rparr>) (?t + of_nat ?W) (scast (saved_insn b)) =
      (COMMAND_ERROR_NONE, s1\<lparr> kern := k2 \<rparr>)" "good k2"
    "\<And>x. x \<notin> span (ucast (?t + of_nat ?W)) ?W \<Longrightarrow> M k2 x = M k1 x"
    using poke_word_ok [OF tm' [of k1] _ maps(2), of "scast (saved_insn b)"] k1(2) by auto
  obtain k3 where k3: "server_ptrace_poke_word K (s1\<lparr> kern := k2 \<rparr>) ?x (word_of_int (int i)) =
      (COMMAND_ERROR_NONE, s1\<lparr> kern := k3 \<rparr>)" "good k3"
    "\<And>x. x \<notin> span (ucast ?x) ?W \<Longrightarrow> M k3 x = M k2 x"
    using poke_word_ok [OF tm' [of k2] _ maps(3), of "word_of_int (int i)"] k2(2) by auto
  have "bp_heap (s\<lparr> mono_runtime := Some ?rt \<rparr>) p = Some b" using b by simp
  then have "runtime_info_enable_breakpoint K s p = Some (COMMAND_ERROR_NONE, s1\<lparr> kern := k3 \<rparr>)"
    using t(2) found(1) k1(1) k2(1) k3(1)
    by (simp add: runtime_info_enable_breakpoint_def s1_def)
  moreover have "M k3 x = M (kern s) x" if "x \<notin> runtime_area s" for x
  proof -
    have "x \<notin> slot_area rt i" using that area by blast
    then show ?thesis using k1(3) k2(3) k3(3) by (simp add: slot_area_def)
  qed
  moreover have "same_table s (s1\<lparr> kern := k3 \<rparr>)"
    by (rule same_table_bitfield [OF t(2), where i = i and v = 1]) (simp add: s1_def)
  moreover have "bp_heap (s1\<lparr> kern := k3 \<rparr>) = (bp_heap s)(p \<mapsto> b\<lparr> runtime_table_slot := int i \<rparr>)"
    by (simp add: s1_def)
  ultimately show ?thesis using k3(2) found(2,3)
    by (intro exI [of _ COMMAND_ERROR_NONE] exI [of _ "s1\<lparr> kern := k3 \<rparr>"]) auto
qed

section \<open>Enabling a software breakpoint\<close>

lemma table_ok_pos: "table_ok s \<Longrightarrow> mono_runtime s = Some rt \<Longrightarrow> 0 < unat (breakpoint_table_size rt)"
  by (simp add: table_ok_def unat_gt_0)

text \<open>The hypotheses under which the target's memory behaves: the kernel's part, and what the
  server knows of the runtime's table, which must be mapped.\<close>

definition target_ready ::
  "('k, 'w::len, 'r, 'f) kernel \<Rightarrow> ('k, 'w, 'a) server \<Rightarrow> 'w word set \<Rightarrow> ('k \<Rightarrow> bool) \<Rightarrow> ('k \<Rightarrow> 'w mem) \<Rightarrow> bool" where
  "target_ready K s A good M \<longleftrightarrow>
     target_memory K (inf_pid (inferior s)) (mem_fd (inferior s)) A good M \<and> good (kern s) \<and>
     table_ok s \<and> runtime_area s \<subseteq> A \<and> addrs_canonical s"

text \<open>An address where a breakpoint can go: its word is mapped, it is not the last byte of the address
  space and not in the runtime's table.\<close>

definition code_byte :: "('k, 'w::len, 'a) server \<Rightarrow> 'w word set \<Rightarrow> guint64 \<Rightarrow> bool" where
  "code_byte s A a \<longleftrightarrow> unat a + 1 < 2 ^ LENGTH('w) \<and> ucast a \<in> A \<and>
     span (ucast a) (sizeof_long TYPE('w)) \<subseteq> A \<and> (ucast a :: 'w word) \<notin> runtime_area s"

lemma write_byte_ok:
  fixes s :: "('k, 'w::len, 'a) server"
  assumes bw: "byte_words TYPE('w)"
    and tm: "target_memory K (inf_pid (inferior s)) (mem_fd (inferior s)) A good M" and k: "good (kern s)"
    and map: "span (ucast addr) (sizeof_long TYPE('w)) \<subseteq> A"
  obtains k' where "server_ptrace_write_memory K s addr [x] = Some (COMMAND_ERROR_NONE, s\<lparr> kern := k' \<rparr>)" "good k'"
    "M k' = (M (kern s))(ucast addr := x)"
proof -
  have W: "0 < sizeof_long TYPE('w)" by (rule byte_words_pos [OF bw])
  have "1 + sizeof_long TYPE('w) \<le> 2 * sizeof_long TYPE('w)" using W by simp
  also have "\<dots> \<le> 2 ^ LENGTH('w)"
  proof -
    have "2 * sizeof_long TYPE('w) \<le> LENGTH('w)" using bw by (simp add: byte_words_def)
    then show ?thesis by (simp add: less_imp_le order_le_less_trans)
  qed
  finally have "length [x] + sizeof_long TYPE('w) \<le> 2 ^ LENGTH('w)" by simp
  moreover have "written_span (ucast addr) (length [x]) \<subseteq> A"
    using map written_span_tail [of 1 "ucast addr :: 'w word"] W by simp
  ultimately show thesis
    using write_memory [OF bw tm k, of "[x]" addr] that by (auto simp: store_single)
qed

text \<open>Entering the breakpoint into the runtime's table, when there is a runtime.\<close>

lemma enable_runtime_mem:
  fixes s :: "('k, 'w::len, 'r, 'f, 'z) x86_server"
  assumes tm: "target_memory K (inf_pid (inferior s)) (mem_fd (inferior s)) A good M" "good (kern s)" "table_ok s" "runtime_area s \<subseteq> A"
    and b: "bp_heap s p = Some b"
  shows "\<exists>r s'. (if mono_runtime s \<noteq> None then runtime_info_enable_breakpoint K s p else Some (COMMAND_ERROR_NONE, s)) = Some (r, s') \<and>
    good (kern s') \<and> same_table s s' \<and> (\<forall>x. x \<notin> runtime_area s \<longrightarrow> M (kern s') x = M (kern s) x) \<and> inferior s' = inferior s \<and>
    (r = COMMAND_ERROR_NONE \<and> (\<exists>y. bp_heap s' = (bp_heap s)(p \<mapsto> b\<lparr> runtime_table_slot := y \<rparr>) \<and>
        (\<forall>rt. mono_runtime s = Some rt \<longrightarrow> 0 \<le> y \<and> nat y < unat (breakpoint_table_size rt))) \<or>
     r \<noteq> COMMAND_ERROR_NONE \<and> mono_runtime s \<noteq> None)"
proof (cases "mono_runtime s")
  case None
  then show ?thesis using tm(2) same_table_eq [of s s] b
    by (intro exI [of _ COMMAND_ERROR_NONE] exI [of _ s]) (auto intro!: exI [of _ "runtime_table_slot b"])
next
  case (Some rt)
  from runtime_enable_mem [OF tm(1-3) Some tm(4) b]
  obtain r s3 where e: "runtime_info_enable_breakpoint K s p = Some (r, s3)" "good (kern s3)" "same_table s s3"
    "\<forall>x. x \<notin> runtime_area s \<longrightarrow> M (kern s3) x = M (kern s) x"
    "r = COMMAND_ERROR_NONE \<and> (\<exists>y. y < unat (breakpoint_table_size rt) \<and>
       bp_heap s3 = (bp_heap s)(p \<mapsto> b\<lparr> runtime_table_slot := int y \<rparr>)) \<or>
     r = COMMAND_ERROR_INTERNAL_ERROR \<and> s3 = s" by auto
  have "inferior s3 = inferior s" using touches_runtime_enable [OF e(1)] b by (simp add: touches_only_def)
  then show ?thesis using e Some
    by (intro exI [of _ r] exI [of _ s3]) (auto; metis of_nat_0_le_iff nat_int)
qed

lemma enable_sw_reads:
  fixes s :: "('k, 'w::len, 'r, 'f, 'z) x86_server"
  assumes bw: "byte_words TYPE('w)" and ok: "server_ok s" and ready: "target_ready K s A good M"
    and b: "bp_heap s p = Some b" "\<not> enabled b" "dr_index b < 0" and a: "code_byte s A (bp_address b)"
  obtains s2 where "bp_heap s2 = (bp_heap s)(p \<mapsto> b\<lparr> saved_insn := view s (M (kern s)) (addr_key b) \<rparr>)"
    "inferior s2 = inferior s" "mono_runtime s2 = mono_runtime s" "good (kern s2)" "M (kern s2) = M (kern s)"
    "x86_arch_enable_breakpoint rw K s p = Option.bind
      (if mono_runtime s2 \<noteq> None then runtime_info_enable_breakpoint K s2 p else Some (COMMAND_ERROR_NONE, s2)) (\<lambda>(result, s).
      if result \<noteq> COMMAND_ERROR_NONE then Some (result, s)
      else Option.bind (server_ptrace_write_memory K s (bp_address b) [0xcc]) (\<lambda>(result, s).
        if result \<noteq> COMMAND_ERROR_NONE then Some (result, s) else Some (COMMAND_ERROR_NONE, s)))"
proof -
  have tm: "target_memory K (inf_pid (inferior s)) (mem_fd (inferior s)) A good M" "good (kern s)" "addrs_canonical s"
    using ready by (simp_all add: target_ready_def)
  have am: "canonical TYPE('w) (bp_address b)"
    "unat (bp_address b) + unat (1 :: guint32) < 2 ^ LENGTH('w)" "span (addr_key b :: 'w word) (unat (1 :: guint32)) \<subseteq> A"
    using a by (auto simp: code_byte_def canonical_def)
  have cast: "ucast (ucast (bp_address b) :: 'w word) = bp_address b"
    using ucast_ucast_canonical [OF am(1)] bw by (simp add: byte_words_def)
  let ?x = "view s (M (kern s)) (addr_key b)"
  obtain k1 where rd: "read_memory K s (bp_address b) 1 = Some (COMMAND_ERROR_NONE, s\<lparr> kern := k1 \<rparr>, [?x])"
    "good k1" "M k1 = M (kern s)"
    using read_memory_view [OF bw ok tm(3,1,2) am(2,3)] by auto
  show thesis
    by (rule that [of "bp_set p (b\<lparr> saved_insn := ?x \<rparr>) (s\<lparr> kern := k1 \<rparr>)"])
      (use b rd in \<open>simp_all add: x86_arch_enable_breakpoint_def Let_def cast cong: if_cong\<close>)
qed

lemma enable_sw_mem:
  fixes s :: "('k, 'w::len, 'r, 'f, 'z) x86_server"
  assumes bw: "byte_words TYPE('w)" and ok: "server_ok s" and ready: "target_ready K s A good M"
    and b: "bp_heap s p = Some b" "\<not> enabled b" "dr_index b < 0" and a: "code_byte s A (bp_address b)"
  shows "\<exists>r s'. x86_arch_enable_breakpoint rw K s p = Some (r, s') \<and> good (kern s') \<and> same_table s s' \<and>
    (r = COMMAND_ERROR_NONE \<and>
       (\<exists>y. bp_heap s' = (bp_heap s)(p \<mapsto> b\<lparr> saved_insn := view s (M (kern s)) (addr_key b), runtime_table_slot := y \<rparr>) \<and>
          (\<forall>rt. mono_runtime s = Some rt \<longrightarrow> 0 \<le> y \<and> nat y < unat (breakpoint_table_size rt))) \<and>
       M (kern s') (addr_key b) = 0xcc \<and>
       (\<forall>x. x \<notin> runtime_area s \<longrightarrow> x \<noteq> addr_key b \<longrightarrow> M (kern s') x = M (kern s) x) \<or>
     r \<noteq> COMMAND_ERROR_NONE \<and> mono_runtime s \<noteq> None \<and> (\<forall>x. x \<notin> runtime_area s \<longrightarrow> M (kern s') x = M (kern s) x))"
proof -
  have tm: "target_memory K (inf_pid (inferior s)) (mem_fd (inferior s)) A good M" "table_ok s" "runtime_area s \<subseteq> A"
    using ready by (simp_all add: target_ready_def)
  have am: "span (addr_key b) (sizeof_long TYPE('w)) \<subseteq> A" "addr_key b \<notin> runtime_area s" using a by (auto simp: code_byte_def)
  let ?x = "view s (M (kern s)) (addr_key b)"
  obtain s2 where f2: "bp_heap s2 = (bp_heap s)(p \<mapsto> b\<lparr> saved_insn := ?x \<rparr>)" "inferior s2 = inferior s" "mono_runtime s2 = mono_runtime s"
    and k2: "good (kern s2)" "M (kern s2) = M (kern s)"
    and unf: "x86_arch_enable_breakpoint rw K s p = Option.bind
      (if mono_runtime s2 \<noteq> None then runtime_info_enable_breakpoint K s2 p else Some (COMMAND_ERROR_NONE, s2)) (\<lambda>(result, s).
      if result \<noteq> COMMAND_ERROR_NONE then Some (result, s)
      else Option.bind (server_ptrace_write_memory K s (bp_address b) [0xcc]) (\<lambda>(result, s).
        if result \<noteq> COMMAND_ERROR_NONE then Some (result, s) else Some (COMMAND_ERROR_NONE, s)))"
    by (rule enable_sw_reads [OF bw ok ready b a, where rw = rw])
  have st2: "same_table s s2" by (rule same_table_eq) (simp add: f2)
  let ?rt = "if mono_runtime s2 \<noteq> None then runtime_info_enable_breakpoint K s2 p else Some (COMMAND_ERROR_NONE, s2)"
  have "target_memory K (inf_pid (inferior s2)) (mem_fd (inferior s2)) A good M" "good (kern s2)" "table_ok s2" "runtime_area s2 \<subseteq> A"
    using tm k2 f2 st2 by (simp_all add: same_table_def)
  from enable_runtime_mem [OF this, of p "b\<lparr> saved_insn := ?x \<rparr>"]
  obtain r3 s3 where s3: "?rt = Some (r3, s3)" "good (kern s3)" "same_table s2 s3"
    "\<And>x. x \<notin> runtime_area s \<Longrightarrow> M (kern s3) x = M (kern s) x" "inferior s3 = inferior s"
    "r3 = COMMAND_ERROR_NONE \<and> (\<exists>y. bp_heap s3 = (bp_heap s2)(p \<mapsto> b\<lparr> saved_insn := ?x, runtime_table_slot := y \<rparr>) \<and>
        (\<forall>rt. mono_runtime s2 = Some rt \<longrightarrow> 0 \<le> y \<and> nat y < unat (breakpoint_table_size rt))) \<or>
     r3 \<noteq> COMMAND_ERROR_NONE \<and> mono_runtime s2 \<noteq> None"
    using st2 f2 k2(2) by (fastforce simp: same_table_def)
  have st3: "same_table s s3" by (rule same_table_trans [OF st2 s3(3)])
  show ?thesis
  proof (cases "r3 = COMMAND_ERROR_NONE")
    case False
    then show ?thesis using unf s3 st3 f2 by (intro exI [of _ r3] exI [of _ s3]) simp
  next
    case True
    have "target_memory K (inf_pid (inferior s3)) (mem_fd (inferior s3)) A good M" using tm(1) s3(5) by simp
    from write_byte_ok [OF bw this s3(2) am(1), of "0xcc"]
    obtain k4 where w: "server_ptrace_write_memory K s3 (bp_address b) [0xcc] = Some (COMMAND_ERROR_NONE, s3\<lparr> kern := k4 \<rparr>)"
      "good k4" "M k4 = (M (kern s3))(addr_key b := 0xcc)" by blast
    have ret: "x86_arch_enable_breakpoint rw K s p = Some (COMMAND_ERROR_NONE, s3\<lparr> kern := k4 \<rparr>)"
      using unf s3(1) True w(1) by simp
    have st4: "same_table s (s3\<lparr> kern := k4 \<rparr>)" by (rule same_table_trans [OF st3 same_table_eq]) simp
    obtain y where y: "bp_heap s3 = (bp_heap s2)(p \<mapsto> b\<lparr> saved_insn := ?x, runtime_table_slot := y \<rparr>)"
      "\<forall>rt. mono_runtime s2 = Some rt \<longrightarrow> 0 \<le> y \<and> nat y < unat (breakpoint_table_size rt)"
      using s3(6) True by blast
    show ?thesis
      using ret st4 w(2,3) y s3(4) f2 am(2)
      by (intro exI [of _ COMMAND_ERROR_NONE] exI [of _ "s3\<lparr> kern := k4 \<rparr>"]) (auto intro!: exI [of _ y])
  qed
qed

section \<open>Disabling a software breakpoint\<close>

text \<open>What \<open>runtime_info_disable_breakpoint\<close> does to memory, in either architecture: at most it
  clears the breakpoint's entry of the table.\<close>

definition slot_ok :: "('k, 'w::len, 'a) server \<Rightarrow> BreakpointInfo \<Rightarrow> bool" where
  "slot_ok s b \<longleftrightarrow> (\<forall>rt. mono_runtime s = Some rt \<longrightarrow>
     0 \<le> runtime_table_slot b \<and> nat (runtime_table_slot b) < unat (breakpoint_table_size rt))"

definition releases ::
  "('k, 'w::len, 'a) breakpoint_fn \<Rightarrow> ('k, 'w, 'r, 'f) kernel \<Rightarrow> 'w word set \<Rightarrow> ('k \<Rightarrow> bool) \<Rightarrow> ('k \<Rightarrow> 'w mem) \<Rightarrow> bool" where
  "releases rt K A good M \<longleftrightarrow> (\<forall>s p b.
     target_memory K (inf_pid (inferior s)) (mem_fd (inferior s)) A good M \<and> good (kern s) \<and>
     table_ok s \<and> runtime_area s \<subseteq> A \<and> mono_runtime s \<noteq> None \<and> bp_heap s p = Some b \<and> slot_ok s b \<longrightarrow>
     (\<exists>s'. rt s p = Some (COMMAND_ERROR_NONE, s') \<and> good (kern s') \<and> same_table s s' \<and> bp_heap s' = bp_heap s \<and>
        (\<forall>x. x \<notin> runtime_area s \<longrightarrow> M (kern s') x = M (kern s) x)))"

lemma releasesD:
  assumes "releases rt K A good M"
    and "target_memory K (inf_pid (inferior s)) (mem_fd (inferior s)) A good M" "good (kern s)"
    "table_ok s" "runtime_area s \<subseteq> A" "mono_runtime s \<noteq> None" "bp_heap s p = Some b" "slot_ok s b"
  obtains s' where "rt s p = Some (COMMAND_ERROR_NONE, s')" "good (kern s')" "same_table s s'"
    "bp_heap s' = bp_heap s" "\<And>x. x \<notin> runtime_area s \<Longrightarrow> M (kern s') x = M (kern s) x"
  using assms unfolding releases_def by blast

lemma disable_sw_mem:
  fixes s :: "('k, 'w::len, 'r, 'f, 'z) x86_server"
  assumes bw: "byte_words TYPE('w)" and ready: "target_ready K s A good M" and rt: "releases rt K A good M"
    and b: "bp_heap s p = Some b" "enabled b" "dr_index b < 0" "slot_ok s b" and a: "code_byte s A (bp_address b)"
  shows "\<exists>s'. x86_arch_disable_breakpoint rt K s p = Some (COMMAND_ERROR_NONE, s') \<and> good (kern s') \<and>
    same_table s s' \<and> bp_heap s' = bp_heap s \<and> M (kern s') (addr_key b) = saved_insn b \<and>
    (\<forall>x. x \<notin> runtime_area s \<longrightarrow> x \<noteq> addr_key b \<longrightarrow> M (kern s') x = M (kern s) x)"
proof -
  have tm: "target_memory K (inf_pid (inferior s)) (mem_fd (inferior s)) A good M" "good (kern s)"
    "table_ok s" "runtime_area s \<subseteq> A" using ready by (simp_all add: target_ready_def)
  have am: "canonical TYPE('w) (bp_address b)" "span (addr_key b) (sizeof_long TYPE('w)) \<subseteq> A" "addr_key b \<notin> runtime_area s"
    using a by (auto simp: code_byte_def canonical_def)
  have cast: "ucast (ucast (bp_address b) :: 'w word) = bp_address b"
    using ucast_ucast_canonical [OF am(1)] bw by (simp add: byte_words_def)
  obtain k1 where w: "server_ptrace_write_memory K s (bp_address b) [saved_insn b] = Some (COMMAND_ERROR_NONE, s\<lparr> kern := k1 \<rparr>)"
    "good k1" "M k1 = (M (kern s))(addr_key b := saved_insn b)"
    using write_byte_ok [OF bw tm(1,2) am(2)] by blast
  let ?s1 = "s\<lparr> kern := k1 \<rparr>"
  have st1: "same_table s ?s1" by (rule same_table_eq) simp
  have unf: "x86_arch_disable_breakpoint rt K s p =
      Option.bind (if mono_runtime s \<noteq> None then rt ?s1 p else Some (COMMAND_ERROR_NONE, ?s1)) (\<lambda>(result, s).
        if result \<noteq> COMMAND_ERROR_NONE then Some (result, s) else Some (COMMAND_ERROR_NONE, s))"
    using b w(1) by (simp add: x86_arch_disable_breakpoint_def Let_def cast cong: if_cong)
  show ?thesis
  proof (cases "mono_runtime s")
    case None
    then show ?thesis using unf w st1 by (intro exI [of _ ?s1]) auto
  next
    case (Some r)
    have "target_memory K (inf_pid (inferior ?s1)) (mem_fd (inferior ?s1)) A good M" "good (kern ?s1)" "table_ok ?s1"
      "runtime_area ?s1 \<subseteq> A" "mono_runtime ?s1 \<noteq> None" "bp_heap ?s1 p = Some b" "slot_ok ?s1 b"
      using tm w(2) st1 Some b(1,4) by (simp_all add: same_table_def slot_ok_def)
    from releasesD [OF rt this]
    obtain s' where r: "rt ?s1 p = Some (COMMAND_ERROR_NONE, s')" "good (kern s')" "same_table ?s1 s'"
      "bp_heap s' = bp_heap s" "\<And>x. x \<notin> runtime_area s \<Longrightarrow> M (kern s') x = M k1 x"
      using st1 by (auto simp: same_table_def)
    then show ?thesis using unf Some w(3) am(3) same_table_trans [OF st1 r(3)]
      by (intro exI [of _ s']) auto
  qed
qed

section \<open>The invariant\<close>

text \<open>
  Every software breakpoint sits at a byte of mapped code, and while it is enabled that byte
  is an \<open>int 3\<close>.
\<close>

definition planted :: "('k, 'w::len, 'a) server \<Rightarrow> 'w word set \<Rightarrow> 'w mem \<Rightarrow> bool" where
  "planted s A m \<longleftrightarrow> (\<forall>p \<in> set (breakpoints (bpm s)). \<forall>b. bp_heap s p = Some b \<longrightarrow>
     code_byte s A (bp_address b) \<and> slot_ok s b \<and> (enabled b \<longrightarrow> m (addr_key b) = 0xcc))"

definition memory_ok ::
  "('k, 'w::len, 'r, 'f) kernel \<Rightarrow> ('k, 'w, 'r, 'f, 'z) x86_server \<Rightarrow> 'w word set \<Rightarrow> ('k \<Rightarrow> bool) \<Rightarrow> ('k \<Rightarrow> 'w mem) \<Rightarrow> bool" where
  "memory_ok K s A good M \<longleftrightarrow> server_ok s \<and> target_ready K s A good M \<and> planted s A (M (kern s))"

lemma memory_okD:
  assumes "memory_ok K s A good M"
  shows "server_ok s" "target_ready K s A good M" "planted s A (M (kern s))"
    "target_memory K (inf_pid (inferior s)) (mem_fd (inferior s)) A good M" "good (kern s)"
    "table_ok s" "runtime_area s \<subseteq> A" "addrs_canonical s" "bpm_ok (bpm s) (bp_heap s)"
  using assms by (simp_all add: memory_ok_def target_ready_def server_ok_bpm)

lemma plantedD:
  assumes "planted s A m" and "p \<in> set (breakpoints (bpm s))" and "bp_heap s p = Some b"
  shows "code_byte s A (bp_address b)" "slot_ok s b" "enabled b \<Longrightarrow> m (addr_key b) = 0xcc"
  using assms by (auto simp: planted_def)

lemma code_byte_same: "same_table s s' \<Longrightarrow> code_byte s' A a = code_byte s A a"
  by (simp add: code_byte_def same_table_def)

lemma slot_ok_same: "same_table s s' \<Longrightarrow> slot_ok s' b = slot_ok s b"
  by (cases "mono_runtime s"; cases "mono_runtime s'") (auto simp: slot_ok_def same_table_def)

lemma canonical_planted: "planted s A m \<Longrightarrow> addrs_canonical s"
  by (auto simp: planted_def addrs_canonical_def code_byte_def canonical_def)

text \<open>The invariant from one state to the next: the kernel's part is still good, and every member is
  either as it was, at a byte that did not change, or has been looked at.\<close>

lemma memory_ok_step:
  assumes inv: "memory_ok K s A good M" and ok: "server_ok s'" and st: "same_table s s'" "good (kern s')"
    and inf: "inferior s' = inferior s"
    and pl: "\<And>p b. p \<in> set (breakpoints (bpm s')) \<Longrightarrow> bp_heap s' p = Some b \<Longrightarrow>
       code_byte s A (bp_address b) \<and> slot_ok s b \<and> (enabled b \<longrightarrow> M (kern s') (addr_key b) = 0xcc)"
  shows "memory_ok K s' A good M"
proof -
  have "planted s' A (M (kern s'))"
    using pl by (simp add: planted_def code_byte_same [OF st(1)] slot_ok_same [OF st(1)])
  then show ?thesis
    using memory_okD [OF inv] ok st inf canonical_planted
    by (auto simp: memory_ok_def target_ready_def same_table_def)
qed

section \<open>Setting a breakpoint\<close>

text \<open>The abstract state of the software breakpoints: id and number of references by address.\<close>

definition bp_table :: "('k, 'w::len, 'a) server \<Rightarrow> 'w word \<rightharpoonup> gint \<times> gint" where
  "bp_table s a = (case breakpoint_by_addr (bpm s) a of None \<Rightarrow> None
     | Some p \<Rightarrow> map_option (\<lambda>b. (bp_id b, refcount b)) (bp_heap s p))"

definition add_reference :: "gint \<Rightarrow> (gint \<times> gint) option \<Rightarrow> gint \<times> gint" where
  "add_reference next_id e = (case e of None \<Rightarrow> (next_id, 1) | Some (i, n) \<Rightarrow> (i, n + 1))"

text \<open>A manager's lookups only follow pointers to its members, so a change elsewhere in the store is
  not seen.\<close>

lemma by_addr_cong:
  assumes ok: "bpm_ok (bpm s) (bp_heap s)" and same: "\<And>q. q \<in> set (breakpoints (bpm s)) \<Longrightarrow> bp_heap s' q = bp_heap s q"
    and bpm: "bpm s' = bpm s"
  shows "patched (bp_heap s') (bpm s') a = patched (bp_heap s) (bpm s) a" "bp_table s' a = bp_table s a" "view s' = view s"
proof -
  have q: "bp_heap s' q = bp_heap s q" if "breakpoint_by_addr (bpm s) x = Some q" for q x
    using same by_addr.lookup_iff [OF ok] that by blast
  show "patched (bp_heap s') (bpm s') a = patched (bp_heap s) (bpm s) a" "bp_table s' a = bp_table s a"
    using q by (auto simp: patched_def bp_table_def bpm split: option.splits)
  show "view s' = view s" using q by (intro ext) (auto simp: view_def patched_def bpm split: option.splits)
qed

text \<open>A new member at a free address: the tables grow by exactly that address.\<close>

lemma by_addr_insert:
  fixes s :: "('k, 'w::len, 'a) server"
  assumes ok: "bpm_ok (bpm s) (bp_heap s)"
    and same: "\<And>q. q \<in> set (breakpoints (bpm s)) \<Longrightarrow> bp_heap s' q = bp_heap s q"
    and ins: "breakpoint_by_addr (bpm s') = (breakpoint_by_addr (bpm s))(a \<mapsto> p)" "bp_heap s' p = Some b"
  shows "patched (bp_heap s') (bpm s') x =
      (if x = a then (if enabled b then Some (saved_insn b) else None) else patched (bp_heap s) (bpm s) x)"
    "bp_table s' x = (if x = a then Some (bp_id b, refcount b) else bp_table s x)"
proof -
  have q: "bp_heap s' q = bp_heap s q" if "breakpoint_by_addr (bpm s) x = Some q" for q x
    using same by_addr.lookup_iff [OF ok] that by blast
  show "patched (bp_heap s') (bpm s') x =
      (if x = a then (if enabled b then Some (saved_insn b) else None) else patched (bp_heap s) (bpm s) x)"
    "bp_table s' x = (if x = a then Some (bp_id b, refcount b) else bp_table s x)"
    using q ins by (auto simp: patched_def bp_table_def split: option.splits)
qed

text \<open>A change of a member that leaves its key, and what it means for memory, alone.\<close>

lemma upd_member_mem:
  fixes s :: "('k, 'w::len, 'r, 'f, 'z) x86_server"
  assumes inv: "memory_ok K s A good M" and p: "p \<in> set (breakpoints (bpm s))" "bp_heap s p = Some b"
    and b': "same_bp b b'" "enabled b' = enabled b" "saved_insn b' = saved_insn b" "runtime_table_slot b' = runtime_table_slot b"
  defines "s' \<equiv> bp_set p b' s"
  shows "memory_ok K s' A good M" "same_table s s'" "view s' = view s"
    "bp_table s' = (bp_table s)(addr_key b \<mapsto> (bp_id b, refcount b'))"
proof -
  note d = memory_okD [OF inv]
  have a: "breakpoint_by_addr (bpm s) (addr_key b) = Some p" using by_addr.lookup_iff [OF d(9)] p by blast
  have uniq: "x = addr_key b" if "breakpoint_by_addr (bpm s) x = Some p" for x
    using by_addr.lookup_iff [OF d(9), of x p] that p by auto
  show st: "same_table s s'" by (rule same_table_eq) (simp add: s'_def)
  show "view s' = view s"
    using p b' by (intro ext) (auto simp: view_def patched_def s'_def split: option.splits)
  show "bp_table s' = (bp_table s)(addr_key b \<mapsto> (bp_id b, refcount b'))"
  proof
    fix x
    show "bp_table s' x = ((bp_table s)(addr_key b \<mapsto> (bp_id b, refcount b'))) x"
    proof (cases "x = addr_key b")
      case True
      then show ?thesis using a b'(1) by (simp add: bp_table_def s'_def same_bp_def)
    next
      case False
      then have "breakpoint_by_addr (bpm s) x \<noteq> Some p" using uniq by blast
      then show ?thesis using False by (auto simp: bp_table_def s'_def split: option.splits)
    qed
  qed
  have ok: "server_ok s'" unfolding s'_def by (rule server_ok_set [OF d(1) p(2) b'(1)])
  show "memory_ok K s' A good M"
  proof (rule memory_ok_step [OF inv ok st])
    show "good (kern s')" "inferior s' = inferior s" using d by (simp_all add: s'_def)
    show "code_byte s A (bp_address c) \<and> slot_ok s c \<and> (enabled c \<longrightarrow> M (kern s') (addr_key c) = 0xcc)"
      if "q \<in> set (breakpoints (bpm s'))" "bp_heap s' q = Some c" for q c
    proof (cases "q = p")
      case True
      then have "c = b'" using that by (simp add: s'_def)
      then show ?thesis using plantedD [OF d(3) p] b' by (simp add: s'_def slot_ok_def same_bp_def)
    next
      case False
      then show ?thesis using plantedD [OF d(3), of q c] that by (simp add: s'_def)
    qed
  qed
qed

lemma insert_known_mem:
  fixes s :: "('k, 'w::len, 'r, 'f, 'z) x86_server"
  assumes inv: "memory_ok K s A good M"
    and p: "mono_debugger_breakpoint_manager_lookup (bpm s) address = Some p" "bp_heap s p = Some b"
  defines "s' \<equiv> bp_set p (b\<lparr> refcount := refcount b + 1 \<rparr>) s"
  shows "memory_ok K s' A good M" "same_table s s'" "view s' = view s"
    "bp_table s' = (bp_table s)(ucast address \<mapsto> (bp_id b, refcount b + 1))"
proof -
  have "p \<in> set (breakpoints (bpm s))" "addr_key b = (ucast address :: 'w word)"
    using by_addr.lookup_iff [OF memory_okD(9) [OF inv], of "ucast address" p] p by (auto simp: bpm_defs)
  then show "memory_ok K s' A good M" "same_table s s'" "view s' = view s"
    "bp_table s' = (bp_table s)(ucast address \<mapsto> (bp_id b, refcount b + 1))"
    using upd_member_mem [OF inv, of p b "b\<lparr> refcount := refcount b + 1 \<rparr>"] p(2) by (simp_all add: s'_def)
qed

lemma view_cong: "m x = m' x \<Longrightarrow> view s m x = view s m' x"
  by (simp add: view_def split: option.split)

text \<open>What enabling a new breakpoint at \<open>address\<close>, which is not yet a member, leaves of the state.\<close>

definition new_bp_frame ::
  "('k, 'w::len, 'r, 'f, 'z) x86_server \<Rightarrow> 'w word set \<Rightarrow> ('k \<Rightarrow> bool) \<Rightarrow> ('k \<Rightarrow> 'w mem) \<Rightarrow> ('k, 'w, 'r, 'f, 'z) x86_server \<Rightarrow> bool" where
  "new_bp_frame s A good M s2 \<longleftrightarrow> bpm s2 = bpm s \<and> inferior s2 = inferior s \<and> same_table s s2 \<and> good (kern s2) \<and>
     (\<forall>q \<in> set (breakpoints (bpm s)). bp_heap s2 q = bp_heap s q \<and> (\<forall>c. bp_heap s q = Some c \<longrightarrow>
        code_byte s A (bp_address c) \<and> slot_ok s c \<and> (enabled c \<longrightarrow> M (kern s2) (addr_key c) = 0xcc)))"

lemma new_bp_frameD:
  assumes "new_bp_frame s A good M s2"
  shows "bpm s2 = bpm s" "inferior s2 = inferior s" "same_table s s2" "good (kern s2)"
    "q \<in> set (breakpoints (bpm s)) \<Longrightarrow> bp_heap s2 q = bp_heap s q"
    "q \<in> set (breakpoints (bpm s)) \<Longrightarrow> bp_heap s q = Some c \<Longrightarrow>
       code_byte s A (bp_address c) \<and> slot_ok s c \<and> (enabled c \<longrightarrow> M (kern s2) (addr_key c) = 0xcc)"
  using assms by (auto simp: new_bp_frame_def)

lemma with_new_bp_mem:
  fixes s :: "('k, 'w::len, 'r, 'f, 'z) x86_server"
  assumes inv: "memory_ok K s A good M" and b: "bp_id b = last_breakpoint_id s + 1"
  shows "\<And>q. q \<in> set (breakpoints (bpm s)) \<Longrightarrow> q \<noteq> bp_next s" "same_table s (with_new_bp b s)"
    "view (with_new_bp b s) = view s" "target_ready K (with_new_bp b s) A good M" "server_ok (with_new_bp b s)"
proof -
  note d = memory_okD [OF inv]
  note nb = server_ok_new_bp [OF d(1) b]
  show new: "q \<noteq> bp_next s" if "q \<in> set (breakpoints (bpm s))" for q using nb(2) that by auto
  show st: "same_table s (with_new_bp b s)" by (rule same_table_eq) simp
  show "view (with_new_bp b s) = view s" by (rule by_addr_cong(3) [OF d(9)]) (simp_all add: new)
  show "target_ready K (with_new_bp b s) A good M"
    using d st new by (auto simp: target_ready_def same_table_def addrs_canonical_def)
  show "server_ok (with_new_bp b s)" by (rule nb(1))
qed

lemma planted_elsewhere:
  fixes s :: "('k, 'w::len, 'r, 'f, 'z) x86_server"
  assumes inv: "memory_ok K s A good M" and new: "mono_debugger_breakpoint_manager_lookup (bpm s) address = None"
    and q: "q \<in> set (breakpoints (bpm s))" "bp_heap s q = Some c"
    and m: "\<And>x. x \<notin> runtime_area s \<Longrightarrow> x \<noteq> ucast address \<Longrightarrow> m x = M (kern s) x"
  shows "code_byte s A (bp_address c) \<and> slot_ok s c \<and> (enabled c \<longrightarrow> m (addr_key c) = 0xcc)"
proof -
  note d = memory_okD [OF inv]
  note pd = plantedD [OF d(3) q]
  have "addr_key c \<noteq> (ucast address :: 'w word)"
    using by_addr.lookup_iff [OF d(9), of "ucast address" q] q new by (auto simp: bpm_defs)
  moreover have "addr_key c \<notin> runtime_area s" using pd(1) by (simp add: code_byte_def)
  ultimately show ?thesis using pd m by auto
qed

lemma enable_new_bp:
  fixes s :: "('k, 'w::len, 'r, 'f, 'z) x86_server"
  assumes bw: "byte_words TYPE('w)" and inv: "memory_ok K s A good M"
    and a: "code_byte s A address" and new: "mono_debugger_breakpoint_manager_lookup (bpm s) address = None"
  obtains r s2 where
    "server_ptrace_insert_breakpoint (x86_arch_enable_breakpoint rw K) s address = file_new_bp SW_BPM (bp_next s) (r, s2)"
    "new_bp_frame s A good M s2"
    "r = COMMAND_ERROR_NONE \<and>
       (\<exists>y. bp_heap s2 (bp_next s) = Some ((sw_bp (last_breakpoint_id s + 1) address)\<lparr> saved_insn := view s (M (kern s)) (ucast address), runtime_table_slot := y \<rparr>) \<and>
          (\<forall>rt. mono_runtime s = Some rt \<longrightarrow> 0 \<le> y \<and> nat y < unat (breakpoint_table_size rt))) \<and>
       M (kern s2) (ucast address) = 0xcc \<and>
       (\<forall>x. x \<notin> runtime_area s \<longrightarrow> x \<noteq> ucast address \<longrightarrow> M (kern s2) x = M (kern s) x) \<or>
     r \<noteq> COMMAND_ERROR_NONE \<and> mono_runtime s \<noteq> None \<and> (\<forall>x. x \<notin> runtime_area s \<longrightarrow> M (kern s2) x = M (kern s) x)"
proof -
  let ?p = "bp_next s" and ?b = "sw_bp (last_breakpoint_id s + 1) address" and ?en = "x86_arch_enable_breakpoint rw K"
  have b: "bp_id ?b = last_breakpoint_id s + 1" "bp_address ?b = address" "\<not> enabled ?b" "dr_index ?b < 0"
    by (simp_all add: sw_bp_def BreakpointInfo_zero_def)
  define s1 where "s1 = with_new_bp ?b s"
  note nb = with_new_bp_mem [OF inv b(1), folded s1_def]
  have f1: "bpm s1 = bpm s" "kern s1 = kern s" "inferior s1 = inferior s" "mono_runtime s1 = mono_runtime s" "arch s1 = arch s"
    "bp_heap s1 = (bp_heap s)(?p \<mapsto> ?b)" "bp_heap s1 ?p = Some ?b"
    by (simp_all add: s1_def)
  have a1: "code_byte s1 A (bp_address ?b)" using a b by (simp add: code_byte_same [OF nb(2)])
  from enable_sw_mem [OF bw nb(5,4) f1(7) b(3,4) a1, of rw]
  obtain r s2 where e: "?en s1 ?p = Some (r, s2)" "good (kern s2)" "same_table s1 s2"
    "r = COMMAND_ERROR_NONE \<and>
       (\<exists>y. bp_heap s2 = (bp_heap s1)(?p \<mapsto> ?b\<lparr> saved_insn := view s (M (kern s)) (ucast address), runtime_table_slot := y \<rparr>) \<and>
          (\<forall>rt. mono_runtime s = Some rt \<longrightarrow> 0 \<le> y \<and> nat y < unat (breakpoint_table_size rt))) \<and>
       M (kern s2) (ucast address) = 0xcc \<and>
       (\<forall>x. x \<notin> runtime_area s \<longrightarrow> x \<noteq> ucast address \<longrightarrow> M (kern s2) x = M (kern s) x) \<or>
     r \<noteq> COMMAND_ERROR_NONE \<and> mono_runtime s \<noteq> None \<and> (\<forall>x. x \<notin> runtime_area s \<longrightarrow> M (kern s2) x = M (kern s) x)"
    using b nb(2,3) f1 by (auto simp: same_table_def)
  have t: "touches_only ?p s1 s2" by (rule touches_enable [OF e(1)])
  have same2: "bp_heap s2 q = bp_heap s q" if "q \<in> set (breakpoints (bpm s))" for q
    using t nb(1) [OF that] f1(6) by (auto simp: touches_only_def)
  have pl: "code_byte s A (bp_address c) \<and> slot_ok s c \<and> (enabled c \<longrightarrow> M (kern s2) (addr_key c) = 0xcc)"
    if "q \<in> set (breakpoints (bpm s))" "bp_heap s q = Some c" for q c
    by (rule planted_elsewhere [OF inv new that]) (use e(4) in auto)
  have frame: "new_bp_frame s A good M s2"
    using t f1 same_table_trans [OF nb(2) e(3)] e(2) same2 pl by (simp add: new_bp_frame_def touches_only_def)
  have ins: "server_ptrace_insert_breakpoint ?en s address = file_new_bp SW_BPM ?p (r, s2)"
    using insert_new [OF new, of ?en] e(1) by (simp add: s1_def)
  have "bp_heap s2 ?p = Some c" if "bp_heap s2 = (bp_heap s1)(?p \<mapsto> c)" for c using that by simp
  then show thesis using that [OF ins frame] e(4) by meson
qed

text \<open>When enabling failed, the new struct is freed and nothing else has changed.\<close>

lemma insert_new_failed:
  fixes s :: "('k, 'w::len, 'r, 'f, 'z) x86_server"
    and dis :: "('k, 'w, ('w, 'r, 'f, 'z) ArchInfo_scheme) breakpoint_fn"
  assumes backend: "breakpoint_backend en dis" and inv: "memory_ok K s A good M" and room: "last_breakpoint_id s + 1 < 2 ^ 31"
    and ins: "server_ptrace_insert_breakpoint en s address = file_new_bp SW_BPM (bp_next s) (r, s2)"
    and frame: "new_bp_frame s A good M s2" and r: "r \<noteq> COMMAND_ERROR_NONE"
  shows "\<exists>s'. server_ptrace_insert_breakpoint en s address = Some (r, None, s') \<and> memory_ok K s' A good M \<and> same_table s s' \<and>
    view s' = view s \<and> bp_table s' = bp_table s \<and> kern s' = kern s2"
proof -
  note d = memory_okD [OF inv] and f2 = new_bp_frameD [OF frame]
  define s' where "s' = bp_free (bp_next s) (mono_debugger_breakpoint_manager_unlock s2)"
  have ret: "server_ptrace_insert_breakpoint en s address = Some (r, None, s')"
    using ins r by (simp add: file_new_bp_def s'_def)
  have ok': "server_ok s'" using breakpoint_backend.insert_ok [OF backend d(1) room ret] by simp
  have f': "bpm s' = bpm s" "kern s' = kern s2" "mono_runtime s' = mono_runtime s2" "inferior s' = inferior s"
    using f2 by (simp_all add: s'_def)
  have "bp_next s \<notin> set (breakpoints (bpm s))" using server_ok_new_bp(2) [OF d(1), of "sw_bp (last_breakpoint_id s + 1) address"]
    by (simp add: sw_bp_def)
  then have same': "bp_heap s' q = bp_heap s q" if "q \<in> set (breakpoints (bpm s))" for q
    using f2(5) [OF that] that by (auto simp: s'_def)
  have st': "same_table s s'" by (rule same_table_trans [OF f2(3) same_table_eq [OF f'(3)]])
  have "memory_ok K s' A good M"
    by (rule memory_ok_step [OF inv ok' st']) (use f2(4,6) f' same' in auto)
  moreover have "bp_table s' = bp_table s" by (rule ext) (rule by_addr_cong(2) [OF d(9) same' f'(1)])
  ultimately show ?thesis using ret st' by_addr_cong(3) [OF d(9) same' f'(1)] f'(2) by blast
qed

text \<open>When it succeeded, the new breakpoint is the only change of the tables.\<close>

lemma insert_new_filed:
  fixes s :: "('k, 'w::len, 'r, 'f, 'z) x86_server"
    and dis :: "('k, 'w, ('w, 'r, 'f, 'z) ArchInfo_scheme) breakpoint_fn"
  assumes backend: "breakpoint_backend en dis" and inv: "memory_ok K s A good M" and room: "last_breakpoint_id s + 1 < 2 ^ 31"
    and a: "code_byte s A address"
    and ins: "server_ptrace_insert_breakpoint en s address = file_new_bp SW_BPM (bp_next s) (COMMAND_ERROR_NONE, s2)"
    and frame: "new_bp_frame s A good M s2" and b: "bp_heap s2 (bp_next s) = Some b"
    and key: "bp_address b = address" "slot_ok s b" and cc: "M (kern s2) (ucast address) = 0xcc"
  shows "\<exists>s'. server_ptrace_insert_breakpoint en s address = Some (COMMAND_ERROR_NONE, Some (word_of_int (bp_id b)), s') \<and>
    memory_ok K s' A good M \<and> same_table s s' \<and> kern s' = kern s2 \<and> bp_table s' = (bp_table s)(ucast address \<mapsto> (bp_id b, refcount b)) \<and>
    (\<forall>x m. view s' m x = (if x = ucast address then saved_insn b else view s m x))"
proof -
  note d = memory_okD [OF inv] and f2 = new_bp_frameD [OF frame]
  let ?p = "bp_next s"
  define b2 where "b2 = b\<lparr> enabled := True \<rparr>"
  have b2: "bp_id b2 = bp_id b" "bp_address b2 = address" "enabled b2" "saved_insn b2 = saved_insn b" "refcount b2 = refcount b" "slot_ok s b2"
    using key by (simp_all add: b2_def slot_ok_def)
  define s3 where "s3 = bp_set ?p b2 s2"
  obtain m where m: "mono_debugger_breakpoint_manager_insert (bpm s) ?p s3 = Some m" using f2 by (simp add: bpm_defs s3_def)
  have mm: "breakpoint_by_addr m = (breakpoint_by_addr (bpm s))(ucast address \<mapsto> ?p)" "breakpoints m = breakpoints (bpm s) @ [?p]"
    using m b2(2) by (auto simp: bpm_defs s3_def)
  define s' where "s' = mono_debugger_breakpoint_manager_unlock (s3\<lparr> bpm := m \<rparr>)"
  have ret: "server_ptrace_insert_breakpoint en s address = Some (COMMAND_ERROR_NONE, Some (word_of_int (bp_id b)), s')"
    using ins b m f2 by (simp add: file_new_bp_def s'_def s3_def b2_def)
  have ok': "server_ok s'" using breakpoint_backend.insert_ok [OF backend d(1) room ret] by simp
  have f': "bpm s' = m" "kern s' = kern s2" "mono_runtime s' = mono_runtime s2" "inferior s' = inferior s" "bp_heap s' ?p = Some b2"
    using f2 by (simp_all add: s'_def s3_def)
  have "?p \<notin> set (breakpoints (bpm s))" using server_ok_new_bp(2) [OF d(1), of "sw_bp (last_breakpoint_id s + 1) address"]
    by (simp add: sw_bp_def)
  then have same': "bp_heap s' q = bp_heap s q" if "q \<in> set (breakpoints (bpm s))" for q
    using f2(5) [OF that] that by (auto simp: s'_def s3_def)
  have st': "same_table s s'" by (rule same_table_trans [OF f2(3) same_table_eq [OF f'(3)]])
  note grown = by_addr_insert [where s = s and s' = s', OF d(9) same' _ f'(5), unfolded f'(1), OF _ mm(1)]
  have "memory_ok K s' A good M"
    by (rule memory_ok_step [OF inv ok' st']) (use f2(4,6) f' b2 a cc mm(2) same' in auto)
  moreover have "view s' m' x = (if x = ucast address then saved_insn b else view s m' x)" for x m'
    using grown(1) [of x] b2 f' by (auto simp: view_def split: option.splits)
  moreover have "bp_table s' = (bp_table s)(ucast address \<mapsto> (bp_id b, refcount b))" using grown(2) b2 by (intro ext) simp
  ultimately show ?thesis using ret st' f' by blast
qed

lemma insert_new_mem:
  fixes s :: "('k, 'w::len, 'r, 'f, 'z) x86_server"
    and dis :: "('k, 'w, ('w, 'r, 'f, 'z) ArchInfo_scheme) breakpoint_fn"
  assumes backend: "breakpoint_backend (x86_arch_enable_breakpoint rw K) dis" and bw: "byte_words TYPE('w)"
    and inv: "memory_ok K s A good M" and room: "last_breakpoint_id s + 1 < 2 ^ 31"
    and a: "code_byte s A address" and new: "mono_debugger_breakpoint_manager_lookup (bpm s) address = None"
  shows "\<exists>r h s'. server_ptrace_insert_breakpoint (x86_arch_enable_breakpoint rw K) s address = Some (r, h, s') \<and>
    memory_ok K s' A good M \<and> same_table s s' \<and>
    (\<forall>x. x \<notin> runtime_area s \<longrightarrow> view s' (M (kern s')) x = view s (M (kern s)) x) \<and>
    (r = COMMAND_ERROR_NONE \<and> h = Some (word_of_int (last_breakpoint_id s + 1)) \<and>
       bp_table s' = (bp_table s)(ucast address \<mapsto> (last_breakpoint_id s + 1, 1)) \<and> M (kern s') (ucast address) = 0xcc \<and>
       (\<forall>x. x \<notin> runtime_area s \<longrightarrow> x \<noteq> ucast address \<longrightarrow> M (kern s') x = M (kern s) x) \<or>
     r \<noteq> COMMAND_ERROR_NONE \<and> mono_runtime s \<noteq> None \<and> h = None \<and> bp_table s' = bp_table s \<and>
       (\<forall>x. x \<notin> runtime_area s \<longrightarrow> M (kern s') x = M (kern s) x))"
proof -
  let ?b = "\<lambda>y. (sw_bp (last_breakpoint_id s + 1) address)\<lparr> saved_insn := view s (M (kern s)) (ucast address), runtime_table_slot := y \<rparr>"
  obtain r s2 where e:
    "server_ptrace_insert_breakpoint (x86_arch_enable_breakpoint rw K) s address = file_new_bp SW_BPM (bp_next s) (r, s2)"
    "new_bp_frame s A good M s2"
    "r = COMMAND_ERROR_NONE \<and>
       (\<exists>y. bp_heap s2 (bp_next s) = Some (?b y) \<and> (\<forall>rt. mono_runtime s = Some rt \<longrightarrow> 0 \<le> y \<and> nat y < unat (breakpoint_table_size rt))) \<and>
       M (kern s2) (ucast address) = 0xcc \<and>
       (\<forall>x. x \<notin> runtime_area s \<longrightarrow> x \<noteq> ucast address \<longrightarrow> M (kern s2) x = M (kern s) x) \<or>
     r \<noteq> COMMAND_ERROR_NONE \<and> mono_runtime s \<noteq> None \<and> (\<forall>x. x \<notin> runtime_area s \<longrightarrow> M (kern s2) x = M (kern s) x)"
    by (rule enable_new_bp [OF bw inv a new])
  show ?thesis
  proof (cases "r = COMMAND_ERROR_NONE")
    case False
    from insert_new_failed [OF backend inv room e(1,2) False]
    show ?thesis using e(3) False view_cong [of "M (kern s2)" _ "M (kern s)" s] by auto
  next
    case True
    obtain y where y: "bp_heap s2 (bp_next s) = Some (?b y)" "slot_ok s (?b y)" "M (kern s2) (ucast address) = 0xcc"
      "\<And>x. x \<notin> runtime_area s \<Longrightarrow> x \<noteq> ucast address \<Longrightarrow> M (kern s2) x = M (kern s) x"
      using e(3) True by (auto simp: slot_ok_def)
    have key: "bp_address (?b y) = address" "bp_id (?b y) = last_breakpoint_id s + 1" "refcount (?b y) = 1"
      by (simp_all add: sw_bp_def)
    from insert_new_filed [OF backend inv room a e(1) [unfolded True] e(2) y(1) key(1) y(2,3)]
    show ?thesis using y(3,4) key(2,3) view_cong [of "M (kern s2)" _ "M (kern s)" s] by auto
  qed
qed

section \<open>Removing a breakpoint\<close>

definition drop_reference :: "'w::len word \<Rightarrow> ('w word \<rightharpoonup> gint \<times> gint) \<Rightarrow> 'w word \<rightharpoonup> gint \<times> gint" where
  "drop_reference a t = (case t a of None \<Rightarrow> t
     | Some (i, n) \<Rightarrow> if 1 < n then t(a \<mapsto> (i, n - 1)) else t(a := None))"

text \<open>Taking the \<open>int 3\<close> out of memory, whether or not the breakpoint was enabled.\<close>

lemma unpatch_mem:
  fixes s :: "('k, 'w::len, 'r, 'f, 'z) x86_server"
  assumes backend: "breakpoint_backend en (x86_arch_disable_breakpoint rt K)"
    and bw: "byte_words TYPE('w)" and inv: "memory_ok K s A good M" and rt: "releases rt K A good M"
    and p: "p \<in> set (breakpoints (bpm s))" "bp_heap s p = Some b"
  shows "\<exists>s'. x86_arch_disable_breakpoint rt K s p = Some (COMMAND_ERROR_NONE, s') \<and> good (kern s') \<and>
    same_table s s' \<and> bp_heap s' = bp_heap s \<and> bpm s' = bpm s \<and> inferior s' = inferior s \<and>
    M (kern s') (addr_key b) = view s (M (kern s)) (addr_key b) \<and>
    (\<forall>x. x \<notin> runtime_area s \<longrightarrow> x \<noteq> addr_key b \<longrightarrow> M (kern s') x = M (kern s) x)"
proof -
  note d = memory_okD [OF inv]
  have a: "breakpoint_by_addr (bpm s) (addr_key b) = Some p" using by_addr.lookup_iff [OF d(9)] p by blast
  have v: "view s m (addr_key b) = (if enabled b then saved_insn b else m (addr_key b))" for m
    using a p by (simp add: view_def patched_def)
  show ?thesis
  proof (cases "enabled b")
    case False
    then have "x86_arch_disable_breakpoint rt K s p = Some (COMMAND_ERROR_NONE, s)"
      using p by (simp add: x86_arch_disable_breakpoint_def)
    then show ?thesis using d(5) same_table_eq [of s s] v False by auto
  next
    case True
    have "dr_index b < 0" using d(1) p by (auto simp: server_ok_def managers_ok_def bp_kind_ok_def)
    from disable_sw_mem [OF bw d(2) rt p(2) True this plantedD(2) [OF d(3) p] plantedD(1) [OF d(3) p]]
    obtain s' where s': "x86_arch_disable_breakpoint rt K s p = Some (COMMAND_ERROR_NONE, s')" "good (kern s')"
      "same_table s s'" "bp_heap s' = bp_heap s" "M (kern s') (addr_key b) = saved_insn b"
      "\<forall>x. x \<notin> runtime_area s \<longrightarrow> x \<noteq> addr_key b \<longrightarrow> M (kern s') x = M (kern s) x" by blast
    have "bpm s' = bpm s \<and> inferior s' = inferior s"
      using breakpoint_backend.disable_touches [OF backend s'(1)] by (simp add: touches_only_def)
    then show ?thesis using s' v True by auto
  qed
qed

lemma by_addr_remove:
  fixes s :: "('k, 'w::len, 'a) server"
  assumes ok: "bpm_ok (bpm s) (bp_heap s)" and p: "p \<in> set (breakpoints (bpm s))" "bp_heap s p = Some b"
    and s': "breakpoint_by_addr (bpm s') = (breakpoint_by_addr (bpm s))(addr_key b := None)"
      "\<And>q. q \<noteq> p \<Longrightarrow> bp_heap s' q = bp_heap s q"
  shows "patched (bp_heap s') (bpm s') x = (if x = addr_key b then None else patched (bp_heap s) (bpm s) x)"
    "bp_table s' x = (if x = addr_key b then None else bp_table s x)"
proof -
  have q: "q \<noteq> p" if "breakpoint_by_addr (bpm s) x = Some q" "x \<noteq> addr_key b" for q
    using by_addr.lookup_iff [OF ok, of x q] that p by auto
  show "patched (bp_heap s') (bpm s') x = (if x = addr_key b then None else patched (bp_heap s) (bpm s) x)"
    "bp_table s' x = (if x = addr_key b then None else bp_table s x)"
    using s' q by (auto simp: patched_def bp_table_def split: option.splits)
qed

text \<open>The first half of removing the last reference: the count is dropped and the \<open>int 3\<close> is gone.\<close>

lemma unref_unpatch_mem:
  fixes s :: "('k, 'w::len, 'r, 'f, 'z) x86_server"
  assumes backend: "breakpoint_backend en (x86_arch_disable_breakpoint rt K)" and bw: "byte_words TYPE('w)"
    and inv: "memory_ok K s A good M" and rt: "releases rt K A good M"
    and p: "p \<in> set (breakpoints (bpm s))" "bp_heap s p = Some b"
  defines "b1 \<equiv> b\<lparr> refcount := refcount b - 1 \<rparr>"
  shows "\<exists>s2. x86_arch_disable_breakpoint rt K (bp_set p b1 (mono_debugger_breakpoint_manager_lock s)) p = Some (COMMAND_ERROR_NONE, s2) \<and>
    good (kern s2) \<and> same_table s s2 \<and> bp_heap s2 = (bp_heap s)(p \<mapsto> b1) \<and> bpm s2 = bpm s \<and> inferior s2 = inferior s \<and>
    M (kern s2) (addr_key b) = view s (M (kern s)) (addr_key b) \<and>
    (\<forall>x. x \<notin> runtime_area s \<longrightarrow> x \<noteq> addr_key b \<longrightarrow> M (kern s2) x = M (kern s) x)"
proof -
  note d = memory_okD [OF inv]
  define s0 where "s0 = mono_debugger_breakpoint_manager_lock s"
  have f0: "kern s0 = kern s" "inferior s0 = inferior s" "bpm s0 = bpm s" "bp_heap s0 = bp_heap s" "mono_runtime s0 = mono_runtime s"
    by (simp_all add: s0_def)
  have st0: "same_table s s0" by (rule same_table_eq [OF f0(5)])
  have v0: "view s0 = view s" by (rule by_addr_cong(3) [OF d(9)]) (simp_all add: f0)
  have inv0: "memory_ok K s0 A good M"
    by (rule memory_ok_step [OF inv _ st0]) (use d f0 plantedD [OF d(3)] in \<open>auto simp: s0_def\<close>)
  define s1 where "s1 = bp_set p b1 s0"
  have p0: "p \<in> set (breakpoints (bpm s0))" "bp_heap s0 p = Some b" using p f0 by simp_all
  have same: "same_bp b b1" "enabled b1 = enabled b" "saved_insn b1 = saved_insn b" "runtime_table_slot b1 = runtime_table_slot b"
    by (simp_all add: same_bp_def b1_def)
  note u = upd_member_mem [OF inv0 p0 same, folded s1_def]
  have f1: "kern s1 = kern s" "inferior s1 = inferior s" "bpm s1 = bpm s" "bp_heap s1 = (bp_heap s)(p \<mapsto> b1)"
    "runtime_area s1 = runtime_area s" "addr_key b1 = (addr_key b :: 'w word)"
    using u(2) st0 by (simp_all add: s1_def f0 same_table_def b1_def)
  have p1: "p \<in> set (breakpoints (bpm s1))" "bp_heap s1 p = Some b1" using p f1 by simp_all
  from unpatch_mem [OF backend bw u(1) rt p1]
  show ?thesis using u(3) v0 f1 same_table_trans [OF same_table_trans [OF st0 u(2)]] unfolding s1_def [symmetric] s0_def [symmetric] by auto
qed

lemma remove_last_unfiles:
  fixes s :: "('k, 'w::len, 'r, 'f, 'z) x86_server"
  assumes bpm: "bpm_ok (bpm s) (bp_heap s)" and found: "fst (lookup_breakpoint s idx) = Some (p, SW_BPM)"
    and p: "p \<in> set (breakpoints (bpm s))" "bp_heap s p = Some b" and ref: "refcount b \<le> 1"
    and d: "disable (bp_set p (b\<lparr> refcount := refcount b - 1 \<rparr>) (mono_debugger_breakpoint_manager_lock s)) p =
        Some (COMMAND_ERROR_NONE, s2)"
    and s2: "bp_heap s2 = (bp_heap s)(p \<mapsto> b\<lparr> refcount := refcount b - 1 \<rparr>)" "bpm s2 = bpm s"
  obtains s' where "server_ptrace_remove_breakpoint disable s idx = Some (COMMAND_ERROR_NONE, s')"
    "kern s' = kern s2" "inferior s' = inferior s2" "mono_runtime s' = mono_runtime s2"
    "breakpoint_by_addr (bpm s') = (breakpoint_by_addr (bpm s))(addr_key b := None)"
    "breakpoints (bpm s') = remove_fast p (breakpoints (bpm s))" "bp_heap s' = (bp_heap s)(p := None)"
proof -
  define b3 where "b3 = b\<lparr> refcount := refcount b - 1, enabled := False \<rparr>"
  define s3 where "s3 = bp_set p b3 s2"
  have "same_keys (set (breakpoints (bpm s))) (bp_heap s) (bp_heap s3)" using p(2) by (simp add: s3_def s2 b3_def)
  then have ids: "bpm_ids_ok (bpm s3) (bp_heap s3)"
    using bpm bpm_ids_ok_same_keys by (simp add: bpm_ok_def s3_def s2(2)) blast
  have p3: "p \<in> set (breakpoints (bpm s3))" "bp_heap s3 p = Some b3" "refcount b3 \<le> 1"
    using p ref by (simp_all add: s3_def s2 b3_def)
  have bpm3: "bpm s3 = bpm s2" by (simp add: s3_def)
  let ?s0 = "mono_debugger_breakpoint_manager_lock s"
  have lk: "lookup_breakpoint ?s0 idx = (Some (p, SW_BPM), ?s0)" using found by (simp add: lookup_lock)
  define s' where "s' = mono_debugger_breakpoint_manager_unlock (set_manager SW_BPM (removed p b3 (bpm s3)) (bp_free p s3))"
  have "server_ptrace_remove_breakpoint disable s idx = Some (COMMAND_ERROR_NONE, s')"
    using lk p(2) ref d s2(1) remove_last [OF ids p3] bpm3
    by (simp add: server_ptrace_remove_breakpoint_def Let_def s3_def [symmetric] b3_def [symmetric] s'_def)
  then show thesis by (rule that) (simp_all add: s'_def s3_def s2 b3_def)
qed

lemma remove_last_mem:
  fixes s :: "('k, 'w::len, 'r, 'f, 'z) x86_server"
  assumes backend: "breakpoint_backend en (x86_arch_disable_breakpoint rt K)" and bw: "byte_words TYPE('w)"
    and inv: "memory_ok K s A good M" and rt: "releases rt K A good M"
    and found: "fst (lookup_breakpoint s idx) = Some (p, SW_BPM)"
    and p: "p \<in> set (breakpoints (bpm s))" "bp_heap s p = Some b" and ref: "refcount b \<le> 1"
  shows "\<exists>s'. server_ptrace_remove_breakpoint (x86_arch_disable_breakpoint rt K) s idx = Some (COMMAND_ERROR_NONE, s') \<and>
    memory_ok K s' A good M \<and> same_table s s' \<and> bp_table s' = (bp_table s)(addr_key b := None) \<and>
    (\<forall>x. x \<notin> runtime_area s \<longrightarrow> view s' (M (kern s')) x = view s (M (kern s)) x) \<and>
    (\<forall>x. x \<notin> runtime_area s \<longrightarrow> M (kern s') x = (if x = addr_key b then view s (M (kern s)) x else M (kern s) x))"
proof -
  note d = memory_okD [OF inv]
  let ?dis = "x86_arch_disable_breakpoint rt K" and ?b1 = "b\<lparr> refcount := refcount b - 1 \<rparr>"
  let ?s0 = "mono_debugger_breakpoint_manager_lock s"
  obtain s2 where s2: "?dis (bp_set p ?b1 ?s0) p = Some (COMMAND_ERROR_NONE, s2)" "good (kern s2)" "same_table s s2"
    "bp_heap s2 = (bp_heap s)(p \<mapsto> ?b1)" "bpm s2 = bpm s" "inferior s2 = inferior s"
    "M (kern s2) (addr_key b) = view s (M (kern s)) (addr_key b)"
    "\<forall>x. x \<notin> runtime_area s \<longrightarrow> x \<noteq> addr_key b \<longrightarrow> M (kern s2) x = M (kern s) x"
    using unref_unpatch_mem [OF backend bw inv rt p] by blast
  obtain s' where ret: "server_ptrace_remove_breakpoint ?dis s idx = Some (COMMAND_ERROR_NONE, s')"
    and f': "kern s' = kern s2" "inferior s' = inferior s" "mono_runtime s' = mono_runtime s2"
      "breakpoint_by_addr (bpm s') = (breakpoint_by_addr (bpm s))(addr_key b := None)"
      "breakpoints (bpm s') = remove_fast p (breakpoints (bpm s))" "bp_heap s' = (bp_heap s)(p := None)"
    by (rule remove_last_unfiles [where disable = ?dis, OF d(9) found p ref s2(1,4,5)]) (rule that, simp_all add: s2(6))
  have ok': "server_ok s'" using breakpoint_backend.remove_ok [OF backend d(1) ret] by simp
  have st': "same_table s s'" by (rule same_table_trans [OF s2(3) same_table_eq [OF f'(3)]])
  have rm: "patched (bp_heap s') (bpm s') x = (if x = addr_key b then None else patched (bp_heap s) (bpm s) x)"
    "bp_table s' x = (if x = addr_key b then None else bp_table s x)" for x
    using by_addr_remove [OF d(9) p f'(4)] f'(6) by simp_all
  have dist: "distinct (breakpoints (bpm s))" using d(9) by (simp add: bpm_ok_def bpm_ids_ok_def)
  have "memory_ok K s' A good M"
  proof (rule memory_ok_step [OF inv ok' st'])
    fix q c assume q: "q \<in> set (breakpoints (bpm s'))" "bp_heap s' q = Some c"
    then have q': "q \<in> set (breakpoints (bpm s))" "q \<noteq> p" "bp_heap s q = Some c"
      using f' dist by (auto split: if_splits)
    note pd = plantedD [OF d(3) q'(1,3)]
    have "addr_key c \<noteq> (addr_key b :: 'w word)"
      using by_addr.key_unique [OF d(9) q'(1) p(1) q'(3) p(2)] q'(2) by blast
    then show "code_byte s A (bp_address c) \<and> slot_ok s c \<and> (enabled c \<longrightarrow> M (kern s') (addr_key c) = 0xcc)"
      using pd s2(8) f'(1) by (simp add: code_byte_def)
  qed (use s2 f' in simp_all)
  moreover have "bp_table s' = (bp_table s)(addr_key b := None)" using rm(2) by (intro ext) simp
  moreover have "view s' (M (kern s')) x = view s (M (kern s)) x" if "x \<notin> runtime_area s" for x
    using rm(1) [of x] s2(7,8) that f'(1) by (auto simp: view_def split: option.splits)
  ultimately show ?thesis using ret st' s2(7,8) f'(1) by auto
qed

section \<open>The commands refine the abstract breakpoint table\<close>

lemma lookup_sw:
  fixes s :: "('k, 'w::len, 'r, 'f, 'z) x86_server"
  assumes wide: "32 \<le> LENGTH('w)" and ok: "server_ok s" and p: "p \<in> set (breakpoints (bpm s))" "bp_heap s p = Some b"
  shows "fst (lookup_breakpoint s (word_of_int (bp_id b))) = Some (p, SW_BPM)"
proof -
  have m: "managers_ok (bpm s) (hw_bpm (arch s)) (bp_heap s)" using ok by (simp add: server_ok_def)
  note d = managers_okD [OF m]
  have i: "id_ok (bp_id b)" using d(2) p by (auto simp: bpm_ids_ok_def)
  have "breakpoint_hash (hw_bpm (arch s)) (id_key b) = None"
    using m p unfolding managers_ok_def by (intro ids_fresh [OF wide d(3) i]) metis
  moreover have "breakpoint_hash (bpm s) (id_key b) = Some p" using d(2) p by (auto simp: bpm_ids_ok_def)
  ultimately show ?thesis using i by (simp add: lookup_breakpoint_def Let_def bpm_defs)
qed

lemma bp_tableD:
  assumes ok: "bpm_ok (bpm s) (bp_heap s)" and t: "bp_table s a = Some (i, n)"
  obtains p b where "p \<in> set (breakpoints (bpm s))" "bp_heap s p = Some b" "addr_key b = a" "bp_id b = i" "refcount b = n"
    "breakpoint_by_addr (bpm s) a = Some p"
proof -
  obtain p where p: "breakpoint_by_addr (bpm s) a = Some p" using t by (auto simp: bp_table_def split: option.splits)
  then obtain b where b: "p \<in> set (breakpoints (bpm s))" "bp_heap s p = Some b" "addr_key b = a"
    using by_addr.lookup_member [OF ok p] by blast
  then show thesis using that [OF b] t p by (simp add: bp_table_def)
qed

lemma insert_refines:
  fixes s :: "('k, 'w::len, 'r, 'f, 'z) x86_server"
    and dis :: "('k, 'w, ('w, 'r, 'f, 'z) ArchInfo_scheme) breakpoint_fn"
  assumes backend: "breakpoint_backend (x86_arch_enable_breakpoint rw K) dis" and bw: "byte_words TYPE('w)"
    and inv: "memory_ok K s A good M" and room: "last_breakpoint_id s + 1 < 2 ^ 31" and a: "code_byte s A address"
  shows "\<exists>r h s'. server_ptrace_insert_breakpoint (x86_arch_enable_breakpoint rw K) s address = Some (r, h, s') \<and>
    memory_ok K s' A good M \<and> runtime_area s' = runtime_area s \<and>
    (\<forall>x. x \<notin> runtime_area s \<longrightarrow> view s' (M (kern s')) x = view s (M (kern s)) x) \<and>
    (r = COMMAND_ERROR_NONE \<and>
       (let e = add_reference (last_breakpoint_id s + 1) (bp_table s (ucast address)) in
        h = Some (word_of_int (fst e)) \<and> bp_table s' = (bp_table s)(ucast address \<mapsto> e)) \<or>
     r \<noteq> COMMAND_ERROR_NONE \<and> mono_runtime s \<noteq> None \<and> h = None \<and> bp_table s' = bp_table s)"
proof (cases "mono_debugger_breakpoint_manager_lookup (bpm s) address")
  case None
  have t: "bp_table s (ucast address) = None" using None by (simp add: bp_table_def bpm_defs)
  show ?thesis using insert_new_mem [OF backend bw inv room a None]
    by (auto simp: t add_reference_def same_table_def Let_def)
next
  case (Some p)
  then obtain b where b: "bp_heap s p = Some b"
    using by_addr.lookup_iff [OF memory_okD(9) [OF inv], of "ucast address" p] by (auto simp: bpm_defs)
  have t: "bp_table s (ucast address) = Some (bp_id b, refcount b)" using Some b by (simp add: bp_table_def bpm_defs)
  note k = insert_known_mem [OF inv Some b]
  show ?thesis
    using insert_known [OF Some b, of "x86_arch_enable_breakpoint rw K"] k
    by (auto simp: t add_reference_def same_table_def Let_def)
qed

lemma remove_refines:
  fixes s :: "('k, 'w::len, 'r, 'f, 'z) x86_server"
  assumes backend: "breakpoint_backend en (x86_arch_disable_breakpoint rt K)" and bw: "byte_words TYPE('w)"
    and inv: "memory_ok K s A good M" and rt: "releases rt K A good M" and t: "bp_table s a = Some (i, n)"
  shows "\<exists>s'. server_ptrace_remove_breakpoint (x86_arch_disable_breakpoint rt K) s (word_of_int i) = Some (COMMAND_ERROR_NONE, s') \<and>
    memory_ok K s' A good M \<and> runtime_area s' = runtime_area s \<and> bp_table s' = drop_reference a (bp_table s) \<and>
    (\<forall>x. x \<notin> runtime_area s \<longrightarrow> view s' (M (kern s')) x = view s (M (kern s)) x) \<and>
    (n \<le> 1 \<longrightarrow> (\<forall>x. x \<notin> runtime_area s \<longrightarrow> M (kern s') x = (if x = a then view s (M (kern s)) x else M (kern s) x)))"
proof -
  note d = memory_okD [OF inv]
  obtain p b where p: "p \<in> set (breakpoints (bpm s))" "bp_heap s p = Some b" "addr_key b = a" "bp_id b = i" "refcount b = n"
    using bp_tableD [OF d(9) t] by metis
  have found: "fst (lookup_breakpoint s (word_of_int i)) = Some (p, SW_BPM)"
    using lookup_sw [OF breakpoint_backend.wide [OF backend] d(1) p(1,2)] p(4) by simp
  show ?thesis
  proof (cases "refcount b \<le> 1")
    case True
    show ?thesis using remove_last_mem [OF backend bw inv rt found p(1,2) True] p t True
      by (auto simp: same_table_def drop_reference_def)
  next
    case False
    define s' where "s' = bp_set p (b\<lparr> refcount := refcount b - 1 \<rparr>) s"
    have "server_ptrace_remove_breakpoint (x86_arch_disable_breakpoint rt K) s (word_of_int i) = Some (COMMAND_ERROR_NONE, s')"
      using found p False
      by (simp add: server_ptrace_remove_breakpoint_def Let_def lookup_lock s'_def)
    moreover have "same_bp b (b\<lparr> refcount := refcount b - 1 \<rparr>)" by (simp add: same_bp_def)
    note u = upd_member_mem [OF inv p(1,2) this, simplified, folded s'_def]
    ultimately show ?thesis using u p t False by (simp add: same_table_def drop_reference_def s'_def)
  qed
qed

text \<open>Set and removed again: the target's memory and the table are what they were.\<close>

lemma insert_remove_restores:
  fixes s :: "('k, 'w::len, 'r, 'f, 'z) x86_server"
  assumes backend: "breakpoint_backend (x86_arch_enable_breakpoint rw K) (x86_arch_disable_breakpoint rt K)"
    and bw: "byte_words TYPE('w)" and inv: "memory_ok K s A good M" and rt: "releases rt K A good M"
    and room: "last_breakpoint_id s + 1 < 2 ^ 31" and a: "code_byte s A address"
    and new: "bp_table s (ucast address) = None"
    and ins: "server_ptrace_insert_breakpoint (x86_arch_enable_breakpoint rw K) s address = Some (COMMAND_ERROR_NONE, h, s1)"
  shows "M (kern s1) (ucast address) = 0xcc \<and>
    (\<exists>i s2. h = Some i \<and> server_ptrace_remove_breakpoint (x86_arch_disable_breakpoint rt K) s1 i = Some (COMMAND_ERROR_NONE, s2) \<and>
      (\<forall>x. x \<notin> runtime_area s \<longrightarrow> M (kern s2) x = M (kern s) x) \<and> bp_table s2 = bp_table s \<and> memory_ok K s2 A good M)"
proof -
  note d = memory_okD [OF inv]
  let ?i = "last_breakpoint_id s + 1"
  have lk: "mono_debugger_breakpoint_manager_lookup (bpm s) address = None"
    using new by (cases "breakpoint_by_addr (bpm s) (ucast address)")
      (auto simp: bp_table_def bpm_defs elim: by_addr.lookup_member [OF d(9)])
  have i: "memory_ok K s1 A good M" "runtime_area s1 = runtime_area s" "h = Some (word_of_int ?i)"
    "\<And>x. x \<notin> runtime_area s \<Longrightarrow> view s1 (M (kern s1)) x = view s (M (kern s)) x"
    "bp_table s1 = (bp_table s)(ucast address \<mapsto> (?i, 1))" "M (kern s1) (ucast address) = 0xcc"
    "\<And>x. x \<notin> runtime_area s \<Longrightarrow> x \<noteq> ucast address \<Longrightarrow> M (kern s1) x = M (kern s) x"
    using insert_new_mem [OF backend bw inv room a lk] ins by (auto simp: same_table_def)
  have t1: "bp_table s1 (ucast address) = Some (?i, 1)" using i(5) by simp
  from remove_refines [OF backend bw i(1) rt t1]
  obtain s2 where r: "server_ptrace_remove_breakpoint (x86_arch_disable_breakpoint rt K) s1 (word_of_int ?i) = Some (COMMAND_ERROR_NONE, s2)"
    "memory_ok K s2 A good M" "bp_table s2 = drop_reference (ucast address) (bp_table s1)"
    "\<And>x. x \<notin> runtime_area s \<Longrightarrow> M (kern s2) x = (if x = ucast address then view s1 (M (kern s1)) x else M (kern s1) x)"
    using i(2) by auto
  have v: "view s (M (kern s)) (ucast address) = M (kern s) (ucast address)"
    using lk by (simp add: view_def patched_def bpm_defs)
  have outside: "ucast address \<notin> runtime_area s" using a by (simp add: code_byte_def)
  have "M (kern s2) x = M (kern s) x" if "x \<notin> runtime_area s" for x
    using r(4) [OF that] i(4) [OF outside] i(7) [OF that] v by simp
  moreover have "bp_table s2 = bp_table s" using r(3) t1 i(5) new by (auto simp: drop_reference_def fun_eq_iff)
  ultimately show ?thesis using r i by auto
qed

end
