(* ===== verification/X86_Ptrace.thy ===== *)
theory X86_Ptrace
  imports X86_Arch
begin

text \<open>
  The file \<open>x86-ptrace.c\<close>, which includes the Linux layer and one architecture file: the
  description of the Mono runtime, starting and attaching to a target, turning a wait
  status into a message for the debugger, signals, and the thread that copies the target's
  output. Functions of the architecture file that it calls are arguments.
\<close>

section \<open>The Mono runtime\<close>

definition mono_debugger_server_initialize_mono_runtime ::
  "guint32 \<Rightarrow> guint64 \<Rightarrow> guint64 \<Rightarrow> guint32 \<Rightarrow> guint64 \<Rightarrow> guint64 \<Rightarrow> guint32 \<Rightarrow> MonoRuntimeInfo" where
  "mono_debugger_server_initialize_mono_runtime addr_size notify code_buf code_buf_size info_area table table_size =
     \<lparr> address_size = addr_size, notification_address = notify, executable_code_buffer = code_buf,
       executable_code_buffer_size = code_buf_size,
       executable_code_chunk_size = EXECUTABLE_CODE_CHUNK_SIZE,
       executable_code_total_chunks = code_buf_size div EXECUTABLE_CODE_CHUNK_SIZE,
       breakpoint_info_area = info_area, breakpoint_table = table, breakpoint_table_size = table_size,
       breakpoint_table_bitfield = replicate (unat table_size) 0,
       executable_code_bitfield = replicate (unat (code_buf_size div EXECUTABLE_CODE_CHUNK_SIZE)) 0,
       executable_code_last_slot = 0 \<rparr>"

definition mono_debugger_server_initialize_code_buffer ::
  "MonoRuntimeInfo \<Rightarrow> guint64 \<Rightarrow> guint32 \<Rightarrow> MonoRuntimeInfo" where
  "mono_debugger_server_initialize_code_buffer runtime code_buf code_buf_size =
     runtime\<lparr> executable_code_buffer := code_buf, executable_code_buffer_size := code_buf_size,
       executable_code_chunk_size := EXECUTABLE_CODE_CHUNK_SIZE,
       executable_code_total_chunks := code_buf_size div EXECUTABLE_CODE_CHUNK_SIZE \<rparr>"

definition mono_debugger_server_finalize_mono_runtime :: "MonoRuntimeInfo \<Rightarrow> MonoRuntimeInfo" where
  "mono_debugger_server_finalize_mono_runtime runtime = runtime\<lparr> executable_code_buffer := 0 \<rparr>"

section \<open>Running and leaving the target\<close>

definition server_ptrace_resume ::
  "('k, 'w::len, 'r, 'f) kernel \<Rightarrow> ('k, 'w, 'a) server \<Rightarrow> ServerCommandError \<times> ('k, 'w, 'a) server" where
  "server_ptrace_resume K s =
     (if stepping (inferior s) then server_ptrace_step K s else server_ptrace_continue K s)"

definition server_ptrace_detach ::
  "('k, 'w::len, 'r, 'f) kernel \<Rightarrow> ('k, 'w, 'a) server \<Rightarrow> ServerCommandError \<times> ('k, 'w, 'a) server" where
  "server_ptrace_detach K s =
     (case ptrace_detach K (kern s) (inf_pid (inferior s)) of
        (Inl e, k) \<Rightarrow> (COMMAND_ERROR_UNKNOWN_ERROR, s\<lparr> kern := k \<rparr>)
      | (Inr _, k) \<Rightarrow> (COMMAND_ERROR_NONE, s\<lparr> kern := k \<rparr>))"

section \<open>From a wait status to a message\<close>

text \<open>What \<open>server_ptrace_dispatch_event\<close> hands to its caller; \<open>None\<close> is a value it does not
  determine, because it writes nothing or copies a variable that was never assigned.\<close>

record event_data =
  event_arg :: "guint64 option"
  event_data1 :: "guint64 option"
  event_data2 :: "guint64 option"
  event_opt_data :: "guint8 list option"

definition no_event_data :: event_data where
  "no_event_data = \<lparr> event_arg = None, event_data1 = None, event_data2 = None, event_opt_data = None \<rparr>"

text \<open>The first half of \<open>dispatch_event\<close>: an extended wait event. \<open>return FALSE\<close> is \<open>MESSAGE_NONE\<close>.\<close>

definition dispatch_wait_event ::
  "('k, 'w::len, 'r, 'f) kernel \<Rightarrow> ('k, 'w, 'a) server \<Rightarrow> guint32 \<Rightarrow>
     ServerStatusMessageType \<times> event_data \<times> ('k, 'w, 'a) server" where
  "dispatch_wait_event K s event =
     (let event_msg = ptrace_geteventmsg K (kern s) (inf_pid (inferior s));
          s' = s\<lparr> kern := snd event_msg \<rparr> in
      if event = PTRACE_EVENT_CLONE then
        (case fst event_msg of
           Inl e \<Rightarrow> (MESSAGE_NONE, no_event_data, s')
         | Inr new_pid \<Rightarrow> (MESSAGE_CHILD_CREATED_THREAD, no_event_data\<lparr> event_arg := Some (word_of_int new_pid) \<rparr>, s'))
      else if event = PTRACE_EVENT_FORK then
        (case fst event_msg of
           Inl e \<Rightarrow> (MESSAGE_NONE, no_event_data, s')
         | Inr new_pid \<Rightarrow> (MESSAGE_CHILD_FORKED, no_event_data\<lparr> event_arg := Some (word_of_int new_pid) \<rparr>, s'))
      else if event = PTRACE_EVENT_EXEC then (MESSAGE_CHILD_EXECD, no_event_data, s)
      else if event = PTRACE_EVENT_EXIT then
        (case fst event_msg of
           Inl e \<Rightarrow> (MESSAGE_NONE, no_event_data, s')
         | Inr exitcode \<Rightarrow> (MESSAGE_CHILD_CALLED_EXIT, no_event_data\<lparr> event_arg := Some 0 \<rparr>, s'))
      else (MESSAGE_UNKNOWN_ERROR, no_event_data, s))"

text \<open>The switch over the stop action.\<close>

definition dispatch_stop_action ::
  "ChildStoppedAction \<Rightarrow> gint \<Rightarrow> stop_data \<Rightarrow> ('k, 'w::len, 'a) server \<Rightarrow>
     ServerStatusMessageType \<times> event_data \<times> ('k, 'w, 'a) server" where
  "dispatch_stop_action action stopsig d s =
     (let s = (if action \<noteq> STOP_ACTION_STOPPED then set_last_signal 0 s else s);
          none = no_event_data\<lparr> event_opt_data := opt_data d \<rparr>;
          full = none\<lparr> event_arg := callback_arg d, event_data1 := retval d, event_data2 := retval2 d \<rparr> in
      case action of
        STOP_ACTION_STOPPED \<Rightarrow>
          (if stopsig = SIGTRAP
           then (MESSAGE_CHILD_STOPPED, none\<lparr> event_arg := Some 0 \<rparr>, set_last_signal 0 s)
           else (MESSAGE_CHILD_STOPPED, none\<lparr> event_arg := Some (word_of_int stopsig) \<rparr>, set_last_signal stopsig s))
      | STOP_ACTION_INTERRUPTED \<Rightarrow> (MESSAGE_CHILD_INTERRUPTED, none\<lparr> event_arg := Some 0 \<rparr>, s)
      | STOP_ACTION_BREAKPOINT_HIT \<Rightarrow>
          (MESSAGE_CHILD_HIT_BREAKPOINT,
           none\<lparr> event_arg := map_option (\<lambda>v. scast (ucast v :: guint32)) (retval d) \<rparr>, s)
      | STOP_ACTION_CALLBACK \<Rightarrow> (MESSAGE_CHILD_CALLBACK, full, s)
      | STOP_ACTION_CALLBACK_COMPLETED \<Rightarrow> (MESSAGE_CHILD_CALLBACK_COMPLETED, full, s)
      | STOP_ACTION_NOTIFICATION \<Rightarrow> (MESSAGE_CHILD_NOTIFICATION, full, s)
      | STOP_ACTION_RTI_DONE \<Rightarrow> (MESSAGE_RUNTIME_INVOKE_DONE, full, s)
      | STOP_ACTION_INTERNAL_ERROR \<Rightarrow> (MESSAGE_INTERNAL_ERROR, none, s))"

definition server_ptrace_dispatch_event ::
  "('k, 'w::len, 'a) child_stopped_fn \<Rightarrow> ('k, 'w, 'r, 'f) kernel \<Rightarrow> ('k, 'w, 'a) server \<Rightarrow> guint32 \<Rightarrow>
     (ServerStatusMessageType \<times> event_data \<times> ('k, 'w, 'a) server) option" where
  "server_ptrace_dispatch_event x86_arch_child_stopped K s status =
     (if drop_bit 16 status \<noteq> 0 then Some (dispatch_wait_event K s (drop_bit 16 status))
      else if WIFSTOPPED status then do {
        let stopsig = (if WSTOPSIG status = SIGCONT then 0 else WSTOPSIG status);
        (action, d, s) \<leftarrow> x86_arch_child_stopped s stopsig;
        Some (dispatch_stop_action action stopsig d s)
      }
      else if WIFEXITED status then
        Some (MESSAGE_CHILD_EXITED, no_event_data\<lparr> event_arg := Some (word_of_int (WEXITSTATUS status)) \<rparr>, s)
      else if WIFSIGNALED status then
        (if WTERMSIG status = SIGTRAP \<or> WTERMSIG status = SIGKILL
         then Some (MESSAGE_CHILD_EXITED, no_event_data\<lparr> event_arg := Some 0 \<rparr>, s)
         else Some (MESSAGE_CHILD_SIGNALED, no_event_data\<lparr> event_arg := Some (word_of_int (WTERMSIG status)) \<rparr>, s))
      else Some (MESSAGE_UNKNOWN_ERROR, no_event_data, s))"

definition server_ptrace_dispatch_simple :: "guint32 \<Rightarrow> ServerStatusMessageType \<times> guint32 option" where
  "server_ptrace_dispatch_simple status =
     (if drop_bit 16 status \<noteq> 0 then (MESSAGE_UNKNOWN_ERROR, None)
      else if WIFSTOPPED status then
        (let stopsig = WSTOPSIG status;
             stopsig = (if stopsig = SIGSTOP \<or> stopsig = SIGTRAP then 0 else stopsig) in
         (MESSAGE_CHILD_STOPPED, Some (word_of_int stopsig)))
      else if WIFEXITED status then (MESSAGE_CHILD_EXITED, Some (word_of_int (WEXITSTATUS status)))
      else if WIFSIGNALED status then
        (if WTERMSIG status = SIGTRAP \<or> WTERMSIG status = SIGKILL then (MESSAGE_CHILD_EXITED, Some 0)
         else (MESSAGE_CHILD_SIGNALED, Some (word_of_int (WTERMSIG status))))
      else (MESSAGE_UNKNOWN_ERROR, None))"

section \<open>Starting a target\<close>

text \<open>\<open>server_ptrace_create_inferior\<close>: a zeroed handle on the given manager. The process-wide part of
  the state (the breakpoint store, the kernel) is what it was.\<close>

definition server_ptrace_create_inferior ::
  "'a \<Rightarrow> 'w BreakpointManager \<Rightarrow> bp_store \<Rightarrow> 'k \<Rightarrow> ('k, 'w::len, 'a) server" where
  "server_ptrace_create_inferior x86_arch_initialize m g k =
     bp_store.extend g \<lparr> kern = k, inferior = InferiorHandle_zero, arch = x86_arch_initialize,
       mono_runtime = None, bpm = m \<rparr>"

definition close_fds :: "('k, 'w::len, 'r, 'f) kernel \<Rightarrow> gint list \<Rightarrow> 'k \<Rightarrow> 'k" where
  "close_fds K fds k = foldl (close_fd K) k fds"

text \<open>
  \<open>server_ptrace_spawn\<close>, in the debugger's process: the pipes, the fork, the report of a failed
  \<open>execve\<close> that the child writes into the pipe, and the first stop of the new process. Its
  results: \<open>*child_pid\<close>, the descriptors in \<open>*io_data\<close>, and what \<open>*error\<close> says: that the fork failed, or the bytes the child sent. What runs in the child's process between \<open>fork\<close> and \<open>execve\<close> is not part of the
  debugger's state; it is one of the things the kernel parameter's \<open>sys_fork\<close> stands for.
\<close>

datatype spawn_message = Fork_failed errno | Exec_failed "guint8 list"

record spawn_result =
  child_pid :: gint
  io_data :: "(gint \<times> gint) option"
  spawn_error :: "spawn_message option"

definition spawn_failed_exec ::
  "('k, 'w::len, 'r, 'f) kernel \<Rightarrow> ('k, 'w, 'a) server \<Rightarrow> spawn_result \<Rightarrow> gint \<Rightarrow> guint8 list \<Rightarrow> gint list \<Rightarrow>
     (ServerCommandError \<times> spawn_result \<times> ('k, 'w, 'a) server) option" where
  "spawn_failed_exec K s res fd0 len_bytes out_fds = do {
     let n = uint (le_word len_bytes :: guint32);
     let (r, k) = sys_read K (kern s) fd0 (nat n);
     let msg = (case r of Inl _ \<Rightarrow> [] | Inr bs \<Rightarrow> bs);
     Some (COMMAND_ERROR_CANNOT_START_TARGET,
       res\<lparr> spawn_error := Some (Exec_failed (msg @ replicate (nat n - length msg) 0)) \<rparr>,
       s\<lparr> kern := close_fds K (fd0 # out_fds) k \<rparr>)
   }"

definition server_ptrace_spawn ::
  "('k, 'w::len, 'r, 'f) kernel \<Rightarrow>
     bool \<Rightarrow> ('k, 'w, 'r, 'f, 'z) x86_server \<Rightarrow> bool \<Rightarrow>
     (ServerCommandError \<times> spawn_result \<times> ('k, 'w, 'r, 'f, 'z) x86_server) option" where
  "server_ptrace_spawn K wait_mutex s redirect = do {
     let s = s\<lparr> inferior := (inferior s)\<lparr> redirect_fds := redirect \<rparr> \<rparr>;
     let s = (if redirect then
           let (o_fd, k) = sys_pipe K (kern s); (e_fd, k) = sys_pipe K k in
           s\<lparr> kern := k, inferior := (inferior s)\<lparr> output_fd := o_fd, error_fd := e_fd \<rparr> \<rparr> else s);
     let res = \<lparr> child_pid = 0, io_data = (if redirect then Some (fst (output_fd (inferior s)), fst (error_fd (inferior s)))
           else None), spawn_error = None \<rparr>;
     let (fd, k) = sys_pipe K (kern s);
     let (child, k) = sys_fork K k;
     let s = s\<lparr> kern := k \<rparr>;
     let (o0, o1) = output_fd (inferior s);
     let (e0, e1) = error_fd (inferior s);
     case child of
       Inl e \<Rightarrow> Some (COMMAND_ERROR_CANNOT_START_TARGET, res\<lparr> child_pid := -1, spawn_error := Some (Fork_failed e) \<rparr>,
         s\<lparr> kern := close_fds K ((if redirect then [o0, o1, e0, e1] else []) @ [fst fd, snd fd]) (kern s) \<rparr>)
     | Inr pid \<Rightarrow> do {
         let res = res\<lparr> child_pid := sint pid \<rparr>;
         let s = s\<lparr> kern := close_fds K ((if redirect then [o1, e1] else []) @ [snd fd]) (kern s) \<rparr>;
         let (r, k) = sys_read K (kern s) (fst fd) 4;
         let s = s\<lparr> kern := k \<rparr>;
         case r of
           Inl e \<Rightarrow> None
         | Inr bytes \<Rightarrow>
             if bytes \<noteq> [] then
               (if length bytes = 4
                then spawn_failed_exec K s res (fst fd) bytes (if redirect then [o0, e0] else [])
                else None)
             else
               let s = s\<lparr> kern := close_fds K [fst fd] (kern s), inferior := (inferior s)\<lparr> inf_pid := pid \<rparr> \<rparr>;
                   (ok, _, s) = priv_server_ptrace_wait_for_new_thread (x86_arch_get_registers K) K wait_mutex s in
               if \<not> ok then Some (COMMAND_ERROR_INTERNAL_ERROR, res, s)
               else let (result, s) = priv_server_ptrace_setup_inferior (x86_arch_remove_hardware_breakpoints K) K s in
                 if result \<noteq> COMMAND_ERROR_NONE
                 then Some (result, res, s\<lparr> kern := close_fds K (if redirect then [o0, e0] else []) (kern s) \<rparr>)
                 else Some (COMMAND_ERROR_NONE, res, s)
       }
   }"

definition server_ptrace_initialize_thread ::
  "('k, 'w::len, 'r, 'f) kernel \<Rightarrow>
     bool \<Rightarrow> ('k, 'w, 'r, 'f, 'z) x86_server \<Rightarrow> guint32 \<Rightarrow> bool \<Rightarrow> ServerCommandError \<times> ('k, 'w, 'r, 'f, 'z) x86_server" where
  "server_ptrace_initialize_thread K wait_mutex s pid wait =
     (let s = s\<lparr> inferior := (inferior s)\<lparr> is_thread := True, inf_pid := pid \<rparr> \<rparr>;
          (ok, _, s) = (if wait then priv_server_ptrace_wait_for_new_thread (x86_arch_get_registers K) K wait_mutex s
                        else (True, wait_mutex, s)) in
      if \<not> ok then (COMMAND_ERROR_INTERNAL_ERROR, s)
      else priv_server_ptrace_setup_inferior (x86_arch_remove_hardware_breakpoints K) K s)"

definition server_ptrace_attach ::
  "('k, 'w::len, 'r, 'f) kernel \<Rightarrow>
     bool \<Rightarrow> ('k, 'w, 'r, 'f, 'z) x86_server \<Rightarrow> guint32 \<Rightarrow> ServerCommandError \<times> ('k, 'w, 'r, 'f, 'z) x86_server" where
  "server_ptrace_attach K wait_mutex s pid =
     (case ptrace_attach K (kern s) pid of
        (Inl e, k) \<Rightarrow> (COMMAND_ERROR_CANNOT_START_TARGET, s\<lparr> kern := k \<rparr>)
      | (Inr _, k) \<Rightarrow>
          (let s = s\<lparr> kern := k, inferior := (inferior s)\<lparr> inf_pid := pid, is_thread := True \<rparr> \<rparr>;
               (ok, _, s) = priv_server_ptrace_wait_for_new_thread (x86_arch_get_registers K) K wait_mutex s in
           if \<not> ok then (COMMAND_ERROR_INTERNAL_ERROR, s)
           else priv_server_ptrace_setup_inferior (x86_arch_remove_hardware_breakpoints K) K s))"

section \<open>The target's output\<close>

abbreviation POLLIN :: guint32 where "POLLIN \<equiv> 0x01"
abbreviation POLLERR :: guint32 where "POLLERR \<equiv> 0x08"
abbreviation POLLHUP :: guint32 where "POLLHUP \<equiv> 0x10"
abbreviation BUFSIZ :: nat where "BUFSIZ \<equiv> 8192"

text \<open>The calls of \<open>func\<close>, in order: from which stream, and the C string it is given.\<close>

type_synonym output_log = "(bool \<times> guint8 list) list"

definition process_output ::
  "('k, 'w::len, 'r, 'f) kernel \<Rightarrow> gint \<Rightarrow> bool \<Rightarrow> output_log \<times> 'k \<Rightarrow> output_log \<times> 'k" where
  "process_output K fd is_stderr st =
     (case sys_read K (snd st) fd BUFSIZ of
        (Inl e, k) \<Rightarrow> (fst st, k)
      | (Inr buffer, k) \<Rightarrow> (fst st @ [(is_stderr, c_bytes buffer)], k))"

text \<open>\<open>revents\<close> keeps its value when \<open>poll\<close> is interrupted.\<close>

partial_function (option) server_ptrace_io_thread_main_loop ::
  "('k, 'w::len, 'r, 'f) kernel \<Rightarrow> gint \<Rightarrow> gint \<Rightarrow> guint32 \<times> guint32 \<Rightarrow> output_log \<times> 'k \<Rightarrow> (output_log \<times> 'k) option" where
  "server_ptrace_io_thread_main_loop K out_fd err_fd revents st =
     (case sys_poll K (snd st) out_fd err_fd of (r, k) \<Rightarrow>
        (if (case r of Inl e \<Rightarrow> e \<noteq> EINTR | Inr _ \<Rightarrow> False) then Some (fst st, k)
         else
           let st = (fst st, k);
               revents = (case r of Inl _ \<Rightarrow> revents | Inr ev \<Rightarrow> ev);
               st = (if fst revents AND POLLIN \<noteq> 0 then process_output K out_fd False st else st);
               st = (if snd revents AND POLLIN \<noteq> 0 then process_output K err_fd True st else st) in
           if fst revents AND (POLLHUP OR POLLERR) \<noteq> 0 \<or> snd revents AND (POLLHUP OR POLLERR) \<noteq> 0
           then Some st
           else server_ptrace_io_thread_main_loop K out_fd err_fd revents st))"

definition server_ptrace_io_thread_main ::
  "('k, 'w::len, 'r, 'f) kernel \<Rightarrow> gint \<times> gint \<Rightarrow> 'k \<Rightarrow> (output_log \<times> 'k) option" where
  "server_ptrace_io_thread_main K fds k = do {
     (log, k) \<leftarrow> server_ptrace_io_thread_main_loop K (fst fds) (snd fds) (0, 0) ([], k);
     Some (log, close_fds K [fst fds, snd fds] k)
   }"

section \<open>Signals and the runtime\<close>

definition server_ptrace_set_signal ::
  "('k, 'w::len, 'r, 'f) kernel \<Rightarrow> ('k, 'w, 'a) server \<Rightarrow> guint32 \<Rightarrow> guint32 \<Rightarrow>
     ServerCommandError \<times> ('k, 'w, 'a) server" where
  "server_ptrace_set_signal K s sig send_it =
     (if send_it \<noteq> 0
      then (COMMAND_ERROR_NONE, s\<lparr> kern := snd (sys_kill K (kern s) (inf_pid (inferior s)) (sint sig)) \<rparr>)
      else (COMMAND_ERROR_NONE, set_last_signal (sint sig) s))"

definition server_ptrace_get_pending_signal :: "('k, 'w::len, 'a) server \<Rightarrow> ServerCommandError \<times> guint32" where
  "server_ptrace_get_pending_signal s = (COMMAND_ERROR_NONE, word_of_int (last_signal (inferior s)))"

definition server_ptrace_set_runtime_info ::
  "('k, 'w::len, 'a) server \<Rightarrow> MonoRuntimeInfo option \<Rightarrow> ('k, 'w, 'a) server" where
  "server_ptrace_set_runtime_info s runtime = s\<lparr> mono_runtime := runtime \<rparr>"

end
