(* ===== verification/Flat_Target.thy ===== *)
theory Flat_Target
  imports Breakpoint_Memory X86_Ptrace
begin

text \<open>
  A concrete kernel and target: a flat address space that is mapped everywhere, one set of
  registers, debug registers that hold what is written to them. It shows that the
  hypotheses on the kernel in the properties can hold, and the properties are applied to it
  in concrete states.
\<close>

record (overloaded) ('w, 'r, 'f) flat =
  flat_mem :: "'w word \<Rightarrow> guint8"
  flat_regs :: 'r
  flat_fpregs :: 'f
  flat_dr :: "gint \<Rightarrow> 'w word"

definition flat_kernel :: "(('w::len, 'r, 'f) flat, 'w, 'r, 'f) kernel" where
  "flat_kernel = \<lparr>
     ptrace_getregs = (\<lambda>k pid. (Inr (flat_regs k), k)),
     ptrace_setregs = (\<lambda>k pid r. (Inr (), k\<lparr> flat_regs := r \<rparr>)),
     ptrace_getfpregs = (\<lambda>k pid. (Inr (flat_fpregs k), k)),
     ptrace_setfpregs = (\<lambda>k pid f. (Inr (), k\<lparr> flat_fpregs := f \<rparr>)),
     ptrace_write_d = (\<lambda>k pid a w. (Inr (), k\<lparr> flat_mem := store (flat_mem k) a (le_bytes (sizeof_long TYPE('w)) w) \<rparr>)),
     ptrace_peek_debugreg = (\<lambda>k pid n. (Inr (flat_dr k n), k)),
     ptrace_poke_debugreg = (\<lambda>k pid n v. (Inr (), k\<lparr> flat_dr := (flat_dr k)(n := v) \<rparr>)),
     ptrace_continue = (\<lambda>k pid sig. (Inr (), k)),
     ptrace_step = (\<lambda>k pid sig. (Inr (), k)),
     ptrace_kill = (\<lambda>k pid. (Inr (), k)),
     ptrace_attach = (\<lambda>k pid. (Inr (), k)),
     ptrace_detach = (\<lambda>k pid. (Inr (), k)),
     ptrace_setoptions = (\<lambda>k pid opts. (Inr (), k)),
     ptrace_geteventmsg = (\<lambda>k pid. (Inr 4711, k)),
     pread64 = (\<lambda>k fd n off. (Inr (load (flat_mem k) (ucast off) (unat n)), k)),
     open_proc_mem = (\<lambda>k pid. (Inr 3, k)),
     close_fd = (\<lambda>k fd. k),
     proc_stat_exists = (\<lambda>k pid. True),
     sys_tkill = (\<lambda>k pid sig. (Inr (), k)),
     sys_kill = (\<lambda>k pid sig. (Inr (), k)),
     waitpid = (\<lambda>k pid nohang. (Inr (pid, 0x057f), k)),
     read_task_dir = (\<lambda>k pid. Some [''1234'']),
     readlink_exe = (\<lambda>k pid. Inr ''/bin/true''),
     readlink_cwd = (\<lambda>k pid. Inr ''/''),
     read_cmdline = (\<lambda>k pid. Some [CHR ''a'', CHR 0x00]),
     sys_pipe = (\<lambda>k. ((3, 4), k)),
     sys_fork = (\<lambda>k. (Inr 1234, k)),
     sys_read = (\<lambda>k fd n. (Inr [], k)),
     sys_poll = (\<lambda>k fd1 fd2. (Inr (POLLHUP, POLLHUP), k)) \<rparr>"

lemma flat_kernel_fields [simp]:
  "ptrace_getregs flat_kernel k pid = (Inr (flat_regs k), k)"
  "ptrace_setregs flat_kernel k pid r = (Inr (), k\<lparr> flat_regs := r \<rparr>)"
  "ptrace_getfpregs flat_kernel k pid = (Inr (flat_fpregs k), k)"
  "ptrace_setfpregs flat_kernel k pid f = (Inr (), k\<lparr> flat_fpregs := f \<rparr>)"
  "ptrace_peek_debugreg flat_kernel k pid n = (Inr (flat_dr k n), k)"
  "ptrace_poke_debugreg flat_kernel k pid n v = (Inr (), k\<lparr> flat_dr := (flat_dr k)(n := v) \<rparr>)"
  "ptrace_continue flat_kernel k pid sig = (Inr (), k)"
  "ptrace_step flat_kernel k pid sig = (Inr (), k)"
  "ptrace_geteventmsg flat_kernel k pid = (Inr 4711, k)"
  "pread64 flat_kernel k fd sz off = (Inr (load (flat_mem k) (ucast off) (unat sz)), k)"
  by (simp_all add: flat_kernel_def)

lemma flat_target_memory: "target_memory flat_kernel pid fd UNIV (\<lambda>_. True) flat_mem"
  by (simp add: target_memory_def flat_kernel_def)

text \<open>A server that has just been created on such a target, with no Mono runtime.\<close>

definition empty_store :: bp_store where
  "empty_store = \<lparr> bp_heap = Map.empty, bp_next = 0, last_breakpoint_id = 0, bpm_mutex = 0 \<rparr>"

definition flat_server :: "'a \<Rightarrow> ('w, 'r, 'f) flat \<Rightarrow> (('w, 'r, 'f) flat, 'w::len, 'a) server" where
  "flat_server a k = server_ptrace_create_inferior a mono_debugger_breakpoint_manager_new empty_store k"

lemma flat_server_fields [simp]:
  "bp_heap (flat_server a k) = Map.empty" "bp_next (flat_server a k) = 0" "last_breakpoint_id (flat_server a k) = 0"
  "bpm_mutex (flat_server a k) = 0" "kern (flat_server a k) = k" "inferior (flat_server a k) = InferiorHandle_zero"
  "arch (flat_server a k) = a" "mono_runtime (flat_server a k) = None"
  "bpm (flat_server a k) = mono_debugger_breakpoint_manager_new"
  by (simp_all add: flat_server_def server_ptrace_create_inferior_def empty_store_def bp_store.defs)

lemma bpm_new_fields [simp]:
  "breakpoints mono_debugger_breakpoint_manager_new = []"
  "breakpoint_hash mono_debugger_breakpoint_manager_new = Map.empty"
  "breakpoint_by_addr mono_debugger_breakpoint_manager_new = Map.empty"
  by (simp_all add: mono_debugger_breakpoint_manager_new_def)

text \<open>A fresh server satisfies the invariants.\<close>

lemma server_ok_fresh:
  assumes "bpm s = mono_debugger_breakpoint_manager_new" "hw_bpm (arch s) = mono_debugger_breakpoint_manager_new"
    "length (dr_regs (arch s)) = DR_NADDR" "bp_heap s = Map.empty" "0 \<le> last_breakpoint_id s"
  shows "server_ok s"
  using assms
  by (simp add: server_ok_def managers_ok_def store_ok_def bpm_addrs_sound_def)

lemma memory_ok_flat:
  assumes "hw_bpm a = mono_debugger_breakpoint_manager_new" "length (dr_regs a) = DR_NADDR"
  shows "memory_ok flat_kernel (flat_server a k) UNIV (\<lambda>_. True) flat_mem"
  using assms server_ok_fresh [of "flat_server a k"] flat_target_memory
  by (simp add: memory_ok_def target_ready_def planted_def table_ok_def runtime_area_def addrs_canonical_def)

end
