(* ===== verification/I386_Arch.thy ===== *)
theory I386_Arch
  imports Breakpoint_Memory
begin

text \<open>
  The 32-bit architecture file, \<open>i386-arch.c\<close>. The registers of \<open>struct user_regs_struct\<close> are of
  type \<open>long\<close>: where the source converts one to \<open>guint64\<close> without a cast to \<open>guint32\<close> the
  conversion sign-extends (\<open>scast\<close>), elsewhere it zero-extends (\<open>ucast\<close>).
\<close>

section \<open>Registers\<close>

record i386_regs =
  ebx :: guint32
  ecx :: guint32
  edx :: guint32
  esi :: guint32
  edi :: guint32
  ebp :: guint32
  eax :: guint32
  xds :: guint32
  xes :: guint32
  xfs :: guint32
  xgs :: guint32
  orig_eax :: guint32
  eip :: guint32
  xcs :: guint32
  eflags :: guint32
  esp :: guint32
  xss :: guint32

type_synonym 'f i386_ArchInfo = "(32, i386_regs, 'f) ArchInfo"
type_synonym ('k, 'f) i386_server = "('k, 32, 'f i386_ArchInfo) server"
type_synonym ('k, 'f) i386_kernel = "('k, 32, i386_regs, 'f) kernel"
type_synonym 'f i386_CallbackData = "(32, i386_regs, 'f) CallbackData"

text \<open>The struct as it lies in memory.\<close>

definition i386_regs_list :: "i386_regs \<Rightarrow> guint32 list" where
  "i386_regs_list r = [ebx r, ecx r, edx r, esi r, edi r, ebp r, eax r, xds r, xes r, xfs r, xgs r,
     orig_eax r, eip r, xcs r, eflags r, esp r, xss r]"

definition i386_regs_bytes :: "i386_regs \<Rightarrow> guint8 list" where
  "i386_regs_bytes r = concat (map le32 (i386_regs_list r))"

definition i386_regs_at :: "guint8 list \<Rightarrow> nat \<Rightarrow> guint32" where
  "i386_regs_at buf i = le_word (get_bytes (4 * i) 4 buf)"

definition i386_regs_of_bytes :: "guint8 list \<Rightarrow> i386_regs" where
  "i386_regs_of_bytes b = \<lparr> ebx = i386_regs_at b 0, ecx = i386_regs_at b 1, edx = i386_regs_at b 2,
     esi = i386_regs_at b 3, edi = i386_regs_at b 4, ebp = i386_regs_at b 5, eax = i386_regs_at b 6,
     xds = i386_regs_at b 7, xes = i386_regs_at b 8, xfs = i386_regs_at b 9, xgs = i386_regs_at b 10,
     orig_eax = i386_regs_at b 11, eip = i386_regs_at b 12, xcs = i386_regs_at b 13,
     eflags = i386_regs_at b 14, esp = i386_regs_at b 15, xss = i386_regs_at b 16 \<rparr>"

definition i386_sizeof_regs :: nat where "i386_sizeof_regs = 68"

definition i386_arch_initialize :: "i386_regs \<Rightarrow> 'f \<Rightarrow> 'f i386_ArchInfo" where
  "i386_arch_initialize zero_regs zero_fpregs =
     \<lparr> current_regs = zero_regs, current_fpregs = zero_fpregs, callback_stack = [], code_buffer = None,
       dr_control = 0, dr_status = 0, hw_bpm = mono_debugger_breakpoint_manager_new,
       dr_regs = replicate DR_NADDR 0 \<rparr>"

definition i386_current_insn_is_bpt :: "('k, 'f) i386_server \<Rightarrow> ServerCommandError \<times> bool \<times> ('k, 'f) i386_server" where
  "i386_current_insn_is_bpt s =
     (let s = mono_debugger_breakpoint_manager_lock s;
          is_breakpoint =
            (mono_debugger_breakpoint_manager_lookup (hw_bpm (arch s)) (scast (eip (current_regs (arch s)))) \<noteq> None \<or>
             mono_debugger_breakpoint_manager_lookup (bpm s) (scast (eip (current_regs (arch s)))) \<noteq> None) in
      (COMMAND_ERROR_NONE, is_breakpoint, mono_debugger_breakpoint_manager_unlock s))"

text \<open>The functions that the two architecture files share, at this width.\<close>

definition i386_remove_breakpoints_from_target_memory :: "('k, 32, 'f i386_ArchInfo) remove_breakpoints_fn" where
  "i386_remove_breakpoints_from_target_memory = x86_arch_remove_breakpoints_from_target_memory"

definition i386_get_registers_from_target :: "('k, 'f) i386_kernel \<Rightarrow> ('k, 32, 'f i386_ArchInfo) server_fn" where
  "i386_get_registers_from_target = x86_arch_get_registers"

definition i386_get_frame ::
  "('k, 'f) i386_kernel \<Rightarrow> ('k, 'f) i386_server \<Rightarrow> StackFrame \<Rightarrow>
     ServerCommandError \<times> StackFrame \<times> ('k, 'f) i386_server" where
  "i386_get_frame K s frame =
     (case x86_arch_get_registers K s of (result, s) \<Rightarrow>
        if result \<noteq> COMMAND_ERROR_NONE then (result, frame, s)
        else (COMMAND_ERROR_NONE,
              \<lparr> frame_pc = ucast (eip (current_regs (arch s))),
                frame_stack_pointer = ucast (esp (current_regs (arch s))),
                frame_address = ucast (ebp (current_regs (arch s))) \<rparr>, s))"

section \<open>Calling a method in the target\<close>

text \<open>
  Every \<open>call_method\<close> variant saves the registers in a new \<open>CallbackData\<close>, writes a block below
  the stack pointer and then, with registers \<open>regs\<close> for the call: makes the block executable,
  pushes \<open>cdata\<close>, writes the registers and continues the target.
\<close>

definition i386_start_call ::
  "('k, 'f) i386_kernel \<Rightarrow> ('k, 'f) i386_server \<Rightarrow> guint32 \<Rightarrow> guint8 list \<Rightarrow> 'f i386_CallbackData \<Rightarrow> i386_regs \<Rightarrow>
     (ServerCommandError \<times> ('k, 'f) i386_server) option" where
  "i386_start_call K s new_esp code cdata regs = do {
     (result, s) \<leftarrow> server_ptrace_write_memory K s (ucast new_esp) code;
     if result \<noteq> COMMAND_ERROR_NONE then Some (result, s)
     else do {
       let result = priv_server_ptrace_make_memory_executable s (ucast new_esp) (of_nat (length code));
       if result \<noteq> COMMAND_ERROR_NONE then Some (result, s)
       else do {
         let s = set_current_regs regs s;
         let s = s\<lparr> arch := (arch s)\<lparr> callback_stack := callback_stack (arch s) @ [cdata] \<rparr> \<rparr>;
         let (result, s) = priv_server_ptrace_set_registers K s (current_regs (arch s));
         if result \<noteq> COMMAND_ERROR_NONE then Some (result, s)
         else Some (server_ptrace_continue K s)
       }
     }
   }"

text \<open>The saved state of a call: the registers, the pending signal (which is cleared) and the
  callback's argument.\<close>

definition i386_new_cdata :: "('k, 'f) i386_server \<Rightarrow> guint64 \<Rightarrow> 'f i386_CallbackData" where
  "i386_new_cdata s cb_arg =
     (CallbackData_new (current_regs (arch s)) (current_fpregs (arch s)))
       \<lparr> callback_argument := cb_arg, saved_signal := last_signal (inferior s) \<rparr>"

definition i386_call_method ::
  "('k, 'f) i386_kernel \<Rightarrow> ('k, 'f) i386_server \<Rightarrow> guint64 \<Rightarrow> guint64 \<Rightarrow> guint64 \<Rightarrow> guint64 \<Rightarrow>
     (ServerCommandError \<times> ('k, 'f) i386_server) option" where
  "i386_call_method K s method_address method_argument1 method_argument2 cb_arg =
     (let regs = current_regs (arch s);
          code = [0x68, 0x00, 0x00, 0x00, 0x00, 0x68, 0x00, 0x00,
                  0x00, 0x00, 0x68, 0x00, 0x00, 0x00, 0x00, 0x68,
                  0x00, 0x00, 0x00, 0x00, 0xe8, 0x00, 0x00, 0x00,
                  0x00, 0xcc];
          new_esp = esp regs - of_nat (length code);
          cdata = (i386_new_cdata s cb_arg)
            \<lparr> call_address := new_esp + 26, stack_pointer := new_esp - 16 \<rparr>;
          s = set_last_signal 0 s;
          call_disp = ucast method_address - new_esp;
          code = put_bytes 1 (le32 (ucast (drop_bit 32 method_argument2))) code;
          code = put_bytes 6 (le32 (ucast (method_argument2 AND 0xffffffff))) code;
          code = put_bytes 11 (le32 (ucast (drop_bit 32 method_argument1))) code;
          code = put_bytes 16 (le32 (ucast (method_argument1 AND 0xffffffff))) code;
          code = put_bytes 21 (le32 (call_disp - 25)) code in
      i386_start_call K s new_esp code cdata (regs\<lparr> orig_eax := -1, esp := new_esp, eip := new_esp \<rparr>))"

text \<open>The argument \<open>string_argument\<close> is a C string: \<open>strlen\<close> and \<open>strcpy\<close> stop at its zero byte.\<close>

definition i386_call_method_1 ::
  "('k, 'f) i386_kernel \<Rightarrow> ('k, 'f) i386_server \<Rightarrow> guint64 \<Rightarrow> guint64 \<Rightarrow> guint64 \<Rightarrow> guint64 \<Rightarrow> guint8 list \<Rightarrow>
     guint64 \<Rightarrow> (ServerCommandError \<times> ('k, 'f) i386_server) option" where
  "i386_call_method_1 K s method_address method_argument data_argument data_argument2 string_argument
       cb_arg = do {
     let regs = current_regs (arch s);
     let static_code = [0x68, 0x00, 0x00, 0x00, 0x00, 0x68, 0x00, 0x00,
                        0x00, 0x00, 0x68, 0x00, 0x00, 0x00, 0x00, 0x68,
                        0x00, 0x00, 0x00, 0x00, 0x68, 0x00, 0x00, 0x00,
                        0x00, 0x68, 0x00, 0x00, 0x00, 0x00, 0x68, 0x00,
                        0x00, 0x00, 0x00, 0xe8, 0x00, 0x00, 0x00, 0x00,
                        0xcc];
     let static_size = length static_code;
     let size = static_size + length (c_bytes string_argument) + 1;
     code \<leftarrow> g_malloc0 size;
     let code = put_bytes 0 static_code code;
     let code = put_bytes static_size (c_bytes string_argument @ [0]) code;
     let new_esp = esp regs - of_nat size;
     let cdata = (i386_new_cdata s cb_arg)
           \<lparr> call_address := new_esp + of_nat static_size, stack_pointer := new_esp - 28 \<rparr>;
     let s = set_last_signal 0 s;
     let call_disp = ucast method_address - new_esp;
     let code = put_bytes 1 (le32 (new_esp + of_nat static_size)) code;
     let code = put_bytes 6 (le32 (ucast (drop_bit 32 data_argument2))) code;
     let code = put_bytes 11 (le32 (ucast (data_argument2 AND 0xffffffff))) code;
     let code = put_bytes 16 (le32 (ucast (drop_bit 32 data_argument))) code;
     let code = put_bytes 21 (le32 (ucast (data_argument AND 0xffffffff))) code;
     let code = put_bytes 26 (le32 (ucast (drop_bit 32 method_argument))) code;
     let code = put_bytes 31 (le32 (ucast (method_argument AND 0xffffffff))) code;
     let code = put_bytes 36 (le32 (call_disp - 40)) code;
     i386_start_call K s new_esp code cdata (regs\<lparr> orig_eax := -1, esp := new_esp, eip := new_esp \<rparr>)
   }"

text \<open>The caller's \<open>data_buffer\<close> has \<open>data_size\<close> bytes.\<close>

definition i386_call_method_2 ::
  "('k, 'f) i386_kernel \<Rightarrow> ('k, 'f) i386_server \<Rightarrow> guint64 \<Rightarrow> guint8 list \<Rightarrow> guint64 \<Rightarrow>
     (ServerCommandError \<times> ('k, 'f) i386_server) option" where
  "i386_call_method_2 K s method_address data_buffer cb_arg = do {
     let regs = current_regs (arch s);
     let size = 57 + length data_buffer;
     code \<leftarrow> g_malloc0 size;
     let new_esp = esp regs - of_nat size;
     let code = put_bytes 0 (le32 (new_esp + of_nat size - 1)) code;
     let code = put_bytes 4 (le64 (ucast (new_esp + 20))) code;
     let code = put_bytes 12 (le64 (ucast (new_esp + 56))) code;
     let code = put_bytes 20 (le32 (eax regs)) code;
     let code = put_bytes 24 (le32 (ebx regs)) code;
     let code = put_bytes 28 (le32 (ecx regs)) code;
     let code = put_bytes 32 (le32 (edx regs)) code;
     let code = put_bytes 36 (le32 (ebp regs)) code;
     let code = put_bytes 40 (le32 (esp regs)) code;
     let code = put_bytes 44 (le32 (esi regs)) code;
     let code = put_bytes 48 (le32 (edi regs)) code;
     let code = put_bytes 52 (le32 (eip regs)) code;
     let code = put_bytes (length data_buffer + 56) [0xcc] code;
     let cdata = (i386_new_cdata s cb_arg)
           \<lparr> call_address := new_esp + of_nat size, stack_pointer := new_esp + 4, exc_address := 0,
             pushed_registers := new_esp + 4 \<rparr>;
     let s = set_last_signal 0 s;
     let code = (if data_buffer \<noteq> [] then put_bytes 56 data_buffer code else code);
     let cdata = (if data_buffer \<noteq> [] then cdata\<lparr> data_pointer := new_esp + 56,
                    data_size := of_nat (length data_buffer) \<rparr> else cdata);
     i386_start_call K s new_esp code cdata
       (regs\<lparr> orig_eax := -1, eip := ucast method_address, esp := new_esp \<rparr>)
   }"

definition i386_call_method_3 ::
  "('k, 'f) i386_kernel \<Rightarrow> ('k, 'f) i386_server \<Rightarrow> guint64 \<Rightarrow> guint64 \<Rightarrow> guint64 \<Rightarrow> guint8 list \<Rightarrow> guint64 \<Rightarrow>
     (ServerCommandError \<times> ('k, 'f) i386_server) option" where
  "i386_call_method_3 K s method_address method_argument address_argument blob_data cb_arg = do {
     let regs = current_regs (arch s);
     let static_code = [0x00, 0x00, 0x00, 0x00, 0x00, 0x00, 0x00, 0x00,
                        0x00, 0x00, 0x00, 0x00, 0x00, 0x00, 0x00, 0x00,
                        0x00, 0x00, 0x00, 0x00, 0x00, 0x00, 0x00, 0x00,
                        0xcc];
     let static_size = length static_code;
     let size = static_size + length blob_data;
     code \<leftarrow> g_malloc0 size;
     let code = put_bytes 0 static_code code;
     let code = put_bytes static_size blob_data code;
     let new_esp = esp regs - of_nat size;
     let blob_start = new_esp + of_nat static_size;
     let effective_address = (if address_argument \<noteq> 0 then ucast address_argument else blob_start);
     let code = put_bytes 0 (le32 (new_esp + of_nat static_size - 1)) code;
     let code = put_bytes 4 (le32 (ucast method_argument)) code;
     let code = put_bytes 12 (le32 effective_address) code;
     let code = put_bytes 20 (le32 new_esp) code;
     let cdata = (i386_new_cdata s cb_arg)
           \<lparr> call_address := new_esp + of_nat static_size, stack_pointer := new_esp + 4 \<rparr>;
     let s = set_last_signal 0 s;
     i386_start_call K s new_esp code cdata
       (regs\<lparr> orig_eax := -1, eip := ucast method_address, esp := new_esp, ebp := 0 \<rparr>)
   }"

text \<open>The loop of \<open>call_method_invoke\<close> over the parameters: an offset into the blob, or a value.\<close>

fun i386_invoke_params :: "guint32 \<Rightarrow> (guint64 \<times> int) list \<Rightarrow> guint8 list" where
  "i386_invoke_params blob_start [] = []"
| "i386_invoke_params blob_start ((param, offset) # ps) =
     le32 (if 0 \<le> offset then blob_start + word_of_int offset else ucast param)
       @ i386_invoke_params blob_start ps"

definition i386_call_method_invoke ::
  "('k, 'f) i386_kernel \<Rightarrow> ('k, 'f) i386_server \<Rightarrow> guint64 \<Rightarrow> guint64 \<Rightarrow> (guint64 \<times> int) list \<Rightarrow> guint8 list \<Rightarrow>
     guint64 \<Rightarrow> bool \<Rightarrow> (ServerCommandError \<times> ('k, 'f) i386_server) option" where
  "i386_call_method_invoke K s invoke_method method_argument params blob_data cb_arg dbg = do {
     let regs = current_regs (arch s);
     let static_code = [0x00, 0x00, 0x00, 0x00, 0x00, 0x00, 0x00, 0x00,
                        0x00, 0x00, 0x00, 0x00, 0x00, 0x00, 0x00, 0x00,
                        0x00, 0x00, 0x00, 0x00, 0x00, 0x00, 0x00, 0x00,
                        0xcc];
     let static_size = length static_code;
     let blob_size = length blob_data;
     let size = static_size + (length params + 3) * 4 + blob_size;
     code \<leftarrow> g_malloc0 size;
     let code = put_bytes 0 static_code code;
     let code = put_bytes static_size blob_data code;
     let new_esp = esp regs - of_nat size;
     let blob_start = new_esp + of_nat static_size;
     let code = put_bytes (static_size + blob_size) (i386_invoke_params blob_start params) code;
     let ptr0 = get_bytes (static_size + blob_size) 4 code;
     let code = put_bytes 0 (le32 (new_esp + of_nat static_size - 1)) code;
     let code = put_bytes 4 (le32 (ucast method_argument)) code;
     let code = put_bytes 8 ptr0 code;
     let code = put_bytes 12 (le32 (new_esp + of_nat static_size + of_nat blob_size + 4)) code;
     let code = put_bytes 16 (le32 (new_esp + 20)) code;
     let cdata = (i386_new_cdata s cb_arg)
           \<lparr> call_address := new_esp + of_nat static_size, stack_pointer := new_esp + 4,
             exc_address := new_esp + 20, debug := dbg, is_rti := True \<rparr>;
     let s = set_last_signal 0 s;
     i386_start_call K s new_esp code cdata
       (regs\<lparr> orig_eax := -1, eip := ucast invoke_method, esp := new_esp, ebp := 0 \<rparr>)
   }"

section \<open>Why did the target stop?\<close>

definition i386_restore_pushed :: "guint8 list \<Rightarrow> i386_regs \<Rightarrow> i386_regs" where
  "i386_restore_pushed pushed_regs r = r\<lparr>
     eax := i386_regs_at pushed_regs 0, ebx := i386_regs_at pushed_regs 1,
     ecx := i386_regs_at pushed_regs 2, edx := i386_regs_at pushed_regs 3,
     ebp := i386_regs_at pushed_regs 4, esp := i386_regs_at pushed_regs 5,
     esi := i386_regs_at pushed_regs 6, edi := i386_regs_at pushed_regs 7,
     eip := i386_regs_at pushed_regs 8 \<rparr>"

text \<open>The branch of \<open>x86_arch_child_stopped\<close> for a method call that has returned.\<close>

definition i386_callback_returned ::
  "('k, 'f) i386_kernel \<Rightarrow> ('k, 'f) i386_server \<Rightarrow> 'f i386_CallbackData \<Rightarrow>
     (ChildStoppedAction \<times> stop_data \<times> ('k, 'f) i386_server) option" where
  "i386_callback_returned K s cdata = do {
     (cdata, s) \<leftarrow> (if pushed_registers cdata \<noteq> 0 then do {
         (result, s, pushed_regs) \<leftarrow> priv_server_ptrace_read_memory K s (ucast (pushed_registers cdata)) 36;
         if result \<noteq> COMMAND_ERROR_NONE then None
         else Some (cdata\<lparr> saved_regs := i386_restore_pushed pushed_regs (saved_regs cdata) \<rparr>, s)
       } else Some (cdata, s));
     let (result, s) = priv_server_ptrace_set_registers K s (saved_regs cdata);
     if result \<noteq> COMMAND_ERROR_NONE then None
     else do {
       let (result, s) = priv_server_ptrace_set_fp_registers K s (saved_fpregs cdata);
       if result \<noteq> COMMAND_ERROR_NONE then None
       else do {
         let ret = ucast (eax (current_regs (arch s)));
         (opt, s) \<leftarrow> callback_data_buffer K s cdata;
         (exc_object, s) \<leftarrow> callback_exc_object K s cdata;
         Some (callback_done K s cdata
           \<lparr> callback_arg = Some (callback_argument cdata), retval = Some ret,
             retval2 = map_option (\<lambda>bs. ucast (le_word bs :: guint32)) exc_object,
             opt_data = Some opt \<rparr>)
       }
     }
   }"

text \<open>The branch for the one instruction that \<open>execute_instruction\<close> single-steps.\<close>

definition i386_code_buffer_done ::
  "('k, 'f) i386_kernel \<Rightarrow> ('k, 'f) i386_server \<Rightarrow> 32 CodeBufferData \<Rightarrow>
     (ChildStoppedAction \<times> stop_data \<times> ('k, 'f) i386_server) option" where
  "i386_code_buffer_done K s cbuffer = do {
     runtime \<leftarrow> mono_runtime s;
     if slot cbuffer < 0 \<or> int (length (executable_code_bitfield runtime)) \<le> slot cbuffer then None
     else do {
       let s = s\<lparr> mono_runtime := Some (runtime\<lparr> executable_code_bitfield :=
             (executable_code_bitfield runtime)[nat (slot cbuffer) := 0] \<rparr>) \<rparr>;
       let regs = current_regs (arch s);
       if code_address cbuffer + word_of_int (insn_size cbuffer) \<noteq> eip regs
       then Some (STOP_ACTION_STOPPED, no_stop_data, s)
       else do {
         let regs = regs\<lparr> eip := original_ip cbuffer \<rparr>;
         let regs = (if update_ip cbuffer then regs\<lparr> eip := eip regs + word_of_int (insn_size cbuffer) \<rparr> else regs);
         let s = set_current_regs regs s;
         let (result, s) = priv_server_ptrace_set_registers K s (current_regs (arch s));
         if result \<noteq> COMMAND_ERROR_NONE then None
         else Some (STOP_ACTION_STOPPED, no_stop_data, s\<lparr> arch := (arch s)\<lparr> code_buffer := None \<rparr> \<rparr>)
       }
     }
   }"

text \<open>The notification branch: the runtime passes three 64-bit values on the stack.\<close>

definition i386_notification ::
  "('k, 'f) i386_kernel \<Rightarrow> ('k, 'f) i386_server \<Rightarrow>
     (ChildStoppedAction \<times> stop_data \<times> ('k, 'f) i386_server) option" where
  "i386_notification K s = do {
     let addr = esp (current_regs (arch s)) + 4;
     (result, s, data) \<leftarrow> read_memory K s (ucast addr) 24;
     if result \<noteq> COMMAND_ERROR_NONE then Some (STOP_ACTION_STOPPED, no_stop_data, s)
     else Some (STOP_ACTION_NOTIFICATION,
       no_stop_data\<lparr> callback_arg := Some (le_word (get_bytes 0 8 data)),
         retval := Some (le_word (get_bytes 8 8 data)), retval2 := Some (le_word (get_bytes 16 8 data)) \<rparr>, s)
   }"

definition i386_child_stopped :: "('k, 'f) i386_kernel \<Rightarrow> ('k, 32, 'f i386_ArchInfo) child_stopped_fn" where
  "i386_child_stopped K s stopsig =
     (let (_, s) = x86_arch_get_registers K s; regs = current_regs (arch s) in
      if stopsig = SIGSTOP then Some (STOP_ACTION_INTERRUPTED, no_stop_data, s)
      else if stopsig \<noteq> SIGTRAP then Some (STOP_ACTION_STOPPED, no_stop_data, s)
      else if (case mono_runtime s of None \<Rightarrow> False
               | Some runtime \<Rightarrow> ucast (eip regs - 1) = notification_address runtime)
      then i386_notification K s
      else case watch_hit_loop (dr_status (arch s)) [0..<DR_NADDR] of
        Some i \<Rightarrow>
          (let (_, s) = priv_server_ptrace_set_dr K s DR_STATUS 0;
               s = s\<lparr> arch := (arch s)\<lparr> dr_status := 0 \<rparr> \<rparr> in
           Some (STOP_ACTION_BREAKPOINT_HIT,
             no_stop_data\<lparr> retval := Some (word_of_int (dr_regs (arch s) ! i)) \<rparr>, s))
      | None \<Rightarrow> do {
          (hit, s) \<leftarrow> check_breakpoint s (ucast (eip regs - 1));
          case hit of
            Some bpid \<Rightarrow>
              (let s = set_current_regs (regs\<lparr> eip := eip regs - 1 \<rparr>) s;
                   (_, s) = priv_server_ptrace_set_registers K s (current_regs (arch s)) in
               Some (STOP_ACTION_BREAKPOINT_HIT, no_stop_data\<lparr> retval := Some bpid \<rparr>, s))
          | None \<Rightarrow>
              (case get_callback_data (arch s) of
                 Some cdata \<Rightarrow>
                   if call_address cdata = eip regs then i386_callback_returned K s cdata
                   else (case code_buffer (arch s) of
                           Some cbuffer \<Rightarrow> i386_code_buffer_done K s cbuffer
                         | None \<Rightarrow> stopped_at_int3 K s (eip regs))
               | None \<Rightarrow>
                   (case code_buffer (arch s) of
                      Some cbuffer \<Rightarrow> i386_code_buffer_done K s cbuffer
                    | None \<Rightarrow> stopped_at_int3 K s (eip regs)))
        })"

section \<open>Register access\<close>

definition i386_get_target_info :: "ServerCommandError \<times> guint32 \<times> guint32 \<times> guint32 \<times> guint32" where
  "i386_get_target_info = (COMMAND_ERROR_NONE, 4, 4, of_nat (sizeof_long TYPE(32)), 0)"

definition i386_register_values :: "i386_regs \<Rightarrow> register_values \<Rightarrow> register_values" where
  "i386_register_values r values = values (
     DEBUGGER_REG_RBX := ucast (ebx r), DEBUGGER_REG_RCX := ucast (ecx r),
     DEBUGGER_REG_RDX := ucast (edx r), DEBUGGER_REG_RSI := ucast (esi r),
     DEBUGGER_REG_RDI := ucast (edi r), DEBUGGER_REG_RBP := ucast (ebp r),
     DEBUGGER_REG_RAX := ucast (eax r), DEBUGGER_REG_DS := ucast (xds r),
     DEBUGGER_REG_ES := ucast (xes r), DEBUGGER_REG_FS := ucast (xfs r),
     DEBUGGER_REG_GS := ucast (xgs r), DEBUGGER_REG_RIP := ucast (eip r),
     DEBUGGER_REG_CS := ucast (xcs r), DEBUGGER_REG_EFLAGS := ucast (eflags r),
     DEBUGGER_REG_RSP := ucast (esp r), DEBUGGER_REG_SS := ucast (xss r))"

definition i386_get_registers :: "('k, 'f) i386_server \<Rightarrow> register_values \<Rightarrow> ServerCommandError \<times> register_values" where
  "i386_get_registers s values = (COMMAND_ERROR_NONE, i386_register_values (current_regs (arch s)) values)"

definition i386_set_registers ::
  "('k, 'f) i386_kernel \<Rightarrow> ('k, 'f) i386_server \<Rightarrow> register_values \<Rightarrow> ServerCommandError \<times> ('k, 'f) i386_server" where
  "i386_set_registers K s values =
     (let s = set_current_regs ((current_regs (arch s))\<lparr>
          ebx := ucast (values DEBUGGER_REG_RBX), ecx := ucast (values DEBUGGER_REG_RCX),
          edx := ucast (values DEBUGGER_REG_RDX), esi := ucast (values DEBUGGER_REG_RSI),
          edi := ucast (values DEBUGGER_REG_RDI), ebp := ucast (values DEBUGGER_REG_RBP),
          eax := ucast (values DEBUGGER_REG_RAX), xds := ucast (values DEBUGGER_REG_DS),
          xes := ucast (values DEBUGGER_REG_ES), xfs := ucast (values DEBUGGER_REG_FS),
          xgs := ucast (values DEBUGGER_REG_GS), eip := ucast (values DEBUGGER_REG_RIP),
          xcs := ucast (values DEBUGGER_REG_CS), eflags := ucast (values DEBUGGER_REG_EFLAGS),
          esp := ucast (values DEBUGGER_REG_RSP), xss := ucast (values DEBUGGER_REG_SS) \<rparr>) s in
      priv_server_ptrace_set_registers K s (current_regs (arch s)))"

text \<open>\<open>*new_esp\<close> is written only if the registers could be set.\<close>

definition i386_push_registers ::
  "('k, 'f) i386_kernel \<Rightarrow> ('k, 'f) i386_server \<Rightarrow>
     (ServerCommandError \<times> guint64 option \<times> ('k, 'f) i386_server) option" where
  "i386_push_registers K s = do {
     let regs = current_regs (arch s);
     let s = set_current_regs (regs\<lparr> esp := esp regs - of_nat i386_sizeof_regs \<rparr>) s;
     let (result, s) = priv_server_ptrace_set_registers K s (current_regs (arch s));
     if result \<noteq> COMMAND_ERROR_NONE then Some (result, None, s)
     else do {
       let new_esp = scast (esp (current_regs (arch s)));
       (result, s) \<leftarrow> server_ptrace_write_memory K s new_esp (i386_regs_bytes (current_regs (arch s)));
       if result \<noteq> COMMAND_ERROR_NONE then Some (result, Some new_esp, s)
       else Some (COMMAND_ERROR_NONE, Some new_esp, s)
     }
   }"

definition i386_pop_registers ::
  "('k, 'f) i386_kernel \<Rightarrow> ('k, 'f) i386_server \<Rightarrow> ServerCommandError \<times> ('k, 'f) i386_server" where
  "i386_pop_registers K s =
     (let regs = current_regs (arch s);
          s = set_current_regs (regs\<lparr> esp := esp regs + of_nat i386_sizeof_regs \<rparr>) s in
      priv_server_ptrace_set_registers K s (current_regs (arch s)))"

definition i386_get_registers_from_core_file :: "register_values \<Rightarrow> guint8 list \<Rightarrow> register_values" where
  "i386_get_registers_from_core_file values buffer = i386_register_values (i386_regs_of_bytes buffer) values"

section \<open>Breakpoints\<close>

definition i386_runtime_info_disable_breakpoint ::
  "('k, 'f) i386_kernel \<Rightarrow> ('k, 32, 'f i386_ArchInfo) breakpoint_fn" where
  "i386_runtime_info_disable_breakpoint K s p = do {
     runtime \<leftarrow> mono_runtime s;
     breakpoint \<leftarrow> bp_heap s p;
     let slot = runtime_table_slot breakpoint;
     let index_address = breakpoint_table runtime + ucast (address_size runtime * word_of_int slot);
     let (result, s) = server_ptrace_poke_word K s index_address 0;
     if result \<noteq> COMMAND_ERROR_NONE then Some (result, s)
     else if slot < 0 \<or> int (length (breakpoint_table_bitfield runtime)) \<le> slot then None
     else Some (COMMAND_ERROR_NONE,
       s\<lparr> mono_runtime := Some (runtime\<lparr> breakpoint_table_bitfield :=
            (breakpoint_table_bitfield runtime)[nat slot := 0] \<rparr>) \<rparr>)
   }"

definition i386_rw_len :: "HardwareBreakpointType \<Rightarrow> guint32" where
  "i386_rw_len type = DR_RW_EXECUTE OR DR_LEN_1"

definition i386_enable_breakpoint_at :: "('k, 'f) i386_kernel \<Rightarrow> ('k, 32, 'f i386_ArchInfo) breakpoint_fn" where
  "i386_enable_breakpoint_at K = x86_arch_enable_breakpoint i386_rw_len K"

definition i386_disable_breakpoint_at :: "('k, 'f) i386_kernel \<Rightarrow> ('k, 32, 'f i386_ArchInfo) breakpoint_fn" where
  "i386_disable_breakpoint_at K = x86_arch_disable_breakpoint (i386_runtime_info_disable_breakpoint K) K"

definition i386_insert_breakpoint ::
  "('k, 'f) i386_kernel \<Rightarrow> ('k, 'f) i386_server \<Rightarrow> guint64 \<Rightarrow>
     (ServerCommandError \<times> guint32 option \<times> ('k, 'f) i386_server) option" where
  "i386_insert_breakpoint K = server_ptrace_insert_breakpoint (i386_enable_breakpoint_at K)"

definition i386_remove_breakpoint ::
  "('k, 'f) i386_kernel \<Rightarrow> ('k, 'f) i386_server \<Rightarrow> guint32 \<Rightarrow> (ServerCommandError \<times> ('k, 'f) i386_server) option" where
  "i386_remove_breakpoint K = server_ptrace_remove_breakpoint (i386_disable_breakpoint_at K)"

definition i386_insert_hw_breakpoint ::
  "('k, 'f) i386_kernel \<Rightarrow> ('k, 'f) i386_server \<Rightarrow> HardwareBreakpointType \<Rightarrow> guint64 \<Rightarrow>
     (ServerCommandError \<times> (guint32 \<times> guint32) option \<times> ('k, 'f) i386_server) option" where
  "i386_insert_hw_breakpoint K = server_ptrace_insert_hw_breakpoint (i386_enable_breakpoint_at K)"

definition i386_enable_breakpoint ::
  "('k, 'f) i386_kernel \<Rightarrow> ('k, 'f) i386_server \<Rightarrow> guint32 \<Rightarrow> (ServerCommandError \<times> ('k, 'f) i386_server) option" where
  "i386_enable_breakpoint K = server_ptrace_enable_breakpoint (i386_enable_breakpoint_at K)"

definition i386_disable_breakpoint ::
  "('k, 'f) i386_kernel \<Rightarrow> ('k, 'f) i386_server \<Rightarrow> guint32 \<Rightarrow> (ServerCommandError \<times> ('k, 'f) i386_server) option" where
  "i386_disable_breakpoint K = server_ptrace_disable_breakpoint (i386_disable_breakpoint_at K)"

section \<open>Executing one instruction, callback frames, notifications\<close>

definition i386_execute_instruction ::
  "('k, 'f) i386_kernel \<Rightarrow> ('k, 'f) i386_server \<Rightarrow> guint8 list \<Rightarrow> bool \<Rightarrow>
     (ServerCommandError \<times> ('k, 'f) i386_server) option" where
  "i386_execute_instruction K s instruction upd_ip = do {
     runtime \<leftarrow> mono_runtime s;
     if executable_code_buffer runtime = 0 then Some (COMMAND_ERROR_INTERNAL_ERROR, s)
     else do {
       (slot, runtime) \<leftarrow> find_code_buffer_slot runtime;
       let s = s\<lparr> mono_runtime := Some runtime \<rparr>;
       if slot < 0 then Some (COMMAND_ERROR_INTERNAL_ERROR, s)
       else if unat (executable_code_chunk_size runtime) < length instruction
       then Some (COMMAND_ERROR_INTERNAL_ERROR, s)
       else if code_buffer (arch s) \<noteq> None then Some (COMMAND_ERROR_INTERNAL_ERROR, s)
       else do {
         let addr = ucast (executable_code_buffer runtime + ucast (word_of_int slot * executable_code_chunk_size runtime));
         let regs = current_regs (arch s);
         let s = s\<lparr> arch := (arch s)\<lparr> code_buffer := Some
               \<lparr> slot = slot, insn_size = int (length instruction), update_ip = upd_ip,
                 code_address = addr, original_ip = eip regs \<rparr> \<rparr> \<rparr>;
         (result, s) \<leftarrow> server_ptrace_write_memory K s (ucast addr) instruction;
         if result \<noteq> COMMAND_ERROR_NONE then Some (result, s)
         else do {
           let s = set_current_regs (regs\<lparr> orig_eax := -1, eip := addr \<rparr>) s;
           let (result, s) = priv_server_ptrace_set_registers K s (current_regs (arch s));
           if result \<noteq> COMMAND_ERROR_NONE then Some (result, s)
           else Some (server_ptrace_step K s)
         }
       }
     }
   }"

definition i386_mark_rti_frame :: "('k, 'f) i386_server \<Rightarrow> ServerCommandError \<times> ('k, 'f) i386_server" where
  "i386_mark_rti_frame s =
     (case get_callback_data (arch s) of
        None \<Rightarrow> (COMMAND_ERROR_NO_CALLBACK_FRAME, s)
      | Some cdata \<Rightarrow> (COMMAND_ERROR_NONE,
          s\<lparr> arch := (arch s)\<lparr> callback_stack := butlast (callback_stack (arch s)) @
                [cdata\<lparr> rti_frame := esp (current_regs (arch s)) + 4 \<rparr>] \<rparr> \<rparr>))"

definition i386_abort_invoke ::
  "('k, 'f) i386_kernel \<Rightarrow> ('k, 'f) i386_server \<Rightarrow> guint64 \<Rightarrow> (ServerCommandError \<times> ('k, 'f) i386_server) option" where
  "i386_abort_invoke = server_ptrace_abort_invoke"

fun i386_get_callback_frame_loop ::
  "'f i386_CallbackData list \<Rightarrow> guint64 \<Rightarrow> bool \<Rightarrow> register_values \<Rightarrow> ServerCommandError \<times> register_values" where
  "i386_get_callback_frame_loop [] sp exact_match registers = (COMMAND_ERROR_NO_CALLBACK_FRAME, registers)"
| "i386_get_callback_frame_loop (cdata # rest) sp exact_match registers =
     (if rti_frame cdata \<noteq> 0 then
        (if (if exact_match then ucast (rti_frame cdata) \<noteq> sp else ucast (rti_frame cdata) < sp)
         then i386_get_callback_frame_loop rest sp exact_match registers
         else (COMMAND_ERROR_NONE, i386_register_values (saved_regs cdata) registers))
      else
        (if (if exact_match then ucast (stack_pointer cdata) \<noteq> sp else ucast (stack_pointer cdata) < sp)
         then i386_get_callback_frame_loop rest sp exact_match registers
         else (COMMAND_ERROR_NONE, i386_register_values (saved_regs cdata) registers)))"

definition i386_get_callback_frame ::
  "('k, 'f) i386_server \<Rightarrow> guint64 \<Rightarrow> bool \<Rightarrow> register_values \<Rightarrow> ServerCommandError \<times> register_values" where
  "i386_get_callback_frame s sp exact_match registers =
     i386_get_callback_frame_loop (callback_stack (arch s)) sp exact_match registers"

definition i386_restart_notification ::
  "('k, 'f) i386_kernel \<Rightarrow> ('k, 'f) i386_server \<Rightarrow> ServerCommandError \<times> ('k, 'f) i386_server" where
  "i386_restart_notification K s =
     (let regs = current_regs (arch s) in
      if (case mono_runtime s of None \<Rightarrow> True
          | Some runtime \<Rightarrow> scast (eip regs - 1) \<noteq> notification_address runtime)
      then (COMMAND_ERROR_INTERNAL_ERROR, s)
      else let s = set_current_regs (regs\<lparr> eip := eip regs - 1 \<rparr>) s in
        priv_server_ptrace_set_registers K s (current_regs (arch s)))"

section \<open>The architecture is a back end for the breakpoint commands\<close>

lemma i386_runtime_touches:
  assumes "i386_runtime_info_disable_breakpoint K s p = Some (r, s')" and "bp_heap s p = Some b"
  shows "touches_only p s s'"
proof -
  let ?addr = "\<lambda>rt. breakpoint_table rt + ucast (address_size rt * word_of_int (runtime_table_slot b))"
  obtain rt where rt: "mono_runtime s = Some rt" using assms by (auto simp: i386_runtime_info_disable_breakpoint_def)
  obtain r1 s1 where s1: "server_ptrace_poke_word K s (?addr rt) 0 = (r1, s1)" by force
  have k: "kern_only s s1" by (rule kern_only_op_eqs(3) [OF s1])
  have b1: "bp_heap s1 p = Some b" using assms(2) kern_only_fields(1) [OF k] by simp
  have "s' = s1 \<or> (\<exists>rt'. s' = s1\<lparr> mono_runtime := rt' \<rparr>)"
    using assms rt s1 by (auto simp: i386_runtime_info_disable_breakpoint_def Let_def split: if_splits)
  then show ?thesis
    using kern_only_touches [OF k assms(2)] touches_only_trans [OF _ touches_runtime [OF b1]] by blast
qed

interpretation i386_backend: breakpoint_backend
  "i386_enable_breakpoint_at (K :: ('k, 'f) i386_kernel)" "i386_disable_breakpoint_at K" for K
proof (standard, goal_cases)
  case 1 then show ?case by simp
next
  case 2 then show ?case unfolding i386_enable_breakpoint_at_def by (rule touches_enable)
next
  case (3 s p r s')
  show ?case
    by (rule touches_disable [OF _ 3 [unfolded i386_disable_breakpoint_at_def]]) (rule i386_runtime_touches)
qed

lemmas i386_backend_axioms = i386_backend.breakpoint_backend_axioms
  [unfolded i386_enable_breakpoint_at_def i386_disable_breakpoint_at_def]

lemma i386_index_address:
  fixes s :: "('k, 'f) i386_server"
  assumes "table_ok s" "mono_runtime s = Some rt" "slot_ok s b"
  shows "ucast (address_size rt * word_of_int (runtime_table_slot b)) =
    (of_nat (sizeof_long TYPE(32) * nat (runtime_table_slot b)) :: guint64)"
proof -
  let ?n = "nat (runtime_table_slot b)"
  have n: "int ?n = runtime_table_slot b" "?n < unat (breakpoint_table_size rt)" "4 * unat (breakpoint_table_size rt) < 2 ^ 32"
    "address_size rt = 4"
    using assms by (auto simp: table_ok_def slot_ok_def)
  have "(word_of_int (runtime_table_slot b) :: guint32) = of_nat ?n" using n(1) by (metis of_int_of_nat_eq)
  then have "address_size rt * word_of_int (runtime_table_slot b) = (of_nat (4 * ?n) :: guint32)"
    using n(4) by simp
  moreover have "4 * ?n < 2 ^ 32" using n(2,3) by linarith
  then have "(ucast (of_nat (4 * ?n) :: guint32) :: guint64) = of_nat (4 * ?n)"
    by (simp add: unsigned_of_nat take_bit_nat_eq_self del: of_nat_mult)
  ultimately show ?thesis by simp
qed

lemma i386_releases:
  "releases (i386_runtime_info_disable_breakpoint (K :: ('k, 'f) i386_kernel)) K A good M"
  unfolding releases_def
proof (intro allI impI, elim conjE)
  fix s :: "('k, 'f) i386_server" and p b
  assume tm: "target_memory K (inf_pid (inferior s)) (mem_fd (inferior s)) A good M" "good (kern s)" and t: "table_ok s"
    and area: "runtime_area s \<subseteq> A" and "mono_runtime s \<noteq> None" and b: "bp_heap s p = Some b" "slot_ok s b"
  then obtain rt where rt: "mono_runtime s = Some rt" by blast
  let ?n = "nat (runtime_table_slot b)" and ?W = "sizeof_long TYPE(32)"
  let ?a = "breakpoint_table rt + of_nat (?W * ?n)"
  have n: "?n < unat (breakpoint_table_size rt)" "0 \<le> runtime_table_slot b"
    "length (breakpoint_table_bitfield rt) = unat (breakpoint_table_size rt)"
    using b(2) rt t by (auto simp: slot_ok_def table_ok_def)
  then have "\<not> int (length (breakpoint_table_bitfield rt)) \<le> runtime_table_slot b" by linarith
  have sub: "span (ucast ?a) ?W \<subseteq> runtime_area s"
    using slot_area_sub [OF n(1) rt] by (auto simp: slot_area_def)
  then have map: "span (ucast ?a) ?W \<subseteq> A" using area by blast
  from poke_word_ok [OF tm map, of 0]
  obtain k where k: "server_ptrace_poke_word K s ?a 0 = (COMMAND_ERROR_NONE, s\<lparr> kern := k \<rparr>)" "good k"
    "\<And>x. x \<notin> span (ucast ?a) ?W \<Longrightarrow> M k x = M (kern s) x" by blast
  let ?s = "s\<lparr> kern := k, mono_runtime := Some (rt\<lparr> breakpoint_table_bitfield := (breakpoint_table_bitfield rt)[?n := 0] \<rparr>) \<rparr>"
  have "i386_runtime_info_disable_breakpoint K s p = Some (COMMAND_ERROR_NONE, ?s)"
    using rt b(1) k(1) n(2) \<open>\<not> _ \<le> _\<close> i386_index_address [OF t rt b(2)]
    by (simp add: i386_runtime_info_disable_breakpoint_def Let_def del: of_nat_mult)
  moreover have "same_table s ?s" by (rule same_table_bitfield [OF rt, where i = ?n and v = 0]) simp
  ultimately show "\<exists>s'. i386_runtime_info_disable_breakpoint K s p = Some (COMMAND_ERROR_NONE, s') \<and> good (kern s') \<and>
      same_table s s' \<and> bp_heap s' = bp_heap s \<and> (\<forall>x. x \<notin> runtime_area s \<longrightarrow> M (kern s') x = M (kern s) x)"
    using k(2,3) sub by (intro exI [of _ ?s]) auto
qed

end
