(* ===== verification/X86_64_Arch.thy ===== *)
theory X86_64_Arch
  imports Breakpoint_Memory
begin

text \<open>
  The 64-bit architecture file, \<open>x86_64-arch.c\<close>. The registers of \<open>struct user_regs_struct\<close> are
  unsigned 64-bit words, and a call's block is written below the red zone, at an address that
  is a multiple of 16.
\<close>

section \<open>Registers\<close>

record x86_64_regs =
  r15 :: guint64
  r14 :: guint64
  r13 :: guint64
  r12 :: guint64
  rbp :: guint64
  rbx :: guint64
  r11 :: guint64
  r10 :: guint64
  r9 :: guint64
  r8 :: guint64
  rax :: guint64
  rcx :: guint64
  rdx :: guint64
  rsi :: guint64
  rdi :: guint64
  orig_rax :: guint64
  rip :: guint64
  seg_cs :: guint64
  rflags :: guint64
  rsp :: guint64
  seg_ss :: guint64
  fs_base :: guint64
  gs_base :: guint64
  seg_ds :: guint64
  seg_es :: guint64
  seg_fs :: guint64
  seg_gs :: guint64

record (overloaded) 'f x86_64_ArchInfo = "(64, x86_64_regs, 'f) ArchInfo" +
  pushed_regs_rsp :: guint64

type_synonym ('k, 'f) x86_64_server = "('k, 64, 'f x86_64_ArchInfo) server"
type_synonym ('k, 'f) x86_64_kernel = "('k, 64, x86_64_regs, 'f) kernel"
type_synonym 'f x86_64_CallbackData = "(64, x86_64_regs, 'f) CallbackData"

text \<open>The struct as it lies in memory.\<close>

definition x86_64_regs_list :: "x86_64_regs \<Rightarrow> guint64 list" where
  "x86_64_regs_list r = [
     r15 r, r14 r, r13 r, r12 r, rbp r, rbx r, r11 r, r10 r, r9 r, r8 r, rax r, rcx r, rdx
     r, rsi r, rdi r, orig_rax r, rip r, seg_cs r, rflags r, rsp r, seg_ss r, fs_base r,
     gs_base r, seg_ds r, seg_es r, seg_fs r, seg_gs r]"

definition x86_64_regs_bytes :: "x86_64_regs \<Rightarrow> guint8 list" where
  "x86_64_regs_bytes r = concat (map le64 (x86_64_regs_list r))"

definition x86_64_regs_at :: "guint8 list \<Rightarrow> nat \<Rightarrow> guint64" where
  "x86_64_regs_at buf i = le_word (get_bytes (8 * i) 8 buf)"

definition x86_64_regs_of_bytes :: "guint8 list \<Rightarrow> x86_64_regs" where
  "x86_64_regs_of_bytes b = \<lparr>
     r15 = x86_64_regs_at b 0, r14 = x86_64_regs_at b 1, r13 = x86_64_regs_at b 2, r12 =
     x86_64_regs_at b 3, rbp = x86_64_regs_at b 4, rbx = x86_64_regs_at b 5, r11 =
     x86_64_regs_at b 6, r10 = x86_64_regs_at b 7, r9 = x86_64_regs_at b 8, r8 = x86_64_regs_at
     b 9, rax = x86_64_regs_at b 10, rcx = x86_64_regs_at b 11, rdx = x86_64_regs_at b 12, rsi
     = x86_64_regs_at b 13, rdi = x86_64_regs_at b 14, orig_rax = x86_64_regs_at b 15, rip =
     x86_64_regs_at b 16, seg_cs = x86_64_regs_at b 17, rflags = x86_64_regs_at b 18, rsp =
     x86_64_regs_at b 19, seg_ss = x86_64_regs_at b 20, fs_base = x86_64_regs_at b 21, gs_base
     = x86_64_regs_at b 22, seg_ds = x86_64_regs_at b 23, seg_es = x86_64_regs_at b 24, seg_fs
     = x86_64_regs_at b 25, seg_gs = x86_64_regs_at b 26 \<rparr>"

definition x86_64_sizeof_regs :: nat where "x86_64_sizeof_regs = 216"

definition AMD64_RED_ZONE_SIZE :: guint64 where "AMD64_RED_ZONE_SIZE = 128"

definition x86_64_arch_initialize :: "x86_64_regs \<Rightarrow> 'f \<Rightarrow> 'f x86_64_ArchInfo" where
  "x86_64_arch_initialize zero_regs zero_fpregs =
     \<lparr> current_regs = zero_regs, current_fpregs = zero_fpregs, callback_stack = [], code_buffer = None,
       dr_control = 0, dr_status = 0, hw_bpm = mono_debugger_breakpoint_manager_new,
       dr_regs = replicate DR_NADDR 0, pushed_regs_rsp = 0 \<rparr>"

definition x86_64_current_insn_is_bpt ::
  "('k, 'f) x86_64_server \<Rightarrow> ServerCommandError \<times> bool \<times> ('k, 'f) x86_64_server" where
  "x86_64_current_insn_is_bpt s =
     (let s = mono_debugger_breakpoint_manager_lock s;
          is_breakpoint =
            (mono_debugger_breakpoint_manager_lookup (hw_bpm (arch s)) (rip (current_regs (arch s))) \<noteq> None \<or>
             mono_debugger_breakpoint_manager_lookup (bpm s) (rip (current_regs (arch s))) \<noteq> None) in
      (COMMAND_ERROR_NONE, is_breakpoint, mono_debugger_breakpoint_manager_unlock s))"

text \<open>The functions that the two architecture files share, at this width.\<close>

definition x86_64_remove_breakpoints_from_target_memory ::
  "('k, 64, 'f x86_64_ArchInfo) remove_breakpoints_fn" where
  "x86_64_remove_breakpoints_from_target_memory = x86_arch_remove_breakpoints_from_target_memory"

definition x86_64_check_breakpoint ::
  "('k, 'f) x86_64_server \<Rightarrow> guint64 \<Rightarrow> (guint64 option \<times> ('k, 'f) x86_64_server) option" where
  "x86_64_check_breakpoint = check_breakpoint"

definition x86_64_lookup_breakpoint ::
  "('k, 'f) x86_64_server \<Rightarrow> guint32 \<Rightarrow> (bp_ptr \<times> manager) option \<times> ('k, 'f) x86_64_server" where
  "x86_64_lookup_breakpoint = lookup_breakpoint"

definition x86_64_get_registers_from_target ::
  "('k, 'f) x86_64_kernel \<Rightarrow> ('k, 64, 'f x86_64_ArchInfo) server_fn" where
  "x86_64_get_registers_from_target = x86_arch_get_registers"

definition x86_64_get_frame ::
  "('k, 'f) x86_64_kernel \<Rightarrow> ('k, 'f) x86_64_server \<Rightarrow> StackFrame \<Rightarrow>
     ServerCommandError \<times> StackFrame \<times> ('k, 'f) x86_64_server" where
  "x86_64_get_frame K s frame =
     (case x86_arch_get_registers K s of (result, s) \<Rightarrow>
        if result \<noteq> COMMAND_ERROR_NONE then (result, frame, s)
        else (COMMAND_ERROR_NONE,
              \<lparr> frame_pc = rip (current_regs (arch s)),
                frame_stack_pointer = rsp (current_regs (arch s)),
                frame_address = rbp (current_regs (arch s)) \<rparr>, s))"

section \<open>Why did the target stop?\<close>

definition x86_64_restore_pushed :: "guint8 list \<Rightarrow> x86_64_regs \<Rightarrow> x86_64_regs" where
  "x86_64_restore_pushed pushed_regs r = r\<lparr>
     rax := x86_64_regs_at pushed_regs 0,
     rbx := x86_64_regs_at pushed_regs 1,
     rcx := x86_64_regs_at pushed_regs 2,
     rdx := x86_64_regs_at pushed_regs 3,
     rbp := x86_64_regs_at pushed_regs 4,
     rsp := x86_64_regs_at pushed_regs 5,
     rsi := x86_64_regs_at pushed_regs 6,
     rdi := x86_64_regs_at pushed_regs 7,
     rip := x86_64_regs_at pushed_regs 8,
     r12 := x86_64_regs_at pushed_regs 9,
     r13 := x86_64_regs_at pushed_regs 10,
     r14 := x86_64_regs_at pushed_regs 11,
     r15 := x86_64_regs_at pushed_regs 12 \<rparr>"

text \<open>The branch of \<open>x86_arch_child_stopped\<close> for a method call that has returned.\<close>

definition x86_64_callback_returned ::
  "('k, 'f) x86_64_kernel \<Rightarrow> ('k, 'f) x86_64_server \<Rightarrow> 'f x86_64_CallbackData \<Rightarrow>
     (ChildStoppedAction \<times> stop_data \<times> ('k, 'f) x86_64_server) option" where
  "x86_64_callback_returned K s cdata = do {
     (cdata, s) \<leftarrow> (if pushed_registers cdata \<noteq> 0 then do {
         (result, s, pushed_regs) \<leftarrow> priv_server_ptrace_read_memory K s (pushed_registers cdata) 104;
         if result \<noteq> COMMAND_ERROR_NONE then None
         else Some (cdata\<lparr> saved_regs := x86_64_restore_pushed pushed_regs (saved_regs cdata) \<rparr>, s)
       } else Some (cdata, s));
     let (result, s) = priv_server_ptrace_set_registers K s (saved_regs cdata);
     if result \<noteq> COMMAND_ERROR_NONE then None
     else do {
       let (result, s) = priv_server_ptrace_set_fp_registers K s (saved_fpregs cdata);
       if result \<noteq> COMMAND_ERROR_NONE then None
       else do {
         let ret = rax (current_regs (arch s));
         (opt, s) \<leftarrow> callback_data_buffer K s cdata;
         (exc_object, s) \<leftarrow> callback_exc_object K s cdata;
         Some (callback_done K s cdata
           \<lparr> callback_arg = Some (callback_argument cdata), retval = Some ret,
             retval2 = map_option le_word exc_object, opt_data = Some opt \<rparr>)
       }
     }
   }"

text \<open>
  The branch for the one instruction that \<open>execute_instruction\<close> single-steps. When the target is
  not where it should be, the source reads eight bytes of the code buffer for a warning.
\<close>

definition x86_64_code_buffer_done ::
  "('k, 'f) x86_64_kernel \<Rightarrow> ('k, 'f) x86_64_server \<Rightarrow> 64 CodeBufferData \<Rightarrow>
     (ChildStoppedAction \<times> stop_data \<times> ('k, 'f) x86_64_server) option" where
  "x86_64_code_buffer_done K s cbuffer = do {
     runtime \<leftarrow> mono_runtime s;
     if slot cbuffer < 0 \<or> int (length (executable_code_bitfield runtime)) \<le> slot cbuffer then None
     else do {
       let s = s\<lparr> mono_runtime := Some (runtime\<lparr> executable_code_bitfield :=
             (executable_code_bitfield runtime)[nat (slot cbuffer) := 0] \<rparr>) \<rparr>;
       let regs = current_regs (arch s);
       if code_address cbuffer + word_of_int (insn_size cbuffer) \<noteq> rip regs
       then do {
         (_, s, _) \<leftarrow> read_memory K s (code_address cbuffer) 8;
         Some (STOP_ACTION_INTERNAL_ERROR, no_stop_data, s)
       }
       else do {
         let regs = regs\<lparr> rip := original_ip cbuffer \<rparr>;
         let regs = (if update_ip cbuffer then regs\<lparr> rip := rip regs + word_of_int (insn_size cbuffer) \<rparr> else regs);
         let s = set_current_regs regs s;
         let (result, s) = priv_server_ptrace_set_registers K s (current_regs (arch s));
         if result \<noteq> COMMAND_ERROR_NONE then None
         else Some (STOP_ACTION_STOPPED, no_stop_data, s\<lparr> arch := (arch s)\<lparr> code_buffer := None \<rparr> \<rparr>)
       }
     }
   }"

text \<open>The rest of \<open>x86_arch_child_stopped\<close>, once it is clear that no method call has returned.\<close>

definition x86_64_stopped_elsewhere :: "('k, 'f) x86_64_kernel \<Rightarrow> ('k, 64, 'f x86_64_ArchInfo) child_stopped_fn" where
  "x86_64_stopped_elsewhere K s stopsig =
     (let regs = current_regs (arch s) in
      if stopsig \<noteq> SIGTRAP then Some (STOP_ACTION_STOPPED, no_stop_data, s)
      else if (case mono_runtime s of None \<Rightarrow> False
               | Some runtime \<Rightarrow> rip regs - 1 = notification_address runtime)
      then Some (STOP_ACTION_NOTIFICATION,
             no_stop_data\<lparr> callback_arg := Some (rdi regs), retval := Some (rsi regs),
               retval2 := Some (rdx regs) \<rparr>, s)
      else case watch_hit_loop (dr_status (arch s)) [0..<DR_NADDR] of
        Some i \<Rightarrow>
          (let (_, s) = priv_server_ptrace_set_dr K s DR_STATUS 0;
               s = s\<lparr> arch := (arch s)\<lparr> dr_status := 0 \<rparr> \<rparr> in
           Some (STOP_ACTION_BREAKPOINT_HIT,
             no_stop_data\<lparr> retval := Some (word_of_int (dr_regs (arch s) ! i)) \<rparr>, s))
      | None \<Rightarrow> do {
          (hit, s) \<leftarrow> check_breakpoint s (rip regs - 1);
          case hit of
            Some bpid \<Rightarrow>
              (let s = set_current_regs (regs\<lparr> rip := rip regs - 1 \<rparr>) s;
                   (_, s) = priv_server_ptrace_set_registers K s (current_regs (arch s)) in
               Some (STOP_ACTION_BREAKPOINT_HIT, no_stop_data\<lparr> retval := Some bpid \<rparr>, s))
          | None \<Rightarrow>
              (case code_buffer (arch s) of
                 Some cbuffer \<Rightarrow> x86_64_code_buffer_done K s cbuffer
               | None \<Rightarrow> stopped_at_int3 K s (rip regs))
        })"

definition x86_64_child_stopped :: "('k, 'f) x86_64_kernel \<Rightarrow> ('k, 64, 'f x86_64_ArchInfo) child_stopped_fn" where
  "x86_64_child_stopped K s stopsig =
     (let (_, s) = x86_arch_get_registers K s; regs = current_regs (arch s) in
      if stopsig = SIGSTOP then Some (STOP_ACTION_INTERRUPTED, no_stop_data, s)
      else case get_callback_data (arch s) of
        Some cdata \<Rightarrow>
          if (stopsig = SIGSEGV \<and> call_address cdata = rip regs) \<or> call_address cdata = rip regs - 1
          then x86_64_callback_returned K s cdata
          else x86_64_stopped_elsewhere K s stopsig
      | None \<Rightarrow> x86_64_stopped_elsewhere K s stopsig)"

section \<open>Register access\<close>

definition x86_64_get_target_info :: "ServerCommandError \<times> guint32 \<times> guint32 \<times> guint32 \<times> guint32" where
  "x86_64_get_target_info =
     (COMMAND_ERROR_NONE, of_nat (sizeof_long TYPE(64)), 8, of_nat (sizeof_long TYPE(64)), 0)"

definition x86_64_register_values :: "x86_64_regs \<Rightarrow> register_values \<Rightarrow> register_values" where
  "x86_64_register_values r values = values (
     DEBUGGER_REG_R15 := r15 r,
     DEBUGGER_REG_R14 := r14 r,
     DEBUGGER_REG_R13 := r13 r,
     DEBUGGER_REG_R12 := r12 r,
     DEBUGGER_REG_RBP := rbp r,
     DEBUGGER_REG_RBX := rbx r,
     DEBUGGER_REG_R11 := r11 r,
     DEBUGGER_REG_R10 := r10 r,
     DEBUGGER_REG_R9 := r9 r,
     DEBUGGER_REG_R8 := r8 r,
     DEBUGGER_REG_RAX := rax r,
     DEBUGGER_REG_RCX := rcx r,
     DEBUGGER_REG_RDX := rdx r,
     DEBUGGER_REG_RSI := rsi r,
     DEBUGGER_REG_RDI := rdi r,
     DEBUGGER_REG_ORIG_RAX := orig_rax r,
     DEBUGGER_REG_RIP := rip r,
     DEBUGGER_REG_CS := seg_cs r,
     DEBUGGER_REG_EFLAGS := rflags r,
     DEBUGGER_REG_RSP := rsp r,
     DEBUGGER_REG_SS := seg_ss r,
     DEBUGGER_REG_FS_BASE := fs_base r,
     DEBUGGER_REG_GS_BASE := gs_base r,
     DEBUGGER_REG_DS := seg_ds r,
     DEBUGGER_REG_ES := seg_es r,
     DEBUGGER_REG_FS := seg_fs r,
     DEBUGGER_REG_GS := seg_gs r)"

definition x86_64_get_registers ::
  "('k, 'f) x86_64_server \<Rightarrow> register_values \<Rightarrow> ServerCommandError \<times> register_values" where
  "x86_64_get_registers s values = (COMMAND_ERROR_NONE, x86_64_register_values (current_regs (arch s)) values)"

definition x86_64_set_registers ::
  "('k, 'f) x86_64_kernel \<Rightarrow> ('k, 'f) x86_64_server \<Rightarrow> register_values \<Rightarrow>
     ServerCommandError \<times> ('k, 'f) x86_64_server" where
  "x86_64_set_registers K s values =
     (let s = set_current_regs ((current_regs (arch s))\<lparr>
          r15 := values DEBUGGER_REG_R15,
          r14 := values DEBUGGER_REG_R14,
          r13 := values DEBUGGER_REG_R13,
          r12 := values DEBUGGER_REG_R12,
          rbp := values DEBUGGER_REG_RBP,
          rbx := values DEBUGGER_REG_RBX,
          r11 := values DEBUGGER_REG_R11,
          r10 := values DEBUGGER_REG_R10,
          r9 := values DEBUGGER_REG_R9,
          r8 := values DEBUGGER_REG_R8,
          rax := values DEBUGGER_REG_RAX,
          rcx := values DEBUGGER_REG_RCX,
          rdx := values DEBUGGER_REG_RDX,
          rsi := values DEBUGGER_REG_RSI,
          rdi := values DEBUGGER_REG_RDI,
          orig_rax := values DEBUGGER_REG_ORIG_RAX,
          rip := values DEBUGGER_REG_RIP,
          seg_cs := values DEBUGGER_REG_CS,
          rflags := values DEBUGGER_REG_EFLAGS,
          rsp := values DEBUGGER_REG_RSP,
          seg_ss := values DEBUGGER_REG_SS,
          fs_base := values DEBUGGER_REG_FS_BASE,
          gs_base := values DEBUGGER_REG_GS_BASE,
          seg_ds := values DEBUGGER_REG_DS,
          seg_es := values DEBUGGER_REG_ES,
          seg_fs := values DEBUGGER_REG_FS,
          seg_gs := values DEBUGGER_REG_GS \<rparr>) s in
      priv_server_ptrace_set_registers K s (current_regs (arch s)))"

definition x86_64_push_registers ::
  "('k, 'f) x86_64_kernel \<Rightarrow> ('k, 'f) x86_64_server \<Rightarrow>
     (ServerCommandError \<times> guint64 option \<times> ('k, 'f) x86_64_server) option" where
  "x86_64_push_registers K s =
     (if pushed_regs_rsp (arch s) \<noteq> 0 then Some (COMMAND_ERROR_INTERNAL_ERROR, None, s)
      else do {
        let regs = current_regs (arch s);
        let s = s\<lparr> arch := (arch s)\<lparr> pushed_regs_rsp := rsp regs \<rparr> \<rparr>;
        let regs = regs\<lparr> rsp := rsp regs - (AMD64_RED_ZONE_SIZE + of_nat x86_64_sizeof_regs + 16) \<rparr>;
        let regs = regs\<lparr> rsp := rsp regs AND 0xfffffffffffffff0 \<rparr>;
        let s = set_current_regs regs s;
        let (result, s) = priv_server_ptrace_set_registers K s (current_regs (arch s));
        if result \<noteq> COMMAND_ERROR_NONE then Some (result, None, s)
        else do {
          let new_rsp = rsp (current_regs (arch s));
          (result, s) \<leftarrow> server_ptrace_write_memory K s new_rsp (x86_64_regs_bytes (current_regs (arch s)));
          if result \<noteq> COMMAND_ERROR_NONE then Some (result, Some new_rsp, s)
          else Some (COMMAND_ERROR_NONE, Some new_rsp, s)
        }
      })"

definition x86_64_pop_registers ::
  "('k, 'f) x86_64_kernel \<Rightarrow> ('k, 'f) x86_64_server \<Rightarrow> ServerCommandError \<times> ('k, 'f) x86_64_server" where
  "x86_64_pop_registers K s =
     (if pushed_regs_rsp (arch s) = 0 then (COMMAND_ERROR_INTERNAL_ERROR, s)
      else let s = set_current_regs ((current_regs (arch s))\<lparr> rsp := pushed_regs_rsp (arch s) \<rparr>) s;
               s = s\<lparr> arch := (arch s)\<lparr> pushed_regs_rsp := 0 \<rparr> \<rparr> in
        priv_server_ptrace_set_registers K s (current_regs (arch s)))"

definition x86_64_get_registers_from_core_file :: "register_values \<Rightarrow> guint8 list \<Rightarrow> register_values" where
  "x86_64_get_registers_from_core_file values buffer =
     x86_64_register_values (x86_64_regs_of_bytes buffer) values"

section \<open>Breakpoints\<close>

text \<open>The source returns right after the assertion, before it releases anything.\<close>

definition x86_64_runtime_info_disable_breakpoint ::
  "('k, 'f) x86_64_kernel \<Rightarrow> ('k, 64, 'f x86_64_ArchInfo) breakpoint_fn" where
  "x86_64_runtime_info_disable_breakpoint K s p = do {
     runtime \<leftarrow> mono_runtime s;
     Some (COMMAND_ERROR_NONE, s)
   }"

definition x86_64_rw_len :: "HardwareBreakpointType \<Rightarrow> guint32" where
  "x86_64_rw_len type =
     (if type = HARDWARE_BREAKPOINT_READ then DR_RW_READ OR DR_LEN_8
      else if type = HARDWARE_BREAKPOINT_WRITE then DR_RW_WRITE OR DR_LEN_8
      else DR_RW_EXECUTE OR DR_LEN_1)"

definition x86_64_enable_breakpoint_at :: "('k, 'f) x86_64_kernel \<Rightarrow> ('k, 64, 'f x86_64_ArchInfo) breakpoint_fn" where
  "x86_64_enable_breakpoint_at K = x86_arch_enable_breakpoint x86_64_rw_len K"

definition x86_64_disable_breakpoint_at :: "('k, 'f) x86_64_kernel \<Rightarrow> ('k, 64, 'f x86_64_ArchInfo) breakpoint_fn" where
  "x86_64_disable_breakpoint_at K = x86_arch_disable_breakpoint (x86_64_runtime_info_disable_breakpoint K) K"

definition x86_64_insert_breakpoint ::
  "('k, 'f) x86_64_kernel \<Rightarrow> ('k, 'f) x86_64_server \<Rightarrow> guint64 \<Rightarrow>
     (ServerCommandError \<times> guint32 option \<times> ('k, 'f) x86_64_server) option" where
  "x86_64_insert_breakpoint K = server_ptrace_insert_breakpoint (x86_64_enable_breakpoint_at K)"

definition x86_64_remove_breakpoint ::
  "('k, 'f) x86_64_kernel \<Rightarrow> ('k, 'f) x86_64_server \<Rightarrow> guint32 \<Rightarrow>
     (ServerCommandError \<times> ('k, 'f) x86_64_server) option" where
  "x86_64_remove_breakpoint K = server_ptrace_remove_breakpoint (x86_64_disable_breakpoint_at K)"

definition x86_64_insert_hw_breakpoint ::
  "('k, 'f) x86_64_kernel \<Rightarrow> ('k, 'f) x86_64_server \<Rightarrow> HardwareBreakpointType \<Rightarrow> guint64 \<Rightarrow>
     (ServerCommandError \<times> (guint32 \<times> guint32) option \<times> ('k, 'f) x86_64_server) option" where
  "x86_64_insert_hw_breakpoint K = server_ptrace_insert_hw_breakpoint (x86_64_enable_breakpoint_at K)"

definition x86_64_enable_breakpoint ::
  "('k, 'f) x86_64_kernel \<Rightarrow> ('k, 'f) x86_64_server \<Rightarrow> guint32 \<Rightarrow>
     (ServerCommandError \<times> ('k, 'f) x86_64_server) option" where
  "x86_64_enable_breakpoint K = server_ptrace_enable_breakpoint (x86_64_enable_breakpoint_at K)"

definition x86_64_disable_breakpoint ::
  "('k, 'f) x86_64_kernel \<Rightarrow> ('k, 'f) x86_64_server \<Rightarrow> guint32 \<Rightarrow>
     (ServerCommandError \<times> ('k, 'f) x86_64_server) option" where
  "x86_64_disable_breakpoint K = server_ptrace_disable_breakpoint (x86_64_disable_breakpoint_at K)"

definition x86_64_get_breakpoints ::
  "('k, 'f) x86_64_server \<Rightarrow> (ServerCommandError \<times> guint32 list \<times> ('k, 'f) x86_64_server) option" where
  "x86_64_get_breakpoints = server_ptrace_get_breakpoints"

definition x86_64_remove_hardware_breakpoints ::
  "('k, 'f) x86_64_kernel \<Rightarrow> ('k, 'f) x86_64_server \<Rightarrow> ('k, 'f) x86_64_server" where
  "x86_64_remove_hardware_breakpoints = x86_arch_remove_hardware_breakpoints"

section \<open>Calling a method in the target\<close>

text \<open>The address of a call's block of \<open>sz\<close> bytes: below the red zone, aligned.\<close>

definition x86_64_call_block :: "guint64 \<Rightarrow> nat \<Rightarrow> guint64" where
  "x86_64_call_block sp sz = (sp - AMD64_RED_ZONE_SIZE - of_nat sz - 16) AND 0xfffffffffffffff0"

text \<open>
  Every \<open>call_method\<close> variant saves the registers in a new \<open>CallbackData\<close>, writes a block below
  the stack pointer and then, with registers \<open>regs\<close> for the call: pushes \<open>cdata\<close>, writes the
  registers and continues the target.
\<close>

definition x86_64_start_call ::
  "('k, 'f) x86_64_kernel \<Rightarrow> ('k, 'f) x86_64_server \<Rightarrow> guint64 \<Rightarrow> guint8 list \<Rightarrow> 'f x86_64_CallbackData \<Rightarrow>
     x86_64_regs \<Rightarrow> (ServerCommandError \<times> ('k, 'f) x86_64_server) option" where
  "x86_64_start_call K s new_rsp code cdata regs = do {
     (result, s) \<leftarrow> server_ptrace_write_memory K s new_rsp code;
     if result \<noteq> COMMAND_ERROR_NONE then Some (result, s)
     else do {
       let s = set_current_regs regs s;
       let s = s\<lparr> arch := (arch s)\<lparr> callback_stack := callback_stack (arch s) @ [cdata] \<rparr> \<rparr>;
       let (result, s) = priv_server_ptrace_set_registers K s (current_regs (arch s));
       if result \<noteq> COMMAND_ERROR_NONE then Some (result, s)
       else Some (server_ptrace_continue K s)
     }
   }"

definition x86_64_new_cdata :: "('k, 'f) x86_64_server \<Rightarrow> guint64 \<Rightarrow> 'f x86_64_CallbackData" where
  "x86_64_new_cdata s cb_arg =
     (CallbackData_new (current_regs (arch s)) (current_fpregs (arch s)))
       \<lparr> callback_argument := cb_arg, saved_signal := last_signal (inferior s) \<rparr>"

definition x86_64_call_method ::
  "('k, 'f) x86_64_kernel \<Rightarrow> ('k, 'f) x86_64_server \<Rightarrow> guint64 \<Rightarrow> guint64 \<Rightarrow> guint64 \<Rightarrow> guint64 \<Rightarrow>
     (ServerCommandError \<times> ('k, 'f) x86_64_server) option" where
  "x86_64_call_method K s method_address method_argument1 method_argument2 cb_arg =
     (let regs = current_regs (arch s);
          code = [0x00, 0x00, 0x00, 0x00, 0x00, 0x00, 0x00, 0x00,
                  0x00, 0x00, 0x00, 0x00, 0x00, 0x00, 0x00, 0x00,
                  0xcc, 0x00, 0x00, 0x00, 0x00, 0x00, 0x00, 0x00];
          new_rsp = x86_64_call_block (rsp regs) (length code);
          code = put_bytes 0 (le64 (new_rsp + 16)) code;
          code = put_bytes 8 (le64 cb_arg) code;
          cdata = (x86_64_new_cdata s cb_arg)
            \<lparr> call_address := new_rsp + 16, stack_pointer := new_rsp + 8 \<rparr>;
          s = set_last_signal 0 s in
      x86_64_start_call K s new_rsp code cdata
        (regs\<lparr> orig_rax := -1, rip := method_address, rdi := method_argument1,
               rsi := method_argument2, rsp := new_rsp \<rparr>))"

text \<open>The argument \<open>string_argument\<close> is a C string: \<open>strlen\<close> and \<open>strcpy\<close> stop at its zero byte.\<close>

definition x86_64_call_method_1 ::
  "('k, 'f) x86_64_kernel \<Rightarrow> ('k, 'f) x86_64_server \<Rightarrow> guint64 \<Rightarrow> guint64 \<Rightarrow> guint64 \<Rightarrow> guint64 \<Rightarrow> guint8 list \<Rightarrow>
     guint64 \<Rightarrow> (ServerCommandError \<times> ('k, 'f) x86_64_server) option" where
  "x86_64_call_method_1 K s method_address method_argument data_argument data_argument2 string_argument
       cb_arg = do {
     let regs = current_regs (arch s);
     let static_code = [0x00, 0x00, 0x00, 0x00, 0x00, 0x00, 0x00, 0x00,
                        0x00, 0x00, 0x00, 0x00, 0x00, 0x00, 0x00, 0x00,
                        0xcc, 0x00, 0x00, 0x00, 0x00, 0x00, 0x00, 0x00];
     let static_size = length static_code;
     let string = c_bytes string_argument;
     let size = static_size + length string + 1;
     code \<leftarrow> g_malloc0 size;
     let code = put_bytes 0 static_code code;
     let code = put_bytes static_size (string @ [0]) code;
     let new_rsp = x86_64_call_block (rsp regs) size;
     let code = put_bytes 0 (le64 (new_rsp + 16)) code;
     let code = put_bytes 8 (le64 cb_arg) code;
     let cdata = (x86_64_new_cdata s cb_arg)
           \<lparr> call_address := new_rsp + 16, stack_pointer := new_rsp + 8 \<rparr>;
     let s = set_last_signal 0 s;
     x86_64_start_call K s new_rsp code cdata
       (regs\<lparr> orig_rax := -1, rip := method_address, rdi := method_argument, rsi := data_argument,
              rdx := data_argument2, rcx := new_rsp + of_nat static_size, rsp := new_rsp \<rparr>)
   }"

text \<open>The caller's \<open>data_buffer\<close> has \<open>data_size\<close> bytes.\<close>

definition x86_64_call_method_2 ::
  "('k, 'f) x86_64_kernel \<Rightarrow> ('k, 'f) x86_64_server \<Rightarrow> guint64 \<Rightarrow> guint8 list \<Rightarrow> guint64 \<Rightarrow>
     (ServerCommandError \<times> ('k, 'f) x86_64_server) option" where
  "x86_64_call_method_2 K s method_address data_buffer cb_arg = do {
     let regs = current_regs (arch s);
     let size = 113 + length data_buffer;
     code \<leftarrow> g_malloc0 size;
     let new_rsp = x86_64_call_block (rsp regs) size;
     let code = put_bytes 0 (le64 (new_rsp + of_nat size - 1)) code;
     let code = put_bytes 8 (le64 (rax regs)) code;
     let code = put_bytes 16 (le64 (rbx regs)) code;
     let code = put_bytes 24 (le64 (rcx regs)) code;
     let code = put_bytes 32 (le64 (rdx regs)) code;
     let code = put_bytes 40 (le64 (rbp regs)) code;
     let code = put_bytes 48 (le64 (rsp regs)) code;
     let code = put_bytes 56 (le64 (rsi regs)) code;
     let code = put_bytes 64 (le64 (rdi regs)) code;
     let code = put_bytes 72 (le64 (rip regs)) code;
     let code = put_bytes 80 (le64 (r12 regs)) code;
     let code = put_bytes 88 (le64 (r13 regs)) code;
     let code = put_bytes 96 (le64 (r14 regs)) code;
     let code = put_bytes 104 (le64 (r15 regs)) code;
     let code = put_bytes (length data_buffer + 112) [0xcc] code;
     let cdata = (x86_64_new_cdata s cb_arg)
           \<lparr> call_address := new_rsp + of_nat size - 1, stack_pointer := new_rsp + 8, exc_address := 0,
             pushed_registers := new_rsp + 8 \<rparr>;
     let s = set_last_signal 0 s;
     let code = (if data_buffer \<noteq> [] then put_bytes 112 data_buffer code else code);
     let cdata = (if data_buffer \<noteq> [] then cdata\<lparr> data_pointer := new_rsp + 112,
                    data_size := of_nat (length data_buffer) \<rparr> else cdata);
     x86_64_start_call K s new_rsp code cdata
       (regs\<lparr> orig_rax := -1, rip := method_address, rdi := new_rsp + 8, rsi := new_rsp + 112,
              rsp := new_rsp \<rparr>)
   }"

definition x86_64_call_method_3 ::
  "('k, 'f) x86_64_kernel \<Rightarrow> ('k, 'f) x86_64_server \<Rightarrow> guint64 \<Rightarrow> guint64 \<Rightarrow> guint64 \<Rightarrow> guint8 list \<Rightarrow> guint64 \<Rightarrow>
     (ServerCommandError \<times> ('k, 'f) x86_64_server) option" where
  "x86_64_call_method_3 K s method_address method_argument address_argument blob_data cb_arg = do {
     let regs = current_regs (arch s);
     let static_code = [0x00, 0x00, 0x00, 0x00, 0x00, 0x00, 0x00, 0x00,
                        0x00, 0x00, 0x00, 0x00, 0x00, 0x00, 0x00, 0x00,
                        0xcc, 0x00, 0x00, 0x00, 0x00, 0x00, 0x00, 0x00];
     let static_size = length static_code;
     let size = static_size + length blob_data;
     code \<leftarrow> g_malloc0 size;
     let code = put_bytes 0 static_code code;
     let code = put_bytes static_size blob_data code;
     let new_rsp = x86_64_call_block (rsp regs) size;
     let blob_start = new_rsp + of_nat static_size;
     let code = put_bytes 0 (le64 (new_rsp + of_nat static_size - 1)) code;
     let code = put_bytes 8 (le64 cb_arg) code;
     let effective_address = (if address_argument \<noteq> 0 then address_argument else blob_start);
     let cdata = (x86_64_new_cdata s cb_arg)
           \<lparr> call_address := new_rsp + of_nat static_size - 1, stack_pointer := new_rsp + 8 \<rparr>;
     let s = set_last_signal 0 s;
     x86_64_start_call K s new_rsp code cdata
       (regs\<lparr> orig_rax := -1, rip := method_address, rdi := method_argument, rsi := effective_address,
              rsp := new_rsp \<rparr>)
   }"

text \<open>The loop of \<open>call_method_invoke\<close> over the parameters: an offset into the blob, or a value.\<close>

fun x86_64_invoke_params :: "guint64 \<Rightarrow> (guint64 \<times> int) list \<Rightarrow> guint8 list" where
  "x86_64_invoke_params blob_start [] = []"
| "x86_64_invoke_params blob_start ((param, offset) # ps) =
     le64 (if 0 \<le> offset then blob_start + word_of_int offset else param) @ x86_64_invoke_params blob_start ps"

definition x86_64_call_method_invoke ::
  "('k, 'f) x86_64_kernel \<Rightarrow> ('k, 'f) x86_64_server \<Rightarrow> guint64 \<Rightarrow> guint64 \<Rightarrow> (guint64 \<times> int) list \<Rightarrow> guint8 list \<Rightarrow>
     guint64 \<Rightarrow> bool \<Rightarrow> (ServerCommandError \<times> ('k, 'f) x86_64_server) option" where
  "x86_64_call_method_invoke K s invoke_method method_argument params blob_data cb_arg dbg = do {
     let regs = current_regs (arch s);
     let static_code = [0x00, 0x00, 0x00, 0x00, 0x00, 0x00, 0x00, 0x00,
                        0x00, 0x00, 0x00, 0x00, 0x00, 0x00, 0x00, 0x00,
                        0x00, 0x00, 0x00, 0x00, 0x00, 0x00, 0x00, 0x00,
                        0xcc, 0x00, 0x00, 0x00, 0x00, 0x00, 0x00, 0x00];
     let static_size = length static_code;
     let blob_size = length blob_data;
     let size = static_size + (length params + 3) * 8 + blob_size;
     code \<leftarrow> g_malloc0 size;
     let code = put_bytes 0 static_code code;
     let code = put_bytes static_size blob_data code;
     let new_rsp = x86_64_call_block (rsp regs) size;
     let blob_start = new_rsp + of_nat static_size;
     let code = put_bytes (static_size + blob_size) (x86_64_invoke_params blob_start params) code;
     let code = put_bytes 0 (le64 (new_rsp + 24)) code;
     let code = put_bytes 8 (le64 cb_arg) code;
     let ptr0 = le_word (get_bytes (static_size + blob_size) 8 code);
     let cdata = (x86_64_new_cdata s cb_arg)
           \<lparr> call_address := new_rsp + 24, stack_pointer := new_rsp + 8, exc_address := new_rsp + 16,
             debug := dbg, is_rti := True \<rparr>;
     let s = set_last_signal 0 s;
     x86_64_start_call K s new_rsp code cdata
       (regs\<lparr> orig_rax := -1, rip := invoke_method, rdi := method_argument, rsi := ptr0,
              rdx := new_rsp + of_nat static_size + of_nat blob_size + 8, rcx := new_rsp + 16,
              rsp := new_rsp \<rparr>)
   }"

section \<open>Executing one instruction, callback frames, notifications\<close>

definition x86_64_find_code_buffer_slot :: "MonoRuntimeInfo \<Rightarrow> (gint \<times> MonoRuntimeInfo) option" where
  "x86_64_find_code_buffer_slot = find_code_buffer_slot"

definition x86_64_execute_instruction ::
  "('k, 'f) x86_64_kernel \<Rightarrow> ('k, 'f) x86_64_server \<Rightarrow> guint8 list \<Rightarrow> bool \<Rightarrow>
     (ServerCommandError \<times> ('k, 'f) x86_64_server) option" where
  "x86_64_execute_instruction K s instruction upd_ip = do {
     runtime \<leftarrow> mono_runtime s;
     if executable_code_buffer runtime = 0 then Some (COMMAND_ERROR_INTERNAL_ERROR, s)
     else do {
       (slot, runtime) \<leftarrow> find_code_buffer_slot runtime;
       let s = s\<lparr> mono_runtime := Some runtime \<rparr>;
       if slot < 0 then Some (COMMAND_ERROR_INTERNAL_ERROR, s)
       else if unat (executable_code_chunk_size runtime) < length instruction
       then Some (COMMAND_ERROR_INTERNAL_ERROR, s)
       else if code_buffer (arch s) \<noteq> None then Some (COMMAND_ERROR_INTERNAL_ERROR, s)
       else do {
         let addr = executable_code_buffer runtime + ucast (word_of_int slot * executable_code_chunk_size runtime);
         let regs = current_regs (arch s);
         let s = s\<lparr> arch := (arch s)\<lparr> code_buffer := Some
               \<lparr> slot = slot, insn_size = int (length instruction), update_ip = upd_ip,
                 code_address = addr, original_ip = rip regs \<rparr> \<rparr> \<rparr>;
         (result, s) \<leftarrow> server_ptrace_write_memory K s addr instruction;
         if result \<noteq> COMMAND_ERROR_NONE then Some (result, s)
         else do {
           let s = set_current_regs (regs\<lparr> orig_rax := -1, rip := addr \<rparr>) s;
           let (result, s) = priv_server_ptrace_set_registers K s (current_regs (arch s));
           if result \<noteq> COMMAND_ERROR_NONE then Some (result, s)
           else Some (server_ptrace_step K s)
         }
       }
     }
   }"

definition x86_64_mark_rti_frame :: "('k, 'f) x86_64_server \<Rightarrow> ServerCommandError \<times> ('k, 'f) x86_64_server" where
  "x86_64_mark_rti_frame s =
     (case get_callback_data (arch s) of
        None \<Rightarrow> (COMMAND_ERROR_NO_CALLBACK_FRAME, s)
      | Some cdata \<Rightarrow> (COMMAND_ERROR_NONE,
          s\<lparr> arch := (arch s)\<lparr> callback_stack := butlast (callback_stack (arch s)) @
                [cdata\<lparr> rti_frame := rsp (current_regs (arch s)) + 8 \<rparr>] \<rparr> \<rparr>))"

definition x86_64_abort_invoke ::
  "('k, 'f) x86_64_kernel \<Rightarrow> ('k, 'f) x86_64_server \<Rightarrow> guint64 \<Rightarrow>
     (ServerCommandError \<times> ('k, 'f) x86_64_server) option" where
  "x86_64_abort_invoke = server_ptrace_abort_invoke"

text \<open>\<open>is_rti_frame\<close>, \<open>is_exact_match\<close> and \<open>stack_pointer\<close> of the frame found, then the rest of the struct.\<close>

definition x86_64_callback_info ::
  "bool \<Rightarrow> guint64 \<Rightarrow> guint64 \<Rightarrow> 'f x86_64_CallbackData \<Rightarrow> CallbackInfo \<Rightarrow> CallbackInfo" where
  "x86_64_callback_info is_rti_frame frame sp cdata info = info\<lparr>
     ci_is_rti_frame := is_rti_frame, ci_is_exact_match := frame = sp, ci_stack_pointer := frame,
     ci_callback_argument := callback_argument cdata, ci_call_address := call_address cdata,
     ci_saved_registers := x86_64_register_values (saved_regs cdata) (ci_saved_registers info) \<rparr>"

fun x86_64_get_callback_frame_loop ::
  "'f x86_64_CallbackData list \<Rightarrow> guint64 \<Rightarrow> bool \<Rightarrow> CallbackInfo \<Rightarrow> ServerCommandError \<times> CallbackInfo" where
  "x86_64_get_callback_frame_loop [] sp exact_match info = (COMMAND_ERROR_NO_CALLBACK_FRAME, info)"
| "x86_64_get_callback_frame_loop (cdata # rest) sp exact_match info =
     (if rti_frame cdata \<noteq> 0 then
        (if (if exact_match then rti_frame cdata \<noteq> sp else rti_frame cdata < sp)
         then x86_64_get_callback_frame_loop rest sp exact_match info
         else (COMMAND_ERROR_NONE, x86_64_callback_info True (rti_frame cdata) sp cdata info))
      else
        (if (if exact_match then stack_pointer cdata \<noteq> sp else stack_pointer cdata < sp)
         then x86_64_get_callback_frame_loop rest sp exact_match info
         else (COMMAND_ERROR_NONE, x86_64_callback_info False (stack_pointer cdata) sp cdata info)))"

definition x86_64_get_callback_frame ::
  "('k, 'f) x86_64_server \<Rightarrow> guint64 \<Rightarrow> bool \<Rightarrow> CallbackInfo \<Rightarrow> ServerCommandError \<times> CallbackInfo" where
  "x86_64_get_callback_frame s sp exact_match info =
     x86_64_get_callback_frame_loop (callback_stack (arch s)) sp exact_match info"

definition x86_64_restart_notification ::
  "('k, 'f) x86_64_kernel \<Rightarrow> ('k, 'f) x86_64_server \<Rightarrow> ServerCommandError \<times> ('k, 'f) x86_64_server" where
  "x86_64_restart_notification K s =
     (let regs = current_regs (arch s) in
      if (case mono_runtime s of None \<Rightarrow> True
          | Some runtime \<Rightarrow> rip regs - 1 \<noteq> notification_address runtime)
      then (COMMAND_ERROR_INTERNAL_ERROR, s)
      else let s = set_current_regs (regs\<lparr> rip := rip regs - 1 \<rparr>) s in
        priv_server_ptrace_set_registers K s (current_regs (arch s)))"

section \<open>The architecture is a back end for the breakpoint commands\<close>

lemma x86_64_runtime_touches:
  "x86_64_runtime_info_disable_breakpoint K s p = Some (r, s') \<Longrightarrow> bp_heap s p = Some b \<Longrightarrow> touches_only p s s'"
  by (auto simp: x86_64_runtime_info_disable_breakpoint_def intro: touches_only_refl)

interpretation x86_64_backend: breakpoint_backend
  "x86_64_enable_breakpoint_at (K :: ('k, 'f) x86_64_kernel)" "x86_64_disable_breakpoint_at K" for K
proof (standard, goal_cases)
  case 1 then show ?case by simp
next
  case 2 then show ?case unfolding x86_64_enable_breakpoint_at_def by (rule touches_enable)
next
  case (3 s p r s')
  show ?case
    by (rule touches_disable [OF _ 3 [unfolded x86_64_disable_breakpoint_at_def]]) (rule x86_64_runtime_touches)
qed

lemmas x86_64_backend_axioms = x86_64_backend.breakpoint_backend_axioms
  [unfolded x86_64_enable_breakpoint_at_def x86_64_disable_breakpoint_at_def]

lemma x86_64_releases:
  "releases (x86_64_runtime_info_disable_breakpoint (K :: ('k, 'f) x86_64_kernel)) K A good M"
  by (auto simp: releases_def x86_64_runtime_info_disable_breakpoint_def same_table_eq)

end
