(* ===== verification/Method_Calls.thy ===== *)
theory Method_Calls
  imports I386_Arch X86_64_Arch
begin

text \<open>
  Calling a method in the target and returning from it. A \<open>call_method\<close> command saves the
  target's registers, runs the method, and the stop at the end of the call puts the
  registers back. Between the two the target runs, so its state after the call is
  arbitrary except for the instruction pointer that says where it stopped.
\<close>

section \<open>A target with registers\<close>

text \<open>
  The documented behaviour of the register requests of \<open>ptrace\<close> on a stopped target: \<open>R\<close> and \<open>F\<close>
  are its registers, \<open>M\<close> its memory; a request that sets one of them sets that one only, and
  reading changes nothing.
\<close>

definition target_registers ::
  "('k, 'w::len, 'r, 'f) kernel \<Rightarrow> pid \<Rightarrow> gint \<Rightarrow> 'w word set \<Rightarrow> ('k \<Rightarrow> bool) \<Rightarrow> ('k \<Rightarrow> 'w mem) \<Rightarrow> ('k \<Rightarrow> 'r) \<Rightarrow> ('k \<Rightarrow> 'f) \<Rightarrow> bool" where
  "target_registers K pid fd A good M R F \<longleftrightarrow>
     target_memory K pid fd A good M \<and>
     (\<forall>k r. good k \<longrightarrow> (\<exists>k'. ptrace_setregs K k pid r = (Inr (), k') \<and> good k' \<and> R k' = r \<and> F k' = F k \<and> M k' = M k)) \<and>
     (\<forall>k f. good k \<longrightarrow> (\<exists>k'. ptrace_setfpregs K k pid f = (Inr (), k') \<and> good k' \<and> R k' = R k \<and> F k' = f \<and> M k' = M k)) \<and>
     (\<forall>k. good k \<longrightarrow> (\<exists>k'. ptrace_getregs K k pid = (Inr (R k), k') \<and> good k' \<and> R k' = R k \<and> F k' = F k \<and> M k' = M k)) \<and>
     (\<forall>k. good k \<longrightarrow> (\<exists>k'. ptrace_getfpregs K k pid = (Inr (F k), k') \<and> good k' \<and> R k' = R k \<and> F k' = F k \<and> M k' = M k)) \<and>
     (\<forall>k n. good k \<longrightarrow> (\<exists>v k'. ptrace_peek_debugreg K k pid n = (Inr v, k') \<and> good k' \<and> R k' = R k \<and> F k' = F k \<and> M k' = M k)) \<and>
     (\<forall>k sz off x k'. good k \<longrightarrow> pread64 K k fd sz off = (x, k') \<longrightarrow> R k' = R k \<and> F k' = F k)"

lemma target_registersD:
  assumes "target_registers K pid fd A good M R F"
  shows "target_memory K pid fd A good M"
    "good k \<Longrightarrow> \<exists>k'. ptrace_setregs K k pid r = (Inr (), k') \<and> good k' \<and> R k' = r \<and> F k' = F k \<and> M k' = M k"
    "good k \<Longrightarrow> \<exists>k'. ptrace_setfpregs K k pid f = (Inr (), k') \<and> good k' \<and> R k' = R k \<and> F k' = f \<and> M k' = M k"
    "good k \<Longrightarrow> \<exists>k'. ptrace_getregs K k pid = (Inr (R k), k') \<and> good k' \<and> R k' = R k \<and> F k' = F k \<and> M k' = M k"
    "good k \<Longrightarrow> \<exists>k'. ptrace_getfpregs K k pid = (Inr (F k), k') \<and> good k' \<and> R k' = R k \<and> F k' = F k \<and> M k' = M k"
    "good k \<Longrightarrow> \<exists>v k'. ptrace_peek_debugreg K k pid n = (Inr v, k') \<and> good k' \<and> R k' = R k \<and> F k' = F k \<and> M k' = M k"
    "good k \<Longrightarrow> pread64 K k fd sz off = (x, k') \<Longrightarrow> R k' = R k \<and> F k' = F k"
  using assms unfolding target_registers_def by blast+

abbreviation target_of :: "('k, 'w::len, 'r, 'f) kernel \<Rightarrow> ('k, 'w, 'a) server \<Rightarrow> 'w word set \<Rightarrow> ('k \<Rightarrow> bool) \<Rightarrow>
    ('k \<Rightarrow> 'w mem) \<Rightarrow> ('k \<Rightarrow> 'r) \<Rightarrow> ('k \<Rightarrow> 'f) \<Rightarrow> bool" where
  "target_of K s A good M R F \<equiv>
     target_registers K (inf_pid (inferior s)) (mem_fd (inferior s)) A good M R F \<and> good (kern s)"

text \<open>A value that the debug status register of the target can have.\<close>

definition dr_reads :: "('k, 'w::len, 'r, 'f) kernel \<Rightarrow> ('k, 'w, 'a) server \<Rightarrow> ('k \<Rightarrow> bool) \<Rightarrow> guint64 \<Rightarrow> bool" where
  "dr_reads K s good d \<longleftrightarrow> (\<exists>k v k'. good k \<and>
     ptrace_peek_debugreg K k (inf_pid (inferior s)) DR_STATUS = (Inr v, k') \<and> d = scast (ucast v :: guint32))"

text \<open>\<open>x86_arch_get_registers\<close> brings the server's copy of the registers up to date.\<close>

lemma get_registers_ok:
  fixes s :: "('k, 'w::len, 'r, 'f, 'z) x86_server"
  assumes t: "target_of K s A good M R F"
  obtains k d where "x86_arch_get_registers K s = (COMMAND_ERROR_NONE,
      s\<lparr> kern := k, arch := (arch s)\<lparr> current_regs := R (kern s), current_fpregs := F (kern s), dr_status := d \<rparr> \<rparr>)"
    "good k" "R k = R (kern s)" "F k = F (kern s)" "M k = M (kern s)" "dr_reads K s good d"
proof -
  note d = target_registersD [OF conjunct1 [OF t]]
  have g: "good (kern s)" using t by simp
  obtain k1 where k1: "ptrace_getregs K (kern s) (inf_pid (inferior s)) = (Inr (R (kern s)), k1)" "good k1"
    "R k1 = R (kern s)" "F k1 = F (kern s)" "M k1 = M (kern s)" using d(4) [OF g] by blast
  obtain k2 where k2: "ptrace_getfpregs K k1 (inf_pid (inferior s)) = (Inr (F (kern s)), k2)" "good k2"
    "R k2 = R (kern s)" "F k2 = F (kern s)" "M k2 = M (kern s)" using d(5) [OF k1(2)] k1 by metis
  obtain v k3 where k3: "ptrace_peek_debugreg K k2 (inf_pid (inferior s)) DR_STATUS = (Inr v, k3)" "good k3"
    "R k3 = R (kern s)" "F k3 = F (kern s)" "M k3 = M (kern s)" using d(6) [OF k2(2)] k2 by metis
  let ?d = "scast (ucast v :: guint32) :: guint64"
  have "x86_arch_get_registers K s = (COMMAND_ERROR_NONE,
      s\<lparr> kern := k3, arch := (arch s)\<lparr> current_regs := R (kern s), current_fpregs := F (kern s), dr_status := ?d \<rparr> \<rparr>)"
    unfolding x86_arch_get_registers_def priv_server_ptrace_get_registers_def
      priv_server_ptrace_get_fp_registers_def priv_server_ptrace_get_dr_def
    by (simp add: k1(1) k2(1) k3(1))
  moreover have "dr_reads K s good ?d" using k2(2) k3(1) by (auto simp: dr_reads_def)
  ultimately show thesis using k3(2-5) by (intro that)
qed

lemma set_registers_ok:
  assumes t: "target_of K s A good M R F"
  obtains k where "priv_server_ptrace_set_registers K s r = (COMMAND_ERROR_NONE, s\<lparr> kern := k \<rparr>)"
    "good k" "R k = r" "F k = F (kern s)" "M k = M (kern s)"
  using target_registersD(2) [OF conjunct1 [OF t] conjunct2 [OF t], of r] that
  by (auto simp: priv_server_ptrace_set_registers_def)

lemma set_fp_registers_ok:
  assumes t: "target_of K s A good M R F"
  obtains k where "priv_server_ptrace_set_fp_registers K s f = (COMMAND_ERROR_NONE, s\<lparr> kern := k \<rparr>)"
    "good k" "R k = R (kern s)" "F k = f" "M k = M (kern s)"
  using target_registersD(3) [OF conjunct1 [OF t] conjunct2 [OF t], of f] that
  by (auto simp: priv_server_ptrace_set_fp_registers_def)

text \<open>Reading memory leaves the registers alone.\<close>

lemma raw_read_regs:
  fixes s :: "('k, 'w::len, 'a) server"
  assumes t: "target_of K s A good M R F" and map: "span (ucast start) (unat sz) \<subseteq> A"
  obtains k where "priv_server_ptrace_read_memory K s start sz =
      Some (COMMAND_ERROR_NONE, s\<lparr> kern := k \<rparr>, load (M (kern s)) (ucast start) (unat sz))"
    "good k" "M k = M (kern s)" "R k = R (kern s)" "F k = F (kern s)"
proof -
  note d = target_registersD [OF conjunct1 [OF t]]
  obtain k where k: "priv_server_ptrace_read_memory K s start sz =
      Some (COMMAND_ERROR_NONE, s\<lparr> kern := k \<rparr>, load (M (kern s)) (ucast start) (unat sz))" "good k" "M k = M (kern s)"
    using raw_read [OF d(1) _ map] t by blast
  have "R k = R (kern s) \<and> F k = F (kern s)"
  proof (cases "sz = 0")
    case True
    then have "kern (s\<lparr> kern := k \<rparr>) = kern s" using k(1) unfolding priv_server_ptrace_read_memory_def
      by (subst (asm) read_memory_loop.simps) simp
    then have "k = kern s" by simp
    then show ?thesis by simp
  next
    case False
    obtain k1 where k1: "pread64 K (kern s) (mem_fd (inferior s)) sz start = (Inr (load (M (kern s)) (ucast start) (unat sz)), k1)"
      using target_memory_read [OF d(1) _ False map] t by blast
    have "sz - of_nat (unat sz) = 0" by simp
    then have "priv_server_ptrace_read_memory K s start sz =
        Some (COMMAND_ERROR_NONE, s\<lparr> kern := k1 \<rparr>, load (M (kern s)) (ucast start) (unat sz))"
      unfolding priv_server_ptrace_read_memory_def using False k1
      by (subst read_memory_loop.simps, subst read_memory_loop.simps) simp
    then have "kern (s\<lparr> kern := k \<rparr>) = kern (s\<lparr> kern := k1 \<rparr>)" using k(1) by simp
    then have "k = k1" by simp
    then show ?thesis using d(7) k1 t by blast
  qed
  then show thesis using that k by blast
qed

section \<open>Coming back from a call\<close>

text \<open>The end of the branch for a call that has returned: whatever the registers of the target are at
  that point, the server's copy is the same afterwards, and the entry is gone from the stack.\<close>

lemma callback_done_ok:
  fixes s :: "('k, 'w::len, 'r, 'f, 'z) x86_server"
  assumes t: "target_of K s A good M R F"
  obtains k dr where "callback_done K s cdata d =
      (if is_rti cdata then STOP_ACTION_RTI_DONE else if debug cdata then STOP_ACTION_CALLBACK_COMPLETED else STOP_ACTION_CALLBACK,
       if debug cdata \<and> \<not> is_rti cdata then d\<lparr> retval := Some 0 \<rparr> else d,
       s\<lparr> kern := k, inferior := (inferior s)\<lparr> last_signal := saved_signal cdata \<rparr>,
          arch := (arch s)\<lparr> callback_stack := butlast (callback_stack (arch s)), current_regs := R (kern s),
                           current_fpregs := F (kern s), dr_status := dr \<rparr> \<rparr>)"
    "good k" "R k = R (kern s)" "F k = F (kern s)" "M k = M (kern s)"
proof -
  define s1 where "s1 = set_last_signal (saved_signal cdata) s"
  define s2 where "s2 = s1\<lparr> arch := (arch s1)\<lparr> callback_stack := butlast (callback_stack (arch s1)) \<rparr> \<rparr>"
  have f: "kern s2 = kern s" "inferior s2 = (inferior s)\<lparr> last_signal := saved_signal cdata \<rparr>"
    "arch s2 = (arch s)\<lparr> callback_stack := butlast (callback_stack (arch s)) \<rparr>"
    by (simp_all add: s2_def s1_def set_last_signal_def)
  have "target_of K s2 A good M R F" using t by (simp add: f)
  then obtain k dr where k: "x86_arch_get_registers K s2 = (COMMAND_ERROR_NONE,
      s2\<lparr> kern := k, arch := (arch s2)\<lparr> current_regs := R (kern s2), current_fpregs := F (kern s2), dr_status := dr \<rparr> \<rparr>)"
    "good k" "R k = R (kern s2)" "F k = F (kern s2)" "M k = M (kern s2)"
    by (rule get_registers_ok)
  have "callback_done K s cdata d =
      (if is_rti cdata then STOP_ACTION_RTI_DONE else if debug cdata then STOP_ACTION_CALLBACK_COMPLETED else STOP_ACTION_CALLBACK,
       if debug cdata \<and> \<not> is_rti cdata then d\<lparr> retval := Some 0 \<rparr> else d,
       s\<lparr> kern := k, inferior := (inferior s)\<lparr> last_signal := saved_signal cdata \<rparr>,
          arch := (arch s)\<lparr> callback_stack := butlast (callback_stack (arch s)), current_regs := R (kern s),
                           current_fpregs := F (kern s), dr_status := dr \<rparr> \<rparr>)"
    using k(1) by (simp add: callback_done_def Let_def s1_def [symmetric] s2_def [symmetric] f(1))
      (simp add: s2_def s1_def set_last_signal_def)
  then show thesis using k(2-5) unfolding f(1) by (rule that)
qed

text \<open>Reading memory with the breakpoints taken out leaves the registers alone too.\<close>

lemma read_memory_kern:
  assumes "priv_server_ptrace_read_memory K s start sz = Some (COMMAND_ERROR_NONE, s0, b0)"
    and "read_memory K s start sz = Some (r, s', b)"
  shows "kern s' = kern s0"
  using assms
  by (auto simp: read_memory_def server_ptrace_read_memory_def x86_arch_remove_breakpoints_from_target_memory_def Let_def)

lemma read_memory_regs:
  fixes s :: "('k, 'w::len, 'r, 'f, 'z) x86_server"
  assumes t: "target_of K s A good M R F" and bw: "byte_words TYPE('w)" and ok: "server_ok s" "addrs_canonical s"
    and n: "unat start + unat sz < 2 ^ LENGTH('w)" and map: "span (ucast start) (unat sz) \<subseteq> A"
  obtains k where "read_memory K s start sz = Some (COMMAND_ERROR_NONE, s\<lparr> kern := k \<rparr>,
      load (view s (M (kern s))) (ucast start) (unat sz))" "good k" "M k = M (kern s)" "R k = R (kern s)" "F k = F (kern s)"
proof -
  have tm: "target_memory K (inf_pid (inferior s)) (mem_fd (inferior s)) A good M" and g: "good (kern s)"
    using t target_registersD(1) by blast+
  obtain k where k: "read_memory K s start sz = Some (COMMAND_ERROR_NONE, s\<lparr> kern := k \<rparr>,
      load (view s (M (kern s))) (ucast start) (unat sz))" "good k" "M k = M (kern s)"
    using read_memory_view [OF bw ok tm g n map] by blast
  obtain k1 where k1: "priv_server_ptrace_read_memory K s start sz =
      Some (COMMAND_ERROR_NONE, s\<lparr> kern := k1 \<rparr>, load (M (kern s)) (ucast start) (unat sz))"
    "R k1 = R (kern s)" "F k1 = F (kern s)" by (rule raw_read_regs [OF t map])
  have "k = k1" using read_memory_kern [OF k1(1) k(1)] by simp
  then show thesis using k k1(2,3) that by blast
qed

text \<open>The parts of a call's entry that the stop reads back lie in mapped memory.\<close>

definition cdata_mapped :: "('k, 'w::len, 'r, 'f, 'z) x86_server \<Rightarrow> 'w word set \<Rightarrow> nat \<Rightarrow> ('w, 'r, 'f) CallbackData \<Rightarrow> bool" where
  "cdata_mapped s A pushed_size cdata \<longleftrightarrow>
     (pushed_registers cdata \<noteq> 0 \<longrightarrow> span (pushed_registers cdata) pushed_size \<subseteq> A) \<and>
     (data_pointer cdata \<noteq> 0 \<longrightarrow> span (data_pointer cdata) (unat (data_size cdata)) \<subseteq> A) \<and>
     (exc_address cdata \<noteq> 0 \<longrightarrow> span (exc_address cdata) (sizeof_long TYPE('w)) \<subseteq> A \<and>
        unat (exc_address cdata) + sizeof_long TYPE('w) < 2 ^ LENGTH('w) \<and> server_ok s \<and> addrs_canonical s)"

text \<open>What it finds there: the data buffer and the exception object, the latter without breakpoints.\<close>

definition cdata_buffer :: "'w::len mem \<Rightarrow> ('w, 'r, 'f) CallbackData \<Rightarrow> guint8 list" where
  "cdata_buffer m cdata = (if data_pointer cdata \<noteq> 0 then load m (data_pointer cdata) (unat (data_size cdata)) else [])"

definition cdata_exc :: "'w::len mem \<Rightarrow> ('w, 'r, 'f) CallbackData \<Rightarrow> guint8 list option" where
  "cdata_exc m cdata =
     (if exc_address cdata \<noteq> 0 then Some (load m (exc_address cdata) (sizeof_long TYPE('w))) else None)"

lemma ucast_up_down: "LENGTH('w::len) \<le> LENGTH('v::len) \<Longrightarrow> ucast (ucast (a :: 'w word) :: 'v word) = a"
  by (rule bit_word_eqI) (simp add: bit_ucast_iff)

lemma unat_less_wide: "LENGTH('w::len) \<le> n \<Longrightarrow> unat (a :: 'w word) < 2 ^ n"
  using unsigned_less [of a, where 'a = nat] power_increasing [of "LENGTH('w)" n "2 :: nat"]
  by (meson less_le_trans one_le_numeral)

lemma callback_data_buffer_ok:
  fixes s :: "('k, 'w::len, 'r, 'f, 'z) x86_server"
  assumes t: "target_of K s A good M R F" and bw: "byte_words TYPE('w)" and m: "cdata_mapped s A n cdata"
  obtains k where "callback_data_buffer K s cdata = Some (cdata_buffer (M (kern s)) cdata, s\<lparr> kern := k \<rparr>)"
    "good k" "M k = M (kern s)" "R k = R (kern s)" "F k = F (kern s)"
proof (cases "data_pointer cdata = 0")
  case True
  then show thesis using that [of "kern s"] t by (simp add: callback_data_buffer_def cdata_buffer_def)
next
  case False
  have u: "ucast (ucast (data_pointer cdata) :: guint64) = data_pointer cdata"
    using bw by (intro ucast_up_down) (simp add: byte_words_def)
  have "span (ucast (ucast (data_pointer cdata) :: guint64)) (unat (data_size cdata)) \<subseteq> A"
    using m False by (simp add: cdata_mapped_def u)
  then obtain k where k: "priv_server_ptrace_read_memory K s (ucast (data_pointer cdata)) (data_size cdata) =
      Some (COMMAND_ERROR_NONE, s\<lparr> kern := k \<rparr>, load (M (kern s)) (data_pointer cdata) (unat (data_size cdata)))"
    "good k" "M k = M (kern s)" "R k = R (kern s)" "F k = F (kern s)"
    using raw_read_regs [OF t] u by metis
  have "callback_data_buffer K s cdata = Some (cdata_buffer (M (kern s)) cdata, s\<lparr> kern := k \<rparr>)"
    using False k(1) by (simp add: callback_data_buffer_def cdata_buffer_def)
  then show thesis using k(2-5) by (rule that)
qed

lemma callback_exc_object_ok:
  fixes s :: "('k, 'w::len, 'r, 'f, 'z) x86_server"
  assumes t: "target_of K s A good M R F" and bw: "byte_words TYPE('w)" and m: "cdata_mapped s A n cdata"
  obtains k where "callback_exc_object K s cdata = Some (cdata_exc (view s (M (kern s))) cdata, s\<lparr> kern := k \<rparr>)"
    "good k" "M k = M (kern s)" "R k = R (kern s)" "F k = F (kern s)"
proof (cases "exc_address cdata = 0")
  case True
  then show thesis using that [of "kern s"] t by (simp add: callback_exc_object_def cdata_exc_def)
next
  case False
  have w: "LENGTH('w) \<le> 64" using bw by (simp add: byte_words_def)
  have u: "ucast (ucast (exc_address cdata) :: guint64) = exc_address cdata" using w by (intro ucast_up_down) simp
  have v: "unat (ucast (exc_address cdata) :: guint64) = unat (exc_address cdata)"
    using take_bit_nat_eq_self [OF unat_less_wide [OF w, of "exc_address cdata"]] by (simp add: unsigned_ucast_eq)
  have z: "unat (of_nat (sizeof_long TYPE('w)) :: guint32) = sizeof_long TYPE('w)"
    using w by (intro unat_of_nat_small) (simp add: sizeof_long_def)
  have c: "server_ok s" "addrs_canonical s" using m False by (simp_all add: cdata_mapped_def)
  obtain k where k: "read_memory K s (ucast (exc_address cdata)) (of_nat (sizeof_long TYPE('w))) =
      Some (COMMAND_ERROR_NONE, s\<lparr> kern := k \<rparr>, load (view s (M (kern s))) (exc_address cdata) (sizeof_long TYPE('w)))"
    "good k" "M k = M (kern s)" "R k = R (kern s)" "F k = F (kern s)"
    using read_memory_regs [OF t bw c, of "ucast (exc_address cdata)" "of_nat (sizeof_long TYPE('w))"] m False
    by (auto simp: cdata_mapped_def u v z)
  have "callback_exc_object K s cdata = Some (cdata_exc (view s (M (kern s))) cdata, s\<lparr> kern := k \<rparr>)"
    using False k(1) by (simp add: callback_exc_object_def cdata_exc_def server_ptrace_peek_word_def)
  then show thesis using k(2-5) by (rule that)
qed

text \<open>The server after a call with entry \<open>cdata\<close> has returned and the registers \<open>r\<close> have been put back.\<close>

abbreviation after_call :: "('k, 'w::len, 'r, 'f, 'z) x86_server \<Rightarrow> ('w, 'r, 'f) CallbackData \<Rightarrow> 'k \<Rightarrow> 'r \<Rightarrow> guint64 \<Rightarrow>
    ('k, 'w, 'r, 'f, 'z) x86_server" where
  "after_call s cdata k r dr \<equiv>
     s\<lparr> kern := k, inferior := (inferior s)\<lparr> last_signal := saved_signal cdata \<rparr>,
        arch := (arch s)\<lparr> callback_stack := butlast (callback_stack (arch s)), current_regs := r,
                         current_fpregs := saved_fpregs cdata, dr_status := dr \<rparr> \<rparr>"

definition call_action :: "('w::len, 'r, 'f) CallbackData \<Rightarrow> ChildStoppedAction" where
  "call_action cdata =
     (if is_rti cdata then STOP_ACTION_RTI_DONE else if debug cdata then STOP_ACTION_CALLBACK_COMPLETED else STOP_ACTION_CALLBACK)"

definition call_result :: "('w::len, 'r, 'f) CallbackData \<Rightarrow> stop_data \<Rightarrow> stop_data" where
  "call_result cdata d = (if debug cdata \<and> \<not> is_rti cdata then d\<lparr> retval := Some 0 \<rparr> else d)"

text \<open>The steps that both architectures share once they know which registers to put back.\<close>

definition finish_call ::
  "('k, 'w::len, 'r, 'f) kernel \<Rightarrow> ('k, 'w, 'r, 'f, 'z) x86_server \<Rightarrow> ('w, 'r, 'f) CallbackData \<Rightarrow>
     (guint8 list \<Rightarrow> guint8 list option \<Rightarrow> stop_data) \<Rightarrow>
     (ChildStoppedAction \<times> stop_data \<times> ('k, 'w, 'r, 'f, 'z) x86_server) option" where
  "finish_call K s cdata d = do {
     let (result, s) = priv_server_ptrace_set_registers K s (saved_regs cdata);
     if result \<noteq> COMMAND_ERROR_NONE then None
     else do {
       let (result, s) = priv_server_ptrace_set_fp_registers K s (saved_fpregs cdata);
       if result \<noteq> COMMAND_ERROR_NONE then None
       else do {
         (opt, s) \<leftarrow> callback_data_buffer K s cdata;
         (exc_object, s) \<leftarrow> callback_exc_object K s cdata;
         Some (callback_done K s cdata (d opt exc_object))
       }
     }
   }"

lemma cdata_mapped_kern [simp]: "cdata_mapped (s\<lparr> kern := k \<rparr>) A n cdata = cdata_mapped s A n cdata"
  by (simp add: cdata_mapped_def server_ok_unchanged [OF bp_unchanged_kern [OF kern_only_upd]] addrs_canonical_def)

lemma cdata_mapped_regs [simp]: "cdata_mapped s A n (cdata\<lparr> saved_regs := r \<rparr>) = cdata_mapped s A n cdata"
  by (simp add: cdata_mapped_def)

lemma cdata_saved_regs [simp]:
  "cdata_buffer m (cdata\<lparr> saved_regs := r \<rparr>) = cdata_buffer m cdata"
  "cdata_exc m (cdata\<lparr> saved_regs := r \<rparr>) = cdata_exc m cdata"
  "call_action (cdata\<lparr> saved_regs := r \<rparr>) = call_action cdata"
  "call_result (cdata\<lparr> saved_regs := r \<rparr>) = call_result cdata"
  by (auto simp: cdata_buffer_def cdata_exc_def call_action_def call_result_def)

lemma view_kern [simp]: "view (s\<lparr> kern := k \<rparr>) m = view s m"
  by (simp add: view_def)

lemma finish_call_ok:
  fixes s :: "('k, 'w::len, 'r, 'f, 'z) x86_server"
  assumes t: "target_of K s A good M R F" and bw: "byte_words TYPE('w)" and m: "cdata_mapped s A n cdata"
  obtains k dr where
    "finish_call K s cdata d = Some (call_action cdata,
       call_result cdata (d (cdata_buffer (M (kern s)) cdata) (cdata_exc (view s (M (kern s))) cdata)),
       after_call s cdata k (saved_regs cdata) dr)"
    "good k" "R k = saved_regs cdata" "F k = saved_fpregs cdata" "M k = M (kern s)"
proof -
  have T: "target_of K (s\<lparr> kern := k \<rparr>) A good M R F" if "good k" for k using t that by simp
  have c: "cdata_mapped (s\<lparr> kern := k \<rparr>) A n cdata" for k using m by simp
  obtain k1 where k1: "priv_server_ptrace_set_registers K s (saved_regs cdata) = (COMMAND_ERROR_NONE, s\<lparr> kern := k1 \<rparr>)"
    "good k1" "R k1 = saved_regs cdata" "M k1 = M (kern s)" by (rule set_registers_ok [OF t])
  obtain k2 where k2: "priv_server_ptrace_set_fp_registers K (s\<lparr> kern := k1 \<rparr>) (saved_fpregs cdata) = (COMMAND_ERROR_NONE, s\<lparr> kern := k2 \<rparr>)"
    "good k2" "R k2 = R k1" "F k2 = saved_fpregs cdata" "M k2 = M k1"
    using set_fp_registers_ok [OF T [OF k1(2)], of "saved_fpregs cdata"] by auto
  obtain k3 where k3: "callback_data_buffer K (s\<lparr> kern := k2 \<rparr>) cdata = Some (cdata_buffer (M k2) cdata, s\<lparr> kern := k3 \<rparr>)"
    "good k3" "M k3 = M k2" "R k3 = R k2" "F k3 = F k2"
    using callback_data_buffer_ok [OF T [OF k2(2)] bw c] by auto
  obtain k4 where k4: "callback_exc_object K (s\<lparr> kern := k3 \<rparr>) cdata = Some (cdata_exc (view s (M k3)) cdata, s\<lparr> kern := k4 \<rparr>)"
    "good k4" "M k4 = M k3" "R k4 = R k3" "F k4 = F k3"
    using callback_exc_object_ok [OF T [OF k3(2)] bw c] by auto
  let ?d = "d (cdata_buffer (M (kern s)) cdata) (cdata_exc (view s (M (kern s))) cdata)"
  obtain k dr where k: "callback_done K (s\<lparr> kern := k4 \<rparr>) cdata ?d =
      (call_action cdata, call_result cdata ?d, after_call s cdata k (saved_regs cdata) dr)"
    "good k" "R k = R k4" "F k = F k4" "M k = M k4"
    by (rule callback_done_ok [OF T [OF k4(2)], of cdata ?d])
      (use k1 k2 k3 k4 in \<open>simp add: call_action_def call_result_def\<close>)
  have "finish_call K s cdata d = Some (call_action cdata, call_result cdata ?d, after_call s cdata k (saved_regs cdata) dr)"
    using k1 k2 k3 k4 k(1) by (simp add: finish_call_def)
  then show thesis by (rule that) (use k1 k2 k3 k4 k in simp_all)
qed

text \<open>The x86_64 branch is the restoring of what the call has pushed, then those steps.\<close>

definition x86_64_pushed :: "('k, 'f) x86_64_kernel \<Rightarrow> ('k, 'f) x86_64_server \<Rightarrow> 'f x86_64_CallbackData \<Rightarrow>
    ('f x86_64_CallbackData \<times> ('k, 'f) x86_64_server) option" where
  "x86_64_pushed K s cdata = (if pushed_registers cdata \<noteq> 0 then do {
     (result, s, pushed_regs) \<leftarrow> priv_server_ptrace_read_memory K s (pushed_registers cdata) 104;
     if result \<noteq> COMMAND_ERROR_NONE then None
     else Some (cdata\<lparr> saved_regs := x86_64_restore_pushed pushed_regs (saved_regs cdata) \<rparr>, s)
   } else Some (cdata, s))"

definition x86_64_call_data :: "x86_64_regs \<Rightarrow> 'f x86_64_CallbackData \<Rightarrow> guint8 list \<Rightarrow> guint8 list option \<Rightarrow> stop_data" where
  "x86_64_call_data regs cdata opt exc_object =
     \<lparr> callback_arg = Some (callback_argument cdata), retval = Some (rax regs),
       retval2 = map_option le_word exc_object, opt_data = Some opt \<rparr>"

lemma x86_64_callback_returned_eq:
  "x86_64_callback_returned K s cdata =
     Option.bind (x86_64_pushed K s cdata)
       (\<lambda>(cdata, s). finish_call K s cdata (x86_64_call_data (current_regs (arch s)) cdata))"
  unfolding x86_64_callback_returned_def x86_64_pushed_def finish_call_def x86_64_call_data_def
  by (intro bind_option_cong refl)
    (auto simp: priv_server_ptrace_set_registers_def priv_server_ptrace_set_fp_registers_def checked_def Let_def split: prod.splits sum.splits)

text \<open>The registers that the return puts back.\<close>

definition x86_64_returned_regs :: "64 mem \<Rightarrow> 'f x86_64_CallbackData \<Rightarrow> x86_64_regs" where
  "x86_64_returned_regs m cdata =
     (if pushed_registers cdata \<noteq> 0 then x86_64_restore_pushed (load m (pushed_registers cdata) 104) (saved_regs cdata)
      else saved_regs cdata)"

lemma x86_64_pushed_ok:
  fixes s :: "('k, 'f) x86_64_server"
  assumes t: "target_of K s A good M R F" and m: "cdata_mapped s A 104 cdata"
  obtains k where "x86_64_pushed K s cdata =
      Some (cdata\<lparr> saved_regs := x86_64_returned_regs (M (kern s)) cdata \<rparr>, s\<lparr> kern := k \<rparr>)" "good k" "M k = M (kern s)"
proof (cases "pushed_registers cdata = 0")
  case True
  then show thesis using that [of "kern s"] t by (simp add: x86_64_pushed_def x86_64_returned_regs_def)
next
  case False
  have u: "ucast (ucast (pushed_registers cdata) :: guint64) = pushed_registers cdata" by (intro ucast_up_down) simp
  have "span (ucast (ucast (pushed_registers cdata) :: guint64)) (unat (104 :: guint32)) \<subseteq> A"
    using m False u by (simp add: cdata_mapped_def)
  then obtain k where k: "priv_server_ptrace_read_memory K s (ucast (pushed_registers cdata)) 104 =
      Some (COMMAND_ERROR_NONE, s\<lparr> kern := k \<rparr>, load (M (kern s)) (pushed_registers cdata) 104)" "good k" "M k = M (kern s)"
    using raw_read_regs [OF t, of "ucast (pushed_registers cdata)" 104] u by auto
  have "x86_64_pushed K s cdata = Some (cdata\<lparr> saved_regs := x86_64_returned_regs (M (kern s)) cdata \<rparr>, s\<lparr> kern := k \<rparr>)"
    using False k(1) by (simp add: x86_64_pushed_def x86_64_returned_regs_def)
  then show thesis using k(2,3) by (rule that)
qed

lemma x86_64_callback_returned_ok:
  fixes s :: "('k, 'f) x86_64_server"
  assumes t: "target_of K s A good M R F" and m: "cdata_mapped s A 104 cdata"
  obtains k dr where
    "x86_64_callback_returned K s cdata = Some (call_action cdata, call_result cdata
       (x86_64_call_data (current_regs (arch s)) cdata (cdata_buffer (M (kern s)) cdata) (cdata_exc (view s (M (kern s))) cdata)),
       after_call s cdata k (x86_64_returned_regs (M (kern s)) cdata) dr)"
    "good k" "R k = x86_64_returned_regs (M (kern s)) cdata" "F k = saved_fpregs cdata" "M k = M (kern s)"
proof -
  let ?c = "cdata\<lparr> saved_regs := x86_64_returned_regs (M (kern s)) cdata \<rparr>"
  obtain k0 where k0: "x86_64_pushed K s cdata = Some (?c, s\<lparr> kern := k0 \<rparr>)" "good k0" "M k0 = M (kern s)"
    by (rule x86_64_pushed_ok [OF t m])
  have T: "target_of K (s\<lparr> kern := k0 \<rparr>) A good M R F" and m': "cdata_mapped (s\<lparr> kern := k0 \<rparr>) A 104 ?c"
    using t m k0(2) by simp_all
  obtain k dr where k: "finish_call K (s\<lparr> kern := k0 \<rparr>) ?c (x86_64_call_data (current_regs (arch s)) ?c) =
      Some (call_action cdata, call_result cdata (x86_64_call_data (current_regs (arch s)) ?c
        (cdata_buffer (M (kern s)) cdata) (cdata_exc (view s (M (kern s))) cdata)),
        after_call s cdata k (x86_64_returned_regs (M (kern s)) cdata) dr)"
    "good k" "R k = x86_64_returned_regs (M (kern s)) cdata" "F k = saved_fpregs cdata" "M k = M (kern s)"
    by (rule finish_call_ok [OF T byte_words_32_64(2) m', where d = "x86_64_call_data (current_regs (arch s)) ?c"])
      (use k0(3) in simp)
  have "x86_64_call_data (current_regs (arch s)) ?c = x86_64_call_data (current_regs (arch s)) cdata"
    by (intro ext) (simp add: x86_64_call_data_def)
  with k show thesis by (intro that [of dr k]) (simp_all add: x86_64_callback_returned_eq k0(1))
qed

text \<open>And the i386 branch.\<close>

definition i386_pushed :: "('k, 'f) i386_kernel \<Rightarrow> ('k, 'f) i386_server \<Rightarrow> 'f i386_CallbackData \<Rightarrow>
    ('f i386_CallbackData \<times> ('k, 'f) i386_server) option" where
  "i386_pushed K s cdata = (if pushed_registers cdata \<noteq> 0 then do {
     (result, s, pushed_regs) \<leftarrow> priv_server_ptrace_read_memory K s (ucast (pushed_registers cdata)) 36;
     if result \<noteq> COMMAND_ERROR_NONE then None
     else Some (cdata\<lparr> saved_regs := i386_restore_pushed pushed_regs (saved_regs cdata) \<rparr>, s)
   } else Some (cdata, s))"

definition i386_call_data :: "i386_regs \<Rightarrow> 'f i386_CallbackData \<Rightarrow> guint8 list \<Rightarrow> guint8 list option \<Rightarrow> stop_data" where
  "i386_call_data regs cdata opt exc_object =
     \<lparr> callback_arg = Some (callback_argument cdata), retval = Some (ucast (eax regs)),
       retval2 = map_option (\<lambda>bs. ucast (le_word bs :: guint32)) exc_object, opt_data = Some opt \<rparr>"

lemma i386_callback_returned_eq:
  "i386_callback_returned K s cdata =
     Option.bind (i386_pushed K s cdata)
       (\<lambda>(cdata, s). finish_call K s cdata (i386_call_data (current_regs (arch s)) cdata))"
  unfolding i386_callback_returned_def i386_pushed_def finish_call_def i386_call_data_def
  by (intro bind_option_cong refl)
    (auto simp: priv_server_ptrace_set_registers_def priv_server_ptrace_set_fp_registers_def checked_def Let_def split: prod.splits sum.splits)

text \<open>The registers that the return puts back.\<close>

definition i386_returned_regs :: "32 mem \<Rightarrow> 'f i386_CallbackData \<Rightarrow> i386_regs" where
  "i386_returned_regs m cdata =
     (if pushed_registers cdata \<noteq> 0 then i386_restore_pushed (load m (pushed_registers cdata) 36) (saved_regs cdata)
      else saved_regs cdata)"

lemma i386_pushed_ok:
  fixes s :: "('k, 'f) i386_server"
  assumes t: "target_of K s A good M R F" and m: "cdata_mapped s A 36 cdata"
  obtains k where "i386_pushed K s cdata =
      Some (cdata\<lparr> saved_regs := i386_returned_regs (M (kern s)) cdata \<rparr>, s\<lparr> kern := k \<rparr>)" "good k" "M k = M (kern s)"
proof (cases "pushed_registers cdata = 0")
  case True
  then show thesis using that [of "kern s"] t by (simp add: i386_pushed_def i386_returned_regs_def)
next
  case False
  have u: "ucast (ucast (pushed_registers cdata) :: guint64) = pushed_registers cdata" by (intro ucast_up_down) simp
  have "span (ucast (ucast (pushed_registers cdata) :: guint64)) (unat (36 :: guint32)) \<subseteq> A"
    using m False u by (simp add: cdata_mapped_def)
  then obtain k where k: "priv_server_ptrace_read_memory K s (ucast (pushed_registers cdata)) 36 =
      Some (COMMAND_ERROR_NONE, s\<lparr> kern := k \<rparr>, load (M (kern s)) (pushed_registers cdata) 36)" "good k" "M k = M (kern s)"
    using raw_read_regs [OF t, of "ucast (pushed_registers cdata)" 36] u by auto
  have "i386_pushed K s cdata = Some (cdata\<lparr> saved_regs := i386_returned_regs (M (kern s)) cdata \<rparr>, s\<lparr> kern := k \<rparr>)"
    using False k(1) by (simp add: i386_pushed_def i386_returned_regs_def)
  then show thesis using k(2,3) by (rule that)
qed

lemma i386_callback_returned_ok:
  fixes s :: "('k, 'f) i386_server"
  assumes t: "target_of K s A good M R F" and m: "cdata_mapped s A 36 cdata"
  obtains k dr where
    "i386_callback_returned K s cdata = Some (call_action cdata, call_result cdata
       (i386_call_data (current_regs (arch s)) cdata (cdata_buffer (M (kern s)) cdata) (cdata_exc (view s (M (kern s))) cdata)),
       after_call s cdata k (i386_returned_regs (M (kern s)) cdata) dr)"
    "good k" "R k = i386_returned_regs (M (kern s)) cdata" "F k = saved_fpregs cdata" "M k = M (kern s)"
proof -
  let ?c = "cdata\<lparr> saved_regs := i386_returned_regs (M (kern s)) cdata \<rparr>"
  obtain k0 where k0: "i386_pushed K s cdata = Some (?c, s\<lparr> kern := k0 \<rparr>)" "good k0" "M k0 = M (kern s)"
    by (rule i386_pushed_ok [OF t m])
  have T: "target_of K (s\<lparr> kern := k0 \<rparr>) A good M R F" and m': "cdata_mapped (s\<lparr> kern := k0 \<rparr>) A 36 ?c"
    using t m k0(2) by simp_all
  obtain k dr where k: "finish_call K (s\<lparr> kern := k0 \<rparr>) ?c (i386_call_data (current_regs (arch s)) ?c) =
      Some (call_action cdata, call_result cdata (i386_call_data (current_regs (arch s)) ?c
        (cdata_buffer (M (kern s)) cdata) (cdata_exc (view s (M (kern s))) cdata)),
        after_call s cdata k (i386_returned_regs (M (kern s)) cdata) dr)"
    "good k" "R k = i386_returned_regs (M (kern s)) cdata" "F k = saved_fpregs cdata" "M k = M (kern s)"
    by (rule finish_call_ok [OF T byte_words_32_64(1) m', where d = "i386_call_data (current_regs (arch s)) ?c"])
      (use k0(3) in simp)
  have "i386_call_data (current_regs (arch s)) ?c = i386_call_data (current_regs (arch s)) cdata"
    by (intro ext) (simp add: i386_call_data_def)
  with k show thesis by (intro that [of dr k]) (simp_all add: i386_callback_returned_eq k0(1))
qed

section \<open>Stops at the end of a call\<close>

text \<open>On x86_64 a call ends at its \<open>int 3\<close>, or at the \<open>SIGSEGV\<close> for fetching from a stack that is not
  executable; any other business of the stop comes after.\<close>

lemma x86_64_stop_returns:
  fixes s :: "('k, 'f) x86_64_server"
  assumes t: "target_of K s A good M R F" and c: "get_callback_data (arch s) = Some cdata" and m: "cdata_mapped s A 104 cdata"
    and sig: "stopsig \<noteq> SIGSTOP"
    and ret: "stopsig = SIGSEGV \<and> rip (R (kern s)) = call_address cdata \<or> rip (R (kern s)) - 1 = call_address cdata"
  obtains k dr where
    "x86_64_child_stopped K s stopsig = Some (call_action cdata, call_result cdata
       (x86_64_call_data (R (kern s)) cdata (cdata_buffer (M (kern s)) cdata) (cdata_exc (view s (M (kern s))) cdata)),
       after_call s cdata k (x86_64_returned_regs (M (kern s)) cdata) dr)"
    "good k" "R k = x86_64_returned_regs (M (kern s)) cdata" "F k = saved_fpregs cdata" "M k = M (kern s)"
proof -
  obtain k0 d where k0: "x86_arch_get_registers K s = (COMMAND_ERROR_NONE,
      s\<lparr> kern := k0, arch := (arch s)\<lparr> current_regs := R (kern s), current_fpregs := F (kern s), dr_status := d \<rparr> \<rparr>)"
    "good k0" "M k0 = M (kern s)" by (rule get_registers_ok [OF t])
  let ?s = "s\<lparr> kern := k0, arch := (arch s)\<lparr> current_regs := R (kern s), current_fpregs := F (kern s), dr_status := d \<rparr> \<rparr>"
  have u: "bp_unchanged s ?s" by (simp add: bp_unchanged_def)
  have T: "target_of K ?s A good M R F" using t k0(2) by simp
  have m': "cdata_mapped ?s A 104 cdata" and v: "view ?s = view s"
    using m server_ok_unchanged [OF u] by (simp_all add: cdata_mapped_def addrs_canonical_def view_def fun_eq_iff)
  have c': "get_callback_data (arch ?s) = Some cdata" using c by (simp add: get_callback_data_def split: if_splits)
  have "x86_64_child_stopped K s stopsig = x86_64_callback_returned K ?s cdata"
    using k0(1) c' sig ret by (auto simp: x86_64_child_stopped_def Let_def)
  moreover obtain k dr where "x86_64_callback_returned K ?s cdata = Some (call_action cdata, call_result cdata
      (x86_64_call_data (R (kern s)) cdata (cdata_buffer (M (kern s)) cdata) (cdata_exc (view s (M (kern s))) cdata)),
      after_call s cdata k (x86_64_returned_regs (M (kern s)) cdata) dr)"
    "good k" "R k = x86_64_returned_regs (M (kern s)) cdata" "F k = saved_fpregs cdata" "M k = M (kern s)"
    by (rule x86_64_callback_returned_ok [OF T m']) (use k0 in \<open>simp add: v\<close>)
  ultimately show thesis by (intro that [where k = k and dr = dr]) simp_all
qed

text \<open>On i386 the call ends at its \<open>int 3\<close> only, and the stop looks for notifications, watchpoints and
  breakpoints first.\<close>

definition i386_plain_stop :: "('k, 'f) i386_kernel \<Rightarrow> ('k, 'f) i386_server \<Rightarrow> ('k \<Rightarrow> bool) \<Rightarrow> guint32 \<Rightarrow> bool" where
  "i386_plain_stop K s good ip \<longleftrightarrow>
     (\<forall>rt. mono_runtime s = Some rt \<longrightarrow> notification_address rt \<noteq> ucast (ip - 1)) \<and>
     (\<forall>d. dr_reads K s good d \<longrightarrow> watch_hit_loop d [0..<DR_NADDR] = None) \<and>
     mono_debugger_breakpoint_manager_lookup (bpm s) (ucast (ip - 1)) = None"

lemma check_breakpoint_None:
  "mono_debugger_breakpoint_manager_lookup (bpm s) a = None \<Longrightarrow> check_breakpoint s a = Some (None, s)"
  by (simp add: check_breakpoint_def Let_def)

lemma i386_stop_returns:
  fixes s :: "('k, 'f) i386_server"
  assumes t: "target_of K s A good M R F" and c: "get_callback_data (arch s) = Some cdata" and m: "cdata_mapped s A 36 cdata"
    and plain: "i386_plain_stop K s good (eip (R (kern s)))" and ret: "eip (R (kern s)) = call_address cdata"
  obtains k dr where
    "i386_child_stopped K s SIGTRAP = Some (call_action cdata, call_result cdata
       (i386_call_data (R (kern s)) cdata (cdata_buffer (M (kern s)) cdata) (cdata_exc (view s (M (kern s))) cdata)),
       after_call s cdata k (i386_returned_regs (M (kern s)) cdata) dr)"
    "good k" "R k = i386_returned_regs (M (kern s)) cdata" "F k = saved_fpregs cdata" "M k = M (kern s)"
proof -
  obtain k0 d where k0: "x86_arch_get_registers K s = (COMMAND_ERROR_NONE,
      s\<lparr> kern := k0, arch := (arch s)\<lparr> current_regs := R (kern s), current_fpregs := F (kern s), dr_status := d \<rparr> \<rparr>)"
    "good k0" "M k0 = M (kern s)" "dr_reads K s good d" by (rule get_registers_ok [OF t])
  let ?s = "s\<lparr> kern := k0, arch := (arch s)\<lparr> current_regs := R (kern s), current_fpregs := F (kern s), dr_status := d \<rparr> \<rparr>"
  have u: "bp_unchanged s ?s" by (simp add: bp_unchanged_def)
  have T: "target_of K ?s A good M R F" using t k0(2) by simp
  have m': "cdata_mapped ?s A 36 cdata" and v: "view ?s = view s"
    using m server_ok_unchanged [OF u] by (simp_all add: cdata_mapped_def addrs_canonical_def view_def fun_eq_iff)
  have c': "get_callback_data (arch ?s) = Some cdata" using c by (simp add: get_callback_data_def split: if_splits)
  have "check_breakpoint ?s (ucast (eip (R (kern s)) - 1)) = Some (None, ?s)"
    using plain by (intro check_breakpoint_None) (simp add: i386_plain_stop_def)
  moreover have "watch_hit_loop d [0..<DR_NADDR] = None" using plain k0(4) by (auto simp: i386_plain_stop_def)
  ultimately have "i386_child_stopped K s SIGTRAP = i386_callback_returned K ?s cdata"
    using k0(1) c' ret plain
    by (auto simp: i386_child_stopped_def Let_def i386_plain_stop_def simp del: upt.simps split: option.splits)
  moreover obtain k dr where "i386_callback_returned K ?s cdata = Some (call_action cdata, call_result cdata
      (i386_call_data (R (kern s)) cdata (cdata_buffer (M (kern s)) cdata) (cdata_exc (view s (M (kern s))) cdata)),
      after_call s cdata k (i386_returned_regs (M (kern s)) cdata) dr)"
    "good k" "R k = i386_returned_regs (M (kern s)) cdata" "F k = saved_fpregs cdata" "M k = M (kern s)"
    by (rule i386_callback_returned_ok [OF T m']) (use k0 in \<open>simp add: v\<close>)
  ultimately show thesis by (intro that [where k = k and dr = dr]) simp_all
qed

section \<open>Starting a call\<close>

text \<open>A call that starts successfully has pushed its entry and changed nothing else that the server keeps.\<close>

lemma continue_ok:
  assumes "server_ptrace_continue K s = (COMMAND_ERROR_NONE, s')"
  shows "\<exists>k. s' = s\<lparr> kern := k, inferior := (inferior s)\<lparr> stepping := False \<rparr> \<rparr>"
proof -
  let ?s = "s\<lparr> inferior := (inferior s)\<lparr> stepping := False \<rparr> \<rparr>"
  have "kern_only ?s s'"
    using assms kern_only_checked [of ?s K] by (simp add: server_ptrace_continue_def Let_def) (metis snd_conv)
  then show ?thesis by (intro exI [of _ "kern s'"] server.equality) (auto elim!: kern_onlyE)
qed

lemma x86_64_start_call_ok:
  assumes "x86_64_start_call K s a code cdata regs = Some (COMMAND_ERROR_NONE, s1)"
  shows "\<exists>k. s1 = s\<lparr> kern := k, inferior := (inferior s)\<lparr> stepping := False \<rparr>,
    arch := (arch s)\<lparr> current_regs := regs, callback_stack := callback_stack (arch s) @ [cdata] \<rparr> \<rparr>"
proof -
  from assms obtain s2 s3 where w: "server_ptrace_write_memory K s a code = Some (COMMAND_ERROR_NONE, s2)"
    and r: "priv_server_ptrace_set_registers K (s2\<lparr> arch := (arch s2)\<lparr> current_regs := regs, callback_stack := callback_stack (arch s2) @ [cdata] \<rparr> \<rparr>) regs
      = (COMMAND_ERROR_NONE, s3)" and g: "server_ptrace_continue K s3 = (COMMAND_ERROR_NONE, s1)"
    by (auto simp: x86_64_start_call_def set_current_regs_def Let_def split: if_splits prod.splits)
  show ?thesis
    using kern_only_write [OF w] kern_only_op_eqs(1) [OF r] continue_ok [OF g]
    by (intro exI [of _ "kern s1"] server.equality) (auto elim!: kern_onlyE)
qed

lemma i386_start_call_ok:
  assumes "i386_start_call K s a code cdata regs = Some (COMMAND_ERROR_NONE, s1)"
  shows "\<exists>k. s1 = s\<lparr> kern := k, inferior := (inferior s)\<lparr> stepping := False \<rparr>,
    arch := (arch s)\<lparr> current_regs := regs, callback_stack := callback_stack (arch s) @ [cdata] \<rparr> \<rparr>"
proof -
  from assms obtain s2 s3 where w: "server_ptrace_write_memory K s (ucast a) code = Some (COMMAND_ERROR_NONE, s2)"
    and r: "priv_server_ptrace_set_registers K (s2\<lparr> arch := (arch s2)\<lparr> current_regs := regs, callback_stack := callback_stack (arch s2) @ [cdata] \<rparr> \<rparr>) regs
      = (COMMAND_ERROR_NONE, s3)" and g: "server_ptrace_continue K s3 = (COMMAND_ERROR_NONE, s1)"
    by (auto simp: i386_start_call_def set_current_regs_def Let_def split: if_splits prod.splits)
  show ?thesis
    using kern_only_write [OF w] kern_only_op_eqs(1) [OF r] continue_ok [OF g]
    by (intro exI [of _ "kern s1"] server.equality) (auto elim!: kern_onlyE)
qed

section \<open>Calls that save the registers in the server\<close>

text \<open>
  A call that has started, with the argument of its callback, the address where it comes back, the
  address of its exception object (0 for none) and the action that its end gives. \<open>call_method_2\<close>,
  which has the method change the saved registers, is not among them.
\<close>

inductive x86_64_called ::
  "('k, 'f) x86_64_kernel \<Rightarrow> ('k, 'f) x86_64_server \<Rightarrow> guint64 \<Rightarrow> guint64 \<Rightarrow> guint64 \<Rightarrow> ChildStoppedAction \<Rightarrow>
     ('k, 'f) x86_64_server \<Rightarrow> bool" for K s cb_arg where
  call_method: "x86_64_call_method K s meth arg1 arg2 cb_arg = Some (COMMAND_ERROR_NONE, s1) \<Longrightarrow>
     x86_64_called K s cb_arg (x86_64_call_block (rsp (current_regs (arch s))) 24 + 16) 0 STOP_ACTION_CALLBACK s1"
| call_method_1: "x86_64_call_method_1 K s meth arg data1 data2 string cb_arg = Some (COMMAND_ERROR_NONE, s1) \<Longrightarrow>
     x86_64_called K s cb_arg
       (x86_64_call_block (rsp (current_regs (arch s))) (24 + length (c_bytes string) + 1) + 16) 0 STOP_ACTION_CALLBACK s1"
| call_method_3: "x86_64_call_method_3 K s meth arg address blob cb_arg = Some (COMMAND_ERROR_NONE, s1) \<Longrightarrow>
     x86_64_called K s cb_arg
       (x86_64_call_block (rsp (current_regs (arch s))) (24 + length blob) + 23) 0 STOP_ACTION_CALLBACK s1"
| call_method_invoke: "x86_64_call_method_invoke K s meth arg params blob cb_arg dbg = Some (COMMAND_ERROR_NONE, s1) \<Longrightarrow>
     new_rsp = x86_64_call_block (rsp (current_regs (arch s))) (32 + (length params + 3) * 8 + length blob) \<Longrightarrow>
     x86_64_called K s cb_arg (new_rsp + 24) (new_rsp + 16) STOP_ACTION_RTI_DONE s1"

inductive i386_called ::
  "('k, 'f) i386_kernel \<Rightarrow> ('k, 'f) i386_server \<Rightarrow> guint64 \<Rightarrow> guint32 \<Rightarrow> guint32 \<Rightarrow> ChildStoppedAction \<Rightarrow>
     ('k, 'f) i386_server \<Rightarrow> bool" for K s cb_arg where
  call_method: "i386_call_method K s meth arg1 arg2 cb_arg = Some (COMMAND_ERROR_NONE, s1) \<Longrightarrow>
     i386_called K s cb_arg (esp (current_regs (arch s))) 0 STOP_ACTION_CALLBACK s1"
| call_method_1: "i386_call_method_1 K s meth arg data1 data2 string cb_arg = Some (COMMAND_ERROR_NONE, s1) \<Longrightarrow>
     i386_called K s cb_arg (esp (current_regs (arch s)) - of_nat (length (c_bytes string) + 1)) 0 STOP_ACTION_CALLBACK s1"
| call_method_3: "i386_call_method_3 K s meth arg address blob cb_arg = Some (COMMAND_ERROR_NONE, s1) \<Longrightarrow>
     i386_called K s cb_arg (esp (current_regs (arch s)) - of_nat (length blob)) 0 STOP_ACTION_CALLBACK s1"
| call_method_invoke: "i386_call_method_invoke K s meth arg params blob cb_arg dbg = Some (COMMAND_ERROR_NONE, s1) \<Longrightarrow>
     new_esp = esp (current_regs (arch s)) - of_nat (25 + (length params + 3) * 4 + length blob) \<Longrightarrow>
     i386_called K s cb_arg (new_esp + 25) (new_esp + 20) STOP_ACTION_RTI_DONE s1"

text \<open>Each of them has pushed an entry that remembers the caller's state.\<close>

definition call_saved :: "('k, 'w::len, 'r, 'f, 'z) x86_server \<Rightarrow> ('k, 'w, 'r, 'f, 'z) x86_server \<Rightarrow> ('w, 'r, 'f) CallbackData \<Rightarrow> bool" where
  "call_saved s s1 cdata \<longleftrightarrow> callback_stack (arch s1) = callback_stack (arch s) @ [cdata] \<and>
     saved_regs cdata = current_regs (arch s) \<and> saved_fpregs cdata = current_fpregs (arch s) \<and>
     saved_signal cdata = last_signal (inferior s)"

lemma CallbackData_new_fields [simp]:
  "saved_regs (CallbackData_new r f) = r" "saved_fpregs (CallbackData_new r f) = f"
  "callback_argument (CallbackData_new r f) = 0" "call_address (CallbackData_new r f) = 0"
  "stack_pointer (CallbackData_new r f) = 0" "rti_frame (CallbackData_new r f) = 0"
  "exc_address (CallbackData_new r f) = 0" "pushed_registers (CallbackData_new r f) = 0"
  "data_pointer (CallbackData_new r f) = 0" "data_size (CallbackData_new r f) = 0"
  "saved_signal (CallbackData_new r f) = 0" "debug (CallbackData_new r f) = False" "is_rti (CallbackData_new r f) = False"
  by (simp_all add: CallbackData_new_def)

lemma x86_64_start_call_saved:
  assumes "x86_64_start_call K (set_last_signal 0 s) a code cdata regs = Some (COMMAND_ERROR_NONE, s1)"
    and "saved_regs cdata = current_regs (arch s)" "saved_fpregs cdata = current_fpregs (arch s)"
    "saved_signal cdata = last_signal (inferior s)"
  shows "call_saved s s1 cdata"
  using x86_64_start_call_ok [OF assms(1)] assms(2-) by (auto simp: call_saved_def set_last_signal_def)

lemma i386_start_call_saved:
  assumes "i386_start_call K (set_last_signal 0 s) a code cdata regs = Some (COMMAND_ERROR_NONE, s1)"
    and "saved_regs cdata = current_regs (arch s)" "saved_fpregs cdata = current_fpregs (arch s)"
    "saved_signal cdata = last_signal (inferior s)"
  shows "call_saved s s1 cdata"
  using i386_start_call_ok [OF assms(1)] assms(2-) by (auto simp: call_saved_def set_last_signal_def)

lemma x86_64_called_saved:
  assumes "x86_64_called K s cb_arg addr exc action s1"
  obtains cdata where "call_saved s s1 cdata" "callback_argument cdata = cb_arg" "call_address cdata = addr"
    "exc_address cdata = exc" "pushed_registers cdata = 0" "data_pointer cdata = 0" "call_action cdata = action"
    "call_result cdata = (\<lambda>d. d)"
proof -
  note simps = x86_64_new_cdata_def call_action_def call_result_def fun_eq_iff eval_nat_numeral
  show thesis using assms
  proof cases
    case (call_method meth arg1 arg2)
    show thesis
      by (rule that [OF x86_64_start_call_saved [OF call_method(4) [unfolded x86_64_call_method_def Let_def]]])
        (use call_method(1-3) in \<open>simp_all add: simps\<close>)
  next
    case (call_method_1 meth arg data1 data2 string)
    show thesis using call_method_1(4) unfolding x86_64_call_method_1_def Let_def bind_eq_Some
      by (elim exE conjE) (rule that [OF x86_64_start_call_saved], assumption, simp_all (no_asm_simp) add: simps call_method_1(1-3))
  next
    case (call_method_3 meth arg address blob)
    show thesis using call_method_3(4) unfolding x86_64_call_method_3_def Let_def bind_eq_Some
      by (elim exE conjE) (rule that [OF x86_64_start_call_saved], assumption, simp_all (no_asm_simp) add: simps call_method_3(1-3))
  next
    case (call_method_invoke meth arg params blob dbg new_sp)
    show thesis using call_method_invoke(4) unfolding x86_64_call_method_invoke_def Let_def bind_eq_Some
      by (elim exE conjE) (rule that [OF x86_64_start_call_saved], assumption, simp_all (no_asm_simp) add: simps call_method_invoke(1-3,5))
  qed
qed

lemma i386_called_saved:
  assumes "i386_called K s cb_arg addr exc action s1"
  obtains cdata where "call_saved s s1 cdata" "callback_argument cdata = cb_arg" "call_address cdata = addr"
    "exc_address cdata = exc" "pushed_registers cdata = 0" "data_pointer cdata = 0" "call_action cdata = action"
    "call_result cdata = (\<lambda>d. d)"
proof -
  note simps = i386_new_cdata_def call_action_def call_result_def fun_eq_iff eval_nat_numeral
  show thesis using assms
  proof cases
    case (call_method meth arg1 arg2)
    show thesis
      by (rule that [OF i386_start_call_saved [OF call_method(4) [unfolded i386_call_method_def Let_def]]])
        (use call_method(1-3) in \<open>simp_all add: simps\<close>)
  next
    case (call_method_1 meth arg data1 data2 string)
    show thesis using call_method_1(4) unfolding i386_call_method_1_def Let_def bind_eq_Some
      by (elim exE conjE) (rule that [OF i386_start_call_saved], assumption, simp_all (no_asm_simp) add: simps call_method_1(1-3))
  next
    case (call_method_3 meth arg address blob)
    show thesis using call_method_3(4) unfolding i386_call_method_3_def Let_def bind_eq_Some
      by (elim exE conjE) (rule that [OF i386_start_call_saved], assumption, simp_all (no_asm_simp) add: simps call_method_3(1-3))
  next
    case (call_method_invoke meth arg params blob dbg new_sp)
    show thesis using call_method_invoke(4) unfolding i386_call_method_invoke_def Let_def bind_eq_Some
      by (elim exE conjE) (rule that [OF i386_start_call_saved], assumption, simp_all (no_asm_simp) add: simps call_method_invoke(1-3,5))
  qed
qed

section \<open>What a call sets up\<close>

text \<open>When the stack is mapped, the block is written and the registers are set before the target is
  continued.\<close>

lemma x86_64_start_call_runs:
  fixes s :: "('k, 'f) x86_64_server"
  assumes t: "target_of K s A good M R F" and n: "length code + sizeof_long TYPE(64) \<le> 2 ^ LENGTH(64)"
    and map: "written_span a (length code) \<subseteq> A"
  obtains k where "x86_64_start_call K s a code cdata regs = Some (server_ptrace_continue K
      (s\<lparr> arch := (arch s)\<lparr> current_regs := regs, callback_stack := callback_stack (arch s) @ [cdata] \<rparr>, kern := k \<rparr>))"
    "good k" "R k = regs" "M k = store (M (kern s)) a code"
proof -
  obtain k1 where k1: "server_ptrace_write_memory K s a code = Some (COMMAND_ERROR_NONE, s\<lparr> kern := k1 \<rparr>)" "good k1"
    "M k1 = store (M (kern s)) a code"
    using write_memory [OF byte_words_32_64(2) target_registersD(1) [OF conjunct1 [OF t]] conjunct2 [OF t] n, of "a"] map
    by (auto simp: ucast_up_down)
  let ?s = "s\<lparr> kern := k1, arch := (arch s)\<lparr> current_regs := regs, callback_stack := callback_stack (arch s) @ [cdata] \<rparr> \<rparr>"
  have T: "target_of K ?s A good M R F" using t k1(2) by simp
  obtain k2 where k2: "priv_server_ptrace_set_registers K ?s regs = (COMMAND_ERROR_NONE, ?s\<lparr> kern := k2 \<rparr>)" "good k2"
    "R k2 = regs" "M k2 = M (kern ?s)" by (rule set_registers_ok [OF T])
  have "x86_64_start_call K s a code cdata regs = Some (server_ptrace_continue K
      (s\<lparr> arch := (arch s)\<lparr> current_regs := regs, callback_stack := callback_stack (arch s) @ [cdata] \<rparr>, kern := k2 \<rparr>))"
    using k1(1) k2(1)
    by (simp add: x86_64_start_call_def set_current_regs_def Let_def priv_server_ptrace_make_memory_executable_def)
  then show thesis using k1(3) k2(2-4) by (intro that [of k2]) simp_all
qed

lemma i386_start_call_runs:
  fixes s :: "('k, 'f) i386_server"
  assumes t: "target_of K s A good M R F" and n: "length code + sizeof_long TYPE(32) \<le> 2 ^ LENGTH(32)"
    and map: "written_span a (length code) \<subseteq> A"
  obtains k where "i386_start_call K s a code cdata regs = Some (server_ptrace_continue K
      (s\<lparr> arch := (arch s)\<lparr> current_regs := regs, callback_stack := callback_stack (arch s) @ [cdata] \<rparr>, kern := k \<rparr>))"
    "good k" "R k = regs" "M k = store (M (kern s)) a code"
proof -
  obtain k1 where k1: "server_ptrace_write_memory K s (ucast a) code = Some (COMMAND_ERROR_NONE, s\<lparr> kern := k1 \<rparr>)" "good k1"
    "M k1 = store (M (kern s)) a code"
    using write_memory [OF byte_words_32_64(1) target_registersD(1) [OF conjunct1 [OF t]] conjunct2 [OF t] n, of "ucast a"] map
    by (auto simp: ucast_up_down)
  let ?s = "s\<lparr> kern := k1, arch := (arch s)\<lparr> current_regs := regs, callback_stack := callback_stack (arch s) @ [cdata] \<rparr> \<rparr>"
  have T: "target_of K ?s A good M R F" using t k1(2) by simp
  obtain k2 where k2: "priv_server_ptrace_set_registers K ?s regs = (COMMAND_ERROR_NONE, ?s\<lparr> kern := k2 \<rparr>)" "good k2"
    "R k2 = regs" "M k2 = M (kern ?s)" by (rule set_registers_ok [OF T])
  have "i386_start_call K s a code cdata regs = Some (server_ptrace_continue K
      (s\<lparr> arch := (arch s)\<lparr> current_regs := regs, callback_stack := callback_stack (arch s) @ [cdata] \<rparr>, kern := k2 \<rparr>))"
    using k1(1) k2(1)
    by (simp add: i386_start_call_def set_current_regs_def Let_def priv_server_ptrace_make_memory_executable_def)
  then show thesis using k1(3) k2(2-4) by (intro that [of k2]) simp_all
qed

text \<open>The block lies below the red zone, at a multiple of 16.\<close>

lemma x86_64_call_block_aligned: "x86_64_call_block sp n AND 15 = 0"
  by (simp add: x86_64_call_block_def and.assoc)

lemma x86_64_call_block_below:
  assumes "n + 144 \<le> unat sp"
  shows "unat (x86_64_call_block sp n) + n + 16 \<le> unat sp - 128"
proof -
  have n: "unat (of_nat (n + 144) :: guint64) = n + 144"
    using assms unsigned_less [of sp, where 'a = nat] by (intro unat_of_nat_small) simp
  have eq: "sp - AMD64_RED_ZONE_SIZE - of_nat n - 16 = sp - of_nat (n + 144)"
    by (simp add: AMD64_RED_ZONE_SIZE_def)
  have "unat (sp - of_nat (n + 144)) = unat sp - (n + 144)"
    using assms n by (subst unat_sub) (simp_all add: word_le_nat_alt)
  then have "unat (sp - AMD64_RED_ZONE_SIZE - of_nat n - 16) = unat sp - (n + 144)" unfolding eq .
  moreover have "unat (x86_64_call_block sp n) \<le> unat (sp - AMD64_RED_ZONE_SIZE - of_nat n - 16)"
    unfolding x86_64_call_block_def word_le_nat_alt [symmetric] by (rule word_and_le2)
  ultimately show ?thesis using assms by linarith
qed

definition x86_64_call_method_code :: "guint64 \<Rightarrow> guint64 \<Rightarrow> guint8 list" where
  "x86_64_call_method_code new_rsp cb_arg = le64 (new_rsp + 16) @ le64 cb_arg @ [0xcc, 0, 0, 0, 0, 0, 0, 0]"

lemma x86_64_call_method_eq:
  "x86_64_call_method K s meth arg1 arg2 cb_arg =
     (let regs = current_regs (arch s); new_rsp = x86_64_call_block (rsp regs) 24 in
      x86_64_start_call K (set_last_signal 0 s) new_rsp (x86_64_call_method_code new_rsp cb_arg)
        ((x86_64_new_cdata s cb_arg)\<lparr> call_address := new_rsp + 16, stack_pointer := new_rsp + 8 \<rparr>)
        (regs\<lparr> orig_rax := -1, rip := meth, rdi := arg1, rsi := arg2, rsp := new_rsp \<rparr>))"
  by (simp add: x86_64_call_method_def x86_64_call_method_code_def put_bytes_def Let_def eval_nat_numeral)

section \<open>A call that may change the saved registers\<close>

definition x86_64_pushed_bytes :: "x86_64_regs \<Rightarrow> guint8 list" where
  "x86_64_pushed_bytes r = concat (map le64
     [rax r, rbx r, rcx r, rdx r, rbp r, rsp r, rsi r, rdi r, rip r, r12 r, r13 r, r14 r, r15 r])"

text \<open>The registers \<open>r\<close> with those that the method can change taken from \<open>p\<close>.\<close>

definition x86_64_with_pushed :: "x86_64_regs \<Rightarrow> x86_64_regs \<Rightarrow> x86_64_regs" where
  "x86_64_with_pushed p r = r\<lparr> rax := rax p, rbx := rbx p, rcx := rcx p, rdx := rdx p, rbp := rbp p, rsp := rsp p,
     rsi := rsi p, rdi := rdi p, rip := rip p, r12 := r12 p, r13 := r13 p, r14 := r14 p, r15 := r15 p \<rparr>"

lemma x86_64_with_pushed_self [simp]: "x86_64_with_pushed r r = r"
  by (simp add: x86_64_with_pushed_def)

lemma get_bytes_append_left: "off + n \<le> length xs \<Longrightarrow> get_bytes off n (xs @ ys) = get_bytes off n xs"
  by (simp add: get_bytes_def)

lemma get_bytes_append_right: "length xs \<le> off \<Longrightarrow> get_bytes off n (xs @ ys) = get_bytes (off - length xs) n ys"
  by (simp add: get_bytes_def)

lemma get_bytes_words:
  "i < length ws \<Longrightarrow> get_bytes (n * i) n (concat (map (le_bytes n) ws)) = le_bytes n (ws ! i)"
proof (induction ws arbitrary: i)
  case (Cons w ws)
  then show ?case
    by (cases i) (simp_all add: get_bytes_append_right get_bytes_append_left get_bytes_def [of 0])
qed simp

lemma x86_64_regs_at_pushed: "i < length ws \<Longrightarrow> x86_64_regs_at (concat (map le64 ws)) i = ws ! i"
  by (simp add: x86_64_regs_at_def get_bytes_words le_word_le_bytes)

lemma i386_regs_at_pushed: "i < length ws \<Longrightarrow> i386_regs_at (concat (map le32 ws)) i = ws ! i"
  by (simp add: i386_regs_at_def get_bytes_words le_word_le_bytes)

lemma x86_64_restore_pushed_bytes:
  "x86_64_restore_pushed (x86_64_pushed_bytes p) r = x86_64_with_pushed p r"
  by (simp add: x86_64_restore_pushed_def x86_64_pushed_bytes_def x86_64_with_pushed_def x86_64_regs_at_pushed
      del: concat.simps list.map)

definition x86_64_call_method_2_code :: "guint64 \<Rightarrow> x86_64_regs \<Rightarrow> guint8 list \<Rightarrow> guint8 list" where
  "x86_64_call_method_2_code new_rsp regs data_buffer =
     le64 (new_rsp + of_nat (113 + length data_buffer) - 1) @ x86_64_pushed_bytes regs @ data_buffer @ [0xcc]"

definition x86_64_call_method_2_cdata ::
  "('k, 'f) x86_64_server \<Rightarrow> guint64 \<Rightarrow> guint8 list \<Rightarrow> guint64 \<Rightarrow> 'f x86_64_CallbackData" where
  "x86_64_call_method_2_cdata s new_rsp data_buffer cb_arg =
     (x86_64_new_cdata s cb_arg)\<lparr> call_address := new_rsp + of_nat (113 + length data_buffer) - 1,
        stack_pointer := new_rsp + 8, pushed_registers := new_rsp + 8,
        data_pointer := if data_buffer \<noteq> [] then new_rsp + 112 else 0,
        data_size := if data_buffer \<noteq> [] then of_nat (length data_buffer) else 0 \<rparr>"

text \<open>Consecutive words of \<open>n\<close> bytes put into a buffer.\<close>

fun put_words :: "nat \<Rightarrow> nat \<Rightarrow> 'w::len word list \<Rightarrow> guint8 list \<Rightarrow> guint8 list" where
  "put_words n off [] buf = buf"
| "put_words n off (w # ws) buf = put_words n (off + n) ws (put_bytes off (le_bytes n w) buf)"

lemma put_words_eq:
  "off + n * length ws \<le> length buf \<Longrightarrow>
     put_words n off ws buf = take off buf @ concat (map (le_bytes n) ws) @ drop (off + n * length ws) buf"
  by (induction n off ws buf rule: put_words.induct) (simp_all add: put_bytes_def ac_simps)

lemma x86_64_call_method_2_code_eq:
  assumes "buf = put_words 8 0 (ret # [rax r, rbx r, rcx r, rdx r, rbp r, rsp r, rsi r, rdi r, rip r, r12 r, r13 r, r14 r, r15 r])
      (replicate (113 + length data) 0)"
    and "buf' = put_bytes (length data + 112) [0xcc] buf"
  shows "(if data \<noteq> [] then put_bytes 112 data buf' else buf') = le64 ret @ x86_64_pushed_bytes r @ data @ [0xcc]"
proof -
  have "buf = (le64 ret @ x86_64_pushed_bytes r) @ replicate (Suc (length data)) 0"
    using assms(1) by (subst (asm) put_words_eq) (simp_all add: x86_64_pushed_bytes_def)
  moreover have "length (le64 ret @ x86_64_pushed_bytes r) = 112" by (simp add: x86_64_pushed_bytes_def)
  ultimately have "buf' = (le64 ret @ x86_64_pushed_bytes r) @ replicate (length data) 0 @ [0xcc]"
    using assms(2) by (simp add: put_bytes_def replicate_append_same [symmetric] min_def)
  then show ?thesis using \<open>length _ = 112\<close> by (simp add: put_bytes_def)
qed

lemma x86_64_call_method_2_eq:
  "x86_64_call_method_2 K s meth data_buffer cb_arg =
     (if 113 + length data_buffer < 2 ^ 31 then
        let regs = current_regs (arch s); new_rsp = x86_64_call_block (rsp regs) (113 + length data_buffer) in
        x86_64_start_call K (set_last_signal 0 s) new_rsp (x86_64_call_method_2_code new_rsp regs data_buffer)
          (x86_64_call_method_2_cdata s new_rsp data_buffer cb_arg)
          (regs\<lparr> orig_rax := -1, rip := meth, rdi := new_rsp + 8, rsi := new_rsp + 112, rsp := new_rsp \<rparr>)
      else None)"
proof -
  define regs where "regs = current_regs (arch s)"
  define new_rsp where "new_rsp = x86_64_call_block (rsp regs) (113 + length data_buffer)"
  let ?buf = "put_words 8 0 ((new_rsp + of_nat (113 + length data_buffer) - 1) # [rax regs, rbx regs, rcx regs, rdx regs,
      rbp regs, rsp regs, rsi regs, rdi regs, rip regs, r12 regs, r13 regs, r14 regs, r15 regs]) (replicate (113 + length data_buffer) 0)"
  let ?buf1 = "put_bytes (length data_buffer + 112) [0xcc] ?buf"
  note c = x86_64_call_method_2_code_eq [OF refl refl, where data = data_buffer and r = regs and ret = "new_rsp + of_nat (113 + length data_buffer) - 1",
      folded x86_64_call_method_2_code_def]
  show ?thesis
    unfolding c [symmetric] x86_64_call_method_2_def Let_def regs_def [symmetric] new_rsp_def [symmetric]
    by (simp add: x86_64_call_method_2_cdata_def g_malloc0_def x86_64_new_cdata_def CallbackData_new_def regs_def)
qed

text \<open>The i386 block, as words: two 64-bit pointers for the method stand before the registers.\<close>

definition i386_call_method_2_words :: "guint32 \<Rightarrow> guint32 \<Rightarrow> i386_regs \<Rightarrow> guint32 list" where
  "i386_call_method_2_words ret new_esp r = [ret, new_esp + 20, 0, new_esp + 56, 0,
     eax r, ebx r, ecx r, edx r, ebp r, esp r, esi r, edi r, eip r]"

definition i386_call_method_2_cdata ::
  "('k, 'f) i386_server \<Rightarrow> guint32 \<Rightarrow> guint8 list \<Rightarrow> guint64 \<Rightarrow> 'f i386_CallbackData" where
  "i386_call_method_2_cdata s new_esp data_buffer cb_arg =
     (i386_new_cdata s cb_arg)\<lparr> call_address := new_esp + of_nat (57 + length data_buffer),
        stack_pointer := new_esp + 4, pushed_registers := new_esp + 4,
        data_pointer := if data_buffer \<noteq> [] then new_esp + 56 else 0,
        data_size := if data_buffer \<noteq> [] then of_nat (length data_buffer) else 0 \<rparr>"

lemma le64_ucast: "le64 (ucast (w :: guint32)) = le32 w @ le32 0"
proof (rule nth_equalityI)
  fix i assume "i < length (le64 (ucast w))"
  then have i: "i < 8" by simp
  show "le64 (ucast w) ! i = (le32 w @ le32 0) ! i"
    by (rule bit_word_eqI)
      (use i in \<open>auto simp: nth_append nth_le_bytes bit_simps dest: bit_imp_le_length\<close>)
qed simp

lemma put_le64_ucast:
  "off + 8 \<le> length buf \<Longrightarrow> put_bytes off (le64 (ucast (w :: guint32))) buf = put_bytes (off + 4) (le32 0) (put_bytes off (le32 w) buf)"
  by (simp add: le64_ucast put_bytes_def add.commute)

lemma i386_call_method_2_code_eq:
  assumes "buf = put_words 4 0 (i386_call_method_2_words ret new_esp r) (replicate (57 + length data) 0)"
    and "buf' = put_bytes (length data + 56) [0xcc] buf"
  shows "(if data \<noteq> [] then put_bytes 56 data buf' else buf') =
    concat (map le32 (i386_call_method_2_words ret new_esp r)) @ data @ [0xcc]"
proof -
  let ?ws = "concat (map le32 (i386_call_method_2_words ret new_esp r))"
  have l: "length ?ws = 56" by (simp add: i386_call_method_2_words_def)
  have "buf = ?ws @ replicate (Suc (length data)) 0"
    using assms(1) by (subst (asm) put_words_eq) (simp_all add: i386_call_method_2_words_def)
  then have "buf' = ?ws @ replicate (length data) 0 @ [0xcc]"
    using assms(2) l by (simp add: put_bytes_def replicate_append_same [symmetric] min_def)
  then show ?thesis using l by (simp add: put_bytes_def)
qed

lemma i386_call_method_2_eq:
  "i386_call_method_2 K s meth data_buffer cb_arg =
     (if 57 + length data_buffer < 2 ^ 31 then
        let regs = current_regs (arch s); new_esp = esp regs - of_nat (57 + length data_buffer) in
        i386_start_call K (set_last_signal 0 s) new_esp
          (concat (map le32 (i386_call_method_2_words (new_esp + of_nat (57 + length data_buffer) - 1) new_esp regs)) @
             data_buffer @ [0xcc])
          (i386_call_method_2_cdata s new_esp data_buffer cb_arg)
          (regs\<lparr> orig_eax := -1, eip := ucast meth, esp := new_esp \<rparr>)
      else None)"
proof -
  define regs where "regs = current_regs (arch s)"
  define new_esp where "new_esp = esp regs - of_nat (57 + length data_buffer)"
  define ret where "ret = new_esp + of_nat (57 + length data_buffer) - 1"
  note c = i386_call_method_2_code_eq [OF refl refl, where data = data_buffer and r = regs and ret = ret and new_esp = new_esp]
  show ?thesis
    unfolding i386_call_method_2_def Let_def regs_def [symmetric] new_esp_def [symmetric] ret_def [symmetric] c [symmetric]
    by (simp add: i386_call_method_2_cdata_def g_malloc0_def i386_new_cdata_def CallbackData_new_def
        put_le64_ucast i386_call_method_2_words_def regs_def)
qed

text \<open>The entry of such a call, the block in memory and what the stop at its end finds.\<close>

lemma x86_64_call_method_2_saved:
  assumes "x86_64_call_method_2 K s meth data_buffer cb_arg = Some (COMMAND_ERROR_NONE, s1)"
  shows "call_saved s s1 (x86_64_call_method_2_cdata s (x86_64_call_block (rsp (current_regs (arch s))) (113 + length data_buffer)) data_buffer cb_arg)"
    and "113 + length data_buffer < 2 ^ 31"
  using assms unfolding x86_64_call_method_2_eq Let_def
  by (auto intro!: x86_64_start_call_saved simp: x86_64_call_method_2_cdata_def x86_64_new_cdata_def split: if_splits)

lemma length_x86_64_pushed_bytes [simp]: "length (x86_64_pushed_bytes r) = 104"
  by (simp add: x86_64_pushed_bytes_def)

lemma length_x86_64_call_method_2_code [simp]: "length (x86_64_call_method_2_code sp r data) = 113 + length data"
  by (simp add: x86_64_call_method_2_code_def)

lemma x86_64_call_method_2_code_parts:
  "get_bytes 0 8 (x86_64_call_method_2_code sp r data) = le64 (sp + of_nat (112 + length data))"
  "get_bytes 8 104 (x86_64_call_method_2_code sp r data) = x86_64_pushed_bytes r"
  "get_bytes 112 (length data) (x86_64_call_method_2_code sp r data) = data"
  "x86_64_call_method_2_code sp r data ! (112 + length data) = 0xcc"
  by (simp_all add: x86_64_call_method_2_code_def get_bytes_def nth_append ac_simps)

text \<open>Where the block is, when the stack pointer is high enough for it.\<close>

lemma x86_64_call_block_plus:
  assumes "n + 144 \<le> unat sp" and "m \<le> n" and "0 < m"
  shows "x86_64_call_block sp n + of_nat m \<noteq> 0"
proof -
  have b: "unat (x86_64_call_block sp n) + m < 2 ^ 64"
    using x86_64_call_block_below [OF assms(1)] assms(2) unsigned_less [of sp, where 'a = nat] by simp
  then have "unat (x86_64_call_block sp n + of_nat m) = unat (x86_64_call_block sp n) + m"
    by (subst unat_word_ariths) (simp add: unat_of_nat take_bit_nat_eq_self unsigned_of_nat)
  then show ?thesis using assms(3) by (metis add_is_0 less_not_refl unsigned_0)
qed

end
