(* ===== verification/Flat_Servers.thy ===== *)
theory Flat_Servers
  imports Flat_Target Method_Calls
begin

text \<open>
  Concrete servers on the flat target: one of each architecture, with no breakpoints, a memory
  full of \<open>nop\<close> instructions and zero registers except for the instruction and stack pointers.
\<close>

definition x86_64_zero_regs :: x86_64_regs where
  "x86_64_zero_regs = x86_64_regs_of_bytes (replicate 216 0)"

definition i386_zero_regs :: i386_regs where
  "i386_zero_regs = i386_regs_of_bytes (replicate 68 0)"

definition flat64 :: "(64, x86_64_regs, unit) flat" where
  "flat64 = \<lparr> flat_mem = (\<lambda>_. 0x90), flat_regs = x86_64_zero_regs\<lparr> rip := 0x400000, rsp := 0x7fff0000 \<rparr>,
     flat_fpregs = (), flat_dr = (\<lambda>_. 0) \<rparr>"

definition flat32 :: "(32, i386_regs, unit) flat" where
  "flat32 = \<lparr> flat_mem = (\<lambda>_. 0x90), flat_regs = i386_zero_regs\<lparr> eip := 0x400000, esp := 0x7fff0000 \<rparr>,
     flat_fpregs = (), flat_dr = (\<lambda>_. 0) \<rparr>"

definition server64 :: "((64, x86_64_regs, unit) flat, unit) x86_64_server" where
  "server64 = flat_server (x86_64_arch_initialize (flat_regs flat64) ()) flat64"

definition server32 :: "((32, i386_regs, unit) flat, unit) i386_server" where
  "server32 = flat_server (i386_arch_initialize (flat_regs flat32) ()) flat32"

lemma memory_ok_servers:
  "memory_ok flat_kernel server64 UNIV (\<lambda>_. True) flat_mem"
  "memory_ok flat_kernel server32 UNIV (\<lambda>_. True) flat_mem"
  unfolding server64_def server32_def
  by (rule memory_ok_flat; simp add: x86_64_arch_initialize_def i386_arch_initialize_def)+

lemma servers_fields [simp]:
  "kern server64 = flat64" "mono_runtime server64 = None" "last_breakpoint_id server64 = 0"
  "inferior server64 = InferiorHandle_zero" "bpm server64 = mono_debugger_breakpoint_manager_new"
  "arch server64 = x86_64_arch_initialize (flat_regs flat64) ()" "bpm_mutex server64 = 0"
  "kern server32 = flat32" "mono_runtime server32 = None" "last_breakpoint_id server32 = 0"
  "inferior server32 = InferiorHandle_zero" "bpm server32 = mono_debugger_breakpoint_manager_new"
  "arch server32 = i386_arch_initialize (flat_regs flat32) ()" "bpm_mutex server32 = 0"
  by (simp_all add: server64_def server32_def)

lemma bp_table_servers [simp]: "bp_table server64 a = None" "bp_table server32 b = None"
  by (simp_all add: bp_table_def)

lemma code_byte_servers:
  "unat a + 1 < 2 ^ 64 \<Longrightarrow> code_byte server64 UNIV a" "unat a + 1 < 2 ^ 32 \<Longrightarrow> code_byte server32 UNIV a"
  by (simp_all add: code_byte_def runtime_area_def)

lemma runtime_area_servers [simp]: "runtime_area server64 = {}" "runtime_area server32 = {}"
  by (simp_all add: runtime_area_def)

text \<open>The same servers with one breakpoint, at the instruction pointer.\<close>

lemma inserted64:
  obtains s where "x86_64_insert_breakpoint flat_kernel server64 0x400000 = Some (COMMAND_ERROR_NONE, Some 1, s)"
    "memory_ok flat_kernel s UNIV (\<lambda>_. True) flat_mem" "runtime_area s = {}" "bp_table s = [0x400000 \<mapsto> (1, 1)]"
  using insert_refines [OF x86_64_backend_axioms _ memory_ok_servers(1), of "0x400000"]
  by (fastforce simp: x86_64_insert_breakpoint_def x86_64_enable_breakpoint_at_def code_byte_servers
      add_reference_def Let_def fun_eq_iff)

lemma inserted32:
  obtains s where "i386_insert_breakpoint flat_kernel server32 0x400000 = Some (COMMAND_ERROR_NONE, Some 1, s)"
    "memory_ok flat_kernel s UNIV (\<lambda>_. True) flat_mem" "runtime_area s = {}" "bp_table s = [0x400000 \<mapsto> (1, 1)]"
  using insert_refines [OF i386_backend_axioms _ memory_ok_servers(2), of "0x400000"]
  by (fastforce simp: i386_insert_breakpoint_def i386_enable_breakpoint_at_def code_byte_servers
      add_reference_def Let_def fun_eq_iff)

text \<open>Calls into the flat target.\<close>

lemma flat_target_registers_dr:
  "target_registers flat_kernel pid fd UNIV (\<lambda>k. P (flat_dr k)) flat_mem flat_regs flat_fpregs"
  by (simp add: target_registers_def target_memory_def flat_kernel_def)

lemmas flat_target_registers = flat_target_registers_dr [where P = "\<lambda>_. True"]

lemma flat_continue: "server_ptrace_continue flat_kernel s = (COMMAND_ERROR_NONE, s\<lparr> inferior := (inferior s)\<lparr> stepping := False \<rparr> \<rparr>)"
  by (simp add: server_ptrace_continue_def)

lemma flat_start_call64:
  assumes "length code < 2 ^ 31"
  shows "\<exists>s1. x86_64_start_call flat_kernel s a code cdata regs = Some (COMMAND_ERROR_NONE, s1)"
  by (rule x86_64_start_call_runs [where K = flat_kernel and s = s and A = UNIV and good = "\<lambda>_. True" and M = flat_mem
        and R = flat_regs and F = flat_fpregs and code = code and a = a and cdata = cdata and regs = regs])
    (use assms in \<open>simp_all add: flat_target_registers flat_continue\<close>)

lemma flat_start_call32:
  assumes "length code < 2 ^ 31"
  shows "\<exists>s1. i386_start_call flat_kernel s a code cdata regs = Some (COMMAND_ERROR_NONE, s1)"
  by (rule i386_start_call_runs [where K = flat_kernel and s = s and A = UNIV and good = "\<lambda>_. True" and M = flat_mem
        and R = flat_regs and F = flat_fpregs and code = code and a = a and cdata = cdata and regs = regs])
    (use assms in \<open>simp_all add: flat_target_registers flat_continue\<close>)

lemma flat_calls:
  "\<exists>s1. x86_64_call_method flat_kernel s meth arg1 arg2 cb_arg = Some (COMMAND_ERROR_NONE, s1)"
  "\<exists>s1. x86_64_call_method_2 flat_kernel s meth [1, 2, 3] cb_arg = Some (COMMAND_ERROR_NONE, s1)"
  "\<exists>s1. i386_call_method flat_kernel s' meth arg1 arg2 cb_arg = Some (COMMAND_ERROR_NONE, s1)"
  "\<exists>s1. i386_call_method_2 flat_kernel s' meth [1, 2, 3] cb_arg = Some (COMMAND_ERROR_NONE, s1)"
proof -
  show "\<exists>s1. x86_64_call_method flat_kernel s meth arg1 arg2 cb_arg = Some (COMMAND_ERROR_NONE, s1)"
    unfolding x86_64_call_method_eq Let_def by (rule flat_start_call64) (simp add: x86_64_call_method_code_def)
  show "\<exists>s1. x86_64_call_method_2 flat_kernel s meth [1, 2, 3] cb_arg = Some (COMMAND_ERROR_NONE, s1)"
    unfolding x86_64_call_method_2_eq Let_def
    by (simp, rule flat_start_call64, simp add: x86_64_call_method_2_code_def x86_64_pushed_bytes_def)
  show "\<exists>s1. i386_call_method flat_kernel s' meth arg1 arg2 cb_arg = Some (COMMAND_ERROR_NONE, s1)"
    unfolding i386_call_method_def Let_def by (rule flat_start_call32) simp
  show "\<exists>s1. i386_call_method_2 flat_kernel s' meth [1, 2, 3] cb_arg = Some (COMMAND_ERROR_NONE, s1)"
    unfolding i386_call_method_2_eq Let_def
    by (simp, rule flat_start_call32, simp add: i386_call_method_2_words_def)
qed

lemma watch_hit_loop_0 [simp]: "watch_hit_loop 0 xs = None"
  by (induction xs) (simp_all add: X86_DR_WATCH_HIT_def)

end
