(* ===== verification/Call_Properties.thy ===== *)
theory Call_Properties
  imports Flat_Servers
begin

text \<open>
  What calling a method in the target does: the block and the registers that a call sets up, and that
  the stop at the end of the call reports the result and puts everything back.
\<close>

text \<open>C8. \<open>call_method\<close> on x86_64, with a mapped stack that does not reach below address 168: before the
  target is continued, the stack pointer is a multiple of 16 below the red zone, the word there is the
  return address, the byte at the return address is an \<open>int 3\<close>, the method's two arguments are in
  \<open>rdi\<close> and \<open>rsi\<close>, and no other byte of memory has changed.\<close>

theorem x86_64_call_method_sets_up:
  fixes s :: "('k, 'f) x86_64_server"
  assumes target: "target_registers K (inf_pid (inferior s)) (mem_fd (inferior s)) A good M R F" "good (kern s)"
    and room: "168 \<le> unat (rsp (current_regs (arch s)))"
    and mapped: "span (x86_64_call_block (rsp (current_regs (arch s))) 24) 24 \<subseteq> A"
  shows "\<exists>s1. x86_64_call_method K s meth arg1 arg2 cb_arg = Some (server_ptrace_continue K s1) \<and> good (kern s1) \<and>
    last_signal (inferior s1) = 0 \<and>
    (let sp = x86_64_call_block (rsp (current_regs (arch s))) 24 in
       R (kern s1) = (current_regs (arch s))\<lparr> orig_rax := -1, rip := meth, rdi := arg1, rsi := arg2, rsp := sp \<rparr> \<and>
       sp AND 15 = 0 \<and> unat sp + 40 \<le> unat (rsp (current_regs (arch s))) - 128 \<and>
       le_word (load (M (kern s1)) sp 8) = sp + 16 \<and> M (kern s1) (sp + 16) = 0xcc \<and>
       (\<forall>x. x \<notin> span sp 24 \<longrightarrow> M (kern s1) x = M (kern s) x))"
proof -
  let ?sp = "x86_64_call_block (rsp (current_regs (arch s))) 24"
  let ?code = "x86_64_call_method_code ?sp cb_arg"
  have len: "length ?code = 24" by (simp add: x86_64_call_method_code_def)
  have t: "target_of K (set_last_signal 0 s) A good M R F" using target by (simp add: set_last_signal_def)
  have "written_span ?sp (length ?code) \<subseteq> A" using mapped by (simp add: len written_span_def)
  note runs = x86_64_start_call_runs [OF t _ this]
  let ?regs = "(current_regs (arch s))\<lparr> orig_rax := -1, rip := meth, rdi := arg1, rsi := arg2, rsp := ?sp \<rparr>"
  let ?cdata = "(x86_64_new_cdata s cb_arg)\<lparr> call_address := ?sp + 16, stack_pointer := ?sp + 8 \<rparr>"
  obtain s1 where s1: "x86_64_start_call K (set_last_signal 0 s) ?sp ?code ?cdata ?regs = Some (server_ptrace_continue K s1)"
    "good (kern s1)" "last_signal (inferior s1) = 0" "M (kern s1) = store (M (kern s)) ?sp ?code" "R (kern s1) = ?regs"
    by (rule runs [where cdata = ?cdata and regs = ?regs]) (simp_all add: len set_last_signal_def)
  have run: "x86_64_call_method K s meth arg1 arg2 cb_arg = Some (server_ptrace_continue K s1)"
    unfolding x86_64_call_method_eq Let_def by (rule s1(1))
  have "load (M (kern s1)) ?sp 8 = get_bytes 0 8 ?code" "M (kern s1) (?sp + 16) = ?code ! 16"
    using load_store_part [of 0 8 ?code "M (kern s)" ?sp] store_inside [of 16 ?code "M (kern s)" ?sp]
    by (simp_all add: s1(4) len)
  moreover have "get_bytes 0 8 ?code = le64 (?sp + 16)" "?code ! 16 = 0xcc"
    by (simp_all add: x86_64_call_method_code_def get_bytes_def nth_append)
  moreover have "M (kern s1) x = M (kern s) x" if "x \<notin> span ?sp 24" for x
    using that by (simp add: s1(4) len store_outside)
  moreover have "unat ?sp + 40 \<le> unat (rsp (current_regs (arch s))) - 128"
    using x86_64_call_block_below [of 24 "rsp (current_regs (arch s))"] room by simp
  ultimately show ?thesis
    using run s1(2,3,5) x86_64_call_block_aligned
    by (auto simp: Let_def le_word_le_bytes intro!: exI [of _ s1])
qed

theorem x86_64_call_method_sets_up_witness:
  "\<exists>s1. x86_64_call_method flat_kernel server64 0x401000 1 2 42 = Some (server_ptrace_continue flat_kernel s1) \<and>
    rip (flat_regs (kern s1)) = 0x401000 \<and> rsp (flat_regs (kern s1)) = 0x7ffeff50 \<and> flat_mem (kern s1) 0x7ffeff60 = 0xcc"
proof -
  have sp: "rsp (current_regs (arch server64)) = 0x7fff0000" "x86_64_call_block 0x7fff0000 24 = 0x7ffeff50"
    by (simp_all add: x86_64_arch_initialize_def flat64_def x86_64_call_block_def AMD64_RED_ZONE_SIZE_def)
  show ?thesis
    using x86_64_call_method_sets_up [OF flat_target_registers, of server64, unfolded sp]
    by (fastforce simp: Let_def)
qed

text \<open>C9. A call on x86_64 by any of \<open>call_method\<close>, \<open>call_method_1\<close>, \<open>call_method_3\<close> and \<open>call_method_invoke\<close>,
  with whatever happens in between as long as the stack of calls is the same again: when the target
  stops at the end of the call, by the \<open>int 3\<close> or by the \<open>SIGSEGV\<close> of a stack that is not executable,
  \<open>x86_arch_child_stopped\<close> returns the action of that call with the callback's argument, the method's
  result and the exception object, and all registers, the floating point registers, the pending signal
  and the stack of calls are what they were before the call.\<close>

theorem x86_64_call_returns:
  fixes s s2 :: "('k, 'f) x86_64_server"
  assumes call: "x86_64_called K s cb_arg addr exc action s1"
    and stack: "callback_stack (arch s2) = callback_stack (arch s1)"
    and target: "target_registers K (inf_pid (inferior s2)) (mem_fd (inferior s2)) A good M R F" "good (kern s2)"
    and exc: "exc \<noteq> 0 \<Longrightarrow> span exc 8 \<subseteq> A \<and> unat exc + 8 < 2 ^ 64 \<and> server_ok s2 \<and> addrs_canonical s2"
    and stop: "stopsig \<noteq> SIGSTOP" "stopsig = SIGSEGV \<and> rip (R (kern s2)) = addr \<or> rip (R (kern s2)) - 1 = addr"
  shows "\<exists>d s3. x86_64_child_stopped K s2 stopsig = Some (action, d, s3) \<and>
    callback_arg d = Some cb_arg \<and> retval d = Some (rax (R (kern s2))) \<and>
    retval2 d = (if exc = 0 then None else Some (le_word (load (view s2 (M (kern s2))) exc 8))) \<and>
    R (kern s3) = current_regs (arch s) \<and> F (kern s3) = current_fpregs (arch s) \<and> M (kern s3) = M (kern s2) \<and>
    current_regs (arch s3) = current_regs (arch s) \<and> callback_stack (arch s3) = callback_stack (arch s) \<and>
    last_signal (inferior s3) = last_signal (inferior s)"
proof -
  obtain cdata where c: "call_saved s s1 cdata" "callback_argument cdata = cb_arg" "call_address cdata = addr"
    "exc_address cdata = exc" "pushed_registers cdata = 0" "data_pointer cdata = 0" "call_action cdata = action"
    "call_result cdata = (\<lambda>d. d)" by (rule x86_64_called_saved [OF call])
  have top: "get_callback_data (arch s2) = Some cdata"
    using c(1) stack by (simp add: get_callback_data_def call_saved_def)
  have m: "cdata_mapped s2 A 104 cdata" using c(4-6) exc by (simp add: cdata_mapped_def)
  show ?thesis
    by (rule x86_64_stop_returns [OF conjI [OF target] top m stop(1) stop(2) [folded c(3)]])
      (use c stack in \<open>auto simp: call_saved_def x86_64_call_data_def cdata_exc_def x86_64_returned_regs_def\<close>)
qed

theorem x86_64_call_returns_witness:
  "\<exists>s1 d s3. x86_64_call_method flat_kernel server64 0x401000 1 2 42 = Some (COMMAND_ERROR_NONE, s1) \<and>
    x86_64_child_stopped flat_kernel (s1\<lparr> kern := (kern s1)\<lparr> flat_regs := x86_64_zero_regs\<lparr> rip := 0x7ffeff61, rax := 7 \<rparr> \<rparr> \<rparr>)
      SIGTRAP = Some (STOP_ACTION_CALLBACK, d, s3) \<and>
    callback_arg d = Some 42 \<and> retval d = Some 7 \<and> flat_regs (kern s3) = flat_regs flat64"
proof -
  obtain s1 where s1: "x86_64_call_method flat_kernel server64 0x401000 1 2 42 = Some (COMMAND_ERROR_NONE, s1)"
    using flat_calls(1) by blast
  let ?s2 = "s1\<lparr> kern := (kern s1)\<lparr> flat_regs := x86_64_zero_regs\<lparr> rip := 0x7ffeff61, rax := 7 \<rparr> \<rparr> \<rparr>"
  have addr: "x86_64_call_block (rsp (current_regs (arch server64))) 24 + 16 = 0x7ffeff60"
    by (simp add: x86_64_arch_initialize_def flat64_def x86_64_call_block_def AMD64_RED_ZONE_SIZE_def)
  show ?thesis
    using x86_64_call_returns [OF x86_64_called.call_method [OF s1, unfolded addr] _ flat_target_registers,
        where stopsig = SIGTRAP and ?s2.0 = ?s2] s1
    by (simp add: x86_64_arch_initialize_def) blast
qed

text \<open>The same on i386, where the call must end by its \<open>int 3\<close>, and no notification, watchpoint or
  breakpoint is at that address.\<close>

theorem i386_call_returns:
  fixes s s2 :: "('k, 'f) i386_server"
  assumes call: "i386_called K s cb_arg addr exc action s1"
    and stack: "callback_stack (arch s2) = callback_stack (arch s1)"
    and target: "target_registers K (inf_pid (inferior s2)) (mem_fd (inferior s2)) A good M R F" "good (kern s2)"
    and exc: "exc \<noteq> 0 \<Longrightarrow> span exc 4 \<subseteq> A \<and> unat exc + 4 < 2 ^ 32 \<and> server_ok s2 \<and> addrs_canonical s2"
    and stop: "i386_plain_stop K s2 good addr" "eip (R (kern s2)) = addr"
  shows "\<exists>d s3. i386_child_stopped K s2 SIGTRAP = Some (action, d, s3) \<and>
    callback_arg d = Some cb_arg \<and> retval d = Some (ucast (eax (R (kern s2)))) \<and>
    retval2 d = (if exc = 0 then None else Some (ucast (le_word (load (view s2 (M (kern s2))) exc 4) :: guint32))) \<and>
    R (kern s3) = current_regs (arch s) \<and> F (kern s3) = current_fpregs (arch s) \<and> M (kern s3) = M (kern s2) \<and>
    current_regs (arch s3) = current_regs (arch s) \<and> callback_stack (arch s3) = callback_stack (arch s) \<and>
    last_signal (inferior s3) = last_signal (inferior s)"
proof -
  obtain cdata where c: "call_saved s s1 cdata" "callback_argument cdata = cb_arg" "call_address cdata = addr"
    "exc_address cdata = exc" "pushed_registers cdata = 0" "data_pointer cdata = 0" "call_action cdata = action"
    "call_result cdata = (\<lambda>d. d)" by (rule i386_called_saved [OF call])
  have top: "get_callback_data (arch s2) = Some cdata"
    using c(1) stack by (simp add: get_callback_data_def call_saved_def)
  have m: "cdata_mapped s2 A 36 cdata" using c(4-6) exc by (simp add: cdata_mapped_def)
  show ?thesis
    by (rule i386_stop_returns [OF conjI [OF target] top m stop(1) [folded stop(2)] stop(2) [folded c(3)]])
      (use c stack in \<open>auto simp: call_saved_def i386_call_data_def cdata_exc_def i386_returned_regs_def\<close>)
qed

theorem i386_call_returns_witness:
  "\<exists>s1 d s3. i386_call_method flat_kernel server32 0x401000 1 2 42 = Some (COMMAND_ERROR_NONE, s1) \<and>
    i386_child_stopped flat_kernel (s1\<lparr> kern := (kern s1)\<lparr> flat_regs := i386_zero_regs\<lparr> eip := 0x7fff0000, eax := 7 \<rparr>, flat_dr := \<lambda>_. 0 \<rparr> \<rparr>)
      SIGTRAP = Some (STOP_ACTION_CALLBACK, d, s3) \<and>
    callback_arg d = Some 42 \<and> retval d = Some 7 \<and> flat_regs (kern s3) = flat_regs flat32"
proof -
  obtain s1 where s1: "i386_call_method flat_kernel server32 0x401000 1 2 42 = Some (COMMAND_ERROR_NONE, s1)"
    using flat_calls(3) by blast
  let ?s2 = "s1\<lparr> kern := (kern s1)\<lparr> flat_regs := i386_zero_regs\<lparr> eip := 0x7fff0000, eax := 7 \<rparr>, flat_dr := \<lambda>_. 0 \<rparr> \<rparr>"
  have addr: "esp (current_regs (arch server32)) = 0x7fff0000" by (simp add: i386_arch_initialize_def flat32_def)
  note called = i386_called.call_method [OF s1, unfolded addr]
  have "mono_runtime s1 = None" "bpm s1 = mono_debugger_breakpoint_manager_new"
    using i386_start_call_ok [OF s1 [unfolded i386_call_method_def Let_def]] by (auto simp: set_last_signal_def)
  then have "i386_plain_stop flat_kernel ?s2 (\<lambda>k. flat_dr k DR_STATUS = 0) 0x7fff0000"
    by (auto simp: i386_plain_stop_def dr_reads_def bpm_defs simp del: upt.simps)
  then show ?thesis
    using i386_call_returns [OF called _ flat_target_registers_dr [where P = "\<lambda>d. d DR_STATUS = 0"], where ?s2.0 = ?s2] s1
    by (simp add: i386_arch_initialize_def) blast
qed

text \<open>C10. \<open>call_method_2\<close> on x86_64 lets the method change the caller's registers: the block it writes holds
  the thirteen general registers, and when the target stops at the end of the call, the registers are
  those of the caller with the thirteen taken from the block as it is then; the data buffer is read
  back from the block. In particular, a method that leaves the block alone changes no register.\<close>

theorem x86_64_call_method_2_returns:
  fixes s s2 :: "('k, 'f) x86_64_server"
  assumes call: "x86_64_call_method_2 K s meth data cb_arg = Some (COMMAND_ERROR_NONE, s1)"
    and stack: "callback_stack (arch s2) = callback_stack (arch s1)"
    and room: "length data + 257 \<le> unat (rsp (current_regs (arch s)))"
    and sp: "sp = x86_64_call_block (rsp (current_regs (arch s))) (113 + length data)"
    and target: "target_registers K (inf_pid (inferior s2)) (mem_fd (inferior s2)) A good M R F" "good (kern s2)"
    and mapped: "span (sp + 8) 104 \<subseteq> A" "span (sp + 112) (length data) \<subseteq> A"
    and stop: "rip (R (kern s2)) - 1 = sp + of_nat (112 + length data)" "stopsig \<noteq> SIGSTOP"
    and block: "load (M (kern s2)) (sp + 8) 104 = x86_64_pushed_bytes p"
  shows "\<exists>d s3. x86_64_child_stopped K s2 stopsig = Some (STOP_ACTION_CALLBACK, d, s3) \<and>
    callback_arg d = Some cb_arg \<and> retval d = Some (rax (R (kern s2))) \<and>
    opt_data d = Some (load (M (kern s2)) (sp + 112) (length data)) \<and>
    R (kern s3) = x86_64_with_pushed p (current_regs (arch s)) \<and>
    (p = current_regs (arch s) \<longrightarrow> R (kern s3) = current_regs (arch s)) \<and>
    F (kern s3) = current_fpregs (arch s) \<and> callback_stack (arch s3) = callback_stack (arch s) \<and>
    last_signal (inferior s3) = last_signal (inferior s)"
proof -
  define cdata where "cdata = x86_64_call_method_2_cdata s sp data cb_arg"
  have saved: "call_saved s s1 cdata" and small: "113 + length data < 2 ^ 31"
    unfolding cdata_def sp using x86_64_call_method_2_saved [OF call] by simp_all
  have n: "unat (of_nat (length data) :: guint32) = length data" using small by (intro unat_of_nat_small) simp
  have f: "callback_argument cdata = cb_arg" "call_address cdata = sp + of_nat (112 + length data)"
    "pushed_registers cdata = sp + 8" "exc_address cdata = 0" "data_pointer cdata = (if data = [] then 0 else sp + 112)"
    "unat (data_size cdata) = length data" "is_rti cdata = False" "debug cdata = False"
    using n by (simp_all add: cdata_def x86_64_call_method_2_cdata_def x86_64_new_cdata_def ac_simps)
  have nz: "sp + 8 \<noteq> 0" "sp + 112 \<noteq> 0"
    using x86_64_call_block_plus [of "113 + length data" _ 8] x86_64_call_block_plus [of "113 + length data" _ 112] room
    by (simp_all add: sp)
  have top: "get_callback_data (arch s2) = Some cdata"
    using saved stack by (simp add: get_callback_data_def call_saved_def)
  have m: "cdata_mapped s2 A 104 cdata" using mapped by (simp add: cdata_mapped_def f)
  have buffer: "cdata_buffer (M (kern s2)) cdata = load (M (kern s2)) (sp + 112) (length data)"
    using nz by (simp add: cdata_buffer_def f)
  have regs: "x86_64_returned_regs (M (kern s2)) cdata = x86_64_with_pushed p (current_regs (arch s))"
    using saved nz by (simp add: x86_64_returned_regs_def f block x86_64_restore_pushed_bytes call_saved_def)
  show ?thesis
    by (rule x86_64_stop_returns [OF conjI [OF target] top m stop(2) disjI2 [OF stop(1) [folded f(2)]]])
      (use saved stack in \<open>auto simp: call_saved_def x86_64_call_data_def call_action_def call_result_def f buffer regs\<close>)
qed

theorem x86_64_call_method_2_returns_witness:
  "\<exists>s1 d s3. x86_64_call_method_2 flat_kernel server64 0x401000 [1, 2, 3] 42 = Some (COMMAND_ERROR_NONE, s1) \<and>
    x86_64_child_stopped flat_kernel (s1\<lparr> kern := \<lparr> flat_mem = store (\<lambda>_. 0) 0x7ffefef8 (x86_64_pushed_bytes x86_64_zero_regs),
        flat_regs = x86_64_zero_regs\<lparr> rip := 0x7ffeff64, rax := 7 \<rparr>, flat_fpregs = (), flat_dr = \<lambda>_. 0 \<rparr> \<rparr>)
      SIGTRAP = Some (STOP_ACTION_CALLBACK, d, s3) \<and>
    callback_arg d = Some 42 \<and> retval d = Some 7 \<and>
    flat_regs (kern s3) = x86_64_with_pushed x86_64_zero_regs (flat_regs flat64)"
proof -
  obtain s1 where s1: "x86_64_call_method_2 flat_kernel server64 0x401000 [1, 2, 3] 42 = Some (COMMAND_ERROR_NONE, s1)"
    using flat_calls(2) by blast
  let ?s2 = "s1\<lparr> kern := \<lparr> flat_mem = store (\<lambda>_. 0) 0x7ffefef8 (x86_64_pushed_bytes x86_64_zero_regs),
        flat_regs = x86_64_zero_regs\<lparr> rip := 0x7ffeff64, rax := 7 \<rparr>, flat_fpregs = (), flat_dr = \<lambda>_. 0 \<rparr> \<rparr>"
  have sp: "0x7ffefef0 = x86_64_call_block (rsp (current_regs (arch server64))) (113 + length [1, 2, 3 :: guint8])"
    by (simp add: x86_64_arch_initialize_def flat64_def x86_64_call_block_def AMD64_RED_ZONE_SIZE_def)
  have room: "length [1, 2, 3 :: guint8] + 257 \<le> unat (rsp (current_regs (arch server64)))"
    by (simp add: x86_64_arch_initialize_def flat64_def)
  have block: "load (flat_mem (kern ?s2)) (0x7ffefef0 + 8) 104 = x86_64_pushed_bytes x86_64_zero_regs"
    using load_store_same [of "x86_64_pushed_bytes x86_64_zero_regs" "\<lambda>_. 0" "0x7ffefef8 :: guint64"] by simp
  show ?thesis
    using x86_64_call_method_2_returns [OF s1 _ room sp flat_target_registers _ _ _ _ _ block, where stopsig = SIGTRAP] s1
    by (simp add: x86_64_arch_initialize_def) blast
qed

text \<open>The block that \<open>call_method_2\<close> writes on x86_64: the return address, the thirteen registers, the data
  buffer and an \<open>int 3\<close> at the return address; the method gets the addresses of the registers and of
  the data, and nothing else in memory changes.\<close>

theorem x86_64_call_method_2_sets_up:
  fixes s :: "('k, 'f) x86_64_server"
  assumes target: "target_registers K (inf_pid (inferior s)) (mem_fd (inferior s)) A good M R F" "good (kern s)"
    and small: "113 + length data < 2 ^ 31"
    and sp: "sp = x86_64_call_block (rsp (current_regs (arch s))) (113 + length data)"
    and mapped: "written_span sp (113 + length data) \<subseteq> A"
  shows "\<exists>s1. x86_64_call_method_2 K s meth data cb_arg = Some (server_ptrace_continue K s1) \<and> good (kern s1) \<and>
    R (kern s1) = (current_regs (arch s))\<lparr> orig_rax := -1, rip := meth, rdi := sp + 8, rsi := sp + 112, rsp := sp \<rparr> \<and>
    le_word (load (M (kern s1)) sp 8) = sp + of_nat (112 + length data) \<and>
    load (M (kern s1)) (sp + 8) 104 = x86_64_pushed_bytes (current_regs (arch s)) \<and>
    load (M (kern s1)) (sp + 112) (length data) = data \<and> M (kern s1) (sp + of_nat (112 + length data)) = 0xcc \<and>
    (\<forall>x. x \<notin> span sp (113 + length data) \<longrightarrow> M (kern s1) x = M (kern s) x)"
proof -
  let ?code = "x86_64_call_method_2_code sp (current_regs (arch s)) data"
  let ?regs = "(current_regs (arch s))\<lparr> orig_rax := -1, rip := meth, rdi := sp + 8, rsi := sp + 112, rsp := sp \<rparr>"
  have t: "target_of K (set_last_signal 0 s) A good M R F" using target by (simp add: set_last_signal_def)
  have w: "written_span sp (length ?code) \<subseteq> A" using mapped by simp
  have l: "length ?code + sizeof_long TYPE(64) \<le> 2 ^ LENGTH(64)" "length ?code \<le> 2 ^ LENGTH(64)" using small by simp_all
  obtain s1 where s1: "x86_64_start_call K (set_last_signal 0 s) sp ?code (x86_64_call_method_2_cdata s sp data cb_arg) ?regs
      = Some (server_ptrace_continue K s1)" "good (kern s1)" "R (kern s1) = ?regs" "M (kern s1) = store (M (kern s)) sp ?code"
    by (rule x86_64_start_call_runs [OF t l(1) w, where cdata = "x86_64_call_method_2_cdata s sp data cb_arg" and regs = ?regs])
      (simp add: set_last_signal_def)
  have run: "x86_64_call_method_2 K s meth data cb_arg = Some (server_ptrace_continue K s1)"
    using s1(1) small by (simp add: x86_64_call_method_2_eq Let_def sp [symmetric])
  have part: "load (M (kern s1)) (sp + of_nat off) n = get_bytes off n ?code" if "off + n \<le> 113 + length data" for off n
    using that l(2) unfolding s1(4) by (intro load_store_part) simp_all
  have "M (kern s1) (sp + of_nat (112 + length data)) = ?code ! (112 + length data)"
    unfolding s1(4) using l(2) by (intro store_inside) simp_all
  moreover have "M (kern s1) x = M (kern s) x" if "x \<notin> span sp (113 + length data)" for x
    using that by (simp add: s1(4) store_outside)
  ultimately show ?thesis
    using run s1(2,3) part [of 0 8] part [of 8 104] part [of 112 "length data"]
    by (intro exI [of _ s1]) (simp add: x86_64_call_method_2_code_parts le_word_le_bytes)
qed

theorem x86_64_call_method_2_sets_up_witness:
  "\<exists>s1. x86_64_call_method_2 flat_kernel server64 0x401000 [1, 2, 3] 42 = Some (server_ptrace_continue flat_kernel s1) \<and>
    load (flat_mem (kern s1)) 0x7ffeff60 3 = [1, 2, 3] \<and> flat_mem (kern s1) 0x7ffeff63 = 0xcc"
proof -
  have sp: "0x7ffefef0 = x86_64_call_block (rsp (current_regs (arch server64))) (113 + length [1, 2, 3 :: guint8])"
    by (simp add: x86_64_arch_initialize_def flat64_def x86_64_call_block_def AMD64_RED_ZONE_SIZE_def)
  show ?thesis
    using x86_64_call_method_2_sets_up [OF flat_target_registers TrueI _ sp, where meth = "0x401000" and cb_arg = 42]
    by (auto simp: numeral_3_eq_3 [symmetric])
qed

lemma i386_call_method_2_starts:
  fixes s :: "('k, 'f) i386_server"
  assumes target: "target_registers K (inf_pid (inferior s)) (mem_fd (inferior s)) A good M R F" "good (kern s)"
    and r: "r = current_regs (arch s)" and small: "57 + length data < 2 ^ 31" and sp: "sp = esp r - of_nat (57 + length data)"
    and mapped: "written_span sp (57 + length data) \<subseteq> A"
  obtains s1 cdata where "i386_call_method_2 K s meth data cb_arg = Some (server_ptrace_continue K s1)"
    "callback_stack (arch s1) = callback_stack (arch s) @ [cdata]" "inferior s1 = (inferior s)\<lparr> last_signal := 0 \<rparr>"
    "load (M (kern s1)) (sp + 4) 36 = concat (map le32 (take 9 (tl (i386_call_method_2_words (sp + of_nat (57 + length data) - 1) sp r))))"
    "call_address cdata = esp r" "pushed_registers cdata = sp + 4" "exc_address cdata = 0" "saved_regs cdata = r"
    "is_rti cdata = False" "debug cdata = False" "unat (data_size cdata) = length data"
    "data_pointer cdata = (if data = [] then 0 else sp + 56)"
proof -
  let ?n = "57 + length data"
  let ?words = "i386_call_method_2_words (sp + of_nat ?n - 1) sp r"
  let ?code = "concat (map le32 ?words) @ data @ [0xcc]"
  let ?regs = "r\<lparr> orig_eax := -1, eip := ucast meth, esp := sp \<rparr>"
  define cdata where "cdata = i386_call_method_2_cdata s sp data cb_arg"
  have len: "length ?code = ?n" by (simp add: i386_call_method_2_words_def)
  have t: "target_of K (set_last_signal 0 s) A good M R F" using target by (simp add: set_last_signal_def)
  have w: "written_span sp (length ?code) \<subseteq> A" unfolding len by (rule mapped)
  have l: "length ?code + sizeof_long TYPE(32) \<le> 2 ^ LENGTH(32)" "length ?code \<le> 2 ^ LENGTH(32)"
    unfolding len using small by simp_all
  obtain s1 where s1: "i386_start_call K (set_last_signal 0 s) sp ?code cdata ?regs = Some (server_ptrace_continue K s1)"
    "M (kern s1) = store (M (kern s)) sp ?code" "callback_stack (arch s1) = callback_stack (arch s) @ [cdata]"
    "inferior s1 = (inferior s)\<lparr> last_signal := 0 \<rparr>"
    by (rule i386_start_call_runs [OF t l(1) w, where cdata = cdata and regs = ?regs]) (simp add: set_last_signal_def)
  have run: "i386_call_method_2 K s meth data cb_arg = Some (server_ptrace_continue K s1)"
    using s1(1) small unfolding i386_call_method_2_eq Let_def r [symmetric] sp [symmetric] cdata_def by simp
  have pushed: "load (M (kern s1)) (sp + 4) 36 = concat (map le32 (take 9 (tl ?words)))"
    using load_store_part [OF _ l(2), of 4 36 "M (kern s)" sp] unfolding s1(2) len
    by (simp add: i386_call_method_2_words_def get_bytes_def)
  show thesis
    by (rule that [OF run s1(3,4) pushed])
      (use small unat_of_nat_small [of "length data", where 'w = 32] in
        \<open>simp_all add: cdata_def i386_call_method_2_cdata_def i386_new_cdata_def r sp\<close>)
qed

text \<open>C11. On i386 \<open>call_method_2\<close> puts two pointers for the method before the registers in its block, but records
  the address of the pointers as that of the registers. So a method that leaves the block alone comes
  back with every register of the caller shifted: \<open>eip\<close> has the caller's \<open>ebp\<close> and \<open>esp\<close> the caller's \<open>ebx\<close>.\<close>

theorem i386_call_method_2_shifts:
  fixes s :: "('k, 'f) i386_server"
  assumes target: "target_registers K (inf_pid (inferior s)) (mem_fd (inferior s)) A good M R F" "good (kern s)"
    and r: "r = current_regs (arch s)" and small: "57 + length data < 2 ^ 31" and sp: "sp = esp r - of_nat (57 + length data)"
    and mapped: "written_span sp (57 + length data) \<subseteq> A" and nz: "sp + 4 \<noteq> 0"
  shows "\<exists>s1. i386_call_method_2 K s meth data cb_arg = Some (server_ptrace_continue K s1) \<and>
    (\<forall>s2. callback_stack (arch s2) = callback_stack (arch s1) \<and> inferior s2 = inferior s1 \<and> good (kern s2) \<and>
       i386_plain_stop K s2 good (esp r) \<and> eip (R (kern s2)) = esp r \<and>
       (\<forall>x \<in> span sp (57 + length data). M (kern s2) x = M (kern s1) x) \<longrightarrow>
       (\<exists>d s3. i386_child_stopped K s2 SIGTRAP = Some (STOP_ACTION_CALLBACK, d, s3) \<and>
          R (kern s3) = r\<lparr> eax := sp + 20, ebx := 0, ecx := sp + 56, edx := 0, ebp := eax r, esp := ebx r,
                           esi := ecx r, edi := edx r, eip := ebp r \<rparr>))"
proof -
  let ?n = "57 + length data"
  let ?words = "i386_call_method_2_words (sp + of_nat ?n - 1) sp r"
  obtain s1 cdata where run: "i386_call_method_2 K s meth data cb_arg = Some (server_ptrace_continue K s1)"
    and s1: "callback_stack (arch s1) = callback_stack (arch s) @ [cdata]" "inferior s1 = (inferior s)\<lparr> last_signal := 0 \<rparr>"
    and pushed: "load (M (kern s1)) (sp + 4) 36 = concat (map le32 (take 9 (tl ?words)))"
    and f: "call_address cdata = esp r" "pushed_registers cdata = sp + 4" "exc_address cdata = 0" "saved_regs cdata = r"
      "is_rti cdata = False" "debug cdata = False" "unat (data_size cdata) = length data"
      "data_pointer cdata = (if data = [] then 0 else sp + 56)"
    by (rule i386_call_method_2_starts [OF target r small sp mapped, where meth = meth and cb_arg = cb_arg])
  have sub: "span (sp + 4) 36 \<subseteq> span sp ?n" "span (sp + 56) (length data) \<subseteq> span sp ?n"
    using span_shift [of 4 36 ?n sp] span_shift [of 56 "length data" ?n sp] small by simp_all
  have map: "span sp ?n \<subseteq> A" using mapped span_written_span [OF byte_words_32_64(1)] by blast
  have "\<exists>d s3. i386_child_stopped K s2 SIGTRAP = Some (STOP_ACTION_CALLBACK, d, s3) \<and>
      R (kern s3) = r\<lparr> eax := sp + 20, ebx := 0, ecx := sp + 56, edx := 0, ebp := eax r, esp := ebx r,
                       esi := ecx r, edi := edx r, eip := ebp r \<rparr>"
    if s2: "callback_stack (arch s2) = callback_stack (arch s1)" "inferior s2 = inferior s1" "good (kern s2)"
      "i386_plain_stop K s2 good (esp r)" "eip (R (kern s2)) = esp r" "\<forall>x \<in> span sp ?n. M (kern s2) x = M (kern s1) x" for s2
  proof -
    have t2: "target_of K s2 A good M R F" using target s2(2,3) s1(2) by simp
    have top: "get_callback_data (arch s2) = Some cdata" by (simp add: get_callback_data_def s2(1) s1(1))
    have m: "cdata_mapped s2 A 36 cdata" using sub map by (auto simp: cdata_mapped_def f)
    have "load (M (kern s2)) (sp + 4) 36 = load (M (kern s1)) (sp + 4) 36"
      using s2(6) sub(1) by (intro load_cong_span) auto
    then have "i386_returned_regs (M (kern s2)) cdata = r\<lparr> eax := sp + 20, ebx := 0, ecx := sp + 56, edx := 0, ebp := eax r,
        esp := ebx r, esi := ecx r, edi := edx r, eip := ebp r \<rparr>"
      using nz by (simp add: i386_returned_regs_def f pushed i386_restore_pushed_def i386_regs_at_pushed i386_call_method_2_words_def
          del: concat.simps list.map)
    with i386_stop_returns [OF t2 top m] s2(4,5) show ?thesis
      by (fastforce simp: f call_action_def)
  qed
  then show ?thesis using run by (intro exI [of _ s1]) simp
qed

theorem i386_call_method_2_shifts_witness:
  "\<exists>s1 s2 d s3. i386_call_method_2 flat_kernel server32 0x401000 [1, 2, 3] 42 = Some (server_ptrace_continue flat_kernel s1) \<and>
    flat_mem (kern s2) = flat_mem (kern s1) \<and> callback_stack (arch s2) = callback_stack (arch s1) \<and>
    i386_child_stopped flat_kernel s2 SIGTRAP = Some (STOP_ACTION_CALLBACK, d, s3) \<and>
    eip (flat_regs flat32) = 0x400000 \<and> eip (flat_regs (kern s3)) = 0"
proof -
  let ?good = "\<lambda>k :: (32, i386_regs, unit) flat. flat_dr k DR_STATUS = 0"
  let ?r = "current_regs (arch server32)"
  have zero: "le_word (replicate n 0) = (0 :: guint32)" for n by (induction n) simp_all
  have e: "esp ?r = 0x7fff0000" "0x7ffeffc4 = esp ?r - of_nat (57 + length [1, 2, 3 :: guint8])" "ebp ?r = 0"
    by (simp_all add: i386_arch_initialize_def flat32_def i386_zero_regs_def i386_regs_of_bytes_def i386_regs_at_def get_bytes_def zero)
  have g: "?good (kern server32)" by (simp add: flat32_def)
  obtain s1 where s1: "i386_call_method_2 flat_kernel server32 0x401000 [1, 2, 3] 42 = Some (server_ptrace_continue flat_kernel s1)"
    and ret: "\<And>s2. callback_stack (arch s2) = callback_stack (arch s1) \<and> inferior s2 = inferior s1 \<and> ?good (kern s2) \<and>
       i386_plain_stop flat_kernel s2 ?good (esp ?r) \<and> eip (flat_regs (kern s2)) = esp ?r \<and>
       (\<forall>x \<in> span 0x7ffeffc4 (57 + length [1, 2, 3 :: guint8]). flat_mem (kern s2) x = flat_mem (kern s1) x) \<Longrightarrow>
       \<exists>d s3. i386_child_stopped flat_kernel s2 SIGTRAP = Some (STOP_ACTION_CALLBACK, d, s3) \<and>
          flat_regs (kern s3) = ?r\<lparr> eax := 0x7ffeffc4 + 20, ebx := 0, ecx := 0x7ffeffc4 + 56, edx := 0, ebp := eax ?r,
            esp := ebx ?r, esi := ecx ?r, edi := edx ?r, eip := ebp ?r \<rparr>"
    using i386_call_method_2_shifts [OF flat_target_registers_dr [where P = "\<lambda>d. d DR_STATUS = 0"] g refl _ e(2),
        where meth = "0x401000" and cb_arg = 42] by auto
  let ?s2 = "server32\<lparr> kern := (kern s1)\<lparr> flat_regs := i386_zero_regs\<lparr> eip := 0x7fff0000 \<rparr>, flat_dr := \<lambda>_. 0 \<rparr>,
      inferior := inferior s1, arch := (arch server32)\<lparr> callback_stack := callback_stack (arch s1) \<rparr> \<rparr>"
  have "i386_plain_stop flat_kernel ?s2 ?good (esp ?r)"
    by (auto simp: i386_plain_stop_def dr_reads_def bpm_defs simp del: upt.simps)
  then obtain d s3 where "i386_child_stopped flat_kernel ?s2 SIGTRAP = Some (STOP_ACTION_CALLBACK, d, s3)"
    "eip (flat_regs (kern s3)) = 0"
    using ret [of ?s2] e(1,3) by auto
  then show ?thesis using s1 by (intro exI [of _ s1] exI [of _ ?s2] exI [of _ d] exI [of _ s3]) (simp add: flat32_def)
qed

end
