(* ===== verification/Server_Machine.thy ===== *)
theory Server_Machine
  imports Flat_Servers X86_Ptrace
begin

text \<open>
  The server as a machine: one step is any command of the function table with any arguments, or the
  target running. The commands that are not about breakpoints leave all breakpoint data alone, so the
  invariant of the breakpoint commands is an invariant of the whole server.
\<close>

section \<open>Commands that leave breakpoints alone\<close>

named_theorems unchanged \<open>commands that do not touch breakpoint data\<close>

lemmas unchanged_trans = bp_unchanged_trans

lemma unchanged_fields [simp]:
  "bp_unchanged s (s\<lparr> inferior := i \<rparr>)" "bp_unchanged s (s\<lparr> kern := k \<rparr>)" "bp_unchanged s (s\<lparr> mono_runtime := r \<rparr>)"
  "bp_unchanged s (set_last_signal n s)" "bp_unchanged s (set_current_regs regs s)"
  "bp_unchanged s (s\<lparr> arch := (arch s)\<lparr> callback_stack := cs \<rparr> \<rparr>)"
  "bp_unchanged s (s\<lparr> arch := (arch s)\<lparr> current_fpregs := f \<rparr> \<rparr>)"
  "bp_unchanged s (s\<lparr> arch := (arch s)\<lparr> current_regs := regs \<rparr> \<rparr>)"
  "bp_unchanged s (s\<lparr> arch := (arch s)\<lparr> dr_status := d \<rparr> \<rparr>)"
  "bp_unchanged s (s\<lparr> arch := (arch s)\<lparr> code_buffer := c \<rparr> \<rparr>)"
  by (simp_all add: bp_unchanged_def set_last_signal_def set_current_regs_def)

lemmas [unchanged] = kern_only_op_eqs [THEN bp_unchanged_kern] kern_only_read [THEN bp_unchanged_kern]
  kern_only_write [THEN bp_unchanged_kern]

lemmas unchanged_regs = kern_only_op_eqs(1,2) [THEN bp_unchanged_kern]

lemmas unchanged_drs = kern_only_op_eqs(4) [THEN bp_unchanged_kern]

lemma unchanged_continue [unchanged]:
  "server_ptrace_continue K s = (r, s') \<Longrightarrow> bp_unchanged s s'"
  "server_ptrace_step K s = (r, s') \<Longrightarrow> bp_unchanged s s'"
  by (auto simp: server_ptrace_continue_def server_ptrace_step_def Let_def checked_def bp_unchanged_def
      split: prod.splits sum.splits)

lemma unchanged_resume [unchanged]: "server_ptrace_resume K s = (r, s') \<Longrightarrow> bp_unchanged s s'"
  by (auto simp: server_ptrace_resume_def unchanged split: if_splits)

lemma unchanged_get_registers [unchanged]:
  fixes s :: "('k, 'w::len, 'r, 'f, 'z) x86_server"
  assumes "x86_arch_get_registers K s = (r, s')"
  shows "bp_unchanged s s'"
  using assms
  by (auto simp: x86_arch_get_registers_def priv_server_ptrace_get_registers_def priv_server_ptrace_get_fp_registers_def
      priv_server_ptrace_get_dr_def Let_def bp_unchanged_def split: prod.splits sum.splits if_splits)

lemma unchanged_read_memory [unchanged]:
  fixes s :: "('k, 'w::len, 'r, 'f, 'z) x86_server"
  assumes "read_memory K s a n = Some (r, s', buf)"
  shows "bp_unchanged s s'"
proof -
  from assms obtain r0 s0 b0 where "priv_server_ptrace_read_memory K s a n = Some (r0, s0, b0)"
    and "bp_unchanged s0 s'"
    by (auto simp: read_memory_def server_ptrace_read_memory_def Let_def bp_unchanged_def
        x86_arch_remove_breakpoints_from_target_memory_def split: if_splits)
  then show ?thesis by (blast intro: unchanged unchanged_trans)
qed

lemma unchanged_peek_word [unchanged]:
  fixes s :: "('k, 'w::len, 'r, 'f, 'z) x86_server"
  shows "server_ptrace_peek_word K s a = Some (r, s', buf) \<Longrightarrow> bp_unchanged s s'"
  by (auto simp: server_ptrace_peek_word_def intro: unchanged)

lemma unchanged_check_breakpoint [unchanged]:
  fixes s :: "('k, 'w::len, 'r, 'f, 'z) x86_server"
  shows "check_breakpoint s a = Some (hit, s') \<Longrightarrow> bp_unchanged s s'"
  by (auto simp: check_breakpoint_def Let_def bp_unchanged_def split: option.splits if_splits)

lemma unchanged_stopped_at_int3 [unchanged]:
  fixes s :: "('k, 'w::len, 'r, 'f, 'z) x86_server"
  shows "stopped_at_int3 K s ip = Some (a, d, s') \<Longrightarrow> bp_unchanged s s'"
  by (auto simp: stopped_at_int3_def split: if_splits intro: unchanged)

lemma unchanged_callback_data [unchanged]:
  fixes s :: "('k, 'w::len, 'r, 'f, 'z) x86_server"
  shows "callback_data_buffer K s cdata = Some (buf, s') \<Longrightarrow> bp_unchanged s s'"
    "callback_exc_object K s cdata = Some (exc, s') \<Longrightarrow> bp_unchanged s s'"
  by (auto simp: callback_data_buffer_def callback_exc_object_def split: if_splits intro: unchanged)

lemma unchanged_callback_done [unchanged]:
  fixes s :: "('k, 'w::len, 'r, 'f, 'z) x86_server"
  assumes "callback_done K s cdata d = (a, d', s')"
  shows "bp_unchanged s s'"
proof -
  let ?s1 = "set_last_signal (saved_signal cdata) s"
  let ?s2 = "?s1\<lparr> arch := (arch ?s1)\<lparr> callback_stack := butlast (callback_stack (arch ?s1)) \<rparr> \<rparr>"
  obtain r where "x86_arch_get_registers K ?s2 = (r, s')"
    using assms by (auto simp: callback_done_def Let_def split: prod.splits if_splits)
  from unchanged_get_registers [OF this] show ?thesis by (simp add: bp_unchanged_def set_last_signal_def)
qed

lemma unchanged_lock [simp]:
  fixes s :: "('k, 'w::len, 'r, 'f, 'z) x86_server"
  shows "bp_unchanged s (mono_debugger_breakpoint_manager_unlock (mono_debugger_breakpoint_manager_lock s))"
  by (simp add: bp_unchanged_def)

lemma unchanged_get_breakpoints [unchanged]:
  fixes s :: "('k, 'w::len, 'r, 'f, 'z) x86_server"
  shows "server_ptrace_get_breakpoints s = Some (r, ids, s') \<Longrightarrow> bp_unchanged s s'"
  by (auto simp: server_ptrace_get_breakpoints_def Let_def)

lemma unchanged_set_dr [simp]:
  fixes s :: "('k, 'w::len, 'r, 'f, 'z) x86_server"
  shows "bp_unchanged s (set_dr_control d s)" "bp_unchanged s (set_dr_reg i v s)"
  by (simp_all add: bp_unchanged_def set_dr_control_def set_dr_reg_def)

lemma unchanged_remove_hw_loop: "bp_unchanged s (remove_hardware_breakpoints_loop K s is)"
proof (induction "is" arbitrary: s)
  case (Cons i "is")
  let ?s1 = "set_dr_control (X86_DR_DISABLE (dr_control (arch s)) i) s"
  obtain r2 s2 where e2: "priv_server_ptrace_set_dr K ?s1 (int i) 0 = (r2, s2)" by fastforce
  obtain r3 s3 where e3: "priv_server_ptrace_set_dr K s2 DR_CONTROL (dr_control (arch s2)) = (r3, s3)" by fastforce
  have "bp_unchanged s s3"
    by (rule unchanged_trans [OF unchanged_trans [OF unchanged_set_dr(1) unchanged_drs [OF e2]] unchanged_drs [OF e3]])
  from unchanged_trans [OF unchanged_trans [OF this unchanged_set_dr(2)] Cons.IH]
  show ?case by (simp add: e2 e3 Let_def)
qed simp

lemma unchanged_setup_inferior [unchanged]:
  fixes s :: "('k, 'w::len, 'r, 'f, 'z) x86_server"
  assumes "priv_server_ptrace_setup_inferior (x86_arch_remove_hardware_breakpoints K) K s = (r, s')"
  shows "bp_unchanged s s'"
  using assms unchanged_remove_hw_loop [of s K "[0..<DR_NADDR]"]
  by (auto simp: priv_server_ptrace_setup_inferior_def x86_arch_remove_hardware_breakpoints_def Let_def bp_unchanged_def
      split: prod.splits sum.splits)

lemma unchanged_wait_for_new_thread [unchanged]:
  fixes s :: "('k, 'w::len, 'r, 'f, 'z) x86_server"
  assumes "priv_server_ptrace_wait_for_new_thread (x86_arch_get_registers K) K m s = (ok, m', s')"
  shows "bp_unchanged s s'"
  using assms
  by (auto simp: priv_server_ptrace_wait_for_new_thread_def bp_unchanged_def split: prod.splits sum.splits if_splits
      dest!: unchanged_get_registers)

lemma unchanged_stop [unchanged]:
  fixes s :: "('k, 'w::len, 'r, 'f, 'z) x86_server"
  assumes "server_ptrace_stop (x86_arch_get_registers K) K s = (r, s')"
  shows "bp_unchanged s s'"
  using assms
  by (auto simp: server_ptrace_stop_def bp_unchanged_def split: prod.splits sum.splits if_splits
      dest!: unchanged_get_registers)

lemma unchanged_start_thread [unchanged]:
  fixes s :: "('k, 'w::len, 'r, 'f, 'z) x86_server"
  shows "server_ptrace_initialize_thread K m s pid wait = (r, s') \<Longrightarrow> bp_unchanged s s'"
    and "server_ptrace_attach K m s pid = (r, s') \<Longrightarrow> bp_unchanged s s'"
  by (auto simp: server_ptrace_initialize_thread_def server_ptrace_attach_def Let_def bp_unchanged_def
      split: prod.splits sum.splits if_splits dest!: unchanged_wait_for_new_thread unchanged_setup_inferior)

lemma unchanged_spawn [unchanged]:
  fixes s :: "('k, 'w::len, 'r, 'f, 'z) x86_server"
  assumes "server_ptrace_spawn K m s redirect = Some (r, res, s')"
  shows "bp_unchanged s s'"
  using assms
  by (auto simp: server_ptrace_spawn_def spawn_failed_exec_def Let_def bp_unchanged_def
      split: prod.splits sum.splits if_splits dest!: unchanged_wait_for_new_thread unchanged_setup_inferior)

lemma unchanged_leave [unchanged]:
  fixes s :: "('k, 'w::len, 'r, 'f, 'z) x86_server"
  shows "server_ptrace_detach K s = (r, s') \<Longrightarrow> bp_unchanged s s'"
    and "server_ptrace_kill K s = (r, s') \<Longrightarrow> bp_unchanged s s'"
    and "server_ptrace_initialize_process K s = (r, s') \<Longrightarrow> bp_unchanged s s'"
    and "server_ptrace_set_signal K s sig n = (r, s') \<Longrightarrow> bp_unchanged s s'"
  by (auto simp: server_ptrace_detach_def server_ptrace_kill_def server_ptrace_initialize_process_def
      server_ptrace_set_signal_def split: prod.splits sum.splits if_splits)

lemma unchanged_abort_invoke [unchanged]:
  fixes s :: "('k, 'w::len, 'r, 'f, 'z) x86_server"
  assumes "server_ptrace_abort_invoke K s rti = Some (r, s')"
  shows "bp_unchanged s s'"
proof (cases "get_callback_data (arch s)")
  case (Some cdata)
  obtain r1 s1 where e1: "priv_server_ptrace_set_registers K s (saved_regs cdata) = (r1, s1)" by fastforce
  obtain r2 s2 where e2: "priv_server_ptrace_set_fp_registers K s1 (saved_fpregs cdata) = (r2, s2)" by fastforce
  let ?s3 = "set_last_signal (saved_signal cdata) s2"
  let ?s4 = "?s3\<lparr> arch := (arch ?s3)\<lparr> callback_stack := butlast (callback_stack (arch ?s3)) \<rparr> \<rparr>"
  obtain r5 s5 where e5: "x86_arch_get_registers K ?s4 = (r5, s5)" by fastforce
  have "s' = s \<or> s' = s5" using assms Some by (auto simp: server_ptrace_abort_invoke_def e1 e2 e5 Let_def split: if_splits)
  moreover have "bp_unchanged s s5"
    using unchanged_regs(1) [OF e1] unchanged_regs(2) [OF e2] unchanged_get_registers [OF e5]
    by (simp add: bp_unchanged_def set_last_signal_def)
  ultimately show ?thesis by auto
qed (use assms in \<open>simp add: server_ptrace_abort_invoke_def\<close>)

lemma unchanged_dispatch [unchanged]:
  fixes s :: "('k, 'w::len, 'r, 'f, 'z) x86_server"
  assumes stopped: "\<And>s sig a d s'. cs s sig = Some (a, d, s') \<Longrightarrow> bp_unchanged s s'"
    and "server_ptrace_dispatch_event cs K s status = Some (m, d, s')"
  shows "bp_unchanged s s'"
  using assms(2)
  by (auto simp: server_ptrace_dispatch_event_def dispatch_wait_event_def dispatch_stop_action_def Let_def bp_unchanged_def
      set_last_signal_def split: prod.splits sum.splits if_splits ChildStoppedAction.splits dest!: stopped)

section \<open>The x86_64 commands\<close>

lemma x86_64_unchanged_start_call [unchanged]:
  "x86_64_start_call K s a code cdata regs = Some (r, s') \<Longrightarrow> bp_unchanged s s'"
  by (auto simp: x86_64_start_call_def Let_def bp_unchanged_def set_current_regs_def split: prod.splits if_splits
      dest!: unchanged)

lemma x86_64_unchanged_calls [unchanged]:
  "x86_64_call_method K s m a1 a2 cb = Some (r, s') \<Longrightarrow> bp_unchanged s s'"
  "x86_64_call_method_1 K s m a1 a2 a3 str cb = Some (r, s') \<Longrightarrow> bp_unchanged s s'"
  "x86_64_call_method_2 K s m data cb = Some (r, s') \<Longrightarrow> bp_unchanged s s'"
  "x86_64_call_method_3 K s m a1 a2 data cb = Some (r, s') \<Longrightarrow> bp_unchanged s s'"
  "x86_64_call_method_invoke K s m a1 params data cb dbg = Some (r, s') \<Longrightarrow> bp_unchanged s s'"
  unfolding x86_64_call_method_def x86_64_call_method_1_def x86_64_call_method_2_def x86_64_call_method_3_def
    x86_64_call_method_invoke_def Let_def bind_eq_Some
  by ((elim exE conjE)?, drule x86_64_unchanged_start_call, simp add: bp_unchanged_def set_last_signal_def)+

lemma unchanged_finish_call [unchanged]:
  fixes s :: "('k, 'w::len, 'r, 'f, 'z) x86_server"
  assumes "finish_call K s cdata d = Some (a, d', s')"
  shows "bp_unchanged s s'"
proof -
  obtain r1 s1 where e1: "priv_server_ptrace_set_registers K s (saved_regs cdata) = (r1, s1)" by fastforce
  obtain r2 s2 where e2: "priv_server_ptrace_set_fp_registers K s1 (saved_fpregs cdata) = (r2, s2)" by fastforce
  have "bp_unchanged s2 s'"
    using assms by (auto simp: finish_call_def e1 e2 bp_unchanged_def split: if_splits dest!: unchanged)
  then show ?thesis by (rule unchanged_trans [OF unchanged_trans [OF kern_only_op_eqs(1) [OF e1, THEN bp_unchanged_kern]
          kern_only_op_eqs(2) [OF e2, THEN bp_unchanged_kern]]])
qed

lemma x86_64_unchanged_callback_returned [unchanged]:
  "x86_64_callback_returned K s cdata = Some (a, d, s') \<Longrightarrow> bp_unchanged s s'"
  by (auto simp: x86_64_callback_returned_eq x86_64_pushed_def bp_unchanged_def split: if_splits dest!: unchanged)

lemma x86_64_unchanged_code_buffer_done [unchanged]:
  assumes "x86_64_code_buffer_done K s cb = Some (a, d, s')"
  shows "bp_unchanged s s'"
proof -
  obtain rt where rt: "mono_runtime s = Some rt" using assms by (auto simp: x86_64_code_buffer_done_def)
  let ?s1 = "s\<lparr> mono_runtime := Some (rt\<lparr> executable_code_bitfield := (executable_code_bitfield rt)[nat (slot cb) := 0] \<rparr>) \<rparr>"
  let ?regs = "let r = (current_regs (arch s))\<lparr> rip := original_ip cb \<rparr> in
    if update_ip cb then r\<lparr> rip := rip r + word_of_int (insn_size cb) \<rparr> else r"
  obtain r2 s2 where e: "priv_server_ptrace_set_registers K (set_current_regs ?regs ?s1) ?regs = (r2, s2)" by fastforce
  have "bp_unchanged (set_current_regs ?regs ?s1) s2" using e by (rule unchanged)
  then show ?thesis
    using assms e rt
    by (auto simp: x86_64_code_buffer_done_def Let_def set_current_regs_def bp_unchanged_def split: if_splits dest!: unchanged)
qed

lemma unchanged_watch_hit:
  fixes s :: "('k, 'w::len, 'r, 'f, 'z) x86_server"
  assumes "priv_server_ptrace_set_dr K s n v = (r, s1)"
  shows "bp_unchanged s (s1\<lparr> arch := (arch s1)\<lparr> dr_status := d \<rparr> \<rparr>)"
  using unchanged(4) [OF assms] by (simp add: bp_unchanged_def)

lemma unchanged_breakpoint_hit:
  fixes s :: "('k, 'w::len, 'r, 'f, 'z) x86_server"
  assumes "check_breakpoint s x = Some (h, s1)"
  shows "bp_unchanged s (snd (priv_server_ptrace_set_registers K (set_current_regs regs s1) regs'))"
proof -
  obtain r s2 where e: "priv_server_ptrace_set_registers K (set_current_regs regs s1) regs' = (r, s2)" by fastforce
  show ?thesis
    using unchanged_check_breakpoint [OF assms] unchanged(1) [OF e] e by (simp add: bp_unchanged_def set_current_regs_def)
qed

lemma x86_64_unchanged_stopped_elsewhere [unchanged]:
  assumes "x86_64_stopped_elsewhere K s sig = Some (a, d, s')"
  shows "bp_unchanged s s'"
proof -
  obtain r1 s1 where e1: "priv_server_ptrace_set_dr K s DR_STATUS 0 = (r1, s1)" by fastforce
  have after: "bp_unchanged s s'" if "check_breakpoint s x = Some (h, s1)" "bp_unchanged s1 s'" for x h s1
    using that by (blast intro: unchanged unchanged_trans)
  show ?thesis
    using assms unchanged_watch_hit [OF e1]
    by (auto simp: x86_64_stopped_elsewhere_def Let_def e1 case_prod_unfold simp del: upt.simps split: if_splits option.splits
        intro: unchanged_breakpoint_hit after unchanged)
qed

lemma x86_64_unchanged_child_stopped [unchanged]:
  assumes "x86_64_child_stopped K s sig = Some (a, d, s')"
  shows "bp_unchanged s s'"
proof -
  obtain r1 s1 where e1: "x86_arch_get_registers K s = (r1, s1)" by fastforce
  have "bp_unchanged s1 s'"
    using assms by (auto simp: x86_64_child_stopped_def Let_def e1 split: if_splits option.splits dest!: unchanged)
  with e1 show ?thesis by (blast intro: unchanged unchanged_trans)
qed

text \<open>The fields after a call that only concerns the target.\<close>

lemmas target_call_fields =
  kern_only_fields [OF kern_only_ops(1)] kern_only_fields [OF kern_only_ops(2)]

lemma run_fields:
  "bp_unchanged s (snd (server_ptrace_step K s))" "bp_unchanged s (snd (server_ptrace_continue K s))"
  by (rule unchanged_continue [OF surjective_pairing])+

lemma unchanged_set_regs_step:
  fixes s :: "('k, 'w::len, 'r, 'f, 'z) x86_server"
  assumes "(let (result, s) = priv_server_ptrace_set_registers K s regs in
      if result \<noteq> COMMAND_ERROR_NONE then Some (result, s) else Some (server_ptrace_step K s)) = Some (r, s')"
  shows "bp_unchanged s s'"
proof -
  obtain r1 s1 where e: "priv_server_ptrace_set_registers K s regs = (r1, s1)" by fastforce
  have "s1 = s' \<or> server_ptrace_step K s1 = (r, s')" using assms by (auto simp: e split: if_splits)
  then have "bp_unchanged s1 s'" by (auto dest: unchanged_continue(2))
  then show ?thesis by (rule unchanged_trans [OF kern_only_op_eqs(1) [OF e, THEN bp_unchanged_kern]])
qed

lemma x86_64_unchanged_execute_instruction [unchanged]:
  assumes "x86_64_execute_instruction K s insn upd = Some (r, s')"
  shows "bp_unchanged s s'"
proof -
  obtain rt where rt: "mono_runtime s = Some rt" using assms by (auto simp: x86_64_execute_instruction_def)
  consider "s' = s" | sl rt' where "find_code_buffer_slot rt = Some (sl, rt')"
    using assms rt by (auto simp: x86_64_execute_instruction_def split: if_splits)
  then show ?thesis
  proof cases
    case 2
    let ?s1 = "s\<lparr> mono_runtime := Some rt' \<rparr>"
    let ?a = "executable_code_buffer rt' + ucast (word_of_int sl * executable_code_chunk_size rt')"
    let ?s2 = "?s1\<lparr> arch := (arch s)\<lparr> code_buffer := Some \<lparr> slot = sl, insn_size = int (length insn), update_ip = upd,
       code_address = ?a, original_ip = rip (current_regs (arch s)) \<rparr> \<rparr> \<rparr>"
    consider "s' = s \<or> s' = ?s1" | w s3 where "server_ptrace_write_memory K ?s2 ?a insn = Some (w, s3)"
      using assms 2 rt by (auto simp: x86_64_execute_instruction_def Let_def split: if_splits)
    then show ?thesis
    proof cases
      case w: 2
      have u: "bp_unchanged s s3" using kern_only_write [OF w, THEN bp_unchanged_kern] by (simp add: bp_unchanged_def)
      let ?regs = "(current_regs (arch s))\<lparr> orig_rax := -1, rip := ?a \<rparr>"
      consider "s' = s \<or> s' = ?s1 \<or> s' = s3" | "(let (result, s) = priv_server_ptrace_set_registers K (set_current_regs ?regs s3) ?regs in
        if result \<noteq> COMMAND_ERROR_NONE then Some (result, s) else Some (server_ptrace_step K s)) = Some (r, s')"
        using assms 2 rt w by (auto simp: x86_64_execute_instruction_def Let_def set_current_regs_def split: if_splits)
      then show ?thesis
      proof cases
        case 2
        show ?thesis using unchanged_set_regs_step [OF 2] u by (simp add: bp_unchanged_def set_current_regs_def)
      qed (use u in auto)
    qed auto
  qed simp
qed


lemma x86_64_unchanged_registers [unchanged]:
  "x86_64_set_registers K s v = (r, s') \<Longrightarrow> bp_unchanged s s'"
  "x86_64_pop_registers K s = (r, s') \<Longrightarrow> bp_unchanged s s'"
  "x86_64_restart_notification K s = (r, s') \<Longrightarrow> bp_unchanged s s'"
  "x86_64_push_registers K s = Some (r, a, s') \<Longrightarrow> bp_unchanged s s'"
  by (auto simp: x86_64_set_registers_def x86_64_pop_registers_def x86_64_restart_notification_def x86_64_push_registers_def
      Let_def bp_unchanged_def set_current_regs_def split: if_splits prod.splits option.splits dest!: unchanged)

lemma x86_64_unchanged_frames [unchanged]:
  "x86_64_get_frame K s f = (r, f', s') \<Longrightarrow> bp_unchanged s s'"
  "x86_64_mark_rti_frame s = (r, s') \<Longrightarrow> bp_unchanged s s'"
  "x86_64_current_insn_is_bpt s = (r, b, s') \<Longrightarrow> bp_unchanged s s'"
  by (auto simp: x86_64_get_frame_def x86_64_mark_rti_frame_def x86_64_current_insn_is_bpt_def Let_def
      split: if_splits prod.splits option.splits dest!: unchanged_get_registers)

section \<open>The i386 commands\<close>

lemma i386_unchanged_start_call [unchanged]:
  "i386_start_call K s a code cdata regs = Some (r, s') \<Longrightarrow> bp_unchanged s s'"
  by (auto simp: i386_start_call_def Let_def bp_unchanged_def set_current_regs_def split: prod.splits if_splits
      dest!: unchanged)

lemma i386_unchanged_calls [unchanged]:
  "i386_call_method K s m a1 a2 cb = Some (r, s') \<Longrightarrow> bp_unchanged s s'"
  "i386_call_method_1 K s m a1 a2 a3 str cb = Some (r, s') \<Longrightarrow> bp_unchanged s s'"
  "i386_call_method_2 K s m data cb = Some (r, s') \<Longrightarrow> bp_unchanged s s'"
  "i386_call_method_3 K s m a1 a2 data cb = Some (r, s') \<Longrightarrow> bp_unchanged s s'"
  "i386_call_method_invoke K s m a1 params data cb dbg = Some (r, s') \<Longrightarrow> bp_unchanged s s'"
  unfolding i386_call_method_def i386_call_method_1_def i386_call_method_2_def i386_call_method_3_def
    i386_call_method_invoke_def Let_def bind_eq_Some
  by ((elim exE conjE)?, drule i386_unchanged_start_call, simp add: bp_unchanged_def set_last_signal_def)+

lemma i386_unchanged_callback_returned [unchanged]:
  "i386_callback_returned K s cdata = Some (a, d, s') \<Longrightarrow> bp_unchanged s s'"
  by (auto simp: i386_callback_returned_eq i386_pushed_def bp_unchanged_def split: if_splits dest!: unchanged)

lemma i386_unchanged_code_buffer_done [unchanged]:
  assumes "i386_code_buffer_done K s cb = Some (a, d, s')"
  shows "bp_unchanged s s'"
proof -
  obtain rt where rt: "mono_runtime s = Some rt" using assms by (auto simp: i386_code_buffer_done_def)
  let ?s1 = "s\<lparr> mono_runtime := Some (rt\<lparr> executable_code_bitfield := (executable_code_bitfield rt)[nat (slot cb) := 0] \<rparr>) \<rparr>"
  let ?regs = "let r = (current_regs (arch s))\<lparr> eip := original_ip cb \<rparr> in
    if update_ip cb then r\<lparr> eip := eip r + word_of_int (insn_size cb) \<rparr> else r"
  obtain r2 s2 where e: "priv_server_ptrace_set_registers K (set_current_regs ?regs ?s1) ?regs = (r2, s2)" by fastforce
  have "bp_unchanged (set_current_regs ?regs ?s1) s2" using e by (rule unchanged)
  then show ?thesis
    using assms e rt
    by (auto simp: i386_code_buffer_done_def Let_def set_current_regs_def bp_unchanged_def split: if_splits)
qed

lemma i386_unchanged_notification [unchanged]:
  "i386_notification K s = Some (a, d, s') \<Longrightarrow> bp_unchanged s s'"
  by (auto simp: i386_notification_def Let_def split: if_splits intro: unchanged)

lemma i386_unchanged_child_stopped [unchanged]:
  assumes "i386_child_stopped K s sig = Some (a, d, s')"
  shows "bp_unchanged s s'"
proof -
  obtain r1 s1 where e1: "x86_arch_get_registers K s = (r1, s1)" by fastforce
  obtain r2 s2 where e2: "priv_server_ptrace_set_dr K s1 DR_STATUS 0 = (r2, s2)" by fastforce
  have after: "bp_unchanged s1 s'" if "check_breakpoint s1 x = Some (h, t)" "bp_unchanged t s'" for x h t
    using that by (blast intro: unchanged unchanged_trans)
  have "bp_unchanged s1 s'"
    using assms unchanged_watch_hit [OF e2]
    by (auto simp: i386_child_stopped_def Let_def e1 e2 case_prod_unfold simp del: upt.simps split: if_splits option.splits
        intro: unchanged_breakpoint_hit after unchanged)
  with e1 show ?thesis by (blast intro: unchanged unchanged_trans)
qed

lemma i386_unchanged_execute_instruction [unchanged]:
  assumes "i386_execute_instruction K s insn upd = Some (r, s')"
  shows "bp_unchanged s s'"
proof -
  obtain rt where rt: "mono_runtime s = Some rt" using assms by (auto simp: i386_execute_instruction_def)
  consider "s' = s" | sl rt' where "find_code_buffer_slot rt = Some (sl, rt')"
    using assms rt by (auto simp: i386_execute_instruction_def split: if_splits)
  then show ?thesis
  proof cases
    case 2
    let ?s1 = "s\<lparr> mono_runtime := Some rt' \<rparr>"
    let ?a = "ucast (executable_code_buffer rt' + ucast (word_of_int sl * executable_code_chunk_size rt')) :: guint32"
    let ?s2 = "?s1\<lparr> arch := (arch s)\<lparr> code_buffer := Some \<lparr> slot = sl, insn_size = int (length insn), update_ip = upd,
       code_address = ?a, original_ip = eip (current_regs (arch s)) \<rparr> \<rparr> \<rparr>"
    consider "s' = s \<or> s' = ?s1" | w s3 where "server_ptrace_write_memory K ?s2 (ucast ?a) insn = Some (w, s3)"
      using assms 2 rt by (auto simp: i386_execute_instruction_def Let_def split: if_splits)
    then show ?thesis
    proof cases
      case w: 2
      have u: "bp_unchanged s s3" using kern_only_write [OF w, THEN bp_unchanged_kern] by (simp add: bp_unchanged_def)
      let ?regs = "(current_regs (arch s))\<lparr> orig_eax := -1, eip := ?a \<rparr>"
      consider "s' = s \<or> s' = ?s1 \<or> s' = s3" | "(let (result, s) = priv_server_ptrace_set_registers K (set_current_regs ?regs s3) ?regs in
        if result \<noteq> COMMAND_ERROR_NONE then Some (result, s) else Some (server_ptrace_step K s)) = Some (r, s')"
        using assms 2 rt w
        by (auto simp: i386_execute_instruction_def Let_def set_current_regs_def split: if_splits)
      then show ?thesis
      proof cases
        case 2
        show ?thesis using unchanged_set_regs_step [OF 2] u by (simp add: bp_unchanged_def set_current_regs_def)
      qed (use u in auto)
    qed auto
  qed simp
qed

lemma i386_unchanged_registers [unchanged]:
  "i386_set_registers K s v = (r, s') \<Longrightarrow> bp_unchanged s s'"
  "i386_pop_registers K s = (r, s') \<Longrightarrow> bp_unchanged s s'"
  "i386_restart_notification K s = (r, s') \<Longrightarrow> bp_unchanged s s'"
  "i386_push_registers K s = Some (r, a, s') \<Longrightarrow> bp_unchanged s s'"
  by (auto simp: i386_set_registers_def i386_pop_registers_def i386_restart_notification_def i386_push_registers_def
      Let_def bp_unchanged_def set_current_regs_def split: if_splits prod.splits option.splits dest!: unchanged)

lemma i386_unchanged_frames [unchanged]:
  "i386_get_frame K s f = (r, f', s') \<Longrightarrow> bp_unchanged s s'"
  "i386_mark_rti_frame s = (r, s') \<Longrightarrow> bp_unchanged s s'"
  "i386_current_insn_is_bpt s = (r, b, s') \<Longrightarrow> bp_unchanged s s'"
  by (auto simp: i386_get_frame_def i386_mark_rti_frame_def i386_current_insn_is_bpt_def Let_def
      split: if_splits prod.splits option.splits dest!: unchanged_get_registers)

section \<open>Detaching from a forked child\<close>

context breakpoint_backend
begin

lemma detach_loop_ok:
  "detach_after_fork_loop disable s ps = Some s' \<Longrightarrow> server_ok s \<Longrightarrow> server_ok s' \<and> bpm_mutex s' = bpm_mutex s"
proof (induction ps arbitrary: s)
  case (Cons p ps)
  obtain r s1 where d: "disable s p = Some (r, s1)" "detach_after_fork_loop disable s1 ps = Some s'"
    using Cons.prems(1) by (auto split: option.splits)
  have t: "touches_only p s s1" by (rule disable_touches [OF d(1)])
  then show ?case using Cons.IH [OF d(2)] server_ok_touches [OF Cons.prems(2) t] by (simp add: touches_only_def)
qed simp

lemma detach_after_fork_ok:
  assumes "server_ptrace_detach_after_fork (x86_arch_get_registers K) disable K s = Some (r, s')" and ok: "server_ok s"
  shows "server_ok s' \<and> bpm_mutex s' = bpm_mutex s"
proof -
  let ?s0 = "s\<lparr> kern := snd (waitpid K (kern s) (sint (inf_pid (inferior s))) True) \<rparr>"
  obtain r1 s1 where e1: "x86_arch_get_registers K ?s0 = (r1, s1)" by fastforce
  let ?s2 = "if r1 \<noteq> COMMAND_ERROR_NONE
    then s1\<lparr> kern := snd (snd (do_wait K (kern s1) (sint (inf_pid (inferior s1))) 0 False)) \<rparr> else s1"
  obtain r3 s3 where e3: "x86_arch_get_registers K ?s2 = (r3, s3)" by fastforce
  have "bp_unchanged s s3"
    using unchanged_get_registers [OF e1] unchanged_get_registers [OF e3] by (simp add: bp_unchanged_def split: if_splits)
  then have s3: "server_ok s3 \<and> bpm_mutex s3 = bpm_mutex s"
    using ok server_ok_unchanged by (auto simp: bp_unchanged_def)
  show ?thesis
  proof (cases "r3 = COMMAND_ERROR_NONE")
    case False
    then have "s' = s3" using assms(1) by (simp add: server_ptrace_detach_after_fork_def e1 e3 Let_def)
    then show ?thesis using s3 by simp
  next
    case True
    then obtain s4 where s4: "detach_after_fork_loop disable (mono_debugger_breakpoint_manager_lock s3) (breakpoints (bpm s3)) = Some s4"
      and "kern_only (mono_debugger_breakpoint_manager_unlock s4) s'"
      using assms(1) by (auto simp: server_ptrace_detach_after_fork_def e1 e3 Let_def) (metis kern_only_checked snd_conv)
    then show ?thesis using detach_loop_ok [OF s4] s3
      by (auto elim!: kern_onlyE simp: mono_debugger_breakpoint_manager_unlock_def mono_debugger_breakpoint_manager_lock_def server_ok_def store_ok_def)
  qed
qed

end

section \<open>The commands as steps\<close>

text \<open>
  The commands of the function table that both architectures take from the shared files. The argument
  \<open>child_stopped\<close> is the architecture's function; \<open>target_runs\<close> is the target, which runs in between.
\<close>

inductive common_step ::
  "('k, 'w::len, ('w, 'r, 'f, 'z) ArchInfo_scheme) child_stopped_fn \<Rightarrow> ('k, 'w, 'r, 'f) kernel \<Rightarrow>
   ('k, 'w, 'r, 'f, 'z) x86_server \<Rightarrow> ('k, 'w, 'r, 'f, 'z) x86_server \<Rightarrow> bool" for child_stopped K where
  target_runs: "common_step child_stopped K s (s\<lparr> kern := k \<rparr>)"
| spawn: "server_ptrace_spawn K m s redirect = Some (r, res, s') \<Longrightarrow> common_step child_stopped K s s'"
| attach: "server_ptrace_attach K m s pid = (r, s') \<Longrightarrow> common_step child_stopped K s s'"
| initialize_thread: "server_ptrace_initialize_thread K m s pid wait = (r, s') \<Longrightarrow> common_step child_stopped K s s'"
| initialize_process: "server_ptrace_initialize_process K s = (r, s') \<Longrightarrow> common_step child_stopped K s s'"
| set_runtime_info: "common_step child_stopped K s (server_ptrace_set_runtime_info s runtime)"
| dispatch_event: "server_ptrace_dispatch_event child_stopped K s status = Some (msg, d, s') \<Longrightarrow>
     common_step child_stopped K s s'"
| step: "server_ptrace_step K s = (r, s') \<Longrightarrow> common_step child_stopped K s s'"
| resume: "server_ptrace_resume K s = (r, s') \<Longrightarrow> common_step child_stopped K s s'"
| continue: "server_ptrace_continue K s = (r, s') \<Longrightarrow> common_step child_stopped K s s'"
| stop: "server_ptrace_stop (x86_arch_get_registers K) K s = (r, s') \<Longrightarrow> common_step child_stopped K s s'"
| kill: "server_ptrace_kill K s = (r, s') \<Longrightarrow> common_step child_stopped K s s'"
| detach: "server_ptrace_detach K s = (r, s') \<Longrightarrow> common_step child_stopped K s s'"
| set_signal: "server_ptrace_set_signal K s sig send_it = (r, s') \<Longrightarrow> common_step child_stopped K s s'"
| read_memory: "read_memory K s start n = Some (r, s', buf) \<Longrightarrow> common_step child_stopped K s s'"
| write_memory: "server_ptrace_write_memory K s start buf = Some (r, s') \<Longrightarrow> common_step child_stopped K s s'"
| get_breakpoints: "server_ptrace_get_breakpoints s = Some (r, ids, s') \<Longrightarrow> common_step child_stopped K s s'"

inductive x86_64_step ::
  "('k, 'f) x86_64_kernel \<Rightarrow> ('k, 'f) x86_64_server \<Rightarrow> ('k, 'f) x86_64_server \<Rightarrow> bool" for K where
  x86_64_common: "common_step (x86_64_child_stopped K) K s s' \<Longrightarrow> x86_64_step K s s'"
| x86_64_insert: "x86_64_insert_breakpoint K s a = Some (r, h, s') \<Longrightarrow> last_breakpoint_id s + 1 < 2 ^ 31 \<Longrightarrow>
     x86_64_step K s s'"
| x86_64_insert_hw: "x86_64_insert_hw_breakpoint K s ty a = Some (r, hh, s') \<Longrightarrow> last_breakpoint_id s + 1 < 2 ^ 31 \<Longrightarrow>
     x86_64_step K s s'"
| x86_64_remove: "x86_64_remove_breakpoint K s idx = Some (r, s') \<Longrightarrow> x86_64_step K s s'"
| x86_64_enable: "x86_64_enable_breakpoint K s idx = Some (r, s') \<Longrightarrow> x86_64_step K s s'"
| x86_64_disable: "x86_64_disable_breakpoint K s idx = Some (r, s') \<Longrightarrow> x86_64_step K s s'"
| x86_64_detach_after_fork: "server_ptrace_detach_after_fork (x86_arch_get_registers K) (x86_64_disable_breakpoint_at K) K s
     = Some (r, s') \<Longrightarrow> x86_64_step K s s'"
| x86_64_call: "x86_64_call_method K s m a1 a2 cb = Some (r, s') \<Longrightarrow> x86_64_step K s s'"
| x86_64_call_1: "x86_64_call_method_1 K s m a1 a2 a3 str cb = Some (r, s') \<Longrightarrow> x86_64_step K s s'"
| x86_64_call_2: "x86_64_call_method_2 K s m data cb = Some (r, s') \<Longrightarrow> x86_64_step K s s'"
| x86_64_call_3: "x86_64_call_method_3 K s m a1 a2 data cb = Some (r, s') \<Longrightarrow> x86_64_step K s s'"
| x86_64_call_invoke: "x86_64_call_method_invoke K s m a1 params data cb dbg = Some (r, s') \<Longrightarrow> x86_64_step K s s'"
| x86_64_execute: "x86_64_execute_instruction K s insn upd = Some (r, s') \<Longrightarrow> x86_64_step K s s'"
| x86_64_mark_rti: "x86_64_mark_rti_frame s = (r, s') \<Longrightarrow> x86_64_step K s s'"
| x86_64_abort: "x86_64_abort_invoke K s rti = Some (r, s') \<Longrightarrow> x86_64_step K s s'"
| x86_64_frame: "x86_64_get_frame K s f = (r, f', s') \<Longrightarrow> x86_64_step K s s'"
| x86_64_insn_is_bpt: "x86_64_current_insn_is_bpt s = (r, b, s') \<Longrightarrow> x86_64_step K s s'"
| x86_64_set_regs: "x86_64_set_registers K s vals = (r, s') \<Longrightarrow> x86_64_step K s s'"
| x86_64_push_regs: "x86_64_push_registers K s = Some (r, sp, s') \<Longrightarrow> x86_64_step K s s'"
| x86_64_pop_regs: "x86_64_pop_registers K s = (r, s') \<Longrightarrow> x86_64_step K s s'"
| x86_64_restart: "x86_64_restart_notification K s = (r, s') \<Longrightarrow> x86_64_step K s s'"

inductive i386_step ::
  "('k, 'f) i386_kernel \<Rightarrow> ('k, 'f) i386_server \<Rightarrow> ('k, 'f) i386_server \<Rightarrow> bool" for K where
  i386_common: "common_step (i386_child_stopped K) K s s' \<Longrightarrow> i386_step K s s'"
| i386_insert: "i386_insert_breakpoint K s a = Some (r, h, s') \<Longrightarrow> last_breakpoint_id s + 1 < 2 ^ 31 \<Longrightarrow> i386_step K s s'"
| i386_insert_hw: "i386_insert_hw_breakpoint K s ty a = Some (r, hh, s') \<Longrightarrow> last_breakpoint_id s + 1 < 2 ^ 31 \<Longrightarrow>
     i386_step K s s'"
| i386_remove: "i386_remove_breakpoint K s idx = Some (r, s') \<Longrightarrow> i386_step K s s'"
| i386_enable: "i386_enable_breakpoint K s idx = Some (r, s') \<Longrightarrow> i386_step K s s'"
| i386_disable: "i386_disable_breakpoint K s idx = Some (r, s') \<Longrightarrow> i386_step K s s'"
| i386_detach_after_fork: "server_ptrace_detach_after_fork (x86_arch_get_registers K) (i386_disable_breakpoint_at K) K s
     = Some (r, s') \<Longrightarrow> i386_step K s s'"
| i386_call: "i386_call_method K s m a1 a2 cb = Some (r, s') \<Longrightarrow> i386_step K s s'"
| i386_call_1: "i386_call_method_1 K s m a1 a2 a3 str cb = Some (r, s') \<Longrightarrow> i386_step K s s'"
| i386_call_2: "i386_call_method_2 K s m data cb = Some (r, s') \<Longrightarrow> i386_step K s s'"
| i386_call_3: "i386_call_method_3 K s m a1 a2 data cb = Some (r, s') \<Longrightarrow> i386_step K s s'"
| i386_call_invoke: "i386_call_method_invoke K s m a1 params data cb dbg = Some (r, s') \<Longrightarrow> i386_step K s s'"
| i386_execute: "i386_execute_instruction K s insn upd = Some (r, s') \<Longrightarrow> i386_step K s s'"
| i386_mark_rti: "i386_mark_rti_frame s = (r, s') \<Longrightarrow> i386_step K s s'"
| i386_abort: "i386_abort_invoke K s rti = Some (r, s') \<Longrightarrow> i386_step K s s'"
| i386_frame: "i386_get_frame K s f = (r, f', s') \<Longrightarrow> i386_step K s s'"
| i386_insn_is_bpt: "i386_current_insn_is_bpt s = (r, b, s') \<Longrightarrow> i386_step K s s'"
| i386_set_regs: "i386_set_registers K s vals = (r, s') \<Longrightarrow> i386_step K s s'"
| i386_push_regs: "i386_push_registers K s = Some (r, sp, s') \<Longrightarrow> i386_step K s s'"
| i386_pop_regs: "i386_pop_registers K s = (r, s') \<Longrightarrow> i386_step K s s'"
| i386_restart: "i386_restart_notification K s = (r, s') \<Longrightarrow> i386_step K s s'"

lemma common_step_unchanged:
  assumes "common_step cs K s s'" and "\<And>s sig a d s'. cs s sig = Some (a, d, s') \<Longrightarrow> bp_unchanged s s'"
  shows "bp_unchanged s s'"
  using assms(1)
proof cases
  case dispatch_event
  show ?thesis by (rule unchanged_dispatch [OF _ dispatch_event]) (rule assms(2))
qed (auto simp: server_ptrace_set_runtime_info_def intro: unchanged)

lemma unchanged_ok:
  "bp_unchanged s s' \<Longrightarrow> server_ok s \<Longrightarrow> server_ok s' \<and> bpm_mutex s' = bpm_mutex s"
  by (simp add: server_ok_unchanged) (simp add: bp_unchanged_def)

lemma x86_64_step_ok:
  assumes "x86_64_step K s s'" and ok: "server_ok s"
  shows "server_ok s' \<and> bpm_mutex s' = bpm_mutex s"
  using assms(1)
proof cases
  case x86_64_common
  then show ?thesis by (intro unchanged_ok [OF _ ok] common_step_unchanged [OF x86_64_common]) (rule unchanged)
next
  case x86_64_insert
  then show ?thesis unfolding x86_64_insert_breakpoint_def by (metis x86_64_backend.insert_ok [OF ok])
next
  case x86_64_insert_hw
  then show ?thesis unfolding x86_64_insert_hw_breakpoint_def by (metis x86_64_backend.insert_hw_ok [OF ok])
next
  case x86_64_remove
  then show ?thesis unfolding x86_64_remove_breakpoint_def by (metis x86_64_backend.remove_ok [OF ok])
next
  case x86_64_enable
  then show ?thesis unfolding x86_64_enable_breakpoint_def by (metis x86_64_backend.enable_ok [OF ok])
next
  case x86_64_disable
  then show ?thesis unfolding x86_64_disable_breakpoint_def by (metis x86_64_backend.disable_ok [OF ok])
next
  case x86_64_detach_after_fork
  then show ?thesis by (rule x86_64_backend.detach_after_fork_ok [OF _ ok])
qed (auto intro!: unchanged_ok [OF _ ok] intro: unchanged simp: x86_64_abort_invoke_def)

lemma i386_step_ok:
  assumes "i386_step K s s'" and ok: "server_ok s"
  shows "server_ok s' \<and> bpm_mutex s' = bpm_mutex s"
  using assms(1)
proof cases
  case i386_common
  then show ?thesis by (intro unchanged_ok [OF _ ok] common_step_unchanged [OF i386_common]) (rule unchanged)
next
  case i386_insert
  then show ?thesis unfolding i386_insert_breakpoint_def by (metis i386_backend.insert_ok [OF ok])
next
  case i386_insert_hw
  then show ?thesis unfolding i386_insert_hw_breakpoint_def by (metis i386_backend.insert_hw_ok [OF ok])
next
  case i386_remove
  then show ?thesis unfolding i386_remove_breakpoint_def by (metis i386_backend.remove_ok [OF ok])
next
  case i386_enable
  then show ?thesis unfolding i386_enable_breakpoint_def by (metis i386_backend.enable_ok [OF ok])
next
  case i386_disable
  then show ?thesis unfolding i386_disable_breakpoint_def by (metis i386_backend.disable_ok [OF ok])
next
  case i386_detach_after_fork
  then show ?thesis by (rule i386_backend.detach_after_fork_ok [OF _ ok])
qed (auto intro!: unchanged_ok [OF _ ok] intro: unchanged simp: i386_abort_invoke_def)

section \<open>Every reachable server is well formed\<close>

lemma get_breakpoints_loop_live:
  assumes "\<forall>p \<in> set ps. \<exists>b. h p = Some b"
  shows "get_breakpoints_loop h ps = Some (map (\<lambda>p. word_of_int (bp_id (the (h p)))) ps)"
  using assms by (induction ps) auto

lemma ids_distinct:
  assumes "bpm_ids_ok m h"
  shows "distinct (map (\<lambda>p. word_of_int (bp_id (the (h p))) :: guint32) (breakpoints m))"
proof -
  have small: "unat (word_of_int (bp_id (the (h p))) :: guint32) = nat (bp_id (the (h p)))"
    and live: "h p = Some (the (h p))" if "p \<in> set (breakpoints m)" for p
    using assms that by (auto simp: bpm_ids_ok_def id_ok_def unat_eq_nat_uint uint_word_of_int_eq take_bit_int_eq_self)
  have "p = q" if "p \<in> set (breakpoints m)" "q \<in> set (breakpoints m)" "bp_id (the (h p)) = bp_id (the (h q))" for p q
    using assms that live unfolding bpm_ids_ok_def by (metis option.inject)
  moreover have "bp_id (the (h p)) = bp_id (the (h q))" if "p \<in> set (breakpoints m)" "q \<in> set (breakpoints m)"
    "(word_of_int (bp_id (the (h p))) :: guint32) = word_of_int (bp_id (the (h q)))" for p q
    using assms that small [of p] small [of q] live by (auto simp: bpm_ids_ok_def id_ok_def)
  ultimately show ?thesis using assms by (auto simp: distinct_map inj_on_def bpm_ids_ok_def)
qed

text \<open>In a well-formed server no command on breakpoints follows a dangling pointer.\<close>

lemma server_ok_safe:
  fixes s :: "('k, 'w::len, 'r, 'f, 'z) x86_server"
  assumes "server_ok s"
  obtains ids where "server_ptrace_get_breakpoints s = Some (COMMAND_ERROR_NONE, ids, s)" "distinct ids"
    "length ids = length (breakpoints (bpm s))"
    "\<And>a. \<exists>hit. check_breakpoint s a = Some (hit, s) \<and> (\<forall>i. hit = Some i \<longrightarrow> (ucast i :: guint32) \<in> set ids)"
proof
  have ok: "bpm_ids_ok (bpm s) (bp_heap s)" "bpm_addrs_sound (bpm s) (bp_heap s)"
    using assms by (simp_all add: server_ok_def managers_ok_def bpm_ok_def bpm_addrs_ok_def)
  let ?ids = "map (\<lambda>p. word_of_int (bp_id (the (bp_heap s p))) :: guint32) (breakpoints (bpm s))"
  have live: "\<forall>p \<in> set (breakpoints (bpm s)). \<exists>b. bp_heap s p = Some b" using ok(1) by (auto simp: bpm_ids_ok_def)
  show "server_ptrace_get_breakpoints s = Some (COMMAND_ERROR_NONE, ?ids, s)"
    using get_breakpoints_loop_live [OF live]
    by (simp add: server_ptrace_get_breakpoints_def mono_debugger_breakpoint_manager_get_breakpoints_def)
  show "distinct ?ids" by (rule ids_distinct [OF ok(1)])
  show "length ?ids = length (breakpoints (bpm s))" by simp
  show "\<exists>hit. check_breakpoint s a = Some (hit, s) \<and> (\<forall>i. hit = Some i \<longrightarrow> (ucast i :: guint32) \<in> set ?ids)" for a
  proof (cases "mono_debugger_breakpoint_manager_lookup (bpm s) a")
    case (Some p)
    then have "p \<in> set (breakpoints (bpm s))" using ok(2)
      by (auto simp: mono_debugger_breakpoint_manager_lookup_def bpm_addrs_sound_def)
    moreover from this obtain b where "bp_heap s p = Some b" using live by blast
    ultimately show ?thesis using Some by (auto simp: check_breakpoint_def Let_def image_iff ucast_word_of_int_32 intro!: bexI [of _ p])
  qed (simp add: check_breakpoint_def)
qed

lemma created_mutex [simp]: "bpm_mutex (server_ptrace_create_inferior a m g k) = bpm_mutex g"
  by (simp add: server_ptrace_create_inferior_def bp_store.defs)

lemma created_ok:
  assumes "bp_heap g = Map.empty" and "0 \<le> last_breakpoint_id g" and "length (dr_regs a) = DR_NADDR"
    and "hw_bpm a = mono_debugger_breakpoint_manager_new"
  shows "server_ok (server_ptrace_create_inferior a mono_debugger_breakpoint_manager_new g k)"
  by (rule server_ok_fresh) (use assms in \<open>simp_all add: server_ptrace_create_inferior_def bp_store.defs\<close>)

lemma x86_64_steps_ok:
  "(x86_64_step K)\<^sup>*\<^sup>* s s' \<Longrightarrow> server_ok s \<Longrightarrow> server_ok s' \<and> bpm_mutex s' = bpm_mutex s"
  by (induction rule: rtranclp_induct) (auto dest: x86_64_step_ok)

lemma i386_steps_ok:
  "(i386_step K)\<^sup>*\<^sup>* s s' \<Longrightarrow> server_ok s \<Longrightarrow> server_ok s' \<and> bpm_mutex s' = bpm_mutex s"
  by (induction rule: rtranclp_induct) (auto dest: i386_step_ok)

text \<open>
  C4. Whatever sequence of commands the debugger sends to a new x86_64 server (any command of the function
  table, with any arguments and however the kernel answers, the target running in between), the
  breakpoint data stay well formed and the manager's mutex is released. So \<open>get_breakpoints\<close> never
  follows a dangling pointer and returns distinct ids, and the check for a breakpoint after a stop
  returns, and reports one of those ids if any.
\<close>

theorem x86_64_reachable_ok:
  assumes "(x86_64_step K)\<^sup>*\<^sup>* (server_ptrace_create_inferior (x86_64_arch_initialize regs fpregs)
      mono_debugger_breakpoint_manager_new g k) s"
    and "bp_heap g = Map.empty" and "0 \<le> last_breakpoint_id g"
  shows "server_ok s \<and> bpm_mutex s = bpm_mutex g \<and>
    (\<exists>ids. x86_64_get_breakpoints s = Some (COMMAND_ERROR_NONE, ids, s) \<and> distinct ids \<and>
       (\<forall>a. \<exists>hit. x86_64_check_breakpoint s a = Some (hit, s) \<and> (\<forall>i. hit = Some i \<longrightarrow> (ucast i :: guint32) \<in> set ids)))"
proof -
  have "server_ok s \<and> bpm_mutex s = bpm_mutex g"
    using x86_64_steps_ok [OF assms(1) created_ok [OF assms(2,3)]] by (simp add: x86_64_arch_initialize_def)
  then show ?thesis unfolding x86_64_get_breakpoints_def x86_64_check_breakpoint_def by (metis server_ok_safe)
qed

lemma server64_step: "\<exists>s. x86_64_step flat_kernel server64 s \<and> bp_table s = [0x400000 \<mapsto> (1, 1)]"
  by (rule inserted64, drule x86_64_insert) auto

lemma server32_step: "\<exists>s. i386_step flat_kernel server32 s \<and> bp_table s = [0x400000 \<mapsto> (1, 1)]"
  by (rule inserted32, drule i386_insert) auto

theorem x86_64_reachable_ok_witness:
  "\<exists>s. x86_64_step flat_kernel server64 s \<and> bp_table s = [0x400000 \<mapsto> (1, 1)] \<and> server_ok s \<and> bpm_mutex s = 0"
proof -
  obtain s where s: "x86_64_step flat_kernel server64 s" "bp_table s = [0x400000 \<mapsto> (1, 1)]" using server64_step by blast
  then show ?thesis
    using x86_64_reachable_ok [of flat_kernel "flat_regs flat64" "()" empty_store flat64 s]
    by (auto simp: server64_def flat_server_def empty_store_def)
qed

text \<open>The same for i386.\<close>

theorem i386_reachable_ok:
  assumes "(i386_step K)\<^sup>*\<^sup>* (server_ptrace_create_inferior (i386_arch_initialize regs fpregs)
      mono_debugger_breakpoint_manager_new g k) s"
    and "bp_heap g = Map.empty" and "0 \<le> last_breakpoint_id g"
  shows "server_ok s \<and> bpm_mutex s = bpm_mutex g \<and>
    (\<exists>ids. server_ptrace_get_breakpoints s = Some (COMMAND_ERROR_NONE, ids, s) \<and> distinct ids \<and>
       (\<forall>a. \<exists>hit. check_breakpoint s a = Some (hit, s) \<and> (\<forall>i. hit = Some i \<longrightarrow> (ucast i :: guint32) \<in> set ids)))"
proof -
  have "server_ok s \<and> bpm_mutex s = bpm_mutex g"
    using i386_steps_ok [OF assms(1) created_ok [OF assms(2,3)]] by (simp add: i386_arch_initialize_def)
  then show ?thesis by (metis server_ok_safe)
qed

theorem i386_reachable_ok_witness:
  "\<exists>s. i386_step flat_kernel server32 s \<and> bp_table s = [0x400000 \<mapsto> (1, 1)] \<and> server_ok s \<and> bpm_mutex s = 0"
proof -
  obtain s where s: "i386_step flat_kernel server32 s" "bp_table s = [0x400000 \<mapsto> (1, 1)]" using server32_step by blast
  then show ?thesis
    using i386_reachable_ok [of flat_kernel "flat_regs flat32" "()" empty_store flat32 s]
    by (auto simp: server32_def flat_server_def empty_store_def)
qed

end
