(* ===== verification/Wait_Protocol.thy ===== *)
theory Wait_Protocol
  imports X86_Arch "HOL-Library.Multiset"
begin

text \<open>
  Waiting for the target, in \<open>x86-linux-ptrace.c\<close>: one thread of the debugger is in
  \<open>server_ptrace_global_wait\<close> while others call \<open>server_ptrace_stop_and_wait\<close>, each for the thread of
  its own handle. They share three mutexes and the variables \<open>stop_requested\<close> and \<open>stop_status\<close>.
  Both functions are step functions over program points: each lock, unlock and access to the shared
  variables is a step of its own, and \<open>None\<close> is a thread that cannot take a step: another one holds
  the mutex it wants, or it is suspended in a \<open>waitpid\<close> that has nothing to report.
\<close>

section \<open>State\<close>

datatype wait_thread = Waiter | Stopper nat

text \<open>The program points of \<open>server_ptrace_global_wait\<close>, with its local variables \<open>ret\<close> and \<open>status\<close>.\<close>

datatype global_wait_pc =
    W_again
  | W_wait
  | W_lock2 gint guint32
  | W_test gint guint32
  | W_requested_unlock2
  | W_requested_unlock1
  | W_lock3
  | W_unlock3
  | W_unlock2 gint guint32
  | W_store gint guint32
  | W_out gint
  | W_returned gint

text \<open>
  The program points of \<open>server_ptrace_stop_and_wait\<close>, with \<open>already_stopped\<close>, the result of the
  wait and the caller's \<open>*status\<close> (\<open>None\<close> while it is not written).
\<close>

datatype stop_and_wait_pc =
    S_idle
  | S_lock2
  | S_stop
  | S_failed ServerCommandError
  | S_lock3 bool
  | S_request bool
  | S_unlock2 bool
  | S_lock1 bool
  | S_test bool
  | S_wait bool
  | S_unlock1 gint "guint32 option"
  | S_unlock3 gint "guint32 option"
  | S_returned ServerCommandError "guint32 option"

text \<open>
  The last three fields are the history: the events that \<open>waitpid\<close> returned to either function, those
  that \<open>global_wait\<close> stored for its caller and those that \<open>stop_and_wait\<close> stored for its own.
\<close>

type_synonym wait_event = "gint \<times> guint32"

record ('k, 'h) wait_state =
  wait_mutex :: "wait_thread option"
  wait_mutex_2 :: "wait_thread option"
  wait_mutex_3 :: "wait_thread option"
  stop_requested :: gint
  stop_status :: guint32
  waiter :: global_wait_pc
  status_ret :: "guint32 option"
  stoppers :: "nat \<Rightarrow> stop_and_wait_pc"
  handles :: "nat \<Rightarrow> 'h"
  wait_kern :: 'k
  reaped :: "wait_event list"
  reported :: "wait_event list"
  stopped :: "wait_event list"

type_synonym ('k, 'w, 'r, 'f, 'z) wait_machine = "('k, ('k, 'w, 'r, 'f, 'z) x86_server) wait_state"

abbreviation stopper_pid :: "('k, 'w::len, 'r, 'f, 'z) wait_machine \<Rightarrow> nat \<Rightarrow> gint" where
  "stopper_pid m t \<equiv> sint (inf_pid (inferior (handles m t)))"

section \<open>The two functions\<close>

text \<open>
  A call of \<open>waitpid\<close> without \<open>WNOHANG\<close> never returns zero. The kernel's answer zero to such a call
  stands for no answer: no event of the processes asked for is there or due, and the caller is suspended
  for as long as the kernel stays in this state.
\<close>

definition waitpid_blocks :: "('k, 'w::len, 'r, 'f) kernel \<Rightarrow> 'k \<Rightarrow> gint \<Rightarrow> bool" where
  "waitpid_blocks K k pid = (case fst (waitpid K k pid False) of Inl _ \<Rightarrow> False | Inr (ret, _) \<Rightarrow> ret = 0)"

definition server_ptrace_global_init :: "('k, 'h) wait_state \<Rightarrow> ('k, 'h) wait_state" where
  "server_ptrace_global_init m = m\<lparr> stop_requested := 0, stop_status := 0 \<rparr>"

definition server_ptrace_global_wait ::
  "('k, 'w::len, 'r, 'f) kernel \<Rightarrow> ('k, 'w, 'r, 'f, 'z) wait_machine \<Rightarrow> ('k, 'w, 'r, 'f, 'z) wait_machine option" where
  "server_ptrace_global_wait K m =
     (case waiter m of
        W_again \<Rightarrow>
          (if wait_mutex m = None then Some (m\<lparr> wait_mutex := Some Waiter, waiter := W_wait \<rparr>) else None)
      | W_wait \<Rightarrow>
          (let (ret, status, k) = do_wait K (wait_kern m) (-1) 0 False in
           if waitpid_blocks K (wait_kern m) (-1) then None
           else let m = m\<lparr> wait_kern := k \<rparr> in
           Some (if ret \<le> 0 then m\<lparr> waiter := W_out ret \<rparr>
                 else m\<lparr> waiter := W_lock2 ret status, reaped := reaped m @ [(ret, status)] \<rparr>))
      | W_lock2 ret status \<Rightarrow>
          (if wait_mutex_2 m = None then Some (m\<lparr> wait_mutex_2 := Some Waiter, waiter := W_test ret status \<rparr>) else None)
      | W_test ret status \<Rightarrow>
          Some (if ret = stop_requested m
                then m\<lparr> status_ret := Some 0, stop_status := status, waiter := W_requested_unlock2 \<rparr>
                else m\<lparr> waiter := W_unlock2 ret status \<rparr>)
      | W_requested_unlock2 \<Rightarrow> Some (m\<lparr> wait_mutex_2 := None, waiter := W_requested_unlock1 \<rparr>)
      | W_requested_unlock1 \<Rightarrow> Some (m\<lparr> wait_mutex := None, waiter := W_lock3 \<rparr>)
      | W_lock3 \<Rightarrow>
          (if wait_mutex_3 m = None then Some (m\<lparr> wait_mutex_3 := Some Waiter, waiter := W_unlock3 \<rparr>) else None)
      | W_unlock3 \<Rightarrow> Some (m\<lparr> wait_mutex_3 := None, waiter := W_again \<rparr>)
      | W_unlock2 ret status \<Rightarrow> Some (m\<lparr> wait_mutex_2 := None, waiter := W_store ret status \<rparr>)
      | W_store ret status \<Rightarrow>
          Some (m\<lparr> status_ret := Some status, waiter := W_out ret, reported := reported m @ [(ret, status)] \<rparr>)
      | W_out ret \<Rightarrow> Some (m\<lparr> wait_mutex := None, waiter := W_returned ret \<rparr>)
      | W_returned ret \<Rightarrow> None)"

definition set_stopper ::
  "nat \<Rightarrow> stop_and_wait_pc \<Rightarrow> ('k, 'h) wait_state \<Rightarrow> ('k, 'h) wait_state" where
  "set_stopper t pc m = m\<lparr> stoppers := (stoppers m)(t := pc) \<rparr>"

definition server_ptrace_stop_and_wait ::
  "('k, 'w::len, 'r, 'f) kernel \<Rightarrow> nat \<Rightarrow> ('k, 'w, 'r, 'f, 'z) wait_machine \<Rightarrow>
     ('k, 'w, 'r, 'f, 'z) wait_machine option" where
  "server_ptrace_stop_and_wait K t m =
     (case stoppers m t of
        S_idle \<Rightarrow> None
      | S_lock2 \<Rightarrow>
          (if wait_mutex_2 m = None
           then Some (set_stopper t S_stop (m\<lparr> wait_mutex_2 := Some (Stopper t) \<rparr>)) else None)
      | S_stop \<Rightarrow>
          (let (result, s) = server_ptrace_stop (x86_arch_get_registers K) K ((handles m t)\<lparr> kern := wait_kern m \<rparr>);
               m = m\<lparr> wait_kern := kern s, handles := (handles m)(t := s) \<rparr> in
           Some (if result = COMMAND_ERROR_ALREADY_STOPPED then set_stopper t (S_lock3 True) m
                 else if result \<noteq> COMMAND_ERROR_NONE then set_stopper t (S_failed result) m
                 else set_stopper t (S_lock3 False) m))
      | S_failed result \<Rightarrow> Some (set_stopper t (S_returned result None) (m\<lparr> wait_mutex_2 := None \<rparr>))
      | S_lock3 already_stopped \<Rightarrow>
          (if wait_mutex_3 m = None
           then Some (set_stopper t (S_request already_stopped) (m\<lparr> wait_mutex_3 := Some (Stopper t) \<rparr>)) else None)
      | S_request already_stopped \<Rightarrow>
          Some (set_stopper t (S_unlock2 already_stopped) (m\<lparr> stop_requested := stopper_pid m t \<rparr>))
      | S_unlock2 already_stopped \<Rightarrow>
          Some (set_stopper t (S_lock1 already_stopped) (m\<lparr> wait_mutex_2 := None \<rparr>))
      | S_lock1 already_stopped \<Rightarrow>
          (if wait_mutex m = None
           then Some (set_stopper t (S_test already_stopped) (m\<lparr> wait_mutex := Some (Stopper t) \<rparr>)) else None)
      | S_test already_stopped \<Rightarrow>
          Some (if stop_status m \<noteq> 0
                then set_stopper t (S_unlock1 0 (Some (stop_status m)))
                  (m\<lparr> stop_requested := 0, stop_status := 0,
                     stopped := stopped m @ [(stopper_pid m t, stop_status m)] \<rparr>)
                else set_stopper t (S_wait already_stopped) (m\<lparr> stop_requested := 0, stop_status := 0 \<rparr>))
      | S_wait already_stopped \<Rightarrow>
          (let (ret, status, k) = do_wait K (wait_kern m) (stopper_pid m t) 0 already_stopped in
           if \<not> already_stopped \<and> waitpid_blocks K (wait_kern m) (stopper_pid m t) then None
           else let m = m\<lparr> wait_kern := k \<rparr> in
           Some (if ret = 0 then m
                 else if ret < 0 then set_stopper t (S_unlock1 ret None) m
                 else set_stopper t (S_unlock1 ret (Some status))
                   (m\<lparr> reaped := reaped m @ [(ret, status)], stopped := stopped m @ [(ret, status)] \<rparr>)))
      | S_unlock1 ret status \<Rightarrow> Some (set_stopper t (S_unlock3 ret status) (m\<lparr> wait_mutex := None \<rparr>))
      | S_unlock3 ret status \<Rightarrow>
          Some (set_stopper t (S_returned (if ret < 0 then COMMAND_ERROR_NO_TARGET else COMMAND_ERROR_NONE) status)
                  (m\<lparr> wait_mutex_3 := None \<rparr>))
      | S_returned result status \<Rightarrow> None)"

text \<open>
  The threads run interleaved with each other and with the kernel. A caller of \<open>global_wait\<close> calls it
  again after it has returned; a call of \<open>stop_and_wait\<close> is made with any handle whose process id is
  a positive number.
\<close>

inductive wait_step ::
  "('k, 'w::len, 'r, 'f) kernel \<Rightarrow> ('k, 'w, 'r, 'f, 'z) wait_machine \<Rightarrow> ('k, 'w, 'r, 'f, 'z) wait_machine \<Rightarrow> bool"
  for K where
  waiter_runs: "server_ptrace_global_wait K m = Some m' \<Longrightarrow> wait_step K m m'"
| waiter_called: "waiter m = W_returned ret \<Longrightarrow> wait_step K m (m\<lparr> waiter := W_again, status_ret := None \<rparr>)"
| stopper_runs: "server_ptrace_stop_and_wait K t m = Some m' \<Longrightarrow> wait_step K m m'"
| stopper_called: "stoppers m t = S_idle \<or> stoppers m t = S_returned result status \<Longrightarrow>
     0 < sint (inf_pid (inferior h)) \<Longrightarrow>
     wait_step K m (set_stopper t S_lock2 (m\<lparr> handles := (handles m)(t := h) \<rparr>))"
| kernel_runs: "wait_step K m (m\<lparr> wait_kern := k \<rparr>)"

definition wait_initial :: "'k \<Rightarrow> (nat \<Rightarrow> 'h) \<Rightarrow> ('k, 'h) wait_state" where
  "wait_initial k hs = \<lparr> wait_mutex = None, wait_mutex_2 = None, wait_mutex_3 = None,
     stop_requested = 0, stop_status = 0, waiter = W_again, status_ret = None,
     stoppers = (\<lambda>t. S_idle), handles = hs, wait_kern = k, reaped = [], reported = [], stopped = [] \<rparr>"

section \<open>Who holds which mutex\<close>

fun waiter_holds_1 :: "global_wait_pc \<Rightarrow> bool" where
  "waiter_holds_1 W_again = False"
| "waiter_holds_1 W_lock3 = False"
| "waiter_holds_1 W_unlock3 = False"
| "waiter_holds_1 (W_returned _) = False"
| "waiter_holds_1 _ = True"

fun waiter_holds_2 :: "global_wait_pc \<Rightarrow> bool" where
  "waiter_holds_2 (W_test _ _) = True"
| "waiter_holds_2 W_requested_unlock2 = True"
| "waiter_holds_2 (W_unlock2 _ _) = True"
| "waiter_holds_2 _ = False"

fun stopper_holds_1 :: "stop_and_wait_pc \<Rightarrow> bool" where
  "stopper_holds_1 (S_test _) = True"
| "stopper_holds_1 (S_wait _) = True"
| "stopper_holds_1 (S_unlock1 _ _) = True"
| "stopper_holds_1 _ = False"

fun stopper_holds_2 :: "stop_and_wait_pc \<Rightarrow> bool" where
  "stopper_holds_2 S_stop = True"
| "stopper_holds_2 (S_failed _) = True"
| "stopper_holds_2 (S_lock3 _) = True"
| "stopper_holds_2 (S_request _) = True"
| "stopper_holds_2 (S_unlock2 _) = True"
| "stopper_holds_2 _ = False"

text \<open>The stopper's request is on: \<open>stop_requested\<close> is its process id.\<close>

fun stopper_requests :: "stop_and_wait_pc \<Rightarrow> bool" where
  "stopper_requests (S_unlock2 _) = True"
| "stopper_requests (S_lock1 _) = True"
| "stopper_requests (S_test _) = True"
| "stopper_requests _ = False"

fun stopper_holds_3 :: "stop_and_wait_pc \<Rightarrow> bool" where
  "stopper_holds_3 (S_request _) = True"
| "stopper_holds_3 (S_wait _) = True"
| "stopper_holds_3 (S_unlock1 _ _) = True"
| "stopper_holds_3 (S_unlock3 _ _) = True"
| "stopper_holds_3 pc = stopper_requests pc"

fun stopper_active :: "stop_and_wait_pc \<Rightarrow> bool" where
  "stopper_active S_idle = False"
| "stopper_active (S_returned _ _) = False"
| "stopper_active _ = True"

text \<open>A mutex whose owner is the waiter or a stopper, if any, just when that thread is at a point where it holds it.\<close>

definition owned :: "wait_thread option \<Rightarrow> bool \<Rightarrow> ('p \<Rightarrow> bool) \<Rightarrow> (nat \<Rightarrow> 'p) \<Rightarrow> bool" where
  "owned mutex w holds pcs \<longleftrightarrow> (mutex = Some Waiter \<longleftrightarrow> w) \<and> (\<forall>t. mutex = Some (Stopper t) \<longleftrightarrow> holds (pcs t))"

lemma owned_acquire:
  assumes "owned None w holds pcs"
  shows "owned (Some Waiter) True holds pcs" and "holds pc \<Longrightarrow> owned (Some (Stopper t)) w holds (pcs(t := pc))"
  using assms by (auto simp: owned_def)

lemma owned_release:
  shows "owned mutex True holds pcs \<Longrightarrow> owned None False holds pcs"
    and "owned mutex w holds pcs \<Longrightarrow> holds (pcs t) \<Longrightarrow> \<not> holds pc \<Longrightarrow> owned None w holds (pcs(t := pc))"
  by (auto simp: owned_def) (metis option.inject wait_thread.inject wait_thread.distinct)+

lemma owned_same: "holds (pcs t) = holds pc \<Longrightarrow> owned mutex w holds (pcs(t := pc)) = owned mutex w holds pcs"
  by (auto simp: owned_def)

lemma owned_unique:
  assumes "owned mutex w holds pcs"
  shows "w \<Longrightarrow> \<not> holds (pcs t)" and "holds (pcs t) \<Longrightarrow> holds (pcs t') \<Longrightarrow> t = t'"
    and "mutex = None \<Longrightarrow> \<not> w \<and> \<not> holds (pcs t)"
proof -
  show "w \<Longrightarrow> \<not> holds (pcs t)" "mutex = None \<Longrightarrow> \<not> w \<and> \<not> holds (pcs t)" using assms by (auto simp: owned_def)
  show "holds (pcs t) \<Longrightarrow> holds (pcs t') \<Longrightarrow> t = t'"
    using assms unfolding owned_def by (metis option.inject wait_thread.inject)
qed

definition locks_ok :: "('k, 'h) wait_state \<Rightarrow> bool" where
  "locks_ok m \<longleftrightarrow>
     owned (wait_mutex m) (waiter_holds_1 (waiter m)) stopper_holds_1 (stoppers m) \<and>
     owned (wait_mutex_2 m) (waiter_holds_2 (waiter m)) stopper_holds_2 (stoppers m) \<and>
     owned (wait_mutex_3 m) (waiter m = W_unlock3) stopper_holds_3 (stoppers m)"

lemma waiter_locks_ok: "server_ptrace_global_wait K m = Some m' \<Longrightarrow> locks_ok m \<Longrightarrow> locks_ok m'"
  by (auto simp: server_ptrace_global_wait_def locks_ok_def Let_def split: global_wait_pc.splits if_splits prod.splits
      intro: owned_acquire owned_release)

lemma stopper_locks_ok:
  assumes "server_ptrace_stop_and_wait K t m = Some m'" and "locks_ok m"
  shows "locks_ok m'"
  using assms
  by (cases "stoppers m t")
    (auto simp: server_ptrace_stop_and_wait_def locks_ok_def set_stopper_def Let_def owned_same
      split: if_splits prod.splits; fastforce intro: owned_acquire owned_release)+

lemma step_locks_ok:
  assumes "wait_step K m m'" and "locks_ok m"
  shows "locks_ok m'"
  using assms(1)
proof cases
  case waiter_runs
  then show ?thesis by (rule waiter_locks_ok [OF _ assms(2)])
next
  case stopper_runs
  then show ?thesis by (rule stopper_locks_ok [OF _ assms(2)])
qed (use assms(2) in \<open>auto simp: locks_ok_def set_stopper_def owned_same\<close>)

lemma stop_keeps_inferior:
  fixes s :: "('k, 'w::len, 'r, 'f, 'z) x86_server"
  assumes "server_ptrace_stop (x86_arch_get_registers K) K s = (r, s')"
  shows "inferior s' = inferior s"
  using assms
  by (auto simp: server_ptrace_stop_def x86_arch_get_registers_def priv_server_ptrace_get_registers_def
      priv_server_ptrace_get_fp_registers_def priv_server_ptrace_get_dr_def Let_def
      split: prod.splits sum.splits if_splits)

section \<open>Where an event goes\<close>

text \<open>
  While a stopper's request is on, \<open>stop_requested\<close> is the process id of its handle, and otherwise zero.
  A stop status that was not picked up yet belongs to it, and the waiter stays away from
  \<open>waitpid\<close> until it has been picked up.
\<close>

definition request_ok :: "('k, 'w::len, 'r, 'f, 'z) wait_machine \<Rightarrow> bool" where
  "request_ok m \<longleftrightarrow>
     (\<forall>t. stopper_active (stoppers m t) \<longrightarrow> 0 < stopper_pid m t) \<and>
     (\<forall>t. stopper_requests (stoppers m t) \<longrightarrow> stop_requested m = stopper_pid m t) \<and>
     (stop_requested m \<noteq> 0 \<longrightarrow> (\<exists>t. stopper_requests (stoppers m t))) \<and>
     (stop_status m \<noteq> 0 \<longrightarrow>
        stop_requested m \<noteq> 0 \<and> waiter m \<in> {W_requested_unlock2, W_requested_unlock1, W_lock3}) \<and>
     (\<forall>ret status. waiter m = W_unlock2 ret status \<longrightarrow> ret \<noteq> stop_requested m) \<and>
     (\<forall>ret status. waiter m \<in> {W_lock2 ret status, W_test ret status, W_unlock2 ret status, W_store ret status} \<longrightarrow> 0 < ret)"

lemma requests_hold_3: "stopper_requests pc \<Longrightarrow> stopper_holds_3 pc"
  by (cases pc) auto

lemma waiter_request_ok:
  assumes "server_ptrace_global_wait K m = Some m'" and locks: "locks_ok m" and "request_ok m"
  shows "request_ok m'"
proof -
  have free: "stop_requested m = 0" if "wait_mutex_3 m = None"
    using locks assms(3) owned_unique(3) [OF _ that] requests_hold_3 unfolding locks_ok_def request_ok_def by metis
  show ?thesis using assms(1,3) free
    by (cases "waiter m")
      (auto simp: server_ptrace_global_wait_def request_ok_def Let_def split: if_splits prod.splits)
qed

lemma request_ok_fields [simp]:
  "request_ok (m\<lparr> wait_mutex := x \<rparr>) = request_ok m" "request_ok (m\<lparr> wait_mutex_2 := x \<rparr>) = request_ok m"
  "request_ok (m\<lparr> wait_mutex_3 := x \<rparr>) = request_ok m" "request_ok (m\<lparr> wait_kern := k \<rparr>) = request_ok m"
  "request_ok (m\<lparr> stopped := ev \<rparr>) = request_ok m" "request_ok (m\<lparr> reaped := ev \<rparr>) = request_ok m"
  by (simp_all add: request_ok_def)

lemma request_ok_set_stopper:
  assumes "stopper_requests pc = stopper_requests (stoppers m t)" and "stopper_active (stoppers m t)" and "request_ok m"
  shows "request_ok (set_stopper t pc m)"
  using assms unfolding request_ok_def set_stopper_def
  by (auto split: if_splits)

lemma request_ok_handle:
  "request_ok m \<Longrightarrow> inferior h = inferior (handles m t) \<Longrightarrow> request_ok (m\<lparr> wait_kern := k, handles := (handles m)(t := h) \<rparr>)"
  by (auto simp: request_ok_def)

lemma no_request:
  assumes "locks_ok m" and "request_ok m" and "stopper_holds_3 (stoppers m t)" and "\<not> stopper_requests (stoppers m t)"
  shows "stop_requested m = 0 \<and> stop_status m = 0"
  using assms owned_unique(2) requests_hold_3 unfolding locks_ok_def request_ok_def by metis

lemma request_ok_called:
  assumes "request_ok m" and "\<not> stopper_requests (stoppers m t)" and "0 < sint (inf_pid (inferior h))"
  shows "request_ok (set_stopper t S_lock2 (m\<lparr> handles := (handles m)(t := h) \<rparr>))"
proof -
  have "\<exists>u. u \<noteq> t \<and> stopper_requests (stoppers m u)" if "stop_requested m \<noteq> 0"
    using assms(1,2) that unfolding request_ok_def by metis
  then show ?thesis using assms by (auto simp: request_ok_def set_stopper_def)
qed

lemma request_ok_done:
  assumes "request_ok m" and "stopper_active (stoppers m t)" and only: "\<And>u. stopper_requests (stoppers m u) \<Longrightarrow> u = t"
    and "\<not> stopper_requests pc"
  shows "request_ok (m\<lparr> stop_requested := 0, stop_status := 0, stoppers := (stoppers m)(t := pc) \<rparr>)"
    and "request_ok (m\<lparr> stop_requested := 0, stop_status := 0, stopped := ev, stoppers := (stoppers m)(t := pc) \<rparr>)"
proof -
  have "0 < stopper_pid m u" if "stopper_active (((stoppers m)(t := pc)) u)" for u
    using assms(1,2) that unfolding request_ok_def by (metis fun_upd_apply)
  moreover have "\<not> stopper_requests (((stoppers m)(t := pc)) u)" for u using only [of u] assms(4) by auto
  ultimately show "request_ok (m\<lparr> stop_requested := 0, stop_status := 0, stoppers := (stoppers m)(t := pc) \<rparr>)"
    and "request_ok (m\<lparr> stop_requested := 0, stop_status := 0, stopped := ev, stoppers := (stoppers m)(t := pc) \<rparr>)"
    using assms(1) unfolding request_ok_def by (simp_all del: fun_upd_apply) (metis less_irrefl)+
qed

lemma stopper_request_ok:
  assumes "server_ptrace_stop_and_wait K t m = Some m'" and locks: "locks_ok m" and "request_ok m"
  shows "request_ok m'"
proof -
  have only: "u = t" if "stopper_holds_3 (stoppers m t)" "stopper_requests (stoppers m u)" for u
    using locks owned_unique(2) that requests_hold_3 unfolding locks_ok_def by metis
  have w2: "\<not> waiter_holds_2 (waiter m)" if "stopper_holds_2 (stoppers m t)"
    using locks owned_unique(1) that unfolding locks_ok_def by metis
  show ?thesis
  proof (cases "stoppers m t")
    case S_stop
    obtain r s where e: "server_ptrace_stop (x86_arch_get_registers K) K ((handles m t)\<lparr> kern := wait_kern m \<rparr>) = (r, s)"
      by fastforce
    have i: "inferior s = inferior (handles m t)" using stop_keeps_inferior [OF e] by simp
    show ?thesis using assms(1) S_stop request_ok_handle [OF assms(3) i]
      by (auto simp: server_ptrace_stop_and_wait_def e Let_def split: if_splits intro!: request_ok_set_stopper)
  next
    case S_request
    with no_request [OF locks assms(3), of t] have "stop_requested m = 0" "stop_status m = 0" by simp_all
    moreover have "\<not> stopper_requests (stoppers m u)" for u using only [of u] S_request by auto
    moreover have "waiter m \<noteq> W_unlock2 r st" for r st using w2 S_request by auto
    ultimately show ?thesis using assms(1,3) S_request
      by (simp add: server_ptrace_stop_and_wait_def request_ok_def set_stopper_def) (auto split: if_splits)
  next
    case S_test
    then show ?thesis using assms(1) only request_ok_done [OF assms(3), of t]
      by (auto simp: server_ptrace_stop_and_wait_def set_stopper_def split: if_splits)
  qed (use assms(1,3) in \<open>auto simp: server_ptrace_stop_and_wait_def Let_def
      split: if_splits prod.splits intro!: request_ok_set_stopper\<close>)
qed

text \<open>
  The events in the hands of the two functions: the one the waiter has taken and not yet passed on, and
  the one that waits in \<open>stop_status\<close>. The code takes a zero status for no status at all, so an event
  with status zero (a normal exit with code zero) is in nobody's hands once the waiter has stored it there.
\<close>

fun waiter_event :: "global_wait_pc \<Rightarrow> wait_event multiset" where
  "waiter_event (W_lock2 ret status) = {#(ret, status)#}"
| "waiter_event (W_test ret status) = {#(ret, status)#}"
| "waiter_event (W_unlock2 ret status) = {#(ret, status)#}"
| "waiter_event (W_store ret status) = {#(ret, status)#}"
| "waiter_event _ = {#}"

definition handed_event :: "('k, 'h) wait_state \<Rightarrow> wait_event multiset" where
  "handed_event m = (if stop_status m \<noteq> 0 then {#(stop_requested m, stop_status m)#} else {#})"

definition accounted :: "('k, 'h) wait_state \<Rightarrow> wait_event multiset" where
  "accounted m = mset (reported m) + mset (stopped m) + waiter_event (waiter m) + handed_event m"

definition events_ok :: "('k, 'h) wait_state \<Rightarrow> bool" where
  "events_ok m \<longleftrightarrow> (\<exists>lost. mset (reaped m) = accounted m + lost \<and> (\<forall>e \<in># lost. snd e = 0))"

lemma events_okI:
  assumes "events_ok m" and "mset (reaped m') = mset (reaped m) + new"
    and "accounted m' + gone = accounted m + new" and "\<forall>e \<in># gone. snd e = 0"
  shows "events_ok m'"
proof -
  obtain lost where lost: "mset (reaped m) = accounted m + lost" "\<forall>e \<in># lost. snd e = 0"
    using assms(1) unfolding events_ok_def by blast
  have "mset (reaped m') = accounted m' + (gone + lost)"
    using assms(2) lost(1) assms(3) by (metis add.assoc add.commute)
  moreover have "\<forall>e \<in># gone + lost. snd e = 0" using assms(4) lost(2) by auto
  ultimately show ?thesis unfolding events_ok_def by blast
qed

lemma events_ok_same: "events_ok m \<Longrightarrow> reaped m' = reaped m \<Longrightarrow> accounted m' = accounted m \<Longrightarrow> events_ok m'"
  unfolding events_ok_def by simp

lemmas event_simps = accounted_def handed_event_def

lemma waiter_events_ok:
  assumes step: "server_ptrace_global_wait K m = Some m'" and "request_ok m" and "events_ok m"
  shows "events_ok m'"
proof (cases "waiter m")
  case (W_test ret status)
  show ?thesis
  proof (cases "ret = stop_requested m \<and> status = 0")
    case True
    with W_test step assms(2) show ?thesis
      by (intro events_okI [where new = "{#}" and gone = "{#(ret, status)#}", OF assms(3)])
        (auto simp: server_ptrace_global_wait_def event_simps request_ok_def)
  next
    case False
    with W_test step assms(2) show ?thesis
      by (intro events_okI [where new = "{#}" and gone = "{#}", OF assms(3)])
        (auto simp: server_ptrace_global_wait_def event_simps request_ok_def split: if_splits)
  qed
next
  case W_wait
  with step show ?thesis
    by (intro events_okI [where new = "mset (drop (length (reaped m)) (reaped m'))" and gone = "{#}", OF assms(3)])
      (auto simp: server_ptrace_global_wait_def event_simps Let_def split: if_splits prod.splits)
qed (use step in \<open>auto simp: server_ptrace_global_wait_def event_simps Let_def
    split: if_splits intro!: events_okI [where new = "{#}" and gone = "{#}", OF assms(3)]\<close>)

lemma stopper_events_ok:
  assumes step: "server_ptrace_stop_and_wait K t m = Some m'" and "locks_ok m" and "request_ok m" and "events_ok m"
  shows "events_ok m'"
proof (cases "stoppers m t")
  case (S_request a)
  then have "stop_status m = 0" using no_request [OF assms(2,3), of t] by simp
  then show ?thesis using step S_request
    by (auto simp: server_ptrace_stop_and_wait_def event_simps set_stopper_def
        intro!: events_okI [where new = "{#}" and gone = "{#}", OF assms(4)])
next
  case (S_test a)
  have "stop_requested m = stopper_pid m t" using assms(3) S_test by (simp add: request_ok_def)
  then show ?thesis using step S_test
    by (auto simp: server_ptrace_stop_and_wait_def event_simps set_stopper_def split: if_splits
        intro!: events_okI [where new = "{#}" and gone = "{#}", OF assms(4)])
next
  case (S_wait a)
  with step show ?thesis
    by (intro events_okI [where new = "mset (drop (length (reaped m)) (reaped m'))" and gone = "{#}", OF assms(4)])
      (auto simp: server_ptrace_stop_and_wait_def event_simps set_stopper_def Let_def split: if_splits prod.splits)
qed (use step in \<open>auto simp: server_ptrace_stop_and_wait_def event_simps set_stopper_def Let_def
    split: if_splits prod.splits intro!: events_okI [where new = "{#}" and gone = "{#}", OF assms(4)]\<close>)

section \<open>Reachable states\<close>

definition wait_ok :: "('k, 'w::len, 'r, 'f, 'z) wait_machine \<Rightarrow> bool" where
  "wait_ok m \<longleftrightarrow> locks_ok m \<and> request_ok m \<and> events_ok m"

lemma wait_ok_initial: "wait_ok (wait_initial k hs)"
  by (simp add: wait_ok_def locks_ok_def owned_def request_ok_def events_ok_def event_simps wait_initial_def)

lemma wait_step_ok:
  assumes "wait_step K m m'" and "wait_ok m"
  shows "wait_ok m'"
proof -
  have same: "events_ok m'" if "reaped m' = reaped m" "accounted m' = accounted m"
    using assms(2) that unfolding wait_ok_def by (blast intro: events_ok_same)
  show ?thesis using assms(1)
  proof cases
    case waiter_runs
    then show ?thesis using assms(2) unfolding wait_ok_def
      by (blast intro: waiter_locks_ok waiter_request_ok waiter_events_ok)
  next
    case stopper_runs
    then show ?thesis using assms(2) unfolding wait_ok_def
      by (blast intro: stopper_locks_ok stopper_request_ok stopper_events_ok)
  next
    case (stopper_called t result status h)
    then have "request_ok m'" using assms(2) by (auto simp: wait_ok_def intro: request_ok_called)
    moreover have "events_ok m'" by (rule same) (simp_all add: stopper_called(1) event_simps set_stopper_def)
    ultimately show ?thesis using assms(2) step_locks_ok [OF assms(1)] by (simp add: wait_ok_def)
  next
    case (waiter_called ret)
    have "events_ok m'" by (rule same) (simp_all add: waiter_called event_simps)
    then show ?thesis using assms(2) waiter_called step_locks_ok [OF assms(1)]
      by (auto simp: wait_ok_def request_ok_def)
  next
    case (kernel_runs k)
    have "events_ok m'" by (rule same) (simp_all add: kernel_runs event_simps)
    then show ?thesis using assms(2) kernel_runs by (simp add: wait_ok_def locks_ok_def)
  qed
qed

lemma wait_steps_ok: "(wait_step K)\<^sup>*\<^sup>* m m' \<Longrightarrow> wait_ok m \<Longrightarrow> wait_ok m'"
  by (induction rule: rtranclp_induct) (auto intro: wait_step_ok)

section \<open>A stopper gets an event of its own thread\<close>

text \<open>\<open>waitpid\<close> with a positive process id reports only that process.\<close>

definition waitpid_selects :: "('k, 'w::len, 'r, 'f) kernel \<Rightarrow> bool" where
  "waitpid_selects K \<longleftrightarrow>
     (\<forall>k pid nohang ret status k'. 0 < pid \<longrightarrow> waitpid K k pid nohang = (Inr (ret, status), k') \<longrightarrow> 0 < ret \<longrightarrow> ret = pid)"

lemma do_wait_selects:
  "waitpid_selects K \<Longrightarrow> 0 < pid \<Longrightarrow> do_wait K k pid st nohang = (ret, status, k') \<Longrightarrow> 0 < ret \<Longrightarrow> ret = pid"
  by (auto simp: waitpid_selects_def do_wait_def split: prod.splits sum.splits if_splits) metis

text \<open>What a call has for its caller once it has seen an event: nothing but events of its own process.\<close>

fun stopper_result :: "stop_and_wait_pc \<Rightarrow> guint32 option option" where
  "stopper_result (S_unlock1 ret status) = (if ret < 0 then None else Some status)"
| "stopper_result (S_unlock3 ret status) = (if ret < 0 then None else Some status)"
| "stopper_result (S_returned result status) = (if result = COMMAND_ERROR_NONE then Some status else None)"
| "stopper_result _ = None"

definition results_ok :: "('k, 'w::len, 'r, 'f, 'z) wait_machine \<Rightarrow> bool" where
  "results_ok m \<longleftrightarrow> (\<forall>t res. stopper_result (stoppers m t) = Some res \<longrightarrow>
     (\<exists>status. res = Some status \<and> (stopper_pid m t, status) \<in> set (reaped m))) \<and>
     (\<forall>t e. stoppers m t = S_failed e \<longrightarrow> e \<noteq> COMMAND_ERROR_NONE)"

lemma stop_status_reaped:
  assumes "events_ok m" and "stop_status m \<noteq> 0"
  shows "(stop_requested m, stop_status m) \<in> set (reaped m)"
proof -
  obtain lost where "mset (reaped m) = accounted m + lost" using assms(1) unfolding events_ok_def by blast
  then have "(stop_requested m, stop_status m) \<in># mset (reaped m)" using assms(2) by (simp add: event_simps)
  then show ?thesis by simp
qed

lemma results_ok_set_stopper:
  assumes "results_ok m" and "handles m' = handles m" and "set (reaped m) \<subseteq> set (reaped m')"
    and "stoppers m' = (stoppers m)(t := pc)"
    and "\<And>res. stopper_result pc = Some res \<Longrightarrow> \<exists>status. res = Some status \<and> (stopper_pid m t, status) \<in> set (reaped m')"
    and "\<And>e. pc = S_failed e \<Longrightarrow> e \<noteq> COMMAND_ERROR_NONE"
  shows "results_ok m'"
  using assms unfolding results_ok_def by (fastforce split: if_splits)

lemma stopper_results_ok:
  assumes step: "server_ptrace_stop_and_wait K t m = Some m'" and sel: "waitpid_selects K"
    and inv: "wait_ok m" and res: "results_ok m"
  shows "results_ok m'"
proof (cases "stoppers m t")
  case S_stop
  obtain r s where e: "server_ptrace_stop (x86_arch_get_registers K) K ((handles m t)\<lparr> kern := wait_kern m \<rparr>) = (r, s)"
    by fastforce
  have i: "inferior s = inferior (handles m t)" using stop_keeps_inferior [OF e] by simp
  have "results_ok (m\<lparr> wait_kern := kern s, handles := (handles m)(t := s) \<rparr>)" (is "results_ok ?m")
    using res i by (auto simp: results_ok_def)
  then show ?thesis using step S_stop
    by (auto simp: server_ptrace_stop_and_wait_def e set_stopper_def Let_def split: if_splits
        elim!: results_ok_set_stopper)
next
  case (S_test a)
  have "stop_requested m = stopper_pid m t" using inv S_test by (simp add: wait_ok_def request_ok_def)
  then have "(stopper_pid m t, stop_status m) \<in> set (reaped m)" if "stop_status m \<noteq> 0"
    using stop_status_reaped [OF _ that] inv by (simp add: wait_ok_def)
  then show ?thesis using step S_test
    by (auto simp: server_ptrace_stop_and_wait_def set_stopper_def split: if_splits intro!: results_ok_set_stopper [OF res])
next
  case (S_wait a)
  have "0 < stopper_pid m t" using inv S_wait by (simp add: wait_ok_def request_ok_def)
  then show ?thesis using step S_wait res
    by (auto simp: server_ptrace_stop_and_wait_def set_stopper_def Let_def split: if_splits prod.splits
        intro!: results_ok_set_stopper [OF res] dest!: do_wait_selects [OF sel])
next
  case (S_failed e)
  then show ?thesis using step res
    by (auto simp: server_ptrace_stop_and_wait_def set_stopper_def intro!: results_ok_set_stopper [OF res])
      (auto simp: results_ok_def)
next
  case (S_unlock1 ret st)
  then have "\<exists>status. res = Some status \<and> (stopper_pid m t, status) \<in> set (reaped m)"
    if "stopper_result (S_unlock1 ret st) = Some res" for res using res that unfolding results_ok_def by metis
  then show ?thesis using step S_unlock1
    by (auto simp: server_ptrace_stop_and_wait_def set_stopper_def intro!: results_ok_set_stopper [OF res] split: if_splits)
next
  case (S_unlock3 ret st)
  then have "\<exists>status. res = Some status \<and> (stopper_pid m t, status) \<in> set (reaped m)"
    if "stopper_result (S_unlock3 ret st) = Some res" for res using res that unfolding results_ok_def by metis
  then show ?thesis using step S_unlock3
    by (auto simp: server_ptrace_stop_and_wait_def set_stopper_def intro!: results_ok_set_stopper [OF res] split: if_splits)
qed (use step in \<open>auto simp: server_ptrace_stop_and_wait_def set_stopper_def split: if_splits intro!: results_ok_set_stopper [OF res]\<close>)

lemma waiter_results_ok:
  assumes "server_ptrace_global_wait K m = Some m'" and "results_ok m"
  shows "results_ok m'"
proof -
  have "stoppers m' = stoppers m" "handles m' = handles m" "set (reaped m) \<subseteq> set (reaped m')"
    using assms(1)
    by (auto simp: server_ptrace_global_wait_def Let_def split: global_wait_pc.splits if_splits prod.splits)
  then show ?thesis using assms(2) by (simp add: results_ok_def) blast
qed

end
