(* ===== verification/Wait_Properties.thy ===== *)
theory Wait_Properties
  imports Wait_Protocol Flat_Servers
begin

text \<open>
  What the protocol of \<open>global_wait\<close> and \<open>stop_and_wait\<close> guarantees: no event of the target is delivered
  twice and none is lost but an exit with status zero, a stopper gets an event of its own thread, and with one
  stopper at a time whose thread was still running there is no deadlock. Two stoppers at a time can
  deadlock, and so can one whose thread was already stopped.
\<close>

section \<open>Progress\<close>

lemma waiter_blocked:
  assumes "server_ptrace_global_wait K m = None"
  shows "(waiter m = W_again \<and> wait_mutex m \<noteq> None) \<or> (\<exists>r st. waiter m = W_lock2 r st \<and> wait_mutex_2 m \<noteq> None) \<or>
    (waiter m = W_lock3 \<and> wait_mutex_3 m \<noteq> None) \<or> (waiter m = W_wait \<and> waitpid_blocks K (wait_kern m) (-1)) \<or>
    (\<exists>r. waiter m = W_returned r)"
  using assms by (auto simp: server_ptrace_global_wait_def Let_def split: global_wait_pc.splits if_splits prod.splits)

lemma stopper_blocked:
  assumes "server_ptrace_stop_and_wait K t m = None" and "stopper_active (stoppers m t)"
  shows "(stoppers m t = S_lock2 \<and> wait_mutex_2 m \<noteq> None) \<or> (\<exists>b. stoppers m t = S_lock3 b \<and> wait_mutex_3 m \<noteq> None) \<or>
    (\<exists>b. stoppers m t = S_lock1 b \<and> wait_mutex m \<noteq> None) \<or>
    (stoppers m t = S_wait False \<and> waitpid_blocks K (wait_kern m) (stopper_pid m t))"
  using assms
  by (cases "stoppers m t") (auto simp: server_ptrace_stop_and_wait_def Let_def split: if_splits prod.splits)

text \<open>With no other stopper, a mutex that \<open>t\<close> does not hold and that is taken is held by the waiter.\<close>

lemma held_by_waiter:
  assumes "owned mutex w holds pcs" and "mutex \<noteq> None" and "\<not> holds (pcs t)"
    and "\<And>u. u \<noteq> t \<Longrightarrow> \<not> holds (pcs u)"
  shows "w"
proof -
  obtain x where x: "mutex = Some x" using assms(2) by blast
  show ?thesis
  proof (cases x)
    case Waiter
    then show ?thesis using assms(1) x by (simp add: owned_def)
  next
    case (Stopper u)
    then have "holds (pcs u)" using assms(1) x unfolding owned_def by blast
    then show ?thesis using assms(3,4) by metis
  qed
qed

lemma inactive_holds:
  assumes "\<not> stopper_active pc"
  shows "\<not> stopper_holds_1 pc" "\<not> stopper_holds_2 pc" "\<not> stopper_holds_3 pc"
  using assms by (cases pc; simp)+

text \<open>
  What the kernel promises about a thread to which \<open>tkill\<close> has sent \<open>SIGSTOP\<close>: from then on an event of it is
  due (that it has stopped, or that it is gone), and it stays due until \<open>waitpid\<close> reports an event of that
  thread; while it is due, \<open>waitpid\<close> for this thread or for any returns. The time until the thread has
  stopped is not counted: \<open>due\<close> is also true while the signal is on its way.
\<close>

definition stops_reported :: "('k, 'w::len, 'r, 'f) kernel \<Rightarrow> ('k \<Rightarrow> gint \<Rightarrow> bool) \<Rightarrow> bool" where
  "stops_reported K due \<longleftrightarrow>
     (\<forall>k pid k'. 0 < sint pid \<longrightarrow> sys_tkill K k pid SIGSTOP = (Inr (), k') \<longrightarrow> due k' (sint pid)) \<and>
     (\<forall>k pid. due k pid \<longrightarrow> \<not> waitpid_blocks K k pid \<and> \<not> waitpid_blocks K k (-1)) \<and>
     (\<forall>k pid p nohang r k'. due k pid \<longrightarrow> waitpid K k p nohang = (r, k') \<longrightarrow> (\<forall>status. r \<noteq> Inr (pid, status)) \<longrightarrow> due k' pid)"

text \<open>
  Runs with one call of \<open>stop_and_wait\<close> at a time, in which the kernel, while it runs on its own,
  takes back no event that is due.
\<close>

inductive single_step ::
  "('k, 'w::len, 'r, 'f) kernel \<Rightarrow> ('k \<Rightarrow> gint \<Rightarrow> bool) \<Rightarrow> ('k, 'w, 'r, 'f, 'z) wait_machine \<Rightarrow>
     ('k, 'w, 'r, 'f, 'z) wait_machine \<Rightarrow> bool"
  for K due where
  single_waiter_runs: "server_ptrace_global_wait K m = Some m' \<Longrightarrow> single_step K due m m'"
| single_waiter_called: "waiter m = W_returned ret \<Longrightarrow> single_step K due m (m\<lparr> waiter := W_again, status_ret := None \<rparr>)"
| single_stopper_runs: "server_ptrace_stop_and_wait K t m = Some m' \<Longrightarrow> single_step K due m m'"
| single_stopper_called: "\<forall>u. \<not> stopper_active (stoppers m u) \<Longrightarrow> 0 < sint (inf_pid (inferior h)) \<Longrightarrow>
     single_step K due m (set_stopper t S_lock2 (m\<lparr> handles := (handles m)(t := h) \<rparr>))"
| single_kernel_runs: "\<forall>pid. due (wait_kern m) pid \<longrightarrow> due k pid \<Longrightarrow> single_step K due m (m\<lparr> wait_kern := k \<rparr>)"

lemma single_step_wait_step: "single_step K due m m' \<Longrightarrow> wait_step K m m'"
proof (induction rule: single_step.induct)
  case (single_stopper_called m h t)
  then have "stoppers m t = S_idle \<or> (\<exists>result status. stoppers m t = S_returned result status)"
    by (cases "stoppers m t") (auto dest: spec [of _ t])
  then show ?case using single_stopper_called(2) by (blast intro: stopper_called)
qed (auto intro: wait_step.intros)

lemma single_steps_wait_steps: "(single_step K due)\<^sup>*\<^sup>* m m' \<Longrightarrow> (wait_step K)\<^sup>*\<^sup>* m m'"
  by (induction rule: rtranclp_induct) (auto dest: single_step_wait_step intro: rtranclp.rtrancl_into_rtrancl)

definition one_active :: "('k, 'h) wait_state \<Rightarrow> bool" where
  "one_active m \<longleftrightarrow> (\<forall>t u. stopper_active (stoppers m t) \<longrightarrow> stopper_active (stoppers m u) \<longrightarrow> t = u)"

text \<open>From the \<open>SIGSTOP\<close> on, until the call has a status or has failed.\<close>

fun awaits_stop :: "stop_and_wait_pc \<Rightarrow> bool" where
  "awaits_stop (S_lock3 already_stopped) = (\<not> already_stopped)"
| "awaits_stop (S_request already_stopped) = (\<not> already_stopped)"
| "awaits_stop (S_unlock2 already_stopped) = (\<not> already_stopped)"
| "awaits_stop (S_lock1 already_stopped) = (\<not> already_stopped)"
| "awaits_stop (S_test already_stopped) = (\<not> already_stopped)"
| "awaits_stop (S_wait already_stopped) = (\<not> already_stopped)"
| "awaits_stop _ = False"

text \<open>Where the event of a stopped thread is: due, taken by the waiter, or stored for the stopper.\<close>

definition on_its_way :: "('k \<Rightarrow> gint \<Rightarrow> bool) \<Rightarrow> ('k, 'h) wait_state \<Rightarrow> gint \<Rightarrow> bool" where
  "on_its_way due m pid \<longleftrightarrow> due (wait_kern m) pid \<or> (\<exists>st. waiter m \<in> {W_lock2 pid st, W_test pid st}) \<or>
     stop_status m \<noteq> 0 \<or> (pid, 0) \<in> set (reaped m)"

definition sent_ok :: "('k \<Rightarrow> gint \<Rightarrow> bool) \<Rightarrow> ('k, 'w::len, 'r, 'f, 'z) wait_machine \<Rightarrow> bool" where
  "sent_ok due m \<longleftrightarrow> one_active m \<and> (\<forall>t. awaits_stop (stoppers m t) \<longrightarrow> on_its_way due m (stopper_pid m t))"

lemma awaits_active: "awaits_stop pc \<Longrightarrow> stopper_active pc"
  by (cases pc) auto

lemma do_wait_due:
  assumes "stops_reported K due" and "due k pid" and "0 < pid" and "do_wait K k p st nohang = (ret, status, k')"
    and "ret \<noteq> pid"
  shows "due k' pid"
proof -
  obtain r k1 where w: "waitpid K k p nohang = (r, k1)" by fastforce
  have "k1 = k'" "r \<noteq> Inr (pid, status')" for status'
    using assms(3-5) w by (auto simp: do_wait_def split: sum.splits if_splits)
  then show ?thesis using assms(1,2) w unfolding stops_reported_def by blast
qed

lemma stop_due:
  fixes s :: "('k, 'w::len, 'r, 'f, 'z) x86_server"
  assumes "stops_reported K due" and "0 < sint (inf_pid (inferior s))"
    and e: "server_ptrace_stop (x86_arch_get_registers K) K s = (r, s')" and "r = COMMAND_ERROR_NONE"
  shows "due (kern s') (sint (inf_pid (inferior s)))"
proof -
  obtain r1 s1 where g: "x86_arch_get_registers K s = (r1, s1)" by fastforce
  have n: "r1 \<noteq> COMMAND_ERROR_NONE" using e g assms(4) by (auto simp: server_ptrace_stop_def)
  then have i: "inferior s1 = inferior s"
    using g by (auto simp: x86_arch_get_registers_def priv_server_ptrace_get_registers_def
      priv_server_ptrace_get_fp_registers_def priv_server_ptrace_get_dr_def Let_def split: prod.splits sum.splits if_splits)
  obtain k where "sys_tkill K (kern s1) (inf_pid (inferior s)) SIGSTOP = (Inr (), k)" "kern s' = k"
    using e g n i assms(4) by (auto simp: server_ptrace_stop_def split: prod.splits sum.splits if_splits)
  then show ?thesis using assms(1,2) unfolding stops_reported_def by blast
qed

lemma waiter_event_reaped:
  assumes "events_ok m" and "e \<in># waiter_event (waiter m)"
  shows "e \<in> set (reaped m)"
proof -
  obtain lost where "mset (reaped m) = accounted m + lost" using assms(1) unfolding events_ok_def by blast
  then have "e \<in># mset (reaped m)" using assms(2) by (simp add: accounted_def)
  then show ?thesis by simp
qed

lemma waiter_sent_ok:
  assumes step: "server_ptrace_global_wait K m = Some m'" and K: "stops_reported K due" and ok: "wait_ok m"
    and sent: "sent_ok due m"
  shows "sent_ok due m'"
proof -
  have keep: "stoppers m' = stoppers m" "handles m' = handles m"
    using step by (auto simp: server_ptrace_global_wait_def Let_def split: global_wait_pc.splits if_splits prod.splits)
  have "on_its_way due m' (stopper_pid m t)" if t: "awaits_stop (stoppers m t)" for t
  proof -
    let ?pid = "stopper_pid m t"
    have way: "on_its_way due m ?pid" using sent t by (simp add: sent_ok_def)
    have pos: "0 < ?pid" using ok awaits_active [OF t] by (simp add: wait_ok_def request_ok_def)
    show ?thesis
    proof (cases "waiter m")
      case W_wait
      obtain ret status k where w: "do_wait K (wait_kern m) (-1) 0 False = (ret, status, k)"
        by (metis prod_cases3)
      have "due (wait_kern m) ?pid \<longrightarrow> ret = ?pid \<or> due k ?pid" using do_wait_due [OF K _ pos w] by blast
      then show ?thesis using way W_wait step pos w
        by (auto simp: server_ptrace_global_wait_def on_its_way_def Let_def split: if_splits)
    next
      case (W_test ret status)
      have "ret = stop_requested m" if "ret = ?pid"
      proof -
        have "\<not> stopper_holds_2 (stoppers m t) \<and> \<not> stopper_holds_1 (stoppers m t)"
          using ok W_test unfolding wait_ok_def locks_ok_def owned_def by auto
        then have "stopper_requests (stoppers m t)" using t by (cases "stoppers m t") auto
        then show ?thesis using ok that by (simp add: wait_ok_def request_ok_def)
      qed
      moreover have "(ret, status) \<in> set (reaped m)"
        using ok W_test by (auto simp: wait_ok_def intro: waiter_event_reaped)
      moreover have "stop_status m = 0" using ok W_test by (auto simp: wait_ok_def request_ok_def)
      ultimately show ?thesis using way W_test step
        by (auto simp: server_ptrace_global_wait_def on_its_way_def split: if_splits)
    qed (use way step in \<open>auto simp: server_ptrace_global_wait_def on_its_way_def split: if_splits\<close>)
  qed
  then show ?thesis using sent keep by (simp add: sent_ok_def one_active_def)
qed

lemma one_active_set:
  assumes "one_active m" and "stopper_active (stoppers m t)" and "stoppers m' = (stoppers m)(t := pc)"
  shows "one_active m'"
  using assms unfolding one_active_def by (metis fun_upd_apply)

text \<open>A step of the one active stopper: what it has to show is where its own event is.\<close>

lemma sent_ok_step:
  assumes sent: "sent_ok due m" and act: "stopper_active (stoppers m t)" and "stoppers m' = (stoppers m)(t := pc)"
    and "awaits_stop pc \<Longrightarrow> on_its_way due m' (stopper_pid m' t)"
  shows "sent_ok due m'"
proof -
  have "u = t" if "awaits_stop (stoppers m' u)" for u
    using sent act that assms(3) awaits_active unfolding sent_ok_def one_active_def by (metis fun_upd_apply)
  then show ?thesis using assms one_active_set [OF _ act assms(3)] by (metis fun_upd_same sent_ok_def)
qed

lemma stopper_sent_ok:
  assumes step: "server_ptrace_stop_and_wait K t m = Some m'" and K: "stops_reported K due" and ok: "wait_ok m"
    and sent: "sent_ok due m"
  shows "sent_ok due m'"
proof -
  have act: "stopper_active (stoppers m t)" using step by (cases "stoppers m t") (auto simp: server_ptrace_stop_and_wait_def)
  then have pos: "0 < stopper_pid m t" using ok by (simp add: wait_ok_def request_ok_def)
  have way: "on_its_way due m (stopper_pid m t)" if "awaits_stop (stoppers m t)"
    using sent that by (simp add: sent_ok_def)
  have w1: "\<not> waiter_holds_1 (waiter m)" if "stopper_holds_1 (stoppers m t)"
    using ok owned_unique(1) that unfolding wait_ok_def locks_ok_def by metis
  note intro = sent_ok_step [OF sent act]
  show ?thesis
  proof (cases "stoppers m t")
    case S_stop
    let ?h = "(handles m t)\<lparr> kern := wait_kern m \<rparr>"
    obtain r s where e: "server_ptrace_stop (x86_arch_get_registers K) K ?h = (r, s)" by fastforce
    have i: "inferior s = inferior (handles m t)" using stop_keeps_inferior [OF e] by simp
    have "due (kern s) (stopper_pid m t)" if "r = COMMAND_ERROR_NONE" using stop_due [OF K _ e that] pos by simp
    then show ?thesis using step S_stop i
      by (auto simp: server_ptrace_stop_and_wait_def e set_stopper_def Let_def on_its_way_def split: if_splits intro!: intro)
  next
    case (S_test a)
    have "waiter m \<noteq> W_lock2 r st" "waiter m \<noteq> W_test r st" for r st using w1 S_test by auto
    then show ?thesis using step S_test way
      by (auto simp: server_ptrace_stop_and_wait_def set_stopper_def on_its_way_def split: if_splits intro!: intro)
  next
    case (S_wait a)
    obtain ret status k where w: "do_wait K (wait_kern m) (stopper_pid m t) 0 a = (ret, status, k)" by (metis prod_cases3)
    have d: "due k (stopper_pid m t)" if "due (wait_kern m) (stopper_pid m t)" "ret = 0"
      by (rule do_wait_due [OF K that(1) pos w]) (use pos that(2) in simp)
    show ?thesis
    proof (cases "ret = 0")
      case True
      then have m': "m' = m\<lparr> wait_kern := k \<rparr>"
        using step S_wait w by (auto simp: server_ptrace_stop_and_wait_def Let_def split: if_splits)
      show ?thesis by (rule intro [of _ "S_wait a"]) (use m' S_wait way d True in \<open>auto simp: on_its_way_def\<close>)
    next
      case False
      then show ?thesis using step S_wait w
        by (auto simp: server_ptrace_stop_and_wait_def set_stopper_def Let_def split: if_splits intro!: intro)
    qed
  qed (use step way in \<open>auto simp: server_ptrace_stop_and_wait_def set_stopper_def on_its_way_def split: if_splits intro!: intro\<close>)
qed

lemma single_steps_sent_ok:
  assumes "(single_step K due)\<^sup>*\<^sup>* (wait_initial k hs) m" and K: "stops_reported K due"
  shows "sent_ok due m"
  using assms(1)
proof (induction rule: rtranclp_induct)
  case base
  then show ?case by (simp add: sent_ok_def one_active_def wait_initial_def)
next
  case (step m m')
  have ok: "wait_ok m" by (rule wait_steps_ok [OF single_steps_wait_steps [OF step.hyps(1)] wait_ok_initial])
  from step.hyps(2) show ?case
  proof cases
    case single_waiter_runs
    then show ?thesis by (rule waiter_sent_ok [OF _ K ok step.IH])
  next
    case single_stopper_runs
    then show ?thesis by (rule stopper_sent_ok [OF _ K ok step.IH])
  next
    case single_waiter_called
    then show ?thesis using step.IH by (auto simp: sent_ok_def one_active_def on_its_way_def)
  next
    case single_stopper_called
    then show ?thesis using awaits_active by (auto simp: sent_ok_def one_active_def set_stopper_def)
  next
    case single_kernel_runs
    then show ?thesis using step.IH by (auto simp: sent_ok_def one_active_def on_its_way_def)
  qed
qed

text \<open>
  C16. With one call of \<open>stop_and_wait\<close> at a time, and a kernel that reports a thread it was told to stop, there
  is no deadlock, although the waiting thread keeps \<open>wait_mutex\<close> while it is suspended in \<open>waitpid\<close>: in
  every reachable state in which the stopper \<open>t\<close> is active, it can take a step, or the waiting thread
  can. Two cases are left out: the target was already stopped when the call was made, and its event was
  an exit with status zero that \<open>waitpid\<close> has reported before.
\<close>

theorem one_stopper_no_deadlock:
  assumes reach: "(single_step K due)\<^sup>*\<^sup>* (wait_initial k hs) m" and K: "stops_reported K due"
    and active: "stopper_active (stoppers m t)" and "stoppers m t \<noteq> S_lock1 True"
    and "(sint (inf_pid (inferior (handles m t))), 0) \<notin> set (reaped m)"
  shows "server_ptrace_stop_and_wait K t m \<noteq> None \<or> server_ptrace_global_wait K m \<noteq> None"
proof (rule ccontr)
  assume "\<not> ?thesis"
  then have s: "server_ptrace_stop_and_wait K t m = None" and w: "server_ptrace_global_wait K m = None" by auto
  have sent: "sent_ok due m" by (rule single_steps_sent_ok [OF reach K])
  then have others: "\<not> stopper_active (stoppers m u)" if "u \<noteq> t" for u
    using active that unfolding sent_ok_def one_active_def by blast
  have ok: "wait_ok m" by (rule wait_steps_ok [OF single_steps_wait_steps [OF reach] wait_ok_initial])
  then have l: "owned (wait_mutex m) (waiter_holds_1 (waiter m)) stopper_holds_1 (stoppers m)"
    "owned (wait_mutex_2 m) (waiter_holds_2 (waiter m)) stopper_holds_2 (stoppers m)"
    "owned (wait_mutex_3 m) (waiter m = W_unlock3) stopper_holds_3 (stoppers m)"
    by (simp_all add: wait_ok_def locks_ok_def)
  have other: "\<not> stopper_holds_1 (stoppers m u)" "\<not> stopper_holds_2 (stoppers m u)" "\<not> stopper_holds_3 (stoppers m u)"
    if "u \<noteq> t" for u using others inactive_holds that by blast+
  note by_waiter = held_by_waiter [OF l(1) _ _ other(1)] held_by_waiter [OF l(2) _ _ other(2)]
    held_by_waiter [OF l(3) _ _ other(3)]
  have way: "due (wait_kern m) (stopper_pid m t) \<or> (\<exists>st. waiter m \<in> {W_lock2 (stopper_pid m t) st, W_test (stopper_pid m t) st}) \<or>
      waiter m \<in> {W_requested_unlock2, W_requested_unlock1, W_lock3} \<and> stop_requested m \<noteq> 0" if "awaits_stop (stoppers m t)"
    using sent ok that assms(5) unfolding sent_ok_def on_its_way_def wait_ok_def request_ok_def by blast
  have due: "\<not> waitpid_blocks K (wait_kern m) (stopper_pid m t) \<and> \<not> waitpid_blocks K (wait_kern m) (-1)"
    if "due (wait_kern m) (stopper_pid m t)" using K that unfolding stops_reported_def by blast
  from stopper_blocked [OF s active] consider
      (2) "stoppers m t = S_lock2" "wait_mutex_2 m \<noteq> None"
    | (3) b where "stoppers m t = S_lock3 b" "wait_mutex_3 m \<noteq> None"
    | (1) b where "stoppers m t = S_lock1 b" "wait_mutex m \<noteq> None"
    | (wait) "stoppers m t = S_wait False" "waitpid_blocks K (wait_kern m) (stopper_pid m t)" by blast
  then show False
  proof cases
    case 2
    then have "waiter_holds_2 (waiter m)" by (intro by_waiter(2) [of t]) simp_all
    then show False using waiter_blocked [OF w] by auto
  next
    case 3
    then have "waiter m = W_unlock3" by (intro by_waiter(3) [of t]) simp_all
    then show False using waiter_blocked [OF w] by auto
  next
    case 1
    then have "waiter_holds_1 (waiter m)" by (intro by_waiter(1) [of t]) simp_all
    moreover have "waiter_holds_2 (waiter m)" if "wait_mutex_2 m \<noteq> None"
      using 1 that by (intro by_waiter(2) [of t]) simp_all
    ultimately show False using waiter_blocked [OF w] way due 1 assms(4) by auto
  next
    case wait
    then have "\<not> waiter_holds_1 (waiter m)" using l(1) owned_unique(1) by (metis stopper_holds_1.simps(2))
    moreover have "stop_requested m = 0"
      using no_request [of m t] ok wait unfolding wait_ok_def by (simp add: wait_ok_def)
    ultimately show False using way due wait by auto
  qed
qed

text \<open>A kernel with one stop event for everyone who asks, and in which no process is stopped yet.\<close>

definition busy_kernel :: "((64, x86_64_regs, unit) flat, 64, x86_64_regs, unit) kernel" where
  "busy_kernel = flat_kernel\<lparr> ptrace_getregs := (\<lambda>k pid. (Inl ESRCH, k)), proc_stat_exists := (\<lambda>k pid. True),
     waitpid := (\<lambda>k pid nohang. (Inr (if pid = -1 then 1000 else pid, 0x137f), k)) \<rparr>"

lemma busy_kernel_fields [simp]:
  "waitpid busy_kernel k p nohang = (Inr (if p = -1 then 1000 else p, 0x137f), k)"
  "sys_tkill busy_kernel k pid sig = (Inr (), k)"
  "ptrace_getregs busy_kernel k pid = (Inl ESRCH, k)"
  "proc_stat_exists busy_kernel k pid"
  by (simp_all add: busy_kernel_def flat_kernel_def)

lemma busy_waitpid_selects: "waitpid_selects busy_kernel"
  by (auto simp: waitpid_selects_def)

lemma busy_stop [simp]:
  "server_ptrace_stop (x86_arch_get_registers busy_kernel) busy_kernel s = (COMMAND_ERROR_NONE, s)"
  by (simp add: server_ptrace_stop_def x86_arch_get_registers_def priv_server_ptrace_get_registers_def Let_def
      priv_server_ptrace_check_errno_def)

lemma busy_blocks [simp]: "waitpid_blocks busy_kernel k p \<longleftrightarrow> p = 0"
  by (simp add: waitpid_blocks_def)

lemma busy_stops_reported: "stops_reported busy_kernel (\<lambda>k pid. 0 < pid)"
  by (auto simp: stops_reported_def)

text \<open>A run under a given schedule.\<close>

fun wait_run ::
  "('k, 'w::len, 'r, 'f) kernel \<Rightarrow> wait_thread list \<Rightarrow> ('k, 'w, 'r, 'f, 'z) wait_machine \<Rightarrow>
     ('k, 'w, 'r, 'f, 'z) wait_machine option" where
  "wait_run K [] m = Some m"
| "wait_run K (Waiter # ts) m = (case server_ptrace_global_wait K m of None \<Rightarrow> None | Some m' \<Rightarrow> wait_run K ts m')"
| "wait_run K (Stopper t # ts) m =
     (case server_ptrace_stop_and_wait K t m of None \<Rightarrow> None | Some m' \<Rightarrow> wait_run K ts m')"

lemma wait_run_single: "wait_run K ts m = Some m' \<Longrightarrow> (single_step K due)\<^sup>*\<^sup>* m m'"
  by (induction K ts m rule: wait_run.induct)
    (auto split: option.splits intro: converse_rtranclp_into_rtranclp single_waiter_runs single_stopper_runs)

lemma wait_run_steps: "wait_run K ts m = Some m' \<Longrightarrow> (wait_step K)\<^sup>*\<^sup>* m m'"
  using wait_run_single single_steps_wait_steps by blast

abbreviation handle_of :: "guint32 \<Rightarrow> ((64, x86_64_regs, unit) flat, unit) x86_64_server" where
  "handle_of pid \<equiv> server64\<lparr> inferior := (inferior server64)\<lparr> inf_pid := pid \<rparr> \<rparr>"

abbreviation idle :: "((64, x86_64_regs, unit) flat, ((64, x86_64_regs, unit) flat, unit) x86_64_server) wait_state" where
  "idle \<equiv> wait_initial flat64 (\<lambda>t. if t = 0 then handle_of 1000 else handle_of 1001)"

definition called :: "nat \<Rightarrow> ('k, 'h) wait_state \<Rightarrow> ('k, 'h) wait_state" where
  "called t m = set_stopper t S_lock2 (m\<lparr> handles := (handles m)(t := handles m t) \<rparr>)"

lemma called_steps:
  assumes "stoppers m t = S_idle" and "0 < stopper_pid m t"
  shows "wait_step K m (called t m)"
  using stopper_called [of m t _ _ "handles m t" K] assms by (simp add: called_def)

lemma idle_called: "(wait_step busy_kernel)\<^sup>*\<^sup>* idle (called 0 idle)"
  "(wait_step busy_kernel)\<^sup>*\<^sup>* idle (called 1 (called 0 idle))"
proof -
  have 0: "wait_step busy_kernel idle (called 0 idle)"
    by (rule called_steps) (simp_all add: wait_initial_def)
  moreover have "wait_step busy_kernel (called 0 idle) (called 1 (called 0 idle))"
    by (rule called_steps) (simp_all add: wait_initial_def called_def set_stopper_def)
  ultimately show "(wait_step busy_kernel)\<^sup>*\<^sup>* idle (called 0 idle)"
    "(wait_step busy_kernel)\<^sup>*\<^sup>* idle (called 1 (called 0 idle))" by (auto intro: rtranclp.rtrancl_into_rtrancl)
qed

lemmas wait_run_simps = wait_initial_def called_def set_stopper_def server_ptrace_global_wait_def
  server_ptrace_stop_and_wait_def do_wait_def

lemma idle_called_single: "single_step K due idle (called 0 idle)"
  using single_stopper_called [of idle "handles idle 0" K due 0] by (simp add: called_def wait_initial_def)

theorem one_stopper_no_deadlock_witness:
  "\<exists>m. (single_step busy_kernel (\<lambda>k pid. 0 < pid))\<^sup>*\<^sup>* idle m \<and> stoppers m 0 = S_lock1 False \<and> waiter m = W_wait \<and>
     server_ptrace_stop_and_wait busy_kernel 0 m = None \<and> server_ptrace_global_wait busy_kernel m \<noteq> None"
proof -
  let ?ts = "[Waiter, Stopper 0, Stopper 0, Stopper 0, Stopper 0, Stopper 0]"
  obtain m where m: "wait_run busy_kernel ?ts (called 0 idle) = Some m" "stoppers m 0 = S_lock1 False" "waiter m = W_wait"
    "wait_mutex m \<noteq> None" "reaped m = []"
    by (simp add: wait_run_simps)
  have r: "(single_step busy_kernel (\<lambda>k pid. 0 < pid))\<^sup>*\<^sup>* idle m"
    by (rule converse_rtranclp_into_rtranclp [OF idle_called_single wait_run_single [OF m(1)]])
  have blocked: "server_ptrace_stop_and_wait busy_kernel 0 m = None" using m by (auto simp: server_ptrace_stop_and_wait_def)
  have "server_ptrace_stop_and_wait busy_kernel 0 m \<noteq> None \<or> server_ptrace_global_wait busy_kernel m \<noteq> None"
    by (rule one_stopper_no_deadlock [OF r busy_stops_reported]) (use m in simp_all)
  with r blocked m show ?thesis by blast
qed

text \<open>
  C17. Two calls of \<open>stop_and_wait\<close> at a time can deadlock with the waiting thread: one stopper holds
  \<open>wait_mutex_3\<close> and wants \<open>wait_mutex\<close>, the other holds \<open>wait_mutex_2\<close> and wants \<open>wait_mutex_3\<close>, the
  waiter holds \<open>wait_mutex\<close> and wants \<open>wait_mutex_2\<close>. Nothing the kernel does can help.
\<close>

theorem two_stoppers_deadlock:
  "\<exists>m. (wait_step busy_kernel)\<^sup>*\<^sup>* idle m \<and> stopper_active (stoppers m 0) \<and> stopper_active (stoppers m 1) \<and>
     (\<forall>k. server_ptrace_global_wait busy_kernel (m\<lparr> wait_kern := k \<rparr>) = None \<and>
          server_ptrace_stop_and_wait busy_kernel 0 (m\<lparr> wait_kern := k \<rparr>) = None \<and>
          server_ptrace_stop_and_wait busy_kernel 1 (m\<lparr> wait_kern := k \<rparr>) = None)"
proof -
  let ?ts = "[Waiter, Stopper 0, Stopper 0, Stopper 0, Stopper 0, Stopper 0, Stopper 1, Stopper 1, Waiter]"
  obtain m where m: "wait_run busy_kernel ?ts (called 1 (called 0 idle)) = Some m" "stoppers m 0 = S_lock1 False"
    "stoppers m 1 = S_lock3 False" "waiter m = W_lock2 1000 0x137f"
    "wait_mutex m \<noteq> None" "wait_mutex_2 m \<noteq> None" "wait_mutex_3 m \<noteq> None"
    by (simp add: wait_run_simps)
  have "(wait_step busy_kernel)\<^sup>*\<^sup>* idle m" using idle_called(2) wait_run_steps [OF m(1)] by simp
  then show ?thesis using m
    by (intro exI [of _ m]) (simp add: server_ptrace_global_wait_def server_ptrace_stop_and_wait_def)
qed

section \<open>Events\<close>

text \<open>The waiter takes the event of process 1000 before the stopper that asked for it can.\<close>

definition handed_over :: "wait_thread list" where
  "handed_over = [Waiter, Stopper 0, Stopper 0, Stopper 0, Stopper 0, Stopper 0,
     Waiter, Waiter, Waiter, Waiter, Waiter, Stopper 0, Stopper 0, Stopper 0, Stopper 0]"

lemma handed_over_run:
  obtains m where "wait_run busy_kernel handed_over (called 0 idle) = Some m" "(wait_step busy_kernel)\<^sup>*\<^sup>* idle m"
    "stoppers m 0 = S_returned COMMAND_ERROR_NONE (Some 0x137f)" "stopper_pid m 0 = 1000"
    "reaped m = [(1000, 0x137f)]" "reported m = []" "stopped m = [(1000, 0x137f)]" "waiter m = W_lock3"
proof -
  obtain m where m: "wait_run busy_kernel handed_over (called 0 idle) = Some m"
    "stoppers m 0 = S_returned COMMAND_ERROR_NONE (Some 0x137f)" "stopper_pid m 0 = 1000"
    "reaped m = [(1000, 0x137f)]" "reported m = []" "stopped m = [(1000, 0x137f)]" "waiter m = W_lock3"
    by (simp add: handed_over_def wait_run_simps)
  moreover have "(wait_step busy_kernel)\<^sup>*\<^sup>* idle m" using idle_called(1) wait_run_steps [OF m(1)] by simp
  ultimately show thesis using that by blast
qed

text \<open>
  C13. Whatever the threads and the kernel do, every event that either function got from \<open>waitpid\<close> is
  accounted for, each as often as it was reported: it was stored for the caller of \<open>global_wait\<close>, stored
  for a caller of \<open>stop_and_wait\<close>, or it is on the way between the two. So none is delivered twice.
  The only events that can be \<open>lost\<close> have status zero, the exit of a process with code zero.
\<close>

theorem wait_events_delivered_once:
  assumes "(wait_step K)\<^sup>*\<^sup>* (wait_initial k hs) m"
  shows "\<exists>lost. mset (reaped m) = mset (reported m) + mset (stopped m) + waiter_event (waiter m) +
      (if stop_status m \<noteq> 0 then {#(stop_requested m, stop_status m)#} else {#}) + lost \<and> (\<forall>e \<in># lost. snd e = 0)"
  using wait_steps_ok [OF assms wait_ok_initial]
  unfolding wait_ok_def events_ok_def event_simps by blast

theorem wait_events_delivered_once_witness:
  "\<exists>m lost. (wait_step busy_kernel)\<^sup>*\<^sup>* idle m \<and> reaped m = [(1000, 0x137f)] \<and> mset (stopped m) = {#(1000, 0x137f)#} \<and>
     mset (reaped m) = mset (reported m) + mset (stopped m) + waiter_event (waiter m) +
       (if stop_status m \<noteq> 0 then {#(stop_requested m, stop_status m)#} else {#}) + lost \<and> (\<forall>e \<in># lost. snd e = 0)"
proof -
  obtain m where m: "(wait_step busy_kernel)\<^sup>*\<^sup>* idle m" "reaped m = [(1000, 0x137f)]" "stopped m = [(1000, 0x137f)]"
    by (rule handed_over_run)
  then have "mset (stopped m) = {#(1000, 0x137f)#}" by simp
  with m(1,2) wait_events_delivered_once [OF m(1)] show ?thesis by blast
qed

text \<open>
  An event with status zero can be lost: process 1000, which a stopper has asked for, exits with code zero, the
  waiter stores its status in \<open>stop_status\<close>, where the stopper takes it for none, waits for
  the process itself and finds that it is no more. Nobody is told of the exit.
\<close>

definition exit_kernel :: "((64, x86_64_regs, unit) flat, 64, x86_64_regs, unit) kernel" where
  "exit_kernel = busy_kernel\<lparr> waitpid := (\<lambda>k pid nohang. (if pid = -1 then Inr (1000, 0) else Inl ECHILD, k)) \<rparr>"

lemma exit_kernel_fields [simp]:
  "waitpid exit_kernel k p nohang = (if p = -1 then Inr (1000, 0) else Inl ECHILD, k)"
  "sys_tkill exit_kernel k pid sig = (Inr (), k)"
  "ptrace_getregs exit_kernel k pid = (Inl ESRCH, k)"
  "proc_stat_exists exit_kernel k pid"
  "waitpid_blocks exit_kernel k p = False"
  by (simp_all add: exit_kernel_def busy_kernel_def flat_kernel_def waitpid_blocks_def)

lemma exit_stop [simp]:
  "server_ptrace_stop (x86_arch_get_registers exit_kernel) exit_kernel s = (COMMAND_ERROR_NONE, s)"
  by (simp add: server_ptrace_stop_def x86_arch_get_registers_def priv_server_ptrace_get_registers_def Let_def
      priv_server_ptrace_check_errno_def)

theorem exit_status_lost:
  "\<exists>m. (wait_step exit_kernel)\<^sup>*\<^sup>* idle m \<and> stoppers m 0 = S_returned COMMAND_ERROR_NO_TARGET None \<and>
     reaped m = [(1000, 0)] \<and> reported m = [] \<and> stopped m = [] \<and> waiter m = W_lock3 \<and> stop_status m = 0"
proof -
  obtain m where m: "wait_run exit_kernel (handed_over @ [Stopper 0]) (called 0 idle) = Some m"
    "stoppers m 0 = S_returned COMMAND_ERROR_NO_TARGET None" "reaped m = [(1000, 0)]" "reported m = []" "stopped m = []"
    "waiter m = W_lock3" "stop_status m = 0"
    by (simp add: handed_over_def wait_run_simps)
  have "(wait_step exit_kernel)\<^sup>*\<^sup>* idle m"
    using single_step_wait_step [OF idle_called_single] wait_run_steps [OF m(1)] by (rule converse_rtranclp_into_rtranclp)
  with m show ?thesis by blast
qed

lemma wait_results_ok:
  assumes "(wait_step K)\<^sup>*\<^sup>* (wait_initial k hs) m" and sel: "waitpid_selects K"
  shows "results_ok m"
  using assms(1)
proof (induction rule: rtranclp_induct)
  case base
  then show ?case by (simp add: results_ok_def wait_initial_def)
next
  case (step m m')
  have inv: "wait_ok m" using wait_steps_ok [OF step.hyps(1) wait_ok_initial] .
  from step.hyps(2) show ?case
  proof cases
    case waiter_runs
    then show ?thesis by (rule waiter_results_ok [OF _ step.IH])
  next
    case stopper_runs
    then show ?thesis by (rule stopper_results_ok [OF _ sel inv step.IH])
  next
    case (stopper_called t result status h)
    then show ?thesis using step.IH by (auto simp: results_ok_def set_stopper_def)
  qed (use step.IH in \<open>simp_all add: results_ok_def\<close>)
qed

text \<open>
  C14. A call of \<open>stop_and_wait\<close> that returns \<open>COMMAND_ERROR_NONE\<close> has a status for its caller, and it is
  one that \<open>waitpid\<close> reported for the process of its own handle, also when the waiting thread got
  the event, and with any number of calls at a time.
\<close>

theorem stop_and_wait_own_event:
  assumes "(wait_step K)\<^sup>*\<^sup>* (wait_initial k hs) m" and "waitpid_selects K"
    and "stoppers m t = S_returned COMMAND_ERROR_NONE status"
  shows "\<exists>st. status = Some st \<and> (sint (inf_pid (inferior (handles m t))), st) \<in> set (reaped m)"
  using wait_results_ok [OF assms(1,2)] assms(3) unfolding results_ok_def by (metis stopper_result.simps(3))

theorem stop_and_wait_own_event_witness:
  "\<exists>m. (wait_step busy_kernel)\<^sup>*\<^sup>* idle m \<and> stoppers m 0 = S_returned COMMAND_ERROR_NONE (Some 0x137f) \<and>
     (1000, 0x137f) \<in> set (reaped m)"
proof -
  obtain m where m: "(wait_step busy_kernel)\<^sup>*\<^sup>* idle m" "stoppers m 0 = S_returned COMMAND_ERROR_NONE (Some 0x137f)"
    "stopper_pid m 0 = 1000"
    by (rule handed_over_run)
  show ?thesis using stop_and_wait_own_event [OF m(1) busy_waitpid_selects m(2)] m by auto
qed

text \<open>The points of \<open>global_wait\<close> past its test of \<open>stop_requested\<close>, on the way to return \<open>pid\<close>.\<close>

fun waiter_returns :: "gint \<Rightarrow> global_wait_pc \<Rightarrow> bool" where
  "waiter_returns pid (W_unlock2 ret status) = (ret = pid)"
| "waiter_returns pid (W_store ret status) = (ret = pid)"
| "waiter_returns pid (W_out ret) = (ret = pid)"
| "waiter_returns pid (W_returned ret) = (ret = pid)"
| "waiter_returns pid _ = False"

text \<open>A step after which \<open>t\<close>'s request is still on.\<close>

definition requested_step ::
  "('k, 'w::len, 'r, 'f) kernel \<Rightarrow> nat \<Rightarrow> ('k, 'w, 'r, 'f, 'z) wait_machine \<Rightarrow> ('k, 'w, 'r, 'f, 'z) wait_machine \<Rightarrow> bool" where
  "requested_step K t m m' \<longleftrightarrow> wait_step K m m' \<and> stopper_requests (stoppers m' t)"

lemma requests_same_handle:
  assumes "wait_step K m m'" and "stopper_requests (stoppers m t)"
  shows "handles m' t = handles m t"
  using assms(1)
proof cases
  case waiter_runs
  then show ?thesis
    by (auto simp: server_ptrace_global_wait_def Let_def split: global_wait_pc.splits if_splits prod.splits)
next
  case (stopper_runs u)
  have "stoppers m u \<noteq> S_stop \<or> u \<noteq> t" using assms(2) by auto
  with stopper_runs show ?thesis
    by (cases "stoppers m u")
      (auto simp: server_ptrace_stop_and_wait_def set_stopper_def Let_def split: if_splits prod.splits)
qed (use assms(2) in \<open>auto simp: set_stopper_def\<close>)

lemma requested_step_keeps:
  assumes "wait_step K m m'" and ok: "request_ok m" and req: "stopper_requests (stoppers m t)"
    and "\<not> waiter_returns (stopper_pid m t) (waiter m)"
  shows "\<not> waiter_returns (stopper_pid m t) (waiter m')"
    and "\<exists>new. reported m' = reported m @ new \<and> (\<forall>e \<in> set new. fst e \<noteq> stopper_pid m t)"
proof -
  have "stopper_active (stoppers m t)" using req by (cases "stoppers m t") auto
  with ok req have r: "stop_requested m = stopper_pid m t" "0 < stopper_pid m t" by (auto simp: request_ok_def)
  have "\<not> waiter_returns (stopper_pid m t) (waiter m') \<and>
      (\<exists>new. reported m' = reported m @ new \<and> (\<forall>e \<in> set new. fst e \<noteq> stopper_pid m t))"
    using assms(1)
  proof cases
    case waiter_runs
    then show ?thesis using r assms(4)
      by (cases "waiter m") (auto simp: server_ptrace_global_wait_def Let_def split: if_splits prod.splits)
  next
    case (stopper_runs u)
    then have "reported m' = reported m \<and> waiter m' = waiter m"
      by (cases "stoppers m u")
        (auto simp: server_ptrace_stop_and_wait_def set_stopper_def Let_def split: if_splits prod.splits)
    then show ?thesis using assms(4) by simp
  qed (use assms(4) in \<open>auto simp: set_stopper_def\<close>)
  then show "\<not> waiter_returns (stopper_pid m t) (waiter m')"
    and "\<exists>new. reported m' = reported m @ new \<and> (\<forall>e \<in> set new. fst e \<noteq> stopper_pid m t)" by blast+
qed

text \<open>
  C15. Once a stopper has set \<open>stop_requested\<close>, and if \<open>global_wait\<close> is not already past its test of
  it with an event of the stopper's process, then for as long as the request is on, whatever the threads and the kernel
  do, \<open>global_wait\<close> is never about to return an event of this process, and its caller gets none. (An event
  that was tested before the request was set is still returned while it is on.)
\<close>

theorem requested_thread_not_reported:
  assumes "(wait_step K)\<^sup>*\<^sup>* (wait_initial k hs) m" and "stopper_requests (stoppers m t)"
    and "\<not> waiter_returns (sint (inf_pid (inferior (handles m t)))) (waiter m)"
    and "(requested_step K t)\<^sup>*\<^sup>* m m'"
  shows "\<not> waiter_returns (sint (inf_pid (inferior (handles m t)))) (waiter m') \<and>
    (\<exists>new. reported m' = reported m @ new \<and> (\<forall>e \<in> set new. fst e \<noteq> sint (inf_pid (inferior (handles m t)))))"
proof -
  have "\<not> waiter_returns (stopper_pid m t) (waiter m') \<and>
    (\<exists>new. reported m' = reported m @ new \<and> (\<forall>e \<in> set new. fst e \<noteq> stopper_pid m t)) \<and>
    wait_ok m' \<and> handles m' t = handles m t \<and> stopper_requests (stoppers m' t)"
    using assms(4)
  proof (induction rule: rtranclp_induct)
    case base
    then show ?case using assms(2,3) wait_steps_ok [OF assms(1) wait_ok_initial] by simp
  next
    case (step m1 m2)
    from step.hyps(2) have s: "wait_step K m1 m2" "stopper_requests (stoppers m2 t)" by (simp_all add: requested_step_def)
    from step.IH have req: "stopper_requests (stoppers m1 t)" and ok: "wait_ok m1" "request_ok m1"
      and h: "handles m1 t = handles m t" by (simp_all add: wait_ok_def)
    note keep = requested_step_keeps [OF s(1) ok(2) req, unfolded h]
    obtain new where "reported m1 = reported m @ new" "\<forall>e \<in> set new. fst e \<noteq> stopper_pid m t" using step.IH by blast
    moreover obtain new' where "reported m2 = reported m1 @ new'" "\<forall>e \<in> set new'. fst e \<noteq> stopper_pid m t"
      using keep(2) step.IH by blast
    ultimately have "reported m2 = reported m @ (new @ new')" "\<forall>e \<in> set (new @ new'). fst e \<noteq> stopper_pid m t" by auto
    moreover have "\<not> waiter_returns (stopper_pid m t) (waiter m2)" using keep(1) step.IH by blast
    ultimately show ?case using wait_step_ok [OF s(1) ok(1)] requests_same_handle [OF s(1) req] h s(2) by metis
  qed
  then show ?thesis by blast
qed

theorem requested_thread_not_reported_witness:
  "\<exists>m m'. (wait_step busy_kernel)\<^sup>*\<^sup>* idle m \<and> stoppers m 0 = S_unlock2 False \<and> waiter m = W_lock2 1000 0x137f \<and>
     (requested_step busy_kernel 0)\<^sup>*\<^sup>* m m' \<and> waiter m' = W_lock3 \<and> \<not> waiter_returns 1000 (waiter m') \<and>
     (\<exists>new. reported m' = reported m @ new \<and> (\<forall>e \<in> set new. fst e \<noteq> 1000))"
proof -
  let ?ts = "[Waiter, Waiter, Stopper 0, Stopper 0, Stopper 0, Stopper 0]"
  obtain m where m: "wait_run busy_kernel ?ts (called 0 idle) = Some m" "stoppers m 0 = S_unlock2 False"
    "waiter m = W_lock2 1000 0x137f" "stopper_pid m 0 = 1000" "wait_mutex_2 m = Some (Stopper 0)" "stop_requested m = 1000"
    by (simp add: wait_run_simps)
  have r: "(wait_step busy_kernel)\<^sup>*\<^sup>* idle m" using idle_called(1) wait_run_steps [OF m(1)] by simp
  obtain m1 where m1: "server_ptrace_stop_and_wait busy_kernel 0 m = Some m1" "stoppers m1 0 = S_lock1 False"
    "waiter m1 = W_lock2 1000 0x137f" "wait_mutex_2 m1 = None" "stop_requested m1 = 1000"
    using m by (simp add: server_ptrace_stop_and_wait_def set_stopper_def)
  obtain m2 where m2: "server_ptrace_global_wait busy_kernel m1 = Some m2" "stoppers m2 0 = S_lock1 False"
    "waiter m2 = W_test 1000 0x137f" "stop_requested m2 = 1000"
    using m1 by (simp add: server_ptrace_global_wait_def)
  obtain m3 where m3: "server_ptrace_global_wait busy_kernel m2 = Some m3" "stoppers m3 0 = S_lock1 False"
    "waiter m3 = W_requested_unlock2"
    using m2 by (simp add: server_ptrace_global_wait_def)
  obtain m4 where m4: "server_ptrace_global_wait busy_kernel m3 = Some m4" "stoppers m4 0 = S_lock1 False"
    "waiter m4 = W_requested_unlock1"
    using m3 by (simp add: server_ptrace_global_wait_def)
  obtain m' where m': "server_ptrace_global_wait busy_kernel m4 = Some m'" "stoppers m' 0 = S_lock1 False"
    "waiter m' = W_lock3"
    using m4 by (simp add: server_ptrace_global_wait_def)
  have "requested_step busy_kernel 0 m m1" "requested_step busy_kernel 0 m1 m2" "requested_step busy_kernel 0 m2 m3"
    "requested_step busy_kernel 0 m3 m4" "requested_step busy_kernel 0 m4 m'"
    using m1 m2 m3 m4 m' by (auto simp: requested_step_def intro: waiter_runs stopper_runs)
  then have run: "(requested_step busy_kernel 0)\<^sup>*\<^sup>* m m'" by (meson converse_rtranclp_into_rtranclp rtranclp.rtrancl_refl)
  have "\<not> waiter_returns 1000 (waiter m') \<and> (\<exists>new. reported m' = reported m @ new \<and> (\<forall>e \<in> set new. fst e \<noteq> 1000))"
    using requested_thread_not_reported [OF r _ _ run] m by simp
  with r m(2,3) run m'(3) show ?thesis by blast
qed

text \<open>
  If the thread was already stopped and the kernel has no event for it, because it was reported
  before, a stopper in its wait loop never leaves it, and keeps \<open>wait_mutex\<close> for good: \<open>waitpid\<close> is called
  with \<open>WNOHANG\<close>, and a result of zero is taken as a reason to call it again.
\<close>

theorem already_stopped_never_returns:
  assumes "(wait_step K)\<^sup>*\<^sup>* m m'" and "stoppers m t = S_wait True" and "wait_mutex m = Some (Stopper t)"
    and "locks_ok m" and "\<forall>k. \<exists>st k'. waitpid K k (sint (inf_pid (inferior (handles m t)))) True = (Inr (0, st), k')"
  shows "stoppers m' t = S_wait True \<and> wait_mutex m' = Some (Stopper t)"
proof -
  have "stoppers m' t = S_wait True \<and> handles m' t = handles m t \<and> locks_ok m'"
    using assms(1)
  proof (induction rule: rtranclp_induct)
    case base
    then show ?case using assms by simp
  next
    case (step m1 m2)
    have l: "locks_ok m2" using step_locks_ok [OF step.hyps(2)] step.IH by simp
    from step.hyps(2) have "stoppers m2 t = S_wait True \<and> handles m2 t = handles m t"
    proof cases
      case waiter_runs
      then show ?thesis using step.IH
        by (auto simp: server_ptrace_global_wait_def Let_def split: global_wait_pc.splits if_splits prod.splits)
    next
      case (stopper_runs u)
      show ?thesis
      proof (cases "u = t")
        case True
        obtain st k where "waitpid K (wait_kern m1) (stopper_pid m1 t) True = (Inr (0, st), k)" using assms(5) step.IH by metis
        then show ?thesis using stopper_runs True step.IH
          by (auto simp: server_ptrace_stop_and_wait_def do_wait_def Let_def)
      next
        case False
        then show ?thesis using stopper_runs step.IH
          by (cases "stoppers m1 u")
            (auto simp: server_ptrace_stop_and_wait_def set_stopper_def Let_def split: if_splits prod.splits)
      qed
    qed (use step.IH in \<open>auto simp: set_stopper_def\<close>)
    then show ?case using l by simp
  qed
  then show ?thesis by (simp add: locks_ok_def owned_def)
qed

text \<open>A kernel in which every process is stopped and no event is pending.\<close>

definition quiet_kernel :: "((64, x86_64_regs, unit) flat, 64, x86_64_regs, unit) kernel" where
  "quiet_kernel = flat_kernel\<lparr> waitpid := (\<lambda>k pid nohang. (Inr (0, 0), k)) \<rparr>"

lemma quiet_kernel_fields [simp]:
  "waitpid quiet_kernel k p nohang = (Inr (0, 0), k)"
  "ptrace_getregs quiet_kernel k pid = (Inr (flat_regs k), k)"
  "ptrace_getfpregs quiet_kernel k pid = (Inr (flat_fpregs k), k)"
  "ptrace_peek_debugreg quiet_kernel k pid n = (Inr (flat_dr k n), k)"
  by (simp_all add: quiet_kernel_def)

lemma quiet_stop:
  "\<exists>s'. server_ptrace_stop (x86_arch_get_registers quiet_kernel) quiet_kernel s = (COMMAND_ERROR_ALREADY_STOPPED, s') \<and>
     kern s' = kern s"
  by (simp add: server_ptrace_stop_def x86_arch_get_registers_def priv_server_ptrace_get_registers_def
      priv_server_ptrace_get_fp_registers_def priv_server_ptrace_get_dr_def Let_def)

lemma quiet_run:
  obtains m where "(wait_step quiet_kernel)\<^sup>*\<^sup>* (called 0 idle) m" "stoppers m 0 = S_wait True"
    "wait_mutex m = Some (Stopper 0)" "locks_ok m"
proof -
  obtain s where s: "server_ptrace_stop (x86_arch_get_registers quiet_kernel) quiet_kernel ((handle_of 1000)\<lparr> kern := flat64 \<rparr>)
      = (COMMAND_ERROR_ALREADY_STOPPED, s)" using quiet_stop by blast
  let ?ts = "[Stopper 0, Stopper 0, Stopper 0, Stopper 0, Stopper 0, Stopper 0, Stopper 0]"
  obtain m where m: "wait_run quiet_kernel ?ts (called 0 idle) = Some m" "stoppers m 0 = S_wait True"
    "wait_mutex m = Some (Stopper 0)"
    using s by (simp add: wait_run_simps)
  have step: "wait_step quiet_kernel idle (called 0 idle)" by (rule called_steps) (simp_all add: wait_initial_def)
  have "wait_ok m" using step wait_run_steps [OF m(1)] by (intro wait_steps_ok [OF _ wait_ok_initial]) (rule converse_rtranclp_into_rtranclp)
  then show thesis using that m wait_run_steps [OF m(1)] by (auto simp: wait_ok_def)
qed

theorem already_stopped_never_returns_witness:
  "\<exists>m m'. (wait_step quiet_kernel)\<^sup>*\<^sup>* (called 0 idle) m \<and> stoppers m 0 = S_wait True \<and>
     server_ptrace_stop_and_wait quiet_kernel 0 m = Some m' \<and>
     stoppers m' 0 = S_wait True \<and> wait_mutex m' = Some (Stopper 0)"
proof -
  obtain m where reach: "(wait_step quiet_kernel)\<^sup>*\<^sup>* (called 0 idle) m"
    and m: "stoppers m 0 = S_wait True" "wait_mutex m = Some (Stopper 0)" "locks_ok m" by (rule quiet_run)
  obtain m' where m': "server_ptrace_stop_and_wait quiet_kernel 0 m = Some m'"
    using m(1) by (simp add: server_ptrace_stop_and_wait_def do_wait_def)
  have r: "(wait_step quiet_kernel)\<^sup>*\<^sup>* m m'" using stopper_runs [OF m'] by blast
  have "stoppers m' 0 = S_wait True \<and> wait_mutex m' = Some (Stopper 0)"
    by (rule already_stopped_never_returns [OF r m]) simp
  then show ?thesis using reach m m' by blast
qed

text \<open>
  And if the waiting thread was first, neither gets anywhere: one stopper, whose thread was already
  stopped and its event reported before, waits for \<open>wait_mutex\<close>, and the waiter keeps it, suspended in a \<open>waitpid\<close>
  that has nothing to report as long as this thread stays stopped.
\<close>

lemma quiet_blocks: "waitpid_blocks quiet_kernel k p"
  by (simp add: waitpid_blocks_def)

theorem already_stopped_deadlock:
  "\<exists>m. (wait_step quiet_kernel)\<^sup>*\<^sup>* idle m \<and> stoppers m 0 = S_lock1 True \<and> waiter m = W_wait \<and>
     (\<forall>t. t \<noteq> 0 \<longrightarrow> \<not> stopper_active (stoppers m t)) \<and>
     (\<forall>k. server_ptrace_global_wait quiet_kernel (m\<lparr> wait_kern := k \<rparr>) = None \<and>
          server_ptrace_stop_and_wait quiet_kernel 0 (m\<lparr> wait_kern := k \<rparr>) = None)"
proof -
  obtain s where s: "server_ptrace_stop (x86_arch_get_registers quiet_kernel) quiet_kernel ((handle_of 1000)\<lparr> kern := flat64 \<rparr>)
      = (COMMAND_ERROR_ALREADY_STOPPED, s)" using quiet_stop by blast
  let ?ts = "[Waiter, Stopper 0, Stopper 0, Stopper 0, Stopper 0, Stopper 0]"
  obtain m where m: "wait_run quiet_kernel ?ts (called 0 idle) = Some m" "stoppers m 0 = S_lock1 True" "waiter m = W_wait"
    "wait_mutex m = Some Waiter" "\<forall>t. t \<noteq> 0 \<longrightarrow> stoppers m t = S_idle"
    using s by (simp add: wait_run_simps)
  have "(wait_step quiet_kernel)\<^sup>*\<^sup>* idle m"
    using single_step_wait_step [OF idle_called_single] wait_run_steps [OF m(1)] by (rule converse_rtranclp_into_rtranclp)
  then show ?thesis using m
    by (intro exI [of _ m]) (simp add: server_ptrace_global_wait_def server_ptrace_stop_and_wait_def quiet_blocks Let_def
        split: prod.splits)
qed

end
