(* ===== verification/Library.thy ===== *)
theory Library
  imports X86_64_Arch I386_Arch X86_Ptrace
begin

text \<open>
  The commands as the managed debugger calls them, \<open>library.c\<close>: each goes through a slot of the function
  table \<open>global_vtable\<close> of the platform. Most wrappers return \<open>COMMAND_ERROR_NOT_IMPLEMENTED\<close> if
  the slot they test is empty; a call through an empty slot is \<open>None\<close>, as elsewhere the result of a function that does
  not return. The tables of \<open>x86-ptrace.c\<close> and \<open>x86-windows.c\<close> are at the end.
\<close>

section \<open>The function table\<close>

text \<open>
  \<open>struct InferiorVTable\<close> of \<open>server.h\<close>, a slot as an \<open>option\<close>. The type parameters are the state of a
  server handle, of a breakpoint manager, of the struct that \<open>get_callback_frame\<close> fills and of
  the kernel.
\<close>

type_synonym 'st command = "'st \<Rightarrow> (ServerCommandError \<times> 'st) option"

type_synonym ('o, 'st) query = "'st \<Rightarrow> (ServerCommandError \<times> 'o \<times> 'st) option"

record ('st, 'm, 'cf, 'k) InferiorVTable =
  vt_global_init :: "('k \<Rightarrow> 'k) option"
  vt_get_server_type :: "ServerType option"
  vt_get_capabilities :: "guint32 option"
  vt_create_inferior :: "('m \<Rightarrow> 'k \<Rightarrow> 'st) option"
  vt_set_runtime_info :: "(MonoRuntimeInfo option \<Rightarrow> 'st \<Rightarrow> 'st) option"
  vt_io_thread_main :: "(gint \<times> gint \<Rightarrow> 'k \<Rightarrow> (output_log \<times> 'k) option) option"
  vt_finalize :: "('st \<Rightarrow> 'st) option"
  vt_global_wait :: "('k \<Rightarrow> (guint32 \<times> guint32 option \<times> 'k) option) option"
  vt_stop_and_wait :: "(guint32 option, 'st) query option"
  vt_dispatch_event :: "(guint32 \<Rightarrow> 'st \<Rightarrow> (ServerStatusMessageType \<times> event_data \<times> 'st) option) option"
  vt_dispatch_simple :: "(guint32 \<Rightarrow> ServerStatusMessageType \<times> guint32 option) option"
  vt_get_target_info :: "(ServerCommandError \<times> guint32 \<times> guint32 \<times> guint32 \<times> guint32) option"
  vt_get_breakpoints :: "(guint32 list, 'st) query option"
  vt_get_signal_info :: "('st \<Rightarrow> ServerCommandError \<times> SignalInfo) option"
  vt_get_registers_from_core_file :: "(register_values \<Rightarrow> guint8 list \<Rightarrow> register_values) option"
  vt_get_current_pid :: "guint32 option"
  vt_get_current_thread :: "guint64 option"
  vt_initialize_process :: "'st command option"
  vt_initialize_thread :: "(guint32 \<Rightarrow> bool \<Rightarrow> 'st command) option"
  vt_spawn :: "(bool \<Rightarrow> (spawn_result, 'st) query) option"
  vt_attach :: "(guint32 \<Rightarrow> 'st command) option"
  vt_detach :: "'st command option"
  vt_get_frame :: "(StackFrame \<Rightarrow> (StackFrame, 'st) query) option"
  vt_current_insn_is_bpt :: "((bool, 'st) query) option"
  vt_step :: "'st command option"
  vt_run :: "'st command option"
  vt_resume :: "'st command option"
  vt_peek_word :: "(guint64 \<Rightarrow> (guint8 list, 'st) query) option"
  vt_read_memory :: "(guint64 \<Rightarrow> guint32 \<Rightarrow> (guint8 list, 'st) query) option"
  vt_write_memory :: "(guint64 \<Rightarrow> (guint8 list) \<Rightarrow> 'st command) option"
  vt_call_method :: "(guint64 \<Rightarrow> guint64 \<Rightarrow> guint64 \<Rightarrow> guint64 \<Rightarrow> 'st command) option"
  vt_call_method_1 :: "(guint64 \<Rightarrow> guint64 \<Rightarrow> guint64 \<Rightarrow> guint64 \<Rightarrow> (guint8 list) \<Rightarrow> guint64 \<Rightarrow> 'st command) option"
  vt_call_method_2 :: "(guint64 \<Rightarrow> (guint8 list) \<Rightarrow> guint64 \<Rightarrow> 'st command) option"
  vt_call_method_3 :: "(guint64 \<Rightarrow> guint64 \<Rightarrow> guint64 \<Rightarrow> (guint8 list) \<Rightarrow> guint64 \<Rightarrow> 'st command) option"
  vt_call_method_invoke :: "(guint64 \<Rightarrow> guint64 \<Rightarrow> (guint64 \<times> int) list \<Rightarrow> (guint8 list) \<Rightarrow> guint64 \<Rightarrow> bool \<Rightarrow> 'st command) option"
  vt_execute_instruction :: "((guint8 list) \<Rightarrow> bool \<Rightarrow> 'st command) option"
  vt_mark_rti_frame :: "'st command option"
  vt_abort_invoke :: "(guint64 \<Rightarrow> 'st command) option"
  vt_insert_breakpoint :: "(guint64 \<Rightarrow> (guint32 option, 'st) query) option"
  vt_insert_hw_breakpoint :: "(HardwareBreakpointType \<Rightarrow> guint64 \<Rightarrow> ((guint32 \<times> guint32) option, 'st) query) option"
  vt_remove_breakpoint :: "(guint32 \<Rightarrow> 'st command) option"
  vt_enable_breakpoint :: "(guint32 \<Rightarrow> 'st command) option"
  vt_disable_breakpoint :: "(guint32 \<Rightarrow> 'st command) option"
  vt_get_registers :: "(register_values \<Rightarrow> (register_values, 'st) query) option"
  vt_set_registers :: "(register_values \<Rightarrow> 'st command) option"
  vt_stop :: "'st command option"
  vt_set_signal :: "(guint32 \<Rightarrow> guint32 \<Rightarrow> 'st command) option"
  vt_get_pending_signal :: "((guint32, 'st) query) option"
  vt_kill :: "'st command option"
  vt_get_threads :: "((guint32 list, 'st) query) option"
  vt_get_application :: "(((string \<times> string \<times> string list) option, 'st) query) option"
  vt_detach_after_fork :: "'st command option"
  vt_push_registers :: "((guint64 option, 'st) query) option"
  vt_pop_registers :: "'st command option"
  vt_get_callback_frame :: "(guint64 \<Rightarrow> bool \<Rightarrow> 'cf \<Rightarrow> ('cf, 'st) query) option"
  vt_restart_notification :: "'st command option"

text \<open>The test of a slot that comes before most calls.\<close>

definition guarded :: "'g option \<Rightarrow> 'st \<Rightarrow> (ServerCommandError \<times> 'st) option \<Rightarrow> (ServerCommandError \<times> 'st) option" where
  "guarded entry s call = (if Option.is_none entry then Some (COMMAND_ERROR_NOT_IMPLEMENTED, s) else call)"

definition guarded_query ::
  "'g option \<Rightarrow> 'st \<Rightarrow> (ServerCommandError \<times> 'o \<times> 'st) option \<Rightarrow> (ServerCommandError \<times> 'o option \<times> 'st) option" where
  "guarded_query entry s call =
     (if Option.is_none entry then Some (COMMAND_ERROR_NOT_IMPLEMENTED, None, s)
      else do { (result, out, s) \<leftarrow> call; Some (result, Some out, s) })"

section \<open>The wrappers\<close>

definition mono_debugger_server_create_inferior ::
  "('st, 'm, 'cf, 'k) InferiorVTable \<Rightarrow> 'm \<Rightarrow> 'k \<Rightarrow> 'st option" where
  "mono_debugger_server_create_inferior V m k = do { f \<leftarrow> vt_create_inferior V; Some (f m k) }"

definition mono_debugger_server_get_current_pid ::
  "('st, 'm, 'cf, 'k) InferiorVTable \<Rightarrow> guint32 option" where
  "mono_debugger_server_get_current_pid V = vt_get_current_pid V"

definition mono_debugger_server_get_current_thread ::
  "('st, 'm, 'cf, 'k) InferiorVTable \<Rightarrow> guint64 option" where
  "mono_debugger_server_get_current_thread V = vt_get_current_thread V"

definition mono_debugger_server_get_capabilities ::
  "('st, 'm, 'cf, 'k) InferiorVTable \<Rightarrow> guint32 option" where
  "mono_debugger_server_get_capabilities V = vt_get_capabilities V"

definition mono_debugger_server_get_server_type ::
  "('st, 'm, 'cf, 'k) InferiorVTable \<Rightarrow> ServerType option" where
  "mono_debugger_server_get_server_type V = vt_get_server_type V"

definition mono_debugger_server_io_thread_main ::
  "('st, 'm, 'cf, 'k) InferiorVTable \<Rightarrow> gint \<times> gint \<Rightarrow> 'k \<Rightarrow> (output_log \<times> 'k) option" where
  "mono_debugger_server_io_thread_main V io k = do { f \<leftarrow> vt_io_thread_main V; f io k }"

definition mono_debugger_server_finalize ::
  "('st, 'm, 'cf, 'k) InferiorVTable \<Rightarrow> 'st \<Rightarrow> 'st option" where
  "mono_debugger_server_finalize V s = do { f \<leftarrow> vt_finalize V; Some (f s) }"

definition mono_debugger_server_global_init ::
  "('st, 'm, 'cf, 'k) InferiorVTable \<Rightarrow> 'k \<Rightarrow> 'k option" where
  "mono_debugger_server_global_init V k = do { f \<leftarrow> vt_global_init V; Some (f k) }"

definition mono_debugger_server_global_wait ::
  "('st, 'm, 'cf, 'k) InferiorVTable \<Rightarrow> 'k \<Rightarrow> (guint32 \<times> guint32 option \<times> 'k) option" where
  "mono_debugger_server_global_wait V k = do { f \<leftarrow> vt_global_wait V; f k }"

definition mono_debugger_server_dispatch_event ::
  "('st, 'm, 'cf, 'k) InferiorVTable \<Rightarrow> guint32 \<Rightarrow> 'st \<Rightarrow> (ServerStatusMessageType \<times> event_data \<times> 'st) option" where
  "mono_debugger_server_dispatch_event V status s = do { f \<leftarrow> vt_dispatch_event V; f status s }"

definition mono_debugger_server_dispatch_simple ::
  "('st, 'm, 'cf, 'k) InferiorVTable \<Rightarrow> guint32 \<Rightarrow> (ServerStatusMessageType \<times> guint32 option) option" where
  "mono_debugger_server_dispatch_simple V status = do { f \<leftarrow> vt_dispatch_simple V; Some (f status) }"

definition mono_debugger_server_get_target_info ::
  "('st, 'm, 'cf, 'k) InferiorVTable \<Rightarrow> ServerCommandError \<times> (guint32 \<times> guint32 \<times> guint32 \<times> guint32) option" where
  "mono_debugger_server_get_target_info V =
     (case vt_get_target_info V of None \<Rightarrow> (COMMAND_ERROR_NOT_IMPLEMENTED, None)
      | Some (result, sizes) \<Rightarrow> (result, Some sizes))"

definition mono_debugger_server_stop_and_wait ::
  "('st, 'm, 'cf, 'k) InferiorVTable \<Rightarrow> 'st \<Rightarrow> (ServerCommandError \<times> guint32 option option \<times> 'st) option" where
  "mono_debugger_server_stop_and_wait V s =
     guarded_query (vt_stop_and_wait V) s (do { f \<leftarrow> vt_stop_and_wait V; f s })"

definition mono_debugger_server_get_signal_info ::
  "('st, 'm, 'cf, 'k) InferiorVTable \<Rightarrow> 'st \<Rightarrow> ServerCommandError \<times> SignalInfo option" where
  "mono_debugger_server_get_signal_info V s =
     (case vt_get_signal_info V of None \<Rightarrow> (COMMAND_ERROR_NOT_IMPLEMENTED, None)
      | Some f \<Rightarrow> (case f s of (result, sinfo) \<Rightarrow> (result, Some sinfo)))"

definition mono_debugger_server_set_runtime_info ::
  "('st, 'm, 'cf, 'k) InferiorVTable \<Rightarrow> MonoRuntimeInfo option \<Rightarrow> 'st \<Rightarrow> 'st" where
  "mono_debugger_server_set_runtime_info V runtime s =
     (case vt_set_runtime_info V of None \<Rightarrow> s | Some f \<Rightarrow> f runtime s)"

definition mono_debugger_server_get_registers_from_core_file ::
  "('st, 'm, 'cf, 'k) InferiorVTable \<Rightarrow> register_values \<Rightarrow> guint8 list \<Rightarrow> register_values option" where
  "mono_debugger_server_get_registers_from_core_file V vals buffer =
     do { f \<leftarrow> vt_get_registers_from_core_file V; Some (f vals buffer) }"

definition mono_debugger_server_initialize_process ::
  "('st, 'm, 'cf, 'k) InferiorVTable \<Rightarrow> 'st \<Rightarrow>
     (ServerCommandError \<times> 'st) option" where
  "mono_debugger_server_initialize_process V s =
     guarded (vt_initialize_process V) s (do { f \<leftarrow> vt_initialize_process V; f s })"

definition mono_debugger_server_initialize_thread ::
  "('st, 'm, 'cf, 'k) InferiorVTable \<Rightarrow> guint32 \<Rightarrow> bool \<Rightarrow> 'st \<Rightarrow>
     (ServerCommandError \<times> 'st) option" where
  "mono_debugger_server_initialize_thread V pid wait s =
     guarded (vt_initialize_thread V) s (do { f \<leftarrow> vt_initialize_thread V; f pid wait s })"

definition mono_debugger_server_spawn ::
  "('st, 'm, 'cf, 'k) InferiorVTable \<Rightarrow> bool \<Rightarrow> 'st \<Rightarrow>
     (ServerCommandError \<times> spawn_result option \<times> 'st) option" where
  "mono_debugger_server_spawn V redirect s =
     guarded_query (vt_spawn V) s (do { f \<leftarrow> vt_spawn V; f redirect s })"

definition mono_debugger_server_attach ::
  "('st, 'm, 'cf, 'k) InferiorVTable \<Rightarrow> guint32 \<Rightarrow> 'st \<Rightarrow>
     (ServerCommandError \<times> 'st) option" where
  "mono_debugger_server_attach V pid s =
     guarded (vt_attach V) s (do { f \<leftarrow> vt_attach V; f pid s })"

definition mono_debugger_server_detach ::
  "('st, 'm, 'cf, 'k) InferiorVTable \<Rightarrow> 'st \<Rightarrow>
     (ServerCommandError \<times> 'st) option" where
  "mono_debugger_server_detach V s =
     guarded (vt_detach V) s (do { f \<leftarrow> vt_detach V; f s })"

definition mono_debugger_server_get_frame ::
  "('st, 'm, 'cf, 'k) InferiorVTable \<Rightarrow> StackFrame \<Rightarrow> 'st \<Rightarrow>
     (ServerCommandError \<times> StackFrame option \<times> 'st) option" where
  "mono_debugger_server_get_frame V frame s =
     guarded_query (vt_get_frame V) s (do { f \<leftarrow> vt_get_frame V; f frame s })"

definition mono_debugger_server_current_insn_is_bpt ::
  "('st, 'm, 'cf, 'k) InferiorVTable \<Rightarrow> 'st \<Rightarrow>
     (ServerCommandError \<times> bool option \<times> 'st) option" where
  "mono_debugger_server_current_insn_is_bpt V s =
     guarded_query (vt_current_insn_is_bpt V) s (do { f \<leftarrow> vt_current_insn_is_bpt V; f s })"

definition mono_debugger_server_step ::
  "('st, 'm, 'cf, 'k) InferiorVTable \<Rightarrow> 'st \<Rightarrow>
     (ServerCommandError \<times> 'st) option" where
  "mono_debugger_server_step V s =
     guarded (vt_step V) s (do { f \<leftarrow> vt_step V; f s })"

definition mono_debugger_server_continue ::
  "('st, 'm, 'cf, 'k) InferiorVTable \<Rightarrow> 'st \<Rightarrow>
     (ServerCommandError \<times> 'st) option" where
  "mono_debugger_server_continue V s =
     guarded (vt_run V) s (do { f \<leftarrow> vt_run V; f s })"

definition mono_debugger_server_resume ::
  "('st, 'm, 'cf, 'k) InferiorVTable \<Rightarrow> 'st \<Rightarrow>
     (ServerCommandError \<times> 'st) option" where
  "mono_debugger_server_resume V s =
     guarded (vt_resume V) s (do { f \<leftarrow> vt_resume V; f s })"

definition mono_debugger_server_peek_word ::
  "('st, 'm, 'cf, 'k) InferiorVTable \<Rightarrow> guint64 \<Rightarrow> 'st \<Rightarrow>
     (ServerCommandError \<times> (guint8 list) option \<times> 'st) option" where
  "mono_debugger_server_peek_word V start s =
     guarded_query (vt_peek_word V) s (do { f \<leftarrow> vt_peek_word V; f start s })"

definition mono_debugger_server_read_memory ::
  "('st, 'm, 'cf, 'k) InferiorVTable \<Rightarrow> guint64 \<Rightarrow> guint32 \<Rightarrow> 'st \<Rightarrow>
     (ServerCommandError \<times> (guint8 list) option \<times> 'st) option" where
  "mono_debugger_server_read_memory V start n s =
     guarded_query (vt_read_memory V) s (do { f \<leftarrow> vt_read_memory V; f start n s })"

definition mono_debugger_server_write_memory ::
  "('st, 'm, 'cf, 'k) InferiorVTable \<Rightarrow> guint64 \<Rightarrow> (guint8 list) \<Rightarrow> 'st \<Rightarrow>
     (ServerCommandError \<times> 'st) option" where
  "mono_debugger_server_write_memory V start data s =
     guarded (vt_write_memory V) s (do { f \<leftarrow> vt_write_memory V; f start data s })"

definition mono_debugger_server_call_method ::
  "('st, 'm, 'cf, 'k) InferiorVTable \<Rightarrow> guint64 \<Rightarrow> guint64 \<Rightarrow> guint64 \<Rightarrow> guint64 \<Rightarrow> 'st \<Rightarrow>
     (ServerCommandError \<times> 'st) option" where
  "mono_debugger_server_call_method V meth arg1 arg2 cb_arg s =
     guarded (vt_call_method V) s (do { f \<leftarrow> vt_call_method V; f meth arg1 arg2 cb_arg s })"

definition mono_debugger_server_call_method_1 ::
  "('st, 'm, 'cf, 'k) InferiorVTable \<Rightarrow> guint64 \<Rightarrow> guint64 \<Rightarrow> guint64 \<Rightarrow> guint64 \<Rightarrow> (guint8 list) \<Rightarrow> guint64 \<Rightarrow> 'st \<Rightarrow>
     (ServerCommandError \<times> 'st) option" where
  "mono_debugger_server_call_method_1 V meth arg1 data1 data2 str cb_arg s =
     guarded (vt_call_method_1 V) s (do { f \<leftarrow> vt_call_method_1 V; f meth arg1 data1 data2 str cb_arg s })"

definition mono_debugger_server_call_method_2 ::
  "('st, 'm, 'cf, 'k) InferiorVTable \<Rightarrow> guint64 \<Rightarrow> (guint8 list) \<Rightarrow> guint64 \<Rightarrow> 'st \<Rightarrow>
     (ServerCommandError \<times> 'st) option" where
  "mono_debugger_server_call_method_2 V meth data cb_arg s =
     guarded (vt_call_method_2 V) s (do { f \<leftarrow> vt_call_method_2 V; f meth data cb_arg s })"

definition mono_debugger_server_call_method_3 ::
  "('st, 'm, 'cf, 'k) InferiorVTable \<Rightarrow> guint64 \<Rightarrow> guint64 \<Rightarrow> guint64 \<Rightarrow> (guint8 list) \<Rightarrow> guint64 \<Rightarrow> 'st \<Rightarrow>
     (ServerCommandError \<times> 'st) option" where
  "mono_debugger_server_call_method_3 V meth arg1 addr blob cb_arg s =
     guarded (vt_call_method_2 V) s (do { f \<leftarrow> vt_call_method_3 V; f meth arg1 addr blob cb_arg s })"

definition mono_debugger_server_call_method_invoke ::
  "('st, 'm, 'cf, 'k) InferiorVTable \<Rightarrow> guint64 \<Rightarrow> guint64 \<Rightarrow> (guint64 \<times> int) list \<Rightarrow> (guint8 list) \<Rightarrow> guint64 \<Rightarrow> bool \<Rightarrow> 'st \<Rightarrow>
     (ServerCommandError \<times> 'st) option" where
  "mono_debugger_server_call_method_invoke V meth arg1 params blob cb_arg dbg s =
     guarded (vt_call_method_invoke V) s (do { f \<leftarrow> vt_call_method_invoke V; f meth arg1 params blob cb_arg dbg s })"

definition mono_debugger_server_execute_instruction ::
  "('st, 'm, 'cf, 'k) InferiorVTable \<Rightarrow> (guint8 list) \<Rightarrow> bool \<Rightarrow> 'st \<Rightarrow>
     (ServerCommandError \<times> 'st) option" where
  "mono_debugger_server_execute_instruction V insn upd_ip s =
     guarded (vt_execute_instruction V) s (do { f \<leftarrow> vt_execute_instruction V; f insn upd_ip s })"

definition mono_debugger_server_mark_rti_frame ::
  "('st, 'm, 'cf, 'k) InferiorVTable \<Rightarrow> 'st \<Rightarrow>
     (ServerCommandError \<times> 'st) option" where
  "mono_debugger_server_mark_rti_frame V s =
     guarded (vt_mark_rti_frame V) s (do { f \<leftarrow> vt_mark_rti_frame V; f s })"

definition mono_debugger_server_abort_invoke ::
  "('st, 'm, 'cf, 'k) InferiorVTable \<Rightarrow> guint64 \<Rightarrow> 'st \<Rightarrow>
     (ServerCommandError \<times> 'st) option" where
  "mono_debugger_server_abort_invoke V rti_id s =
     guarded (vt_abort_invoke V) s (do { f \<leftarrow> vt_abort_invoke V; f rti_id s })"

definition mono_debugger_server_insert_breakpoint ::
  "('st, 'm, 'cf, 'k) InferiorVTable \<Rightarrow> guint64 \<Rightarrow> 'st \<Rightarrow>
     (ServerCommandError \<times> (guint32 option) option \<times> 'st) option" where
  "mono_debugger_server_insert_breakpoint V address s =
     guarded_query (vt_insert_breakpoint V) s (do { f \<leftarrow> vt_insert_breakpoint V; f address s })"

definition mono_debugger_server_insert_hw_breakpoint ::
  "('st, 'm, 'cf, 'k) InferiorVTable \<Rightarrow> HardwareBreakpointType \<Rightarrow> guint64 \<Rightarrow> 'st \<Rightarrow>
     (ServerCommandError \<times> ((guint32 \<times> guint32) option) option \<times> 'st) option" where
  "mono_debugger_server_insert_hw_breakpoint V ty address s =
     guarded_query (vt_insert_hw_breakpoint V) s (do { f \<leftarrow> vt_insert_hw_breakpoint V; f ty address s })"

definition mono_debugger_server_remove_breakpoint ::
  "('st, 'm, 'cf, 'k) InferiorVTable \<Rightarrow> guint32 \<Rightarrow> 'st \<Rightarrow>
     (ServerCommandError \<times> 'st) option" where
  "mono_debugger_server_remove_breakpoint V bhandle s =
     guarded (vt_remove_breakpoint V) s (do { f \<leftarrow> vt_remove_breakpoint V; f bhandle s })"

definition mono_debugger_server_enable_breakpoint ::
  "('st, 'm, 'cf, 'k) InferiorVTable \<Rightarrow> guint32 \<Rightarrow> 'st \<Rightarrow>
     (ServerCommandError \<times> 'st) option" where
  "mono_debugger_server_enable_breakpoint V bhandle s =
     guarded (vt_enable_breakpoint V) s (do { f \<leftarrow> vt_enable_breakpoint V; f bhandle s })"

definition mono_debugger_server_disable_breakpoint ::
  "('st, 'm, 'cf, 'k) InferiorVTable \<Rightarrow> guint32 \<Rightarrow> 'st \<Rightarrow>
     (ServerCommandError \<times> 'st) option" where
  "mono_debugger_server_disable_breakpoint V bhandle s =
     guarded (vt_disable_breakpoint V) s (do { f \<leftarrow> vt_disable_breakpoint V; f bhandle s })"

definition mono_debugger_server_get_registers ::
  "('st, 'm, 'cf, 'k) InferiorVTable \<Rightarrow> register_values \<Rightarrow> 'st \<Rightarrow>
     (ServerCommandError \<times> register_values option \<times> 'st) option" where
  "mono_debugger_server_get_registers V vals s =
     guarded_query (vt_get_registers V) s (do { f \<leftarrow> vt_get_registers V; f vals s })"

definition mono_debugger_server_set_registers ::
  "('st, 'm, 'cf, 'k) InferiorVTable \<Rightarrow> register_values \<Rightarrow> 'st \<Rightarrow>
     (ServerCommandError \<times> 'st) option" where
  "mono_debugger_server_set_registers V vals s =
     guarded (vt_set_registers V) s (do { f \<leftarrow> vt_set_registers V; f vals s })"

definition mono_debugger_server_stop ::
  "('st, 'm, 'cf, 'k) InferiorVTable \<Rightarrow> 'st \<Rightarrow>
     (ServerCommandError \<times> 'st) option" where
  "mono_debugger_server_stop V s =
     guarded (vt_stop V) s (do { f \<leftarrow> vt_stop V; f s })"

definition mono_debugger_server_set_signal ::
  "('st, 'm, 'cf, 'k) InferiorVTable \<Rightarrow> guint32 \<Rightarrow> guint32 \<Rightarrow> 'st \<Rightarrow>
     (ServerCommandError \<times> 'st) option" where
  "mono_debugger_server_set_signal V sig send_it s =
     guarded (vt_set_signal V) s (do { f \<leftarrow> vt_set_signal V; f sig send_it s })"

definition mono_debugger_server_get_pending_signal ::
  "('st, 'm, 'cf, 'k) InferiorVTable \<Rightarrow> 'st \<Rightarrow>
     (ServerCommandError \<times> guint32 option \<times> 'st) option" where
  "mono_debugger_server_get_pending_signal V s =
     guarded_query (vt_get_pending_signal V) s (do { f \<leftarrow> vt_get_pending_signal V; f s })"

definition mono_debugger_server_kill ::
  "('st, 'm, 'cf, 'k) InferiorVTable \<Rightarrow> 'st \<Rightarrow>
     (ServerCommandError \<times> 'st) option" where
  "mono_debugger_server_kill V s = do { f \<leftarrow> vt_kill V; f s }"

definition mono_debugger_server_get_threads ::
  "('st, 'm, 'cf, 'k) InferiorVTable \<Rightarrow> 'st \<Rightarrow>
     (ServerCommandError \<times> (guint32 list) option \<times> 'st) option" where
  "mono_debugger_server_get_threads V s =
     guarded_query (vt_get_threads V) s (do { f \<leftarrow> vt_get_threads V; f s })"

definition mono_debugger_server_get_application ::
  "('st, 'm, 'cf, 'k) InferiorVTable \<Rightarrow> 'st \<Rightarrow>
     (ServerCommandError \<times> ((string \<times> string \<times> string list) option) option \<times> 'st) option" where
  "mono_debugger_server_get_application V s =
     guarded_query (vt_get_application V) s (do { f \<leftarrow> vt_get_application V; f s })"

definition mono_debugger_server_detach_after_fork ::
  "('st, 'm, 'cf, 'k) InferiorVTable \<Rightarrow> 'st \<Rightarrow>
     (ServerCommandError \<times> 'st) option" where
  "mono_debugger_server_detach_after_fork V s =
     guarded (vt_detach_after_fork V) s (do { f \<leftarrow> vt_detach_after_fork V; f s })"

definition mono_debugger_server_push_registers ::
  "('st, 'm, 'cf, 'k) InferiorVTable \<Rightarrow> 'st \<Rightarrow>
     (ServerCommandError \<times> (guint64 option) option \<times> 'st) option" where
  "mono_debugger_server_push_registers V s =
     guarded_query (vt_push_registers V) s (do { f \<leftarrow> vt_push_registers V; f s })"

definition mono_debugger_server_pop_registers ::
  "('st, 'm, 'cf, 'k) InferiorVTable \<Rightarrow> 'st \<Rightarrow>
     (ServerCommandError \<times> 'st) option" where
  "mono_debugger_server_pop_registers V s =
     guarded (vt_pop_registers V) s (do { f \<leftarrow> vt_pop_registers V; f s })"

definition mono_debugger_server_get_callback_frame ::
  "('st, 'm, 'cf, 'k) InferiorVTable \<Rightarrow> guint64 \<Rightarrow> bool \<Rightarrow> 'cf \<Rightarrow> 'st \<Rightarrow>
     (ServerCommandError \<times> 'cf option \<times> 'st) option" where
  "mono_debugger_server_get_callback_frame V sp exact_match info s =
     guarded_query (vt_get_callback_frame V) s (do { f \<leftarrow> vt_get_callback_frame V; f sp exact_match info s })"

definition mono_debugger_server_restart_notification ::
  "('st, 'm, 'cf, 'k) InferiorVTable \<Rightarrow> 'st \<Rightarrow>
     (ServerCommandError \<times> 'st) option" where
  "mono_debugger_server_restart_notification V s =
     guarded (vt_restart_notification V) s (do { f \<leftarrow> vt_restart_notification V; f s })"

section \<open>The tables\<close>

text \<open>
  The table of \<open>x86-ptrace.c\<close>, for each architecture. Four things are arguments: whether another thread
  holds \<open>wait_mutex\<close>, the two functions that wait with other threads (the model of their steps is a
  theory of its own), the process id and thread id of the debugger.
\<close>

record ('st, 'k) platform =
  wait_locked :: bool
  global_wait_fn :: "('k \<Rightarrow> (guint32 \<times> guint32 option \<times> 'k) option) option"
  stop_and_wait_fn :: "(guint32 option, 'st) query option"
  current_pid :: guint32
  current_thread :: guint64

definition x86_64_ptrace_inferior ::
  "('k, 'f) x86_64_kernel \<Rightarrow> x86_64_regs \<Rightarrow> 'f \<Rightarrow> (('k, 'f) x86_64_server, 'k) platform \<Rightarrow>
     (('k, 'f) x86_64_server, 64 BreakpointManager \<times> bp_store, CallbackInfo, 'k) InferiorVTable" where
  "x86_64_ptrace_inferior K regs fpregs p = \<lparr>
     vt_global_init = Some id,
     vt_get_server_type = Some server_ptrace_get_server_type,
     vt_get_capabilities = Some server_ptrace_get_capabilities,
     vt_create_inferior = Some (\<lambda>(m, g) k. server_ptrace_create_inferior (x86_64_arch_initialize regs fpregs) m g k),
     vt_set_runtime_info = Some (\<lambda>runtime s. server_ptrace_set_runtime_info s runtime),
     vt_io_thread_main = Some (server_ptrace_io_thread_main K),
     vt_finalize = Some (priv_server_ptrace_finalize_inferior K),
     vt_global_wait = global_wait_fn p,
     vt_stop_and_wait = stop_and_wait_fn p,
     vt_dispatch_event = Some (\<lambda>status s. server_ptrace_dispatch_event (x86_64_child_stopped K) K s status),
     vt_dispatch_simple = Some server_ptrace_dispatch_simple,
     vt_get_target_info = Some x86_64_get_target_info,
     vt_get_breakpoints = Some server_ptrace_get_breakpoints,
     vt_get_signal_info = Some (\<lambda>s. server_ptrace_get_signal_info (last_signal (inferior s))),
     vt_get_registers_from_core_file = Some x86_64_get_registers_from_core_file,
     vt_get_current_pid = Some (current_pid p),
     vt_get_current_thread = Some (current_thread p),
     vt_initialize_process = Some (\<lambda>s. Some (server_ptrace_initialize_process K s)),
     vt_initialize_thread = Some (\<lambda>pid wait s. Some (server_ptrace_initialize_thread K (wait_locked p) s pid wait)),
     vt_spawn = Some (\<lambda>redirect s. server_ptrace_spawn K (wait_locked p) s redirect),
     vt_attach = Some (\<lambda>pid s. Some (server_ptrace_attach K (wait_locked p) s pid)),
     vt_detach = Some (\<lambda>s. Some (server_ptrace_detach K s)),
     vt_get_frame = Some (\<lambda>frame s. Some (x86_64_get_frame K s frame)),
     vt_current_insn_is_bpt = Some (\<lambda>s. Some (x86_64_current_insn_is_bpt s)),
     vt_step = Some (\<lambda>s. Some (server_ptrace_step K s)),
     vt_run = Some (\<lambda>s. Some (server_ptrace_continue K s)),
     vt_resume = Some (\<lambda>s. Some (server_ptrace_resume K s)),
     vt_peek_word = Some (\<lambda>start s. do { (r, s, buf) \<leftarrow> server_ptrace_peek_word K s start; Some (r, buf, s) }),
     vt_read_memory = Some (\<lambda>start n s. do { (r, s, buf) \<leftarrow> read_memory K s start n; Some (r, buf, s) }),
     vt_write_memory = Some (\<lambda>start data s. server_ptrace_write_memory K s start data),
     vt_call_method = Some (\<lambda>m a b cb s. x86_64_call_method K s m a b cb),
     vt_call_method_1 = Some (\<lambda>m a b c str cb s. x86_64_call_method_1 K s m a b c str cb),
     vt_call_method_2 = Some (\<lambda>m data cb s. x86_64_call_method_2 K s m data cb),
     vt_call_method_3 = Some (\<lambda>m a b blob cb s. x86_64_call_method_3 K s m a b blob cb),
     vt_call_method_invoke = Some (\<lambda>m a ps blob cb dbg s. x86_64_call_method_invoke K s m a ps blob cb dbg),
     vt_execute_instruction = Some (\<lambda>insn upd s. x86_64_execute_instruction K s insn upd),
     vt_mark_rti_frame = Some (\<lambda>s. Some (x86_64_mark_rti_frame s)),
     vt_abort_invoke = Some (\<lambda>rti s. x86_64_abort_invoke K s rti),
     vt_insert_breakpoint = Some (\<lambda>a s. x86_64_insert_breakpoint K s a),
     vt_insert_hw_breakpoint = Some (\<lambda>ty a s. x86_64_insert_hw_breakpoint K s ty a),
     vt_remove_breakpoint = Some (\<lambda>b s. x86_64_remove_breakpoint K s b),
     vt_enable_breakpoint = Some (\<lambda>b s. x86_64_enable_breakpoint K s b),
     vt_disable_breakpoint = Some (\<lambda>b s. x86_64_disable_breakpoint K s b),
     vt_get_registers = Some (\<lambda>v s. case x86_64_get_registers s v of (r, v) \<Rightarrow> Some (r, v, s)),
     vt_set_registers = Some (\<lambda>v s. Some (x86_64_set_registers K s v)),
     vt_stop = Some (\<lambda>s. Some (server_ptrace_stop (x86_arch_get_registers K) K s)),
     vt_set_signal = Some (\<lambda>sig n s. Some (server_ptrace_set_signal K s sig n)),
     vt_get_pending_signal = Some (\<lambda>s. case server_ptrace_get_pending_signal s of (r, sig) \<Rightarrow> Some (r, sig, s)),
     vt_kill = Some (\<lambda>s. Some (server_ptrace_kill K s)),
     vt_get_threads = Some (\<lambda>s. case server_ptrace_get_threads K s of (r, ts) \<Rightarrow> Some (r, ts, s)),
     vt_get_application = Some (\<lambda>s. case server_ptrace_get_application K s of Inl e \<Rightarrow> Some (e, None, s)
       | Inr app \<Rightarrow> Some (COMMAND_ERROR_NONE, Some app, s)),
     vt_detach_after_fork = Some (\<lambda>s. server_ptrace_detach_after_fork (x86_arch_get_registers K) (x86_64_disable_breakpoint_at K) K s),
     vt_push_registers = Some (\<lambda>s. x86_64_push_registers K s),
     vt_pop_registers = Some (\<lambda>s. Some (x86_64_pop_registers K s)),
     vt_get_callback_frame = Some (\<lambda>sp exact info s. case x86_64_get_callback_frame s sp exact info of (r, info) \<Rightarrow> Some (r, info, s)),
     vt_restart_notification = Some (\<lambda>s. Some (x86_64_restart_notification K s)) \<rparr>"

definition i386_ptrace_inferior ::
  "('k, 'f) i386_kernel \<Rightarrow> i386_regs \<Rightarrow> 'f \<Rightarrow> (('k, 'f) i386_server, 'k) platform \<Rightarrow>
     (('k, 'f) i386_server, 32 BreakpointManager \<times> bp_store, register_values, 'k) InferiorVTable" where
  "i386_ptrace_inferior K regs fpregs p = \<lparr>
     vt_global_init = Some id,
     vt_get_server_type = Some server_ptrace_get_server_type,
     vt_get_capabilities = Some server_ptrace_get_capabilities,
     vt_create_inferior = Some (\<lambda>(m, g) k. server_ptrace_create_inferior (i386_arch_initialize regs fpregs) m g k),
     vt_set_runtime_info = Some (\<lambda>runtime s. server_ptrace_set_runtime_info s runtime),
     vt_io_thread_main = Some (server_ptrace_io_thread_main K),
     vt_finalize = Some (priv_server_ptrace_finalize_inferior K),
     vt_global_wait = global_wait_fn p,
     vt_stop_and_wait = stop_and_wait_fn p,
     vt_dispatch_event = Some (\<lambda>status s. server_ptrace_dispatch_event (i386_child_stopped K) K s status),
     vt_dispatch_simple = Some server_ptrace_dispatch_simple,
     vt_get_target_info = Some i386_get_target_info,
     vt_get_breakpoints = Some server_ptrace_get_breakpoints,
     vt_get_signal_info = Some (\<lambda>s. server_ptrace_get_signal_info (last_signal (inferior s))),
     vt_get_registers_from_core_file = Some i386_get_registers_from_core_file,
     vt_get_current_pid = Some (current_pid p),
     vt_get_current_thread = Some (current_thread p),
     vt_initialize_process = Some (\<lambda>s. Some (server_ptrace_initialize_process K s)),
     vt_initialize_thread = Some (\<lambda>pid wait s. Some (server_ptrace_initialize_thread K (wait_locked p) s pid wait)),
     vt_spawn = Some (\<lambda>redirect s. server_ptrace_spawn K (wait_locked p) s redirect),
     vt_attach = Some (\<lambda>pid s. Some (server_ptrace_attach K (wait_locked p) s pid)),
     vt_detach = Some (\<lambda>s. Some (server_ptrace_detach K s)),
     vt_get_frame = Some (\<lambda>frame s. Some (i386_get_frame K s frame)),
     vt_current_insn_is_bpt = Some (\<lambda>s. Some (i386_current_insn_is_bpt s)),
     vt_step = Some (\<lambda>s. Some (server_ptrace_step K s)),
     vt_run = Some (\<lambda>s. Some (server_ptrace_continue K s)),
     vt_resume = Some (\<lambda>s. Some (server_ptrace_resume K s)),
     vt_peek_word = Some (\<lambda>start s. do { (r, s, buf) \<leftarrow> server_ptrace_peek_word K s start; Some (r, buf, s) }),
     vt_read_memory = Some (\<lambda>start n s. do { (r, s, buf) \<leftarrow> read_memory K s start n; Some (r, buf, s) }),
     vt_write_memory = Some (\<lambda>start data s. server_ptrace_write_memory K s start data),
     vt_call_method = Some (\<lambda>m a b cb s. i386_call_method K s m a b cb),
     vt_call_method_1 = Some (\<lambda>m a b c str cb s. i386_call_method_1 K s m a b c str cb),
     vt_call_method_2 = Some (\<lambda>m data cb s. i386_call_method_2 K s m data cb),
     vt_call_method_3 = Some (\<lambda>m a b blob cb s. i386_call_method_3 K s m a b blob cb),
     vt_call_method_invoke = Some (\<lambda>m a ps blob cb dbg s. i386_call_method_invoke K s m a ps blob cb dbg),
     vt_execute_instruction = Some (\<lambda>insn upd s. i386_execute_instruction K s insn upd),
     vt_mark_rti_frame = Some (\<lambda>s. Some (i386_mark_rti_frame s)),
     vt_abort_invoke = Some (\<lambda>rti s. i386_abort_invoke K s rti),
     vt_insert_breakpoint = Some (\<lambda>a s. i386_insert_breakpoint K s a),
     vt_insert_hw_breakpoint = Some (\<lambda>ty a s. i386_insert_hw_breakpoint K s ty a),
     vt_remove_breakpoint = Some (\<lambda>b s. i386_remove_breakpoint K s b),
     vt_enable_breakpoint = Some (\<lambda>b s. i386_enable_breakpoint K s b),
     vt_disable_breakpoint = Some (\<lambda>b s. i386_disable_breakpoint K s b),
     vt_get_registers = Some (\<lambda>v s. case i386_get_registers s v of (r, v) \<Rightarrow> Some (r, v, s)),
     vt_set_registers = Some (\<lambda>v s. Some (i386_set_registers K s v)),
     vt_stop = Some (\<lambda>s. Some (server_ptrace_stop (x86_arch_get_registers K) K s)),
     vt_set_signal = Some (\<lambda>sig n s. Some (server_ptrace_set_signal K s sig n)),
     vt_get_pending_signal = Some (\<lambda>s. case server_ptrace_get_pending_signal s of (r, sig) \<Rightarrow> Some (r, sig, s)),
     vt_kill = Some (\<lambda>s. Some (server_ptrace_kill K s)),
     vt_get_threads = Some (\<lambda>s. case server_ptrace_get_threads K s of (r, ts) \<Rightarrow> Some (r, ts, s)),
     vt_get_application = Some (\<lambda>s. case server_ptrace_get_application K s of Inl e \<Rightarrow> Some (e, None, s)
       | Inr app \<Rightarrow> Some (COMMAND_ERROR_NONE, Some app, s)),
     vt_detach_after_fork = Some (\<lambda>s. server_ptrace_detach_after_fork (x86_arch_get_registers K) (i386_disable_breakpoint_at K) K s),
     vt_push_registers = Some (\<lambda>s. i386_push_registers K s),
     vt_pop_registers = Some (\<lambda>s. Some (i386_pop_registers K s)),
     vt_get_callback_frame = Some (\<lambda>sp exact info s. case i386_get_callback_frame s sp exact info of (r, info) \<Rightarrow> Some (r, info, s)),
     vt_restart_notification = Some (\<lambda>s. Some (i386_restart_notification K s)) \<rparr>"

text \<open>The table of \<open>x86-windows.c\<close>. Its functions are those of the argument \<open>W\<close>; the empty slots are its own.\<close>

definition i386_windows_inferior ::
  "('st, 'm, 'cf, 'k) InferiorVTable \<Rightarrow> ('st, 'm, 'cf, 'k) InferiorVTable" where
  "i386_windows_inferior W = \<lparr>
     vt_global_init = vt_global_init W,
     vt_get_server_type = vt_get_server_type W,
     vt_get_capabilities = vt_get_capabilities W,
     vt_create_inferior = vt_create_inferior W,
     vt_set_runtime_info = None,
     vt_io_thread_main = vt_io_thread_main W,
     vt_finalize = None,
     vt_global_wait = vt_global_wait W,
     vt_stop_and_wait = None,
     vt_dispatch_event = vt_dispatch_event W,
     vt_dispatch_simple = vt_dispatch_simple W,
     vt_get_target_info = vt_get_target_info W,
     vt_get_breakpoints = vt_get_breakpoints W,
     vt_get_signal_info = vt_get_signal_info W,
     vt_get_registers_from_core_file = None,
     vt_get_current_pid = vt_get_current_pid W,
     vt_get_current_thread = vt_get_current_thread W,
     vt_initialize_process = vt_initialize_process W,
     vt_initialize_thread = None,
     vt_spawn = vt_spawn W,
     vt_attach = None,
     vt_detach = None,
     vt_get_frame = vt_get_frame W,
     vt_current_insn_is_bpt = None,
     vt_step = None,
     vt_run = None,
     vt_resume = None,
     vt_peek_word = None,
     vt_read_memory = vt_read_memory W,
     vt_write_memory = vt_write_memory W,
     vt_call_method = None,
     vt_call_method_1 = None,
     vt_call_method_2 = None,
     vt_call_method_3 = None,
     vt_call_method_invoke = None,
     vt_execute_instruction = None,
     vt_mark_rti_frame = None,
     vt_abort_invoke = None,
     vt_insert_breakpoint = vt_insert_breakpoint W,
     vt_insert_hw_breakpoint = None,
     vt_remove_breakpoint = vt_remove_breakpoint W,
     vt_enable_breakpoint = None,
     vt_disable_breakpoint = None,
     vt_get_registers = vt_get_registers W,
     vt_set_registers = vt_set_registers W,
     vt_stop = None,
     vt_set_signal = None,
     vt_get_pending_signal = None,
     vt_kill = None,
     vt_get_threads = None,
     vt_get_application = vt_get_application W,
     vt_detach_after_fork = None,
     vt_push_registers = None,
     vt_pop_registers = None,
     vt_get_callback_frame = None,
     vt_restart_notification = None \<rparr>"

end
