(* ===== verification/Library_Properties.thy ===== *)
theory Library_Properties
  imports Library Flat_Servers
begin

text \<open>
  What a debugger sees through the function table of its platform: breakpoints do not show in the
  memory it reads, and what happens when a slot of the table is empty.
\<close>

section \<open>Reading memory\<close>

lemma insert_slot:
  "mono_debugger_server_insert_breakpoint (x86_64_ptrace_inferior K regs fpregs p) a s =
     map_option (\<lambda>(r, h, s). (r, Some h, s)) (x86_64_insert_breakpoint K s a)"
  "mono_debugger_server_insert_breakpoint (i386_ptrace_inferior K' regs' fpregs' p') a s' =
     map_option (\<lambda>(r, h, s). (r, Some h, s)) (i386_insert_breakpoint K' s' a)"
  by (auto simp: mono_debugger_server_insert_breakpoint_def guarded_query_def x86_64_ptrace_inferior_def
      i386_ptrace_inferior_def map_option_case split: option.splits bind_splits)

lemma read_slot:
  "mono_debugger_server_read_memory (x86_64_ptrace_inferior K regs fpregs p) start n s =
     map_option (\<lambda>(r, s, buf). (r, Some buf, s)) (read_memory K s start n)"
  "mono_debugger_server_read_memory (i386_ptrace_inferior K' regs' fpregs' p') start n s' =
     map_option (\<lambda>(r, s, buf). (r, Some buf, s)) (read_memory K' s' start n)"
  by (auto simp: mono_debugger_server_read_memory_def guarded_query_def x86_64_ptrace_inferior_def
      i386_ptrace_inferior_def map_option_case split: option.splits bind_splits)

lemma read_memory_sees_view:
  fixes s :: "('k, 'w::len, 'r, 'f, 'z) x86_server"
  assumes "byte_words TYPE('w)" and "memory_ok K s A good M"
    and "unat start + unat n < 2 ^ LENGTH('w)" and "span (ucast start) (unat n) \<subseteq> A"
  shows "\<exists>s'. read_memory K s start n = Some (COMMAND_ERROR_NONE, s', load (view s (M (kern s))) (ucast start) (unat n))"
  using read_memory_view [OF assms(1) memory_okD(1) [OF assms(2)] memory_okD(8) [OF assms(2)] memory_okD(4) [OF assms(2)]
      memory_okD(5) [OF assms(2)] assms(3,4)] by blast

text \<open>
  C12. Breakpoints are invisible to a debugger that reads memory through the library, on x86_64: setting a
  breakpoint at any mapped code address succeeds or fails with an error, and reading any mapped range outside of the
  runtime's table returns the same bytes before and after it.
\<close>

theorem x86_64_breakpoint_invisible:
  fixes s :: "('k, 'f) x86_64_server"
  assumes "memory_ok K s A good M" and "last_breakpoint_id s + 1 < 2 ^ 31" and "code_byte s A address"
    and n: "unat start + unat n < 2 ^ 64" and mapped: "span start (unat n) \<subseteq> A" and outside: "span start (unat n) \<inter> runtime_area s = {}"
  shows "\<exists>r h s1 bytes s2 s3.
    mono_debugger_server_insert_breakpoint (x86_64_ptrace_inferior K regs fpregs p) address s = Some (r, h, s1) \<and>
    mono_debugger_server_read_memory (x86_64_ptrace_inferior K regs fpregs p) start n s = Some (COMMAND_ERROR_NONE, Some bytes, s2) \<and>
    mono_debugger_server_read_memory (x86_64_ptrace_inferior K regs fpregs p) start n s1 = Some (COMMAND_ERROR_NONE, Some bytes, s3)"
proof -
  obtain r h s1 where i: "x86_64_insert_breakpoint K s address = Some (r, h, s1)" "memory_ok K s1 A good M"
    "\<forall>x. x \<notin> runtime_area s \<longrightarrow> view s1 (M (kern s1)) x = view s (M (kern s)) x"
    using insert_refines [OF x86_64_backend_axioms _ assms(1-3)]
    by (auto simp: x86_64_insert_breakpoint_def x86_64_enable_breakpoint_at_def)
  have same: "load (view s1 (M (kern s1))) start (unat n) = load (view s (M (kern s))) start (unat n)"
    using i(3) outside n by (intro load_cong_span) auto
  obtain s2 where "read_memory K s start n = Some (COMMAND_ERROR_NONE, s2, load (view s (M (kern s))) start (unat n))"
    using read_memory_sees_view [OF _ assms(1), of start n] n mapped by auto
  moreover obtain s3 where "read_memory K s1 start n = Some (COMMAND_ERROR_NONE, s3, load (view s (M (kern s))) start (unat n))"
    using read_memory_sees_view [OF _ i(2), of start n] n mapped same by auto
  ultimately show ?thesis using i(1) by (simp add: insert_slot read_slot)
qed

abbreviation no_platform :: "('st, 'k) platform" where
  "no_platform \<equiv> \<lparr> wait_locked = False, global_wait_fn = None, stop_and_wait_fn = None, current_pid = 1, current_thread = 1 \<rparr>"

theorem x86_64_breakpoint_invisible_witness:
  "\<exists>r h s1 bytes s2 s3.
    mono_debugger_server_insert_breakpoint (x86_64_ptrace_inferior flat_kernel x86_64_zero_regs () no_platform) 0x400000 server64 = Some (r, h, s1) \<and>
    mono_debugger_server_read_memory (x86_64_ptrace_inferior flat_kernel x86_64_zero_regs () no_platform) 0x3ffffe 8 server64
      = Some (COMMAND_ERROR_NONE, Some bytes, s2) \<and>
    mono_debugger_server_read_memory (x86_64_ptrace_inferior flat_kernel x86_64_zero_regs () no_platform) 0x3ffffe 8 s1
      = Some (COMMAND_ERROR_NONE, Some bytes, s3)"
  by (rule x86_64_breakpoint_invisible [OF memory_ok_servers(1)]) (simp_all add: code_byte_servers)

text \<open>The same on i386.\<close>

theorem i386_breakpoint_invisible:
  fixes s :: "('k, 'f) i386_server"
  assumes "memory_ok K s A good M" and "last_breakpoint_id s + 1 < 2 ^ 31" and "code_byte s A address"
    and n: "unat start + unat n < 2 ^ 32" and mapped: "span (ucast start) (unat n) \<subseteq> A"
    and outside: "span (ucast start) (unat n) \<inter> runtime_area s = {}"
  shows "\<exists>r h s1 bytes s2 s3.
    mono_debugger_server_insert_breakpoint (i386_ptrace_inferior K regs fpregs p) address s = Some (r, h, s1) \<and>
    mono_debugger_server_read_memory (i386_ptrace_inferior K regs fpregs p) start n s = Some (COMMAND_ERROR_NONE, Some bytes, s2) \<and>
    mono_debugger_server_read_memory (i386_ptrace_inferior K regs fpregs p) start n s1 = Some (COMMAND_ERROR_NONE, Some bytes, s3)"
proof -
  obtain r h s1 where i: "i386_insert_breakpoint K s address = Some (r, h, s1)" "memory_ok K s1 A good M"
    "\<forall>x. x \<notin> runtime_area s \<longrightarrow> view s1 (M (kern s1)) x = view s (M (kern s)) x"
    using insert_refines [OF i386_backend_axioms _ assms(1-3)]
    by (auto simp: i386_insert_breakpoint_def i386_enable_breakpoint_at_def)
  have same: "load (view s1 (M (kern s1))) (ucast start) (unat n) = load (view s (M (kern s))) (ucast start) (unat n)"
    using i(3) outside n by (intro load_cong_span) auto
  obtain s2 where "read_memory K s start n = Some (COMMAND_ERROR_NONE, s2, load (view s (M (kern s))) (ucast start) (unat n))"
    using read_memory_sees_view [OF _ assms(1), of start n] n mapped by auto
  moreover obtain s3 where "read_memory K s1 start n = Some (COMMAND_ERROR_NONE, s3, load (view s (M (kern s))) (ucast start) (unat n))"
    using read_memory_sees_view [OF _ i(2), of start n] n mapped same by auto
  ultimately show ?thesis using i(1) by (simp add: insert_slot read_slot)
qed

theorem i386_breakpoint_invisible_witness:
  "\<exists>r h s1 bytes s2 s3.
    mono_debugger_server_insert_breakpoint (i386_ptrace_inferior flat_kernel i386_zero_regs () no_platform) 0x400000 server32 = Some (r, h, s1) \<and>
    mono_debugger_server_read_memory (i386_ptrace_inferior flat_kernel i386_zero_regs () no_platform) 0x3ffffe 8 server32
      = Some (COMMAND_ERROR_NONE, Some bytes, s2) \<and>
    mono_debugger_server_read_memory (i386_ptrace_inferior flat_kernel i386_zero_regs () no_platform) 0x3ffffe 8 s1
      = Some (COMMAND_ERROR_NONE, Some bytes, s3)"
  by (rule i386_breakpoint_invisible [OF memory_ok_servers(2)]) (simp_all add: code_byte_servers)

section \<open>Empty slots\<close>

text \<open>
  On Windows the table has no \<open>kill\<close>, no \<open>finalize\<close> and no \<open>get_registers_from_core_file\<close>, and the library
  does not test for that: these three commands call through a null pointer. All the other
  commands that the table lacks return \<open>COMMAND_ERROR_NOT_IMPLEMENTED\<close> and change nothing.
\<close>

theorem windows_null_calls:
  "mono_debugger_server_kill (i386_windows_inferior W) s = None \<and>
   mono_debugger_server_finalize (i386_windows_inferior W) s = None \<and>
   mono_debugger_server_get_registers_from_core_file (i386_windows_inferior W) vals buffer = None \<and>
   mono_debugger_server_step (i386_windows_inferior W) s = Some (COMMAND_ERROR_NOT_IMPLEMENTED, s) \<and>
   mono_debugger_server_continue (i386_windows_inferior W) s = Some (COMMAND_ERROR_NOT_IMPLEMENTED, s) \<and>
   mono_debugger_server_stop (i386_windows_inferior W) s = Some (COMMAND_ERROR_NOT_IMPLEMENTED, s) \<and>
   mono_debugger_server_call_method_3 (i386_windows_inferior W) meth arg1 addr blob cb_arg s = Some (COMMAND_ERROR_NOT_IMPLEMENTED, s) \<and>
   mono_debugger_server_enable_breakpoint (i386_windows_inferior W) bhandle s = Some (COMMAND_ERROR_NOT_IMPLEMENTED, s) \<and>
   mono_debugger_server_push_registers (i386_windows_inferior W) s = Some (COMMAND_ERROR_NOT_IMPLEMENTED, None, s) \<and>
   mono_debugger_server_set_runtime_info (i386_windows_inferior W) runtime s = s"
  by (simp add: mono_debugger_server_kill_def mono_debugger_server_finalize_def
      mono_debugger_server_get_registers_from_core_file_def mono_debugger_server_step_def mono_debugger_server_continue_def
      mono_debugger_server_stop_def mono_debugger_server_call_method_3_def mono_debugger_server_enable_breakpoint_def
      mono_debugger_server_push_registers_def mono_debugger_server_set_runtime_info_def
      guarded_def guarded_query_def i386_windows_inferior_def)

text \<open>
  \<open>mono_debugger_server_call_method_3\<close> tests the slot of \<open>call_method_2\<close>: in a table that has
  \<open>call_method_3\<close> but not \<open>call_method_2\<close> it is reported as not implemented, and in a table that has
  \<open>call_method_2\<close> but not \<open>call_method_3\<close> it calls through a null pointer.
\<close>

theorem call_method_3_tests_wrong_slot:
  "mono_debugger_server_call_method_3 (V\<lparr> vt_call_method_2 := None, vt_call_method_3 := Some f \<rparr>) meth arg1 addr blob cb_arg s
     = Some (COMMAND_ERROR_NOT_IMPLEMENTED, s) \<and>
   mono_debugger_server_call_method_3 (V\<lparr> vt_call_method_2 := Some g, vt_call_method_3 := None \<rparr>) meth arg1 addr blob cb_arg s
     = None"
  by (simp add: mono_debugger_server_call_method_3_def guarded_def)

end
