(* ===== verification/Stop_Properties.thy ===== *)
theory Stop_Properties
  imports Flat_Servers X86_Ptrace
begin

text \<open>
  From a stop of the target to the message for the debugger: a breakpoint that is hit, and an
  instruction that was executed out of line.
\<close>

section \<open>Hitting a breakpoint\<close>

text \<open>The wait status of a process that \<open>SIGTRAP\<close> has stopped.\<close>

abbreviation trap_status :: guint32 where "trap_status \<equiv> 0x057f"

lemma trap_status_simps [simp]:
  "drop_bit 16 trap_status = 0" "WIFSTOPPED trap_status" "WSTOPSIG trap_status = SIGTRAP"
  by (simp_all add: WIFSTOPPED_def WSTOPSIG_def)

text \<open>An enabled software breakpoint with id \<open>i\<close> at address \<open>a\<close>.\<close>

definition bp_enabled_at :: "('k, 'w::len, 'a) server \<Rightarrow> 'w word \<Rightarrow> gint \<Rightarrow> bool" where
  "bp_enabled_at s a i \<longleftrightarrow>
     (\<exists>p b. breakpoint_by_addr (bpm s) a = Some p \<and> bp_heap s p = Some b \<and> enabled b \<and> bp_id b = i)"

lemma check_breakpoint_hit:
  "bp_enabled_at s (ucast a) i \<Longrightarrow> check_breakpoint s a = Some (Some (word_of_int i), s)"
  by (auto simp: bp_enabled_at_def check_breakpoint_def mono_debugger_breakpoint_manager_lookup_def)

lemma hit_argument:
  assumes "id_ok i"
  shows "(scast (ucast (word_of_int i :: guint64) :: guint32) :: guint64) = word_of_int i"
proof -
  have "sint (word_of_int i :: guint32) = i" using assms by (simp add: sint_sbintrunc' signed_take_bit_int_eq_self id_ok_def)
  then have "(scast (word_of_int i :: guint32) :: guint64) = word_of_int i" by (simp add: scast_eq)
  then show ?thesis by (simp add: ucast_word_of_int_32)
qed

lemma bp_enabled_unchanged: "bp_unchanged s s' \<Longrightarrow> bp_enabled_at s' a i = bp_enabled_at s a i"
  by (simp add: bp_enabled_at_def bp_unchanged_def)

text \<open>A stop that is neither the end of a call nor a notification of the runtime nor a watchpoint.\<close>

definition x86_64_plain_stop :: "('k, 'f) x86_64_kernel \<Rightarrow> ('k, 'f) x86_64_server \<Rightarrow> ('k \<Rightarrow> bool) \<Rightarrow> guint64 \<Rightarrow> bool" where
  "x86_64_plain_stop K s good ip \<longleftrightarrow>
     (\<forall>cdata. get_callback_data (arch s) = Some cdata \<longrightarrow> call_address cdata \<noteq> ip - 1) \<and>
     (\<forall>rt. mono_runtime s = Some rt \<longrightarrow> notification_address rt \<noteq> ip - 1) \<and>
     (\<forall>d. dr_reads K s good d \<longrightarrow> watch_hit_loop d [0..<DR_NADDR] = None)"

lemma x86_64_stop_hit:
  fixes s :: "('k, 'f) x86_64_server"
  assumes t: "target_of K s A good M R F" and plain: "x86_64_plain_stop K s good (rip (R (kern s)))"
    and bp: "bp_enabled_at s (rip (R (kern s)) - 1) i"
  obtains s' where "x86_64_child_stopped K s SIGTRAP = Some (STOP_ACTION_BREAKPOINT_HIT, no_stop_data\<lparr> retval := Some (word_of_int i) \<rparr>, s')"
    "bp_unchanged s s'" "R (kern s') = (R (kern s))\<lparr> rip := rip (R (kern s)) - 1 \<rparr>" "current_regs (arch s') = R (kern s')"
    "M (kern s') = M (kern s)" "F (kern s') = F (kern s)"
proof -
  obtain k0 d where k0: "x86_arch_get_registers K s = (COMMAND_ERROR_NONE,
      s\<lparr> kern := k0, arch := (arch s)\<lparr> current_regs := R (kern s), current_fpregs := F (kern s), dr_status := d \<rparr> \<rparr>)"
    "good k0" "M k0 = M (kern s)" "F k0 = F (kern s)" "dr_reads K s good d" by (rule get_registers_ok [OF t])
  let ?r = "(R (kern s))\<lparr> rip := rip (R (kern s)) - 1 \<rparr>"
  let ?s1 = "s\<lparr> kern := k0, arch := (arch s)\<lparr> current_regs := R (kern s), current_fpregs := F (kern s), dr_status := d \<rparr> \<rparr>"
  let ?s2 = "set_current_regs ?r ?s1"
  have hit: "check_breakpoint ?s1 (rip (R (kern s)) - 1) = Some (Some (word_of_int i), ?s1)"
    using bp by (intro check_breakpoint_hit) (simp add: bp_enabled_at_def)
  have T: "target_of K ?s2 A good M R F" using t k0(2) by (simp add: set_current_regs_def)
  obtain k where k: "priv_server_ptrace_set_registers K ?s2 ?r = (COMMAND_ERROR_NONE, ?s2\<lparr> kern := k \<rparr>)"
    "R k = ?r" "F k = F k0" "M k = M k0"
    by (rule set_registers_ok [OF T]) (auto simp: set_current_regs_def)
  have c: "get_callback_data (arch ?s1) = get_callback_data (arch s)" by (simp add: get_callback_data_def)
  have w: "watch_hit_loop d [0..<DR_NADDR] = None" using plain k0(5) by (simp add: x86_64_plain_stop_def)
  have "x86_64_child_stopped K s SIGTRAP = x86_64_stopped_elsewhere K ?s1 SIGTRAP"
    using plain k0(1) c by (auto simp: x86_64_child_stopped_def x86_64_plain_stop_def Let_def split: option.splits)
  also have "\<dots> = Some (STOP_ACTION_BREAKPOINT_HIT, no_stop_data\<lparr> retval := Some (word_of_int i) \<rparr>, ?s2\<lparr> kern := k \<rparr>)"
    using plain hit w k(1)
    by (auto simp: x86_64_stopped_elsewhere_def x86_64_plain_stop_def set_current_regs_def Let_def simp del: upt.simps split: option.splits)
  finally show thesis using k k0 by (intro that [of "?s2\<lparr> kern := k \<rparr>"]) (simp_all add: bp_unchanged_def set_current_regs_def)
qed

text \<open>
  C5. When the target has executed the \<open>int 3\<close> of an enabled breakpoint on x86_64, the debugger is told
  that it hit this breakpoint, with its id, and the target's instruction pointer is back at the
  address of the breakpoint; no other register, no memory and no breakpoint data change.
\<close>

theorem x86_64_breakpoint_hit:
  fixes s :: "('k, 'f) x86_64_server"
  assumes "target_of K s A good M R F" and "rip (R (kern s)) = a + 1" and "bp_enabled_at s a i" and "id_ok i"
    and "x86_64_plain_stop K s good (a + 1)"
  shows "\<exists>d s'. server_ptrace_dispatch_event (x86_64_child_stopped K) K s trap_status = Some (MESSAGE_CHILD_HIT_BREAKPOINT, d, s') \<and>
    event_arg d = Some (word_of_int i) \<and> R (kern s') = (R (kern s))\<lparr> rip := a \<rparr> \<and> current_regs (arch s') = R (kern s') \<and>
    M (kern s') = M (kern s) \<and> F (kern s') = F (kern s) \<and> bp_unchanged s s'"
proof -
  have ip: "rip (R (kern s)) - 1 = a" using assms(2) by simp
  obtain s' where s': "x86_64_child_stopped K s SIGTRAP = Some (STOP_ACTION_BREAKPOINT_HIT, no_stop_data\<lparr> retval := Some (word_of_int i) \<rparr>, s')"
    "bp_unchanged s s'" "R (kern s') = (R (kern s))\<lparr> rip := a \<rparr>" "current_regs (arch s') = R (kern s')"
    "M (kern s') = M (kern s)" "F (kern s') = F (kern s)"
    by (rule x86_64_stop_hit [OF assms(1), of i]) (use assms ip in auto)
  then show ?thesis
    by (simp add: server_ptrace_dispatch_event_def dispatch_stop_action_def hit_argument [OF assms(4)])
      (simp add: bp_unchanged_def set_last_signal_def)
qed

text \<open>A server stopped behind the \<open>int 3\<close> of its only breakpoint, of which there is a copy in each architecture.\<close>

definition one_bp :: "'w::len BreakpointManager" where
  "one_bp = \<lparr> breakpoints = [0], breakpoint_hash = [1 \<mapsto> 0], breakpoint_by_addr = [0x400000 \<mapsto> 0] \<rparr>"

definition hit64 :: "((64, x86_64_regs, unit) flat, unit) x86_64_server" where
  "hit64 = server64\<lparr> bpm := one_bp, bp_heap := [0 \<mapsto> (sw_bp 1 0x400000)\<lparr> enabled := True, saved_insn := 0x90 \<rparr>], bp_next := 1,
     kern := flat64\<lparr> flat_regs := x86_64_zero_regs\<lparr> rip := 0x400001 \<rparr> \<rparr> \<rparr>"

definition hit32 :: "((32, i386_regs, unit) flat, unit) i386_server" where
  "hit32 = server32\<lparr> bpm := one_bp, bp_heap := [0 \<mapsto> (sw_bp 1 0x400000)\<lparr> enabled := True, saved_insn := 0x90 \<rparr>], bp_next := 1,
     kern := flat32\<lparr> flat_regs := i386_zero_regs\<lparr> eip := 0x400001 \<rparr> \<rparr> \<rparr>"

lemma bp_enabled_hit: "bp_enabled_at hit64 0x400000 1" "bp_enabled_at hit32 0x400000 1"
  by (simp_all add: bp_enabled_at_def hit64_def hit32_def one_bp_def sw_bp_def BreakpointInfo_zero_def)

theorem x86_64_breakpoint_hit_witness:
  "\<exists>d s'. server_ptrace_dispatch_event (x86_64_child_stopped flat_kernel) flat_kernel hit64 trap_status
      = Some (MESSAGE_CHILD_HIT_BREAKPOINT, d, s') \<and>
    event_arg d = Some 1 \<and> rip (flat_regs (kern s')) = 0x400000"
proof -
  have "x86_64_plain_stop flat_kernel hit64 (\<lambda>k. flat_dr k DR_STATUS = 0) 0x400001"
    by (auto simp: x86_64_plain_stop_def dr_reads_def hit64_def get_callback_data_def x86_64_arch_initialize_def simp del: upt.simps)
  then show ?thesis
    using x86_64_breakpoint_hit [where K = flat_kernel and s = hit64 and good = "\<lambda>k. flat_dr k DR_STATUS = 0" and A = UNIV
        and M = flat_mem and R = flat_regs and F = flat_fpregs and a = "0x400000" and i = 1]
      flat_target_registers_dr [where P = "\<lambda>d. d DR_STATUS = 0"] bp_enabled_hit
    by (fastforce simp: id_ok_def hit64_def flat64_def)
qed

text \<open>On i386 a stop looks for the end of a call only after it has looked for a breakpoint.\<close>

definition i386_trap_stop :: "('k, 'f) i386_kernel \<Rightarrow> ('k, 'f) i386_server \<Rightarrow> ('k \<Rightarrow> bool) \<Rightarrow> guint32 \<Rightarrow> bool" where
  "i386_trap_stop K s good ip \<longleftrightarrow>
     (\<forall>rt. mono_runtime s = Some rt \<longrightarrow> notification_address rt \<noteq> ucast (ip - 1)) \<and>
     (\<forall>d. dr_reads K s good d \<longrightarrow> watch_hit_loop d [0..<DR_NADDR] = None)"

lemma i386_stop_hit:
  fixes s :: "('k, 'f) i386_server"
  assumes t: "target_of K s A good M R F" and plain: "i386_trap_stop K s good (eip (R (kern s)))"
    and bp: "bp_enabled_at s (eip (R (kern s)) - 1) i"
  obtains s' where "i386_child_stopped K s SIGTRAP = Some (STOP_ACTION_BREAKPOINT_HIT, no_stop_data\<lparr> retval := Some (word_of_int i) \<rparr>, s')"
    "bp_unchanged s s'" "R (kern s') = (R (kern s))\<lparr> eip := eip (R (kern s)) - 1 \<rparr>" "current_regs (arch s') = R (kern s')"
    "M (kern s') = M (kern s)" "F (kern s') = F (kern s)"
proof -
  obtain k0 d where k0: "x86_arch_get_registers K s = (COMMAND_ERROR_NONE,
      s\<lparr> kern := k0, arch := (arch s)\<lparr> current_regs := R (kern s), current_fpregs := F (kern s), dr_status := d \<rparr> \<rparr>)"
    "good k0" "M k0 = M (kern s)" "F k0 = F (kern s)" "dr_reads K s good d" by (rule get_registers_ok [OF t])
  let ?r = "(R (kern s))\<lparr> eip := eip (R (kern s)) - 1 \<rparr>"
  let ?s1 = "s\<lparr> kern := k0, arch := (arch s)\<lparr> current_regs := R (kern s), current_fpregs := F (kern s), dr_status := d \<rparr> \<rparr>"
  let ?s2 = "set_current_regs ?r ?s1"
  have "(ucast (ucast (eip (R (kern s)) - 1) :: guint64) :: guint32) = eip (R (kern s)) - 1" by (rule ucast_up_down) simp
  then have hit: "check_breakpoint ?s1 (ucast (eip (R (kern s)) - 1)) = Some (Some (word_of_int i), ?s1)"
    using bp by (intro check_breakpoint_hit) (simp add: bp_enabled_at_def)
  have T: "target_of K ?s2 A good M R F" using t k0(2) by (simp add: set_current_regs_def)
  obtain k where k: "priv_server_ptrace_set_registers K ?s2 ?r = (COMMAND_ERROR_NONE, ?s2\<lparr> kern := k \<rparr>)"
    "R k = ?r" "F k = F k0" "M k = M k0"
    by (rule set_registers_ok [OF T]) (auto simp: set_current_regs_def)
  have w: "watch_hit_loop d [0..<DR_NADDR] = None" using plain k0(5) by (simp add: i386_trap_stop_def)
  have "i386_child_stopped K s SIGTRAP = Some (STOP_ACTION_BREAKPOINT_HIT, no_stop_data\<lparr> retval := Some (word_of_int i) \<rparr>, ?s2\<lparr> kern := k \<rparr>)"
    using plain hit w k(1) k0(1)
    by (auto simp: i386_child_stopped_def i386_trap_stop_def set_current_regs_def Let_def simp del: upt.simps split: option.splits)
  then show thesis using k k0 by (intro that [of "?s2\<lparr> kern := k \<rparr>"]) (simp_all add: bp_unchanged_def set_current_regs_def)
qed

text \<open>The same on i386.\<close>

theorem i386_breakpoint_hit:
  fixes s :: "('k, 'f) i386_server"
  assumes "target_of K s A good M R F" and "eip (R (kern s)) = a + 1" and "bp_enabled_at s a i" and "id_ok i"
    and "i386_trap_stop K s good (a + 1)"
  shows "\<exists>d s'. server_ptrace_dispatch_event (i386_child_stopped K) K s trap_status = Some (MESSAGE_CHILD_HIT_BREAKPOINT, d, s') \<and>
    event_arg d = Some (word_of_int i) \<and> R (kern s') = (R (kern s))\<lparr> eip := a \<rparr> \<and> current_regs (arch s') = R (kern s') \<and>
    M (kern s') = M (kern s) \<and> F (kern s') = F (kern s) \<and> bp_unchanged s s'"
proof -
  have ip: "eip (R (kern s)) - 1 = a" using assms(2) by simp
  obtain s' where s': "i386_child_stopped K s SIGTRAP = Some (STOP_ACTION_BREAKPOINT_HIT, no_stop_data\<lparr> retval := Some (word_of_int i) \<rparr>, s')"
    "bp_unchanged s s'" "R (kern s') = (R (kern s))\<lparr> eip := a \<rparr>" "current_regs (arch s') = R (kern s')"
    "M (kern s') = M (kern s)" "F (kern s') = F (kern s)"
    by (rule i386_stop_hit [OF assms(1), of i]) (use assms ip in auto)
  then show ?thesis
    by (simp add: server_ptrace_dispatch_event_def dispatch_stop_action_def hit_argument [OF assms(4)])
      (simp add: bp_unchanged_def set_last_signal_def)
qed

theorem i386_breakpoint_hit_witness:
  "\<exists>d s'. server_ptrace_dispatch_event (i386_child_stopped flat_kernel) flat_kernel hit32 trap_status
      = Some (MESSAGE_CHILD_HIT_BREAKPOINT, d, s') \<and>
    event_arg d = Some 1 \<and> eip (flat_regs (kern s')) = 0x400000"
proof -
  have "i386_trap_stop flat_kernel hit32 (\<lambda>k. flat_dr k DR_STATUS = 0) 0x400001"
    by (auto simp: i386_trap_stop_def dr_reads_def hit32_def simp del: upt.simps)
  then show ?thesis
    using i386_breakpoint_hit [where K = flat_kernel and s = hit32 and good = "\<lambda>k. flat_dr k DR_STATUS = 0" and A = UNIV
        and M = flat_mem and R = flat_regs and F = flat_fpregs and a = "0x400000" and i = 1]
      flat_target_registers_dr [where P = "\<lambda>d. d DR_STATUS = 0"] bp_enabled_hit
    by (fastforce simp: id_ok_def hit32_def flat32_def)
qed

section \<open>Executing an instruction out of line\<close>

text \<open>Every slot of the code buffer has an entry in the bitfield.\<close>

definition code_slots_ok :: "MonoRuntimeInfo \<Rightarrow> bool" where
  "code_slots_ok rt \<longleftrightarrow> unat (executable_code_total_chunks rt) \<le> length (executable_code_bitfield rt)"

lemma find_code_buffer_slot_cases:
  assumes "code_slots_ok rt"
  obtains (found) i where "i < unat (executable_code_total_chunks rt)" "executable_code_bitfield rt ! i = 0"
      "find_code_buffer_slot rt = Some (int i, rt\<lparr> executable_code_bitfield := (executable_code_bitfield rt)[i := 1],
         executable_code_last_slot := of_nat i \<rparr>)"
  | (full) "\<forall>i < unat (executable_code_total_chunks rt). executable_code_bitfield rt ! i \<noteq> 0"
      "find_code_buffer_slot rt = Some (-1, rt\<lparr> executable_code_last_slot := 0 \<rparr>)"
proof -
  let ?n = "unat (executable_code_total_chunks rt)" and ?bf = "executable_code_bitfield rt"
  have n: "?n \<le> length ?bf" using assms by (simp add: code_slots_ok_def)
  show thesis
  proof (cases rule: scan_bitfield_cases [OF n, of "unat (executable_code_last_slot rt + 1)"])
    case (1 j)
    then show ?thesis by (intro found [of j]) (simp_all add: find_code_buffer_slot_def)
  next
    case first: 2
    show ?thesis
    proof (cases rule: scan_bitfield_cases [OF n, of 0])
      case (1 j)
      then show ?thesis using first by (intro found [of j]) (simp_all add: find_code_buffer_slot_def)
    next
      case 2
      then show ?thesis using first by (intro full) (simp_all add: find_code_buffer_slot_def)
    qed
  qed
qed

text \<open>
  C7. \<open>find_code_buffer_slot\<close> always returns: a slot of the buffer that was free and is taken now, or -1 and
  only if no slot is free; it never looks outside the bitfield and changes no other slot.
\<close>

theorem code_buffer_slot_bounds:
  assumes "code_slots_ok rt"
  shows "\<exists>sl rt'. find_code_buffer_slot rt = Some (sl, rt') \<and> code_slots_ok rt' \<and>
    (0 \<le> sl \<and> nat sl < unat (executable_code_total_chunks rt) \<and> executable_code_bitfield rt ! nat sl = 0 \<and>
       executable_code_bitfield rt' = (executable_code_bitfield rt)[nat sl := 1] \<or>
     sl = -1 \<and> (\<forall>i < unat (executable_code_total_chunks rt). executable_code_bitfield rt ! i \<noteq> 0) \<and>
       executable_code_bitfield rt' = executable_code_bitfield rt)"
  by (cases rule: find_code_buffer_slot_cases [OF assms]) (use assms in \<open>auto simp: code_slots_ok_def\<close>)

text \<open>A runtime with a code buffer of two chunks.\<close>

definition runtime2 :: MonoRuntimeInfo where
  "runtime2 = mono_debugger_server_initialize_mono_runtime 8 0x500000 0x600000 32 0x700000 0x700100 0"

lemma runtime2_fields [simp]:
  "executable_code_bitfield runtime2 = [0, 0]" "executable_code_last_slot runtime2 = 0"
  "executable_code_total_chunks runtime2 = 2" "executable_code_buffer runtime2 = 0x600000"
  "executable_code_chunk_size runtime2 = 16" "notification_address runtime2 = 0x500000" "code_slots_ok runtime2"
proof -
  have "replicate 2 (0 :: guint8) = [0, 0]" by (simp add: numeral_2_eq_2)
  then show "executable_code_bitfield runtime2 = [0, 0]"
    by (simp add: runtime2_def mono_debugger_server_initialize_mono_runtime_def EXECUTABLE_CODE_CHUNK_SIZE_def)
qed (simp_all add: runtime2_def mono_debugger_server_initialize_mono_runtime_def EXECUTABLE_CODE_CHUNK_SIZE_def
      code_slots_ok_def)

theorem code_buffer_slot_bounds_witness:
  "\<exists>sl rt'. find_code_buffer_slot runtime2 = Some (sl, rt') \<and> code_slots_ok rt' \<and> 0 \<le> sl \<and> nat sl < 2 \<and>
     executable_code_bitfield rt' = [0, 0][nat sl := 1]"
  using code_buffer_slot_bounds [of runtime2] by fastforce

text \<open>What a successful \<open>execute_instruction\<close> leaves behind.\<close>

lemma x86_64_execute_started:
  assumes exec: "x86_64_execute_instruction K s insn upd = Some (COMMAND_ERROR_NONE, s1)"
    and rt: "mono_runtime s = Some rt" and ok: "code_slots_ok rt"
  obtains i cb where "i < length (executable_code_bitfield rt)" "executable_code_bitfield rt ! i = 0"
    "mono_runtime s1 = Some (rt\<lparr> executable_code_bitfield := (executable_code_bitfield rt)[i := 1], executable_code_last_slot := of_nat i \<rparr>)"
    "code_buffer (arch s1) = Some cb" "slot cb = int i" "insn_size cb = int (length insn)" "update_ip cb = upd"
    "original_ip cb = rip (current_regs (arch s))"
    "code_address cb = executable_code_buffer rt + ucast (word_of_int (int i) * executable_code_chunk_size rt)"
proof (cases rule: find_code_buffer_slot_cases [OF ok])
  case 2
  then show ?thesis using exec rt by (auto simp: x86_64_execute_instruction_def split: if_splits)
next
  case found: (1 i)
  let ?rt = "rt\<lparr> executable_code_bitfield := (executable_code_bitfield rt)[i := 1], executable_code_last_slot := of_nat i \<rparr>"
  let ?a = "executable_code_buffer rt + ucast (word_of_int (int i) * executable_code_chunk_size rt)"
  let ?cb = "\<lparr> slot = int i, insn_size = int (length insn), update_ip = upd, code_address = ?a, original_ip = rip (current_regs (arch s)) \<rparr>"
  let ?s2 = "s\<lparr> mono_runtime := Some ?rt, arch := (arch s)\<lparr> code_buffer := Some ?cb \<rparr> \<rparr>"
  let ?regs = "(current_regs (arch s))\<lparr> orig_rax := -1, rip := ?a \<rparr>"
  obtain s3 where w: "server_ptrace_write_memory K ?s2 ?a insn = Some (COMMAND_ERROR_NONE, s3)"
    and r: "(let (result, s) = priv_server_ptrace_set_registers K (set_current_regs ?regs s3) ?regs in
        if result \<noteq> COMMAND_ERROR_NONE then Some (result, s) else Some (server_ptrace_step K s)) = Some (COMMAND_ERROR_NONE, s1)"
    using exec rt found(3)
    by (auto simp: x86_64_execute_instruction_def Let_def set_current_regs_def split: if_splits)
  obtain r4 s4 where s4: "priv_server_ptrace_set_registers K (set_current_regs ?regs s3) ?regs = (r4, s4)" by fastforce
  have step: "server_ptrace_step K s4 = (COMMAND_ERROR_NONE, s1)" using r unfolding s4 by (auto split: if_splits)
  have "mono_runtime s1 = mono_runtime s4 \<and> arch s1 = arch s4"
    using step by (auto simp: server_ptrace_step_def checked_def Let_def split: prod.splits sum.splits)
  moreover have "mono_runtime s4 = mono_runtime s3 \<and> code_buffer (arch s4) = code_buffer (arch s3)"
    using kern_only_op_eqs(1) [OF s4] by (auto elim!: kern_onlyE simp: set_current_regs_def)
  moreover have "mono_runtime s3 = Some ?rt \<and> code_buffer (arch s3) = Some ?cb"
    using kern_only_write [OF w] by (auto elim!: kern_onlyE)
  ultimately show ?thesis using found ok by (intro that [of i ?cb]) (simp_all add: code_slots_ok_def)
qed

text \<open>
  C6. An instruction executed out of line on x86_64: after \<open>execute_instruction\<close> has succeeded and the
  target has executed the instruction (it stops behind it, in the code buffer), the stop is reported,
  the instruction pointer is back where it was, behind the original instruction if \<open>update_ip\<close>
  was asked for, and every other register is as the instruction left it; the slot of the code buffer
  is free again.
\<close>

theorem x86_64_execute_instruction_returns:
  fixes s s2 :: "('k, 'f) x86_64_server"
  assumes exec: "x86_64_execute_instruction K s insn upd = Some (COMMAND_ERROR_NONE, s1)"
    and rt: "mono_runtime s = Some rt" "code_slots_ok rt"
    and ran: "arch s2 = arch s1" "mono_runtime s2 = mono_runtime s1" "code_buffer (arch s1) = Some cb"
    and t: "target_of K s2 A good M R F" and ip: "rip (R (kern s2)) = code_address cb + of_nat (length insn)"
    and plain: "x86_64_plain_stop K s2 good (rip (R (kern s2)))"
    and no_bp: "mono_debugger_breakpoint_manager_lookup (bpm s2) (rip (R (kern s2)) - 1) = None"
  shows "\<exists>s3. x86_64_child_stopped K s2 SIGTRAP = Some (STOP_ACTION_STOPPED, no_stop_data, s3) \<and>
    R (kern s3) = (R (kern s2))\<lparr> rip := rip (current_regs (arch s)) + (if upd then of_nat (length insn) else 0) \<rparr> \<and>
    current_regs (arch s3) = R (kern s3) \<and> code_buffer (arch s3) = None \<and>
    (\<exists>rt'. mono_runtime s3 = Some rt' \<and> executable_code_bitfield rt' = executable_code_bitfield rt)"
proof -
  obtain i where i: "i < length (executable_code_bitfield rt)" "executable_code_bitfield rt ! i = 0"
    "mono_runtime s1 = Some (rt\<lparr> executable_code_bitfield := (executable_code_bitfield rt)[i := 1], executable_code_last_slot := of_nat i \<rparr>)"
    "slot cb = int i" "insn_size cb = int (length insn)" "update_ip cb = upd" "original_ip cb = rip (current_regs (arch s))"
    by (rule x86_64_execute_started [OF exec rt]) (use ran(3) in auto)
  obtain k0 d where k0: "x86_arch_get_registers K s2 = (COMMAND_ERROR_NONE,
      s2\<lparr> kern := k0, arch := (arch s2)\<lparr> current_regs := R (kern s2), current_fpregs := F (kern s2), dr_status := d \<rparr> \<rparr>)"
    "good k0" "dr_reads K s2 good d" by (rule get_registers_ok [OF t])
  let ?a = "s2\<lparr> kern := k0, arch := (arch s2)\<lparr> current_regs := R (kern s2), current_fpregs := F (kern s2), dr_status := d \<rparr> \<rparr>"
  let ?rt = "rt\<lparr> executable_code_bitfield := (executable_code_bitfield rt)[i := 1], executable_code_last_slot := of_nat i \<rparr>"
  let ?rt' = "?rt\<lparr> executable_code_bitfield := (executable_code_bitfield ?rt)[i := 0] \<rparr>"
  let ?r = "(R (kern s2))\<lparr> rip := rip (current_regs (arch s)) + (if upd then of_nat (length insn) else 0) \<rparr>"
  let ?b = "set_current_regs ?r (?a\<lparr> mono_runtime := Some ?rt' \<rparr>)"
  have T: "target_of K ?b A good M R F" using t k0(2) by (simp add: set_current_regs_def)
  obtain k where k: "priv_server_ptrace_set_registers K ?b ?r = (COMMAND_ERROR_NONE, ?b\<lparr> kern := k \<rparr>)" "R k = ?r"
    by (rule set_registers_ok [OF T]) auto
  have c: "get_callback_data (arch ?a) = get_callback_data (arch s2)" by (simp add: get_callback_data_def)
  have w: "watch_hit_loop d [0..<DR_NADDR] = None" using plain k0(3) by (simp add: x86_64_plain_stop_def)
  have none: "check_breakpoint ?a (rip (R (kern s2)) - 1) = Some (None, ?a)"
    using no_bp by (intro check_breakpoint_None) simp
  have "x86_64_child_stopped K s2 SIGTRAP = x86_64_stopped_elsewhere K ?a SIGTRAP"
    using plain k0(1) c by (auto simp: x86_64_child_stopped_def x86_64_plain_stop_def Let_def split: option.splits)
  also have "\<dots> = x86_64_code_buffer_done K ?a cb"
    using plain none w ran
    by (auto simp: x86_64_stopped_elsewhere_def x86_64_plain_stop_def Let_def simp del: upt.simps split: option.splits)
  also have "\<dots> = Some (STOP_ACTION_STOPPED, no_stop_data, (?b\<lparr> kern := k \<rparr>)\<lparr> arch := (arch (?b\<lparr> kern := k \<rparr>))\<lparr> code_buffer := None \<rparr> \<rparr>)"
    using k(1) i ran ip by (simp add: x86_64_code_buffer_done_def Let_def set_current_regs_def split: if_splits)
  finally show ?thesis using k(2) i(1,2) by (simp add: set_current_regs_def list_update_same_conv)
qed

lemma flat_write64:
  fixes s :: "((64, 'r, 'f) flat, 64, 'a) server"
  assumes "length buf < 2 ^ 31"
  shows "\<exists>k. server_ptrace_write_memory flat_kernel s a buf = Some (COMMAND_ERROR_NONE, s\<lparr> kern := k \<rparr>)"
  using write_memory [OF byte_words_32_64(2) flat_target_memory, where s = s and buffer = buf and addr = a] assms by auto

lemma runtime2_slot: "find_code_buffer_slot runtime2 = Some (1, runtime2\<lparr> executable_code_bitfield := [0, 1], executable_code_last_slot := 1 \<rparr>)"
  by (simp add: find_code_buffer_slot_def scan_bitfield.simps)

lemma flat_execute64:
  fixes s :: "((64, x86_64_regs, unit) flat, unit) x86_64_server"
  assumes "mono_runtime s = Some runtime2" and "code_buffer (arch s) = None"
  shows "\<exists>s1 cb. x86_64_execute_instruction flat_kernel s [0x90] upd = Some (COMMAND_ERROR_NONE, s1) \<and>
    code_buffer (arch s1) = Some cb \<and> code_address cb = 0x600010 \<and> bpm s1 = bpm s \<and> callback_stack (arch s1) = callback_stack (arch s)"
proof -
  let ?rt = "runtime2\<lparr> executable_code_bitfield := [0, 1], executable_code_last_slot := 1 \<rparr>"
  let ?cb = "\<lparr> slot = 1, insn_size = 1, update_ip = upd, code_address = 0x600010, original_ip = rip (current_regs (arch s)) \<rparr>"
  let ?s2 = "s\<lparr> mono_runtime := Some ?rt, arch := (arch s)\<lparr> code_buffer := Some ?cb \<rparr> \<rparr>"
  obtain k where "server_ptrace_write_memory flat_kernel ?s2 0x600010 [0x90] = Some (COMMAND_ERROR_NONE, ?s2\<lparr> kern := k \<rparr>)"
    using flat_write64 [of "[0x90]" ?s2 "0x600010"] by auto
  then show ?thesis using assms runtime2_slot
    by (simp add: x86_64_execute_instruction_def set_current_regs_def priv_server_ptrace_set_registers_def server_ptrace_step_def Let_def)
qed

theorem x86_64_execute_instruction_returns_witness:
  "\<exists>s1 s3. x86_64_execute_instruction flat_kernel (server64\<lparr> mono_runtime := Some runtime2 \<rparr>) [0x90] True = Some (COMMAND_ERROR_NONE, s1) \<and>
    x86_64_child_stopped flat_kernel (s1\<lparr> kern := flat64\<lparr> flat_regs := x86_64_zero_regs\<lparr> rax := 7, rip := 0x600011 \<rparr> \<rparr> \<rparr>) SIGTRAP
      = Some (STOP_ACTION_STOPPED, no_stop_data, s3) \<and>
    flat_regs (kern s3) = x86_64_zero_regs\<lparr> rax := 7, rip := 0x400001 \<rparr> \<and> code_buffer (arch s3) = None"
proof -
  let ?s = "server64\<lparr> mono_runtime := Some runtime2 \<rparr>"
  obtain s1 cb where s1: "x86_64_execute_instruction flat_kernel ?s [0x90] True = Some (COMMAND_ERROR_NONE, s1)"
    "code_buffer (arch s1) = Some cb" "code_address cb = 0x600010" "bpm s1 = mono_debugger_breakpoint_manager_new"
    "callback_stack (arch s1) = []"
    using flat_execute64 [of ?s True] by (auto simp: x86_64_arch_initialize_def)
  let ?s2 = "s1\<lparr> kern := flat64\<lparr> flat_regs := x86_64_zero_regs\<lparr> rax := 7, rip := 0x600011 \<rparr> \<rparr> \<rparr>"
  obtain rt where rt: "mono_runtime s1 = Some rt" "notification_address rt = 0x500000"
    by (rule x86_64_execute_started [OF s1(1) _ runtime2_fields(7)]) auto
  have "x86_64_plain_stop flat_kernel ?s2 (\<lambda>k. flat_dr k DR_STATUS = 0) 0x600011"
    using s1 rt by (auto simp: x86_64_plain_stop_def dr_reads_def get_callback_data_def simp del: upt.simps)
  then show ?thesis
    using x86_64_execute_instruction_returns [OF s1(1) _ runtime2_fields(7), where ?s2.0 = ?s2 and cb = cb and A = UNIV
        and good = "\<lambda>k. flat_dr k DR_STATUS = 0" and M = flat_mem and R = flat_regs and F = flat_fpregs]
      flat_target_registers_dr [where P = "\<lambda>d. d DR_STATUS = 0"] s1
    by (auto simp: flat64_def x86_64_arch_initialize_def bpm_defs)
qed

end
