(* ===== verification/Data_Properties.thy ===== *)
theory Data_Properties
  imports Stop_Properties
begin

text \<open>
  Data that goes through the server: registers, memory, command lines, debug registers, wait statuses.
\<close>

section \<open>Registers\<close>

lemma current_regs_set_current_regs: "current_regs (arch (set_current_regs r s)) = r"
  by (simp add: set_current_regs_def)

text \<open>Every register of the debugger's list is one of the 27 that the x86_64 calls copy.\<close>

lemma x86_64_set_registers_eq:
  "\<exists>r. x86_64_set_registers K s v = priv_server_ptrace_set_registers K (set_current_regs r s) r \<and>
     (\<forall>w. x86_64_register_values r w = v)"
  unfolding x86_64_set_registers_def Let_def current_regs_set_current_regs
proof (intro exI conjI allI ext, rule refl)
  show "x86_64_register_values ((current_regs (arch s))\<lparr>
          r15 := v DEBUGGER_REG_R15, r14 := v DEBUGGER_REG_R14, r13 := v DEBUGGER_REG_R13, r12 := v DEBUGGER_REG_R12,
          rbp := v DEBUGGER_REG_RBP, rbx := v DEBUGGER_REG_RBX, r11 := v DEBUGGER_REG_R11, r10 := v DEBUGGER_REG_R10,
          r9 := v DEBUGGER_REG_R9, r8 := v DEBUGGER_REG_R8, rax := v DEBUGGER_REG_RAX, rcx := v DEBUGGER_REG_RCX,
          rdx := v DEBUGGER_REG_RDX, rsi := v DEBUGGER_REG_RSI, rdi := v DEBUGGER_REG_RDI, orig_rax := v DEBUGGER_REG_ORIG_RAX,
          rip := v DEBUGGER_REG_RIP, seg_cs := v DEBUGGER_REG_CS, rflags := v DEBUGGER_REG_EFLAGS, rsp := v DEBUGGER_REG_RSP,
          seg_ss := v DEBUGGER_REG_SS, fs_base := v DEBUGGER_REG_FS_BASE, gs_base := v DEBUGGER_REG_GS_BASE,
          seg_ds := v DEBUGGER_REG_DS, seg_es := v DEBUGGER_REG_ES, seg_fs := v DEBUGGER_REG_FS, seg_gs := v DEBUGGER_REG_GS \<rparr>) w x
      = v x" for w x
    by (cases x) (simp_all add: x86_64_register_values_def)
qed

text \<open>
  Setting the registers and getting them again on x86_64 returns every one of the debugger's 27
  values, and the stopped target has the registers that the server then reports.
\<close>

theorem x86_64_set_get_registers:
  fixes s :: "('k, 'f) x86_64_server"
  assumes t: "target_of K s A good M R F"
  shows "\<exists>s'. x86_64_set_registers K s v = (COMMAND_ERROR_NONE, s') \<and> x86_64_get_registers s' w = (COMMAND_ERROR_NONE, v) \<and>
    x86_64_register_values (R (kern s')) w = v \<and> M (kern s') = M (kern s)"
proof -
  obtain r where r: "x86_64_set_registers K s v = priv_server_ptrace_set_registers K (set_current_regs r s) r"
    "\<forall>w. x86_64_register_values r w = v" using x86_64_set_registers_eq by blast
  have T: "target_of K (set_current_regs r s) A good M R F" using t by (simp add: set_current_regs_def)
  obtain k where "priv_server_ptrace_set_registers K (set_current_regs r s) r = (COMMAND_ERROR_NONE, (set_current_regs r s)\<lparr> kern := k \<rparr>)"
    "R k = r" "M k = M (kern s)" by (rule set_registers_ok [OF T]) (auto simp: set_current_regs_def)
  then show ?thesis using r by (simp add: x86_64_get_registers_def set_current_regs_def)
qed

theorem x86_64_set_get_registers_witness:
  "\<exists>s'. x86_64_set_registers flat_kernel server64 (\<lambda>x. if x = DEBUGGER_REG_RAX then 7 else 0) = (COMMAND_ERROR_NONE, s') \<and>
    snd (x86_64_get_registers s' (\<lambda>_. 1)) DEBUGGER_REG_RAX = 7 \<and> rax (flat_regs (kern s')) = 7"
proof -
  let ?v = "\<lambda>x. if x = DEBUGGER_REG_RAX then 7 else 0"
  obtain s' where s': "x86_64_set_registers flat_kernel server64 ?v = (COMMAND_ERROR_NONE, s')"
    "x86_64_get_registers s' (\<lambda>_. 1) = (COMMAND_ERROR_NONE, ?v)" "x86_64_register_values (flat_regs (kern s')) (\<lambda>_. 1) = ?v"
    using x86_64_set_get_registers [where K = flat_kernel and s = server64 and A = UNIV and good = "\<lambda>_. True" and M = flat_mem
        and R = flat_regs and F = flat_fpregs and v = ?v and w = "\<lambda>_. 1"] flat_target_registers by auto
  have "rax (flat_regs (kern s')) = 7" using fun_cong [OF s'(3), of DEBUGGER_REG_RAX] by (simp add: x86_64_register_values_def)
  then show ?thesis using s'(1,2) by auto
qed

text \<open>
  The registers in a core file: decoding the bytes of a register struct gives back every register, on
  both architectures, so the debugger reads from a core file what it would read from the process.
\<close>

theorem core_file_registers:
  "x86_64_get_registers_from_core_file vals (x86_64_regs_bytes r) = x86_64_register_values r vals \<and>
   i386_get_registers_from_core_file vals (i386_regs_bytes q) = i386_register_values q vals"
proof -
  have "x86_64_regs_of_bytes (x86_64_regs_bytes r) = r"
    unfolding x86_64_regs_of_bytes_def x86_64_regs_bytes_def
    by (simp add: x86_64_regs_at_pushed x86_64_regs_list_def del: concat.simps list.map)
  moreover have "i386_regs_of_bytes (i386_regs_bytes q) = q"
    unfolding i386_regs_of_bytes_def i386_regs_bytes_def
    by (simp add: i386_regs_at_pushed i386_regs_list_def del: concat.simps list.map)
  ultimately show ?thesis
    by (simp add: x86_64_get_registers_from_core_file_def i386_get_registers_from_core_file_def)
qed

text \<open>
  C18. \<open>push_registers\<close> and \<open>pop_registers\<close> on x86_64: pushing writes the registers below the red zone
  of the stack at an aligned address, from where they can be decoded again; a second push is refused
  and changes nothing; popping gives the target exactly the registers it had before.
\<close>

theorem x86_64_push_pop_registers:
  fixes s :: "('k, 'f) x86_64_server"
  assumes t: "target_of K s A good M R F" and cur: "current_regs (arch s) = R (kern s)"
    and none: "pushed_regs_rsp (arch s) = 0" and sp: "rsp (R (kern s)) \<noteq> 0"
    and new: "sp' = (rsp (R (kern s)) - 360) AND 0xfffffffffffffff0" and mapped: "written_span sp' 216 \<subseteq> A"
  shows "\<exists>s1 s2. x86_64_push_registers K s = Some (COMMAND_ERROR_NONE, Some sp', s1) \<and>
    x86_64_regs_of_bytes (load (M (kern s1)) sp' 216) = (R (kern s))\<lparr> rsp := sp' \<rparr> \<and> current_regs (arch s1) = (R (kern s))\<lparr> rsp := sp' \<rparr> \<and>
    x86_64_push_registers K s1 = Some (COMMAND_ERROR_INTERNAL_ERROR, None, s1) \<and>
    x86_64_pop_registers K s1 = (COMMAND_ERROR_NONE, s2) \<and> R (kern s2) = R (kern s) \<and>
    current_regs (arch s2) = R (kern s) \<and> pushed_regs_rsp (arch s2) = 0"
proof -
  let ?r = "(R (kern s))\<lparr> rsp := sp' \<rparr>"
  let ?a = "set_current_regs ?r (s\<lparr> arch := (arch s)\<lparr> pushed_regs_rsp := rsp (R (kern s)) \<rparr> \<rparr>)"
  have T: "target_of K ?a A good M R F" using t by (simp add: set_current_regs_def)
  obtain k where k: "priv_server_ptrace_set_registers K ?a ?r = (COMMAND_ERROR_NONE, ?a\<lparr> kern := k \<rparr>)" "good k" "R k = ?r" "M k = M (kern s)"
    by (rule set_registers_ok [OF T]) (auto simp: set_current_regs_def)
  let ?bytes = "x86_64_regs_bytes ?r"
  have len: "length ?bytes = 216" by (simp add: x86_64_regs_bytes_def x86_64_regs_list_def)
  have T': "target_of K (?a\<lparr> kern := k \<rparr>) A good M R F" using T k(2) by simp
  obtain k1 where k1: "server_ptrace_write_memory K (?a\<lparr> kern := k \<rparr>) sp' ?bytes = Some (COMMAND_ERROR_NONE, ?a\<lparr> kern := k1 \<rparr>)"
    "good k1" "M k1 = store (M k) sp' ?bytes"
    using write_memory [OF byte_words_32_64(2) target_registersD(1) [OF conjunct1 [OF T']] conjunct2 [OF T'], of ?bytes sp'] mapped len
    by (auto simp: ucast_up_down)
  let ?s1 = "?a\<lparr> kern := k1 \<rparr>" and ?b = "s\<lparr> kern := k1, arch := (arch s)\<lparr> current_regs := R (kern s), pushed_regs_rsp := 0 \<rparr> \<rparr>"
  have push: "x86_64_push_registers K s = Some (COMMAND_ERROR_NONE, Some sp', ?s1)"
    using none cur k(1) k1(1) new
    by (simp add: x86_64_push_registers_def Let_def set_current_regs_def AMD64_RED_ZONE_SIZE_def x86_64_sizeof_regs_def)
  have "load (M k1) sp' 216 = ?bytes" using load_store_same [of ?bytes "M k" sp'] k1(3) len by simp
  then have mem: "x86_64_regs_of_bytes (load (M (kern ?s1)) sp' 216) = ?r"
    by (simp add: x86_64_regs_of_bytes_def x86_64_regs_bytes_def x86_64_regs_at_pushed x86_64_regs_list_def del: concat.simps list.map)
  have T2: "target_of K ?b A good M R F" using t k1(2) by (simp add: set_current_regs_def)
  obtain k2 where k2: "priv_server_ptrace_set_registers K ?b (R (kern s)) = (COMMAND_ERROR_NONE, ?b\<lparr> kern := k2 \<rparr>)" "R k2 = R (kern s)"
    by (rule set_registers_ok [OF T2])
  have "x86_64_pop_registers K ?s1 = (COMMAND_ERROR_NONE, ?b\<lparr> kern := k2 \<rparr>)"
    using k2(1) sp by (simp add: x86_64_pop_registers_def Let_def set_current_regs_def)
  moreover have "x86_64_push_registers K ?s1 = Some (COMMAND_ERROR_INTERNAL_ERROR, None, ?s1)"
    using sp by (simp add: x86_64_push_registers_def set_current_regs_def)
  ultimately show ?thesis using push mem k2(2)
    by (intro exI [of _ ?s1] exI [of _ "?b\<lparr> kern := k2 \<rparr>"]) (simp add: set_current_regs_def)
qed

theorem x86_64_push_pop_registers_witness:
  "\<exists>s1 s2. x86_64_push_registers flat_kernel server64 = Some (COMMAND_ERROR_NONE, Some 0x7ffefe90, s1) \<and>
    x86_64_push_registers flat_kernel s1 = Some (COMMAND_ERROR_INTERNAL_ERROR, None, s1) \<and>
    x86_64_pop_registers flat_kernel s1 = (COMMAND_ERROR_NONE, s2) \<and> flat_regs (kern s2) = flat_regs flat64"
proof -
  have c: "current_regs (arch server64) = flat_regs (kern server64)" "pushed_regs_rsp (arch server64) = 0"
    by (simp_all add: x86_64_arch_initialize_def)
  have "rsp (flat_regs (kern server64)) = 0x7fff0000" by (simp add: flat64_def)
  then show ?thesis
    using x86_64_push_pop_registers [where A = UNIV and good = "\<lambda>_. True" and M = flat_mem and R = flat_regs and F = flat_fpregs
        and K = flat_kernel and s = server64 and sp' = "0x7ffefe90"] flat_target_registers c
    by auto
qed

section \<open>Memory\<close>

text \<open>
  C19. Memory written through the server can be read back, whatever its length: the write returns, the
  bytes of the buffer are in memory and no other byte changes, and a read of the range returns the
  buffer, provided no enabled breakpoint lies in it.
\<close>

theorem write_read_memory:
  fixes s :: "('k, 'f) x86_64_server"
  assumes m: "memory_ok K s A good M" and n: "unat addr + length buf < 2 ^ 64" "length buf < 2 ^ 32"
    and mapped: "written_span addr (length buf) \<subseteq> A"
    and free: "\<forall>x \<in> span addr (length buf). patched (bp_heap s) (bpm s) x = None"
  shows "\<exists>s1 s2. server_ptrace_write_memory K s addr buf = Some (COMMAND_ERROR_NONE, s1) \<and>
    M (kern s1) = store (M (kern s)) addr buf \<and>
    read_memory K s1 addr (of_nat (length buf)) = Some (COMMAND_ERROR_NONE, s2, buf)"
proof -
  obtain k where k: "server_ptrace_write_memory K s addr buf = Some (COMMAND_ERROR_NONE, s\<lparr> kern := k \<rparr>)" "good k"
    "M k = store (M (kern s)) addr buf"
    using write_memory [OF byte_words_32_64(2) memory_okD(4) [OF m] memory_okD(5) [OF m], of buf addr] n mapped
    by (auto simp: ucast_up_down)
  let ?s = "s\<lparr> kern := k \<rparr>"
  have len: "unat (of_nat (length buf) :: guint32) = length buf" using n(2) by (intro unat_of_nat_small) simp
  have sub: "span addr (length buf) \<subseteq> A" using span_written_span [of addr "length buf"] mapped by auto
  have ok: "server_ok ?s" "addrs_canonical ?s"
    using memory_okD(1,8) [OF m] by (simp_all add: server_ok_def store_ok_def addrs_canonical_def)
  have "\<exists>k'. read_memory K ?s addr (of_nat (length buf)) = Some (COMMAND_ERROR_NONE, ?s\<lparr> kern := k' \<rparr>,
      load (view ?s (M k)) addr (length buf))"
    using read_memory_view [OF byte_words_32_64(2) ok, of K A good M addr "of_nat (length buf)"] memory_okD(4) [OF m] k(2) len n(1) sub
    by (auto simp: ucast_up_down)
  moreover have "load (view ?s (M k)) addr (length buf) = load (M k) addr (length buf)"
    using free n(1) by (intro load_cong_span) (auto simp: view_def)
  moreover have "load (M k) addr (length buf) = buf" using load_store_same [of buf "M (kern s)" addr] k(3) n(1) by simp
  ultimately show ?thesis using k by auto
qed

theorem write_read_memory_witness:
  "\<exists>s1 s2. server_ptrace_write_memory flat_kernel server64 0x601001 [1, 2, 3, 4, 5, 6, 7, 8, 9] = Some (COMMAND_ERROR_NONE, s1) \<and>
    read_memory flat_kernel s1 0x601001 9 = Some (COMMAND_ERROR_NONE, s2, [1, 2, 3, 4, 5, 6, 7, 8, 9])"
  using write_read_memory [OF memory_ok_servers(1), of "0x601001" "[1, 2, 3, 4, 5, 6, 7, 8, 9]"]
  by (auto simp: patched_def)

text \<open>
  C32. Writing over an enabled breakpoint is not handled: the \<open>int 3\<close> is overwritten, so the breakpoint
  is gone, and reading the address still returns the byte that was saved when the breakpoint was set
  and not the byte written.
\<close>

theorem write_over_breakpoint_lost:
  fixes s :: "('k, 'f) x86_64_server"
  assumes m: "memory_ok K s A good M" and n: "unat addr + 1 < 2 ^ 64" and mapped: "written_span addr 1 \<subseteq> A"
    and bp: "patched (bp_heap s) (bpm s) addr = Some saved"
  shows "\<exists>s1 s2. server_ptrace_write_memory K s addr [x] = Some (COMMAND_ERROR_NONE, s1) \<and>
    M (kern s1) addr = x \<and> read_memory K s1 addr 1 = Some (COMMAND_ERROR_NONE, s2, [saved])"
proof -
  obtain k where k: "server_ptrace_write_memory K s addr [x] = Some (COMMAND_ERROR_NONE, s\<lparr> kern := k \<rparr>)" "good k"
    "M k = store (M (kern s)) addr [x]"
    using write_memory [OF byte_words_32_64(2) memory_okD(4) [OF m] memory_okD(5) [OF m], of "[x]" addr] n mapped
    by (auto simp: ucast_up_down)
  let ?s = "s\<lparr> kern := k \<rparr>"
  have sub: "span addr 1 \<subseteq> A" using span_written_span [of addr 1] mapped by auto
  have ok: "server_ok ?s" "addrs_canonical ?s"
    using memory_okD(1,8) [OF m] by (simp_all add: server_ok_def store_ok_def addrs_canonical_def)
  have "\<exists>k'. read_memory K ?s addr 1 = Some (COMMAND_ERROR_NONE, ?s\<lparr> kern := k' \<rparr>, load (view ?s (M k)) addr 1)"
    using read_memory_view [OF byte_words_32_64(2) ok, of K A good M addr 1] memory_okD(4) [OF m] k(2) n sub
    by (auto simp: ucast_up_down)
  moreover have "load (view ?s (M k)) addr 1 = [saved]" using bp by (simp add: view_def)
  ultimately show ?thesis using k by (auto simp: store_def)
qed

text \<open>A server with an enabled breakpoint at 0x400000, on a memory full of \<open>nop\<close> instructions.\<close>

definition bp64 :: "((64, x86_64_regs, unit) flat, unit) x86_64_server" where
  "bp64 = hit64\<lparr> kern := flat64\<lparr> flat_mem := (\<lambda>_. 0x90)(0x400000 := 0xcc) \<rparr>, last_breakpoint_id := 1 \<rparr>"

lemma memory_ok_bp64: "memory_ok flat_kernel bp64 UNIV (\<lambda>_. True) flat_mem"
proof -
  have "server_ok bp64"
    by (auto simp: bp64_def hit64_def server_ok_def store_ok_def managers_ok_def bpm_ok_def bpm_ids_ok_def bpm_addrs_ok_def
        bpm_addrs_sound_def one_bp_def sw_bp_def BreakpointInfo_zero_def bp_kind_ok_def id_ok_def x86_64_arch_initialize_def
        split: if_splits)
  moreover have "planted bp64 UNIV (flat_mem (kern bp64))"
    by (auto simp: planted_def bp64_def hit64_def one_bp_def sw_bp_def BreakpointInfo_zero_def code_byte_def runtime_area_def slot_ok_def)
  ultimately show ?thesis using flat_target_memory
    by (auto simp: memory_ok_def target_ready_def bp64_def hit64_def table_ok_def runtime_area_def addrs_canonical_def canonical_def
        one_bp_def sw_bp_def BreakpointInfo_zero_def)
qed

theorem write_over_breakpoint_lost_witness:
  "\<exists>s1 s2. server_ptrace_write_memory flat_kernel bp64 0x400000 [0xc3] = Some (COMMAND_ERROR_NONE, s1) \<and>
    flat_mem (kern s1) 0x400000 = 0xc3 \<and> read_memory flat_kernel s1 0x400000 1 = Some (COMMAND_ERROR_NONE, s2, [0x90])"
  by (rule write_over_breakpoint_lost [OF memory_ok_bp64])
    (simp_all add: patched_def bp64_def hit64_def one_bp_def)

text \<open>
  A short \<open>pread64\<close> is not handled: if the kernel returns one byte at a time, which it may, a read of
  two different bytes returns the first one twice.
\<close>

definition short_kernel :: "((64, x86_64_regs, unit) flat, 64, x86_64_regs, unit) kernel" where
  "short_kernel = flat_kernel\<lparr> pread64 := (\<lambda>k fd n off. (Inr (load (flat_mem k) off (min 1 (unat n))), k)) \<rparr>"

theorem short_read_repeats:
  "priv_server_ptrace_read_memory short_kernel (server64\<lparr> kern := flat64\<lparr> flat_mem := (\<lambda>a. if a = 0x1000 then 1 else 2) \<rparr> \<rparr>) 0x1000 2
     = Some (COMMAND_ERROR_NONE, server64\<lparr> kern := flat64\<lparr> flat_mem := (\<lambda>a. if a = 0x1000 then 1 else 2) \<rparr> \<rparr>, [1, 1]) \<and>
   load (\<lambda>a. if a = 0x1000 then 1 else 2 :: guint8) (0x1000 :: guint64) 2 = [1, 2]"
proof -
  let ?s = "server64\<lparr> kern := flat64\<lparr> flat_mem := (\<lambda>a. if a = 0x1000 then 1 else 2) \<rparr> \<rparr>"
  have "read_memory_loop short_kernel ?s 0x1000 2 [] = read_memory_loop short_kernel ?s 0x1000 1 [1]"
    by (subst read_memory_loop.simps) (simp add: short_kernel_def)
  also have "\<dots> = read_memory_loop short_kernel ?s 0x1000 0 [1, 1]"
    by (subst read_memory_loop.simps) (simp add: short_kernel_def)
  also have "\<dots> = Some (COMMAND_ERROR_NONE, ?s, [1, 1])"
    by (subst read_memory_loop.simps) simp
  finally show ?thesis by (simp add: priv_server_ptrace_read_memory_def load_def upt_rec)
qed

section \<open>Command lines\<close>

lemma c_string_append: "CHR 0x00 \<notin> set a \<Longrightarrow> c_string (a @ CHR 0x00 # b) = a"
  by (induction a) (auto simp: c_string_def)

text \<open>
  C31. The arguments of a process: \<open>/proc/<pid>/cmdline\<close> holds them one after the other, each ended by a
  zero byte, and the loop of \<open>server_ptrace_get_application\<close> splits it into exactly these arguments,
  empty ones included.
\<close>

theorem cmdline_args_roundtrip:
  assumes "\<forall>a \<in> set args. CHR 0x00 \<notin> set a"
  shows "cmdline_args_loop (concat (map (\<lambda>a. a @ [CHR 0x00]) args)) = args"
  using assms
proof (induction args)
  case Nil
  then show ?case by (subst cmdline_args_loop.simps) simp
next
  case (Cons a args)
  then show ?case by (subst cmdline_args_loop.simps) (simp add: c_string_append)
qed

theorem cmdline_args_roundtrip_witness:
  "cmdline_args_loop (''mono'' @ [CHR 0x00] @ [CHR 0x00] @ ''a.exe'' @ [CHR 0x00]) = [''mono'', [], ''a.exe'']"
  using cmdline_args_roundtrip [of "[''mono'', [], ''a.exe'']"] by simp

section \<open>Debug registers\<close>

text \<open>
  C20. Programming a hardware breakpoint into DR7: setting the access and length field of register
  \<open>i\<close> and enabling it makes it enabled with that field, and changes neither the enable bits nor the
  field of the other three registers; disabling it again makes it vacant and leaves the others.
\<close>

theorem dr7_program:
  assumes "i < 4" and "j < 4" and "v < 16" and dr': "dr' = X86_DR_LOCAL_ENABLE (X86_DR_SET_RW_LEN dr i v) i"
  shows "X86_DR_VACANT dr' j = (if j = i then False else X86_DR_VACANT dr j) \<and>
    dr_rw_len dr' j = (if j = i then v else dr_rw_len dr j) \<and>
    X86_DR_VACANT (X86_DR_DISABLE dr' i) j = (if j = i then True else X86_DR_VACANT dr j)"
proof -
  have on: "dr' = dr_enable (X86_DR_SET_RW_LEN dr i v) i True" by (simp add: dr' dr_enable_def)
  have "dr_enabled dr' j = (if j = i then True else dr_enabled dr j)"
    unfolding on using assms(1-3) by (simp add: dr7_enable.get_put dr_enabled_SET_RW_LEN)
  moreover have "dr_enabled (X86_DR_DISABLE dr' i) j = (if j = i then False else dr_enabled dr' j)"
    using dr7_enable.get_put [where i = i and j = j and v = False and r = dr'] assms(1,2) by (simp add: dr_enable_def)
  moreover have "dr_rw_len dr' j = (if j = i then v else dr_rw_len dr j)"
    unfolding on using assms(1-3) by (simp add: dr_rw_len_enable dr7_rw_len.get_put)
  ultimately show ?thesis by (auto simp: dr_enabled_def split: if_splits)
qed

theorem dr7_program_witness:
  "\<not> X86_DR_VACANT (X86_DR_LOCAL_ENABLE (X86_DR_SET_RW_LEN 0 2 (DR_RW_WRITE OR DR_LEN_4)) 2) 2 \<and>
   dr_rw_len (X86_DR_LOCAL_ENABLE (X86_DR_SET_RW_LEN 0 2 (DR_RW_WRITE OR DR_LEN_4)) 2) 2 = 13"
  using dr7_program [of 2 2 "DR_RW_WRITE OR DR_LEN_4" _ 0, OF _ _ _ refl] by (simp add: dr_rw_len_consts)

text \<open>
  The macros shift \<open>int\<close> constants: for register 3 and a length of eight or four bytes the mask has
  its sign bit set, and the \<open>guint64\<close> control word gets all its upper 32 bits set, which the processor
  reserves as zero; for the other registers the control word is the intended one.
\<close>

theorem dr7_sign_extends:
  "X86_DR_SET_RW_LEN 0 3 (DR_RW_READ OR DR_LEN_8) = 0xffffffffb0000000 \<and>
   X86_DR_SET_RW_LEN 0 3 (DR_RW_WRITE OR DR_LEN_4) = 0xffffffffd0000000 \<and>
   X86_DR_SET_RW_LEN 0 2 (DR_RW_READ OR DR_LEN_8) = 0x000000000b000000"
  by (simp add: X86_DR_SET_RW_LEN_def int_mask_def int_mask_not_def dr_consts dr_rw_len_consts)

section \<open>Wait statuses\<close>

lemma ucast_status: "0 \<le> n \<Longrightarrow> n < 256 \<Longrightarrow> ucast (word_of_int n :: guint32) = (word_of_int n :: guint64)"
  by (simp add: ucast_eq uint_word_of_int)

text \<open>
  The two functions that interpret a wait status agree on a process that is gone, where
  \<open>dispatch_event\<close> changes no state; on a stop that \<open>child_stopped\<close> reports as a plain one both
  report a stop with the same signal, except \<open>SIGSTOP\<close>, which only \<open>dispatch_simple\<close> reports as 0, and
  \<open>SIGCONT\<close>, which only \<open>dispatch_event\<close> does.
\<close>

theorem dispatch_agree:
  fixes s :: "('k, 'f) x86_64_server"
  assumes plain: "drop_bit 16 status = 0"
    and stop: "WIFSTOPPED status \<Longrightarrow>
      cs s (if WSTOPSIG status = SIGCONT then 0 else WSTOPSIG status) = Some (STOP_ACTION_STOPPED, d, s1)"
    and sig: "WIFSTOPPED status \<Longrightarrow> WSTOPSIG status \<noteq> SIGSTOP \<and> WSTOPSIG status \<noteq> SIGCONT"
  shows "\<exists>e s'. server_ptrace_dispatch_event cs K s status = Some (fst (server_ptrace_dispatch_simple status), e, s') \<and>
    event_arg e = map_option ucast (snd (server_ptrace_dispatch_simple status)) \<and> (\<not> WIFSTOPPED status \<longrightarrow> s' = s)"
proof -
  have range: "0 \<le> WSTOPSIG status" "WSTOPSIG status < 256" "0 \<le> WTERMSIG status" "WTERMSIG status < 256"
    "0 \<le> WEXITSTATUS status" "WEXITSTATUS status < 256"
    by (simp_all add: WSTOPSIG_def WTERMSIG_def WEXITSTATUS_def uint_and)
  show ?thesis
    using assms range
    by (auto simp: server_ptrace_dispatch_event_def server_ptrace_dispatch_simple_def dispatch_stop_action_def no_event_data_def
        Let_def ucast_status)
qed

theorem dispatch_agree_witness:
  "\<exists>e s'. server_ptrace_dispatch_event (\<lambda>s n. Some (STOP_ACTION_STOPPED, no_stop_data, s)) flat_kernel server64 0x0b7f
      = Some (MESSAGE_CHILD_STOPPED, e, s') \<and> event_arg e = Some 11"
  using dispatch_agree [where s = server64 and status = "0x0b7f" and K = flat_kernel
      and cs = "\<lambda>s n. Some (STOP_ACTION_STOPPED, no_stop_data, s)" and d = no_stop_data and ?s1.0 = server64]
  by (simp add: WIFSTOPPED_def WSTOPSIG_def server_ptrace_dispatch_simple_def drop_bit_eq_div)

text \<open>
  A signal that was pending when a call was started is lost: the entry of the call keeps it and the end
  of the call puts it back, but \<open>dispatch_event\<close>, which reports the end of the call, then clears it. The
  registers are the caller's again.
\<close>

theorem signal_lost_after_call:
  fixes s s2 :: "('k, 'f) x86_64_server"
  assumes call: "x86_64_called K s cb_arg addr exc action s1"
    and stack: "callback_stack (arch s2) = callback_stack (arch s1)" and action: "action \<noteq> STOP_ACTION_STOPPED"
    and t: "target_of K s2 A good M R F" and exc: "exc = 0" and ret: "rip (R (kern s2)) - 1 = addr"
  shows "\<exists>cdata msg e s3. get_callback_data (arch s2) = Some cdata \<and> saved_signal cdata = last_signal (inferior s) \<and>
    server_ptrace_dispatch_event (x86_64_child_stopped K) K s2 trap_status = Some (msg, e, s3) \<and>
    R (kern s3) = current_regs (arch s) \<and> last_signal (inferior s3) = 0"
proof -
  obtain cdata where c: "call_saved s s1 cdata" "call_address cdata = addr" "exc_address cdata = exc" "pushed_registers cdata = 0"
    "data_pointer cdata = 0" "call_action cdata = action" by (rule x86_64_called_saved [OF call])
  have top: "get_callback_data (arch s2) = Some cdata" using c(1) stack by (simp add: get_callback_data_def call_saved_def)
  have m: "cdata_mapped s2 A 104 cdata" using c(3-5) exc by (simp add: cdata_mapped_def)
  have ret': "SIGTRAP = SIGSEGV \<and> rip (R (kern s2)) = call_address cdata \<or> rip (R (kern s2)) - 1 = call_address cdata"
    using ret c(2) by simp
  obtain k d dr where k: "x86_64_child_stopped K s2 SIGTRAP = Some (action, d, after_call s2 cdata k (current_regs (arch s)) dr)"
    "R k = current_regs (arch s)"
    by (rule x86_64_stop_returns [OF t top m _ ret'])
      (use c in \<open>simp_all add: call_saved_def x86_64_returned_regs_def\<close>)
  then show ?thesis using top action c(1)
    by (cases action) (simp_all add: server_ptrace_dispatch_event_def dispatch_stop_action_def Let_def call_saved_def set_last_signal_def)
qed

theorem signal_lost_after_call_witness:
  "\<exists>s1 e. x86_64_call_method flat_kernel (set_last_signal 10 server64) 0x401000 1 2 42 = Some (COMMAND_ERROR_NONE, s1) \<and>
    server_ptrace_dispatch_event (x86_64_child_stopped flat_kernel) flat_kernel
      (s1\<lparr> kern := (kern s1)\<lparr> flat_regs := x86_64_zero_regs\<lparr> rip := 0x7ffeff61 \<rparr> \<rparr> \<rparr>) trap_status = Some e \<and>
    last_signal (inferior (snd (snd e))) = 0"
proof -
  let ?s = "set_last_signal 10 server64"
  obtain s1 where s1: "x86_64_call_method flat_kernel ?s 0x401000 1 2 42 = Some (COMMAND_ERROR_NONE, s1)"
    using flat_calls(1) by blast
  let ?s2 = "s1\<lparr> kern := (kern s1)\<lparr> flat_regs := x86_64_zero_regs\<lparr> rip := 0x7ffeff61 \<rparr> \<rparr> \<rparr>"
  have addr: "x86_64_call_block (rsp (current_regs (arch ?s))) 24 + 16 = 0x7ffeff60"
    by (simp add: set_last_signal_def x86_64_arch_initialize_def flat64_def x86_64_call_block_def AMD64_RED_ZONE_SIZE_def)
  note lost = signal_lost_after_call [OF x86_64_called.call_method [OF s1, unfolded addr], where ?s2.0 = ?s2
      and A = UNIV and good = "\<lambda>_. True" and M = flat_mem and R = flat_regs and F = flat_fpregs]
  show ?thesis using lost s1 by (intro exI [of _ s1]) (auto simp: flat_target_registers)
qed

section \<open>Copies of the breakpoint table\<close>

text \<open>\<open>mono_debugger_breakpoint_manager_clone\<close> on a well-formed manager returns a well-formed
  manager whose breakpoints are, in the same order, copies of the old ones (so every id and
  every address is found in the clone as in the original), held in structs of its own, and
  leaves the original manager and its structs as they were.\<close>

theorem clone_copies:
  fixes old :: "'w::len BreakpointManager"
  assumes "bpm_ok old (bp_heap s)" and "store_ok s"
  shows "\<exists>bpm' s'. mono_debugger_breakpoint_manager_clone old s = Some (bpm', s') \<and>
    bpm_ok bpm' (bp_heap s') \<and> bpm_ok old (bp_heap s') \<and>
    contents (bp_heap s') (breakpoints bpm') = contents (bp_heap s) (breakpoints old) \<and>
    contents (bp_heap s') (breakpoints old) = contents (bp_heap s) (breakpoints old) \<and>
    set (breakpoints bpm') \<inter> set (breakpoints old) = {}"
proof -
  have live: "\<forall>p \<in> set (breakpoints old). \<exists>b. bp_heap s p = Some b \<and> id_ok (bp_id b)"
    using assms(1) by (auto simp: bpm_ok_def bpm_ids_ok_def)
  have below: "\<forall>p b. bp_heap s p = Some b \<longrightarrow> p < bp_next s"
    using assms(2) by (auto simp: store_ok_def)
  have "\<exists>bpm' s'. breakpoint_manager_clone_loop (breakpoints old) mono_debugger_breakpoint_manager_new s
      = Some (bpm', s') \<and> bpm_ok (bpm' :: 'w BreakpointManager) (bp_heap s') \<and>
    (\<forall>q < bp_next s. bp_heap s' q = bp_heap s q) \<and>
    contents (bp_heap s') (breakpoints bpm') = contents (bp_heap s) (breakpoints old) \<and>
    set (breakpoints bpm') \<subseteq> {bp_next s..}"
    using clone_loop [where ps = "breakpoints old", OF bpm_ok_new below live]
      set_contents_keys [OF assms(1)]
    by (simp add: mono_debugger_breakpoint_manager_new_def)
  then obtain bpm' s' where r:
    "breakpoint_manager_clone_loop (breakpoints old) mono_debugger_breakpoint_manager_new s = Some (bpm', s')"
    "bpm_ok (bpm' :: 'w BreakpointManager) (bp_heap s')" "\<forall>q < bp_next s. bp_heap s' q = bp_heap s q"
    "contents (bp_heap s') (breakpoints bpm') = contents (bp_heap s) (breakpoints old)"
    "set (breakpoints bpm') \<subseteq> {bp_next s..}" by blast
  have lt: "q < bp_next s" if "q \<in> set (breakpoints old)" for q using live below that by blast
  have same: "same_keys (set (breakpoints old)) (bp_heap s) (bp_heap s')"
    using r(3) lt by (simp add: same_keys_def)
  have "contents (bp_heap s') (breakpoints old) = contents (bp_heap s) (breakpoints old)"
    using r(3) lt by (intro contents_cong) simp
  moreover have "set (breakpoints bpm') \<inter> set (breakpoints old) = {}" using r(5) lt by force
  ultimately show ?thesis
    using r bpm_ok_same_keys [OF assms(1) same] by (simp add: mono_debugger_breakpoint_manager_clone_def)
qed

theorem clone_copies_witness:
  "\<exists>bpm' s'. mono_debugger_breakpoint_manager_clone (one_bp :: 64 BreakpointManager) (bp_store.truncate bp64) = Some (bpm', s') \<and>
    contents (bp_heap s') (breakpoints bpm') = contents (bp_heap bp64) (breakpoints (one_bp :: 64 BreakpointManager)) \<and>
    set (breakpoints bpm') \<inter> set (breakpoints (one_bp :: 64 BreakpointManager)) = {}"
proof -
  have "bpm_ok (bpm bp64) (bp_heap bp64)" "store_ok bp64" "bpm bp64 = one_bp"
    using memory_okD(1) [OF memory_ok_bp64] by (auto simp: server_ok_def managers_ok_def) (simp add: bp64_def hit64_def)
  then show ?thesis using clone_copies [of "one_bp :: 64 BreakpointManager" "bp_store.truncate bp64"] by (auto simp: store_ok_def bp_store.defs)
qed

end
