(* ===== verification/Thread_Db.thy ===== *)
theory Thread_Db
  imports Prelude
begin

text \<open>
  The file \<open>thread-db.c\<close>, between the managed debugger and \<open>libthread_db\<close>. The library inspects the threads of a
  target and calls back into this file, by the functions named \<open>ps\<close>, for symbols and memory of the target;
  they pass the request on to the delegates in the handle. Delegates and library work on a state \<open>'c\<close>; the
  library is the parameter \<open>libthread_db\<close>, \<open>'ag\<close> its thread agent, \<open>'th\<close> a \<open>td_thrhandle_t\<close>.
  \<open>'w\<close> is the width of a pointer and of \<open>size_t\<close>.
\<close>

section \<open>Callbacks of the library\<close>

datatype ps_err_e = PS_OK | PS_ERR | PS_BADPID | PS_BADLID | PS_BADADDR | PS_NOSYM | PS_NOFREGS

text \<open>A delegate's output parameter is \<open>None\<close> when it does not write it.\<close>

record ('c, 'ag) ThreadDbHandle =
  db_pid :: pid
  thread_agent :: "'ag option"
  global_lookup :: "string \<Rightarrow> string \<Rightarrow> 'c \<Rightarrow> ps_err_e \<times> guint64 option \<times> 'c"
  db_read_memory :: "guint64 \<Rightarrow> guint32 \<Rightarrow> 'c \<Rightarrow> ps_err_e \<times> guint8 list \<times> 'c"
  db_write_memory :: "guint64 \<Rightarrow> guint8 list \<Rightarrow> guint32 \<Rightarrow> 'c \<Rightarrow> ps_err_e \<times> 'c"

definition ps_pglobal_lookup ::
  "('c, 'ag) ThreadDbHandle \<Rightarrow> string \<Rightarrow> string \<Rightarrow> 'c \<Rightarrow> ps_err_e \<times> 'w::len word option \<times> 'c" where
  "ps_pglobal_lookup handle object_name sym_name c =
     (let (e, address, c) = global_lookup handle object_name sym_name c in
      (e, map_option ucast address, c))"

definition ps_pdread :: "('c, 'ag) ThreadDbHandle \<Rightarrow> 'w::len word \<Rightarrow> 'w word \<Rightarrow> 'c \<Rightarrow> ps_err_e \<times> guint8 list \<times> 'c" where
  "ps_pdread handle addr n c = db_read_memory handle (ucast addr) (ucast n) c"

definition ps_pdwrite :: "('c, 'ag) ThreadDbHandle \<Rightarrow> 'w::len word \<Rightarrow> guint8 list \<Rightarrow> 'w word \<Rightarrow> 'c \<Rightarrow> ps_err_e \<times> 'c" where
  "ps_pdwrite handle addr buffer n c = db_write_memory handle (ucast addr) buffer (ucast n) c"

definition ps_lgetregs :: ps_err_e where "ps_lgetregs = PS_ERR"
definition ps_lsetregs :: ps_err_e where "ps_lsetregs = PS_ERR"
definition ps_lgetfpregs :: ps_err_e where "ps_lgetfpregs = PS_ERR"
definition ps_lsetfpregs :: ps_err_e where "ps_lsetfpregs = PS_ERR"

definition ps_getpid :: "('c, 'ag) ThreadDbHandle \<Rightarrow> pid" where
  "ps_getpid handle = db_pid handle"

section \<open>The library\<close>

text \<open>
  An error code of the library is a number, 0 for success. \<open>td_ta_thr_iter\<close> calls its function argument, which answers
  0 to go on, for the threads of the agent.
\<close>

record (overloaded) 'w td_thrinfo =
  ti_tid :: "'w word"
  ti_tls :: "'w word"
  ti_lid :: guint32

record (overloaded) ('c, 'ag, 'th, 'w) libthread_db =
  td_init :: "'c \<Rightarrow> gint \<times> 'c"
  td_ta_new :: "('c, 'ag) ThreadDbHandle \<Rightarrow> 'c \<Rightarrow> gint \<times> 'ag option \<times> 'c"
  td_ta_delete :: "'ag option \<Rightarrow> 'c \<Rightarrow> 'c"
  td_thr_get_info :: "'th \<Rightarrow> 'c \<Rightarrow> gint \<times> 'w td_thrinfo \<times> 'c"
  td_ta_thr_iter :: "'ag option \<Rightarrow> ('th \<Rightarrow> 'c \<Rightarrow> gint \<times> 'c) \<Rightarrow> 'c \<Rightarrow> gint \<times> 'c"

definition mono_debugger_thread_db_init ::
  "('c, 'ag, 'th, 'w::len) libthread_db \<Rightarrow> pid \<Rightarrow> (string \<Rightarrow> string \<Rightarrow> 'c \<Rightarrow> ps_err_e \<times> guint64 option \<times> 'c) \<Rightarrow>
     (guint64 \<Rightarrow> guint32 \<Rightarrow> 'c \<Rightarrow> ps_err_e \<times> guint8 list \<times> 'c) \<Rightarrow> (guint64 \<Rightarrow> guint8 list \<Rightarrow> guint32 \<Rightarrow> 'c \<Rightarrow> ps_err_e \<times> 'c) \<Rightarrow>
     'c \<Rightarrow> ('c, 'ag) ThreadDbHandle option \<times> 'c" where
  "mono_debugger_thread_db_init T pid lookup rd wr c =
     (let (e, c) = td_init T c in
      if e \<noteq> 0 then (None, c)
      else
        let handle = \<lparr> db_pid = pid, thread_agent = None, global_lookup = lookup, db_read_memory = rd, db_write_memory = wr \<rparr>;
            (e, agent, c) = td_ta_new T handle c in
        if e \<noteq> 0 then (None, c) else (Some (handle\<lparr> thread_agent := agent \<rparr>), c))"

definition mono_debugger_thread_db_destroy ::
  "('c, 'ag, 'th, 'w::len) libthread_db \<Rightarrow> ('c, 'ag) ThreadDbHandle \<Rightarrow> 'c \<Rightarrow> 'c" where
  "mono_debugger_thread_db_destroy T handle c = td_ta_delete T (thread_agent handle) c"

text \<open>The results are \<open>*tid\<close>, \<open>*tls\<close> and \<open>*lwp\<close>; \<open>lwpid_t\<close> is signed.\<close>

definition mono_debugger_thread_db_get_thread_info ::
  "('c, 'ag, 'th, 'w::len) libthread_db \<Rightarrow> 'th \<Rightarrow> 'c \<Rightarrow> (guint64 \<times> guint64 \<times> guint64) option \<times> 'c" where
  "mono_debugger_thread_db_get_thread_info T th c =
     (let (e, ti, c) = td_thr_get_info T th c in
      if e \<noteq> 0 then (None, c) else (Some (ucast (ti_tid ti), ucast (ti_tls ti), scast (ti_lid ti)), c))"

definition iterate_over_threads_cb :: "('th \<Rightarrow> 'c \<Rightarrow> bool \<times> 'c) \<Rightarrow> 'th \<Rightarrow> 'c \<Rightarrow> gint \<times> 'c" where
  "iterate_over_threads_cb func th c = (let (r, c) = func th c in (if r then 0 else 1, c))"

definition mono_debugger_thread_db_iterate_over_threads ::
  "('c, 'ag, 'th, 'w::len) libthread_db \<Rightarrow> ('c, 'ag) ThreadDbHandle \<Rightarrow> ('th \<Rightarrow> 'c \<Rightarrow> bool \<times> 'c) \<Rightarrow> 'c \<Rightarrow> bool \<times> 'c" where
  "mono_debugger_thread_db_iterate_over_threads T handle func c =
     (let (e, c) = td_ta_thr_iter T (thread_agent handle) (iterate_over_threads_cb func) c in (e = 0, c))"

section \<open>Visiting the threads\<close>

text \<open>
  The documented behaviour of \<open>td_ta_thr_iter\<close>: the function is called for one thread after the other until it answers
  something else than 0, and the call fails if it does.
\<close>

fun thr_iter :: "'th list \<Rightarrow> ('th \<Rightarrow> 'c \<Rightarrow> gint \<times> 'c) \<Rightarrow> 'c \<Rightarrow> gint \<times> 'c" where
  "thr_iter [] f c = (0, c)"
| "thr_iter (th # ths) f c = (let (r, c) = f th c in if r \<noteq> 0 then (15, c) else thr_iter ths f c)"

definition iterates :: "('c, 'ag, 'th, 'w::len) libthread_db \<Rightarrow> 'ag option \<Rightarrow> 'th list \<Rightarrow> bool" where
  "iterates T agent ths \<longleftrightarrow> (\<forall>f c. td_ta_thr_iter T agent f c = thr_iter ths f c)"

lemma thr_iter_visits:
  "thr_iter ths (iterate_over_threads_cb (\<lambda>th seen. (P th, seen @ [th]))) seen =
     (if list_all P ths then 0 else 15, seen @ takeWhile P ths @ take 1 (dropWhile P ths))"
  by (induction ths arbitrary: seen) (auto simp: iterate_over_threads_cb_def)

text \<open>
  \<open>mono_debugger_thread_db_iterate_over_threads\<close> calls the debugger's function for the threads of the target in
  their order, each once, up to and including the first for which it answers \<open>FALSE\<close>, and returns \<open>TRUE\<close>
  exactly if there is no such thread.
\<close>

theorem iterate_over_threads_visits:
  assumes "iterates T (thread_agent handle) ths"
  shows "mono_debugger_thread_db_iterate_over_threads T handle (\<lambda>th seen. (P th, seen @ [th])) [] =
    (list_all P ths, takeWhile P ths @ take 1 (dropWhile P ths))"
  using assms by (simp add: mono_debugger_thread_db_iterate_over_threads_def iterates_def thr_iter_visits)

text \<open>A library that sees three threads.\<close>

definition three_threads :: "(nat list, unit, nat, 64) libthread_db" where
  "three_threads = \<lparr> td_init = (\<lambda>c. (0, c)), td_ta_new = (\<lambda>handle c. (0, Some (), c)), td_ta_delete = (\<lambda>agent c. c),
     td_thr_get_info = (\<lambda>th c. (0, \<lparr> ti_tid = of_nat th, ti_tls = 0, ti_lid = of_nat th \<rparr>, c)),
     td_ta_thr_iter = (\<lambda>agent. thr_iter [10, 11, 12]) \<rparr>"

theorem iterate_over_threads_visits_witness:
  "mono_debugger_thread_db_iterate_over_threads three_threads
      (the (fst (mono_debugger_thread_db_init three_threads 7 (\<lambda>_ _ c. (PS_NOSYM, None, c)) (\<lambda>_ _ c. (PS_ERR, [], c)) (\<lambda>_ _ _ c. (PS_ERR, c)) [])))
      (\<lambda>th seen. (th < 11, seen @ [th])) [] = (False, [10, 11])"
  by (subst iterate_over_threads_visits [where ths = "[10, 11, 12]"]) (simp_all add: iterates_def three_threads_def)

end
