(* ===== verification/Bfd_Glue.thy ===== *)
theory Bfd_Glue
  imports Prelude
begin

text \<open>
  The file \<open>bfdglue.c\<close>, between the managed debugger and the BFD library: symbols and sections
  of an object file, the address of the dynamic linker's data, registers in core files, and the callbacks of
  the disassembler. The library is a parameter, the record \<open>bfd_library\<close>; \<open>asymbol\<close> and \<open>asection\<close> have the
  fields of \<open>bfd.h\<close> that this file reads. \<open>'w\<close> is the width of a \<open>bfd_vma\<close>.
\<close>

section \<open>Data of the library\<close>

abbreviation BSF_LOCAL :: guint32 where "BSF_LOCAL \<equiv> 0x01"
abbreviation BSF_GLOBAL :: guint32 where "BSF_GLOBAL \<equiv> 0x02"
abbreviation BSF_DEBUGGING :: guint32 where "BSF_DEBUGGING \<equiv> 0x08"
abbreviation BSF_FUNCTION :: guint32 where "BSF_FUNCTION \<equiv> 0x10"
abbreviation BSF_WEAK :: guint32 where "BSF_WEAK \<equiv> 0x80"
abbreviation BSF_NOT_AT_END :: guint32 where "BSF_NOT_AT_END \<equiv> 0x400"
abbreviation BSF_DYNAMIC :: guint32 where "BSF_DYNAMIC \<equiv> 0x8000"
abbreviation BSF_OBJECT :: guint32 where "BSF_OBJECT \<equiv> 0x10000"

abbreviation SEC_ALLOC :: guint32 where "SEC_ALLOC \<equiv> 0x001"
abbreviation SEC_LOAD :: guint32 where "SEC_LOAD \<equiv> 0x002"
abbreviation SEC_READONLY :: guint32 where "SEC_READONLY \<equiv> 0x010"

record (overloaded) 'w asection =
  sec_name :: string
  vma :: "'w word"
  sec_flags :: guint32
  raw_size :: "'w word"

record (overloaded) 'w asymbol =
  sym_name :: "string option" \<comment> \<open>\<open>None\<close> is a null pointer\<close>
  sym_value :: "'w word"
  sym_flags :: guint32
  sym_section :: "'w asection"

text \<open>
  The sections of a file form a list; a pointer to a section is the rest of the list from it on, the empty list a
  null pointer.
\<close>

datatype bfd_format = bfd_object | bfd_core | bfd_archive

record (overloaded) ('b, 'w) bfd_library =
  bfd_openr :: "string \<Rightarrow> 'b option"
  xvec_name :: "'b \<Rightarrow> string"
  bfd_check_format :: "'b \<Rightarrow> bfd_format \<Rightarrow> bool"
  bfd_openr_next_archived_file :: "'b \<Rightarrow> 'b option \<Rightarrow> 'b option"
  bfd_get_symtab_upper_bound :: "'b \<Rightarrow> 'w word"
  bfd_canonicalize_symtab :: "'b \<Rightarrow> nat \<Rightarrow> guint32 \<times> 'w asymbol list"
  bfd_get_dynamic_symtab_upper_bound :: "'b \<Rightarrow> 'w word"
  bfd_canonicalize_dynamic_symtab :: "'b \<Rightarrow> nat \<Rightarrow> guint32 \<times> 'w asymbol list"
  bfd_sections :: "'b \<Rightarrow> 'w asection list"
  bfd_get_section_contents :: "'b \<Rightarrow> 'w asection list \<Rightarrow> nat \<Rightarrow> guint32 \<Rightarrow> bool \<times> guint8 list"
  bfd_errmsg :: string
  bfd_core_file_failing_command :: "'b \<Rightarrow> string option"
  bfd_get_start_address :: "'b \<Rightarrow> 'w word"

section \<open>Files and symbols\<close>

definition bfd_glue_openr :: "('b, 'w::len) bfd_library \<Rightarrow> string \<Rightarrow> string \<Rightarrow> 'b option" where
  "bfd_glue_openr B filename target = bfd_openr B filename"

definition bfd_glue_get_target_name :: "('b, 'w::len) bfd_library \<Rightarrow> 'b \<Rightarrow> string" where
  "bfd_glue_get_target_name B abfd = xvec_name B abfd"

definition bfd_glue_check_format_object :: "('b, 'w::len) bfd_library \<Rightarrow> 'b \<Rightarrow> bool" where
  "bfd_glue_check_format_object B abfd = bfd_check_format B abfd bfd_object"

definition bfd_glue_check_format_core :: "('b, 'w::len) bfd_library \<Rightarrow> 'b \<Rightarrow> bool" where
  "bfd_glue_check_format_core B abfd = bfd_check_format B abfd bfd_core"

definition bfd_glue_check_format_archive :: "('b, 'w::len) bfd_library \<Rightarrow> 'b \<Rightarrow> bool" where
  "bfd_glue_check_format_archive B abfd = bfd_check_format B abfd bfd_archive"

definition bfd_glue_openr_next_archived_file :: "('b, 'w::len) bfd_library \<Rightarrow> 'b \<Rightarrow> 'b option \<Rightarrow> 'b option" where
  "bfd_glue_openr_next_archived_file B archive last_file = bfd_openr_next_archived_file B archive last_file"

text \<open>The upper bound is a \<open>long\<close> that the source keeps in an \<open>int\<close>.\<close>

definition bfd_glue_get_symbols :: "('b, 'w::len) bfd_library \<Rightarrow> 'b \<Rightarrow> gint \<times> 'w asymbol list option" where
  "bfd_glue_get_symbols B abfd =
     (let storage_needed = sint (ucast (bfd_get_symtab_upper_bound B abfd) :: guint32) in
      if storage_needed \<le> 0 then (storage_needed, None)
      else let (count, table) = bfd_canonicalize_symtab B abfd (nat storage_needed) in (sint count, Some table))"

definition bfd_glue_get_dynamic_symbols :: "('b, 'w::len) bfd_library \<Rightarrow> 'b \<Rightarrow> gint \<times> 'w asymbol list option" where
  "bfd_glue_get_dynamic_symbols B abfd =
     (let storage_needed = sint (ucast (bfd_get_dynamic_symtab_upper_bound B abfd) :: guint32) in
      if storage_needed \<le> 0 then (storage_needed, None)
      else let (count, table) = bfd_canonicalize_dynamic_symtab B abfd (nat storage_needed) in (sint count, Some table))"

text \<open>
  The inner result is that of the source, \<open>None\<close> for \<open>NULL\<close>, else the name, \<open>*is_function\<close> and \<open>*address\<close>; an index
  outside the table has no result at all. The sum of the section's address and the value is computed as a
  \<open>bfd_vma\<close>.
\<close>

definition bfd_glue_get_symbol ::
  "'w::len asymbol list \<Rightarrow> gint \<Rightarrow> (string \<times> bool \<times> guint64) option option" where
  "bfd_glue_get_symbol symbol_table idx =
     (if idx < 0 \<or> int (length symbol_table) \<le> idx then None
      else let symbol = symbol_table ! nat idx in
        if sym_flags symbol AND (BSF_WEAK OR BSF_DYNAMIC) = BSF_WEAK OR BSF_DYNAMIC then Some None
        else case sym_name symbol of
          None \<Rightarrow> Some None
        | Some name \<Rightarrow>
            if sym_flags symbol AND BSF_DEBUGGING \<noteq> 0 \<or> name = [] then Some None
            else let flags = sym_flags symbol AND NOT (BSF_DYNAMIC OR BSF_NOT_AT_END);
                     relocated = ucast (vma (sym_section symbol) + sym_value symbol) in
              if flags = BSF_OBJECT OR BSF_GLOBAL then Some (Some (name, False, relocated))
              else if flags = BSF_FUNCTION then Some (Some (name, True, ucast (sym_value symbol)))
              else if flags = BSF_FUNCTION OR BSF_GLOBAL then Some (Some (name, True, relocated))
              else if flags = BSF_OBJECT OR BSF_LOCAL then Some (Some (name, False, relocated))
              else Some (Some (name, True, relocated)))"

section \<open>Sections\<close>

definition bfd_glue_get_section_contents ::
  "('b, 'w::len) bfd_library \<Rightarrow> 'b \<Rightarrow> 'w asection list \<Rightarrow> guint32 \<Rightarrow> bool \<times> guint8 list" where
  "bfd_glue_get_section_contents B abfd sec n = bfd_get_section_contents B abfd sec 0 n"

definition bfd_glue_get_first_section :: "('b, 'w::len) bfd_library \<Rightarrow> 'b \<Rightarrow> 'w asection list" where
  "bfd_glue_get_first_section B abfd = bfd_sections B abfd"

definition bfd_glue_get_next_section :: "'w::len asection list \<Rightarrow> 'w asection list option" where
  "bfd_glue_get_next_section p = (case p of [] \<Rightarrow> None | _ # q \<Rightarrow> Some q)"

definition bfd_glue_get_section_vma :: "'w::len asection \<Rightarrow> guint64" where
  "bfd_glue_get_section_vma p = ucast (vma p)"

definition bfd_glue_get_section_name :: "'w::len asection \<Rightarrow> string" where
  "bfd_glue_get_section_name p = sec_name p"

definition bfd_glue_get_errormsg :: "('b, 'w::len) bfd_library \<Rightarrow> string" where
  "bfd_glue_get_errormsg B = bfd_errmsg B"

definition bfd_glue_get_section_size :: "'w::len asection \<Rightarrow> guint32" where
  "bfd_glue_get_section_size p = ucast (raw_size p)"

abbreviation SECTION_FLAGS_LOAD :: guint32 where "SECTION_FLAGS_LOAD \<equiv> 1"
abbreviation SECTION_FLAGS_ALLOC :: guint32 where "SECTION_FLAGS_ALLOC \<equiv> 2"
abbreviation SECTION_FLAGS_READONLY :: guint32 where "SECTION_FLAGS_READONLY \<equiv> 4"

definition bfd_glue_get_section_flags :: "'w::len asection \<Rightarrow> guint32" where
  "bfd_glue_get_section_flags p =
     (let flags = 0;
          flags = (if sec_flags p AND SEC_LOAD \<noteq> 0 then flags OR SECTION_FLAGS_LOAD else flags);
          flags = (if sec_flags p AND SEC_ALLOC \<noteq> 0 then flags OR SECTION_FLAGS_ALLOC else flags);
          flags = (if sec_flags p AND SEC_READONLY \<noteq> 0 then flags OR SECTION_FLAGS_READONLY else flags) in
      flags)"

definition bfd_glue_core_file_failing_command :: "('b, 'w::len) bfd_library \<Rightarrow> 'b \<Rightarrow> string option" where
  "bfd_glue_core_file_failing_command B abfd = bfd_core_file_failing_command B abfd"

definition bfd_glue_get_start_address :: "('b, 'w::len) bfd_library \<Rightarrow> 'b \<Rightarrow> guint64" where
  "bfd_glue_get_start_address B abfd = ucast (bfd_get_start_address B abfd)"

section \<open>The disassembler\<close>

text \<open>
  The callbacks of the managed debugger work on a state \<open>'c\<close>. \<open>disassemble_info\<close> is what \<open>dis-asm.h\<close> hands to a
  disassembler, as far as this file sets it: the machine, and the three functions. A message of \<open>fprintf_func\<close> is
  the text after formatting.
\<close>

datatype bfd_mach = bfd_mach_i386_i386 | bfd_mach_x86_64

record 'c BfdGlueDisassemblerInfo =
  read_memory_cb :: "guint64 \<Rightarrow> gint \<Rightarrow> 'c \<Rightarrow> gint \<times> guint8 list \<times> 'c"
  output_cb :: "string \<Rightarrow> 'c \<Rightarrow> 'c"
  print_address_cb :: "guint64 \<Rightarrow> 'c \<Rightarrow> 'c"

definition read_memory_func ::
  "'c BfdGlueDisassemblerInfo \<Rightarrow> 'w::len word \<Rightarrow> guint32 \<Rightarrow> 'c \<Rightarrow> gint \<times> guint8 list \<times> 'c" where
  "read_memory_func data memaddr n c = read_memory_cb data (ucast memaddr) (sint n) c"

definition fprintf_func :: "'c BfdGlueDisassemblerInfo \<Rightarrow> string \<Rightarrow> 'c \<Rightarrow> gint \<times> 'c" where
  "fprintf_func data output c = (int (length output), output_cb data output c)"

definition print_address_func :: "'c BfdGlueDisassemblerInfo \<Rightarrow> 'w::len word \<Rightarrow> 'c \<Rightarrow> 'c" where
  "print_address_func data address c = print_address_cb data (ucast address) c"

record (overloaded) ('c, 'w) disassemble_info =
  mach :: bfd_mach
  dis_read_memory :: "'w word \<Rightarrow> guint32 \<Rightarrow> 'c \<Rightarrow> gint \<times> guint8 list \<times> 'c"
  dis_fprintf :: "string \<Rightarrow> 'c \<Rightarrow> gint \<times> 'c"
  dis_print_address :: "'w word \<Rightarrow> 'c \<Rightarrow> 'c"

definition bfd_glue_create_disassembler ::
  "bool \<Rightarrow> (guint64 \<Rightarrow> gint \<Rightarrow> 'c \<Rightarrow> gint \<times> guint8 list \<times> 'c) \<Rightarrow> (string \<Rightarrow> 'c \<Rightarrow> 'c) \<Rightarrow> (guint64 \<Rightarrow> 'c \<Rightarrow> 'c) \<Rightarrow>
     ('c, 'w::len) disassemble_info" where
  "bfd_glue_create_disassembler is_x86_64 rd out pr =
     (let handle = \<lparr> read_memory_cb = rd, output_cb = out, print_address_cb = pr \<rparr> in
      \<lparr> mach = (if is_x86_64 then bfd_mach_x86_64 else bfd_mach_i386_i386),
        dis_read_memory = read_memory_func handle, dis_fprintf = fprintf_func handle,
        dis_print_address = print_address_func handle \<rparr>)"

definition bfd_glue_disassemble_insn ::
  "('w::len word \<Rightarrow> ('c, 'w) disassemble_info \<Rightarrow> 'c \<Rightarrow> gint \<times> 'c) \<Rightarrow> ('c, 'w) disassemble_info \<Rightarrow> guint64 \<Rightarrow> 'c \<Rightarrow> gint \<times> 'c" where
  "bfd_glue_disassemble_insn disassembler info address c = disassembler (ucast address) info c"

section \<open>ELF data\<close>

abbreviation DT_NULL :: "'w::len word" where "DT_NULL \<equiv> 0"
abbreviation DT_DEBUG :: "'w::len word" where "DT_DEBUG \<equiv> 21"

text \<open>
  The loop of \<open>bfd_glue_elfi386_locate_base\<close> over the \<open>Elf32_Dyn\<close> or \<open>Elf64_Dyn\<close> structs from \<open>data + off\<close> on, where \<open>data\<close>
  are the bytes of the buffer; a struct that is not inside the buffer has no value.
\<close>

function elf32_locate_base_loop :: "guint8 list \<Rightarrow> gint \<Rightarrow> nat \<Rightarrow> guint64 option" where
  "elf32_locate_base_loop data sz off =
     (if \<not> int off < sz then Some 0
      else if length data < off + 8 then None
      else let d_tag = le_word (get_bytes off 4 data) :: guint32; d_ptr = le_word (get_bytes (off + 4) 4 data) :: guint32 in
        if d_tag = DT_NULL then Some 0
        else if d_tag = DT_DEBUG then Some (ucast d_ptr)
        else elf32_locate_base_loop data sz (off + 8))"
  by pat_completeness auto
termination
  by (relation "measure (\<lambda>(data, sz, off). nat (sz - int off))") auto

function elf64_locate_base_loop :: "guint8 list \<Rightarrow> gint \<Rightarrow> nat \<Rightarrow> guint64 option" where
  "elf64_locate_base_loop data sz off =
     (if \<not> int off < sz then Some 0
      else if length data < off + 16 then None
      else let d_tag = le_word (get_bytes off 8 data) :: guint64; d_ptr = le_word (get_bytes (off + 8) 8 data) :: guint64 in
        if d_tag = DT_NULL then Some 0
        else if d_tag = DT_DEBUG then Some d_ptr
        else elf64_locate_base_loop data sz (off + 16))"
  by pat_completeness auto
termination
  by (relation "measure (\<lambda>(data, sz, off). nat (sz - int off))") auto

declare elf32_locate_base_loop.simps [simp del] elf64_locate_base_loop.simps [simp del]

definition i386_bfd_glue_elfi386_locate_base :: "guint8 list \<Rightarrow> gint \<Rightarrow> guint64 option" where
  "i386_bfd_glue_elfi386_locate_base data sz = elf32_locate_base_loop data sz 0"

definition x86_64_bfd_glue_elfi386_locate_base :: "guint8 list \<Rightarrow> gint \<Rightarrow> guint64 option" where
  "x86_64_bfd_glue_elfi386_locate_base data sz = elf64_locate_base_loop data sz 0"

text \<open>The bytes that are copied to \<open>regs\<close>, on Linux.\<close>

definition bfd_glue_core_file_elfi386_get_registers :: "guint8 list \<Rightarrow> gint \<Rightarrow> bool \<times> guint8 list option" where
  "bfd_glue_core_file_elfi386_get_registers data sz = (if sz \<noteq> 68 then (False, None) else (True, Some (take (nat sz) data)))"

section \<open>The debug entry of the dynamic section\<close>

text \<open>The specification: the value of the first \<open>DT_DEBUG\<close> entry before the end mark, 0 if there is none.\<close>

fun debug_entry :: "('w::len word \<times> 'w word) list \<Rightarrow> guint64" where
  "debug_entry [] = 0"
| "debug_entry ((tag, p) # ds) = (if tag = DT_NULL then 0 else if tag = DT_DEBUG then ucast p else debug_entry ds)"

definition elf_dyns :: "nat \<Rightarrow> ('w::len word \<times> 'w word) list \<Rightarrow> guint8 list" where
  "elf_dyns n ds = concat (map (\<lambda>(tag, p). le_bytes n tag @ le_bytes n p) ds)"

lemma elf_dyns_simps [simp]:
  "elf_dyns n [] = []" "elf_dyns n ((tag, p) # ds) = le_bytes n tag @ le_bytes n p @ elf_dyns n ds"
  by (simp_all add: elf_dyns_def)

lemma length_elf_dyns [simp]: "length (elf_dyns n ds) = 2 * n * length ds"
  by (induction ds) auto

lemma get_bytes_here: "length pre = off \<Longrightarrow> length bs = n \<Longrightarrow> get_bytes off n (pre @ bs @ r) = bs"
  by (simp add: get_bytes_def)

lemma get_bytes_next: "length pre + length bs = off \<Longrightarrow> length cs = n \<Longrightarrow> get_bytes off n (pre @ bs @ cs @ r) = cs"
  by (simp add: get_bytes_def)

lemma elf32_locate_base_loop_dyns:
  "elf32_locate_base_loop (pre @ elf_dyns 4 ds) (int (length pre + 8 * length ds)) (length pre) = Some (debug_entry (ds :: (guint32 \<times> guint32) list))"
proof (induction ds arbitrary: pre)
  case Nil
  then show ?case by (subst elf32_locate_base_loop.simps) simp
next
  case (Cons d ds)
  obtain tag p where d: "d = (tag, p)" by (cases d)
  have "elf32_locate_base_loop ((pre @ le_bytes 4 tag @ le_bytes 4 p) @ elf_dyns 4 ds) (int (length pre + 8 + 8 * length ds)) (length pre + 8)
      = Some (debug_entry ds)"
    using Cons.IH [of "pre @ le_bytes 4 tag @ le_bytes 4 p"] by (simp add: ac_simps)
  then show ?case
    by (subst elf32_locate_base_loop.simps)
      (simp add: d get_bytes_here get_bytes_next le_word_le_bytes Let_def ac_simps)
qed

lemma elf64_locate_base_loop_dyns:
  "elf64_locate_base_loop (pre @ elf_dyns 8 ds) (int (length pre + 16 * length ds)) (length pre) = Some (debug_entry (ds :: (guint64 \<times> guint64) list))"
proof (induction ds arbitrary: pre)
  case Nil
  then show ?case by (subst elf64_locate_base_loop.simps) simp
next
  case (Cons d ds)
  obtain tag p where d: "d = (tag, p)" by (cases d)
  have "elf64_locate_base_loop ((pre @ le_bytes 8 tag @ le_bytes 8 p) @ elf_dyns 8 ds) (int (length pre + 16 + 16 * length ds)) (length pre + 16)
      = Some (debug_entry ds)"
    using Cons.IH [of "pre @ le_bytes 8 tag @ le_bytes 8 p"] by (simp add: ac_simps)
  then show ?case
    by (subst elf64_locate_base_loop.simps)
      (simp add: d get_bytes_here get_bytes_next le_word_le_bytes Let_def ac_simps)
qed

text \<open>
  C30. \<open>bfd_glue_elfi386_locate_base\<close> on the bytes of a dynamic section: whatever its entries are, it stays inside the
  buffer and returns the address in the first \<open>DT_DEBUG\<close> entry before the end mark, and 0 if there is none, on
  both architectures.
\<close>

theorem locate_base_finds_debug:
  fixes ds :: "(guint32 \<times> guint32) list" and es :: "(guint64 \<times> guint64) list"
  shows "i386_bfd_glue_elfi386_locate_base (elf_dyns 4 ds) (8 * int (length ds)) = Some (debug_entry ds) \<and>
   x86_64_bfd_glue_elfi386_locate_base (elf_dyns 8 es) (16 * int (length es)) = Some (debug_entry es)"
  using elf32_locate_base_loop_dyns [of "[]" ds] elf64_locate_base_loop_dyns [of "[]" es]
  by (simp add: i386_bfd_glue_elfi386_locate_base_def x86_64_bfd_glue_elfi386_locate_base_def)

end
