(* ===== verification/Libgtop_Glue.thy ===== *)
theory Libgtop_Glue
  imports Prelude
begin

text \<open>
  The file \<open>libgtop-glue.c\<close>: the memory use and the number of open files of a process, from the text files in
  \<open>/proc\<close>. A \<open>char *\<close> into a buffer is the string from there up to the terminating zero. The
  system calls are the parameter \<open>procfs\<close>.
\<close>

section \<open>C strings and numbers\<close>

text \<open>\<open>isspace\<close> in the C locale, and \<open>strtoull (p, &p, 0)\<close> with both of its results: the number, and the position
  after it or, when there is no number, the position where it started.\<close>

definition isspace :: "char \<Rightarrow> bool" where
  "isspace c \<longleftrightarrow> c \<in> {CHR '' '', CHR 0x09, CHR 0x0A, CHR 0x0B, CHR 0x0C, CHR 0x0D}"

definition digit_value :: "char \<Rightarrow> nat" where
  "digit_value c =
     (let n = (of_char c :: nat) in
      if 48 \<le> n \<and> n \<le> 57 then n - 48
      else if 97 \<le> n \<and> n \<le> 122 then n - 87
      else if 65 \<le> n \<and> n \<le> 90 then n - 55
      else 36)"

definition digits_value :: "nat \<Rightarrow> string \<Rightarrow> nat" where
  "digits_value base ds = foldl (\<lambda>v d. v * base + digit_value d) 0 ds"

definition strtoull_sign :: "string \<Rightarrow> bool \<times> string" where
  "strtoull_sign p =
     (case p of
        [] \<Rightarrow> (False, p)
      | c # q \<Rightarrow> if c = CHR ''-'' then (True, q) else if c = CHR ''+'' then (False, q) else (False, p))"

definition strtoull_base :: "string \<Rightarrow> nat \<times> string" where
  "strtoull_base p =
     (if take 1 p = ''0'' then
        (if take 1 (drop 1 p) \<in> {''x'', ''X''} \<and> drop 2 p \<noteq> [] \<and> digit_value (hd (drop 2 p)) < 16 then (16, drop 2 p)
         else (8, p))
      else (10, p))"

definition strtoull :: "string \<Rightarrow> guint64 \<times> string" where
  "strtoull nptr =
     (let (negative, p) = strtoull_sign (dropWhile isspace nptr);
          (base, p) = strtoull_base p;
          ds = takeWhile (\<lambda>c. digit_value c < base) p in
      if ds = [] then (0, nptr)
      else let v = digits_value base ds in
        (if 2 ^ 64 \<le> v then - 1 else if negative then - of_nat v else of_nat v, drop (length ds) p))"

text \<open>What \<open>%d\<close> prints for a number that is not negative.\<close>

definition digit_char :: "nat \<Rightarrow> char" where
  "digit_char d = char_of (48 + d)"

fun decimal :: "nat \<Rightarrow> string" where
  "decimal n = (if n < 10 then [digit_char n] else decimal (n div 10) @ [digit_char (n mod 10)])"

declare decimal.simps [simp del]

definition decimal_int :: "int \<Rightarrow> string" where
  "decimal_int n = (if n < 0 then CHR ''-'' # decimal (nat (- n)) else decimal (nat n))"

section \<open>Reading files of /proc\<close>

datatype try_file_to_buffer = TRY_FILE_TO_BUFFER_OK | TRY_FILE_TO_BUFFER_OPEN | TRY_FILE_TO_BUFFER_READ

text \<open>
  \<open>open_read path n\<close> opens a file, reads at most \<open>n\<close> bytes with one \<open>read\<close> and closes it; \<open>read_dir\<close> are the names in a
  directory, \<open>None\<close> if it cannot be opened; \<open>get_pid\<close> is the caller's process.
\<close>

record 'k procfs =
  open_read :: "'k \<Rightarrow> string \<Rightarrow> nat \<Rightarrow> (try_file_to_buffer + string) \<times> 'k"
  read_dir :: "'k \<Rightarrow> string \<Rightarrow> string list option \<times> 'k"
  get_pid :: "'k \<Rightarrow> int"

definition BUFSIZ :: nat where "BUFSIZ = 8192"

definition mono_debugger_libgtop_glue_get_pid :: "'k procfs \<Rightarrow> 'k \<Rightarrow> int" where
  "mono_debugger_libgtop_glue_get_pid P k = get_pid P k"

text \<open>The buffer is returned as the C string in it: the bytes that were read, up to the first zero.\<close>

definition try_file_to_buffer_at :: "'k procfs \<Rightarrow> 'k \<Rightarrow> nat \<Rightarrow> string \<Rightarrow> try_file_to_buffer \<times> string \<times> 'k" where
  "try_file_to_buffer_at P k bufsiz path =
     (case open_read P k path (bufsiz - 1) of
        (Inl e, k) \<Rightarrow> (e, [], k)
      | (Inr bytes, k) \<Rightarrow> (TRY_FILE_TO_BUFFER_OK, takeWhile (\<lambda>c. c \<noteq> CHR 0x00) bytes, k))"

definition proc_stat_to_buffer :: "'k procfs \<Rightarrow> 'k \<Rightarrow> nat \<Rightarrow> int \<Rightarrow> try_file_to_buffer \<times> string \<times> 'k" where
  "proc_stat_to_buffer P k bufsiz pid = try_file_to_buffer_at P k bufsiz (''/proc/'' @ decimal_int pid @ ''/stat'')"

definition proc_status_to_buffer :: "'k procfs \<Rightarrow> 'k \<Rightarrow> nat \<Rightarrow> int \<Rightarrow> try_file_to_buffer \<times> string \<times> 'k" where
  "proc_status_to_buffer P k bufsiz pid = try_file_to_buffer_at P k bufsiz (''/proc/'' @ decimal_int pid @ ''/status'')"

definition proc_statm_to_buffer :: "'k procfs \<Rightarrow> 'k \<Rightarrow> nat \<Rightarrow> int \<Rightarrow> try_file_to_buffer \<times> string \<times> 'k" where
  "proc_statm_to_buffer P k bufsiz pid = try_file_to_buffer_at P k bufsiz (''/proc/'' @ decimal_int pid @ ''/statm'')"

text \<open>\<open>strrchr\<close>: the string from the last occurrence of the character.\<close>

fun strrchr :: "string \<Rightarrow> char \<Rightarrow> string option" where
  "strrchr [] c = None"
| "strrchr (x # p) c = (case strrchr p c of Some q \<Rightarrow> Some q | None \<Rightarrow> if x = c then Some (x # p) else None)"

definition proc_stat_after_cmd :: "string \<Rightarrow> string option" where
  "proc_stat_after_cmd p = map_option tl (strrchr p (CHR '')''))"

definition next_token :: "string \<Rightarrow> string" where
  "next_token p = dropWhile isspace p"

definition skip_token :: "string \<Rightarrow> string" where
  "skip_token p = next_token (dropWhile (\<lambda>c. \<not> isspace c) (next_token p))"

fun skip_multiple_token :: "string \<Rightarrow> nat \<Rightarrow> string" where
  "skip_multiple_token p 0 = p"
| "skip_multiple_token p (Suc count) = skip_multiple_token (skip_token p) count"

record LibGTopGlueMemoryInfo =
  mem_size :: guint64
  vsize :: guint64
  resident :: guint64
  share :: guint64
  rss :: guint64
  rss_rlim :: guint64

definition mono_debugger_libgtop_glue_get_memory ::
  "'k procfs \<Rightarrow> 'k \<Rightarrow> int \<Rightarrow> LibGTopGlueMemoryInfo \<Rightarrow> bool \<times> LibGTopGlueMemoryInfo \<times> 'k" where
  "mono_debugger_libgtop_glue_get_memory P k pid info =
     (let (e, buffer, k) = proc_stat_to_buffer P k BUFSIZ pid in
      if e \<noteq> TRY_FILE_TO_BUFFER_OK then (False, info, k)
      else case proc_stat_after_cmd buffer of
        None \<Rightarrow> (False, info, k)
      | Some p \<Rightarrow>
          let p = skip_multiple_token p 20;
              (v, p) = strtoull p; info = info\<lparr> vsize := v \<rparr>;
              (v, p) = strtoull p; info = info\<lparr> rss := v \<rparr>;
              (v, p) = strtoull p; info = info\<lparr> rss_rlim := v \<rparr>;
              (e, buffer, k) = proc_statm_to_buffer P k BUFSIZ pid in
          if e \<noteq> TRY_FILE_TO_BUFFER_OK then (False, info, k)
          else
            let (v, p) = strtoull buffer; info = info\<lparr> mem_size := v \<rparr>;
                (v, p) = strtoull p; info = info\<lparr> resident := v \<rparr>;
                (v, p) = strtoull p; info = info\<lparr> share := v \<rparr> in
            (True, info, k))"

text \<open>The loop of \<open>get_open_files\<close>, from the count reached.\<close>

fun count_entries :: "string list \<Rightarrow> int \<Rightarrow> int" where
  "count_entries [] count = count"
| "count_entries (d_name # rest) count =
     (if take 1 d_name = ''.'' then count_entries rest count else count_entries rest (count + 1))"

definition mono_debugger_libgtop_glue_get_open_files ::
  "'k procfs \<Rightarrow> 'k \<Rightarrow> int \<Rightarrow> bool \<times> int option \<times> 'k" where
  "mono_debugger_libgtop_glue_get_open_files P k pid =
     (case read_dir P k (''/proc/'' @ decimal_int pid @ ''/fd'') of
        (None, k) \<Rightarrow> (False, None, k)
      | (Some names, k) \<Rightarrow> (True, Some (count_entries names 0), k))"

section \<open>Numbers\<close>

lemma digit_value_char [simp]: "d < 10 \<Longrightarrow> digit_value (digit_char d) = d"
  by (simp add: digit_value_def digit_char_def)

lemma digits_value_snoc: "digits_value b (ds @ [d]) = digits_value b ds * b + digit_value d"
  by (simp add: digits_value_def)

lemma digits_decimal: "digits_value 10 (decimal n) = n"
proof (induction n rule: decimal.induct)
  case (1 n)
  then show ?case
    by (subst decimal.simps) (auto simp: digits_value_snoc, simp add: digits_value_def)
qed

lemma decimal_digits: "c \<in> set (decimal n) \<Longrightarrow> digit_value c < 10"
  by (induction n rule: decimal.induct) (subst (asm) (2) decimal.simps, auto split: if_splits)

lemma decimal_nonempty [simp]: "decimal n \<noteq> []"
  by (subst decimal.simps) simp

lemma hd_decimal: "0 < n \<Longrightarrow> digit_value (hd (decimal n)) \<noteq> 0"
proof (induction n rule: decimal.induct)
  case (1 n)
  then show ?case by (subst decimal.simps) auto
qed

lemma decimal_0: "decimal 0 = ''0''"
  by (subst decimal.simps) (simp add: digit_char_def char_of_eq_iff take_bit_eq_mod)

lemma digit_not_space:
  assumes "digit_value c < 10"
  shows "\<not> isspace c" "c \<noteq> CHR ''-''" "c \<noteq> CHR ''+''" "c \<noteq> CHR 0x00" "c \<noteq> CHR '')''"
  using assms by (auto simp: isspace_def digit_value_def)

lemma space_not_digit: "isspace c \<Longrightarrow> digit_value c = 36"
  by (auto simp: isspace_def digit_value_def)

text \<open>A number that stands alone between white space is read as it was printed.\<close>

definition ends_token :: "string \<Rightarrow> bool" where
  "ends_token r \<longleftrightarrow> r = [] \<or> isspace (hd r)"

lemma takeWhile_digits:
  assumes "\<forall>c \<in> set ds. digit_value c < b" and "b \<le> 36" and "ends_token r"
  shows "takeWhile (\<lambda>c. digit_value c < b) (ds @ r) = ds"
  using assms by (cases r) (auto simp: ends_token_def space_not_digit takeWhile_append2)

lemma dropWhile_space_decimal:
  assumes "\<forall>c \<in> set ws. isspace c"
  shows "dropWhile isspace (ws @ decimal n @ r) = decimal n @ r"
proof -
  obtain c cs where d: "decimal n = c # cs" by (cases "decimal n") simp_all
  then have "\<not> isspace c" using decimal_digits [of c n] digit_not_space(1) by simp
  then show ?thesis using assms d by (simp add: dropWhile_append2)
qed

lemma strtoull_base_decimal:
  assumes "ends_token r"
  shows "strtoull_base (decimal n @ r) = (if n = 0 then 8 else 10, decimal n @ r)"
proof (cases "n = 0")
  case True
  then show ?thesis using assms by (cases r) (auto simp: strtoull_base_def decimal_0 ends_token_def isspace_def)
next
  case False
  obtain c cs where d: "decimal n = c # cs" by (cases "decimal n") simp_all
  then have "c \<noteq> CHR ''0''" using hd_decimal [of n] False by (auto simp: digit_value_def)
  then show ?thesis using d False by (simp add: strtoull_base_def)
qed

lemma strtoull_sign_decimal: "strtoull_sign (decimal n @ r) = (False, decimal n @ r)"
proof -
  obtain c cs where d: "decimal n = c # cs" by (cases "decimal n") simp_all
  then show ?thesis using decimal_digits [of c n] digit_not_space(2,3) [of c] by (simp add: strtoull_sign_def)
qed

lemma strtoull_decimal:
  assumes "\<forall>c \<in> set ws. isspace c" and "n < 2 ^ 64" and "ends_token r"
  shows "strtoull (ws @ decimal n @ r) = (of_nat n, r)"
proof -
  let ?b = "if n = 0 then 8 else 10"
  have "takeWhile (\<lambda>c. digit_value c < ?b) (decimal n @ r) = decimal n"
    using assms(3) decimal_digits by (intro takeWhile_digits) (auto simp: decimal_0 digit_value_def)
  moreover have "digits_value ?b (decimal n) = n"
    by (auto simp: digits_decimal) (simp add: decimal_0 digits_value_def digit_value_def)
  ultimately show ?thesis using assms(2)
    by (simp add: strtoull_def dropWhile_space_decimal [OF assms(1)] strtoull_sign_decimal strtoull_base_decimal [OF assms(3)] Let_def)
qed

section \<open>Tokens\<close>

lemma strrchr_None: "c \<notin> set r \<Longrightarrow> strrchr r c = None"
  by (induction r) auto

lemma strrchr_last: "c \<notin> set r \<Longrightarrow> strrchr (a @ c # r) c = Some (c # r)"
  by (induction a) (simp_all add: strrchr_None)

definition token :: "string \<Rightarrow> bool" where
  "token t \<longleftrightarrow> t \<noteq> [] \<and> (\<forall>c \<in> set t. \<not> isspace c \<and> c \<noteq> CHR 0x00 \<and> c \<noteq> CHR '')'')"

lemma next_token_token: "token t \<Longrightarrow> next_token (CHR '' '' # t @ r) = t @ r"
  by (cases t) (auto simp: next_token_def token_def isspace_def)

lemma skip_token_token:
  assumes "token t" and "token u"
  shows "skip_token (CHR '' '' # t @ CHR '' '' # u @ r) = u @ r" "skip_token (t @ CHR '' '' # u @ r) = u @ r"
proof -
  have "dropWhile (\<lambda>c. \<not> isspace c) (t @ CHR '' '' # u @ r) = CHR '' '' # u @ r"
    using assms(1) by (simp add: token_def dropWhile_append2 isspace_def)
  moreover have "next_token (t @ CHR '' '' # u @ r) = t @ CHR '' '' # u @ r"
    using assms(1) by (cases t) (auto simp: next_token_def token_def)
  ultimately show "skip_token (CHR '' '' # t @ CHR '' '' # u @ r) = u @ r" "skip_token (t @ CHR '' '' # u @ r) = u @ r"
    by (simp_all add: skip_token_def next_token_token [OF assms(1)] next_token_token [OF assms(2)])
qed

lemma skip_tokens:
  assumes "\<forall>t \<in> set ts. token t" and "token t" and "token u"
  shows "skip_multiple_token (t @ concat (map (Cons (CHR '' '')) ts) @ CHR '' '' # u @ r) (Suc (length ts)) = u @ r"
  using assms(1,2)
proof (induction ts arbitrary: t)
  case Nil
  then show ?case using skip_token_token(2) [OF _ assms(3)] by simp
next
  case (Cons t' ts)
  have "skip_token (t @ CHR '' '' # t' @ concat (map (Cons (CHR '' '')) ts) @ CHR '' '' # u @ r)
      = t' @ concat (map (Cons (CHR '' '')) ts) @ CHR '' '' # u @ r"
    using skip_token_token(2) [of t t'] Cons.prems by simp
  then show ?case using Cons.IH [of t'] Cons.prems by simp
qed

lemma skip_fields:
  assumes "\<forall>t \<in> set ts. token t" and "ts \<noteq> []" and "token u"
  shows "skip_multiple_token (concat (map (Cons (CHR '' '')) ts) @ CHR '' '' # u @ r) (length ts) = u @ r"
proof -
  obtain t ts' where ts: "ts = t # ts'" using assms(2) by (cases ts) auto
  have "skip_token (CHR '' '' # x) = skip_token x" for x by (simp add: skip_token_def next_token_def isspace_def)
  then show ?thesis using skip_tokens [of ts' t u r] assms ts by simp
qed

lemma token_decimal: "token (decimal n)"
  using decimal_digits digit_not_space by (auto simp: token_def)

section \<open>The memory of a process\<close>

text \<open>Three numbers, separated by a space.\<close>

definition three_numbers :: "nat \<Rightarrow> nat \<Rightarrow> nat \<Rightarrow> string \<Rightarrow> string" where
  "three_numbers a b c r = decimal a @ CHR '' '' # decimal b @ CHR '' '' # decimal c @ r"

lemma strtoull_three:
  assumes "a < 2 ^ 64" and "b < 2 ^ 64" and "c < 2 ^ 64" and "ends_token r"
  obtains p q where "strtoull (three_numbers a b c r) = (of_nat a, p)" "strtoull p = (of_nat b, q)" "strtoull q = (of_nat c, r)"
proof
  have sp: "ends_token (CHR '' '' # x)" for x by (simp add: ends_token_def isspace_def)
  show "strtoull (three_numbers a b c r) = (of_nat a, CHR '' '' # decimal b @ CHR '' '' # decimal c @ r)"
    using strtoull_decimal [of "[]" a] assms(1) sp by (simp add: three_numbers_def)
  show "strtoull (CHR '' '' # decimal b @ CHR '' '' # decimal c @ r) = (of_nat b, CHR '' '' # decimal c @ r)"
    using strtoull_decimal [of "[CHR '' '']" b] assms(2) sp by (simp add: isspace_def)
  show "strtoull (CHR '' '' # decimal c @ r) = (of_nat c, r)"
    using strtoull_decimal [of "[CHR '' '']" c] assms(3,4) by (simp add: isspace_def)
qed

lemma takeWhile_no_zero: "CHR 0x00 \<notin> set s \<Longrightarrow> takeWhile (\<lambda>c. c \<noteq> CHR 0x00) s = s"
  by (induction s) auto

lemma no_char_decimal [simp]: "CHR 0x00 \<notin> set (decimal n)" "CHR '')'' \<notin> set (decimal n)"
  using decimal_digits digit_not_space(4,5) by blast+

text \<open>
  The documented format of \<open>/proc/<pid>/stat\<close>: the process id, the command name in parentheses, twenty
  fields without white space, the three numbers of interest, and more fields.
\<close>

definition stat_line :: "nat \<Rightarrow> string \<Rightarrow> string list \<Rightarrow> string \<Rightarrow> string" where
  "stat_line pid comm fs r =
     decimal pid @ '' ('' @ comm @ CHR '')'' # concat (map (Cons (CHR '' '')) fs) @ CHR '' '' # r"

lemma no_char_fields:
  assumes "\<forall>t \<in> set ts. token t"
  shows "CHR 0x00 \<notin> set (concat (map (Cons (CHR '' '')) ts))" "CHR '')'' \<notin> set (concat (map (Cons (CHR '' '')) ts))"
  using assms by (auto simp: token_def)

text \<open>
  \<open>mono_debugger_libgtop_glue_get_memory\<close> reads what the kernel printed: for every command name, also one with
  spaces and parentheses in it, every number below \<open>2 ^ 64\<close>, and whatever the other fields are, it returns \<open>TRUE\<close>
  and the three numbers of \<open>/proc/<pid>/stat\<close> (its fields 23 to 25) and the first three of
  \<open>/proc/<pid>/statm\<close>.
\<close>

theorem get_memory_reads:
  assumes stat: "open_read P k (''/proc/'' @ decimal_int pid @ ''/stat'') 8191
      = (Inr (stat_line pid' comm fs (three_numbers v r l rest1)), k1)"
    and fs: "length fs = 20" "\<forall>t \<in> set fs. token t" and comm: "CHR 0x00 \<notin> set comm"
    and rest1: "ends_token rest1" "CHR 0x00 \<notin> set rest1" "CHR '')'' \<notin> set rest1"
    and statm: "open_read P k1 (''/proc/'' @ decimal_int pid @ ''/statm'') 8191 = (Inr (three_numbers m re sh rest2), k2)"
    and rest2: "ends_token rest2" "CHR 0x00 \<notin> set rest2"
    and bounds: "\<forall>n \<in> {v, r, l, m, re, sh}. n < 2 ^ 64"
  shows "mono_debugger_libgtop_glue_get_memory P k pid info =
    (True, \<lparr> mem_size = of_nat m, vsize = of_nat v, resident = of_nat re, share = of_nat sh, rss = of_nat r, rss_rlim = of_nat l \<rparr>, k2)"
proof -
  let ?t = "three_numbers v r l rest1" and ?m = "three_numbers m re sh rest2"
  obtain p q where n: "strtoull ?t = (of_nat v, p)" "strtoull p = (of_nat r, q)" "strtoull q = (of_nat l, rest1)"
    using strtoull_three [of v r l rest1] bounds rest1(1) by auto
  obtain p' q' where n': "strtoull ?m = (of_nat m, p')" "strtoull p' = (of_nat re, q')" "strtoull q' = (of_nat sh, rest2)"
    using strtoull_three [of m re sh rest2] bounds rest2(1) by auto
  have clean: "CHR 0x00 \<notin> set (stat_line pid' comm fs ?t)" "CHR 0x00 \<notin> set ?m"
    "CHR '')'' \<notin> set (concat (map (Cons (CHR '' '')) fs) @ CHR '' '' # ?t)"
    using fs(2) comm rest1 rest2 no_char_fields [OF fs(2)] by (auto simp: stat_line_def three_numbers_def)
  have after: "proc_stat_after_cmd (stat_line pid' comm fs ?t) = Some (concat (map (Cons (CHR '' '')) fs) @ CHR '' '' # ?t)"
    using strrchr_last [OF clean(3), of "decimal pid' @ '' ('' @ comm"] by (simp add: proc_stat_after_cmd_def stat_line_def)
  have ne: "fs \<noteq> []" using fs(1) by auto
  have skip: "skip_multiple_token (concat (map (Cons (CHR '' '')) fs) @ CHR '' '' # ?t) 20 = ?t"
    using skip_fields [OF fs(2) ne token_decimal, of v "CHR '' '' # decimal r @ CHR '' '' # decimal l @ rest1"] fs(1)
    by (auto simp: three_numbers_def)
  have "proc_stat_to_buffer P k BUFSIZ pid = (TRY_FILE_TO_BUFFER_OK, stat_line pid' comm fs ?t, k1)"
    "proc_statm_to_buffer P k1 BUFSIZ pid = (TRY_FILE_TO_BUFFER_OK, ?m, k2)"
    unfolding proc_stat_to_buffer_def proc_statm_to_buffer_def try_file_to_buffer_at_def BUFSIZ_def
    using stat statm takeWhile_no_zero [OF clean(1)] takeWhile_no_zero [OF clean(2)] by simp_all
  then show ?thesis by (simp add: mono_debugger_libgtop_glue_get_memory_def after skip n n' Let_def)
qed

text \<open>A process with id 7 whose command name is \<open>a) b\<close>.\<close>

definition proc7 :: "unit procfs" where
  "proc7 = \<lparr> open_read = (\<lambda>k path n. (Inr (take n (if path = ''/proc/7/stat''
       then stat_line 7 ''a) b'' (replicate 20 ''S'') (three_numbers 4096 12 99 '' 0'') else three_numbers 1 2 3 [])), k)),
     read_dir = (\<lambda>k path. (None, k)), get_pid = (\<lambda>k. 7) \<rparr>"

theorem get_memory_reads_witness:
  "mono_debugger_libgtop_glue_get_memory proc7 () 7 \<lparr> mem_size = 0, vsize = 0, resident = 0, share = 0, rss = 0, rss_rlim = 0 \<rparr> =
     (True, \<lparr> mem_size = 1, vsize = 4096, resident = 2, share = 3, rss = 12, rss_rlim = 99 \<rparr>, ())"
proof -
  let ?l = "three_numbers 4096 12 99 '' 0''" and ?m = "three_numbers 1 2 3 []"
  have d: "decimal 7 = ''7''" by (simp add: decimal.simps digit_char_def char_of_eq_iff take_bit_eq_mod)
  have len: "length (stat_line 7 ''a) b'' (replicate 20 ''S'') ?l) \<le> 8191" "length ?m \<le> 8191"
    by (simp_all add: stat_line_def three_numbers_def length_concat sum_list_replicate decimal.simps)
  have "token ''S''" by (simp add: token_def isspace_def)
  then show ?thesis
    using get_memory_reads [of proc7 "()" 7 7 "''a) b''" "replicate 20 ''S''" 4096 12 99 "'' 0''" "()" 1 2 3 "[]" "()"]
      d len by (simp add: proc7_def decimal_int_def ends_token_def isspace_def)
qed

end
