(* ===== verification/Darwin_Ptrace.thy ===== *)
theory Darwin_Ptrace
  imports Linux_Ptrace
begin

text \<open>
  The Darwin layer, \<open>darwin-ptrace.c\<close> with \<open>darwin-ptrace.h\<close>, and \<open>darwin-thread-db.c\<close>: the functions of
  \<open>x86-linux-ptrace.c\<close> on Mach tasks and threads, for i386. A thread of the target is named to the debugger by a
  number made of the process id and an index into a table of thread ports. Mach and the BSD calls are the parameter \<open>mach\<close>,
  a record of functions over a state \<open>'k\<close>; as elsewhere a result \<open>None\<close> is a call that does not return.
\<close>

section \<open>State\<close>

type_synonym task = guint32
type_synonym thread = guint32
type_synonym vm_prot = guint32

abbreviation VM_PROT_WRITE :: vm_prot where "VM_PROT_WRITE \<equiv> 2"
abbreviation VM_PROT_EXECUTE :: vm_prot where "VM_PROT_EXECUTE \<equiv> 4"

text \<open>\<open>struct user_regs_struct\<close> of \<open>darwin-ptrace.h\<close>.\<close>

record darwin_regs =
  d_eax :: guint32
  d_ebx :: guint32
  d_ecx :: guint32
  d_edx :: guint32
  d_edi :: guint32
  d_esi :: guint32
  d_ebp :: guint32
  d_esp :: guint32
  d_ss :: "16 word \<times> 16 word"
  d_eflags :: guint32
  d_eip :: guint32
  d_cs :: "16 word \<times> 16 word"
  d_ds :: "16 word \<times> 16 word"
  d_es :: "16 word \<times> 16 word"
  d_fs :: "16 word \<times> 16 word"
  d_gs :: "16 word \<times> 16 word"
  d_orig_eax :: guint32

record vm_region_list =
  region_protection :: vm_prot
  region_start :: guint32
  region_length :: guint32

record ('k, 'f) mach =
  task_threads :: "'k \<Rightarrow> task \<Rightarrow> (errno + thread list) \<times> 'k"
  thread_get_regs :: "'k \<Rightarrow> thread \<Rightarrow> darwin_regs option \<times> 'k"
  thread_set_regs :: "'k \<Rightarrow> thread \<Rightarrow> darwin_regs \<Rightarrow> bool \<times> 'k"
  thread_get_fpregs :: "'k \<Rightarrow> thread \<Rightarrow> 'f option \<times> 'k"
  thread_set_fpregs :: "'k \<Rightarrow> thread \<Rightarrow> 'f \<Rightarrow> bool \<times> 'k"
  thread_get_debug :: "'k \<Rightarrow> thread \<Rightarrow> guint32 list option \<times> 'k"
  thread_set_debug :: "'k \<Rightarrow> thread \<Rightarrow> guint32 list \<Rightarrow> bool \<times> 'k"
  vm_read :: "'k \<Rightarrow> task \<Rightarrow> guint32 \<Rightarrow> guint32 \<Rightarrow> guint8 list option \<times> 'k"
  vm_write :: "'k \<Rightarrow> task \<Rightarrow> guint32 \<Rightarrow> guint8 list \<Rightarrow> bool \<times> 'k"
  vm_region :: "'k \<Rightarrow> task \<Rightarrow> guint32 \<Rightarrow> vm_region_list option \<times> 'k"
  vm_protect :: "'k \<Rightarrow> task \<Rightarrow> guint32 \<Rightarrow> guint32 \<Rightarrow> vm_prot \<Rightarrow> bool \<times> 'k"
  vm_deallocate :: "'k \<Rightarrow> bool \<times> 'k"
  thread_suspend :: "'k \<Rightarrow> thread \<Rightarrow> 'k"
  thread_resume :: "'k \<Rightarrow> thread \<Rightarrow> 'k"
  thread_suspend_count :: "'k \<Rightarrow> thread \<Rightarrow> nat option"
  task_suspend_count :: "'k \<Rightarrow> task \<Rightarrow> nat option"
  task_resume :: "'k \<Rightarrow> task \<Rightarrow> 'k"
  mach_waitpid :: "'k \<Rightarrow> gint \<Rightarrow> bool \<Rightarrow> (errno + gint \<times> guint32) \<times> 'k"
  sys_kill :: "'k \<Rightarrow> pid \<Rightarrow> gint \<Rightarrow> errno \<times> 'k"
  pt_continue :: "'k \<Rightarrow> pid \<Rightarrow> gint \<Rightarrow> errno \<times> 'k"
  pt_step :: "'k \<Rightarrow> pid \<Rightarrow> gint \<Rightarrow> errno \<times> 'k"
  pt_kill :: "'k \<Rightarrow> pid \<Rightarrow> 'k"
  pt_detach :: "'k \<Rightarrow> pid \<Rightarrow> errno \<times> 'k"
  proc_stat_exists :: "'k \<Rightarrow> pid \<Rightarrow> bool"
  task_for_pid :: "'k \<Rightarrow> pid \<Rightarrow> task option \<times> 'k"
  mach_port_allocate :: "'k \<Rightarrow> guint32 option \<times> 'k"
  mach_port_insert_right :: "'k \<Rightarrow> guint32 \<Rightarrow> bool \<times> 'k"
  task_set_exception_ports :: "'k \<Rightarrow> task \<Rightarrow> guint32 \<Rightarrow> bool \<times> 'k"
  mach_port_names :: "'k \<Rightarrow> task \<Rightarrow> guint32 list option \<times> 'k"
  mach_port_extract_right :: "'k \<Rightarrow> task \<Rightarrow> guint32 \<Rightarrow> guint32 option \<times> 'k"
  mach_msg_receive :: "'k \<Rightarrow> guint32 \<Rightarrow> thread option \<times> 'k"
  sysctl_argmax :: "'k \<Rightarrow> nat option"
  sysctl_procargs :: "'k \<Rightarrow> pid \<Rightarrow> nat \<Rightarrow> string option"

text \<open>
  \<open>InferiorHandle\<close> with its \<open>OSData\<close>. Handles are pointers, since the list of inferiors shares them: \<open>inferiors\<close> is the
  store they point into. The fields named \<open>g\<close> are the globals of the file; \<open>g_inferior_list\<close> is the linked list, each
  node with its address and its \<open>inferior\<close>.
\<close>

record darwin_inferior =
  d_pid :: pid
  d_stepping :: bool
  d_last_signal :: gint
  d_is_thread :: bool
  os_task :: task
  os_exception_port :: guint32
  os_thread :: thread
  os_exception_thread :: bool
  os_stop_exception_thread :: bool
  os_thread_index :: gint
  os_wants_to_run :: bool

definition THREAD_INDEX_MAX :: nat where "THREAD_INDEX_MAX = 1024"

record 'k darwin = bp_store +
  mk :: 'k
  g_thread_index_count :: nat
  g_thread_list :: "thread list"
  g_thread_used_list :: "bool list"
  thread_id_mutex :: bool
  inferiors :: "nat \<rightharpoonup> darwin_inferior"
  g_inferior_list :: "(nat \<times> nat) list"
  g_wait_thread :: thread
  g_stopped_thread :: thread
  g_stepping_thread :: thread
  g_stepping_task :: task
  d_stop_requested :: gint
  d_stop_status :: guint32

definition upd_inferior :: "nat \<Rightarrow> (darwin_inferior \<Rightarrow> darwin_inferior) \<Rightarrow> ('k, 'z) darwin_scheme \<Rightarrow> ('k, 'z) darwin_scheme" where
  "upd_inferior p f d = d\<lparr> inferiors := (inferiors d)(p := map_option f (inferiors d p)) \<rparr>"

section \<open>Thread indices\<close>

definition GET_PID :: "guint32 \<Rightarrow> guint32" where "GET_PID x = x AND 0x1ffff"
definition GET_THREAD_INDEX :: "guint32 \<Rightarrow> guint32" where "GET_THREAD_INDEX x = drop_bit 17 x"
definition COMPOSED_PID :: "guint32 \<Rightarrow> guint32 \<Rightarrow> guint32" where "COMPOSED_PID pid ti = pid OR push_bit 17 ti"

definition get_thread_from_index :: "('k, 'z) darwin_scheme \<Rightarrow> gint \<Rightarrow> thread option" where
  "get_thread_from_index d i =
     (if 0 \<le> i \<and> nat i < length (g_thread_list d) then Some (g_thread_list d ! nat i) else None)"

text \<open>The first index from \<open>i\<close> on, below \<open>n\<close>, at which a test on the table succeeds.\<close>

fun first_index :: "(nat \<Rightarrow> bool) \<Rightarrow> nat \<Rightarrow> nat \<Rightarrow> nat option" where
  "first_index P i 0 = None"
| "first_index P i (Suc n) = (if P i then Some i else first_index P (Suc i) n)"

definition take_index :: "nat \<Rightarrow> thread \<Rightarrow> ('k, 'z) darwin_scheme \<Rightarrow> ('k, 'z) darwin_scheme" where
  "take_index i th d = d\<lparr> g_thread_list := (g_thread_list d)[i := th], g_thread_used_list := (g_thread_used_list d)[i := True] \<rparr>"

text \<open>
  The loop that looks for indices no thread of the task uses. The inner loop compares with \<open>threads[i]\<close>, not \<open>threads[j]\<close>:
  its outcome is the same for every \<open>j\<close>, and for an \<open>i\<close> outside the array it reads outside it.
\<close>

fun release_indices :: "thread list \<Rightarrow> thread list \<Rightarrow> nat \<Rightarrow> nat \<Rightarrow> bool list \<Rightarrow> gint \<Rightarrow> (bool list \<times> gint) option" where
  "release_indices table threads i 0 used result = Some (used, result)"
| "release_indices table threads i (Suc n) used result =
     (if threads = [] then release_indices table threads (Suc i) n (used[i := False]) (int i)
      else if i < length threads then
        (let found = (table ! i = threads ! i) in
         release_indices table threads (Suc i) n (used[i := found]) (if found then result else int i))
      else None)"

definition get_thread_index ::
  "('k, 'f) mach \<Rightarrow> task \<Rightarrow> thread \<Rightarrow> ('k, 'z) darwin_scheme \<Rightarrow> (ServerCommandError \<times> gint option \<times> ('k, 'z) darwin_scheme) option" where
  "get_thread_index K task thread d =
     (if thread_id_mutex d then None
      else let d = d\<lparr> thread_id_mutex := True \<rparr>; unlock = (\<lambda>d. d\<lparr> thread_id_mutex := False \<rparr>) in
        case first_index (\<lambda>i. g_thread_list d ! i = thread) 0 (g_thread_index_count d) of
          Some i \<Rightarrow> Some (COMMAND_ERROR_NONE, Some (int i), unlock d)
        | None \<Rightarrow>
            if g_thread_index_count d < THREAD_INDEX_MAX then
              let i = g_thread_index_count d in
              Some (COMMAND_ERROR_NONE, Some (int i), unlock ((take_index i thread d)\<lparr> g_thread_index_count := i + 1 \<rparr>))
            else case first_index (\<lambda>i. \<not> g_thread_used_list d ! i) 0 THREAD_INDEX_MAX of
              Some i \<Rightarrow> Some (COMMAND_ERROR_NONE, Some (int i), unlock (take_index i thread d))
            | None \<Rightarrow>
                if task = 0 then None
                else case task_threads K (mk d) task of
                  (Inl _, k) \<Rightarrow> Some (COMMAND_ERROR_NONE, None, d\<lparr> mk := k \<rparr>)
                | (Inr threads, k) \<Rightarrow> do {
                    (used, result) \<leftarrow> release_indices (g_thread_list d) threads 0 THREAD_INDEX_MAX (g_thread_used_list d) (-1);
                    let d = d\<lparr> mk := snd (vm_deallocate K k), g_thread_used_list := used \<rparr>;
                    if result = -1 then None
                    else Some (COMMAND_ERROR_NONE, Some result, unlock (take_index (nat result) thread d))
                  })"

section \<open>Registers\<close>

definition darwin_check_errno :: "('k, 'f) mach \<Rightarrow> ('k, 'z) darwin_scheme \<Rightarrow> darwin_inferior \<Rightarrow> errno \<Rightarrow> ServerCommandError" where
  "darwin_check_errno K d ih e =
     (if e = 0 then COMMAND_ERROR_NONE
      else if e \<noteq> ESRCH then COMMAND_ERROR_UNKNOWN_ERROR
      else if proc_stat_exists K (mk d) (d_pid ih) then COMMAND_ERROR_NOT_STOPPED
      else COMMAND_ERROR_NO_TARGET)"

definition darwin_primary_thread :: "('k, 'f) mach \<Rightarrow> ('k, 'z) darwin_scheme \<Rightarrow> task \<Rightarrow> (thread \<times> ('k, 'z) darwin_scheme) option" where
  "darwin_primary_thread K d t =
     (case task_threads K (mk d) t of
        (Inl _, k) \<Rightarrow> Some (0, d\<lparr> mk := k \<rparr>)
      | (Inr [], k) \<Rightarrow> None
      | (Inr (th # _), k) \<Rightarrow> Some (th, d\<lparr> mk := snd (vm_deallocate K k) \<rparr>))"

definition darwin_get_registers ::
  "('k, 'f) mach \<Rightarrow> ('k, 'z) darwin_scheme \<Rightarrow> darwin_inferior \<Rightarrow> ServerCommandError \<times> darwin_regs option \<times> ('k, 'z) darwin_scheme" where
  "darwin_get_registers K d ih =
     (case thread_get_regs K (mk d) (os_thread ih) of
        (None, k) \<Rightarrow> (COMMAND_ERROR_UNKNOWN_ERROR, None, d\<lparr> mk := k \<rparr>)
      | (Some regs, k) \<Rightarrow> (COMMAND_ERROR_NONE, Some regs, d\<lparr> mk := k \<rparr>))"

definition darwin_set_registers ::
  "('k, 'f) mach \<Rightarrow> ('k, 'z) darwin_scheme \<Rightarrow> darwin_inferior \<Rightarrow> darwin_regs \<Rightarrow> ServerCommandError \<times> ('k, 'z) darwin_scheme" where
  "darwin_set_registers K d ih regs =
     (case thread_set_regs K (mk d) (os_thread ih) regs of
        (ok, k) \<Rightarrow> (if ok then COMMAND_ERROR_NONE else COMMAND_ERROR_UNKNOWN_ERROR, d\<lparr> mk := k \<rparr>))"

definition darwin_get_fp_registers ::
  "('k, 'f) mach \<Rightarrow> ('k, 'z) darwin_scheme \<Rightarrow> darwin_inferior \<Rightarrow> ServerCommandError \<times> 'f option \<times> ('k, 'z) darwin_scheme" where
  "darwin_get_fp_registers K d ih =
     (case thread_get_fpregs K (mk d) (os_thread ih) of
        (None, k) \<Rightarrow> (COMMAND_ERROR_UNKNOWN_ERROR, None, d\<lparr> mk := k \<rparr>)
      | (Some regs, k) \<Rightarrow> (COMMAND_ERROR_NONE, Some regs, d\<lparr> mk := k \<rparr>))"

definition darwin_set_fp_registers ::
  "('k, 'f) mach \<Rightarrow> ('k, 'z) darwin_scheme \<Rightarrow> darwin_inferior \<Rightarrow> 'f \<Rightarrow> ServerCommandError \<times> ('k, 'z) darwin_scheme" where
  "darwin_set_fp_registers K d ih regs =
     (case thread_set_fpregs K (mk d) (os_thread ih) regs of
        (ok, k) \<Rightarrow> (if ok then COMMAND_ERROR_NONE else COMMAND_ERROR_UNKNOWN_ERROR, d\<lparr> mk := k \<rparr>))"

text \<open>The debug registers are the array of words from \<open>__dr0\<close> on.\<close>

definition darwin_set_dr ::
  "('k, 'f) mach \<Rightarrow> ('k, 'z) darwin_scheme \<Rightarrow> darwin_inferior \<Rightarrow> gint \<Rightarrow> guint64 \<Rightarrow> (ServerCommandError \<times> ('k, 'z) darwin_scheme) option" where
  "darwin_set_dr K d ih regnum value =
     (case thread_get_debug K (mk d) (os_thread ih) of
        (None, k) \<Rightarrow> Some (COMMAND_ERROR_UNKNOWN_ERROR, d\<lparr> mk := k \<rparr>)
      | (Some state, k) \<Rightarrow>
          if regnum < 0 \<or> length state \<le> nat regnum then None
          else let (ok, k) = thread_set_debug K k (os_thread ih) (state[nat regnum := ucast value]) in
            Some (if ok then COMMAND_ERROR_NONE else COMMAND_ERROR_UNKNOWN_ERROR, d\<lparr> mk := k \<rparr>))"

definition darwin_get_dr ::
  "('k, 'f) mach \<Rightarrow> ('k, 'z) darwin_scheme \<Rightarrow> darwin_inferior \<Rightarrow> gint \<Rightarrow> (ServerCommandError \<times> guint64 option \<times> ('k, 'z) darwin_scheme) option" where
  "darwin_get_dr K d ih regnum =
     (case thread_get_debug K (mk d) (os_thread ih) of
        (None, k) \<Rightarrow> Some (COMMAND_ERROR_UNKNOWN_ERROR, None, d\<lparr> mk := k \<rparr>)
      | (Some state, k) \<Rightarrow>
          if regnum < 0 \<or> length state \<le> nat regnum then None
          else Some (COMMAND_ERROR_NONE, Some (ucast (state ! nat regnum)), d\<lparr> mk := k \<rparr>))"

section \<open>Memory\<close>

text \<open>\<open>vm_address_t\<close> and \<open>vm_size_t\<close> have 32 bits, and a page 4096 bytes.\<close>

definition trunc_page :: "guint32 \<Rightarrow> guint32" where "trunc_page x = x AND NOT 0xfff"
definition round_page :: "guint32 \<Rightarrow> guint32" where "round_page x = trunc_page (x + 0xfff)"

definition low_address :: "guint64 \<Rightarrow> guint32" where "low_address start = trunc_page (ucast start)"
definition aligned_length :: "guint64 \<Rightarrow> guint32 \<Rightarrow> guint32" where
  "aligned_length start n = round_page (ucast (start + ucast n)) - low_address start"

definition darwin_priv_read_memory ::
  "('k, 'f) mach \<Rightarrow> ('k, 'z) darwin_scheme \<Rightarrow> darwin_inferior \<Rightarrow> guint64 \<Rightarrow> guint32 \<Rightarrow>
     (ServerCommandError \<times> guint8 list option \<times> ('k, 'z) darwin_scheme) option" where
  "darwin_priv_read_memory K d ih start n =
     (case vm_read K (mk d) (os_task ih) (low_address start) (aligned_length start n) of
        (None, k) \<Rightarrow> Some (COMMAND_ERROR_MEMORY_ACCESS, None, d\<lparr> mk := k \<rparr>)
      | (Some copied, k) \<Rightarrow>
          let off = unat (ucast start - low_address start) in
          if length copied < off + unat n then None
          else Some (COMMAND_ERROR_NONE, Some (get_bytes off (unat n) copied), d\<lparr> mk := snd (vm_deallocate K k) \<rparr>))"

definition darwin_read_memory ::
  "(('k, 'z) darwin_scheme \<Rightarrow> guint64 \<Rightarrow> guint32 \<Rightarrow> guint8 list \<Rightarrow> (('k, 'z) darwin_scheme \<times> guint8 list) option) \<Rightarrow>
     ('k, 'f) mach \<Rightarrow> ('k, 'z) darwin_scheme \<Rightarrow> darwin_inferior \<Rightarrow> guint64 \<Rightarrow> guint32 \<Rightarrow>
     (ServerCommandError \<times> guint8 list option \<times> ('k, 'z) darwin_scheme) option" where
  "darwin_read_memory x86_arch_remove_breakpoints_from_target_memory K d ih start n = do {
     (result, buffer, d) \<leftarrow> darwin_priv_read_memory K d ih start n;
     case buffer of
       None \<Rightarrow> Some (result, None, d)
     | Some buffer \<Rightarrow> do {
         (d, buffer) \<leftarrow> x86_arch_remove_breakpoints_from_target_memory d start n buffer;
         Some (COMMAND_ERROR_NONE, Some buffer, d)
       }
   }"

text \<open>
  The loop of \<open>_server_ptrace_make_memory_executable\<close> over the regions up to \<open>stop\<close>; \<open>vm_region\<close> also moves the address to
  the start of the region.
\<close>

partial_function (option) make_executable_loop ::
  "('k, 'f) mach \<Rightarrow> 'k \<Rightarrow> task \<Rightarrow> guint32 \<Rightarrow> guint32 \<Rightarrow> (ServerCommandError \<times> 'k) option" where
  "make_executable_loop K k t region_address stop =
     (if \<not> region_address < stop then Some (COMMAND_ERROR_NONE, k)
      else case vm_region K k t region_address of
        (None, k) \<Rightarrow> Some (COMMAND_ERROR_MEMORY_ACCESS, k)
      | (Some r, k) \<Rightarrow>
          (if region_protection r AND VM_PROT_EXECUTE = 0 then
             (case vm_protect K k t (region_start r) (region_length r) (region_protection r OR VM_PROT_EXECUTE) of
                (ok, k) \<Rightarrow>
                  if \<not> ok then Some (COMMAND_ERROR_MEMORY_ACCESS, k)
                  else make_executable_loop K k t (region_start r + region_length r) stop)
           else make_executable_loop K k t (region_start r + region_length r) stop))"

definition darwin_make_memory_executable ::
  "('k, 'f) mach \<Rightarrow> ('k, 'z) darwin_scheme \<Rightarrow> darwin_inferior \<Rightarrow> guint64 \<Rightarrow> guint32 \<Rightarrow> (ServerCommandError \<times> ('k, 'z) darwin_scheme) option" where
  "darwin_make_memory_executable K d ih start n = do {
     (r, k) \<leftarrow> make_executable_loop K (mk d) (os_task ih) (low_address start) (low_address start + aligned_length start n);
     Some (r, d\<lparr> mk := k \<rparr>)
   }"

text \<open>The three loops of \<open>server_ptrace_write_memory\<close>: collecting the regions (a new one is put in front), making them
  writable, and restoring their protection. The first result of a loop is \<open>fail\<close>.\<close>

partial_function (option) collect_regions ::
  "('k, 'f) mach \<Rightarrow> 'k \<Rightarrow> task \<Rightarrow> guint32 \<Rightarrow> guint32 \<Rightarrow> vm_region_list list \<Rightarrow> (bool \<times> vm_region_list list \<times> 'k) option" where
  "collect_regions K k t region_address stop head =
     (if \<not> region_address < stop then Some (False, head, k)
      else case vm_region K k t region_address of
        (None, k) \<Rightarrow> Some (True, head, k)
      | (Some r, k) \<Rightarrow> collect_regions K k t (region_start r + region_length r) stop (r # head))"

fun protect_regions ::
  "('k, 'f) mach \<Rightarrow> task \<Rightarrow> (vm_prot \<Rightarrow> vm_prot) \<Rightarrow> vm_region_list list \<Rightarrow> bool \<Rightarrow> 'k \<Rightarrow> bool \<times> 'k" where
  "protect_regions K t f [] fail k = (fail, k)"
| "protect_regions K t f (r # rs) fail k =
     (if region_protection r AND VM_PROT_WRITE = 0 then
        let (ok, k) = vm_protect K k t (region_start r) (region_length r) (f (region_protection r)) in
        protect_regions K t f rs (fail \<or> \<not> ok) k
      else protect_regions K t f rs fail k)"

definition darwin_write_memory ::
  "('k, 'f) mach \<Rightarrow> ('k, 'z) darwin_scheme \<Rightarrow> darwin_inferior \<Rightarrow> guint64 \<Rightarrow> guint8 list \<Rightarrow> (ServerCommandError \<times> ('k, 'z) darwin_scheme) option" where
  "darwin_write_memory K d ih start buffer =
     (let t = os_task ih; low = low_address start; len = aligned_length start (of_nat (length buffer)) in
      case vm_read K (mk d) t low len of
        (None, k) \<Rightarrow> Some (COMMAND_ERROR_MEMORY_ACCESS, d\<lparr> mk := k \<rparr>)
      | (Some copied, k) \<Rightarrow>
          let off = unat (ucast start - low) in
          if length copied < off + length buffer then None
          else do {
            let copied = put_bytes off buffer copied;
            (fail, regions, k) \<leftarrow> collect_regions K k t low (low + len) [];
            let (fail, k) =
              (if fail then (fail, k)
               else let (fail, k) = protect_regions K t (\<lambda>p. p OR VM_PROT_WRITE) regions fail k;
                        (ok, k) = vm_write K k t low (take (unat len) copied) in
                 protect_regions K t (\<lambda>p. p) regions (fail \<or> \<not> ok) k);
            let (ok, k) = vm_deallocate K k;
            Some (if fail \<or> \<not> ok then COMMAND_ERROR_MEMORY_ACCESS else COMMAND_ERROR_NONE, d\<lparr> mk := k \<rparr>)
          })"

definition darwin_poke_word ::
  "('k, 'f) mach \<Rightarrow> ('k, 'z) darwin_scheme \<Rightarrow> darwin_inferior \<Rightarrow> guint64 \<Rightarrow> guint32 \<Rightarrow> (ServerCommandError \<times> ('k, 'z) darwin_scheme) option" where
  "darwin_poke_word K d ih addr value = darwin_write_memory K d ih addr (le32 value)"

section \<open>Waiting and stopping\<close>

abbreviation DARWIN_SIGSTOP :: gint where "DARWIN_SIGSTOP \<equiv> 17"

text \<open>\<open>sys/wait.h\<close> of Darwin.\<close>

definition darwin_WSTOPSIG :: "guint32 \<Rightarrow> gint" where "darwin_WSTOPSIG status = uint (drop_bit 8 status)"
definition darwin_WIFSTOPPED :: "guint32 \<Rightarrow> bool" where
  "darwin_WIFSTOPPED status \<longleftrightarrow> status AND 0x7f = 0x7f \<and> darwin_WSTOPSIG status \<noteq> 0x13"

text \<open>After a single step the threads that \<open>server_ptrace_step\<close> suspended run again.\<close>

definition resume_others :: "('k, 'f) mach \<Rightarrow> ('k, 'z) darwin_scheme \<Rightarrow> ('k, 'z) darwin_scheme" where
  "resume_others K d =
     (if g_stepping_thread d = -1 then d
      else let d = (case task_threads K (mk d) (g_stepping_task d) of
                      (Inl _, k) \<Rightarrow> d\<lparr> mk := k \<rparr>
                    | (Inr threads, k) \<Rightarrow>
                        d\<lparr> mk := snd (vm_deallocate K
                             (foldl (thread_resume K) k (filter (\<lambda>th. th \<noteq> g_stepping_thread d) threads))) \<rparr>) in
        d\<lparr> g_stepping_thread := -1 \<rparr>)"

text \<open>The results are the return value, \<open>*status\<close> and the state.\<close>

definition darwin_do_wait ::
  "('k, 'f) mach \<Rightarrow> ('k, 'z) darwin_scheme \<Rightarrow> gint \<Rightarrow> (guint32 \<times> guint32 option \<times> ('k, 'z) darwin_scheme) option" where
  "darwin_do_wait K d pid =
     (case mach_waitpid K (mk d) pid False of
        (Inl e, k) \<Rightarrow> Some (if e = EINTR then 0 else -1, None, d\<lparr> mk := k \<rparr>)
      | (Inr (ret, status), k) \<Rightarrow>
          let d = resume_others K (d\<lparr> mk := k \<rparr>) in
          if darwin_WIFSTOPPED status \<and> darwin_WSTOPSIG status = DARWIN_SIGSTOP then Some (g_stopped_thread d, Some status, d)
          else if g_wait_thread d = -1 then Some (word_of_int ret, Some status, d)
          else do {
            (e, i, d) \<leftarrow> get_thread_index K 0 (g_wait_thread d) d;
            i \<leftarrow> i;
            Some (if e \<noteq> COMMAND_ERROR_NONE then 0 else COMPOSED_PID (word_of_int ret) (word_of_int i), Some status, d)
          })"

text \<open>
  No function of the file sets \<open>stop_requested\<close> to anything but 0, and no other function takes the mutexes of this one, which are
  left out.
\<close>

partial_function (option) darwin_global_wait ::
  "('k, 'f) mach \<Rightarrow> ('k, 'z) darwin_scheme \<Rightarrow> (gint \<times> guint32 option \<times> ('k, 'z) darwin_scheme) option" where
  "darwin_global_wait K d = do {
     (ret, status, d) \<leftarrow> darwin_do_wait K d (-1);
     let ret = sint ret;
     if ret \<le> 0 then Some (ret, None, d)
     else do {
       st \<leftarrow> status;
       if ret = d_stop_requested d then darwin_global_wait K (d\<lparr> d_stop_status := st \<rparr>)
       else Some (ret, Some st, d)
     }
   }"

definition darwin_global_init :: "('k, 'z) darwin_scheme \<Rightarrow> ('k, 'z) darwin_scheme" where
  "darwin_global_init d = d\<lparr> d_stop_requested := 0, d_stop_status := 0 \<rparr>"

definition darwin_stop :: "('k, 'f) mach \<Rightarrow> ('k, 'z) darwin_scheme \<Rightarrow> nat \<Rightarrow> (ServerCommandError \<times> ('k, 'z) darwin_scheme) option" where
  "darwin_stop K d p = do {
     ih \<leftarrow> inferiors d p;
     let d = upd_inferior p (\<lambda>ih. ih\<lparr> os_wants_to_run := False \<rparr>) d;
     Some (case task_suspend_count K (mk d) (os_task ih) of
        None \<Rightarrow> (COMMAND_ERROR_NONE, d)
      | Some n \<Rightarrow>
          if n > 0 then (COMMAND_ERROR_ALREADY_STOPPED, d\<lparr> mk := thread_suspend K (mk d) (os_thread ih) \<rparr>)
          else let (e, k) = sys_kill K (mk d) (d_pid ih) DARWIN_SIGSTOP; d = d\<lparr> mk := k \<rparr> in
            if e = ESRCH then (COMMAND_ERROR_NO_TARGET, d)
            else if e \<noteq> 0 then (COMMAND_ERROR_UNKNOWN_ERROR, d)
            else (COMMAND_ERROR_NONE, d\<lparr> g_stopped_thread := COMPOSED_PID (d_pid ih) (word_of_int (os_thread_index ih)) \<rparr>))
   }"

text \<open>The \<open>NULL\<close> stored in \<open>*status\<close> is 0.\<close>

definition darwin_stop_and_wait ::
  "('k, 'f) mach \<Rightarrow> ('k, 'z) darwin_scheme \<Rightarrow> nat \<Rightarrow> (ServerCommandError \<times> guint32 \<times> ('k, 'z) darwin_scheme) option" where
  "darwin_stop_and_wait K d p = do { (r, d) \<leftarrow> darwin_stop K d p; Some (r, 0, d) }"

text \<open>One message of the thread that receives exceptions: \<open>None\<close> from \<open>mach_msg_receive\<close> is the timeout. The result says if the
  thread goes on.\<close>

definition darwin_mach_msg_rcv_step :: "('k, 'f) mach \<Rightarrow> ('k, 'z) darwin_scheme \<Rightarrow> nat \<Rightarrow> (bool \<times> ('k, 'z) darwin_scheme) option" where
  "darwin_mach_msg_rcv_step K d p = do {
     ih \<leftarrow> inferiors d p;
     Some (case mach_msg_receive K (mk d) (os_exception_port ih) of
        (None, k) \<Rightarrow> (\<not> os_stop_exception_thread ih, d\<lparr> mk := k \<rparr>)
      | (Some th, k) \<Rightarrow> (True, d\<lparr> mk := k, g_wait_thread := th \<rparr>))
   }"

section \<open>Running\<close>

definition resume_times :: "('k, 'f) mach \<Rightarrow> thread \<Rightarrow> nat \<Rightarrow> 'k \<Rightarrow> 'k" where
  "resume_times K th n k = ((\<lambda>k. thread_resume K k th) ^^ n) k"

text \<open>
  When the registers cannot be read, the source writes a struct that was never initialised to the thread; such a call has no
  result here.
\<close>

definition set_trap_flag ::
  "('k, 'f) mach \<Rightarrow> (darwin_regs \<Rightarrow> darwin_regs) \<Rightarrow> ('k, 'z) darwin_scheme \<Rightarrow> darwin_inferior \<Rightarrow> ('k, 'z) darwin_scheme option" where
  "set_trap_flag K f d ih = (case darwin_get_registers K d ih of
     (_, None, d) \<Rightarrow> None
   | (_, Some regs, d) \<Rightarrow> Some (snd (darwin_set_registers K d ih (f regs))))"

fun all_want_to_run :: "(nat \<rightharpoonup> darwin_inferior) \<Rightarrow> pid \<Rightarrow> nat list \<Rightarrow> bool \<Rightarrow> bool option" where
  "all_want_to_run hs pid [] w = Some w"
| "all_want_to_run hs pid (q # qs) w =
     (case hs q of
        None \<Rightarrow> None
      | Some ih \<Rightarrow> all_want_to_run hs pid qs (if d_pid ih = pid then w \<and> os_wants_to_run ih else w))"

definition darwin_continue :: "('k, 'f) mach \<Rightarrow> ('k, 'z) darwin_scheme \<Rightarrow> nat \<Rightarrow> (ServerCommandError \<times> ('k, 'z) darwin_scheme) option" where
  "darwin_continue K d p = do {
     ih \<leftarrow> inferiors d p;
     d \<leftarrow> set_trap_flag K (\<lambda>r. r\<lparr> d_eflags := d_eflags r AND NOT 0x100 \<rparr>) d ih;
     let n = (case thread_suspend_count K (mk d) (os_thread ih) of None \<Rightarrow> 0 | Some n \<Rightarrow> n);
     let d = d\<lparr> mk := resume_times K (os_thread ih) n (mk d) \<rparr>;
     let d = upd_inferior p (\<lambda>ih. ih\<lparr> d_stepping := False, os_wants_to_run := True \<rparr>) d;
     wants \<leftarrow> all_want_to_run (inferiors d) (d_pid ih) (map snd (g_inferior_list d)) True;
     if \<not> wants then Some (COMMAND_ERROR_NONE, d)
     else
       let (e, k) = pt_continue K (mk d) (d_pid ih) (d_last_signal ih); d = d\<lparr> mk := k \<rparr> in
       if e \<noteq> 0 then Some (darwin_check_errno K d ih e, d)
       else do {
         n \<leftarrow> task_suspend_count K (mk d) (os_task ih);
         Some (COMMAND_ERROR_NONE, d\<lparr> mk := ((\<lambda>k. task_resume K k (os_task ih)) ^^ n) (mk d) \<rparr>)
       }
   }"

definition darwin_step :: "('k, 'f) mach \<Rightarrow> ('k, 'z) darwin_scheme \<Rightarrow> nat \<Rightarrow> (ServerCommandError \<times> ('k, 'z) darwin_scheme) option" where
  "darwin_step K d p = do {
     ih \<leftarrow> inferiors d p;
     case task_threads K (mk d) (os_task ih) of
       (Inl _, k) \<Rightarrow> Some (COMMAND_ERROR_UNKNOWN_ERROR, d\<lparr> mk := k \<rparr>)
     | (Inr threads, k) \<Rightarrow> do {
         let k = foldl (thread_suspend K) k threads;
         n \<leftarrow> thread_suspend_count K k (os_thread ih);
         let d = d\<lparr> mk := resume_times K (os_thread ih) n k, g_stepping_thread := os_thread ih, g_stepping_task := os_task ih \<rparr>;
         d \<leftarrow> set_trap_flag K (\<lambda>r. r\<lparr> d_eflags := d_eflags r OR 0x100 \<rparr>) d ih;
         let d = upd_inferior p (\<lambda>ih. ih\<lparr> d_stepping := True \<rparr>) d;
         let (e, k) = pt_step K (mk d) (d_pid ih) (d_last_signal ih);
         let d = d\<lparr> mk := k \<rparr>;
         if e \<noteq> 0 then Some (darwin_check_errno K d ih e, d)
         else Some (COMMAND_ERROR_NONE, d\<lparr> mk := snd (vm_deallocate K (mk d)) \<rparr>)
       }
   }"

definition darwin_kill :: "('k, 'f) mach \<Rightarrow> ('k, 'z) darwin_scheme \<Rightarrow> nat \<Rightarrow> (ServerCommandError \<times> ('k, 'z) darwin_scheme) option" where
  "darwin_kill K d p = do {
     ih \<leftarrow> inferiors d p;
     let (_, k) = sys_kill K (mk d) (d_pid ih) SIGKILL;
     let k = (case task_threads K k (os_task ih) of
                (Inl _, k) \<Rightarrow> k
              | (Inr threads, k) \<Rightarrow>
                  foldl (\<lambda>k th. if thread_suspend_count K k th = None then k else thread_resume K k th) k threads);
     Some (COMMAND_ERROR_NONE, d\<lparr> mk := pt_kill K k (d_pid ih) \<rparr>)
   }"

section \<open>Inferiors\<close>

definition darwin_exception_port ::
  "('k, 'f) mach \<Rightarrow> ('k, 'z) darwin_scheme \<Rightarrow> nat \<Rightarrow> task \<Rightarrow> bool \<times> ('k, 'z) darwin_scheme" where
  "darwin_exception_port K d p t =
     (case mach_port_allocate K (mk d) of
        (None, k) \<Rightarrow> (False, d\<lparr> mk := k \<rparr>)
      | (Some port, k) \<Rightarrow>
          let d = upd_inferior p (\<lambda>ih. ih\<lparr> os_exception_port := port \<rparr>) (d\<lparr> mk := k \<rparr>);
              (ok, k) = mach_port_insert_right K (mk d) port in
          if \<not> ok then (False, d\<lparr> mk := k \<rparr>)
          else let (ok, k) = task_set_exception_ports K k t port in (ok, d\<lparr> mk := k \<rparr>))"

text \<open>\<open>_server_ptrace_setup_inferior\<close>; \<open>node\<close> is the block that \<open>g_malloc\<close> returns for the new node of the list.\<close>

definition darwin_setup_inferior ::
  "('k, 'f) mach \<Rightarrow> ('k, 'z) darwin_scheme \<Rightarrow> nat \<Rightarrow> nat \<Rightarrow> (ServerCommandError \<times> ('k, 'z) darwin_scheme) option" where
  "darwin_setup_inferior K d node p = do {
     ih \<leftarrow> inferiors d p;
     case task_for_pid K (mk d) (d_pid ih) of
       (None, k) \<Rightarrow> Some (COMMAND_ERROR_UNKNOWN_ERROR, d\<lparr> mk := k \<rparr>)
     | (Some t, k) \<Rightarrow> do {
         let d = upd_inferior p (\<lambda>ih. ih\<lparr> os_task := t \<rparr>) (d\<lparr> mk := k \<rparr>);
         (ok, d) \<leftarrow>
           (if os_thread ih = 0 then
              (case darwin_exception_port K d p t of
                 (False, d) \<Rightarrow> Some (False, d)
               | (True, d) \<Rightarrow> do {
                   (th, d) \<leftarrow> darwin_primary_thread K d t;
                   Some (True, (upd_inferior p (\<lambda>ih. ih\<lparr> os_stop_exception_thread := False, os_thread := th, os_exception_thread := True \<rparr>) d)
                     \<lparr> g_wait_thread := th \<rparr>)
                 })
            else Some (True, upd_inferior p (\<lambda>ih. ih\<lparr> os_exception_thread := False \<rparr>) d));
         if \<not> ok then Some (COMMAND_ERROR_UNKNOWN_ERROR, d)
         else do {
           ih \<leftarrow> inferiors d p;
           (e, i, d) \<leftarrow> get_thread_index K t (os_thread ih) d;
           let d = (case i of None \<Rightarrow> d | Some i \<Rightarrow> upd_inferior p (\<lambda>ih. ih\<lparr> os_thread_index := i \<rparr>) d);
           if e \<noteq> COMMAND_ERROR_NONE then Some (COMMAND_ERROR_UNKNOWN_ERROR, d)
           else
             let d = upd_inferior p (\<lambda>ih. ih\<lparr> os_wants_to_run := True \<rparr>) d in
             Some (COMMAND_ERROR_NONE, d\<lparr> g_inferior_list := g_inferior_list d @ [(node, p)] \<rparr>)
         }
       }
   }"

text \<open>
  \<open>server_ptrace_initialize_thread\<close> of \<open>x86-ptrace.c\<close>, as compiled for Darwin.
\<close>

definition darwin_initialize_thread ::
  "('k, 'f) mach \<Rightarrow> ('k, 'z) darwin_scheme \<Rightarrow> nat \<Rightarrow> nat \<Rightarrow> pid \<Rightarrow> (ServerCommandError \<times> ('k, 'z) darwin_scheme) option" where
  "darwin_initialize_thread K d node p pid = do {
     th \<leftarrow> get_thread_from_index d (uint (GET_THREAD_INDEX pid));
     darwin_setup_inferior K (upd_inferior p (\<lambda>ih. ih\<lparr> d_is_thread := True, d_pid := GET_PID pid, os_thread := th \<rparr>) d) node p
   }"

text \<open>
  \<open>_server_ptrace_finalize_inferior\<close>. The search in the list compares the address of each node, not its \<open>inferior\<close>, with the
  address of the inferior. A node it stops at is freed, and then its \<open>next\<close> is read: a use of freed memory, which has
  no result here.
\<close>

fun inferior_list_unlink :: "nat \<Rightarrow> (nat \<times> nat) list \<Rightarrow> (nat \<times> nat) list option" where
  "inferior_list_unlink block [] = Some []"
| "inferior_list_unlink block ((node, q) # rest) =
     (if node \<noteq> block then map_option (\<lambda>rest. (node, q) # rest) (inferior_list_unlink block rest) else None)"

definition darwin_finalize_inferior :: "('k, 'z) darwin_scheme \<Rightarrow> nat \<Rightarrow> ('k, 'z) darwin_scheme option" where
  "darwin_finalize_inferior d p = do {
     ih \<leftarrow> inferiors d p;
     let d = (if os_exception_thread ih then upd_inferior p (\<lambda>ih. ih\<lparr> os_stop_exception_thread := True \<rparr>) d else d);
     nodes \<leftarrow> inferior_list_unlink p (g_inferior_list d);
     Some (d\<lparr> g_inferior_list := nodes \<rparr>)
   }"

text \<open>\<open>server_ptrace_finalize\<close> of \<open>x86-ptrace.c\<close>, which frees the inferior.\<close>

definition darwin_finalize :: "('k, 'z) darwin_scheme \<Rightarrow> nat \<Rightarrow> ('k, 'z) darwin_scheme option" where
  "darwin_finalize d p = do {
     d \<leftarrow> darwin_finalize_inferior d p;
     Some (d\<lparr> inferiors := (inferiors d)(p := None) \<rparr>)
   }"

section \<open>Threads and arguments of a process\<close>

text \<open>An entry whose index could not be found stays 0; an index that \<open>get_thread_index\<close> did not write has no value.\<close>

fun darwin_get_threads_loop ::
  "('k, 'f) mach \<Rightarrow> task \<Rightarrow> pid \<Rightarrow> thread list \<Rightarrow> ('k, 'z) darwin_scheme \<Rightarrow> (guint32 list \<times> ('k, 'z) darwin_scheme) option" where
  "darwin_get_threads_loop K t pid [] d = Some ([], d)"
| "darwin_get_threads_loop K t pid (th # ths) d = do {
     (e, i, d) \<leftarrow> get_thread_index K t th d;
     x \<leftarrow> (if e \<noteq> COMMAND_ERROR_NONE then Some 0 else map_option (\<lambda>i. COMPOSED_PID pid (word_of_int i)) i);
     (xs, d) \<leftarrow> darwin_get_threads_loop K t pid ths d;
     Some (x # xs, d)
   }"

definition darwin_get_threads ::
  "('k, 'f) mach \<Rightarrow> ('k, 'z) darwin_scheme \<Rightarrow> darwin_inferior \<Rightarrow> (ServerCommandError \<times> guint32 list option \<times> ('k, 'z) darwin_scheme) option" where
  "darwin_get_threads K d ih =
     (case task_threads K (mk d) (os_task ih) of
        (Inl _, k) \<Rightarrow> Some (COMMAND_ERROR_UNKNOWN_ERROR, None, d\<lparr> mk := k \<rparr>)
      | (Inr threads, k) \<Rightarrow> do {
          (out, d) \<leftarrow> darwin_get_threads_loop K (os_task ih) (d_pid ih) threads (d\<lparr> mk := k \<rparr>);
          Some (COMMAND_ERROR_NONE, Some out, d\<lparr> mk := snd (vm_deallocate K (mk d)) \<rparr>)
        })"

text \<open>
  The loop of \<open>server_ptrace_get_application\<close>. \<open>arg\<close> is the string from \<open>arg\<close> on and \<open>rest\<close> the string from \<open>cp\<close> on, both up to
  \<open>&args[size]\<close>. At a zero byte after a string that is not empty the string is taken, \<open>cp\<close> moves over all zero bytes,
  and then, by the \<open>for\<close>, over one more character.
\<close>

function procargs_loop :: "gint \<Rightarrow> string \<Rightarrow> string \<Rightarrow> gint \<Rightarrow> string option \<Rightarrow> string list \<Rightarrow> string option \<times> string list" where
  "procargs_loop num arg rest i exe args =
     (case rest of
        [] \<Rightarrow> (exe, args)
      | c # cs \<Rightarrow>
          if c = CHR 0x00 \<and> c_string arg \<noteq> [] then
            (if i \<noteq> 0 \<and> num < i then (exe, args)
             else
               let cp = dropWhile (\<lambda>c. c = CHR 0x00) rest;
                   exe = (if i = 0 then Some (c_string arg) else exe);
                   args = (if i = 0 then args else args @ [c_string arg]) in
               procargs_loop num cp (drop 1 cp) (i + 1) exe args)
          else procargs_loop num arg cs i exe args)"
  by pat_completeness auto
termination
proof (relation "measure (\<lambda>(num, arg, rest, i, exe, args). length rest)", goal_cases)
  case (2 num arg rest i exe args c cs cp exe' args')
  then have "length (drop 1 cp) \<le> length cp - 1" "length cp \<le> length cs"
    using length_dropWhile_le [of "\<lambda>c. c = CHR 0x00" cs] by auto
  then show ?case using 2 by auto
qed auto

declare procargs_loop.simps [simp del]

text \<open>The first four bytes are the number of arguments.\<close>

definition darwin_get_application ::
  "('k, 'f) mach \<Rightarrow> ('k, 'z) darwin_scheme \<Rightarrow> darwin_inferior \<Rightarrow> (ServerCommandError + string option \<times> string \<times> string list) option" where
  "darwin_get_application K d ih =
     (case sysctl_argmax K (mk d) of
        None \<Rightarrow> Some (Inl COMMAND_ERROR_UNKNOWN_ERROR)
      | Some maxarg \<Rightarrow>
          case sysctl_procargs K (mk d) (d_pid ih) maxarg of
            None \<Rightarrow> Some (Inl COMMAND_ERROR_UNKNOWN_ERROR)
          | Some bytes \<Rightarrow>
              if length bytes < 4 then None
              else
                let num = sint (le_word (map of_char (take 4 bytes)) :: guint32);
                    (exe, args) = procargs_loop num (drop 4 bytes) (drop 4 bytes) 0 None [] in
                Some (Inr (exe, ''/'', args)))"

text \<open>\<open>mach_port_extract_right\<close> here includes giving the extracted right back.\<close>

fun find_port :: "('k, 'f) mach \<Rightarrow> 'k \<Rightarrow> task \<Rightarrow> thread \<Rightarrow> guint32 list \<Rightarrow> guint32 \<times> 'k" where
  "find_port K k t our_name [] = (0, k)"
| "find_port K k t our_name (n # ns) =
     (case mach_port_extract_right K k t n of
        (None, k) \<Rightarrow> find_port K k t our_name ns
      | (Some local_name, k) \<Rightarrow> if local_name = our_name then (n, k) else find_port K k t our_name ns)"

definition get_application_thread_port :: "('k, 'f) mach \<Rightarrow> 'k \<Rightarrow> task \<Rightarrow> thread \<Rightarrow> guint32 \<times> 'k" where
  "get_application_thread_port K k t our_name =
     (case mach_port_names K k t of
        (None, k) \<Rightarrow> (0, k)
      | (Some names, k) \<Rightarrow> let (match, k) = find_port K k t our_name names in (match, snd (vm_deallocate K k)))"

definition darwin_initialize_process :: ServerCommandError where
  "darwin_initialize_process = COMMAND_ERROR_NONE"

definition darwin_get_server_type :: ServerType where
  "darwin_get_server_type = SERVER_TYPE_DARWIN"

abbreviation SERVER_CAPABILITIES_NONE :: guint32 where "SERVER_CAPABILITIES_NONE \<equiv> 0"

definition darwin_get_capabilities :: guint32 where
  "darwin_get_capabilities = SERVER_CAPABILITIES_NONE"

definition darwin_get_signal_info :: "gint \<Rightarrow> ServerCommandError \<times> SignalInfo" where
  "darwin_get_signal_info mono_thread_get_abort_signal =
     (COMMAND_ERROR_NONE,
      \<lparr> sigkill = 9, sigstop = 17, sigint = 2, sigchld = 20, sigfpe = 8, sigquit = 3, sigabrt = 6, sigsegv = 11,
        sigill = 4, sigbus = 10, sigwinch = 0, kernel_sigrtmin = 30, mono_thread_abort = mono_thread_get_abort_signal \<rparr>)"

fun darwin_disable_loop ::
  "(('k, 'z) darwin_scheme \<Rightarrow> bp_ptr \<Rightarrow> (ServerCommandError \<times> ('k, 'z) darwin_scheme) option) \<Rightarrow> ('k, 'z) darwin_scheme \<Rightarrow> bp_ptr list \<Rightarrow>
     ('k, 'z) darwin_scheme option" where
  "darwin_disable_loop x86_arch_disable_breakpoint d [] = Some d"
| "darwin_disable_loop x86_arch_disable_breakpoint d (info # rest) = do {
     (_, d) \<leftarrow> x86_arch_disable_breakpoint d info;
     darwin_disable_loop x86_arch_disable_breakpoint d rest
   }"

definition darwin_detach_after_fork ::
  "(('k, 'z) darwin_scheme \<Rightarrow> ServerCommandError \<times> ('k, 'z) darwin_scheme) \<Rightarrow>
     (('k, 'z) darwin_scheme \<Rightarrow> bp_ptr \<Rightarrow> (ServerCommandError \<times> ('k, 'z) darwin_scheme) option) \<Rightarrow>
     ('k, 'f) mach \<Rightarrow> ('k, 'z) darwin_scheme \<Rightarrow> darwin_inferior \<Rightarrow> 'w::len BreakpointManager \<Rightarrow>
     (ServerCommandError \<times> ('k, 'z) darwin_scheme) option" where
  "darwin_detach_after_fork x86_arch_get_registers x86_arch_disable_breakpoint K d ih m = do {
     let d = d\<lparr> mk := snd (mach_waitpid K (mk d) (sint (d_pid ih)) True) \<rparr>;
     let (result, d) = x86_arch_get_registers d;
     d \<leftarrow> (if result \<noteq> COMMAND_ERROR_NONE then do { (_, _, d) \<leftarrow> darwin_do_wait K d (sint (d_pid ih)); Some d } else Some d);
     let (result, d) = x86_arch_get_registers d;
     if result \<noteq> COMMAND_ERROR_NONE then Some (result, d)
     else do {
       d \<leftarrow> darwin_disable_loop x86_arch_disable_breakpoint (mono_debugger_breakpoint_manager_lock d)
             (mono_debugger_breakpoint_manager_get_breakpoints m);
       let d = mono_debugger_breakpoint_manager_unlock d;
       let (e, k) = pt_detach K (mk d) (d_pid ih);
       let d = d\<lparr> mk := k \<rparr>;
       Some (if e \<noteq> 0 then darwin_check_errno K d ih e else COMMAND_ERROR_NONE, d)
     }
   }"

section \<open>The thread database on Darwin\<close>

text \<open>\<open>darwin-thread-db.c\<close>. The handle has a task instead of a thread agent; the delegates are not used.\<close>

record darwin_thread_db =
  tdb_pid :: pid
  tdb_task :: task

definition darwin_thread_db_init :: "('k, 'f) mach \<Rightarrow> ('k, 'z) darwin_scheme \<Rightarrow> pid \<Rightarrow> darwin_thread_db option \<times> ('k, 'z) darwin_scheme" where
  "darwin_thread_db_init K d pid =
     (case task_for_pid K (mk d) (GET_PID pid) of
        (None, k) \<Rightarrow> (None, d\<lparr> mk := k \<rparr>)
      | (Some t, k) \<Rightarrow>
          (case task_threads K k t of
             (Inl _, k) \<Rightarrow> (None, d\<lparr> mk := k \<rparr>)
           | (Inr _, k) \<Rightarrow> (Some \<lparr> tdb_pid = GET_PID pid, tdb_task = t \<rparr>, d\<lparr> mk := snd (vm_deallocate K k) \<rparr>)))"

definition darwin_thread_db_get_thread_info ::
  "('k, 'f) mach \<Rightarrow> ('k, 'z) darwin_scheme \<Rightarrow> darwin_thread_db \<Rightarrow> thread \<Rightarrow>
     (bool \<times> (guint64 \<times> guint64 \<times> guint64) option \<times> ('k, 'z) darwin_scheme) option" where
  "darwin_thread_db_get_thread_info K d h tid = do {
     let (port, k) = get_application_thread_port K (mk d) (tdb_task h) tid;
     (e, i, d) \<leftarrow> get_thread_index K (tdb_task h) tid (d\<lparr> mk := k \<rparr>);
     if e \<noteq> COMMAND_ERROR_NONE then Some (False, None, d)
     else
       let th_index = (case i of None \<Rightarrow> 0 | Some i \<Rightarrow> i) in
       Some (True, Some (ucast port, 0, ucast (COMPOSED_PID (tdb_pid h) (word_of_int th_index))), d)
   }"

fun darwin_iterate_loop :: "(thread \<Rightarrow> 'c \<Rightarrow> bool \<times> 'c) \<Rightarrow> thread list \<Rightarrow> 'c \<Rightarrow> 'c" where
  "darwin_iterate_loop func [] c = c"
| "darwin_iterate_loop func (th # ths) c = (let (r, c) = func th c in if r then darwin_iterate_loop func ths c else c)"

text \<open>The source returns a \<open>ServerCommandError\<close> as a \<open>gboolean\<close>: an error is \<open>TRUE\<close> and success \<open>FALSE\<close>.\<close>

definition darwin_thread_db_iterate_over_threads ::
  "('k, 'f) mach \<Rightarrow> ('k, 'z) darwin_scheme \<Rightarrow> darwin_thread_db \<Rightarrow> (thread \<Rightarrow> 'c \<Rightarrow> bool \<times> 'c) \<Rightarrow> 'c \<Rightarrow> bool \<times> 'c \<times> ('k, 'z) darwin_scheme" where
  "darwin_thread_db_iterate_over_threads K d h func c =
     (case task_threads K (mk d) (tdb_task h) of
        (Inl _, k) \<Rightarrow> (True, c, d\<lparr> mk := k \<rparr>)
      | (Inr threads, k) \<Rightarrow> (False, darwin_iterate_loop func threads c, d\<lparr> mk := snd (vm_deallocate K k) \<rparr>))"

end
