(* ===== verification/Flat_Mach.thy ===== *)
theory Flat_Mach
  imports Darwin_Ptrace
begin

text \<open>
  A concrete Mach task: memory that is mapped except for the last page, a protection for each page, threads with suspend counts and
  registers. It shows that the hypotheses on Mach in the properties of the Darwin layer can hold, and the properties are
  applied to it in concrete states.
\<close>

record flat_task =
  ft_mem :: "32 mem"
  ft_prot :: "nat \<Rightarrow> vm_prot"
  ft_threads :: "thread list"
  ft_counts :: "thread \<Rightarrow> nat"
  ft_regs :: "thread \<Rightarrow> darwin_regs"
  ft_args :: string

definition zero_darwin_regs :: darwin_regs where
  "zero_darwin_regs = \<lparr> d_eax = 0, d_ebx = 0, d_ecx = 0, d_edx = 0, d_edi = 0, d_esi = 0, d_ebp = 0, d_esp = 0, d_ss = (0, 0),
     d_eflags = 0, d_eip = 0, d_cs = (0, 0), d_ds = (0, 0), d_es = (0, 0), d_fs = (0, 0), d_gs = (0, 0), d_orig_eax = 0 \<rparr>"

definition flat_mach :: "(flat_task, unit) mach" where
  "flat_mach = \<lparr>
     task_threads = (\<lambda>k t. (Inr (ft_threads k), k)),
     thread_get_regs = (\<lambda>k th. (Some (ft_regs k th), k)),
     thread_set_regs = (\<lambda>k th r. (True, k\<lparr> ft_regs := (ft_regs k)(th := r) \<rparr>)),
     thread_get_fpregs = (\<lambda>k th. (Some (), k)),
     thread_set_fpregs = (\<lambda>k th f. (True, k)),
     thread_get_debug = (\<lambda>k th. (Some (replicate 8 0), k)),
     thread_set_debug = (\<lambda>k th ds. (True, k)),
     vm_read = (\<lambda>k t a n. (Some (load (ft_mem k) a (unat n)), k)),
     vm_write = (\<lambda>k t a bs. (True, k\<lparr> ft_mem := store (ft_mem k) a bs \<rparr>)),
     vm_region = (\<lambda>k t a. (Some \<lparr> region_protection = ft_prot k (unat a div 4096), region_start = trunc_page a, region_length = 4096 \<rparr>, k)),
     vm_protect = (\<lambda>k t a n p.
       (True, k\<lparr> ft_prot := (\<lambda>q. if unat a div 4096 \<le> q \<and> 4096 * q < unat a + unat n then p else ft_prot k q) \<rparr>)),
     vm_deallocate = (\<lambda>k. (True, k)),
     thread_suspend = (\<lambda>k th. k\<lparr> ft_counts := (ft_counts k)(th := ft_counts k th + 1) \<rparr>),
     thread_resume = (\<lambda>k th. k\<lparr> ft_counts := (ft_counts k)(th := ft_counts k th - 1) \<rparr>),
     thread_suspend_count = (\<lambda>k th. Some (ft_counts k th)),
     task_suspend_count = (\<lambda>k t. Some 0),
     task_resume = (\<lambda>k t. k),
     mach_waitpid = (\<lambda>k pid nohang. (Inr (pid, 0x057f), k)),
     sys_kill = (\<lambda>k pid sig. (0, k)),
     pt_continue = (\<lambda>k pid sig. (0, k)),
     pt_step = (\<lambda>k pid sig. (0, k)),
     pt_kill = (\<lambda>k pid. k),
     pt_detach = (\<lambda>k pid. (0, k)),
     proc_stat_exists = (\<lambda>k pid. True),
     task_for_pid = (\<lambda>k pid. (Some 7, k)),
     mach_port_allocate = (\<lambda>k. (Some 11, k)),
     mach_port_insert_right = (\<lambda>k port. (True, k)),
     task_set_exception_ports = (\<lambda>k t port. (True, k)),
     mach_port_names = (\<lambda>k t. (Some [], k)),
     mach_port_extract_right = (\<lambda>k t n. (None, k)),
     mach_msg_receive = (\<lambda>k port. (None, k)),
     sysctl_argmax = (\<lambda>k. Some 4096),
     sysctl_procargs = (\<lambda>k pid m. Some (ft_args k)) \<rparr>"

lemma flat_mach_fields [simp]:
  "task_threads flat_mach k t = (Inr (ft_threads k), k)"
  "thread_get_regs flat_mach k th = (Some (ft_regs k th), k)"
  "thread_set_regs flat_mach k th r = (True, k\<lparr> ft_regs := (ft_regs k)(th := r) \<rparr>)"
  "vm_read flat_mach k t a n = (Some (load (ft_mem k) a (unat n)), k)"
  "vm_write flat_mach k t a bs = (True, k\<lparr> ft_mem := store (ft_mem k) a bs \<rparr>)"
  "vm_region flat_mach k t a =
     (Some \<lparr> region_protection = ft_prot k (unat a div 4096), region_start = trunc_page a, region_length = 4096 \<rparr>, k)"
  "vm_protect flat_mach k t a n p =
     (True, k\<lparr> ft_prot := (\<lambda>q. if unat a div 4096 \<le> q \<and> 4096 * q < unat a + unat n then p else ft_prot k q) \<rparr>)"
  "vm_deallocate flat_mach k = (True, k)"
  "thread_suspend flat_mach k th = k\<lparr> ft_counts := (ft_counts k)(th := ft_counts k th + 1) \<rparr>"
  "thread_resume flat_mach k th = k\<lparr> ft_counts := (ft_counts k)(th := ft_counts k th - 1) \<rparr>"
  "thread_suspend_count flat_mach k th = Some (ft_counts k th)"
  "task_suspend_count flat_mach k t = Some 0"
  "mach_waitpid flat_mach k wpid nohang = (Inr (wpid, 0x057f), k)"
  "pt_continue flat_mach k pid sig = (0, k)"
  "pt_step flat_mach k pid sig = (0, k)"
  "sysctl_argmax flat_mach k = Some 4096"
  "sysctl_procargs flat_mach k pid m = Some (ft_args k)"
  by (simp_all add: flat_mach_def)

text \<open>The server in its first state, with two inferiors for two threads of one process.\<close>

definition flat_task0 :: flat_task where
  "flat_task0 = \<lparr> ft_mem = (\<lambda>_. 0), ft_prot = (\<lambda>_. 5), ft_threads = [100, 200], ft_counts = (\<lambda>_. 0),
     ft_regs = (\<lambda>_. zero_darwin_regs), ft_args = [] \<rparr>"

definition flat_inferior :: "thread \<Rightarrow> darwin_inferior" where
  "flat_inferior th = \<lparr> d_pid = 1234, d_stepping = False, d_last_signal = 0, d_is_thread = False, os_task = 7, os_exception_port = 11, os_thread = th,
     os_exception_thread = False, os_stop_exception_thread = False, os_thread_index = 0, os_wants_to_run = True \<rparr>"

definition flat_darwin :: "flat_task \<Rightarrow> flat_task darwin" where
  "flat_darwin k = \<lparr> bp_heap = Map.empty, bp_next = 1, last_breakpoint_id = 0, bpm_mutex = 0, mk = k, g_thread_index_count = 0,
     g_thread_list = replicate THREAD_INDEX_MAX 0, g_thread_used_list = replicate THREAD_INDEX_MAX False, thread_id_mutex = False,
     inferiors = [1 \<mapsto> flat_inferior 100, 2 \<mapsto> flat_inferior 200], g_inferior_list = [(10, 1), (11, 2)], g_wait_thread = 100,
     g_stopped_thread = 0, g_stepping_thread = -1, g_stepping_task = 0, d_stop_requested = 0, d_stop_status = 0 \<rparr>"

lemma flat_inferior_sel [simp]:
  "d_pid (flat_inferior th) = 1234" "os_task (flat_inferior th) = 7" "os_thread (flat_inferior th) = th"
  "os_wants_to_run (flat_inferior th)" "d_last_signal (flat_inferior th) = 0"
  by (simp_all add: flat_inferior_def)

lemma flat_darwin_sel [simp]:
  "mk (flat_darwin k) = k" "g_thread_index_count (flat_darwin k) = 0" "g_inferior_list (flat_darwin k) = [(10, 1), (11, 2)]"
  "inferiors (flat_darwin k) = [1 \<mapsto> flat_inferior 100, 2 \<mapsto> flat_inferior 200]" "g_wait_thread (flat_darwin k) = 100"
  "\<not> thread_id_mutex (flat_darwin k)" "length (g_thread_list (flat_darwin k)) = THREAD_INDEX_MAX"
  "length (g_thread_used_list (flat_darwin k)) = THREAD_INDEX_MAX"
  by (simp_all add: flat_darwin_def)

end
