(* ===== verification/Darwin_Properties.thy ===== *)
theory Darwin_Properties
  imports Flat_Mach
begin

text \<open>
  What the Darwin layer guarantees: thread numbers name threads uniquely, memory is written exactly and page protections
  are put back, the arguments of a process are found; and what a finalized inferior leaves behind.
\<close>

section \<open>Tables that number things\<close>

text \<open>Numbering the elements of a list one after the other.\<close>

fun assign_all :: "('a \<Rightarrow> 's \<Rightarrow> (nat \<times> 's) option) \<Rightarrow> 'a list \<Rightarrow> 's \<Rightarrow> (nat list \<times> 's) option" where
  "assign_all f [] s = Some ([], s)"
| "assign_all f (x # xs) s = do { (i, s) \<leftarrow> f x s; (is, s) \<leftarrow> assign_all f xs s; Some (i # is, s) }"

text \<open>
  A table that gives each element a number and remembers it: an element that is known, or for which there is room, gets a
  number under which it is found, and no entry is lost.
\<close>

locale index_table =
  fixes assign :: "'a \<Rightarrow> 's \<Rightarrow> (nat \<times> 's) option"
    and entry :: "'s \<Rightarrow> nat \<Rightarrow> 'a option"
    and wf_table :: "'s \<Rightarrow> bool"
    and capacity :: nat
  assumes assign: "wf_table s \<Longrightarrow> x \<in> ran (entry s) \<or> card (ran (entry s)) < capacity \<Longrightarrow>
      \<exists>i s'. assign x s = Some (i, s') \<and> wf_table s' \<and> entry s' i = Some x \<and> entry s \<subseteq>\<^sub>m entry s' \<and>
        ran (entry s') = insert x (ran (entry s))"
    and entry_inj: "wf_table s \<Longrightarrow> entry s i = Some x \<Longrightarrow> entry s j = Some x \<Longrightarrow> i = j"
    and finite_entries: "wf_table s \<Longrightarrow> finite (ran (entry s))"
begin

lemma entries_kept: "entry s \<subseteq>\<^sub>m entry s' \<Longrightarrow> entry s i = Some x \<Longrightarrow> entry s' i = Some x"
  by (auto simp: map_le_def dom_def)

text \<open>As long as there is room for all of them, every element is found under its number afterwards.\<close>

lemma assign_all:
  assumes "wf_table s" and "card (ran (entry s) \<union> set xs) \<le> capacity"
  shows "\<exists>is s'. assign_all assign xs s = Some (is, s') \<and> wf_table s' \<and> entry s \<subseteq>\<^sub>m entry s' \<and>
    list_all2 (\<lambda>i x. entry s' i = Some x) is xs"
  using assms
proof (induction xs arbitrary: s)
  case (Cons x xs)
  have fin: "finite (ran (entry s) \<union> set (x # xs))" using finite_entries [OF Cons.prems(1)] by simp
  have "x \<in> ran (entry s) \<or> card (ran (entry s)) < capacity"
  proof (rule disjCI)
    assume "\<not> card (ran (entry s)) < capacity"
    then have "ran (entry s) = ran (entry s) \<union> set (x # xs)"
      using Cons.prems(2) fin by (intro card_seteq) auto
    then show "x \<in> ran (entry s)" by auto
  qed
  then obtain i s1 where s1: "assign x s = Some (i, s1)" "wf_table s1" "entry s1 i = Some x" "entry s \<subseteq>\<^sub>m entry s1"
    "ran (entry s1) = insert x (ran (entry s))"
    using assign [OF Cons.prems(1)] by blast
  have "ran (entry s1) \<union> set xs = ran (entry s) \<union> set (x # xs)" using s1(5) by auto
  then have "card (ran (entry s1) \<union> set xs) \<le> capacity" using Cons.prems(2) by simp
  then obtain js s2 where s2: "assign_all assign xs s1 = Some (js, s2)" "wf_table s2" "entry s1 \<subseteq>\<^sub>m entry s2"
    "list_all2 (\<lambda>i x. entry s2 i = Some x) js xs"
    using Cons.IH [OF s1(2)] by blast
  then show ?case using s1 entries_kept [OF s2(3) s1(3)] map_le_trans [OF s1(4) s2(3)] by auto
qed simp

text \<open>So equal numbers are equal elements, and the other way round.\<close>

lemma numbers_distinct:
  assumes "wf_table s" and "list_all2 (\<lambda>i x. entry s i = Some x) is xs" and "k < length xs" and "l < length xs"
  shows "is ! k = is ! l \<longleftrightarrow> xs ! k = xs ! l"
  using assms list_all2_nthD2 [OF assms(2)] entry_inj [OF assms(1)] by (metis option.inject)

end

section \<open>Thread numbers\<close>

definition thread_entry :: "('k, 'z) darwin_scheme \<Rightarrow> nat \<Rightarrow> thread option" where
  "thread_entry d i = (if i < g_thread_index_count d then Some (g_thread_list d ! i) else None)"

definition threads_ok :: "('k, 'z) darwin_scheme \<Rightarrow> bool" where
  "threads_ok d \<longleftrightarrow> \<not> thread_id_mutex d \<and> length (g_thread_list d) = THREAD_INDEX_MAX \<and>
     length (g_thread_used_list d) = THREAD_INDEX_MAX \<and> g_thread_index_count d \<le> THREAD_INDEX_MAX \<and>
     distinct (take (g_thread_index_count d) (g_thread_list d))"

definition thread_assign ::
  "('k, 'f) mach \<Rightarrow> task \<Rightarrow> thread \<Rightarrow> ('k, 'z) darwin_scheme \<Rightarrow> (nat \<times> ('k, 'z) darwin_scheme) option" where
  "thread_assign K t th d = (case get_thread_index K t th d of
     Some (COMMAND_ERROR_NONE, Some i, d') \<Rightarrow> Some (nat i, d') | _ \<Rightarrow> None)"

lemma first_index_Some:
  "first_index P i n = Some j \<Longrightarrow> i \<le> j \<and> j < i + n \<and> P j"
  by (induction P i n rule: first_index.induct) (auto split: if_splits)

lemma first_index_None: "first_index P i n = None \<longleftrightarrow> (\<forall>j. i \<le> j \<and> j < i + n \<longrightarrow> \<not> P j)"
proof (induction P i n rule: first_index.induct)
  case (2 P i n)
  have "(i \<le> j \<and> j < i + Suc n) \<longleftrightarrow> j = i \<or> (Suc i \<le> j \<and> j < Suc i + n)" for j by auto
  then show ?case using 2 by auto
qed auto

lemma ran_thread_entry:
  "threads_ok d \<Longrightarrow> ran (thread_entry d) = set (take (g_thread_index_count d) (g_thread_list d))"
proof -
  assume "threads_ok d"
  moreover have "x \<in> ran (thread_entry d) \<longleftrightarrow> x \<in> nth (g_thread_list d) ` {0..<g_thread_index_count d}" for x
    unfolding ran_def thread_entry_def image_iff by (simp add: Bex_def) blast
  ultimately show ?thesis by (simp add: set_eq_iff nth_image threads_ok_def)
qed

lemma get_thread_index_known:
  assumes "threads_ok d" and "thread_entry d i = Some th"
  shows "get_thread_index K t th d = Some (COMMAND_ERROR_NONE, Some (int i), d)"
proof -
  let ?d = "d\<lparr> thread_id_mutex := True \<rparr>"
  have i: "i < g_thread_index_count d" "g_thread_list d ! i = th" using assms(2) by (auto simp: thread_entry_def split: if_splits)
  obtain j where j: "first_index (\<lambda>i. g_thread_list ?d ! i = th) 0 (g_thread_index_count ?d) = Some j"
    using i first_index_None [of "\<lambda>i. g_thread_list ?d ! i = th" 0 "g_thread_index_count ?d"]
    by (cases "first_index (\<lambda>i. g_thread_list ?d ! i = th) 0 (g_thread_index_count ?d)") auto
  then have "j < g_thread_index_count d" "g_thread_list d ! j = th" using first_index_Some [OF j] by auto
  then have "j = i"
    using i assms(1) nth_eq_iff_index_eq [of "take (g_thread_index_count d) (g_thread_list d)" j i] by (simp add: threads_ok_def)
  then show ?thesis using j assms(1) by (simp add: get_thread_index_def threads_ok_def Let_def)
qed

lemma get_thread_index_new:
  assumes ok: "threads_ok d" and new: "th \<notin> ran (thread_entry d)" and room: "g_thread_index_count d < THREAD_INDEX_MAX"
  obtains d' where "get_thread_index K t th d = Some (COMMAND_ERROR_NONE, Some (int (g_thread_index_count d)), d')"
    "threads_ok d'" "g_thread_index_count d' = Suc (g_thread_index_count d)"
    "thread_entry d' = (thread_entry d)(g_thread_index_count d \<mapsto> th)"
proof
  let ?n = "g_thread_index_count d" and ?d = "d\<lparr> thread_id_mutex := True \<rparr>"
  let ?d' = "d\<lparr> thread_id_mutex := False, g_thread_list := (g_thread_list d)[g_thread_index_count d := th],
    g_thread_used_list := (g_thread_used_list d)[g_thread_index_count d := True], g_thread_index_count := Suc (g_thread_index_count d) \<rparr>"
  have notin: "th \<notin> set (take ?n (g_thread_list d))" using new ran_thread_entry [OF ok] by simp
  have "g_thread_list d ! j \<noteq> th" if "j < ?n" for j
    using new that ranI [of "thread_entry d" j th] by (auto simp: thread_entry_def)
  then have "first_index (\<lambda>i. g_thread_list ?d ! i = th) 0 (g_thread_index_count ?d) = None"
    by (simp add: first_index_None)
  then show "get_thread_index K t th d = Some (COMMAND_ERROR_NONE, Some (int ?n), ?d')"
    using ok room by (simp add: get_thread_index_def threads_ok_def Let_def take_index_def)
  have "take (Suc ?n) ((g_thread_list d)[?n := th]) = take ?n (g_thread_list d) @ [th]"
    using ok room by (simp add: threads_ok_def take_Suc_conv_app_nth)
  then show "threads_ok ?d'" using ok room notin by (simp add: threads_ok_def)
  show "thread_entry ?d' = (thread_entry d)(?n \<mapsto> th)"
    using ok room by (auto simp: thread_entry_def threads_ok_def fun_eq_iff)
qed simp

interpretation thread_ids: index_table "thread_assign K t" thread_entry threads_ok THREAD_INDEX_MAX
proof (unfold_locales, goal_cases)
  case (1 d th)
  show ?case
  proof (cases "th \<in> ran (thread_entry d)")
    case True
    then obtain i where i: "thread_entry d i = Some th" by (auto simp: ran_def)
    then show ?thesis using get_thread_index_known [OF 1(1) i, where K = K and t = t] 1(1) True
      by (intro exI [of _ i] exI [of _ d]) (simp add: thread_assign_def insert_absorb)
  next
    case False
    have "card (ran (thread_entry d)) = g_thread_index_count d"
      using 1(1) by (simp add: ran_thread_entry distinct_card threads_ok_def)
    then have room: "g_thread_index_count d < THREAD_INDEX_MAX" using 1(2) False by simp
    have free: "thread_entry d (g_thread_index_count d) = None" by (simp add: thread_entry_def)
    obtain d' where "get_thread_index K t th d = Some (COMMAND_ERROR_NONE, Some (int (g_thread_index_count d)), d')"
      "threads_ok d'" "thread_entry d' = (thread_entry d)(g_thread_index_count d \<mapsto> th)"
      by (rule get_thread_index_new [OF 1(1) False room])
    then show ?thesis using free
      by (intro exI [of _ "g_thread_index_count d"] exI [of _ d']) (simp add: thread_assign_def map_le_def dom_def)
  qed
next
  case (2 d i th j)
  then show ?case
    using nth_eq_iff_index_eq [of "take (g_thread_index_count d) (g_thread_list d)" i j]
    by (auto simp: thread_entry_def threads_ok_def split: if_splits)
next
  case (3 d)
  then show ?case by (simp add: ran_thread_entry)
qed

text \<open>The number of a thread of process \<open>pid\<close> is made of both, and both can be read off it again.\<close>

lemma bit_less_exp:
  assumes "uint (v :: 'w::len word) < 2 ^ n" and "bit v k"
  shows "k < n"
proof (rule ccontr)
  assume "\<not> k < n"
  have "uint (take_bit n v) = uint v" using assms(1) by (simp add: unsigned_take_bit_eq take_bit_int_eq_self)
  then have "take_bit n v = v" by (rule word_uint_eqI)
  then show False using assms(2) \<open>\<not> k < n\<close> by (metis bit_take_bit_iff)
qed

lemma composed_pid:
  assumes "pid < 2 ^ 17" and "i < 1024"
  shows "GET_PID (COMPOSED_PID pid (of_nat i)) = pid" "uint (GET_THREAD_INDEX (COMPOSED_PID pid (of_nat i))) = int i"
proof -
  let ?i = "of_nat i :: guint32"
  have "uint pid < 2 ^ 17" using assms(1) by (simp add: word_less_def)
  then have low: "bit pid n \<Longrightarrow> n < 17" for n by (rule bit_less_exp)
  have ui: "uint ?i = int i" using assms(2) by (simp add: uint_nat unat_of_nat_small)
  then have high: "bit ?i n \<Longrightarrow> n < 10" for n using assms(2) by (intro bit_less_exp [where v = ?i]) auto
  have m: "(0x1ffff :: guint32) = mask 17" by (simp add: mask_eq_exp_minus_1)
  show "GET_PID (COMPOSED_PID pid ?i) = pid"
    unfolding GET_PID_def COMPOSED_PID_def m by (rule bit_word_eqI) (use low in \<open>auto simp: bit_simps\<close>)
  have "GET_THREAD_INDEX (COMPOSED_PID pid ?i) = ?i"
    unfolding GET_THREAD_INDEX_def COMPOSED_PID_def
    by (rule bit_word_eqI) (use low high in \<open>fastforce simp: bit_simps\<close>)
  then show "uint (GET_THREAD_INDEX (COMPOSED_PID pid ?i)) = int i" using ui by simp
qed

lemma threads_ok_mk [simp]: "threads_ok (d\<lparr> mk := k \<rparr>) = threads_ok d" "thread_entry (d\<lparr> mk := k \<rparr>) = thread_entry d"
  by (simp_all add: threads_ok_def thread_entry_def fun_eq_iff)

lemma release_indices_result:
  "release_indices table threads i n used r = Some (used', r') \<Longrightarrow> r' = r \<or> 0 \<le> r'"
  by (induction table threads i n used r rule: release_indices.induct) (fastforce simp: Let_def split: if_splits)+

lemma get_thread_index_nonneg:
  assumes "get_thread_index K t th d = Some (e, Some i, d')"
  shows "0 \<le> i"
proof -
  have "r = -1 \<or> 0 \<le> r" if "release_indices table threads 0 n used (-1) = Some (u, r)" for table threads n used u r
    using release_indices_result [OF that] by simp
  then show ?thesis using assms
    by (fastforce simp: get_thread_index_def Let_def split: if_splits option.splits prod.splits sum.splits)
qed

lemma thread_assign_Some:
  assumes "thread_assign K t th d = Some (i, d')"
  shows "get_thread_index K t th d = Some (COMMAND_ERROR_NONE, Some (int i), d')"
  using assms get_thread_index_nonneg [of K t th d]
  by (auto simp: thread_assign_def split: option.splits ServerCommandError.splits)

lemma get_threads_loop_eq:
  "assign_all (thread_assign K t) ths d = Some (is, d') \<Longrightarrow>
     darwin_get_threads_loop K t pid ths d = Some (map (\<lambda>i. COMPOSED_PID pid (of_nat i)) is, d')"
proof (induction ths arbitrary: d "is")
  case (Cons th ths)
  then obtain i js d1 where "thread_assign K t th d = Some (i, d1)" "assign_all (thread_assign K t) ths d1 = Some (js, d')" "is = i # js"
    by auto
  then show ?case using Cons.IH by (simp add: thread_assign_Some)
qed simp

text \<open>
  C22. \<open>server_ptrace_get_threads\<close> on Darwin: as long as no more than 1024 threads were ever seen, every thread of
  the task gets a number, different threads get different numbers, and each number gives back the process and, through the
  table, the thread, so that the debugger can name a thread by it in later commands. The table stays well formed and
  its mutex is released.
\<close>

theorem darwin_thread_numbers:
  assumes ok: "threads_ok d" and ths: "task_threads K (mk d) (os_task ih) = (Inr ths, k)"
    and room: "card (ran (thread_entry d) \<union> set ths) \<le> THREAD_INDEX_MAX" and pid: "d_pid ih < 2 ^ 17"
  shows "\<exists>out d'. darwin_get_threads K d ih = Some (COMMAND_ERROR_NONE, Some out, d') \<and> threads_ok d' \<and> length out = length ths \<and>
    (\<forall>j < length ths. GET_PID (out ! j) = d_pid ih \<and> get_thread_from_index d' (uint (GET_THREAD_INDEX (out ! j))) = Some (ths ! j)) \<and>
    (\<forall>j < length ths. \<forall>l < length ths. out ! j = out ! l \<longleftrightarrow> ths ! j = ths ! l)"
proof -
  obtain js d1 where a: "assign_all (thread_assign K (os_task ih)) ths (d\<lparr> mk := k \<rparr>) = Some (js, d1)" "threads_ok d1"
    "list_all2 (\<lambda>i x. thread_entry d1 i = Some x) js ths"
    using thread_ids.assign_all [of "d\<lparr> mk := k \<rparr>" ths K "os_task ih"] ok room by auto
  let ?out = "map (\<lambda>i. COMPOSED_PID (d_pid ih) (of_nat i)) js" and ?d = "d1\<lparr> mk := snd (vm_deallocate K (mk d1)) \<rparr>"
  have len: "length js = length ths" using a(3) by (rule list_all2_lengthD)
  have entry: "thread_entry d1 (js ! j) = Some (ths ! j)" if "j < length ths" for j
    using list_all2_nthD2 [OF a(3) that] .
  have small: "js ! j < 1024" "g_thread_list d1 ! (js ! j) = ths ! j" if "j < length ths" for j
    using entry [OF that] a(2) by (auto simp: thread_entry_def threads_ok_def THREAD_INDEX_MAX_def split: if_splits)
  note c = composed_pid [OF pid small(1)]
  have "get_thread_from_index ?d (uint (GET_THREAD_INDEX (?out ! j))) = Some (ths ! j)" if "j < length ths" for j
    using c(2) [OF that] small [OF that] that len a(2) by (simp add: get_thread_from_index_def threads_ok_def THREAD_INDEX_MAX_def)
  moreover have "?out ! j = ?out ! l \<longleftrightarrow> ths ! j = ths ! l" if "j < length ths" "l < length ths" for j l
    using thread_ids.numbers_distinct [OF a(2,3) that] c(2) [OF that(1)] c(2) [OF that(2)] that len by (auto dest: arg_cong [of _ _ GET_THREAD_INDEX])
  ultimately show ?thesis
    using ths get_threads_loop_eq [OF a(1)] a(2) len c(1) by (intro exI [of _ ?out] exI [of _ ?d]) (simp add: darwin_get_threads_def)
qed

lemma flat_threads_ok [simp]: "threads_ok (flat_darwin k)" "thread_entry (flat_darwin k) = Map.empty"
  by (simp_all add: threads_ok_def thread_entry_def fun_eq_iff)

theorem darwin_thread_numbers_witness:
  "\<exists>out d'. darwin_get_threads flat_mach (flat_darwin flat_task0) (flat_inferior 100) = Some (COMMAND_ERROR_NONE, Some out, d') \<and>
    threads_ok d' \<and> length out = 2 \<and> GET_PID (out ! 1) = 1234 \<and>
    get_thread_from_index d' (uint (GET_THREAD_INDEX (out ! 1))) = Some 200 \<and> out ! 0 \<noteq> out ! 1"
proof -
  have "card (ran (thread_entry (flat_darwin flat_task0)) \<union> set [100, 200]) \<le> THREAD_INDEX_MAX" by (simp add: THREAD_INDEX_MAX_def)
  moreover have "task_threads flat_mach (mk (flat_darwin flat_task0)) (os_task (flat_inferior 100)) = (Inr [100, 200], flat_task0)"
    by (simp add: flat_task0_def)
  moreover have "d_pid (flat_inferior 100) < 2 ^ 17" by (simp add: word_less_def)
  ultimately obtain out d' where w: "darwin_get_threads flat_mach (flat_darwin flat_task0) (flat_inferior 100) = Some (COMMAND_ERROR_NONE, Some out, d')"
    "threads_ok d'" "length out = length [100 :: thread, 200]"
    "\<forall>j < length [100 :: thread, 200]. GET_PID (out ! j) = d_pid (flat_inferior 100) \<and>
      get_thread_from_index d' (uint (GET_THREAD_INDEX (out ! j))) = Some ([100, 200] ! j)"
    "\<forall>j < length [100 :: thread, 200]. \<forall>l < length [100 :: thread, 200]. out ! j = out ! l \<longleftrightarrow> [100 :: thread, 200] ! j = [100, 200] ! l"
    using darwin_thread_numbers [OF flat_threads_ok(1)] by blast
  have "GET_PID (out ! 1) = 1234" "get_thread_from_index d' (uint (GET_THREAD_INDEX (out ! 1))) = Some 200" "out ! 0 \<noteq> out ! 1"
    using w(4) [rule_format, of 1] w(5) [rule_format, of 0 1] by simp_all
  then show ?thesis using w(1-3) by auto
qed

section \<open>Memory\<close>

text \<open>
  The documented behaviour of the calls on a task's memory, for ranges of whole pages: \<open>M\<close> is the memory, \<open>P\<close> the protection of
  each byte's page and \<open>A\<close> the mapped addresses. \<open>vm_region\<close> returns a region of uniform protection around the address,
  \<open>vm_protect\<close> changes protections and nothing else, \<open>vm_write\<close> writes to what is writable.
\<close>

abbreviation region_span :: "vm_region_list \<Rightarrow> guint32 set" where
  "region_span r \<equiv> span (region_start r) (unat (region_length r))"

abbreviation vm_same :: "('k \<Rightarrow> bool) \<Rightarrow> ('k \<Rightarrow> 32 mem) \<Rightarrow> ('k \<Rightarrow> guint32 \<Rightarrow> vm_prot) \<Rightarrow> 'k \<Rightarrow> 'k \<Rightarrow> bool" where
  "vm_same good M P k k' \<equiv> good k' \<and> M k' = M k \<and> P k' = P k"

definition page_aligned :: "guint32 \<Rightarrow> bool" where
  "page_aligned x \<longleftrightarrow> trunc_page x = x"

definition vm_region_ok :: "guint32 set \<Rightarrow> (guint32 \<Rightarrow> vm_prot) \<Rightarrow> vm_region_list \<Rightarrow> bool" where
  "vm_region_ok A P r \<longleftrightarrow> region_span r \<subseteq> A \<and> (\<forall>x \<in> region_span r. P x = region_protection r) \<and>
     page_aligned (region_start r) \<and> page_aligned (region_length r) \<and> unat (region_start r) + unat (region_length r) < 2 ^ 32"

definition darwin_vm ::
  "('k, 'f) mach \<Rightarrow> task \<Rightarrow> guint32 set \<Rightarrow> ('k \<Rightarrow> bool) \<Rightarrow> ('k \<Rightarrow> 32 mem) \<Rightarrow> ('k \<Rightarrow> guint32 \<Rightarrow> vm_prot) \<Rightarrow> bool" where
  "darwin_vm K t A good M P \<longleftrightarrow> (\<forall>k. good k \<longrightarrow>
     (\<forall>a n. page_aligned a \<and> page_aligned n \<and> span a (unat n) \<subseteq> A \<longrightarrow>
        (\<exists>k'. vm_read K k t a n = (Some (load (M k) a (unat n)), k') \<and> vm_same good M P k k')) \<and>
     (\<forall>a \<in> A. \<exists>r k'. vm_region K k t a = (Some r, k') \<and> vm_same good M P k k' \<and> vm_region_ok A (P k) r \<and>
        region_start r \<le> a \<and> unat a < unat (region_start r) + unat (region_length r)) \<and>
     (\<forall>a n p. page_aligned a \<and> page_aligned n \<and> span a (unat n) \<subseteq> A \<longrightarrow> (\<exists>k'. vm_protect K k t a n p = (True, k') \<and> good k' \<and> M k' = M k \<and>
        P k' = (\<lambda>x. if x \<in> span a (unat n) then p else P k x))) \<and>
     (\<forall>a n bs. page_aligned a \<and> page_aligned n \<and> length bs = unat n \<and> (\<forall>x \<in> span a (unat n). x \<in> A \<and> P k x AND VM_PROT_WRITE \<noteq> 0) \<longrightarrow>
        (\<exists>k'. vm_write K k t a bs = (True, k') \<and> good k' \<and> M k' = store (M k) a bs \<and> P k' = P k)) \<and>
     (\<exists>k'. vm_deallocate K k = (True, k') \<and> vm_same good M P k k'))"

lemma darwin_vmD:
  assumes "darwin_vm K t A good M P" and "good k"
  shows "page_aligned a \<Longrightarrow> page_aligned n \<Longrightarrow> span a (unat n) \<subseteq> A \<Longrightarrow>
        \<exists>k'. vm_read K k t a n = (Some (load (M k) a (unat n)), k') \<and> vm_same good M P k k'"
    and "b \<in> A \<Longrightarrow> \<exists>r k'. vm_region K k t b = (Some r, k') \<and> vm_same good M P k k' \<and> vm_region_ok A (P k) r \<and>
        region_start r \<le> b \<and> unat b < unat (region_start r) + unat (region_length r)"
    and "page_aligned c \<Longrightarrow> page_aligned m \<Longrightarrow> span c (unat m) \<subseteq> A \<Longrightarrow> \<exists>k'. vm_protect K k t c m p = (True, k') \<and> good k' \<and> M k' = M k \<and>
        P k' = (\<lambda>x. if x \<in> span c (unat m) then p else P k x)"
    and "page_aligned e \<Longrightarrow> page_aligned l \<Longrightarrow> length bs = unat l \<Longrightarrow> \<forall>x \<in> span e (unat l). x \<in> A \<and> P k x AND VM_PROT_WRITE \<noteq> 0 \<Longrightarrow>
        \<exists>k'. vm_write K k t e bs = (True, k') \<and> good k' \<and> M k' = store (M k) e bs \<and> P k' = P k"
    and "\<exists>k'. vm_deallocate K k = (True, k') \<and> vm_same good M P k k'"
  using assms unfolding darwin_vm_def by blast+

lemma in_span_iff:
  assumes "unat a + n < 2 ^ 32"
  shows "x \<in> span (a :: guint32) n \<longleftrightarrow> unat a \<le> unat x \<and> unat x < unat a + n"
proof (cases "a \<le> x")
  case True
  then show ?thesis by (auto simp: span_def unat_sub word_le_nat_alt)
next
  case False
  then have "unat (x - a) = unat x + 2 ^ 32 - unat a"
    by (simp add: unat_sub_if' word_le_nat_alt)
  then show ?thesis using False assms by (auto simp: span_def word_le_nat_alt)
qed

lemma next_region:
  assumes "vm_region_ok A P r" and "unat a < unat (region_start r) + unat (region_length r)"
  shows "unat (region_start r + region_length r) = unat (region_start r) + unat (region_length r)"
    "unat a < unat (region_start r + region_length r)"
  using assms by (simp_all add: vm_region_ok_def unat_plus_if')

text \<open>The regions from an address on are collected, whatever they are, and cover everything up to the end.\<close>

lemma collect_regions_ok:
  assumes vm: "darwin_vm K t A good M P" and "good k" and "\<And>x. a \<le> x \<Longrightarrow> x < stop \<Longrightarrow> x \<in> A"
  shows "\<exists>rs k'. collect_regions K k t a stop head = Some (False, rs @ head, k') \<and> vm_same good M P k k' \<and>
    (\<forall>r \<in> set rs. vm_region_ok A (P k) r) \<and> (\<forall>x. a \<le> x \<and> x < stop \<longrightarrow> (\<exists>r \<in> set rs. x \<in> region_span r))"
  using assms(2,3)
proof (induction "unat stop - unat a" arbitrary: a k head rule: less_induct)
  case less
  show ?case
  proof (cases "a < stop")
    case False
    then show ?thesis using less.prems by (subst collect_regions.simps) (auto simp: not_less)
  next
    case True
    then have "a \<in> A" using less.prems(2) by simp
    then obtain r k1 where r: "vm_region K k t a = (Some r, k1)" "vm_same good M P k k1" "vm_region_ok A (P k) r"
      "region_start r \<le> a" "unat a < unat (region_start r) + unat (region_length r)"
      using darwin_vmD(2) [OF vm less.prems(1)] by blast
    let ?b = "region_start r + region_length r"
    note b = next_region [OF r(3,5)]
    have "unat stop - unat ?b < unat stop - unat a" using True b by (simp add: word_less_nat_alt)
    moreover have "x \<in> A" if "?b \<le> x" "x < stop" for x
      using less.prems(2) [of x] that b(2) by (simp add: word_le_nat_alt)
    ultimately obtain rs k2 where k2: "collect_regions K k1 t ?b stop (r # head) = Some (False, rs @ r # head, k2)"
      "vm_same good M P k1 k2" "\<forall>r \<in> set rs. vm_region_ok A (P k1) r"
      "\<forall>x. ?b \<le> x \<and> x < stop \<longrightarrow> (\<exists>r \<in> set rs. x \<in> region_span r)"
      using less.hyps [of ?b k1 "r # head"] r(2) by blast
    have here: "x \<in> region_span r" if "a \<le> x" "\<not> ?b \<le> x" for x
      using that r(3,4) b(1) by (subst in_span_iff) (auto simp: vm_region_ok_def word_le_nat_alt)
    show ?thesis
      using True r(1,2,3) k2 here by (subst collect_regions.simps) (auto intro!: exI [of _ "rs @ [r]"])
  qed
qed

text \<open>Changing the protection of the regions that are not writable, from their original protection \<open>P0\<close>.\<close>

definition read_only :: "vm_region_list list \<Rightarrow> guint32 \<Rightarrow> bool" where
  "read_only rs x \<longleftrightarrow> (\<exists>r \<in> set rs. region_protection r AND VM_PROT_WRITE = 0 \<and> x \<in> region_span r)"

lemma protect_regions_ok:
  assumes vm: "darwin_vm K t A good M P" and "good k" and "\<forall>r \<in> set rs. vm_region_ok A P0 r"
  shows "\<exists>k'. protect_regions K t f rs fail k = (fail, k') \<and> good k' \<and> M k' = M k \<and>
    P k' = (\<lambda>x. if read_only rs x then f (P0 x) else P k x)"
  using assms(2,3)
proof (induction rs arbitrary: k)
  case (Cons r rs)
  have r: "region_span r \<subseteq> A" "\<forall>x \<in> region_span r. P0 x = region_protection r" "page_aligned (region_start r)"
    "page_aligned (region_length r)" using Cons.prems(2) by (auto simp: vm_region_ok_def)
  show ?case
  proof (cases "region_protection r AND VM_PROT_WRITE = 0")
    case True
    obtain k1 where k1: "vm_protect K k t (region_start r) (region_length r) (f (region_protection r)) = (True, k1)" "good k1" "M k1 = M k"
      "P k1 = (\<lambda>x. if x \<in> region_span r then f (region_protection r) else P k x)"
      using darwin_vmD(3) [OF vm Cons.prems(1) r(3,4,1)] by blast
    obtain k2 where "protect_regions K t f rs fail k1 = (fail, k2)" "good k2" "M k2 = M k1"
      "P k2 = (\<lambda>x. if read_only rs x then f (P0 x) else P k1 x)"
      using Cons.IH [OF k1(2)] Cons.prems(2) by auto
    then show ?thesis using True k1 r(2) by (auto simp: read_only_def fun_eq_iff)
  next
    case False
    then show ?thesis using Cons.IH [OF Cons.prems(1)] Cons.prems(2) by (auto simp: read_only_def)
  qed
qed (simp add: read_only_def)

lemma write_bit: "(p OR VM_PROT_WRITE) AND VM_PROT_WRITE \<noteq> 0"
proof -
  have "(p OR VM_PROT_WRITE) AND VM_PROT_WRITE = VM_PROT_WRITE" by (rule bit_word_eqI) (auto simp: bit_simps)
  then show ?thesis by simp
qed

text \<open>Pages.\<close>

lemma unat_less_32: "unat (x :: guint32) < 2 ^ 32"
  using unsigned_less [of x] by simp

lemma ucast_64_32: "(ucast (ucast (x :: guint32) :: guint64) :: guint32) = x"
  by (rule bit_word_eqI) (simp add: bit_simps)

lemma unat_trunc_page: "unat (trunc_page x) = unat x div 4096 * 4096"
proof -
  have m: "(0xfff :: guint32) = mask 12" by (simp add: mask_eq_exp_minus_1)
  have "trunc_page x = push_bit 12 (drop_bit 12 x)"
    unfolding trunc_page_def m by (rule bit_word_eqI) (auto simp: bit_simps)
  moreover have "unat x div 4096 * 4096 < 2 ^ 32" using unat_less_32 [of x] by (simp add: le_less_trans)
  ultimately show ?thesis
    by (simp add: push_bit_eq_mult drop_bit_eq_div unat_word_ariths unat_div)
qed

lemma page_range:
  fixes a :: guint32
  assumes "unat a + n + 4095 < 2 ^ 32"
  defines "low \<equiv> low_address (ucast a)" and "len \<equiv> aligned_length (ucast a) (of_nat n)"
  shows "unat low \<le> unat a" "unat a + n \<le> unat low + unat len" "unat low + unat len < 2 ^ 32" "a = low + of_nat (unat (a - low))"
    "unat (a - low) + n \<le> unat len" "unat (low + len) = unat low + unat len"
proof -
  have u: "(ucast (ucast a + ucast (of_nat n :: guint32) :: guint64) :: guint32) = a + of_nat n"
    by (simp add: ucast_add_down ucast_64_32)
  have "unat (a + of_nat n + 0xfff) = unat a + n + 4095" using assms(1) by (simp add: unat_plus_if' unat_of_nat_small)
  then have r: "unat (round_page (a + of_nat n)) = (unat a + n + 4095) div 4096 * 4096" by (simp add: round_page_def unat_trunc_page)
  have l: "unat low = unat a div 4096 * 4096" by (simp add: low_def low_address_def unat_trunc_page ucast_64_32)
  show 1: "unat low \<le> unat a" using l by simp
  have ge: "unat low \<le> unat (round_page (a + of_nat n))" unfolding l r by (intro mult_le_mono1 div_le_mono) simp
  have len: "unat len = unat (round_page (a + of_nat n)) - unat low"
    using ge by (simp add: len_def aligned_length_def u low_def [symmetric] unat_sub word_le_nat_alt)
  have "unat a + n \<le> (unat a + n + 4095) div 4096 * 4096" by linarith
  then show 2: "unat a + n \<le> unat low + unat len" using len ge r by simp
  show 3: "unat low + unat len < 2 ^ 32" using len ge unat_less_32 [of "round_page (a + of_nat n)"] by simp
  show "a = low + of_nat (unat (a - low))" by simp
  have "unat (a - low) = unat a - unat low" using 1 by (simp add: unat_sub word_le_nat_alt)
  then show "unat (a - low) + n \<le> unat len" using 1 2 by simp
  show "unat (low + len) = unat low + unat len" using 3 by (simp add: unat_plus_if')
qed

lemma page_aligned_iff: "page_aligned x \<longleftrightarrow> 4096 dvd unat x"
proof -
  have "page_aligned x \<longleftrightarrow> unat (trunc_page x) = unat x"
    by (simp add: page_aligned_def word_unat_eq_iff)
  also have "\<dots> \<longleftrightarrow> unat x mod 4096 = 0" unfolding unat_trunc_page using div_mult_mod_eq [of "unat x" 4096] by linarith
  finally show ?thesis by (simp add: dvd_eq_mod_eq_0)
qed

lemma low_address_aligned: "page_aligned (low_address a)"
  by (simp add: page_aligned_iff low_address_def unat_trunc_page)

lemma aligned_length_aligned:
  fixes a :: guint32
  assumes "unat a + n + 4095 < 2 ^ 32"
  shows "page_aligned (aligned_length (ucast a) (of_nat n))"
proof -
  note pr = page_range [OF assms]
  have "low_address (ucast a) + aligned_length (ucast a) (of_nat n) = round_page (ucast (ucast a + ucast (of_nat n :: guint32) :: guint64))"
    by (simp add: aligned_length_def)
  then have "4096 dvd unat (low_address (ucast a)) + unat (aligned_length (ucast a) (of_nat n))"
    unfolding pr(6) [symmetric] by (simp add: round_page_def unat_trunc_page)
  then show ?thesis using low_address_aligned [of "ucast a"] by (simp add: page_aligned_iff dvd_add_right_iff)
qed

lemma get_bytes_load: "off + n \<le> N \<Longrightarrow> get_bytes off n (load m a N) = load m (a + of_nat off) n"
  by (rule nth_equalityI) (auto simp: get_bytes_def add.assoc)

lemma store_put_bytes:
  fixes a :: "'w::len word"
  assumes "off + length bs \<le> n" and "n \<le> 2 ^ LENGTH('w)"
  shows "store m a (put_bytes off bs (load m a n)) = store m (a + of_nat off) bs"
proof -
  have "store m a (put_bytes off bs (load m a n)) x = store m (a + of_nat off) bs x" for x
  proof -
    let ?j = "unat (x - a)"
    have j: "?j < 2 ^ LENGTH('w)" by (rule unsigned_less)
    have x: "a + of_nat ?j = x" by simp
    have eq: "x - (a + of_nat off) = (x - a) - of_nat off" by simp
    show ?thesis
    proof (cases "off \<le> ?j")
      case True
      then have "off < 2 ^ LENGTH('w)" using j by linarith
      then have "unat (of_nat off :: 'w word) = off" by (rule unat_of_nat_small)
      then have "unat (x - (a + of_nat off)) = ?j - off"
        unfolding eq using True by (simp add: unat_sub word_le_nat_alt)
      then show ?thesis using True assms x by (auto simp: store_def put_bytes_def nth_append)
    next
      case False
      have "length bs \<le> unat (x - (a + of_nat off))"
      proof (cases "bs = []")
        case False
        then have "off < 2 ^ LENGTH('w)" using assms by (cases bs) auto
        then have "unat (of_nat off :: 'w word) = off" by (rule unat_of_nat_small)
        then show ?thesis
          unfolding eq unat_sub_if' [of "x - a"] using \<open>\<not> off \<le> ?j\<close> assms by auto
      qed simp
      then show ?thesis using False assms x by (auto simp: store_def put_bytes_def nth_append)
    qed
  qed
  then show ?thesis by blast
qed

text \<open>The three steps between reading and releasing the pages: all regions become writable, the pages are written, and the regions
  get their protection back.\<close>

lemma write_regions_ok:
  assumes vm: "darwin_vm K t A good M P" and good: "good k" and rs: "\<forall>r \<in> set rs. vm_region_ok A (P k) r"
    and cover: "\<And>x. x \<in> span low (unat len) \<Longrightarrow> x \<in> A \<and> (\<exists>r \<in> set rs. x \<in> region_span r)"
    and al: "page_aligned low" "page_aligned len" and n: "length bs = unat len"
  shows "\<exists>k'. (let (fail, k) = protect_regions K t (\<lambda>p. p OR VM_PROT_WRITE) rs False k; (ok, k) = vm_write K k t low bs in
      protect_regions K t (\<lambda>p. p) rs (fail \<or> \<not> ok) k) = (False, k') \<and>
    good k' \<and> M k' = store (M k) low bs \<and> P k' = P k"
proof -
  obtain k3 where k3: "protect_regions K t (\<lambda>p. p OR VM_PROT_WRITE) rs False k = (False, k3)" "good k3" "M k3 = M k"
    "P k3 = (\<lambda>x. if read_only rs x then P k x OR VM_PROT_WRITE else P k x)"
    using protect_regions_ok [OF vm good rs, of "\<lambda>p. p OR VM_PROT_WRITE" False] by blast
  have writable: "x \<in> A \<and> P k3 x AND VM_PROT_WRITE \<noteq> 0" if x: "x \<in> span low (unat len)" for x
  proof -
    obtain r where r: "r \<in> set rs" "x \<in> region_span r" using cover [OF x] by blast
    have prot: "P k x = region_protection r" using rs r by (auto simp: vm_region_ok_def)
    have "P k3 x AND VM_PROT_WRITE \<noteq> 0"
    proof (cases "read_only rs x")
      case True
      then show ?thesis unfolding k3(4) using write_bit by simp
    next
      case False
      then have "region_protection r AND VM_PROT_WRITE \<noteq> 0" using r unfolding read_only_def by blast
      then show ?thesis unfolding k3(4) using False prot by simp
    qed
    then show ?thesis using cover [OF x] by blast
  qed
  obtain k4 where k4: "vm_write K k3 t low bs = (True, k4)" "good k4" "M k4 = store (M k3) low bs" "P k4 = P k3"
    using darwin_vmD(4) [OF vm k3(2) al n] writable by blast
  obtain k5 where k5: "protect_regions K t (\<lambda>p. p) rs False k4 = (False, k5)" "good k5" "M k5 = M k4"
    "P k5 = (\<lambda>x. if read_only rs x then P k x else P k4 x)"
    using protect_regions_ok [OF vm k4(2) rs, of "\<lambda>p. p" False] by blast
  have "P k5 = P k" using k5(4) k4(4) k3(4) by auto
  then show ?thesis using k3 k4 k5 by simp
qed

text \<open>
  C21. Writing memory on Darwin, for any length and alignment, over any number of regions and whether or not they are
  writable: the call returns and succeeds, exactly the bytes of the buffer are written, every page has the protection it
  had before, and reading the range returns the buffer.
\<close>

theorem darwin_write_read_memory:
  assumes vm: "darwin_vm K (os_task ih) A good M P" and k: "good (mk d)"
    and n: "unat (a :: guint32) + length buf + 4095 < 2 ^ 32"
    and mapped: "span (low_address (ucast a)) (unat (aligned_length (ucast a) (of_nat (length buf)))) \<subseteq> A"
  shows "\<exists>k'. darwin_write_memory K d ih (ucast a) buf = Some (COMMAND_ERROR_NONE, d\<lparr> mk := k' \<rparr>) \<and> good k' \<and>
    M k' = store (M (mk d)) a buf \<and> P k' = P (mk d) \<and>
    (\<exists>d'. darwin_priv_read_memory K (d\<lparr> mk := k' \<rparr>) ih (ucast a) (of_nat (length buf)) = Some (COMMAND_ERROR_NONE, Some buf, d'))"
proof -
  let ?t = "os_task ih" and ?low = "low_address (ucast a)" and ?len = "aligned_length (ucast a) (of_nat (length buf))"
  let ?off = "unat (a - ?low)" and ?k = "mk d"
  note pr = page_range [OF n] and al = low_address_aligned [of "ucast a"] aligned_length_aligned [OF n]
  obtain k1 where k1: "vm_read K ?k ?t ?low ?len = (Some (load (M ?k) ?low (unat ?len)), k1)" "vm_same good M P ?k k1"
    using darwin_vmD(1) [OF vm k al mapped] by blast
  have range: "x \<in> span ?low (unat ?len) \<longleftrightarrow> ?low \<le> x \<and> x < ?low + ?len" for x
    using pr(3,6) by (simp add: in_span_iff word_le_nat_alt word_less_nat_alt)
  have inA: "x \<in> A" if "?low \<le> x" "x < ?low + ?len" for x using range mapped that by blast
  obtain rs k2 where k2: "collect_regions K k1 ?t ?low (?low + ?len) [] = Some (False, rs, k2)" "vm_same good M P k1 k2"
    "\<forall>r \<in> set rs. vm_region_ok A (P ?k) r" "\<forall>x. ?low \<le> x \<and> x < ?low + ?len \<longrightarrow> (\<exists>r \<in> set rs. x \<in> region_span r)"
    using collect_regions_ok [OF vm conjunct1 [OF k1(2)], of ?low "?low + ?len" "[]", OF inA] k1(2) by auto
  have same: "good k2" "M k2 = M ?k" "P k2 = P ?k" using k1(2) k2(2) by simp_all
  let ?new = "put_bytes ?off buf (load (M ?k) ?low (unat ?len))"
  have len: "length ?new = unat ?len" using pr(5) by simp
  have cover: "x \<in> A \<and> (\<exists>r \<in> set rs. x \<in> region_span r)" if "x \<in> span ?low (unat ?len)" for x
    using that mapped k2(4) range [of x] by blast
  obtain k5 where k5: "(let (fail, k) = protect_regions K ?t (\<lambda>p. p OR VM_PROT_WRITE) rs False k2; (ok, k) = vm_write K k ?t ?low ?new in
      protect_regions K ?t (\<lambda>p. p) rs (fail \<or> \<not> ok) k) = (False, k5)" "good k5" "M k5 = store (M ?k) ?low ?new" "P k5 = P ?k"
    using write_regions_ok [OF vm same(1), of rs ?low ?len ?new] k2(3) cover al len unfolding same by blast
  obtain k6 where k6: "vm_deallocate K k5 = (True, k6)" "vm_same good M P k5 k6" using darwin_vmD(5) [OF vm k5(2)] by blast
  have P: "P k6 = P ?k" using k6(2) k5(4) by simp
  have M: "M k6 = store (M ?k) a buf"
    using store_put_bytes [of ?off buf "unat ?len" "M ?k" ?low] pr(3,4,5) k6(2) k5(3) by simp
  have written: "darwin_write_memory K d ih (ucast a) buf = Some (COMMAND_ERROR_NONE, d\<lparr> mk := k6 \<rparr>)"
    using k1(1) k2(1) k5(1) k6(1) pr(5) len
    by (simp add: darwin_write_memory_def Let_def ucast_64_32 split: prod.splits)
  obtain k7 where k7: "vm_read K k6 ?t ?low ?len = (Some (load (M k6) ?low (unat ?len)), k7)"
    using darwin_vmD(1) [OF vm _ al mapped] k6(2) by blast
  have "unat (of_nat (length buf) :: guint32) = length buf" using n by (intro unat_of_nat_small) simp
  moreover have "get_bytes ?off (length buf) (load (M k6) ?low (unat ?len)) = buf"
    using load_store_same [of buf "M ?k" a] n pr(4,5) by (simp add: get_bytes_load M)
  ultimately have "\<exists>d'. darwin_priv_read_memory K (d\<lparr> mk := k6 \<rparr>) ih (ucast a) (of_nat (length buf)) = Some (COMMAND_ERROR_NONE, Some buf, d')"
    using k7 pr(5) by (simp add: darwin_priv_read_memory_def Let_def ucast_64_32)
  then show ?thesis using written M P k6(2) by blast
qed

text \<open>Making memory executable adds a bit to protections and changes nothing else.\<close>

definition grows :: "vm_prot \<Rightarrow> vm_prot \<Rightarrow> bool" where
  "grows p q \<longleftrightarrow> q = p \<or> q = p OR VM_PROT_EXECUTE"

lemma execute_bit: "(p OR VM_PROT_EXECUTE) AND VM_PROT_EXECUTE \<noteq> 0"
proof -
  have "(p OR VM_PROT_EXECUTE) AND VM_PROT_EXECUTE = VM_PROT_EXECUTE" by (rule bit_word_eqI) (auto simp: bit_simps)
  then show ?thesis by simp
qed

lemma grows_refl [simp]: "grows p p" "grows p (p OR VM_PROT_EXECUTE)"
  by (simp_all add: grows_def)

lemma grows_trans: "grows p q \<Longrightarrow> grows q r \<Longrightarrow> grows p r"
  by (auto simp: grows_def or.assoc)

lemma grows_execute: "grows p q \<Longrightarrow> p AND VM_PROT_EXECUTE \<noteq> 0 \<Longrightarrow> q AND VM_PROT_EXECUTE \<noteq> 0"
  using execute_bit by (auto simp: grows_def)

text \<open>One round of the loop, which ends at the region's end or continues there.\<close>

lemma make_executable_region:
  assumes vm: "darwin_vm K t A good M P" and "good k" and "a \<in> A" and "a < stop"
  obtains r k' where "make_executable_loop K k t a stop = make_executable_loop K k' t (region_start r + region_length r) stop"
    "good k'" "M k' = M k" "\<And>x. grows (P k x) (P k' x)" "\<And>x. x \<in> region_span r \<Longrightarrow> P k' x AND VM_PROT_EXECUTE \<noteq> 0"
    "vm_region_ok A (P k) r" "region_start r \<le> a" "unat a < unat (region_start r) + unat (region_length r)"
proof -
  obtain r k1 where r: "vm_region K k t a = (Some r, k1)" "vm_same good M P k k1" "vm_region_ok A (P k) r"
    "region_start r \<le> a" "unat a < unat (region_start r) + unat (region_length r)"
    using darwin_vmD(2) [OF vm assms(2,3)] by blast
  have span: "region_span r \<subseteq> A" "\<And>x. x \<in> region_span r \<Longrightarrow> P k x = region_protection r"
    "page_aligned (region_start r)" "page_aligned (region_length r)"
    using r(3) by (auto simp: vm_region_ok_def)
  show thesis
  proof (cases "region_protection r AND VM_PROT_EXECUTE = 0")
    case True
    obtain k2 where k2: "vm_protect K k1 t (region_start r) (region_length r) (region_protection r OR VM_PROT_EXECUTE) = (True, k2)"
      "good k2" "M k2 = M k1" "P k2 = (\<lambda>x. if x \<in> region_span r then region_protection r OR VM_PROT_EXECUTE else P k1 x)"
      using darwin_vmD(3) [OF vm conjunct1 [OF r(2)] span(3,4,1)] by blast
    show thesis
      by (rule that [of k2 r]) (use True r k2 span(2) assms(4) execute_bit in \<open>auto simp: make_executable_loop.simps [of K k t a]\<close>)
  next
    case False
    show thesis
      by (rule that [of k1 r]) (use False r span(2) assms(4) in \<open>auto simp: make_executable_loop.simps [of K k t a]\<close>)
  qed
qed

lemma make_executable_loop_ok:
  assumes vm: "darwin_vm K t A good M P" and "good k" and "\<And>x. a \<le> x \<Longrightarrow> x < stop \<Longrightarrow> x \<in> A"
  shows "\<exists>k'. make_executable_loop K k t a stop = Some (COMMAND_ERROR_NONE, k') \<and> good k' \<and> M k' = M k \<and>
    (\<forall>x. grows (P k x) (P k' x)) \<and> (\<forall>x. a \<le> x \<and> x < stop \<longrightarrow> P k' x AND VM_PROT_EXECUTE \<noteq> 0)"
  using assms(2,3)
proof (induction "unat stop - unat a" arbitrary: a k rule: less_induct)
  case less
  show ?case
  proof (cases "a < stop")
    case False
    then show ?thesis using less.prems by (subst make_executable_loop.simps) (auto simp: not_less)
  next
    case True
    then have "a \<in> A" using less.prems(2) by simp
    then obtain r k1 where r: "make_executable_loop K k t a stop = make_executable_loop K k1 t (region_start r + region_length r) stop"
      "good k1" "M k1 = M k" "\<And>x. grows (P k x) (P k1 x)" "\<And>x. x \<in> region_span r \<Longrightarrow> P k1 x AND VM_PROT_EXECUTE \<noteq> 0"
      "vm_region_ok A (P k) r" "region_start r \<le> a" "unat a < unat (region_start r) + unat (region_length r)"
      using make_executable_region [OF vm less.prems(1) _ True, of thesis] by metis
    let ?b = "region_start r + region_length r"
    note b = next_region [OF r(6,8)]
    have "unat stop - unat ?b < unat stop - unat a" using True b by (simp add: word_less_nat_alt)
    moreover have "x \<in> A" if "?b \<le> x" "x < stop" for x
      using less.prems(2) [of x] that b(2) by (simp add: word_le_nat_alt)
    ultimately obtain k2 where k2: "make_executable_loop K k1 t ?b stop = Some (COMMAND_ERROR_NONE, k2)" "good k2" "M k2 = M k1"
      "\<forall>x. grows (P k1 x) (P k2 x)" "\<forall>x. ?b \<le> x \<and> x < stop \<longrightarrow> P k2 x AND VM_PROT_EXECUTE \<noteq> 0"
      using less.hyps [of ?b k1] r(2) by blast
    have here: "x \<in> region_span r" if "a \<le> x" "\<not> ?b \<le> x" for x
      using that r(6,7) b(1) by (subst in_span_iff) (auto simp: vm_region_ok_def word_le_nat_alt)
    have "P k2 x AND VM_PROT_EXECUTE \<noteq> 0" if "a \<le> x" "x < stop" for x
      using k2(5) here that r(5) grows_execute k2(4) by (cases "?b \<le> x") blast+
    then show ?thesis using r(1,3,4) k2 by (auto intro: grows_trans)
  qed
qed

text \<open>
  C23. \<open>_server_ptrace_make_memory_executable\<close> on Darwin returns: its loop over the regions of the range ends, whatever their
  number and sizes, without an error. Afterwards every page of the range is executable, no protection has changed
  otherwise than by that bit, and memory is as before.
\<close>

theorem darwin_make_executable_ends:
  assumes vm: "darwin_vm K (os_task ih) A good M P" and k: "good (mk d)" and n: "unat (a :: guint32) + n + 4095 < 2 ^ 32"
    and mapped: "span (low_address (ucast a)) (unat (aligned_length (ucast a) (of_nat n))) \<subseteq> A"
  shows "\<exists>k'. darwin_make_memory_executable K d ih (ucast a) (of_nat n) = Some (COMMAND_ERROR_NONE, d\<lparr> mk := k' \<rparr>) \<and> good k' \<and>
    M k' = M (mk d) \<and> (\<forall>x. P k' x = P (mk d) x \<or> P k' x = P (mk d) x OR VM_PROT_EXECUTE) \<and>
    (\<forall>j < n. P k' (a + of_nat j) AND VM_PROT_EXECUTE \<noteq> 0)"
proof -
  let ?low = "low_address (ucast a)" and ?len = "aligned_length (ucast a) (of_nat n)"
  note pr = page_range [OF n]
  have "x \<in> span ?low (unat ?len) \<longleftrightarrow> ?low \<le> x \<and> x < ?low + ?len" for x
    using pr(3,6) by (simp add: in_span_iff word_le_nat_alt word_less_nat_alt)
  then have "x \<in> A" if "?low \<le> x" "x < ?low + ?len" for x using mapped that by blast
  then obtain k' where k': "make_executable_loop K (mk d) (os_task ih) ?low (?low + ?len) = Some (COMMAND_ERROR_NONE, k')" "good k'"
    "M k' = M (mk d)" "\<forall>x. grows (P (mk d) x) (P k' x)" "\<forall>x. ?low \<le> x \<and> x < ?low + ?len \<longrightarrow> P k' x AND VM_PROT_EXECUTE \<noteq> 0"
    using make_executable_loop_ok [OF vm k, of ?low "?low + ?len"] by blast
  have "?low \<le> a + of_nat j \<and> a + of_nat j < ?low + ?len" if "j < n" for j
  proof -
    have "unat (a + of_nat j) = unat a + j" using n that by (simp add: unat_plus_if' unat_of_nat_small)
    then show ?thesis using pr(1,2,6) that by (simp add: word_le_nat_alt word_less_nat_alt)
  qed
  then show ?thesis using k' by (auto simp: darwin_make_memory_executable_def grows_def)
qed

text \<open>The concrete task satisfies the hypotheses.\<close>

definition flat_mapped :: "guint32 set" where
  "flat_mapped = {x. unat x < 2 ^ 32 - 4096}"

abbreviation flat_prot :: "flat_task \<Rightarrow> guint32 \<Rightarrow> vm_prot" where
  "flat_prot k x \<equiv> ft_prot k (unat x div 4096)"

lemma span_flat_mapped:
  assumes "span a n \<subseteq> flat_mapped" and "0 < n"
  shows "unat a + n \<le> 2 ^ 32 - 4096"
proof (rule ccontr)
  assume far: "\<not> ?thesis"
  have "a \<in> span a n" using assms(2) by (simp add: span_def)
  then have a: "unat a < 2 ^ 32 - 4096" using assms(1) by (auto simp: flat_mapped_def)
  let ?x = "of_nat (2 ^ 32 - 4096) :: guint32"
  have x: "unat ?x = 2 ^ 32 - 4096" by (rule unat_of_nat_small) simp
  then have "unat (?x - a) = 2 ^ 32 - 4096 - unat a" using a by (simp add: unat_sub word_le_nat_alt)
  then have "?x \<in> span a n" using far a by (simp add: span_def)
  then show False using assms(1) x by (auto simp: flat_mapped_def)
qed

lemma flat_region_ok:
  assumes "a \<in> flat_mapped"
  shows "vm_region_ok flat_mapped (flat_prot k) \<lparr> region_protection = ft_prot k (unat a div 4096), region_start = trunc_page a, region_length = 4096 \<rparr>"
proof -
  let ?q = "unat a div 4096"
  have top: "unat (trunc_page a) + 4096 \<le> 2 ^ 32 - 4096" using assms by (simp add: unat_trunc_page flat_mapped_def)
  have "unat x < 2 ^ 32 - 4096" "unat x div 4096 = ?q" if "x \<in> span (trunc_page a) 4096" for x
  proof -
    have x: "?q * 4096 \<le> unat x" "unat x < ?q * 4096 + 4096" using that top by (simp_all add: in_span_iff unat_trunc_page)
    then show "unat x div 4096 = ?q" by (intro div_nat_eqI) simp_all
    show "unat x < 2 ^ 32 - 4096" using x top by (simp add: unat_trunc_page)
  qed
  then show ?thesis using top by (auto simp: vm_region_ok_def flat_mapped_def page_aligned_iff unat_trunc_page)
qed

lemma flat_protect:
  assumes "page_aligned a" and "page_aligned n" and "span a (unat n) \<subseteq> flat_mapped"
  shows "(unat a div 4096 \<le> unat x div 4096 \<and> 4096 * (unat x div 4096) < unat a + unat n) \<longleftrightarrow> x \<in> span a (unat n)"
proof (cases "unat n = 0")
  case False
  then have small: "unat a + unat n < 2 ^ 32" using span_flat_mapped [OF assms(3)] by simp
  obtain i where i: "unat a = 4096 * i" using assms(1) by (auto simp: page_aligned_iff)
  obtain j where j: "unat n = 4096 * j" using assms(2) by (auto simp: page_aligned_iff)
  have sum: "unat a + unat n = 4096 * (i + j)" using i j by simp
  have upper: "4096 * (unat x div 4096) < 4096 * m \<longleftrightarrow> unat x < 4096 * m" for m :: nat
    using div_less_iff_less_mult [of 4096 "unat x" m] by (simp add: mult.commute)
  have lower: "unat a div 4096 \<le> unat x div 4096 \<longleftrightarrow> unat a \<le> unat x"
    unfolding i by (simp add: less_eq_div_iff_mult_less_eq mult.commute)
  show ?thesis unfolding in_span_iff [OF small] lower unfolding sum upper ..
next
  case True
  obtain i where "unat a = 4096 * i" using assms(1) by (auto simp: page_aligned_iff)
  then show ?thesis using True by (simp add: span_def)
qed

lemma flat_darwin_vm: "darwin_vm flat_mach t flat_mapped (\<lambda>_. True) ft_mem flat_prot"
  unfolding darwin_vm_def
proof (intro allI impI conjI ballI, goal_cases)
  case (2 k a)
  have "trunc_page a \<le> a" "unat a < unat (trunc_page a) + 4096" by (simp_all add: word_le_nat_alt unat_trunc_page)
  then show ?case using flat_region_ok [OF 2(2)] by simp
next
  case (3 k a n p)
  then show ?case using flat_protect [of a n] by (simp add: fun_eq_iff)
qed auto

text \<open>Sixteen bytes over the border of two pages that may only be read and executed.\<close>

lemma flat_two_pages:
  "low_address (ucast (0x1ffa :: guint32)) = 0x1000" "aligned_length (ucast (0x1ffa :: guint32)) 16 = 0x2000"
  "span 0x1000 0x2000 \<subseteq> flat_mapped"
  by (simp_all add: low_address_def aligned_length_def trunc_page_def round_page_def)
     (auto simp: in_span_iff flat_mapped_def)

theorem darwin_write_read_memory_witness:
  "\<exists>k'. darwin_write_memory flat_mach (flat_darwin flat_task0) (flat_inferior 100) (ucast (0x1ffa :: guint32)) (replicate 16 0xab) =
      Some (COMMAND_ERROR_NONE, (flat_darwin flat_task0)\<lparr> mk := k' \<rparr>) \<and>
    ft_mem k' = store (ft_mem flat_task0) 0x1ffa (replicate 16 0xab) \<and> flat_prot k' = flat_prot flat_task0"
  using darwin_write_read_memory [OF flat_darwin_vm, where d = "flat_darwin flat_task0" and a = "0x1ffa" and buf = "replicate 16 0xab" and ih = "flat_inferior 100"] flat_two_pages
  by auto

theorem darwin_make_executable_ends_witness:
  "\<exists>k'. darwin_make_memory_executable flat_mach (flat_darwin flat_task0) (flat_inferior 100) (ucast (0x1ffa :: guint32)) 16 =
      Some (COMMAND_ERROR_NONE, (flat_darwin flat_task0)\<lparr> mk := k' \<rparr>) \<and> ft_mem k' = ft_mem flat_task0 \<and>
    flat_prot k' 0x1ffa AND VM_PROT_EXECUTE \<noteq> 0"
proof -
  obtain k' where w: "darwin_make_memory_executable flat_mach (flat_darwin flat_task0) (flat_inferior 100) (ucast (0x1ffa :: guint32)) (of_nat 16) =
      Some (COMMAND_ERROR_NONE, (flat_darwin flat_task0)\<lparr> mk := k' \<rparr>)" "ft_mem k' = ft_mem (mk (flat_darwin flat_task0))"
    "\<forall>j < 16. flat_prot k' (0x1ffa + of_nat j) AND VM_PROT_EXECUTE \<noteq> 0"
    using darwin_make_executable_ends [OF flat_darwin_vm, where d = "flat_darwin flat_task0" and a = "0x1ffa" and n = 16 and ih = "flat_inferior 100"] flat_two_pages by auto
  then show ?thesis using w(3) [rule_format, of 0] by auto
qed

section \<open>The arguments of a process\<close>

text \<open>A string followed by its zero byte.\<close>

definition terminated :: "string \<Rightarrow> string" where
  "terminated a = a @ [CHR 0x00]"

definition arg_ok :: "string \<Rightarrow> bool" where
  "arg_ok a \<longleftrightarrow> a \<noteq> [] \<and> CHR 0x00 \<notin> set a"

text \<open>What \<open>KERN_PROCARGS2\<close> returns: the number of arguments, the path of the executable with its padding, the arguments, and
  the environment.\<close>

definition procargs :: "string \<Rightarrow> nat \<Rightarrow> string list \<Rightarrow> string \<Rightarrow> string" where
  "procargs exe padding args env =
     map (\<lambda>b. char_of (unat b)) (le32 (of_nat (length args))) @ terminated exe @ replicate padding (CHR 0x00) @
     concat (map terminated args) @ env"

lemma c_string_terminated: "CHR 0x00 \<notin> set a \<Longrightarrow> c_string (terminated a @ b) = a"
  by (induction a) (auto simp: c_string_def terminated_def)

text \<open>The scan goes over the characters of a string, and stops after the last argument.\<close>

lemma procargs_scan:
  "CHR 0x00 \<notin> set s \<Longrightarrow> procargs_loop num arg (s @ rest) i exe args = procargs_loop num arg rest i exe args"
proof (induction s)
  case (Cons c s)
  then show ?case by (subst procargs_loop.simps) auto
qed simp

lemma procargs_stop: "num < i \<Longrightarrow> i \<noteq> 0 \<Longrightarrow> procargs_loop num arg rest i exe args = (exe, args)"
proof (induction rest)
  case (Cons c rest)
  then show ?case by (subst procargs_loop.simps) simp
qed (simp add: procargs_loop.simps)

lemma procargs_take:
  assumes "arg_ok a" and "i = 0 \<or> i \<le> num"
  shows "procargs_loop num (terminated a @ rest) (drop 1 (terminated a @ rest)) i exe args =
    (let cp = dropWhile (\<lambda>c. c = CHR 0x00) rest in
     procargs_loop num cp (drop 1 cp) (i + 1) (if i = 0 then Some a else exe) (if i = 0 then args else args @ [a]))"
proof -
  obtain c cs where a: "a = c # cs" using assms(1) by (cases a) (auto simp: arg_ok_def)
  have z: "CHR 0x00 \<notin> set a" "CHR 0x00 \<notin> set cs" using assms(1) a by (auto simp: arg_ok_def)
  have "drop 1 (terminated a @ rest) = cs @ CHR 0x00 # rest" by (simp add: a terminated_def)
  moreover have "\<not> (i \<noteq> 0 \<and> num < i)" using assms(2) by auto
  ultimately show ?thesis
    using a c_string_terminated [OF z(1)] procargs_scan [OF z(2), of num "terminated a @ rest" "CHR 0x00 # rest"]
    by (auto simp: procargs_loop.simps [of num _ "CHR 0x00 # rest"] Let_def)
qed

lemma procargs_first:
  assumes "arg_ok a"
  shows "procargs_loop num (terminated a @ rest) (terminated a @ rest) i exe args =
    procargs_loop num (terminated a @ rest) (drop 1 (terminated a @ rest)) i exe args"
proof -
  obtain c cs where "a = c # cs" "c \<noteq> CHR 0x00" using assms by (cases a) (auto simp: arg_ok_def)
  then show ?thesis using procargs_scan [of "[c]"] by (simp add: terminated_def)
qed

lemma skip_zeros:
  "dropWhile (\<lambda>c. c = CHR 0x00) (replicate n (CHR 0x00) @ xs) = dropWhile (\<lambda>c. c = CHR 0x00) xs"
  by (rule dropWhile_append2) simp

text \<open>
  The strings after the executable's: the scan takes those that are not empty, as many as are left to take.
  What follows the last of them (\<open>tail\<close>) is not looked at, if they are enough.
\<close>

lemma procargs_args:
  assumes "\<forall>a \<in> set strs. CHR 0x00 \<notin> set a" and "1 \<le> i" and "num = i - 1 + int n"
    and "tail = [] \<or> n \<le> length (filter (\<lambda>a. a \<noteq> []) strs)"
  shows "(let cp = dropWhile (\<lambda>c. c = CHR 0x00) (replicate k (CHR 0x00) @ concat (map terminated strs) @ tail) in
     procargs_loop num cp (drop 1 cp) i exe acc) = (exe, acc @ take n (filter (\<lambda>a. a \<noteq> []) strs))"
  using assms
proof (induction strs arbitrary: i acc n k)
  case Nil
  then show ?case
    by (cases "n = 0") (simp_all add: procargs_stop procargs_loop.simps [where rest = "[]"] dropWhile_eq_Nil_conv)
next
  case (Cons a strs)
  show ?case
  proof (cases "a = []")
    case True
    then show ?thesis using Cons.IH [of i n 0 acc] Cons.prems by (simp add: terminated_def skip_zeros)
  next
    case False
    then obtain c cs where c: "a = c # cs" "c \<noteq> CHR 0x00" using Cons.prems(1) by (cases a) auto
    have skip: "dropWhile (\<lambda>c. c = CHR 0x00) (replicate k (CHR 0x00) @ concat (map terminated (a # strs)) @ tail) =
        terminated a @ concat (map terminated strs) @ tail"
      using c by (simp add: skip_zeros terminated_def)
    show ?thesis
    proof (cases n)
      case 0
      then show ?thesis using Cons.prems by (simp add: procargs_stop)
    next
      case (Suc n')
      have "arg_ok a" using False Cons.prems(1) by (simp add: arg_ok_def)
      moreover have "i \<le> num" using Cons.prems Suc by simp
      ultimately show ?thesis unfolding skip Let_def
        using Cons.IH [of "i + 1" n' 0 "acc @ [a]"] Cons.prems Suc False by (subst procargs_take) (simp_all add: Let_def)
    qed
  qed
qed

lemma procargs_count:
  assumes "n < 2 ^ 31"
  shows "sint (le_word (map of_char (map (\<lambda>b. char_of (unat b)) (le32 (of_nat n)))) :: guint32) = int n"
proof -
  have "uint (of_nat n :: guint32) = int n" using assms by (simp add: uint_nat unat_of_nat_small)
  then have s: "sint (of_nat n :: guint32) = int n" using assms by (simp add: sint_uint signed_take_bit_int_eq_self)
  have "(of_char (char_of (unat b)) :: guint8) = b" for b :: guint8
  proof -
    have "(of_char (char_of (unat b)) :: guint8) = of_nat (of_char (char_of (unat b)))" by (simp only: of_nat_of_char)
    moreover have "unat b < 256" using unsigned_less [of b] by simp
    ultimately show ?thesis by simp
  qed
  then have "map of_char (map (\<lambda>b. char_of (unat b)) (le32 (of_nat n))) = le32 (of_nat n)" by (simp add: comp_def)
  then show ?thesis using s by (simp add: le_word_le_bytes)
qed

text \<open>
  C26. \<open>server_ptrace_get_application\<close> on Darwin, on any block the kernel returns for an executable, its arguments and its
  environment, with any padding: it finds the path of the executable, and of the strings behind it the first that are not
  empty, as many as there are arguments. These are exactly the arguments if none of them is empty; an empty
  argument is passed over, and for each of them a string of the environment is taken for an argument.
\<close>

theorem darwin_get_application_args:
  assumes "sysctl_argmax K (mk d) = Some m"
    and "sysctl_procargs K (mk d) (d_pid ih) m = Some (procargs exe padding args (concat (map terminated env) @ tail))"
    and "arg_ok exe" and "\<forall>a \<in> set (args @ env). CHR 0x00 \<notin> set a" and "length args < 2 ^ 31"
    and "tail = [] \<or> length args \<le> length (filter (\<lambda>a. a \<noteq> []) (args @ env))"
  shows "darwin_get_application K d ih =
      Some (Inr (Some exe, ''/'', take (length args) (filter (\<lambda>a. a \<noteq> []) (args @ env)))) \<and>
    ([] \<notin> set args \<longrightarrow> darwin_get_application K d ih = Some (Inr (Some exe, ''/'', args)))"
proof -
  let ?block = "procargs exe padding args (concat (map terminated env) @ tail)"
  have "length (map (\<lambda>b. char_of (unat b) :: char) (le32 (of_nat (length args)))) = 4" by simp
  then have split: "take 4 ?block = map (\<lambda>b. char_of (unat b)) (le32 (of_nat (length args)))"
    "drop 4 ?block = terminated exe @ replicate padding (CHR 0x00) @ concat (map terminated (args @ env)) @ tail"
    "\<not> length ?block < 4"
    by (simp_all add: procargs_def)
  have "procargs_loop (int (length args)) (drop 4 ?block) (drop 4 ?block) 0 None [] =
      (Some exe, take (length args) (filter (\<lambda>a. a \<noteq> []) (args @ env)))"
    unfolding split procargs_first [OF assms(3)] procargs_take [OF assms(3) disjI1 [OF refl]]
    using procargs_args [OF assms(4) _ _ assms(6), of 1 "int (length args)" padding "Some exe" "[]"] by simp
  then have "darwin_get_application K d ih =
      Some (Inr (Some exe, ''/'', take (length args) (filter (\<lambda>a. a \<noteq> []) (args @ env))))"
    using assms(1,2) split procargs_count [OF assms(5)] by (simp add: darwin_get_application_def)
  moreover have "filter (\<lambda>a. a \<noteq> []) args = args" if "[] \<notin> set args" using that by (induction args) auto
  ultimately show ?thesis by simp
qed

text \<open>With an empty argument, and without.\<close>

theorem darwin_get_application_args_witness:
  "darwin_get_application flat_mach
      (flat_darwin (flat_task0\<lparr> ft_args := procargs ''/bin/ls'' 3 [''ls'', [], ''-l''] (concat (map terminated [''HOME=/'']) @ []) \<rparr>))
      (flat_inferior 100) = Some (Inr (Some ''/bin/ls'', ''/'', [''ls'', ''-l'', ''HOME=/''])) \<and>
   darwin_get_application flat_mach
      (flat_darwin (flat_task0\<lparr> ft_args := procargs ''/bin/ls'' 3 [''ls'', ''-l''] (concat (map terminated [''HOME=/'']) @ ''end'') \<rparr>))
      (flat_inferior 100) = Some (Inr (Some ''/bin/ls'', ''/'', [''ls'', ''-l'']))"
  using darwin_get_application_args [of flat_mach
      "flat_darwin (flat_task0\<lparr> ft_args := procargs ''/bin/ls'' 3 [''ls'', [], ''-l''] (concat (map terminated [''HOME=/'']) @ []) \<rparr>)"
      4096 "flat_inferior 100" "''/bin/ls''" 3 "[''ls'', [], ''-l'']" "[''HOME=/'']" "[]"]
    darwin_get_application_args [of flat_mach
      "flat_darwin (flat_task0\<lparr> ft_args := procargs ''/bin/ls'' 3 [''ls'', ''-l''] (concat (map terminated [''HOME=/'']) @ ''end'') \<rparr>)"
      4096 "flat_inferior 100" "''/bin/ls''" 3 "[''ls'', ''-l'']" "[''HOME=/'']" "''end''"]
  by (simp add: arg_ok_def)

end
