(* ===== verification/Darwin_Control.thy ===== *)
theory Darwin_Control
  imports Darwin_Properties
begin

text \<open>
  Running threads on Darwin: which threads run while one of them is stepped and that the others are put back by the wait, that a stopped thread
  holds back its process, and what happens after an inferior was finalized.
\<close>

lemma upd_inferior_sel [simp]:
  "mk (upd_inferior p f d) = mk d" "g_inferior_list (upd_inferior p f d) = g_inferior_list d"
  "inferiors (upd_inferior p f d) = (inferiors d)(p := map_option f (inferiors d p))"
  "g_stepping_thread (upd_inferior p f d) = g_stepping_thread d" "g_stepping_task (upd_inferior p f d) = g_stepping_task d"
  "g_wait_thread (upd_inferior p f d) = g_wait_thread d" "g_thread_index_count (upd_inferior p f d) = g_thread_index_count d"
  "threads_ok (upd_inferior p f d) = threads_ok d" "thread_entry (upd_inferior p f d) = thread_entry d"
  by (simp_all add: upd_inferior_def threads_ok_def thread_entry_def fun_eq_iff)

section \<open>Stepping one thread\<close>

text \<open>
  The documented behaviour of the suspend counts \<open>S\<close> of the threads \<open>ths\<close> of a task: suspending and resuming count up and down
  and the other calls of \<open>server_ptrace_step\<close> and \<open>do_wait\<close> do not change them.
\<close>

abbreviation counts_same :: "('k \<Rightarrow> bool) \<Rightarrow> ('k \<Rightarrow> thread \<Rightarrow> nat) \<Rightarrow> 'k \<Rightarrow> 'k \<Rightarrow> bool" where
  "counts_same good S k k' \<equiv> good k' \<and> S k' = S k"

definition darwin_counts ::
  "('k, 'f) mach \<Rightarrow> task \<Rightarrow> thread list \<Rightarrow> ('k \<Rightarrow> bool) \<Rightarrow> ('k \<Rightarrow> thread \<Rightarrow> nat) \<Rightarrow> bool" where
  "darwin_counts K t ths good S \<longleftrightarrow> distinct ths \<and> (\<forall>k. good k \<longrightarrow>
     (\<exists>k'. task_threads K k t = (Inr ths, k') \<and> counts_same good S k k') \<and>
     (\<forall>th. good (thread_suspend K k th) \<and> S (thread_suspend K k th) = (S k)(th := S k th + 1)) \<and>
     (\<forall>th. good (thread_resume K k th) \<and> S (thread_resume K k th) = (S k)(th := S k th - 1)) \<and>
     (\<forall>th \<in> set ths. thread_suspend_count K k th = Some (S k th)) \<and>
     (\<forall>th \<in> set ths. \<exists>regs k'. thread_get_regs K k th = (Some regs, k') \<and> counts_same good S k k') \<and>
     (\<forall>th regs. counts_same good S k (snd (thread_set_regs K k th regs))) \<and>
     (\<forall>pid sig. counts_same good S k (snd (pt_step K k pid sig))) \<and>
     counts_same good S k (snd (vm_deallocate K k)) \<and>
     (\<forall>pid nohang. counts_same good S k (snd (mach_waitpid K k pid nohang))))"

lemma darwin_countsD:
  assumes "darwin_counts K t ths good S" and "good k"
  shows "\<exists>k'. task_threads K k t = (Inr ths, k') \<and> counts_same good S k k'"
    and "good (thread_suspend K k th)" "S (thread_suspend K k th) = (S k)(th := S k th + 1)"
    and "good (thread_resume K k th)" "S (thread_resume K k th) = (S k)(th := S k th - 1)"
    and "th \<in> set ths \<Longrightarrow> thread_suspend_count K k th = Some (S k th)"
    and "th \<in> set ths \<Longrightarrow> \<exists>regs k'. thread_get_regs K k th = (Some regs, k') \<and> counts_same good S k k'"
    and "counts_same good S k (snd (thread_set_regs K k th regs))"
    and "counts_same good S k (snd (pt_step K k pid sig))"
    and "counts_same good S k (snd (vm_deallocate K k))"
    and "counts_same good S k (snd (mach_waitpid K k p nohang))"
  using mp [OF spec [OF conjunct2 [OF assms(1) [unfolded darwin_counts_def]]] assms(2)] by simp_all

lemma suspend_all:
  assumes "darwin_counts K t ths good S" and "good k" and "distinct us"
  shows "good (foldl (thread_suspend K) k us) \<and>
    S (foldl (thread_suspend K) k us) = (\<lambda>th. if th \<in> set us then S k th + 1 else S k th)"
  using assms(2,3)
proof (induction us arbitrary: k)
  case (Cons u us)
  then have "good (foldl (thread_suspend K) k (u # us)) \<and> S (foldl (thread_suspend K) k (u # us)) =
    (\<lambda>th. if th \<in> set us then S (thread_suspend K k u) th + 1 else S (thread_suspend K k u) th)"
    using Cons.IH [of "thread_suspend K k u"] darwin_countsD(2) [OF assms(1) Cons.prems(1)] by simp
  then show ?case using Cons.prems(2) by (auto simp: darwin_countsD(3) [OF assms(1) Cons.prems(1)] fun_eq_iff)
qed simp

lemma resume_all:
  assumes "darwin_counts K t ths good S" and "good k" and "distinct us"
  shows "good (foldl (thread_resume K) k us) \<and>
    S (foldl (thread_resume K) k us) = (\<lambda>th. if th \<in> set us then S k th - 1 else S k th)"
  using assms(2,3)
proof (induction us arbitrary: k)
  case (Cons u us)
  then have "good (foldl (thread_resume K) k (u # us)) \<and> S (foldl (thread_resume K) k (u # us)) =
    (\<lambda>th. if th \<in> set us then S (thread_resume K k u) th - 1 else S (thread_resume K k u) th)"
    using Cons.IH [of "thread_resume K k u"] darwin_countsD(4) [OF assms(1) Cons.prems(1)] by simp
  then show ?case using Cons.prems(2) by (auto simp: darwin_countsD(5) [OF assms(1) Cons.prems(1)] fun_eq_iff)
qed simp

lemma resume_times_ok:
  assumes "darwin_counts K t ths good S" and "good k"
  shows "good (resume_times K th n k) \<and> S (resume_times K th n k) = (S k)(th := S k th - n)"
proof (induction n)
  case 0
  then show ?case using assms(2) by (simp add: resume_times_def)
next
  case (Suc n)
  then show ?case using darwin_countsD(4,5) [OF assms(1), of "resume_times K th n k" th]
    by (auto simp: resume_times_def fun_eq_iff)
qed

lemma set_trap_flag_ok:
  assumes "darwin_counts K t ths good S" and "good (mk d)" and "os_thread ih \<in> set ths"
  shows "\<exists>k'. set_trap_flag K f d ih = Some (d\<lparr> mk := k' \<rparr>) \<and> counts_same good S (mk d) k'"
proof -
  obtain regs k1 where k1: "thread_get_regs K (mk d) (os_thread ih) = (Some regs, k1)" "counts_same good S (mk d) k1"
    using darwin_countsD(7) [OF assms] by blast
  then show ?thesis using darwin_countsD(8) [OF assms(1), of k1 "os_thread ih" "f regs"]
    by (cases "thread_set_regs K k1 (os_thread ih) (f regs)")
       (auto simp: set_trap_flag_def darwin_get_registers_def darwin_set_registers_def)
qed

text \<open>What \<open>server_ptrace_step\<close> leaves behind when it succeeds.\<close>

lemma darwin_step_ok:
  assumes K: "darwin_counts K (os_task ih) ths good S" and good: "good (mk d)" and ih: "inferiors d p = Some ih"
    and th: "os_thread ih \<in> set ths" and step: "\<And>k. good k \<Longrightarrow> fst (pt_step K k (d_pid ih) (d_last_signal ih)) = 0"
  shows "\<exists>k'. darwin_step K d p = Some (COMMAND_ERROR_NONE, upd_inferior p (\<lambda>ih. ih\<lparr> d_stepping := True \<rparr>)
      (d\<lparr> mk := k', g_stepping_thread := os_thread ih, g_stepping_task := os_task ih \<rparr>)) \<and> good k' \<and>
    S k' = (\<lambda>u. if u = os_thread ih then 0 else if u \<in> set ths then S (mk d) u + 1 else S (mk d) u)"
proof -
  let ?th = "os_thread ih"
  obtain k1 where k1: "task_threads K (mk d) (os_task ih) = (Inr ths, k1)" "counts_same good S (mk d) k1"
    using darwin_countsD(1) [OF K good] by blast
  let ?k2 = "foldl (thread_suspend K) k1 ths"
  have k2: "good ?k2" "S ?k2 = (\<lambda>u. if u \<in> set ths then S (mk d) u + 1 else S (mk d) u)"
    using suspend_all [OF K conjunct1 [OF k1(2)] conjunct1 [OF K [unfolded darwin_counts_def]]] conjunct2 [OF k1(2)] by auto
  let ?k3 = "resume_times K ?th (S ?k2 ?th) ?k2"
  have k3: "good ?k3" "S ?k3 = (S ?k2)(?th := 0)" using resume_times_ok [OF K k2(1), of ?th "S ?k2 ?th"] by simp_all
  let ?d3 = "d\<lparr> mk := ?k3, g_stepping_thread := ?th, g_stepping_task := os_task ih \<rparr>"
  obtain k4 where k4: "set_trap_flag K (\<lambda>r. r\<lparr> d_eflags := d_eflags r OR 0x100 \<rparr>) ?d3 ih = Some (?d3\<lparr> mk := k4 \<rparr>)"
    "counts_same good S ?k3 k4"
    using set_trap_flag_ok [OF K, of ?d3] k3(1) th by auto
  obtain k5 where k5: "pt_step K k4 (d_pid ih) (d_last_signal ih) = (0, k5)" "counts_same good S k4 k5"
    using step [of k4] k4(2) darwin_countsD(9) [OF K, of k4 "d_pid ih" "d_last_signal ih"]
    by (cases "pt_step K k4 (d_pid ih) (d_last_signal ih)") auto
  let ?k6 = "snd (vm_deallocate K k5)"
  have k6: "counts_same good S k5 ?k6" using darwin_countsD(10) [OF K] k5(2) by blast
  have "darwin_step K d p = Some (COMMAND_ERROR_NONE, upd_inferior p (\<lambda>ih. ih\<lparr> d_stepping := True \<rparr>) (?d3\<lparr> mk := ?k6 \<rparr>))"
    using ih k1(1) k4(1) k5(1) darwin_countsD(6) [OF K k2(1) th] by (simp add: darwin_step_def upd_inferior_def)
  moreover have "S ?k6 = (\<lambda>u. if u = ?th then 0 else if u \<in> set ths then S (mk d) u + 1 else S (mk d) u)"
    using k6 k5(2) k4(2) k3(2) k2(2) by auto
  ultimately show ?thesis using k6 by (intro exI [of _ ?k6]) (simp add: upd_inferior_def)
qed

lemma get_thread_index_mk:
  assumes "threads_ok d" and "th \<in> ran (thread_entry d) \<or> g_thread_index_count d < THREAD_INDEX_MAX"
  shows "\<exists>i d'. get_thread_index K t th d = Some (COMMAND_ERROR_NONE, Some (int i), d') \<and> mk d' = mk d \<and>
    g_stepping_thread d' = g_stepping_thread d"
proof (cases "th \<in> ran (thread_entry d)")
  case True
  then obtain i where "thread_entry d i = Some th" by (auto simp: ran_def)
  then show ?thesis using get_thread_index_known [OF assms(1)] by blast
next
  case False
  then have "g_thread_list d ! j \<noteq> th" if "j < g_thread_index_count d" for j
    using that ranI [of "thread_entry d" j th] by (auto simp: thread_entry_def)
  then have "first_index (\<lambda>i. g_thread_list d ! i = th) 0 (g_thread_index_count d) = None" by (simp add: first_index_None)
  then show ?thesis using assms False by (simp add: get_thread_index_def threads_ok_def Let_def take_index_def)
qed

lemma resume_others_ok:
  assumes K: "darwin_counts K (g_stepping_task d) ths good S" and good: "good (mk d)" and "g_stepping_thread d \<noteq> -1"
  shows "\<exists>k'. resume_others K d = d\<lparr> mk := k', g_stepping_thread := -1 \<rparr> \<and> good k' \<and>
    S k' = (\<lambda>u. S (mk d) u - (if u \<in> set ths \<and> u \<noteq> g_stepping_thread d then 1 else 0))"
proof -
  obtain k1 where k1: "task_threads K (mk d) (g_stepping_task d) = (Inr ths, k1)" "counts_same good S (mk d) k1"
    using darwin_countsD(1) [OF K good] by blast
  let ?k2 = "foldl (thread_resume K) k1 (filter (\<lambda>th. th \<noteq> g_stepping_thread d) ths)"
  have "distinct (filter (\<lambda>th. th \<noteq> g_stepping_thread d) ths)" using K by (simp add: darwin_counts_def)
  then have k2: "good ?k2" "S ?k2 = (\<lambda>u. S (mk d) u - (if u \<in> set ths \<and> u \<noteq> g_stepping_thread d then 1 else 0))"
    using resume_all [OF K conjunct1 [OF k1(2)]] k1(2) by auto
  then show ?thesis using k1(1) assms(3) darwin_countsD(10) [OF K k2(1)]
    by (intro exI [of _ "snd (vm_deallocate K ?k2)"]) (simp add: resume_others_def)
qed

text \<open>
  C24. A single step on Darwin: while it runs, the stepping thread is the only one that is not suspended; and the wait that
  reports the end of the step returns and gives every other thread the suspend count it had before, so
  that a thread that ran before the step runs again and one that was suspended stays suspended.
\<close>

theorem darwin_step_then_wait:
  assumes K: "darwin_counts K (os_task ih) ths good S" and good: "good (mk d)" and ih: "inferiors d p = Some ih"
    and th: "os_thread ih \<in> set ths" "os_thread ih \<noteq> -1"
    and step: "\<And>k. good k \<Longrightarrow> fst (pt_step K k (d_pid ih) (d_last_signal ih)) = 0"
    and room: "threads_ok d" "g_wait_thread d \<in> ran (thread_entry d) \<or> g_thread_index_count d < THREAD_INDEX_MAX"
  shows "\<exists>d1. darwin_step K d p = Some (COMMAND_ERROR_NONE, d1) \<and> S (mk d1) (os_thread ih) = 0 \<and>
    (\<forall>u \<in> set ths. u \<noteq> os_thread ih \<longrightarrow> 0 < S (mk d1) u) \<and>
    (\<forall>pid ret st k. mach_waitpid K (mk d1) pid False = (Inr (ret, st), k) \<longrightarrow>
      (\<exists>r d2. darwin_do_wait K d1 pid = Some (r, Some st, d2) \<and> g_stepping_thread d2 = -1 \<and>
        S (mk d2) = (S (mk d))(os_thread ih := 0)))"
proof -
  obtain k1 where k1: "darwin_step K d p = Some (COMMAND_ERROR_NONE, upd_inferior p (\<lambda>ih. ih\<lparr> d_stepping := True \<rparr>)
      (d\<lparr> mk := k1, g_stepping_thread := os_thread ih, g_stepping_task := os_task ih \<rparr>))" "good k1"
    "S k1 = (\<lambda>u. if u = os_thread ih then 0 else if u \<in> set ths then S (mk d) u + 1 else S (mk d) u)"
    using darwin_step_ok [OF K good ih th(1) step] by blast
  define d1 where "d1 = upd_inferior p (\<lambda>ih. ih\<lparr> d_stepping := True \<rparr>)
      (d\<lparr> mk := k1, g_stepping_thread := os_thread ih, g_stepping_task := os_task ih \<rparr>)"
  have d1: "mk d1 = k1" "g_stepping_thread d1 = os_thread ih" "g_stepping_task d1 = os_task ih" by (simp_all add: d1_def)
  have wait: "\<exists>r d2. darwin_do_wait K d1 pid = Some (r, Some st, d2) \<and> g_stepping_thread d2 = -1 \<and> S (mk d2) = (S (mk d))(os_thread ih := 0)"
    if w: "mach_waitpid K (mk d1) pid False = (Inr (ret, st), k)" for pid ret st k
  proof -
    have k: "good k" "S k = S k1" using darwin_countsD(11) [OF K k1(2), of pid False] w d1(1) by simp_all
    obtain k2 where k2: "resume_others K (d1\<lparr> mk := k \<rparr>) = d1\<lparr> mk := k2, g_stepping_thread := -1 \<rparr>"
      "S k2 = (\<lambda>u. S k u - (if u \<in> set ths \<and> u \<noteq> os_thread ih then 1 else 0))"
      using resume_others_ok [of K "d1\<lparr> mk := k \<rparr>" ths good S] K k(1) th(2) d1 by auto
    have S: "S k2 = (S (mk d))(os_thread ih := 0)" unfolding k2(2) k(2) k1(3) by auto
    let ?d2 = "d1\<lparr> mk := k2, g_stepping_thread := -1 \<rparr>"
    have "threads_ok ?d2" "thread_entry ?d2 = thread_entry d" "g_wait_thread ?d2 = g_wait_thread d"
      "g_thread_index_count ?d2 = g_thread_index_count d"
      using room(1) by (simp_all add: d1_def threads_ok_def thread_entry_def upd_inferior_def fun_eq_iff)
    then obtain i d3 where "get_thread_index K 0 (g_wait_thread ?d2) ?d2 = Some (COMMAND_ERROR_NONE, Some (int i), d3)"
      "mk d3 = k2" "g_stepping_thread d3 = -1"
      using get_thread_index_mk [of ?d2 "g_wait_thread ?d2" K 0] room(2) by auto
    then show ?thesis using w k2(1) S by (simp add: darwin_do_wait_def Let_def)
  qed
  have "S (mk d1) (os_thread ih) = 0" "\<forall>u \<in> set ths. u \<noteq> os_thread ih \<longrightarrow> 0 < S (mk d1) u" using k1(3) d1(1) by simp_all
  then show ?thesis using k1(1) [folded d1_def] wait by blast
qed

lemma flat_darwin_counts: "darwin_counts flat_mach t ths (\<lambda>k. ft_threads k = ths) ft_counts" if "distinct ths"
  using that by (simp add: darwin_counts_def)

theorem darwin_step_then_wait_witness:
  "\<exists>d1 r d2. darwin_step flat_mach (flat_darwin flat_task0) 1 = Some (COMMAND_ERROR_NONE, d1) \<and> ft_counts (mk d1) 100 = 0 \<and>
    0 < ft_counts (mk d1) 200 \<and> darwin_do_wait flat_mach d1 1234 = Some (r, Some 0x057f, d2) \<and> ft_counts (mk d2) 200 = 0"
proof -
  have "ft_threads (mk (flat_darwin flat_task0)) = [100, 200]" by (simp add: flat_task0_def)
  then obtain d1 where d1: "darwin_step flat_mach (flat_darwin flat_task0) 1 = Some (COMMAND_ERROR_NONE, d1)"
    "ft_counts (mk d1) 100 = 0" "\<forall>u \<in> set [100, 200]. u \<noteq> 100 \<longrightarrow> 0 < ft_counts (mk d1) u"
    "\<forall>pid ret st k. mach_waitpid flat_mach (mk d1) pid False = (Inr (ret, st), k) \<longrightarrow>
      (\<exists>r d2. darwin_do_wait flat_mach d1 pid = Some (r, Some st, d2) \<and> g_stepping_thread d2 = -1 \<and>
        ft_counts (mk d2) = (ft_counts (mk (flat_darwin flat_task0)))(100 := 0))"
    using darwin_step_then_wait [OF flat_darwin_counts, where d = "flat_darwin flat_task0" and p = 1 and ths = "[100, 200]" and ih = "flat_inferior 100"]
    by (auto simp: THREAD_INDEX_MAX_def)
  obtain r d2 where "darwin_do_wait flat_mach d1 1234 = Some (r, Some 0x057f, d2)"
    "ft_counts (mk d2) = (ft_counts (mk (flat_darwin flat_task0)))(100 := 0)"
    using spec [OF d1(4), of 1234] by auto
  then show ?thesis using d1(1-3) by (auto simp: flat_task0_def)
qed

section \<open>Stopped and finalized threads\<close>

lemma set_trap_flag_keeps:
  assumes "set_trap_flag K f d ih = Some d'"
  shows "inferiors d' = inferiors d" "g_inferior_list d' = g_inferior_list d"
  using assms by (auto simp: set_trap_flag_def darwin_get_registers_def darwin_set_registers_def split: prod.splits option.splits)

lemma all_want_to_run_dangling:
  "q \<in> set qs \<Longrightarrow> hs q = None \<Longrightarrow> all_want_to_run hs pid qs w = None"
  by (induction qs arbitrary: w) (auto split: option.splits)

text \<open>The search goes on to the end of a list none of whose nodes is the block of the inferior, and unlinks nothing.\<close>

lemma inferior_list_unlink_none: "p \<notin> fst ` set nodes \<Longrightarrow> inferior_list_unlink p nodes = Some nodes"
  by (induction p nodes rule: inferior_list_unlink.induct) auto

text \<open>If it ever stopped at a node, that node would be used after it was freed.\<close>

lemma inferior_list_unlink_freed: "p \<in> fst ` set nodes \<Longrightarrow> inferior_list_unlink p nodes = None"
  by (induction p nodes rule: inferior_list_unlink.induct) auto

text \<open>The nodes of the list and the inferiors are different blocks, and stay so when a node is allocated.\<close>

definition nodes_separate :: "('k, 'z) darwin_scheme \<Rightarrow> bool" where
  "nodes_separate d \<longleftrightarrow> fst ` set (g_inferior_list d) \<inter> dom (inferiors d) = {}"

lemma upd_inferior_dom [simp]: "dom (inferiors (upd_inferior p f d)) = dom (inferiors d)"
  by (auto simp: upd_inferior_def)

lemma get_thread_index_keeps:
  "get_thread_index K t th d = Some (e, i, d') \<Longrightarrow> inferiors d' = inferiors d \<and> g_inferior_list d' = g_inferior_list d"
  by (auto simp: get_thread_index_def take_index_def Let_def bind_eq_Some_conv split: if_splits option.splits prod.splits sum.splits)

lemma exception_port_keeps:
  "darwin_exception_port K d p t = (ok, d') \<Longrightarrow>
     dom (inferiors d') = dom (inferiors d) \<and> g_inferior_list d' = g_inferior_list d"
  by (auto simp: darwin_exception_port_def Let_def upd_inferior_def split: if_splits option.splits prod.splits)

lemma primary_thread_keeps:
  "darwin_primary_thread K d t = Some (th, d') \<Longrightarrow> inferiors d' = inferiors d \<and> g_inferior_list d' = g_inferior_list d"
  by (auto simp: darwin_primary_thread_def split: prod.splits sum.splits list.splits)

lemma setup_inferior_list:
  assumes "darwin_setup_inferior K d node p = Some (r, d')"
  shows "dom (inferiors d') = dom (inferiors d) \<and>
    g_inferior_list d' = (if r = COMMAND_ERROR_NONE then g_inferior_list d @ [(node, p)] else g_inferior_list d)"
proof -
  obtain ih where ih: "inferiors d p = Some ih"
    using assms by (auto simp: darwin_setup_inferior_def bind_eq_Some_conv)
  obtain to k where t: "task_for_pid K (mk d) (d_pid ih) = (to, k)" by fastforce
  show ?thesis
  proof (cases to)
    case None
    then show ?thesis using assms ih t by (auto simp: darwin_setup_inferior_def)
  next
    case (Some task)
    let ?d = "upd_inferior p (\<lambda>ih. ih\<lparr> os_task := task \<rparr>) (d\<lparr> mk := k \<rparr>)"
    let ?port = "case darwin_exception_port K ?d p task of
                 (False, d) \<Rightarrow> Some (False, d)
               | (True, d) \<Rightarrow> do {
                   (th, d) \<leftarrow> darwin_primary_thread K d task;
                   Some (True, (upd_inferior p (\<lambda>ih. ih\<lparr> os_stop_exception_thread := False, os_thread := th, os_exception_thread := True \<rparr>) d)
                     \<lparr> g_wait_thread := th \<rparr>)
                 }"
    let ?mid = "if os_thread ih = 0 then ?port else Some (True, upd_inferior p (\<lambda>ih. ih\<lparr> os_exception_thread := False \<rparr>) ?d)"
    obtain ok d2 where mid: "?mid = Some (ok, d2)"
      using assms ih t Some by (auto simp: darwin_setup_inferior_def Let_def bind_eq_Some_conv)
    have "dom (inferiors d2) = dom (inferiors d) \<and> g_inferior_list d2 = g_inferior_list d"
    proof (cases "os_thread ih = 0")
      case True
      obtain b d3 where e: "darwin_exception_port K ?d p task = (b, d3)" by fastforce
      note port = exception_port_keeps [OF e]
      show ?thesis
      proof (cases b)
        case False
        then show ?thesis using mid True e port by (simp del: upd_inferior_sel(3))
      next
        assume b
        then obtain th d4 where th: "darwin_primary_thread K d3 task = Some (th, d4)"
          using mid True e by (auto simp: bind_eq_Some_conv)
        from mid True e \<open>b\<close> th port primary_thread_keeps [OF th] show ?thesis by (clarsimp simp del: upd_inferior_sel(3))
      qed
    next
      case False
      then show ?thesis using mid by (clarsimp simp del: upd_inferior_sel(3))
    qed
    moreover have "dom (inferiors d') = dom (inferiors d2) \<and>
        g_inferior_list d' = (if r = COMMAND_ERROR_NONE then g_inferior_list d2 @ [(node, p)] else g_inferior_list d2)"
    proof (cases ok)
      case False
      then show ?thesis using assms ih t Some mid by (auto simp: darwin_setup_inferior_def Let_def)
    next
      case True
      obtain ih2 where ih2: "inferiors d2 p = Some ih2"
        using assms ih t Some mid True by (auto simp: darwin_setup_inferior_def Let_def bind_eq_Some_conv)
      obtain e i d3 where g: "get_thread_index K task (os_thread ih2) d2 = Some (e, i, d3)"
        using assms ih t Some mid True ih2 by (auto simp: darwin_setup_inferior_def Let_def bind_eq_Some_conv)
      show ?thesis using assms ih t Some mid True ih2 g get_thread_index_keeps [OF g]
        by (cases i; cases "e = COMMAND_ERROR_NONE")
          (clarsimp simp: darwin_setup_inferior_def Let_def simp del: upd_inferior_sel(3))+
    qed
    ultimately show ?thesis by simp
  qed
qed

lemma setup_inferior_separate:
  assumes "darwin_setup_inferior K d node p = Some (r, d')" and "nodes_separate d" and "node \<notin> dom (inferiors d)"
  shows "nodes_separate d'"
  using assms(2,3) setup_inferior_list [OF assms(1)] unfolding nodes_separate_def by auto

lemma finalize_keeps_list:
  assumes "inferiors d p = Some ih" and "p \<notin> fst ` set (g_inferior_list d)"
  obtains d' where "darwin_finalize d p = Some d'" "g_inferior_list d' = g_inferior_list d" "inferiors d' p = None"
proof -
  have "\<exists>d'. darwin_finalize d p = Some d' \<and> g_inferior_list d' = g_inferior_list d \<and> inferiors d' p = None"
    using assms by (cases "os_exception_thread ih")
      (auto simp: darwin_finalize_def darwin_finalize_inferior_def Let_def inferior_list_unlink_none upd_inferior_sel)
  then show thesis using that by blast
qed

text \<open>
  C25. The search of \<open>_server_ptrace_finalize_inferior\<close> on Darwin compares nodes of the list with the inferior itself. As a node is
  not the block of an inferior, it finds none: the inferior is freed but stays in the list, with all its nodes.
  \<open>server_ptrace_continue\<close> reads every entry of that list, so after one thread was finalized no thread, of this or any
  other process, can be continued without a use of the freed memory.
\<close>

theorem darwin_finalize_dangles:
  assumes "inferiors d p = Some ih" and "p \<in> snd ` set (g_inferior_list d)" and "p \<notin> fst ` set (g_inferior_list d)"
  shows "\<exists>d'. darwin_finalize d p = Some d' \<and> g_inferior_list d' = g_inferior_list d \<and> p \<in> snd ` set (g_inferior_list d') \<and>
    inferiors d' p = None \<and> (\<forall>pid w. all_want_to_run (inferiors d') pid (map snd (g_inferior_list d')) w = None) \<and>
    (\<forall>q. darwin_continue K d' q = None)"
proof -
  obtain d' where keep: "g_inferior_list d' = g_inferior_list d" and fin: "darwin_finalize d p = Some d'" "inferiors d' p = None"
    by (rule finalize_keeps_list [OF assms(1,3)])
  then have d': "darwin_finalize d p = Some d'" "p \<in> set (map snd (g_inferior_list d'))" "inferiors d' p = None"
    using assms(2) by simp_all
  have "darwin_continue K d' q = None" for q
  proof (cases "inferiors d' q")
    case (Some jh)
    show ?thesis
    proof (cases "set_trap_flag K (\<lambda>r. r\<lparr> d_eflags := d_eflags r AND NOT 0x100 \<rparr>) d' jh")
      case (Some d2)
      let ?f = "\<lambda>ih. ih\<lparr> d_stepping := False, os_wants_to_run := True \<rparr>"
      have "p \<in> set (map snd (g_inferior_list d2))" "((inferiors d2)(q := map_option ?f (inferiors d2 q))) p = None"
        using set_trap_flag_keeps [OF Some] d'(2,3) by auto
      then show ?thesis using Some \<open>inferiors d' q = Some jh\<close>
        by (simp add: darwin_continue_def Let_def all_want_to_run_dangling del: fun_upd_apply)
    qed (simp add: darwin_continue_def Some)
  qed (simp add: darwin_continue_def)
  then show ?thesis using d' keep assms(2) all_want_to_run_dangling [where hs = "inferiors d'" and q = p, OF d'(2,3)]
    by (intro exI [of _ d']) simp
qed

text \<open>Before the first inferior is finalized the second can be continued, afterwards it cannot.\<close>

theorem darwin_finalize_dangles_witness:
  "(\<exists>r. darwin_continue flat_mach (flat_darwin flat_task0) 2 = Some r) \<and>
    (\<exists>d'. darwin_finalize (flat_darwin flat_task0) 1 = Some d' \<and> inferiors d' 2 = Some (flat_inferior 200) \<and>
      darwin_continue flat_mach d' 2 = None)"
proof -
  have "\<exists>r. darwin_continue flat_mach (flat_darwin flat_task0) 2 = Some r"
    by (simp add: darwin_continue_def set_trap_flag_def darwin_get_registers_def darwin_set_registers_def Let_def)
  moreover obtain d' where "darwin_finalize (flat_darwin flat_task0) 1 = Some d'" "darwin_continue flat_mach d' 2 = None"
    using darwin_finalize_dangles [of "flat_darwin flat_task0" 1 "flat_inferior 100" flat_mach] by auto
  moreover have "inferiors d' 2 = Some (flat_inferior 200)" if "darwin_finalize (flat_darwin flat_task0) 1 = Some d'" for d'
    using that by (auto simp: darwin_finalize_def darwin_finalize_inferior_def upd_inferior_def Let_def bind_eq_Some_conv)
  ultimately show ?thesis by blast
qed

end
