(* ===== verification/Spec2Isabelle.thy ===== *)
theory Spec2Isabelle
  imports Jay_Properties Windows_Properties Flat_Servers Call_Properties Server_Machine Wait_Properties Library_Properties Data_Properties
    Thread_Db Bfd_Glue Libgtop_Glue Darwin_Control
begin

text \<open>
  The native server of the Mono debugger, \<open>src/sysdeps/server/\<close>: the C library that the managed
  debugger calls to start, stop, inspect and change a target process: on Linux for the
  architectures i386 and x86_64, and in two further ports, to Darwin and to Windows. Besides it the parser
  generator \<open>jay\<close>, \<open>src/frontend/jay/\<close>, which makes the parser of the debugger's expressions when it is built.

  \<^bold>\<open>The program.\<close> \<open>library.c\<close> is the interface of the library: one function per command, each through a slot of
  the table \<open>InferiorVTable\<close> (\<open>server.h\<close>) of the platform. On Linux the table is that of \<open>x86-ptrace.c\<close>, which
  includes the text of \<open>x86-linux-ptrace.c\<close> (system calls) and of one architecture file, \<open>i386-arch.c\<close> or
  \<open>x86_64-arch.c\<close> (registers, breakpoints, calls into the target, what a stop means). \<open>breakpoints.c\<close>
  holds the tables of breakpoints, one manager per process, shared by the handles of its threads.
  A command works on one \<open>ServerHandle\<close>, which stands for one thread of the target. On Darwin \<open>x86-ptrace.c\<close>
  includes \<open>darwin-ptrace.c\<close> and \<open>darwin-thread-db.c\<close> instead (Mach ports for threads, memory and exceptions); on
  Windows \<open>x86-windows.c\<close> is a whole back end of its own, where a debugging thread talks to the target and the
  commands hand work to it through events.

  \<open>jay\<close> is a program of its own that shares nothing with the server. Its phases run one after the other and hand tables on: \<open>reader.c\<close>
  reads the grammar, \<open>lr0.c\<close> with \<open>closure.c\<close> and \<open>warshall.c\<close> builds the LR(0) machine, \<open>lalr.c\<close> the lookaheads, \<open>mkpar.c\<close>
  the parser actions without conflicts, \<open>output.c\<close> packs them into one table and writes the parser.

  \<^bold>\<open>The model.\<close> One theory per file, one definition per function, under the function's name; a
  leading underscore is written \<open>priv\<close>, and a function that differs between the architecture files has the
  prefix \<open>i386\<close> or \<open>x86_64\<close> instead of \<open>server_ptrace\<close>. A loop of a function is a definition of its own.
  \<^item> \<open>Prelude\<close>: GLib's integer types as words, bytes of words, memory as a function with bulk loads and stores.
  \<^item> \<open>Server_Types\<close>: the enums and structs of \<open>server.h\<close>, \<open>breakpoints.h\<close> and \<open>x86-arch.h\<close>.
  \<^item> \<open>Breakpoints\<close>: \<open>breakpoints.c\<close>. The structs are in an explicit store, since three containers share them and
    clients change them in place. The locale \<open>breakpoint_index\<close> is the contract of a hash table on this
    store, interpreted for the table by id and the table by address.
  \<^item> \<open>Server\<close>: the state of a command (\<open>server\<close>: the handle, the process-wide breakpoint store, the state
    of kernel and target) and the record \<open>kernel\<close> of system calls.
  \<^item> \<open>Linux_Ptrace\<close>: \<open>x86-linux-ptrace.c\<close> without waiting; \<open>Wait_Protocol\<close>: \<open>server_ptrace_global_wait\<close> and
    \<open>server_ptrace_stop_and_wait\<close>, as threads that take one step per access to shared data.
  \<^item> \<open>X86_Debug_Registers\<close>: the macros for DR7 in \<open>x86-arch.h\<close>, with the locale \<open>field_register\<close> of a word of
    independent fields, interpreted for the enable bits and for the access and length fields.
  \<^item> \<open>X86_Arch\<close>: the functions whose text the architecture files share, over the width of a word;
    \<open>I386_Arch\<close> and \<open>X86_64_Arch\<close>: the rest of the two files.
  \<^item> \<open>X86_Ptrace\<close>: \<open>x86-ptrace.c\<close>; \<open>Library\<close>: \<open>library.c\<close>, the two tables of \<open>x86-ptrace.c\<close> and the table
    of \<open>x86-windows.c\<close> over the functions it names.
  \<^item> \<open>Thread_Db\<close>, \<open>Bfd_Glue\<close> and \<open>Libgtop_Glue\<close>: \<open>thread-db.c\<close> (services that \<open>libthread_db\<close> calls back, the threads of
    the target), \<open>bfdglue.c\<close> (symbols, sections, the dynamic section, the disassembler's callbacks) and
    \<open>libgtop-glue.c\<close> (memory use and open files, from \<open>/proc\<close>), each with its library as a parameter. The
    managed debugger calls them directly; they share no state with the server.

  \<^item> \<open>Darwin_Ptrace\<close>: \<open>darwin-ptrace.c\<close> and \<open>darwin-thread-db.c\<close>, over the record \<open>mach\<close> of the Mach calls;
    the locale \<open>index_table\<close> (\<open>Darwin_Properties\<close>) is the contract of the table that numbers the threads, interpreted on it.
  \<^item> \<open>Windows\<close>: \<open>x86-windows.c\<close>, over the record \<open>win32\<close> of the Windows calls; the events between the
    command's thread and the debugging thread are part of the state \<open>windows\<close>.

  \<^item> \<open>Jay_Defs\<close>: \<open>defs.h\<close>, and \<open>grammar\<close>, the tables a grammar is read into, with the well-formedness \<open>grammar_ok\<close> of them;
    \<open>Jay_Warshall\<close>: \<open>warshall.c\<close>; \<open>Jay_Closure\<close>: \<open>closure.c\<close>; \<open>Jay_Lr0\<close>, \<open>Jay_Nullable\<close>: \<open>lr0.c\<close>; \<open>Jay_Digraph\<close>, \<open>Jay_Lalr\<close>: \<open>lalr.c\<close>;
    \<open>Jay_Mkpar\<close>: \<open>mkpar.c\<close>; \<open>Jay_Output\<close>: the tables of \<open>output.c\<close>. Lists that the source ends with a mark and chains of structs are lists.

  A command returns its \<open>ServerCommandError\<close>, its output parameters and the new state. An output parameter
  that is not written on a path is \<open>None\<close> there. A whole result \<open>None\<close> means that the call does not return normally:
  \<open>g_error\<close>, a failed \<open>g_assert\<close>, an access outside an array or through a freed pointer, a loop that never ends.
  Loops that the source does not bound (reading memory until all bytes have arrived) are \<open>partial_function\<close>s
  and have no fuel; the properties show that the result is not \<open>None\<close>. All other recursion is total.
  C integers are words where they can wrap or are converted; \<open>int\<close> is \<open>int\<close> where overflow would be undefined.

  The kernel is not part of the repository: every definition that makes a system call takes it as a
  parameter, a record of functions over an abstract state about which nothing is assumed. Properties
  that need its documented behaviour say so: \<open>target_memory\<close> (\<open>pread64\<close> on \<open>/proc/<pid>/mem\<close> and the
  peek and poke requests of \<open>ptrace\<close> access the same bytes), \<open>target_registers\<close> (what is set is read back, and
  registers and memory do not affect each other), \<open>waitpid_selects\<close> (\<open>waitpid\<close> for a process
  returns events of that process), \<open>stops_reported\<close> (\<open>waitpid\<close> does not wait for a thread that was sent \<open>SIGSTOP\<close> in vain). A
  \<open>waitpid\<close> that suspends its caller is one that the kernel answers with zero (\<open>waitpid_blocks\<close>); \<open>pread64\<close>
  is taken to return all it is asked for where it succeeds. \<open>Flat_Target\<close> and \<open>Flat_Servers\<close> give a concrete kernel and
  concrete servers that satisfy them; the witnesses evaluate the model there. In the same way the Darwin
  properties use \<open>darwin_vm\<close> (the calls on a task's memory access the same bytes, and protection is what was set
  last) and \<open>darwin_counts\<close> (suspend counts), with the concrete system in \<open>Flat_Mach\<close>, and those on Windows
  \<open>win_memory\<close>.

  \<^bold>\<open>What is shown.\<close>
  \<^item> Breakpoints (\<open>Breakpoint_Commands\<close>, \<open>Breakpoint_Memory\<close>, this theory, \<open>Library_Properties\<close>): the
    specification is a partial function from addresses to an id and a number of references, and a memory
    without any \<open>int 3\<close>. Setting and removing breakpoints refines adding and dropping a reference; the
    memory that the debugger reads never shows a breakpoint, and a breakpoint that is removed leaves no
    trace. What the commands need of an architecture is the locale \<open>breakpoint_backend\<close>, interpreted in
    \<open>I386_Arch\<close> and \<open>X86_64_Arch\<close>.
  \<^item> The whole server (\<open>Server_Machine\<close>): every command of the table is a step, in any order and with any
    results of the kernel; breakpoint data stay well formed and the mutex is released.
  \<^item> Calls (\<open>Method_Calls\<close>, \<open>Call_Properties\<close>): the block a call writes on the stack, and that the stop at its end
    reports the result and restores the caller.
  \<^item> Stops (\<open>Stop_Properties\<close>): breakpoints that are hit, instructions executed out of line.
  \<^item> Waiting (\<open>Wait_Properties\<close>): in every interleaving every event is accounted for, none is delivered twice and only an exit
    with status zero can be lost, a stopping thread gets an event of its own; no deadlock with one stopping thread whose
    target was still running, and the deadlocks with two, and with one whose target was already stopped.
  \<^item> Data (\<open>Data_Properties\<close>): round trips of registers, memory, core files, command lines, DR7;
    (\<open>Libgtop_Glue\<close>, \<open>Bfd_Glue\<close>, \<open>Thread_Db\<close>): the numbers read from \<open>/proc\<close> are those printed there, the debug entry of a
    dynamic section is found, threads are visited in order.
  \<^item> Darwin (\<open>Darwin_Properties\<close>, \<open>Darwin_Control\<close>): memory that is written is read back and keeps its protection, threads keep
    their numbers, the loop that makes memory executable ends, which strings of the block that the kernel returns
    are taken for the arguments of the target, a step runs its thread alone and the wait gives the others their suspend counts back.
  \<^item> Windows (\<open>Windows_Properties\<close>): the environment block, the command line, reads and writes that the debugging
    thread serves, and that nothing but the array of events keeps a target from being started.
  \<^item> The parser generator, each phase against a specification that does not mention its tables. \<open>Jay_Warshall\<close>, \<open>Jay_Closure\<close>,
    \<open>Jay_Nullable\<close>: Warshall's algorithm in place, the closure of a kernel, the symbols that derive the empty string.
    \<open>Jay_Lr0_Properties\<close>: the machine is the LR(0) automaton of the grammar. \<open>Jay_Digraph\<close>: \<open>digraph\<close> joins what can be reached.
    \<open>Jay_Gotos\<close>: the numbers of the gotos and their binary search. \<open>Jay_Lalr_Properties\<close>, \<open>Jay_Lookaheads\<close>: the lookaheads, as the rules
    \<open>can_read\<close> and \<open>can_follow\<close> give them on the automaton, when its tables fit (\<open>lalr_fits\<close>). \<open>Jay_Mkpar\<close>, \<open>Jay_Conflicts\<close>, \<open>Jay_Parser\<close>: the actions of a state are
    those shifts and reductions, what is left of them for a token is what precedences and rule numbers say (\<open>settled\<close>), and the default reductions are
    the rules that are all that is left in a state. \<open>Jay_Pack\<close>, \<open>Jay_Tables\<close>: the printed tables, read as \<open>skeleton.cs\<close> reads them, give the
    actions and gotos back; the packing returns when the entries are few enough (\<open>vectors_fit\<close>: then no index of the search can pass the end of
    the arrays, which grow to \<open>MAXTABLE\<close>). \<open>Jay_Properties\<close> states the properties and applies them to a grammar.
  \<^item> Defects of the code are theorems too: what \<open>call_method_2\<close> on i386 restores, signals
    lost after a call, short reads, writes over breakpoints, sign extension in DR7, empty slots, the handle
    freed on Darwin while the table still has it, breakpoints that Windows never writes, the array of edges that
    \<open>lalr.c\<close> overruns.

  \<^bold>\<open>Not modelled.\<close> In \<open>x86-windows.c\<close>, \<open>on_breakpoint_exception\<close> uses members that \<open>BreakpointInfo\<close> does not
  have, so its text has no meaning in C; it is an argument of the definitions that call it. In \<open>x86-ptrace.c\<close>,
  the code that runs in the forked child before \<open>execve\<close> is part of another process
  and is known only by what it writes into the pipe; functions that only release memory have no effect
  here. Of \<open>jay\<close>, the scanner of the grammar file (\<open>reader.c\<close>, \<open>symtab.c\<close>), the listing (\<open>verbose.c\<close>), options and messages
  (\<open>main.c\<close>, \<open>error.c\<close>) and the texts that \<open>output.c\<close> copies are input and output of text; what the phases need of the reader is
  \<open>grammar_ok\<close> and \<open>values_ok\<close>. The managed debugger (C#) is in another language; the BFD and opcodes libraries
  are third-party code.
\<close>

section \<open>Breakpoints\<close>

text \<open>C1. \<open>server_ptrace_insert_breakpoint\<close> on x86_64 refines the table of breakpoints by address. In a
  server whose invariant holds, for an address of mapped code, it returns, keeps the
  invariant, and the memory that the debugger sees is unchanged outside the runtime's table. It
  either succeeds, adding a reference to the entry of the address (with a fresh id if the
  address had none) and returning the entry's id, or, only when there is a Mono runtime, fails
  and leaves the table as it was.\<close>

theorem x86_64_insert_refines:
  fixes s :: "('k, 'f) x86_64_server"
  assumes "memory_ok K s A good M" and "last_breakpoint_id s + 1 < 2 ^ 31" and "code_byte s A address"
  shows "\<exists>r h s'. x86_64_insert_breakpoint K s address = Some (r, h, s') \<and>
    memory_ok K s' A good M \<and> runtime_area s' = runtime_area s \<and>
    (\<forall>x. x \<notin> runtime_area s \<longrightarrow> view s' (M (kern s')) x = view s (M (kern s)) x) \<and>
    (r = COMMAND_ERROR_NONE \<and>
       (let e = add_reference (last_breakpoint_id s + 1) (bp_table s address) in
        h = Some (word_of_int (fst e)) \<and> bp_table s' = (bp_table s)(address \<mapsto> e)) \<or>
     r \<noteq> COMMAND_ERROR_NONE \<and> mono_runtime s \<noteq> None \<and> h = None \<and> bp_table s' = bp_table s)"
  using insert_refines [OF x86_64_backend_axioms _ assms]
  by (simp add: x86_64_insert_breakpoint_def x86_64_enable_breakpoint_at_def)

theorem x86_64_insert_refines_witness:
  "\<exists>s. x86_64_insert_breakpoint flat_kernel server64 0x400000 = Some (COMMAND_ERROR_NONE, Some 1, s) \<and>
    memory_ok flat_kernel s UNIV (\<lambda>_. True) flat_mem \<and> bp_table s = [0x400000 \<mapsto> (1, 1)]"
  using x86_64_insert_refines [OF memory_ok_servers(1), of "0x400000"]
  by (fastforce simp: code_byte_servers add_reference_def Let_def fun_eq_iff)

text \<open>The same on i386, where an address is 32 bits wide.\<close>

theorem i386_insert_refines:
  fixes s :: "('k, 'f) i386_server"
  assumes "memory_ok K s A good M" and "last_breakpoint_id s + 1 < 2 ^ 31" and "code_byte s A address"
  shows "\<exists>r h s'. i386_insert_breakpoint K s address = Some (r, h, s') \<and>
    memory_ok K s' A good M \<and> runtime_area s' = runtime_area s \<and>
    (\<forall>x. x \<notin> runtime_area s \<longrightarrow> view s' (M (kern s')) x = view s (M (kern s)) x) \<and>
    (r = COMMAND_ERROR_NONE \<and>
       (let e = add_reference (last_breakpoint_id s + 1) (bp_table s (ucast address)) in
        h = Some (word_of_int (fst e)) \<and> bp_table s' = (bp_table s)(ucast address \<mapsto> e)) \<or>
     r \<noteq> COMMAND_ERROR_NONE \<and> mono_runtime s \<noteq> None \<and> h = None \<and> bp_table s' = bp_table s)"
  using insert_refines [OF i386_backend_axioms _ assms]
  by (simp add: i386_insert_breakpoint_def i386_enable_breakpoint_at_def)

theorem i386_insert_refines_witness:
  "\<exists>s. i386_insert_breakpoint flat_kernel server32 0x400000 = Some (COMMAND_ERROR_NONE, Some 1, s) \<and>
    memory_ok flat_kernel s UNIV (\<lambda>_. True) flat_mem \<and> bp_table s = [0x400000 \<mapsto> (1, 1)]"
  using i386_insert_refines [OF memory_ok_servers(2), of "0x400000"]
  by (fastforce simp: code_byte_servers add_reference_def Let_def fun_eq_iff)

text \<open>C2. \<open>server_ptrace_remove_breakpoint\<close> on x86_64, given the id of a breakpoint in the table:
  it succeeds, drops one reference and with the last one the entry, keeps the invariant and the
  memory that the debugger sees; removing the last reference puts the original byte back and writes
  nothing else outside the runtime's table.\<close>

theorem x86_64_remove_refines:
  fixes s :: "('k, 'f) x86_64_server"
  assumes "memory_ok K s A good M" and "bp_table s a = Some (i, n)"
  shows "\<exists>s'. x86_64_remove_breakpoint K s (word_of_int i) = Some (COMMAND_ERROR_NONE, s') \<and>
    memory_ok K s' A good M \<and> runtime_area s' = runtime_area s \<and> bp_table s' = drop_reference a (bp_table s) \<and>
    (\<forall>x. x \<notin> runtime_area s \<longrightarrow> view s' (M (kern s')) x = view s (M (kern s)) x) \<and>
    (n \<le> 1 \<longrightarrow> (\<forall>x. x \<notin> runtime_area s \<longrightarrow> M (kern s') x = (if x = a then view s (M (kern s)) x else M (kern s) x)))"
  using remove_refines [OF x86_64_backend_axioms _ assms(1) x86_64_releases assms(2)]
  by (simp add: x86_64_remove_breakpoint_def x86_64_disable_breakpoint_at_def)

theorem x86_64_remove_refines_witness:
  "\<exists>s s'. x86_64_insert_breakpoint flat_kernel server64 0x400000 = Some (COMMAND_ERROR_NONE, Some 1, s) \<and>
    x86_64_remove_breakpoint flat_kernel s 1 = Some (COMMAND_ERROR_NONE, s') \<and> bp_table s' = Map.empty"
proof -
  obtain s where s: "x86_64_insert_breakpoint flat_kernel server64 0x400000 = Some (COMMAND_ERROR_NONE, Some 1, s)"
    "memory_ok flat_kernel s UNIV (\<lambda>_. True) flat_mem" "bp_table s = [0x400000 \<mapsto> (1, 1)]" by (rule inserted64)
  then show ?thesis using x86_64_remove_refines [OF s(2), of "0x400000" 1 1] by (auto simp: drop_reference_def)
qed

text \<open>The same on i386.\<close>

theorem i386_remove_refines:
  fixes s :: "('k, 'f) i386_server"
  assumes "memory_ok K s A good M" and "bp_table s a = Some (i, n)"
  shows "\<exists>s'. i386_remove_breakpoint K s (word_of_int i) = Some (COMMAND_ERROR_NONE, s') \<and>
    memory_ok K s' A good M \<and> runtime_area s' = runtime_area s \<and> bp_table s' = drop_reference a (bp_table s) \<and>
    (\<forall>x. x \<notin> runtime_area s \<longrightarrow> view s' (M (kern s')) x = view s (M (kern s)) x) \<and>
    (n \<le> 1 \<longrightarrow> (\<forall>x. x \<notin> runtime_area s \<longrightarrow> M (kern s') x = (if x = a then view s (M (kern s)) x else M (kern s) x)))"
  using remove_refines [OF i386_backend_axioms _ assms(1) i386_releases assms(2)]
  by (simp add: i386_remove_breakpoint_def i386_disable_breakpoint_at_def)

theorem i386_remove_refines_witness:
  "\<exists>s s'. i386_insert_breakpoint flat_kernel server32 0x400000 = Some (COMMAND_ERROR_NONE, Some 1, s) \<and>
    i386_remove_breakpoint flat_kernel s 1 = Some (COMMAND_ERROR_NONE, s') \<and> bp_table s' = Map.empty"
proof -
  obtain s where s: "i386_insert_breakpoint flat_kernel server32 0x400000 = Some (COMMAND_ERROR_NONE, Some 1, s)"
    "memory_ok flat_kernel s UNIV (\<lambda>_. True) flat_mem" "bp_table s = [0x400000 \<mapsto> (1, 1)]" by (rule inserted32)
  then show ?thesis using i386_remove_refines [OF s(2), of "0x400000" 1 1] by (auto simp: drop_reference_def)
qed

text \<open>C3. A breakpoint set on x86_64 and removed again leaves no trace: while it is set the byte at
  its address is an \<open>int 3\<close>; afterwards the target's memory outside the runtime's table and the
  breakpoint table are what they were.\<close>

theorem x86_64_insert_remove_restores:
  fixes s :: "('k, 'f) x86_64_server"
  assumes "memory_ok K s A good M" and "last_breakpoint_id s + 1 < 2 ^ 31" and "code_byte s A address"
    and "bp_table s address = None"
    and "x86_64_insert_breakpoint K s address = Some (COMMAND_ERROR_NONE, h, s1)"
  shows "M (kern s1) address = 0xcc \<and>
    (\<exists>i s2. h = Some i \<and> x86_64_remove_breakpoint K s1 i = Some (COMMAND_ERROR_NONE, s2) \<and>
      (\<forall>x. x \<notin> runtime_area s \<longrightarrow> M (kern s2) x = M (kern s) x) \<and> bp_table s2 = bp_table s \<and>
      memory_ok K s2 A good M)"
  using insert_remove_restores [OF x86_64_backend_axioms _ assms(1) x86_64_releases assms(2,3), of h s1] assms(4,5)
  by (simp add: x86_64_insert_breakpoint_def x86_64_enable_breakpoint_at_def
      x86_64_remove_breakpoint_def x86_64_disable_breakpoint_at_def)

theorem x86_64_insert_remove_restores_witness:
  "\<exists>s1 s2. x86_64_insert_breakpoint flat_kernel server64 0x400000 = Some (COMMAND_ERROR_NONE, Some 1, s1) \<and>
    flat_mem (kern s1) 0x400000 = 0xcc \<and>
    x86_64_remove_breakpoint flat_kernel s1 1 = Some (COMMAND_ERROR_NONE, s2) \<and> flat_mem (kern s2) = (\<lambda>_. 0x90)"
proof -
  obtain s where s: "x86_64_insert_breakpoint flat_kernel server64 0x400000 = Some (COMMAND_ERROR_NONE, Some 1, s)"
    by (rule inserted64)
  show ?thesis
    using x86_64_insert_remove_restores [OF memory_ok_servers(1) _ code_byte_servers(1) _ s]
    by (simp add: s) (auto simp: flat64_def fun_eq_iff)
qed

text \<open>The same on i386.\<close>

theorem i386_insert_remove_restores:
  fixes s :: "('k, 'f) i386_server"
  assumes "memory_ok K s A good M" and "last_breakpoint_id s + 1 < 2 ^ 31" and "code_byte s A address"
    and "bp_table s (ucast address) = None"
    and "i386_insert_breakpoint K s address = Some (COMMAND_ERROR_NONE, h, s1)"
  shows "M (kern s1) (ucast address) = 0xcc \<and>
    (\<exists>i s2. h = Some i \<and> i386_remove_breakpoint K s1 i = Some (COMMAND_ERROR_NONE, s2) \<and>
      (\<forall>x. x \<notin> runtime_area s \<longrightarrow> M (kern s2) x = M (kern s) x) \<and> bp_table s2 = bp_table s \<and>
      memory_ok K s2 A good M)"
  using insert_remove_restores [OF i386_backend_axioms _ assms(1) i386_releases assms(2,3,4), of h s1] assms(5)
  by (simp add: i386_insert_breakpoint_def i386_enable_breakpoint_at_def
      i386_remove_breakpoint_def i386_disable_breakpoint_at_def)

theorem i386_insert_remove_restores_witness:
  "\<exists>s1 s2. i386_insert_breakpoint flat_kernel server32 0x400000 = Some (COMMAND_ERROR_NONE, Some 1, s1) \<and>
    flat_mem (kern s1) 0x400000 = 0xcc \<and>
    i386_remove_breakpoint flat_kernel s1 1 = Some (COMMAND_ERROR_NONE, s2) \<and> flat_mem (kern s2) = (\<lambda>_. 0x90)"
proof -
  obtain s where s: "i386_insert_breakpoint flat_kernel server32 0x400000 = Some (COMMAND_ERROR_NONE, Some 1, s)"
    by (rule inserted32)
  show ?thesis
    using i386_insert_remove_restores [OF memory_ok_servers(2) _ code_byte_servers(2) _ s]
    by (simp add: s) (auto simp: flat32_def fun_eq_iff)
qed

end
